(* ===== verification/Prelude.thy ===== *)
theory Prelude
  imports Main "HOL-Library.Word" "HOL-Library.List_Lexorder" "HOL-Library.Char_ord"
    "HOL-Library.Product_Lexorder"
begin

text \<open>
  What the component theories share: the fixed-width integers and their checked operations,
  the outcome of a Rust function (a value, an error value or a panic), an ordered finite map
  (\<open>BTreeMap\<close>, and \<open>BTreeSet\<close> as the map into unit) as a type of its own, and byte
  strings with the decimal printing and parsing of the Rust standard library.

  A Rust \<open>String\<close> is the list of its UTF-8 bytes: a \<open>char\<close> of HOL is a byte, so
  \<open>length\<close> is \<open>str::len\<close> and the order on \<open>string\<close> is the byte order \<open>Ord\<close> uses.
\<close>

named_theorems bt_simps "laws of the ordered map"
named_theorems inv_intros "preservation of component invariants"

section \<open>Outcomes\<close>

text \<open>
  What a Rust function that returns \<open>Result\<close> can do. \<open>Panic\<close> stands for a failed
  \<open>expect\<close> or \<open>unreachable!\<close>.
\<close>

datatype ('e, 'a) outcome = Ok 'a | Err 'e | Panic

fun is_ok :: "('e, 'a) outcome \<Rightarrow> bool" where
  "is_ok (Ok _) = True"
| "is_ok _ = False"

lemma is_ok_iff: "is_ok r \<longleftrightarrow> (\<exists>x. r = Ok x)"
  by (cases r) auto

text \<open>The question mark operator, and \<open>map_err\<close>.\<close>

fun and_then :: "('e, 'a) outcome \<Rightarrow> ('a \<Rightarrow> ('e, 'b) outcome) \<Rightarrow> ('e, 'b) outcome" where
  "and_then (Ok x) f = f x"
| "and_then (Err e) f = Err e"
| "and_then Panic f = Panic"

fun map_err :: "('e \<Rightarrow> 'f) \<Rightarrow> ('e, 'a) outcome \<Rightarrow> ('f, 'a) outcome" where
  "map_err f (Ok x) = Ok x"
| "map_err f (Err e) = Err (f e)"
| "map_err f Panic = Panic"

lemma and_then_ok: "and_then r f = Ok y \<longleftrightarrow> (\<exists>x. r = Ok x \<and> f x = Ok y)"
  by (cases r) auto

lemma map_err_ok: "map_err f r = Ok y \<longleftrightarrow> r = Ok y"
  by (cases r) auto

lemma case_outcome_ok:
  "(case r of Ok x \<Rightarrow> f x | Err e \<Rightarrow> Err (g e) | Panic \<Rightarrow> Panic) = Ok y
     \<longleftrightarrow> (\<exists>x. r = Ok x \<and> f x = Ok y)"
  by (cases r) auto

section \<open>Machine integers\<close>

type_synonym u8 = "8 word"
type_synonym u32 = "32 word"
type_synonym u64 = "64 word"

text \<open>\<open>checked_add(1)\<close> and \<open>saturating_add(1)\<close>.\<close>

definition checked_succ :: "'w::len word \<Rightarrow> 'w word option" where
  "checked_succ x = (if x = - 1 then None else Some (x + 1))"

definition saturating_succ :: "'w::len word \<Rightarrow> 'w word" where
  "saturating_succ x = (if x = - 1 then - 1 else x + 1)"

lemma unat_succ: "(x :: 'w::len word) \<noteq> - 1 \<Longrightarrow> unat (x + 1) = Suc (unat x)"
  using unatSuc [of x] by (simp add: add.commute eq_neg_iff_add_eq_0)

lemma less_succ_word: "(x :: 'w::len word) \<noteq> - 1 \<Longrightarrow> y < x + 1 \<longleftrightarrow> y \<le> x"
  by (simp add: word_less_nat_alt word_le_nat_alt unat_succ less_Suc_eq_le)

lemma checked_succ_SomeD:
  assumes "checked_succ x = Some y"
  shows "x < y" and "z < y \<longleftrightarrow> z \<le> x" and "unat y = Suc (unat x)"
  using assms by (auto simp: checked_succ_def less_succ_word unat_succ split: if_splits)

lemma checked_succ_None: "checked_succ x = None \<longleftrightarrow> x = - 1"
  by (simp add: checked_succ_def)

lemma saturating_succ_ge: "x \<le> saturating_succ (x :: 'w::len word)"
  by (auto simp: saturating_succ_def word_le_nat_alt unat_succ)

lemma saturating_succ_gt: "y < (x :: 'w::len word) \<Longrightarrow> z \<le> y \<Longrightarrow> z < saturating_succ x"
  using saturating_succ_ge [of x] by (meson order.strict_trans2 order.strict_trans1)

section \<open>The ordered map\<close>

text \<open>
  The representation is the list of entries in key order, which is what iterating a
  \<open>BTreeMap\<close> yields; the order is part of the type, so no component carries it as an
  invariant.
\<close>

typedef (overloaded) ('k, 'v) btree = "{xs :: ('k::linorder \<times> 'v) list. sorted_wrt (<) (map fst xs)}"
  morphisms bt_entries BTree
proof
  show "[] \<in> {xs :: ('k::linorder \<times> 'v) list. sorted_wrt (<) (map fst xs)}" by simp
qed

setup_lifting type_definition_btree

type_synonym 'k bset = "('k, unit) btree"

fun al_insert :: "'k::linorder \<Rightarrow> 'v \<Rightarrow> ('k \<times> 'v) list \<Rightarrow> ('k \<times> 'v) list" where
  "al_insert k v [] = [(k, v)]"
| "al_insert k v ((k', v') # m) =
     (if k < k' then (k, v) # (k', v') # m
      else if k = k' then (k, v) # m
      else (k', v') # al_insert k v m)"

lemma keys_al_insert: "set (map fst (al_insert k v m)) = insert k (set (map fst m))"
  by (induction k v m rule: al_insert.induct) auto

lemma sorted_al_insert:
  "sorted_wrt (<) (map fst m) \<Longrightarrow> sorted_wrt (<) (map fst (al_insert k v m))"
proof (induction k v m rule: al_insert.induct)
  case (2 k v k' v' m)
  then show ?case using keys_al_insert [of k v m] by auto
qed simp

lemma map_of_al_insert: "map_of (al_insert k v m) = (map_of m)(k \<mapsto> v)"
  by (induction k v m rule: al_insert.induct) (auto simp: fun_eq_iff)

lemma sorted_filter_keys:
  "sorted_wrt (<) (map fst m) \<Longrightarrow> sorted_wrt (<) (map fst (filter p m))"
  by (induction m) auto

lemma map_of_filter_sorted:
  fixes m :: "('k::linorder \<times> 'v) list"
  shows "sorted_wrt (<) (map fst m) \<Longrightarrow>
   map_of (filter (\<lambda>(k, v). p k v) m) k =
     (case map_of m k of None \<Rightarrow> None | Some v \<Rightarrow> if p k v then Some v else None)"
proof (induction m)
  case (Cons e m)
  have "\<forall>x \<in> set m. fst e < fst x" using Cons.prems by auto
  then have "map_of m (fst e) = None" by (force simp: map_of_eq_None_iff)
  with Cons show ?case by (cases e) (auto split: option.split)
qed simp

lift_definition bt_empty :: "('k::linorder, 'v) btree" is "[]" by simp

lift_definition bt_get :: "('k::linorder, 'v) btree \<Rightarrow> 'k \<Rightarrow> 'v option" is map_of .

lift_definition bt_insert :: "'k::linorder \<Rightarrow> 'v \<Rightarrow> ('k, 'v) btree \<Rightarrow> ('k, 'v) btree" is al_insert
  by (rule sorted_al_insert)

lift_definition bt_retain :: "('k::linorder \<Rightarrow> 'v \<Rightarrow> bool) \<Rightarrow> ('k, 'v) btree \<Rightarrow> ('k, 'v) btree"
  is "\<lambda>p. filter (\<lambda>(k, v). p k v)"
  by (rule sorted_filter_keys)

lift_definition bt_map :: "('k::linorder \<Rightarrow> 'v \<Rightarrow> 'w) \<Rightarrow> ('k, 'v) btree \<Rightarrow> ('k, 'w) btree"
  is "\<lambda>f. map (\<lambda>(k, v). (k, f k v))"
  by (simp add: split_def comp_def)

definition bt_remove :: "'k::linorder \<Rightarrow> ('k, 'v) btree \<Rightarrow> ('k, 'v) btree" where
  "bt_remove k = bt_retain (\<lambda>k' v. k' \<noteq> k)"

definition bt_keys :: "('k::linorder, 'v) btree \<Rightarrow> 'k list" where
  "bt_keys m = map fst (bt_entries m)"

definition bt_values :: "('k::linorder, 'v) btree \<Rightarrow> 'v list" where
  "bt_values m = map snd (bt_entries m)"

definition bt_len :: "('k::linorder, 'v) btree \<Rightarrow> nat" where
  "bt_len m = length (bt_entries m)"

definition bt_has :: "('k::linorder, 'v) btree \<Rightarrow> 'k \<Rightarrow> bool" where
  "bt_has m k = (bt_get m k \<noteq> None)"

text \<open>How many entries satisfy a predicate: \<open>iter().filter(..).count()\<close>.\<close>

definition bt_count :: "('k::linorder \<Rightarrow> 'v \<Rightarrow> bool) \<Rightarrow> ('k, 'v) btree \<Rightarrow> nat" where
  "bt_count p m = bt_len (bt_retain p m)"

definition bt_any :: "('k::linorder \<Rightarrow> 'v \<Rightarrow> bool) \<Rightarrow> ('k, 'v) btree \<Rightarrow> bool" where
  "bt_any p m = list_ex (\<lambda>(k, v). p k v) (bt_entries m)"

instantiation btree :: (linorder, equal) equal
begin
definition equal_btree :: "('a, 'b) btree \<Rightarrow> ('a, 'b) btree \<Rightarrow> bool" where
  "equal_btree a b = (bt_entries a = bt_entries b)"
instance by standard (simp add: equal_btree_def bt_entries_inject)
end

instantiation btree :: (linorder, type) size
begin
definition size_btree :: "('a, 'b) btree \<Rightarrow> nat" where
  "size_btree m = bt_len m"
instance ..
end

declare bt_empty.rep_eq [simp] bt_insert.rep_eq [simp] bt_retain.rep_eq [simp] bt_map.rep_eq [simp]

lemma entries_sorted: "sorted_wrt (<) (map fst (bt_entries m))"
  using bt_entries [of m] by simp

lemma keys_sorted: "sorted_wrt (<) (bt_keys m)"
  by (simp add: bt_keys_def entries_sorted)

lemma keys_distinct [simp]: "distinct (bt_keys m)"
  using keys_sorted [of m] by (simp add: strict_sorted_iff)

lemma entries_distinct: "distinct (map fst (bt_entries m))"
  using keys_distinct [of m] by (simp add: bt_keys_def)

lemma bt_get_empty [simp, bt_simps]: "bt_get bt_empty k = None"
  by (simp add: bt_get.rep_eq)

lemma bt_get_insert [simp, bt_simps]:
  "bt_get (bt_insert k v m) k' = (if k' = k then Some v else bt_get m k')"
  by (simp add: bt_get.rep_eq map_of_al_insert)

lemma bt_get_retain [simp, bt_simps]:
  "bt_get (bt_retain p m) k =
     (case bt_get m k of None \<Rightarrow> None | Some v \<Rightarrow> if p k v then Some v else None)"
  by (simp add: bt_get.rep_eq map_of_filter_sorted entries_sorted)

lemma bt_get_remove [simp, bt_simps]:
  "bt_get (bt_remove k m) k' = (if k' = k then None else bt_get m k')"
  by (auto simp: bt_remove_def split: option.splits)

lemma bt_get_map [simp, bt_simps]: "bt_get (bt_map f m) k = map_option (f k) (bt_get m k)"
proof -
  have "map_of (map (\<lambda>(k, v). (k, f k v)) xs) k = map_option (f k) (map_of xs k)" for xs
    by (induction xs) auto
  then show ?thesis by (simp add: bt_get.rep_eq)
qed

lemma bt_has_iff [simp]: "bt_has m k \<longleftrightarrow> (\<exists>v. bt_get m k = Some v)"
  by (auto simp: bt_has_def)

lemma in_entries: "(k, v) \<in> set (bt_entries m) \<longleftrightarrow> bt_get m k = Some v"
  by (simp add: bt_get.rep_eq entries_distinct)

lemma in_keys [simp]: "k \<in> set (bt_keys m) \<longleftrightarrow> bt_get m k \<noteq> None"
  by (auto simp: bt_keys_def bt_get.rep_eq map_of_eq_None_iff)

lemma bt_any_iff [simp]: "bt_any p m \<longleftrightarrow> (\<exists>k v. bt_get m k = Some v \<and> p k v)"
  unfolding bt_any_def list_ex_iff in_entries [symmetric] by fastforce

lemma bt_eqI:
  assumes "\<And>k. bt_get a k = bt_get b k"
  shows "a = b"
proof -
  have "set (bt_entries a) = set (bt_entries b)"
    using assms by (auto simp: in_entries)
  moreover have "sorted (map fst (bt_entries m)) \<and> distinct (map fst (bt_entries m))"
    for m :: "('a, 'b) btree"
    using entries_sorted [of m] by (simp add: strict_sorted_iff)
  ultimately have "bt_entries a = bt_entries b"
    by (intro map_sorted_distinct_set_unique [of fst]) (auto simp: distinct_map)
  then show ?thesis by (simp add: bt_entries_inject)
qed

subsection \<open>Sizes\<close>

lemma bt_len_card: "bt_len m = card {k. bt_get m k \<noteq> None}"
proof -
  have "bt_len m = length (bt_keys m)" by (simp add: bt_len_def bt_keys_def)
  also have "\<dots> = card (set (bt_keys m))" by (simp only: distinct_card keys_distinct)
  also have "set (bt_keys m) = {k. bt_get m k \<noteq> None}" by auto
  finally show ?thesis .
qed

lemma finite_keys [simp]: "finite {k. bt_get m k \<noteq> None}"
proof -
  have "{k. bt_get m k \<noteq> None} = set (bt_keys m)" by auto
  then show ?thesis by simp
qed

lemma bt_len_empty [simp]: "bt_len bt_empty = 0"
  by (simp add: bt_len_def)

lemma bt_len_insert [simp]:
  "bt_len (bt_insert k v m) = (if bt_get m k = None then Suc (bt_len m) else bt_len m)"
proof -
  have "{k'. bt_get (bt_insert k v m) k' \<noteq> None} = insert k {k'. bt_get m k' \<noteq> None}" by auto
  then show ?thesis using finite_keys [of m] by (simp add: bt_len_card insert_absorb)
qed

lemma bt_len_retain [simp]: "bt_len (bt_retain p m) \<le> bt_len m"
  by (simp add: bt_len_def)

lemma bt_len_map [simp]: "bt_len (bt_map f m) = bt_len m"
  by (simp add: bt_len_def)

lemma bt_len_remove [simp]:
  "bt_len (bt_remove k m) = (if bt_get m k = None then bt_len m else bt_len m - 1)"
proof -
  have "{k'. bt_get (bt_remove k m) k' \<noteq> None} = {k'. bt_get m k' \<noteq> None} - {k}" by auto
  then show ?thesis using finite_keys [of m] by (simp add: bt_len_card)
qed

lemma bt_len_pos: "bt_get m k = Some v \<Longrightarrow> 0 < bt_len m"
  using finite_keys [of m] by (auto simp: bt_len_card card_gt_0_iff)

lemma bt_len_mono:
  assumes "\<And>k. bt_get a k \<noteq> None \<Longrightarrow> bt_get b k \<noteq> None"
  shows "bt_len a \<le> bt_len b"
  unfolding bt_len_card by (rule card_mono [OF finite_keys]) (use assms in blast)

text \<open>The updates never make a table longer than one more entry, and the rest never grow it.\<close>

lemma bt_len_insert_le: "bt_len (bt_insert k v m) \<le> Suc (bt_len m)"
  by simp

lemma bt_len_remove_le [simp]: "bt_len (bt_remove k m) \<le> bt_len m"
  by simp

text \<open>How many entries satisfy a predicate, and how the updates change this number.\<close>

lemma bt_count_card: "bt_count p m = card {k. \<exists>v. bt_get m k = Some v \<and> p k v}"
proof -
  have "{k. bt_get (bt_retain p m) k \<noteq> None} = {k. \<exists>v. bt_get m k = Some v \<and> p k v}"
    by (auto split: option.splits)
  then show ?thesis by (simp only: bt_count_def bt_len_card)
qed

lemma finite_counted: "finite {k. \<exists>v. bt_get m k = Some v \<and> p k v}"
  by (rule finite_subset [OF _ finite_keys [of m]]) auto

lemma bt_count_mono:
  assumes "\<And>k v. bt_get a k = Some v \<Longrightarrow> p k v \<Longrightarrow> \<exists>w. bt_get b k = Some w \<and> q k w"
  shows "bt_count p a \<le> bt_count q b"
  unfolding bt_count_card using assms by (intro card_mono [OF finite_counted]) blast

lemma bt_count_insert_le: "bt_count p (bt_insert k v m) \<le> Suc (bt_count p m)"
proof -
  have "{k'. \<exists>w. bt_get (bt_insert k v m) k' = Some w \<and> p k' w}
      \<subseteq> insert k {k'. \<exists>w. bt_get m k' = Some w \<and> p k' w}" by auto
  then have "bt_count p (bt_insert k v m) \<le> card (insert k {k'. \<exists>w. bt_get m k' = Some w \<and> p k' w})"
    unfolding bt_count_card by (intro card_mono) (simp_all add: finite_counted)
  also have "\<dots> \<le> Suc (bt_count p m)" by (simp add: bt_count_card card_insert_le_m1 card_insert_if finite_counted)
  finally show ?thesis .
qed

lemma bt_count_insert_skip: "\<not> p k v \<Longrightarrow> bt_count p (bt_insert k v m) \<le> bt_count p m"
  by (rule bt_count_mono) (auto split: if_splits)

lemma bt_count_replace:
  "bt_get m k = Some w \<Longrightarrow> (p k v \<Longrightarrow> p k w) \<Longrightarrow> bt_count p (bt_insert k v m) \<le> bt_count p m"
  by (rule bt_count_mono) (auto split: if_splits)

lemma bt_count_empty [simp]: "bt_count p bt_empty = 0"
  by (simp add: bt_count_card)

section \<open>The contract of the map\<close>

text \<open>
  What the components rely on when they keep a bounded table: the lookup laws and the effect
  of each operation on the number of entries. The consequences proved here are the ones
  every bounded table of the program uses.
\<close>

locale bounded_map =
  fixes get :: "'m \<Rightarrow> 'k \<Rightarrow> 'v option"
    and ins :: "'k \<Rightarrow> 'v \<Rightarrow> 'm \<Rightarrow> 'm"
    and keep :: "('k \<Rightarrow> 'v \<Rightarrow> bool) \<Rightarrow> 'm \<Rightarrow> 'm"
    and len :: "'m \<Rightarrow> nat"
  assumes get_ins: "get (ins k v m) k' = (if k' = k then Some v else get m k')"
    and get_keep: "get (keep p m) k =
      (case get m k of None \<Rightarrow> None | Some v \<Rightarrow> if p k v then Some v else None)"
    and len_ins: "len (ins k v m) = (if get m k = None then Suc (len m) else len m)"
    and len_keep: "len (keep p m) \<le> len m"
begin

lemma ins_within: "len m < cap \<Longrightarrow> len (ins k v m) \<le> cap"
  by (simp add: len_ins)

lemma keep_within: "len m \<le> cap \<Longrightarrow> len (keep p m) \<le> cap"
  using len_keep [of p m] by simp

lemma keep_all:
  assumes "get (keep p m) k = Some v"
  shows "get m k = Some v" and "p k v"
  using assms by (auto simp: get_keep split: option.splits if_splits)

lemma ins_Some_cases:
  assumes "get (ins k v m) k' = Some w"
  obtains "k' = k" "w = v" | "k' \<noteq> k" "get m k' = Some w"
  using assms by (auto simp: get_ins split: if_splits)

end

interpretation bt: bounded_map bt_get bt_insert bt_retain bt_len
  by unfold_locales (simp_all)

lemma bt_remove_within: "bt_len m \<le> cap \<Longrightarrow> bt_len (bt_remove k m) \<le> cap"
  by (rule order_trans [OF bt_len_remove_le])

section \<open>Byte strings\<close>

definition byte :: "char \<Rightarrow> nat" where
  "byte c = of_char c"

definition is_ascii :: "string \<Rightarrow> bool" where
  "is_ascii s = list_all (\<lambda>c. byte c < 128) s"

definition ascii_digit :: "char \<Rightarrow> bool" where
  "ascii_digit c = (48 \<le> byte c \<and> byte c \<le> 57)"

definition ascii_lower :: "char \<Rightarrow> bool" where
  "ascii_lower c = (97 \<le> byte c \<and> byte c \<le> 122)"

definition ascii_upper :: "char \<Rightarrow> bool" where
  "ascii_upper c = (65 \<le> byte c \<and> byte c \<le> 90)"

definition ascii_alnum :: "char \<Rightarrow> bool" where
  "ascii_alnum c = (ascii_digit c \<or> ascii_lower c \<or> ascii_upper c)"

text \<open>
  \<open>chars().any(char::is_control)\<close> on UTF-8: the control characters are U+0000 to U+001F,
  U+007F and U+0080 to U+009F, and the last group is the byte C2 followed by 80 to 9F.
\<close>

fun has_control :: "string \<Rightarrow> bool" where
  "has_control [] = False"
| "has_control [c] = (byte c < 32 \<or> byte c = 127)"
| "has_control (c # d # s) =
     (byte c < 32 \<or> byte c = 127 \<or> (byte c = 194 \<and> 128 \<le> byte d \<and> byte d \<le> 159)
      \<or> has_control (d # s))"

text \<open>\<open>str::split(char)\<close> for an ASCII separator: a string without it is one segment.\<close>

fun split_on :: "char \<Rightarrow> string \<Rightarrow> string list" where
  "split_on d [] = [[]]"
| "split_on d (c # s) =
     (if c = d then [] # split_on d s
      else case split_on d s of [] \<Rightarrow> [[c]] | w # ws \<Rightarrow> (c # w) # ws)"

text \<open>\<open>str::rsplit_once(char)\<close>: the text before and after the last separator.\<close>

definition rsplit_once :: "char \<Rightarrow> string \<Rightarrow> (string \<times> string) option" where
  "rsplit_once d s =
     (let t = takeWhile (\<lambda>c. c \<noteq> d) (rev s); r = dropWhile (\<lambda>c. c \<noteq> d) (rev s)
      in case r of [] \<Rightarrow> None | _ # h \<Rightarrow> Some (rev h, rev t))"

text \<open>\<open>str::strip_suffix\<close>.\<close>

definition strip_suffix :: "string \<Rightarrow> string \<Rightarrow> string option" where
  "strip_suffix suf s =
     (if length suf \<le> length s \<and> drop (length s - length suf) s = suf
      then Some (take (length s - length suf) s) else None)"

lemma strip_suffix_append [simp]: "strip_suffix suf (s @ suf) = Some s"
  by (simp add: strip_suffix_def)

lemma strip_suffix_SomeD: "strip_suffix suf s = Some t \<Longrightarrow> s = t @ suf"
  by (auto simp: strip_suffix_def split: if_splits) (metis append_take_drop_id)

lemma rsplit_once_append:
  assumes "d \<notin> set t"
  shows "rsplit_once d (h @ d # t) = Some (h, t)"
proof -
  have "takeWhile (\<lambda>c. c \<noteq> d) (rev t @ d # rev h) = rev t"
    and "dropWhile (\<lambda>c. c \<noteq> d) (rev t @ d # rev h) = d # rev h"
    using assms by (auto simp: takeWhile_append dropWhile_append)
  then show ?thesis by (simp add: rsplit_once_def Let_def)
qed

section \<open>Decimal numbers\<close>

text \<open>The \<open>Display\<close> of an unsigned integer.\<close>

definition digit_char :: "nat \<Rightarrow> char" where
  "digit_char n = char_of (48 + n)"

fun show_nat :: "nat \<Rightarrow> string" where
  "show_nat n = (if n < 10 then [digit_char n] else show_nat (n div 10) @ [digit_char (n mod 10)])"

declare show_nat.simps [simp del]

definition dec_value :: "string \<Rightarrow> nat" where
  "dec_value s = foldl (\<lambda>a c. 10 * a + (byte c - 48)) 0 s"

text \<open>\<open>u64::from_str\<close>: an optional plus sign, at least one digit, no overflow.\<close>

definition parse_u64 :: "string \<Rightarrow> u64 option" where
  "parse_u64 s =
     (let d = (case s of c # r \<Rightarrow> if c = CHR ''+'' then r else s | [] \<Rightarrow> [])
      in if d = [] \<or> \<not> list_all ascii_digit d \<or> 2 ^ 64 \<le> dec_value d then None
         else Some (of_nat (dec_value d)))"

definition show_u64 :: "u64 \<Rightarrow> string" where
  "show_u64 x = show_nat (unat x)"

lemma byte_digit_char: "n < 10 \<Longrightarrow> byte (digit_char n) = 48 + n"
  by (simp add: byte_def digit_char_def of_char_of)

lemma show_nat_digits: "list_all ascii_digit (show_nat n)"
proof (induction n rule: show_nat.induct)
  case (1 n)
  moreover have "ascii_digit (digit_char m)" if "m < 10" for m
    using that by (simp add: ascii_digit_def byte_digit_char)
  ultimately show ?case by (subst show_nat.simps) auto
qed

lemma show_nat_nonempty: "show_nat n \<noteq> []"
  by (subst show_nat.simps) simp

lemma dec_value_show: "dec_value (show_nat n) = n"
proof (induction n rule: show_nat.induct)
  case (1 n)
  then show ?case by (subst show_nat.simps) (auto simp: dec_value_def byte_digit_char)
qed

lemma show_nat_inject [simp]: "show_nat a = show_nat b \<longleftrightarrow> a = b"
  by (metis dec_value_show)

lemma show_u64_inject [simp]: "show_u64 a = show_u64 b \<longleftrightarrow> a = b"
  by (simp add: show_u64_def unsigned_word_eqI word_unat_eq_iff)

lemma show_u64_no_sep: "ascii_digit d = False \<Longrightarrow> d \<notin> set (show_u64 x)"
  using show_nat_digits [of "unat x"] by (auto simp: show_u64_def list_all_iff)

lemma parse_show_u64: "parse_u64 (show_u64 x) = Some x"
proof -
  obtain c r where s: "show_u64 x = c # r"
    using show_nat_nonempty by (metis neq_Nil_conv show_u64_def)
  then have "ascii_digit c"
    using show_nat_digits [of "unat x"] by (simp add: show_u64_def)
  then have "c \<noteq> CHR ''+''" by (auto simp: ascii_digit_def byte_def)
  moreover have "dec_value (show_u64 x) < 2 ^ 64"
    using unsigned_less [of x] by (simp add: show_u64_def dec_value_show)
  moreover have "list_all ascii_digit (c # r)"
    using s show_nat_digits [of "unat x"] by (simp add: show_u64_def)
  moreover have "(of_nat (dec_value (c # r)) :: u64) = x"
    by (simp add: show_u64_def dec_value_show flip: s)
  ultimately show ?thesis using s by (simp add: parse_u64_def Let_def not_le)
qed

end
