(* ===== verification/Capabilities.thy ===== *)
theory Capabilities
  imports Prelude
begin

text \<open>
  The data of \<open>src/src/capabilities.rs\<close>: capability names, versions, scopes and scope
  instances, descriptors, the identities of providers and the error values of the
  registry. The orders derived in the source (\<open>Ord\<close>), which decide the iteration order of
  the registry's maps, are instances of \<open>linorder\<close> here.
\<close>

section \<open>Names and versions\<close>

definition MAX_CAPABILITY_NAME_BYTES :: nat where
  "MAX_CAPABILITY_NAME_BYTES = 128"

definition MAX_PROVIDER_ID_BYTES :: nat where
  "MAX_PROVIDER_ID_BYTES = 128"

definition HOST_PROVIDER_SUFFIX :: string where
  "HOST_PROVIDER_SUFFIX = '':host''"

datatype capability_name = CapabilityName (name_str: string)

datatype api_version = ApiVersion (api_get: u32)

datatype cap_validation_error =
    InvalidName string
  | InvalidApiVersion u32

definition windows2 :: "'a list \<Rightarrow> ('a \<times> 'a) list" where
  "windows2 xs = zip xs (tl xs)"

definition valid_capability_name :: "string \<Rightarrow> bool" where
  "valid_capability_name name =
     (name \<noteq> [] \<and> length name \<le> MAX_CAPABILITY_NAME_BYTES \<and> is_ascii name
      \<and> ascii_alnum (hd name) \<and> ascii_alnum (last name)
      \<and> list_all (\<lambda>b. ascii_alnum b \<or> b = CHR ''.'' \<or> b = CHR ''/'' \<or> b = CHR ''-'') name
      \<and> list_all (\<lambda>(a, b). ascii_alnum a \<or> ascii_alnum b) (windows2 name))"

definition capability_name_new :: "string \<Rightarrow> (cap_validation_error, capability_name) outcome" where
  "capability_name_new name =
     (if valid_capability_name name then Ok (CapabilityName name) else Err (InvalidName name))"

definition api_version_new :: "u32 \<Rightarrow> (cap_validation_error, api_version) outcome" where
  "api_version_new version =
     (if version = 0 then Err (InvalidApiVersion version) else Ok (ApiVersion version))"

section \<open>Scopes\<close>

datatype capability_scope = Runtime | Target | BackendSession | Thread

datatype scope_instance =
    RuntimeInst
  | TargetInst string
  | BackendSessionInst string
  | ThreadInst string

fun scope_of :: "scope_instance \<Rightarrow> capability_scope" where
  "scope_of RuntimeInst = Runtime"
| "scope_of (TargetInst _) = Target"
| "scope_of (BackendSessionInst _) = BackendSession"
| "scope_of (ThreadInst _) = Thread"

fun show_scope :: "capability_scope \<Rightarrow> string" where
  "show_scope Runtime = ''runtime''"
| "show_scope Target = ''target''"
| "show_scope BackendSession = ''backend-session''"
| "show_scope Thread = ''thread''"

fun show_scope_instance :: "scope_instance \<Rightarrow> string" where
  "show_scope_instance RuntimeInst = ''runtime''"
| "show_scope_instance (TargetInst i) = ''target:'' @ i"
| "show_scope_instance (BackendSessionInst i) = ''backend-session:'' @ i"
| "show_scope_instance (ThreadInst i) = ''thread:'' @ i"

section \<open>Descriptors\<close>

record capability_descriptor =
  cd_name :: capability_name
  cd_api :: api_version
  cd_scope :: capability_scope

definition capability_descriptor_new ::
    "string \<Rightarrow> u32 \<Rightarrow> capability_scope \<Rightarrow> (cap_validation_error, capability_descriptor) outcome" where
  "capability_descriptor_new name api scope =
     (case capability_name_new name of
        Err e \<Rightarrow> Err e
      | Panic \<Rightarrow> Panic
      | Ok n \<Rightarrow>
          (case api_version_new api of
             Err e \<Rightarrow> Err e
           | Panic \<Rightarrow> Panic
           | Ok v \<Rightarrow> Ok \<lparr>cd_name = n, cd_api = v, cd_scope = scope\<rparr>))"

definition show_descriptor :: "capability_descriptor \<Rightarrow> string" where
  "show_descriptor d =
     name_str (cd_name d) @ ''@'' @ show_nat (unat (api_get (cd_api d)))
     @ '' ['' @ show_scope (cd_scope d) @ '']''"

datatype capability_key = CapabilityKey (key_name: capability_name) (key_scope: capability_scope)

definition key_of :: "capability_descriptor \<Rightarrow> capability_key" where
  "key_of d = CapabilityKey (cd_name d) (cd_scope d)"

section \<open>Derived orders\<close>

instantiation capability_name :: linorder
begin
definition less_eq_capability_name :: "capability_name \<Rightarrow> capability_name \<Rightarrow> bool" where
  "less_eq_capability_name a b = (name_str a \<le> name_str b)"
definition less_capability_name :: "capability_name \<Rightarrow> capability_name \<Rightarrow> bool" where
  "less_capability_name a b = (name_str a < name_str b)"
instance
  by standard
    (auto simp: less_eq_capability_name_def less_capability_name_def capability_name.expand)
end

fun scope_rank :: "capability_scope \<Rightarrow> nat" where
  "scope_rank Runtime = 0"
| "scope_rank Target = 1"
| "scope_rank BackendSession = 2"
| "scope_rank Thread = 3"

lemma scope_rank_inject: "scope_rank a = scope_rank b \<longleftrightarrow> a = b"
  by (cases a; cases b) auto

instantiation capability_scope :: linorder
begin
definition less_eq_capability_scope :: "capability_scope \<Rightarrow> capability_scope \<Rightarrow> bool" where
  "less_eq_capability_scope a b = (scope_rank a \<le> scope_rank b)"
definition less_capability_scope :: "capability_scope \<Rightarrow> capability_scope \<Rightarrow> bool" where
  "less_capability_scope a b = (scope_rank a < scope_rank b)"
instance
  by standard
    (auto simp: less_eq_capability_scope_def less_capability_scope_def
      scope_rank_inject [symmetric])
end

fun scope_instance_rank :: "scope_instance \<Rightarrow> nat \<times> string" where
  "scope_instance_rank RuntimeInst = (0, [])"
| "scope_instance_rank (TargetInst i) = (1, i)"
| "scope_instance_rank (BackendSessionInst i) = (2, i)"
| "scope_instance_rank (ThreadInst i) = (3, i)"

lemma scope_instance_rank_inject:
  "scope_instance_rank a = scope_instance_rank b \<longleftrightarrow> a = b"
  by (cases a; cases b) auto

instantiation scope_instance :: linorder
begin
definition less_eq_scope_instance :: "scope_instance \<Rightarrow> scope_instance \<Rightarrow> bool" where
  "less_eq_scope_instance a b = (scope_instance_rank a \<le> scope_instance_rank b)"
definition less_scope_instance :: "scope_instance \<Rightarrow> scope_instance \<Rightarrow> bool" where
  "less_scope_instance a b = (scope_instance_rank a < scope_instance_rank b)"
instance
proof
  fix x y z :: scope_instance
  show "(x < y) = (x \<le> y \<and> \<not> y \<le> x)"
    by (simp add: less_eq_scope_instance_def less_scope_instance_def less_le_not_le)
  show "x \<le> x" by (simp add: less_eq_scope_instance_def)
  show "x \<le> y \<Longrightarrow> y \<le> z \<Longrightarrow> x \<le> z"
    unfolding less_eq_scope_instance_def by (rule order_trans)
  show "x \<le> y \<Longrightarrow> y \<le> x \<Longrightarrow> x = y"
    using antisym scope_instance_rank_inject unfolding less_eq_scope_instance_def by metis
  show "x \<le> y \<or> y \<le> x"
    unfolding less_eq_scope_instance_def by (rule linear)
qed
end

instantiation capability_key :: linorder
begin
definition less_eq_capability_key :: "capability_key \<Rightarrow> capability_key \<Rightarrow> bool" where
  "less_eq_capability_key a b = ((key_name a, key_scope a) \<le> (key_name b, key_scope b))"
definition less_capability_key :: "capability_key \<Rightarrow> capability_key \<Rightarrow> bool" where
  "less_capability_key a b = ((key_name a, key_scope a) < (key_name b, key_scope b))"
instance
proof
  fix x y z :: capability_key
  show "(x < y) = (x \<le> y \<and> \<not> y \<le> x)"
    unfolding less_eq_capability_key_def less_capability_key_def by (rule less_le_not_le)
  show "x \<le> x" by (simp add: less_eq_capability_key_def)
  show "x \<le> y \<Longrightarrow> y \<le> z \<Longrightarrow> x \<le> z"
    unfolding less_eq_capability_key_def by (rule order_trans)
  show "x \<le> y \<Longrightarrow> y \<le> x \<Longrightarrow> x = y"
    unfolding less_eq_capability_key_def
    by (metis antisym capability_key.expand prod.inject)
  show "x \<le> y \<or> y \<le> x"
    unfolding less_eq_capability_key_def by (rule linear)
qed
end

section \<open>Provider identities\<close>

text \<open>
  A plugin identity is dot-separated segments of lower-case letters, digits and hyphens. The
  Host half of a package registers under the identity with the suffix \<open>:host\<close>.
\<close>

definition valid_id_segment :: "string \<Rightarrow> bool" where
  "valid_id_segment s =
     (s \<noteq> [] \<and> list_all (\<lambda>b. ascii_lower b \<or> ascii_digit b \<or> b = CHR ''-'') s)"

definition valid_unqualified_provider_id :: "string \<Rightarrow> bool" where
  "valid_unqualified_provider_id p =
     (p \<noteq> [] \<and> length p \<le> MAX_PROVIDER_ID_BYTES \<and> is_ascii p
      \<and> list_all valid_id_segment (split_on (CHR ''.'') p))"

definition host_provider_id :: "string \<Rightarrow> string" where
  "host_provider_id plugin_id = plugin_id @ HOST_PROVIDER_SUFFIX"

definition host_provider_plugin_id :: "string \<Rightarrow> string option" where
  "host_provider_plugin_id p =
     (case strip_suffix HOST_PROVIDER_SUFFIX p of
        Some i \<Rightarrow> if valid_unqualified_provider_id i then Some i else None
      | None \<Rightarrow> None)"

definition valid_provider_id :: "string \<Rightarrow> bool" where
  "valid_provider_id p =
     (valid_unqualified_provider_id p \<or> host_provider_plugin_id p \<noteq> None)"

lemma split_on_members:
  "c \<in> set s \<Longrightarrow> c \<noteq> d \<Longrightarrow> \<exists>w \<in> set (split_on d s). c \<in> set w"
  by (induction d s rule: split_on.induct) (auto split: list.splits)

lemma unqualified_no_colon: "valid_unqualified_provider_id p \<Longrightarrow> CHR '':'' \<notin> set p"
proof
  assume v: "valid_unqualified_provider_id p" and "CHR '':'' \<in> set p"
  then obtain w where "w \<in> set (split_on (CHR ''.'') p)" and c: "CHR '':'' \<in> set w"
    using split_on_members by blast
  with v have "valid_id_segment w"
    by (auto simp: valid_unqualified_provider_id_def list_all_iff)
  with c show False
    by (auto simp: valid_id_segment_def list_all_iff ascii_lower_def ascii_digit_def byte_def)
qed

lemma host_provider_id_inject [simp]: "host_provider_id a = host_provider_id b \<longleftrightarrow> a = b"
  by (simp add: host_provider_id_def)

lemma host_provider_plugin_id_SomeD:
  "host_provider_plugin_id p = Some i \<Longrightarrow> p = host_provider_id i \<and> valid_unqualified_provider_id i"
  by (auto simp: host_provider_plugin_id_def host_provider_id_def
      dest: strip_suffix_SomeD split: option.splits if_splits)

lemma host_provider_plugin_id_host:
  "host_provider_plugin_id (host_provider_id i) =
     (if valid_unqualified_provider_id i then Some i else None)"
  by (simp add: host_provider_plugin_id_def host_provider_id_def)

lemma host_id_not_unqualified: "\<not> valid_unqualified_provider_id (host_provider_id i)"
  using unqualified_no_colon [of "host_provider_id i"]
  by (auto simp: host_provider_id_def HOST_PROVIDER_SUFFIX_def)

text \<open>
  The two name spaces of the registry do not meet: every admissible identity is either a plugin
  identity or the Host owner of exactly one plugin identity.
\<close>

lemma provider_identities_disjoint:
  "valid_provider_id p \<longleftrightarrow>
     (valid_unqualified_provider_id p \<noteq>
      (\<exists>!i. p = host_provider_id i \<and> valid_unqualified_provider_id i))"
proof -
  have "(host_provider_plugin_id p \<noteq> None) \<longleftrightarrow>
      (\<exists>!i. p = host_provider_id i \<and> valid_unqualified_provider_id i)"
    by (auto dest: host_provider_plugin_id_SomeD simp: host_provider_plugin_id_host)
  then show ?thesis
    using host_id_not_unqualified by (auto simp: valid_provider_id_def)
qed

section \<open>Error values\<close>

datatype registry_error =
    InvalidProviderId string
  | ProviderConflict string
  | InvalidGeneration string u64
  | ScopeAlreadyActive scope_instance
  | CapabilityConflict capability_name capability_scope string string
  | MissingRequirement string capability_descriptor
  | VersionMismatch string string capability_descriptor api_version
  | DependencyCycle "string list"
  | UnknownProvider string

datatype access_error =
    Registry registry_error
  | PluginNotRegistered string
  | StaleGeneration string u64 u64
  | UndeclaredRequirement string capability_descriptor
  | ScopeMismatch capability_descriptor scope_instance
  | ScopeInactive scope_instance
  | StalePrincipal string scope_instance
  | StaleLease string capability_descriptor scope_instance
  | LeaseOwnerMismatch string capability_descriptor

end
