(* ===== verification/Cap_Registry.thy ===== *)
theory Cap_Registry
  imports Capabilities
begin

text \<open>
  The capability registry of \<open>src/src/capabilities.rs\<close>: registrations of providers, the
  capabilities they expose, the active scope instances, and the two tokens Core hands out, a
  principal (who is calling, in which scope) and a lease (which provider registration serves
  one declared requirement). Every registration and every activation of a scope takes a
  fresh epoch from a 64-bit counter, and a token records the epochs it was made under.

  An operation that takes \<open>&mut self\<close> returns its outcome and the registry after it.
\<close>

section \<open>State\<close>

record provider_registration =
  pr_generation :: u64
  pr_epoch :: u64
  pr_provides :: "capability_descriptor list"
  pr_requires :: "capability_descriptor list"
  pr_grants :: "string set"
  pr_dependencies :: "string bset"

record provider_record =
  rec_provider_id :: string
  rec_provider_generation :: u64
  rec_registration_epoch :: u64
  rec_descriptor :: capability_descriptor

record capability_registry =
  cr_registry_id :: u64
  cr_registrations :: "(string, provider_registration) btree"
  cr_providers :: "(capability_key, provider_record) btree"
  cr_active_scopes :: "(scope_instance, u64) btree"
  cr_next_epoch :: u64

record capability_principal =
  p_registry_id :: u64
  p_consumer_id :: string
  p_consumer_generation :: u64
  p_consumer_registration :: u64
  p_scope :: scope_instance
  p_scope_generation :: u64
  p_grants :: "string set"

record capability_lease =
  l_registry_id :: u64
  l_owner_consumer_id :: string
  l_owner_consumer_generation :: u64
  l_owner_consumer_registration :: u64
  l_owner_scope :: scope_instance
  l_owner_scope_generation :: u64
  l_provider_scope :: scope_instance
  l_provider_scope_generation :: u64
  l_provider_id :: string
  l_provider_generation :: u64
  l_provider_registration :: u64
  l_requirement :: capability_descriptor

definition has_grant :: "capability_principal \<Rightarrow> string \<Rightarrow> bool" where
  "has_grant p grant = (grant \<in> p_grants p)"

section \<open>Operations\<close>

text \<open>
  \<open>NEXT_REGISTRY_ID\<close> is a process-wide counter: allocation returns the value it had and
  leaves the successor, or panics on overflow.
\<close>

definition allocate_registry_id :: "u64 \<Rightarrow> (u64 \<times> u64) option" where
  "allocate_registry_id current =
     (case checked_succ current of None \<Rightarrow> None | Some n \<Rightarrow> Some (current, n))"

definition registry_new :: "u64 \<Rightarrow> capability_registry" where
  "registry_new i =
     \<lparr>cr_registry_id = i, cr_registrations = bt_empty, cr_providers = bt_empty,
      cr_active_scopes = bt_empty, cr_next_epoch = 0\<rparr>"

definition registered_providers ::
    "capability_registry \<Rightarrow> (string \<times> u64 \<times> capability_descriptor list) list" where
  "registered_providers r =
     map (\<lambda>(i, x). (i, pr_generation x, pr_provides x)) (bt_entries (cr_registrations r))"

definition provider_generation :: "capability_registry \<Rightarrow> string \<Rightarrow> u64 option" where
  "provider_generation r pid = map_option pr_generation (bt_get (cr_registrations r) pid)"

definition scope_is_active :: "capability_registry \<Rightarrow> scope_instance \<Rightarrow> bool" where
  "scope_is_active r s = bt_has (cr_active_scopes r) s"

definition allocate_epoch :: "capability_registry \<Rightarrow> (u64 \<times> capability_registry) option" where
  "allocate_epoch r =
     (case checked_succ (cr_next_epoch r) of
        None \<Rightarrow> None
      | Some e \<Rightarrow> Some (e, r\<lparr>cr_next_epoch := e\<rparr>))"

text \<open>The loop over \<open>provides\<close> that refuses a key declared twice or already provided.\<close>

fun check_provides ::
    "capability_registry \<Rightarrow> string \<Rightarrow> capability_key set \<Rightarrow> capability_descriptor list
     \<Rightarrow> registry_error option" where
  "check_provides r pid incoming [] = None"
| "check_provides r pid incoming (d # ds) =
     (let key = key_of d in
      if key \<in> incoming then
        Some (CapabilityConflict (key_name key) (key_scope key) pid pid)
      else
        case bt_get (cr_providers r) key of
          Some existing \<Rightarrow>
            Some (CapabilityConflict (key_name key) (key_scope key) (rec_provider_id existing) pid)
        | None \<Rightarrow> check_provides r pid (insert key incoming) ds)"

definition insert_provides ::
    "string \<Rightarrow> u64 \<Rightarrow> u64 \<Rightarrow> capability_descriptor list
     \<Rightarrow> (capability_key, provider_record) btree \<Rightarrow> (capability_key, provider_record) btree" where
  "insert_provides pid generation epoch provides m =
     fold (\<lambda>d. bt_insert (key_of d)
       \<lparr>rec_provider_id = pid, rec_provider_generation = generation,
        rec_registration_epoch = epoch, rec_descriptor = d\<rparr>) provides m"

definition register_provider ::
    "string \<Rightarrow> u64 \<Rightarrow> capability_descriptor list \<Rightarrow> capability_descriptor list \<Rightarrow> string list
     \<Rightarrow> capability_registry \<Rightarrow> (registry_error, unit) outcome \<times> capability_registry" where
  "register_provider pid generation provides requires grants r =
     (if \<not> valid_provider_id pid then (Err (InvalidProviderId pid), r)
      else if bt_has (cr_registrations r) pid then (Err (ProviderConflict pid), r)
      else if generation = 0 then (Err (InvalidGeneration pid generation), r)
      else case check_provides r pid {} provides of
        Some e \<Rightarrow> (Err e, r)
      | None \<Rightarrow>
          (case allocate_epoch r of
             None \<Rightarrow> (Panic, r)
           | Some (epoch, r) \<Rightarrow>
               (Ok (),
                r\<lparr>cr_providers := insert_provides pid generation epoch provides (cr_providers r),
                  cr_registrations := bt_insert pid
                    \<lparr>pr_generation = generation, pr_epoch = epoch, pr_provides = provides,
                     pr_requires = requires, pr_grants = set grants,
                     pr_dependencies = bt_empty\<rparr> (cr_registrations r)\<rparr>)))"

definition require_provider_before ::
    "string \<Rightarrow> string \<Rightarrow> capability_registry
     \<Rightarrow> (registry_error, unit) outcome \<times> capability_registry" where
  "require_provider_before consumer provider r =
     (if \<not> bt_has (cr_registrations r) provider then (Err (UnknownProvider provider), r)
      else case bt_get (cr_registrations r) consumer of
        None \<Rightarrow> (Err (UnknownProvider consumer), r)
      | Some x \<Rightarrow>
          (Ok (),
           r\<lparr>cr_registrations := bt_insert consumer
               (x\<lparr>pr_dependencies := bt_insert provider () (pr_dependencies x)\<rparr>)
               (cr_registrations r)\<rparr>))"

definition unregister_provider ::
    "string \<Rightarrow> capability_registry \<Rightarrow> (registry_error, bool) outcome \<times> capability_registry" where
  "unregister_provider pid r =
     (if \<not> valid_provider_id pid then (Err (InvalidProviderId pid), r)
      else case bt_get (cr_registrations r) pid of
        None \<Rightarrow> (Ok False, r)
      | Some x \<Rightarrow>
          (Ok True,
           r\<lparr>cr_registrations := bt_remove pid (cr_registrations r),
             cr_providers := fold (\<lambda>d. bt_remove (key_of d)) (pr_provides x) (cr_providers r)\<rparr>))"

definition activate_scope ::
    "scope_instance \<Rightarrow> capability_registry
     \<Rightarrow> (registry_error, u64) outcome \<times> capability_registry" where
  "activate_scope s r =
     (if bt_has (cr_active_scopes r) s then (Err (ScopeAlreadyActive s), r)
      else case allocate_epoch r of
        None \<Rightarrow> (Panic, r)
      | Some (g, r) \<Rightarrow> (Ok g, r\<lparr>cr_active_scopes := bt_insert s g (cr_active_scopes r)\<rparr>))"

definition deactivate_scope ::
    "scope_instance \<Rightarrow> capability_registry \<Rightarrow> bool \<times> capability_registry" where
  "deactivate_scope s r =
     (bt_has (cr_active_scopes r) s,
      r\<lparr>cr_active_scopes := bt_remove s (cr_active_scopes r)\<rparr>)"

definition issue_principal ::
    "capability_registry \<Rightarrow> string \<Rightarrow> u64 \<Rightarrow> scope_instance
     \<Rightarrow> (access_error, capability_principal) outcome" where
  "issue_principal r cid generation s =
     (case bt_get (cr_registrations r) cid of
        None \<Rightarrow> Err (PluginNotRegistered cid)
      | Some consumer \<Rightarrow>
          if pr_generation consumer \<noteq> generation
          then Err (StaleGeneration cid generation (pr_generation consumer))
          else case bt_get (cr_active_scopes r) s of
            None \<Rightarrow> Err (ScopeInactive s)
          | Some g \<Rightarrow>
              Ok \<lparr>p_registry_id = cr_registry_id r, p_consumer_id = cid,
                  p_consumer_generation = generation, p_consumer_registration = pr_epoch consumer,
                  p_scope = s, p_scope_generation = g, p_grants = pr_grants consumer\<rparr>)"

definition principal_is_current :: "capability_registry \<Rightarrow> capability_principal \<Rightarrow> bool" where
  "principal_is_current r p =
     (p_registry_id p = cr_registry_id r
      \<and> bt_get (cr_active_scopes r) (p_scope p) = Some (p_scope_generation p)
      \<and> (case bt_get (cr_registrations r) (p_consumer_id p) of
           None \<Rightarrow> False
         | Some consumer \<Rightarrow>
             pr_generation consumer = p_consumer_generation p
             \<and> pr_epoch consumer = p_consumer_registration p
             \<and> pr_grants consumer = p_grants p))"

definition lease_is_current :: "capability_registry \<Rightarrow> capability_lease \<Rightarrow> bool" where
  "lease_is_current r l =
     (l_registry_id l = cr_registry_id r
      \<and> bt_get (cr_active_scopes r) (l_owner_scope l) = Some (l_owner_scope_generation l)
      \<and> bt_get (cr_active_scopes r) (l_provider_scope l) = Some (l_provider_scope_generation l)
      \<and> (case bt_get (cr_registrations r) (l_owner_consumer_id l) of
           None \<Rightarrow> False
         | Some consumer \<Rightarrow>
             pr_generation consumer = l_owner_consumer_generation l
             \<and> pr_epoch consumer = l_owner_consumer_registration l
             \<and> l_requirement l \<in> set (pr_requires consumer))
      \<and> (case bt_get (cr_providers r) (key_of (l_requirement l)) of
           None \<Rightarrow> False
         | Some provider \<Rightarrow>
             rec_provider_id provider = l_provider_id l
             \<and> rec_provider_generation provider = l_provider_generation l
             \<and> rec_registration_epoch provider = l_provider_registration l
             \<and> rec_descriptor provider = l_requirement l))"

definition is_owned_by :: "capability_lease \<Rightarrow> capability_principal \<Rightarrow> bool" where
  "is_owned_by l p =
     (l_registry_id l = p_registry_id p
      \<and> l_owner_consumer_id l = p_consumer_id p
      \<and> l_owner_consumer_generation l = p_consumer_generation p
      \<and> l_owner_consumer_registration l = p_consumer_registration p
      \<and> l_owner_scope l = p_scope p
      \<and> l_owner_scope_generation l = p_scope_generation p)"

definition provider_for_requirement ::
    "capability_registry \<Rightarrow> string \<Rightarrow> capability_descriptor
     \<Rightarrow> (registry_error, provider_record) outcome" where
  "provider_for_requirement r consumer requirement =
     (case bt_get (cr_providers r) (key_of requirement) of
        None \<Rightarrow> Err (MissingRequirement consumer requirement)
      | Some provider \<Rightarrow>
          if cd_api (rec_descriptor provider) \<noteq> cd_api requirement
          then Err (VersionMismatch consumer (rec_provider_id provider) requirement
                      (cd_api (rec_descriptor provider)))
          else Ok provider)"

definition resolve_capability ::
    "capability_registry \<Rightarrow> capability_principal \<Rightarrow> capability_descriptor
     \<Rightarrow> (access_error, capability_lease) outcome" where
  "resolve_capability r p requirement =
     (if \<not> principal_is_current r p then Err (StalePrincipal (p_consumer_id p) (p_scope p))
      else case bt_get (cr_registrations r) (p_consumer_id p) of
        None \<Rightarrow> Panic
      | Some consumer \<Rightarrow>
          if requirement \<notin> set (pr_requires consumer)
          then Err (UndeclaredRequirement (p_consumer_id p) requirement)
          else if scope_of (p_scope p) \<noteq> cd_scope requirement \<and> cd_scope requirement \<noteq> Runtime
          then Err (ScopeMismatch requirement (p_scope p))
          else
            let provider_scope = (if cd_scope requirement = Runtime then RuntimeInst else p_scope p)
            in case bt_get (cr_active_scopes r) provider_scope of
                 None \<Rightarrow> Err (ScopeInactive provider_scope)
               | Some g \<Rightarrow>
                   (case provider_for_requirement r (p_consumer_id p) requirement of
                      Err e \<Rightarrow> Err (Registry e)
                    | Panic \<Rightarrow> Panic
                    | Ok provider \<Rightarrow>
                        Ok \<lparr>l_registry_id = cr_registry_id r,
                            l_owner_consumer_id = p_consumer_id p,
                            l_owner_consumer_generation = p_consumer_generation p,
                            l_owner_consumer_registration = p_consumer_registration p,
                            l_owner_scope = p_scope p,
                            l_owner_scope_generation = p_scope_generation p,
                            l_provider_scope = provider_scope,
                            l_provider_scope_generation = g,
                            l_provider_id = rec_provider_id provider,
                            l_provider_generation = rec_provider_generation provider,
                            l_provider_registration = rec_registration_epoch provider,
                            l_requirement = requirement\<rparr>))"

text \<open>
  The closure of \<open>invoke\<close> and \<open>invoke_endpoint\<close> is a function, applied only in the
  branch where the source calls it.
\<close>

definition invoke ::
    "capability_registry \<Rightarrow> capability_principal \<Rightarrow> capability_lease \<Rightarrow> (unit \<Rightarrow> 'a)
     \<Rightarrow> (access_error, 'a) outcome" where
  "invoke r p l act =
     (if \<not> principal_is_current r p then Err (StalePrincipal (p_consumer_id p) (p_scope p))
      else if \<not> is_owned_by l p then Err (LeaseOwnerMismatch (p_consumer_id p) (l_requirement l))
      else if \<not> lease_is_current r l
      then Err (StaleLease (l_owner_consumer_id l) (l_requirement l) (l_owner_scope l))
      else Ok (act ()))"

definition invoke_endpoint ::
    "capability_registry \<Rightarrow> capability_principal \<Rightarrow> capability_lease
     \<Rightarrow> (string \<Rightarrow> capability_descriptor \<Rightarrow> 'a) \<Rightarrow> (access_error, 'a) outcome" where
  "invoke_endpoint r p l act =
     (if \<not> principal_is_current r p then Err (StalePrincipal (p_consumer_id p) (p_scope p))
      else if \<not> is_owned_by l p then Err (LeaseOwnerMismatch (p_consumer_id p) (l_requirement l))
      else if \<not> lease_is_current r l
      then Err (StaleLease (l_owner_consumer_id l) (l_requirement l) (l_owner_scope l))
      else Ok (act (l_provider_id l) (l_requirement l)))"

end
