(* ===== verification/Transitions.thy ===== *)
theory Transitions
  imports Main
begin

text \<open>
  Two interfaces the stateful components share. A \<open>transition_system\<close> has a start state, a
  step relation and an invariant every step keeps; what holds in every reachable state follows
  once. A \<open>revocable\<close> authority accepts or rejects tokens; its steps never make a rejected
  token acceptable again, so that a token rejected once is rejected for good.
\<close>

section \<open>Invariants of reachable states\<close>

locale transition_system =
  fixes init :: "'st \<Rightarrow> bool" and step :: "'st \<Rightarrow> 'st \<Rightarrow> bool" and inv :: "'st \<Rightarrow> bool"
  assumes init_inv: "init s \<Longrightarrow> inv s"
    and step_inv: "inv s \<Longrightarrow> step s t \<Longrightarrow> inv t"
begin

lemma run_inv: "step\<^sup>*\<^sup>* s t \<Longrightarrow> inv s \<Longrightarrow> inv t"
  by (induction rule: rtranclp_induct) (auto intro: step_inv)

lemma reachable_inv: "init s \<Longrightarrow> step\<^sup>*\<^sup>* s t \<Longrightarrow> inv t"
  by (rule run_inv) (auto intro: init_inv)

end

section \<open>Revocation is permanent\<close>

locale revocable =
  fixes step :: "'st \<Rightarrow> 'st \<Rightarrow> bool" and known :: "'st \<Rightarrow> 'tok \<Rightarrow> bool"
    and current :: "'st \<Rightarrow> 'tok \<Rightarrow> bool"
  assumes known_step: "step s t \<Longrightarrow> known s k \<Longrightarrow> known t k"
    and no_revival: "step s t \<Longrightarrow> known s k \<Longrightarrow> current t k \<Longrightarrow> current s k"
begin

lemma known_run: "step\<^sup>*\<^sup>* s t \<Longrightarrow> known s k \<Longrightarrow> known t k"
  by (induction rule: rtranclp_induct) (auto intro: known_step)

lemma current_before:
  assumes "step\<^sup>*\<^sup>* s t" "known s k" "current t k"
  shows "current s k"
  using assms
proof (induction rule: rtranclp_induct)
  case (step t u)
  then have "known t k" by (blast intro: known_run)
  with step show ?case by (blast intro: no_revival)
qed

lemma stale_forever:
  "known s k \<Longrightarrow> step\<^sup>*\<^sup>* s t \<Longrightarrow> \<not> current t k \<Longrightarrow> step\<^sup>*\<^sup>* t u \<Longrightarrow> \<not> current u k"
  using current_before known_run by blast

end

end
