(* ===== verification/Cap_Authority.thy ===== *)
theory Cap_Authority
  imports Cap_Registry Transitions
begin

text \<open>
  What the registry guarantees: an invariant that ties the capability table to the
  registrations, what an accepted token proves about the registry at that moment, and that a
  revoked token is never accepted again, whatever the registry does afterwards.
\<close>

section \<open>The invariant\<close>

definition record_for ::
    "string \<Rightarrow> provider_registration \<Rightarrow> capability_descriptor \<Rightarrow> provider_record" where
  "record_for pid x d =
     \<lparr>rec_provider_id = pid, rec_provider_generation = pr_generation x,
      rec_registration_epoch = pr_epoch x, rec_descriptor = d\<rparr>"

definition registrations_ok :: "capability_registry \<Rightarrow> bool" where
  "registrations_ok r \<longleftrightarrow>
     (\<forall>pid x. bt_get (cr_registrations r) pid = Some x \<longrightarrow>
        valid_provider_id pid \<and> pr_generation x \<noteq> 0 \<and> pr_epoch x \<le> cr_next_epoch r
        \<and> distinct (map key_of (pr_provides x))
        \<and> (\<forall>d \<in> set (pr_provides x).
             bt_get (cr_providers r) (key_of d) = Some (record_for pid x d)))"

definition providers_ok :: "capability_registry \<Rightarrow> bool" where
  "providers_ok r \<longleftrightarrow>
     (\<forall>k rec. bt_get (cr_providers r) k = Some rec \<longrightarrow>
        (\<exists>x. bt_get (cr_registrations r) (rec_provider_id rec) = Some x
           \<and> rec_descriptor rec \<in> set (pr_provides x) \<and> key_of (rec_descriptor rec) = k))"

definition scopes_ok :: "capability_registry \<Rightarrow> bool" where
  "scopes_ok r \<longleftrightarrow>
     (\<forall>s g. bt_get (cr_active_scopes r) s = Some g \<longrightarrow> g \<le> cr_next_epoch r)"

definition registry_inv :: "capability_registry \<Rightarrow> bool" where
  "registry_inv r \<longleftrightarrow> registrations_ok r \<and> providers_ok r \<and> scopes_ok r"

lemma registry_inv_new: "registry_inv (registry_new i)"
  by (simp add: registry_inv_def registrations_ok_def providers_ok_def scopes_ok_def
      registry_new_def)

lemma providers_ok_record:
  assumes "registry_inv r" "bt_get (cr_providers r) k = Some rec"
  obtains x where "bt_get (cr_registrations r) (rec_provider_id rec) = Some x"
    "rec = record_for (rec_provider_id rec) x (rec_descriptor rec)"
    "rec_descriptor rec \<in> set (pr_provides x)" "key_of (rec_descriptor rec) = k"
proof -
  from assms obtain x where x: "bt_get (cr_registrations r) (rec_provider_id rec) = Some x"
      "rec_descriptor rec \<in> set (pr_provides x)" "key_of (rec_descriptor rec) = k"
    unfolding registry_inv_def providers_ok_def by blast
  with assms have "bt_get (cr_providers r) k = Some (record_for (rec_provider_id rec) x (rec_descriptor rec))"
    unfolding registry_inv_def registrations_ok_def by blast
  with assms(2) have "rec = record_for (rec_provider_id rec) x (rec_descriptor rec)" by simp
  with x show ?thesis using that by blast
qed

lemma allocate_epoch_SomeD:
  assumes "allocate_epoch r = Some (e, r')"
  shows "r' = r\<lparr>cr_next_epoch := e\<rparr>" "cr_next_epoch r < e"
    "unat e = Suc (unat (cr_next_epoch r))"
  using assms by (auto simp: allocate_epoch_def dest: checked_succ_SomeD split: option.splits)

lemma check_provides_None:
  "check_provides r pid incoming ds = None \<longleftrightarrow>
     distinct (map key_of ds) \<and> (\<forall>d \<in> set ds. key_of d \<notin> incoming)
     \<and> (\<forall>d \<in> set ds. bt_get (cr_providers r) (key_of d) = None)"
proof (induction r pid incoming ds rule: check_provides.induct)
  case (2 r pid incoming d ds)
  then show ?case by (cases "bt_get (cr_providers r) (key_of d)") (auto simp: Let_def image_iff)
qed simp

lemma get_insert_provides_notin:
  "k \<notin> key_of ` set ds \<Longrightarrow> bt_get (insert_provides pid g e ds m) k = bt_get m k"
  unfolding insert_provides_def by (induction ds arbitrary: m) auto

lemma get_insert_provides_in:
  "distinct (map key_of ds) \<Longrightarrow> d \<in> set ds \<Longrightarrow>
   bt_get (insert_provides pid g e ds m) (key_of d) =
     Some \<lparr>rec_provider_id = pid, rec_provider_generation = g, rec_registration_epoch = e,
           rec_descriptor = d\<rparr>"
proof (induction ds arbitrary: m)
  case (Cons a ds)
  show ?case
  proof (cases "d = a")
    case True
    with Cons.prems have "key_of d \<notin> key_of ` set ds" by auto
    then show ?thesis
      using get_insert_provides_notin [of "key_of d" ds] True
      by (simp add: insert_provides_def)
  next
    case False
    with Cons show ?thesis by (simp add: insert_provides_def)
  qed
qed simp

lemma get_insert_provides_cases:
  assumes "distinct (map key_of ds)" "bt_get (insert_provides pid g e ds m) k = Some rec"
  obtains "bt_get m k = Some rec" "k \<notin> key_of ` set ds"
  | d where "d \<in> set ds" "k = key_of d"
      "rec = \<lparr>rec_provider_id = pid, rec_provider_generation = g, rec_registration_epoch = e,
             rec_descriptor = d\<rparr>"
  using assms get_insert_provides_notin [of k ds pid g e m] get_insert_provides_in [of ds _ pid g e m]
  by (metis imageE option.inject)

lemma get_remove_provides:
  "bt_get (fold (\<lambda>d. bt_remove (key_of d)) ds m) k =
     (if k \<in> key_of ` set ds then None else bt_get m k)"
  by (induction ds arbitrary: m) auto

section \<open>Every operation keeps the invariant\<close>

text \<open>The one way a registration succeeds, used by every proof about it.\<close>

lemma register_provider_cases:
  assumes "register_provider pid g provides requires grants r = (res, r')"
  obtains e where "res = Err e" "r' = r"
  | "res = Panic" "r' = r"
  | e where "res = Ok ()" "valid_provider_id pid" "bt_get (cr_registrations r) pid = None" "g \<noteq> 0"
      "distinct (map key_of provides)"
      "\<forall>d \<in> set provides. bt_get (cr_providers r) (key_of d) = None"
      "cr_next_epoch r < e"
      "r' = r\<lparr>cr_next_epoch := e,
              cr_providers := insert_provides pid g e provides (cr_providers r),
              cr_registrations := bt_insert pid
                \<lparr>pr_generation = g, pr_epoch = e, pr_provides = provides,
                 pr_requires = requires, pr_grants = set grants,
                 pr_dependencies = bt_empty\<rparr> (cr_registrations r)\<rparr>"
proof -
  consider (guard) "\<not> (valid_provider_id pid \<and> bt_get (cr_registrations r) pid = None \<and> g \<noteq> 0)"
    | (conflict) e where "valid_provider_id pid" "bt_get (cr_registrations r) pid = None" "g \<noteq> 0"
        "check_provides r pid {} provides = Some e"
    | (overflow) "valid_provider_id pid" "bt_get (cr_registrations r) pid = None" "g \<noteq> 0"
        "check_provides r pid {} provides = None" "allocate_epoch r = None"
    | (ok) e where "valid_provider_id pid" "bt_get (cr_registrations r) pid = None" "g \<noteq> 0"
        "check_provides r pid {} provides = None" "allocate_epoch r = Some (e, r\<lparr>cr_next_epoch := e\<rparr>)"
        "cr_next_epoch r < e"
    by (metis allocate_epoch_SomeD(1,2) not_None_eq surj_pair)
  then show ?thesis
  proof cases
    case guard
    then have "\<exists>e. res = Err e \<and> r' = r"
      using assms by (auto simp: register_provider_def split: if_split_asm)
    then show ?thesis using that(1) by blast
  next
    case (conflict e)
    then show ?thesis using assms by (intro that(1) [of e]) (auto simp: register_provider_def)
  next
    case overflow
    then show ?thesis using assms by (intro that(2)) (auto simp: register_provider_def)
  next
    case (ok e)
    then have "distinct (map key_of provides)"
      "\<forall>d \<in> set provides. bt_get (cr_providers r) (key_of d) = None"
      by (auto simp: check_provides_None)
    with ok assms show ?thesis by (intro that(3) [of e]) (auto simp: register_provider_def)
  qed
qed

lemma register_provider_inv [inv_intros]:
  assumes "registry_inv r" "register_provider pid g provides requires grants r = (res, r')"
  shows "registry_inv r'"
  using assms(2)
proof (cases rule: register_provider_cases)
  case (3 e)
  have le: "x \<le> cr_next_epoch r \<Longrightarrow> x \<le> e" for x using 3 by simp
  have fresh: "d \<in> set (pr_provides x) \<Longrightarrow> bt_get (cr_registrations r) q = Some x
      \<Longrightarrow> key_of d \<notin> key_of ` set provides" for d x q
    using assms(1) 3(6) unfolding registry_inv_def registrations_ok_def by force
  have "registrations_ok r'"
    using assms(1) 3 fresh unfolding registry_inv_def registrations_ok_def
    by (auto simp: get_insert_provides_in get_insert_provides_notin record_for_def le)
  moreover have "providers_ok r'"
    unfolding providers_ok_def
  proof (intro allI impI)
    fix k rec
    assume "bt_get (cr_providers r') k = Some rec"
    then have "bt_get (insert_provides pid g e provides (cr_providers r)) k = Some rec"
      using 3 by simp
    with 3(5) show "\<exists>x. bt_get (cr_registrations r') (rec_provider_id rec) = Some x
        \<and> rec_descriptor rec \<in> set (pr_provides x) \<and> key_of (rec_descriptor rec) = k"
    proof (cases rule: get_insert_provides_cases)
      case 1
      then obtain x where "bt_get (cr_registrations r) (rec_provider_id rec) = Some x"
        "rec_descriptor rec \<in> set (pr_provides x)" "key_of (rec_descriptor rec) = k"
        using assms(1) unfolding registry_inv_def providers_ok_def by blast
      with 3 show ?thesis by auto
    next
      case (2 d)
      with 3 show ?thesis by simp
    qed
  qed
  moreover have "scopes_ok r'"
    using assms(1) 3 unfolding registry_inv_def scopes_ok_def by (auto intro: le)
  ultimately show ?thesis by (simp add: registry_inv_def)
qed (use assms(1) in simp_all)

lemma require_provider_before_cases:
  assumes "require_provider_before c p r = (res, r')"
  obtains e where "res = Err e" "r' = r"
  | x where "res = Ok ()" "bt_get (cr_registrations r) c = Some x"
      "bt_get (cr_registrations r) p \<noteq> None"
      "r' = r\<lparr>cr_registrations := bt_insert c
               (x\<lparr>pr_dependencies := bt_insert p () (pr_dependencies x)\<rparr>) (cr_registrations r)\<rparr>"
proof (cases "bt_get (cr_registrations r) p = None \<or> bt_get (cr_registrations r) c = None")
  case True
  then have "\<exists>e. res = Err e \<and> r' = r"
    using assms by (auto simp: require_provider_before_def split: if_split_asm)
  then show ?thesis using that(1) by blast
next
  case False
  then obtain x where "bt_get (cr_registrations r) c = Some x" by blast
  with False assms show ?thesis by (intro that(2) [of x]) (auto simp: require_provider_before_def)
qed

lemma require_provider_before_inv [inv_intros]:
  assumes "registry_inv r" "require_provider_before c p r = (res, r')"
  shows "registry_inv r'"
  using assms(2)
proof (cases rule: require_provider_before_cases)
  case (2 x)
  have "registrations_ok r'" "scopes_ok r'"
    using assms(1) 2 by (auto simp: registry_inv_def registrations_ok_def scopes_ok_def record_for_def)
  moreover have "providers_ok r'"
    unfolding providers_ok_def
  proof (intro allI impI)
    fix k rec
    assume "bt_get (cr_providers r') k = Some rec"
    with 2 have "bt_get (cr_providers r) k = Some rec" by simp
    with assms(1) show "\<exists>y. bt_get (cr_registrations r') (rec_provider_id rec) = Some y
        \<and> rec_descriptor rec \<in> set (pr_provides y) \<and> key_of (rec_descriptor rec) = k"
      by (rule providers_ok_record) (use 2 in auto)
  qed
  ultimately show ?thesis by (simp add: registry_inv_def)
qed (use assms(1) in simp)

lemma unregister_provider_cases:
  assumes "unregister_provider pid r = (res, r')"
  obtains e where "res = Err e" "r' = r" "\<not> valid_provider_id pid"
  | "res = Ok False" "r' = r" "bt_get (cr_registrations r) pid = None"
  | x where "res = Ok True" "bt_get (cr_registrations r) pid = Some x"
      "r' = r\<lparr>cr_registrations := bt_remove pid (cr_registrations r),
              cr_providers := fold (\<lambda>d. bt_remove (key_of d)) (pr_provides x) (cr_providers r)\<rparr>"
proof -
  consider "\<not> valid_provider_id pid" | "valid_provider_id pid" "bt_get (cr_registrations r) pid = None"
    | x where "valid_provider_id pid" "bt_get (cr_registrations r) pid = Some x" by blast
  then show ?thesis
  proof cases
    case 1
    with assms show ?thesis by (intro that(1)) (auto simp: unregister_provider_def)
  next
    case 2
    with assms show ?thesis by (intro that(2)) (auto simp: unregister_provider_def)
  next
    case (3 x)
    with assms show ?thesis by (intro that(3) [of x]) (auto simp: unregister_provider_def)
  qed
qed

lemma key_owner_unique:
  assumes "registry_inv r"
    "bt_get (cr_registrations r) p = Some x" "d \<in> set (pr_provides x)"
    "bt_get (cr_registrations r) q = Some y" "d' \<in> set (pr_provides y)" "key_of d = key_of d'"
  shows "p = q"
proof -
  have "Some (record_for p x d) = Some (record_for q y d')"
    using assms unfolding registry_inv_def registrations_ok_def by metis
  then show ?thesis by (simp add: record_for_def)
qed

lemma unregister_provider_inv [inv_intros]:
  assumes "registry_inv r" "unregister_provider pid r = (res, r')"
  shows "registry_inv r'"
  using assms(2)
proof (cases rule: unregister_provider_cases)
  case (3 x)
  have other: "key_of d \<notin> key_of ` set (pr_provides x)"
    if "bt_get (cr_registrations r) q = Some y" "d \<in> set (pr_provides y)" "q \<noteq> pid" for q y d
    using key_owner_unique [OF assms(1) 3(2) _ that(1,2)] that(3) by (metis imageE)
  have "registrations_ok r'"
    using assms(1) 3 other unfolding registry_inv_def registrations_ok_def
    by (auto simp: get_remove_provides)
  moreover have "providers_ok r'"
    unfolding providers_ok_def
  proof (intro allI impI)
    fix k rec
    assume "bt_get (cr_providers r') k = Some rec"
    then have k: "k \<notin> key_of ` set (pr_provides x)" and g: "bt_get (cr_providers r) k = Some rec"
      using 3 by (auto simp: get_remove_provides split: if_splits)
    from assms(1) g show "\<exists>y. bt_get (cr_registrations r') (rec_provider_id rec) = Some y
        \<and> rec_descriptor rec \<in> set (pr_provides y) \<and> key_of (rec_descriptor rec) = k"
    proof (rule providers_ok_record)
      fix y
      assume y: "bt_get (cr_registrations r) (rec_provider_id rec) = Some y"
        "rec_descriptor rec \<in> set (pr_provides y)" "key_of (rec_descriptor rec) = k"
      then have "rec_provider_id rec \<noteq> pid" using k 3(2) by auto
      with y 3 show ?thesis by simp
    qed
  qed
  moreover have "scopes_ok r'"
    using assms(1) 3 unfolding registry_inv_def scopes_ok_def by simp
  ultimately show ?thesis by (simp add: registry_inv_def)
qed (use assms(1) in simp_all)

lemma activate_scope_cases:
  assumes "activate_scope s r = (res, r')"
  obtains "res = Err (ScopeAlreadyActive s)" "r' = r" "bt_get (cr_active_scopes r) s \<noteq> None"
  | "res = Panic" "r' = r" "cr_next_epoch r = - 1"
  | g where "res = Ok g" "cr_next_epoch r < g" "bt_get (cr_active_scopes r) s = None"
      "r' = r\<lparr>cr_next_epoch := g, cr_active_scopes := bt_insert s g (cr_active_scopes r)\<rparr>"
proof (cases "bt_get (cr_active_scopes r) s")
  case None
  note inactive = None
  show ?thesis
  proof (cases "allocate_epoch r")
    case None
    then have "cr_next_epoch r = - 1"
      by (simp add: allocate_epoch_def checked_succ_None split: option.splits)
    with None inactive assms show ?thesis by (intro that(2)) (auto simp: activate_scope_def)
  next
    case (Some a)
    then obtain e where "allocate_epoch r = Some (e, r\<lparr>cr_next_epoch := e\<rparr>)" "cr_next_epoch r < e"
      using allocate_epoch_SomeD by (metis prod.exhaust)
    with inactive assms show ?thesis by (intro that(3) [of e]) (auto simp: activate_scope_def)
  qed
next
  case (Some g)
  with assms show ?thesis by (intro that(1)) (auto simp: activate_scope_def)
qed

lemma activate_scope_inv [inv_intros]:
  assumes "registry_inv r" "activate_scope s r = (res, r')"
  shows "registry_inv r'"
  using assms(2)
proof (cases rule: activate_scope_cases)
  case (3 g)
  have le: "x \<le> cr_next_epoch r \<Longrightarrow> x \<le> g" for x using 3 by simp
  with assms(1) 3 show ?thesis
    by (auto simp: registry_inv_def registrations_ok_def providers_ok_def scopes_ok_def)
qed (use assms(1) in simp_all)

lemma deactivate_scope_inv [inv_intros]:
  "registry_inv r \<Longrightarrow> registry_inv (snd (deactivate_scope s r))"
  by (auto simp: deactivate_scope_def registry_inv_def registrations_ok_def providers_ok_def
      scopes_ok_def)

section \<open>Steps of the registry\<close>

inductive registry_step :: "capability_registry \<Rightarrow> capability_registry \<Rightarrow> bool" where
  register: "register_provider pid g provides requires grants r = (res, r') \<Longrightarrow> registry_step r r'"
| require_before: "require_provider_before c p r = (res', r') \<Longrightarrow> registry_step r r'"
| unregister: "unregister_provider pid r = (found, r') \<Longrightarrow> registry_step r r'"
| activate: "activate_scope s r = (gen, r') \<Longrightarrow> registry_step r r'"
| deactivate: "deactivate_scope s r = (was, r') \<Longrightarrow> registry_step r r'"

lemma registry_step_inv: "registry_inv r \<Longrightarrow> registry_step r r' \<Longrightarrow> registry_inv r'"
  by (erule registry_step.cases)
    (auto intro: inv_intros dest: deactivate_scope_inv [of r] simp: prod_eq_iff)

definition registry_init :: "capability_registry \<Rightarrow> bool" where
  "registry_init r \<longleftrightarrow> (\<exists>i. r = registry_new i)"

interpretation reg_sys: transition_system registry_init registry_step registry_inv
  by unfold_locales (auto simp: registry_init_def registry_inv_new intro: registry_step_inv)

text \<open>
  How a later registry relates to an earlier one: whatever carries an epoch the earlier
  registry had already allocated was in the earlier registry, unchanged but for the
  ordering edges.
\<close>

definition reg_core :: "provider_registration \<Rightarrow> provider_registration" where
  "reg_core x = x\<lparr>pr_dependencies := bt_empty\<rparr>"

definition grown_from :: "capability_registry \<Rightarrow> capability_registry \<Rightarrow> bool" where
  "grown_from r r' \<longleftrightarrow>
     cr_registry_id r' = cr_registry_id r \<and> cr_next_epoch r \<le> cr_next_epoch r'
     \<and> (\<forall>k x'. bt_get (cr_registrations r') k = Some x' \<longrightarrow> pr_epoch x' \<le> cr_next_epoch r \<longrightarrow>
          (\<exists>x. bt_get (cr_registrations r) k = Some x \<and> reg_core x = reg_core x'))
     \<and> (\<forall>k c. bt_get (cr_providers r') k = Some c \<longrightarrow> rec_registration_epoch c \<le> cr_next_epoch r \<longrightarrow>
          bt_get (cr_providers r) k = Some c)
     \<and> (\<forall>s g. bt_get (cr_active_scopes r') s = Some g \<longrightarrow> g \<le> cr_next_epoch r \<longrightarrow>
          bt_get (cr_active_scopes r) s = Some g)"

lemma grown_from_refl [simp]: "grown_from r r"
  by (simp add: grown_from_def)

lemma register_grown:
  assumes "register_provider pid g provides requires grants r = (res, r')"
  shows "grown_from r r'"
  using assms
proof (cases rule: register_provider_cases)
  case (3 e)
  have "bt_get (cr_providers r) k = Some c"
    if "bt_get (insert_provides pid g e provides (cr_providers r)) k = Some c"
      "rec_registration_epoch c \<le> cr_next_epoch r" for k c
    using 3(5) that(1)
  proof (cases rule: get_insert_provides_cases)
    case (2 d)
    then have "rec_registration_epoch c = e" by simp
    with that(2) 3(7) show ?thesis by simp
  qed
  with 3 show ?thesis by (auto simp: grown_from_def)
qed simp_all

lemma registry_step_grown:
  assumes "registry_step r r'"
  shows "grown_from r r'"
  using assms
proof cases
  case (require_before c p res)
  from require_before(1) show ?thesis
    by (cases rule: require_provider_before_cases) (auto simp: grown_from_def reg_core_def)
next
  case (unregister pid found)
  from unregister(1) show ?thesis
    by (cases rule: unregister_provider_cases)
      (auto simp: grown_from_def get_remove_provides split: if_splits)
next
  case (activate s gen)
  from activate(1) show ?thesis
    by (cases rule: activate_scope_cases) (auto simp: grown_from_def)
next
  case (deactivate s was)
  then show ?thesis by (auto simp: deactivate_scope_def grown_from_def split: if_splits)
qed (rule register_grown)

section \<open>Tokens\<close>

definition principal_known :: "capability_registry \<Rightarrow> capability_principal \<Rightarrow> bool" where
  "principal_known r p \<longleftrightarrow>
     p_consumer_registration p \<le> cr_next_epoch r \<and> p_scope_generation p \<le> cr_next_epoch r"

definition lease_known :: "capability_registry \<Rightarrow> capability_lease \<Rightarrow> bool" where
  "lease_known r l \<longleftrightarrow>
     l_owner_consumer_registration l \<le> cr_next_epoch r
     \<and> l_owner_scope_generation l \<le> cr_next_epoch r
     \<and> l_provider_scope_generation l \<le> cr_next_epoch r
     \<and> l_provider_registration l \<le> cr_next_epoch r"

lemma grown_core:
  assumes "grown_from r r'" "bt_get (cr_registrations r') k = Some x'" "pr_epoch x' \<le> cr_next_epoch r"
  obtains x where "bt_get (cr_registrations r) k = Some x"
    "pr_generation x = pr_generation x'" "pr_epoch x = pr_epoch x'"
    "pr_requires x = pr_requires x'" "pr_grants x = pr_grants x'"
proof -
  obtain x where x: "bt_get (cr_registrations r) k = Some x" "reg_core x = reg_core x'"
    using assms unfolding grown_from_def by blast
  from x(2) have "pr_generation x = pr_generation x'" "pr_epoch x = pr_epoch x'"
    "pr_requires x = pr_requires x'" "pr_grants x = pr_grants x'"
    by (cases x; cases x'; simp add: reg_core_def)+
  with x(1) show ?thesis by (rule that)
qed

lemma principal_no_revival:
  assumes "grown_from r r'" "principal_known r p" "principal_is_current r' p"
  shows "principal_is_current r p"
proof -
  from assms(3) obtain x' where x': "bt_get (cr_registrations r') (p_consumer_id p) = Some x'"
      "pr_generation x' = p_consumer_generation p" "pr_epoch x' = p_consumer_registration p"
      "pr_grants x' = p_grants p"
    by (auto simp: principal_is_current_def split: option.splits)
  with assms(2) have "pr_epoch x' \<le> cr_next_epoch r" by (simp add: principal_known_def)
  with assms(1) x'(1) obtain x where "bt_get (cr_registrations r) (p_consumer_id p) = Some x"
      "pr_generation x = pr_generation x'" "pr_epoch x = pr_epoch x'" "pr_grants x = pr_grants x'"
    by (rule grown_core)
  with x' assms show ?thesis
    by (auto simp: principal_is_current_def grown_from_def principal_known_def)
qed

lemma lease_no_revival:
  assumes "grown_from r r'" "lease_known r l" "lease_is_current r' l"
  shows "lease_is_current r l"
proof -
  from assms(3) obtain x' c where x': "bt_get (cr_registrations r') (l_owner_consumer_id l) = Some x'"
      "pr_generation x' = l_owner_consumer_generation l"
      "pr_epoch x' = l_owner_consumer_registration l" "l_requirement l \<in> set (pr_requires x')"
    and c: "bt_get (cr_providers r') (key_of (l_requirement l)) = Some c"
      "rec_registration_epoch c = l_provider_registration l"
    by (auto simp: lease_is_current_def split: option.splits)
  from x' assms(2) have "pr_epoch x' \<le> cr_next_epoch r" by (simp add: lease_known_def)
  with assms(1) x'(1) obtain x where "bt_get (cr_registrations r) (l_owner_consumer_id l) = Some x"
      "pr_generation x = pr_generation x'" "pr_epoch x = pr_epoch x'" "pr_requires x = pr_requires x'"
    by (rule grown_core)
  moreover from c assms(1,2) have "bt_get (cr_providers r) (key_of (l_requirement l)) = Some c"
    by (simp add: grown_from_def lease_known_def)
  ultimately show ?thesis
    using x' c assms by (auto simp: lease_is_current_def grown_from_def lease_known_def)
qed

interpretation principals: revocable registry_step principal_known principal_is_current
proof
  fix s t p
  assume "registry_step s t"
  then have g: "grown_from s t" by (rule registry_step_grown)
  show "principal_known s p \<Longrightarrow> principal_known t p"
    using g by (auto simp: principal_known_def grown_from_def)
  show "principal_known s p \<Longrightarrow> principal_is_current t p \<Longrightarrow> principal_is_current s p"
    using g by (rule principal_no_revival)
qed

interpretation leases: revocable registry_step lease_known lease_is_current
proof
  fix s t l
  assume "registry_step s t"
  then have g: "grown_from s t" by (rule registry_step_grown)
  show "lease_known s l \<Longrightarrow> lease_known t l"
    using g by (auto simp: lease_known_def grown_from_def)
  show "lease_known s l \<Longrightarrow> lease_is_current t l \<Longrightarrow> lease_is_current s l"
    using g by (rule lease_no_revival)
qed

section \<open>What an issued token is\<close>

lemma issue_principal_OkD:
  assumes "issue_principal r cid g s = Ok p"
  shows "principal_is_current r p" "p_consumer_id p = cid" "p_scope p = s"
    "p_consumer_generation p = g"
  using assms
  by (auto simp: issue_principal_def principal_is_current_def split: option.splits if_splits)

lemma registration_factsD:
  assumes "registry_inv r" "bt_get (cr_registrations r) k = Some x"
  shows "pr_epoch x \<le> cr_next_epoch r" "valid_provider_id k" "pr_generation x \<noteq> 0"
  using assms unfolding registry_inv_def registrations_ok_def by blast+

lemma scope_epoch_le:
  "registry_inv r \<Longrightarrow> bt_get (cr_active_scopes r) s = Some g \<Longrightarrow> g \<le> cr_next_epoch r"
  unfolding registry_inv_def scopes_ok_def by blast

lemma principal_is_currentE:
  assumes "principal_is_current r p"
  obtains x where "bt_get (cr_registrations r) (p_consumer_id p) = Some x"
    "pr_generation x = p_consumer_generation p" "pr_epoch x = p_consumer_registration p"
    "pr_grants x = p_grants p" "p_registry_id p = cr_registry_id r"
    "bt_get (cr_active_scopes r) (p_scope p) = Some (p_scope_generation p)"
  using assms that by (auto simp: principal_is_current_def split: option.splits)

lemma lease_is_currentE:
  assumes "lease_is_current r l"
  obtains x rec where "bt_get (cr_registrations r) (l_owner_consumer_id l) = Some x"
    "pr_generation x = l_owner_consumer_generation l"
    "pr_epoch x = l_owner_consumer_registration l" "l_requirement l \<in> set (pr_requires x)"
    "bt_get (cr_providers r) (key_of (l_requirement l)) = Some rec"
    "rec_provider_id rec = l_provider_id l" "rec_provider_generation rec = l_provider_generation l"
    "rec_registration_epoch rec = l_provider_registration l" "rec_descriptor rec = l_requirement l"
    "l_registry_id l = cr_registry_id r"
    "bt_get (cr_active_scopes r) (l_owner_scope l) = Some (l_owner_scope_generation l)"
    "bt_get (cr_active_scopes r) (l_provider_scope l) = Some (l_provider_scope_generation l)"
  using assms that by (auto simp: lease_is_current_def split: option.splits)

lemma current_principal_known:
  assumes "registry_inv r" "principal_is_current r p"
  shows "principal_known r p"
  using assms(2)
  by (rule principal_is_currentE)
    (metis assms(1) principal_known_def registration_factsD(1) scope_epoch_le)

lemma provider_for_requirement_OkD:
  assumes "provider_for_requirement r c d = Ok rec"
  shows "bt_get (cr_providers r) (key_of d) = Some rec" "cd_api (rec_descriptor rec) = cd_api d"
  using assms by (auto simp: provider_for_requirement_def split: option.splits if_splits)

lemma same_key_same_api:
  "key_of d = key_of e \<Longrightarrow> cd_api d = cd_api e \<Longrightarrow> d = e"
  by (cases d; cases e) (simp add: key_of_def)

lemma resolve_capability_OkE:
  assumes "registry_inv r" "resolve_capability r p d = Ok l"
  obtains consumer rec g x where "principal_is_current r p"
    "bt_get (cr_registrations r) (p_consumer_id p) = Some consumer" "d \<in> set (pr_requires consumer)"
    "bt_get (cr_providers r) (key_of d) = Some rec" "rec_descriptor rec = d"
    "bt_get (cr_registrations r) (rec_provider_id rec) = Some x" "d \<in> set (pr_provides x)"
    "bt_get (cr_active_scopes r) (l_provider_scope l) = Some g"
    "l = \<lparr>l_registry_id = cr_registry_id r, l_owner_consumer_id = p_consumer_id p,
          l_owner_consumer_generation = p_consumer_generation p,
          l_owner_consumer_registration = p_consumer_registration p, l_owner_scope = p_scope p,
          l_owner_scope_generation = p_scope_generation p,
          l_provider_scope = (if cd_scope d = Runtime then RuntimeInst else p_scope p),
          l_provider_scope_generation = g, l_provider_id = rec_provider_id rec,
          l_provider_generation = rec_provider_generation rec,
          l_provider_registration = rec_registration_epoch rec, l_requirement = d\<rparr>"
proof -
  from assms(2) obtain consumer rec g where
    ok: "principal_is_current r p" "bt_get (cr_registrations r) (p_consumer_id p) = Some consumer"
      "d \<in> set (pr_requires consumer)"
      "bt_get (cr_active_scopes r) (l_provider_scope l) = Some g"
      "l = \<lparr>l_registry_id = cr_registry_id r, l_owner_consumer_id = p_consumer_id p,
          l_owner_consumer_generation = p_consumer_generation p,
          l_owner_consumer_registration = p_consumer_registration p, l_owner_scope = p_scope p,
          l_owner_scope_generation = p_scope_generation p,
          l_provider_scope = (if cd_scope d = Runtime then RuntimeInst else p_scope p),
          l_provider_scope_generation = g, l_provider_id = rec_provider_id rec,
          l_provider_generation = rec_provider_generation rec,
          l_provider_registration = rec_registration_epoch rec, l_requirement = d\<rparr>"
    and p: "provider_for_requirement r (p_consumer_id p) d = Ok rec"
    by (auto simp: resolve_capability_def Let_def
        split: if_split_asm option.split_asm outcome.split_asm)
  have rec: "bt_get (cr_providers r) (key_of d) = Some rec" "cd_api (rec_descriptor rec) = cd_api d"
    using provider_for_requirement_OkD [OF p] by auto
  from assms(1) rec(1) show ?thesis
  proof (rule providers_ok_record)
    fix x
    assume x: "bt_get (cr_registrations r) (rec_provider_id rec) = Some x"
      "rec_descriptor rec \<in> set (pr_provides x)" "key_of (rec_descriptor rec) = key_of d"
    with rec(2) have "rec_descriptor rec = d" by (intro same_key_same_api) auto
    with x ok rec show ?thesis by (intro that [of consumer rec x g]) auto
  qed
qed

lemma resolved_lease:
  assumes "registry_inv r" "resolve_capability r p d = Ok l"
  shows "lease_is_current r l" "is_owned_by l p" "l_requirement l = d" "principal_is_current r p"
  using assms
  by (rule resolve_capability_OkE;
      auto simp: lease_is_current_def is_owned_by_def principal_is_current_def split: option.splits)+

lemma provider_record_epoch_le:
  assumes "registry_inv r" "bt_get (cr_providers r) k = Some rec"
  shows "rec_registration_epoch rec \<le> cr_next_epoch r"
  using assms
proof (rule providers_ok_record)
  fix x
  assume x: "bt_get (cr_registrations r) (rec_provider_id rec) = Some x"
    and rec: "rec = record_for (rec_provider_id rec) x (rec_descriptor rec)"
  have "rec_registration_epoch rec = pr_epoch x"
    by (subst rec) (simp add: record_for_def)
  with registration_factsD(1) [OF assms(1) x] show ?thesis by simp
qed

lemma current_lease_known:
  assumes "registry_inv r" "lease_is_current r l"
  shows "lease_known r l"
  using assms(2)
  by (rule lease_is_currentE)
    (metis assms(1) lease_known_def provider_record_epoch_le registration_factsD(1) scope_epoch_le)

section \<open>Properties\<close>

text \<open>
  A small registry: one provider of a Runtime capability, one consumer that declares it, the
  Runtime scope active. It is the fixture of the unit tests of the source.
\<close>

definition demo_cap :: capability_descriptor where
  "demo_cap = \<lparr>cd_name = CapabilityName ''runtime.storage'', cd_api = ApiVersion 1,
               cd_scope = Runtime\<rparr>"

definition demo_registry :: capability_registry where
  "demo_registry =
     snd (activate_scope RuntimeInst
       (snd (register_provider ''dev.consumer'' 1 [] [demo_cap] [''ui.dom'']
         (snd (register_provider ''dev.provider'' 1 [demo_cap] [] [] (registry_new 1))))))"

definition demo_principal :: capability_principal where
  "demo_principal =
     \<lparr>p_registry_id = 1, p_consumer_id = ''dev.consumer'', p_consumer_generation = 1,
      p_consumer_registration = 2, p_scope = RuntimeInst, p_scope_generation = 3,
      p_grants = {''ui.dom''}\<rparr>"

lemma demo_registry_reachable: "registry_step\<^sup>*\<^sup>* (registry_new 1) demo_registry"
proof -
  let ?a = "snd (register_provider ''dev.provider'' 1 [demo_cap] [] [] (registry_new 1))"
  let ?b = "snd (register_provider ''dev.consumer'' 1 [] [demo_cap] [''ui.dom''] ?a)"
  have "registry_step (registry_new 1) ?a" "registry_step ?a ?b" "registry_step ?b demo_registry"
    unfolding demo_registry_def
    by (auto intro: registry_step.register registry_step.activate simp: prod_eq_iff)
  then show ?thesis by (meson rtranclp.rtrancl_into_rtrancl rtranclp.rtrancl_refl)
qed

lemma demo_registry_inv: "registry_inv demo_registry"
  using demo_registry_reachable by (rule reg_sys.run_inv) (rule registry_inv_new)

text \<open>
  C4: in every registry reachable from a new one, the capability table and the registrations
  describe each other: each entry of the table belongs to a registered provider that declared
  exactly that descriptor, each declared descriptor is in the table under its provider's
  generation and epoch, registered identities and generations are admissible, and no stored
  epoch is ahead of the allocator.
\<close>

theorem registry_reachable_inv:
  assumes "registry_step\<^sup>*\<^sup>* (registry_new i) r"
  shows "registry_inv r"
  using assms by (rule reg_sys.run_inv) (rule registry_inv_new)

theorem registry_reachable_inv_witness:
  "registry_step\<^sup>*\<^sup>* (registry_new 1) demo_registry \<and> registry_inv demo_registry"
  using registry_reachable_inv [OF demo_registry_reachable] demo_registry_reachable by blast

text \<open>
  C8: an accepted call is authorised. When \<open>invoke_endpoint\<close> runs its closure, the caller is
  registered in the principal's generation, declared the requirement and holds exactly the
  grants of the principal; the provider the closure is given is registered in the lease's
  generation and declares exactly the required descriptor; and both scope instances are active.
\<close>

theorem invoke_endpoint_authorised:
  assumes "registry_inv r" and "invoke_endpoint r p l act = Ok v"
  shows "\<exists>consumer provider. v = act (l_provider_id l) (l_requirement l)
    \<and> bt_get (cr_registrations r) (p_consumer_id p) = Some consumer
    \<and> pr_generation consumer = p_consumer_generation p \<and> pr_grants consumer = p_grants p
    \<and> l_requirement l \<in> set (pr_requires consumer)
    \<and> bt_get (cr_registrations r) (l_provider_id l) = Some provider
    \<and> pr_generation provider = l_provider_generation l
    \<and> l_requirement l \<in> set (pr_provides provider)
    \<and> scope_is_active r (p_scope p) \<and> scope_is_active r (l_provider_scope l)"
proof -
  from assms(2) have cur: "principal_is_current r p" "lease_is_current r l"
    and own: "is_owned_by l p" and v: "v = act (l_provider_id l) (l_requirement l)"
    by (auto simp: invoke_endpoint_def split: if_split_asm)
  from cur(2) obtain x rec where x: "bt_get (cr_registrations r) (l_owner_consumer_id l) = Some x"
      "l_requirement l \<in> set (pr_requires x)"
    and rec: "bt_get (cr_providers r) (key_of (l_requirement l)) = Some rec"
      "rec_provider_id rec = l_provider_id l" "rec_provider_generation rec = l_provider_generation l"
      "rec_descriptor rec = l_requirement l"
    and sc: "scope_is_active r (l_provider_scope l)"
    by (rule lease_is_currentE) (auto simp: scope_is_active_def)
  from cur(1) obtain c where c: "bt_get (cr_registrations r) (p_consumer_id p) = Some c"
      "pr_generation c = p_consumer_generation p" "pr_grants c = p_grants p"
      "scope_is_active r (p_scope p)"
    by (rule principal_is_currentE) (auto simp: scope_is_active_def)
  from assms(1) rec(1) show ?thesis
  proof (rule providers_ok_record)
    fix y
    assume y: "bt_get (cr_registrations r) (rec_provider_id rec) = Some y"
      "rec = record_for (rec_provider_id rec) y (rec_descriptor rec)"
      "rec_descriptor rec \<in> set (pr_provides y)"
    from y(2) have "rec_provider_generation rec = pr_generation y"
      by (metis provider_record.select_convs(2) record_for_def)
    with y rec x c sc v own show ?thesis
      by (intro exI [of _ c] exI [of _ y]) (auto simp: is_owned_by_def)
  qed
qed

definition demo_lease :: capability_lease where
  "demo_lease =
     \<lparr>l_registry_id = 1, l_owner_consumer_id = ''dev.consumer'',
      l_owner_consumer_generation = 1, l_owner_consumer_registration = 2,
      l_owner_scope = RuntimeInst, l_owner_scope_generation = 3,
      l_provider_scope = RuntimeInst, l_provider_scope_generation = 3,
      l_provider_id = ''dev.provider'', l_provider_generation = 1,
      l_provider_registration = 1, l_requirement = demo_cap\<rparr>"

lemma demo_issue: "issue_principal demo_registry ''dev.consumer'' 1 RuntimeInst = Ok demo_principal"
  by code_simp

lemma demo_resolve: "resolve_capability demo_registry demo_principal demo_cap = Ok demo_lease"
  by code_simp

lemma demo_invoke:
  "invoke_endpoint demo_registry demo_principal demo_lease (\<lambda>pid d. pid) = Ok ''dev.provider''"
  by code_simp

theorem invoke_endpoint_authorised_witness:
  "\<exists>provider. bt_get (cr_registrations demo_registry) ''dev.provider'' = Some provider
     \<and> demo_cap \<in> set (pr_provides provider)"
  using invoke_endpoint_authorised [OF demo_registry_inv demo_invoke]
  by (auto simp: demo_lease_def)

text \<open>
  Issuing, resolving and calling fit together. A lease resolved for a principal can be
  invoked in the same registry, the closure receives the provider that is registered for the
  descriptor and the descriptor itself, and resolution never reaches its internal \<open>expect\<close>.
\<close>

theorem resolved_lease_is_callable:
  assumes "registry_inv r" and "resolve_capability r p d = Ok l"
  shows "\<exists>rec. bt_get (cr_providers r) (key_of d) = Some rec \<and> rec_descriptor rec = d
           \<and> invoke_endpoint r p l act = Ok (act (rec_provider_id rec) d)
           \<and> (\<forall>q e. resolve_capability r q e \<noteq> Panic)"
proof -
  have "resolve_capability r q e \<noteq> Panic" for q e
    by (auto simp: resolve_capability_def principal_is_current_def provider_for_requirement_def
        Let_def split: option.splits if_splits)
  with resolved_lease [OF assms] resolve_capability_OkE [OF assms] show ?thesis
    by (smt (verit, best) capability_lease.select_convs(9) invoke_endpoint_def)
qed

theorem resolved_lease_is_callable_witness:
  "invoke_endpoint demo_registry demo_principal demo_lease (\<lambda>pid d. pid) = Ok ''dev.provider''"
  using resolved_lease_is_callable [OF demo_registry_inv demo_resolve, of "\<lambda>pid d. pid"] demo_invoke
  by simp

text \<open>
  C23: revoking a principal is permanent. Once a principal issued in a reachable registry is no
  longer current, every later registry rejects it, whichever operations were run in between:
  no sequence of unregistering, registering again (even in the same generation), closing and
  reopening scopes makes it acceptable, and no closure runs for it.
\<close>

theorem revoked_principal_stays_revoked:
  assumes "registry_inv r0" "issue_principal r0 cid g s = Ok p"
    and "registry_step\<^sup>*\<^sup>* r0 r1" "\<not> principal_is_current r1 p" "registry_step\<^sup>*\<^sup>* r1 r2"
  shows "invoke_endpoint r2 p l act = Err (StalePrincipal cid s)
         \<and> resolve_capability r2 p d = Err (StalePrincipal cid s)"
proof -
  have "principal_known r0 p"
    using assms(1) issue_principal_OkD(1) [OF assms(2)] by (rule current_principal_known)
  then have "\<not> principal_is_current r2 p"
    using assms(3-5) by (rule principals.stale_forever)
  then show ?thesis
    using issue_principal_OkD [OF assms(2)] by (simp add: invoke_endpoint_def resolve_capability_def)
qed

definition demo_reregistered :: capability_registry where
  "demo_reregistered =
     snd (register_provider ''dev.consumer'' 1 [] [demo_cap] [''ui.dom'']
       (snd (unregister_provider ''dev.consumer'' demo_registry)))"

lemma demo_reregistered_run: "registry_step\<^sup>*\<^sup>* demo_registry demo_reregistered"
proof -
  let ?u = "snd (unregister_provider ''dev.consumer'' demo_registry)"
  have "registry_step demo_registry ?u" "registry_step ?u demo_reregistered"
    unfolding demo_reregistered_def
    by (auto intro: registry_step.register registry_step.unregister simp: prod_eq_iff)
  then show ?thesis by (meson rtranclp.rtrancl_into_rtrancl rtranclp.rtrancl_refl)
qed

theorem revoked_principal_stays_revoked_witness:
  "invoke_endpoint demo_reregistered demo_principal demo_lease (\<lambda>pid d. pid) =
     Err (StalePrincipal ''dev.consumer'' RuntimeInst)"
proof -
  have "\<not> principal_is_current demo_reregistered demo_principal" by code_simp
  from revoked_principal_stays_revoked [OF demo_registry_inv demo_issue demo_reregistered_run this
      rtranclp.rtrancl_refl]
  show ?thesis by blast
qed

text \<open>
  A lease dies with its provider. Unregistering the provider that serves a lease makes the
  registry reject the lease for every caller from then on, also after the same identity has
  registered again.
\<close>

theorem lease_ends_with_provider:
  assumes "registry_inv r0" "resolve_capability r0 p d = Ok l"
    and "unregister_provider (l_provider_id l) r0 = (Ok found, r1)" "registry_step\<^sup>*\<^sup>* r1 r2"
  shows "\<not> is_ok (invoke_endpoint r2 q l act)"
proof -
  have known: "lease_known r0 l"
    using assms(1) resolved_lease(1) [OF assms(1,2)] by (rule current_lease_known)
  from assms(1,2) obtain y where y: "bt_get (cr_registrations r0) (l_provider_id l) = Some y"
      "d \<in> set (pr_provides y)" "l_requirement l = d"
    by (rule resolve_capability_OkE) auto
  have "\<not> lease_is_current r1 l"
    using assms(3)
  proof (cases rule: unregister_provider_cases)
    case (3 x)
    with y show ?thesis by (auto simp: lease_is_current_def get_remove_provides)
  qed (use y in simp_all)
  moreover have "registry_step\<^sup>*\<^sup>* r0 r1" using registry_step.unregister [OF assms(3)] by blast
  ultimately have "\<not> lease_is_current r2 l"
    using leases.stale_forever [OF known _ _ assms(4)] by simp
  then show ?thesis by (simp add: invoke_endpoint_def)
qed

theorem lease_ends_with_provider_witness:
  "\<not> is_ok (invoke_endpoint
     (snd (register_provider ''dev.provider'' 1 [demo_cap] [] []
       (snd (unregister_provider ''dev.provider'' demo_registry))))
     demo_principal demo_lease (\<lambda>pid d. pid))"
proof -
  let ?u = "snd (unregister_provider ''dev.provider'' demo_registry)"
  let ?v = "snd (register_provider ''dev.provider'' 1 [demo_cap] [] [] ?u)"
  have "fst (unregister_provider ''dev.provider'' demo_registry) = Ok True" by code_simp
  then have u: "unregister_provider (l_provider_id demo_lease) demo_registry = (Ok True, ?u)"
    by (simp add: demo_lease_def prod_eq_iff)
  have "registry_step ?u ?v" by (auto intro: registry_step.register simp: prod_eq_iff)
  then have "registry_step\<^sup>*\<^sup>* ?u ?v" by blast
  from lease_ends_with_provider [OF demo_registry_inv demo_resolve u this] show ?thesis .
qed

text \<open>
  Registration succeeds exactly when it should and changes nothing otherwise. It succeeds
  when the identity is admissible and free, the generation is positive, no key is declared
  twice, none is provided by another registration, and an epoch is left; every failure leaves
  the registry as it was.
\<close>

theorem register_provider_exact:
  assumes "register_provider pid g provides requires grants r = (res, r')"
  shows "(is_ok res \<longleftrightarrow>
           valid_provider_id pid \<and> \<not> bt_has (cr_registrations r) pid \<and> g \<noteq> 0
           \<and> distinct (map key_of provides)
           \<and> (\<forall>d \<in> set provides. \<not> bt_has (cr_providers r) (key_of d))
           \<and> cr_next_epoch r \<noteq> - 1)
         \<and> (is_ok res \<or> r' = r)"
    (is "(is_ok res \<longleftrightarrow> ?cond) \<and> _")
proof -
  have "is_ok res" if ?cond
  proof -
    from that have "check_provides r pid {} provides = None"
      by (simp add: check_provides_None bt_has_def)
    with that have "fst (register_provider pid g provides requires grants r) = Ok ()"
      by (simp add: register_provider_def allocate_epoch_def checked_succ_def bt_has_def)
    with assms show ?thesis by simp
  qed
  moreover have "?cond \<and> is_ok res \<or> \<not> is_ok res \<and> r' = r"
    using assms
  proof (cases rule: register_provider_cases)
    case (3 e)
    then have "cr_next_epoch r \<noteq> - 1" using word_order.extremum_strict by metis
    with 3 show ?thesis by (simp add: bt_has_def)
  qed simp_all
  ultimately show ?thesis by blast
qed

theorem register_provider_exact_witness:
  "is_ok (fst (register_provider ''dev.other'' 2 [] [demo_cap] [] demo_registry))
   \<and> snd (register_provider ''dev.other'' 2 [demo_cap] [] [] demo_registry) = demo_registry"
proof -
  let ?ok = "register_provider ''dev.other'' 2 [] [demo_cap] [] demo_registry"
  let ?no = "register_provider ''dev.other'' 2 [demo_cap] [] [] demo_registry"
  have "\<not> is_ok (fst ?no)" "is_ok (fst ?ok)" by code_simp+
  with register_provider_exact [of _ _ _ _ _ _ "fst ?no" "snd ?no"] show ?thesis by simp
qed

end
