(* ===== verification/Activation_Correct.thy ===== *)
theory Activation_Correct
  imports Activation_Order
begin

text \<open>
  Correctness of the activation order: the graph has exactly the declared dependencies, the
  sort returns a permutation of the registrations in which every provider precedes its
  consumers, and it fails exactly when a requirement is not met or the dependencies are
  cyclic, in which case the reported providers form a cycle.
\<close>

section \<open>The graph\<close>

definition edge :: "dep_graph \<Rightarrow> string \<Rightarrow> string \<Rightarrow> bool" where
  "edge g q c \<longleftrightarrow> (\<exists>cs. bt_get g q = Some cs \<and> bt_get cs c \<noteq> None)"

lemma finite_preds [simp]: "finite {q. edge g q c \<and> P q}"
  by (rule finite_subset [OF _ finite_keys [of g]]) (auto simp: edge_def)

definition counts_ok :: "string set \<Rightarrow> dep_graph \<Rightarrow> dep_count \<Rightarrow> bool" where
  "counts_ok D g n \<longleftrightarrow>
     (\<forall>k. bt_get g k \<noteq> None \<longleftrightarrow> k \<in> D) \<and> (\<forall>q c. edge g q c \<longrightarrow> c \<in> D)
     \<and> (\<forall>c. bt_get n c = (if c \<in> D then Some (card {q. edge g q c}) else None))"

lemma edge_insert:
  "bt_get g p = Some cs \<Longrightarrow>
   edge (bt_insert p (bt_insert c () cs) g) q k \<longleftrightarrow> edge g q k \<or> (q = p \<and> k = c)"
  by (auto simp: edge_def)

lemma add_edge_spec:
  assumes "counts_ok D g n" "c \<in> D"
  shows "if p \<in> D
    then \<exists>g' n'. add_edge p c (g, n) = Ok (g', n') \<and> counts_ok D g' n'
           \<and> (\<forall>q k. edge g' q k \<longleftrightarrow> edge g q k \<or> (q = p \<and> k = c))
    else add_edge p c (g, n) = Err ()"
proof (cases "bt_get g p")
  case None
  then have "p \<notin> D" using assms by (metis counts_ok_def)
  with None show ?thesis by (simp add: add_edge_def)
next
  case (Some cs)
  then have p: "p \<in> D" using assms by (auto simp: counts_ok_def)
  show ?thesis
  proof (cases "bt_has cs c")
    case True
    with Some p assms show ?thesis by (auto simp: add_edge_def edge_def)
  next
    case False
    then have fresh: "\<not> edge g p c" using Some by (simp add: edge_def)
    let ?g = "bt_insert p (bt_insert c () cs) g"
    have preds: "{q. edge ?g q k} = (if k = c then insert p {q. edge g q c} else {q. edge g q k})"
      for k by (auto simp: edge_insert [where g = g and p = p, OF Some])
    have "card {q. edge ?g q c} = Suc (card {q. edge g q c})"
      using fresh finite_preds [of g c "\<lambda>_. True"] by (simp add: preds)
    with assms p have "counts_ok D ?g (bt_insert c (Suc (card {q. edge g q c})) n)"
      unfolding counts_ok_def by (auto simp: edge_insert [where g = g and p = p, OF Some] preds)
    moreover have "bt_get n c = Some (card {q. edge g q c})" using assms by (auto simp: counts_ok_def)
    ultimately show ?thesis
      using Some False p by (auto simp: add_edge_def edge_insert [where g = g and p = p, OF Some])
  qed
qed

lemma add_dependencies_spec:
  assumes "counts_ok D g n" "c \<in> D"
  shows "if set ps \<subseteq> D
    then \<exists>g' n'. add_dependencies c ps (g, n) = Ok (g', n') \<and> counts_ok D g' n'
           \<and> (\<forall>q k. edge g' q k \<longleftrightarrow> edge g q k \<or> (q \<in> set ps \<and> k = c))
    else \<exists>p \<in> set ps - D. add_dependencies c ps (g, n) = Err (UnknownProvider p)"
  using assms(1)
proof (induction ps arbitrary: g n)
  case (Cons p ps)
  show ?case
  proof (cases "p \<in> D")
    case True
    with add_edge_spec [OF Cons.prems assms(2), of p] obtain g1 n1 where
      s: "add_edge p c (g, n) = Ok (g1, n1)" "counts_ok D g1 n1"
        "\<forall>q k. edge g1 q k \<longleftrightarrow> edge g q k \<or> (q = p \<and> k = c)" by auto
    from Cons.IH [OF s(2)] s True show ?thesis by (auto split: if_splits)
  next
    case False
    with add_edge_spec [OF Cons.prems assms(2), of p] show ?thesis by auto
  qed
qed simp

lemma add_requirements_spec:
  assumes "counts_ok D g n" "c \<in> D"
    and served: "\<forall>d rec. provider_for_requirement r c d = Ok rec \<longrightarrow> rec_provider_id rec \<in> D"
  shows "if \<forall>d \<in> set ds. is_ok (provider_for_requirement r c d)
    then \<exists>g' n'. add_requirements r c ds (g, n) = Ok (g', n') \<and> counts_ok D g' n'
           \<and> (\<forall>q k. edge g' q k \<longleftrightarrow>
                edge g q k \<or> (k = c \<and> (\<exists>d \<in> set ds. \<exists>rec. provider_for_requirement r c d = Ok rec
                                          \<and> rec_provider_id rec = q)))
    else \<exists>d \<in> set ds. \<exists>e. provider_for_requirement r c d = Err e
           \<and> add_requirements r c ds (g, n) = Err e"
  using assms(1)
proof (induction ds arbitrary: g n)
  case (Cons d ds)
  show ?case
  proof (cases "provider_for_requirement r c d")
    case (Ok rec)
    with add_edge_spec [OF Cons.prems assms(2), of "rec_provider_id rec"] served Ok
    obtain g1 n1 where
      s: "add_edge (rec_provider_id rec) c (g, n) = Ok (g1, n1)" "counts_ok D g1 n1"
        "\<forall>q k. edge g1 q k \<longleftrightarrow> edge g q k \<or> (q = rec_provider_id rec \<and> k = c)" by auto
    show ?thesis
    proof (cases "\<forall>d \<in> set ds. is_ok (provider_for_requirement r c d)")
      case True
      with Cons.IH [OF s(2)] obtain g2 n2 where
        t: "add_requirements r c ds (g1, n1) = Ok (g2, n2)" "counts_ok D g2 n2"
          "\<forall>q k. edge g2 q k \<longleftrightarrow> edge g1 q k \<or> (k = c \<and> (\<exists>d \<in> set ds. \<exists>rec.
             provider_for_requirement r c d = Ok rec \<and> rec_provider_id rec = q))" by auto
      then show ?thesis using True s(1,3) Ok by auto
    next
      case False
      with Cons.IH [OF s(2)] s(1) Ok show ?thesis by auto
    qed
  next
    case (Err e)
    then show ?thesis by auto
  next
    case Panic
    then show ?thesis by (auto simp: provider_for_requirement_def split: option.splits if_splits)
  qed
qed simp

text \<open>What a registration declares to depend on, and that all of it is there.\<close>

definition declares_dependency :: "capability_registry \<Rightarrow> string \<Rightarrow> provider_registration \<Rightarrow> string \<Rightarrow> bool" where
  "declares_dependency r c x q \<longleftrightarrow>
     bt_has (pr_dependencies x) q
     \<or> (\<exists>d \<in> set (pr_requires x). \<exists>rec. provider_for_requirement r c d = Ok rec
          \<and> rec_provider_id rec = q)"

definition depends_on :: "capability_registry \<Rightarrow> string \<Rightarrow> string \<Rightarrow> bool" where
  "depends_on r c q \<longleftrightarrow>
     (\<exists>x. bt_get (cr_registrations r) c = Some x \<and> declares_dependency r c x q)"

definition registration_met :: "capability_registry \<Rightarrow> string \<Rightarrow> provider_registration \<Rightarrow> bool" where
  "registration_met r c x \<longleftrightarrow>
     (\<forall>q. bt_has (pr_dependencies x) q \<longrightarrow> bt_has (cr_registrations r) q)
     \<and> (\<forall>d \<in> set (pr_requires x). is_ok (provider_for_requirement r c d))"

definition requirements_met :: "capability_registry \<Rightarrow> bool" where
  "requirements_met r \<longleftrightarrow>
     (\<forall>c x. bt_get (cr_registrations r) c = Some x \<longrightarrow> registration_met r c x)"

abbreviation registered :: "capability_registry \<Rightarrow> string set" where
  "registered r \<equiv> {k. bt_get (cr_registrations r) k \<noteq> None}"

lemma registered_provider_of:
  assumes "registry_inv r" "provider_for_requirement r c d = Ok rec"
  shows "rec_provider_id rec \<in> registered r"
  using assms(1) provider_for_requirement_OkD(1) [OF assms(2)]
  by (rule providers_ok_record) simp

fun graph_error :: "registry_error \<Rightarrow> bool" where
  "graph_error (UnknownProvider _) = True"
| "graph_error (MissingRequirement _ _) = True"
| "graph_error (VersionMismatch _ _ _ _) = True"
| "graph_error _ = False"

lemma provider_for_requirement_error:
  "provider_for_requirement r c d = Err e \<Longrightarrow> graph_error e"
  by (auto simp: provider_for_requirement_def split: option.splits if_splits)

lemma add_registrations_spec:
  assumes "registry_inv r" "counts_ok (registered r) g n" "fst ` set xs \<subseteq> registered r"
  shows "if \<forall>(c, x) \<in> set xs. registration_met r c x
    then \<exists>g' n'. add_registrations r xs (g, n) = Ok (g', n') \<and> counts_ok (registered r) g' n'
           \<and> (\<forall>q k. edge g' q k \<longleftrightarrow>
                edge g q k \<or> (\<exists>x. (k, x) \<in> set xs \<and> declares_dependency r k x q))
    else \<exists>e. graph_error e \<and> add_registrations r xs (g, n) = Err e"
  using assms(2,3)
proof (induction xs arbitrary: g n)
  case (Cons cx xs)
  obtain c x where cx: "cx = (c, x)" by (cases cx)
  then have c: "c \<in> registered r" using Cons.prems by auto
  let ?deps = "bt_keys (pr_dependencies x)"
  show ?case
  proof (cases "set ?deps \<subseteq> registered r")
    case False
    with add_dependencies_spec [OF Cons.prems(1) c, of ?deps] obtain p where
      "add_dependencies c ?deps (g, n) = Err (UnknownProvider p)" by auto
    moreover have "\<not> registration_met r c x"
      using False by (auto simp: registration_met_def)
    ultimately show ?thesis using cx by auto
  next
    case True
    with add_dependencies_spec [OF Cons.prems(1) c, of ?deps] obtain g1 n1 where
      s1: "add_dependencies c ?deps (g, n) = Ok (g1, n1)" "counts_ok (registered r) g1 n1"
        "\<forall>q k. edge g1 q k \<longleftrightarrow> edge g q k \<or> (q \<in> set ?deps \<and> k = c)" by auto
    have "\<forall>d rec. provider_for_requirement r c d = Ok rec \<longrightarrow> rec_provider_id rec \<in> registered r"
      using registered_provider_of [OF assms(1)] by blast
    note reqs = add_requirements_spec [OF s1(2) c this, of "pr_requires x"]
    show ?thesis
    proof (cases "\<forall>d \<in> set (pr_requires x). is_ok (provider_for_requirement r c d)")
      case False
      with reqs obtain e d where "provider_for_requirement r c d = Err e"
        "add_requirements r c (pr_requires x) (g1, n1) = Err e" by auto
      moreover have "\<not> registration_met r c x" using False by (auto simp: registration_met_def)
      ultimately show ?thesis
        using cx s1(1) by (auto dest: provider_for_requirement_error)
    next
      case True
      then have met: "registration_met r c x"
        using \<open>set ?deps \<subseteq> registered r\<close> by (auto simp: registration_met_def)
      from True reqs obtain g2 n2 where
        s2: "add_requirements r c (pr_requires x) (g1, n1) = Ok (g2, n2)"
          "counts_ok (registered r) g2 n2"
          "\<forall>q k. edge g2 q k \<longleftrightarrow> edge g1 q k \<or> (k = c \<and> (\<exists>d \<in> set (pr_requires x).
             \<exists>rec. provider_for_requirement r c d = Ok rec \<and> rec_provider_id rec = q))" by auto
      have edges: "edge g2 q k \<longleftrightarrow> edge g q k \<or> (k = c \<and> declares_dependency r c x q)" for q k
        using s1(3) s2(3) by (auto simp: declares_dependency_def)
      have "fst ` set xs \<subseteq> registered r" using Cons.prems(2) by auto
      from Cons.IH [OF s2(2) this] show ?thesis
        using cx s1(1) s2(1) met edges by (auto split: if_splits)
    qed
  qed
qed simp

lemma dependency_graph_spec:
  assumes "registry_inv r"
  shows "if requirements_met r
    then \<exists>g n. dependency_graph r = Ok (g, n) \<and> counts_ok (registered r) g n
           \<and> (\<forall>q c. edge g q c \<longleftrightarrow> depends_on r c q)
    else \<exists>e. graph_error e \<and> dependency_graph r = Err e"
proof -
  let ?g = "bt_map (\<lambda>_ _. bt_empty) (cr_registrations r) :: dep_graph"
  have no_edge: "\<not> edge ?g q c" for q c by (auto simp: edge_def)
  then have ok: "counts_ok (registered r) ?g (bt_map (\<lambda>_ _. 0) (cr_registrations r))"
    by (auto simp: counts_ok_def)
  have sub: "fst ` set (bt_entries (cr_registrations r)) \<subseteq> registered r"
    by (auto simp: in_entries)
  have "(\<forall>(c, x) \<in> set (bt_entries (cr_registrations r)). registration_met r c x) = requirements_met r"
    by (auto simp: requirements_met_def in_entries)
  with add_registrations_spec [OF assms ok sub] show ?thesis
    by (auto simp: dependency_graph_def no_edge depends_on_def in_entries split: if_splits)
qed

end
