(* ===== verification/Activation_Sort.thy ===== *)
theory Activation_Sort
  imports Activation_Correct
begin

text \<open>
  The two loops of the activation order on the graph \<open>Activation_Correct\<close> describes: the sort
  and the search for a cycle, each with its invariant, and the theorems on
  \<open>resolve_activation_order\<close>.
\<close>

section \<open>The sort\<close>

definition topological :: "dep_graph \<Rightarrow> string list \<Rightarrow> bool" where
  "topological g xs \<longleftrightarrow> (\<forall>a c b. xs = a @ c # b \<longrightarrow> (\<forall>q. edge g q c \<longrightarrow> q \<in> set a))"

abbreviation waiting :: "dep_graph \<Rightarrow> string set \<Rightarrow> string \<Rightarrow> string set" where
  "waiting g S c \<equiv> {q. edge g q c \<and> q \<notin> S}"

definition sort_inv ::
    "string set \<Rightarrow> dep_graph \<Rightarrow> dep_count \<Rightarrow> string bset \<Rightarrow> string list \<Rightarrow> bool" where
  "sort_inv D g n ready order \<longleftrightarrow>
     distinct order \<and> set order \<subseteq> D \<and> topological g order
     \<and> (\<forall>c. bt_get n c = (if c \<in> D then Some (card (waiting g (set order) c)) else None))
     \<and> (\<forall>p. bt_get ready p \<noteq> None \<longleftrightarrow> p \<in> D - set order \<and> waiting g (set order) p = {})"

lemma topological_snoc:
  assumes "topological g xs" "\<forall>q. edge g q p \<longrightarrow> q \<in> set xs"
  shows "topological g (xs @ [p])"
  unfolding topological_def
proof (intro allI impI)
  fix a c b q
  assume s: "xs @ [p] = a @ c # b" and e: "edge g q c"
  show "q \<in> set a"
  proof (cases b rule: rev_cases)
    case Nil
    with s e assms(2) show ?thesis by simp
  next
    case (snoc b' y)
    with s have "xs = a @ c # b'" by simp
    with assms(1) e show ?thesis unfolding topological_def by blast
  qed
qed

lemma release_spec:
  assumes "distinct cs" "\<forall>c \<in> set cs. \<exists>k. bt_get n c = Some (Suc k)"
  shows "\<exists>n' ready'. release cs n ready = Some (n', ready')
     \<and> (\<forall>c. bt_get n' c = (if c \<in> set cs then map_option (\<lambda>k. k - 1) (bt_get n c) else bt_get n c))
     \<and> (\<forall>c. bt_get ready' c \<noteq> None \<longleftrightarrow>
          bt_get ready c \<noteq> None \<or> (c \<in> set cs \<and> bt_get n c = Some 1))"
  using assms
proof (induction cs arbitrary: n ready)
  case (Cons c cs)
  then obtain k where k: "bt_get n c = Some (Suc k)" by auto
  let ?n = "bt_insert c k n" and ?r = "if k = 0 then bt_insert c () ready else ready"
  have "\<forall>c \<in> set cs. \<exists>k. bt_get ?n c = Some (Suc k)" using Cons.prems by auto
  with Cons.IH [of ?n ?r] Cons.prems(1) obtain n' ready' where
    r: "release cs ?n ?r = Some (n', ready')"
    "\<forall>c. bt_get n' c = (if c \<in> set cs then map_option (\<lambda>k. k - 1) (bt_get ?n c) else bt_get ?n c)"
    "\<forall>c. bt_get ready' c \<noteq> None \<longleftrightarrow>
       bt_get ?r c \<noteq> None \<or> (c \<in> set cs \<and> bt_get ?n c = Some 1)" by auto
  have c: "c \<notin> set cs" using Cons.prems by simp
  show ?case
    by (rule exI [of _ n'], rule exI [of _ ready'])
      (use r c k in \<open>auto simp del: not_None_eq split: if_splits\<close>)
qed simp

lemma sort_step:
  assumes inv: "sort_inv D g n ready order" and fin: "finite D"
    and ends: "\<forall>q c. edge g q c \<longrightarrow> q \<in> D \<and> c \<in> D"
    and p: "bt_get ready p \<noteq> None" and cs: "bt_get g p = Some cs"
  shows "\<exists>n' ready'. release (bt_keys cs) n (bt_remove p ready) = Some (n', ready')
     \<and> sort_inv D g n' ready' (order @ [p])"
proof -
  have edge_p: "edge g p c \<longleftrightarrow> c \<in> set (bt_keys cs)" for c
    using cs by (simp add: edge_def)
  have pD: "p \<in> D" "p \<notin> set order" "\<forall>q. edge g q p \<longrightarrow> q \<in> set order"
    using inv p by (auto simp: sort_inv_def)
  have fin_w: "finite (waiting g S c)" for S c by simp
  have upd: "waiting g (set (order @ [p])) c =
      (if c \<in> set (bt_keys cs) then waiting g (set order) c - {p} else waiting g (set order) c)" for c
    using edge_p [of c] by auto
  have mem: "p \<in> waiting g (set order) c" if "c \<in> set (bt_keys cs)" for c
    using that pD edge_p by auto
  have cD: "c \<in> D" if "c \<in> set (bt_keys cs)" for c using that ends edge_p by blast
  have nn: "bt_get n c = (if c \<in> D then Some (card (waiting g (set order) c)) else None)" for c
    using inv by (auto simp: sort_inv_def)
  have suc: "\<exists>k. bt_get n c = Some (Suc k)" if "c \<in> set (bt_keys cs)" for c
  proof -
    have "card (waiting g (set order) c) \<noteq> 0"
      using mem [OF that] fin_w [of c "set order"] by (auto simp only: card_eq_0_iff)
    then obtain k where "card (waiting g (set order) c) = Suc k" using not0_implies_Suc by blast
    with nn [of c] cD [OF that] show ?thesis by simp
  qed
  have "\<forall>c \<in> set (bt_keys cs). \<exists>k. bt_get n c = Some (Suc k)" using suc by blast
  from release_spec [OF keys_distinct this, of "bt_remove p ready"]
  obtain n' ready' where r: "release (bt_keys cs) n (bt_remove p ready) = Some (n', ready')"
    "\<forall>c. bt_get n' c = (if c \<in> set (bt_keys cs) then map_option (\<lambda>k. k - 1) (bt_get n c) else bt_get n c)"
    "\<forall>c. bt_get ready' c \<noteq> None \<longleftrightarrow>
       bt_get (bt_remove p ready) c \<noteq> None \<or> (c \<in> set (bt_keys cs) \<and> bt_get n c = Some 1)"
    by blast
  have n': "bt_get n' c = (if c \<in> D then Some (card (waiting g (set (order @ [p])) c)) else None)" for c
  proof (cases "c \<in> set (bt_keys cs)")
    case True
    have "card (waiting g (set order) c - {p}) = card (waiting g (set order) c) - 1"
      by (rule card_Diff_singleton [OF mem [OF True]])
    with True show ?thesis
      using r(2)[rule_format, of c] nn [of c] cD [OF True] upd [of c] by simp
  next
    case False
    with r(2)[rule_format, of c] nn [of c] upd [of c] show ?thesis by simp
  qed
  have one: "card (waiting g (set order) c) = 1 \<longleftrightarrow> waiting g (set order) c - {p} = {}"
    if "c \<in> set (bt_keys cs)" for c
  proof -
    have "finite (waiting g (set order) c - {p})" using fin_w by (rule finite_Diff)
    then have "card (waiting g (set order) c - {p}) = 0 \<longleftrightarrow> waiting g (set order) c - {p} = {}"
      by (rule card_0_eq)
    then show ?thesis
      using card.remove [OF fin_w mem [OF that]] by linarith
  qed
  have ready: "bt_get ready c \<noteq> None \<longleftrightarrow> c \<in> D - set order \<and> waiting g (set order) c = {}" for c
    using inv unfolding sort_inv_def by blast
  have rd: "bt_get ready' c \<noteq> None \<longleftrightarrow>
      c \<in> D - set (order @ [p]) \<and> waiting g (set (order @ [p])) c = {}" for c
  proof (cases "c \<in> set (bt_keys cs)")
    case True
    have "bt_get ready c = None" using mem [OF True] ready [of c] by blast
    moreover have "c \<notin> set order"
    proof
      assume "c \<in> set order"
      then obtain a b where "order = a @ c # b" by (meson split_list)
      moreover have "topological g order" using inv by (simp add: sort_inv_def)
      ultimately have "p \<in> set a" using True edge_p unfolding topological_def by blast
      with \<open>order = a @ c # b\<close> pD show False by simp
    qed
    moreover have "c \<noteq> p" using True edge_p pD by blast
    moreover have "bt_get ready' c \<noteq> None \<longleftrightarrow> bt_get (bt_remove p ready) c \<noteq> None
        \<or> waiting g (set order) c - {p} = {}"
      using r(3)[rule_format, of c] True cD [OF True] nn [of c] one [OF True] by simp
    ultimately show ?thesis
      using True cD [OF True] upd [of c] by (simp del: not_None_eq)
  next
    case False
    then have "bt_get ready' c \<noteq> None \<longleftrightarrow> c \<noteq> p \<and> bt_get ready c \<noteq> None"
      using r(3)[rule_format, of c] by simp
    with False ready [of c] upd [of c] show ?thesis by auto
  qed
  have "topological g (order @ [p])"
    using inv pD by (intro topological_snoc) (auto simp: sort_inv_def)
  then have "sort_inv D g n' ready' (order @ [p])"
    using inv pD n' rd by (auto simp: sort_inv_def)
  with r(1) show ?thesis by blast
qed

lemma sort_ready_spec:
  assumes "sort_inv D g n ready order" "finite D" "\<forall>k. bt_get g k \<noteq> None \<longleftrightarrow> k \<in> D"
    and "\<forall>q c. edge g q c \<longrightarrow> q \<in> D \<and> c \<in> D" "card (D - set order) < fuel"
  shows "\<exists>order'. sort_ready fuel g n ready order = Some (Ok order')
     \<and> distinct order' \<and> set order' \<subseteq> D \<and> topological g order'
     \<and> (\<forall>p \<in> D - set order'. \<exists>q \<in> D - set order'. edge g q p)"
  using assms(1,5)
proof (induction fuel arbitrary: n ready order)
  case (Suc fuel)
  show ?case
  proof (cases "bt_keys ready")
    case Nil
    then have "bt_get ready p = None" for p by (metis empty_iff empty_set in_keys)
    then show ?thesis using Nil Suc.prems assms(4) by (auto simp: sort_inv_def; blast)
  next
    case (Cons p ps)
    then have p: "bt_get ready p \<noteq> None" by (metis in_keys list.set_intros(1))
    then have pD: "p \<in> D" "p \<notin> set order" using Suc.prems by (auto simp: sort_inv_def)
    with assms(3) obtain cs where cs: "bt_get g p = Some cs" by blast
    from sort_step [OF Suc.prems(1) assms(2,4) p cs] obtain n' ready' where
      r: "release (bt_keys cs) n (bt_remove p ready) = Some (n', ready')"
      "sort_inv D g n' ready' (order @ [p])" by blast
    have "D - set (order @ [p]) = D - set order - {p}" by auto
    then have "card (D - set (order @ [p])) < fuel"
      using Suc.prems(2) pD assms(2) by (simp add: card_Diff_singleton)
        (metis DiffI One_nat_def Suc_pred card_gt_0_iff empty_iff finite_Diff not_less_eq)
    from Suc.IH [OF r(2) this] Cons cs r(1) show ?thesis by simp
  qed
qed simp

section \<open>The search for a cycle\<close>

definition is_cycle :: "dep_graph \<Rightarrow> string list \<Rightarrow> bool" where
  "is_cycle g c \<longleftrightarrow>
     c \<noteq> [] \<and> distinct c \<and> successively (edge g) c \<and> edge g (last c) (hd c)"

text \<open>
  The stack is a path of the active providers, and a complete provider cannot reach a cycle:
  it is in the accessible part of the graph.
\<close>

definition dfs_inv ::
    "dep_graph \<Rightarrow> (string, visit_mark) btree \<Rightarrow> string list \<Rightarrow> bool" where
  "dfs_inv g states stack \<longleftrightarrow>
     distinct stack \<and> successively (edge g) stack
     \<and> (\<forall>k. bt_get states k = Some Active \<longleftrightarrow> k \<in> set stack)
     \<and> (\<forall>k. bt_get states k = Some Complete \<longrightarrow> Wellfounded.accp (\<lambda>c q. edge g q c) k)"

definition extends :: "(string, visit_mark) btree \<Rightarrow> (string, visit_mark) btree \<Rightarrow> bool" where
  "extends s s' \<longleftrightarrow> (\<forall>k v. bt_get s k = Some v \<longrightarrow> bt_get s' k = Some v)"

definition unvisited :: "dep_graph \<Rightarrow> (string, visit_mark) btree \<Rightarrow> nat" where
  "unvisited g s = card {k. bt_get g k \<noteq> None \<and> bt_get s k = None}"

definition search_ok ::
    "dep_graph \<Rightarrow> string set \<Rightarrow> (string, visit_mark) btree \<Rightarrow> string list \<Rightarrow> dfs_result \<Rightarrow> bool"
where
  "search_ok g ps states stack r \<longleftrightarrow>
     (case r of
        Cycle c \<Rightarrow> is_cycle g c
      | Finished states' stack' \<Rightarrow>
          stack' = stack \<and> dfs_inv g states' stack \<and> extends states states'
          \<and> (\<forall>p \<in> ps. bt_get states' p = Some Complete)
      | _ \<Rightarrow> False)"

lemma finite_unvisited [simp]: "finite {k. bt_get g k \<noteq> None \<and> P k}"
  by (rule finite_subset [OF _ finite_keys [of g]]) auto

lemma unvisited_mono: "extends s s' \<Longrightarrow> unvisited g s' \<le> unvisited g s"
  unfolding unvisited_def extends_def
proof (rule card_mono [OF finite_unvisited], rule subsetI)
  fix k
  assume e: "\<forall>k v. bt_get s k = Some v \<longrightarrow> bt_get s' k = Some v"
    and k: "k \<in> {k. bt_get g k \<noteq> None \<and> bt_get s' k = None}"
  then show "k \<in> {k. bt_get g k \<noteq> None \<and> bt_get s k = None}"
    by (cases "bt_get s k") auto
qed

lemma unvisited_insert:
  assumes "bt_get g p \<noteq> None" "bt_get s p = None"
  shows "Suc (unvisited g (bt_insert p v s)) = unvisited g s"
proof -
  have "{k. bt_get g k \<noteq> None \<and> bt_get (bt_insert p v s) k = None}
      = {k. bt_get g k \<noteq> None \<and> bt_get s k = None} - {p}" by auto
  moreover have "p \<in> {k. bt_get g k \<noteq> None \<and> bt_get s k = None}" using assms by simp
  ultimately show ?thesis
    unfolding unvisited_def by (simp only: card.remove [OF finite_unvisited])
qed

lemma extends_trans: "extends a b \<Longrightarrow> extends b c \<Longrightarrow> extends a c"
  by (auto simp: extends_def)

lemma cycle_on_stack:
  assumes "dfs_inv g states stack" "stack \<noteq> []" "edge g (last stack) d" "d \<in> set stack"
  shows "is_cycle g (dropWhile (\<lambda>e. e \<noteq> d) stack)"
proof -
  obtain a b where s: "stack = a @ d # b" "d \<notin> set a" using assms(4) by (metis split_list_first)
  then have "dropWhile (\<lambda>e. e \<noteq> d) stack = d # b" by (simp add: dropWhile_append)
  with s assms show ?thesis
    by (auto simp: is_cycle_def dfs_inv_def successively_append_iff)
qed

lemma push_inv:
  assumes "dfs_inv g states stack" "bt_get states p = None" "stack = [] \<or> edge g (last stack) p"
  shows "dfs_inv g (bt_insert p Active states) (stack @ [p])"
proof -
  have "p \<notin> set stack" using assms(1,2) unfolding dfs_inv_def by (metis option.distinct(1))
  with assms show ?thesis by (auto simp: dfs_inv_def successively_append_iff)
qed

lemma pop_inv:
  assumes "dfs_inv g states (stack @ [p])" "\<forall>c. edge g p c \<longrightarrow> bt_get states c = Some Complete"
  shows "dfs_inv g (bt_insert p Complete states) stack"
proof -
  have "Wellfounded.accp (\<lambda>c q. edge g q c) p"
    by (rule accp.accI) (use assms in \<open>auto simp: dfs_inv_def\<close>)
  with assms show ?thesis by (auto simp: dfs_inv_def successively_append_iff)
qed

lemma visit_spec:
  shows "\<forall>q c. edge g q c \<longrightarrow> bt_get g c \<noteq> None \<Longrightarrow> bt_get g p \<noteq> None \<Longrightarrow> bt_get states p = None \<Longrightarrow> dfs_inv g states stack
     \<Longrightarrow> stack = [] \<or> edge g (last stack) p \<Longrightarrow> unvisited g states \<le> fuel
     \<Longrightarrow> search_ok g {p} states stack (visit fuel g p states stack)"
   and "\<forall>q c. edge g q c \<longrightarrow> bt_get g c \<noteq> None \<Longrightarrow> dfs_inv g states stack \<Longrightarrow> stack \<noteq> [] \<Longrightarrow> \<forall>d \<in> set ds. edge g (last stack) d
     \<Longrightarrow> unvisited g states \<le> fuel
     \<Longrightarrow> search_ok g (set ds) states stack (visit_each fuel g ds states stack)"
proof (induction fuel g p states stack and fuel g ds states stack
    rule: visit_visit_each.induct)
  case (1 g p states stack)
  then have "unvisited g states = 0" "Suc (unvisited g (bt_insert p Active states)) = unvisited g states"
    using unvisited_insert [of g p states Active] by auto
  then show ?case by simp
next
  case (2 fuel g p states stack)
  then obtain cs where cs: "bt_get g p = Some cs" by blast
  let ?s = "bt_insert p Active states"
  have succ: "edge g p c \<longleftrightarrow> c \<in> set (bt_keys cs)" for c using cs by (simp add: edge_def)
  have "unvisited g ?s \<le> fuel" using unvisited_insert [of g p states Active] 2 by simp
  with 2 cs push_inv [of g states stack p] succ
  have r: "search_ok g (set (bt_keys cs)) ?s (stack @ [p])
      (visit_each fuel g (bt_keys cs) ?s (stack @ [p]))" by simp
  show ?case
  proof (cases "visit_each fuel g (bt_keys cs) ?s (stack @ [p])")
    case (Finished s' st')
    with r have s': "st' = stack @ [p]" "dfs_inv g s' (stack @ [p])" "extends ?s s'"
      "\<forall>c. edge g p c \<longrightarrow> bt_get s' c = Some Complete"
      using succ by (auto simp: search_ok_def)
    have "extends states (bt_insert p Complete s')"
      using s'(3) 2(4) by (auto simp: extends_def)
    with pop_inv [OF s'(2,4)] Finished cs s'(1) show ?thesis by (simp add: search_ok_def)
  qed (use r cs in \<open>auto simp: search_ok_def\<close>)
next
  case (3 fuel g states stack)
  then show ?case by (simp add: search_ok_def extends_def)
next
  case (4 fuel g d ds states stack)
  show ?case
  proof (cases "bt_get states d")
    case None
    moreover have "edge g (last stack) d" using 4(7) by simp
    then have "bt_get g d \<noteq> None" using 4(4) by blast
    ultimately have r: "search_ok g {d} states stack (visit fuel g d states stack)"
      using 4 by simp
    show ?thesis
    proof (cases "visit fuel g d states stack")
      case (Finished s' st')
      with r have s': "st' = stack" "dfs_inv g s' stack" "extends states s'"
        "bt_get s' d = Some Complete" by (auto simp: search_ok_def)
      with 4 None Finished unvisited_mono [OF s'(3), of g]
      have r': "search_ok g (set ds) s' stack (visit_each fuel g ds s' stack)" by simp
      show ?thesis
      proof (cases "visit_each fuel g ds s' stack")
        case (Finished s'' st'')
        with r' s' have "bt_get s'' d = Some Complete" "extends states s''"
          by (auto simp: search_ok_def extends_def)
        with r' Finished None \<open>visit fuel g d states stack = Finished s' st'\<close> s'(1)
        show ?thesis by (simp add: search_ok_def)
      qed (use r' None Finished s' in \<open>auto simp: search_ok_def\<close>)
    qed (use r None in \<open>auto simp: search_ok_def\<close>)
  next
    case (Some m)
    show ?thesis
    proof (cases m)
      case Active
      with Some 4 have "d \<in> set stack" by (simp add: dfs_inv_def)
      with Some Active 4 cycle_on_stack [of g states stack d] show ?thesis
        by (simp add: search_ok_def)
    next
      case Complete
      with Some 4 have r: "search_ok g (set ds) states stack (visit_each fuel g ds states stack)"
        by simp
      with Some Complete show ?thesis
        by (auto simp: search_ok_def extends_def split: dfs_result.splits)
    qed
  qed
qed

lemma find_cycle_from_spec:
  assumes "\<forall>q c. edge g q c \<longrightarrow> bt_get g c \<noteq> None" "\<forall>p \<in> set ps. bt_get g p \<noteq> None"
    and "dfs_inv g states []" "unvisited g states \<le> fuel"
  shows "case find_cycle_from fuel g ps states [] of
       Cycle c \<Rightarrow> is_cycle g c
     | DfsPanic \<Rightarrow> \<forall>p \<in> set ps. Wellfounded.accp (\<lambda>c q. edge g q c) p
     | _ \<Rightarrow> False"
  using assms(2-4)
proof (induction ps arbitrary: states)
  case (Cons p ps)
  show ?case
  proof (cases "bt_get states p")
    case (Some m)
    with Cons.prems(2) have "m = Complete" by (cases m) (auto simp: dfs_inv_def)
    with Some Cons.prems have "Wellfounded.accp (\<lambda>c q. edge g q c) p" by (simp add: dfs_inv_def)
    moreover have "find_cycle_from fuel g (p # ps) states [] = find_cycle_from fuel g ps states []"
      using Some by simp
    ultimately show ?thesis
      using Cons.IH [of states] Cons.prems by (auto split: dfs_result.splits)
  next
    case None
    with Cons.prems visit_spec(1) [OF assms(1), of p states "[]" fuel]
    have r: "search_ok g {p} states [] (visit fuel g p states [])" by simp
    show ?thesis
    proof (cases "visit fuel g p states []")
      case (Finished s' st')
      with r have s': "st' = []" "dfs_inv g s' []" "extends states s'" "bt_get s' p = Some Complete"
        by (auto simp: search_ok_def)
      then have "Wellfounded.accp (\<lambda>c q. edge g q c) p" by (simp add: dfs_inv_def)
      moreover have "find_cycle_from fuel g (p # ps) states [] = find_cycle_from fuel g ps s' []"
        using None Finished s'(1) by simp
      ultimately show ?thesis
        using Cons.IH [of s'] Cons.prems s'(2) unvisited_mono [OF s'(3), of g]
        by (auto split: dfs_result.splits)
    qed (use r None in \<open>auto simp: search_ok_def\<close>)
  qed
qed simp

lemma stuck_set_not_accessible:
  assumes "finite L" "L \<noteq> {}" "\<forall>p \<in> L. \<exists>q \<in> L. edge g q p"
  shows "\<exists>p \<in> L. \<not> Wellfounded.accp (\<lambda>c q. edge g q c) p"
proof (rule ccontr)
  assume acc: "\<not> ?thesis"
  let ?P = "\<lambda>c q. edge g q c \<and> c \<in> L \<and> q \<in> L"
  have "Wellfounded.accp ?P x" for x
  proof (cases "x \<in> L")
    case True
    then have "Wellfounded.accp (\<lambda>c q. edge g q c) x" using acc by blast
    then show ?thesis by (induction rule: accp.induct) (auto intro: accp.accI)
  qed (blast intro: accp.accI)
  then have "acyclic {(c, q). ?P c q}"
    using accp_wfpI [of ?P] wf_acyclic unfolding wfp_def by blast
  moreover have "finite {(c, q). ?P c q}"
    by (rule finite_subset [of _ "L \<times> L"]) (use assms(1) in \<open>blast intro: finite_cartesian_product\<close>)+
  ultimately have "wf ({(c, q). ?P c q}\<inverse>)" by (intro finite_acyclic_wf_converse)
  from wfE_min' [OF this assms(2)] obtain z where
    z: "z \<in> L" "\<And>y. (y, z) \<in> {(c, q). ?P c q}\<inverse> \<Longrightarrow> y \<notin> L" by blast
  with assms(3) obtain q where "q \<in> L" "edge g q z" by blast
  with z(1) have "(q, z) \<in> {(c, q). ?P c q}\<inverse>" by simp
  from z(2) [OF this] \<open>q \<in> L\<close> show False by (rule notE)
qed

section \<open>The whole operation\<close>

abbreviation dependency_relation :: "capability_registry \<Rightarrow> (string \<times> string) set" where
  "dependency_relation r \<equiv> {(q, c). depends_on r c q}"

lemma is_cycle_trancl:
  assumes "is_cycle g c"
  shows "(hd c, hd c) \<in> {(q, c). edge g q c}\<^sup>+"
proof -
  have "xs \<noteq> [] \<Longrightarrow> successively (edge g) xs \<Longrightarrow> (hd xs, last xs) \<in> {(q, c). edge g q c}\<^sup>*" for xs
  proof (induction xs rule: induct_list012)
    case (3 x y xs)
    then have "(y, last (y # xs)) \<in> {(q, c). edge g q c}\<^sup>*" "(x, y) \<in> {(q, c). edge g q c}" by auto
    then show ?case by (auto intro: converse_rtrancl_into_rtrancl)
  qed auto
  with assms have "(hd c, last c) \<in> {(q, c). edge g q c}\<^sup>*" by (simp add: is_cycle_def)
  moreover have "(last c, hd c) \<in> {(q, c). edge g q c}" using assms by (simp add: is_cycle_def)
  ultimately show ?thesis by (rule rtrancl_into_trancl1)
qed

lemma topological_acyclic:
  assumes "topological g order" "\<forall>q c. edge g q c \<longrightarrow> c \<in> set order"
  shows "acyclic {(q, c). edge g q c}"
proof -
  let ?pos = "\<lambda>c. length (takeWhile (\<lambda>y. y \<noteq> c) order)"
  have lt: "?pos q < ?pos c" if e: "edge g q c" for q c
  proof -
    have "c \<in> set order" using assms(2) e by blast
    then obtain a b where o: "order = a @ c # b" "c \<notin> set a" by (metis split_list_first)
    then have "q \<in> set a" using assms(1) e unfolding topological_def by blast
    then have "length (takeWhile (\<lambda>y. y \<noteq> q) a) < length a"
      by (induction a) auto
    moreover have "takeWhile (\<lambda>y. y \<noteq> q) order = takeWhile (\<lambda>y. y \<noteq> q) a"
      using \<open>q \<in> set a\<close> by (simp add: o(1))
    moreover have "takeWhile (\<lambda>y. y \<noteq> c) order = a" using o by (simp add: takeWhile_append)
    ultimately show ?thesis by simp
  qed
  have "?pos x < ?pos y" if "(x, y) \<in> {(q, c). edge g q c}\<^sup>+" for x y
    using that by (induction rule: trancl_induct) (use lt in fastforce)+
  then show ?thesis unfolding acyclic_def by blast
qed

text \<open>
  Everything the three phases establish, in one statement: the case analysis below is the
  specification of \<open>resolve_activation_order\<close>.
\<close>

lemma resolve_cases:
  assumes "registry_inv r"
  obtains e where "\<not> requirements_met r" "graph_error e"
      "resolve_activation_order r = Some (Err e)"
  | g order where "requirements_met r" "\<forall>q c. edge g q c \<longleftrightarrow> depends_on r c q"
      "resolve_activation_order r = Some (Ok order)" "distinct order"
      "set order = registered r" "topological g order"
  | g c where "requirements_met r" "\<forall>q c. edge g q c \<longleftrightarrow> depends_on r c q"
      "resolve_activation_order r = Some (Err (DependencyCycle c))" "is_cycle g c"
proof (cases "requirements_met r")
  case False
  with dependency_graph_spec [OF assms] obtain e where
    "graph_error e" "dependency_graph r = Err e" by auto
  with False that(1) show thesis by (simp add: resolve_activation_order_def)
next
  case True
  with dependency_graph_spec [OF assms] obtain g n where
    g: "dependency_graph r = Ok (g, n)" "counts_ok (registered r) g n"
      "\<forall>q c. edge g q c \<longleftrightarrow> depends_on r c q" by auto
  let ?D = "registered r"
  let ?ready = "bt_map (\<lambda>_ _. ()) (bt_retain (\<lambda>_ k. k = 0) n)"
  have dom: "\<forall>k. bt_get g k \<noteq> None \<longleftrightarrow> k \<in> ?D" using g(2) by (simp add: counts_ok_def)
  have ends: "\<forall>q c. edge g q c \<longrightarrow> q \<in> ?D \<and> c \<in> ?D"
    using g(2) dom by (auto simp: counts_ok_def edge_def)
  have len: "bt_len (cr_registrations r) = card ?D" by (rule bt_len_card)
  have fin_w: "finite {q. edge g q c}" for c using finite_preds [of g c "\<lambda>_. True"] by simp
  have "bt_get ?ready p \<noteq> None \<longleftrightarrow> p \<in> ?D \<and> {q. edge g q p} = {}" for p
    using g(2) fin_w [of p] by (auto simp: counts_ok_def card_eq_0_iff split: option.splits)
  then have inv: "sort_inv ?D g n ?ready []"
    using g(2) by (simp add: sort_inv_def topological_def counts_ok_def)
  from sort_ready_spec [OF inv finite_keys dom ends, of "Suc (card ?D)"]
  obtain order where o: "sort_ready (Suc (card ?D)) g n ?ready [] = Some (Ok order)"
    "distinct order" "set order \<subseteq> ?D" "topological g order"
    "\<forall>p \<in> ?D - set order. \<exists>q \<in> ?D - set order. edge g q p" by auto
  show thesis
  proof (cases "set order = ?D")
    case eq: True
    then have "length order = card ?D" using o(2) distinct_card by metis
    with g(1) o(1) have "resolve_activation_order r = Some (Ok order)"
      by (simp add: resolve_activation_order_def len)
    with that(2) True g(3) o(2,4) eq show thesis by blast
  next
    case False
    then have L: "?D - set order \<noteq> {}" using o(3) by blast
    have "length order \<noteq> card ?D"
      using False o(2,3) card_subset_eq [OF finite_keys o(3)] distinct_card by metis
    moreover have "unvisited g bt_empty = bt_len g" by (simp add: unvisited_def bt_len_card)
    moreover have "dfs_inv g bt_empty []" by (simp add: dfs_inv_def)
    moreover have "set (bt_keys g) = ?D" using dom by auto
    moreover have "finite (?D - set order)" using finite_keys by (rule finite_Diff)
    from stuck_set_not_accessible [OF this L o(5)]
    have "\<exists>p \<in> ?D. \<not> Wellfounded.accp (\<lambda>c q. edge g q c) p" by blast
    ultimately obtain c where "find_dependency_cycle g = Cycle c" "is_cycle g c"
      using find_cycle_from_spec [of g "bt_keys g" bt_empty "bt_len g"] dom ends
      by (auto simp: find_dependency_cycle_def split: dfs_result.splits)
    with g(1) o(1) \<open>length order \<noteq> card ?D\<close>
    have "resolve_activation_order r = Some (Err (DependencyCycle c))"
      by (simp add: resolve_activation_order_def len)
    with that(3) True g(3) \<open>is_cycle g c\<close> show thesis by blast
  qed
qed

text \<open>A registry whose two providers require each other.\<close>

definition demo_cap2 :: capability_descriptor where
  "demo_cap2 = \<lparr>cd_name = CapabilityName ''runtime.traffic'', cd_api = ApiVersion 1,
                cd_scope = Runtime\<rparr>"

definition demo_cyclic :: capability_registry where
  "demo_cyclic =
     snd (register_provider ''dev.b'' 1 [demo_cap2] [demo_cap] []
       (snd (register_provider ''dev.a'' 1 [demo_cap] [demo_cap2] [] (registry_new 1))))"

lemma demo_cyclic_inv: "registry_inv demo_cyclic"
proof -
  let ?a = "snd (register_provider ''dev.a'' 1 [demo_cap] [demo_cap2] [] (registry_new 1))"
  have "registry_step (registry_new 1) ?a" "registry_step ?a demo_cyclic"
    unfolding demo_cyclic_def by (auto intro: registry_step.register simp: prod_eq_iff)
  then have "registry_step\<^sup>*\<^sup>* (registry_new 1) demo_cyclic"
    by (meson rtranclp.rtrancl_into_rtrancl rtranclp.rtrancl_refl)
  then show ?thesis by (rule reg_sys.run_inv) (rule registry_inv_new)
qed

lemma demo_order: "resolve_activation_order demo_registry = Some (Ok [''dev.provider'', ''dev.consumer''])"
  by code_simp

lemma demo_cycle:
  "resolve_activation_order demo_cyclic = Some (Err (DependencyCycle [''dev.a'', ''dev.b'']))"
  by code_simp

text \<open>
  C31: an activation order lists every registered provider exactly once, and every provider a
  registration depends on (declared dependency or provider of a required capability) comes
  before it.
\<close>

theorem activation_order_correct:
  assumes "registry_inv r" "resolve_activation_order r = Some (Ok order)"
  shows "distinct order \<and> set order = {k. bt_get (cr_registrations r) k \<noteq> None}
    \<and> (\<forall>a c b q. order = a @ c # b \<and> depends_on r c q \<longrightarrow> q \<in> set a)"
  using assms(1)
proof (cases rule: resolve_cases)
  case (2 g o)
  with assms(2) show ?thesis by (auto simp: topological_def)
qed (use assms(2) in auto)

theorem activation_order_correct_witness:
  "registry_inv demo_registry
   \<and> resolve_activation_order demo_registry = Some (Ok [''dev.provider'', ''dev.consumer''])
   \<and> distinct [''dev.provider'', ''dev.consumer'']"
  using activation_order_correct [OF demo_registry_inv demo_order] demo_registry_inv demo_order
  by blast

text \<open>
  When the order is refused with a dependency cycle, the providers reported are distinct
  registered providers, each depended on by the next and the last by the first.
\<close>

theorem activation_cycle_real:
  assumes "registry_inv r" "resolve_activation_order r = Some (Err (DependencyCycle c))"
  shows "c \<noteq> [] \<and> distinct c \<and> successively (\<lambda>q k. depends_on r k q) c \<and> depends_on r (hd c) (last c)"
  using assms(1)
proof (cases rule: resolve_cases)
  case (1 e)
  with assms(2) show ?thesis by simp
next
  case (3 g c')
  then have "edge g = (\<lambda>q k. depends_on r k q)" by (intro ext) simp
  with 3 assms(2) show ?thesis by (simp add: is_cycle_def)
qed (use assms(2) in simp)

theorem activation_cycle_real_witness:
  "registry_inv demo_cyclic
   \<and> resolve_activation_order demo_cyclic = Some (Err (DependencyCycle [''dev.a'', ''dev.b'']))
   \<and> depends_on demo_cyclic ''dev.a'' ''dev.b''"
  using activation_cycle_real [OF demo_cyclic_inv demo_cycle] demo_cyclic_inv demo_cycle by simp

text \<open>
  C40: the operation never panics and always returns; it returns an order exactly when every
  requirement is met and the dependencies are acyclic, a cycle exactly when they are met and
  cyclic, and another error exactly when a requirement is not met.
\<close>

theorem activation_order_total:
  assumes "registry_inv r"
  shows "\<exists>res. resolve_activation_order r = Some res \<and> res \<noteq> Panic
    \<and> (is_ok res \<longleftrightarrow> requirements_met r \<and> acyclic {(q, c). depends_on r c q})
    \<and> ((\<exists>c. res = Err (DependencyCycle c)) \<longleftrightarrow>
         requirements_met r \<and> \<not> acyclic {(q, c). depends_on r c q})"
  using assms
proof (cases rule: resolve_cases)
  case (1 e)
  then show ?thesis by auto
next
  case (2 g order)
  have "\<forall>q c. edge g q c \<longrightarrow> c \<in> set order"
    using 2(2,5) by (auto simp: depends_on_def)
  from topological_acyclic [OF 2(6) this] 2 show ?thesis by simp
next
  case (3 g c)
  have "\<not> acyclic {(q, c). edge g q c}"
    using is_cycle_trancl [OF 3(4)] by (auto simp: acyclic_def)
  with 3 show ?thesis by simp
qed

theorem activation_order_total_witness:
  "registry_inv demo_cyclic
   \<and> (\<exists>res. resolve_activation_order demo_cyclic = Some res \<and> res \<noteq> Panic)"
  using activation_order_total [OF demo_cyclic_inv] demo_cyclic_inv by blast

end
