(* ===== verification/Text_Path.thy ===== *)
theory Text_Path
  imports Prelude
begin

text \<open>
  What the validation code uses of the standard library on text and paths: UTF-8 as a list of
  code points, white space and trimming, and \<open>std::path\<close> as it is on the Unix targets (the
  blocks under \<open>cfg(windows)\<close> are not modelled).
\<close>

section \<open>UTF-8\<close>

definition is_cont :: "char \<Rightarrow> bool" where
  "is_cont c = (128 \<le> byte c \<and> byte c < 192)"

definition cont_bits :: "char \<Rightarrow> nat" where
  "cont_bits c = byte c - 128"

text \<open>
  \<open>String::from_utf8\<close>: the well-formed sequences of one to four bytes, without overlong forms
  and surrogates. \<open>chars\<close> of ill-formed text is never taken by the program.
\<close>

fun utf8_decode :: "string \<Rightarrow> nat list option" where
  "utf8_decode [] = Some []"
| "utf8_decode (a # s) =
     (if byte a < 128 then map_option (\<lambda>r. byte a # r) (utf8_decode s)
      else case s of
        b # s1 \<Rightarrow>
          if 194 \<le> byte a \<and> byte a < 224 then
            if is_cont b
            then map_option (\<lambda>r. ((byte a - 192) * 64 + cont_bits b) # r) (utf8_decode s1)
            else None
          else (case s1 of
            c # s2 \<Rightarrow>
              if 224 \<le> byte a \<and> byte a < 240 then
                (let p = (byte a - 224) * 4096 + cont_bits b * 64 + cont_bits c
                 in if is_cont b \<and> is_cont c \<and> 2048 \<le> p \<and> \<not> (55296 \<le> p \<and> p < 57344)
                    then map_option (\<lambda>r. p # r) (utf8_decode s2) else None)
              else (case s2 of
                d # s3 \<Rightarrow>
                  if 240 \<le> byte a \<and> byte a < 248 then
                    (let p = (byte a - 240) * 262144 + cont_bits b * 4096 + cont_bits c * 64
                             + cont_bits d
                     in if is_cont b \<and> is_cont c \<and> is_cont d \<and> 65536 \<le> p \<and> p < 1114112
                        then map_option (\<lambda>r. p # r) (utf8_decode s3) else None)
                  else None
              | [] \<Rightarrow> None)
          | [] \<Rightarrow> None)
      | [] \<Rightarrow> None)"

definition valid_utf8 :: "string \<Rightarrow> bool" where
  "valid_utf8 s = (utf8_decode s \<noteq> None)"

definition chars :: "string \<Rightarrow> nat list" where
  "chars s = (case utf8_decode s of Some cs \<Rightarrow> cs | None \<Rightarrow> map byte s)"

text \<open>\<open>char::is_whitespace\<close>: the code points with the property White_Space.\<close>

definition is_whitespace :: "nat \<Rightarrow> bool" where
  "is_whitespace c =
     ((9 \<le> c \<and> c \<le> 13) \<or> c = 32 \<or> c = 133 \<or> c = 160 \<or> c = 5760 \<or> (8192 \<le> c \<and> c \<le> 8202)
      \<or> c = 8232 \<or> c = 8233 \<or> c = 8239 \<or> c = 8287 \<or> c = 12288)"

text \<open>\<open>text.trim().is_empty()\<close>.\<close>

definition blank :: "string \<Rightarrow> bool" where
  "blank s = list_all is_whitespace (chars s)"

lemma is_ascii_Cons [simp]: "is_ascii (c # s) \<longleftrightarrow> byte c < 128 \<and> is_ascii s"
  by (simp add: is_ascii_def)

lemma utf8_decode_ascii: "is_ascii s \<Longrightarrow> utf8_decode s = Some (map byte s)"
  by (induction s) simp_all

lemma chars_ascii: "is_ascii s \<Longrightarrow> chars s = map byte s"
  by (simp add: chars_def utf8_decode_ascii)

section \<open>Paths\<close>

datatype path_component = RootDir | CurDir | ParentDir | Normal string

definition slash :: char where
  "slash = CHR ''/''"

definition segment_component :: "string \<Rightarrow> path_component" where
  "segment_component s = (if s = ''..'' then ParentDir else Normal s)"

text \<open>
  \<open>Path::components\<close>: repeated separators and dot segments are skipped, except a leading dot
  of a relative path.
\<close>

definition path_components :: "string \<Rightarrow> path_component list" where
  "path_components s =
     (let segments = split_on slash s;
          body = map segment_component (filter (\<lambda>w. w \<noteq> [] \<and> w \<noteq> ''.'') segments)
      in if segments \<noteq> [] \<and> hd segments = [] \<and> s \<noteq> [] then RootDir # body
         else if segments \<noteq> [] \<and> hd segments = ''.'' then CurDir # body
         else body)"

definition path_is_absolute :: "string \<Rightarrow> bool" where
  "path_is_absolute s = (s \<noteq> [] \<and> hd s = slash)"

text \<open>\<open>Path\<close> compares by components.\<close>

definition path_eq :: "string \<Rightarrow> string \<Rightarrow> bool" where
  "path_eq a b = (path_components a = path_components b)"

lemma path_eq_refl [simp]: "path_eq a a"
  by (simp add: path_eq_def)

lemma path_eq_sym: "path_eq a b \<longleftrightarrow> path_eq b a"
  by (auto simp: path_eq_def)

lemma path_eq_trans: "path_eq a b \<Longrightarrow> path_eq b c \<Longrightarrow> path_eq a c"
  by (simp add: path_eq_def)

text \<open>No two entries of the list are the same path.\<close>

fun distinct_paths :: "string list \<Rightarrow> bool" where
  "distinct_paths [] = True"
| "distinct_paths (p # ps) = (\<not> list_ex (path_eq p) ps \<and> distinct_paths ps)"

text \<open>\<open>Path::join\<close> with a relative path, at the level of components.\<close>

definition stays_below :: "string \<Rightarrow> bool" where
  "stays_below s = (path_components s \<noteq> [] \<and> list_all (\<lambda>c. \<exists>w. c = Normal w) (path_components s))"

lemma split_on_nonempty [simp]: "split_on d s \<noteq> []"
  by (induction s) (auto split: list.splits)

lemma split_on_no_sep: "w \<in> set (split_on d s) \<Longrightarrow> d \<notin> set w"
proof (induction s arbitrary: w)
  case (Cons c s)
  obtain v vs where v: "split_on d s = v # vs" using split_on_nonempty by (metis neq_Nil_conv)
  show ?case
  proof (cases "c = d")
    case True
    with Cons v show ?thesis by auto
  next
    case False
    with Cons.prems v have "w = c # v \<or> w \<in> set vs" by auto
    with Cons.IH v False show ?thesis by auto
  qed
qed simp

lemma split_on_chars: "w \<in> set (split_on d s) \<Longrightarrow> set w \<subseteq> set s"
proof (induction s arbitrary: w)
  case (Cons c s)
  obtain v vs where v: "split_on d s = v # vs" using split_on_nonempty by (metis neq_Nil_conv)
  show ?case
  proof (cases "c = d")
    case True
    with Cons v show ?thesis by auto
  next
    case False
    with Cons.prems v have "w = c # v \<or> w \<in> set vs" by auto
    with Cons.IH v False show ?thesis by fastforce
  qed
qed simp

lemma split_on_append: "split_on d (a @ d # b) = split_on d a @ split_on d b"
proof (induction a)
  case (Cons c a)
  then show ?case using split_on_nonempty [of d a] by (auto split: list.splits)
qed simp

lemma split_on_single: "d \<notin> set n \<Longrightarrow> split_on d n = [n]"
  by (induction n) auto

lemma stays_belowI:
  assumes "\<forall>w \<in> set (split_on slash s). w \<noteq> [] \<and> w \<noteq> ''.'' \<and> w \<noteq> ''..''"
  shows "stays_below s"
proof -
  have "hd (split_on slash s) \<in> set (split_on slash s)" by simp
  then have h: "hd (split_on slash s) \<noteq> []" "hd (split_on slash s) \<noteq> ''.''" using assms by auto
  have "filter (\<lambda>w. w \<noteq> [] \<and> w \<noteq> ''.'') (split_on slash s) = split_on slash s"
    using assms by (simp add: filter_id_conv)
  with h assms show ?thesis
    by (auto simp: stays_below_def path_components_def segment_component_def list_all_iff Let_def)
qed

end
