(* ===== verification/Permission_Policy.thy ===== *)
theory Permission_Policy
  imports Text_Path
begin

text \<open>
  Permissions (\<open>src/src/plugins.rs\<close>) and the scopes that bound what a granted permission may
  touch (\<open>src/src/plugin_permissions.rs\<close>). \<open>url::Url\<close> and the file system are arguments.
\<close>

section \<open>Permissions\<close>

datatype permission =
    UiDom | UiMainWorld | CdpRaw | HostProcess | HostFs | HostNetwork | HostSystem
  | RuntimeManage | CoreStorage | CoreCredentials | CoreCredentialsUse | HostFsWrite
  | HostFsWatch | CoreFilesDialog | CoreEvents | CoreTasks | HostProcessSpawn | CoreNetwork
  | CoreNotifications | CoreClipboardRead | CoreClipboardWrite | CoreShortcuts
  | CoreDiagnostics | TrafficIntercept | TrafficSensitiveHeaders | TrafficRedirect

definition all_permissions :: "permission list" where
  "all_permissions =
     [UiDom, UiMainWorld, CdpRaw, HostProcess, HostFs, HostNetwork, HostSystem,
      RuntimeManage, CoreStorage, CoreCredentials, CoreCredentialsUse, HostFsWrite,
      HostFsWatch, CoreFilesDialog, CoreEvents, CoreTasks, HostProcessSpawn, CoreNetwork,
      CoreNotifications, CoreClipboardRead, CoreClipboardWrite, CoreShortcuts,
      CoreDiagnostics, TrafficIntercept, TrafficSensitiveHeaders, TrafficRedirect]"

fun permission_str :: "permission \<Rightarrow> string" where
  "permission_str UiDom = ''ui.dom''"
| "permission_str UiMainWorld = ''ui.mainWorld''"
| "permission_str CdpRaw = ''cdp.raw''"
| "permission_str HostProcess = ''host.process''"
| "permission_str HostFs = ''host.fs''"
| "permission_str HostNetwork = ''host.network''"
| "permission_str HostSystem = ''host.system''"
| "permission_str RuntimeManage = ''runtime.manage''"
| "permission_str CoreStorage = ''core.storage''"
| "permission_str CoreCredentials = ''core.credentials''"
| "permission_str CoreCredentialsUse = ''core.credentials.use''"
| "permission_str HostFsWrite = ''host.fs.write''"
| "permission_str HostFsWatch = ''host.fs.watch''"
| "permission_str CoreFilesDialog = ''core.files.dialog''"
| "permission_str CoreEvents = ''core.events''"
| "permission_str CoreTasks = ''core.tasks''"
| "permission_str HostProcessSpawn = ''host.process.spawn''"
| "permission_str CoreNetwork = ''core.network''"
| "permission_str CoreNotifications = ''core.notifications''"
| "permission_str CoreClipboardRead = ''core.clipboard.read''"
| "permission_str CoreClipboardWrite = ''core.clipboard.write''"
| "permission_str CoreShortcuts = ''core.shortcuts''"
| "permission_str CoreDiagnostics = ''core.diagnostics''"
| "permission_str TrafficIntercept = ''traffic.intercept''"
| "permission_str TrafficSensitiveHeaders = ''traffic.sensitiveHeaders''"
| "permission_str TrafficRedirect = ''traffic.redirect''"

fun is_core_service :: "permission \<Rightarrow> bool" where
  "is_core_service UiDom = False"
| "is_core_service UiMainWorld = False"
| "is_core_service CdpRaw = False"
| "is_core_service HostProcess = False"
| "is_core_service HostFs = False"
| "is_core_service HostNetwork = False"
| "is_core_service HostSystem = False"
| "is_core_service RuntimeManage = False"
| "is_core_service _ = True"

text \<open>The names the serde attributes of the enum accept.\<close>

definition permission_of_str :: "string \<Rightarrow> permission option" where
  "permission_of_str s = find (\<lambda>p. permission_str p = s) all_permissions"

lemma permission_of_str_str: "permission_of_str (permission_str p) = Some p"
  by (cases p) (simp_all add: permission_of_str_def all_permissions_def)

lemma permission_str_inject: "permission_str p = permission_str q \<longleftrightarrow> p = q"
  by (metis option.inject permission_of_str_str)

section \<open>The policy\<close>

definition MAX_BROKER_SCOPES :: nat where
  "MAX_BROKER_SCOPES = 32"

definition MAX_POLICY_PATH_BYTES :: nat where
  "MAX_POLICY_PATH_BYTES = 4096"

record broker_policy =
  bp_client_permissions :: bool
  bp_read_roots :: "string list"
  bp_network_origins :: "string list"
  bp_executables :: "string list"
  bp_write_roots :: "string list"
  bp_watch_roots :: "string list"
  bp_cwd_roots :: "string list"
  bp_env_keys :: "string list"
  bp_shortcuts :: "string list"

definition broker_policy_default :: broker_policy where
  "broker_policy_default =
     \<lparr>bp_client_permissions = False, bp_read_roots = [], bp_network_origins = [],
      bp_executables = [], bp_write_roots = [], bp_watch_roots = [], bp_cwd_roots = [],
      bp_env_keys = [], bp_shortcuts = []\<rparr>"

text \<open>\<open>PermissionPolicyError\<close>, by the reason its message gives.\<close>

datatype policy_error =
    ClientPermissionsWithScopes
  | TooManyEntries string
  | DuplicatePaths string
  | BrokerPath
  | PathNotUnicode
  | TooManyOrigins
  | OriginTooLong
  | OriginNotAbsolute
  | OriginNotExact
  | OriginNotNormalized
  | DuplicateOrigins
  | ValuesNotBounded string
  | EnvKeyName
  | ScopeWithoutGrant string
  | ExecutablesWithoutGrant
  | CannotResolve string
  | WrongFileType
  | NotAnExecutable

definition policy_is_empty :: "broker_policy \<Rightarrow> bool" where
  "policy_is_empty p =
     (\<not> bp_client_permissions p \<and> bp_read_roots p = [] \<and> bp_network_origins p = []
      \<and> bp_executables p = [] \<and> bp_write_roots p = [] \<and> bp_watch_roots p = []
      \<and> bp_cwd_roots p = [] \<and> bp_env_keys p = [] \<and> bp_shortcuts p = [])"

definition backslash :: char where
  "backslash = CHR 0x5C"

text \<open>\<open>text.split(['\\\\', '/'])\<close>: splitting after mapping one separator to the other.\<close>

definition split_seps :: "string \<Rightarrow> string list" where
  "split_seps s = split_on slash (map (\<lambda>c. if c = backslash then slash else c) s)"

definition validate_policy_path :: "string \<Rightarrow> (policy_error, unit) outcome" where
  "validate_policy_path p =
     (if \<not> valid_utf8 p then Err PathNotUnicode
      else if p = [] \<or> MAX_POLICY_PATH_BYTES < length p \<or> CHR 0x00 \<in> set p
        \<or> \<not> path_is_absolute p
        \<or> list_ex (\<lambda>c. c = ParentDir \<or> c = CurDir) (path_components p)
        \<or> list_ex (\<lambda>w. w = ''.'' \<or> w = ''..'') (split_seps p)
      then Err BrokerPath
      else Ok ())"

text \<open>The fields of \<open>url::Url\<close> the program reads.\<close>

record parsed_url =
  url_scheme :: string
  url_host :: "string option"
  url_username :: string
  url_password :: "string option"
  url_path :: string
  url_query :: "string option"
  url_fragment :: "string option"
  url_origin :: string

definition normalize_origin ::
    "(string \<Rightarrow> parsed_url option) \<Rightarrow> string \<Rightarrow> (policy_error, string) outcome" where
  "normalize_origin parse v =
     (if 4096 < length v then Err OriginTooLong
      else case parse v of
        None \<Rightarrow> Err OriginNotAbsolute
      | Some u \<Rightarrow>
          if (url_scheme u \<noteq> ''http'' \<and> url_scheme u \<noteq> ''https'') \<or> url_host u = None
            \<or> url_username u \<noteq> [] \<or> url_password u \<noteq> None
            \<or> (url_path u \<noteq> [] \<and> url_path u \<noteq> ''/'')
            \<or> url_query u \<noteq> None \<or> url_fragment u \<noteq> None
          then Err OriginNotExact
          else Ok (url_origin u))"

text \<open>The loop over one list of paths, with the paths already seen.\<close>

fun validate_paths :: "string \<Rightarrow> string list \<Rightarrow> string list \<Rightarrow> policy_error option" where
  "validate_paths name seen [] = None"
| "validate_paths name seen (p # ps) =
     (case validate_policy_path p of
        Err e \<Rightarrow> Some e
      | Panic \<Rightarrow> None
      | Ok _ \<Rightarrow>
          if list_ex (path_eq p) seen then Some (DuplicatePaths name)
          else validate_paths name (p # seen) ps)"

fun validate_path_fields :: "(string \<times> string list) list \<Rightarrow> policy_error option" where
  "validate_path_fields [] = None"
| "validate_path_fields ((name, ps) # fs) =
     (if MAX_BROKER_SCOPES < length ps then Some (TooManyEntries name)
      else case validate_paths name [] ps of
        Some e \<Rightarrow> Some e
      | None \<Rightarrow> validate_path_fields fs)"

fun validate_origins ::
    "(string \<Rightarrow> parsed_url option) \<Rightarrow> string list \<Rightarrow> string list \<Rightarrow> policy_error option" where
  "validate_origins parse seen [] = None"
| "validate_origins parse seen (v # vs) =
     (case normalize_origin parse v of
        Err e \<Rightarrow> Some e
      | Panic \<Rightarrow> None
      | Ok n \<Rightarrow>
          if n \<noteq> v then Some OriginNotNormalized
          else if v \<in> set seen then Some DuplicateOrigins
          else validate_origins parse (v # seen) vs)"

definition bounded_values :: "string list \<Rightarrow> bool" where
  "bounded_values vs =
     (length vs \<le> MAX_BROKER_SCOPES
      \<and> list_all (\<lambda>v. v \<noteq> [] \<and> length v \<le> 128 \<and> \<not> has_control v) vs \<and> distinct vs)"

definition env_key_name :: "string \<Rightarrow> bool" where
  "env_key_name k =
     (list_all (\<lambda>b. ascii_alnum b \<or> b = CHR ''_'') k \<and> k \<noteq> [] \<and> \<not> ascii_digit (hd k))"

definition policy_validate ::
    "(string \<Rightarrow> parsed_url option) \<Rightarrow> broker_policy \<Rightarrow> (policy_error, unit) outcome" where
  "policy_validate parse p =
     (if bp_client_permissions p
        \<and> (bp_read_roots p \<noteq> [] \<or> bp_write_roots p \<noteq> [] \<or> bp_watch_roots p \<noteq> []
           \<or> bp_network_origins p \<noteq> [] \<or> bp_executables p \<noteq> [] \<or> bp_cwd_roots p \<noteq> []
           \<or> bp_env_keys p \<noteq> [] \<or> bp_shortcuts p \<noteq> [])
      then Err ClientPermissionsWithScopes
      else case validate_path_fields
          [(''readRoots'', bp_read_roots p), (''executables'', bp_executables p),
           (''writeRoots'', bp_write_roots p), (''watchRoots'', bp_watch_roots p),
           (''cwdRoots'', bp_cwd_roots p)] of
        Some e \<Rightarrow> Err e
      | None \<Rightarrow>
          if MAX_BROKER_SCOPES < length (bp_network_origins p) then Err TooManyOrigins
          else case validate_origins parse [] (bp_network_origins p) of
            Some e \<Rightarrow> Err e
          | None \<Rightarrow>
              if \<not> bounded_values (bp_env_keys p) then Err (ValuesNotBounded ''envKeys'')
              else if \<not> bounded_values (bp_shortcuts p)
              then Err (ValuesNotBounded ''shortcuts'')
              else if \<not> list_all env_key_name (bp_env_keys p) then Err EnvKeyName
              else Ok ())"

text \<open>The scope kinds of a policy and the grant each one needs.\<close>

definition scope_grants :: "broker_policy \<Rightarrow> (bool \<times> permission) list" where
  "scope_grants p =
     [(bp_read_roots p \<noteq> [], HostFs), (bp_network_origins p \<noteq> [], HostNetwork),
      (bp_write_roots p \<noteq> [], HostFsWrite), (bp_watch_roots p \<noteq> [], HostFsWatch),
      (bp_cwd_roots p \<noteq> [] \<or> bp_env_keys p \<noteq> [], HostProcessSpawn),
      (bp_shortcuts p \<noteq> [], CoreShortcuts)]"

definition policy_validate_grants ::
    "(string \<Rightarrow> parsed_url option) \<Rightarrow> broker_policy \<Rightarrow> permission list
     \<Rightarrow> (policy_error, unit) outcome" where
  "policy_validate_grants parse p grants =
     (case policy_validate parse p of
        Err e \<Rightarrow> Err e
      | Panic \<Rightarrow> Panic
      | Ok _ \<Rightarrow>
          (case find (\<lambda>(present, g). present \<and> g \<notin> set grants) (scope_grants p) of
             Some (_, g) \<Rightarrow> Err (ScopeWithoutGrant (permission_str g))
           | None \<Rightarrow>
               if bp_executables p \<noteq> [] \<and> HostProcess \<notin> set grants
                 \<and> HostProcessSpawn \<notin> set grants
               then Err ExecutablesWithoutGrant else Ok ()))"

section \<open>Scopes a user selects\<close>

text \<open>The file system as the selection reads it.\<close>

datatype file_type = IsDirectory | IsFile | IsOther

record fs_view =
  fs_windows :: bool
  fs_current_dir :: "string option"
  fs_canonicalize :: "string \<Rightarrow> string option"
  fs_metadata :: "string \<Rightarrow> file_type option"

text \<open>\<open>Path::extension\<close> of a Windows path, without case.\<close>

definition has_exe_extension :: "string \<Rightarrow> bool" where
  "has_exe_extension p =
     (case rsplit_once (CHR ''.'') (rev (takeWhile (\<lambda>c. c \<noteq> slash \<and> c \<noteq> backslash) (rev p))) of
        None \<Rightarrow> False
      | Some (stem, extension) \<Rightarrow>
          stem \<noteq> [] \<and> map (\<lambda>c. if ascii_upper c then char_of (byte c + 32) else c) extension = ''exe'')"

definition path_join :: "string \<Rightarrow> string \<Rightarrow> string" where
  "path_join base p =
     (if path_is_absolute p then p
      else if base = [] \<or> last base = slash then base @ p else base @ [slash] @ p)"

definition canonical_selected :: "fs_view \<Rightarrow> string \<Rightarrow> bool \<Rightarrow> (policy_error, string) outcome" where
  "canonical_selected fs p directory =
     (case (if path_is_absolute p then Some p
            else map_option (\<lambda>d. path_join d p) (fs_current_dir fs)) of
        None \<Rightarrow> Err (CannotResolve p)
      | Some a \<Rightarrow>
          (case validate_policy_path a of
             Err e \<Rightarrow> Err e
           | Panic \<Rightarrow> Panic
           | Ok _ \<Rightarrow>
               (case fs_canonicalize fs a of
                  None \<Rightarrow> Err (CannotResolve a)
                | Some c \<Rightarrow>
                    (case validate_policy_path c of
                       Err e \<Rightarrow> Err e
                     | Panic \<Rightarrow> Panic
                     | Ok _ \<Rightarrow>
                         (case fs_metadata fs c of
                            None \<Rightarrow> Err (CannotResolve c)
                          | Some t \<Rightarrow>
                              if (directory \<and> t \<noteq> IsDirectory) \<or> (\<not> directory \<and> t \<noteq> IsFile)
                              then Err WrongFileType
                              else if fs_windows fs \<and> \<not> directory \<and> \<not> has_exe_extension c
                              then Err NotAnExecutable else Ok c)))))"

fun collect_ok :: "('a \<Rightarrow> ('e, 'b) outcome) \<Rightarrow> 'a list \<Rightarrow> ('e, 'b list) outcome" where
  "collect_ok f [] = Ok []"
| "collect_ok f (x # xs) =
     (case f x of
        Err e \<Rightarrow> Err e
      | Panic \<Rightarrow> Panic
      | Ok y \<Rightarrow>
          (case collect_ok f xs of
             Err e \<Rightarrow> Err e
           | Panic \<Rightarrow> Panic
           | Ok ys \<Rightarrow> Ok (y # ys)))"

definition from_explicit_inputs ::
    "(string \<Rightarrow> parsed_url option) \<Rightarrow> fs_view \<Rightarrow> string list \<Rightarrow> string list \<Rightarrow> string list
     \<Rightarrow> (policy_error, broker_policy) outcome" where
  "from_explicit_inputs parse fs reads origins exes =
     (case collect_ok (\<lambda>p. canonical_selected fs p True) reads of
        Err e \<Rightarrow> Err e | Panic \<Rightarrow> Panic
      | Ok reads \<Rightarrow>
          (case collect_ok (normalize_origin parse) origins of
             Err e \<Rightarrow> Err e | Panic \<Rightarrow> Panic
           | Ok origins \<Rightarrow>
               (case collect_ok (\<lambda>p. canonical_selected fs p False) exes of
                  Err e \<Rightarrow> Err e | Panic \<Rightarrow> Panic
                | Ok exes \<Rightarrow>
                    (let p = broker_policy_default\<lparr>bp_read_roots := reads,
                               bp_network_origins := origins, bp_executables := exes\<rparr>
                     in case policy_validate parse p of
                          Err e \<Rightarrow> Err e | Panic \<Rightarrow> Panic | Ok _ \<Rightarrow> Ok p))))"

definition canonicalized ::
    "(string \<Rightarrow> parsed_url option) \<Rightarrow> fs_view \<Rightarrow> broker_policy
     \<Rightarrow> (policy_error, broker_policy) outcome" where
  "canonicalized parse fs self =
     (if bp_client_permissions self then
        (case policy_validate parse self of
           Err e \<Rightarrow> Err e | Panic \<Rightarrow> Panic | Ok _ \<Rightarrow> Ok self)
      else
        (case from_explicit_inputs parse fs (bp_read_roots self) (bp_network_origins self)
                (bp_executables self) of
           Err e \<Rightarrow> Err e | Panic \<Rightarrow> Panic
         | Ok p \<Rightarrow>
             (case collect_ok (\<lambda>p. canonical_selected fs p True) (bp_write_roots self) of
                Err e \<Rightarrow> Err e | Panic \<Rightarrow> Panic
              | Ok writes \<Rightarrow>
                  (case collect_ok (\<lambda>p. canonical_selected fs p True) (bp_watch_roots self) of
                     Err e \<Rightarrow> Err e | Panic \<Rightarrow> Panic
                   | Ok watches \<Rightarrow>
                       (case collect_ok (\<lambda>p. canonical_selected fs p True) (bp_cwd_roots self) of
                          Err e \<Rightarrow> Err e | Panic \<Rightarrow> Panic
                        | Ok cwds \<Rightarrow>
                            (let p = p\<lparr>bp_write_roots := writes, bp_watch_roots := watches,
                                       bp_cwd_roots := cwds, bp_env_keys := bp_env_keys self,
                                       bp_shortcuts := bp_shortcuts self\<rparr>
                             in case policy_validate parse p of
                                  Err e \<Rightarrow> Err e | Panic \<Rightarrow> Panic | Ok _ \<Rightarrow> Ok p))))))"

section \<open>The trust record of a local plugin\<close>

record local_registration =
  lr_path :: string
  lr_grants :: "permission list"
  lr_policy :: broker_policy

text \<open>The derived \<open>PartialEq\<close>: paths compare by components.\<close>

definition policy_eq :: "broker_policy \<Rightarrow> broker_policy \<Rightarrow> bool" where
  "policy_eq a b =
     (bp_client_permissions a = bp_client_permissions b
      \<and> list_all2 path_eq (bp_read_roots a) (bp_read_roots b)
      \<and> bp_network_origins a = bp_network_origins b
      \<and> list_all2 path_eq (bp_executables a) (bp_executables b)
      \<and> list_all2 path_eq (bp_write_roots a) (bp_write_roots b)
      \<and> list_all2 path_eq (bp_watch_roots a) (bp_watch_roots b)
      \<and> list_all2 path_eq (bp_cwd_roots a) (bp_cwd_roots b)
      \<and> bp_env_keys a = bp_env_keys b \<and> bp_shortcuts a = bp_shortcuts b)"

definition registration_eq :: "local_registration \<Rightarrow> local_registration \<Rightarrow> bool" where
  "registration_eq a b =
     (path_eq (lr_path a) (lr_path b) \<and> lr_grants a = lr_grants b
      \<and> policy_eq (lr_policy a) (lr_policy b))"

fun clear_scopes :: "permission \<Rightarrow> permission list \<Rightarrow> broker_policy \<Rightarrow> broker_policy" where
  "clear_scopes HostFs grants p = p\<lparr>bp_read_roots := []\<rparr>"
| "clear_scopes HostNetwork grants p = p\<lparr>bp_network_origins := []\<rparr>"
| "clear_scopes HostProcess grants p =
     (if HostProcessSpawn \<notin> set grants then p\<lparr>bp_executables := []\<rparr> else p)"
| "clear_scopes HostProcessSpawn grants p =
     (if HostProcess \<notin> set grants then p\<lparr>bp_executables := []\<rparr> else p)
       \<lparr>bp_cwd_roots := [], bp_env_keys := []\<rparr>"
| "clear_scopes HostFsWrite grants p = p\<lparr>bp_write_roots := []\<rparr>"
| "clear_scopes HostFsWatch grants p = p\<lparr>bp_watch_roots := []\<rparr>"
| "clear_scopes CoreShortcuts grants p = p\<lparr>bp_shortcuts := []\<rparr>"
| "clear_scopes _ grants p = p"

definition remove_permission ::
    "permission \<Rightarrow> local_registration \<Rightarrow> bool \<times> local_registration" where
  "remove_permission permission r =
     (let grants = filter (\<lambda>g. g \<noteq> permission) (lr_grants r);
          new = r\<lparr>lr_grants := grants, lr_policy := clear_scopes permission grants (lr_policy r)\<rparr>
      in (\<not> registration_eq new r, new))"

definition validate_local_path :: "string \<Rightarrow> bool" where
  "validate_local_path p =
     (valid_utf8 p \<and> p \<noteq> [] \<and> CHR 0x00 \<notin> set p \<and> path_is_absolute p)"

definition validate_grants :: "permission list \<Rightarrow> bool" where
  "validate_grants grants = distinct grants"

definition validate_local_registration ::
    "(string \<Rightarrow> parsed_url option) \<Rightarrow> local_registration \<Rightarrow> bool" where
  "validate_local_registration parse r =
     (validate_local_path (lr_path r) \<and> validate_grants (lr_grants r)
      \<and> is_ok (policy_validate_grants parse (lr_policy r) (lr_grants r)))"

section \<open>Lemmas\<close>

lemma policy_path_not_panic: "validate_policy_path p \<noteq> Panic"
  by (simp add: validate_policy_path_def)

lemma normalize_not_panic: "normalize_origin parse v \<noteq> Panic"
  by (simp add: normalize_origin_def split: option.split)

lemma validate_paths_None:
  "validate_paths name seen ps = None \<longleftrightarrow>
     list_all (\<lambda>p. is_ok (validate_policy_path p) \<and> \<not> list_ex (path_eq p) seen) ps
     \<and> distinct_paths ps"
proof (induction ps arbitrary: seen)
  case (Cons p ps)
  have "list_ex (path_eq q) (p # seen) \<longleftrightarrow> path_eq p q \<or> list_ex (path_eq q) seen" for q
    by (simp add: path_eq_sym)
  with Cons policy_path_not_panic [of p] show ?case
    by (cases "validate_policy_path p") (auto simp: list_all_iff list_ex_iff path_eq_sym)
qed simp

text \<open>What \<open>validate\<close> accepts, field by field.\<close>

definition path_field_ok :: "string list \<Rightarrow> bool" where
  "path_field_ok ps \<longleftrightarrow>
     length ps \<le> MAX_BROKER_SCOPES \<and> list_all (\<lambda>p. is_ok (validate_policy_path p)) ps
     \<and> distinct_paths ps"

definition origins_ok :: "(string \<Rightarrow> parsed_url option) \<Rightarrow> string list \<Rightarrow> bool" where
  "origins_ok parse vs \<longleftrightarrow>
     length vs \<le> MAX_BROKER_SCOPES \<and> list_all (\<lambda>v. normalize_origin parse v = Ok v) vs \<and> distinct vs"

definition has_scopes :: "broker_policy \<Rightarrow> bool" where
  "has_scopes p \<longleftrightarrow>
     bp_read_roots p \<noteq> [] \<or> bp_write_roots p \<noteq> [] \<or> bp_watch_roots p \<noteq> []
     \<or> bp_network_origins p \<noteq> [] \<or> bp_executables p \<noteq> [] \<or> bp_cwd_roots p \<noteq> []
     \<or> bp_env_keys p \<noteq> [] \<or> bp_shortcuts p \<noteq> []"

lemma validate_path_fields_None:
  "validate_path_fields fs = None \<longleftrightarrow> list_all (\<lambda>(name, ps). path_field_ok ps) fs"
proof (induction fs)
  case (Cons f fs)
  obtain name ps where f: "f = (name, ps)" by (cases f)
  have "validate_paths name [] ps = None \<longleftrightarrow>
      list_all (\<lambda>p. is_ok (validate_policy_path p)) ps \<and> distinct_paths ps"
    by (simp add: validate_paths_None)
  with Cons f show ?case by (auto simp: path_field_ok_def split: option.splits)
qed simp

lemma validate_origins_None:
  "validate_origins parse seen vs = None \<longleftrightarrow>
     list_all (\<lambda>v. normalize_origin parse v = Ok v \<and> v \<notin> set seen) vs \<and> distinct vs"
proof (induction vs arbitrary: seen)
  case (Cons v vs)
  with normalize_not_panic [of parse v] show ?case
    by (cases "normalize_origin parse v") (auto simp: list_all_iff)
qed simp

lemma policy_validate_ok:
  "policy_validate parse p = Ok () \<longleftrightarrow>
     \<not> (bp_client_permissions p \<and> has_scopes p)
     \<and> path_field_ok (bp_read_roots p) \<and> path_field_ok (bp_executables p)
     \<and> path_field_ok (bp_write_roots p) \<and> path_field_ok (bp_watch_roots p)
     \<and> path_field_ok (bp_cwd_roots p) \<and> origins_ok parse (bp_network_origins p)
     \<and> bounded_values (bp_env_keys p) \<and> bounded_values (bp_shortcuts p)
     \<and> list_all env_key_name (bp_env_keys p)"
proof -
  have "validate_path_fields
          [(''readRoots'', bp_read_roots p), (''executables'', bp_executables p),
           (''writeRoots'', bp_write_roots p), (''watchRoots'', bp_watch_roots p),
           (''cwdRoots'', bp_cwd_roots p)] = None
        \<longleftrightarrow> path_field_ok (bp_read_roots p) \<and> path_field_ok (bp_executables p)
          \<and> path_field_ok (bp_write_roots p) \<and> path_field_ok (bp_watch_roots p)
          \<and> path_field_ok (bp_cwd_roots p)"
    by (simp add: validate_path_fields_None del: validate_path_fields.simps)
  moreover have "validate_origins parse [] (bp_network_origins p) = None
      \<and> length (bp_network_origins p) \<le> MAX_BROKER_SCOPES \<longleftrightarrow> origins_ok parse (bp_network_origins p)"
    by (auto simp: validate_origins_None origins_ok_def)
  ultimately show ?thesis
    unfolding policy_validate_def has_scopes_def
    by (auto simp del: validate_path_fields.simps split: option.split)
qed

lemma policy_validate_not_panic: "policy_validate parse p \<noteq> Panic"
  unfolding policy_validate_def by (auto simp del: validate_path_fields.simps split: option.split)

definition scopes_granted :: "broker_policy \<Rightarrow> permission list \<Rightarrow> bool" where
  "scopes_granted p grants \<longleftrightarrow>
     (bp_read_roots p \<noteq> [] \<longrightarrow> HostFs \<in> set grants)
     \<and> (bp_network_origins p \<noteq> [] \<longrightarrow> HostNetwork \<in> set grants)
     \<and> (bp_write_roots p \<noteq> [] \<longrightarrow> HostFsWrite \<in> set grants)
     \<and> (bp_watch_roots p \<noteq> [] \<longrightarrow> HostFsWatch \<in> set grants)
     \<and> (bp_cwd_roots p \<noteq> [] \<or> bp_env_keys p \<noteq> [] \<longrightarrow> HostProcessSpawn \<in> set grants)
     \<and> (bp_shortcuts p \<noteq> [] \<longrightarrow> CoreShortcuts \<in> set grants)
     \<and> (bp_executables p \<noteq> [] \<longrightarrow> HostProcess \<in> set grants \<or> HostProcessSpawn \<in> set grants)"

lemma policy_validate_grants_ok:
  "policy_validate_grants parse p grants = Ok () \<longleftrightarrow>
     policy_validate parse p = Ok () \<and> scopes_granted p grants"
proof -
  have find: "find (\<lambda>(present, g). present \<and> g \<notin> set grants) (scope_grants p) = None \<longleftrightarrow>
      (\<forall>(present, g) \<in> set (scope_grants p). present \<longrightarrow> g \<in> set grants)"
    by (auto simp: find_None_iff)
  show ?thesis
    using policy_validate_not_panic [of parse p]
    by (cases "find (\<lambda>(present, g). present \<and> g \<notin> set grants) (scope_grants p)";
        cases "policy_validate parse p")
      (use find in \<open>auto simp: policy_validate_grants_def scopes_granted_def scope_grants_def\<close>)
qed

lemma is_ok_unit: "is_ok (r :: ('e, unit) outcome) \<longleftrightarrow> r = Ok ()"
  by (cases r) auto

lemma empty_field_ok [simp]: "path_field_ok []" "origins_ok parse []" "bounded_values []"
  by (simp_all add: path_field_ok_def origins_ok_def bounded_values_def)

lemma clear_scopes_valid:
  "policy_validate parse p = Ok () \<Longrightarrow> policy_validate parse (clear_scopes perm grants p) = Ok ()"
  by (cases perm) (auto simp: policy_validate_ok has_scopes_def)

lemma clear_scopes_granted:
  "scopes_granted p grants \<Longrightarrow> scopes_granted
     (clear_scopes perm (filter (\<lambda>g. g \<noteq> perm) grants) p) (filter (\<lambda>g. g \<noteq> perm) grants)"
  by (cases perm) (auto simp: scopes_granted_def)

lemma clear_scopes_ungranted:
  "scopes_granted p grants \<Longrightarrow> perm \<notin> set grants \<Longrightarrow> clear_scopes perm grants p = p"
  by (cases perm) (auto simp: scopes_granted_def)

lemma registration_eq_refl [simp]: "registration_eq r r"
  by (simp add: registration_eq_def policy_eq_def list_all2_same)

section \<open>Properties\<close>

text \<open>
  Taking a permission away never leaves an invalid trust record. From a record the registry
  accepts, \<open>remove_permission\<close> gives one it accepts again, without the permission and with the
  other grants unchanged, so no scope survives the grant that justified it; it reports a
  change exactly when the permission was granted.
\<close>

theorem remove_permission_keeps_valid:
  assumes "validate_local_registration parse r"
  shows "validate_local_registration parse (snd (remove_permission perm r))
    \<and> lr_grants (snd (remove_permission perm r)) = filter (\<lambda>g. g \<noteq> perm) (lr_grants r)
    \<and> scopes_granted (lr_policy (snd (remove_permission perm r))) (filter (\<lambda>g. g \<noteq> perm) (lr_grants r))
    \<and> (fst (remove_permission perm r) \<longleftrightarrow> perm \<in> set (lr_grants r))"
proof -
  let ?g = "filter (\<lambda>g. g \<noteq> perm) (lr_grants r)"
  have ok: "policy_validate parse (lr_policy r) = Ok ()" "scopes_granted (lr_policy r) (lr_grants r)"
    using assms
    by (auto simp: validate_local_registration_def is_ok_unit policy_validate_grants_ok)
  have keep: "fst (remove_permission perm r) \<longleftrightarrow> perm \<in> set (lr_grants r)"
  proof (cases "perm \<in> set (lr_grants r)")
    case True
    then have "?g \<noteq> lr_grants r" by (metis (mono_tags) filter_id_conv)
    with True show ?thesis by (simp add: remove_permission_def Let_def registration_eq_def)
  next
    case False
    then have g: "?g = lr_grants r" by (induction "lr_grants r") (auto simp: filter_id_conv)
    with clear_scopes_ungranted [OF ok(2) False] have "snd (remove_permission perm r) = r"
      by (simp add: remove_permission_def Let_def)
    with False show ?thesis by (simp add: remove_permission_def Let_def)
  qed
  show ?thesis
    using assms ok keep
    by (simp add: validate_local_registration_def remove_permission_def Let_def is_ok_unit
        policy_validate_grants_ok clear_scopes_valid clear_scopes_granted validate_grants_def)
qed

definition demo_registration :: local_registration where
  "demo_registration =
     \<lparr>lr_path = ''/plugins/dev'', lr_grants = [HostFs, HostProcess],
      lr_policy = broker_policy_default\<lparr>bp_read_roots := [''/data''],
        bp_executables := [''/usr/bin/git'']\<rparr>\<rparr>"

lemma demo_registration_valid: "validate_local_registration (\<lambda>_. None) demo_registration"
  by code_simp

theorem remove_permission_keeps_valid_witness:
  "validate_local_registration (\<lambda>_. None) demo_registration
   \<and> validate_local_registration (\<lambda>_. None) (snd (remove_permission HostProcess demo_registration))
   \<and> fst (remove_permission HostProcess demo_registration)"
proof -
  have "HostProcess \<in> set (lr_grants demo_registration)" by (simp add: demo_registration_def)
  with remove_permission_keeps_valid [OF demo_registration_valid, of HostProcess]
    demo_registration_valid show ?thesis by simp
qed

text \<open>
  An accepted trust record has a grant for every kind of scope it lists, lists at most 32
  scopes of each kind, and all its paths are absolute, without dot segments and pairwise
  different as paths.
\<close>

theorem validated_registration_scopes:
  assumes "validate_local_registration parse r"
  shows "scopes_granted (lr_policy r) (lr_grants r) \<and> distinct (lr_grants r)
    \<and> (\<forall>ps \<in> {bp_read_roots (lr_policy r), bp_executables (lr_policy r),
              bp_write_roots (lr_policy r), bp_watch_roots (lr_policy r),
              bp_cwd_roots (lr_policy r)}.
         length ps \<le> 32 \<and> distinct_paths ps
         \<and> (\<forall>p \<in> set ps. path_is_absolute p \<and> length p \<le> 4096
              \<and> ParentDir \<notin> set (path_components p) \<and> CurDir \<notin> set (path_components p)))
    \<and> (bp_client_permissions (lr_policy r) \<longrightarrow> \<not> has_scopes (lr_policy r))"
proof -
  have path: "path_is_absolute p \<and> length p \<le> 4096 \<and> ParentDir \<notin> set (path_components p)
      \<and> CurDir \<notin> set (path_components p)" if "is_ok (validate_policy_path p)" for p
    using that by (auto simp: validate_policy_path_def MAX_POLICY_PATH_BYTES_def list_ex_iff
        split: if_splits)
  have field: "length ps \<le> 32 \<and> distinct_paths ps
      \<and> (\<forall>p \<in> set ps. path_is_absolute p \<and> length p \<le> 4096
           \<and> ParentDir \<notin> set (path_components p) \<and> CurDir \<notin> set (path_components p))"
    if "path_field_ok ps" for ps
    using that path by (auto simp: path_field_ok_def MAX_BROKER_SCOPES_def list_all_iff)
  show ?thesis
    using assms field
    by (auto simp: validate_local_registration_def is_ok_unit policy_validate_grants_ok
        policy_validate_ok validate_grants_def)
qed

theorem validated_registration_scopes_witness:
  "validate_local_registration (\<lambda>_. None) demo_registration
   \<and> scopes_granted (lr_policy demo_registration) (lr_grants demo_registration)"
  using validated_registration_scopes [OF demo_registration_valid] demo_registration_valid by blast

text \<open>
  What the command line canonicalizes is again a policy the registry accepts; it keeps the
  environment keys and shortcuts, and with client permissions it is returned as it is.
\<close>

theorem canonicalized_accepted:
  assumes "canonicalized parse fs p = Ok q"
  shows "policy_validate parse q = Ok () \<and> bp_env_keys q = bp_env_keys p
    \<and> bp_shortcuts q = bp_shortcuts p \<and> bp_client_permissions q = bp_client_permissions p
    \<and> (bp_client_permissions p \<longrightarrow> q = p)
    \<and> (\<not> bp_client_permissions p \<longrightarrow>
         collect_ok (\<lambda>x. canonical_selected fs x True) (bp_read_roots p) = Ok (bp_read_roots q)
         \<and> collect_ok (\<lambda>x. canonical_selected fs x False) (bp_executables p) = Ok (bp_executables q)
         \<and> collect_ok (normalize_origin parse) (bp_network_origins p) = Ok (bp_network_origins q))"
  using assms
  by (auto simp: canonicalized_def from_explicit_inputs_def Let_def broker_policy_default_def
      split: if_splits outcome.splits)

definition demo_fs :: fs_view where
  "demo_fs = \<lparr>fs_windows = False, fs_current_dir = Some ''/home/dev'', fs_canonicalize = Some,
     fs_metadata = (\<lambda>_. Some IsDirectory)\<rparr>"

theorem canonicalized_accepted_witness:
  "canonicalized (\<lambda>_. None) demo_fs (broker_policy_default\<lparr>bp_read_roots := [''data'']\<rparr>)
     = Ok (broker_policy_default\<lparr>bp_read_roots := [''/home/dev/data'']\<rparr>)
   \<and> policy_validate (\<lambda>_. None) (broker_policy_default\<lparr>bp_read_roots := [''/home/dev/data'']\<rparr>) = Ok ()"
proof -
  have "canonicalized (\<lambda>_. None) demo_fs (broker_policy_default\<lparr>bp_read_roots := [''data'']\<rparr>)
     = Ok (broker_policy_default\<lparr>bp_read_roots := [''/home/dev/data'']\<rparr>)"
    by code_simp
  with canonicalized_accepted [OF this] show ?thesis by blast
qed

end
