(* ===== verification/Manifest.thy ===== *)
theory Manifest
  imports Permission_Policy Cap_Registry
begin

text \<open>
  Plugin manifests (\<open>src/src/plugins.rs\<close>): the data, which half of a package owns which
  declarations, and validation. JSON decoding is an argument of \<open>manifest_parse\<close>; the Unicode
  tables behind \<open>char::is_alphanumeric\<close> and \<open>str::to_lowercase\<close> are arguments of validation.
\<close>

section \<open>Data\<close>

definition MANIFEST_SCHEMA :: u32 where
  "MANIFEST_SCHEMA = 1"

definition MAX_PLUGIN_ID_BYTES :: nat where
  "MAX_PLUGIN_ID_BYTES = 128"

definition MAX_VERSION_BYTES :: nat where
  "MAX_VERSION_BYTES = 64"

record plugin_translation =
  tr_name :: "string option"
  tr_description :: "string option"

datatype renderer_world = Isolated | Main

record renderer_manifest =
  rm_entry :: string
  rm_world :: renderer_world

record host_manifest =
  hm_entry :: string
  hm_provides :: "capability_descriptor list"
  hm_requires :: "capability_descriptor list"

record plugin_manifest =
  pm_schema :: u32
  pm_id :: string
  pm_name :: "string option"
  pm_description :: "string option"
  pm_tags :: "string list"
  pm_i18n :: "(string, plugin_translation) btree"
  pm_version :: string
  pm_renderer :: "renderer_manifest option"
  pm_host :: "host_manifest option"
  pm_permissions :: "permission list"
  pm_provides :: "capability_descriptor list"
  pm_requires :: "capability_descriptor list"

record loaded_host =
  lh_root :: string
  lh_entry :: string
  lh_source :: string
  lh_authorization :: "local_registration option"

record loaded_plugin =
  lp_authorization :: "local_registration option"
  lp_manifest :: plugin_manifest
  lp_source :: "string option"
  lp_host :: "loaded_host option"
  lp_generation :: u64

text \<open>
  The texts of the \<open>Json\<close> variant that validation builds are constructors of their own;
  \<open>ManifestJson\<close> is the message of the decoder.
\<close>

datatype manifest_error =
    ManifestJson string
  | NameUnreadable
  | LocaleUnsupported
  | TranslatedNameUnreadable
  | DescriptionUnreadable
  | TooManyTags
  | TagUnreadable
  | TagsNotUnique
  | ManifestSchema u32
  | ManifestId string
  | ManifestVersion string
  | EntryRequired
  | RendererEntry string
  | MainWorldPermissionRequired
  | HostEntry string
  | HostProcessPermissionRequired
  | AmbiguousHostProvides
  | AmbiguousHostRequires

section \<open>Which half owns what\<close>

definition host_provides :: "plugin_manifest \<Rightarrow> capability_descriptor list" where
  "host_provides m =
     (case (pm_host m, pm_renderer m) of
        (Some h, Some _) \<Rightarrow> hm_provides h
      | (Some _, None) \<Rightarrow> pm_provides m
      | _ \<Rightarrow> [])"

definition host_requires :: "plugin_manifest \<Rightarrow> capability_descriptor list" where
  "host_requires m =
     (case (pm_host m, pm_renderer m) of
        (Some h, Some _) \<Rightarrow> hm_requires h
      | (Some _, None) \<Rightarrow> pm_requires m
      | _ \<Rightarrow> [])"

definition is_native_launch_capability :: "capability_descriptor \<Rightarrow> bool" where
  "is_native_launch_capability d =
     (name_str (cd_name d) = ''codlet.client.launch'' \<and> api_get (cd_api d) = 1
      \<and> cd_scope d = Runtime)"

definition native_launch_only :: "plugin_manifest \<Rightarrow> bool" where
  "native_launch_only m =
     (pm_host m \<noteq> None \<and> host_requires m = []
      \<and> (case host_provides m of [d] \<Rightarrow> is_native_launch_capability d | _ \<Rightarrow> False))"

definition has_runtime_host :: "plugin_manifest \<Rightarrow> bool" where
  "has_runtime_host m = (pm_host m \<noteq> None \<and> \<not> native_launch_only m)"

definition runtime_host_provides :: "plugin_manifest \<Rightarrow> capability_descriptor list" where
  "runtime_host_provides m = filter (\<lambda>d. \<not> is_native_launch_capability d) (host_provides m)"

definition renderer_provides :: "plugin_manifest \<Rightarrow> capability_descriptor list" where
  "renderer_provides m = (if pm_renderer m \<noteq> None then pm_provides m else [])"

definition renderer_requires :: "plugin_manifest \<Rightarrow> capability_descriptor list" where
  "renderer_requires m = (if pm_renderer m \<noteq> None then pm_requires m else [])"

definition all_requires :: "plugin_manifest \<Rightarrow> capability_descriptor list" where
  "all_requires m = renderer_requires m @ host_requires m"

definition all_provides :: "plugin_manifest \<Rightarrow> capability_descriptor list" where
  "all_provides m = renderer_provides m @ host_provides m"

section \<open>Validation\<close>

definition valid_plugin_id :: "string \<Rightarrow> bool" where
  "valid_plugin_id i =
     (i \<noteq> [] \<and> length i \<le> MAX_PLUGIN_ID_BYTES \<and> is_ascii i
      \<and> list_all (\<lambda>s. s \<noteq> [] \<and> list_all (\<lambda>b. ascii_lower b \<or> ascii_digit b \<or> b = CHR ''-'') s)
          (split_on (CHR ''.'') i))"

definition valid_relative_entry :: "string \<Rightarrow> bool" where
  "valid_relative_entry e =
     (e \<noteq> [] \<and> is_ascii e \<and> \<not> path_is_absolute e \<and> backslash \<notin> set e \<and> CHR '':'' \<notin> set e
      \<and> list_all (\<lambda>b. ascii_alnum b \<or> b = CHR ''/'' \<or> b = CHR ''.'' \<or> b = CHR ''_''
                       \<or> b = CHR ''-'') e
      \<and> list_all (\<lambda>s. s \<noteq> [] \<and> s \<noteq> ''.'' \<and> s \<noteq> ''..'') (split_on slash e))"

definition ends_with :: "string \<Rightarrow> string \<Rightarrow> bool" where
  "ends_with suf s = (strip_suffix suf s \<noteq> None)"

definition valid_javascript_entry :: "string \<Rightarrow> bool" where
  "valid_javascript_entry e = (valid_relative_entry e \<and> (ends_with ''.js'' e \<or> ends_with ''.cjs'' e))"

text \<open>The tables of the standard library validation reads.\<close>

record unicode_tables =
  uc_alphanumeric :: "nat \<Rightarrow> bool"
  uc_lowercase :: "string \<Rightarrow> string"

definition readable :: "nat \<Rightarrow> string \<Rightarrow> bool" where
  "readable bound s = (\<not> blank s \<and> length s \<le> bound \<and> \<not> has_control s)"

definition validate_description :: "string option \<Rightarrow> manifest_error option" where
  "validate_description d =
     (if (case d of Some t \<Rightarrow> \<not> readable 2048 t | None \<Rightarrow> False)
      then Some DescriptionUnreadable else None)"

fun validate_each_tag ::
    "unicode_tables \<Rightarrow> string set \<Rightarrow> string list \<Rightarrow> manifest_error option" where
  "validate_each_tag u seen [] = None"
| "validate_each_tag u seen (t # ts) =
     (if t = [] \<or> 32 < length (chars t)
        \<or> \<not> list_all (\<lambda>c. uc_alphanumeric u c \<or> c = 45 \<or> c = 95) (chars t)
      then Some TagUnreadable
      else if uc_lowercase u t \<in> seen then Some TagsNotUnique
      else validate_each_tag u (insert (uc_lowercase u t) seen) ts)"

definition validate_tags :: "unicode_tables \<Rightarrow> string list \<Rightarrow> manifest_error option" where
  "validate_tags u ts = (if 8 < length ts then Some TooManyTags else validate_each_tag u {} ts)"

fun validate_i18n :: "(string \<times> plugin_translation) list \<Rightarrow> manifest_error option" where
  "validate_i18n [] = None"
| "validate_i18n ((locale, t) # ts) =
     (if locale \<noteq> ''zh'' \<and> locale \<noteq> ''en'' then Some LocaleUnsupported
      else if (case tr_name t of Some n \<Rightarrow> \<not> readable 256 n | None \<Rightarrow> False)
      then Some TranslatedNameUnreadable
      else case validate_description (tr_description t) of
        Some e \<Rightarrow> Some e
      | None \<Rightarrow> validate_i18n ts)"

definition validate_version :: "string \<Rightarrow> bool" where
  "validate_version v =
     (v \<noteq> [] \<and> length v \<le> MAX_VERSION_BYTES \<and> is_ascii v
      \<and> \<not> list_ex is_whitespace (chars v))"

definition validate_renderer :: "plugin_manifest \<Rightarrow> manifest_error option" where
  "validate_renderer m =
     (case pm_renderer m of
        None \<Rightarrow> None
      | Some r \<Rightarrow>
          if \<not> valid_javascript_entry (rm_entry r) then Some (RendererEntry (rm_entry r))
          else if rm_world r = Main \<and> UiMainWorld \<notin> set (pm_permissions m)
          then Some MainWorldPermissionRequired else None)"

definition validate_host :: "plugin_manifest \<Rightarrow> manifest_error option" where
  "validate_host m =
     (case pm_host m of
        None \<Rightarrow> None
      | Some h \<Rightarrow>
          if \<not> valid_javascript_entry (hm_entry h) then Some (HostEntry (hm_entry h))
          else if HostProcess \<notin> set (pm_permissions m) then Some HostProcessPermissionRequired
          else if pm_renderer m = None \<and> hm_provides h \<noteq> [] then Some AmbiguousHostProvides
          else if pm_renderer m = None \<and> hm_requires h \<noteq> [] then Some AmbiguousHostRequires
          else None)"

fun first_error :: "'e option list \<Rightarrow> ('e, unit) outcome" where
  "first_error [] = Ok ()"
| "first_error (Some e # _) = Err e"
| "first_error (None # es) = first_error es"

definition manifest_validate ::
    "unicode_tables \<Rightarrow> plugin_manifest \<Rightarrow> (manifest_error, unit) outcome" where
  "manifest_validate u m =
     first_error
       [if pm_schema m \<noteq> MANIFEST_SCHEMA then Some (ManifestSchema (pm_schema m)) else None,
        if \<not> valid_plugin_id (pm_id m) then Some (ManifestId (pm_id m)) else None,
        (case pm_name m of
           Some n \<Rightarrow> if \<not> readable 256 n then Some NameUnreadable else None
         | None \<Rightarrow> None),
        validate_description (pm_description m),
        validate_tags u (pm_tags m),
        validate_i18n (bt_entries (pm_i18n m)),
        if \<not> validate_version (pm_version m) then Some (ManifestVersion (pm_version m)) else None,
        if pm_renderer m = None \<and> pm_host m = None then Some EntryRequired else None,
        validate_renderer m,
        validate_host m]"

definition manifest_parse ::
    "(string \<Rightarrow> (string, plugin_manifest) outcome) \<Rightarrow> unicode_tables \<Rightarrow> string
     \<Rightarrow> (manifest_error, plugin_manifest) outcome" where
  "manifest_parse from_json u text =
     (case from_json text of
        Err e \<Rightarrow> Err (ManifestJson e)
      | Panic \<Rightarrow> Panic
      | Ok m \<Rightarrow>
          (case manifest_validate u m of
             Err e \<Rightarrow> Err e
           | Panic \<Rightarrow> Panic
           | Ok _ \<Rightarrow> Ok m))"

section \<open>Lemmas\<close>

lemma first_error_ok: "first_error es = Ok () \<longleftrightarrow> list_all (\<lambda>e. e = None) es"
  by (induction es rule: first_error.induct) auto

lemma valid_plugin_id_iff: "valid_plugin_id i \<longleftrightarrow> valid_unqualified_provider_id i"
  by (simp add: valid_plugin_id_def valid_unqualified_provider_id_def
      valid_id_segment_def [abs_def]
      MAX_PLUGIN_ID_BYTES_def MAX_PROVIDER_ID_BYTES_def)

lemma manifest_validate_okD:
  assumes "manifest_validate u m = Ok ()"
  shows "valid_plugin_id (pm_id m)" and "validate_tags u (pm_tags m) = None"
    and "pm_renderer m \<noteq> None \<or> pm_host m \<noteq> None"
    and "validate_renderer m = None" and "validate_host m = None"
  using assms unfolding manifest_validate_def first_error_ok list.pred_inject(2)
  by (simp_all split: if_split_asm)

lemma valid_entry_below: "valid_relative_entry e \<Longrightarrow> stays_below e"
  by (rule stays_belowI) (auto simp: valid_relative_entry_def list_all_iff)

lemma validate_each_tag_None:
  "validate_each_tag u seen ts = None \<Longrightarrow>
     distinct (map (uc_lowercase u) ts) \<and> set (map (uc_lowercase u) ts) \<inter> seen = {}
     \<and> (\<forall>t \<in> set ts. t \<noteq> [] \<and> length (chars t) \<le> 32)"
  by (induction u seen ts rule: validate_each_tag.induct) (auto split: if_splits)

section \<open>Properties\<close>

text \<open>
  Every identity a validated manifest leads to is one the capability registry accepts:
  the plugin identity for its renderer half and the qualified identity for its Host half.
\<close>

theorem manifest_identities_registrable:
  assumes "manifest_validate u m = Ok ()"
  shows "valid_provider_id (pm_id m) \<and> valid_provider_id (host_provider_id (pm_id m))
    \<and> host_provider_plugin_id (host_provider_id (pm_id m)) = Some (pm_id m)"
proof -
  have "valid_plugin_id (pm_id m)" using assms by (rule manifest_validate_okD)
  then show ?thesis
    by (simp add: valid_plugin_id_iff valid_provider_id_def host_provider_plugin_id_host)
qed

definition demo_manifest :: plugin_manifest where
  "demo_manifest =
     \<lparr>pm_schema = 1, pm_id = ''dev.tool'', pm_name = Some ''Tool'', pm_description = None,
      pm_tags = [''UI'', ''Tool''], pm_i18n = bt_insert ''en'' \<lparr>tr_name = Some ''Tool'',
      tr_description = None\<rparr> bt_empty, pm_version = ''1.0.0'',
      pm_renderer = Some \<lparr>rm_entry = ''dist/ui.js'', rm_world = Isolated\<rparr>,
      pm_host = Some \<lparr>hm_entry = ''dist/host.cjs'', hm_provides = [], hm_requires = []\<rparr>,
      pm_permissions = [UiDom, HostProcess], pm_provides = [], pm_requires = []\<rparr>"

definition ascii_tables :: unicode_tables where
  "ascii_tables =
     \<lparr>uc_alphanumeric = (\<lambda>c. c < 128 \<and> ascii_alnum (char_of c)),
      uc_lowercase = map (\<lambda>c. if ascii_upper c then char_of (byte c + 32) else c)\<rparr>"

lemma demo_manifest_valid: "manifest_validate ascii_tables demo_manifest = Ok ()"
  by (simp add: manifest_validate_def demo_manifest_def ascii_tables_def MANIFEST_SCHEMA_def
      valid_plugin_id_def MAX_PLUGIN_ID_BYTES_def validate_version_def MAX_VERSION_BYTES_def
      readable_def blank_def chars_ascii is_ascii_def byte_def is_whitespace_def
      validate_description_def validate_tags_def ascii_alnum_def ascii_lower_def
      ascii_upper_def ascii_digit_def validate_renderer_def validate_host_def
      valid_javascript_entry_def valid_relative_entry_def path_is_absolute_def slash_def
      backslash_def ends_with_def strip_suffix_def)

theorem manifest_identities_registrable_witness:
  "manifest_validate ascii_tables demo_manifest = Ok ()
   \<and> valid_provider_id (pm_id demo_manifest)"
  using manifest_identities_registrable [OF demo_manifest_valid] demo_manifest_valid by blast

text \<open>
  A validated manifest has an entry; every entry stays below the package directory, a Host
  entry comes with the Host permission, a main-world renderer with the main-world permission,
  and each declaration belongs to exactly one half of the package.
\<close>

theorem validated_manifest_entries:
  assumes "manifest_validate u m = Ok ()"
  shows "(pm_renderer m \<noteq> None \<or> pm_host m \<noteq> None)
    \<and> (\<forall>r. pm_renderer m = Some r \<longrightarrow> stays_below (rm_entry r)
         \<and> (rm_world r = Main \<longrightarrow> UiMainWorld \<in> set (pm_permissions m)))
    \<and> (\<forall>h. pm_host m = Some h \<longrightarrow> stays_below (hm_entry h) \<and> HostProcess \<in> set (pm_permissions m))
    \<and> all_provides m = pm_provides m @ (case pm_host m of Some h \<Rightarrow> hm_provides h | None \<Rightarrow> [])
    \<and> all_requires m = pm_requires m @ (case pm_host m of Some h \<Rightarrow> hm_requires h | None \<Rightarrow> [])"
proof -
  note v = manifest_validate_okD [OF assms]
  note defs = validate_renderer_def validate_host_def valid_javascript_entry_def
    all_provides_def all_requires_def renderer_provides_def renderer_requires_def
    host_provides_def host_requires_def
  from v(3-5) show ?thesis
    by (cases "pm_renderer m"; cases "pm_host m")
      (simp_all add: defs valid_entry_below split: if_split_asm)
qed

theorem validated_manifest_entries_witness:
  "manifest_validate ascii_tables demo_manifest = Ok ()
   \<and> stays_below ''dist/ui.js'' \<and> stays_below ''dist/host.cjs''"
  using validated_manifest_entries [OF demo_manifest_valid] demo_manifest_valid
  by (simp add: demo_manifest_def)

text \<open>
  The launch phase and the runtime never share an entry: a package whose Host half only offers
  the client launch has no Runtime Host, and no Runtime Host offers the client launch.
\<close>

lemma launch_capability_private:
  "(native_launch_only m \<longrightarrow> \<not> has_runtime_host m \<and> runtime_host_provides m = [])
   \<and> (\<forall>d \<in> set (runtime_host_provides m).
        d \<in> set (host_provides m) \<and> \<not> is_native_launch_capability d)
   \<and> (pm_host m \<noteq> None \<longrightarrow> has_runtime_host m \<noteq> native_launch_only m)"
  by (auto simp: native_launch_only_def has_runtime_host_def runtime_host_provides_def
      split: list.splits)

end
