(* ===== verification/Rpc_State.thy ===== *)
theory Rpc_State
  imports Manifest Cap_Authority Json_Value
begin

text \<open>
  The state both executors share (\<open>src/src/host_runtime/rpc_state.rs\<close>): which entries are
  registered in which generation, which target documents are live, which raw sessions, scope
  handles, renderer endpoints and invocations belong to them, and the routes calls take.

  Conventions. The mutex makes every operation atomic; an operation on \<open>&self\<close> is a function
  of the state that returns its outcome and the state after it. An \<open>Arc<AtomicBool>\<close> is an
  address: \<open>cs_cancelled\<close> holds the addresses set to true and \<open>cs_next_flag\<close> is the next fresh
  one. \<open>Instant::now()\<close> is an argument, and whether a \<open>TargetSession\<close> is live is an argument.
  Error values carry the code of the \<open>HostError\<close>, and the source error or the stored text where
  the message is built from one; fixed message texts are left out.
\<close>

section \<open>Bounds and errors\<close>

definition MAX_HANDLES :: nat where "MAX_HANDLES = 64"
definition MAX_RAW_SESSIONS :: nat where "MAX_RAW_SESSIONS = 128"
definition MAX_TARGETS :: nat where "MAX_TARGETS = 64"
definition MAX_RENDERER_INVOCATIONS :: nat where "MAX_RENDERER_INVOCATIONS = 32"
definition MAX_ENTRY_IDENTITIES :: nat where "MAX_ENTRY_IDENTITIES = 8192"
definition MAX_RENDERER_CALLS :: nat where "MAX_RENDERER_CALLS = 64"
definition MAX_RPC_DEPTH :: u8 where "MAX_RPC_DEPTH = 8"

datatype host_error =
    HostError (he_code: string)
  | HostUnavailable string
  | DependencyConflict registry_error
  | CapabilityDenied access_error

definition stale :: host_error where
  "stale = HostError ''capability_denied''"

section \<open>Data\<close>

datatype rpc_scope = RpcRuntime | RpcTarget string u64

fun rpc_instance :: "rpc_scope \<Rightarrow> scope_instance" where
  "rpc_instance RpcRuntime = RuntimeInst"
| "rpc_instance (RpcTarget t _) = TargetInst t"

fun rpc_target :: "rpc_scope \<Rightarrow> (string \<times> u64) option" where
  "rpc_target RpcRuntime = None"
| "rpc_target (RpcTarget t e) = Some (t, e)"

record rpc_lineage =
  ln_scope :: rpc_scope
  ln_deadline :: nat
  ln_depth :: u8
  ln_cancellations :: "nat list"

record capability_caller =
  cc_plugin_id :: string
  cc_generation :: u64
  cc_target_id :: string
  cc_document_epoch :: u64

record rpc_route =
  rt_principal :: capability_principal
  rt_lease :: capability_lease
  rt_provider_id :: string
  rt_generation :: u64
  rt_capability :: capability_descriptor
  rt_caller :: capability_caller
  rt_lineage :: rpc_lineage

record target_session =
  ts_session_id :: string
  ts_target_id :: string
  ts_live :: nat

record renderer_endpoint =
  re_session :: target_session
  re_plugin_id :: string
  re_generation :: u64
  re_document_epoch :: u64
  re_context_id :: u64
  re_binding :: string
  re_authorization :: "local_registration option"
  re_registry_path :: string

type_synonym call_key = "string \<times> string \<times> u64"

record renderer_call =
  rc_route :: rpc_route
  rc_key :: "call_key option"
  rc_cancelled :: nat

record entry_declaration =
  dc_generation :: u64
  dc_provides :: "capability_descriptor list"
  dc_requires :: "capability_descriptor list"
  dc_grants :: "string list"

record target_scope =
  tg_epoch :: u64
  tg_frame_id :: "string option"
  tg_renderer_document :: "(string \<times> u64) option"

record raw_session =
  rw_owner :: string
  rw_generation :: u64
  rw_target_id :: string

record scope_handle =
  sh_owner :: string
  sh_generation :: u64
  sh_session_id :: string
  sh_scope :: rpc_scope
  sh_cancelled :: nat

record renderer_invocation =
  ri_endpoint :: renderer_endpoint
  ri_lineage :: rpc_lineage

datatype execution_state = Starting | ActiveState | Stopping | Failed | Exited

record core_state =
  cs_registry :: capability_registry
  cs_declarations :: "(string, entry_declaration) btree"
  cs_blocked :: "(string, u64) btree"
  cs_hosts :: "(string, u64 \<times> execution_state \<times> string option) btree"
  cs_targets :: "(string, target_scope) btree"
  cs_raw_sessions :: "(string, raw_session) btree"
  cs_reserved_attaches :: nat
  cs_cleanup_sessions :: "(string \<times> u64, string list) btree"
  cs_retiring_sessions :: "(string, string \<times> u64) btree"
  cs_handles :: "(string, scope_handle) btree"
  cs_renderers :: "(string \<times> string, renderer_endpoint) btree"
  cs_invocations :: "(string, renderer_invocation) btree"
  cs_renderer_calls :: "(call_key, nat) btree"
  cs_next_id :: u64
  cs_cancelled :: "nat set"
  cs_next_flag :: nat

type_synonym 'a op_result = "(host_error, 'a) outcome \<times> core_state"

definition BUILTIN_HOST_PROVIDER_ID :: string where
  "BUILTIN_HOST_PROVIDER_ID = ''codlet.core.host''"

definition builtin_host_capabilities :: "capability_descriptor list" where
  "builtin_host_capabilities =
     (let d = (\<lambda>name scope. \<lparr>cd_name = CapabilityName name, cd_api = ApiVersion 1, cd_scope = scope\<rparr>)
      in [d ''codlet.runtime.ping'' Target, d ''codlet.runtime.manage'' Target,
          d ''codlet.runtime.ping'' Runtime, d ''codlet.runtime.manage'' Runtime,
          d ''codlet.core.services'' Runtime, d ''codlet.core.services'' Target])"

text \<open>\<open>State::default\<close>, with the identity the registry draws from its counter.\<close>

definition core_new :: "u64 \<Rightarrow> core_state" where
  "core_new registry_id =
     \<lparr>cs_registry =
        snd (activate_scope RuntimeInst
          (snd (register_provider BUILTIN_HOST_PROVIDER_ID 1 builtin_host_capabilities [] []
            (registry_new registry_id)))),
      cs_declarations = bt_empty, cs_blocked = bt_empty, cs_hosts = bt_empty,
      cs_targets = bt_empty, cs_raw_sessions = bt_empty, cs_reserved_attaches = 0,
      cs_cleanup_sessions = bt_empty, cs_retiring_sessions = bt_empty, cs_handles = bt_empty,
      cs_renderers = bt_empty, cs_invocations = bt_empty, cs_renderer_calls = bt_empty,
      cs_next_id = 0, cs_cancelled = {}, cs_next_flag = 0\<rparr>"

section \<open>Flags\<close>

definition lineage_cancelled :: "core_state \<Rightarrow> rpc_lineage \<Rightarrow> bool" where
  "lineage_cancelled s l = list_ex (\<lambda>a. a \<in> cs_cancelled s) (ln_cancellations l)"

definition new_flag :: "core_state \<Rightarrow> nat \<times> core_state" where
  "new_flag s = (cs_next_flag s, s\<lparr>cs_next_flag := Suc (cs_next_flag s)\<rparr>)"

definition store_flag :: "nat \<Rightarrow> core_state \<Rightarrow> core_state" where
  "store_flag a s = s\<lparr>cs_cancelled := insert a (cs_cancelled s)\<rparr>"

text \<open>\<open>handles.retain\<close> with the store the closures make for every handle they drop.\<close>

definition retain_handles :: "(scope_handle \<Rightarrow> bool) \<Rightarrow> core_state \<Rightarrow> core_state" where
  "retain_handles keep s =
     s\<lparr>cs_handles := bt_retain (\<lambda>_. keep) (cs_handles s),
       cs_cancelled := cs_cancelled s
         \<union> set (map sh_cancelled (filter (\<lambda>h. \<not> keep h) (bt_values (cs_handles s))))\<rparr>"

section \<open>Operations of the inner state\<close>

definition next_token :: "string \<Rightarrow> core_state \<Rightarrow> string op_result" where
  "next_token prefix s =
     (case checked_succ (cs_next_id s) of
        None \<Rightarrow> (Err (HostError ''scope_ids_exhausted''), s)
      | Some n \<Rightarrow> (Ok (prefix @ ''-'' @ show_u64 n), s\<lparr>cs_next_id := n\<rparr>))"

definition ensure_target :: "string \<Rightarrow> core_state \<Rightarrow> unit op_result" where
  "ensure_target t s =
     (if bt_has (cs_targets s) t then (Ok (), s)
      else if MAX_TARGETS \<le> bt_len (cs_targets s) then (Err (HostError ''scope_limit''), s)
      else case activate_scope (TargetInst t) (cs_registry s) of
        (Err e, r) \<Rightarrow> (Err (DependencyConflict e), s\<lparr>cs_registry := r\<rparr>)
      | (Panic, r) \<Rightarrow> (Panic, s\<lparr>cs_registry := r\<rparr>)
      | (Ok epoch, r) \<Rightarrow>
          (Ok (), s\<lparr>cs_registry := r,
                    cs_targets := bt_insert t
                      \<lparr>tg_epoch = epoch, tg_frame_id = None, tg_renderer_document = None\<rparr>
                      (cs_targets s)\<rparr>))"

definition retire_target_document :: "string \<Rightarrow> core_state \<Rightarrow> unit op_result" where
  "retire_target_document t s =
     (if \<not> bt_has (cs_targets s) t then (Ok (), s)
      else case activate_scope (TargetInst t)
                  (snd (deactivate_scope (TargetInst t) (cs_registry s))) of
        (Ok epoch, r) \<Rightarrow>
          (let s = s\<lparr>cs_registry := r,
                     cs_targets := bt_insert t
                       \<lparr>tg_epoch = epoch, tg_frame_id = None, tg_renderer_document = None\<rparr>
                       (cs_targets s)\<rparr>;
               s = retain_handles
                     (\<lambda>h. case rpc_target (sh_scope h) of None \<Rightarrow> True | Some (i, _) \<Rightarrow> i \<noteq> t) s
           in (Ok (),
               s\<lparr>cs_renderers := bt_retain (\<lambda>(i, _) _. i \<noteq> t) (cs_renderers s),
                 cs_invocations :=
                   bt_retain (\<lambda>_ i. ts_target_id (re_session (ri_endpoint i)) \<noteq> t)
                     (cs_invocations s)\<rparr>))
      | (_, r) \<Rightarrow> (Panic, s\<lparr>cs_registry := r\<rparr>))"

text \<open>A loop of such calls stops at a panic.\<close>

fun retire_documents :: "string list \<Rightarrow> core_state \<Rightarrow> unit op_result" where
  "retire_documents [] s = (Ok (), s)"
| "retire_documents (t # ts) s =
     (case retire_target_document t s of
        (Ok _, s) \<Rightarrow> retire_documents ts s
      | r \<Rightarrow> r)"

definition forget_session :: "string \<Rightarrow> core_state \<Rightarrow> core_state" where
  "forget_session session s =
     retain_handles (\<lambda>h. sh_session_id h \<noteq> session)
       (s\<lparr>cs_raw_sessions := bt_remove session (cs_raw_sessions s),
          cs_retiring_sessions := bt_remove session (cs_retiring_sessions s),
          cs_cleanup_sessions :=
            bt_retain (\<lambda>_ ss. ss \<noteq> [])
              (bt_map (\<lambda>_. filter (\<lambda>c. c \<noteq> session)) (cs_cleanup_sessions s))\<rparr>)"

definition retire_session :: "string \<Rightarrow> core_state \<Rightarrow> unit op_result" where
  "retire_session session s =
     (let s = forget_session session s
      in retire_documents
           (map fst (filter (\<lambda>(_, t). case tg_renderer_document t of
                               None \<Rightarrow> False | Some (i, _) \<Rightarrow> i = session)
              (bt_entries (cs_targets s)))) s)"

fun retire_sessions :: "string list \<Rightarrow> core_state \<Rightarrow> unit op_result" where
  "retire_sessions [] s = (Ok (), s)"
| "retire_sessions (x # xs) s =
     (case retire_session x s of
        (Ok _, s) \<Rightarrow> retire_sessions xs s
      | r \<Rightarrow> r)"

definition schedule_session_cleanup :: "string \<Rightarrow> core_state \<Rightarrow> unit op_result" where
  "schedule_session_cleanup session s =
     (let raw = bt_get (cs_raw_sessions s) session
      in case retire_session session
                (s\<lparr>cs_raw_sessions := bt_remove session (cs_raw_sessions s)\<rparr>) of
        (Ok _, s) \<Rightarrow>
          (case raw of
             None \<Rightarrow> (Ok (), s)
           | Some raw \<Rightarrow>
               (let key = (rw_owner raw, rw_generation raw);
                    queue = (case bt_get (cs_cleanup_sessions s) key of Some q \<Rightarrow> q | None \<Rightarrow> [])
                in (Ok (), s\<lparr>cs_retiring_sessions := bt_insert session key (cs_retiring_sessions s),
                             cs_cleanup_sessions :=
                               bt_insert key (queue @ [session]) (cs_cleanup_sessions s)\<rparr>)))
      | r \<Rightarrow> r)"

fun schedule_cleanups :: "string list \<Rightarrow> core_state \<Rightarrow> unit op_result" where
  "schedule_cleanups [] s = (Ok (), s)"
| "schedule_cleanups (x # xs) s =
     (case schedule_session_cleanup x s of
        (Ok _, s) \<Rightarrow> schedule_cleanups xs s
      | r \<Rightarrow> r)"

definition publish_document :: "string \<Rightarrow> string \<times> u64 \<Rightarrow> core_state \<Rightarrow> unit op_result" where
  "publish_document t document s =
     (case (if (case Option.bind (bt_get (cs_targets s) t) tg_renderer_document of
                  None \<Rightarrow> False | Some old \<Rightarrow> old \<noteq> document)
            then retire_target_document t s else (Ok (), s)) of
        (Ok _, s) \<Rightarrow>
          (case ensure_target t s of
             (Ok _, s) \<Rightarrow>
               (case bt_get (cs_targets s) t of
                  None \<Rightarrow> (Panic, s)
                | Some x \<Rightarrow>
                    (Ok (), s\<lparr>cs_targets :=
                       bt_insert t (x\<lparr>tg_renderer_document := Some document\<rparr>) (cs_targets s)\<rparr>))
           | r \<Rightarrow> r)
      | r \<Rightarrow> r)"

definition validate_lineage :: "nat \<Rightarrow> core_state \<Rightarrow> rpc_lineage \<Rightarrow> (host_error, unit) outcome" where
  "validate_lineage now s l =
     (if lineage_cancelled s l then Err (HostError ''invocation_cancelled'')
      else if ln_deadline l \<le> now then Err (HostError ''request_timeout'')
      else case ln_scope l of
        RpcRuntime \<Rightarrow> Ok ()
      | RpcTarget t epoch \<Rightarrow>
          (case bt_get (cs_targets s) t of
             None \<Rightarrow> Err (HostError ''scope_ended'')
           | Some x \<Rightarrow> if tg_epoch x = epoch then Ok () else Err (HostError ''scope_ended'')))"

definition resolve ::
    "nat \<Rightarrow> core_state \<Rightarrow> string \<Rightarrow> string \<Rightarrow> u64 \<Rightarrow> capability_descriptor \<Rightarrow> rpc_lineage
     \<Rightarrow> (host_error, rpc_route) outcome" where
  "resolve now s consumer caller generation capability l =
     and_then (validate_lineage now s l) (\<lambda>_.
     and_then (map_err CapabilityDenied
       (issue_principal (cs_registry s) consumer generation (rpc_instance (ln_scope l)))) (\<lambda>principal.
     and_then (map_err CapabilityDenied
       (resolve_capability (cs_registry s) principal capability)) (\<lambda>lease.
     and_then (map_err CapabilityDenied
       (invoke_endpoint (cs_registry s) principal lease (\<lambda>provider _. provider))) (\<lambda>provider_id.
     case provider_generation (cs_registry s) provider_id of
       None \<Rightarrow> Err stale
     | Some g \<Rightarrow>
         Ok \<lparr>rt_principal = principal, rt_lease = lease, rt_provider_id = provider_id,
             rt_generation = g, rt_capability = capability,
             rt_caller =
               \<lparr>cc_plugin_id = caller, cc_generation = generation,
                cc_target_id = (case rpc_target (ln_scope l) of Some (t, _) \<Rightarrow> t | None \<Rightarrow> []),
                cc_document_epoch = (case rpc_target (ln_scope l) of Some (_, e) \<Rightarrow> e | None \<Rightarrow> 0)\<rparr>,
             rt_lineage = l\<rparr>))))"

definition same_endpoint ::
    "(target_session \<Rightarrow> bool) \<Rightarrow> renderer_endpoint \<Rightarrow> renderer_endpoint \<Rightarrow> bool" where
  "same_endpoint live a b =
     (re_plugin_id a = re_plugin_id b \<and> re_generation a = re_generation b
      \<and> re_document_epoch a = re_document_epoch b \<and> re_context_id a = re_context_id b
      \<and> re_binding a = re_binding b
      \<and> ts_session_id (re_session a) = ts_session_id (re_session b)
      \<and> ts_target_id (re_session a) = ts_target_id (re_session b)
      \<and> live (re_session b))"

section \<open>Registrations\<close>

type_synonym entry = "string \<times> capability_descriptor list \<times> capability_descriptor list"

definition plugin_entries :: "plugin_manifest \<Rightarrow> entry list" where
  "plugin_entries m =
     (if has_runtime_host m
      then [(host_provider_id (pm_id m), runtime_host_provides m, host_requires m)] else [])
     @ (if pm_renderer m \<noteq> None then [(pm_id m, renderer_provides m, renderer_requires m)] else [])"

definition entry_identities :: "core_state \<Rightarrow> nat" where
  "entry_identities s =
     bt_len (cs_declarations s)
     + bt_count (\<lambda>i _. \<not> bt_has (cs_declarations s) i) (cs_blocked s)"

definition register_entry :: "u64 \<Rightarrow> string list \<Rightarrow> entry \<Rightarrow> core_state \<Rightarrow> unit op_result" where
  "register_entry generation grants e s =
     (case e of (i, provides, requires) \<Rightarrow>
       if \<not> bt_has (cs_declarations s) i \<and> \<not> bt_has (cs_blocked s) i
         \<and> MAX_ENTRY_IDENTITIES \<le> entry_identities s
       then (Err (HostError ''identity_limit''), s)
       else if (case bt_get (cs_blocked s) i of None \<Rightarrow> False | Some g \<Rightarrow> generation \<le> g)
       then (Ok (), s)
       else
         (let d = \<lparr>dc_generation = generation, dc_provides = provides, dc_requires = requires,
                   dc_grants = grants\<rparr>
          in if bt_get (cs_declarations s) i = Some d then (Ok (), s)
             else if (case bt_get (cs_declarations s) i of
                        None \<Rightarrow> False | Some old \<Rightarrow> generation \<le> dc_generation old)
             then (Err (HostError ''stale_generation''), s)
             else case unregister_provider i (cs_registry s) of
               (Err e, r) \<Rightarrow> (Err (DependencyConflict e), s\<lparr>cs_registry := r\<rparr>)
             | (Panic, r) \<Rightarrow> (Panic, s\<lparr>cs_registry := r\<rparr>)
             | (Ok _, r) \<Rightarrow>
                 (case register_provider i generation provides requires grants r of
                    (Err e, r) \<Rightarrow> (Err (DependencyConflict e), s\<lparr>cs_registry := r\<rparr>)
                  | (Panic, r) \<Rightarrow> (Panic, s\<lparr>cs_registry := r\<rparr>)
                  | (Ok _, r) \<Rightarrow>
                      (Ok (), s\<lparr>cs_registry := r,
                                cs_declarations := bt_insert i d (cs_declarations s)\<rparr>))))"

fun register_entries :: "u64 \<Rightarrow> string list \<Rightarrow> entry list \<Rightarrow> core_state \<Rightarrow> unit op_result" where
  "register_entries generation grants [] s = (Ok (), s)"
| "register_entries generation grants (e # es) s =
     (case register_entry generation grants e s of
        (Ok _, s) \<Rightarrow> register_entries generation grants es s
      | r \<Rightarrow> r)"

fun register_plugins :: "loaded_plugin list \<Rightarrow> core_state \<Rightarrow> unit op_result" where
  "register_plugins [] s = (Ok (), s)"
| "register_plugins (p # ps) s =
     (case register_entries (lp_generation p)
             (map permission_str (pm_permissions (lp_manifest p)))
             (plugin_entries (lp_manifest p)) s of
        (Ok _, s) \<Rightarrow> register_plugins ps s
      | r \<Rightarrow> r)"

definition retire_entry :: "u64 \<Rightarrow> string \<Rightarrow> core_state \<Rightarrow> core_state" where
  "retire_entry generation i s =
     (let s = s\<lparr>cs_blocked :=
            bt_insert i (case bt_get (cs_blocked s) i of
                           None \<Rightarrow> generation | Some v \<Rightarrow> max v generation) (cs_blocked s)\<rparr>
      in if (case bt_get (cs_declarations s) i of
               None \<Rightarrow> False | Some d \<Rightarrow> dc_generation d \<le> generation)
         then s\<lparr>cs_registry := snd (unregister_provider i (cs_registry s)),
                cs_declarations := bt_remove i (cs_declarations s)\<rparr>
         else s)"

definition retire_plugin :: "string \<Rightarrow> u64 \<Rightarrow> core_state \<Rightarrow> core_state" where
  "retire_plugin i generation s =
     (let s = retire_entry generation (host_provider_id i) (retire_entry generation i s)
      in s\<lparr>cs_renderers :=
             bt_retain (\<lambda>(_, plugin) e. plugin \<noteq> i \<or> generation < re_generation e) (cs_renderers s),
           cs_invocations :=
             bt_retain (\<lambda>_ v. re_plugin_id (ri_endpoint v) \<noteq> i
                              \<or> generation < re_generation (ri_endpoint v)) (cs_invocations s)\<rparr>)"

section \<open>Hosts\<close>

text \<open>\<open>chars().take(n).collect()\<close> on UTF-8.\<close>

fun take_chars :: "nat \<Rightarrow> string \<Rightarrow> string" where
  "take_chars n [] = []"
| "take_chars n (c # s) =
     (if is_cont c then c # take_chars n s
      else case n of 0 \<Rightarrow> [] | Suc m \<Rightarrow> c # take_chars m s)"

definition host_state ::
    "string \<Rightarrow> u64 \<Rightarrow> execution_state \<Rightarrow> string option \<Rightarrow> core_state \<Rightarrow> core_state" where
  "host_state i generation v error s =
     s\<lparr>cs_hosts := bt_insert i (generation, v, map_option (take_chars 4096) error) (cs_hosts s)\<rparr>"

definition host_ready :: "string \<Rightarrow> u64 \<Rightarrow> core_state \<Rightarrow> (host_error, bool) outcome" where
  "host_ready i generation s =
     (case bt_get (cs_hosts s) i of
        None \<Rightarrow> Ok False
      | Some (current, v, error) \<Rightarrow>
          if v = ActiveState \<and> current = generation then Ok True
          else if v = Starting \<and> current = generation then Ok False
          else if current < generation then Ok False
          else case error of
            Some e \<Rightarrow>
              if current = generation then Err (HostUnavailable e)
              else Err (HostError ''host_unavailable'')
          | None \<Rightarrow> Err (HostError ''host_unavailable''))"

section \<open>Documents and renderers\<close>

definition publish_renderer :: "renderer_endpoint \<Rightarrow> core_state \<Rightarrow> unit op_result" where
  "publish_renderer e s =
     (if provider_generation (cs_registry s) (re_plugin_id e) \<noteq> Some (re_generation e)
      then (Err stale, s)
      else
        (let t = ts_target_id (re_session e)
         in case publish_document t (ts_session_id (re_session e), re_document_epoch e) s of
              (Ok _, s) \<Rightarrow>
                (Ok (), s\<lparr>cs_renderers := bt_insert (t, re_plugin_id e) e (cs_renderers s)\<rparr>)
            | r \<Rightarrow> r))"

definition publish_target :: "target_session \<Rightarrow> u64 \<Rightarrow> core_state \<Rightarrow> unit op_result" where
  "publish_target session document_epoch s =
     publish_document (ts_target_id session) (ts_session_id session, document_epoch) s"

definition retire_renderer :: "string \<Rightarrow> string option \<Rightarrow> core_state \<Rightarrow> core_state" where
  "retire_renderer t plugin s =
     (let other = (\<lambda>i. case plugin of None \<Rightarrow> False | Some p \<Rightarrow> i \<noteq> p)
      in s\<lparr>cs_renderers := bt_retain (\<lambda>(current, i) _. current \<noteq> t \<or> other i) (cs_renderers s),
           cs_invocations :=
             bt_retain (\<lambda>_ v. ts_target_id (re_session (ri_endpoint v)) \<noteq> t
                              \<or> other (re_plugin_id (ri_endpoint v))) (cs_invocations s)\<rparr>)"

section \<open>Raw sessions\<close>

definition tracked_sessions :: "core_state \<Rightarrow> nat" where
  "tracked_sessions s =
     bt_len (cs_raw_sessions s) + bt_len (cs_retiring_sessions s) + cs_reserved_attaches s"

text \<open>A permit is the right to give one reservation back; \<open>Ok\<close> hands out an active one.\<close>

definition reserve_raw_attach :: "core_state \<Rightarrow> unit op_result" where
  "reserve_raw_attach s =
     (if MAX_RAW_SESSIONS \<le> tracked_sessions s then (Err (HostError ''scope_limit''), s)
      else (Ok (), s\<lparr>cs_reserved_attaches := cs_reserved_attaches s + 1\<rparr>))"

text \<open>The decrement of a \<open>usize\<close>: it panics at zero.\<close>

definition release_reservation :: "core_state \<Rightarrow> unit op_result" where
  "release_reservation s =
     (case cs_reserved_attaches s of
        0 \<Rightarrow> (Panic, s)
      | Suc n \<Rightarrow> (Ok (), s\<lparr>cs_reserved_attaches := n\<rparr>))"

text \<open>\<open>Drop\<close> of a permit.\<close>

definition drop_permit :: "bool \<Rightarrow> core_state \<Rightarrow> unit op_result" where
  "drop_permit active s = (if active then release_reservation s else (Ok (), s))"

text \<open>
  The permit given is active. On the error path it is dropped by the return, on the other it
  is made inactive and its reservation becomes the tracked session.
\<close>

definition track_raw_attach ::
    "string \<Rightarrow> u64 \<Rightarrow> string \<Rightarrow> string \<Rightarrow> core_state \<Rightarrow> unit op_result" where
  "track_raw_attach owner generation target session s =
     (if bt_has (cs_raw_sessions s) session \<or> bt_has (cs_retiring_sessions s) session then
        (case drop_permit True s of
           (Ok _, s) \<Rightarrow> (Err (HostError ''scope_denied''), s)
         | r \<Rightarrow> r)
      else
        (case release_reservation s of
           (Ok _, s) \<Rightarrow>
             (Ok (), s\<lparr>cs_raw_sessions :=
                bt_insert session \<lparr>rw_owner = owner, rw_generation = generation,
                                   rw_target_id = target\<rparr> (cs_raw_sessions s)\<rparr>)
         | r \<Rightarrow> r))"

definition owned_raw :: "string \<Rightarrow> u64 \<Rightarrow> string \<Rightarrow> core_state \<Rightarrow> raw_session option" where
  "owned_raw owner generation session s =
     (case bt_get (cs_raw_sessions s) session of
        None \<Rightarrow> None
      | Some w \<Rightarrow> if rw_owner w = owner \<and> rw_generation w = generation then Some w else None)"

definition owned_target ::
    "string \<Rightarrow> u64 \<Rightarrow> string \<Rightarrow> core_state \<Rightarrow> (host_error, string) outcome" where
  "owned_target owner generation session s =
     (case owned_raw owner generation session s of
        None \<Rightarrow> Err (HostError ''scope_denied'')
      | Some w \<Rightarrow> Ok (rw_target_id w))"

definition retire_raw_session :: "string \<Rightarrow> core_state \<Rightarrow> unit op_result" where
  "retire_raw_session session s = retire_session session s"

definition retire_host_scopes :: "string \<Rightarrow> u64 \<Rightarrow> core_state \<Rightarrow> unit op_result" where
  "retire_host_scopes owner generation s =
     schedule_cleanups
       (map fst (filter (\<lambda>(_, w). rw_owner w = owner \<and> rw_generation w = generation)
          (bt_entries (cs_raw_sessions s)))) s"

definition retire_late_attachment :: "string \<Rightarrow> u64 \<Rightarrow> string \<Rightarrow> core_state \<Rightarrow> unit op_result" where
  "retire_late_attachment owner generation session s =
     (if owned_raw owner generation session s \<noteq> None then schedule_session_cleanup session s
      else (Ok (), s))"

definition take_cleanup_sessions ::
    "string \<Rightarrow> u64 \<Rightarrow> core_state \<Rightarrow> string list \<times> core_state" where
  "take_cleanup_sessions owner generation s =
     ((case bt_get (cs_cleanup_sessions s) (owner, generation) of Some q \<Rightarrow> q | None \<Rightarrow> []),
      s\<lparr>cs_cleanup_sessions := bt_remove (owner, generation) (cs_cleanup_sessions s)\<rparr>)"

definition has_cleanup_sessions :: "string \<Rightarrow> u64 \<Rightarrow> core_state \<Rightarrow> bool" where
  "has_cleanup_sessions owner generation s =
     (case bt_get (cs_cleanup_sessions s) (owner, generation) of
        None \<Rightarrow> False | Some q \<Rightarrow> q \<noteq> [])"

section \<open>Scope handles\<close>

text \<open>The result is the \<open>handleId\<close> of the JSON reply.\<close>

definition issue_handle ::
    "string \<Rightarrow> u64 \<Rightarrow> string \<Rightarrow> string \<Rightarrow> core_state \<Rightarrow> string op_result" where
  "issue_handle owner generation session frame_id s =
     (case owned_raw owner generation session s of
        None \<Rightarrow> (Err (HostError ''scope_denied''), s)
      | Some w \<Rightarrow>
          if MAX_HANDLES \<le> bt_len (cs_handles s) then (Err (HostError ''scope_limit''), s)
          else case ensure_target (rw_target_id w) s of
            (Err e, s) \<Rightarrow> (Err e, s)
          | (Panic, s) \<Rightarrow> (Panic, s)
          | (Ok _, s) \<Rightarrow>
              (case bt_get (cs_targets s) (rw_target_id w) of
                 None \<Rightarrow> (Panic, s)
               | Some x \<Rightarrow>
                   (let s = s\<lparr>cs_targets := bt_insert (rw_target_id w)
                                (x\<lparr>tg_frame_id := Some frame_id\<rparr>) (cs_targets s)\<rparr>
                    in case next_token ''scope'' s of
                         (Err e, s) \<Rightarrow> (Err e, s)
                       | (Panic, s) \<Rightarrow> (Panic, s)
                       | (Ok i, s) \<Rightarrow>
                           (case new_flag s of (flag, s) \<Rightarrow>
                             (Ok i, s\<lparr>cs_handles := bt_insert i
                               \<lparr>sh_owner = owner, sh_generation = generation,
                                sh_session_id = session,
                                sh_scope = RpcTarget (rw_target_id w) (tg_epoch x),
                                sh_cancelled = flag\<rparr> (cs_handles s)\<rparr>)))))"

definition close_handle :: "string \<Rightarrow> u64 \<Rightarrow> string \<Rightarrow> core_state \<Rightarrow> unit op_result" where
  "close_handle owner generation i s =
     (case bt_get (cs_handles s) i of
        None \<Rightarrow> (Err (HostError ''scope_denied''), s)
      | Some h \<Rightarrow>
          if sh_owner h = owner \<and> sh_generation h = generation
          then (Ok (), store_flag (sh_cancelled h)
                  (s\<lparr>cs_handles := bt_remove i (cs_handles s)\<rparr>))
          else (Err (HostError ''scope_denied''), s))"

section \<open>Browser events\<close>

record cdp_event =
  ev_method :: string
  ev_params :: "json option"
  ev_session_id :: "string option"

definition param_str :: "string \<Rightarrow> json option \<Rightarrow> string option" where
  "param_str k params = Option.bind (Option.bind params (json_get k)) json_str"

definition destroy_target :: "string \<Rightarrow> core_state \<Rightarrow> unit op_result" where
  "destroy_target t s =
     (case retire_target_document t s of
        (Ok _, s) \<Rightarrow>
          (let s = s\<lparr>cs_targets := bt_remove t (cs_targets s),
                     cs_registry := snd (deactivate_scope (TargetInst t) (cs_registry s))\<rparr>
           in retire_sessions
                (map fst (filter (\<lambda>(_, w). rw_target_id w = t) (bt_entries (cs_raw_sessions s)))) s)
      | r \<Rightarrow> r)"

definition frame_navigated :: "cdp_event \<Rightarrow> core_state \<Rightarrow> unit op_result" where
  "frame_navigated e s =
     (case Option.bind (ev_params e) (json_get ''frame'') of
        None \<Rightarrow> (Ok (), s)
      | Some frame \<Rightarrow>
          if json_get ''parentId'' frame \<noteq> None then (Ok (), s)
          else case Option.bind (ev_session_id e)
                      (\<lambda>x. map_option rw_target_id (bt_get (cs_raw_sessions s) x)) of
            None \<Rightarrow> (Ok (), s)
          | Some t \<Rightarrow>
              (case bt_get (cs_targets s) t of
                 Some x \<Rightarrow>
                   if tg_renderer_document x = None then retire_target_document t s else (Ok (), s)
               | None \<Rightarrow> (Ok (), s)))"

definition observe :: "cdp_event \<Rightarrow> core_state \<Rightarrow> unit op_result" where
  "observe e s =
     (if ev_method e = ''Target.detachedFromTarget'' then
        (case param_str ''sessionId'' (ev_params e) of
           None \<Rightarrow> (Ok (), s) | Some session \<Rightarrow> retire_session session s)
      else if ev_method e = ''Target.targetDestroyed'' then
        (case param_str ''targetId'' (ev_params e) of
           None \<Rightarrow> (Ok (), s) | Some t \<Rightarrow> destroy_target t s)
      else if ev_method e = ''Page.frameNavigated'' then frame_navigated e s
      else (Ok (), s))"

definition invalidate_targets :: "core_state \<Rightarrow> unit op_result" where
  "invalidate_targets s = retire_documents (bt_keys (cs_targets s)) s"

section \<open>Calls\<close>

definition child_deadline :: "rpc_lineage option \<Rightarrow> nat \<Rightarrow> nat" where
  "child_deadline parent deadline =
     (case parent of None \<Rightarrow> deadline | Some p \<Rightarrow> min deadline (ln_deadline p))"

definition child_depth :: "rpc_lineage option \<Rightarrow> u8" where
  "child_depth parent = (case parent of None \<Rightarrow> 1 | Some p \<Rightarrow> saturating_succ (ln_depth p))"

definition parent_cancellations :: "rpc_lineage option \<Rightarrow> nat list" where
  "parent_cancellations parent = (case parent of None \<Rightarrow> [] | Some p \<Rightarrow> ln_cancellations p)"

definition host_call_scope ::
    "loaded_plugin \<Rightarrow> capability_descriptor \<Rightarrow> string option \<Rightarrow> rpc_lineage option \<Rightarrow> core_state
     \<Rightarrow> (host_error, rpc_scope \<times> nat list) outcome" where
  "host_call_scope plugin capability handle parent s =
     (case handle of
        Some i \<Rightarrow>
          (case bt_get (cs_handles s) i of
             None \<Rightarrow> Err (HostError ''scope_denied'')
           | Some h \<Rightarrow>
               if sh_owner h = pm_id (lp_manifest plugin) \<and> sh_generation h = lp_generation plugin
               then Ok (sh_scope h, parent_cancellations parent @ [sh_cancelled h])
               else Err (HostError ''scope_denied''))
      | None \<Rightarrow>
          (case parent of
             Some p \<Rightarrow> Ok (ln_scope p, parent_cancellations parent)
           | None \<Rightarrow>
               if cd_scope capability = Runtime then Ok (RpcRuntime, [])
               else Err (HostError ''scope_required'')))"

definition resolve_host ::
    "nat \<Rightarrow> loaded_plugin \<Rightarrow> capability_descriptor \<Rightarrow> string option \<Rightarrow> rpc_lineage option \<Rightarrow> nat
     \<Rightarrow> core_state \<Rightarrow> (host_error, rpc_route) outcome" where
  "resolve_host now plugin capability handle parent deadline s =
     and_then (host_call_scope plugin capability handle parent s) (\<lambda>(scope, cancellations).
       if MAX_RPC_DEPTH < child_depth parent then Err (HostError ''rpc_depth_limit'')
       else resolve now s (host_provider_id (pm_id (lp_manifest plugin)))
              (pm_id (lp_manifest plugin)) (lp_generation plugin) capability
              \<lparr>ln_scope = scope, ln_deadline = child_deadline parent deadline,
               ln_depth = child_depth parent, ln_cancellations = cancellations\<rparr>)"

definition renderer_parent ::
    "(target_session \<Rightarrow> bool) \<Rightarrow> renderer_endpoint \<Rightarrow> string option \<Rightarrow> core_state
     \<Rightarrow> (host_error, rpc_lineage option) outcome" where
  "renderer_parent live e token s =
     (case token of
        None \<Rightarrow> Ok None
      | Some k \<Rightarrow>
          (case bt_get (cs_invocations s) k of
             None \<Rightarrow> Err (HostError ''invocation_cancelled'')
           | Some v \<Rightarrow>
               if same_endpoint live (ri_endpoint v) e then Ok (Some (ri_lineage v))
               else Err (HostError ''invocation_cancelled'')))"

definition resolve_renderer ::
    "nat \<Rightarrow> (target_session \<Rightarrow> bool) \<Rightarrow> renderer_endpoint \<Rightarrow> capability_descriptor
     \<Rightarrow> string option \<Rightarrow> nat \<Rightarrow> core_state \<Rightarrow> (host_error, rpc_route) outcome" where
  "resolve_renderer now live e capability token deadline s =
     (case bt_get (cs_targets s) (ts_target_id (re_session e)) of
        None \<Rightarrow> Err stale
      | Some x \<Rightarrow>
          and_then (renderer_parent live e token s) (\<lambda>parent.
            if MAX_RPC_DEPTH < child_depth parent then Err (HostError ''rpc_depth_limit'')
            else and_then
              (resolve now s (re_plugin_id e) (re_plugin_id e) (re_generation e) capability
                 \<lparr>ln_scope = RpcTarget (ts_target_id (re_session e)) (tg_epoch x),
                  ln_deadline = child_deadline parent deadline, ln_depth = child_depth parent,
                  ln_cancellations = parent_cancellations parent\<rparr>)
              (\<lambda>route. Ok (route\<lparr>rt_caller :=
                 (rt_caller route)\<lparr>cc_document_epoch := re_document_epoch e\<rparr>\<rparr>))))"

text \<open>
  A call holds the lock twice: to resolve the route, and to enter the request in the table of
  pending ones. What the others do in between is an argument.
\<close>

definition enter_renderer_call ::
    "renderer_endpoint \<Rightarrow> u64 option \<Rightarrow> rpc_route \<Rightarrow> core_state \<Rightarrow> renderer_call op_result" where
  "enter_renderer_call e request_id route s =
     (case new_flag s of (flag, s) \<Rightarrow>
       (let key = map_option (\<lambda>i. (ts_session_id (re_session e), re_binding e, i)) request_id;
            call = \<lparr>rc_route = route\<lparr>rt_lineage := (rt_lineage route)\<lparr>ln_cancellations :=
                       ln_cancellations (rt_lineage route) @ [flag]\<rparr>\<rparr>,
                    rc_key = key, rc_cancelled = flag\<rparr>
        in case key of
             None \<Rightarrow> (Ok call, s)
           | Some k \<Rightarrow>
               if MAX_RENDERER_CALLS \<le> bt_len (cs_renderer_calls s)
               then (Err (HostError ''request_limit''), s)
               else if bt_has (cs_renderer_calls s) k
               then (Err (HostError ''duplicate_request_id''), s)
               else (Ok call,
                     s\<lparr>cs_renderer_calls := bt_insert k flag (cs_renderer_calls s)\<rparr>)))"

definition begin_renderer_call ::
    "nat \<Rightarrow> (target_session \<Rightarrow> bool) \<Rightarrow> renderer_endpoint \<Rightarrow> capability_descriptor
     \<Rightarrow> string option \<Rightarrow> u64 option \<Rightarrow> nat \<Rightarrow> (core_state \<Rightarrow> core_state) \<Rightarrow> core_state \<Rightarrow> renderer_call op_result" where
  "begin_renderer_call now live e capability token request_id deadline others s =
     (case resolve_renderer now live e capability token deadline s of
        Err x \<Rightarrow> (Err x, s)
      | Panic \<Rightarrow> (Panic, s)
      | Ok route \<Rightarrow> enter_renderer_call e request_id route (others s))"

text \<open>\<open>Drop\<close> of a call.\<close>

definition drop_renderer_call :: "renderer_call \<Rightarrow> core_state \<Rightarrow> core_state" where
  "drop_renderer_call call s =
     (let s = store_flag (rc_cancelled call) s
      in case rc_key call of
           None \<Rightarrow> s
         | Some k \<Rightarrow> s\<lparr>cs_renderer_calls := bt_remove k (cs_renderer_calls s)\<rparr>)"

definition cancel_renderer_call :: "renderer_endpoint \<Rightarrow> u64 \<Rightarrow> core_state \<Rightarrow> core_state" where
  "cancel_renderer_call e i s =
     (let k = (ts_session_id (re_session e), re_binding e, i)
      in case bt_get (cs_renderer_calls s) k of
           None \<Rightarrow> s
         | Some flag \<Rightarrow>
             store_flag flag (s\<lparr>cs_renderer_calls := bt_remove k (cs_renderer_calls s)\<rparr>))"

definition endpoint_is_current ::
    "(target_session \<Rightarrow> bool) \<Rightarrow> renderer_endpoint \<Rightarrow> core_state \<Rightarrow> bool" where
  "endpoint_is_current live e s =
     (case bt_get (cs_renderers s) (ts_target_id (re_session e), re_plugin_id e) of
        None \<Rightarrow> False
      | Some current \<Rightarrow> same_endpoint live current e)"

definition validate :: "nat \<Rightarrow> rpc_route \<Rightarrow> core_state \<Rightarrow> (host_error, unit) outcome" where
  "validate now route s =
     and_then (validate_lineage now s (rt_lineage route)) (\<lambda>_.
       map_err CapabilityDenied
         (invoke (cs_registry s) (rt_principal route) (rt_lease route) (\<lambda>_. ())))"

definition renderer_endpoint_of ::
    "nat \<Rightarrow> (target_session \<Rightarrow> bool) \<Rightarrow> rpc_route \<Rightarrow> core_state
     \<Rightarrow> (host_error, renderer_endpoint option) outcome" where
  "renderer_endpoint_of now live route s =
     and_then (validate now route s) (\<lambda>_.
       case rpc_target (ln_scope (rt_lineage route)) of
         None \<Rightarrow> Err (HostError ''scope_mismatch'')
       | Some (t, _) \<Rightarrow>
           Ok (case bt_get (cs_renderers s) (t, rt_provider_id route) of
                 None \<Rightarrow> None
               | Some e \<Rightarrow>
                   if re_generation e = rt_generation route \<and> live (re_session e)
                   then Some e else None))"

definition begin_renderer_invocation ::
    "nat \<Rightarrow> renderer_endpoint \<Rightarrow> rpc_lineage \<Rightarrow> core_state \<Rightarrow> string op_result" where
  "begin_renderer_invocation now e l s =
     (case validate_lineage now s l of
        Err x \<Rightarrow> (Err x, s)
      | Panic \<Rightarrow> (Panic, s)
      | Ok _ \<Rightarrow>
          if MAX_RENDERER_INVOCATIONS \<le> bt_len (cs_invocations s)
          then (Err (HostError ''request_limit''), s)
          else case next_token ''invocation'' s of
            (Ok k, s) \<Rightarrow>
              (Ok k, s\<lparr>cs_invocations :=
                 bt_insert k \<lparr>ri_endpoint = e, ri_lineage = l\<rparr> (cs_invocations s)\<rparr>)
          | r \<Rightarrow> r)"

definition end_renderer_invocation :: "string \<Rightarrow> core_state \<Rightarrow> core_state" where
  "end_renderer_invocation k s = s\<lparr>cs_invocations := bt_remove k (cs_invocations s)\<rparr>"

end
