(* ===== verification/Rpc_Invariants.thy ===== *)
theory Rpc_Invariants
  imports Rpc_State
begin

text \<open>
  The invariant of the shared state, aspect by aspect, and its preservation by the operations
  that retire documents, sessions and handles. Each aspect is a predicate of the fields it
  speaks about, so an operation that leaves them alone keeps it by simplification.
\<close>

section \<open>The invariant\<close>

text \<open>The Target scopes the registry has active are the live targets, with their epochs.\<close>

definition targets_ok :: "capability_registry \<Rightarrow> (string, target_scope) btree \<Rightarrow> bool" where
  "targets_ok r ts \<longleftrightarrow>
     registry_inv r \<and> bt_get (cr_active_scopes r) RuntimeInst \<noteq> None \<and> bt_len ts \<le> MAX_TARGETS
     \<and> (\<forall>t. bt_get (cr_active_scopes r) (TargetInst t) = map_option tg_epoch (bt_get ts t))"

text \<open>A handle denotes the current document of the target its owner's raw session is on.\<close>

definition handle_ok ::
    "(string, target_scope) btree \<Rightarrow> (string, raw_session) btree \<Rightarrow> scope_handle \<Rightarrow> bool" where
  "handle_ok ts raw h \<longleftrightarrow>
     (\<exists>x w. bt_get raw (sh_session_id h) = Some w \<and> rw_owner w = sh_owner h
        \<and> rw_generation w = sh_generation h \<and> bt_get ts (rw_target_id w) = Some x
        \<and> sh_scope h = RpcTarget (rw_target_id w) (tg_epoch x))"

definition handles_ok ::
    "(string, target_scope) btree \<Rightarrow> (string, raw_session) btree \<Rightarrow> (string, scope_handle) btree
     \<Rightarrow> bool" where
  "handles_ok ts raw hs \<longleftrightarrow>
     bt_len hs \<le> MAX_HANDLES \<and> (\<forall>i h. bt_get hs i = Some h \<longrightarrow> handle_ok ts raw h)"

text \<open>A live handle's flag is its own, allocated and not stored.\<close>

definition flags_ok :: "(string, scope_handle) btree \<Rightarrow> nat set \<Rightarrow> nat \<Rightarrow> bool" where
  "flags_ok hs cancelled next_flag \<longleftrightarrow>
     (\<forall>i h. bt_get hs i = Some h \<longrightarrow> sh_cancelled h < next_flag \<and> sh_cancelled h \<notin> cancelled)
     \<and> (\<forall>i h j k. bt_get hs i = Some h \<longrightarrow> bt_get hs j = Some k \<longrightarrow>
          sh_cancelled h = sh_cancelled k \<longrightarrow> i = j)
     \<and> (\<forall>a \<in> cancelled. a < next_flag)"

text \<open>A published endpoint belongs to the current document of its target.\<close>

definition renderers_ok ::
    "(string, target_scope) btree \<Rightarrow> (string \<times> string, renderer_endpoint) btree \<Rightarrow> bool" where
  "renderers_ok ts rs \<longleftrightarrow>
     (\<forall>t p e. bt_get rs (t, p) = Some e \<longrightarrow>
        ts_target_id (re_session e) = t \<and> re_plugin_id e = p
        \<and> (\<exists>x. bt_get ts t = Some x
             \<and> tg_renderer_document x = Some (ts_session_id (re_session e), re_document_epoch e)))"

text \<open>
  A raw session is attached or being retired, never both; the reservations count against the
  same bound; a cleanup queue lists sessions its own Host generation is retiring.
\<close>

definition sessions_ok ::
    "(string, raw_session) btree \<Rightarrow> (string, string \<times> u64) btree
     \<Rightarrow> (string \<times> u64, string list) btree \<Rightarrow> nat \<Rightarrow> bool" where
  "sessions_ok raw retiring cleanup reserved \<longleftrightarrow>
     (\<forall>x. bt_get raw x \<noteq> None \<longrightarrow> bt_get retiring x = None)
     \<and> bt_len raw + bt_len retiring + reserved \<le> MAX_RAW_SESSIONS
     \<and> (\<forall>k q. bt_get cleanup k = Some q \<longrightarrow>
          q \<noteq> [] \<and> distinct q \<and> (\<forall>x \<in> set q. bt_get retiring x = Some k))"

text \<open>What is registered was declared, with the same facts, and is newer than what was retired.\<close>

definition registration_declared :: "entry_declaration \<Rightarrow> provider_registration \<Rightarrow> bool" where
  "registration_declared d x \<longleftrightarrow>
     pr_generation x = dc_generation d \<and> pr_provides x = dc_provides d
     \<and> pr_requires x = dc_requires d \<and> pr_grants x = set (dc_grants d)"

definition entries_ok ::
    "capability_registry \<Rightarrow> (string, entry_declaration) btree \<Rightarrow> (string, u64) btree \<Rightarrow> bool" where
  "entries_ok r decls blocked \<longleftrightarrow>
     (\<forall>i x. bt_get (cr_registrations r) i = Some x \<longrightarrow> i \<noteq> BUILTIN_HOST_PROVIDER_ID \<longrightarrow>
        (\<exists>d. bt_get decls i = Some d \<and> registration_declared d x)
        \<and> (\<forall>g. bt_get blocked i = Some g \<longrightarrow> g < pr_generation x))"

text \<open>Tokens in use were issued by the counter.\<close>

definition tokens_ok :: "string \<Rightarrow> (string, 'v) btree \<Rightarrow> u64 \<Rightarrow> bool" where
  "tokens_ok prefix m next_id \<longleftrightarrow>
     (\<forall>i. bt_get m i \<noteq> None \<longrightarrow> (\<exists>n \<le> next_id. i = prefix @ ''-'' @ show_u64 n))"

definition core_inv :: "core_state \<Rightarrow> bool" where
  "core_inv s \<longleftrightarrow>
     targets_ok (cs_registry s) (cs_targets s)
     \<and> handles_ok (cs_targets s) (cs_raw_sessions s) (cs_handles s)
     \<and> flags_ok (cs_handles s) (cs_cancelled s) (cs_next_flag s)
     \<and> renderers_ok (cs_targets s) (cs_renderers s)
     \<and> sessions_ok (cs_raw_sessions s) (cs_retiring_sessions s) (cs_cleanup_sessions s)
         (cs_reserved_attaches s)
     \<and> entries_ok (cs_registry s) (cs_declarations s) (cs_blocked s)
     \<and> tokens_ok ''scope'' (cs_handles s) (cs_next_id s)
     \<and> tokens_ok ''invocation'' (cs_invocations s) (cs_next_id s)
     \<and> bt_len (cs_invocations s) \<le> MAX_RENDERER_INVOCATIONS
     \<and> bt_len (cs_renderer_calls s) \<le> MAX_RENDERER_CALLS"

lemma core_invI:
  assumes "targets_ok (cs_registry s) (cs_targets s)"
    and "handles_ok (cs_targets s) (cs_raw_sessions s) (cs_handles s)"
    and "flags_ok (cs_handles s) (cs_cancelled s) (cs_next_flag s)"
    and "renderers_ok (cs_targets s) (cs_renderers s)"
    and "sessions_ok (cs_raw_sessions s) (cs_retiring_sessions s) (cs_cleanup_sessions s)
         (cs_reserved_attaches s)"
    and "entries_ok (cs_registry s) (cs_declarations s) (cs_blocked s)"
    and "tokens_ok ''scope'' (cs_handles s) (cs_next_id s)"
    and "tokens_ok ''invocation'' (cs_invocations s) (cs_next_id s)"
    and "bt_len (cs_invocations s) \<le> MAX_RENDERER_INVOCATIONS"
    and "bt_len (cs_renderer_calls s) \<le> MAX_RENDERER_CALLS"
  shows "core_inv s"
  using assms by (simp add: core_inv_def)

lemma core_invD:
  assumes "core_inv s"
  shows "targets_ok (cs_registry s) (cs_targets s)"
    and "handles_ok (cs_targets s) (cs_raw_sessions s) (cs_handles s)"
    and "flags_ok (cs_handles s) (cs_cancelled s) (cs_next_flag s)"
    and "renderers_ok (cs_targets s) (cs_renderers s)"
    and "sessions_ok (cs_raw_sessions s) (cs_retiring_sessions s) (cs_cleanup_sessions s)
         (cs_reserved_attaches s)"
    and "entries_ok (cs_registry s) (cs_declarations s) (cs_blocked s)"
    and "tokens_ok ''scope'' (cs_handles s) (cs_next_id s)"
    and "tokens_ok ''invocation'' (cs_invocations s) (cs_next_id s)"
    and "bt_len (cs_invocations s) \<le> MAX_RENDERER_INVOCATIONS"
    and "bt_len (cs_renderer_calls s) \<le> MAX_RENDERER_CALLS"
  using assms by (simp_all add: core_inv_def)

section \<open>Shrinking tables\<close>

text \<open>The retained part of a table is a smaller table.\<close>

lemma get_retain_Some:
  "bt_get (bt_retain p m) k = Some v \<longleftrightarrow> bt_get m k = Some v \<and> p k v"
  by (auto split: option.splits)

lemma len_retain_le: "bt_len m \<le> n \<Longrightarrow> bt_len (bt_retain p m) \<le> n"
  by (rule order_trans [OF bt_len_retain])

lemma len_remove_le: "bt_len m \<le> n \<Longrightarrow> bt_len (bt_remove k m) \<le> n"
  by (rule order_trans [OF bt_len_remove_le])

lemma tokens_retain: "tokens_ok p m n \<Longrightarrow> tokens_ok p (bt_retain q m) n"
  by (auto simp: tokens_ok_def split: option.splits)

lemma tokens_remove: "tokens_ok p m n \<Longrightarrow> tokens_ok p (bt_remove k m) n"
  by (auto simp: tokens_ok_def)

lemma renderers_retain: "renderers_ok ts rs \<Longrightarrow> renderers_ok ts (bt_retain p rs)"
  by (simp only: renderers_ok_def get_retain_Some) blast

lemma handles_retain:
  "handles_ok ts raw hs \<Longrightarrow> handles_ok ts raw (bt_retain p hs)"
  by (simp only: handles_ok_def get_retain_Some) (blast intro: len_retain_le)

section \<open>Handles\<close>

lemma in_values: "v \<in> set (bt_values m) \<longleftrightarrow> (\<exists>k. bt_get m k = Some v)"
  unfolding bt_values_def set_map image_iff in_entries [symmetric] by force

lemma flags_retain:
  assumes "flags_ok hs cancelled next_flag"
  shows "flags_ok (bt_retain (\<lambda>_. keep) hs)
    (cancelled \<union> set (map sh_cancelled (filter (\<lambda>h. \<not> keep h) (bt_values hs)))) next_flag"
proof -
  have fresh: "sh_cancelled h < next_flag \<and> sh_cancelled h \<notin> cancelled" if "bt_get hs i = Some h" for i h
    using assms that by (simp add: flags_ok_def)
  have same: "i = j" if "bt_get hs i = Some h" "bt_get hs j = Some k" "sh_cancelled h = sh_cancelled k"
    for i j h k using assms that unfolding flags_ok_def by blast
  have dropped: "a \<in> set (map sh_cancelled (filter (\<lambda>h. \<not> keep h) (bt_values hs))) \<longleftrightarrow>
      (\<exists>j k. bt_get hs j = Some k \<and> \<not> keep k \<and> a = sh_cancelled k)" for a
    by (auto simp: in_values)
  have kept: "sh_cancelled h \<notin> set (map sh_cancelled (filter (\<lambda>h. \<not> keep h) (bt_values hs)))"
    if h: "bt_get hs i = Some h" "keep h" for i h
  proof
    assume "sh_cancelled h \<in> set (map sh_cancelled (filter (\<lambda>h. \<not> keep h) (bt_values hs)))"
    then obtain j k where k: "bt_get hs j = Some k" "\<not> keep k" "sh_cancelled h = sh_cancelled k"
      unfolding dropped by blast
    with same [OF h(1) k(1)] h have "h = k" by simp
    with h(2) k(2) show False by simp
  qed
  show ?thesis
    unfolding flags_ok_def get_retain_Some
  proof (intro conjI allI impI ballI)
    fix i h assume h: "bt_get hs i = Some h \<and> keep h"
    show "sh_cancelled h < next_flag" using fresh h by blast
    show "sh_cancelled h \<notin> cancelled \<union> set (map sh_cancelled (filter (\<lambda>h. \<not> keep h) (bt_values hs)))"
      using fresh kept h by blast
  next
    fix i h j k
    assume "bt_get hs i = Some h \<and> keep h" "bt_get hs j = Some k \<and> keep k"
      "sh_cancelled h = sh_cancelled k"
    then show "i = j" using same by blast
  next
    fix a assume "a \<in> cancelled \<union> set (map sh_cancelled (filter (\<lambda>h. \<not> keep h) (bt_values hs)))"
    then show "a < next_flag"
      using assms fresh unfolding Un_iff dropped by (auto simp: flags_ok_def)
  qed
qed

text \<open>The fields \<open>retain_handles\<close> leaves alone, and what it does to the handles.\<close>

lemma retain_handles_simps [simp]:
  "cs_registry (retain_handles keep s) = cs_registry s"
  "cs_declarations (retain_handles keep s) = cs_declarations s"
  "cs_blocked (retain_handles keep s) = cs_blocked s"
  "cs_targets (retain_handles keep s) = cs_targets s"
  "cs_raw_sessions (retain_handles keep s) = cs_raw_sessions s"
  "cs_reserved_attaches (retain_handles keep s) = cs_reserved_attaches s"
  "cs_cleanup_sessions (retain_handles keep s) = cs_cleanup_sessions s"
  "cs_retiring_sessions (retain_handles keep s) = cs_retiring_sessions s"
  "cs_renderers (retain_handles keep s) = cs_renderers s"
  "cs_invocations (retain_handles keep s) = cs_invocations s"
  "cs_renderer_calls (retain_handles keep s) = cs_renderer_calls s"
  "cs_next_id (retain_handles keep s) = cs_next_id s"
  "cs_next_flag (retain_handles keep s) = cs_next_flag s"
  "cs_hosts (retain_handles keep s) = cs_hosts s"
  "cs_handles (retain_handles keep s) = bt_retain (\<lambda>_. keep) (cs_handles s)"
  by (simp_all add: retain_handles_def)

lemma flags_retain_handles:
  "flags_ok (cs_handles s) (cs_cancelled s) (cs_next_flag s) \<Longrightarrow>
   flags_ok (bt_retain (\<lambda>_. keep) (cs_handles s)) (cs_cancelled (retain_handles keep s)) (cs_next_flag s)"
  using flags_retain [of "cs_handles s" "cs_cancelled s" "cs_next_flag s" keep]
  by (simp add: retain_handles_def)

section \<open>Retiring a document\<close>

definition off_target :: "string \<Rightarrow> scope_handle \<Rightarrow> bool" where
  "off_target t h \<longleftrightarrow> (case rpc_target (sh_scope h) of None \<Rightarrow> True | Some (i, _) \<Rightarrow> i \<noteq> t)"

text \<open>The state after the document of a live target was retired under the new epoch.\<close>

definition document_retired :: "string \<Rightarrow> u64 \<Rightarrow> core_state \<Rightarrow> core_state" where
  "document_retired t e s =
     (let s = retain_handles (off_target t)
            (s\<lparr>cs_registry := (cs_registry s)\<lparr>cr_next_epoch := e,
                 cr_active_scopes := bt_insert (TargetInst t) e
                   (bt_remove (TargetInst t) (cr_active_scopes (cs_registry s)))\<rparr>,
               cs_targets := bt_insert t
                 \<lparr>tg_epoch = e, tg_frame_id = None, tg_renderer_document = None\<rparr>
                 (cs_targets s)\<rparr>)
      in s\<lparr>cs_renderers := bt_retain (\<lambda>(i, _) _. i \<noteq> t) (cs_renderers s),
           cs_invocations :=
             bt_retain (\<lambda>_ i. ts_target_id (re_session (ri_endpoint i)) \<noteq> t) (cs_invocations s)\<rparr>)"

lemma retire_target_document_cases:
  assumes "retire_target_document t s = (res, s')"
  obtains "res = Ok ()" "s' = s" "bt_get (cs_targets s) t = None"
  | "res = Panic" "cr_next_epoch (cs_registry s) = - 1"
  | x e where "res = Ok ()" "bt_get (cs_targets s) t = Some x"
      "cr_next_epoch (cs_registry s) < e" "s' = document_retired t e s"
proof (cases "bt_get (cs_targets s) t")
  case None
  with assms show ?thesis by (intro that(1)) (auto simp: retire_target_document_def)
next
  case (Some x)
  let ?r = "snd (deactivate_scope (TargetInst t) (cs_registry s))"
  obtain r0 r where a: "activate_scope (TargetInst t) ?r = (r0, r)" by (cases "activate_scope (TargetInst t) ?r")
  from a show ?thesis
  proof (cases rule: activate_scope_cases)
    case 1
    then show ?thesis by (simp add: deactivate_scope_def)
  next
    case 2
    with assms Some a show ?thesis
      by (intro that(2)) (auto simp: retire_target_document_def deactivate_scope_def)
  next
    case (3 e)
    then have "r = (cs_registry s)\<lparr>cr_next_epoch := e,
                 cr_active_scopes := bt_insert (TargetInst t) e
                   (bt_remove (TargetInst t) (cr_active_scopes (cs_registry s)))\<rparr>"
      by (simp add: deactivate_scope_def)
    moreover have "cr_next_epoch (cs_registry s) < e" using 3 by (simp add: deactivate_scope_def)
    ultimately show ?thesis
      using assms Some a 3(1)
      by (intro that(3) [of x e])
        (auto simp: retire_target_document_def document_retired_def off_target_def [abs_def] Let_def)
  qed
qed

lemma document_retired_simps [simp]:
  "cs_declarations (document_retired t e s) = cs_declarations s"
  "cs_blocked (document_retired t e s) = cs_blocked s"
  "cs_hosts (document_retired t e s) = cs_hosts s"
  "cs_raw_sessions (document_retired t e s) = cs_raw_sessions s"
  "cs_reserved_attaches (document_retired t e s) = cs_reserved_attaches s"
  "cs_cleanup_sessions (document_retired t e s) = cs_cleanup_sessions s"
  "cs_retiring_sessions (document_retired t e s) = cs_retiring_sessions s"
  "cs_renderer_calls (document_retired t e s) = cs_renderer_calls s"
  "cs_next_id (document_retired t e s) = cs_next_id s"
  "cs_next_flag (document_retired t e s) = cs_next_flag s"
  "cs_targets (document_retired t e s) = bt_insert t
     \<lparr>tg_epoch = e, tg_frame_id = None, tg_renderer_document = None\<rparr> (cs_targets s)"
  "cs_handles (document_retired t e s) = bt_retain (\<lambda>_. off_target t) (cs_handles s)"
  "cs_renderers (document_retired t e s) = bt_retain (\<lambda>(i, _) _. i \<noteq> t) (cs_renderers s)"
  "cs_invocations (document_retired t e s) =
     bt_retain (\<lambda>_ i. ts_target_id (re_session (ri_endpoint i)) \<noteq> t) (cs_invocations s)"
  "cs_registry (document_retired t e s) = (cs_registry s)\<lparr>cr_next_epoch := e,
     cr_active_scopes := bt_insert (TargetInst t) e
       (bt_remove (TargetInst t) (cr_active_scopes (cs_registry s)))\<rparr>"
  by (simp_all add: document_retired_def Let_def)

lemma reactivated_inv:
  assumes "registry_inv r" "cr_next_epoch r < e"
  shows "registry_inv (r\<lparr>cr_next_epoch := e,
     cr_active_scopes := bt_insert t e (bt_remove t (cr_active_scopes r))\<rparr>)"
proof -
  have le: "x \<le> cr_next_epoch r \<Longrightarrow> x \<le> e" for x using assms(2) by simp
  with assms show ?thesis
    by (auto simp: registry_inv_def registrations_ok_def providers_ok_def scopes_ok_def)
qed

lemma entries_ok_cong:
  "cr_registrations r' = cr_registrations r \<Longrightarrow> entries_ok r' d b = entries_ok r d b"
  by (simp add: entries_ok_def)

lemma document_retired_inv:
  assumes inv: "core_inv s" and x: "bt_get (cs_targets s) t = Some x"
    and e: "cr_next_epoch (cs_registry s) < e"
  shows "core_inv (document_retired t e s)"
proof (rule core_invI, goal_cases)
  case 1
  have "registry_inv (cs_registry (document_retired t e s))"
    using inv e by (simp add: core_inv_def targets_ok_def reactivated_inv)
  with inv x show ?case by (auto simp: core_inv_def targets_ok_def)
next
  case 2
  have ok: "handle_ok (cs_targets s) (cs_raw_sessions s) h" if "bt_get (cs_handles s) i = Some h" for i h
    using inv that by (auto simp: core_inv_def handles_ok_def)
  have "handle_ok (cs_targets (document_retired t e s)) (cs_raw_sessions s) h"
    if h: "bt_get (cs_handles s) i = Some h" "off_target t h" for i h
  proof -
    obtain x' w where w: "bt_get (cs_raw_sessions s) (sh_session_id h) = Some w"
      "rw_owner w = sh_owner h" "rw_generation w = sh_generation h"
      "bt_get (cs_targets s) (rw_target_id w) = Some x'"
      "sh_scope h = RpcTarget (rw_target_id w) (tg_epoch x')"
      using ok [OF h(1)] by (auto simp: handle_ok_def)
    with h(2) have "rw_target_id w \<noteq> t" by (simp add: off_target_def)
    with w show ?thesis by (simp add: handle_ok_def)
  qed
  moreover have "bt_len (bt_retain (\<lambda>_. off_target t) (cs_handles s)) \<le> MAX_HANDLES"
    using inv by (intro len_retain_le) (simp add: core_inv_def handles_ok_def)
  ultimately show ?case unfolding handles_ok_def by (auto split: option.splits if_splits)
next
  case 3
  have "flags_ok (cs_handles s) (cs_cancelled s) (cs_next_flag s)" using inv by (rule core_invD)
  from flags_retain [OF this, of "off_target t"] show ?case
    by (simp add: document_retired_def retain_handles_def Let_def)
next
  case 4
  have "renderers_ok (cs_targets s) (cs_renderers s)" using inv by (rule core_invD)
  then show ?case
    unfolding renderers_ok_def by (auto split: option.splits if_splits)
next
  case 5
  with inv show ?case by (simp add: core_inv_def)
next
  case 6
  with inv show ?case by (simp add: core_inv_def entries_ok_def)
next
  case 9
  with inv show ?case by (simp add: core_inv_def len_retain_le)
qed (use inv in \<open>simp_all add: core_inv_def tokens_retain\<close>)

lemma retire_target_document_inv:
  assumes "core_inv s" "retire_target_document t s = (Ok u, s')"
  shows "core_inv s'"
  using assms(2)
proof (cases rule: retire_target_document_cases)
  case (3 x e)
  with assms(1) show ?thesis by (simp add: document_retired_inv)
qed (use assms(1) in auto)

section \<open>Loops that stop at a panic\<close>

text \<open>What the operations below have in common: they succeed unless the epochs are exhausted.\<close>

lemma retire_target_document_outcome:
  "retire_target_document t s = (res, s') \<Longrightarrow> res = Ok () \<or> res = Panic"
  by (erule retire_target_document_cases) auto

lemma retire_documents_inv:
  "core_inv s \<Longrightarrow> retire_documents ts s = (Ok u, s') \<Longrightarrow> core_inv s'"
proof (induction ts s rule: retire_documents.induct)
  case (2 t ts s)
  obtain r s1 where s1: "retire_target_document t s = (r, s1)" by (cases "retire_target_document t s")
  with retire_target_document_outcome [OF s1] retire_target_document_inv [OF 2(2), of t] 2
  show ?case by auto
qed simp

section \<open>Forgetting a session\<close>

lemma sessions_forget:
  assumes "sessions_ok raw retiring cleanup n"
  shows "sessions_ok (bt_remove x raw) (bt_remove x retiring)
    (bt_retain (\<lambda>_ ss. ss \<noteq> []) (bt_map (\<lambda>_. filter (\<lambda>c. c \<noteq> x)) cleanup)) n"
proof -
  have "bt_len (bt_remove x raw) + bt_len (bt_remove x retiring) + n \<le> MAX_RAW_SESSIONS"
    using assms bt_len_remove_le [of x raw] bt_len_remove_le [of x retiring]
    unfolding sessions_ok_def by linarith
  with assms show ?thesis
    by (auto simp: sessions_ok_def simp del: bt_len_remove split: option.splits if_splits)
qed

lemma handles_forget:
  assumes "handles_ok ts raw hs"
  shows "handles_ok ts (bt_remove x raw) (bt_retain (\<lambda>_ h. sh_session_id h \<noteq> x) hs)"
  unfolding handles_ok_def get_retain_Some
proof (intro conjI allI impI)
  show "bt_len (bt_retain (\<lambda>_ h. sh_session_id h \<noteq> x) hs) \<le> MAX_HANDLES"
    using assms by (intro len_retain_le) (simp add: handles_ok_def)
  fix i h assume h: "bt_get hs i = Some h \<and> sh_session_id h \<noteq> x"
  with assms have "handle_ok ts raw h" unfolding handles_ok_def by blast
  with h show "handle_ok ts (bt_remove x raw) h" by (auto simp: handle_ok_def)
qed

lemma forget_session_inv:
  assumes inv: "core_inv s"
  shows "core_inv (forget_session x s)"
proof (rule core_invI, goal_cases)
  case 3
  show ?case
    using flags_retain [OF core_invD(3) [OF inv], of "\<lambda>h. sh_session_id h \<noteq> x"]
    by (simp add: forget_session_def retain_handles_def)
qed (use inv in \<open>simp_all add: core_inv_def forget_session_def sessions_forget handles_forget
      tokens_retain\<close>)

lemma retire_session_inv:
  "core_inv s \<Longrightarrow> retire_session x s = (Ok u, s') \<Longrightarrow> core_inv s'"
  unfolding retire_session_def Let_def by (erule retire_documents_inv [OF forget_session_inv])

lemma retire_documents_outcome:
  "retire_documents ts s = (res, s') \<Longrightarrow> res = Ok () \<or> res = Panic"
proof (induction ts s rule: retire_documents.induct)
  case (2 t ts s)
  obtain r s1 where s1: "retire_target_document t s = (r, s1)" by (cases "retire_target_document t s")
  with retire_target_document_outcome [OF s1] 2 show ?case by auto
qed simp

lemma retire_session_outcome: "retire_session x s = (res, s') \<Longrightarrow> res = Ok () \<or> res = Panic"
  unfolding retire_session_def Let_def by (rule retire_documents_outcome)

lemma retire_sessions_inv:
  "core_inv s \<Longrightarrow> retire_sessions xs s = (Ok u, s') \<Longrightarrow> core_inv s'"
proof (induction xs s rule: retire_sessions.induct)
  case (2 x xs s)
  obtain r s1 where s1: "retire_session x s = (r, s1)" by (cases "retire_session x s")
  with retire_session_outcome [OF s1] retire_session_inv [OF 2(2), of x] 2 show ?case by auto
qed simp

section \<open>How the state evolves\<close>

text \<open>
  What every operation does to the authority the state holds: the registry takes steps of its
  own transition system, flags are only ever stored, the retired generations only grow, and
  tokens and flags are allocated upwards.
\<close>

definition evolves :: "core_state \<Rightarrow> core_state \<Rightarrow> bool" where
  "evolves s s' \<longleftrightarrow>
     registry_step\<^sup>*\<^sup>* (cs_registry s) (cs_registry s')
     \<and> cs_cancelled s \<subseteq> cs_cancelled s' \<and> cs_next_flag s \<le> cs_next_flag s'
     \<and> (\<forall>i g. bt_get (cs_blocked s) i = Some g \<longrightarrow> (\<exists>g' \<ge> g. bt_get (cs_blocked s') i = Some g'))
     \<and> (\<forall>i h. bt_get (cs_handles s) i = Some h \<longrightarrow>
          bt_get (cs_handles s') i = Some h \<or> sh_cancelled h \<in> cs_cancelled s')"

lemma evolves_refl [simp, intro]: "evolves s s"
  by (auto simp: evolves_def)

lemma evolves_trans: "evolves a b \<Longrightarrow> evolves b c \<Longrightarrow> evolves a c"
  unfolding evolves_def by (meson order.trans rtranclp_trans subset_trans subsetD)

text \<open>The operations that retire things also keep the calls and reservations as they are.\<close>

definition quiet :: "core_state \<Rightarrow> core_state \<Rightarrow> bool" where
  "quiet s s' \<longleftrightarrow>
     evolves s s' \<and> cs_next_flag s' = cs_next_flag s \<and> cs_renderer_calls s' = cs_renderer_calls s
     \<and> cs_reserved_attaches s' = cs_reserved_attaches s
     \<and> (\<forall>i h. bt_get (cs_handles s') i = Some h \<longrightarrow> bt_get (cs_handles s) i = Some h)"

lemma quiet_refl [simp, intro]: "quiet s s"
  by (simp add: quiet_def)

lemma quiet_trans: "quiet a b \<Longrightarrow> quiet b c \<Longrightarrow> quiet a c"
  unfolding quiet_def by (auto intro: evolves_trans)

lemma cancelled_retain_handles: "cs_cancelled s \<subseteq> cs_cancelled (retain_handles keep s)"
  by (auto simp: retain_handles_def)

lemma retain_handles_stores:
  "bt_get (cs_handles s) i = Some h \<Longrightarrow>
   bt_get (cs_handles (retain_handles keep s)) i = Some h \<or> sh_cancelled h \<in> cs_cancelled (retain_handles keep s)"
  by (auto simp: retain_handles_def in_values)

lemma retire_target_document_quiet:
  assumes "retire_target_document t s = (Ok u, s')"
  shows "quiet s s'"
proof (cases "bt_get (cs_targets s) t")
  case None
  with assms have "s' = s" by (simp add: retire_target_document_def)
  then show ?thesis by simp
next
  case (Some x)
  let ?d = "snd (deactivate_scope (TargetInst t) (cs_registry s))"
  obtain r0 r where a: "activate_scope (TargetInst t) ?d = (r0, r)" by (cases "activate_scope (TargetInst t) ?d")
  have "cs_registry s' = r"
    using assms Some a
    by (auto simp: retire_target_document_def Let_def split: outcome.splits)
  moreover have "registry_step (cs_registry s) ?d"
    by (rule registry_step.deactivate [of "TargetInst t" _ "fst (deactivate_scope (TargetInst t) (cs_registry s))"]) simp
  ultimately have reg: "registry_step\<^sup>*\<^sup>* (cs_registry s) (cs_registry s')"
    using registry_step.activate [OF a] by (meson r_into_rtranclp rtranclp.rtrancl_into_rtrancl)
  from assms show ?thesis
  proof (cases rule: retire_target_document_cases)
    case (3 x e)
    have "cs_cancelled s \<subseteq> cs_cancelled s'"
      using cancelled_retain_handles by (auto simp: 3 document_retired_def Let_def retain_handles_def)
    moreover have "bt_get (cs_handles s') i = Some h \<or> sh_cancelled h \<in> cs_cancelled s'"
      if "bt_get (cs_handles s) i = Some h" for i h
      using that by (auto simp: 3 document_retired_def Let_def retain_handles_def in_values)
    ultimately show ?thesis
      using reg 3 by (auto simp: quiet_def evolves_def split: option.splits if_splits)
  qed auto
qed

lemma retire_documents_quiet: "retire_documents ts s = (Ok u, s') \<Longrightarrow> quiet s s'"
proof (induction ts s rule: retire_documents.induct)
  case (2 t ts s)
  obtain r s1 where s1: "retire_target_document t s = (r, s1)" by (cases "retire_target_document t s")
  with retire_target_document_outcome [OF s1] retire_target_document_quiet [of t s "()" s1] 2
  show ?case by (auto intro: quiet_trans)
qed auto

lemma forget_session_quiet: "quiet s (forget_session x s)"
proof -
  have "bt_get (cs_handles (forget_session x s)) i = Some h
      \<or> sh_cancelled h \<in> cs_cancelled (forget_session x s)" if "bt_get (cs_handles s) i = Some h" for i h
    using that unfolding forget_session_def by (intro retain_handles_stores) simp
  moreover have "cs_cancelled s \<subseteq> cs_cancelled (forget_session x s)"
    by (simp add: forget_session_def retain_handles_def)
  ultimately show ?thesis
    by (auto simp: quiet_def evolves_def forget_session_def split: option.splits if_splits)
qed

lemma retire_session_quiet: "retire_session x s = (Ok u, s') \<Longrightarrow> quiet s s'"
  unfolding retire_session_def Let_def
  by (rule quiet_trans [OF forget_session_quiet retire_documents_quiet])

lemma retire_sessions_quiet: "retire_sessions xs s = (Ok u, s') \<Longrightarrow> quiet s s'"
proof (induction xs s rule: retire_sessions.induct)
  case (2 x xs s)
  obtain r s1 where s1: "retire_session x s = (r, s1)" by (cases "retire_session x s")
  with retire_session_outcome [OF s1] retire_session_quiet [of x s "()" s1] 2
  show ?case by (auto intro: quiet_trans)
qed auto

section \<open>Scheduling a cleanup\<close>

text \<open>Retiring documents leaves the sessions alone.\<close>

lemma retire_documents_sessions:
  "retire_documents ts s = (Ok u, s') \<Longrightarrow>
   cs_raw_sessions s' = cs_raw_sessions s \<and> cs_retiring_sessions s' = cs_retiring_sessions s
   \<and> cs_cleanup_sessions s' = cs_cleanup_sessions s"
proof (induction ts s rule: retire_documents.induct)
  case (2 t ts s)
  obtain r s1 where s1: "retire_target_document t s = (r, s1)" by (cases "retire_target_document t s")
  from s1 have "r = Ok () \<longrightarrow> cs_raw_sessions s1 = cs_raw_sessions s
      \<and> cs_retiring_sessions s1 = cs_retiring_sessions s \<and> cs_cleanup_sessions s1 = cs_cleanup_sessions s"
    by (cases rule: retire_target_document_cases) auto
  with retire_target_document_outcome [OF s1] s1 2 show ?case by auto
qed simp

lemma bt_remove_idem: "bt_remove k (bt_remove k m) = bt_remove k m"
  by (rule bt_eqI) simp

lemma retire_session_after_remove:
  "retire_session x (s\<lparr>cs_raw_sessions := bt_remove x (cs_raw_sessions s)\<rparr>) = retire_session x s"
proof -
  have "forget_session x (s\<lparr>cs_raw_sessions := bt_remove x (cs_raw_sessions s)\<rparr>) = forget_session x s"
    by (simp add: forget_session_def retain_handles_def bt_remove_idem)
  then show ?thesis by (simp add: retire_session_def)
qed

lemma sessions_schedule:
  assumes ok: "sessions_ok raw retiring cleanup n" and w: "bt_get raw x = Some w"
    and raw': "raw' = bt_remove x raw" and retiring': "retiring' = bt_remove x retiring"
    and cleanup': "cleanup' = bt_retain (\<lambda>_ ss. ss \<noteq> []) (bt_map (\<lambda>_. filter (\<lambda>c. c \<noteq> x)) cleanup)"
    and queue: "queue = (case bt_get cleanup' key of Some q \<Rightarrow> q | None \<Rightarrow> [])"
  shows "sessions_ok raw' (bt_insert x key retiring') (bt_insert key (queue @ [x]) cleanup') n"
proof -
  have ok': "sessions_ok raw' retiring' cleanup' n"
    unfolding raw' retiring' cleanup' using ok by (rule sessions_forget)
  have "bt_get retiring x = None" using ok w by (simp add: sessions_ok_def)
  then have "bt_len (bt_insert x key retiring') = Suc (bt_len retiring)" by (simp add: retiring')
  moreover have "Suc (bt_len raw') = bt_len raw" using w bt_len_pos [OF w] by (simp add: raw')
  ultimately have "bt_len raw' + bt_len (bt_insert x key retiring') + n \<le> MAX_RAW_SESSIONS"
    using ok by (simp add: sessions_ok_def)
  moreover have gone: "x \<notin> set q" if "bt_get cleanup' k = Some q" for k q
    using that by (auto simp: cleanup' split: option.splits if_splits)
  have q: "distinct queue \<and> x \<notin> set queue \<and> (\<forall>y \<in> set queue. bt_get retiring' y = Some key)"
  proof (cases "bt_get cleanup' key")
    case (Some q0)
    then have "queue = q0" by (simp add: queue)
    moreover have "distinct q0 \<and> (\<forall>y \<in> set q0. bt_get retiring' y = Some key)"
      using ok' Some unfolding sessions_ok_def by blast
    ultimately show ?thesis using gone [OF Some] by simp
  qed (simp add: queue)
  moreover have "bt_get raw' x = None" by (simp add: raw')
  ultimately show ?thesis
    using ok' gone unfolding sessions_ok_def by (auto simp del: bt_len_insert)
qed

lemma schedule_session_cleanup_cases:
  assumes "schedule_session_cleanup x s = (res, s')"
  obtains "res = Panic"
  | s1 where "res = Ok ()" "bt_get (cs_raw_sessions s) x = None" "s' = s1" "retire_session x s = (Ok (), s1)"
  | w s1 key queue where "res = Ok ()" "bt_get (cs_raw_sessions s) x = Some w"
      "retire_session x s = (Ok (), s1)" "key = (rw_owner w, rw_generation w)"
      "queue = (case bt_get (cs_cleanup_sessions s1) key of Some q \<Rightarrow> q | None \<Rightarrow> [])"
      "s' = s1\<lparr>cs_retiring_sessions := bt_insert x key (cs_retiring_sessions s1),
               cs_cleanup_sessions := bt_insert key (queue @ [x]) (cs_cleanup_sessions s1)\<rparr>"
proof -
  obtain r s1 where s1: "retire_session x s = (r, s1)" by (cases "retire_session x s")
  consider "r = Panic" | "r = Ok ()" using retire_session_outcome [OF s1] by blast
  then show ?thesis
  proof cases
    case 1
    with assms s1 show ?thesis
      by (intro that(1)) (auto simp: schedule_session_cleanup_def retire_session_after_remove Let_def)
  next
    case 2
    show ?thesis
    proof (cases "bt_get (cs_raw_sessions s) x")
      case None
      with 2 assms s1 show ?thesis
        by (intro that(2)) (auto simp: schedule_session_cleanup_def retire_session_after_remove Let_def)
    next
      case (Some w)
      with 2 assms s1 show ?thesis
        by (intro that(3) [of w s1])
          (auto simp: schedule_session_cleanup_def retire_session_after_remove Let_def)
    qed
  qed
qed

lemma retire_session_sessions:
  assumes "retire_session x s = (Ok u, s')"
  shows "cs_raw_sessions s' = bt_remove x (cs_raw_sessions s)"
    and "cs_retiring_sessions s' = bt_remove x (cs_retiring_sessions s)"
    and "cs_cleanup_sessions s' = bt_retain (\<lambda>_ ss. ss \<noteq> [])
           (bt_map (\<lambda>_. filter (\<lambda>c. c \<noteq> x)) (cs_cleanup_sessions s))"
  using retire_documents_sessions [OF assms [unfolded retire_session_def Let_def]]
  by (simp_all add: forget_session_def)

lemma schedule_session_cleanup_inv:
  assumes "core_inv s" "schedule_session_cleanup x s = (Ok u, s')"
  shows "core_inv s'"
  using assms(2)
proof (cases rule: schedule_session_cleanup_cases)
  case (3 w s1 key queue)
  have inv1: "core_inv s1" using assms(1) 3(3) by (rule retire_session_inv)
  have reserved: "cs_reserved_attaches s1 = cs_reserved_attaches s"
    using retire_session_quiet [OF 3(3)] by (simp add: quiet_def)
  have "sessions_ok (cs_raw_sessions s1) (bt_insert x key (cs_retiring_sessions s1))
      (bt_insert key (queue @ [x]) (cs_cleanup_sessions s1)) (cs_reserved_attaches s1)"
    unfolding reserved
    by (rule sessions_schedule [OF core_invD(5) [OF assms(1)] 3(2)])
      (simp_all add: retire_session_sessions [OF 3(3)] 3(5))
  with inv1 3 show ?thesis by (simp add: core_inv_def)
qed (use assms retire_session_inv in auto)

lemma schedule_session_cleanup_quiet:
  assumes "schedule_session_cleanup x s = (Ok u, s')"
  shows "quiet s s'"
  using assms
proof (cases rule: schedule_session_cleanup_cases)
  case (3 w s1 key queue)
  then have "quiet s1 s'" by (simp add: quiet_def evolves_def)
  with retire_session_quiet [OF 3(3)] show ?thesis by (rule quiet_trans)
qed (auto intro: retire_session_quiet)

lemma schedule_session_cleanup_outcome:
  "schedule_session_cleanup x s = (res, s') \<Longrightarrow> res = Ok () \<or> res = Panic"
  by (erule schedule_session_cleanup_cases) auto

lemma schedule_cleanups_inv_quiet:
  "core_inv s \<Longrightarrow> schedule_cleanups xs s = (Ok u, s') \<Longrightarrow> core_inv s' \<and> quiet s s'"
proof (induction xs s rule: schedule_cleanups.induct)
  case (2 x xs s)
  obtain r s1 where s1: "schedule_session_cleanup x s = (r, s1)" by (cases "schedule_session_cleanup x s")
  with schedule_session_cleanup_outcome [OF s1] schedule_session_cleanup_inv [OF 2(2), of x "()" s1]
    schedule_session_cleanup_quiet [of x s "()" s1] 2
  show ?case by (auto intro: quiet_trans)
qed auto

end
