(* ===== verification/Rpc_Steps.thy ===== *)
theory Rpc_Steps
  imports Rpc_Invariants
begin

text \<open>
  The remaining operations keep the invariant of the shared state; the step relation of the
  state together with what the executors hold (permits and renderer calls), its invariant and
  the interpretation of the shared interfaces on it.
\<close>

section \<open>What an operation may do to flags and calls\<close>

definition mild :: "core_state \<Rightarrow> core_state \<Rightarrow> bool" where
  "mild s s' \<longleftrightarrow>
     evolves s s' \<and> cs_renderer_calls s' = cs_renderer_calls s
     \<and> cs_reserved_attaches s' = cs_reserved_attaches s
     \<and> (\<forall>i h. bt_get (cs_handles s') i = Some h \<longrightarrow>
          bt_get (cs_handles s) i = Some h \<or> cs_next_flag s \<le> sh_cancelled h)"

lemma mild_refl [simp, intro]: "mild s s"
  by (simp add: mild_def)

lemma quiet_mild: "quiet s s' \<Longrightarrow> mild s s'"
  by (simp add: quiet_def mild_def)

lemma mild_trans: "mild a b \<Longrightarrow> mild b c \<Longrightarrow> mild a c"
proof -
  assume a: "mild a b" and b: "mild b c"
  have le: "cs_next_flag a \<le> cs_next_flag b" using a by (simp add: mild_def evolves_def)
  have "bt_get (cs_handles a) i = Some h \<or> cs_next_flag a \<le> sh_cancelled h"
    if "bt_get (cs_handles c) i = Some h" for i h
  proof (cases "bt_get (cs_handles b) i = Some h")
    case True
    with a show ?thesis by (simp add: mild_def)
  next
    case False
    with b that have "cs_next_flag b \<le> sh_cancelled h" unfolding mild_def by blast
    with le show ?thesis by simp
  qed
  with a b show ?thesis unfolding mild_def by (auto intro: evolves_trans)
qed

text \<open>A good step: the invariant holds afterwards and the step is mild.\<close>

definition good :: "core_state \<Rightarrow> core_state \<Rightarrow> bool" where
  "good s s' \<longleftrightarrow> (core_inv s \<longrightarrow> core_inv s' \<and> mild s s')"

lemma good_refl [simp, intro]: "good s s"
  by (simp add: good_def)

lemma good_trans: "good a b \<Longrightarrow> good b c \<Longrightarrow> good a c"
  unfolding good_def by (blast intro: mild_trans)

lemma retire_target_document_good: "retire_target_document t s = (Ok u, s') \<Longrightarrow> good s s'"
  by (simp add: good_def retire_target_document_inv retire_target_document_quiet quiet_mild)

lemma retire_documents_good: "retire_documents ts s = (Ok u, s') \<Longrightarrow> good s s'"
  by (simp add: good_def retire_documents_inv retire_documents_quiet quiet_mild)

lemma retire_session_good: "retire_session x s = (Ok u, s') \<Longrightarrow> good s s'"
  by (simp add: good_def retire_session_inv retire_session_quiet quiet_mild)

lemma retire_sessions_good: "retire_sessions xs s = (Ok u, s') \<Longrightarrow> good s s'"
  by (simp add: good_def retire_sessions_inv retire_sessions_quiet quiet_mild)

lemma schedule_session_cleanup_good: "schedule_session_cleanup x s = (Ok u, s') \<Longrightarrow> good s s'"
  by (simp add: good_def schedule_session_cleanup_inv schedule_session_cleanup_quiet quiet_mild)

lemma schedule_cleanups_good: "schedule_cleanups xs s = (Ok u, s') \<Longrightarrow> good s s'"
  using schedule_cleanups_inv_quiet by (auto simp: good_def quiet_mild)

section \<open>Documents\<close>

lemma handle_ok_targets:
  assumes "handle_ok ts raw h"
    and "\<And>t x. bt_get ts t = Some x \<Longrightarrow> \<exists>y. bt_get ts' t = Some y \<and> tg_epoch y = tg_epoch x"
  shows "handle_ok ts' raw h"
proof -
  obtain x w where w: "bt_get raw (sh_session_id h) = Some w" "rw_owner w = sh_owner h"
    "rw_generation w = sh_generation h" "bt_get ts (rw_target_id w) = Some x"
    "sh_scope h = RpcTarget (rw_target_id w) (tg_epoch x)"
    using assms(1) by (auto simp: handle_ok_def)
  obtain y where "bt_get ts' (rw_target_id w) = Some y" "tg_epoch y = tg_epoch x"
    using assms(2) [OF w(4)] by blast
  with w show ?thesis by (simp add: handle_ok_def)
qed

lemma renderers_targets:
  assumes "renderers_ok ts rs"
    and "\<And>t x. bt_get ts t = Some x \<Longrightarrow> tg_renderer_document x \<noteq> None \<Longrightarrow>
      \<exists>y. bt_get ts' t = Some y \<and> tg_renderer_document y = tg_renderer_document x"
  shows "renderers_ok ts' rs"
  unfolding renderers_ok_def
proof (intro allI impI)
  fix t p e assume e: "bt_get rs (t, p) = Some e"
  with assms(1) obtain x where x: "ts_target_id (re_session e) = t" "re_plugin_id e = p"
    "bt_get ts t = Some x"
    "tg_renderer_document x = Some (ts_session_id (re_session e), re_document_epoch e)"
    unfolding renderers_ok_def by blast
  with assms(2) [OF x(3)] show "ts_target_id (re_session e) = t \<and> re_plugin_id e = p
    \<and> (\<exists>x. bt_get ts' t = Some x
         \<and> tg_renderer_document x = Some (ts_session_id (re_session e), re_document_epoch e))" by auto
qed

text \<open>Changing what a live target shows without its epoch, where the endpoints still agree.\<close>

lemma target_update_good:
  assumes x: "bt_get (cs_targets s) t = Some x" and e: "tg_epoch y = tg_epoch x"
    and doc: "tg_renderer_document x = None \<or> tg_renderer_document y = tg_renderer_document x"
  shows "good s (s\<lparr>cs_targets := bt_insert t y (cs_targets s)\<rparr>)"
proof -
  have "core_inv (s\<lparr>cs_targets := bt_insert t y (cs_targets s)\<rparr>)" if inv: "core_inv s"
  proof (rule core_invI, goal_cases)
    case 1
    from inv x e show ?case by (auto simp: core_inv_def targets_ok_def)
  next
    case 2
    have "handle_ok (bt_insert t y (cs_targets s)) (cs_raw_sessions s) h"
      if "handle_ok (cs_targets s) (cs_raw_sessions s) h" for h
      using that by (rule handle_ok_targets) (use x e in auto)
    with inv show ?case by (auto simp: core_inv_def handles_ok_def)
  next
    case 4
    have "renderers_ok (cs_targets s) (cs_renderers s)" using inv by (rule core_invD)
    then have "renderers_ok (bt_insert t y (cs_targets s)) (cs_renderers s)"
      by (rule renderers_targets) (use x doc in auto)
    then show ?case by simp
  qed (use inv in \<open>simp_all add: core_inv_def\<close>)
  then show ?thesis by (simp add: good_def mild_def evolves_def)
qed

lemma ensure_target_cases:
  assumes "ensure_target t s = (res, s')"
  obtains "res = Ok ()" "s' = s" "bt_get (cs_targets s) t \<noteq> None"
  | e where "res = Err e" "s' = s" "bt_get (cs_targets s) t = None"
  | "res = Panic" "s' = s"
  | e where "res = Ok ()" "bt_get (cs_targets s) t = None" "bt_len (cs_targets s) < MAX_TARGETS"
      "cr_next_epoch (cs_registry s) < e" "registry_step (cs_registry s) (cs_registry s')"
      "s' = s\<lparr>cs_registry := (cs_registry s)\<lparr>cr_next_epoch := e,
                cr_active_scopes := bt_insert (TargetInst t) e (cr_active_scopes (cs_registry s))\<rparr>,
              cs_targets := bt_insert t \<lparr>tg_epoch = e, tg_frame_id = None,
                tg_renderer_document = None\<rparr> (cs_targets s)\<rparr>"
proof -
  consider "bt_get (cs_targets s) t \<noteq> None"
    | "bt_get (cs_targets s) t = None" "MAX_TARGETS \<le> bt_len (cs_targets s)"
    | "bt_get (cs_targets s) t = None" "bt_len (cs_targets s) < MAX_TARGETS" by fastforce
  then show ?thesis
  proof cases
    case 1
    with assms show ?thesis by (intro that(1)) (auto simp: ensure_target_def)
  next
    case 2
    with assms show ?thesis by (intro that(2)) (auto simp: ensure_target_def)
  next
    case 3
    obtain r0 r where a: "activate_scope (TargetInst t) (cs_registry s) = (r0, r)"
      by (cases "activate_scope (TargetInst t) (cs_registry s)")
    from a show ?thesis
    proof (cases rule: activate_scope_cases)
      case 1
      with 3 a assms show ?thesis by (intro that(2)) (auto simp: ensure_target_def)
    next
      case 2
      with 3 a assms show ?thesis by (intro that(3)) (auto simp: ensure_target_def)
    next
      case (3 e)
      with \<open>bt_get (cs_targets s) t = None\<close> \<open>bt_len (cs_targets s) < MAX_TARGETS\<close> a assms
      show ?thesis by (intro that(4) [of e]) (auto simp: ensure_target_def intro: registry_step.activate)
    qed
  qed
qed

lemma ensure_target_good:
  assumes "ensure_target t s = (res, s')"
  shows "good s s'"
  using assms
proof (cases rule: ensure_target_cases)
  case (4 e)
  note fresh = 4(2) and s' = 4(6)
  have "core_inv s'" if inv: "core_inv s"
  proof (rule core_invI, goal_cases)
    case 1
    have "registry_inv (cs_registry s')"
      using inv 4(5) by (auto simp: core_inv_def targets_ok_def intro: registry_step_inv)
    with inv 4 show ?case by (auto simp: core_inv_def targets_ok_def)
  next
    case 2
    have "handle_ok (cs_targets s') (cs_raw_sessions s) h"
      if "handle_ok (cs_targets s) (cs_raw_sessions s) h" for h
      using that by (rule handle_ok_targets) (use 4 in auto)
    with inv 4 show ?case by (auto simp: core_inv_def handles_ok_def)
  next
    case 4
    have "renderers_ok (cs_targets s) (cs_renderers s)" using inv by (rule core_invD)
    then have "renderers_ok (cs_targets s') (cs_renderers s)"
      by (rule renderers_targets) (use fresh s' in auto)
    with s' show ?case by simp
  next
    case 6
    with inv s' show ?case by (simp add: core_inv_def entries_ok_def)
  qed (use inv 4 in \<open>simp_all add: core_inv_def\<close>)
  moreover have "mild s s'" using 4 by (auto simp: mild_def evolves_def)
  ultimately show ?thesis by (simp add: good_def)
qed simp_all

lemma ensure_target_Ok: "ensure_target t s = (Ok u, s') \<Longrightarrow> bt_get (cs_targets s') t \<noteq> None"
  by (erule ensure_target_cases) auto

text \<open>
  Publication leaves the target with exactly the published document, whatever it showed
  before.
\<close>

lemma publish_document_good:
  assumes "publish_document t d s = (res, s')" "res \<noteq> Panic"
  shows "good s s' \<and> (res = Ok () \<longrightarrow>
    (\<exists>x. bt_get (cs_targets s') t = Some x \<and> tg_renderer_document x = Some d))"
proof -
  let ?old = "Option.bind (bt_get (cs_targets s) t) tg_renderer_document"
  define clash where "clash \<longleftrightarrow> (case ?old of None \<Rightarrow> False | Some old \<Rightarrow> old \<noteq> d)"
  obtain r1 s1 where s1: "(if clash then retire_target_document t s else (Ok (), s)) = (r1, s1)"
    by (cases "if clash then retire_target_document t s else (Ok (), s)")
  have r1: "r1 = Ok ()"
    using s1 assms retire_target_document_outcome [of t s r1 s1]
    by (auto simp: publish_document_def clash_def split: if_splits outcome.splits)
  have good1: "good s s1"
    using s1 r1 retire_target_document_good [of t s "()" s1] by (auto split: if_splits)
  have agree: "tg_renderer_document x = None \<or> tg_renderer_document x = Some d"
    if "bt_get (cs_targets s1) t = Some x" for x
  proof (cases clash)
    case True
    with s1 r1 have "retire_target_document t s = (Ok (), s1)" by simp
    then show ?thesis using that by (cases rule: retire_target_document_cases) auto
  next
    case False
    with s1 that show ?thesis by (auto simp: clash_def split: option.splits)
  qed
  obtain r2 s2 where s2: "ensure_target t s1 = (r2, s2)" by (cases "ensure_target t s1")
  have good2: "good s1 s2" using s2 by (rule ensure_target_good)
  have agree2: "tg_renderer_document x = None \<or> tg_renderer_document x = Some d"
    if "bt_get (cs_targets s2) t = Some x" for x
    using s2 that agree by (cases rule: ensure_target_cases) auto
  have publish: "publish_document t d s = (case (r2, s2) of
      (Ok _, s) \<Rightarrow> (case bt_get (cs_targets s) t of
         None \<Rightarrow> (Panic, s)
       | Some x \<Rightarrow> (Ok (), s\<lparr>cs_targets :=
           bt_insert t (x\<lparr>tg_renderer_document := Some d\<rparr>) (cs_targets s)\<rparr>))
    | r \<Rightarrow> r)"
    using s1 r1 s2 by (simp add: publish_document_def clash_def)
  show ?thesis
  proof (cases r2)
    case (Ok u)
    then obtain x where x: "bt_get (cs_targets s2) t = Some x"
      using ensure_target_Ok [of t s1 u s2] s2 by auto
    have "good s2 (s2\<lparr>cs_targets := bt_insert t (x\<lparr>tg_renderer_document := Some d\<rparr>) (cs_targets s2)\<rparr>)"
      by (rule target_update_good [OF x]) (use agree2 [OF x] in auto)
    with good1 good2 Ok x publish assms(1) show ?thesis by (auto intro: good_trans)
  next
    case (Err e)
    with good1 good2 publish assms(1) show ?thesis by (auto intro: good_trans)
  next
    case Panic
    with publish assms show ?thesis by simp
  qed
qed

lemma publish_renderer_good:
  assumes "publish_renderer e s = (res, s')" "res \<noteq> Panic"
  shows "good s s'"
proof (cases "provider_generation (cs_registry s) (re_plugin_id e) \<noteq> Some (re_generation e)")
  case True
  with assms show ?thesis by (simp add: publish_renderer_def)
next
  case False
  let ?t = "ts_target_id (re_session e)" and ?d = "(ts_session_id (re_session e), re_document_epoch e)"
  obtain r1 s1 where s1: "publish_document ?t ?d s = (r1, s1)" by (cases "publish_document ?t ?d s")
  with False assms have np: "r1 \<noteq> Panic" by (auto simp: publish_renderer_def)
  note pub = publish_document_good [OF s1 np]
  show ?thesis
  proof (cases r1)
    case (Ok u)
    with pub obtain x where x: "bt_get (cs_targets s1) ?t = Some x" "tg_renderer_document x = Some ?d"
      by auto
    have "good s1 (s1\<lparr>cs_renderers := bt_insert (?t, re_plugin_id e) e (cs_renderers s1)\<rparr>)"
      using x by (auto simp: good_def core_inv_def renderers_ok_def mild_def evolves_def)
    with pub Ok False s1 assms(1) show ?thesis by (auto simp: publish_renderer_def intro: good_trans)
  next
    case (Err x)
    with pub False s1 assms(1) show ?thesis by (auto simp: publish_renderer_def)
  qed (use np in simp)
qed

lemma shrink_good:
  assumes "cs_renderers s' = bt_retain p (cs_renderers s)"
    and "cs_invocations s' = bt_retain q (cs_invocations s)"
    and "s' = s\<lparr>cs_renderers := cs_renderers s', cs_invocations := cs_invocations s'\<rparr>"
  shows "good s s'"
proof -
  have "core_inv s'" if inv: "core_inv s"
  proof (rule core_invI, goal_cases)
    case 4
    show ?case using core_invD(4) [OF inv] by (subst (1 2) assms(3)) (simp add: assms(1) renderers_retain)
  next
    case 8
    show ?case using core_invD(8) [OF inv] by (subst (1 2) assms(3)) (simp add: assms(2) tokens_retain)
  next
    case 9
    show ?case using core_invD(9) [OF inv] by (subst assms(3)) (simp add: assms(2) len_retain_le)
  qed (subst assms(3); use inv in \<open>simp add: core_inv_def\<close>)+
  moreover have "mild s s'" by (subst assms(3)) (simp add: mild_def evolves_def)
  ultimately show ?thesis by (simp add: good_def)
qed

lemma retire_renderer_good: "good s (retire_renderer t plugin s)"
  unfolding retire_renderer_def Let_def by (rule shrink_good) (rule refl | simp)+

section \<open>Registrations\<close>

lemma unregister_keeps:
  assumes "unregister_provider i r = (res, r')"
  shows "cr_active_scopes r' = cr_active_scopes r"
    and "k \<noteq> i \<Longrightarrow> bt_get (cr_registrations r') k = bt_get (cr_registrations r) k"
    and "registry_inv r \<Longrightarrow> bt_get (cr_registrations r') i = None"
  using assms
  by (cases rule: unregister_provider_cases;
      auto dest: registration_factsD(2) intro: ccontr)+

lemma register_keeps:
  assumes "register_provider i g provides requires grants r = (res, r')"
  shows "cr_active_scopes r' = cr_active_scopes r"
    and "k \<noteq> i \<Longrightarrow> bt_get (cr_registrations r') k = bt_get (cr_registrations r) k"
  using assms by (cases rule: register_provider_cases; auto)+

lemma targets_ok_registry:
  "targets_ok r ts \<Longrightarrow> registry_inv r' \<Longrightarrow> cr_active_scopes r' = cr_active_scopes r \<Longrightarrow> targets_ok r' ts"
  by (simp add: targets_ok_def)

lemma entries_ok_shrink:
  assumes "entries_ok r d b"
    and "\<And>k x. bt_get (cr_registrations r') k = Some x \<Longrightarrow>
      bt_get (cr_registrations r) k = Some x \<and> bt_get d' k = bt_get d k \<and> bt_get b' k = bt_get b k"
  shows "entries_ok r' d' b'"
  using assms unfolding entries_ok_def by metis

text \<open>Changing the registrations of the registry and the declarations and nothing else.\<close>

lemma entries_update_good:
  assumes s': "s' = s\<lparr>cs_registry := r, cs_declarations := d, cs_blocked := b\<rparr>"
    and "registry_step\<^sup>*\<^sup>* (cs_registry s) r" "cr_active_scopes r = cr_active_scopes (cs_registry s)"
    and "core_inv s \<Longrightarrow> entries_ok r d b"
    and "\<And>i g. bt_get (cs_blocked s) i = Some g \<Longrightarrow> \<exists>g' \<ge> g. bt_get b i = Some g'"
  shows "good s s'"
proof -
  have "core_inv s'" if inv: "core_inv s"
  proof -
    have "registry_inv (cs_registry s)" using inv by (simp add: core_inv_def targets_ok_def)
    then have "registry_inv r" by (rule reg_sys.run_inv [OF assms(2)])
    with inv assms(3) have "targets_ok r (cs_targets s)"
      by (auto simp: core_inv_def intro: targets_ok_registry)
    with inv assms(4) s' show ?thesis by (simp add: core_inv_def)
  qed
  moreover have "mild s s'" using assms by (simp add: mild_def evolves_def)
  ultimately show ?thesis by (simp add: good_def)
qed

lemma register_entry_cases:
  assumes "register_entry g grants (i, provides, requires) s = (res, s')"
  obtains "s' = s" "res \<noteq> Panic" "\<forall>e. res \<noteq> Err (DependencyConflict e)"
  | "res = Panic"
  | r1 u where "unregister_provider i (cs_registry s) = (u, r1)" "s' = s\<lparr>cs_registry := r1\<rparr>"
      "\<exists>e. res = Err e"
  | r1 r2 u where "unregister_provider i (cs_registry s) = (u, r1)"
      "register_provider i g provides requires grants r1 = (Ok (), r2)" "res = Ok ()"
      "\<forall>b. bt_get (cs_blocked s) i = Some b \<longrightarrow> b < g"
      "s' = s\<lparr>cs_registry := r2, cs_declarations := bt_insert i
         \<lparr>dc_generation = g, dc_provides = provides, dc_requires = requires, dc_grants = grants\<rparr>
         (cs_declarations s)\<rparr>"
proof -
  let ?d = "\<lparr>dc_generation = g, dc_provides = provides, dc_requires = requires, dc_grants = grants\<rparr>"
  obtain u r1 where u: "unregister_provider i (cs_registry s) = (u, r1)"
    by (cases "unregister_provider i (cs_registry s)")
  obtain v r2 where v: "register_provider i g provides requires grants r1 = (v, r2)"
    by (cases "register_provider i g provides requires grants r1")
  consider (keep) "s' = s" "res \<noteq> Panic" "\<forall>e. res \<noteq> Err (DependencyConflict e)"
    | (go) "\<forall>b. bt_get (cs_blocked s) i = Some b \<longrightarrow> b < g"
      "(case u of Err e \<Rightarrow> (Err (DependencyConflict e), s\<lparr>cs_registry := r1\<rparr>)
        | Panic \<Rightarrow> (Panic, s\<lparr>cs_registry := r1\<rparr>)
        | Ok _ \<Rightarrow> (case v of Err e \<Rightarrow> (Err (DependencyConflict e), s\<lparr>cs_registry := r2\<rparr>)
            | Panic \<Rightarrow> (Panic, s\<lparr>cs_registry := r2\<rparr>)
            | Ok _ \<Rightarrow> (Ok (), s\<lparr>cs_registry := r2,
                 cs_declarations := bt_insert i ?d (cs_declarations s)\<rparr>))) = (res, s')"
    using assms u v
    by (cases u) (auto simp: register_entry_def Let_def not_le split: if_split_asm option.split_asm)
  then show ?thesis
  proof cases
    case keep
    then show ?thesis by (rule that(1))
  next
    case go
    show ?thesis
    proof (cases u)
      case (Err e)
      with go that(3) [OF u] show ?thesis by auto
    next
      case Panic
      with go that(2) show ?thesis by simp
    next
      case (Ok w)
      show ?thesis
      proof (cases v)
        case (Err e)
        have "r2 = r1" using v by (cases rule: register_provider_cases) (use Err in auto)
        with go Ok Err that(3) [OF u] show ?thesis by auto
      next
        case Panic
        with go Ok that(2) show ?thesis by simp
      next
        case (Ok x)
        with go \<open>u = Ok w\<close> v that(4) [OF u, of r2] show ?thesis by auto
      qed
    qed
  qed
qed

lemma registered_record:
  assumes "register_provider i g provides requires grants r = (Ok (), r')"
    and "bt_get (cr_registrations r') i = Some x"
  shows "registration_declared \<lparr>dc_generation = g, dc_provides = provides, dc_requires = requires,
    dc_grants = grants\<rparr> x" and "pr_generation x = g"
  using assms by (cases rule: register_provider_cases; auto simp: registration_declared_def)+

lemma register_entry_good:
  assumes "register_entry g grants e s = (res, s')" "res \<noteq> Panic"
  shows "good s s'"
proof -
  obtain i provides requires where e: "e = (i, provides, requires)" by (metis prod.exhaust)
  from assms(1) [unfolded e] show ?thesis
  proof (cases rule: register_entry_cases)
    case (3 r1 u)
    have "entries_ok r1 (cs_declarations s) (cs_blocked s)" if inv: "core_inv s"
    proof -
      have "registry_inv (cs_registry s)" using inv by (simp add: core_inv_def targets_ok_def)
      then have gone: "bt_get (cr_registrations r1) i = None" by (rule unregister_keeps(3) [OF 3(1)])
      have "bt_get (cr_registrations (cs_registry s)) k = Some x"
        if "bt_get (cr_registrations r1) k = Some x" for k x
        using that gone unregister_keeps(2) [OF 3(1), of k] by (cases "k = i") auto
      with core_invD(6) [OF inv] show ?thesis unfolding entries_ok_def by blast
    qed
    moreover have "registry_step\<^sup>*\<^sup>* (cs_registry s) r1"
      using registry_step.unregister [OF 3(1)] by (rule r_into_rtranclp)
    ultimately show ?thesis
      using 3(2) unregister_keeps(1) [OF 3(1)]
      by (intro entries_update_good [where r = r1 and d = "cs_declarations s" and b = "cs_blocked s"]) auto
  next
    case (4 r1 r2 u)
    let ?d = "\<lparr>dc_generation = g, dc_provides = provides, dc_requires = requires, dc_grants = grants\<rparr>"
    have same: "bt_get (cr_registrations r2) k = bt_get (cr_registrations (cs_registry s)) k"
      if "k \<noteq> i" for k
      using unregister_keeps(2) [OF 4(1) that] register_keeps(2) [OF 4(2) that] by simp
    have "entries_ok r2 (bt_insert i ?d (cs_declarations s)) (cs_blocked s)" if inv: "core_inv s"
      unfolding entries_ok_def
    proof (intro allI impI)
      fix k x
      assume x: "bt_get (cr_registrations r2) k = Some x" and k: "k \<noteq> BUILTIN_HOST_PROVIDER_ID"
      show "(\<exists>d. bt_get (bt_insert i ?d (cs_declarations s)) k = Some d \<and> registration_declared d x)
        \<and> (\<forall>b. bt_get (cs_blocked s) k = Some b \<longrightarrow> b < pr_generation x)"
      proof (cases "k = i")
        case True
        with registered_record [OF 4(2), of x] x 4(4) show ?thesis by simp
      next
        case False
        with same x have "bt_get (cr_registrations (cs_registry s)) k = Some x" by simp
        with core_invD(6) [OF inv] k False show ?thesis unfolding entries_ok_def by simp
      qed
    qed
    moreover have "registry_step\<^sup>*\<^sup>* (cs_registry s) r2"
      using registry_step.unregister [OF 4(1)] registry_step.register [OF 4(2)]
      by (meson r_into_rtranclp rtranclp.rtrancl_into_rtrancl)
    ultimately show ?thesis
      using 4(5) unregister_keeps(1) [OF 4(1)] register_keeps(1) [OF 4(2)]
      by (intro entries_update_good [where r = r2 and d = "bt_insert i ?d (cs_declarations s)"
          and b = "cs_blocked s"]) auto
  qed (use assms(2) in auto)
qed

lemma register_entries_good:
  "register_entries g grants es s = (res, s') \<Longrightarrow> res \<noteq> Panic \<Longrightarrow> good s s'"
proof (induction g grants es s rule: register_entries.induct)
  case (2 g grants e es s)
  obtain r s1 where s1: "register_entry g grants e s = (r, s1)" by (cases "register_entry g grants e s")
  show ?case
  proof (cases r)
    case (Ok u)
    with 2 s1 have "good s1 s'" by simp
    with register_entry_good [OF s1] Ok show ?thesis by (auto intro: good_trans)
  qed (use 2 s1 register_entry_good [OF s1] in auto)
qed simp

lemma register_plugins_good:
  "register_plugins ps s = (res, s') \<Longrightarrow> res \<noteq> Panic \<Longrightarrow> good s s'"
proof (induction ps s rule: register_plugins.induct)
  case (2 p ps s)
  let ?op = "register_entries (lp_generation p) (map permission_str (pm_permissions (lp_manifest p)))
    (plugin_entries (lp_manifest p)) s"
  obtain r s1 where s1: "?op = (r, s1)" by (cases ?op)
  show ?case
  proof (cases r)
    case (Ok u)
    with 2 s1 have "good s1 s'" by simp
    with register_entries_good [OF s1] Ok show ?thesis by (auto intro: good_trans)
  qed (use 2 s1 register_entries_good [OF s1] in auto)
qed simp

lemma retire_entry_good: "good s (retire_entry g i s)"
proof -
  let ?b = "bt_insert i (case bt_get (cs_blocked s) i of None \<Rightarrow> g | Some v \<Rightarrow> max v g) (cs_blocked s)"
  let ?gone = "case bt_get (cs_declarations s) i of None \<Rightarrow> False | Some d \<Rightarrow> dc_generation d \<le> g"
  obtain u r where u: "unregister_provider i (cs_registry s) = (u, r)"
    by (cases "unregister_provider i (cs_registry s)")
  have mono: "\<exists>g' \<ge> v. bt_get ?b k = Some g'" if "bt_get (cs_blocked s) k = Some v" for k v
    using that by (auto split: option.splits)
  show ?thesis
  proof (cases ?gone)
    case True
    have "entries_ok r (bt_remove i (cs_declarations s)) ?b" if inv: "core_inv s"
    proof -
      have "registry_inv (cs_registry s)" using inv by (simp add: core_inv_def targets_ok_def)
      then have gone: "bt_get (cr_registrations r) i = None" by (rule unregister_keeps(3) [OF u])
      have "k \<noteq> i \<and> bt_get (cr_registrations (cs_registry s)) k = Some x"
        if "bt_get (cr_registrations r) k = Some x" for k x
        using that gone unregister_keeps(2) [OF u, of k] by (cases "k = i") auto
      then show ?thesis using core_invD(6) [OF inv] by (intro entries_ok_shrink [OF core_invD(6) [OF inv]]) auto
    qed
    moreover have "registry_step\<^sup>*\<^sup>* (cs_registry s) r"
      using registry_step.unregister [OF u] by (rule r_into_rtranclp)
    ultimately show ?thesis
      using True u unregister_keeps(1) [OF u] mono
      by (intro entries_update_good [where r = r and d = "bt_remove i (cs_declarations s)" and b = ?b])
        (auto simp: retire_entry_def Let_def)
  next
    case False
    have "entries_ok (cs_registry s) (cs_declarations s) ?b" if inv: "core_inv s"
      unfolding entries_ok_def
    proof (intro allI impI)
      fix k x
      assume x: "bt_get (cr_registrations (cs_registry s)) k = Some x"
        and k: "k \<noteq> BUILTIN_HOST_PROVIDER_ID"
      with core_invD(6) [OF inv] obtain d where d: "bt_get (cs_declarations s) k = Some d"
        "registration_declared d x" "\<forall>b. bt_get (cs_blocked s) k = Some b \<longrightarrow> b < pr_generation x"
        unfolding entries_ok_def by blast
      moreover have "g < pr_generation x" if "k = i"
        using False d that by (simp add: registration_declared_def not_le)
      ultimately show "(\<exists>d. bt_get (cs_declarations s) k = Some d \<and> registration_declared d x)
        \<and> (\<forall>b. bt_get ?b k = Some b \<longrightarrow> b < pr_generation x)"
        by (auto split: option.splits)
    qed
    then show ?thesis
      using False mono
      by (intro entries_update_good [where r = "cs_registry s" and d = "cs_declarations s" and b = ?b])
        (auto simp: retire_entry_def Let_def)
  qed
qed

lemma retire_plugin_good: "good s (retire_plugin i g s)"
proof -
  have "good (retire_entry g (host_provider_id i) (retire_entry g i s)) (retire_plugin i g s)"
    unfolding retire_plugin_def Let_def by (rule shrink_good) (rule refl | simp)+
  then show ?thesis using retire_entry_good good_trans by blast
qed

section \<open>Hosts and sessions\<close>

lemma host_state_good: "good s (host_state i g v err s)"
  by (simp add: good_def host_state_def core_inv_def mild_def evolves_def)

lemma take_cleanup_sessions_good: "good s (snd (take_cleanup_sessions owner g s))"
  by (auto simp: good_def take_cleanup_sessions_def core_inv_def sessions_ok_def mild_def evolves_def)

lemma retire_raw_session_good: "retire_raw_session x s = (Ok u, s') \<Longrightarrow> good s s'"
  unfolding retire_raw_session_def by (rule retire_session_good)

lemma retire_host_scopes_good: "retire_host_scopes owner g s = (Ok u, s') \<Longrightarrow> good s s'"
  unfolding retire_host_scopes_def by (rule schedule_cleanups_good)

lemma retire_late_attachment_good:
  "retire_late_attachment owner g x s = (Ok u, s') \<Longrightarrow> good s s'"
  by (auto simp: retire_late_attachment_def intro: schedule_session_cleanup_good split: if_splits)

section \<open>Tokens and handles\<close>

lemma next_token_cases:
  assumes "next_token p s = (res, s')"
  obtains e where "res = Err e" "s' = s"
  | n where "res = Ok (p @ ''-'' @ show_u64 n)" "s' = s\<lparr>cs_next_id := n\<rparr>" "cs_next_id s < n"
      "\<And>m. m < n \<longleftrightarrow> m \<le> cs_next_id s"
proof (cases "checked_succ (cs_next_id s)")
  case None
  with assms show ?thesis by (intro that(1)) (auto simp: next_token_def)
next
  case (Some n)
  with assms checked_succ_SomeD [OF Some] show ?thesis
    by (intro that(2) [of n]) (auto simp: next_token_def)
qed

lemma tokens_ok_fresh:
  assumes "tokens_ok p m i" "i < n"
  shows "bt_get m (p @ ''-'' @ show_u64 n) = None"
  using assms by (auto simp: tokens_ok_def)

lemma tokens_ok_mono: "tokens_ok p m i \<Longrightarrow> i \<le> n \<Longrightarrow> tokens_ok p m n"
  by (auto simp: tokens_ok_def)

lemma tokens_ok_insert:
  "tokens_ok p m i \<Longrightarrow> i \<le> n \<Longrightarrow> tokens_ok p (bt_insert (p @ ''-'' @ show_u64 n) v m) n"
  using tokens_ok_mono [of p m i n] by (auto simp: tokens_ok_def)

lemma next_id_good: "cs_next_id s \<le> n \<Longrightarrow> good s (s\<lparr>cs_next_id := n\<rparr>)"
  by (auto simp: good_def core_inv_def mild_def evolves_def intro: tokens_ok_mono)

text \<open>Adding a handle under a fresh token, with a fresh flag, for the owner's own session.\<close>

lemma new_handle_good:
  assumes n: "\<And>m. m < n \<longleftrightarrow> m \<le> cs_next_id s" "cs_next_id s < n"
    and len: "bt_len (cs_handles s) < MAX_HANDLES"
    and w: "bt_get (cs_raw_sessions s) session = Some w" "rw_owner w = owner" "rw_generation w = g"
    and x: "bt_get (cs_targets s) (rw_target_id w) = Some x"
    and s': "s' = s\<lparr>cs_next_id := n, cs_next_flag := Suc (cs_next_flag s),
      cs_handles := bt_insert (''scope'' @ ''-'' @ show_u64 n)
        \<lparr>sh_owner = owner, sh_generation = g, sh_session_id = session,
         sh_scope = RpcTarget (rw_target_id w) (tg_epoch x), sh_cancelled = cs_next_flag s\<rparr>
        (cs_handles s)\<rparr>"
  shows "good s s'"
proof -
  let ?h = "\<lparr>sh_owner = owner, sh_generation = g, sh_session_id = session,
         sh_scope = RpcTarget (rw_target_id w) (tg_epoch x), sh_cancelled = cs_next_flag s\<rparr>"
  have "core_inv s'" if inv: "core_inv s"
  proof (rule core_invI, goal_cases)
    case 2
    have "handle_ok (cs_targets s) (cs_raw_sessions s) ?h" using w x by (simp add: handle_ok_def)
    with core_invD(2) [OF inv] len s' show ?case by (auto simp: handles_ok_def)
  next
    case 3
    have "cs_next_flag s \<noteq> sh_cancelled h" if "bt_get (cs_handles s) i = Some h" for i h
      using core_invD(3) [OF inv] that unfolding flags_ok_def by (metis less_irrefl)
    with core_invD(3) [OF inv] s' show ?case
      by (auto simp: flags_ok_def less_Suc_eq) (metis less_irrefl)+
  next
    case 7
    from tokens_ok_insert [OF core_invD(7) [OF inv], of n] n(2) s' show ?case by simp
  next
    case 8
    from tokens_ok_mono [OF core_invD(8) [OF inv], of n] n(2) s' show ?case by simp
  qed (use inv s' in \<open>simp_all add: core_inv_def\<close>)
  moreover have "mild s s'" if inv: "core_inv s"
    using tokens_ok_fresh [OF core_invD(7) [OF inv] n(2)] s' by (auto simp: mild_def evolves_def)
  ultimately show ?thesis by (simp add: good_def)
qed

lemma owned_raw_Some:
  "owned_raw owner g session s = Some w \<longleftrightarrow>
     bt_get (cs_raw_sessions s) session = Some w \<and> rw_owner w = owner \<and> rw_generation w = g"
  by (auto simp: owned_raw_def split: option.splits)

lemma issue_handle_cases:
  assumes "issue_handle owner g session frame s = (res, s')" "res \<noteq> Panic"
  obtains e where "res = Err e" "good s s'"
  | w s1 x n where "bt_get (cs_raw_sessions s) session = Some w" "rw_owner w = owner"
      "rw_generation w = g" "bt_len (cs_handles s) < MAX_HANDLES"
      "ensure_target (rw_target_id w) s = (Ok (), s1)"
      "bt_get (cs_targets s1) (rw_target_id w) = Some x"
      "cs_next_id s1 < n" "\<And>m. m < n \<longleftrightarrow> m \<le> cs_next_id s1"
      "res = Ok (''scope'' @ ''-'' @ show_u64 n)"
      "s' = s1\<lparr>cs_targets := bt_insert (rw_target_id w) (x\<lparr>tg_frame_id := Some frame\<rparr>) (cs_targets s1),
        cs_next_id := n, cs_next_flag := Suc (cs_next_flag s1),
        cs_handles := bt_insert (''scope'' @ ''-'' @ show_u64 n)
          \<lparr>sh_owner = owner, sh_generation = g, sh_session_id = session,
           sh_scope = RpcTarget (rw_target_id w) (tg_epoch x), sh_cancelled = cs_next_flag s1\<rparr>
          (cs_handles s1)\<rparr>"
proof (cases "owned_raw owner g session s")
  case None
  with assms show ?thesis by (intro that(1)) (auto simp: issue_handle_def)
next
  case (Some w)
  note raw = Some [unfolded owned_raw_Some]
  show ?thesis
  proof (cases "MAX_HANDLES \<le> bt_len (cs_handles s)")
    case True
    with assms Some show ?thesis by (intro that(1)) (auto simp: issue_handle_def)
  next
    case room: False
    obtain r1 s1 where s1: "ensure_target (rw_target_id w) s = (r1, s1)"
      by (cases "ensure_target (rw_target_id w) s")
    show ?thesis
    proof (cases r1)
      case (Err e)
      with assms Some room s1 ensure_target_good [OF s1] show ?thesis
        by (intro that(1)) (auto simp: issue_handle_def)
    next
      case Panic
      with assms Some room s1 show ?thesis by (auto simp: issue_handle_def)
    next
      case (Ok u)
      then obtain x where x: "bt_get (cs_targets s1) (rw_target_id w) = Some x"
        using ensure_target_Ok [of "rw_target_id w" s u s1] s1 by auto
      let ?s2 = "s1\<lparr>cs_targets := bt_insert (rw_target_id w) (x\<lparr>tg_frame_id := Some frame\<rparr>)
        (cs_targets s1)\<rparr>"
      obtain r3 s3 where s3: "next_token ''scope'' ?s2 = (r3, s3)" by (cases "next_token ''scope'' ?s2")
      from s3 show ?thesis
      proof (cases rule: next_token_cases)
        case (1 e)
        have "good s1 ?s2" using x by (rule target_update_good) auto
        with ensure_target_good [OF s1] have "good s ?s2" by (rule good_trans)
        with assms Some room s1 Ok x s3 1 show ?thesis
          by (intro that(1)) (auto simp: issue_handle_def Let_def)
      next
        case (2 n)
        with assms Some room s1 Ok x s3 raw show ?thesis
          by (intro that(2) [of w s1 x n]) (auto simp: issue_handle_def Let_def new_flag_def)
      qed
    qed
  qed
qed

lemma issue_handle_good:
  assumes "issue_handle owner g session frame s = (res, s')" "res \<noteq> Panic"
  shows "good s s'"
  using assms
proof (cases rule: issue_handle_cases)
  case (2 w s1 x n)
  let ?s2 = "s1\<lparr>cs_targets := bt_insert (rw_target_id w) (x\<lparr>tg_frame_id := Some frame\<rparr>) (cs_targets s1)\<rparr>"
  have good1: "good s1 ?s2" using 2(6) by (rule target_update_good) auto
  have same: "cs_raw_sessions s1 = cs_raw_sessions s" "cs_handles s1 = cs_handles s"
    using 2(5) by (cases rule: ensure_target_cases; simp)+
  have "good ?s2 s'"
  proof (rule new_handle_good [where w = w and n = n and s = ?s2 and session = session
        and owner = owner and g = g and x = "x\<lparr>tg_frame_id := Some frame\<rparr>"], goal_cases)
    case (1 m)
    show ?case using 2(8) [of m] by simp
  qed (use 2(1-4,7,10) same in simp_all)
  with good1 ensure_target_good [OF 2(5)] show ?thesis by (blast intro: good_trans)
qed

lemma close_handle_good:
  assumes "close_handle owner g i s = (res, s')"
  shows "good s s'"
proof (cases "bt_get (cs_handles s) i")
  case None
  with assms show ?thesis by (simp add: close_handle_def)
next
  case (Some h)
  show ?thesis
  proof (cases "sh_owner h = owner \<and> sh_generation h = g")
    case False
    with Some assms show ?thesis by (auto simp: close_handle_def)
  next
    case True
    with Some assms have s': "s' = store_flag (sh_cancelled h) (s\<lparr>cs_handles := bt_remove i (cs_handles s)\<rparr>)"
      by (simp add: close_handle_def)
    have "core_inv s'" if inv: "core_inv s"
    proof (rule core_invI, goal_cases)
      case 2
      have "bt_len (bt_remove i (cs_handles s)) \<le> MAX_HANDLES"
        using inv by (intro len_remove_le) (simp add: core_inv_def handles_ok_def)
      with core_invD(2) [OF inv] s' show ?case
        by (auto simp: handles_ok_def store_flag_def simp del: bt_len_remove)
    next
      case 3
      have flags: "flags_ok (cs_handles s) (cs_cancelled s) (cs_next_flag s)" using inv by (rule core_invD)
      then have "sh_cancelled k \<noteq> sh_cancelled h" if "bt_get (cs_handles s) j = Some k" "j \<noteq> i" for j k
        using that Some unfolding flags_ok_def by metis
      moreover have "sh_cancelled h < cs_next_flag s" using flags Some by (simp add: flags_ok_def)
      ultimately show ?case
        using flags s' by (simp add: flags_ok_def store_flag_def)
    qed (use inv s' in \<open>simp_all add: core_inv_def store_flag_def tokens_remove\<close>)
    moreover have "mild s s'" using s' Some by (auto simp: mild_def evolves_def store_flag_def)
    ultimately show ?thesis by (simp add: good_def)
  qed
qed

section \<open>Browser events\<close>

text \<open>After its document is retired nothing refers to a target, so it can go.\<close>

definition unreferenced :: "string \<Rightarrow> core_state \<Rightarrow> bool" where
  "unreferenced t s \<longleftrightarrow>
     (\<forall>i h. bt_get (cs_handles s) i = Some h \<longrightarrow> off_target t h)
     \<and> (\<forall>p. bt_get (cs_renderers s) (t, p) = None)"

lemma retired_unreferenced:
  assumes "core_inv s" "retire_target_document t s = (Ok u, s')"
  shows "unreferenced t s'"
  using assms(2)
proof (cases rule: retire_target_document_cases)
  case 1
  have "off_target t h" if h: "bt_get (cs_handles s) i = Some h" for i h
  proof -
    have "handle_ok (cs_targets s) (cs_raw_sessions s) h"
      using core_invD(2) [OF assms(1)] h unfolding handles_ok_def by blast
    with 1 show ?thesis by (auto simp: handle_ok_def off_target_def)
  qed
  moreover have "bt_get (cs_renderers s) (t, p) = None" for p
  proof (rule ccontr)
    assume "bt_get (cs_renderers s) (t, p) \<noteq> None"
    then obtain e where "bt_get (cs_renderers s) (t, p) = Some e" by blast
    then have "bt_get (cs_targets s) t \<noteq> None"
      using core_invD(4) [OF assms(1)] unfolding renderers_ok_def by blast
    with 1 show False by simp
  qed
  ultimately show ?thesis using 1 by (simp add: unreferenced_def)
next
  case (3 x e)
  then show ?thesis by (auto simp: unreferenced_def split: option.splits if_splits)
qed auto

lemma drop_target_good:
  assumes "unreferenced t s"
  shows "good s (s\<lparr>cs_targets := bt_remove t (cs_targets s),
    cs_registry := snd (deactivate_scope (TargetInst t) (cs_registry s))\<rparr>)"
    (is "good s ?s'")
proof -
  let ?r = "snd (deactivate_scope (TargetInst t) (cs_registry s))"
  have step: "registry_step (cs_registry s) ?r"
    by (rule registry_step.deactivate [of "TargetInst t" _ "fst (deactivate_scope (TargetInst t) (cs_registry s))"]) simp
  have "core_inv ?s'" if inv: "core_inv s"
  proof (rule core_invI, goal_cases)
    case 1
    have "registry_inv ?r"
      using inv step by (auto simp: core_inv_def targets_ok_def intro: registry_step_inv)
    moreover have "bt_len (bt_remove t (cs_targets s)) \<le> MAX_TARGETS"
      using inv by (intro len_remove_le) (simp add: core_inv_def targets_ok_def)
    moreover have "cr_active_scopes ?r = bt_remove (TargetInst t) (cr_active_scopes (cs_registry s))"
      by (simp add: deactivate_scope_def)
    ultimately show ?case
      using inv by (simp add: core_inv_def targets_ok_def del: bt_len_remove)
  next
    case 2
    have "handle_ok (bt_remove t (cs_targets s)) (cs_raw_sessions s) h"
      if h: "bt_get (cs_handles s) i = Some h" for i h
    proof -
      have "handle_ok (cs_targets s) (cs_raw_sessions s) h"
        using core_invD(2) [OF inv] h unfolding handles_ok_def by blast
      then obtain x w where w: "bt_get (cs_raw_sessions s) (sh_session_id h) = Some w"
        "rw_owner w = sh_owner h" "rw_generation w = sh_generation h"
        "bt_get (cs_targets s) (rw_target_id w) = Some x"
        "sh_scope h = RpcTarget (rw_target_id w) (tg_epoch x)" by (auto simp: handle_ok_def)
      moreover have "off_target t h" using assms h unfolding unreferenced_def by blast
      ultimately have "rw_target_id w \<noteq> t" by (simp add: off_target_def)
      with w show ?thesis by (simp add: handle_ok_def)
    qed
    with core_invD(2) [OF inv] show ?case by (simp add: handles_ok_def)
  next
    case 4
    show ?case
      unfolding renderers_ok_def
    proof (intro allI impI)
      fix k p e assume e: "bt_get (cs_renderers ?s') (k, p) = Some e"
      then have "k \<noteq> t" using assms by (auto simp: unreferenced_def)
      with core_invD(4) [OF inv] e show "ts_target_id (re_session e) = k \<and> re_plugin_id e = p
        \<and> (\<exists>x. bt_get (cs_targets ?s') k = Some x
          \<and> tg_renderer_document x = Some (ts_session_id (re_session e), re_document_epoch e))"
        by (simp add: renderers_ok_def)
    qed
  qed (use inv in \<open>simp_all add: core_inv_def entries_ok_def deactivate_scope_def\<close>)
  moreover have "mild s ?s'" using step by (simp add: mild_def evolves_def r_into_rtranclp)
  ultimately show ?thesis by (simp add: good_def)
qed

lemma destroy_target_good:
  assumes "destroy_target t s = (Ok u, s')"
  shows "good s s'"
proof -
  obtain r s1 where s1: "retire_target_document t s = (r, s1)" by (cases "retire_target_document t s")
  with assms retire_target_document_outcome [OF s1] have r: "r = Ok ()"
    by (auto simp: destroy_target_def)
  let ?s2 = "s1\<lparr>cs_targets := bt_remove t (cs_targets s1),
    cs_registry := snd (deactivate_scope (TargetInst t) (cs_registry s1))\<rparr>"
  have "good ?s2 s'"
    using assms s1 r by (auto simp: destroy_target_def Let_def intro: retire_sessions_good)
  moreover have "core_inv s \<Longrightarrow> good s1 ?s2"
    using retired_unreferenced s1 r by (blast intro: drop_target_good)
  moreover have "good s s1" using s1 r by (auto intro: retire_target_document_good)
  ultimately show ?thesis unfolding good_def by (blast intro: mild_trans)
qed

lemma frame_navigated_good: "frame_navigated e s = (Ok u, s') \<Longrightarrow> good s s'"
  by (auto simp: frame_navigated_def intro: retire_target_document_good
      split: option.splits if_splits)

lemma observe_good: "observe e s = (Ok u, s') \<Longrightarrow> good s s'"
  by (auto simp: observe_def intro: retire_session_good destroy_target_good frame_navigated_good
      split: option.splits if_splits)

lemma invalidate_targets_good: "invalidate_targets s = (Ok u, s') \<Longrightarrow> good s s'"
  unfolding invalidate_targets_def by (rule retire_documents_good)

section \<open>Renderer invocations\<close>

lemma begin_renderer_invocation_good:
  assumes "begin_renderer_invocation now e l s = (res, s')"
  shows "good s s'"
proof (cases "validate_lineage now s l = Ok () \<and> bt_len (cs_invocations s) < MAX_RENDERER_INVOCATIONS")
  case False
  with assms show ?thesis
    by (auto simp: begin_renderer_invocation_def not_less split: outcome.splits if_splits)
next
  case True
  obtain r s1 where s1: "next_token ''invocation'' s = (r, s1)" by (cases "next_token ''invocation'' s")
  from s1 show ?thesis
  proof (cases rule: next_token_cases)
    case (1 x)
    with True assms s1 show ?thesis by (auto simp: begin_renderer_invocation_def)
  next
    case (2 n)
    let ?k = "''invocation'' @ ''-'' @ show_u64 n"
    have s': "s' = s\<lparr>cs_next_id := n,
        cs_invocations := bt_insert ?k \<lparr>ri_endpoint = e, ri_lineage = l\<rparr> (cs_invocations s)\<rparr>"
      using True assms s1 2(1,2) by (auto simp: begin_renderer_invocation_def)
    have "core_inv s'" if inv: "core_inv s"
    proof (rule core_invI, goal_cases)
      case 7
      from tokens_ok_mono [OF core_invD(7) [OF inv], of n] 2(3) s' show ?case by simp
    next
      case 8
      from tokens_ok_insert [OF core_invD(8) [OF inv], of n] 2(3) s' show ?case by simp
    qed (use inv s' True in \<open>simp_all add: core_inv_def\<close>)
    moreover have "mild s s'" using s' by (simp add: mild_def evolves_def)
    ultimately show ?thesis by (simp add: good_def)
  qed
qed

lemma end_renderer_invocation_good: "good s (end_renderer_invocation k s)"
proof -
  have "bt_len (bt_remove k (cs_invocations s)) \<le> MAX_RENDERER_INVOCATIONS" if "core_inv s"
    using core_invD(9) [OF that] by (rule len_remove_le)
  then show ?thesis
    by (simp add: good_def end_renderer_invocation_def core_inv_def tokens_remove mild_def
        evolves_def del: bt_len_remove)
qed

section \<open>Steps\<close>

text \<open>
  The operations on the shared state that hand out no permit and no call. An operation that
  panics ends the run; \<open>epoch_panic\<close> below says when that can be.
\<close>

inductive core_step :: "core_state \<Rightarrow> core_state \<Rightarrow> bool" where
  register: "register_plugins ps s = (res, s') \<Longrightarrow> res \<noteq> Panic \<Longrightarrow> core_step s s'"
| retire: "core_step s (retire_plugin i g s)"
| host: "core_step s (host_state i g v err s)"
| renderer: "publish_renderer e s = (res, s') \<Longrightarrow> res \<noteq> Panic \<Longrightarrow> core_step s s'"
| target: "publish_target session d s = (res, s') \<Longrightarrow> res \<noteq> Panic \<Longrightarrow> core_step s s'"
| no_renderer: "core_step s (retire_renderer t plugin s)"
| raw: "retire_raw_session x s = (Ok (), s') \<Longrightarrow> core_step s s'"
| scopes: "retire_host_scopes owner g s = (Ok (), s') \<Longrightarrow> core_step s s'"
| late: "retire_late_attachment owner g x s = (Ok (), s') \<Longrightarrow> core_step s s'"
| cleanup: "take_cleanup_sessions owner g s = (xs, s') \<Longrightarrow> core_step s s'"
| handle: "issue_handle owner g x frame s = (res, s') \<Longrightarrow> res \<noteq> Panic \<Longrightarrow> core_step s s'"
| close: "close_handle owner g i s = (res, s') \<Longrightarrow> core_step s s'"
| event: "observe e s = (Ok (), s') \<Longrightarrow> core_step s s'"
| disconnect: "invalidate_targets s = (Ok (), s') \<Longrightarrow> core_step s s'"
| invoke: "begin_renderer_invocation now e l s = (res, s') \<Longrightarrow> core_step s s'"
| finish: "core_step s (end_renderer_invocation k s)"

lemma core_step_good: "core_step s s' \<Longrightarrow> good s s'"
proof (induction rule: core_step.induct)
  case (target session d s res s')
  then show ?case unfolding publish_target_def using publish_document_good by blast
next
  case (cleanup owner g s xs s')
  then show ?case using take_cleanup_sessions_good [of s owner g] by simp
qed (auto intro: register_plugins_good retire_plugin_good host_state_good publish_renderer_good
    retire_renderer_good retire_raw_session_good retire_host_scopes_good
    retire_late_attachment_good issue_handle_good close_handle_good observe_good
    invalidate_targets_good begin_renderer_invocation_good end_renderer_invocation_good)

text \<open>
  The state together with what the executors hold of it: the active attach permits and the
  renderer calls that are not dropped yet. A call enters the table after it resolved its route,
  under the lock of its own: the step allows any route.
\<close>

record rpc_world =
  w_core :: core_state
  w_permits :: nat
  w_calls :: "renderer_call list"

inductive rpc_step :: "rpc_world \<Rightarrow> rpc_world \<Rightarrow> bool" where
  core: "core_step (w_core w) s' \<Longrightarrow> rpc_step w (w\<lparr>w_core := s'\<rparr>)"
| reserve: "reserve_raw_attach (w_core w) = (Ok (), s') \<Longrightarrow>
    rpc_step w (w\<lparr>w_core := s', w_permits := Suc (w_permits w)\<rparr>)"
| track: "w_permits w = Suc n \<Longrightarrow> track_raw_attach owner g t x (w_core w) = (res, s') \<Longrightarrow>
    rpc_step w (w\<lparr>w_core := s', w_permits := n\<rparr>)"
| permit: "w_permits w = Suc n \<Longrightarrow> drop_permit True (w_core w) = (res, s') \<Longrightarrow>
    rpc_step w (w\<lparr>w_core := s', w_permits := n\<rparr>)"
| call: "enter_renderer_call e rid route (w_core w) = (Ok c, s') \<Longrightarrow>
    rpc_step w (w\<lparr>w_core := s', w_calls := c # w_calls w\<rparr>)"
| no_call: "enter_renderer_call e rid route (w_core w) = (Err err, s') \<Longrightarrow>
    rpc_step w (w\<lparr>w_core := s'\<rparr>)"
| cancel: "rpc_step w (w\<lparr>w_core := cancel_renderer_call e rid (w_core w)\<rparr>)"
| drop: "c \<in> set (w_calls w) \<Longrightarrow>
    rpc_step w (w\<lparr>w_core := drop_renderer_call c (w_core w), w_calls := remove1 c (w_calls w)\<rparr>)"

text \<open>
  A call that is not dropped has a flag of its own, and every entry of the pending table is
  the entry of such a call. The reservations are the outstanding permits.
\<close>

definition calls_ok ::
    "(string, scope_handle) btree \<Rightarrow> (call_key, nat) btree \<Rightarrow> nat \<Rightarrow> renderer_call list \<Rightarrow> bool" where
  "calls_ok hs pending next_flag calls \<longleftrightarrow>
     distinct (map rc_cancelled calls)
     \<and> (\<forall>c \<in> set calls. rc_cancelled c < next_flag
          \<and> (\<forall>i h. bt_get hs i = Some h \<longrightarrow> sh_cancelled h \<noteq> rc_cancelled c))
     \<and> (\<forall>k a. bt_get pending k = Some a \<longrightarrow>
          (\<exists>c \<in> set calls. rc_key c = Some k \<and> rc_cancelled c = a))"

definition rpc_inv :: "rpc_world \<Rightarrow> bool" where
  "rpc_inv w \<longleftrightarrow>
     core_inv (w_core w) \<and> cs_reserved_attaches (w_core w) = w_permits w
     \<and> calls_ok (cs_handles (w_core w)) (cs_renderer_calls (w_core w)) (cs_next_flag (w_core w))
         (w_calls w)"

definition rpc_init :: "rpc_world \<Rightarrow> bool" where
  "rpc_init w \<longleftrightarrow> (\<exists>i. w_core w = core_new i) \<and> w_permits w = 0 \<and> w_calls w = []"

end
