(* ===== verification/Rpc_Authority.thy ===== *)
theory Rpc_Authority
  imports Rpc_Steps
begin

text \<open>
  The invariant of the shared state with its permits and calls, the interpretation of the
  shared interfaces on it, and the properties of the managed RPC state.
\<close>

section \<open>Permits\<close>

lemma sessions_resize:
  "sessions_ok raw retiring cleanup n \<Longrightarrow> bt_len raw + bt_len retiring + m \<le> MAX_RAW_SESSIONS \<Longrightarrow>
   sessions_ok raw retiring cleanup m"
  unfolding sessions_ok_def by blast

lemma reserve_raw_attach_inv:
  assumes "core_inv s" "reserve_raw_attach s = (Ok u, s')"
  shows "core_inv s'" and "s' = s\<lparr>cs_reserved_attaches := Suc (cs_reserved_attaches s)\<rparr>"
proof -
  show s': "s' = s\<lparr>cs_reserved_attaches := Suc (cs_reserved_attaches s)\<rparr>"
    using assms(2) by (auto simp: reserve_raw_attach_def split: if_splits)
  have "sessions_ok (cs_raw_sessions s) (cs_retiring_sessions s) (cs_cleanup_sessions s)
      (Suc (cs_reserved_attaches s))"
    using core_invD(5) [OF assms(1)] assms(2)
    by (auto simp: reserve_raw_attach_def tracked_sessions_def intro: sessions_resize split: if_splits)
  with assms(1) s' show "core_inv s'" by (simp add: core_inv_def)
qed

lemma sessions_fewer: "sessions_ok raw retiring cleanup n \<Longrightarrow> m \<le> n \<Longrightarrow> sessions_ok raw retiring cleanup m"
  by (simp add: sessions_ok_def)

lemma drop_permit_inv:
  assumes "core_inv s" "cs_reserved_attaches s = Suc n" "drop_permit True s = (res, s')"
  shows "core_inv s'" and "s' = s\<lparr>cs_reserved_attaches := n\<rparr>"
  using assms by (auto simp: drop_permit_def release_reservation_def core_inv_def intro: sessions_fewer)

lemma handles_new_session:
  assumes "handles_ok ts raw hs" "bt_get raw x = None"
  shows "handles_ok ts (bt_insert x w raw) hs"
proof -
  have "handle_ok ts (bt_insert x w raw) h" if "handle_ok ts raw h" for h
    using that assms(2) by (auto simp: handle_ok_def)
  with assms(1) show ?thesis by (auto simp: handles_ok_def)
qed

lemma track_raw_attach_cases:
  assumes "track_raw_attach owner g t x s = (res, s')" "cs_reserved_attaches s = Suc n"
  obtains e where "res = Err e" "s' = s\<lparr>cs_reserved_attaches := n\<rparr>"
      "bt_get (cs_raw_sessions s) x \<noteq> None \<or> bt_get (cs_retiring_sessions s) x \<noteq> None"
  | "res = Ok ()" "bt_get (cs_raw_sessions s) x = None" "bt_get (cs_retiring_sessions s) x = None"
      "s' = s\<lparr>cs_reserved_attaches := n, cs_raw_sessions := bt_insert x
         \<lparr>rw_owner = owner, rw_generation = g, rw_target_id = t\<rparr> (cs_raw_sessions s)\<rparr>"
proof (cases "bt_get (cs_raw_sessions s) x \<noteq> None \<or> bt_get (cs_retiring_sessions s) x \<noteq> None")
  case True
  with assms show ?thesis
    by (intro that(1)) (auto simp: track_raw_attach_def drop_permit_def release_reservation_def)
next
  case False
  then have "bt_get (cs_raw_sessions s) x = None" "bt_get (cs_retiring_sessions s) x = None" by blast+
  moreover from this assms have "(res, s') = (Ok (), s\<lparr>cs_reserved_attaches := n,
      cs_raw_sessions := bt_insert x \<lparr>rw_owner = owner, rw_generation = g, rw_target_id = t\<rparr>
        (cs_raw_sessions s)\<rparr>)"
    by (simp add: track_raw_attach_def release_reservation_def)
  ultimately show ?thesis using that(2) by simp
qed

lemma track_raw_attach_inv:
  assumes inv: "core_inv s" and n: "cs_reserved_attaches s = Suc n"
    and op: "track_raw_attach owner g t x s = (res, s')"
  shows "core_inv s'"
  using op n
proof (cases rule: track_raw_attach_cases)
  case (1 e)
  with inv n show ?thesis by (auto simp: core_inv_def intro: sessions_fewer)
next
  case 2
  have "sessions_ok (cs_raw_sessions s) (cs_retiring_sessions s) (cs_cleanup_sessions s) (Suc n)"
    using core_invD(5) [OF inv] n by simp
  with 2(2,3) have "sessions_ok (bt_insert x \<lparr>rw_owner = owner, rw_generation = g, rw_target_id = t\<rparr>
      (cs_raw_sessions s)) (cs_retiring_sessions s) (cs_cleanup_sessions s) n"
    by (auto simp: sessions_ok_def)
  with inv 2 show ?thesis by (simp add: core_inv_def handles_new_session)
qed

lemma track_raw_attach_frame:
  assumes "track_raw_attach owner g t x s = (res, s')" "cs_reserved_attaches s = Suc n"
  shows "evolves s s' \<and> cs_handles s' = cs_handles s \<and> cs_renderer_calls s' = cs_renderer_calls s
    \<and> cs_next_flag s' = cs_next_flag s \<and> cs_reserved_attaches s' = n"
  using assms by (cases rule: track_raw_attach_cases) (auto simp: evolves_def)

section \<open>Calls\<close>

lemma enter_renderer_call_cases:
  assumes "enter_renderer_call e rid route s = (res, s')"
  obtains err where "res = Err err" "s' = s\<lparr>cs_next_flag := Suc (cs_next_flag s)\<rparr>"
  | c where "res = Ok c"
      "rc_cancelled c = cs_next_flag s"
      "rc_key c = map_option (\<lambda>i. (ts_session_id (re_session e), re_binding e, i)) rid"
      "rc_route c = route\<lparr>rt_lineage := (rt_lineage route)\<lparr>ln_cancellations :=
         ln_cancellations (rt_lineage route) @ [cs_next_flag s]\<rparr>\<rparr>"
      "\<forall>k. rc_key c = Some k \<longrightarrow> bt_get (cs_renderer_calls s) k = None
         \<and> bt_len (cs_renderer_calls s) < MAX_RENDERER_CALLS"
      "s' = s\<lparr>cs_next_flag := Suc (cs_next_flag s), cs_renderer_calls :=
         (case rc_key c of None \<Rightarrow> cs_renderer_calls s
          | Some k \<Rightarrow> bt_insert k (cs_next_flag s) (cs_renderer_calls s))\<rparr>"
proof (cases rid)
  case None
  with assms show ?thesis
    by (intro that(2)) (auto simp: enter_renderer_call_def new_flag_def Let_def)
next
  case (Some i)
  let ?k = "(ts_session_id (re_session e), re_binding e, i)"
  consider (full) "MAX_RENDERER_CALLS \<le> bt_len (cs_renderer_calls s)"
    | (busy) "\<not> MAX_RENDERER_CALLS \<le> bt_len (cs_renderer_calls s)"
        "bt_get (cs_renderer_calls s) ?k \<noteq> None"
    | (go) "\<not> MAX_RENDERER_CALLS \<le> bt_len (cs_renderer_calls s)"
        "bt_get (cs_renderer_calls s) ?k = None"
    by blast
  then show ?thesis
  proof cases
    case full
    with Some assms show ?thesis
      by (intro that(1)) (auto simp: enter_renderer_call_def new_flag_def Let_def)
  next
    case busy
    with Some assms show ?thesis
      by (intro that(1)) (auto simp: enter_renderer_call_def new_flag_def Let_def)
  next
    case go
    with Some assms show ?thesis
      by (intro that(2)) (auto simp: enter_renderer_call_def new_flag_def Let_def)
  qed
qed

text \<open>A whole call is the steps of the others and, if its route resolves, one of its own.\<close>

lemma begin_renderer_call_enters:
  assumes "begin_renderer_call now live e d token rid deadline others s = (Ok c, s')"
  obtains route where "resolve_renderer now live e d token deadline s = Ok route"
    "enter_renderer_call e rid route (others s) = (Ok c, s')"
  using assms by (auto simp: begin_renderer_call_def split: outcome.splits)

lemma fresh_flag_inv:
  assumes "core_inv s" "bt_len calls \<le> MAX_RENDERER_CALLS"
  shows "core_inv (s\<lparr>cs_next_flag := Suc (cs_next_flag s), cs_renderer_calls := calls\<rparr>)"
proof -
  have "flags_ok (cs_handles s) (cs_cancelled s) (Suc (cs_next_flag s))"
    using core_invD(3) [OF assms(1)] unfolding flags_ok_def by (auto intro: less_SucI)
  with assms show ?thesis by (simp add: core_inv_def)
qed

text \<open>Storing the flag of a call touches no handle.\<close>

lemma store_call_flag_inv:
  assumes inv: "core_inv s" and a: "a < cs_next_flag s"
    "\<forall>i h. bt_get (cs_handles s) i = Some h \<longrightarrow> sh_cancelled h \<noteq> a"
    and calls: "bt_len calls \<le> MAX_RENDERER_CALLS"
  shows "core_inv (s\<lparr>cs_cancelled := insert a (cs_cancelled s), cs_renderer_calls := calls\<rparr>)"
proof -
  have "flags_ok (cs_handles s) (insert a (cs_cancelled s)) (cs_next_flag s)"
    using core_invD(3) [OF inv] a unfolding flags_ok_def by auto
  with inv calls show ?thesis by (simp add: core_inv_def)
qed

lemma calls_ok_new:
  assumes "calls_ok hs pending n calls" "rc_cancelled c = n"
    and "\<forall>i h. bt_get hs i = Some h \<longrightarrow> sh_cancelled h < n"
  shows "calls_ok hs (case rc_key c of None \<Rightarrow> pending | Some k \<Rightarrow> bt_insert k n pending) (Suc n) (c # calls)"
proof -
  have "rc_cancelled x \<noteq> n" if "x \<in> set calls" for x using assms(1) that by (auto simp: calls_ok_def)
  moreover have "sh_cancelled h \<noteq> n" if "bt_get hs i = Some h" for i h using assms(3) that by blast
  ultimately show ?thesis
    using assms unfolding calls_ok_def by (cases "rc_key c") (auto simp: image_iff less_SucI)
qed

lemma calls_ok_mono:
  assumes "calls_ok hs pending n calls" "n \<le> n'"
    and "\<forall>k a. bt_get pending' k = Some a \<longrightarrow> bt_get pending k = Some a"
    and "\<forall>i h. bt_get hs' i = Some h \<longrightarrow> bt_get hs i = Some h \<or> n \<le> sh_cancelled h"
  shows "calls_ok hs' pending' n' calls"
proof -
  have "rc_cancelled c < n'" "\<forall>i h. bt_get hs' i = Some h \<longrightarrow> sh_cancelled h \<noteq> rc_cancelled c"
    if "c \<in> set calls" for c
  proof -
    have c: "rc_cancelled c < n" "\<forall>i h. bt_get hs i = Some h \<longrightarrow> sh_cancelled h \<noteq> rc_cancelled c"
      using assms(1) that by (auto simp: calls_ok_def)
    then show "rc_cancelled c < n'" using assms(2) by simp
    show "\<forall>i h. bt_get hs' i = Some h \<longrightarrow> sh_cancelled h \<noteq> rc_cancelled c"
      using c assms(4) by (metis not_le)
  qed
  with assms(1,3) show ?thesis unfolding calls_ok_def by blast
qed

section \<open>The invariant\<close>

lemma calls_ok_drop:
  assumes ok: "calls_ok hs pending n calls" and c: "c \<in> set calls"
  shows "calls_ok hs (case rc_key c of None \<Rightarrow> pending | Some k \<Rightarrow> bt_remove k pending) n (remove1 c calls)"
proof -
  have d: "distinct calls" using ok by (simp add: calls_ok_def distinct_map)
  have left: "\<exists>x \<in> set (remove1 c calls). rc_key x = Some k \<and> rc_cancelled x = a"
    if "bt_get pending k = Some a" "rc_key c \<noteq> Some k" for k a
  proof -
    obtain x where "x \<in> set calls" "rc_key x = Some k" "rc_cancelled x = a"
      using ok \<open>bt_get pending k = Some a\<close> unfolding calls_ok_def by blast
    moreover from this that(2) have "x \<noteq> c" by auto
    ultimately show ?thesis using d by auto
  qed
  have "distinct (map rc_cancelled (remove1 c calls))"
    using ok d by (auto simp: calls_ok_def distinct_map intro: inj_on_subset)
  moreover have "set (remove1 c calls) \<subseteq> set calls" by (rule set_remove1_subset)
  ultimately show ?thesis
    using ok left unfolding calls_ok_def
    by (cases "rc_key c") (auto split: if_splits)
qed

lemma rpc_step_inv:
  assumes inv: "rpc_inv w" and step: "rpc_step w w'"
  shows "rpc_inv w' \<and> evolves (w_core w) (w_core w')"
proof -
  let ?s = "w_core w"
  have core: "core_inv ?s" and permits: "cs_reserved_attaches ?s = w_permits w"
    and calls: "calls_ok (cs_handles ?s) (cs_renderer_calls ?s) (cs_next_flag ?s) (w_calls w)"
    using inv by (auto simp: rpc_inv_def)
  have flags: "\<forall>i h. bt_get (cs_handles ?s) i = Some h \<longrightarrow> sh_cancelled h < cs_next_flag ?s"
    using core_invD(3) [OF core] by (simp add: flags_ok_def)
  from step show ?thesis
  proof cases
    case (core s')
    with core_step_good have "core_inv s'" "mild ?s s'" using \<open>core_inv ?s\<close> by (auto simp: good_def)
    moreover from this have "calls_ok (cs_handles s') (cs_renderer_calls s') (cs_next_flag s') (w_calls w)"
      by (intro calls_ok_mono [OF calls]) (auto simp: mild_def evolves_def)
    ultimately show ?thesis using core(1) permits by (simp add: rpc_inv_def mild_def)
  next
    case (reserve s')
    note new = reserve_raw_attach_inv [OF core reserve(2)]
    have "cs_reserved_attaches s' = Suc (w_permits w)" "evolves ?s s'"
      "calls_ok (cs_handles s') (cs_renderer_calls s') (cs_next_flag s') (w_calls w)"
      using calls permits by (simp_all add: new(2) evolves_def)
    with new(1) reserve(1) show ?thesis by (simp add: rpc_inv_def)
  next
    case (track n owner g t x res s')
    with permits have n: "cs_reserved_attaches ?s = Suc n" by simp
    from track_raw_attach_inv [OF core n track(3)] track_raw_attach_frame [OF track(3) n] calls track(1)
    show ?thesis by (simp add: rpc_inv_def)
  next
    case (permit n res s')
    with permits have n: "cs_reserved_attaches ?s = Suc n" by simp
    note new = drop_permit_inv [OF core n permit(3)]
    have "cs_reserved_attaches s' = n" "evolves ?s s'"
      "calls_ok (cs_handles s') (cs_renderer_calls s') (cs_next_flag s') (w_calls w)"
      using calls by (simp_all add: new(2) evolves_def)
    with new(1) permit(1) show ?thesis by (simp add: rpc_inv_def)
  next
    case (call e rid route c s')
    from call(2) show ?thesis
    proof (cases rule: enter_renderer_call_cases)
      case (2 c')
      let ?pending = "case rc_key c of None \<Rightarrow> cs_renderer_calls ?s
          | Some k \<Rightarrow> bt_insert k (cs_next_flag ?s) (cs_renderer_calls ?s)"
      have "bt_len ?pending \<le> MAX_RENDERER_CALLS"
        using 2(1,5) core_invD(10) [OF core] by (cases "rc_key c") auto
      with fresh_flag_inv [OF core this] calls_ok_new [OF calls, of c] flags 2 permits call(1)
      show ?thesis by (simp add: rpc_inv_def evolves_def)
    qed auto
  next
    case (no_call e rid route err s')
    from no_call(2) show ?thesis
    proof (cases rule: enter_renderer_call_cases)
      case (1 x)
      have "core_inv (?s\<lparr>cs_next_flag := Suc (cs_next_flag ?s)\<rparr>)"
        using fresh_flag_inv [OF core core_invD(10) [OF core]] by simp
      moreover have "calls_ok (cs_handles ?s) (cs_renderer_calls ?s) (Suc (cs_next_flag ?s)) (w_calls w)"
        by (rule calls_ok_mono [OF calls]) auto
      ultimately show ?thesis using 1 inv permits no_call(1) by (auto simp: rpc_inv_def evolves_def)
    qed auto
  next
    case (cancel e rid)
    let ?k = "(ts_session_id (re_session e), re_binding e, rid)"
    show ?thesis
    proof (cases "bt_get (cs_renderer_calls ?s) ?k")
      case None
      with inv cancel show ?thesis by (simp add: cancel_renderer_call_def)
    next
      case (Some a)
      then obtain c where "c \<in> set (w_calls w)" "rc_cancelled c = a"
        using calls unfolding calls_ok_def by blast
      then have a: "a < cs_next_flag ?s"
        "\<forall>i h. bt_get (cs_handles ?s) i = Some h \<longrightarrow> sh_cancelled h \<noteq> a"
        using calls by (auto simp: calls_ok_def)
      have "bt_len (bt_remove ?k (cs_renderer_calls ?s)) \<le> MAX_RENDERER_CALLS"
        using core_invD(10) [OF core] by (rule len_remove_le)
      from store_call_flag_inv [OF core a this]
      have "core_inv (cancel_renderer_call e rid ?s)"
        by (simp add: core_inv_def cancel_renderer_call_def Some store_flag_def)
      moreover have "calls_ok (cs_handles ?s) (bt_remove ?k (cs_renderer_calls ?s)) (cs_next_flag ?s) (w_calls w)"
        by (rule calls_ok_mono [OF calls]) auto
      ultimately show ?thesis
        using cancel permits Some by (auto simp: rpc_inv_def evolves_def cancel_renderer_call_def store_flag_def)
    qed
  next
    case (drop c)
    let ?pending = "case rc_key c of None \<Rightarrow> cs_renderer_calls ?s | Some k \<Rightarrow> bt_remove k (cs_renderer_calls ?s)"
    have a: "rc_cancelled c < cs_next_flag ?s"
      "\<forall>i h. bt_get (cs_handles ?s) i = Some h \<longrightarrow> sh_cancelled h \<noteq> rc_cancelled c"
      using calls drop(2) by (auto simp: calls_ok_def)
    have "bt_len ?pending \<le> MAX_RENDERER_CALLS"
      using core_invD(10) [OF core] by (auto split: option.split simp del: bt_len_remove intro: len_remove_le)
    from store_call_flag_inv [OF core a this]
    have "core_inv (drop_renderer_call c ?s)"
      by (auto simp: drop_renderer_call_def Let_def store_flag_def split: option.splits)
    with calls_ok_drop [OF calls drop(2)] drop(1) permits show ?thesis
      by (auto simp: rpc_inv_def evolves_def drop_renderer_call_def Let_def store_flag_def
          split: option.splits)
  qed
qed

end
