(* ===== verification/Rpc_Properties.thy ===== *)
theory Rpc_Properties
  imports Rpc_Authority
begin

text \<open>
  The properties of the managed RPC state: what every reachable state satisfies, that
  revocation is permanent for documents, handles and plugin generations, and what a resolved
  route carries.
\<close>

section \<open>The start state\<close>

lemma core_new_registration:
  "fst (register_provider BUILTIN_HOST_PROVIDER_ID 1 builtin_host_capabilities [] [] (registry_new i)) = Ok ()"
  by code_simp

lemma core_new_epoch:
  "cr_next_epoch (snd (register_provider BUILTIN_HOST_PROVIDER_ID 1 builtin_host_capabilities [] []
     (registry_new i))) = 1"
  by code_simp

lemma core_new_inv: "core_inv (core_new i)"
proof -
  let ?r1 = "snd (register_provider BUILTIN_HOST_PROVIDER_ID 1 builtin_host_capabilities [] [] (registry_new i))"
  obtain x where r1: "register_provider BUILTIN_HOST_PROVIDER_ID 1 builtin_host_capabilities [] []
      (registry_new i) = (x, ?r1)" by (metis prod.collapse)
  obtain g r2 where r2: "activate_scope RuntimeInst ?r1 = (g, r2)" by (cases "activate_scope RuntimeInst ?r1")
  have act1: "cr_active_scopes ?r1 = bt_empty" using register_keeps(1) [OF r1] by (simp add: registry_new_def)
  have reg1: "bt_get (cr_registrations ?r1) k = None" if "k \<noteq> BUILTIN_HOST_PROVIDER_ID" for k
    using register_keeps(2) [OF r1 that] by (simp add: registry_new_def)
  have inv1: "registry_inv ?r1" using registry_inv_new r1 by (rule register_provider_inv)
  have inv2: "registry_inv r2" using inv1 r2 by (rule activate_scope_inv)
  from r2 have facts: "bt_get (cr_active_scopes r2) RuntimeInst \<noteq> None
      \<and> (\<forall>t. bt_get (cr_active_scopes r2) (TargetInst t) = None)
      \<and> cr_registrations r2 = cr_registrations ?r1"
    by (cases rule: activate_scope_cases) (auto simp: act1 core_new_epoch)
  have reg2: "cs_registry (core_new i) = r2" by (simp add: core_new_def r2)
  have "bt_get (cr_registrations r2) k = None" if "k \<noteq> BUILTIN_HOST_PROVIDER_ID" for k
    using facts reg1 [OF that] by simp
  then have "entries_ok r2 bt_empty bt_empty" unfolding entries_ok_def by (metis option.distinct(1))
  moreover have "targets_ok r2 bt_empty" using facts inv2 by (simp add: targets_ok_def)
  moreover have fields: "cs_targets (core_new i) = bt_empty" "cs_declarations (core_new i) = bt_empty"
    "cs_blocked (core_new i) = bt_empty"
    by (simp_all add: core_new_def)
  ultimately show ?thesis
    by (intro core_invI; simp only: reg2 fields)
      (simp_all add: core_new_def handles_ok_def flags_ok_def renderers_ok_def sessions_ok_def
        tokens_ok_def)
qed

lemma rpc_init_inv: "rpc_init w \<Longrightarrow> rpc_inv w"
  using core_new_inv by (auto simp: rpc_init_def rpc_inv_def calls_ok_def core_new_def)

interpretation rpc: transition_system rpc_init rpc_step rpc_inv
  by unfold_locales (auto dest: rpc_init_inv rpc_step_inv)

section \<open>Revocation\<close>

text \<open>Steps taken from states that satisfy the invariant, which all reachable ones do.\<close>

definition sound_step :: "rpc_world \<Rightarrow> rpc_world \<Rightarrow> bool" where
  "sound_step w w' \<longleftrightarrow> rpc_inv w \<and> rpc_step w w'"

lemma sound_run: "rpc_step\<^sup>*\<^sup>* w w' \<Longrightarrow> rpc_inv w \<Longrightarrow> sound_step\<^sup>*\<^sup>* w w'"
proof (induction rule: rtranclp_induct)
  case (step w' w'')
  then have "rpc_inv w'" using rpc.run_inv by blast
  with step show ?case by (auto simp: sound_step_def intro: rtranclp.rtrancl_into_rtrancl)
qed simp

text \<open>An active scope of the registry: its epoch never becomes current again.\<close>

interpretation scopes: revocable registry_step
  "\<lambda>r (_ :: scope_instance, g). g \<le> cr_next_epoch r"
  "\<lambda>r (t, g). bt_get (cr_active_scopes r) t = Some g"
proof
  fix r r' and k :: "scope_instance \<times> u64"
  assume "registry_step r r'"
  then have g: "grown_from r r'" by (rule registry_step_grown)
  show "case k of (_, g) \<Rightarrow> g \<le> cr_next_epoch r \<Longrightarrow> case k of (_, g) \<Rightarrow> g \<le> cr_next_epoch r'"
    using g by (auto simp: grown_from_def)
  show "case k of (_, g) \<Rightarrow> g \<le> cr_next_epoch r
      \<Longrightarrow> case k of (t, g) \<Rightarrow> bt_get (cr_active_scopes r') t = Some g
      \<Longrightarrow> case k of (t, g) \<Rightarrow> bt_get (cr_active_scopes r) t = Some g"
    using g by (auto simp: grown_from_def)
qed

text \<open>The document of a target, identified by its epoch.\<close>

definition document_current :: "rpc_world \<Rightarrow> string \<times> u64 \<Rightarrow> bool" where
  "document_current w d \<longleftrightarrow>
     (\<exists>x. bt_get (cs_targets (w_core w)) (fst d) = Some x \<and> tg_epoch x = snd d)"

definition document_known :: "rpc_world \<Rightarrow> string \<times> u64 \<Rightarrow> bool" where
  "document_known w d \<longleftrightarrow> snd d \<le> cr_next_epoch (cs_registry (w_core w))"

lemma document_current_iff:
  "rpc_inv w \<Longrightarrow> document_current w d \<longleftrightarrow>
     bt_get (cr_active_scopes (cs_registry (w_core w))) (TargetInst (fst d)) = Some (snd d)"
  by (auto simp: rpc_inv_def core_inv_def targets_ok_def document_current_def)

interpretation documents: revocable sound_step document_known document_current
proof
  fix w w' and d :: "string \<times> u64"
  assume step: "sound_step w w'"
  then have inv: "rpc_inv w" "rpc_inv w'"
    and reg: "registry_step\<^sup>*\<^sup>* (cs_registry (w_core w)) (cs_registry (w_core w'))"
    using rpc_step_inv by (auto simp: sound_step_def evolves_def)
  assume known: "document_known w d"
  then have k: "case (TargetInst (fst d), snd d) of (_, g) \<Rightarrow> g \<le> cr_next_epoch (cs_registry (w_core w))"
    by (simp add: document_known_def)
  show "document_known w' d"
    using scopes.known_run [OF reg k] by (simp add: document_known_def)
  show "document_current w d" if "document_current w' d"
    using scopes.current_before [OF reg k] that inv by (simp add: document_current_iff)
qed

lemma current_document_known: "rpc_inv w \<Longrightarrow> document_current w d \<Longrightarrow> document_known w d"
proof -
  assume inv: "rpc_inv w" and now: "document_current w d"
  have "registry_inv (cs_registry (w_core w))"
    using inv by (simp add: rpc_inv_def core_inv_def targets_ok_def)
  then show ?thesis
    using now scope_epoch_le unfolding document_current_iff [OF inv] document_known_def by blast
qed

text \<open>A flag that was stored stays stored, a generation that was retired stays retired.\<close>

interpretation flags: revocable sound_step "\<lambda>_ _. True" "\<lambda>w a. a \<notin> cs_cancelled (w_core w)"
proof
  fix w w' a
  assume "sound_step w w'" "a \<notin> cs_cancelled (w_core w')"
  moreover from this have "cs_cancelled (w_core w) \<subseteq> cs_cancelled (w_core w')"
    using rpc_step_inv by (auto simp: sound_step_def evolves_def)
  ultimately show "a \<notin> cs_cancelled (w_core w)" by blast
qed simp

definition generation_open :: "rpc_world \<Rightarrow> string \<times> u64 \<Rightarrow> bool" where
  "generation_open w e \<longleftrightarrow>
     (\<forall>b. bt_get (cs_blocked (w_core w)) (fst e) = Some b \<longrightarrow> b < snd e)"

interpretation generations: revocable sound_step "\<lambda>_ _. True" generation_open
proof
  fix w w' and e :: "string \<times> u64"
  assume "sound_step w w'" and now: "generation_open w' e"
  then have "\<forall>i g. bt_get (cs_blocked (w_core w)) i = Some g \<longrightarrow>
      (\<exists>g' \<ge> g. bt_get (cs_blocked (w_core w')) i = Some g')"
    by (auto simp: sound_step_def evolves_def dest: rpc_step_inv)
  with now show "generation_open w e" unfolding generation_open_def by (meson le_less_trans)
qed simp

lemma validate_cancelled:
  "a \<in> set (ln_cancellations (rt_lineage route)) \<Longrightarrow> a \<in> cs_cancelled s \<Longrightarrow>
   validate now route s = Err (HostError ''invocation_cancelled'')"
  by (auto simp: validate_def validate_lineage_def lineage_cancelled_def list_ex_iff)

section \<open>Properties of reachable states\<close>

text \<open>
  In every reachable state the tables of the managed RPC core are within their bounds,
  reservations are exactly the outstanding permits, and raw sessions are never at once
  attached and retiring.
\<close>

theorem rpc_tables_bounded:
  assumes "rpc_init w0" "rpc_step\<^sup>*\<^sup>* w0 w"
  shows "tracked_sessions (w_core w) \<le> 128 \<and> cs_reserved_attaches (w_core w) = w_permits w
    \<and> bt_len (cs_targets (w_core w)) \<le> 64 \<and> bt_len (cs_handles (w_core w)) \<le> 64
    \<and> bt_len (cs_invocations (w_core w)) \<le> 32 \<and> bt_len (cs_renderer_calls (w_core w)) \<le> 64
    \<and> (\<forall>x. bt_get (cs_raw_sessions (w_core w)) x \<noteq> None \<longrightarrow>
         bt_get (cs_retiring_sessions (w_core w)) x = None)"
  using rpc.reachable_inv [OF assms]
  by (auto simp: rpc_inv_def core_inv_def sessions_ok_def handles_ok_def targets_ok_def
      tracked_sessions_def MAX_RAW_SESSIONS_def MAX_TARGETS_def MAX_HANDLES_def
      MAX_RENDERER_INVOCATIONS_def MAX_RENDERER_CALLS_def)

text \<open>
  C12: in every reachable state a live scope handle denotes the current document of the target
  of a raw session its own Host generation holds, and its cancellation flag is not stored; a
  published renderer endpoint belongs to the current document and session of its target.
\<close>

theorem live_references_current:
  assumes "rpc_init w0" "rpc_step\<^sup>*\<^sup>* w0 w"
  shows "(\<forall>i h. bt_get (cs_handles (w_core w)) i = Some h \<longrightarrow>
       sh_cancelled h \<notin> cs_cancelled (w_core w)
       \<and> (\<exists>x r. bt_get (cs_raw_sessions (w_core w)) (sh_session_id h) = Some r
            \<and> rw_owner r = sh_owner h \<and> rw_generation r = sh_generation h
            \<and> bt_get (cs_targets (w_core w)) (rw_target_id r) = Some x
            \<and> sh_scope h = RpcTarget (rw_target_id r) (tg_epoch x)))
    \<and> (\<forall>t p e. bt_get (cs_renderers (w_core w)) (t, p) = Some e \<longrightarrow>
       ts_target_id (re_session e) = t \<and> re_plugin_id e = p
       \<and> (\<exists>x. bt_get (cs_targets (w_core w)) t = Some x
            \<and> tg_renderer_document x = Some (ts_session_id (re_session e), re_document_epoch e)))"
proof -
  have inv: "core_inv (w_core w)" using rpc.reachable_inv [OF assms] by (simp add: rpc_inv_def)
  show ?thesis
    using core_invD(2,3,4) [OF inv]
    by (simp add: handles_ok_def handle_ok_def flags_ok_def renderers_ok_def)
qed

text \<open>
  C19: a retired plugin generation never comes back. After \<open>retire_plugin\<close>, whatever is
  registered later, neither entry of the plugin is registered in that generation or an older
  one.
\<close>

theorem retired_generation_stays_out:
  assumes "rpc_init w0" "rpc_step\<^sup>*\<^sup>* w0 w"
    and "rpc_step\<^sup>*\<^sup>* (w\<lparr>w_core := retire_plugin i g (w_core w)\<rparr>) w'"
    and "entry \<in> {i, host_provider_id i}" "entry \<noteq> BUILTIN_HOST_PROVIDER_ID"
    and "provider_generation (cs_registry (w_core w')) entry = Some current"
  shows "g < current"
proof -
  let ?w = "w\<lparr>w_core := retire_plugin i g (w_core w)\<rparr>"
  have "rpc_inv w" using rpc.reachable_inv [OF assms(1,2)] .
  moreover have "rpc_step w ?w" by (rule rpc_step.core) (rule core_step.retire)
  ultimately have inv: "rpc_inv ?w" using rpc_step_inv by blast
  have "\<not> generation_open ?w (entry, g)"
    using assms(4)
    by (auto simp: generation_open_def retire_plugin_def retire_entry_def Let_def not_less
        split: option.splits)
  then have closed: "\<not> generation_open w' (entry, g)"
    using generations.stale_forever [OF _ rtranclp.rtrancl_refl _ sound_run [OF assms(3) inv]] by blast
  have "rpc_inv w'" using assms(3) inv by (rule rpc.run_inv)
  then have "entries_ok (cs_registry (w_core w')) (cs_declarations (w_core w')) (cs_blocked (w_core w'))"
    by (simp add: rpc_inv_def core_inv_def)
  moreover obtain x where x: "bt_get (cr_registrations (cs_registry (w_core w'))) entry = Some x"
    "current = pr_generation x"
    using assms(6) by (auto simp: provider_generation_def)
  moreover obtain b where "bt_get (cs_blocked (w_core w')) entry = Some b" "g \<le> b"
    using closed by (auto simp: generation_open_def not_less)
  ultimately have "b < current" using assms(5) unfolding entries_ok_def by blast
  with \<open>g \<le> b\<close> show ?thesis by simp
qed

text \<open>
  C6: a route never outlives its document. Once the document a route was scoped to has ended
  (navigation, detach, destruction or republication), the route is refused in every later
  state, even if the same target identifier is live again.
\<close>

theorem ended_document_refused:
  assumes "rpc_init w0" "rpc_step\<^sup>*\<^sup>* w0 w" "rpc_step\<^sup>*\<^sup>* w w'" "rpc_step\<^sup>*\<^sup>* w' w''"
    and "ln_scope (rt_lineage route) = RpcTarget t e"
    and "document_current w (t, e)" "\<not> document_current w' (t, e)"
  shows "validate now route (w_core w'') \<noteq> Ok ()"
proof -
  have inv: "rpc_inv w" using rpc.reachable_inv [OF assms(1,2)] .
  then have inv': "rpc_inv w'" using assms(3) rpc.run_inv by blast
  have "document_known w (t, e)" using inv assms(6) by (rule current_document_known)
  then have "\<not> document_current w'' (t, e)"
    using documents.stale_forever sound_run assms(3,4,7) inv inv' by blast
  then show ?thesis
    using assms(5)
    by (auto simp: validate_def validate_lineage_def document_current_def split: option.splits)
qed

text \<open>
  C29: a scope handle that is gone cancels what was called through it. Whenever a handle is no
  longer in the table, because it was closed, its session ended or its document changed, every
  route that carries its flag is refused as cancelled, now and in every later state.
\<close>

theorem vanished_handle_cancels:
  assumes "rpc_init w0" "rpc_step\<^sup>*\<^sup>* w0 w" "rpc_step\<^sup>*\<^sup>* w w'" "rpc_step\<^sup>*\<^sup>* w' w''"
    and "bt_get (cs_handles (w_core w)) i = Some h" "bt_get (cs_handles (w_core w')) i \<noteq> Some h"
    and "sh_cancelled h \<in> set (ln_cancellations (rt_lineage route))"
  shows "validate now route (w_core w'') = Err (HostError ''invocation_cancelled'')"
proof -
  have inv: "rpc_inv w" using rpc.reachable_inv [OF assms(1,2)] .
  have "evolves (w_core w) (w_core w')"
    using assms(3) inv
  proof (induction rule: rtranclp_induct)
    case (step a b)
    then have "rpc_inv a" using rpc.run_inv by blast
    with step rpc_step_inv show ?case by (blast intro: evolves_trans)
  qed simp
  then have "sh_cancelled h \<in> cs_cancelled (w_core w')"
    using assms(5,6) by (auto simp: evolves_def)
  moreover have "rpc_inv w'" using assms(3) inv by (rule rpc.run_inv)
  ultimately have "sh_cancelled h \<in> cs_cancelled (w_core w'')"
    using flags.stale_forever [OF _ rtranclp.rtrancl_refl _ sound_run [OF assms(4)]] by blast
  with assms(7) show ?thesis by (rule validate_cancelled)
qed

section \<open>Routes\<close>

lemma invoke_endpoint_OkD:
  assumes "invoke_endpoint r p l f = Ok v"
  shows "v = f (l_provider_id l) (l_requirement l)" "principal_is_current r p"
    "lease_is_current r l" "is_owned_by l p"
  using assms by (auto simp: invoke_endpoint_def split: if_splits)

lemma resolve_OkE:
  assumes inv: "registry_inv (cs_registry s)"
    and ok: "resolve now s consumer caller g d l = Ok route"
  obtains x y where "validate now route s = Ok ()" "rt_lineage route = l" "rt_capability route = d"
    "cc_plugin_id (rt_caller route) = caller" "cc_generation (rt_caller route) = g"
    "bt_get (cr_registrations (cs_registry s)) consumer = Some x" "pr_generation x = g"
    "d \<in> set (pr_requires x)"
    "bt_get (cr_registrations (cs_registry s)) (rt_provider_id route) = Some y"
    "pr_generation y = rt_generation route" "d \<in> set (pr_provides y)"
proof -
  let ?r = "cs_registry s"
  from ok obtain principal lease provider generation where
    lin: "validate_lineage now s l = Ok ()"
    and principal: "issue_principal ?r consumer g (rpc_instance (ln_scope l)) = Ok principal"
    and lease: "resolve_capability ?r principal d = Ok lease"
    and provider: "invoke_endpoint ?r principal lease (\<lambda>provider _. provider) = Ok provider"
    and gen: "provider_generation ?r provider = Some generation"
    and route: "rt_principal route = principal" "rt_lease route = lease"
      "rt_provider_id route = provider" "rt_generation route = generation"
      "rt_capability route = d" "rt_lineage route = l"
      "cc_plugin_id (rt_caller route) = caller" "cc_generation (rt_caller route) = g"
    by (auto simp: resolve_def and_then_ok map_err_ok split: option.splits)
  note p = issue_principal_OkD [OF principal]
  note inv_ok = invoke_endpoint_OkD [OF provider]
  from inv lease show ?thesis
  proof (rule resolve_capability_OkE)
    fix x rec h y
    assume x: "bt_get (cr_registrations ?r) (p_consumer_id principal) = Some x" "d \<in> set (pr_requires x)"
      and y: "bt_get (cr_registrations ?r) (rec_provider_id rec) = Some y" "d \<in> set (pr_provides y)"
      and l: "lease = \<lparr>l_registry_id = cr_registry_id ?r, l_owner_consumer_id = p_consumer_id principal,
          l_owner_consumer_generation = p_consumer_generation principal,
          l_owner_consumer_registration = p_consumer_registration principal,
          l_owner_scope = p_scope principal, l_owner_scope_generation = p_scope_generation principal,
          l_provider_scope = (if cd_scope d = Runtime then RuntimeInst else p_scope principal),
          l_provider_scope_generation = h, l_provider_id = rec_provider_id rec,
          l_provider_generation = rec_provider_generation rec,
          l_provider_registration = rec_registration_epoch rec, l_requirement = d\<rparr>"
    have "pr_generation x = g"
      using p(1) x(1) p(4) by (rule_tac principal_is_currentE [OF p(1)]) simp
    moreover have "provider = rec_provider_id rec" using inv_ok(1) l by simp
    moreover have "validate now route s = Ok ()"
      using lin inv_ok route by (simp add: validate_def invoke_def)
    ultimately show ?thesis
      using x y route gen p(2) that by (simp add: provider_generation_def)
  qed
qed

lemma child_depth_greater:
  "\<not> MAX_RPC_DEPTH < child_depth (Some p) \<Longrightarrow> ln_depth p < child_depth (Some p)"
proof -
  assume "\<not> MAX_RPC_DEPTH < child_depth (Some p)"
  then have "ln_depth p \<noteq> - 1" by (auto simp: child_depth_def saturating_succ_def MAX_RPC_DEPTH_def)
  then show ?thesis
    using less_succ_word [of "ln_depth p" "ln_depth p"] by (simp add: child_depth_def saturating_succ_def)
qed

text \<open>
  A route of a Host call is confined. It is valid when it is handed out; its caller is
  registered in the caller's generation and declared the capability, its provider is
  registered in the recorded generation and provides it; a nested call is strictly deeper but
  at most eight deep, keeps its parent's deadline and every cancellation of its parent; and a
  call through a handle uses a live handle of the caller's own generation and its scope.
\<close>

theorem host_route_confined:
  assumes "core_inv s" "resolve_host now plugin d handle parent deadline s = Ok route"
  shows "validate now route s = Ok () \<and> rt_capability route = d
    \<and> cc_plugin_id (rt_caller route) = pm_id (lp_manifest plugin)
    \<and> cc_generation (rt_caller route) = lp_generation plugin
    \<and> (\<exists>x y. bt_get (cr_registrations (cs_registry s)) (host_provider_id (pm_id (lp_manifest plugin))) = Some x
         \<and> pr_generation x = lp_generation plugin \<and> d \<in> set (pr_requires x)
         \<and> bt_get (cr_registrations (cs_registry s)) (rt_provider_id route) = Some y
         \<and> pr_generation y = rt_generation route \<and> d \<in> set (pr_provides y))
    \<and> ln_depth (rt_lineage route) \<le> 8
    \<and> (\<forall>p. parent = Some p \<longrightarrow> ln_depth p < ln_depth (rt_lineage route)
         \<and> ln_deadline (rt_lineage route) \<le> ln_deadline p
         \<and> set (ln_cancellations p) \<subseteq> set (ln_cancellations (rt_lineage route)))
    \<and> (\<forall>i. handle = Some i \<longrightarrow> (\<exists>h. bt_get (cs_handles s) i = Some h
         \<and> sh_owner h = pm_id (lp_manifest plugin) \<and> sh_generation h = lp_generation plugin
         \<and> ln_scope (rt_lineage route) = sh_scope h
         \<and> sh_cancelled h \<in> set (ln_cancellations (rt_lineage route))))"
proof -
  have inv: "registry_inv (cs_registry s)" using assms(1) by (simp add: core_inv_def targets_ok_def)
  obtain scope cancellations where
    scope: "host_call_scope plugin d handle parent s = Ok (scope, cancellations)"
    and depth: "\<not> MAX_RPC_DEPTH < child_depth parent"
    and route: "resolve now s (host_provider_id (pm_id (lp_manifest plugin)))
        (pm_id (lp_manifest plugin)) (lp_generation plugin) d
        \<lparr>ln_scope = scope, ln_deadline = child_deadline parent deadline,
         ln_depth = child_depth parent, ln_cancellations = cancellations\<rparr> = Ok route"
    using assms(2) by (auto simp: resolve_host_def and_then_ok split: if_splits)
  have canc: "set (parent_cancellations parent) \<subseteq> set cancellations"
    using scope by (auto simp: host_call_scope_def parent_cancellations_def split: option.splits if_splits)
  have hd: "\<forall>i. handle = Some i \<longrightarrow> (\<exists>h. bt_get (cs_handles s) i = Some h
      \<and> sh_owner h = pm_id (lp_manifest plugin) \<and> sh_generation h = lp_generation plugin
      \<and> scope = sh_scope h \<and> sh_cancelled h \<in> set cancellations)"
    using scope by (auto simp: host_call_scope_def split: option.splits if_splits)
  have deeper: "\<forall>p. parent = Some p \<longrightarrow> ln_depth p < child_depth parent"
    using depth child_depth_greater by blast
  from inv route show ?thesis
  proof (rule resolve_OkE)
    fix x y
    assume r: "validate now route s = Ok ()" "rt_capability route = d"
      "rt_lineage route = \<lparr>ln_scope = scope, ln_deadline = child_deadline parent deadline,
         ln_depth = child_depth parent, ln_cancellations = cancellations\<rparr>"
      "cc_plugin_id (rt_caller route) = pm_id (lp_manifest plugin)"
      "cc_generation (rt_caller route) = lp_generation plugin"
      and x: "bt_get (cr_registrations (cs_registry s)) (host_provider_id (pm_id (lp_manifest plugin))) = Some x"
        "pr_generation x = lp_generation plugin" "d \<in> set (pr_requires x)"
      and y: "bt_get (cr_registrations (cs_registry s)) (rt_provider_id route) = Some y"
        "pr_generation y = rt_generation route" "d \<in> set (pr_provides y)"
    have "child_depth parent \<le> 8" using depth by (simp add: MAX_RPC_DEPTH_def not_less)
    moreover have "\<forall>p. parent = Some p \<longrightarrow> child_deadline parent deadline \<le> ln_deadline p"
      by (auto simp: child_deadline_def)
    moreover have "\<forall>p. parent = Some p \<longrightarrow> set (ln_cancellations p) \<subseteq> set cancellations"
      using canc by (auto simp: parent_cancellations_def)
    ultimately show ?thesis using r x y hd deeper by simp
  qed
qed

section \<open>A run\<close>

text \<open>
  A Host plugin registers, attaches to a target, takes a scope handle and resolves a call
  through it; then it closes the handle, or the target navigates, or the plugin is retired.
\<close>

definition ping :: capability_descriptor where
  "ping = \<lparr>cd_name = CapabilityName ''codlet.runtime.ping'', cd_api = ApiVersion 1, cd_scope = Target\<rparr>"

definition demo_tool :: loaded_plugin where
  "demo_tool =
     \<lparr>lp_authorization = None,
      lp_manifest = demo_manifest\<lparr>pm_renderer := None, pm_requires := [ping]\<rparr>,
      lp_source = None, lp_host = None, lp_generation = 1\<rparr>"

definition world :: "core_state \<Rightarrow> rpc_world" where
  "world s = \<lparr>w_core = s, w_permits = 0, w_calls = []\<rparr>"

definition demo_s1 :: core_state where
  "demo_s1 = snd (register_plugins [demo_tool] (core_new 1))"

definition demo_s2 :: core_state where
  "demo_s2 = snd (reserve_raw_attach demo_s1)"

definition demo_s3 :: core_state where
  "demo_s3 = snd (track_raw_attach ''dev.tool'' 1 ''t1'' ''s1'' demo_s2)"

definition demo_s4 :: core_state where
  "demo_s4 = snd (issue_handle ''dev.tool'' 1 ''s1'' ''f1'' demo_s3)"

definition demo_handle :: scope_handle where
  "demo_handle = \<lparr>sh_owner = ''dev.tool'', sh_generation = 1, sh_session_id = ''s1'',
     sh_scope = RpcTarget ''t1'' 4, sh_cancelled = 0\<rparr>"

definition demo_closed :: core_state where
  "demo_closed = snd (close_handle ''dev.tool'' 1 ''scope-1'' demo_s4)"

definition navigation :: cdp_event where
  "navigation = \<lparr>ev_method = ''Page.frameNavigated'',
     ev_params = Some (JObject [(''frame'', JObject [(''id'', JString ''f1'')])]),
     ev_session_id = Some ''s1''\<rparr>"

definition demo_navigated :: core_state where
  "demo_navigated = snd (observe navigation demo_s4)"

definition demo_route :: rpc_route where
  "demo_route = (case resolve_host 0 demo_tool ping (Some ''scope-1'') None 100 demo_s4 of Ok r \<Rightarrow> r)"

lemma demo_outcomes:
  "fst (register_plugins [demo_tool] (core_new 1)) = Ok ()"
  "fst (reserve_raw_attach demo_s1) = Ok ()"
  "fst (issue_handle ''dev.tool'' 1 ''s1'' ''f1'' demo_s3) = Ok ''scope-1''"
  "fst (observe navigation demo_s4) = Ok ()"
  by code_simp+

lemma demo_facts:
  "bt_get (cs_handles demo_s4) ''scope-1'' = Some demo_handle"
  "bt_get (cs_handles demo_closed) ''scope-1'' = None"
  "map_option tg_epoch (bt_get (cs_targets demo_s4) ''t1'') = Some 4"
  "map_option tg_epoch (bt_get (cs_targets demo_navigated) ''t1'') = Some 5"
  "ln_scope (rt_lineage demo_route) = RpcTarget ''t1'' 4"
  "ln_cancellations (rt_lineage demo_route) = [0]"
  by code_simp+

lemma demo_resolves: "resolve_host 0 demo_tool ping (Some ''scope-1'') None 100 demo_s4 = Ok demo_route"
proof -
  have "is_ok (resolve_host 0 demo_tool ping (Some ''scope-1'') None 100 demo_s4)" by code_simp
  then show ?thesis by (auto simp: is_ok_iff demo_route_def)
qed

lemma demo_init: "rpc_init (world (core_new 1))"
  by (auto simp: rpc_init_def world_def)

lemma demo_run: "rpc_step\<^sup>*\<^sup>* (world (core_new 1)) (world demo_s4)"
proof -
  let ?w2 = "\<lparr>w_core = demo_s2, w_permits = 1, w_calls = []\<rparr>"
  have "core_step (core_new 1) demo_s1"
    by (rule core_step.register [of "[demo_tool]" _ "Ok ()"])
      (use demo_outcomes(1) in \<open>auto simp: demo_s1_def prod_eq_iff\<close>)
  then have 1: "rpc_step (world (core_new 1)) (world demo_s1)"
    using rpc_step.core [of "world (core_new 1)" demo_s1] by (simp add: world_def)
  have 2: "rpc_step (world demo_s1) ?w2"
    using rpc_step.reserve [of "world demo_s1" demo_s2] demo_outcomes(2)
    by (simp add: world_def demo_s2_def prod_eq_iff)
  have 3: "rpc_step ?w2 (world demo_s3)"
    using rpc_step.track [of ?w2 0 "''dev.tool''" 1 "''t1''" "''s1''"
        "fst (track_raw_attach ''dev.tool'' 1 ''t1'' ''s1'' demo_s2)" demo_s3]
    by (simp add: world_def demo_s3_def prod_eq_iff)
  have "core_step demo_s3 demo_s4"
    by (rule core_step.handle [of "''dev.tool''" 1 "''s1''" "''f1''" _ "Ok ''scope-1''"])
      (use demo_outcomes(3) in \<open>auto simp: demo_s4_def prod_eq_iff\<close>)
  then have 4: "rpc_step (world demo_s3) (world demo_s4)"
    using rpc_step.core [of "world demo_s3" demo_s4] by (simp add: world_def)
  from 1 2 3 4 show ?thesis by (meson rtranclp.rtrancl_into_rtrancl rtranclp.rtrancl_refl)
qed

lemma demo_close_run: "rpc_step\<^sup>*\<^sup>* (world demo_s4) (world demo_closed)"
proof -
  have "core_step demo_s4 demo_closed"
    by (rule core_step.close [of "''dev.tool''" 1 "''scope-1''" _
          "fst (close_handle ''dev.tool'' 1 ''scope-1'' demo_s4)"])
      (simp add: demo_closed_def)
  then show ?thesis
    using rpc_step.core [of "world demo_s4" demo_closed] by (simp add: world_def r_into_rtranclp)
qed

lemma demo_navigate_run: "rpc_step\<^sup>*\<^sup>* (world demo_s4) (world demo_navigated)"
proof -
  have "core_step demo_s4 demo_navigated"
    by (rule core_step.event [of navigation])
      (use demo_outcomes(4) in \<open>simp add: demo_navigated_def prod_eq_iff\<close>)
  then show ?thesis
    using rpc_step.core [of "world demo_s4" demo_navigated] by (simp add: world_def r_into_rtranclp)
qed

lemma demo_inv: "core_inv demo_s4"
  using rpc.reachable_inv [OF demo_init demo_run] by (simp add: rpc_inv_def world_def)

theorem rpc_tables_bounded_witness:
  "rpc_init (world (core_new 1)) \<and> rpc_step\<^sup>*\<^sup>* (world (core_new 1)) (world demo_s4)
   \<and> tracked_sessions demo_s4 \<le> 128"
  using rpc_tables_bounded [OF demo_init demo_run] demo_init demo_run by (simp add: world_def)

theorem live_references_current_witness:
  "bt_get (cs_handles demo_s4) ''scope-1'' = Some demo_handle
   \<and> sh_cancelled demo_handle \<notin> cs_cancelled demo_s4"
  using live_references_current [OF demo_init demo_run] demo_facts(1) by (simp add: world_def)

theorem retired_generation_stays_out_witness:
  "rpc_step\<^sup>*\<^sup>* (world (core_new 1)) (world demo_s4)
   \<and> provider_generation (cs_registry (retire_plugin ''dev.tool'' 0 demo_s4)) ''dev.tool:host'' = Some 1
   \<and> (0 :: u64) < 1"
proof -
  have g: "provider_generation (cs_registry (retire_plugin ''dev.tool'' 0 demo_s4)) ''dev.tool:host'' = Some 1"
    by code_simp
  have "(0 :: u64) < 1"
    by (rule retired_generation_stays_out [OF demo_init demo_run, of "''dev.tool''" 0
          "world (retire_plugin ''dev.tool'' 0 demo_s4)" "''dev.tool:host''"])
      (use g in \<open>simp_all add: world_def host_provider_id_def HOST_PROVIDER_SUFFIX_def
        BUILTIN_HOST_PROVIDER_ID_def\<close>)
  with g demo_run show ?thesis by blast
qed

theorem ended_document_refused_witness:
  "rpc_step\<^sup>*\<^sup>* (world demo_s4) (world demo_navigated)
   \<and> validate 0 demo_route demo_navigated \<noteq> Ok ()"
proof -
  have "document_current (world demo_s4) (''t1'', 4)" "\<not> document_current (world demo_navigated) (''t1'', 4)"
    using demo_facts(3,4) by (auto simp: document_current_def world_def)
  from ended_document_refused [OF demo_init demo_run demo_navigate_run rtranclp.rtrancl_refl
      demo_facts(5) this, of 0]
  show ?thesis using demo_navigate_run by (simp add: world_def)
qed

theorem vanished_handle_cancels_witness:
  "rpc_step\<^sup>*\<^sup>* (world demo_s4) (world demo_closed)
   \<and> validate 0 demo_route demo_closed = Err (HostError ''invocation_cancelled'')"
  using vanished_handle_cancels [OF demo_init demo_run demo_close_run rtranclp.rtrancl_refl,
      of "''scope-1''" demo_handle demo_route 0] demo_facts demo_close_run
  by (simp add: world_def demo_handle_def)

theorem host_route_confined_witness:
  "core_inv demo_s4 \<and> resolve_host 0 demo_tool ping (Some ''scope-1'') None 100 demo_s4 = Ok demo_route
   \<and> validate 0 demo_route demo_s4 = Ok ()"
  using host_route_confined [OF demo_inv demo_resolves] demo_inv demo_resolves by blast

section \<open>A replacement that fails\<close>

text \<open>
  Replacing an entry is not atomic. When the registry refuses the new declaration of an
  entry, the entry is no longer registered but its old declaration is still recorded, so
  declaring the old package again is accepted and registers nothing.
\<close>

theorem failed_replacement_unregisters:
  assumes "core_inv s" "bt_get (cs_declarations s) i = Some d"
    and "register_entry g grants (i, provides, requires) s = (Err (DependencyConflict e), s')"
  shows "provider_generation (cs_registry s') i = None \<and> cs_declarations s' = cs_declarations s
    \<and> register_entry (dc_generation d) (dc_grants d) (i, dc_provides d, dc_requires d) s' = (Ok (), s')"
proof -
  have inv: "registry_inv (cs_registry s)" using assms(1) by (simp add: core_inv_def targets_ok_def)
  from assms(3) show ?thesis
  proof (cases rule: register_entry_cases)
    case (3 r1 u)
    have "bt_get (cr_registrations r1) i = None" using unregister_keeps(3) [OF 3(1) inv] .
    moreover have "register_entry (dc_generation d) (dc_grants d) (i, dc_provides d, dc_requires d) s' = (Ok (), s')"
      using assms(2) 3(2) by (cases d) (simp add: register_entry_def Let_def split: option.split)
    ultimately show ?thesis using 3(2) by (simp add: provider_generation_def)
  qed auto
qed

definition renderer_package :: "string \<Rightarrow> u64 \<Rightarrow> string \<Rightarrow> loaded_plugin" where
  "renderer_package i g capability =
     \<lparr>lp_authorization = None,
      lp_manifest = demo_manifest\<lparr>pm_id := i, pm_host := None, pm_provides :=
        [\<lparr>cd_name = CapabilityName capability, cd_api = ApiVersion 1, cd_scope = Target\<rparr>]\<rparr>,
      lp_source = None, lp_host = None, lp_generation = g\<rparr>"

definition demo_pair :: core_state where
  "demo_pair = snd (register_plugins
     [renderer_package ''dev.a'' 1 ''dev.x'', renderer_package ''dev.b'' 1 ''dev.y''] (core_new 1))"

definition demo_entry :: "u64 \<Rightarrow> string \<Rightarrow> core_state \<Rightarrow> unit op_result" where
  "demo_entry g capability s = register_entry g [''ui.dom'', ''host.process'']
     (''dev.a'', [\<lparr>cd_name = CapabilityName capability, cd_api = ApiVersion 1, cd_scope = Target\<rparr>], []) s"

theorem failed_replacement_unregisters_witness:
  "provider_generation (cs_registry demo_pair) ''dev.a'' = Some 1
   \<and> provider_generation (cs_registry (snd (demo_entry 2 ''dev.y'' demo_pair))) ''dev.a'' = None
   \<and> fst (demo_entry 1 ''dev.x'' (snd (demo_entry 2 ''dev.y'' demo_pair))) = Ok ()"
proof -
  let ?d = "\<lparr>dc_generation = 1, dc_provides =
      [\<lparr>cd_name = CapabilityName ''dev.x'', cd_api = ApiVersion 1, cd_scope = Target\<rparr>],
    dc_requires = [], dc_grants = [''ui.dom'', ''host.process'']\<rparr>"
  let ?e = "CapabilityConflict (CapabilityName ''dev.y'') Target ''dev.b'' ''dev.a''"
  have run: "fst (register_plugins [renderer_package ''dev.a'' 1 ''dev.x'',
      renderer_package ''dev.b'' 1 ''dev.y''] (core_new 1)) = Ok ()"
    and now: "provider_generation (cs_registry demo_pair) ''dev.a'' = Some 1"
    and d: "bt_get (cs_declarations demo_pair) ''dev.a'' = Some ?d"
    and err: "fst (demo_entry 2 ''dev.y'' demo_pair) = Err (DependencyConflict ?e)"
    by code_simp+
  have "register_plugins [renderer_package ''dev.a'' 1 ''dev.x'', renderer_package ''dev.b'' 1 ''dev.y'']
      (core_new 1) = (Ok (), demo_pair)"
    unfolding demo_pair_def using run by (metis prod.collapse)
  from register_plugins_good [OF this] have "core_inv demo_pair"
    using core_new_inv by (simp add: good_def)
  moreover have "demo_entry 2 ''dev.y'' demo_pair
      = (Err (DependencyConflict ?e), snd (demo_entry 2 ''dev.y'' demo_pair))"
    using err by (simp add: prod_eq_iff)
  ultimately show ?thesis
    using failed_replacement_unregisters [OF _ d, of 2 "[''ui.dom'', ''host.process'']"
        "[\<lparr>cd_name = CapabilityName ''dev.y'', cd_api = ApiVersion 1, cd_scope = Target\<rparr>]" "[]" ?e
        "snd (demo_entry 2 ''dev.y'' demo_pair)"] now
    by (simp add: demo_entry_def)
qed

end
