(* ===== verification/Registry_Store.thy ===== *)
theory Registry_Store
  imports Manifest Json_Value
begin

text \<open>
  The plugin registry on disk (\<open>PluginRegistry\<close> of \<open>src/src/plugins.rs\<close>) and the managed
  version records it stores (\<open>src/src/managed_plugins.rs\<close>): the document with its validation,
  a snapshot of it with staged edits, and \<open>save\<close>, which merges the staged edits into the
  latest document under a lock.

  The file system is a map from paths to contents, and what the operating system answers to
  each call of \<open>save\<close> is an argument (\<open>save_env\<close>). \<open>serde_json\<close> is an argument (\<open>codec\<close>): it
  gives the entries of an object in document order, duplicates included.
\<close>

section \<open>Managed records\<close>

record github_source =
  gs_repository_url :: string
  gs_owner :: string
  gs_repository :: string
  gs_release_id :: u64
  gs_tag :: string
  gs_asset_id :: u64
  gs_asset_name :: string
  gs_asset_url :: string
  gs_asset_size :: u64
  gs_sha256 :: string
  gs_upstream_digest_verified :: bool
  gs_repository_id :: "u64 option"
  gs_owner_id :: "u64 option"
  gs_release_published_at :: "string option"

record package_metadata =
  md_schema :: u32
  md_runtime_api :: "u32 option"
  md_platforms :: "string list option"
  md_author :: "string option"
  md_adapters :: "json option"

record managed_version =
  mv_version_key :: string
  mv_package_path :: string
  mv_content_digest :: string
  mv_source :: github_source
  mv_manifest :: plugin_manifest
  mv_metadata :: "package_metadata option"

record managed_record =
  mr_current_version :: "string option"
  mr_history :: "managed_version list"

text \<open>The derived \<open>PartialEq\<close>: paths compare by components.\<close>

definition version_eq :: "managed_version \<Rightarrow> managed_version \<Rightarrow> bool" where
  "version_eq a b =
     (mv_version_key a = mv_version_key b \<and> path_eq (mv_package_path a) (mv_package_path b)
      \<and> mv_content_digest a = mv_content_digest b \<and> mv_source a = mv_source b
      \<and> mv_manifest a = mv_manifest b \<and> mv_metadata a = mv_metadata b)"

definition managed_eq :: "managed_record \<Rightarrow> managed_record \<Rightarrow> bool" where
  "managed_eq a b =
     (mr_current_version a = mr_current_version b
      \<and> list_all2 version_eq (mr_history a) (mr_history b))"

definition MAX_HISTORY :: nat where
  "MAX_HISTORY = 64"

definition managed_current :: "managed_record \<Rightarrow> managed_version option" where
  "managed_current r =
     Option.bind (mr_current_version r)
       (\<lambda>key. find (\<lambda>v. mv_version_key v = key) (mr_history r))"

definition valid_digest :: "string \<Rightarrow> bool" where
  "valid_digest s =
     (length s = 64 \<and> list_all (\<lambda>b. ascii_digit b \<or> (97 \<le> byte b \<and> byte b \<le> 102)) s)"

datatype managed_error =
    BadHistoryLength | BadVersion | ManifestText string | ManifestRejected manifest_error
  | UnknownCurrent | CurrentPathMismatch

section \<open>The document\<close>

record plugin_preference =
  pf_enabled :: bool

record registry_document =
  rd_schema :: u32
  rd_plugins :: "(string, plugin_preference) btree"
  rd_local :: "(string, local_registration) btree"
  rd_managed :: "(string, managed_record) btree"

text \<open>What the JSON parser gives: the entries of each object in document order.\<close>

record raw_registry =
  rx_schema :: u32
  rx_plugins :: "(string \<times> plugin_preference) list"
  rx_local :: "(string \<times> local_registration) list option"
  rx_managed :: "(string \<times> managed_record) list"

text \<open>\<open>RegistryInput\<close>, after the field deserializers.\<close>

record registry_input =
  ri_schema :: u32
  ri_plugins :: "(string, plugin_preference) btree"
  ri_local :: "(string, local_registration) btree option"
  ri_managed :: "(string, managed_record) btree"

record codec =
  cx_url :: "string \<Rightarrow> parsed_url option"
  cx_tables :: unicode_tables
  cx_manifest_to :: "plugin_manifest \<Rightarrow> (string, string) outcome"
  cx_manifest_from :: "string \<Rightarrow> (string, plugin_manifest) outcome"
  cx_from :: "string \<Rightarrow> (string, raw_registry) outcome"
  cx_to :: "registry_document \<Rightarrow> (string, string) outcome"

definition REGISTRY_SCHEMA :: u32 where
  "REGISTRY_SCHEMA = 2"

definition GUI_PLUGIN_ID :: string where
  "GUI_PLUGIN_ID = ''codlet-gui''"

definition LEGACY_GUI_PLUGIN_ID :: string where
  "LEGACY_GUI_PLUGIN_ID = ''codlet''"

definition MAX_REGISTRY_BYTES :: nat where
  "MAX_REGISTRY_BYTES = 1048576"

text \<open>Durations are in nanoseconds.\<close>

definition REGISTRY_LOCK_TIMEOUT :: nat where
  "REGISTRY_LOCK_TIMEOUT = 2000000000"

definition REGISTRY_LOCK_POLL :: nat where
  "REGISTRY_LOCK_POLL = 10000000"

definition TEMP_FILE_ATTEMPTS :: nat where
  "TEMP_FILE_ATTEMPTS = 128"

text \<open>
  Errors. \<open>LocalEdit\<close> is what \<open>local_error\<close> builds, with the reason as a constructor.
  \<open>CreateParent\<close> is the failed creation of the parent directory, given by its components.
\<close>

datatype io_kind = NotFound | AlreadyExists | InvalidInput | InvalidData | OtherKind

datatype io_error = IoError (io_kind: io_kind) string

datatype local_problem =
    InvalidRegistration | InvalidManaged managed_error | OtherPath | PathTaken
  | NotRegistered | ReservedId | ManagedChanged | RegistrationRemoved | IdTaken
  | PathChanged | GrantsChanged | PolicyChanged

datatype json_problem =
    Malformed string | BadField | Schema1Local | Schema2NoLocal
  | BadManaged string managed_error | BadLocal string local_problem
  | DuplicatePaths string string | HomeNotAbsolute

datatype plugin_registry_error =
    LocalAppDataUnavailable
  | MissingParent string
  | CreateParent "path_component list" io_error
  | RegistryIo string string io_error
  | LocalEdit string string io_kind local_problem
  | RegistryJson string json_problem
  | TooLarge string
  | BadSchema u32
  | BadPluginId string
  | Busy string
  | TemporaryCleanup plugin_registry_error string io_error

section \<open>Validation\<close>

fun validate_versions ::
    "codec \<Rightarrow> string \<Rightarrow> managed_version list \<Rightarrow> managed_version list
     \<Rightarrow> (managed_error, unit) outcome" where
  "validate_versions c i earlier [] = Ok ()"
| "validate_versions c i earlier (v # vs) =
     (if pm_id (mv_manifest v) \<noteq> i \<or> \<not> path_is_absolute (mv_package_path v)
        \<or> \<not> valid_digest (mv_version_key v) \<or> \<not> valid_digest (mv_content_digest v)
        \<or> \<not> valid_digest (gs_sha256 (mv_source v))
        \<or> list_ex (\<lambda>p. mv_version_key p = mv_version_key v) earlier
      then Err BadVersion
      else case cx_manifest_to c (mv_manifest v) of
        Err e \<Rightarrow> Err (ManifestText e)
      | Panic \<Rightarrow> Panic
      | Ok text \<Rightarrow>
          (case manifest_parse (cx_manifest_from c) (cx_tables c) text of
             Err e \<Rightarrow> Err (ManifestRejected e)
           | Panic \<Rightarrow> Panic
           | Ok _ \<Rightarrow> validate_versions c i (earlier @ [v]) vs))"

definition managed_validate ::
    "codec \<Rightarrow> string \<Rightarrow> local_registration option \<Rightarrow> managed_record
     \<Rightarrow> (managed_error, unit) outcome" where
  "managed_validate c i registration r =
     (if mr_history r = [] \<or> MAX_HISTORY < length (mr_history r) then Err BadHistoryLength
      else case validate_versions c i [] (mr_history r) of
        Ok _ \<Rightarrow>
          (if mr_current_version r = None then Ok ()
           else case managed_current r of
             None \<Rightarrow> Err UnknownCurrent
           | Some v \<Rightarrow>
               (case registration of
                  None \<Rightarrow> Err CurrentPathMismatch
                | Some l \<Rightarrow> if path_eq (lr_path l) (mv_package_path v) then Ok ()
                            else Err CurrentPathMismatch))
      | e \<Rightarrow> e)"

definition reserved_plugin_id :: "string \<Rightarrow> bool" where
  "reserved_plugin_id i = (i = LEGACY_GUI_PLUGIN_ID \<or> i = ''codlet.core.host'')"

definition canonical_plugin_id :: "string \<Rightarrow> string" where
  "canonical_plugin_id i = (if i = LEGACY_GUI_PLUGIN_ID then GUI_PLUGIN_ID else i)"

fun validate_managed_entries ::
    "codec \<Rightarrow> string \<Rightarrow> (string, local_registration) btree \<Rightarrow> (string \<times> managed_record) list
     \<Rightarrow> (plugin_registry_error, unit) outcome" where
  "validate_managed_entries c path local [] = Ok ()"
| "validate_managed_entries c path local ((i, r) # es) =
     (if \<not> valid_plugin_id i \<or> reserved_plugin_id i then Err (BadPluginId i)
      else case managed_validate c i (bt_get local i) r of
        Err e \<Rightarrow> Err (RegistryJson path (BadManaged i e))
      | Panic \<Rightarrow> Panic
      | Ok _ \<Rightarrow> validate_managed_entries c path local es)"

text \<open>The ordered map from paths to ids is the list of the entries seen before.\<close>

fun validate_local_entries ::
    "codec \<Rightarrow> string \<Rightarrow> (string \<times> string) list \<Rightarrow> (string \<times> local_registration) list
     \<Rightarrow> (plugin_registry_error, unit) outcome" where
  "validate_local_entries c path seen [] = Ok ()"
| "validate_local_entries c path seen ((i, r) # es) =
     (if \<not> valid_plugin_id i then Err (BadPluginId i)
      else if reserved_plugin_id i then Err (RegistryJson path (BadLocal i ReservedId))
      else if \<not> validate_local_registration (cx_url c) r
      then Err (RegistryJson path (BadLocal i InvalidRegistration))
      else case find (\<lambda>(p, _). path_eq p (lr_path r)) seen of
        Some (_, previous) \<Rightarrow> Err (RegistryJson path (DuplicatePaths previous i))
      | None \<Rightarrow> validate_local_entries c path ((lr_path r, i) # seen) es)"

definition document_validate ::
    "codec \<Rightarrow> string \<Rightarrow> registry_document \<Rightarrow> (plugin_registry_error, unit) outcome" where
  "document_validate c path d =
     (if rd_schema d \<noteq> 1 \<and> rd_schema d \<noteq> REGISTRY_SCHEMA then Err (BadSchema (rd_schema d))
      else case find (\<lambda>i. \<not> valid_plugin_id i) (bt_keys (rd_plugins d)) of
        Some i \<Rightarrow> Err (BadPluginId i)
      | None \<Rightarrow>
          (case validate_managed_entries c path (rd_local d) (bt_entries (rd_managed d)) of
             Ok _ \<Rightarrow> validate_local_entries c path [] (bt_entries (rd_local d))
           | e \<Rightarrow> e))"

section \<open>Reading\<close>

text \<open>\<open>deserialize_unique_ids\<close>: the entries one by one; a repeated id is an error.\<close>

fun unique_ids :: "(string, 'v) btree \<Rightarrow> (string \<times> 'v) list \<Rightarrow> (string, 'v) btree option" where
  "unique_ids m [] = Some m"
| "unique_ids m ((i, v) # es) = (if bt_has m i then None else unique_ids (bt_insert i v m) es)"

definition field_ok :: "codec \<Rightarrow> local_registration \<Rightarrow> bool" where
  "field_ok c r =
     (validate_local_path (lr_path r) \<and> validate_grants (lr_grants r)
      \<and> is_ok (policy_validate (cx_url c) (lr_policy r)))"

definition decode_input :: "codec \<Rightarrow> raw_registry \<Rightarrow> registry_input option" where
  "decode_input c x =
     Option.bind (unique_ids bt_empty (rx_plugins x)) (\<lambda>plugins.
     Option.bind (case rx_local x of
         None \<Rightarrow> Some None
       | Some es \<Rightarrow> if list_all (\<lambda>(_, r). field_ok c r) es
                   then map_option Some (unique_ids bt_empty es) else None) (\<lambda>local.
     Option.bind (unique_ids bt_empty (rx_managed x)) (\<lambda>managed.
       Some \<lparr>ri_schema = rx_schema x, ri_plugins = plugins, ri_local = local,
             ri_managed = managed\<rparr>)))"

definition document_default :: registry_document where
  "document_default =
     \<lparr>rd_schema = REGISTRY_SCHEMA, rd_plugins = bt_empty, rd_local = bt_empty,
      rd_managed = bt_empty\<rparr>"

text \<open>
  What opening, asking for the length and reading the file give. The length and the contents
  are separate, for the file may change between the two.
\<close>

record file_view =
  fv_open :: "io_error option"
  fv_len :: "(io_error, nat) outcome"
  fv_read :: "(io_error, string) outcome"

definition read_registry_text ::
    "string \<Rightarrow> file_view \<Rightarrow> (plugin_registry_error, string option) outcome" where
  "read_registry_text path v =
     (case fv_open v of
        Some e \<Rightarrow> if io_kind e = NotFound then Ok None else Err (RegistryIo ''read'' path e)
      | None \<Rightarrow>
          (case fv_len v of
             Err e \<Rightarrow> Err (RegistryIo ''read'' path e)
           | Panic \<Rightarrow> Panic
           | Ok n \<Rightarrow>
               if MAX_REGISTRY_BYTES < n then Err (TooLarge path)
               else (case fv_read v of
                  Err e \<Rightarrow> Err (RegistryIo ''read'' path e)
                | Panic \<Rightarrow> Panic
                | Ok contents \<Rightarrow>
                    (let bytes = take (MAX_REGISTRY_BYTES + 1) contents
                     in if MAX_REGISTRY_BYTES < length bytes then Err (TooLarge path)
                        else if valid_utf8 bytes then Ok (Some bytes)
                        else Err (RegistryIo ''read'' path
                                    (IoError InvalidData ''stream did not contain valid UTF-8''))))))"

definition document_of_input ::
    "string \<Rightarrow> registry_input \<Rightarrow> (plugin_registry_error, registry_document) outcome" where
  "document_of_input path x =
     (let d = \<lparr>rd_schema = ri_schema x, rd_plugins = ri_plugins x,
               rd_local = (case ri_local x of None \<Rightarrow> bt_empty | Some l \<Rightarrow> l),
               rd_managed = ri_managed x\<rparr>
      in if ri_schema x = 1 \<and> (ri_local x \<noteq> None \<or> bt_len (ri_managed x) \<noteq> 0)
         then Err (RegistryJson path Schema1Local)
         else if ri_schema x = REGISTRY_SCHEMA \<and> ri_local x = None
         then Err (RegistryJson path Schema2NoLocal)
         else if ri_schema x = 1 \<or> ri_schema x = REGISTRY_SCHEMA then Ok d
         else Err (BadSchema (ri_schema x)))"

definition document_read ::
    "codec \<Rightarrow> string \<Rightarrow> file_view \<Rightarrow> (plugin_registry_error, registry_document) outcome" where
  "document_read c path v =
     (case (case read_registry_text path v of
              Err e \<Rightarrow> Err e
            | Panic \<Rightarrow> Panic
            | Ok None \<Rightarrow> Ok document_default
            | Ok (Some text) \<Rightarrow>
                (case cx_from c text of
                   Err m \<Rightarrow> Err (RegistryJson path (Malformed m))
                 | Panic \<Rightarrow> Panic
                 | Ok raw \<Rightarrow>
                     (case decode_input c raw of
                        None \<Rightarrow> Err (RegistryJson path BadField)
                      | Some x \<Rightarrow> document_of_input path x))) of
        Ok d \<Rightarrow>
          (case document_validate c path d of
             Err e \<Rightarrow> Err e
           | Panic \<Rightarrow> Panic
           | Ok _ \<Rightarrow> Ok d)
      | e \<Rightarrow> e)"

section \<open>Snapshots with staged edits\<close>

record 'v edit =
  ed_expected :: "'v option"
  ed_desired :: "'v option"

record plugin_registry =
  rg_path :: string
  rg_document :: registry_document
  rg_pending :: "(string, plugin_preference) btree"
  rg_local :: "(string, local_registration) btree"
  rg_pending_local :: "(string, local_registration edit) btree"
  rg_managed :: "(string, managed_record) btree"
  rg_pending_managed :: "(string, managed_record edit) btree"

type_synonym 'a registry_result = "(plugin_registry_error, 'a) outcome \<times> plugin_registry"

text \<open>A snapshot of a document, with nothing staged.\<close>

definition snapshot :: "string \<Rightarrow> registry_document \<Rightarrow> plugin_registry" where
  "snapshot path d =
     \<lparr>rg_path = path, rg_document = d, rg_pending = bt_empty, rg_local = rd_local d,
      rg_pending_local = bt_empty, rg_managed = rd_managed d, rg_pending_managed = bt_empty\<rparr>"

definition registry_load ::
    "codec \<Rightarrow> string \<Rightarrow> file_view \<Rightarrow> (plugin_registry_error, plugin_registry) outcome" where
  "registry_load c path v =
     (case document_read c path v of
        Err e \<Rightarrow> Err e
      | Panic \<Rightarrow> Panic
      | Ok d \<Rightarrow> Ok (snapshot path d))"

definition is_enabled :: "plugin_registry \<Rightarrow> string \<Rightarrow> bool" where
  "is_enabled r i =
     (let i = canonical_plugin_id i
      in case (case bt_get (rg_pending r) i of
                 Some p \<Rightarrow> Some p
               | None \<Rightarrow>
                   (case bt_get (rd_plugins (rg_document r)) i of
                      Some p \<Rightarrow> Some p
                    | None \<Rightarrow> if i = GUI_PLUGIN_ID
                              then bt_get (rd_plugins (rg_document r)) LEGACY_GUI_PLUGIN_ID
                              else None)) of
           None \<Rightarrow> True
         | Some p \<Rightarrow> pf_enabled p)"

definition set_opt :: "'k::linorder \<Rightarrow> 'v option \<Rightarrow> ('k, 'v) btree \<Rightarrow> ('k, 'v) btree" where
  "set_opt k v m = (case v of None \<Rightarrow> bt_remove k m | Some x \<Rightarrow> bt_insert k x m)"

definition stage_managed :: "string \<Rightarrow> managed_record option \<Rightarrow> plugin_registry \<Rightarrow> plugin_registry" where
  "stage_managed i desired r =
     (let edit = (case bt_get (rg_pending_managed r) i of
                    Some e \<Rightarrow> e
                  | None \<Rightarrow> \<lparr>ed_expected = bt_get (rd_managed (rg_document r)) i,
                             ed_desired = None\<rparr>)
      in r\<lparr>rg_pending_managed :=
             bt_insert i (edit\<lparr>ed_desired := desired\<rparr>) (rg_pending_managed r),
           rg_managed := set_opt i desired (rg_managed r)\<rparr>)"

definition stage_local ::
    "string \<Rightarrow> local_registration option \<Rightarrow> plugin_registry \<Rightarrow> plugin_registry" where
  "stage_local i desired r =
     (let edit = (case bt_get (rg_pending_local r) i of
                    Some e \<Rightarrow> e
                  | None \<Rightarrow> \<lparr>ed_expected = bt_get (rd_local (rg_document r)) i,
                             ed_desired = None\<rparr>)\<lparr>ed_desired := desired\<rparr>
      in r\<lparr>rg_pending_local :=
             (if ed_expected edit = None \<and> ed_desired edit = None
              then bt_remove i (rg_pending_local r)
              else bt_insert i edit (rg_pending_local r)),
           rg_local := set_opt i desired (rg_local r)\<rparr>)"

definition local_error ::
    "plugin_registry \<Rightarrow> string \<Rightarrow> io_kind \<Rightarrow> local_problem \<Rightarrow> plugin_registry_error" where
  "local_error r i kind problem = LocalEdit (rg_path r) i kind problem"

definition validate_local_id ::
    "plugin_registry \<Rightarrow> string \<Rightarrow> plugin_registry_error option" where
  "validate_local_id r i =
     (if \<not> valid_plugin_id i then Some (BadPluginId i)
      else if reserved_plugin_id i then Some (local_error r i InvalidInput ReservedId)
      else None)"

text \<open>Another id is registered at the path.\<close>

definition path_taken :: "plugin_registry \<Rightarrow> string \<Rightarrow> string \<Rightarrow> bool" where
  "path_taken r i path =
     bt_any (\<lambda>j l. j \<noteq> i \<and> path_eq (lr_path l) path) (rg_local r)"

definition register_managed ::
    "codec \<Rightarrow> string \<Rightarrow> local_registration \<Rightarrow> managed_record \<Rightarrow> plugin_registry
     \<Rightarrow> unit registry_result" where
  "register_managed c i l m r =
     (case validate_local_id r i of
        Some e \<Rightarrow> (Err e, r)
      | None \<Rightarrow>
          if \<not> validate_local_registration (cx_url c) l
          then (Err (local_error r i InvalidInput InvalidRegistration), r)
          else case managed_validate c i (Some l) m of
            Err e \<Rightarrow> (Err (local_error r i InvalidInput (InvalidManaged e)), r)
          | Panic \<Rightarrow> (Panic, r)
          | Ok _ \<Rightarrow>
              if path_taken r i (lr_path l)
              then (Err (local_error r i AlreadyExists PathTaken), r)
              else (Ok (), stage_managed i (Some m) (stage_local i (Some l) r)))"

definition restore_managed ::
    "string \<Rightarrow> local_registration option \<Rightarrow> managed_record option \<Rightarrow> plugin_registry
     \<Rightarrow> plugin_registry" where
  "restore_managed i l m r = stage_managed i m (stage_local i l r)"

definition register_local ::
    "codec \<Rightarrow> string \<Rightarrow> local_registration \<Rightarrow> plugin_registry \<Rightarrow> unit registry_result" where
  "register_local c i l r =
     (case validate_local_id r i of
        Some e \<Rightarrow> (Err e, r)
      | None \<Rightarrow>
          if \<not> validate_local_registration (cx_url c) l
          then (Err (local_error r i InvalidInput InvalidRegistration), r)
          else if (case bt_get (rg_local r) i of
                     None \<Rightarrow> False | Some previous \<Rightarrow> \<not> path_eq (lr_path previous) (lr_path l))
          then (Err (local_error r i AlreadyExists OtherPath), r)
          else if path_taken r i (lr_path l)
          then (Err (local_error r i AlreadyExists PathTaken), r)
          else (let r = stage_local i (Some l) r
                in (Ok (), stage_managed i (bt_get (rg_managed r) i) r)))"

definition revoke_permission ::
    "codec \<Rightarrow> string \<Rightarrow> permission \<Rightarrow> plugin_registry \<Rightarrow> bool registry_result" where
  "revoke_permission c i permission r =
     (case bt_get (rg_local r) i of
        None \<Rightarrow> (Err (local_error r i NotFound NotRegistered), r)
      | Some l \<Rightarrow>
          (case remove_permission permission l of
             (changed, l) \<Rightarrow>
               (case register_local c i l r of
                  (Err e, r) \<Rightarrow> (Err e, r)
                | (Panic, r) \<Rightarrow> (Panic, r)
                | (Ok _, r) \<Rightarrow> (Ok changed, r))))"

definition remove_local :: "string \<Rightarrow> plugin_registry \<Rightarrow> unit registry_result" where
  "remove_local i r =
     (case validate_local_id r i of
        Some e \<Rightarrow> (Err e, r)
      | None \<Rightarrow>
          if \<not> bt_has (rg_local r) i then (Err (local_error r i NotFound NotRegistered), r)
          else (let r = stage_local i None r
                in case bt_get (rg_managed r) i of
                     None \<Rightarrow> (Ok (), r)
                   | Some m \<Rightarrow> (Ok (), stage_managed i (Some (m\<lparr>mr_current_version := None\<rparr>)) r)))"

definition set_enabled :: "string \<Rightarrow> bool \<Rightarrow> plugin_registry \<Rightarrow> unit registry_result" where
  "set_enabled i enabled r =
     (if \<not> valid_plugin_id i then (Err (BadPluginId i), r)
      else (Ok (), r\<lparr>rg_pending :=
              bt_insert (canonical_plugin_id i) \<lparr>pf_enabled = enabled\<rparr> (rg_pending r)\<rparr>))"

section \<open>Saving\<close>

datatype try_lock = Acquired | WouldBlock | LockFailed io_error

text \<open>
  What the operating system answers during one \<open>save\<close>: \<open>None\<close> is success. \<open>ev_write\<close> may
  fail after some bytes; \<open>ev_delay t\<close> is the time between the attempt at time \<open>t\<close> and the
  reading of the clock after it.
\<close>

record save_env =
  ev_mkdir :: "io_error option"
  ev_lock_open :: "io_error option"
  ev_try_lock :: "nat \<Rightarrow> try_lock"
  ev_delay :: "nat \<Rightarrow> nat"
  ev_open :: "io_error option"
  ev_metadata :: "io_error option"
  ev_read :: "io_error option"
  ev_pid :: nat
  ev_create :: "string \<Rightarrow> io_error option"
  ev_write :: "(nat \<times> io_error) option"
  ev_sync :: "io_error option"
  ev_rename :: "io_error option"
  ev_remove :: "io_error option"
  ev_drop_remove :: "io_error option"

text \<open>The file system, and the process-wide counter of temporary names.\<close>

record disk =
  dk_files :: "(string, string) btree"
  dk_sequence :: u64

definition lock_path :: "string \<Rightarrow> string" where
  "lock_path path = path @ ''.lock''"

function lock_loop ::
    "string \<Rightarrow> save_env \<Rightarrow> nat \<Rightarrow> nat \<Rightarrow> (plugin_registry_error, unit) outcome" where
  "lock_loop path ev timeout now =
     (case ev_try_lock ev now of
        Acquired \<Rightarrow> Ok ()
      | LockFailed e \<Rightarrow> Err (RegistryIo ''lock'' (lock_path path) e)
      | WouldBlock \<Rightarrow>
          (let elapsed = now + ev_delay ev now;
               remaining = timeout - elapsed
           in if remaining = 0 then Err (Busy (lock_path path))
              else lock_loop path ev timeout (elapsed + min REGISTRY_LOCK_POLL remaining)))"
  by auto
termination
  by (relation "measure (\<lambda>(_, _, timeout, now). timeout - now)")
    (auto simp: REGISTRY_LOCK_POLL_def)

declare lock_loop.simps [simp del]

text \<open>The sidecar file is created when it is missing, and never removed.\<close>

definition lock_registry ::
    "string \<Rightarrow> save_env \<Rightarrow> nat \<Rightarrow> disk \<Rightarrow> (plugin_registry_error, unit) outcome \<times> disk" where
  "lock_registry path ev timeout w =
     (case ev_lock_open ev of
        Some e \<Rightarrow> (Err (RegistryIo ''open lock for'' (lock_path path) e), w)
      | None \<Rightarrow>
          (lock_loop path ev timeout 0,
           if bt_has (dk_files w) (lock_path path) then w
           else w\<lparr>dk_files := bt_insert (lock_path path) [] (dk_files w)\<rparr>))"

text \<open>The view of the registry file that a reader has while nobody writes.\<close>

definition or_else_read :: "io_error option \<Rightarrow> 'a \<Rightarrow> (io_error, 'a) outcome" where
  "or_else_read f x = (case f of None \<Rightarrow> Ok x | Some e \<Rightarrow> Err e)"

definition view_of :: "save_env \<Rightarrow> string \<Rightarrow> disk \<Rightarrow> file_view" where
  "view_of ev path w =
     (case bt_get (dk_files w) path of
        None \<Rightarrow>
          \<lparr>fv_open = Some (case ev_open ev of
                              None \<Rightarrow> IoError NotFound ''no such file'' | Some e \<Rightarrow> e),
           fv_len = Ok 0, fv_read = Ok []\<rparr>
      | Some b \<Rightarrow>
          \<lparr>fv_open = ev_open ev, fv_len = or_else_read (ev_metadata ev) (length b),
           fv_read = or_else_read (ev_read ev) b\<rparr>)"

definition temp_name :: "string \<Rightarrow> nat \<Rightarrow> u64 \<Rightarrow> string" where
  "temp_name path pid sequence = path @ ''.'' @ show_nat pid @ ''.'' @ show_u64 sequence @ ''.tmp''"

fun temp_create ::
    "string \<Rightarrow> save_env \<Rightarrow> nat \<Rightarrow> disk \<Rightarrow> (plugin_registry_error, string) outcome \<times> disk" where
  "temp_create path ev 0 w =
     (Err (RegistryIo ''create temporary for'' path
             (IoError AlreadyExists ''temporary name attempts exhausted'')), w)"
| "temp_create path ev (Suc n) w =
     (let temporary = temp_name path (ev_pid ev) (dk_sequence w);
          w = w\<lparr>dk_sequence := dk_sequence w + 1\<rparr>
      in case (case ev_create ev temporary of
                 Some e \<Rightarrow> Some e
               | None \<Rightarrow> if bt_has (dk_files w) temporary
                         then Some (IoError AlreadyExists ''file exists'') else None) of
           None \<Rightarrow> (Ok temporary, w\<lparr>dk_files := bt_insert temporary [] (dk_files w)\<rparr>)
         | Some e \<Rightarrow>
             if io_kind e = AlreadyExists then temp_create path ev n w
             else (Err (RegistryIo ''create temporary for'' temporary e), w))"

text \<open>\<open>write_all\<close>, \<open>sync_all\<close> and \<open>rename\<close>, which replaces the target in one step.\<close>

definition write_and_rename ::
    "string \<Rightarrow> string \<Rightarrow> string \<Rightarrow> save_env \<Rightarrow> disk \<Rightarrow> plugin_registry_error option \<times> disk" where
  "write_and_rename temporary path bytes ev w =
     (case ev_write ev of
        Some (n, e) \<Rightarrow>
          (Some (RegistryIo ''write temporary'' temporary e),
           w\<lparr>dk_files := bt_insert temporary (take n bytes) (dk_files w)\<rparr>)
      | None \<Rightarrow>
          (let w = w\<lparr>dk_files := bt_insert temporary bytes (dk_files w)\<rparr>
           in case ev_sync ev of
                Some e \<Rightarrow> (Some (RegistryIo ''write temporary'' temporary e), w)
              | None \<Rightarrow>
                  (case ev_rename ev of
                     Some e \<Rightarrow> (Some (RegistryIo ''replace'' path e), w)
                   | None \<Rightarrow>
                       (None, w\<lparr>dk_files := bt_remove temporary
                                              (bt_insert path bytes (dk_files w))\<rparr>))))"

text \<open>The answer \<open>NotFound\<close> means that somebody else has removed the file.\<close>

definition remove_file :: "io_error option \<Rightarrow> string \<Rightarrow> disk \<Rightarrow> io_error option \<times> disk" where
  "remove_file f path w =
     (case f of
        Some e \<Rightarrow>
          (Some e, if io_kind e = NotFound then w\<lparr>dk_files := bt_remove path (dk_files w)\<rparr> else w)
      | None \<Rightarrow>
          if bt_has (dk_files w) path then (None, w\<lparr>dk_files := bt_remove path (dk_files w)\<rparr>)
          else (Some (IoError NotFound ''no such file''), w))"

text \<open>\<open>replace\<close>, with the \<open>Drop\<close> of the temporary at its end.\<close>

definition replace_registry ::
    "string \<Rightarrow> string \<Rightarrow> string \<Rightarrow> save_env \<Rightarrow> disk \<Rightarrow> plugin_registry_error option \<times> disk" where
  "replace_registry temporary path bytes ev w =
     (case write_and_rename temporary path bytes ev w of
        (None, w) \<Rightarrow> (None, w)
      | (Some primary, w) \<Rightarrow>
          (case remove_file (ev_remove ev) temporary w of
             (None, w) \<Rightarrow> (Some primary, w)
           | (Some e, w) \<Rightarrow>
               if io_kind e = NotFound then (Some primary, w)
               else (Some (TemporaryCleanup primary temporary e),
                     snd (remove_file (ev_drop_remove ev) temporary w))))"

text \<open>\<open>Path::parent\<close>, by components.\<close>

definition path_parent :: "string \<Rightarrow> path_component list option" where
  "path_parent p =
     (case rev (path_components p) of
        [] \<Rightarrow> None
      | c # rest \<Rightarrow> if c = RootDir then None else Some (rev rest))"

text \<open>Records compare as the derived \<open>PartialEq\<close> of \<open>Option\<close> does.\<close>

fun opt_eq :: "('a \<Rightarrow> 'a \<Rightarrow> bool) \<Rightarrow> 'a option \<Rightarrow> 'a option \<Rightarrow> bool" where
  "opt_eq eq None None = True"
| "opt_eq eq (Some a) (Some b) = eq a b"
| "opt_eq eq _ _ = False"

definition managed_conflict ::
    "plugin_registry \<Rightarrow> registry_document \<Rightarrow> plugin_registry_error option" where
  "managed_conflict r latest =
     (case find (\<lambda>(i, e). \<not> opt_eq managed_eq (bt_get (rd_managed latest) i) (ed_expected e))
             (bt_entries (rg_pending_managed r)) of
        None \<Rightarrow> None
      | Some (i, _) \<Rightarrow> Some (local_error r i InvalidData ManagedChanged))"

fun local_conflict_reason ::
    "local_registration option \<Rightarrow> local_registration option \<Rightarrow> io_kind \<times> local_problem" where
  "local_conflict_reason None _ = (NotFound, RegistrationRemoved)"
| "local_conflict_reason (Some _) None = (AlreadyExists, IdTaken)"
| "local_conflict_reason (Some current) (Some expected) =
     (if \<not> path_eq (lr_path current) (lr_path expected) then (InvalidData, PathChanged)
      else if lr_grants current \<noteq> lr_grants expected then (InvalidData, GrantsChanged)
      else (InvalidData, PolicyChanged))"

definition local_conflict ::
    "plugin_registry \<Rightarrow> registry_document \<Rightarrow> plugin_registry_error option" where
  "local_conflict r latest =
     (case find (\<lambda>(i, e). \<not> opt_eq registration_eq (bt_get (rd_local latest) i) (ed_expected e))
             (bt_entries (rg_pending_local r)) of
        None \<Rightarrow> None
      | Some (i, e) \<Rightarrow>
          (case local_conflict_reason (bt_get (rd_local latest) i) (ed_expected e) of
             (kind, problem) \<Rightarrow> Some (local_error r i kind problem)))"

definition bt_extend :: "('k::linorder \<times> 'v) list \<Rightarrow> ('k, 'v) btree \<Rightarrow> ('k, 'v) btree" where
  "bt_extend es m = fold (\<lambda>(k, v). bt_insert k v) es m"

definition apply_edits ::
    "('k::linorder \<times> 'v edit) list \<Rightarrow> ('k, 'v) btree \<Rightarrow> ('k, 'v) btree" where
  "apply_edits es m = fold (\<lambda>(k, e). set_opt k (ed_desired e)) es m"

definition something_staged :: "plugin_registry \<Rightarrow> bool" where
  "something_staged r =
     (bt_len (rg_pending r) \<noteq> 0 \<or> bt_len (rg_pending_local r) \<noteq> 0
      \<or> bt_len (rg_pending_managed r) \<noteq> 0)"

definition merge_staged :: "plugin_registry \<Rightarrow> registry_document \<Rightarrow> registry_document" where
  "merge_staged r latest =
     (let plugins = bt_extend (bt_entries (rg_pending r)) (rd_plugins latest)
      in \<lparr>rd_schema = REGISTRY_SCHEMA,
          rd_plugins = (if bt_has (rg_pending r) GUI_PLUGIN_ID
                        then bt_remove LEGACY_GUI_PLUGIN_ID plugins else plugins),
          rd_local = apply_edits (bt_entries (rg_pending_local r)) (rd_local latest),
          rd_managed = apply_edits (bt_entries (rg_pending_managed r)) (rd_managed latest)\<rparr>)"

text \<open>Validates, serializes and replaces the file; an error of the serializer panics.\<close>

definition write_document ::
    "codec \<Rightarrow> save_env \<Rightarrow> string \<Rightarrow> registry_document \<Rightarrow> disk
     \<Rightarrow> (plugin_registry_error, unit) outcome \<times> disk" where
  "write_document c ev path d w =
     (case document_validate c path d of
        Err e \<Rightarrow> (Err e, w)
      | Panic \<Rightarrow> (Panic, w)
      | Ok _ \<Rightarrow>
          (case cx_to c d of
             Ok text \<Rightarrow>
               (let bytes = text @ [CHR 0x0A]
                in if MAX_REGISTRY_BYTES < length bytes then (Err (TooLarge path), w)
                   else case temp_create path ev TEMP_FILE_ATTEMPTS w of
                     (Err e, w) \<Rightarrow> (Err e, w)
                   | (Panic, w) \<Rightarrow> (Panic, w)
                   | (Ok temporary, w) \<Rightarrow>
                       (case replace_registry temporary path bytes ev w of
                          (Some e, w) \<Rightarrow> (Err e, w)
                        | (None, w) \<Rightarrow> (Ok (), w)))
           | _ \<Rightarrow> (Panic, w)))"

text \<open>The part of \<open>save\<close> that runs with the lock held: the document the file has afterwards.\<close>

definition save_locked ::
    "codec \<Rightarrow> save_env \<Rightarrow> plugin_registry \<Rightarrow> disk
     \<Rightarrow> (plugin_registry_error, registry_document) outcome \<times> disk" where
  "save_locked c ev r w =
     (case document_read c (rg_path r) (view_of ev (rg_path r) w) of
        Err e \<Rightarrow> (Err e, w)
      | Panic \<Rightarrow> (Panic, w)
      | Ok latest \<Rightarrow>
          (case managed_conflict r latest of
             Some e \<Rightarrow> (Err e, w)
           | None \<Rightarrow>
               (case local_conflict r latest of
                  Some e \<Rightarrow> (Err e, w)
                | None \<Rightarrow>
                    if something_staged r \<or> rd_schema latest = 1 then
                      (case write_document c ev (rg_path r) (merge_staged r latest) w of
                         (Ok _, w) \<Rightarrow> (Ok (merge_staged r latest), w)
                       | (Err e, w) \<Rightarrow> (Err e, w)
                       | (Panic, w) \<Rightarrow> (Panic, w))
                    else (Ok latest, w))))"

definition save ::
    "codec \<Rightarrow> save_env \<Rightarrow> plugin_registry \<Rightarrow> disk
     \<Rightarrow> (plugin_registry_error, unit) outcome \<times> plugin_registry \<times> disk" where
  "save c ev r w =
     (case path_parent (rg_path r) of
        None \<Rightarrow> (Err (MissingParent (rg_path r)), r, w)
      | Some [] \<Rightarrow> (Err (MissingParent (rg_path r)), r, w)
      | Some parent \<Rightarrow>
          (case ev_mkdir ev of
             Some e \<Rightarrow> (Err (CreateParent parent e), r, w)
           | None \<Rightarrow>
               (case lock_registry (rg_path r) ev REGISTRY_LOCK_TIMEOUT w of
                  (Err e, w) \<Rightarrow> (Err e, r, w)
                | (Panic, w) \<Rightarrow> (Panic, r, w)
                | (Ok _, w) \<Rightarrow>
                    (case save_locked c ev r w of
                       (Ok d, w) \<Rightarrow> (Ok (), snapshot (rg_path r) d, w)
                     | (Err e, w) \<Rightarrow> (Err e, r, w)
                     | (Panic, w) \<Rightarrow> (Panic, r, w)))))"

text \<open>Where the registry is by default, from the environment variables (not macOS).\<close>

definition default_registry_path ::
    "(string \<Rightarrow> string option) \<Rightarrow> (plugin_registry_error, string) outcome" where
  "default_registry_path var =
     (let set_to = (\<lambda>name. case var name of None \<Rightarrow> None | Some v \<Rightarrow> if v = [] then None else Some v)
      in case set_to ''CODLET_HOME'' of
           Some home \<Rightarrow>
             if \<not> path_is_absolute home then Err (RegistryJson home HomeNotAbsolute)
             else Ok (path_join home ''config.json'')
         | None \<Rightarrow>
             (case set_to ''LOCALAPPDATA'' of
                None \<Rightarrow> Err LocalAppDataUnavailable
              | Some dir \<Rightarrow> Ok (path_join (path_join dir ''Codlet'') ''config.json'')))"

end
