(* ===== verification/Registry_Lemmas.thy ===== *)
theory Registry_Lemmas
  imports Registry_Store
begin

text \<open>
  What the operations of the plugin registry do to its maps: overlays of staged edits, the
  frame of a write, and the round trip of a document through the file.
\<close>

section \<open>Edits over a map\<close>

lemma bt_get_set_opt [simp, bt_simps]:
  "bt_get (set_opt k v m) k' = (if k' = k then v else bt_get m k')"
  by (auto simp: set_opt_def split: option.split)

lemma bt_get_entries: "bt_get m k = map_of (bt_entries m) k"
  by (simp add: bt_get.rep_eq)

lemma apply_edits_list:
  "distinct (map fst es) \<Longrightarrow> bt_get (apply_edits es m) k =
     (case map_of es k of None \<Rightarrow> bt_get m k | Some e \<Rightarrow> ed_desired e)"
proof (induction es arbitrary: m)
  case (Cons e es)
  have "map_of es (fst e) = None" using Cons.prems by (simp add: map_of_eq_None_iff)
  with Cons show ?case by (cases e) (auto simp: apply_edits_def split: option.split)
qed (simp add: apply_edits_def)

lemma bt_get_apply_edits [simp, bt_simps]:
  "bt_get (apply_edits (bt_entries p) m) k =
     (case bt_get p k of None \<Rightarrow> bt_get m k | Some e \<Rightarrow> ed_desired e)"
  by (simp add: apply_edits_list entries_distinct bt_get_entries [of p])

lemma bt_extend_list:
  "distinct (map fst es) \<Longrightarrow> bt_get (bt_extend es m) k =
     (case map_of es k of None \<Rightarrow> bt_get m k | Some v \<Rightarrow> Some v)"
proof (induction es arbitrary: m)
  case (Cons e es)
  have "map_of es (fst e) = None" using Cons.prems by (simp add: map_of_eq_None_iff)
  with Cons show ?case by (cases e) (auto simp: bt_extend_def split: option.split)
qed (simp add: bt_extend_def)

lemma bt_get_extend [simp, bt_simps]:
  "bt_get (bt_extend (bt_entries p) m) k =
     (case bt_get p k of None \<Rightarrow> bt_get m k | Some v \<Rightarrow> Some v)"
  by (simp add: bt_extend_list entries_distinct bt_get_entries [of p])

lemma unique_ids_list:
  assumes "distinct (map fst es)" "\<forall>k \<in> set (map fst es). bt_get m k = None"
  shows "\<exists>m'. unique_ids m es = Some m'
    \<and> (\<forall>k. bt_get m' k = (case map_of es k of None \<Rightarrow> bt_get m k | Some v \<Rightarrow> Some v))"
  using assms
proof (induction es arbitrary: m)
  case (Cons e es)
  obtain k v where e: "e = (k, v)" by (cases e)
  have none: "map_of es k = None" using Cons.prems e by (simp add: map_of_eq_None_iff)
  have "\<exists>m'. unique_ids (bt_insert k v m) es = Some m'
      \<and> (\<forall>j. bt_get m' j = (case map_of es j of None \<Rightarrow> bt_get (bt_insert k v m) j | Some w \<Rightarrow> Some w))"
    by (rule Cons.IH) (use Cons.prems e in auto)
  then obtain m' where m': "unique_ids (bt_insert k v m) es = Some m'"
    "\<And>j. bt_get m' j = (case map_of es j of None \<Rightarrow> bt_get (bt_insert k v m) j | Some w \<Rightarrow> Some w)"
    by blast
  have "bt_get m' j = (case map_of (e # es) j of None \<Rightarrow> bt_get m j | Some w \<Rightarrow> Some w)" for j
    using none by (simp add: m'(2) e split: option.split)
  moreover have "unique_ids m (e # es) = Some m'" using Cons.prems e m'(1) by simp
  ultimately show ?case by blast
qed simp

text \<open>The entries of a map read back as the map.\<close>

lemma unique_ids_entries [simp]: "unique_ids bt_empty (bt_entries m) = Some m"
proof -
  obtain m' where m': "unique_ids bt_empty (bt_entries m) = Some m'"
      "\<forall>k. bt_get m' k = (case map_of (bt_entries m) k of None \<Rightarrow> bt_get bt_empty k | Some v \<Rightarrow> Some v)"
    using unique_ids_list [of "bt_entries m" bt_empty] by (auto simp: entries_distinct)
  have "m' = m"
    by (rule bt_eqI) (simp add: m'(2) bt_get_entries [of m] split: option.split)
  with m'(1) show ?thesis by simp
qed

lemma bt_len_zero: "bt_len m = 0 \<longleftrightarrow> m = bt_empty"
proof
  assume "bt_len m = 0"
  then have "bt_get m k = None" for k
    using bt_len_pos [of m k] by (cases "bt_get m k") auto
  then show "m = bt_empty" by (intro bt_eqI) simp
qed simp

section \<open>Equality of records\<close>

lemma version_eq_refl [simp]: "version_eq v v"
  by (simp add: version_eq_def)

lemma managed_eq_refl [simp]: "managed_eq m m"
  by (simp add: managed_eq_def list_all2_same)

lemma opt_eq_refl: "(\<And>x. eq x x) \<Longrightarrow> opt_eq eq a a"
  by (cases a) auto

lemma opt_eq_None [simp]: "opt_eq eq a None \<longleftrightarrow> a = None" "opt_eq eq None a \<longleftrightarrow> a = None"
  by (cases a; simp)+

section \<open>Conflicts\<close>

lemma find_entries_None:
  "find (\<lambda>(i, e). \<not> ok i e) (bt_entries m) = None \<longleftrightarrow> (\<forall>i e. bt_get m i = Some e \<longrightarrow> ok i e)"
proof -
  have "find (\<lambda>(i, e). \<not> ok i e) (bt_entries m) = None \<longleftrightarrow>
      (\<forall>i e. (i, e) \<in> set (bt_entries m) \<longrightarrow> ok i e)"
    by (auto simp: find_None_iff)
  then show ?thesis by (simp add: in_entries)
qed

lemma managed_conflict_None:
  "managed_conflict r d = None \<longleftrightarrow>
     (\<forall>i e. bt_get (rg_pending_managed r) i = Some e \<longrightarrow>
        opt_eq managed_eq (bt_get (rd_managed d) i) (ed_expected e))"
  unfolding managed_conflict_def find_entries_None [symmetric]
  by (simp split: option.split prod.split)

lemma local_conflict_None:
  "local_conflict r d = None \<longleftrightarrow>
     (\<forall>i e. bt_get (rg_pending_local r) i = Some e \<longrightarrow>
        opt_eq registration_eq (bt_get (rd_local d) i) (ed_expected e))"
  unfolding local_conflict_def find_entries_None [symmetric]
  by (simp split: option.split prod.split)

section \<open>Documents\<close>

lemma validate_local_entries_ok:
  "validate_local_entries c path seen es = Ok () \<Longrightarrow> (i, l) \<in> set es \<Longrightarrow>
     valid_plugin_id i \<and> \<not> reserved_plugin_id i \<and> validate_local_registration (cx_url c) l"
  by (induction c path seen es rule: validate_local_entries.induct)
    (auto split: if_splits option.splits)

lemma document_validate_ok:
  assumes "document_validate c path d = Ok ()"
  shows "rd_schema d \<in> {1, REGISTRY_SCHEMA}"
    and "\<forall>i l. bt_get (rd_local d) i = Some l \<longrightarrow>
           valid_plugin_id i \<and> \<not> reserved_plugin_id i \<and> validate_local_registration (cx_url c) l"
proof -
  have l: "validate_local_entries c path [] (bt_entries (rd_local d)) = Ok ()"
    and "rd_schema d \<in> {1, REGISTRY_SCHEMA}"
    using assms by (auto simp: document_validate_def split: if_splits option.splits outcome.splits)
  then show "rd_schema d \<in> {1, REGISTRY_SCHEMA}" by blast
  show "\<forall>i l. bt_get (rd_local d) i = Some l \<longrightarrow>
           valid_plugin_id i \<and> \<not> reserved_plugin_id i \<and> validate_local_registration (cx_url c) l"
    using validate_local_entries_ok [OF l] by (simp add: in_entries [symmetric])
qed

lemma default_valid: "document_validate c path document_default = Ok ()"
  by (simp add: document_validate_def document_default_def REGISTRY_SCHEMA_def bt_keys_def)

lemma registration_field_ok: "validate_local_registration (cx_url c) l \<Longrightarrow> field_ok c l"
  by (auto simp: validate_local_registration_def field_ok_def is_ok_unit policy_validate_grants_ok)

text \<open>What the parser gives for a document that was serialized.\<close>

definition raw_of :: "registry_document \<Rightarrow> raw_registry" where
  "raw_of d =
     \<lparr>rx_schema = rd_schema d, rx_plugins = bt_entries (rd_plugins d),
      rx_local = Some (bt_entries (rd_local d)), rx_managed = bt_entries (rd_managed d)\<rparr>"

lemma decode_raw_of:
  assumes "document_validate c path d = Ok ()"
  shows "decode_input c (raw_of d) = Some
    \<lparr>ri_schema = rd_schema d, ri_plugins = rd_plugins d, ri_local = Some (rd_local d),
     ri_managed = rd_managed d\<rparr>"
proof -
  have "list_all (\<lambda>(_, l). field_ok c l) (bt_entries (rd_local d))"
    using document_validate_ok(2) [OF assms] registration_field_ok
    by (auto simp: list_all_iff in_entries)
  then show ?thesis by (simp add: decode_input_def raw_of_def)
qed

section \<open>The frame of a write\<close>

lemma temp_create_ok:
  "temp_create path ev n w = (Ok t, w') \<Longrightarrow>
     (\<exists>q. t = temp_name path (ev_pid ev) q) \<and> bt_get (dk_files w) t = None
     \<and> dk_files w' = bt_insert t [] (dk_files w)"
proof (induction path ev n w rule: temp_create.induct)
  case (2 path ev n w)
  let ?t = "temp_name path (ev_pid ev) (dk_sequence w)"
  let ?w = "w\<lparr>dk_sequence := dk_sequence w + 1\<rparr>"
  let ?e = "case ev_create ev ?t of
      Some e \<Rightarrow> Some e
    | None \<Rightarrow> if bt_has (dk_files ?w) ?t then Some (IoError AlreadyExists ''file exists'') else None"
  show ?case
  proof (cases ?e)
    case None
    with "2.prems" show ?thesis
      by (auto simp: Let_def split: option.splits if_splits)
  next
    case (Some e)
    with "2.prems" have next_step: "temp_create path ev n ?w = (Ok t, w')" and "io_kind e = AlreadyExists"
      by (auto simp: Let_def simp del: bt_has_iff split: if_splits)
    with "2.IH" [OF refl refl Some] show ?thesis by simp
  qed
qed simp

lemma temp_create_err:
  "temp_create path ev n w = (x, w') \<Longrightarrow> (\<And>t. x \<noteq> Ok t) \<Longrightarrow>
     dk_files w' = dk_files w \<and> (\<exists>e p. x = Err (RegistryIo ''create temporary for'' p e))"
proof (induction path ev n w rule: temp_create.induct)
  case (2 path ev n w)
  let ?t = "temp_name path (ev_pid ev) (dk_sequence w)"
  let ?w = "w\<lparr>dk_sequence := dk_sequence w + 1\<rparr>"
  let ?e = "case ev_create ev ?t of
      Some e \<Rightarrow> Some e
    | None \<Rightarrow> if bt_has (dk_files ?w) ?t then Some (IoError AlreadyExists ''file exists'') else None"
  show ?case
  proof (cases ?e)
    case None
    with "2.prems" show ?thesis by (auto simp: Let_def simp del: bt_has_iff)
  next
    case (Some e)
    show ?thesis
    proof (cases "io_kind e = AlreadyExists")
      case True
      with Some "2.prems"(1) have "temp_create path ev n ?w = (x, w')"
        by (simp add: Let_def del: bt_has_iff)
      with "2.IH" [OF refl refl Some True] "2.prems"(2) show ?thesis by simp
    next
      case False
      with Some "2.prems"(1) show ?thesis by (auto simp: Let_def simp del: bt_has_iff)
    qed
  qed
qed auto

lemma temp_name_differs: "temp_name path pid q \<noteq> path"
proof
  assume "temp_name path pid q = path"
  then have "length (temp_name path pid q) = length path" by simp
  then show False by (simp add: temp_name_def)
qed

lemma replace_registry_ok:
  assumes "replace_registry t path bytes ev w = (None, w')" "t \<noteq> path"
  shows "bt_get (dk_files w') k =
    (if k = path then Some bytes else if k = t then None else bt_get (dk_files w) k)"
  using assms
  by (auto simp: replace_registry_def write_and_rename_def Let_def split: option.splits prod.splits if_splits)

text \<open>A replacement that fails leaves every other file alone, and the temporary only with its error.\<close>

lemma replace_registry_err:
  assumes "replace_registry t path bytes ev w = (Some e, w')"
  shows "(k \<noteq> t \<longrightarrow> bt_get (dk_files w') k = bt_get (dk_files w) k)
    \<and> ((\<nexists>primary source. e = TemporaryCleanup primary t source) \<longrightarrow> bt_get (dk_files w') t = None)"
proof -
  obtain p w1 where 1: "write_and_rename t path bytes ev w = (Some p, w1)"
    using assms by (cases "write_and_rename t path bytes ev w"; cases "fst (write_and_rename t path bytes ev w)")
      (auto simp: replace_registry_def)
  then have files: "bt_get (dk_files w1) k = bt_get (dk_files w) k" if "k \<noteq> t" for k
    using that by (auto simp: write_and_rename_def Let_def split: option.splits)
  have temporary: "bt_has (dk_files w1) t"
    using 1 by (auto simp: write_and_rename_def Let_def split: option.splits)
  obtain q w2 where 2: "remove_file (ev_remove ev) t w1 = (q, w2)"
    by (cases "remove_file (ev_remove ev) t w1")
  then have files2: "bt_get (dk_files w2) k = bt_get (dk_files w1) k" if "k \<noteq> t" for k
    using that by (auto simp: remove_file_def split: option.splits if_splits)
  show ?thesis
  proof (cases q)
    case None
    with 2 temporary have "bt_get (dk_files w2) t = None"
      by (auto simp: remove_file_def split: option.splits if_splits)
    with None 1 2 assms files files2 show ?thesis by (auto simp: replace_registry_def)
  next
    case (Some f)
    show ?thesis
    proof (cases "io_kind f = NotFound")
      case True
      with 2 Some have "bt_get (dk_files w2) t = None"
        by (auto simp: remove_file_def split: option.splits if_splits)
      with Some True 1 2 assms files files2 show ?thesis by (auto simp: replace_registry_def)
    next
      case False
      have "bt_get (dk_files (snd (remove_file g t w2))) k = bt_get (dk_files w2) k" if "k \<noteq> t" for k g
        using that by (auto simp: remove_file_def split: option.splits if_splits)
      with Some False 1 2 assms files files2 show ?thesis by (auto simp: replace_registry_def)
    qed
  qed
qed

section \<open>Saving\<close>

text \<open>The three ways a write ends.\<close>

lemma write_document_ok:
  assumes "write_document c ev path d w = (Ok u, w')"
  shows "document_validate c path d = Ok ()
    \<and> (\<exists>b. cx_to c d = Ok b \<and> length (b @ [CHR 0x0A]) \<le> MAX_REGISTRY_BYTES
         \<and> (\<forall>k. bt_get (dk_files w') k =
              (if k = path then Some (b @ [CHR 0x0A]) else bt_get (dk_files w) k)))"
proof -
  from assms obtain b t w1 where 1: "document_validate c path d = Ok ()" "cx_to c d = Ok b"
      "length (b @ [CHR 0x0A]) \<le> MAX_REGISTRY_BYTES"
      "temp_create path ev TEMP_FILE_ATTEMPTS w = (Ok t, w1)"
      "replace_registry t path (b @ [CHR 0x0A]) ev w1 = (None, w')"
    by (auto simp: write_document_def Let_def
        split: outcome.splits if_splits prod.splits option.splits)
  from temp_create_ok [OF 1(4)] obtain q where t: "t = temp_name path (ev_pid ev) q"
      "bt_get (dk_files w) t = None" "dk_files w1 = bt_insert t [] (dk_files w)" by blast
  have "t \<noteq> path" by (simp add: t(1) temp_name_differs)
  from replace_registry_ok [OF 1(5) this] t
  have "bt_get (dk_files w') k = (if k = path then Some (b @ [CHR 0x0A]) else bt_get (dk_files w) k)" for k
    by auto
  with 1(1-3) show ?thesis by blast
qed

lemma write_document_err:
  assumes "write_document c ev path d w = (x, w')" "x \<noteq> Ok ()"
    and "k = path \<or> (\<nexists>primary source. x = Err (TemporaryCleanup primary k source))"
  shows "bt_get (dk_files w') k = bt_get (dk_files w) k"
proof (cases "w' = w")
  case False
  with assms(1,2) obtain b y w1 where 1: "cx_to c d = Ok b"
      "temp_create path ev TEMP_FILE_ATTEMPTS w = (y, w1)"
      "(\<forall>t. y \<noteq> Ok t) \<and> w' = w1 \<or>
       (\<exists>t e. y = Ok t \<and> replace_registry t path (b @ [CHR 0x0A]) ev w1 = (Some e, w') \<and> x = Err e)"
    by (auto simp: write_document_def Let_def
        split: outcome.splits if_splits prod.splits option.splits)
  show ?thesis
  proof (cases "\<exists>t. y = Ok t")
    case True
    then obtain t e where y: "y = Ok t"
        "replace_registry t path (b @ [CHR 0x0A]) ev w1 = (Some e, w')" "x = Err e"
      using 1(3) by blast
    have t: "bt_get (dk_files w) t = None" "dk_files w1 = bt_insert t [] (dk_files w)"
      using temp_create_ok 1(2) y(1) by blast+
    have "t \<noteq> path" using temp_create_ok [of path] 1(2) y(1) temp_name_differs by metis
    show ?thesis
    proof (cases "k = t")
      case True
      with replace_registry_err [OF y(2)] assms(3) y(3) t \<open>t \<noteq> path\<close> show ?thesis by auto
    next
      case False
      with replace_registry_err [OF y(2), of k] t show ?thesis by auto
    qed
  next
    case False
    with temp_create_err [OF 1(2)] 1(3) show ?thesis by auto
  qed
qed simp

end
