(* ===== verification/Registry_Properties.thy ===== *)
theory Registry_Properties
  imports Registry_Lemmas Transitions
begin

text \<open>
  The properties of the plugin registry: the staged view of a snapshot, what \<open>save\<close> changes,
  and what holds of the file while several processes load, edit and save it.
\<close>

section \<open>The staged view\<close>

text \<open>
  The view is the base with the staged edits on top, and each edit remembers the record it
  was staged against.
\<close>

definition overlaid ::
    "('k::linorder, 'v) btree \<Rightarrow> ('k, 'v edit) btree \<Rightarrow> ('k, 'v) btree \<Rightarrow> bool" where
  "overlaid base pending view \<longleftrightarrow>
     (\<forall>k. bt_get view k = (case bt_get pending k of None \<Rightarrow> bt_get base k | Some e \<Rightarrow> ed_desired e)
        \<and> (\<forall>e. bt_get pending k = Some e \<longrightarrow> ed_expected e = bt_get base k))"

text \<open>The contract of a map that is edited by staging.\<close>

locale staged_map =
  fixes base :: "'s \<Rightarrow> ('k::linorder, 'v) btree"
    and pending :: "'s \<Rightarrow> ('k, 'v edit) btree"
    and view :: "'s \<Rightarrow> ('k, 'v) btree"
    and stage :: "'k \<Rightarrow> 'v option \<Rightarrow> 's \<Rightarrow> 's"
  assumes base_stage: "base (stage k v s) = base s"
    and view_stage: "view (stage k v s) = set_opt k v (view s)"
    and pending_other: "j \<noteq> k \<Longrightarrow> bt_get (pending (stage k v s)) j = bt_get (pending s) j"
    and pending_same: "bt_get (pending (stage k v s)) k = Some e \<Longrightarrow> ed_desired e = v
      \<and> ed_expected e = (case bt_get (pending s) k of None \<Rightarrow> bt_get (base s) k | Some d \<Rightarrow> ed_expected d)"
    and pending_dropped: "bt_get (pending (stage k v s)) k = None \<Longrightarrow> v = None
      \<and> (case bt_get (pending s) k of None \<Rightarrow> bt_get (base s) k | Some d \<Rightarrow> ed_expected d) = None"
begin

lemma stage_overlaid:
  assumes "overlaid (base s) (pending s) (view s)"
  shows "overlaid (base (stage k v s)) (pending (stage k v s)) (view (stage k v s))"
  unfolding overlaid_def
proof
  fix j
  have expected: "(case bt_get (pending s) k of None \<Rightarrow> bt_get (base s) k | Some d \<Rightarrow> ed_expected d)
      = bt_get (base s) k"
    using assms by (auto simp: overlaid_def split: option.split)
  show "bt_get (view (stage k v s)) j = (case bt_get (pending (stage k v s)) j of
        None \<Rightarrow> bt_get (base (stage k v s)) j | Some e \<Rightarrow> ed_desired e)
      \<and> (\<forall>e. bt_get (pending (stage k v s)) j = Some e \<longrightarrow>
           ed_expected e = bt_get (base (stage k v s)) j)"
  proof (cases "j = k")
    case True
    show ?thesis
    proof (cases "bt_get (pending (stage k v s)) k")
      case None
      from pending_dropped [OF this] expected True None show ?thesis
        by (simp add: base_stage view_stage)
    next
      case (Some e)
      from pending_same [OF this] expected True Some show ?thesis
        by (simp add: base_stage view_stage)
    qed
  next
    case False
    with assms show ?thesis
      by (simp add: overlaid_def base_stage view_stage pending_other split: option.split)
  qed
qed

end

interpretation local_map: staged_map "\<lambda>r. rd_local (rg_document r)" rg_pending_local rg_local stage_local
  by unfold_locales
    (auto simp: stage_local_def Let_def split: option.splits if_splits)

interpretation managed_map: staged_map "\<lambda>r. rd_managed (rg_document r)" rg_pending_managed rg_managed
    stage_managed
  by unfold_locales
    (auto simp: stage_managed_def Let_def split: option.splits if_splits)

lemma stage_local_keeps [simp]:
  "rg_path (stage_local i v r) = rg_path r" "rg_document (stage_local i v r) = rg_document r"
  "rg_pending (stage_local i v r) = rg_pending r" "rg_managed (stage_local i v r) = rg_managed r"
  "rg_pending_managed (stage_local i v r) = rg_pending_managed r"
  by (simp_all add: stage_local_def Let_def)

lemma stage_managed_keeps [simp]:
  "rg_path (stage_managed i v r) = rg_path r" "rg_document (stage_managed i v r) = rg_document r"
  "rg_pending (stage_managed i v r) = rg_pending r" "rg_local (stage_managed i v r) = rg_local r"
  "rg_pending_local (stage_managed i v r) = rg_pending_local r"
  by (simp_all add: stage_managed_def Let_def)

text \<open>What every snapshot satisfies.\<close>

definition handle_inv :: "codec \<Rightarrow> string \<Rightarrow> plugin_registry \<Rightarrow> bool" where
  "handle_inv c path r \<longleftrightarrow>
     rg_path r = path \<and> document_validate c path (rg_document r) = Ok ()
     \<and> overlaid (rd_local (rg_document r)) (rg_pending_local r) (rg_local r)
     \<and> overlaid (rd_managed (rg_document r)) (rg_pending_managed r) (rg_managed r)
     \<and> (\<forall>i. bt_get (rg_pending r) i \<noteq> None \<longrightarrow> valid_plugin_id i \<and> canonical_plugin_id i = i)"

lemma handle_inv_stage [inv_intros]:
  "handle_inv c path r \<Longrightarrow> handle_inv c path (stage_local i v r)"
  "handle_inv c path r \<Longrightarrow> handle_inv c path (stage_managed i m r)"
  using local_map.stage_overlaid [of r i v] managed_map.stage_overlaid [of r i m]
  by (simp_all add: handle_inv_def)

lemma handle_inv_snapshot:
  "document_validate c path d = Ok () \<Longrightarrow> handle_inv c path (snapshot path d)"
  by (simp add: handle_inv_def snapshot_def overlaid_def)

text \<open>The operations that edit a snapshot.\<close>

inductive registry_edit :: "codec \<Rightarrow> plugin_registry \<Rightarrow> plugin_registry \<Rightarrow> bool" for c where
  register_managed: "register_managed c i l m r = (x, r') \<Longrightarrow> registry_edit c r r'"
| restore_managed: "registry_edit c r (restore_managed i l' m' r)"
| register_local: "register_local c i l r = (x, r') \<Longrightarrow> registry_edit c r r'"
| revoke_permission: "revoke_permission c i permission r = (y, r') \<Longrightarrow> registry_edit c r r'"
| remove_local: "remove_local i r = (x, r') \<Longrightarrow> registry_edit c r r'"
| set_enabled: "set_enabled i b r = (x, r') \<Longrightarrow> registry_edit c r r'"

lemma register_local_cases:
  assumes "register_local c i l r = (x, r')"
  obtains e where "x = Err e" "r' = r"
  | "x = Ok ()" "validate_local_id r i = None" "validate_local_registration (cx_url c) l"
    "\<forall>p. bt_get (rg_local r) i = Some p \<longrightarrow> path_eq (lr_path p) (lr_path l)"
    "\<not> path_taken r i (lr_path l)"
    "r' = stage_managed i (bt_get (rg_managed r) i) (stage_local i (Some l) r)"
  using assms
  by (auto simp: register_local_def Let_def simp del: bt_any_iff split: option.splits if_splits)

lemma register_managed_cases:
  assumes "register_managed c i l m r = (x, r')"
  obtains "x \<noteq> Ok ()" "r' = r"
  | "x = Ok ()" "validate_local_id r i = None" "validate_local_registration (cx_url c) l"
    "\<not> path_taken r i (lr_path l)" "r' = stage_managed i (Some m) (stage_local i (Some l) r)"
  using assms
  by (auto simp: register_managed_def simp del: bt_any_iff split: option.splits if_splits outcome.splits)

lemma revoke_permission_cases:
  assumes "revoke_permission c i p r = (y, r')"
  obtains e where "y = Err e" "r' = r"
  | l where "bt_get (rg_local r) i = Some l" "y = Ok (fst (remove_permission p l))"
    "register_local c i (snd (remove_permission p l)) r = (Ok (), r')"
proof (cases "bt_get (rg_local r) i")
  case None
  with assms have "y = Err (local_error r i NotFound NotRegistered)" "r' = r"
    by (auto simp: revoke_permission_def)
  then show thesis by (rule that(1))
next
  case (Some l)
  obtain b l' where b: "remove_permission p l = (b, l')" by (cases "remove_permission p l")
  obtain x r1 where x: "register_local c i l' r = (x, r1)" by (cases "register_local c i l' r")
  have y: "(y, r') = (case (x, r1) of (Err e, r) \<Rightarrow> (Err e, r) | (Panic, r) \<Rightarrow> (Panic, r)
      | (Ok _, r) \<Rightarrow> (Ok b, r))"
    unfolding assms [symmetric] revoke_permission_def Some option.case b prod.case x ..
  from x show thesis
  proof (cases rule: register_local_cases)
    case (1 e)
    with y show thesis using that(1) [of e] by simp
  next
    case 2
    from y 2(1) have "y = Ok b" "r' = r1" by simp_all
    with x 2(1) b show thesis using that(2) [OF Some] by simp
  qed
qed

lemma remove_local_cases:
  assumes "remove_local i r = (x, r')"
  obtains e where "x = Err e" "r' = r"
  | "x = Ok ()" "r' = stage_local i None r"
  | m where "x = Ok ()" "r' = stage_managed i m (stage_local i None r)"
  using assms by (auto simp: remove_local_def Let_def split: option.splits if_splits)

lemma gui_id_valid: "valid_plugin_id GUI_PLUGIN_ID"
  by (simp add: GUI_PLUGIN_ID_def valid_plugin_id_def MAX_PLUGIN_ID_BYTES_def is_ascii_def byte_def
      ascii_lower_def ascii_digit_def)

lemma canonical_canonical [simp]: "canonical_plugin_id (canonical_plugin_id i) = canonical_plugin_id i"
  by (simp add: canonical_plugin_id_def GUI_PLUGIN_ID_def LEGACY_GUI_PLUGIN_ID_def)

lemma set_enabled_inv:
  assumes "set_enabled i b r = (x, r')" "handle_inv c path r"
  shows "handle_inv c path r'"
proof (cases "valid_plugin_id i")
  case True
  then have "valid_plugin_id (canonical_plugin_id i)"
    using gui_id_valid by (simp add: canonical_plugin_id_def)
  moreover from True assms(1) have
    "r' = r\<lparr>rg_pending := bt_insert (canonical_plugin_id i) \<lparr>pf_enabled = b\<rparr> (rg_pending r)\<rparr>"
    by (simp add: set_enabled_def)
  ultimately show ?thesis using assms(2) by (simp add: handle_inv_def)
next
  case False
  with assms show ?thesis by (simp add: set_enabled_def)
qed

lemma registry_edit_inv: "registry_edit c r r' \<Longrightarrow> handle_inv c path r \<Longrightarrow> handle_inv c path r'"
proof (induction rule: registry_edit.induct)
  case (register_managed i l m r x r')
  then show ?case by (cases rule: register_managed_cases) (auto intro: inv_intros)
next
  case (restore_managed r i l' m')
  then show ?case by (simp add: restore_managed_def inv_intros)
next
  case (register_local i l r x r')
  then show ?case by (cases rule: register_local_cases) (auto intro: inv_intros)
next
  case (revoke_permission i p r y r')
  then show ?case
  proof (cases rule: revoke_permission_cases)
    case (2 l)
    from 2(3) revoke_permission(2) show ?thesis
      by (cases rule: register_local_cases) (auto intro: inv_intros)
  qed simp
next
  case (remove_local i r x r')
  then show ?case by (cases rule: remove_local_cases) (auto intro: inv_intros)
next
  case (set_enabled i b r x r')
  then show ?case by (rule set_enabled_inv)
qed

end
