(* ===== verification/Registry_Saving.thy ===== *)
theory Registry_Saving
  imports Registry_Properties
begin

text \<open>
  What \<open>save\<close> does to the snapshot and to the file, and what holds of the file while several
  processes load, edit and save it.
\<close>

section \<open>The cases of a save\<close>

lemma lock_path_differs [simp]: "lock_path path \<noteq> path"
  by (simp add: lock_path_def)

lemma lock_loop_not_panic: "lock_loop path ev timeout now \<noteq> Panic"
  by (induction path ev timeout now rule: lock_loop.induct)
    (subst lock_loop.simps, auto simp: Let_def split: try_lock.split)

lemma lock_registry_frame:
  assumes "lock_registry path ev timeout w = (x, w1)" "k \<noteq> lock_path path"
  shows "bt_get (dk_files w1) k = bt_get (dk_files w) k"
  using assms by (auto simp: lock_registry_def split: option.splits if_splits)

lemma view_of_cong:
  "bt_get (dk_files w) path = bt_get (dk_files w') path \<Longrightarrow> view_of ev path w = view_of ev path w'"
  by (simp add: view_of_def)

text \<open>A save that succeeds, with the document it read and the one the file has afterwards.\<close>

lemma save_okE:
  assumes "save c ev r w = (Ok u, r', w')"
  obtains latest d where
    "document_read c (rg_path r) (view_of ev (rg_path r) w) = Ok latest"
    "managed_conflict r latest = None" "local_conflict r latest = None"
    "r' = snapshot (rg_path r) d"
    "\<forall>k. k \<noteq> lock_path (rg_path r) \<longrightarrow> k \<noteq> rg_path r \<longrightarrow>
       bt_get (dk_files w') k = bt_get (dk_files w) k"
    "(something_staged r \<or> rd_schema latest = 1) \<and> d = merge_staged r latest
       \<and> document_validate c (rg_path r) d = Ok ()
       \<and> (\<exists>b. cx_to c d = Ok b \<and> length (b @ [CHR 0x0A]) \<le> MAX_REGISTRY_BYTES
            \<and> bt_get (dk_files w') (rg_path r) = Some (b @ [CHR 0x0A]))
     \<or> \<not> something_staged r \<and> rd_schema latest \<noteq> 1 \<and> d = latest
       \<and> bt_get (dk_files w') (rg_path r) = bt_get (dk_files w) (rg_path r)"
proof -
  let ?p = "rg_path r"
  from assms obtain w1 d where
    1: "lock_registry ?p ev REGISTRY_LOCK_TIMEOUT w = (Ok (), w1)"
      "save_locked c ev r w1 = (Ok d, w')" "r' = snapshot ?p d"
    by (auto simp: save_def split: option.splits list.splits prod.splits outcome.splits)
  have frame: "bt_get (dk_files w1) k = bt_get (dk_files w) k" if "k \<noteq> lock_path ?p" for k
    using lock_registry_frame [OF 1(1) that] .
  from 1(2) obtain latest where
    2: "document_read c ?p (view_of ev ?p w1) = Ok latest" "managed_conflict r latest = None"
      "local_conflict r latest = None"
      "(something_staged r \<or> rd_schema latest = 1) \<and> d = merge_staged r latest
         \<and> (\<exists>u. write_document c ev ?p d w1 = (Ok u, w'))
       \<or> \<not> something_staged r \<and> rd_schema latest \<noteq> 1 \<and> d = latest \<and> w' = w1"
    by (auto simp: save_locked_def
        split: outcome.splits option.splits if_splits prod.splits)
  have view: "view_of ev ?p w1 = view_of ev ?p w"
    by (rule view_of_cong) (rule frame, metis lock_path_differs)
  from 2(4) show thesis
  proof (elim disjE)
    assume a: "(something_staged r \<or> rd_schema latest = 1) \<and> d = merge_staged r latest
         \<and> (\<exists>u. write_document c ev ?p d w1 = (Ok u, w'))"
    then obtain u where "write_document c ev ?p d w1 = (Ok u, w')" by blast
    from write_document_ok [OF this] obtain b where
      b: "document_validate c ?p d = Ok ()" "cx_to c d = Ok b"
        "length (b @ [CHR 0x0A]) \<le> MAX_REGISTRY_BYTES"
        "\<And>k. bt_get (dk_files w') k = (if k = ?p then Some (b @ [CHR 0x0A]) else bt_get (dk_files w1) k)"
      by blast
    show thesis
      by (rule that [OF 2(1) [unfolded view] 2(2,3) 1(3)])
        (use a b frame in \<open>auto simp: lock_path_def\<close>)
  next
    assume b: "\<not> something_staged r \<and> rd_schema latest \<noteq> 1 \<and> d = latest \<and> w' = w1"
    show thesis
      by (rule that [OF 2(1) [unfolded view] 2(2,3) 1(3)])
        (use b frame in \<open>auto simp: lock_path_def\<close>)
  qed
qed

text \<open>A save that does not succeed.\<close>

lemma save_locked_frame:
  assumes "save_locked c ev r w = (x, w')" "\<And>d. x \<noteq> Ok d"
    and "k = rg_path r \<or> (\<nexists>primary source. x = Err (TemporaryCleanup primary k source))"
  shows "bt_get (dk_files w') k = bt_get (dk_files w) k"
proof (cases "w' = w")
  case False
  with assms(1,2) obtain latest y where
    1: "write_document c ev (rg_path r) (merge_staged r latest) w = (y, w')"
      "y \<noteq> Ok ()" "x = (case y of Ok _ \<Rightarrow> x | Err e \<Rightarrow> Err e | Panic \<Rightarrow> Panic)"
    by (auto simp: save_locked_def split: outcome.splits option.splits if_splits prod.splits)
  have "k = rg_path r \<or> (\<nexists>primary source. y = Err (TemporaryCleanup primary k source))"
    using assms(3) 1(2,3) by (cases y) auto
  with write_document_err [OF 1(1,2)] show ?thesis by blast
qed simp

lemma save_failE:
  assumes "save c ev r w = (x, r', w')" "x \<noteq> Ok ()"
  shows "r' = r \<and> (\<forall>k. k \<noteq> lock_path (rg_path r) \<longrightarrow>
     k = rg_path r \<or> (\<nexists>primary source. x = Err (TemporaryCleanup primary k source)) \<longrightarrow>
     bt_get (dk_files w') k = bt_get (dk_files w) k)"
proof -
  have "r' = r \<and> (w' = w
      \<or> (\<exists>y. lock_registry (rg_path r) ev REGISTRY_LOCK_TIMEOUT w = (y, w'))
      \<or> (\<exists>u w1 y. lock_registry (rg_path r) ev REGISTRY_LOCK_TIMEOUT w = (Ok u, w1)
           \<and> save_locked c ev r w1 = (y, w') \<and> (\<forall>d. y \<noteq> Ok d)
           \<and> (y = Panic \<and> x = Panic \<or> (\<exists>e. y = Err e \<and> x = Err e))))"
    using assms
    by (auto simp: save_def split: option.splits list.splits prod.splits outcome.splits)
  then consider "r' = r" "w' = w"
    | y where "r' = r" "lock_registry (rg_path r) ev REGISTRY_LOCK_TIMEOUT w = (y, w')"
    | u w1 y where "r' = r" "lock_registry (rg_path r) ev REGISTRY_LOCK_TIMEOUT w = (Ok u, w1)"
      "save_locked c ev r w1 = (y, w')" "\<forall>d. y \<noteq> Ok d"
      "y = Panic \<and> x = Panic \<or> (\<exists>e. y = Err e \<and> x = Err e)"
    by blast
  then show ?thesis
  proof cases
    case 2
    with lock_registry_frame show ?thesis by blast
  next
    case (3 u w1 y)
    have "bt_get (dk_files w') k = bt_get (dk_files w) k"
      if "k \<noteq> lock_path (rg_path r)"
        "k = rg_path r \<or> (\<nexists>primary source. x = Err (TemporaryCleanup primary k source))" for k
    proof -
      have "k = rg_path r \<or> (\<nexists>primary source. y = Err (TemporaryCleanup primary k source))"
        using that(2) 3(5) by auto
      from save_locked_frame [OF 3(3) _ this] 3(4) lock_registry_frame [OF 3(2) that(1)]
      show ?thesis by simp
    qed
    with 3(1) show ?thesis by blast
  qed simp
qed

section \<open>All or nothing\<close>

text \<open>
  C25: a save that fails changes nothing. Whatever the operating system answers, after an error
  or a panic the snapshot is the same with its staged edits, the registry file has the same
  contents, and so has every other file but the lock file and, when the error says so, the
  temporary that could not be removed.
\<close>

theorem save_all_or_nothing:
  assumes "save c ev r w = (x, r', w')" "x \<noteq> Ok ()"
  shows "r' = r \<and> bt_get (dk_files w') (rg_path r) = bt_get (dk_files w) (rg_path r)
    \<and> (\<forall>k. k \<noteq> lock_path (rg_path r) \<and> (\<forall>primary source. x \<noteq> Err (TemporaryCleanup primary k source))
         \<longrightarrow> bt_get (dk_files w') k = bt_get (dk_files w) k)"
  using save_failE [OF assms] lock_path_differs [of "rg_path r"] by metis

section \<open>Concurrent edits\<close>

text \<open>
  C14: a save that succeeds merges exactly its staged edits into the document the file had. A
  record without a staged edit keeps what other writers stored in the meantime, a record with
  one gets the desired value, and then the value in the file was still the one the edit was
  staged against. The snapshot afterwards is that of the new document, with nothing staged.
\<close>

theorem save_merges_staged_edits:
  assumes "save c ev r w = (Ok (), r', w')"
  shows "\<exists>before. document_read c (rg_path r) (view_of ev (rg_path r) w) = Ok before
    \<and> r' = snapshot (rg_path r) (rg_document r')
    \<and> (\<forall>i. bt_get (rg_local r') i =
         (case bt_get (rg_pending_local r) i of None \<Rightarrow> bt_get (rd_local before) i | Some e \<Rightarrow> ed_desired e))
    \<and> (\<forall>i. bt_get (rg_managed r') i =
         (case bt_get (rg_pending_managed r) i of None \<Rightarrow> bt_get (rd_managed before) i | Some e \<Rightarrow> ed_desired e))
    \<and> (\<forall>i e. bt_get (rg_pending_local r) i = Some e \<longrightarrow>
         opt_eq registration_eq (bt_get (rd_local before) i) (ed_expected e))
    \<and> (\<forall>i e. bt_get (rg_pending_managed r) i = Some e \<longrightarrow>
         opt_eq managed_eq (bt_get (rd_managed before) i) (ed_expected e))"
proof -
  from assms obtain latest d where
    s: "document_read c (rg_path r) (view_of ev (rg_path r) w) = Ok latest"
      "managed_conflict r latest = None" "local_conflict r latest = None" "r' = snapshot (rg_path r) d"
    and d: "d = merge_staged r latest \<or> \<not> something_staged r \<and> d = latest"
    by (rule save_okE) blast
  have "bt_get (rd_local d) i = (case bt_get (rg_pending_local r) i of
          None \<Rightarrow> bt_get (rd_local latest) i | Some e \<Rightarrow> ed_desired e)
      \<and> bt_get (rd_managed d) i = (case bt_get (rg_pending_managed r) i of
          None \<Rightarrow> bt_get (rd_managed latest) i | Some e \<Rightarrow> ed_desired e)" for i
    using d by (auto simp: merge_staged_def Let_def something_staged_def bt_len_zero)
  with s show ?thesis
    by (intro exI [of _ latest])
      (simp add: snapshot_def managed_conflict_None local_conflict_None)
qed

section \<open>The file reads back\<close>

text \<open>
  What the code relies on of \<open>serde_json\<close>: the text of a valid document parses to the entries
  of the document, and it is UTF-8, also with the newline \<open>save\<close> appends.
\<close>

definition codec_ok :: "codec \<Rightarrow> bool" where
  "codec_ok c \<longleftrightarrow>
     (\<forall>path d b. document_validate c path d = Ok () \<and> cx_to c d = Ok b \<longrightarrow>
        cx_from c (b @ [CHR 0x0A]) = Ok (raw_of d) \<and> valid_utf8 (b @ [CHR 0x0A]))"

text \<open>An environment in which every call succeeds.\<close>

definition quiet :: save_env where
  "quiet =
     \<lparr>ev_mkdir = None, ev_lock_open = None, ev_try_lock = (\<lambda>_. Acquired), ev_delay = (\<lambda>_. 0),
      ev_open = None, ev_metadata = None, ev_read = None, ev_pid = 1, ev_create = (\<lambda>_. None),
      ev_write = None, ev_sync = None, ev_rename = None, ev_remove = None, ev_drop_remove = None\<rparr>"

text \<open>A file that exists is never reported as missing.\<close>

definition honest :: "save_env \<Rightarrow> bool" where
  "honest ev \<longleftrightarrow> (\<forall>e. ev_open ev = Some e \<longrightarrow> io_kind e \<noteq> NotFound)"

lemma read_written:
  assumes "codec_ok c" "document_validate c path d = Ok ()" "rd_schema d = REGISTRY_SCHEMA"
    and "cx_to c d = Ok b" "length (b @ [CHR 0x0A]) \<le> MAX_REGISTRY_BYTES"
    and "bt_get (dk_files w) path = Some (b @ [CHR 0x0A])"
  shows "document_read c path (view_of quiet path w) = Ok d"
proof -
  have "cx_from c (b @ [CHR 0x0A]) = Ok (raw_of d)" "valid_utf8 (b @ [CHR 0x0A])"
    using assms(1,2,4) by (auto simp: codec_ok_def)
  moreover from this(2) have "read_registry_text path (view_of quiet path w) = Ok (Some (b @ [CHR 0x0A]))"
    using assms(5,6) by (simp add: read_registry_text_def view_of_def quiet_def or_else_read_def Let_def)
  ultimately show ?thesis
    using assms(2,3) decode_raw_of [OF assms(2)]
    by (cases d) (simp add: document_read_def document_of_input_def REGISTRY_SCHEMA_def Let_def)
qed

text \<open>A read that succeeded gives the same when it is repeated without faults.\<close>

lemma read_quiet:
  assumes "document_read c path (view_of ev path w) = Ok d" "honest ev"
  shows "document_read c path (view_of quiet path w) = Ok d"
proof -
  have "read_registry_text path (view_of quiet path w) = read_registry_text path (view_of ev path w)"
    if "read_registry_text path (view_of ev path w) = Ok t" for t
    using that assms(2)
    by (cases "bt_get (dk_files w) path"; cases "ev_open ev"; cases "ev_metadata ev"; cases "ev_read ev")
      (auto simp: read_registry_text_def view_of_def quiet_def or_else_read_def honest_def
        split: if_splits)
  with assms(1) show ?thesis
    by (cases "read_registry_text path (view_of ev path w)") (auto simp: document_read_def)
qed

lemma read_valid: "document_read c path v = Ok d \<Longrightarrow> document_validate c path d = Ok ()"
  by (auto simp: document_read_def split: outcome.splits)

lemma merge_staged_schema [simp]: "rd_schema (merge_staged r d) = REGISTRY_SCHEMA"
  by (simp add: merge_staged_def Let_def)

lemma snapshot_document: "rg_document (snapshot path d) = d"
  by (simp add: snapshot_def)

lemma save_reads_back:
  assumes "codec_ok c" "honest ev" "save c ev r w = (Ok (), r', w')"
  shows "document_read c (rg_path r) (view_of quiet (rg_path r) w') = Ok (rg_document r')"
proof -
  from assms(3) obtain latest d where
    s: "document_read c (rg_path r) (view_of ev (rg_path r) w) = Ok latest" "r' = snapshot (rg_path r) d"
    and w: "d = merge_staged r latest \<and> document_validate c (rg_path r) d = Ok ()
       \<and> (\<exists>b. cx_to c d = Ok b \<and> length (b @ [CHR 0x0A]) \<le> MAX_REGISTRY_BYTES
            \<and> bt_get (dk_files w') (rg_path r) = Some (b @ [CHR 0x0A]))
     \<or> d = latest \<and> bt_get (dk_files w') (rg_path r) = bt_get (dk_files w) (rg_path r)"
    by (rule save_okE) blast
  from w have "document_read c (rg_path r) (view_of quiet (rg_path r) w') = Ok d"
  proof (elim disjE)
    assume "d = merge_staged r latest \<and> document_validate c (rg_path r) d = Ok ()
       \<and> (\<exists>b. cx_to c d = Ok b \<and> length (b @ [CHR 0x0A]) \<le> MAX_REGISTRY_BYTES
            \<and> bt_get (dk_files w') (rg_path r) = Some (b @ [CHR 0x0A]))"
    then show ?thesis using read_written [OF assms(1)] by auto
  next
    assume "d = latest \<and> bt_get (dk_files w') (rg_path r) = bt_get (dk_files w) (rg_path r)"
    then show ?thesis using read_quiet [OF s(1) assms(2)] view_of_cong [of w' "rg_path r" w quiet] by simp
  qed
  then show ?thesis by (simp add: s(2) snapshot_def)
qed

lemma load_after_save:
  assumes "codec_ok c" "honest ev" "save c ev r w = (Ok (), r', w')"
  shows "registry_load c (rg_path r) (view_of quiet (rg_path r) w') = Ok r'"
  using save_reads_back [OF assms] save_okE [OF assms(3)]
  by (simp add: registry_load_def) (metis snapshot_document)

text \<open>
  C30: what \<open>save\<close> wrote reads back. After a save that succeeded, loading the registry again
  gives the very snapshot \<open>save\<close> left, whether or not it had to write.
\<close>

theorem save_load_round_trip:
  assumes "codec_ok c" "honest ev" "save c ev r w = (Ok (), r', w')"
  shows "registry_load c (rg_path r) (view_of quiet (rg_path r) w') = Ok r'"
  using assms by (rule load_after_save)

section \<open>Several processes\<close>

text \<open>The file and the snapshots of all the processes that use it.\<close>

record store =
  so_disk :: disk
  so_handles :: "plugin_registry list"

inductive store_step :: "codec \<Rightarrow> string \<Rightarrow> store \<Rightarrow> store \<Rightarrow> bool" for c path where
  load: "registry_load c path (view_of ev path (so_disk s)) = Ok r
    \<Longrightarrow> store_step c path s (s\<lparr>so_handles := so_handles s @ [r]\<rparr>)"
| edit: "h < length (so_handles s) \<Longrightarrow> registry_edit c (so_handles s ! h) r
    \<Longrightarrow> store_step c path s (s\<lparr>so_handles := (so_handles s)[h := r]\<rparr>)"
| save: "h < length (so_handles s) \<Longrightarrow> save c ev (so_handles s ! h) (so_disk s) = (x, r, w)
    \<Longrightarrow> store_step c path s (s\<lparr>so_disk := w, so_handles := (so_handles s)[h := r]\<rparr>)"

definition store_init :: "string \<Rightarrow> store \<Rightarrow> bool" where
  "store_init path s \<longleftrightarrow> bt_get (dk_files (so_disk s)) path = None \<and> so_handles s = []"

definition store_inv :: "codec \<Rightarrow> string \<Rightarrow> store \<Rightarrow> bool" where
  "store_inv c path s \<longleftrightarrow>
     (\<forall>r \<in> set (so_handles s). handle_inv c path r)
     \<and> (\<exists>d. document_read c path (view_of quiet path (so_disk s)) = Ok d)
     \<and> (\<forall>b. bt_get (dk_files (so_disk s)) path = Some b \<longrightarrow> length b \<le> MAX_REGISTRY_BYTES)"

lemma store_init_inv: "store_init path s \<Longrightarrow> store_inv c path s"
  by (simp add: store_init_def store_inv_def document_read_def read_registry_text_def view_of_def
      quiet_def default_valid)

lemma save_handle_inv:
  assumes "save c ev r w = (x, r', w')" "handle_inv c path r"
  shows "handle_inv c path r'"
proof (cases "x = Ok ()")
  case True
  with assms(1) have ok: "save c ev r w = (Ok (), r', w')" by simp
  from ok obtain latest d where "document_read c (rg_path r) (view_of ev (rg_path r) w) = Ok latest"
      "r' = snapshot (rg_path r) d" "document_validate c (rg_path r) d = Ok () \<or> d = latest"
    by (rule save_okE) blast
  then show ?thesis using handle_inv_snapshot [of c path d] assms(2) read_valid
    by (auto simp: handle_inv_def)
next
  case False
  with save_failE [OF assms(1)] assms(2) show ?thesis by simp
qed

lemma save_keeps_file:
  assumes "codec_ok c" "save c ev r w = (x, r', w')" "rg_path r = path"
    and "\<exists>d. document_read c path (view_of quiet path w) = Ok d"
    and "\<forall>b. bt_get (dk_files w) path = Some b \<longrightarrow> length b \<le> MAX_REGISTRY_BYTES"
  shows "(\<exists>d. document_read c path (view_of quiet path w') = Ok d)
    \<and> (\<forall>b. bt_get (dk_files w') path = Some b \<longrightarrow> length b \<le> MAX_REGISTRY_BYTES)"
proof (cases "bt_get (dk_files w') path = bt_get (dk_files w) path")
  case True
  with view_of_cong [of w' path w quiet] assms(4,5) show ?thesis by simp
next
  case False
  have "x = Ok ()"
    using False save_failE [OF assms(2)] assms(3) lock_path_differs [of path] by metis
  with assms(2) have "save c ev r w = (Ok (), r', w')" by simp
  then obtain d b where "document_validate c path d = Ok ()" "rd_schema d = REGISTRY_SCHEMA"
      "cx_to c d = Ok b" "length (b @ [CHR 0x0A]) \<le> MAX_REGISTRY_BYTES"
      "bt_get (dk_files w') path = Some (b @ [CHR 0x0A])"
    by (rule save_okE) (use False assms(3) merge_staged_schema in blast)
  with read_written [OF assms(1)] show ?thesis by auto
qed

lemma store_step_inv:
  assumes "codec_ok c" "store_step c path s s'" "store_inv c path s"
  shows "store_inv c path s'"
  using assms(2)
proof cases
  case (load ev r)
  then have "handle_inv c path r"
    by (auto simp: registry_load_def dest: read_valid intro: handle_inv_snapshot split: outcome.splits)
  with load assms(3) show ?thesis by (auto simp: store_inv_def)
next
  case (edit h r)
  then have "handle_inv c path r"
    using registry_edit_inv [of c "so_handles s ! h" r path] assms(3) by (simp add: store_inv_def)
  with edit assms(3) show ?thesis
    by (auto simp: store_inv_def dest!: set_update_subset_insert [THEN subsetD])
next
  case (save h ev x r w)
  have h: "handle_inv c path (so_handles s ! h)" using save(2) assms(3) by (simp add: store_inv_def)
  have "handle_inv c path r" by (rule save_handle_inv [OF save(3) h])
  moreover have "(\<exists>d. document_read c path (view_of quiet path w) = Ok d)
      \<and> (\<forall>b. bt_get (dk_files w) path = Some b \<longrightarrow> length b \<le> MAX_REGISTRY_BYTES)"
    by (rule save_keeps_file [OF assms(1) save(3)])
      (use h assms(3) in \<open>simp_all add: handle_inv_def store_inv_def\<close>)
  ultimately show ?thesis using save(1) assms(3)
    by (auto simp: store_inv_def dest!: set_update_subset_insert [THEN subsetD])
qed

interpretation store: transition_system "store_init path" "store_step c path"
    "\<lambda>s. codec_ok c \<longrightarrow> store_inv c path s" for c path
  by unfold_locales (auto intro: store_init_inv store_step_inv)

text \<open>
  C9: the registry file never becomes unreadable. However many processes load, edit and save
  in whatever order, with whatever failures in between, from a missing file on: in every
  reachable state the file loads when the file system answers, it has at most 1 MiB, and each
  snapshot shows its own valid document with its own staged edits on top.
\<close>

theorem registry_always_loads:
  assumes "codec_ok c" "store_init path s0" "(store_step c path)\<^sup>*\<^sup>* s0 s"
  shows "(\<exists>r. registry_load c path (view_of quiet path (so_disk s)) = Ok r)
    \<and> (\<forall>b. bt_get (dk_files (so_disk s)) path = Some b \<longrightarrow> length b \<le> 1048576)
    \<and> (\<forall>r \<in> set (so_handles s). document_validate c path (rg_document r) = Ok ()
         \<and> overlaid (rd_local (rg_document r)) (rg_pending_local r) (rg_local r)
         \<and> overlaid (rd_managed (rg_document r)) (rg_pending_managed r) (rg_managed r))"
proof -
  have "store_inv c path s" using store.reachable_inv [OF assms(2,3)] assms(1) by blast
  then show ?thesis
    by (auto simp: store_inv_def handle_inv_def registry_load_def MAX_REGISTRY_BYTES_def)
qed

section \<open>Revoking a permission\<close>

lemma local_pending_after_register:
  assumes "register_local c i l r = (Ok (), r')"
  shows "\<exists>e. bt_get (rg_pending_local r') i = Some e \<and> ed_desired e = Some l"
    and "rg_path r' = rg_path r" "validate_local_registration (cx_url c) l"
  using assms by (cases rule: register_local_cases; simp add: stage_local_def Let_def)+

lemma remove_permission_grants:
  "lr_grants (snd (remove_permission p l)) = filter (\<lambda>g. g \<noteq> p) (lr_grants l)"
  by (simp add: remove_permission_def Let_def)

text \<open>
  A revocation that was saved is in the file. When \<open>revoke_permission\<close> and then \<open>save\<close>
  succeed, whoever loads the registry afterwards finds the plugin registered without the
  permission, with a valid record.
\<close>

theorem revocation_reaches_file:
  assumes "codec_ok c" "honest ev" "revoke_permission c i p r = (Ok changed, r1)"
    and "save c ev r1 w = (Ok (), r2, w')"
  shows "\<exists>r3 l. registry_load c (rg_path r) (view_of quiet (rg_path r) w') = Ok r3
    \<and> bt_get (rg_local r3) i = Some l \<and> p \<notin> set (lr_grants l)
    \<and> validate_local_registration (cx_url c) l"
proof -
  from assms(3) obtain l where l: "bt_get (rg_local r) i = Some l"
    "register_local c i (snd (remove_permission p l)) r = (Ok (), r1)"
    by (cases rule: revoke_permission_cases) auto
  let ?l = "snd (remove_permission p l)"
  obtain e where e: "bt_get (rg_pending_local r1) i = Some e" "ed_desired e = Some ?l"
    using local_pending_after_register(1) [OF l(2)] by blast
  have path: "rg_path r1 = rg_path r" using local_pending_after_register(2) [OF l(2)] .
  from assms(4) obtain latest d where
    s: "r2 = snapshot (rg_path r1) d" "document_read c (rg_path r1) (view_of ev (rg_path r1) w) = Ok latest"
    and d: "something_staged r1 \<and> d = merge_staged r1 latest \<and> document_validate c (rg_path r1) d = Ok ()
        \<and> (\<exists>b. cx_to c d = Ok b \<and> length (b @ [CHR 0x0A]) \<le> MAX_REGISTRY_BYTES
            \<and> bt_get (dk_files w') (rg_path r1) = Some (b @ [CHR 0x0A]))
      \<or> rd_schema latest = 1 \<and> d = merge_staged r1 latest \<and> document_validate c (rg_path r1) d = Ok ()
        \<and> (\<exists>b. cx_to c d = Ok b \<and> length (b @ [CHR 0x0A]) \<le> MAX_REGISTRY_BYTES
            \<and> bt_get (dk_files w') (rg_path r1) = Some (b @ [CHR 0x0A]))
      \<or> \<not> something_staged r1"
    by (rule save_okE) blast
  have "something_staged r1" using e(1) by (auto simp: something_staged_def bt_len_zero)
  with d have "d = merge_staged r1 latest" "document_read c (rg_path r1) (view_of quiet (rg_path r1) w') = Ok d"
    using read_written [OF assms(1)] by auto
  then have "registry_load c (rg_path r) (view_of quiet (rg_path r) w') = Ok (snapshot (rg_path r) d)"
    "bt_get (rd_local d) i = Some ?l"
    using e path by (simp_all add: registry_load_def merge_staged_def Let_def)
  moreover have "p \<notin> set (lr_grants ?l)" by (simp add: remove_permission_grants)
  ultimately show ?thesis
    using local_pending_after_register(3) [OF l(2)] by (auto simp: snapshot_def)
qed

section \<open>Enablement\<close>

text \<open>A save keeps every staged assignment, and takes all others as they are in the file.\<close>

lemma save_enablement:
  assumes "handle_inv c path r" "something_staged r" "save c ev r w = (Ok (), r', w')"
  shows "\<exists>before. document_read c path (view_of ev path w) = Ok before
    \<and> (\<forall>j. is_enabled r' j = (if bt_get (rg_pending r) (canonical_plugin_id j) \<noteq> None
         then is_enabled r j else is_enabled (snapshot path before) j))"
proof -
  obtain latest where
    s: "document_read c (rg_path r) (view_of ev (rg_path r) w) = Ok latest"
      "r' = snapshot (rg_path r) (merge_staged r latest)"
    by (rule save_okE [OF assms(3)]) (use assms(2) in blast)
  have path: "rg_path r = path" using assms(1) by (simp add: handle_inv_def)
  have legacy: "bt_get (rg_pending r) LEGACY_GUI_PLUGIN_ID = None"
    using assms(1) by (auto simp: handle_inv_def canonical_plugin_id_def LEGACY_GUI_PLUGIN_ID_def GUI_PLUGIN_ID_def)
  have "is_enabled r' j = (if bt_get (rg_pending r) (canonical_plugin_id j) \<noteq> None
      then is_enabled r j else is_enabled (snapshot path latest) j)" for j
  proof -
    have differ: "GUI_PLUGIN_ID \<noteq> LEGACY_GUI_PLUGIN_ID" by (simp add: GUI_PLUGIN_ID_def LEGACY_GUI_PLUGIN_ID_def)
    have canonical: "canonical_plugin_id j \<noteq> LEGACY_GUI_PLUGIN_ID"
      using differ by (simp add: canonical_plugin_id_def)
    show ?thesis
      using canonical differ legacy
      by (cases "bt_get (rg_pending r) (canonical_plugin_id j)"; cases "bt_get (rg_pending r) GUI_PLUGIN_ID")
        (auto simp: is_enabled_def s(2) snapshot_def merge_staged_def Let_def split: option.split)
  qed
  with s(1) path show ?thesis by auto
qed

text \<open>
  Enablement. An assignment shows at once for the plugin and its legacy alias and for no
  other plugin; a successful save keeps every staged assignment, and takes all others as they
  are in the file.
\<close>

theorem enablement_survives_save:
  assumes "handle_inv c path r" "set_enabled i b r = (Ok (), r1)"
    and "save c ev r1 w = (Ok (), r2, w')"
  shows "(\<forall>j. is_enabled r1 j = (if canonical_plugin_id j = canonical_plugin_id i then b else is_enabled r j))
    \<and> is_enabled r2 i = b
    \<and> (\<exists>before. document_read c path (view_of ev path w) = Ok before
        \<and> (\<forall>j. is_enabled r2 j = (if bt_get (rg_pending r1) (canonical_plugin_id j) \<noteq> None
             then is_enabled r1 j else is_enabled (snapshot path before) j)))"
proof -
  have r1: "r1 = r\<lparr>rg_pending := bt_insert (canonical_plugin_id i) \<lparr>pf_enabled = b\<rparr> (rg_pending r)\<rparr>"
    using assms(2) by (simp add: set_enabled_def split: if_splits)
  have inv: "handle_inv c path r1" using set_enabled_inv [OF assms(2,1)] .
  have staged: "something_staged r1" by (auto simp: something_staged_def r1 bt_len_zero)
  have fields: "rg_document r1 = rg_document r"
    "rg_pending r1 = bt_insert (canonical_plugin_id i) \<lparr>pf_enabled = b\<rparr> (rg_pending r)"
    by (simp_all add: r1)
  have now: "is_enabled r1 j = (if canonical_plugin_id j = canonical_plugin_id i then b else is_enabled r j)" for j
    using fields by (simp add: is_enabled_def Let_def cong: option.case_cong)
  from save_enablement [OF inv staged assms(3)] now show ?thesis by (auto simp: r1)
qed

end
