(* ===== verification/Registry_Trust.thy ===== *)
theory Registry_Trust
  imports Registry_Saving
begin

text \<open>
  Which registrations a snapshot can show, and concrete runs of the registry on which the
  properties of \<open>Registry_Saving\<close> are evaluated.
\<close>

section \<open>Validation of the local records as a predicate\<close>

definition view_ok :: "codec \<Rightarrow> (string, local_registration) btree \<Rightarrow> bool" where
  "view_ok c m \<longleftrightarrow>
     (\<forall>i l. bt_get m i = Some l \<longrightarrow>
        valid_plugin_id i \<and> \<not> reserved_plugin_id i \<and> validate_local_registration (cx_url c) l)
     \<and> (\<forall>i j l k. bt_get m i = Some l \<and> bt_get m j = Some k \<and> path_eq (lr_path l) (lr_path k)
          \<longrightarrow> i = j)"

lemma validate_local_entries_iff:
  "validate_local_entries c path seen es = Ok () \<longleftrightarrow>
     (\<forall>(i, l) \<in> set es. valid_plugin_id i \<and> \<not> reserved_plugin_id i
        \<and> validate_local_registration (cx_url c) l
        \<and> (\<forall>(p, _) \<in> set seen. \<not> path_eq p (lr_path l)))
     \<and> sorted_wrt (\<lambda>(i, l) (j, k). \<not> path_eq (lr_path l) (lr_path k)) es"
proof (induction c path seen es rule: validate_local_entries.induct)
  case (2 c path seen i r es)
  let ?good = "valid_plugin_id i \<and> \<not> reserved_plugin_id i \<and> validate_local_registration (cx_url c) r"
  show ?case
  proof (cases "?good \<and> find (\<lambda>(p, _). path_eq p (lr_path r)) seen = None")
    case True
    then have seen: "\<forall>(p, _) \<in> set seen. \<not> path_eq p (lr_path r)" by (auto simp: find_None_iff)
    have good: "valid_plugin_id i" "\<not> reserved_plugin_id i" "validate_local_registration (cx_url c) r"
      and none: "find (\<lambda>(p, _). path_eq p (lr_path r)) seen = None"
      using True by blast+
    have step: "validate_local_entries c path seen ((i, r) # es)
        = validate_local_entries c path ((lr_path r, i) # seen) es"
      by (simp add: good none)
    have "\<not> \<not> valid_plugin_id i" "\<not> \<not> validate_local_registration (cx_url c) r" using good by simp_all
    note ih = "2.IH" [OF this(1) good(2) this(2) none]
    show ?thesis unfolding step ih using good seen by (simp add: case_prod_unfold) blast
  next
    case False
    have "validate_local_entries c path seen ((i, r) # es) \<noteq> Ok ()"
      using False by (auto simp del: find_None_iff split: option.split)
    moreover have "\<not> (?good \<and> (\<forall>(p, _) \<in> set seen. \<not> path_eq p (lr_path r)))"
      using False by (auto simp: find_None_iff)
    ultimately show ?thesis by auto
  qed
qed simp

lemma sorted_wrt_entries:
  fixes m :: "('k::linorder, 'v) btree"
  assumes "\<And>x y. R x y \<longleftrightarrow> R y x"
  shows "sorted_wrt (\<lambda>(i, v) (j, w). \<not> R v w) (bt_entries m) \<longleftrightarrow>
    (\<forall>i j v w. bt_get m i = Some v \<and> bt_get m j = Some w \<and> R v w \<longrightarrow> i = j)"
proof -
  have "sorted_wrt (\<lambda>(i, v) (j, w). \<not> R v w) es \<longleftrightarrow>
      (\<forall>i j v w. (i, v) \<in> set es \<and> (j, w) \<in> set es \<and> R v w \<longrightarrow> i = j)"
    if "distinct (map fst es)" for es :: "('k \<times> 'v) list"
    using that
  proof (induction es)
    case (Cons e es)
    obtain k x where e: "e = (k, x)" by (cases e)
    have keys: "(j, w) \<in> set es \<Longrightarrow> j \<noteq> k" for j w using Cons.prems e by force
    have same: "(k, w) \<in> set (e # es) \<longleftrightarrow> w = x" for w using keys e by auto
    show ?case
      using Cons e keys assms by (auto simp: Ball_def) blast+
  qed simp
  from this [of "bt_entries m"] show ?thesis by (simp add: entries_distinct in_entries)
qed

lemma local_entries_view_ok:
  "validate_local_entries c path [] (bt_entries m) = Ok () \<longleftrightarrow> view_ok c m"
proof -
  have "sorted_wrt (\<lambda>(i, l) (j, k). \<not> path_eq (lr_path l) (lr_path k)) (bt_entries m) \<longleftrightarrow>
    (\<forall>i j l k. bt_get m i = Some l \<and> bt_get m j = Some k \<and> path_eq (lr_path l) (lr_path k) \<longrightarrow> i = j)"
    using sorted_wrt_entries [of "\<lambda>l k. path_eq (lr_path l) (lr_path k)" m] path_eq_sym by blast
  moreover have "(\<forall>(i, l) \<in> set (bt_entries m). valid_plugin_id i \<and> \<not> reserved_plugin_id i
        \<and> validate_local_registration (cx_url c) l \<and> (\<forall>(p, _) \<in> set []. \<not> path_eq p (lr_path l)))
    \<longleftrightarrow> (\<forall>i l. bt_get m i = Some l \<longrightarrow> valid_plugin_id i \<and> \<not> reserved_plugin_id i
        \<and> validate_local_registration (cx_url c) l)"
    by (auto simp: in_entries [symmetric])
  ultimately show ?thesis unfolding validate_local_entries_iff view_ok_def by auto
qed

lemma valid_document_view: "document_validate c path d = Ok () \<Longrightarrow> view_ok c (rd_local d)"
  by (auto simp: document_validate_def local_entries_view_ok
      split: if_splits option.splits outcome.splits)

section \<open>Edits keep the view valid\<close>

text \<open>All edits but the restoration of an earlier state, which stages what it is given.\<close>

inductive trust_edit :: "codec \<Rightarrow> plugin_registry \<Rightarrow> plugin_registry \<Rightarrow> bool" for c where
  register_managed: "register_managed c i l m r = (x, r') \<Longrightarrow> trust_edit c r r'"
| register_local: "register_local c i l r = (x, r') \<Longrightarrow> trust_edit c r r'"
| revoke_permission: "revoke_permission c i permission r = (y, r') \<Longrightarrow> trust_edit c r r'"
| remove_local: "remove_local i r = (x, r') \<Longrightarrow> trust_edit c r r'"
| set_enabled: "set_enabled i b r = (x, r') \<Longrightarrow> trust_edit c r r'"

lemma rg_local_stage [simp]: "rg_local (stage_local i v r) = set_opt i v (rg_local r)"
  by (simp add: stage_local_def Let_def)

lemma view_ok_insert:
  assumes "view_ok c (rg_local r)" "validate_local_id r i = None"
    and "validate_local_registration (cx_url c) l" "\<not> path_taken r i (lr_path l)"
  shows "view_ok c (set_opt i (Some l) (rg_local r))"
proof -
  have "valid_plugin_id i" "\<not> reserved_plugin_id i"
    using assms(2) by (auto simp: validate_local_id_def split: if_splits)
  moreover have "j = i" if "bt_get (rg_local r) j = Some k" "path_eq (lr_path k) (lr_path l)" for j k
    using assms(4) that by (auto simp: path_taken_def)
  moreover have "j = i" if "bt_get (rg_local r) j = Some k" "path_eq (lr_path l) (lr_path k)" for j k
    using calculation(3) that path_eq_sym by metis
  ultimately show ?thesis using assms(1,3) unfolding view_ok_def by (simp add: path_eq_sym) metis
qed

lemma view_ok_remove: "view_ok c m \<Longrightarrow> view_ok c (set_opt i None m)"
  by (auto simp: view_ok_def)

lemma trust_edit_view:
  assumes "trust_edit c r r'" "view_ok c (rg_local r)"
  shows "view_ok c (rg_local r')"
  using assms(1)
proof cases
  case (register_managed i l m x)
  from register_managed(1) show ?thesis
    by (cases rule: register_managed_cases) (use assms(2) view_ok_insert in auto)
next
  case (register_local i l x)
  from register_local(1) show ?thesis
    by (cases rule: register_local_cases) (use assms(2) view_ok_insert in auto)
next
  case (revoke_permission i p y)
  from revoke_permission(1) show ?thesis
  proof (cases rule: revoke_permission_cases)
    case (2 l)
    from 2(3) show ?thesis
      by (cases rule: register_local_cases) (use assms(2) view_ok_insert in auto)
  qed (use assms(2) in simp)
next
  case (remove_local i x)
  from remove_local(1) show ?thesis
    by (cases rule: remove_local_cases) (use assms(2) view_ok_remove in auto)
next
  case (set_enabled i b x)
  with assms(2) show ?thesis by (auto simp: set_enabled_def split: if_splits)
qed

text \<open>
  Whatever is staged, what a snapshot shows is trustworthy. From a loaded registry, after
  any sequence of registrations, revocations, removals and assignments, accepted or refused,
  each registered plugin has an id that is well formed and not reserved and a valid record,
  and no two plugins share a directory, however their paths are spelled.
\<close>

theorem staged_view_trustworthy:
  assumes "registry_load c path v = Ok r" "(trust_edit c)\<^sup>*\<^sup>* r r'"
    and "bt_get (rg_local r') i = Some l"
  shows "valid_plugin_id i \<and> \<not> reserved_plugin_id i \<and> validate_local_registration (cx_url c) l
    \<and> (\<forall>j k. bt_get (rg_local r') j = Some k \<and> path_components (lr_path k) = path_components (lr_path l)
         \<longrightarrow> j = i)"
proof -
  have "view_ok c (rg_local r)"
    using assms(1) read_valid valid_document_view
    by (fastforce simp: registry_load_def snapshot_def split: outcome.splits)
  with assms(2) have "view_ok c (rg_local r')"
    by (induction rule: rtranclp_induct) (auto intro: trust_edit_view)
  with assms(3) show ?thesis by (auto simp: view_ok_def path_eq_def)
qed

section \<open>A concrete run\<close>

text \<open>When a save in a quiet environment succeeds.\<close>

lemma quiet_simps [simp]:
  "ev_mkdir quiet = None" "ev_lock_open quiet = None" "ev_try_lock quiet t = Acquired"
  "ev_open quiet = None" "ev_metadata quiet = None" "ev_read quiet = None" "ev_pid quiet = 1"
  "ev_create quiet p = None" "ev_write quiet = None" "ev_sync quiet = None"
  "ev_rename quiet = None" "honest quiet"
  by (simp_all add: quiet_def honest_def)

lemma lock_quiet [simp]: "lock_loop path quiet timeout now = Ok ()"
  by (subst lock_loop.simps) simp

lemma temp_name_lock: "temp_name path 1 q \<noteq> lock_path path"
  by (simp add: temp_name_def lock_path_def show_nat.simps [of 1] digit_char_def)

lemma save_writes:
  assumes "path_parent (rg_path r) = Some (d # ds)"
    and "document_read c (rg_path r) (view_of quiet (rg_path r) w) = Ok latest"
    and "managed_conflict r latest = None" "local_conflict r latest = None" "something_staged r"
    and "document_validate c (rg_path r) (merge_staged r latest) = Ok ()"
    and "cx_to c (merge_staged r latest) = Ok b" "length (b @ [CHR 0x0A]) \<le> MAX_REGISTRY_BYTES"
    and "bt_get (dk_files w) (temp_name (rg_path r) 1 (dk_sequence w)) = None"
  shows "\<exists>w'. save c quiet r w = (Ok (), snapshot (rg_path r) (merge_staged r latest), w')"
proof -
  let ?p = "rg_path r"
  obtain w1 where w1: "lock_registry ?p quiet REGISTRY_LOCK_TIMEOUT w = (Ok (), w1)"
    by (simp add: lock_registry_def)
  have sequence: "dk_sequence w1 = dk_sequence w"
    using w1 by (auto simp: lock_registry_def split: if_splits)
  have free: "bt_get (dk_files w1) (temp_name ?p 1 (dk_sequence w1)) = None"
    using lock_registry_frame [OF w1 temp_name_lock] assms(9) sequence by simp
  have view: "view_of quiet ?p w1 = view_of quiet ?p w"
    by (rule view_of_cong) (rule lock_registry_frame [OF w1], metis lock_path_differs)
  have attempts: "TEMP_FILE_ATTEMPTS = Suc 127" by (simp add: TEMP_FILE_ATTEMPTS_def)
  obtain w2 where "temp_create ?p quiet TEMP_FILE_ATTEMPTS w1
      = (Ok (temp_name ?p 1 (dk_sequence w1)), w2)"
    unfolding attempts temp_create.simps(2) using free by (simp add: Let_def)
  then obtain w3 where "write_document c quiet ?p (merge_staged r latest) w1 = (Ok (), w3)"
    using assms(6-8)
    by (auto simp: write_document_def replace_registry_def write_and_rename_def Let_def)
  then have "save_locked c quiet r w1 = (Ok (merge_staged r latest), w3)"
    using assms(2-5) view by (simp add: save_locked_def)
  then show ?thesis
    using assms(1) w1 by (simp add: save_def)
qed

definition demo_path :: string where
  "demo_path = ''/home/config.json''"

definition revoked_registration :: local_registration where
  "revoked_registration = snd (remove_permission HostProcess demo_registration)"

definition demo_doc1 :: registry_document where
  "demo_doc1 = document_default\<lparr>rd_local := bt_insert ''dev.tool'' demo_registration bt_empty\<rparr>"

definition demo_doc2 :: registry_document where
  "demo_doc2 = document_default\<lparr>rd_local := bt_insert ''dev.tool'' revoked_registration bt_empty\<rparr>"

definition demo_doc3 :: registry_document where
  "demo_doc3 = document_default\<lparr>rd_plugins := bt_insert ''dev.tool'' \<lparr>pf_enabled = False\<rparr> bt_empty\<rparr>"

text \<open>A codec for these three documents; it refuses to serialize any other.\<close>

definition demo_codec :: codec where
  "demo_codec =
     \<lparr>cx_url = (\<lambda>_. None), cx_tables = ascii_tables, cx_manifest_to = (\<lambda>_. Err []),
      cx_manifest_from = (\<lambda>_. Err []),
      cx_from = (\<lambda>text. if text = ''A'' @ [CHR 0x0A] then Ok (raw_of demo_doc1)
                        else if text = ''B'' @ [CHR 0x0A] then Ok (raw_of demo_doc2)
                        else if text = ''C'' @ [CHR 0x0A] then Ok (raw_of demo_doc3) else Err ''text''),
      cx_to = (\<lambda>d. if d = demo_doc1 then Ok ''A'' else if d = demo_doc2 then Ok ''B''
                    else if d = demo_doc3 then Ok ''C'' else Err ''document'')\<rparr>"

lemma demo_codec_ok: "codec_ok demo_codec"
  by (auto simp: codec_ok_def demo_codec_def valid_utf8_def byte_def split: if_splits)

lemma demo_docs_differ: "demo_doc1 \<noteq> demo_doc2" "demo_doc3 \<noteq> demo_doc1" "demo_doc3 \<noteq> demo_doc2"
proof -
  have g: "bt_get (rd_local demo_doc1) ''dev.tool'' = Some demo_registration"
    "bt_get (rd_local demo_doc2) ''dev.tool'' = Some revoked_registration"
    "bt_get (rd_local demo_doc3) ''dev.tool'' = None"
    by (simp_all add: demo_doc1_def demo_doc2_def demo_doc3_def document_default_def)
  have "HostProcess \<in> set (lr_grants demo_registration)" "HostProcess \<notin> set (lr_grants revoked_registration)"
    by (simp_all add: demo_registration_def revoked_registration_def remove_permission_grants)
  with g show "demo_doc1 \<noteq> demo_doc2" "demo_doc3 \<noteq> demo_doc1" "demo_doc3 \<noteq> demo_doc2"
    by auto
qed

lemma demo_tool_id: "valid_plugin_id ''dev.tool''" "\<not> reserved_plugin_id ''dev.tool''"
  "canonical_plugin_id ''dev.tool'' = ''dev.tool''"
  by (simp_all add: valid_plugin_id_def MAX_PLUGIN_ID_BYTES_def is_ascii_def byte_def
      ascii_lower_def ascii_digit_def reserved_plugin_id_def LEGACY_GUI_PLUGIN_ID_def
      canonical_plugin_id_def)

lemma revoked_valid: "validate_local_registration (\<lambda>_. None) revoked_registration"
  by code_simp

lemma demo_view_ok: "validate_local_registration (cx_url c) l \<Longrightarrow>
    view_ok c (bt_insert ''dev.tool'' l bt_empty)"
  by (auto simp: view_ok_def demo_tool_id)

lemma demo_docs_valid:
  "document_validate demo_codec path demo_doc1 = Ok ()"
  "document_validate demo_codec path demo_doc2 = Ok ()"
  "document_validate demo_codec path demo_doc3 = Ok ()"
proof -
  have url: "cx_url demo_codec = (\<lambda>_. None)" by (simp add: demo_codec_def)
  have "validate_local_entries demo_codec path [] (bt_entries (bt_insert ''dev.tool'' l bt_empty)) = Ok ()"
    if "validate_local_registration (\<lambda>_. None) l" for l
    using that by (subst local_entries_view_ok) (simp add: demo_view_ok url)
  from this [OF demo_registration_valid] this [OF revoked_valid]
  show "document_validate demo_codec path demo_doc1 = Ok ()"
    "document_validate demo_codec path demo_doc2 = Ok ()"
    "document_validate demo_codec path demo_doc3 = Ok ()"
    by (simp_all add: document_validate_def demo_doc1_def demo_doc2_def demo_doc3_def
        document_default_def REGISTRY_SCHEMA_def bt_keys_def demo_tool_id)
qed

lemma demo_to: "cx_to demo_codec demo_doc1 = Ok ''A''" "cx_to demo_codec demo_doc2 = Ok ''B''"
  "cx_to demo_codec demo_doc3 = Ok ''C''"
  using demo_docs_differ by (auto simp: demo_codec_def)

text \<open>The snapshots and disks of the run: load, register, save, revoke, save.\<close>

definition demo_disk :: disk where
  "demo_disk = \<lparr>dk_files = bt_empty, dk_sequence = 0\<rparr>"

definition demo_start :: plugin_registry where
  "demo_start = snapshot demo_path document_default"

definition demo_staged :: plugin_registry where
  "demo_staged = snd (register_local demo_codec ''dev.tool'' demo_registration demo_start)"

definition demo_disk1 :: disk where
  "demo_disk1 = snd (snd (save demo_codec quiet demo_staged demo_disk))"

definition demo_saved :: plugin_registry where
  "demo_saved = snapshot demo_path demo_doc1"

definition demo_revoked :: plugin_registry where
  "demo_revoked = snd (revoke_permission demo_codec ''dev.tool'' HostProcess demo_saved)"

lemma demo_start_fields [simp]:
  "rg_path demo_start = demo_path" "rg_local demo_start = bt_empty"
  "rg_managed demo_start = bt_empty" "rg_document demo_start = document_default"
  "rg_pending demo_start = bt_empty" "rg_pending_local demo_start = bt_empty"
  "rg_pending_managed demo_start = bt_empty"
  by (simp_all add: demo_start_def snapshot_def document_default_def)

lemma demo_parent: "path_parent demo_path = Some (RootDir # [Normal ''home''])"
  by code_simp

lemma demo_start_reads: "document_read demo_codec demo_path (view_of ev demo_path demo_disk)
    = Ok document_default" if "honest ev" "ev_open ev = None"
  using that
  by (simp add: document_read_def read_registry_text_def view_of_def demo_disk_def default_valid)

lemma demo_register:
  "register_local demo_codec ''dev.tool'' demo_registration demo_start = (Ok (), demo_staged)"
proof -
  have "validate_local_registration (cx_url demo_codec) demo_registration"
    using demo_registration_valid by (simp add: demo_codec_def)
  then have "fst (register_local demo_codec ''dev.tool'' demo_registration demo_start) = Ok ()"
    by (simp add: register_local_def validate_local_id_def demo_tool_id path_taken_def Let_def)
  then show ?thesis unfolding demo_staged_def by (metis prod.collapse)
qed

lemma demo_staged_fields:
  "rg_path demo_staged = demo_path" "rg_pending demo_staged = bt_empty"
  "bt_get (rg_pending_local demo_staged) i
     = (if i = ''dev.tool'' then Some \<lparr>ed_expected = None, ed_desired = Some demo_registration\<rparr> else None)"
  "bt_get (rg_pending_managed demo_staged) i
     = (if i = ''dev.tool'' then Some \<lparr>ed_expected = None, ed_desired = None\<rparr> else None)"
  "bt_get (rg_local demo_staged) ''dev.tool'' = Some demo_registration"
  "rg_pending_local demo_staged
     = bt_insert ''dev.tool'' \<lparr>ed_expected = None, ed_desired = Some demo_registration\<rparr> bt_empty"
proof -
  from demo_register have staged: "demo_staged = stage_managed ''dev.tool'' None
      (stage_local ''dev.tool'' (Some demo_registration) demo_start)"
    by (cases rule: register_local_cases) simp_all
  show "rg_path demo_staged = demo_path" "rg_pending demo_staged = bt_empty"
    "bt_get (rg_pending_local demo_staged) i
       = (if i = ''dev.tool'' then Some \<lparr>ed_expected = None, ed_desired = Some demo_registration\<rparr> else None)"
    "bt_get (rg_pending_managed demo_staged) i
       = (if i = ''dev.tool'' then Some \<lparr>ed_expected = None, ed_desired = None\<rparr> else None)"
    "bt_get (rg_local demo_staged) ''dev.tool'' = Some demo_registration"
    "rg_pending_local demo_staged
       = bt_insert ''dev.tool'' \<lparr>ed_expected = None, ed_desired = Some demo_registration\<rparr> bt_empty"
    unfolding staged by (simp_all add: stage_local_def stage_managed_def Let_def document_default_def)
qed

lemma merge_demo_staged: "merge_staged demo_staged document_default = demo_doc1"
proof -
  have "apply_edits (bt_entries (rg_pending_local demo_staged)) bt_empty
      = bt_insert ''dev.tool'' demo_registration bt_empty"
    "apply_edits (bt_entries (rg_pending_managed demo_staged)) bt_empty = bt_empty"
    by (rule bt_eqI, simp add: demo_staged_fields(1-5))+
  then show ?thesis
    by (simp add: merge_staged_def demo_doc1_def document_default_def demo_staged_fields
        bt_extend_def Let_def)
qed

lemma demo_save:
  "save demo_codec quiet demo_staged demo_disk = (Ok (), demo_saved, demo_disk1)"
proof -
  have "\<exists>w'. save demo_codec quiet demo_staged demo_disk
      = (Ok (), snapshot (rg_path demo_staged) (merge_staged demo_staged document_default), w')"
  proof (rule save_writes [where b = "''A''"])
    show "path_parent (rg_path demo_staged) = Some (RootDir # [Normal ''home''])"
      by (simp add: demo_staged_fields demo_parent)
    show "document_read demo_codec (rg_path demo_staged)
        (view_of quiet (rg_path demo_staged) demo_disk) = Ok document_default"
      by (simp add: demo_staged_fields demo_start_reads)
    show "managed_conflict demo_staged document_default = None"
      "local_conflict demo_staged document_default = None"
      by (simp_all add: managed_conflict_None local_conflict_None demo_staged_fields document_default_def)
    show "something_staged demo_staged"
      using demo_staged_fields(3) [of "''dev.tool''"] by (auto simp: something_staged_def bt_len_zero)
  qed (simp_all add: merge_demo_staged demo_docs_valid demo_to MAX_REGISTRY_BYTES_def demo_disk_def)
  then show ?thesis
    by (auto simp: demo_disk1_def demo_saved_def demo_staged_fields merge_demo_staged)
qed

lemma demo_revoke:
  "revoke_permission demo_codec ''dev.tool'' HostProcess demo_saved = (Ok True, demo_revoked)"
proof -
  have view: "bt_get (rg_local demo_saved) ''dev.tool'' = Some demo_registration"
    and views: "rg_local demo_saved = bt_insert ''dev.tool'' demo_registration bt_empty"
    by (simp_all add: demo_saved_def snapshot_def demo_doc1_def document_default_def)
  have "remove_permission HostProcess demo_registration = (True, revoked_registration)"
    unfolding revoked_registration_def by (subst prod_eq_iff) code_simp
  moreover have "validate_local_registration (cx_url demo_codec) revoked_registration"
    using revoked_valid by (simp add: demo_codec_def)
  moreover have "path_eq (lr_path demo_registration) (lr_path revoked_registration)"
    by (simp add: revoked_registration_def remove_permission_def Let_def)
  ultimately have "fst (revoke_permission demo_codec ''dev.tool'' HostProcess demo_saved) = Ok True"
    by (simp add: revoke_permission_def view register_local_def validate_local_id_def demo_tool_id
        path_taken_def views Let_def)
  then show ?thesis unfolding demo_revoked_def by (metis prod.collapse)
qed

lemma demo_revoked_fields:
  "rg_path demo_revoked = demo_path" "rg_pending demo_revoked = bt_empty"
  "bt_get (rg_pending_local demo_revoked) i
     = (if i = ''dev.tool'' then Some \<lparr>ed_expected = Some demo_registration,
          ed_desired = Some revoked_registration\<rparr> else None)"
  "bt_get (rg_pending_managed demo_revoked) i
     = (if i = ''dev.tool'' then Some \<lparr>ed_expected = None, ed_desired = None\<rparr> else None)"
proof -
  have start: "rg_path demo_saved = demo_path" "rg_managed demo_saved = bt_empty"
    "rg_document demo_saved = demo_doc1" "rg_pending demo_saved = bt_empty"
    "rg_pending_local demo_saved = bt_empty" "rg_pending_managed demo_saved = bt_empty"
    "bt_get (rg_local demo_saved) ''dev.tool'' = Some demo_registration"
    by (simp_all add: demo_saved_def snapshot_def demo_doc1_def document_default_def)
  from demo_revoke have "register_local demo_codec ''dev.tool'' revoked_registration demo_saved
      = (Ok (), demo_revoked)"
    by (cases rule: revoke_permission_cases) (use start(7) in \<open>auto simp: revoked_registration_def\<close>)
  then have staged: "demo_revoked = stage_managed ''dev.tool'' None
      (stage_local ''dev.tool'' (Some revoked_registration) demo_saved)"
    by (cases rule: register_local_cases) (simp_all add: start)
  show "rg_path demo_revoked = demo_path" "rg_pending demo_revoked = bt_empty"
    "bt_get (rg_pending_local demo_revoked) i
       = (if i = ''dev.tool'' then Some \<lparr>ed_expected = Some demo_registration,
            ed_desired = Some revoked_registration\<rparr> else None)"
    "bt_get (rg_pending_managed demo_revoked) i
       = (if i = ''dev.tool'' then Some \<lparr>ed_expected = None, ed_desired = None\<rparr> else None)"
    unfolding staged
    by (simp_all add: stage_local_def stage_managed_def Let_def start demo_doc1_def document_default_def)
qed

lemma merge_demo_revoked: "merge_staged demo_revoked demo_doc1 = demo_doc2"
proof -
  have "apply_edits (bt_entries (rg_pending_local demo_revoked)) (rd_local demo_doc1)
      = bt_insert ''dev.tool'' revoked_registration bt_empty"
    "apply_edits (bt_entries (rg_pending_managed demo_revoked)) bt_empty = bt_empty"
    by (rule bt_eqI, simp add: demo_revoked_fields demo_doc1_def)+
  then show ?thesis
    by (simp add: merge_staged_def demo_doc1_def demo_doc2_def document_default_def demo_revoked_fields
        bt_extend_def Let_def)
qed

lemma demo_saved_reads:
  "document_read demo_codec demo_path (view_of quiet demo_path demo_disk1) = Ok demo_doc1"
  using save_reads_back [OF demo_codec_ok _ demo_save]
  by (simp add: demo_staged_fields demo_saved_def snapshot_def)

lemma demo_save_revoked:
  "\<exists>w. save demo_codec quiet demo_revoked demo_disk1 = (Ok (), snapshot demo_path demo_doc2, w)"
proof -
  have "\<exists>w'. save demo_codec quiet demo_revoked demo_disk1
      = (Ok (), snapshot (rg_path demo_revoked) (merge_staged demo_revoked demo_doc1), w')"
  proof (rule save_writes [where b = "''B''"])
    show "path_parent (rg_path demo_revoked) = Some (RootDir # [Normal ''home''])"
      by (simp add: demo_revoked_fields demo_parent)
    show "document_read demo_codec (rg_path demo_revoked)
        (view_of quiet (rg_path demo_revoked) demo_disk1) = Ok demo_doc1"
      by (simp add: demo_revoked_fields demo_saved_reads)
    show "managed_conflict demo_revoked demo_doc1 = None" "local_conflict demo_revoked demo_doc1 = None"
      by (simp_all add: managed_conflict_None local_conflict_None demo_revoked_fields
          document_default_def demo_doc1_def)
    show "something_staged demo_revoked"
      using demo_revoked_fields(3) [of "''dev.tool''"] by (auto simp: something_staged_def bt_len_zero)
    show "bt_get (dk_files demo_disk1) (temp_name (rg_path demo_revoked) 1 (dk_sequence demo_disk1)) = None"
      using temp_name_lock temp_name_differs
      by (rule_tac save_okE [OF demo_save]) (simp add: demo_revoked_fields demo_staged_fields demo_disk_def)
  qed (simp_all add: merge_demo_revoked demo_docs_valid demo_to MAX_REGISTRY_BYTES_def)
  then show ?thesis by (simp add: demo_revoked_fields merge_demo_revoked)
qed

text \<open>A snapshot loaded before the first save is stale after it: its edit is refused.\<close>

lemma demo_stale_save:
  "\<exists>w. save demo_codec quiet demo_staged demo_disk1
     = (Err (LocalEdit demo_path ''dev.tool'' AlreadyExists IdTaken), demo_staged, w)"
proof -
  obtain w1 where w1: "lock_registry demo_path quiet REGISTRY_LOCK_TIMEOUT demo_disk1 = (Ok (), w1)"
    by (simp add: lock_registry_def)
  have "view_of quiet demo_path w1 = view_of quiet demo_path demo_disk1"
    by (rule view_of_cong) (rule lock_registry_frame [OF w1], metis lock_path_differs)
  then have read: "document_read demo_codec demo_path (view_of quiet demo_path w1) = Ok demo_doc1"
    using demo_saved_reads by simp
  have "managed_conflict demo_staged demo_doc1 = None"
    by (simp add: managed_conflict_None demo_staged_fields demo_doc1_def document_default_def)
  moreover have "local_conflict demo_staged demo_doc1
      = Some (LocalEdit demo_path ''dev.tool'' AlreadyExists IdTaken)"
    by (simp add: local_conflict_def demo_staged_fields demo_doc1_def local_error_def)
  ultimately have "save_locked demo_codec quiet demo_staged w1
      = (Err (LocalEdit demo_path ''dev.tool'' AlreadyExists IdTaken), w1)"
    by (simp add: save_locked_def demo_staged_fields read)
  with w1 show ?thesis by (simp add: save_def demo_staged_fields demo_parent)
qed

text \<open>A preference of the same plugin.\<close>

definition demo_disabled :: plugin_registry where
  "demo_disabled = demo_start\<lparr>rg_pending := bt_insert ''dev.tool'' \<lparr>pf_enabled = False\<rparr> bt_empty\<rparr>"

lemma demo_disable: "set_enabled ''dev.tool'' False demo_start = (Ok (), demo_disabled)"
  by (simp add: set_enabled_def demo_tool_id demo_disabled_def)

lemma demo_save_disabled:
  "\<exists>w. save demo_codec quiet demo_disabled demo_disk = (Ok (), snapshot demo_path demo_doc3, w)"
proof -
  have fields: "rg_path demo_disabled = demo_path" "rg_pending_local demo_disabled = bt_empty"
    "rg_pending_managed demo_disabled = bt_empty"
    "rg_pending demo_disabled = bt_insert ''dev.tool'' \<lparr>pf_enabled = False\<rparr> bt_empty"
    by (simp_all add: demo_disabled_def)
  have merged: "merge_staged demo_disabled document_default = demo_doc3"
    by (simp add: merge_staged_def fields demo_doc3_def document_default_def apply_edits_def
        bt_extend_def Let_def GUI_PLUGIN_ID_def)
  have "\<exists>w'. save demo_codec quiet demo_disabled demo_disk
      = (Ok (), snapshot (rg_path demo_disabled) (merge_staged demo_disabled document_default), w')"
    by (rule save_writes [where b = "''C''", OF _ demo_start_reads [of quiet, folded fields(1)]])
      (simp_all add: fields demo_parent managed_conflict_None local_conflict_None
        something_staged_def bt_len_zero merged demo_docs_valid demo_to MAX_REGISTRY_BYTES_def demo_disk_def)
  then show ?thesis by (simp add: fields merged)
qed

section \<open>The properties on the run\<close>

theorem save_all_or_nothing_witness:
  "\<exists>w. save demo_codec quiet demo_staged demo_disk1
       = (Err (LocalEdit demo_path ''dev.tool'' AlreadyExists IdTaken), demo_staged, w)
     \<and> bt_get (dk_files w) demo_path = bt_get (dk_files demo_disk1) demo_path"
  using demo_stale_save save_all_or_nothing [of demo_codec quiet demo_staged demo_disk1]
  by (fastforce simp: demo_staged_fields)

theorem enablement_survives_save_witness:
  "\<not> is_enabled (snapshot demo_path demo_doc3) ''dev.tool'' \<and> is_enabled demo_start ''dev.tool''"
proof -
  have inv: "handle_inv demo_codec demo_path demo_start"
    unfolding demo_start_def by (rule handle_inv_snapshot [OF default_valid])
  obtain w where "save demo_codec quiet demo_disabled demo_disk
      = (Ok (), snapshot demo_path demo_doc3, w)" using demo_save_disabled by blast
  from enablement_survives_save [OF inv demo_disable this] show ?thesis
    by (simp add: is_enabled_def document_default_def)
qed

theorem save_merges_staged_edits_witness:
  "bt_get (rg_local demo_saved) ''dev.tool'' = Some demo_registration
   \<and> document_read demo_codec demo_path (view_of quiet demo_path demo_disk) = Ok document_default"
  using save_merges_staged_edits [OF demo_save]
  by (auto simp: demo_staged_fields demo_start_reads)

theorem save_load_round_trip_witness:
  "registry_load demo_codec demo_path (view_of quiet demo_path demo_disk1) = Ok demo_saved"
  using save_load_round_trip [OF demo_codec_ok _ demo_save] by (simp add: demo_staged_fields)

theorem registry_always_loads_witness:
  "\<exists>s. (store_step demo_codec demo_path)\<^sup>*\<^sup>* \<lparr>so_disk = demo_disk, so_handles = []\<rparr> s
     \<and> so_disk s = demo_disk1 \<and> so_handles s = [demo_saved]
     \<and> (\<exists>r. registry_load demo_codec demo_path (view_of quiet demo_path (so_disk s)) = Ok r)"
proof -
  let ?s0 = "\<lparr>so_disk = demo_disk, so_handles = []\<rparr>"
  let ?s1 = "\<lparr>so_disk = demo_disk, so_handles = [demo_start]\<rparr>"
  let ?s2 = "\<lparr>so_disk = demo_disk, so_handles = [demo_staged]\<rparr>"
  let ?s3 = "\<lparr>so_disk = demo_disk1, so_handles = [demo_saved]\<rparr>"
  have "registry_load demo_codec demo_path (view_of quiet demo_path demo_disk) = Ok demo_start"
    by (simp add: registry_load_def demo_start_reads demo_start_def)
  then have 1: "store_step demo_codec demo_path ?s0 ?s1"
    using store_step.load [of demo_codec demo_path quiet ?s0 demo_start] by simp
  have 2: "store_step demo_codec demo_path ?s1 ?s2"
    using store_step.edit [of 0 ?s1 demo_codec demo_staged demo_path]
      registry_edit.register_local [OF demo_register] by simp
  have 3: "store_step demo_codec demo_path ?s2 ?s3"
    using store_step.save [of 0 ?s2 demo_codec quiet "Ok ()" demo_saved demo_disk1 demo_path] demo_save
    by simp
  have run: "(store_step demo_codec demo_path)\<^sup>*\<^sup>* ?s0 ?s3"
    using 1 2 3 by (meson rtranclp.rtrancl_into_rtrancl rtranclp.rtrancl_refl)
  have "store_init demo_path ?s0" by (simp add: store_init_def demo_disk_def)
  from registry_always_loads [OF demo_codec_ok this run] run show ?thesis
    by (intro exI [of _ ?s3]) simp
qed

theorem revocation_reaches_file_witness:
  "\<exists>w r3 l. save demo_codec quiet demo_revoked demo_disk1 = (Ok (), snapshot demo_path demo_doc2, w)
     \<and> registry_load demo_codec demo_path (view_of quiet demo_path w) = Ok r3
     \<and> bt_get (rg_local r3) ''dev.tool'' = Some l \<and> HostProcess \<notin> set (lr_grants l)"
proof -
  obtain w where w: "save demo_codec quiet demo_revoked demo_disk1
      = (Ok (), snapshot demo_path demo_doc2, w)" using demo_save_revoked by blast
  from revocation_reaches_file [OF demo_codec_ok _ demo_revoke w] w show ?thesis
    by (fastforce simp: demo_saved_def snapshot_def)
qed

theorem staged_view_trustworthy_witness:
  "(trust_edit demo_codec)\<^sup>*\<^sup>* demo_start demo_staged
   \<and> bt_get (rg_local demo_staged) ''dev.tool'' = Some demo_registration
   \<and> validate_local_registration (cx_url demo_codec) demo_registration"
proof -
  have load: "registry_load demo_codec demo_path (view_of quiet demo_path demo_disk) = Ok demo_start"
    by (simp add: registry_load_def demo_start_reads demo_start_def)
  have run: "(trust_edit demo_codec)\<^sup>*\<^sup>* demo_start demo_staged"
    using trust_edit.register_local [OF demo_register] by blast
  have "bt_get (rg_local demo_staged) ''dev.tool'' = Some demo_registration"
    by (rule demo_staged_fields)
  with staged_view_trustworthy [OF load run this] run show ?thesis by blast
qed

end
