(* ===== verification/Framing.thy ===== *)
theory Framing
  imports Json_Value Manifest
begin

text \<open>
  The two byte streams of the runtime: NUL-terminated JSON on the CDP pipe
  (\<open>src/src/cdp/framing.rs\<close>) and newline-terminated JSON between the core and a plugin host
  (\<open>src/src/plugin_host/protocol.rs\<close>). \<open>serde_json\<close> is an argument: a parser, and for a value
  the pieces the serializer writes one after the other, with the error it ends with if any.
\<close>

section \<open>A loop over the bytes of a chunk\<close>

text \<open>
  Both decoders are such a loop: its body takes the buffer and a byte, and gives a finished
  frame, nothing, or an error that ends the loop. The frames of a chunk that ends in an error
  are not returned.
\<close>

fun push_bytes ::
    "(char \<Rightarrow> string \<Rightarrow> ('e, 'm option) outcome \<times> string) \<Rightarrow> string \<Rightarrow> 'm list \<Rightarrow> string
     \<Rightarrow> ('e, 'm list) outcome \<times> string" where
  "push_bytes body [] ms b = (Ok ms, b)"
| "push_bytes body (c # cs) ms b =
     (case body c b of
        (Ok None, b) \<Rightarrow> push_bytes body cs ms b
      | (Ok (Some m), b) \<Rightarrow> push_bytes body cs (ms @ [m]) b
      | (Err e, b) \<Rightarrow> (Err e, b)
      | (Panic, b) \<Rightarrow> (Panic, b))"

text \<open>A stream that arrives in chunks, until the first error.\<close>

fun push_chunks ::
    "(string \<Rightarrow> string \<Rightarrow> ('e, 'm list) outcome \<times> string) \<Rightarrow> string list \<Rightarrow> string
     \<Rightarrow> ('e, 'm list) outcome \<times> string" where
  "push_chunks push [] b = (Ok [], b)"
| "push_chunks push (x # xs) b =
     (case push x b of
        (Ok ms, b) \<Rightarrow>
          (case push_chunks push xs b of
             (Ok ns, b) \<Rightarrow> (Ok (ms @ ns), b)
           | e \<Rightarrow> e)
      | e \<Rightarrow> e)"

text \<open>What a serializer writes: pieces, then possibly an error of its own.\<close>

type_synonym written = "string list \<times> string option"

section \<open>The CDP pipe\<close>

definition MAX_CDP_FRAME_BYTES :: nat where
  "MAX_CDP_FRAME_BYTES = 16 * 1024 * 1024"

datatype framing_error =
    EmptyFrame | TruncatedFrame nat | InvalidJson string | FrameTooLarge nat
  | WriteError string

definition nul :: char where
  "nul = CHR 0x00"

definition nul_step ::
    "(string \<Rightarrow> (string, 'v) outcome) \<Rightarrow> char \<Rightarrow> string \<Rightarrow> (framing_error, 'v option) outcome \<times> string" where
  "nul_step from_slice c b =
     (if c \<noteq> nul then
        (if length b = MAX_CDP_FRAME_BYTES then (Err (FrameTooLarge MAX_CDP_FRAME_BYTES), b)
         else (Ok None, b @ [c]))
      else if b = [] then (Err EmptyFrame, b)
      else case from_slice b of
        Ok v \<Rightarrow> (Ok (Some v), [])
      | Err e \<Rightarrow> (Err (InvalidJson e), [])
      | Panic \<Rightarrow> (Panic, []))"

definition nul_push ::
    "(string \<Rightarrow> (string, 'v) outcome) \<Rightarrow> string \<Rightarrow> string \<Rightarrow> (framing_error, 'v list) outcome \<times> string" where
  "nul_push from_slice chunk b = push_bytes (nul_step from_slice) chunk [] b"

definition nul_finish :: "string \<Rightarrow> (framing_error, unit) outcome" where
  "nul_finish b = (if b = [] then Ok () else Err (TruncatedFrame (length b)))"

text \<open>
  \<open>LimitedFrameBuffer\<close>: a piece that does not fit is refused as a whole, and the serializer
  stops there. The flag records that the limit was the reason.
\<close>

record frame_buffer =
  fb_bytes :: string
  fb_limit_exceeded :: bool

definition limited_write :: "string \<Rightarrow> frame_buffer \<Rightarrow> bool \<times> frame_buffer" where
  "limited_write input b =
     (if MAX_CDP_FRAME_BYTES - length (fb_bytes b) < length input
      then (False, b\<lparr>fb_limit_exceeded := True\<rparr>)
      else (True, b\<lparr>fb_bytes := fb_bytes b @ input\<rparr>))"

fun limited_writes :: "string list \<Rightarrow> frame_buffer \<Rightarrow> bool \<times> frame_buffer" where
  "limited_writes [] b = (True, b)"
| "limited_writes (x # xs) b =
     (case limited_write x b of
        (True, b) \<Rightarrow> limited_writes xs b
      | (False, b) \<Rightarrow> (False, b))"

definition encode_json_frame :: "written \<Rightarrow> (framing_error, string) outcome" where
  "encode_json_frame w =
     (case limited_writes (fst w) \<lparr>fb_bytes = [], fb_limit_exceeded = False\<rparr> of
        (ok, b) \<Rightarrow>
          if \<not> ok \<or> snd w \<noteq> None then
            (if fb_limit_exceeded b then Err (FrameTooLarge MAX_CDP_FRAME_BYTES)
             else Err (WriteError (case snd w of Some e \<Rightarrow> e | None \<Rightarrow> [])))
          else Ok (fb_bytes b @ [nul]))"

section \<open>The protocol of the plugin hosts\<close>

definition MAX_HOST_FRAME_BYTES :: nat where
  "MAX_HOST_FRAME_BYTES = 1024 * 1024"

definition MAX_SAFE_INTEGER :: u64 where
  "MAX_SAFE_INTEGER = 9007199254740991"

definition MAX_HOST_METHOD_BYTES :: nat where
  "MAX_HOST_METHOD_BYTES = 256"

record host_identity =
  hi_plugin_id :: string
  hi_generation :: u64

record host_rpc_error =
  re_code :: string
  re_message :: string
  re_data :: "json option"

datatype wire_message =
    Request (wm_v: u32) (wm_plugin_id: string) (wm_generation: u64) (wm_id: u64)
      (wm_method: string) (wm_params: json) (wm_timeout_ms: "u64 option")
  | Response (wm_v: u32) (wm_plugin_id: string) (wm_generation: u64) (wm_id: u64) (wm_ok: bool)
      (wm_result: "json option") (wm_error: "host_rpc_error option")
  | Notification (wm_v: u32) (wm_plugin_id: string) (wm_generation: u64) (wm_method: string)
      (wm_params: json)

datatype wire_problem =
    BadIdentityId | BadIdentityGeneration | BadMethod | BadFrameSize | BadFrameJson string
  | BadProtocolVersion u32 | OtherGeneration | BadRequestId | BadTimeout | BadResponse
  | EmptyLine | LineTooLong | FrameLimit | SerializerError string

definition positive_safe :: "u64 \<Rightarrow> bool" where
  "positive_safe n = (1 \<le> n \<and> n \<le> MAX_SAFE_INTEGER)"

definition identity_validate :: "host_identity \<Rightarrow> (wire_problem, unit) outcome" where
  "identity_validate i =
     (if \<not> valid_plugin_id (hi_plugin_id i) then Err BadIdentityId
      else if \<not> positive_safe (hi_generation i) then Err BadIdentityGeneration
      else Ok ())"

definition wire_request :: "host_identity \<Rightarrow> u64 \<Rightarrow> string \<Rightarrow> json \<Rightarrow> wire_message" where
  "wire_request i n m params = Request 1 (hi_plugin_id i) (hi_generation i) n m params None"

definition wire_response :: "host_identity \<Rightarrow> u64 \<Rightarrow> host_rpc_error + json \<Rightarrow> wire_message" where
  "wire_response i n out =
     (case out of
        Inr v \<Rightarrow> Response 1 (hi_plugin_id i) (hi_generation i) n True (Some v) None
      | Inl e \<Rightarrow> Response 1 (hi_plugin_id i) (hi_generation i) n False None (Some e))"

definition wire_notification :: "host_identity \<Rightarrow> string \<Rightarrow> json \<Rightarrow> wire_message" where
  "wire_notification i m params = Notification 1 (hi_plugin_id i) (hi_generation i) m params"

definition validate_method :: "string \<Rightarrow> (wire_problem, unit) outcome" where
  "validate_method m =
     (if m = [] \<or> MAX_HOST_METHOD_BYTES < length m \<or> has_control m then Err BadMethod else Ok ())"

fun message_id :: "wire_message \<Rightarrow> u64 option" where
  "message_id (Request v p g n m x t) = Some n"
| "message_id (Response v p g n ok r e) = Some n"
| "message_id (Notification v p g m x) = None"

fun message_method :: "wire_message \<Rightarrow> string option" where
  "message_method (Request v p g n m x t) = Some m"
| "message_method (Response v p g n ok r e) = None"
| "message_method (Notification v p g m x) = Some m"

fun message_timeout :: "wire_message \<Rightarrow> u64 option" where
  "message_timeout (Request v p g n m x t) = t"
| "message_timeout _ = None"

text \<open>The serialized form of a message, after the \<open>serde\<close> attributes of \<open>WireMessage\<close>.\<close>

definition opt_field :: "string \<Rightarrow> json option \<Rightarrow> (string \<times> json) list" where
  "opt_field k v = (case v of None \<Rightarrow> [] | Some x \<Rightarrow> [(k, x)])"

definition json_u64 :: "u64 \<Rightarrow> json" where
  "json_u64 n = JNumber (show_u64 n)"

definition rpc_error_json :: "host_rpc_error \<Rightarrow> json" where
  "rpc_error_json e =
     JObject ([(''code'', JString (re_code e)), (''message'', JString (re_message e))]
              @ opt_field ''data'' (re_data e))"

fun wire_json :: "wire_message \<Rightarrow> json" where
  "wire_json (Request v p g n m params t) =
     JObject ([(''type'', JString ''request''), (''v'', JNumber (show_nat (unat v))),
               (''pluginId'', JString p), (''generation'', json_u64 g), (''id'', json_u64 n),
               (''method'', JString m), (''params'', params)]
              @ opt_field ''timeoutMs'' (map_option json_u64 t))"
| "wire_json (Response v p g n ok result error) =
     JObject ([(''type'', JString ''response''), (''v'', JNumber (show_nat (unat v))),
               (''pluginId'', JString p), (''generation'', json_u64 g), (''id'', json_u64 n),
               (''ok'', JBool ok)]
              @ opt_field ''result'' result @ opt_field ''error'' (map_option rpc_error_json error))"
| "wire_json (Notification v p g m params) =
     JObject [(''type'', JString ''notification''), (''v'', JNumber (show_nat (unat v))),
              (''pluginId'', JString p), (''generation'', json_u64 g), (''method'', JString m),
              (''params'', params)]"

text \<open>What decoding makes of it: an optional field that is null reads as absent.\<close>

definition drop_null :: "json option \<Rightarrow> json option" where
  "drop_null v = (if v = Some JNull then None else v)"

fun reread :: "wire_message \<Rightarrow> wire_message" where
  "reread (Response v p g n ok result error) =
     Response v p g n ok (drop_null result)
       (map_option (\<lambda>e. e\<lparr>re_data := drop_null (re_data e)\<rparr>) error)"
| "reread m = m"

text \<open>The shape of a response: the keys of the JSON value, and the decoded error.\<close>

definition response_shape :: "bool \<Rightarrow> host_rpc_error option \<Rightarrow> json \<Rightarrow> bool" where
  "response_shape ok error value =
     (if ok then json_get ''result'' value \<noteq> None \<and> json_get ''error'' value = None
      else json_get ''result'' value = None
        \<and> (case error of None \<Rightarrow> False | Some e \<Rightarrow> re_code e \<noteq> [] \<and> re_message e \<noteq> []))"

definition check_response ::
    "(string \<Rightarrow> (string, json) outcome) \<Rightarrow> string \<Rightarrow> wire_message \<Rightarrow> (wire_problem, wire_message) outcome" where
  "check_response from_value bytes m =
     (case m of
        Response v p g n ok result error \<Rightarrow>
          (case from_value bytes of
             Err e \<Rightarrow> Err (BadFrameJson e)
           | Panic \<Rightarrow> Panic
           | Ok value \<Rightarrow> if response_shape ok error value then Ok m else Err BadResponse)
      | _ \<Rightarrow> Ok m)"

definition decode_frame ::
    "(string \<Rightarrow> (string, wire_message) outcome) \<Rightarrow> (string \<Rightarrow> (string, json) outcome)
     \<Rightarrow> string \<Rightarrow> host_identity \<Rightarrow> (wire_problem, wire_message) outcome" where
  "decode_frame from_dto from_value bytes i =
     (if bytes = [] \<or> MAX_HOST_FRAME_BYTES < length bytes then Err BadFrameSize
      else case from_dto bytes of
        Err e \<Rightarrow> Err (BadFrameJson e)
      | Panic \<Rightarrow> Panic
      | Ok m \<Rightarrow>
          if wm_v m \<noteq> 1 then Err (BadProtocolVersion (wm_v m))
          else if wm_plugin_id m \<noteq> hi_plugin_id i \<or> wm_generation m \<noteq> hi_generation i
          then Err OtherGeneration
          else if (case message_id m of None \<Rightarrow> False | Some n \<Rightarrow> \<not> positive_safe n)
          then Err BadRequestId
          else if (case message_method m of None \<Rightarrow> False | Some s \<Rightarrow> validate_method s \<noteq> Ok ())
          then Err BadMethod
          else if (case message_timeout m of None \<Rightarrow> False | Some t \<Rightarrow> \<not> (1 \<le> t \<and> t \<le> 15000))
          then Err BadTimeout
          else check_response from_value bytes m)"

text \<open>\<open>encode_frame\<close>, with the local \<open>Limited\<close> writer.\<close>

fun host_writes :: "string list \<Rightarrow> string \<Rightarrow> string option" where
  "host_writes [] b = Some b"
| "host_writes (x # xs) b =
     (if MAX_HOST_FRAME_BYTES < length b + length x then None else host_writes xs (b @ x))"

definition encode_frame :: "written \<Rightarrow> (wire_problem, string) outcome" where
  "encode_frame w =
     (case host_writes (fst w) [] of
        None \<Rightarrow> Err FrameLimit
      | Some b \<Rightarrow>
          (case snd w of
             Some e \<Rightarrow> Err (SerializerError e)
           | None \<Rightarrow> Ok (b @ [CHR 0x0A])))"

text \<open>\<open>LineDecoder\<close>: a carriage return before the newline is dropped.\<close>

definition newline :: char where
  "newline = CHR 0x0A"

definition carriage_return :: char where
  "carriage_return = CHR 0x0D"

definition line_step :: "char \<Rightarrow> string \<Rightarrow> (wire_problem, string option) outcome \<times> string" where
  "line_step c b =
     (if c = newline then
        (let b = (if b \<noteq> [] \<and> last b = carriage_return then butlast b else b)
         in if b = [] then (Err EmptyLine, b) else (Ok (Some b), []))
      else if MAX_HOST_FRAME_BYTES \<le> length b then (Err LineTooLong, b)
      else (Ok None, b @ [c]))"

definition line_push :: "string \<Rightarrow> string \<Rightarrow> (wire_problem, string list) outcome \<times> string" where
  "line_push bytes b = push_bytes line_step bytes [] b"

definition has_partial_frame :: "string \<Rightarrow> bool" where
  "has_partial_frame b = (b \<noteq> [])"

section \<open>Decoders of delimited frames\<close>

text \<open>
  The reference: cut the whole stream at the delimiter. All segments but the last are complete
  frames, and the last is what is left in the buffer.
\<close>

definition frames_spec ::
    "char \<Rightarrow> nat \<Rightarrow> (string \<Rightarrow> ('e, 'm) outcome) \<Rightarrow> string \<Rightarrow> ('m list \<times> string) option" where
  "frames_spec d limit frame s =
     (let parts = split_on d s
      in if list_all (\<lambda>f. length f \<le> limit) parts \<and> list_all (\<lambda>f. is_ok (frame f)) (butlast parts)
         then Some (map (\<lambda>f. case frame f of Ok m \<Rightarrow> m) (butlast parts), last parts)
         else None)"

lemma split_on_prefix:
  "d \<notin> set b \<Longrightarrow> split_on d (b @ s) = (b @ hd (split_on d s)) # tl (split_on d s)"
proof (induction b)
  case Nil
  show ?case using split_on_nonempty [of d s] by simp
next
  case (Cons c b)
  then show ?case by (auto split: list.split)
qed

locale frame_decoder =
  fixes body :: "char \<Rightarrow> string \<Rightarrow> ('e, 'm option) outcome \<times> string"
    and delim :: char and limit :: nat and frame :: "string \<Rightarrow> ('e, 'm) outcome"
    and too_large :: 'e
  assumes at_delim: "body delim b =
      (case frame b of Ok m \<Rightarrow> (Ok (Some m), []) | Err e \<Rightarrow> (Err e, []) | Panic \<Rightarrow> (Panic, []))"
    and at_other: "c \<noteq> delim \<Longrightarrow> length b \<le> limit \<Longrightarrow> body c b =
      (if length b < limit then (Ok None, b @ [c]) else (Err too_large, b))"
begin

lemma push_append:
  "push_bytes body (xs @ ys) ms b =
     (case push_bytes body xs ms b of
        (Ok ns, b) \<Rightarrow> push_bytes body ys ns b
      | e \<Rightarrow> e)"
  by (induction xs arbitrary: ms b) (auto split: prod.split outcome.split option.split)

lemma push_accumulates:
  "push_bytes body xs ms b =
     (case push_bytes body xs [] b of (Ok ns, b) \<Rightarrow> (Ok (ms @ ns), b) | e \<Rightarrow> e)"
proof (induction xs arbitrary: ms b)
  case (Cons x xs)
  show ?case
  proof (cases "body x b")
    case (Pair r b')
    show ?thesis
    proof (cases r)
      case (Ok m)
      show ?thesis
      proof (cases m)
        case None
        then show ?thesis using Pair Ok Cons.IH [of ms b'] by simp
      next
        case (Some a)
        then show ?thesis using Pair Ok Cons.IH [of "ms @ [a]" b'] Cons.IH [of "[a]" b']
          by (simp split: prod.split outcome.split)
      qed
    qed (use Pair in simp_all)
  qed
qed simp

text \<open>The chunks do not matter.\<close>

lemma chunks_concat:
  "push_chunks (\<lambda>x. push_bytes body x []) xs b = push_bytes body (concat xs) [] b"
proof (induction xs arbitrary: b)
  case (Cons x xs)
  have "push_bytes body (concat (x # xs)) [] b
      = (case push_bytes body x [] b of (Ok ns, b) \<Rightarrow> push_bytes body (concat xs) ns b | e \<Rightarrow> e)"
    by (simp add: push_append)
  also have "\<dots> = push_chunks (\<lambda>x. push_bytes body x []) (x # xs) b"
    by (subst push_accumulates) (simp add: Cons.IH split: prod.split outcome.split)
  finally show ?case ..
qed simp

text \<open>The decoder agrees with the reference.\<close>

lemma push_spec:
  assumes "delim \<notin> set b" "length b \<le> limit"
  shows "push_bytes body s [] b = (Ok ms, r) \<longleftrightarrow> frames_spec delim limit frame (b @ s) = Some (ms, r)"
  using assms
proof (induction s arbitrary: b ms)
  case Nil
  then show ?case using split_on_prefix [of delim b "[]"] by (auto simp: frames_spec_def)
next
  case (Cons c s)
  show ?case
  proof (cases "c = delim")
    case True
    have parts: "split_on delim (b @ delim # s) = b # split_on delim s"
      using split_on_prefix [OF Cons.prems(1), of "delim # s"] by simp
    show ?thesis
    proof (cases "frame b")
      case (Ok m)
      have ih: "push_bytes body s [] [] = (Ok ns, r) \<longleftrightarrow> frames_spec delim limit frame s = Some (ns, r)" for ns
        using Cons.IH [of "[]" ns] by simp
      have "push_bytes body (c # s) [] b = (Ok ms, r) \<longleftrightarrow> push_bytes body s [m] [] = (Ok ms, r)"
        by (simp add: True at_delim Ok)
      also have "\<dots> \<longleftrightarrow> (\<exists>ns. push_bytes body s [] [] = (Ok ns, r) \<and> ms = m # ns)"
        by (subst push_accumulates) (auto split: prod.split outcome.split)
      also have "\<dots> \<longleftrightarrow> (\<exists>ns. frames_spec delim limit frame s = Some (ns, r) \<and> ms = m # ns)"
        using ih by blast
      also have "\<dots> \<longleftrightarrow> frames_spec delim limit frame (b @ c # s) = Some (ms, r)"
        using Ok Cons.prems(2) by (auto simp: frames_spec_def True parts Let_def)
      finally show ?thesis .
    next
      case (Err e)
      then show ?thesis by (simp add: True at_delim frames_spec_def parts Let_def)
    next
      case Panic
      then show ?thesis by (simp add: True at_delim frames_spec_def parts Let_def)
    qed
  next
    case False
    show ?thesis
    proof (cases "length b < limit")
      case True
      then have "push_bytes body (c # s) [] b = push_bytes body s [] (b @ [c])"
        using False Cons.prems(2) by (simp add: at_other)
      with Cons.IH [of "b @ [c]"] Cons.prems False True show ?thesis by simp
    next
      case long: False
      have "split_on delim (b @ c # s) = (b @ hd (split_on delim (c # s))) # tl (split_on delim (c # s))"
        by (rule split_on_prefix [OF Cons.prems(1)])
      moreover have "hd (split_on delim (c # s)) \<noteq> []"
        using False by (simp split: list.split)
      ultimately have "frames_spec delim limit frame (b @ c # s) = None"
        using long by (cases "hd (split_on delim (c # s))") (simp_all add: frames_spec_def)
      with long False Cons.prems(2) show ?thesis by (simp add: at_other)
    qed
  qed
qed

text \<open>Complete frames, each followed by the delimiter, come out one by one.\<close>

lemma push_frames:
  assumes "\<And>f. f \<in> set fs \<Longrightarrow> delim \<notin> set f \<and> length f \<le> limit \<and> frame f = Ok (g f)"
  shows "push_bytes body (concat (map (\<lambda>f. f @ [delim]) fs)) [] [] = (Ok (map g fs), [])"
proof -
  have "split_on delim (concat (map (\<lambda>f. f @ [delim]) fs)) = fs @ [[]]"
    using assms by (induction fs) (simp_all add: split_on_prefix)
  then have "frames_spec delim limit frame (concat (map (\<lambda>f. f @ [delim]) fs)) = Some (map g fs, [])"
    using assms by (auto simp: frames_spec_def list_all_iff)
  then show ?thesis by (subst push_spec) simp_all
qed

end

text \<open>The two decoders.\<close>

definition nul_frame :: "(string \<Rightarrow> (string, 'v) outcome) \<Rightarrow> string \<Rightarrow> (framing_error, 'v) outcome" where
  "nul_frame from_slice b =
     (if b = [] then Err EmptyFrame
      else case from_slice b of Ok v \<Rightarrow> Ok v | Err e \<Rightarrow> Err (InvalidJson e) | Panic \<Rightarrow> Panic)"

definition line_frame :: "string \<Rightarrow> (wire_problem, string) outcome" where
  "line_frame b =
     (let b = (if b \<noteq> [] \<and> last b = carriage_return then butlast b else b)
      in if b = [] then Err EmptyLine else Ok b)"

interpretation cdp: frame_decoder "nul_step from_slice" nul MAX_CDP_FRAME_BYTES "nul_frame from_slice"
    "FrameTooLarge MAX_CDP_FRAME_BYTES" for from_slice
  by unfold_locales (auto simp: nul_step_def nul_frame_def split: outcome.split)

interpretation lines: frame_decoder line_step newline MAX_HOST_FRAME_BYTES line_frame LineTooLong
  by unfold_locales (auto simp: line_step_def line_frame_def Let_def)

end
