(* ===== verification/Framing_Properties.thy ===== *)
theory Framing_Properties
  imports Framing
begin

text \<open>
  The properties of the two byte streams: chunking does not matter, what is encoded is decoded,
  and the limits of the two ends agree.
\<close>

section \<open>Encoders\<close>

lemma limited_writes_spec:
  "length (fb_bytes b) \<le> MAX_CDP_FRAME_BYTES \<Longrightarrow>
   (if length (fb_bytes b) + length (concat xs) \<le> MAX_CDP_FRAME_BYTES
    then limited_writes xs b = (True, b\<lparr>fb_bytes := fb_bytes b @ concat xs\<rparr>)
    else \<exists>b'. limited_writes xs b = (False, b') \<and> fb_limit_exceeded b')"
proof (induction xs arbitrary: b)
  case (Cons x xs)
  show ?case
  proof (cases "length (fb_bytes b) + length x \<le> MAX_CDP_FRAME_BYTES")
    case True
    then have "limited_write x b = (True, b\<lparr>fb_bytes := fb_bytes b @ x\<rparr>)"
      by (auto simp: limited_write_def)
    with Cons.IH [of "b\<lparr>fb_bytes := fb_bytes b @ x\<rparr>"] True show ?thesis by (simp add: add.assoc)
  next
    case False
    with Cons.prems have "limited_write x b = (False, b\<lparr>fb_limit_exceeded := True\<rparr>)"
      by (simp add: limited_write_def)
    with False show ?thesis by simp
  qed
qed simp

lemma host_writes_spec:
  "length b \<le> MAX_HOST_FRAME_BYTES \<Longrightarrow> host_writes xs b =
     (if length b + length (concat xs) \<le> MAX_HOST_FRAME_BYTES then Some (b @ concat xs) else None)"
  by (induction xs arbitrary: b) auto

text \<open>
  The encoders. However the serializer splits its output into pieces, a CDP frame is
  refused exactly when the whole text is longer than 16 MiB and a host frame when it is longer
  than 1 MiB; otherwise an error of the serializer is passed on, and else the frame is the
  whole text and one delimiter.
\<close>

theorem encoders_respect_limits:
  "encode_json_frame w =
     (if 16 * 1024 * 1024 < length (concat (fst w)) then Err (FrameTooLarge (16 * 1024 * 1024))
      else case snd w of Some e \<Rightarrow> Err (WriteError e) | None \<Rightarrow> Ok (concat (fst w) @ [CHR 0x00]))
   \<and> encode_frame w =
     (if 1024 * 1024 < length (concat (fst w)) then Err FrameLimit
      else case snd w of Some e \<Rightarrow> Err (SerializerError e) | None \<Rightarrow> Ok (concat (fst w) @ [CHR 0x0A]))"
proof -
  let ?b = "\<lparr>fb_bytes = [], fb_limit_exceeded = False\<rparr>"
  have "encode_json_frame w =
     (if 16 * 1024 * 1024 < length (concat (fst w)) then Err (FrameTooLarge (16 * 1024 * 1024))
      else case snd w of Some e \<Rightarrow> Err (WriteError e) | None \<Rightarrow> Ok (concat (fst w) @ [CHR 0x00]))"
    using limited_writes_spec [of ?b "fst w"]
    by (auto simp: encode_json_frame_def MAX_CDP_FRAME_BYTES_def nul_def split: if_splits option.split)
  moreover have "encode_frame w =
     (if 1024 * 1024 < length (concat (fst w)) then Err FrameLimit
      else case snd w of Some e \<Rightarrow> Err (SerializerError e) | None \<Rightarrow> Ok (concat (fst w) @ [CHR 0x0A]))"
    using host_writes_spec [of "[]" "fst w"]
    by (auto simp: encode_frame_def MAX_HOST_FRAME_BYTES_def split: option.split)
  ultimately show ?thesis by blast
qed

section \<open>Decoders\<close>

lemma nul_chunks:
  "push_chunks (nul_push from_slice) xs b = push_bytes (nul_step from_slice) (concat xs) [] b"
  using cdp.chunks_concat [of from_slice xs b] by (simp add: nul_push_def [abs_def])

lemma line_chunks: "push_chunks line_push xs b = push_bytes line_step (concat xs) [] b"
  using lines.chunks_concat [of xs b] by (simp add: line_push_def [abs_def])

text \<open>
  C38: the decoder of the CDP pipe is the reference decoder. However the stream is cut into
  chunks, it gives messages and a rest exactly when cutting the whole stream at the NUL bytes
  gives segments of at most 16 MiB of which all complete ones are nonempty and parse, and
  then these are the parsed segments and the last one; the end of the stream is accepted
  exactly when nothing is left over.
\<close>

theorem cdp_decoder_is_reference:
  "(push_chunks (nul_push from_slice) chunks [] = (Ok ms, rest) \<longleftrightarrow>
     (let parts = split_on (CHR 0x00) (concat chunks)
      in list_all (\<lambda>f. length f \<le> 16 * 1024 * 1024) parts
         \<and> list_all (\<lambda>f. f \<noteq> []) (butlast parts)
         \<and> map from_slice (butlast parts) = map Ok ms \<and> rest = last parts))
   \<and> (nul_finish rest = Ok () \<longleftrightarrow> rest = [])"
proof -
  let ?parts = "split_on (CHR 0x00) (concat chunks)"
  have frames: "list_all (\<lambda>f. is_ok (nul_frame from_slice f)) fs
        \<and> map (\<lambda>f. case nul_frame from_slice f of Ok m \<Rightarrow> m) fs = ms
      \<longleftrightarrow> list_all (\<lambda>f. f \<noteq> []) fs \<and> map from_slice fs = map Ok ms" for fs ms
  proof (induction fs arbitrary: ms)
    case (Cons f fs)
    show ?case
    proof (cases ms)
      case (Cons m ms')
      have "is_ok (nul_frame from_slice f) \<and> (case nul_frame from_slice f of Ok m \<Rightarrow> m) = m
          \<longleftrightarrow> f \<noteq> [] \<and> from_slice f = Ok m"
        by (cases "from_slice f") (auto simp: nul_frame_def)
      with Cons.IH [of ms'] show ?thesis unfolding Cons by simp blast
    qed simp
  qed auto
  have "push_chunks (nul_push from_slice) chunks [] = (Ok ms, rest)
      \<longleftrightarrow> frames_spec nul MAX_CDP_FRAME_BYTES (nul_frame from_slice) (concat chunks) = Some (ms, rest)"
    using cdp.push_spec [of "[]" from_slice "concat chunks" ms rest] by (simp add: nul_chunks)
  also have "\<dots> \<longleftrightarrow> list_all (\<lambda>f. length f \<le> MAX_CDP_FRAME_BYTES) ?parts
      \<and> (list_all (\<lambda>f. is_ok (nul_frame from_slice f)) (butlast ?parts)
        \<and> map (\<lambda>f. case nul_frame from_slice f of Ok m \<Rightarrow> m) (butlast ?parts) = ms)
      \<and> last ?parts = rest"
    by (auto simp: frames_spec_def nul_def Let_def)
  finally have "push_chunks (nul_push from_slice) chunks [] = (Ok ms, rest) \<longleftrightarrow>
     (let parts = split_on (CHR 0x00) (concat chunks)
      in list_all (\<lambda>f. length f \<le> 16 * 1024 * 1024) parts
         \<and> list_all (\<lambda>f. f \<noteq> []) (butlast parts)
         \<and> map from_slice (butlast parts) = map Ok ms \<and> rest = last parts)"
    unfolding frames by (auto simp: MAX_CDP_FRAME_BYTES_def Let_def)
  moreover have "nul_finish rest = Ok () \<longleftrightarrow> rest = []" by (simp add: nul_finish_def)
  ultimately show ?thesis by blast
qed

section \<open>Through the wire\<close>

text \<open>
  What the protocol relies on of \<open>serde_json\<close>: the compact text of a message is not empty, has no
  newline and does not end in a carriage return (control characters are escaped), and it
  parses to the message and to the JSON value of the message.
\<close>

definition wire_codec ::
    "(wire_message \<Rightarrow> written) \<Rightarrow> (string \<Rightarrow> (string, wire_message) outcome)
     \<Rightarrow> (string \<Rightarrow> (string, json) outcome) \<Rightarrow> bool" where
  "wire_codec to_writer from_dto from_value \<longleftrightarrow>
     (\<forall>m. snd (to_writer m) = None \<longrightarrow>
        (let t = concat (fst (to_writer m))
         in t \<noteq> [] \<and> newline \<notin> set t \<and> last t \<noteq> carriage_return
            \<and> from_dto t = Ok (reread m) \<and> from_value t = Ok (wire_json m)))"

text \<open>The messages the core sends: what its constructors build of admissible parts.\<close>

inductive sendable :: "host_identity \<Rightarrow> wire_message \<Rightarrow> bool" for i where
  request: "positive_safe n \<Longrightarrow> validate_method m = Ok () \<Longrightarrow> sendable i (wire_request i n m params)"
| result: "positive_safe n \<Longrightarrow> sendable i (wire_response i n (Inr v))"
| failure: "positive_safe n \<Longrightarrow> re_code e \<noteq> [] \<Longrightarrow> re_message e \<noteq> []
    \<Longrightarrow> sendable i (wire_response i n (Inl e))"
| notification: "validate_method m = Ok () \<Longrightarrow> sendable i (wire_notification i m params)"

lemma sendable_decodes:
  assumes "sendable i m" "t \<noteq> []" "length t \<le> MAX_HOST_FRAME_BYTES"
    and "from_dto t = Ok (reread m)" "from_value t = Ok (wire_json m)"
  shows "decode_frame from_dto from_value t i = Ok (reread m)"
  using assms
  by cases
    (auto simp: decode_frame_def wire_request_def wire_response_def wire_notification_def
      check_response_def response_shape_def opt_field_def)

text \<open>
  C37: what one side of the host protocol sends, the other side receives. Messages the core
  builds, encoded, concatenated and cut into any chunks, come out of the line decoder one
  frame each, nothing is left over, and every frame decodes to its message (with null
  optional fields absent).
\<close>

theorem host_wire_round_trip:
  assumes "wire_codec to_writer from_dto from_value"
    and "\<forall>m \<in> set ms. sendable i m"
    and "map (\<lambda>m. encode_frame (to_writer m)) ms = map Ok sent"
    and "concat chunks = concat sent"
  shows "\<exists>frames. push_chunks line_push chunks [] = (Ok frames, [])
    \<and> map (\<lambda>f. decode_frame from_dto from_value f i) frames = map (\<lambda>m. Ok (reread m)) ms"
proof -
  let ?t = "\<lambda>m. concat (fst (to_writer m))"
  have m: "snd (to_writer m) = None \<and> length (?t m) \<le> MAX_HOST_FRAME_BYTES
      \<and> encode_frame (to_writer m) = Ok (?t m @ [newline])" if "m \<in> set ms" for m
  proof -
    have "\<exists>b. encode_frame (to_writer m) = Ok b"
      using assms(3) that by (metis in_set_conv_nth length_map nth_map)
    then show ?thesis
      using host_writes_spec [of "[]" "fst (to_writer m)"]
      by (auto simp: encode_frame_def newline_def split: if_splits option.splits)
  qed
  have "map (\<lambda>m. encode_frame (to_writer m)) ms = map Ok (map (\<lambda>m. ?t m @ [newline]) ms)"
    using m by simp
  from trans [OF assms(3) [symmetric] this]
  have sent: "sent = map (\<lambda>m. ?t m @ [newline]) ms"
    by (rule inj_map_eq_map [THEN iffD1, rotated]) (simp add: inj_def)
  have t: "?t m \<noteq> []" "newline \<notin> set (?t m)" "last (?t m) \<noteq> carriage_return"
    "from_dto (?t m) = Ok (reread m)" "from_value (?t m) = Ok (wire_json m)" if "m \<in> set ms" for m
    using assms(1) m [OF that] by (auto simp: wire_codec_def Let_def)
  have "push_bytes line_step (concat (map (\<lambda>f. f @ [newline]) (map ?t ms))) [] []
      = (Ok (map (\<lambda>f. f) (map ?t ms)), [])"
  proof (rule lines.push_frames)
    fix f
    assume "f \<in> set (map ?t ms)"
    then obtain x where "x \<in> set ms" "f = ?t x" by auto
    with m [of x] t(1-3) [of x]
    have "newline \<notin> set f" "length f \<le> MAX_HOST_FRAME_BYTES" "f \<noteq> []" "last f \<noteq> carriage_return"
      by simp_all
    then show "newline \<notin> set f \<and> length f \<le> MAX_HOST_FRAME_BYTES \<and> line_frame f = Ok f"
      by (simp add: line_frame_def)
  qed
  then have "push_chunks line_push chunks [] = (Ok (map ?t ms), [])"
    by (simp add: line_chunks assms(4) sent comp_def)
  moreover have "decode_frame from_dto from_value (?t m) i = Ok (reread m)" if "m \<in> set ms" for m
    using sendable_decodes [of i m] assms(2) m [OF that] t [OF that] that by blast
  ultimately show ?thesis by (intro exI [of _ "map ?t ms"]) simp
qed

text \<open>
  What the host protocol lets through. An accepted frame is at most 1 MiB, of version 1, of
  this plugin and generation, with a request id that JavaScript represents exactly, a method
  of 1 to 256 bytes without control characters and a time limit of at most 15 seconds; an
  accepted response has a result and no error, or an error with code and message and no
  result.
\<close>

theorem accepted_frames_well_formed:
  assumes "decode_frame from_dto from_value bytes i = Ok m"
  shows "length bytes \<le> 1024 * 1024 \<and> from_dto bytes = Ok m
    \<and> wm_v m = 1 \<and> wm_plugin_id m = hi_plugin_id i \<and> wm_generation m = hi_generation i
    \<and> (\<forall>n. message_id m = Some n \<longrightarrow> 1 \<le> n \<and> n \<le> 9007199254740991)
    \<and> (\<forall>s. message_method m = Some s \<longrightarrow> s \<noteq> [] \<and> length s \<le> 256 \<and> \<not> has_control s)
    \<and> (\<forall>t. message_timeout m = Some t \<longrightarrow> 1 \<le> t \<and> t \<le> 15000)
    \<and> (\<forall>v p g n ok result error. m = Response v p g n ok result error \<longrightarrow>
         (\<exists>value. from_value bytes = Ok value
            \<and> (json_get ''result'' value \<noteq> None \<longleftrightarrow> ok)
            \<and> (if ok then json_get ''error'' value = None
               else \<exists>e. error = Some e \<and> re_code e \<noteq> [] \<and> re_message e \<noteq> [])))"
proof -
  from assms have dto: "bytes \<noteq> []" "length bytes \<le> MAX_HOST_FRAME_BYTES" "from_dto bytes = Ok m"
    and checks: "wm_v m = 1" "wm_plugin_id m = hi_plugin_id i" "wm_generation m = hi_generation i"
      "\<forall>n. message_id m = Some n \<longrightarrow> positive_safe n"
      "\<forall>s. message_method m = Some s \<longrightarrow> validate_method s = Ok ()"
      "\<forall>t. message_timeout m = Some t \<longrightarrow> 1 \<le> t \<and> t \<le> 15000"
      "check_response from_value bytes m = Ok m"
    by (auto simp: decode_frame_def check_response_def
        split: outcome.splits if_splits option.splits wire_message.splits)
  have shape: "\<exists>value. from_value bytes = Ok value \<and> response_shape ok error value"
    if "m = Response v p g n ok result error" for v p g n ok result error
    using checks(7) that by (auto simp: check_response_def split: outcome.splits if_splits)
  have called: "s \<noteq> [] \<and> length s \<le> 256 \<and> \<not> has_control s" if "message_method m = Some s" for s
    using checks(5) that by (auto simp: validate_method_def MAX_HOST_METHOD_BYTES_def split: if_splits)
  have replied: "\<exists>value. from_value bytes = Ok value
            \<and> (json_get ''result'' value \<noteq> None \<longleftrightarrow> ok)
            \<and> (if ok then json_get ''error'' value = None
               else \<exists>e. error = Some e \<and> re_code e \<noteq> [] \<and> re_message e \<noteq> [])"
    if "m = Response v p g n ok result error" for v p g n ok result error
    using shape [OF that] by (auto simp: response_shape_def split: if_splits option.splits)
  show ?thesis
    using dto checks(1-4,6) called replied
    by (simp add: MAX_HOST_FRAME_BYTES_def positive_safe_def MAX_SAFE_INTEGER_def)
qed

section \<open>A concrete exchange\<close>

definition demo_identity :: host_identity where
  "demo_identity = \<lparr>hi_plugin_id = ''dev.tool'', hi_generation = 2\<rparr>"

definition demo_request :: wire_message where
  "demo_request = wire_request demo_identity 1 ''ping'' JNull"

definition demo_reply :: wire_message where
  "demo_reply = wire_response demo_identity 1 (Inr (JBool True))"

text \<open>A serializer and its parsers for these two messages.\<close>

definition demo_writer :: "wire_message \<Rightarrow> written" where
  "demo_writer m =
     (if m = demo_request then ([''{q'', ''}''], None)
      else if m = demo_reply then ([''{r}''], None) else ([], Some ''unsupported''))"

definition demo_dto :: "string \<Rightarrow> (string, wire_message) outcome" where
  "demo_dto t = (if t = ''{q}'' then Ok demo_request else if t = ''{r}'' then Ok demo_reply else Err [])"

definition demo_value :: "string \<Rightarrow> (string, json) outcome" where
  "demo_value t =
     (if t = ''{q}'' then Ok (wire_json demo_request) else if t = ''{r}'' then Ok (wire_json demo_reply)
      else Err [])"

lemma demo_wire_codec: "wire_codec demo_writer demo_dto demo_value"
  by (auto simp: wire_codec_def demo_writer_def demo_dto_def demo_value_def newline_def
      carriage_return_def demo_request_def wire_request_def demo_reply_def wire_response_def
      drop_null_def split: if_splits)

lemma demo_messages:
  "demo_reply \<noteq> demo_request" "sendable demo_identity demo_request" "sendable demo_identity demo_reply"
  "reread demo_request = demo_request" "reread demo_reply = demo_reply"
proof -
  have safe: "positive_safe 1" by (simp add: positive_safe_def MAX_SAFE_INTEGER_def)
  have "validate_method ''ping'' = Ok ()" by code_simp
  with safe show "sendable demo_identity demo_request" "sendable demo_identity demo_reply"
    by (simp_all add: demo_request_def demo_reply_def sendable.request sendable.result)
qed (simp_all add: demo_request_def demo_reply_def wire_request_def wire_response_def drop_null_def)

theorem host_wire_round_trip_witness:
  "\<exists>frames. push_chunks line_push [''{q'', ''}'' @ [newline] @ ''{'', ''r}'' @ [newline]] [] = (Ok frames, [])
     \<and> map (\<lambda>f. decode_frame demo_dto demo_value f demo_identity) frames = [Ok demo_request, Ok demo_reply]"
  using host_wire_round_trip [OF demo_wire_codec, of "[demo_request, demo_reply]" demo_identity
      "[''{q}'' @ [newline], ''{r}'' @ [newline]]"
      "[''{q'', ''}'' @ [newline] @ ''{'', ''r}'' @ [newline]]"]
  by (simp add: demo_messages encode_frame_def demo_writer_def MAX_HOST_FRAME_BYTES_def newline_def)

theorem accepted_frames_well_formed_witness:
  "decode_frame demo_dto demo_value ''{r}'' demo_identity = Ok demo_reply
   \<and> wm_generation demo_reply = hi_generation demo_identity"
proof -
  have d: "decode_frame demo_dto demo_value ''{r}'' demo_identity = Ok demo_reply"
    using sendable_decodes [OF demo_messages(3), of "''{r}''" demo_dto demo_value] demo_messages
    by (simp add: demo_dto_def demo_value_def MAX_HOST_FRAME_BYTES_def)
  with accepted_frames_well_formed [OF d] show ?thesis by blast
qed

end
