(* ===== verification/Local_Plugins.thy ===== *)
theory Local_Plugins
  imports Registry_Store
begin

text \<open>
  Reading an explicitly trusted plugin directory (\<open>src/src/local_plugins.rs\<close>): the checked
  path below the selected root, the bounded read of a file through it, and the load of a
  plugin under its registration.

  The file system may change between two calls: a read takes one view of the file system per
  instant, and the calls of one \<open>checked_path\<close> see the same instant. What a view answers is
  not restricted. Only the Unix branches are modelled. The inspection of the package metadata
  (\<open>github_distribution.rs\<close>) is an argument.
\<close>

section \<open>The file system\<close>

datatype file_type = RegularFile | Directory | Symlink | OtherType

record file_meta =
  fm_type :: file_type
  fm_links :: nat
  fm_inode :: nat
  fm_len :: nat

text \<open>A handle is identified by device and inode, here one number.\<close>

record local_fs =
  lf_current_dir :: "(io_error, string) outcome"
  lf_canonicalize :: "string \<Rightarrow> (io_error, string) outcome"
  lf_lstat :: "string \<Rightarrow> (io_error, file_meta) outcome"
  lf_read_dir :: "string \<Rightarrow> (io_error, string list) outcome"
  lf_exists :: "string \<Rightarrow> (io_error, bool) outcome"
  lf_open :: "string \<Rightarrow> (io_error, nat) outcome"
  lf_fstat :: "nat \<Rightarrow> (io_error, file_meta) outcome"
  lf_contents :: "nat \<Rightarrow> (io_error, string) outcome"

definition MANIFEST_NAME :: string where
  "MANIFEST_NAME = ''codlet.json''"

definition MAX_MANIFEST_BYTES :: nat where
  "MAX_MANIFEST_BYTES = 128 * 1024"

definition MAX_SOURCE_BYTES :: nat where
  "MAX_SOURCE_BYTES = 1024 * 1024"

definition MAX_JAVASCRIPT_SAFE_INTEGER :: u64 where
  "MAX_JAVASCRIPT_SAFE_INTEGER = 9007199254740991"

datatype reject_reason =
    NeedsMigration | BadManifest manifest_error | EmptySource | BadRootInput | LinkedFile
  | WrongType | PathAlias | EscapesRoot | FileTooBig | NotUtf8 | BinaryText | FileChanged
  | DeviceName | WrongScope | Unsupported permission | DuplicateGrant permission
  | MissingGrant permission | WrongIdentity string | BadMetadata string | Incompatible string
  | BadPolicy policy_error | BadGeneration u64 | RendererScope capability_descriptor
  | RendererProvidesScope | ManagedCheck string

datatype local_plugin_error =
    ReservedPluginId string
  | LocalIo string string io_error
  | Rejected string string reject_reason

type_synonym 'a local_result = "(local_plugin_error, 'a) outcome"

fun io_step :: "string \<Rightarrow> string \<Rightarrow> (io_error, 'a) outcome \<Rightarrow> 'a local_result" where
  "io_step path stage (Ok x) = Ok x"
| "io_step path stage (Err e) = Err (LocalIo path stage e)"
| "io_step path stage Panic = Panic"

lemma io_step_ok: "io_step p s r = Ok x \<longleftrightarrow> r = Ok x"
  by (cases r) auto

section \<open>Checked paths\<close>

definition require_file_type :: "file_meta \<Rightarrow> string \<Rightarrow> string \<Rightarrow> bool \<Rightarrow> unit local_result" where
  "require_file_type m path stage directory =
     (if fm_type m = Symlink \<or> fm_type m = RegularFile \<and> fm_links m \<noteq> 1
      then Err (Rejected path stage LinkedFile)
      else if directory \<and> fm_type m \<noteq> Directory \<or> \<not> directory \<and> fm_type m \<noteq> RegularFile
      then Err (Rejected path stage WrongType)
      else Ok ())"

definition path_starts_with :: "string \<Rightarrow> string \<Rightarrow> bool" where
  "path_starts_with p root = (take (length (path_components root)) (path_components p) = path_components root)"

text \<open>One turn of the loop, for a component of which \<open>further\<close> says whether others follow.\<close>

definition check_component ::
    "local_fs \<Rightarrow> string \<Rightarrow> string \<Rightarrow> string \<Rightarrow> string \<Rightarrow> bool \<Rightarrow> unit local_result" where
  "check_component fs root parent component stage further =
     (let path = path_join parent component in
      and_then (io_step path stage (lf_lstat fs path)) (\<lambda>m.
      and_then (require_file_type m path stage further) (\<lambda>_.
      and_then (io_step parent stage (lf_read_dir fs parent)) (\<lambda>entries.
      if component \<notin> set entries then Err (Rejected path stage PathAlias)
      else and_then (io_step path stage (lf_canonicalize fs path)) (\<lambda>canonical.
      if \<not> path_starts_with canonical root \<or> \<not> path_eq canonical path
      then Err (Rejected path stage EscapesRoot)
      else Ok ())))))"

fun checked_from ::
    "local_fs \<Rightarrow> string \<Rightarrow> string \<Rightarrow> string list \<Rightarrow> string \<Rightarrow> string local_result" where
  "checked_from fs root path [] stage = Ok path"
| "checked_from fs root path (c # cs) stage =
     and_then (check_component fs root path c stage (cs \<noteq> []))
       (\<lambda>_. checked_from fs root (path_join path c) cs stage)"

definition checked_path :: "local_fs \<Rightarrow> string \<Rightarrow> string \<Rightarrow> string \<Rightarrow> string local_result" where
  "checked_path fs root relative stage = checked_from fs root root (split_on slash relative) stage"

definition verify_open_file :: "local_fs \<Rightarrow> nat \<Rightarrow> string \<Rightarrow> string \<Rightarrow> unit local_result" where
  "verify_open_file fs file path stage =
     and_then (io_step path stage (lf_fstat fs file)) (\<lambda>m.
     and_then (require_file_type m path stage False) (\<lambda>_.
     and_then (io_step path stage (lf_lstat fs path)) (\<lambda>named.
     if fm_inode m \<noteq> fm_inode named then Err (Rejected path stage FileChanged) else Ok ())))"

text \<open>The instants are counted from the first call.\<close>

definition open_checked_file ::
    "(nat \<Rightarrow> local_fs) \<Rightarrow> string \<Rightarrow> string \<Rightarrow> string \<Rightarrow> (nat \<times> string) local_result" where
  "open_checked_file fs root relative stage =
     and_then (checked_path (fs 0) root relative stage) (\<lambda>path.
     and_then (io_step path stage (lf_open (fs 1) path)) (\<lambda>file.
     and_then (io_step path stage (lf_fstat (fs 2) file)) (\<lambda>m.
     and_then (require_file_type m path stage False) (\<lambda>_.
     and_then (verify_open_file (fs 3) file path stage) (\<lambda>_.
     and_then (checked_path (fs 4) root relative stage) (\<lambda>_.
     and_then (verify_open_file (fs 5) file path stage) (\<lambda>_.
     Ok (file, path))))))))"

definition read_bytes ::
    "(nat \<Rightarrow> local_fs) \<Rightarrow> string \<Rightarrow> string \<Rightarrow> nat \<Rightarrow> string \<Rightarrow> string local_result" where
  "read_bytes fs root relative limit stage =
     and_then (open_checked_file fs root relative stage) (\<lambda>(file, path).
     and_then (io_step path stage (lf_fstat (fs 6) file)) (\<lambda>m.
     if limit < fm_len m then Err (Rejected path stage FileTooBig)
     else and_then (io_step path stage (lf_contents (fs 7) file)) (\<lambda>contents.
     let bytes = take (limit + 1) contents in
     if limit < length bytes then Err (Rejected path stage FileTooBig)
     else and_then (checked_path (fs 8) root relative stage) (\<lambda>_.
     and_then (verify_open_file (fs 9) file path stage) (\<lambda>_.
     Ok bytes)))))"

definition binary_text :: "string \<Rightarrow> bool" where
  "binary_text s =
     list_ex (\<lambda>c. (c < 32 \<or> 127 \<le> c \<and> c < 160) \<and> c \<noteq> 9 \<and> c \<noteq> 10 \<and> c \<noteq> 13) (chars s)"

definition read_text ::
    "(nat \<Rightarrow> local_fs) \<Rightarrow> string \<Rightarrow> string \<Rightarrow> nat \<Rightarrow> string \<Rightarrow> string local_result" where
  "read_text fs root relative limit stage =
     and_then (read_bytes fs root relative limit stage) (\<lambda>bytes.
     if \<not> valid_utf8 bytes then Err (Rejected (path_join root relative) stage NotUtf8)
     else if binary_text bytes then Err (Rejected (path_join root relative) stage BinaryText)
     else Ok bytes)"

section \<open>The selected root\<close>

definition starts_with :: "string \<Rightarrow> string \<Rightarrow> bool" where
  "starts_with prefix s = (take (length prefix) s = prefix)"

definition validate_root_input :: "string \<Rightarrow> unit local_result" where
  "validate_root_input root =
     (if root = [] \<or> \<not> valid_utf8 root \<or> starts_with [backslash, backslash] root
        \<or> starts_with [slash, slash] root
      then Err (Rejected root ''root path validation'' BadRootInput) else Ok ())"

definition canonical_local_root :: "local_fs \<Rightarrow> string \<Rightarrow> string local_result" where
  "canonical_local_root fs root =
     and_then (validate_root_input root) (\<lambda>_.
     and_then (if path_is_absolute root then Ok root
               else and_then (io_step root ''resolve current directory'' (lf_current_dir fs))
                      (\<lambda>d. Ok (path_join d root))) (\<lambda>absolute.
     and_then (validate_root_input absolute) (\<lambda>_.
     and_then (io_step root ''resolve root'' (lf_canonicalize fs absolute)) (\<lambda>canonical.
     and_then (validate_root_input canonical) (\<lambda>_.
     and_then (io_step canonical ''inspect root'' (lf_lstat fs canonical)) (\<lambda>m.
     and_then (require_file_type m canonical ''inspect root'' True) (\<lambda>_.
     Ok canonical)))))))"

section \<open>Manifests and grants\<close>

definition ascii_upcase :: "string \<Rightarrow> string" where
  "ascii_upcase = map (\<lambda>c. if ascii_lower c then char_of (byte c - 32) else c)"

definition device_name :: "string \<Rightarrow> bool" where
  "device_name component =
     (let stem = ascii_upcase (hd (split_on (CHR ''.'') component))
      in stem = ''CON'' \<or> stem = ''PRN'' \<or> stem = ''AUX'' \<or> stem = ''NUL''
         \<or> length stem = 4 \<and> (starts_with ''COM'' stem \<or> starts_with ''LPT'' stem)
           \<and> 49 \<le> byte (stem ! 3) \<and> byte (stem ! 3) \<le> 57)"

definition validate_entry :: "string \<Rightarrow> string \<Rightarrow> unit local_result" where
  "validate_entry root entry =
     (if list_ex (\<lambda>c. ends_with ''.'' c \<or> ends_with '' '' c \<or> device_name c) (split_on slash entry)
      then Err (Rejected (path_join root entry) ''entry path validation'' DeviceName) else Ok ())"

definition supported_permission :: "plugin_manifest \<Rightarrow> permission \<Rightarrow> bool" where
  "supported_permission m p =
     (is_core_service p
      \<or> pm_renderer m \<noteq> None \<and> (p = HostFs \<or> p = HostNetwork)
      \<or> pm_host m \<noteq> None
        \<and> (p = HostProcess \<or> p = CdpRaw \<or> p = HostFs \<or> p = HostNetwork \<or> p = HostSystem
           \<or> p = RuntimeManage)
      \<or> pm_renderer m \<noteq> None \<and> (p = UiDom \<or> p = UiMainWorld \<or> p = RuntimeManage))"

definition require_supported_permission ::
    "plugin_manifest \<Rightarrow> permission \<Rightarrow> string \<Rightarrow> string \<Rightarrow> unit local_result" where
  "require_supported_permission m p path stage =
     (if supported_permission m p then Ok () else Err (Rejected path stage (Unsupported p)))"

fun require_supported_all ::
    "plugin_manifest \<Rightarrow> permission list \<Rightarrow> string \<Rightarrow> string \<Rightarrow> unit local_result" where
  "require_supported_all m [] path stage = Ok ()"
| "require_supported_all m (p # ps) path stage =
     and_then (require_supported_permission m p path stage)
       (\<lambda>_. require_supported_all m ps path stage)"

definition validate_local_manifest :: "plugin_manifest \<Rightarrow> string \<Rightarrow> unit local_result" where
  "validate_local_manifest m path =
     (if list_ex (\<lambda>d. cd_scope d \<noteq> Runtime \<and> cd_scope d \<noteq> Target) (host_provides m @ host_requires m)
      then Err (Rejected path ''host capability routing'' WrongScope)
      else require_supported_all m (pm_permissions m) path ''permission validation'')"

fun check_grants ::
    "plugin_manifest \<Rightarrow> string \<Rightarrow> permission list \<Rightarrow> permission list \<Rightarrow> unit local_result" where
  "check_grants m path earlier [] = Ok ()"
| "check_grants m path earlier (p # ps) =
     and_then (require_supported_permission m p path ''grant validation'') (\<lambda>_.
     if p \<in> set earlier then Err (Rejected path ''grant validation'' (DuplicateGrant p))
     else check_grants m path (earlier @ [p]) ps)"

definition validate_grants_at ::
    "plugin_manifest \<Rightarrow> permission list \<Rightarrow> string \<Rightarrow> unit local_result" where
  "validate_grants_at m grants path =
     and_then (validate_local_manifest m path) (\<lambda>_.
     and_then (check_grants m path [] grants) (\<lambda>_.
     case find (\<lambda>p. p \<notin> set grants) (pm_permissions m) of
       Some p \<Rightarrow> Err (Rejected path ''grant validation'' (MissingGrant p))
     | None \<Rightarrow> Ok ()))"

section \<open>Loading\<close>

record local_candidate =
  lc_root :: string
  lc_manifest :: plugin_manifest
  lc_source :: "string option"
  lc_host :: "loaded_host option"

text \<open>The arguments of the loader: the codec of manifests and the package metadata.\<close>

record loader =
  ld_manifest_from :: "string \<Rightarrow> (string, plugin_manifest) outcome"
  ld_tables :: unicode_tables
  ld_url :: "string \<Rightarrow> parsed_url option"
  ld_metadata :: "string \<Rightarrow> (string, package_metadata option) outcome"
  ld_compatible :: "package_metadata option \<Rightarrow> (string, unit) outcome"

definition read_entry ::
    "(nat \<Rightarrow> local_fs) \<Rightarrow> string \<Rightarrow> string \<Rightarrow> string \<Rightarrow> string local_result" where
  "read_entry fs root entry stage =
     and_then (validate_entry root entry) (\<lambda>_.
     and_then (read_text fs root entry MAX_SOURCE_BYTES stage) (\<lambda>source.
     if blank source then Err (Rejected (path_join root entry) stage EmptySource)
     else Ok source))"

definition inspect_local_plugin ::
    "loader \<Rightarrow> (nat \<Rightarrow> local_fs) \<Rightarrow> string \<Rightarrow> local_candidate local_result" where
  "inspect_local_plugin l fs root =
     and_then (canonical_local_root (fs 0) root) (\<lambda>root.
     let manifest_path = path_join root MANIFEST_NAME in
     and_then (io_step manifest_path ''inspect manifest'' (lf_exists (fs 1) manifest_path)) (\<lambda>there.
     if \<not> there \<and> lf_exists (fs 1) (path_join root ''plugin.json'') = Ok True
     then Err (Rejected manifest_path ''manifest migration'' NeedsMigration)
     else and_then (read_text (\<lambda>t. fs (2 + t)) root MANIFEST_NAME MAX_MANIFEST_BYTES ''read manifest'') (\<lambda>json.
     case manifest_parse (ld_manifest_from l) (ld_tables l) json of
       Err e \<Rightarrow> Err (Rejected manifest_path ''parse manifest'' (BadManifest e))
     | Panic \<Rightarrow> Panic
     | Ok m \<Rightarrow>
         and_then (validate_local_manifest m manifest_path) (\<lambda>_.
         and_then (case pm_renderer m of
                     None \<Rightarrow> Ok None
                   | Some r \<Rightarrow> and_then (read_entry (\<lambda>t. fs (12 + t)) root (rm_entry r) ''read renderer entry'')
                                 (\<lambda>s. Ok (Some s))) (\<lambda>source.
         and_then (case pm_host m of
                     None \<Rightarrow> Ok None
                   | Some h \<Rightarrow> and_then (read_entry (\<lambda>t. fs (22 + t)) root (hm_entry h) ''read host entry'')
                                 (\<lambda>s. Ok (Some \<lparr>lh_root = root, lh_entry = path_join root (hm_entry h),
                                               lh_source = s, lh_authorization = None\<rparr>))) (\<lambda>host.
         Ok \<lparr>lc_root = root, lc_manifest = m, lc_source = source, lc_host = host\<rparr>))))))"

definition load_local_plugin ::
    "loader \<Rightarrow> (nat \<Rightarrow> local_fs) \<Rightarrow> string \<Rightarrow> local_registration \<Rightarrow> u64 \<Rightarrow> loaded_plugin local_result" where
  "load_local_plugin l fs expected registration generation =
     and_then (inspect_local_plugin l fs (lr_path registration)) (\<lambda>c.
     let manifest_path = path_join (lc_root c) MANIFEST_NAME;
         metadata_path = path_join (lc_root c) ''codlet-package.json'' in
     case ld_metadata l (lc_root c) of
       Err e \<Rightarrow> Err (Rejected metadata_path ''package metadata'' (BadMetadata e))
     | Panic \<Rightarrow> Panic
     | Ok metadata \<Rightarrow>
     (case ld_compatible l metadata of
       Err e \<Rightarrow> Err (Rejected metadata_path ''device compatibility'' (Incompatible e))
     | Panic \<Rightarrow> Panic
     | Ok _ \<Rightarrow>
     if pm_id (lc_manifest c) \<noteq> expected
     then Err (Rejected manifest_path ''identity validation'' (WrongIdentity (pm_id (lc_manifest c))))
     else and_then (validate_grants_at (lc_manifest c) (lr_grants registration) manifest_path) (\<lambda>_.
     case policy_validate_grants (ld_url l) (lr_policy registration) (lr_grants registration) of
       Err e \<Rightarrow> Err (Rejected manifest_path ''broker policy validation'' (BadPolicy e))
     | Panic \<Rightarrow> Panic
     | Ok _ \<Rightarrow>
     if \<not> (1 \<le> generation \<and> generation \<le> MAX_JAVASCRIPT_SAFE_INTEGER)
     then Err (Rejected manifest_path ''generation validation'' (BadGeneration generation))
     else Ok \<lparr>lp_authorization = Some registration, lp_manifest = lc_manifest c,
              lp_source = lc_source c,
              lp_host = map_option (\<lambda>h. h\<lparr>lh_authorization := Some registration\<rparr>) (lc_host c),
              lp_generation = generation\<rparr>)))"

end
