(* ===== verification/Catalog.thy ===== *)
theory Catalog
  imports Local_Plugins Rpc_State Activation_Order
begin

text \<open>
  The catalog of plugins (\<open>src/src/catalog.rs\<close>): one entry per bundled or registered plugin
  with the plugin as it loaded or the error that kept it from loading, the selection of the
  enabled ones, and the capability graph of a list of plugins.

  The bundled plugins and the validation of a managed package (\<open>managed_plugins.rs\<close>) are
  arguments; local plugins are loaded by \<open>load_local_plugin\<close>.
\<close>

section \<open>Entries\<close>

datatype plugin_source = Bundled | Local (source_path: string) (source_grants: "permission list")

definition source_kind :: "plugin_source \<Rightarrow> string" where
  "source_kind s = (case s of Bundled \<Rightarrow> ''bundled'' | Local _ _ \<Rightarrow> ''local'')"

definition source_root :: "plugin_source \<Rightarrow> string option" where
  "source_root s = (case s of Bundled \<Rightarrow> None | Local path _ \<Rightarrow> Some path)"

record catalog_entry =
  ce_id :: string
  ce_source :: plugin_source
  ce_plugin :: "local_plugin_error + loaded_plugin"

definition entry_grants :: "catalog_entry \<Rightarrow> permission list" where
  "entry_grants e =
     (case ce_source e of
        Bundled \<Rightarrow> (case ce_plugin e of Inr p \<Rightarrow> pm_permissions (lp_manifest p) | Inl _ \<Rightarrow> [])
      | Local _ grants \<Rightarrow> grants)"

record plugin_catalog =
  ct_entries :: "catalog_entry list"
  ct_suspensions :: "(string, string) btree"

text \<open>The message of an invalid plugin is the text of one of two errors.\<close>

datatype invalid_reason = LoadFailed local_plugin_error | ManagedInvalid string

datatype catalog_error =
    UnknownPlugin string
  | InvalidPlugin string invalid_reason

text \<open>What a load reads besides the registry.\<close>

record load_env =
  lv_loader :: loader
  lv_fs :: "string \<Rightarrow> nat \<Rightarrow> local_fs"
  lv_managed :: "plugin_registry \<Rightarrow> string \<Rightarrow> (string, unit) outcome"

section \<open>Loading\<close>

definition validate_renderer_requirements :: "loaded_plugin \<Rightarrow> string \<Rightarrow> loaded_plugin local_result" where
  "validate_renderer_requirements p path =
     (if pm_renderer (lp_manifest p) = None then Ok p
      else case find (\<lambda>d. cd_scope d \<noteq> Target \<and> cd_scope d \<noteq> Runtime) (pm_requires (lp_manifest p)) of
        Some d \<Rightarrow> Err (Rejected (path_join path ''codlet.json'') ''renderer capability routing'' (RendererScope d))
      | None \<Rightarrow>
          if list_ex (\<lambda>d. cd_scope d \<noteq> Target) (renderer_provides (lp_manifest p))
          then Err (Rejected (path_join path ''codlet.json'') ''renderer capability routing'' RendererProvidesScope)
          else Ok p)"

definition load_registered ::
    "load_env \<Rightarrow> string \<Rightarrow> local_registration \<Rightarrow> u64 \<Rightarrow> loaded_plugin local_result" where
  "load_registered v i l generation =
     and_then (load_local_plugin (lv_loader v) (lv_fs v i) i l generation)
       (\<lambda>p. validate_renderer_requirements p (lr_path l))"

text \<open>One turn of the loop of \<open>PluginCatalog::load\<close>; \<open>None\<close> is a panic.\<close>

definition local_entry ::
    "load_env \<Rightarrow> plugin_registry \<Rightarrow> string set \<Rightarrow> string \<Rightarrow> local_registration \<Rightarrow> catalog_entry option" where
  "local_entry v r bundled i l =
     (let entry = (\<lambda>p. Some \<lparr>ce_id = i, ce_source = Local (lr_path l) (lr_grants l), ce_plugin = p\<rparr>)
      in if i \<in> bundled \<or> i = BUILTIN_HOST_PROVIDER_ID then entry (Inl (ReservedPluginId i))
         else case lv_managed v r i of
           Err e \<Rightarrow> entry (Inl (Rejected (lr_path l) ''managed package validation'' (ManagedCheck e)))
         | Panic \<Rightarrow> None
         | Ok _ \<Rightarrow>
             (case load_registered v i l 1 of
                Ok p \<Rightarrow> entry (Inr p) | Err e \<Rightarrow> entry (Inl e) | Panic \<Rightarrow> None))"

fun local_entries ::
    "load_env \<Rightarrow> plugin_registry \<Rightarrow> string set \<Rightarrow> (string \<times> local_registration) list
     \<Rightarrow> catalog_entry list option" where
  "local_entries v r bundled [] = Some []"
| "local_entries v r bundled ((i, l) # ls) =
     (case local_entry v r bundled i l of
        None \<Rightarrow> None
      | Some e \<Rightarrow> map_option ((#) e) (local_entries v r bundled ls))"

definition from_bundled :: "loaded_plugin list \<Rightarrow> plugin_catalog" where
  "from_bundled ps =
     \<lparr>ct_entries = sort_key ce_id
        (map (\<lambda>p. \<lparr>ce_id = pm_id (lp_manifest p), ce_source = Bundled, ce_plugin = Inr p\<rparr>) ps),
      ct_suspensions = bt_empty\<rparr>"

definition catalog_load ::
    "load_env \<Rightarrow> (manifest_error, loaded_plugin list) outcome \<Rightarrow> plugin_registry
     \<Rightarrow> (manifest_error, plugin_catalog) outcome" where
  "catalog_load v bundled r =
     (case bundled of
        Err e \<Rightarrow> Err e
      | Panic \<Rightarrow> Panic
      | Ok ps \<Rightarrow>
          let c = from_bundled ps; ids = ce_id ` set (ct_entries c) in
          (case local_entries v r ids (bt_entries (rg_local r)) of
             None \<Rightarrow> Panic
           | Some es \<Rightarrow> Ok (c\<lparr>ct_entries := sort_key ce_id (ct_entries c @ es)\<rparr>)))"

section \<open>Startup suspensions\<close>

definition suspend_startup :: "string bset \<Rightarrow> string \<Rightarrow> plugin_catalog \<Rightarrow> plugin_catalog" where
  "suspend_startup ids reason c =
     c\<lparr>ct_suspensions := bt_extend (map (\<lambda>i. (i, reason)) (bt_keys ids)) (ct_suspensions c)\<rparr>"

definition startup_suspension :: "plugin_catalog \<Rightarrow> string \<Rightarrow> string option" where
  "startup_suspension c i = bt_get (ct_suspensions c) i"

definition resume_startup :: "string bset \<Rightarrow> plugin_catalog \<Rightarrow> plugin_catalog" where
  "resume_startup ids c = c\<lparr>ct_suspensions := bt_retain (\<lambda>i _. \<not> bt_has ids i) (ct_suspensions c)\<rparr>"

section \<open>Selection\<close>

fun collect_plugins :: "catalog_entry list \<Rightarrow> (catalog_error, loaded_plugin list) outcome" where
  "collect_plugins [] = Ok []"
| "collect_plugins (e # es) =
     (case ce_plugin e of
        Inl x \<Rightarrow> Err (InvalidPlugin (ce_id e) (LoadFailed x))
      | Inr p \<Rightarrow> and_then (collect_plugins es) (\<lambda>ps. Ok (p # ps)))"

definition enabled_with_suspensions ::
    "plugin_catalog \<Rightarrow> plugin_registry \<Rightarrow> (catalog_error, loaded_plugin list) outcome" where
  "enabled_with_suspensions c r = collect_plugins (filter (\<lambda>e. is_enabled r (ce_id e)) (ct_entries c))"

definition enabled_plugins ::
    "plugin_catalog \<Rightarrow> plugin_registry \<Rightarrow> (catalog_error, loaded_plugin list) outcome" where
  "enabled_plugins c r =
     collect_plugins (filter (\<lambda>e. is_enabled r (ce_id e) \<and> \<not> bt_has (ct_suspensions c) (ce_id e))
       (ct_entries c))"

section \<open>Replacing an entry\<close>

definition reload_entry ::
    "load_env \<Rightarrow> plugin_catalog \<Rightarrow> string \<Rightarrow> plugin_registry \<Rightarrow> u64
     \<Rightarrow> (catalog_error, catalog_entry) outcome" where
  "reload_entry v c i r generation =
     (case find (\<lambda>e. ce_id e = i \<and> ce_source e = Bundled) (ct_entries c) of
        Some e \<Rightarrow>
          (case ce_plugin e of
             Inl _ \<Rightarrow> Panic
           | Inr p \<Rightarrow> Ok \<lparr>ce_id = i, ce_source = Bundled,
                         ce_plugin = Inr (p\<lparr>lp_generation := generation\<rparr>)\<rparr>)
      | None \<Rightarrow>
          (case bt_get (rg_local r) i of
             None \<Rightarrow> Err (UnknownPlugin i)
           | Some l \<Rightarrow>
               (case lv_managed v r i of
                  Err e \<Rightarrow> Err (InvalidPlugin i (ManagedInvalid e))
                | Panic \<Rightarrow> Panic
                | Ok _ \<Rightarrow>
                    (case load_registered v i l generation of
                       Err e \<Rightarrow> Err (InvalidPlugin i (LoadFailed e))
                     | Panic \<Rightarrow> Panic
                     | Ok p \<Rightarrow> Ok \<lparr>ce_id = i, ce_source = Local (lr_path l) (lr_grants l),
                                  ce_plugin = Inr p\<rparr>))))"

fun replace_first :: "catalog_entry \<Rightarrow> catalog_entry list \<Rightarrow> catalog_entry list option" where
  "replace_first e [] = None"
| "replace_first e (x # xs) =
     (if ce_id x = ce_id e then Some (e # xs) else map_option ((#) x) (replace_first e xs))"

definition replace_entry :: "catalog_entry \<Rightarrow> plugin_catalog \<Rightarrow> plugin_catalog" where
  "replace_entry e c =
     c\<lparr>ct_entries :=
        (case replace_first e (ct_entries c) of
           Some es \<Rightarrow> es
         | None \<Rightarrow> sort_key ce_id (ct_entries c @ [e]))\<rparr>"

section \<open>The capability graph\<close>

text \<open>An operation on the graph, whose error drops the graph.\<close>

definition graph_step ::
    "(registry_error, unit) outcome \<times> capability_registry
     \<Rightarrow> (registry_error, capability_registry) outcome" where
  "graph_step x = and_then (fst x) (\<lambda>_. Ok (snd x))"

fun note_launches ::
    "string \<Rightarrow> capability_descriptor list \<Rightarrow> string option \<Rightarrow> (registry_error, string option) outcome" where
  "note_launches host [] launch = Ok launch"
| "note_launches host (d # ds) launch =
     (case launch of
        Some existing \<Rightarrow> Err (CapabilityConflict (cd_name d) (cd_scope d) existing host)
      | None \<Rightarrow> note_launches host ds (Some host))"

definition graph_grants :: "plugin_manifest \<Rightarrow> string list" where
  "graph_grants m = map permission_str (pm_permissions m)"

definition graph_host ::
    "loaded_plugin \<Rightarrow> string option \<Rightarrow> capability_registry
     \<Rightarrow> (registry_error, string option \<times> capability_registry) outcome" where
  "graph_host p launch g =
     (let m = lp_manifest p; host = host_provider_id (pm_id m) in
      if pm_host m = None then Ok (launch, g)
      else and_then (note_launches host (filter is_native_launch_capability (host_provides m)) launch) (\<lambda>launch.
        and_then (graph_step (register_provider host (lp_generation p) (runtime_host_provides m)
                                (host_requires m) (graph_grants m) g)) (\<lambda>g.
        Ok (launch, g))))"

definition graph_renderer ::
    "loaded_plugin \<Rightarrow> capability_registry \<Rightarrow> (registry_error, capability_registry) outcome" where
  "graph_renderer p g =
     (let m = lp_manifest p in
      if pm_renderer m = None then Ok g
      else graph_step (register_provider (pm_id m) (lp_generation p) (renderer_provides m)
                         (renderer_requires m) (graph_grants m) g))"

fun graph_plugins ::
    "loaded_plugin list \<Rightarrow> string option \<Rightarrow> capability_registry
     \<Rightarrow> (registry_error, capability_registry) outcome" where
  "graph_plugins [] launch g = Ok g"
| "graph_plugins (p # ps) launch g =
     and_then (graph_host p launch g) (\<lambda>(launch, g).
     and_then (graph_renderer p g) (\<lambda>g. graph_plugins ps launch g))"

fun graph_own_hosts ::
    "loaded_plugin list \<Rightarrow> capability_registry \<Rightarrow> (registry_error, capability_registry) outcome" where
  "graph_own_hosts [] g = Ok g"
| "graph_own_hosts (p # ps) g =
     (let m = lp_manifest p in
      if has_runtime_host m \<and> pm_renderer m \<noteq> None
      then and_then (graph_step (require_provider_before (pm_id m) (host_provider_id (pm_id m)) g))
             (\<lambda>g. graph_own_hosts ps g)
      else graph_own_hosts ps g)"

definition capability_graph ::
    "u64 \<Rightarrow> loaded_plugin list \<Rightarrow> (registry_error, capability_registry) outcome" where
  "capability_graph registry_id ps =
     and_then (graph_step (register_provider BUILTIN_HOST_PROVIDER_ID 1 builtin_host_capabilities [] []
                (registry_new registry_id))) (\<lambda>g.
     and_then (graph_plugins ps None g) (\<lambda>g. graph_own_hosts ps g))"

end
