(* ===== verification/Lifecycle.thy ===== *)
theory Lifecycle
  imports Catalog
begin

text \<open>
  The plans and the trust checks of plugin lifecycle operations
  (\<open>src/src/plugin_lifecycle.rs\<close>): the plugins a change affects, the order in which plugins
  are activated, fresh generations, and the registry writes that come before a change.
\<close>

section \<open>Errors\<close>

definition MAX_GENERATION :: u64 where
  "MAX_GENERATION = 9007199254740991"

datatype rollback_reason = NoLongerRegistered | GrantsRefused local_plugin_error

datatype lifecycle_error =
    CatalogFailure catalog_error
  | RegistryFailure plugin_registry_error
  | Dependents string string
  | NotEnabled string
  | GenerationExhausted string
  | Dependency registry_error
  | RegistrationChanged string
  | RollbackTrust string rollback_reason

type_synonym 'a lifecycle_result = "(lifecycle_error, 'a) outcome"

fun lifecycle_code :: "lifecycle_error \<Rightarrow> string" where
  "lifecycle_code (CatalogFailure (UnknownPlugin _)) = ''plugin_not_found''"
| "lifecycle_code (CatalogFailure _) = ''local_plugin_invalid''"
| "lifecycle_code (RegistryFailure _) = ''registry_error''"
| "lifecycle_code (Dependents _ _) = ''dependency_conflict''"
| "lifecycle_code (Dependency _) = ''dependency_conflict''"
| "lifecycle_code (NotEnabled _) = ''plugin_not_enabled''"
| "lifecycle_code (GenerationExhausted _) = ''generation_exhausted''"
| "lifecycle_code (RegistrationChanged _) = ''registration_changed''"
| "lifecycle_code (RollbackTrust _ _) = ''rollback_trust_changed''"

section \<open>Affected plugins\<close>

abbreviation plugin_id :: "loaded_plugin \<Rightarrow> string" where
  "plugin_id p \<equiv> pm_id (lp_manifest p)"

definition bset_of :: "string list \<Rightarrow> string bset" where
  "bset_of is = bt_extend (map (\<lambda>i. (i, ())) is) bt_empty"

text \<open>One turn of the loop: the set with the plugins that require something it provides.\<close>

definition add_dependents :: "loaded_plugin list \<Rightarrow> string bset \<Rightarrow> string bset" where
  "add_dependents ps affected =
     (let provided = concat (map (\<lambda>p. all_provides (lp_manifest p))
            (filter (\<lambda>p. bt_has affected (plugin_id p)) ps));
          dependents = map plugin_id
            (filter (\<lambda>p. list_ex (\<lambda>d. d \<in> set provided) (all_requires (lp_manifest p))) ps)
      in bt_extend (map (\<lambda>i. (i, ())) dependents) affected)"

definition members :: "string bset \<Rightarrow> string set" where
  "members s = {i. bt_get s i \<noteq> None}"

lemma has_members: "bt_has s i \<longleftrightarrow> i \<in> members s"
  by (simp add: members_def)

lemma set_keys_members [simp]: "set (bt_keys s) = members s"
  by (auto simp: members_def)

lemma finite_members [simp]: "finite (members s)"
  by (simp add: members_def del: not_None_eq)

lemma len_members: "bt_len s = card (members s)"
  by (simp add: members_def bt_len_card)

lemma bt_get_extend_rev:
  "bt_get (bt_extend es m) k = (case map_of (rev es) k of None \<Rightarrow> bt_get m k | Some v \<Rightarrow> Some v)"
  by (induction es arbitrary: m) (auto simp: bt_extend_def map_add_def split: option.splits)

lemma members_extend [simp]: "members (bt_extend es m) = members m \<union> fst ` set es"
  by (auto simp: members_def bt_get_extend_rev map_of_eq_None_iff simp del: not_None_eq split: option.splits)

lemma members_bset_of [simp]: "members (bset_of is) = set is"
  by (simp add: bset_of_def image_comp) (simp add: members_def)

text \<open>\<open>serves ps a b\<close>: a plugin with id \<open>b\<close> requires something a plugin with id \<open>a\<close> provides.\<close>

definition serves :: "loaded_plugin list \<Rightarrow> string \<Rightarrow> string \<Rightarrow> bool" where
  "serves ps a b \<longleftrightarrow>
     (\<exists>p \<in> set ps. \<exists>q \<in> set ps. plugin_id p = a \<and> plugin_id q = b
        \<and> set (all_provides (lp_manifest p)) \<inter> set (all_requires (lp_manifest q)) \<noteq> {})"

lemma members_add_dependents:
  "members (add_dependents ps affected) = members affected \<union> {b. \<exists>a \<in> members affected. serves ps a b}"
proof -
  have keys: "fst ` set (map (\<lambda>i. (i, ())) is) = set is" for "is" :: "string list"
    by (simp add: image_comp)
  have some: "set (all_provides (lp_manifest p)) \<inter> set (all_requires (lp_manifest q)) \<noteq> {}
      \<longleftrightarrow> (\<exists>d \<in> set (all_requires (lp_manifest q)). d \<in> set (all_provides (lp_manifest p)))" for p q
    by blast
  show ?thesis
    unfolding add_dependents_def Let_def members_extend keys serves_def some has_members list_ex_iff
    by auto
qed

lemma add_dependents_grows:
  "bt_len (add_dependents ps affected) \<noteq> bt_len affected \<Longrightarrow>
     card (plugin_id ` set ps - members (add_dependents ps affected))
       < card (plugin_id ` set ps - members affected)"
proof -
  assume grow: "bt_len (add_dependents ps affected) \<noteq> bt_len affected"
  let ?n = "add_dependents ps affected"
  have "members affected \<noteq> members ?n" using grow by (auto simp: len_members)
  then obtain b where "b \<in> members ?n" "b \<notin> members affected"
    using members_add_dependents [of ps affected] by blast
  then have "b \<in> plugin_id ` set ps"
    using members_add_dependents [of ps affected] by (auto simp: serves_def)
  with \<open>b \<in> members ?n\<close> \<open>b \<notin> members affected\<close>
  have "plugin_id ` set ps - members ?n \<subset> plugin_id ` set ps - members affected"
    using members_add_dependents [of ps affected] by blast
  then show ?thesis by (simp add: psubset_card_mono)
qed

function dependents_loop :: "loaded_plugin list \<Rightarrow> string bset \<Rightarrow> string bset" where
  "dependents_loop ps affected =
     (let next = add_dependents ps affected
      in if bt_len next = bt_len affected then next else dependents_loop ps next)"
  by auto

termination
  by (relation "measure (\<lambda>(ps, affected). card (plugin_id ` set ps - members affected))")
    (simp_all add: add_dependents_grows)

declare dependents_loop.simps [simp del]

definition dependent_closure :: "loaded_plugin list \<Rightarrow> string \<Rightarrow> string bset" where
  "dependent_closure ps root = dependents_loop ps (bset_of [root])"

text \<open>
  Running plugins win over the snapshots of the catalog, which cover the target and the
  enabled plugins that do not run.
\<close>

definition disable_candidates ::
    "loaded_plugin list \<Rightarrow> plugin_catalog \<Rightarrow> plugin_registry \<Rightarrow> string \<Rightarrow> (string, loaded_plugin) btree" where
  "disable_candidates ps c r i =
     (let entries = filter (\<lambda>e. ce_id e = i \<or> is_enabled r (ce_id e)) (ct_entries c);
          loaded = concat (map (\<lambda>e. case ce_plugin e of Inr p \<Rightarrow> [p] | Inl _ \<Rightarrow> []) entries)
      in bt_extend (map (\<lambda>p. (plugin_id p, p)) (loaded @ ps)) bt_empty)"

definition disable_closure ::
    "loaded_plugin list \<Rightarrow> plugin_catalog \<Rightarrow> plugin_registry \<Rightarrow> string \<Rightarrow> string bset lifecycle_result" where
  "disable_closure ps c r i =
     (if \<not> list_ex (\<lambda>e. ce_id e = i) (ct_entries c) \<and> \<not> bt_has (rg_local r) i
      then Err (CatalogFailure (UnknownPlugin i))
      else Ok (dependent_closure (bt_values (disable_candidates ps c r i)) i))"

fun join_ids :: "string list \<Rightarrow> string" where
  "join_ids [] = []"
| "join_ids [i] = i"
| "join_ids (i # is) = i @ '', '' @ join_ids is"

definition validate_disable ::
    "loaded_plugin list \<Rightarrow> plugin_catalog \<Rightarrow> plugin_registry \<Rightarrow> string \<Rightarrow> unit lifecycle_result" where
  "validate_disable ps c r i =
     and_then (disable_closure ps c r i) (\<lambda>closure.
     let dependents = filter (\<lambda>j. j \<noteq> i) (bt_keys closure)
     in if dependents \<noteq> [] then Err (Dependents i (join_ids dependents)) else Ok ())"

section \<open>Generations\<close>

definition next_generation ::
    "(string, u64) btree \<Rightarrow> string \<Rightarrow> u64 lifecycle_result \<times> (string, u64) btree" where
  "next_generation m i =
     (case checked_succ (case bt_get m i of Some g \<Rightarrow> g | None \<Rightarrow> 0) of
        Some g \<Rightarrow> if g \<le> MAX_GENERATION then (Ok g, bt_insert i g m)
                  else (Err (GenerationExhausted i), m)
      | None \<Rightarrow> (Err (GenerationExhausted i), m))"

section \<open>The logical order\<close>

text \<open>
  The packages in the order of their entries: the Host entry of a package that has a renderer
  is passed over. Each package is taken out of the map when it is placed.
\<close>

fun place_plugins :: "string list \<Rightarrow> (string, loaded_plugin) btree \<Rightarrow> loaded_plugin list" where
  "place_plugins [] m = []"
| "place_plugins (k # ks) m =
     (let take = (\<lambda>i. case bt_get m i of
            Some p \<Rightarrow> p # place_plugins ks (bt_remove i m)
          | None \<Rightarrow> place_plugins ks m)
      in case host_provider_plugin_id k of
           Some logical \<Rightarrow>
             if (case bt_get m logical of Some p \<Rightarrow> pm_renderer (lp_manifest p) \<noteq> None | None \<Rightarrow> False)
             then place_plugins ks m else take logical
         | None \<Rightarrow> take k)"

text \<open>
  The outcome is \<open>Panic\<close> also where the activation order would run out of fuel; the theorems
  exclude both.
\<close>

definition order_plugins :: "u64 \<Rightarrow> loaded_plugin list \<Rightarrow> loaded_plugin list lifecycle_result" where
  "order_plugins registry_id ps =
     and_then (map_err Dependency (capability_graph registry_id ps)) (\<lambda>g.
     case resolve_activation_order g of
       None \<Rightarrow> Panic
     | Some res \<Rightarrow>
         and_then (map_err Dependency res) (\<lambda>order.
         Ok (place_plugins order (bt_extend (map (\<lambda>p. (plugin_id p, p)) ps) bt_empty))))"

section \<open>Plans\<close>

record activation_plan =
  ap_affected :: "string bset"
  ap_previous :: "loaded_plugin list"
  ap_next :: "loaded_plugin list"
  ap_entries :: "catalog_entry list"

fun prepare_entries ::
    "load_env \<Rightarrow> plugin_catalog \<Rightarrow> plugin_registry \<Rightarrow> string list \<Rightarrow> (string, u64) btree
     \<Rightarrow> (catalog_entry list \<times> (string, u64) btree) lifecycle_result" where
  "prepare_entries v c r [] m = Ok ([], m)"
| "prepare_entries v c r (i # is) m =
     (case next_generation m i of (res, m) \<Rightarrow>
        and_then res (\<lambda>generation.
        and_then (map_err CatalogFailure (reload_entry v c i r generation)) (\<lambda>e.
        and_then (prepare_entries v c r is m) (\<lambda>(es, m). Ok (e # es, m)))))"

text \<open>The plugins of reloaded entries; \<open>None\<close> is the panic of the \<open>expect\<close>.\<close>

fun reloaded_plugins :: "catalog_entry list \<Rightarrow> loaded_plugin list option" where
  "reloaded_plugins [] = Some []"
| "reloaded_plugins (e # es) =
     (case ce_plugin e of
        Inl _ \<Rightarrow> None
      | Inr p \<Rightarrow> map_option ((#) p) (reloaded_plugins es))"

definition prepare ::
    "u64 \<Rightarrow> load_env \<Rightarrow> string \<Rightarrow> bool \<Rightarrow> loaded_plugin list \<Rightarrow> plugin_catalog \<Rightarrow> plugin_registry
     \<Rightarrow> (string, u64) btree \<Rightarrow> activation_plan lifecycle_result \<times> (string, u64) btree" where
  "prepare registry_id v i reload current c r generations =
     (if reload \<and> \<not> list_ex (\<lambda>p. plugin_id p = i) current then (Err (NotEnabled i), generations)
      else
        let affected = (if reload then dependent_closure current i else bset_of [i]);
            previous = filter (\<lambda>p. bt_has affected (plugin_id p)) current
        in case prepare_entries v c r (bt_keys affected) generations of
          Err e \<Rightarrow> (Err e, generations)
        | Panic \<Rightarrow> (Panic, generations)
        | Ok (entries, prepared) \<Rightarrow>
            (case reloaded_plugins entries of
               None \<Rightarrow> (Panic, generations)
             | Some reloaded \<Rightarrow>
                 (case order_plugins registry_id
                         (filter (\<lambda>p. \<not> bt_has affected (plugin_id p)) current @ reloaded) of
                    Err e \<Rightarrow> (Err e, generations)
                  | Panic \<Rightarrow> (Panic, generations)
                  | Ok next \<Rightarrow>
                      (Ok \<lparr>ap_affected = affected, ap_previous = previous, ap_next = next,
                           ap_entries = entries\<rparr>, prepared))))"

definition replacements :: "activation_plan \<Rightarrow> loaded_plugin list" where
  "replacements plan = filter (\<lambda>p. bt_has (ap_affected plan) (plugin_id p)) (ap_next plan)"

section \<open>Registry writes\<close>

text \<open>
  An edit of the candidate whose error drops it. \<open>guard\<close> stages the record of a local plugin
  again as it is in the expected snapshot, so that saving compares it.
\<close>

definition edit_step :: "unit registry_result \<Rightarrow> plugin_registry lifecycle_result" where
  "edit_step x = and_then (map_err RegistryFailure (fst x)) (\<lambda>_. Ok (snd x))"

definition guard ::
    "codec \<Rightarrow> plugin_registry \<Rightarrow> string \<Rightarrow> plugin_registry \<Rightarrow> plugin_registry lifecycle_result" where
  "guard c expected i candidate =
     (case bt_get (rg_local expected) i of
        None \<Rightarrow> Ok candidate
      | Some l \<Rightarrow> edit_step (register_local c i l candidate))"

fun stage_disabled ::
    "codec \<Rightarrow> plugin_registry \<Rightarrow> string list \<Rightarrow> plugin_registry \<Rightarrow> plugin_registry lifecycle_result" where
  "stage_disabled c expected [] candidate = Ok candidate"
| "stage_disabled c expected (i # is) candidate =
     and_then (guard c expected i candidate) (\<lambda>candidate.
     and_then (edit_step (set_enabled i False candidate)) (\<lambda>candidate.
     stage_disabled c expected is candidate))"

fun stage_guards ::
    "codec \<Rightarrow> plugin_registry \<Rightarrow> string list \<Rightarrow> plugin_registry \<Rightarrow> plugin_registry lifecycle_result" where
  "stage_guards c expected [] candidate = Ok candidate"
| "stage_guards c expected (i # is) candidate =
     and_then (guard c expected i candidate) (\<lambda>candidate. stage_guards c expected is candidate)"

definition save_candidate ::
    "codec \<Rightarrow> save_env \<Rightarrow> plugin_registry lifecycle_result \<Rightarrow> disk
     \<Rightarrow> plugin_registry lifecycle_result \<times> disk" where
  "save_candidate c ev staged w =
     (case staged of
        Err e \<Rightarrow> (Err e, w)
      | Panic \<Rightarrow> (Panic, w)
      | Ok candidate \<Rightarrow>
          (case save c ev candidate w of
             (res, saved, w) \<Rightarrow> (and_then (map_err RegistryFailure res) (\<lambda>_. Ok saved), w)))"

definition persist_disabled_closure ::
    "codec \<Rightarrow> save_env \<Rightarrow> plugin_registry \<Rightarrow> string bset \<Rightarrow> disk
     \<Rightarrow> plugin_registry lifecycle_result \<times> disk" where
  "persist_disabled_closure c ev expected affected w =
     save_candidate c ev (stage_disabled c expected (bt_keys affected) expected) w"

definition persist_preference_with_guards ::
    "codec \<Rightarrow> save_env \<Rightarrow> plugin_registry \<Rightarrow> string \<Rightarrow> bool \<Rightarrow> string bset \<Rightarrow> disk
     \<Rightarrow> plugin_registry lifecycle_result \<times> disk" where
  "persist_preference_with_guards c ev expected i enabled affected w =
     save_candidate c ev
       (and_then (stage_guards c expected (bt_keys affected) expected)
          (\<lambda>candidate. edit_step (set_enabled i enabled candidate))) w"

definition persist_preference ::
    "codec \<Rightarrow> save_env \<Rightarrow> plugin_registry \<Rightarrow> string \<Rightarrow> bool \<Rightarrow> disk
     \<Rightarrow> plugin_registry lifecycle_result \<times> disk" where
  "persist_preference c ev expected i enabled w =
     persist_preference_with_guards c ev expected i enabled (bset_of [i]) w"

fun first_changed :: "plugin_registry \<Rightarrow> plugin_registry \<Rightarrow> string list \<Rightarrow> string option" where
  "first_changed current expected [] = None"
| "first_changed current expected (i # is) =
     (if \<not> opt_eq registration_eq (bt_get (rg_local current) i) (bt_get (rg_local expected) i)
         \<or> \<not> opt_eq managed_eq (bt_get (rg_managed current) i) (bt_get (rg_managed expected) i)
      then Some i else first_changed current expected is)"

definition verify_registrations ::
    "codec \<Rightarrow> plugin_registry \<Rightarrow> string bset \<Rightarrow> file_view \<Rightarrow> plugin_registry lifecycle_result" where
  "verify_registrations c expected affected view =
     and_then (map_err RegistryFailure (registry_load c (rg_path expected) view)) (\<lambda>current.
     case first_changed current expected (bt_keys affected) of
       Some i \<Rightarrow> Err (RegistrationChanged i)
     | None \<Rightarrow> Ok current)"

section \<open>Rollback\<close>

definition validate_snapshot_trust ::
    "loaded_plugin \<Rightarrow> plugin_catalog \<Rightarrow> plugin_registry \<Rightarrow> unit lifecycle_result" where
  "validate_snapshot_trust p c r =
     (case find (\<lambda>e. ce_id e = plugin_id p) (ct_entries c) of
        None \<Rightarrow> Panic
      | Some e \<Rightarrow>
          (case ce_source e of
             Bundled \<Rightarrow> Ok ()
           | Local path _ \<Rightarrow>
               (case Option.bind (bt_get (rg_local r) (plugin_id p))
                       (\<lambda>l. if path_eq (lr_path l) path then Some l else None) of
                  None \<Rightarrow> Err (RollbackTrust (plugin_id p) NoLongerRegistered)
                | Some l \<Rightarrow>
                    map_err (\<lambda>e. RollbackTrust (plugin_id p) (GrantsRefused e))
                      (validate_grants_at (lp_manifest p) (lr_grants l) MANIFEST_NAME))))"

fun rollback_plugins ::
    "loaded_plugin list \<Rightarrow> plugin_catalog \<Rightarrow> plugin_registry \<Rightarrow> (string, u64) btree
     \<Rightarrow> loaded_plugin list lifecycle_result \<times> (string, u64) btree" where
  "rollback_plugins [] c r m = (Ok [], m)"
| "rollback_plugins (p # ps) c r m =
     (case validate_snapshot_trust p c r of
        Err e \<Rightarrow> (Err e, m)
      | Panic \<Rightarrow> (Panic, m)
      | Ok _ \<Rightarrow>
          (case next_generation m (plugin_id p) of
             (Err e, m) \<Rightarrow> (Err e, m)
           | (Panic, m) \<Rightarrow> (Panic, m)
           | (Ok g, m) \<Rightarrow>
               (case rollback_plugins ps c r m of (res, m) \<Rightarrow>
                  (and_then res (\<lambda>restored. Ok (p\<lparr>lp_generation := g\<rparr> # restored)), m))))"

end
