(* ===== verification/Lifecycle_Order.thy ===== *)
theory Lifecycle_Order
  imports Lifecycle Activation_Sort "HOL-Library.Multiset"
begin

text \<open>
  The capability graph of a list of plugins and the logical order made of it: which entries the
  graph registers, and where each package is placed.
\<close>

section \<open>The entries of the graph\<close>

type_synonym graph_entry = "string \<times> capability_descriptor list \<times> capability_descriptor list"

definition host_entries :: "loaded_plugin \<Rightarrow> graph_entry list" where
  "host_entries p =
     (let m = lp_manifest p
      in if pm_host m = None then []
         else [(host_provider_id (pm_id m), runtime_host_provides m, host_requires m)])"

definition renderer_entries :: "loaded_plugin \<Rightarrow> graph_entry list" where
  "renderer_entries p =
     (let m = lp_manifest p
      in if pm_renderer m = None then [] else [(pm_id m, renderer_provides m, renderer_requires m)])"

definition package_entries :: "loaded_plugin \<Rightarrow> graph_entry list" where
  "package_entries p = host_entries p @ renderer_entries p"

definition builtin_entry :: graph_entry where
  "builtin_entry = (BUILTIN_HOST_PROVIDER_ID, builtin_host_capabilities, [])"

definition lists_entries :: "graph_entry list \<Rightarrow> capability_registry \<Rightarrow> bool" where
  "lists_entries es g \<longleftrightarrow>
     registry_inv g \<and> distinct (map fst es) \<and> registered g = fst ` set es
     \<and> (\<forall>k x. bt_get (cr_registrations g) k = Some x \<longrightarrow> (k, pr_provides x, pr_requires x) \<in> set es)"

lemma lists_entriesD:
  assumes "lists_entries es g" "(k, pv, rq) \<in> set es"
  obtains x where "bt_get (cr_registrations g) k = Some x" "pr_provides x = pv" "pr_requires x = rq"
proof -
  from assms have "k \<in> registered g" unfolding lists_entries_def by force
  then obtain x where x: "bt_get (cr_registrations g) k = Some x" by blast
  with assms(1) have "(k, pr_provides x, pr_requires x) \<in> set es" "distinct (map fst es)"
    unfolding lists_entries_def by blast+
  from eq_key_imp_eq_value [OF this(2,1) assms(2)] show thesis by (intro that [OF x]) simp_all
qed

lemma graph_step_ok: "graph_step x = Ok g \<longleftrightarrow> x = (Ok (), g)"
  by (cases x) (auto simp: graph_step_def and_then_ok)

lemma register_lists:
  assumes "lists_entries es g" "register_provider k gen pv rq gr g = (Ok (), g')"
  shows "lists_entries (es @ [(k, pv, rq)]) g'"
  using assms(2)
proof (cases rule: register_provider_cases)
  case (3 e)
  have "registry_inv g'" using assms by (auto simp: lists_entries_def intro: register_provider_inv)
  moreover have "k \<notin> fst ` set es" using assms(1) 3(3) unfolding lists_entries_def by blast
  moreover have "registered g' = insert k (registered g)" using 3 by auto
  ultimately show ?thesis
    using assms(1) 3 by (auto simp: lists_entries_def simp del: not_None_eq split: if_splits)
qed simp_all

definition depends_declared :: "capability_registry \<Rightarrow> string \<Rightarrow> string \<Rightarrow> bool" where
  "depends_declared g k q \<longleftrightarrow>
     (\<exists>x. bt_get (cr_registrations g) k = Some x \<and> bt_has (pr_dependencies x) q)"

lemma require_before_lists:
  assumes "lists_entries es g" "require_provider_before c q g = (Ok (), g')"
  shows "lists_entries es g'" "depends_declared g' c q"
    "depends_declared g k j \<Longrightarrow> depends_declared g' k j"
proof -
  from assms(2) obtain x where x: "bt_get (cr_registrations g) c = Some x"
    "g' = g\<lparr>cr_registrations := bt_insert c
               (x\<lparr>pr_dependencies := bt_insert q () (pr_dependencies x)\<rparr>) (cr_registrations g)\<rparr>"
    by (cases rule: require_provider_before_cases) auto
  have "registry_inv g'" using assms by (auto simp: lists_entries_def intro: require_provider_before_inv)
  moreover have "(c, pr_provides x, pr_requires x) \<in> set es"
    using assms(1) x(1) unfolding lists_entries_def by (auto dest: spec [of _ c])
  moreover have "registered g' = registered g" using x by auto
  ultimately show "lists_entries es g'"
    using assms(1) x by (auto simp: lists_entries_def simp del: not_None_eq split: if_splits)
  show "depends_declared g' c q" "depends_declared g k j \<Longrightarrow> depends_declared g' k j"
    using x by (auto simp: depends_declared_def)
qed

lemma graph_host_lists:
  assumes "lists_entries es g" "graph_host p launch g = Ok (launch', g')"
  shows "lists_entries (es @ host_entries p) g'"
  using assms register_lists [of es g]
  by (auto simp: graph_host_def host_entries_def Let_def and_then_ok graph_step_ok split: if_splits)

lemma graph_renderer_lists:
  assumes "lists_entries es g" "graph_renderer p g = Ok g'"
  shows "lists_entries (es @ renderer_entries p) g'"
  using assms register_lists [of es g]
  by (auto simp: graph_renderer_def renderer_entries_def Let_def graph_step_ok split: if_splits)

lemma graph_plugins_lists:
  "lists_entries es g \<Longrightarrow> graph_plugins ps launch g = Ok g' \<Longrightarrow>
     lists_entries (es @ concat (map package_entries ps)) g'"
proof (induction ps arbitrary: es launch g)
  case (Cons p ps)
  then obtain launch1 g1 g2 where
    "graph_host p launch g = Ok (launch1, g1)" "graph_renderer p g1 = Ok g2"
    "graph_plugins ps launch1 g2 = Ok g'"
    by (auto simp: and_then_ok)
  with Cons.IH [OF graph_renderer_lists [OF graph_host_lists [OF Cons.prems(1)]]]
  show ?case by (simp add: package_entries_def)
qed simp

lemma graph_own_hosts_lists:
  "lists_entries es g \<Longrightarrow> graph_own_hosts ps g = Ok g' \<Longrightarrow>
     lists_entries es g' \<and> (\<forall>k j. depends_declared g k j \<longrightarrow> depends_declared g' k j)
     \<and> (\<forall>p \<in> set ps. has_runtime_host (lp_manifest p) \<and> pm_renderer (lp_manifest p) \<noteq> None
          \<longrightarrow> depends_declared g' (plugin_id p) (host_provider_id (plugin_id p)))"
proof (induction ps arbitrary: g)
  case (Cons p ps)
  show ?case
  proof (cases "has_runtime_host (lp_manifest p) \<and> pm_renderer (lp_manifest p) \<noteq> None")
    case True
    with Cons.prems(2) obtain g1 where
      g1: "require_provider_before (plugin_id p) (host_provider_id (plugin_id p)) g = (Ok (), g1)"
      and rest: "graph_own_hosts ps g1 = Ok g'"
      by (auto simp: Let_def and_then_ok graph_step_ok)
    note r = require_before_lists [OF Cons.prems(1) g1]
    from Cons.IH [OF r(1) rest] r(2,3) show ?thesis by auto
  next
    case False
    with Cons.prems(2) have "graph_own_hosts ps g = Ok g'" by (auto simp: Let_def)
    from Cons.IH [OF Cons.prems(1) this] False show ?thesis by auto
  qed
qed simp

lemma capability_graph_entries:
  assumes "capability_graph i ps = Ok g"
  shows "lists_entries (builtin_entry # concat (map package_entries ps)) g"
    and "\<forall>p \<in> set ps. has_runtime_host (lp_manifest p) \<and> pm_renderer (lp_manifest p) \<noteq> None
          \<longrightarrow> depends_declared g (plugin_id p) (host_provider_id (plugin_id p))"
proof -
  from assms obtain g1 g2 where
    1: "register_provider BUILTIN_HOST_PROVIDER_ID 1 builtin_host_capabilities [] [] (registry_new i) = (Ok (), g1)"
    and 2: "graph_plugins ps None g1 = Ok g2" and 3: "graph_own_hosts ps g2 = Ok g"
    by (auto simp: capability_graph_def and_then_ok graph_step_ok)
  have "lists_entries [] (registry_new i)"
    using registry_inv_new [of i] by (simp add: lists_entries_def registry_new_def)
  from register_lists [OF this 1] have "lists_entries [builtin_entry] g1" by (simp add: builtin_entry_def)
  from graph_own_hosts_lists [OF graph_plugins_lists [OF this 2] 3]
  show "lists_entries (builtin_entry # concat (map package_entries ps)) g"
    "\<forall>p \<in> set ps. has_runtime_host (lp_manifest p) \<and> pm_renderer (lp_manifest p) \<noteq> None
          \<longrightarrow> depends_declared g (plugin_id p) (host_provider_id (plugin_id p))"
    by simp_all
qed

section \<open>Placing the packages\<close>

text \<open>The package that an entry places.\<close>

definition placed_at :: "(string, loaded_plugin) btree \<Rightarrow> string \<Rightarrow> loaded_plugin option" where
  "placed_at m k =
     (case host_provider_plugin_id k of
        Some i \<Rightarrow> Option.bind (bt_get m i) (\<lambda>p. if pm_renderer (lp_manifest p) \<noteq> None then None else Some p)
      | None \<Rightarrow> bt_get m k)"

lemma placed_atE:
  assumes "placed_at m k = Some p"
  obtains i where "bt_get m i = Some p"
    "host_provider_plugin_id k = None \<and> k = i
     \<or> host_provider_plugin_id k = Some i \<and> pm_renderer (lp_manifest p) = None"
  using assms by (auto simp: placed_at_def bind_eq_Some_conv split: option.splits if_splits)

lemma placed_at_remove:
  "placed_at m k \<noteq> bt_get m i \<Longrightarrow> bt_get m i = Some p \<Longrightarrow> placed_at (bt_remove i m) k = placed_at m k"
  by (cases "host_provider_plugin_id k") (auto simp: placed_at_def)

lemma place_plugins_step:
  "place_plugins (k # ks) m =
     (case placed_at m k of
        None \<Rightarrow> place_plugins ks m
      | Some p \<Rightarrow> p # place_plugins ks
          (bt_remove (case host_provider_plugin_id k of Some i \<Rightarrow> i | None \<Rightarrow> k) m))"
  by (auto simp: placed_at_def Let_def split: option.splits)

declare place_plugins.simps(2) [simp del]

lemma place_plugins_map_filter:
  assumes "distinct ks" "\<forall>i p. bt_get m i = Some p \<longrightarrow> plugin_id p = i"
    "\<forall>k \<in> set ks. \<forall>j \<in> set ks. \<forall>p. placed_at m k = Some p \<and> placed_at m j = Some p \<longrightarrow> k = j"
  shows "place_plugins ks m = List.map_filter (placed_at m) ks"
  using assms
proof (induction ks arbitrary: m)
  case (Cons k ks)
  show ?case
  proof (cases "placed_at m k")
    case None
    with Cons show ?thesis by (simp add: place_plugins_step)
  next
    case (Some p)
    then obtain i where i: "bt_get m i = Some p"
      "i = (case host_provider_plugin_id k of Some i \<Rightarrow> i | None \<Rightarrow> k)"
      by (rule placed_atE) (auto split: option.splits)
    let ?m = "bt_remove i m"
    have same: "placed_at ?m j = placed_at m j" if "j \<in> set ks" for j
    proof (rule placed_at_remove [OF _ i(1)])
      show "placed_at m j \<noteq> bt_get m i" using that Cons.prems(1,3) Some i(1) by auto
    qed
    have "place_plugins ks ?m = List.map_filter (placed_at ?m) ks"
      using Cons.IH [of ?m] Cons.prems same by auto
    also have "\<dots> = List.map_filter (placed_at m) ks"
      using same by (induction ks) (auto split: option.splits)
    finally show ?thesis using Some i(2) by (simp add: place_plugins_step)
  qed
qed simp

section \<open>The order\<close>

text \<open>
  What the catalog guarantees of the plugins it hands out: one package per id, a manifest id
  that is not the one of the built-in provider, and at least one entry.
\<close>

definition plugin_ok :: "loaded_plugin \<Rightarrow> bool" where
  "plugin_ok p \<longleftrightarrow>
     valid_plugin_id (plugin_id p) \<and> plugin_id p \<noteq> BUILTIN_HOST_PROVIDER_ID
     \<and> (pm_renderer (lp_manifest p) \<noteq> None \<or> pm_host (lp_manifest p) \<noteq> None)"

definition plugins_ok :: "loaded_plugin list \<Rightarrow> bool" where
  "plugins_ok ps \<longleftrightarrow> distinct (map plugin_id ps) \<and> (\<forall>p \<in> set ps. plugin_ok p)"

definition logical_key :: "loaded_plugin \<Rightarrow> string" where
  "logical_key p =
     (if pm_renderer (lp_manifest p) \<noteq> None then plugin_id p else host_provider_id (plugin_id p))"

definition comes_before :: "'a list \<Rightarrow> 'a \<Rightarrow> 'a \<Rightarrow> bool" where
  "comes_before xs q k \<longleftrightarrow> (\<exists>a b. xs = a @ k # b \<and> q \<in> set a)"

lemma comes_before_index:
  assumes "distinct xs"
  shows "comes_before xs q k \<longleftrightarrow> (\<exists>i j. i < j \<and> j < length xs \<and> xs ! i = q \<and> xs ! j = k)"
proof
  assume "comes_before xs q k"
  then obtain a b where ab: "xs = a @ k # b" "q \<in> set a" unfolding comes_before_def by blast
  from ab(2) obtain i where "i < length a" "a ! i = q" by (auto simp: in_set_conv_nth)
  with ab(1) show "\<exists>i j. i < j \<and> j < length xs \<and> xs ! i = q \<and> xs ! j = k"
    by (intro exI [of _ i] exI [of _ "length a"]) (simp add: nth_append)
next
  assume "\<exists>i j. i < j \<and> j < length xs \<and> xs ! i = q \<and> xs ! j = k"
  then obtain i j where ij: "i < j" "j < length xs" "xs ! i = q" "xs ! j = k" by blast
  have "xs = take j xs @ k # drop (Suc j) xs" by (rule id_take_nth_drop [OF ij(2), unfolded ij(4)])
  moreover have "q \<in> set (take j xs)" using ij by (auto simp: in_set_conv_nth)
  ultimately show "comes_before xs q k" unfolding comes_before_def by blast
qed

lemma comes_before_trans:
  assumes "distinct xs" "comes_before xs a b" "comes_before xs b c"
  shows "comes_before xs a c"
proof -
  from assms obtain i j j' k where "i < j" "j < length xs" "xs ! i = a" "xs ! j = b"
    "j' < k" "k < length xs" "xs ! j' = b" "xs ! k = c"
    unfolding comes_before_index [OF assms(1)] by blast
  moreover from this have "j = j'" using nth_eq_iff_index_eq [OF assms(1), of j j'] by simp
  ultimately show ?thesis
    unfolding comes_before_index [OF assms(1)] by (intro exI [of _ i] exI [of _ k]) simp
qed

lemma map_filter_before:
  assumes "comes_before xs q k" "f q = Some a" "f k = Some b"
  shows "comes_before (List.map_filter f xs) a b"
proof -
  from assms(1) obtain u v where uv: "xs = u @ k # v" "q \<in> set u" unfolding comes_before_def by blast
  have "List.map_filter f xs = List.map_filter f u @ b # List.map_filter f v"
    using uv(1) assms(3) by (simp add: List.map_filter_def)
  moreover have "a \<in> set (List.map_filter f u)"
    using uv(2) assms(2) by (force simp: List.map_filter_def)
  ultimately show ?thesis unfolding comes_before_def by blast
qed

lemma in_package_entries:
  "(k, pv, rq) \<in> set (package_entries p) \<longleftrightarrow>
     (pm_host (lp_manifest p) \<noteq> None \<and> k = host_provider_id (plugin_id p)
        \<and> pv = runtime_host_provides (lp_manifest p) \<and> rq = host_requires (lp_manifest p))
     \<or> (pm_renderer (lp_manifest p) \<noteq> None \<and> k = plugin_id p
        \<and> pv = renderer_provides (lp_manifest p) \<and> rq = renderer_requires (lp_manifest p))"
  by (auto simp: package_entries_def host_entries_def renderer_entries_def Let_def)

lemma plugin_id_not_host: "valid_plugin_id i \<Longrightarrow> host_provider_plugin_id i = None"
  using host_provider_plugin_id_SomeD host_id_not_unqualified valid_plugin_id_iff by (metis not_None_eq)

lemma plugin_of_host_id: "valid_plugin_id i \<Longrightarrow> host_provider_plugin_id (host_provider_id i) = Some i"
  by (simp add: host_provider_plugin_id_host valid_plugin_id_iff)

lemma builtin_not_host: "host_provider_plugin_id BUILTIN_HOST_PROVIDER_ID = None"
  by code_simp

abbreviation package_map :: "loaded_plugin list \<Rightarrow> (string, loaded_plugin) btree" where
  "package_map ps \<equiv> bt_extend (map (\<lambda>p. (plugin_id p, p)) ps) bt_empty"

lemma get_package_map:
  assumes "distinct (map plugin_id ps)"
  shows "bt_get (package_map ps) i = Some p \<longleftrightarrow> p \<in> set ps \<and> plugin_id p = i"
proof -
  let ?es = "rev (map (\<lambda>p. (plugin_id p, p)) ps)"
  have "distinct (map fst ?es)" using assms by (simp add: comp_def flip: rev_map)
  then have "map_of ?es i = Some p \<longleftrightarrow> (i, p) \<in> set ?es" by (rule map_of_eq_Some_iff)
  then show ?thesis by (auto simp: bt_get_extend_rev split: option.split)
qed

lemma same_package:
  "plugins_ok ps \<Longrightarrow> p \<in> set ps \<Longrightarrow> q \<in> set ps \<Longrightarrow> plugin_id p = plugin_id q \<Longrightarrow> p = q"
  by (auto simp: plugins_ok_def plugin_ok_def distinct_map inj_on_def)

lemma entry_key_cases:
  assumes "k \<in> fst ` set (builtin_entry # concat (map package_entries ps))"
  obtains "k = BUILTIN_HOST_PROVIDER_ID"
  | q where "q \<in> set ps" "pm_host (lp_manifest q) \<noteq> None" "k = host_provider_id (plugin_id q)"
  | q where "q \<in> set ps" "pm_renderer (lp_manifest q) \<noteq> None" "k = plugin_id q"
proof -
  from assms obtain e where "e \<in> set (builtin_entry # concat (map package_entries ps))" "k = fst e"
    by (rule imageE) blast
  then have "(k, fst (snd e), snd (snd e)) \<in> set (builtin_entry # concat (map package_entries ps))" by simp
  then obtain pv rq where "(k, pv, rq) \<in> set (builtin_entry # concat (map package_entries ps))" ..
  then consider "(k, pv, rq) = builtin_entry" | q where "q \<in> set ps" "(k, pv, rq) \<in> set (package_entries q)"
    unfolding list.set(2) set_concat set_map by blast
  then show thesis
  proof cases
    case 1
    then show thesis using that(1) by (simp add: builtin_entry_def)
  next
    case (2 q)
    then show thesis using that(2,3) in_package_entries [of k pv rq q] by blast
  qed
qed

lemma logical_key_inject:
  assumes "plugins_ok ps" "p \<in> set ps" "q \<in> set ps" "logical_key p = logical_key q"
  shows "p = q"
proof -
  have v: "valid_plugin_id (plugin_id p)" "valid_plugin_id (plugin_id q)"
    using assms(1-3) by (auto simp: plugins_ok_def plugin_ok_def)
  have differ: "plugin_id p \<noteq> host_provider_id (plugin_id q)" "plugin_id q \<noteq> host_provider_id (plugin_id p)"
    using host_id_not_unqualified v unfolding valid_plugin_id_iff by metis+
  have "plugin_id p = plugin_id q"
    using assms(4) differ
    by (cases "pm_renderer (lp_manifest p)"; cases "pm_renderer (lp_manifest q)")
      (simp_all add: logical_key_def)
  then show ?thesis using same_package assms(1-3) by blast
qed

lemma placed_at_key:
  assumes ok: "plugins_ok ps" and p: "p \<in> set ps"
  shows "placed_at (package_map ps) (logical_key p) = Some p"
proof -
  have "valid_plugin_id (plugin_id p)" "bt_get (package_map ps) (plugin_id p) = Some p"
    using ok p get_package_map [of ps "plugin_id p" p] by (auto simp: plugins_ok_def plugin_ok_def)
  then show ?thesis
    by (simp add: placed_at_def logical_key_def plugin_of_host_id plugin_id_not_host)
qed

lemma placed_at_logical:
  assumes ok: "plugins_ok ps" and k: "k \<in> fst ` set (builtin_entry # concat (map package_entries ps))"
    and p: "placed_at (package_map ps) k = Some p"
  shows "p \<in> set ps \<and> k = logical_key p"
proof -
  from p obtain i where i: "bt_get (package_map ps) i = Some p"
    "host_provider_plugin_id k = None \<and> k = i
     \<or> host_provider_plugin_id k = Some i \<and> pm_renderer (lp_manifest p) = None"
    by (rule placed_atE)
  from i(1) ok have ip: "p \<in> set ps" "i = plugin_id p"
    using get_package_map [of ps i p] by (auto simp: plugins_ok_def plugin_ok_def)
  from i(2) have "k = logical_key p"
  proof
    assume "host_provider_plugin_id k = Some i \<and> pm_renderer (lp_manifest p) = None"
    then show ?thesis using host_provider_plugin_id_SomeD ip by (auto simp: logical_key_def)
  next
    assume r: "host_provider_plugin_id k = None \<and> k = i"
    from k show ?thesis
    proof (cases rule: entry_key_cases)
      case 1
      with r ip ok show ?thesis by (auto simp: plugins_ok_def plugin_ok_def)
    next
      case (2 q)
      then have "valid_plugin_id (plugin_id q)" using ok unfolding plugins_ok_def plugin_ok_def by blast
      from plugin_of_host_id [OF this] have "host_provider_plugin_id k = Some (plugin_id q)"
        unfolding 2(3) .
      with r show ?thesis by simp
    next
      case (3 q)
      then have "q = p" using same_package [OF ok] r ip by auto
      with 3 show ?thesis by (simp add: logical_key_def)
    qed
  qed
  with ip show ?thesis by blast
qed

lemma order_pluginsE:
  assumes ok: "plugins_ok ps" and o: "order_plugins i ps = Ok qs"
  obtains g order where "lists_entries (builtin_entry # concat (map package_entries ps)) g"
    "\<forall>p \<in> set ps. has_runtime_host (lp_manifest p) \<and> pm_renderer (lp_manifest p) \<noteq> None
       \<longrightarrow> depends_declared g (plugin_id p) (host_provider_id (plugin_id p))"
    "requirements_met g" "distinct order" "set order = registered g"
    "\<forall>c q. depends_on g c q \<longrightarrow> comes_before order q c"
    "qs = List.map_filter (placed_at (package_map ps)) order"
proof -
  from o obtain g where g: "capability_graph i ps = Ok g"
    and rest: "(case resolve_activation_order g of
       None \<Rightarrow> Panic
     | Some res \<Rightarrow> and_then (map_err Dependency res) (\<lambda>order. Ok (place_plugins order (package_map ps)))) = Ok qs"
    unfolding order_plugins_def and_then_ok [of "map_err _ (capability_graph i ps)"] map_err_ok by blast
  obtain res where r: "resolve_activation_order g = Some res"
    using rest by (cases "resolve_activation_order g") simp_all
  with rest obtain order where res: "resolve_activation_order g = Some (Ok order)"
    and qs: "qs = place_plugins order (package_map ps)"
    by (cases res) simp_all
  note e = capability_graph_entries [OF g]
  have inv: "registry_inv g" using e(1) by (simp add: lists_entries_def)
  from inv show thesis
  proof (cases rule: resolve_cases)
    case (2 d order')
    then have order: "distinct order" "set order = registered g" "topological d order"
      using res by simp_all
    have before: "comes_before order q c" if "depends_on g c q" for c q
    proof -
      from that have "c \<in> registered g" by (auto simp: depends_on_def)
      with order(2) obtain a b where "order = a @ c # b" by (metis split_list)
      with order(3) 2(2) that show ?thesis unfolding topological_def comes_before_def by blast
    qed
    have reg: "set order = fst ` set (builtin_entry # concat (map package_entries ps))"
      using order(2) e(1) by (simp only: lists_entries_def)
    have "place_plugins order (package_map ps) = List.map_filter (placed_at (package_map ps)) order"
    proof (rule place_plugins_map_filter [OF order(1)])
      show "\<forall>i p. bt_get (package_map ps) i = Some p \<longrightarrow> plugin_id p = i"
        using get_package_map [of ps] ok by (auto simp: plugins_ok_def plugin_ok_def)
      show "\<forall>k \<in> set order. \<forall>j \<in> set order. \<forall>p. placed_at (package_map ps) k = Some p
          \<and> placed_at (package_map ps) j = Some p \<longrightarrow> k = j"
      proof (intro ballI allI impI)
        fix k j p
        assume "k \<in> set order" "j \<in> set order"
          and "placed_at (package_map ps) k = Some p \<and> placed_at (package_map ps) j = Some p"
        then have "k = logical_key p" "j = logical_key p"
          using placed_at_logical [OF ok] unfolding reg by blast+
        then show "k = j" by simp
      qed
    qed
    with qs have placed: "qs = List.map_filter (placed_at (package_map ps)) order" by (rule trans)
    show thesis by (rule that [OF e 2(1) order(1,2) _ placed]) (use before in blast)
  qed (use res in simp_all)
qed

lemma requirement_provider:
  assumes "lists_entries es g" "requirements_met g" "(k, pv, rq) \<in> set es" "d \<in> set rq"
  obtains q pv' rq' where "(q, pv', rq') \<in> set es" "d \<in> set pv'" "depends_on g k q"
proof -
  have inv: "registry_inv g" using assms(1) by (simp add: lists_entries_def)
  from assms(1,3) obtain x where x: "bt_get (cr_registrations g) k = Some x" "pr_requires x = rq"
    by (rule lists_entriesD) blast
  with assms(2,4) have "is_ok (provider_for_requirement g k d)"
    unfolding requirements_met_def registration_met_def by blast
  then obtain rec where r: "provider_for_requirement g k d = Ok rec" by (auto simp: is_ok_iff)
  note rd = provider_for_requirement_OkD [OF r]
  from inv rd(1) obtain y where y: "bt_get (cr_registrations g) (rec_provider_id rec) = Some y"
    "rec_descriptor rec \<in> set (pr_provides y)" "key_of (rec_descriptor rec) = key_of d"
    by (rule providers_ok_record) blast
  have "rec_descriptor rec = d" using same_key_same_api [OF y(3) rd(2)] .
  moreover have "(rec_provider_id rec, pr_provides y, pr_requires y) \<in> set es"
    using assms(1) y(1) unfolding lists_entries_def by blast
  moreover have "depends_on g k (rec_provider_id rec)"
    using x r assms(4) unfolding depends_on_def declares_dependency_def by blast
  ultimately show thesis using that y(2) by blast
qed

lemma logical_key_entry:
  "plugins_ok ps \<Longrightarrow> p \<in> set ps \<Longrightarrow>
     logical_key p \<in> fst ` set (builtin_entry # concat (map package_entries ps))"
  unfolding plugins_ok_def plugin_ok_def logical_key_def
  by (cases "pm_renderer (lp_manifest p) = None")
    (force simp: package_entries_def host_entries_def renderer_entries_def Let_def)+

lemma placed_all:
  assumes ok: "plugins_ok ps" and "distinct order"
    "set order = fst ` set (builtin_entry # concat (map package_entries ps))"
  shows "mset (List.map_filter (placed_at (package_map ps)) order) = mset ps"
    and "distinct (List.map_filter (placed_at (package_map ps)) order)"
proof -
  let ?f = "placed_at (package_map ps)"
  have key: "k = logical_key p \<and> p \<in> set ps" if "k \<in> set order" "?f k = Some p" for k p
    using placed_at_logical [OF ok] that assms(3) by blast
  have "inj_on (the \<circ> ?f) (set (filter (\<lambda>k. ?f k \<noteq> None) order))"
    by (rule inj_onI) (auto dest!: key)
  then show d: "distinct (List.map_filter ?f order)"
    using assms(2) by (simp add: List.map_filter_def distinct_map)
  have "set (List.map_filter ?f order) = set ps"
  proof
    show "set (List.map_filter ?f order) \<subseteq> set ps"
      using key by (auto simp: List.map_filter_def)
    show "set ps \<subseteq> set (List.map_filter ?f order)"
    proof
      fix p assume p: "p \<in> set ps"
      have "logical_key p \<in> set order" using logical_key_entry [OF ok p] assms(3) by simp
      with placed_at_key [OF ok p] show "p \<in> set (List.map_filter ?f order)"
        by (force simp: List.map_filter_def)
    qed
  qed
  moreover have "distinct ps" using ok by (auto simp: plugins_ok_def plugin_ok_def distinct_map)
  ultimately show "mset (List.map_filter ?f order) = mset ps"
    using d set_eq_iff_mset_eq_distinct by metis
qed

text \<open>The entry that carries a requirement is the package's position or comes before it.\<close>

lemma requiring_entry:
  assumes "d \<in> set (all_requires (lp_manifest c))"
  obtains k pv rq where "(k, pv, rq) \<in> set (package_entries c)" "d \<in> set rq"
    "k = logical_key c
     \<or> k = host_provider_id (plugin_id c) \<and> logical_key c = plugin_id c
       \<and> has_runtime_host (lp_manifest c) \<and> pm_renderer (lp_manifest c) \<noteq> None"
proof -
  let ?m = "lp_manifest c"
  from assms consider (renderer) "d \<in> set (renderer_requires ?m)" | (host) "d \<in> set (host_requires ?m)"
    by (auto simp: all_requires_def)
  then show thesis
  proof cases
    case renderer
    then have "pm_renderer ?m \<noteq> None" by (auto simp: renderer_requires_def split: if_splits)
    then show thesis
      using renderer
      by (intro that [of "plugin_id c" "renderer_provides ?m" "renderer_requires ?m"]) (simp_all add: in_package_entries logical_key_def)
  next
    case host
    then have "pm_host ?m \<noteq> None" "has_runtime_host ?m"
      by (cases "pm_host ?m"; cases "pm_renderer ?m";
          force simp: host_requires_def has_runtime_host_def native_launch_only_def)+
    then show thesis
      using host
      by (intro that [of "host_provider_id (plugin_id c)" "runtime_host_provides ?m" "host_requires ?m"])
        (simp_all add: in_package_entries logical_key_def)
  qed
qed

lemma providing_entry:
  assumes "(k, pv, rq) \<in> set (builtin_entry # concat (map package_entries ps))" "d \<in> set pv"
  obtains "d \<in> set builtin_host_capabilities"
  | p where "p \<in> set ps" "d \<in> set (renderer_provides (lp_manifest p))" "k = logical_key p"
  | p where "p \<in> set ps" "d \<in> set (runtime_host_provides (lp_manifest p))"
      "pm_renderer (lp_manifest p) = None \<longrightarrow> k = logical_key p"
proof -
  from assms(1) consider "(k, pv, rq) = builtin_entry" | p where "p \<in> set ps" "(k, pv, rq) \<in> set (package_entries p)"
    unfolding list.set(2) set_concat set_map by blast
  then show thesis
  proof cases
    case 1
    with assms(2) show thesis using that(1) by (simp add: builtin_entry_def)
  next
    case (2 p)
    from 2(2) assms(2) show thesis
      unfolding in_package_entries using that(2,3) [OF 2(1)] by (auto simp: logical_key_def)
  qed
qed

text \<open>
  An order of all entries: every capability an entry requires is provided by an entry before it, and
  the Host entry of a package comes before its renderer entry.
\<close>

definition plugin_entries :: "loaded_plugin list \<Rightarrow> graph_entry list" where
  "plugin_entries ps = builtin_entry # concat (map package_entries ps)"

definition entry_order :: "loaded_plugin list \<Rightarrow> string list \<Rightarrow> bool" where
  "entry_order ps order \<longleftrightarrow>
     distinct order \<and> set order = fst ` set (plugin_entries ps)
     \<and> (\<forall>(k, pv, rq) \<in> set (plugin_entries ps). \<forall>d \<in> set rq.
          \<exists>(q, pv', rq') \<in> set (plugin_entries ps). d \<in> set pv' \<and> comes_before order q k)
     \<and> (\<forall>p \<in> set ps. has_runtime_host (lp_manifest p) \<and> pm_renderer (lp_manifest p) \<noteq> None
          \<longrightarrow> comes_before order (host_provider_id (plugin_id p)) (plugin_id p))"

text \<open>The packages in such an order, each where its renderer entry is, or its Host entry if it has no renderer.\<close>

definition logically_ordered :: "loaded_plugin list \<Rightarrow> bool" where
  "logically_ordered qs \<longleftrightarrow>
     (\<exists>order. entry_order qs order \<and> map logical_key qs = filter (\<lambda>k. k \<in> logical_key ` set qs) order)"

lemma entry_order_cong: "set ps = set qs \<Longrightarrow> entry_order ps order \<longleftrightarrow> entry_order qs order"
  by (simp add: entry_order_def plugin_entries_def)

lemma placed_keys:
  assumes "plugins_ok ps" "set order \<subseteq> fst ` set (plugin_entries ps)"
  shows "map logical_key (List.map_filter (placed_at (package_map ps)) order) = filter (\<lambda>k. k \<in> logical_key ` set ps) order"
  using assms(2)
proof (induction order)
  case (Cons k ks)
  have k: "k \<in> fst ` set (builtin_entry # concat (map package_entries ps))"
    using Cons.prems by (simp add: plugin_entries_def)
  show ?case
  proof (cases "placed_at (package_map ps) k")
    case None
    then have "k \<notin> logical_key ` set ps" using placed_at_key [OF assms(1)] by force
    then show ?thesis using Cons None by simp
  next
    case (Some p)
    then have "k \<in> logical_key ` set ps" "logical_key p = k" using placed_at_logical [OF assms(1) k] by auto
    then show ?thesis using Cons Some by simp
  qed
qed simp

lemma order_plugins_sound:
  assumes ok: "plugins_ok ps" and o: "order_plugins i ps = Ok qs"
  shows "mset qs = mset ps \<and> logically_ordered qs"
proof -
  from ok o obtain g order where
    entries: "lists_entries (builtin_entry # concat (map package_entries ps)) g"
    and own: "\<forall>p \<in> set ps. has_runtime_host (lp_manifest p) \<and> pm_renderer (lp_manifest p) \<noteq> None
       \<longrightarrow> depends_declared g (plugin_id p) (host_provider_id (plugin_id p))"
    and met: "requirements_met g" and order: "distinct order" "set order = registered g"
    and before: "\<forall>c q. depends_on g c q \<longrightarrow> comes_before order q c"
    and qs: "qs = List.map_filter (placed_at (package_map ps)) order"
    by (rule order_pluginsE)
  have reg: "set order = fst ` set (plugin_entries ps)"
    using order(2) entries by (simp only: lists_entries_def plugin_entries_def)
  note all = placed_all [OF ok order(1) reg [unfolded plugin_entries_def], folded qs]
  have sub: "set qs = set ps" using all(1) by (metis set_mset_mset)
  have "\<exists>(q, pv', rq') \<in> set (plugin_entries ps). d \<in> set pv' \<and> comes_before order q k"
    if "(k, pv, rq) \<in> set (plugin_entries ps)" "d \<in> set rq" for k pv rq d
  proof -
    from entries met that(1) [unfolded plugin_entries_def] that(2) obtain q pv' rq' where
      "(q, pv', rq') \<in> set (plugin_entries ps)" "d \<in> set pv'" "depends_on g k q"
      unfolding plugin_entries_def by (rule requirement_provider)
    then show ?thesis using before by blast
  qed
  moreover have "comes_before order (host_provider_id (plugin_id p)) (plugin_id p)"
    if "p \<in> set ps" "has_runtime_host (lp_manifest p) \<and> pm_renderer (lp_manifest p) \<noteq> None" for p
  proof -
    have "depends_on g (plugin_id p) (host_provider_id (plugin_id p))"
      using own that by (auto simp: depends_on_def depends_declared_def declares_dependency_def)
    then show ?thesis using before by blast
  qed
  ultimately have "entry_order ps order" using order(1) reg unfolding entry_order_def by blast
  then have "entry_order qs order" using entry_order_cong [OF sub] by simp
  moreover have "map logical_key qs = filter (\<lambda>k. k \<in> logical_key ` set qs) order"
    unfolding sub unfolding qs by (rule placed_keys [OF ok]) (simp add: reg)
  ultimately show ?thesis using all(1) unfolding logically_ordered_def by blast
qed

text \<open>What this order means for the packages.\<close>

lemma comes_before_filter:
  assumes "comes_before xs a b" "P a" "P b"
  shows "comes_before (filter P xs) a b"
proof -
  from assms(1) obtain u v where "xs = u @ b # v" "a \<in> set u" unfolding comes_before_def by blast
  then show ?thesis
    using assms(2,3) unfolding comes_before_def by (intro exI [of _ "filter P u"] exI [of _ "filter P v"]) simp
qed

lemma comes_before_map:
  assumes "comes_before (map f xs) (f a) (f b)" "inj_on f (set xs)" "a \<in> set xs" "b \<in> set xs"
  shows "comes_before xs a b"
proof -
  from assms(1) obtain u v where uv: "map f xs = u @ f b # v" "f a \<in> set u" unfolding comes_before_def by blast
  then obtain us c vs where xs: "xs = us @ c # vs" "map f us = u" "f c = f b"
    by (auto simp: map_eq_append_conv)
  then have "c = b" using assms(2,4) by (auto dest: inj_onD)
  moreover from xs(2) uv(2) obtain a' where a': "a' \<in> set us" "f a' = f a" by force
  have "a' = a" by (rule inj_onD [OF assms(2) a'(2)]) (use a'(1) xs(1) assms(3) in simp_all)
  ultimately show ?thesis using xs(1) a'(1) unfolding comes_before_def by blast
qed

lemma ordered_packages:
  assumes ok: "plugins_ok qs" and ordered: "logically_ordered qs"
    and c: "c \<in> set qs" and d: "d \<in> set (all_requires (lp_manifest c))"
  shows "d \<in> set builtin_host_capabilities
    \<or> (\<exists>p \<in> set qs. d \<in> set (renderer_provides (lp_manifest p)) \<and> comes_before qs p c)
    \<or> (\<exists>p \<in> set qs. d \<in> set (runtime_host_provides (lp_manifest p))
         \<and> (pm_renderer (lp_manifest p) = None \<longrightarrow> comes_before qs p c))"
proof -
  from ordered obtain order where order: "entry_order qs order"
    and keys: "map logical_key qs = filter (\<lambda>k. k \<in> logical_key ` set qs) order"
    unfolding logically_ordered_def by blast
  have dist: "distinct order" using order by (simp add: entry_order_def)
  have inj: "inj_on logical_key (set qs)" using logical_key_inject [OF ok] by (auto intro: inj_onI)
  have placed: "comes_before qs p c"
    if "p \<in> set qs" "comes_before order (logical_key p) (logical_key c)" for p
    using comes_before_filter [OF that(2), of "\<lambda>k. k \<in> logical_key ` set qs"] that(1) c
    by (intro comes_before_map [OF _ inj]) (simp_all add: keys)
  from d obtain k pv rq where k: "(k, pv, rq) \<in> set (package_entries c)" "d \<in> set rq"
    "k = logical_key c \<or> k = host_provider_id (plugin_id c) \<and> logical_key c = plugin_id c
       \<and> has_runtime_host (lp_manifest c) \<and> pm_renderer (lp_manifest c) \<noteq> None"
    by (rule requiring_entry)
  from k(1) c have entry: "(k, pv, rq) \<in> set (plugin_entries qs)" by (auto simp: plugin_entries_def)
  have "\<exists>(q, pv', rq') \<in> set (plugin_entries qs). d \<in> set pv' \<and> comes_before order q k"
    using order [unfolded entry_order_def, THEN conjunct2, THEN conjunct2, THEN conjunct1, THEN bspec, OF entry] k(2) by auto
  then obtain q pv' rq' where q: "(q, pv', rq') \<in> set (plugin_entries qs)" "d \<in> set pv'" "comes_before order q k" by blast
  have step: "comes_before order q (logical_key c)"
  proof (cases "k = logical_key c")
    case False
    with k(3) order c have "comes_before order k (logical_key c)" by (auto simp: entry_order_def)
    with q(3) show ?thesis by (rule comes_before_trans [OF dist])
  qed (use q(3) in simp)
  from q(1) [unfolded plugin_entries_def] q(2) show ?thesis
  proof (cases rule: providing_entry)
    case (2 p)
    with placed [of p] step show ?thesis by blast
  next
    case (3 p)
    then have "pm_renderer (lp_manifest p) = None \<longrightarrow> comes_before qs p c" using placed [of p] step by auto
    with 3(1,2) show ?thesis by (intro disjI2 bexI [of _ p] conjI)
  qed blast
qed

text \<open>
  C18: the logical order. The plugins come back, each once, and there is an order of all their
  entries - every capability an entry requires is provided by an entry before it, and a package's
  Host entry comes before its renderer entry - in which each package stands where its renderer
  entry is, or its Host entry if it has no renderer. So a package comes after the one that provides
  what it requires, if that provides it by its renderer or has none; for a Host capability of a
  package that also has a renderer, only the Host entry comes before, and the package itself may
  come later.
\<close>

theorem lifecycle_order_sound:
  assumes ok: "plugins_ok ps" and o: "order_plugins i ps = Ok qs"
  shows "mset qs = mset ps \<and> logically_ordered qs
    \<and> (\<forall>c \<in> set qs. \<forall>d \<in> set (all_requires (lp_manifest c)).
         d \<in> set builtin_host_capabilities
         \<or> (\<exists>p \<in> set qs. d \<in> set (renderer_provides (lp_manifest p)) \<and> comes_before qs p c)
         \<or> (\<exists>p \<in> set qs. d \<in> set (runtime_host_provides (lp_manifest p))
              \<and> (pm_renderer (lp_manifest p) = None \<longrightarrow> comes_before qs p c)))"
proof -
  note sound = order_plugins_sound [OF assms]
  then have "plugins_ok qs" using ok unfolding plugins_ok_def by (metis mset_eq_imp_distinct_iff mset_map set_mset_mset)
  then show ?thesis using sound ordered_packages by blast
qed

section \<open>Planning always returns\<close>

lemma and_then_not_panic: "r \<noteq> Panic \<Longrightarrow> (\<And>x. r = Ok x \<Longrightarrow> f x \<noteq> Panic) \<Longrightarrow> and_then r f \<noteq> Panic"
  by (cases r) auto

lemma and_then_panic: "and_then r f = Panic \<longleftrightarrow> r = Panic \<or> (\<exists>x. r = Ok x \<and> f x = Panic)"
  by (cases r) auto

lemma register_epoch:
  assumes "unat (cr_next_epoch g) + Suc n < 2 ^ 64" "register_provider k gen pv rq gr g = (x, g')"
  shows "x \<noteq> Panic \<and> unat (cr_next_epoch g') \<le> Suc (unat (cr_next_epoch g))"
proof -
  have "cr_next_epoch g \<noteq> - 1"
    using assms(1) by (auto simp: unsigned_minus_1_eq_mask mask_eq_exp_minus_1)
  then obtain e where e: "allocate_epoch g = Some (e, g\<lparr>cr_next_epoch := e\<rparr>)"
    by (auto simp: allocate_epoch_def checked_succ_def)
  from allocate_epoch_SomeD(3) [OF e] have "unat e = Suc (unat (cr_next_epoch g))" .
  with assms(2) e show ?thesis
    by (auto simp: register_provider_def split: if_splits option.splits)
qed

lemma note_launches_not_panic: "note_launches host ds launch \<noteq> Panic"
  by (induction host ds launch rule: note_launches.induct) (auto split: option.splits)

lemma graph_host_total:
  assumes "unat (cr_next_epoch g) + Suc n < 2 ^ 64"
  shows "graph_host p launch g \<noteq> Panic"
    and "graph_host p launch g = Ok (l, g') \<Longrightarrow> unat (cr_next_epoch g') \<le> Suc (unat (cr_next_epoch g))"
proof -
  let ?reg = "register_provider (host_provider_id (plugin_id p)) (lp_generation p)
      (runtime_host_provides (lp_manifest p)) (host_requires (lp_manifest p)) (graph_grants (lp_manifest p)) g"
  have r: "fst ?reg \<noteq> Panic" "unat (cr_next_epoch (snd ?reg)) \<le> Suc (unat (cr_next_epoch g))"
    using register_epoch [OF assms, of _ _ _ _ _ "fst ?reg" "snd ?reg"] by simp_all
  show "graph_host p launch g \<noteq> Panic"
    unfolding graph_host_def Let_def graph_step_def
    using r(1) note_launches_not_panic by (simp add: and_then_panic)
  show "graph_host p launch g = Ok (l, g') \<Longrightarrow> unat (cr_next_epoch g') \<le> Suc (unat (cr_next_epoch g))"
    using r(2) by (auto simp: graph_host_def Let_def and_then_ok graph_step_def split: if_splits)
qed

lemma graph_renderer_total:
  assumes "unat (cr_next_epoch g) + Suc n < 2 ^ 64"
  shows "graph_renderer p g \<noteq> Panic"
    and "graph_renderer p g = Ok g' \<Longrightarrow> unat (cr_next_epoch g') \<le> Suc (unat (cr_next_epoch g))"
proof -
  let ?reg = "register_provider (plugin_id p) (lp_generation p)
      (renderer_provides (lp_manifest p)) (renderer_requires (lp_manifest p)) (graph_grants (lp_manifest p)) g"
  have r: "fst ?reg \<noteq> Panic" "unat (cr_next_epoch (snd ?reg)) \<le> Suc (unat (cr_next_epoch g))"
    using register_epoch [OF assms, of _ _ _ _ _ "fst ?reg" "snd ?reg"] by simp_all
  show "graph_renderer p g \<noteq> Panic"
    unfolding graph_renderer_def Let_def graph_step_def using r(1) by (simp add: and_then_panic)
  show "graph_renderer p g = Ok g' \<Longrightarrow> unat (cr_next_epoch g') \<le> Suc (unat (cr_next_epoch g))"
    using r(2) by (auto simp: graph_renderer_def Let_def and_then_ok graph_step_def split: if_splits)
qed

lemma graph_plugins_not_panic:
  "unat (cr_next_epoch g) + 2 * length ps < 2 ^ 64 \<Longrightarrow> graph_plugins ps launch g \<noteq> Panic"
proof (induction ps arbitrary: launch g)
  case (Cons p ps)
  have 1: "unat (cr_next_epoch g) + Suc (Suc (2 * length ps)) < 2 ^ 64" using Cons.prems by simp
  show ?case
    unfolding graph_plugins.simps
  proof (rule and_then_not_panic [OF graph_host_total(1) [OF 1]], clarify)
    fix l g1
    assume "graph_host p launch g = Ok (l, g1)"
    from graph_host_total(2) [OF 1 this]
    have 2: "unat (cr_next_epoch g1) + Suc (2 * length ps) < 2 ^ 64" using 1 by simp
    assume "and_then (graph_renderer p g1) (graph_plugins ps l) = Panic"
    moreover have "and_then (graph_renderer p g1) (graph_plugins ps l) \<noteq> Panic"
    proof (rule and_then_not_panic [OF graph_renderer_total(1) [OF 2]])
      fix g2
      assume "graph_renderer p g1 = Ok g2"
      from graph_renderer_total(2) [OF 2 this] show "graph_plugins ps l g2 \<noteq> Panic"
        using 2 by (intro Cons.IH) simp
    qed
    ultimately show False by simp
  qed
qed simp

lemma graph_own_hosts_not_panic: "graph_own_hosts ps g \<noteq> Panic"
proof (induction ps arbitrary: g)
  case (Cons p ps)
  have "fst (require_provider_before c q g) \<noteq> Panic" for c q
    by (auto simp: require_provider_before_def split: option.splits)
  with Cons show ?case by (simp add: Let_def graph_step_def and_then_panic)
qed simp

lemma capability_graph_not_panic:
  assumes "2 * length ps + 1 < 2 ^ 64"
  shows "capability_graph i ps \<noteq> Panic"
proof -
  let ?reg = "register_provider BUILTIN_HOST_PROVIDER_ID 1 builtin_host_capabilities [] [] (registry_new i)"
  have start: "unat (cr_next_epoch (registry_new i)) + Suc 0 < 2 ^ 64" by (simp add: registry_new_def)
  have r: "fst ?reg \<noteq> Panic" "unat (cr_next_epoch (snd ?reg)) \<le> 1"
    using register_epoch [OF start, of _ _ _ _ _ "fst ?reg" "snd ?reg"]
    by (simp_all add: registry_new_def)
  show ?thesis
    unfolding capability_graph_def graph_step_def
    using r assms graph_own_hosts_not_panic graph_plugins_not_panic [of "snd ?reg" ps None]
    by (simp add: and_then_panic and_then_ok)
qed

text \<open>
  Planning an order always returns. For any list of plugins a machine can hold, the graph
  and the sort end without a panic, and what they refuse is a conflict of dependencies.
\<close>

theorem lifecycle_order_total:
  assumes "length ps < 2 ^ 62"
  shows "order_plugins i ps \<noteq> Panic
    \<and> (\<forall>e. order_plugins i ps = Err e \<longrightarrow> lifecycle_code e = ''dependency_conflict'')"
proof (cases "capability_graph i ps")
  case (Ok g)
  have "registry_inv g" using capability_graph_entries(1) [OF Ok] by (simp add: lists_entries_def)
  then show ?thesis using Ok by (cases rule: resolve_cases) (auto simp: order_plugins_def)
next
  case (Err e)
  then show ?thesis by (simp add: order_plugins_def)
next
  case Panic
  with capability_graph_not_panic [of ps i] assms show ?thesis by simp
qed

end
