(* ===== verification/Local_Loading.thy ===== *)
theory Local_Loading
  imports Local_Plugins
begin

text \<open>
  The properties of the loader of local plugins: what was read is an ordinary file below the
  selected root, and what is loaded is covered by the registration.
\<close>

section \<open>Checked paths\<close>

text \<open>
  The path is a chain of entries below \<open>root\<close>: each is listed under its exact name, is its own
  canonical path, and is a directory, or at the end a regular file with one name.
\<close>

definition ordinary_chain :: "local_fs \<Rightarrow> string \<Rightarrow> string \<Rightarrow> string list \<Rightarrow> bool" where
  "ordinary_chain fs root start cs \<longleftrightarrow>
     (\<forall>i < length cs.
        let parent = foldl path_join start (take i cs); p = path_join parent (cs ! i)
        in (\<exists>m. lf_lstat fs p = Ok m
              \<and> (if Suc i < length cs then fm_type m = Directory
                 else fm_type m = RegularFile \<and> fm_links m = 1))
           \<and> (\<exists>entries. lf_read_dir fs parent = Ok entries \<and> cs ! i \<in> set entries)
           \<and> (\<exists>canonical. lf_canonicalize fs p = Ok canonical
                \<and> path_components canonical = path_components p
                \<and> path_starts_with canonical root))"

lemma require_file_type_ok:
  "require_file_type m p s d = Ok () \<longleftrightarrow>
     (if d then fm_type m = Directory else fm_type m = RegularFile \<and> fm_links m = 1)"
  by (auto simp: require_file_type_def)

lemma check_component_ok:
  assumes "check_component fs root parent c stage further = Ok u"
  shows "(\<exists>m. lf_lstat fs (path_join parent c) = Ok m
      \<and> (if further then fm_type m = Directory else fm_type m = RegularFile \<and> fm_links m = 1))
    \<and> (\<exists>entries. lf_read_dir fs parent = Ok entries \<and> c \<in> set entries)
    \<and> (\<exists>canonical. lf_canonicalize fs (path_join parent c) = Ok canonical
        \<and> path_components canonical = path_components (path_join parent c)
        \<and> path_starts_with canonical root)"
proof -
  from assms obtain m entries canonical where
    "lf_lstat fs (path_join parent c) = Ok m" "require_file_type m (path_join parent c) stage further = Ok ()"
    "lf_read_dir fs parent = Ok entries" "c \<in> set entries"
    "lf_canonicalize fs (path_join parent c) = Ok canonical"
    "path_starts_with canonical root" "path_eq canonical (path_join parent c)"
    by (auto simp: check_component_def Let_def and_then_ok io_step_ok split: if_splits)
  then show ?thesis by (simp add: require_file_type_ok path_eq_def)
qed

lemma checked_from_ok:
  "checked_from fs root start cs stage = Ok p \<Longrightarrow>
     p = foldl path_join start cs \<and> ordinary_chain fs root start cs"
proof (induction cs arbitrary: start)
  case Nil
  then show ?case by (simp add: ordinary_chain_def)
next
  case (Cons c cs)
  then have first: "check_component fs root start c stage (cs \<noteq> []) = Ok ()"
    and rest: "checked_from fs root (path_join start c) cs stage = Ok p"
    by (auto simp: and_then_ok)
  from Cons.IH [OF rest] have p: "p = foldl path_join (path_join start c) cs"
    and chain: "ordinary_chain fs root (path_join start c) cs" by blast+
  have "ordinary_chain fs root start (c # cs)"
    unfolding ordinary_chain_def
  proof (intro allI impI)
    fix i
    assume "i < length (c # cs)"
    then show "let parent = foldl path_join start (take i (c # cs)); q = path_join parent ((c # cs) ! i)
        in (\<exists>m. lf_lstat fs q = Ok m
              \<and> (if Suc i < length (c # cs) then fm_type m = Directory
                 else fm_type m = RegularFile \<and> fm_links m = 1))
           \<and> (\<exists>entries. lf_read_dir fs parent = Ok entries \<and> (c # cs) ! i \<in> set entries)
           \<and> (\<exists>canonical. lf_canonicalize fs q = Ok canonical
                \<and> path_components canonical = path_components q
                \<and> path_starts_with canonical root)"
    proof (cases i)
      case 0
      with check_component_ok [OF first] show ?thesis by simp
    next
      case (Suc j)
      with chain \<open>i < length (c # cs)\<close> show ?thesis by (simp add: ordinary_chain_def Let_def)
    qed
  qed
  with p show ?case by simp
qed

lemma checked_path_ok:
  "checked_path fs root relative stage = Ok p \<Longrightarrow>
     p = foldl path_join root (split_on slash relative)
     \<and> ordinary_chain fs root root (split_on slash relative)"
  unfolding checked_path_def by (rule checked_from_ok)

lemma verify_open_file_ok:
  "verify_open_file fs f p stage = Ok u \<Longrightarrow>
     \<exists>m named. lf_fstat fs f = Ok m \<and> fm_type m = RegularFile \<and> fm_links m = 1
       \<and> lf_lstat fs p = Ok named \<and> fm_inode named = fm_inode m"
  by (auto simp: verify_open_file_def and_then_ok io_step_ok require_file_type_ok split: if_splits)

text \<open>
  What the loader reads is an ordinary file below the root. The text is the whole contents
  of one opened file, valid text within the limit; before the open, after it and after the
  read, every component of the path was listed under its exact spelling and was an ordinary
  directory or file whose canonical path is itself, below the root; and at the end the path
  still named the opened file, which has no second name.
\<close>

theorem local_read_confined:
  assumes "read_text fs root relative limit stage = Ok contents"
  shows "length contents \<le> limit \<and> valid_utf8 contents
    \<and> (\<exists>f path m named. path = foldl path_join root (split_on slash relative)
         \<and> lf_open (fs 1) path = Ok f \<and> lf_contents (fs 7) f = Ok contents
         \<and> (\<forall>t \<in> {0, 4, 8}. ordinary_chain (fs t) root root (split_on slash relative))
         \<and> lf_fstat (fs 9) f = Ok m \<and> fm_type m = RegularFile \<and> fm_links m = 1
         \<and> lf_lstat (fs 9) path = Ok named \<and> fm_inode named = fm_inode m)"
proof -
  from assms have r: "read_bytes fs root relative limit stage = Ok contents" and utf8: "valid_utf8 contents"
    by (auto simp: read_text_def and_then_ok split: if_splits)
  from r obtain f path full where
    o: "open_checked_file fs root relative stage = Ok (f, path)"
    and c: "lf_contents (fs 7) f = Ok full" "contents = take (limit + 1) full"
      "length contents \<le> limit"
    and after: "\<exists>p. checked_path (fs 8) root relative stage = Ok p"
      "verify_open_file (fs 9) f path stage = Ok ()"
    by (auto simp: read_bytes_def and_then_ok io_step_ok Let_def split: if_splits)
  have full: "contents = full" using c(2,3) by (cases "length full \<le> limit") auto
  from o obtain p4 where
    before: "checked_path (fs 0) root relative stage = Ok path" "lf_open (fs 1) path = Ok f"
      "checked_path (fs 4) root relative stage = Ok p4"
    by (auto simp: open_checked_file_def and_then_ok io_step_ok)
  from verify_open_file_ok [OF after(2)] obtain m named where
    "lf_fstat (fs 9) f = Ok m" "fm_type m = RegularFile" "fm_links m = 1"
    "lf_lstat (fs 9) path = Ok named" "fm_inode named = fm_inode m" by blast
  moreover have "\<forall>t \<in> {0, 4, 8}. ordinary_chain (fs t) root root (split_on slash relative)"
    using checked_path_ok before(1,3) after(1) by blast
  moreover have "path = foldl path_join root (split_on slash relative)"
    using checked_path_ok [OF before(1)] by blast
  ultimately show ?thesis using c(1,3) utf8 before(2) full by blast
qed

section \<open>A directory at rest\<close>

lemma read_text_at_rest:
  assumes "\<And>t. fs t = F" "checked_path F root relative stage = Ok p" "lf_open F p = Ok f"
    "lf_fstat F f = Ok m" "lf_lstat F p = Ok m" "fm_type m = RegularFile" "fm_links m = 1"
    "fm_len m \<le> limit" "lf_contents F f = Ok s" "length s \<le> limit" "valid_utf8 s" "\<not> binary_text s"
  shows "read_text fs root relative limit stage = Ok s"
  using assms by (simp add: read_text_def read_bytes_def open_checked_file_def verify_open_file_def
      require_file_type_def Let_def)

definition demo_root :: string where
  "demo_root = ''/plugins/dev''"

definition demo_dir :: local_fs where
  "demo_dir =
     \<lparr>lf_current_dir = Ok ''/'', lf_canonicalize = Ok,
      lf_lstat = (\<lambda>p. Ok (if p = ''/plugins/dev/codlet.json''
          then \<lparr>fm_type = RegularFile, fm_links = 1, fm_inode = 1, fm_len = 1\<rparr>
          else if p = ''/plugins/dev/dist/host.cjs''
          then \<lparr>fm_type = RegularFile, fm_links = 1, fm_inode = 2, fm_len = 5\<rparr>
          else \<lparr>fm_type = Directory, fm_links = 2, fm_inode = 3, fm_len = 0\<rparr>)),
      lf_read_dir = (\<lambda>p. Ok (if p = demo_root then [''dist'', ''codlet.json''] else [''host.cjs''])),
      lf_exists = (\<lambda>_. Ok True),
      lf_open = (\<lambda>p. Ok (if p = ''/plugins/dev/codlet.json'' then 1 else 2)),
      lf_fstat = (\<lambda>f. Ok \<lparr>fm_type = RegularFile, fm_links = 1, fm_inode = f,
                            fm_len = if f = 1 then 1 else 5\<rparr>),
      lf_contents = (\<lambda>f. Ok (if f = 1 then ''M'' else ''run()''))\<rparr>"

definition demo_host_tool :: plugin_manifest where
  "demo_host_tool = demo_manifest\<lparr>pm_renderer := None, pm_permissions := [HostProcess]\<rparr>"

definition demo_loader :: loader where
  "demo_loader =
     \<lparr>ld_manifest_from = (\<lambda>s. if s = ''M'' then Ok demo_host_tool else Err ''json''),
      ld_tables = ascii_tables, ld_url = (\<lambda>_. None), ld_metadata = (\<lambda>_. Ok None),
      ld_compatible = (\<lambda>_. Ok ())\<rparr>"

lemma demo_host_tool_valid: "manifest_validate ascii_tables demo_host_tool = Ok ()"
  using demo_manifest_valid
  by (simp add: manifest_validate_def demo_host_tool_def demo_manifest_def first_error_ok
      validate_renderer_def validate_host_def split: if_splits)

lemma demo_checked_paths:
  "checked_path demo_dir demo_root ''codlet.json'' stage = Ok ''/plugins/dev/codlet.json''"
  "checked_path demo_dir demo_root ''dist/host.cjs'' stage = Ok ''/plugins/dev/dist/host.cjs''"
  by (simp_all add: checked_path_def check_component_def path_join_def path_is_absolute_def
      path_starts_with_def path_components_def segment_component_def slash_def demo_dir_def
      demo_root_def require_file_type_def Let_def)

lemma demo_reads:
  "read_text (\<lambda>_. demo_dir) demo_root ''codlet.json'' MAX_MANIFEST_BYTES stage = Ok ''M''"
  "read_text (\<lambda>_. demo_dir) demo_root ''dist/host.cjs'' MAX_SOURCE_BYTES stage = Ok ''run()''"
proof -
  show "read_text (\<lambda>_. demo_dir) demo_root ''codlet.json'' MAX_MANIFEST_BYTES stage = Ok ''M''"
    by (rule read_text_at_rest [where F = demo_dir and m = "\<lparr>fm_type = RegularFile, fm_links = 1, fm_inode = 1, fm_len = 1\<rparr>" and f = 1,
          OF refl demo_checked_paths(1)])
      (simp_all add: demo_dir_def MAX_MANIFEST_BYTES_def valid_utf8_def binary_text_def chars_def byte_def)
  show "read_text (\<lambda>_. demo_dir) demo_root ''dist/host.cjs'' MAX_SOURCE_BYTES stage = Ok ''run()''"
    by (rule read_text_at_rest [where F = demo_dir and m = "\<lparr>fm_type = RegularFile, fm_links = 1, fm_inode = 2, fm_len = 5\<rparr>" and f = 2,
          OF refl demo_checked_paths(2)])
      (simp_all add: demo_dir_def MAX_SOURCE_BYTES_def valid_utf8_def binary_text_def chars_def byte_def)
qed

theorem local_read_confined_witness:
  "read_text (\<lambda>_. demo_dir) demo_root ''dist/host.cjs'' MAX_SOURCE_BYTES [] = Ok ''run()''
   \<and> ordinary_chain demo_dir demo_root demo_root [''dist'', ''host.cjs'']"
proof -
  have "split_on slash ''dist/host.cjs'' = [''dist'', ''host.cjs'']" by (simp add: slash_def)
  with local_read_confined [OF demo_reads(2)] demo_reads(2) show ?thesis by fastforce
qed

section \<open>Loading\<close>

lemma require_supported_all_ok:
  "require_supported_all m ps path stage = Ok u \<Longrightarrow> \<forall>p \<in> set ps. supported_permission m p"
  by (induction ps) (auto simp: and_then_ok require_supported_permission_def split: if_splits)

lemma check_grants_ok:
  "check_grants m path earlier ps = Ok u \<Longrightarrow>
     distinct ps \<and> set ps \<inter> set earlier = {} \<and> (\<forall>p \<in> set ps. supported_permission m p)"
  by (induction m path earlier ps rule: check_grants.induct)
    (auto simp: and_then_ok require_supported_permission_def split: if_splits)

lemma validate_grants_at_ok:
  assumes "validate_grants_at m grants path = Ok u"
  shows "distinct grants" "set (pm_permissions m) \<subseteq> set grants"
    "\<forall>p \<in> set grants. supported_permission m p"
    "\<forall>d \<in> set (host_provides m @ host_requires m). cd_scope d = Runtime \<or> cd_scope d = Target"
proof -
  from assms have 1: "validate_local_manifest m path = Ok ()" "check_grants m path [] grants = Ok ()"
    "find (\<lambda>p. p \<notin> set grants) (pm_permissions m) = None"
    by (auto simp: validate_grants_at_def and_then_ok split: option.splits)
  from 1(2) show "distinct grants" "\<forall>p \<in> set grants. supported_permission m p"
    using check_grants_ok by blast+
  from 1(3) show "set (pm_permissions m) \<subseteq> set grants" by (auto simp: find_None_iff)
  from 1(1) show "\<forall>d \<in> set (host_provides m @ host_requires m). cd_scope d = Runtime \<or> cd_scope d = Target"
    by (auto simp: validate_local_manifest_def list_ex_iff split: if_splits)
qed

lemma read_entry_ok: "read_entry fs root e stage = Ok s \<Longrightarrow> \<not> blank s \<and> length s \<le> MAX_SOURCE_BYTES"
  by (auto simp: read_entry_def and_then_ok read_text_def read_bytes_def Let_def split: if_splits)

lemma inspect_ok:
  assumes "inspect_local_plugin l fs root = Ok c"
  shows "manifest_validate (ld_tables l) (lc_manifest c) = Ok ()"
    and "lc_source c \<noteq> None \<longleftrightarrow> pm_renderer (lc_manifest c) \<noteq> None"
    and "lc_host c \<noteq> None \<longleftrightarrow> pm_host (lc_manifest c) \<noteq> None"
    and "\<forall>s. lc_source c = Some s \<longrightarrow> \<not> blank s \<and> length s \<le> MAX_SOURCE_BYTES"
    and "\<forall>h. lc_host c = Some h \<longrightarrow> \<not> blank (lh_source h) \<and> length (lh_source h) \<le> MAX_SOURCE_BYTES"
proof -
  from assms obtain r json m source host where
    1: "manifest_parse (ld_manifest_from l) (ld_tables l) json = Ok m"
      "(case pm_renderer m of None \<Rightarrow> Ok None
        | Some x \<Rightarrow> and_then (read_entry (\<lambda>t. fs (12 + t)) r (rm_entry x) ''read renderer entry'')
            (\<lambda>s. Ok (Some s))) = Ok source"
      "(case pm_host m of None \<Rightarrow> Ok None
        | Some h \<Rightarrow> and_then (read_entry (\<lambda>t. fs (22 + t)) r (hm_entry h) ''read host entry'')
            (\<lambda>s. Ok (Some \<lparr>lh_root = r, lh_entry = path_join r (hm_entry h),
                          lh_source = s, lh_authorization = None\<rparr>))) = Ok host"
      "c = \<lparr>lc_root = r, lc_manifest = m, lc_source = source, lc_host = host\<rparr>"
    by (auto simp: inspect_local_plugin_def and_then_ok case_outcome_ok Let_def split: if_splits)
  from 1(1) have "manifest_validate (ld_tables l) m = Ok ()"
    by (auto simp: manifest_parse_def split: outcome.splits)
  moreover have "(source \<noteq> None \<longleftrightarrow> pm_renderer m \<noteq> None)
      \<and> (\<forall>s. source = Some s \<longrightarrow> \<not> blank s \<and> length s \<le> MAX_SOURCE_BYTES)"
    using 1(2) read_entry_ok by (auto simp: and_then_ok split: option.splits)
  moreover have "(host \<noteq> None \<longleftrightarrow> pm_host m \<noteq> None)
      \<and> (\<forall>h. host = Some h \<longrightarrow> \<not> blank (lh_source h) \<and> length (lh_source h) \<le> MAX_SOURCE_BYTES)"
    using 1(3) read_entry_ok by (auto simp: and_then_ok split: option.splits)
  ultimately show "manifest_validate (ld_tables l) (lc_manifest c) = Ok ()"
    "lc_source c \<noteq> None \<longleftrightarrow> pm_renderer (lc_manifest c) \<noteq> None"
    "lc_host c \<noteq> None \<longleftrightarrow> pm_host (lc_manifest c) \<noteq> None"
    "\<forall>s. lc_source c = Some s \<longrightarrow> \<not> blank s \<and> length s \<le> MAX_SOURCE_BYTES"
    "\<forall>h. lc_host c = Some h \<longrightarrow> \<not> blank (lh_source h) \<and> length (lh_source h) \<le> MAX_SOURCE_BYTES"
    unfolding 1(4) by simp_all
qed

lemma load_local_plugin_ok:
  assumes "load_local_plugin l fs expected registration generation = Ok p"
  shows "pm_id (lp_manifest p) = expected \<and> manifest_validate (ld_tables l) (lp_manifest p) = Ok ()
    \<and> lp_generation p = generation \<and> 1 \<le> generation \<and> generation \<le> 9007199254740991
    \<and> lp_authorization p = Some registration
    \<and> (\<forall>h. lp_host p = Some h \<longrightarrow> lh_authorization h = Some registration \<and> \<not> blank (lh_source h))
    \<and> (lp_source p \<noteq> None \<longleftrightarrow> pm_renderer (lp_manifest p) \<noteq> None)
    \<and> (lp_host p \<noteq> None \<longleftrightarrow> pm_host (lp_manifest p) \<noteq> None)
    \<and> distinct (lr_grants registration)
    \<and> set (pm_permissions (lp_manifest p)) \<subseteq> set (lr_grants registration)
    \<and> (\<forall>g \<in> set (lr_grants registration). supported_permission (lp_manifest p) g)
    \<and> scopes_granted (lr_policy registration) (lr_grants registration)"
proof -
  from assms obtain c where
    c: "inspect_local_plugin l fs (lr_path registration) = Ok c" "pm_id (lc_manifest c) = expected"
      "validate_grants_at (lc_manifest c) (lr_grants registration) (path_join (lc_root c) MANIFEST_NAME) = Ok ()"
      "policy_validate_grants (ld_url l) (lr_policy registration) (lr_grants registration) = Ok ()"
      "1 \<le> generation" "generation \<le> MAX_JAVASCRIPT_SAFE_INTEGER"
      "p = \<lparr>lp_authorization = Some registration, lp_manifest = lc_manifest c,
              lp_source = lc_source c,
              lp_host = map_option (\<lambda>h. h\<lparr>lh_authorization := Some registration\<rparr>) (lc_host c),
              lp_generation = generation\<rparr>"
    by (auto simp: load_local_plugin_def and_then_ok case_outcome_ok Let_def split: if_splits)
  show ?thesis
    unfolding c(7)
    using c(2,4-6) validate_grants_at_ok [OF c(3)] inspect_ok [OF c(1)]
    by (auto simp: policy_validate_grants_ok MAX_JAVASCRIPT_SAFE_INTEGER_def)
qed

text \<open>
  C39: what is loaded is covered by the registration. A loaded plugin has the expected id, a
  valid manifest and a generation JavaScript can represent; every permission it requests is
  granted, every grant is supported for its kind of plugin, every scope of the policy has its
  grant; its entries have source text exactly when the manifest has them; and it carries the
  registration it was loaded under, also in its host.
\<close>

theorem loaded_plugin_covered:
  assumes "load_local_plugin l fs expected registration generation = Ok p"
  shows "pm_id (lp_manifest p) = expected \<and> manifest_validate (ld_tables l) (lp_manifest p) = Ok ()
    \<and> lp_generation p = generation \<and> 1 \<le> generation \<and> generation \<le> 9007199254740991
    \<and> lp_authorization p = Some registration
    \<and> (\<forall>h. lp_host p = Some h \<longrightarrow> lh_authorization h = Some registration \<and> \<not> blank (lh_source h))
    \<and> (lp_source p \<noteq> None \<longleftrightarrow> pm_renderer (lp_manifest p) \<noteq> None)
    \<and> (lp_host p \<noteq> None \<longleftrightarrow> pm_host (lp_manifest p) \<noteq> None)
    \<and> distinct (lr_grants registration)
    \<and> set (pm_permissions (lp_manifest p)) \<subseteq> set (lr_grants registration)
    \<and> (\<forall>g \<in> set (lr_grants registration). supported_permission (lp_manifest p) g)
    \<and> scopes_granted (lr_policy registration) (lr_grants registration)"
  using assms by (rule load_local_plugin_ok)

lemma demo_inspect: "inspect_local_plugin demo_loader (\<lambda>_. demo_dir) demo_root
   = Ok \<lparr>lc_root = demo_root, lc_manifest = demo_host_tool, lc_source = None,
        lc_host = Some \<lparr>lh_root = demo_root, lh_entry = ''/plugins/dev/dist/host.cjs'',
          lh_source = ''run()'', lh_authorization = None\<rparr>\<rparr>"
proof -
  have root: "canonical_local_root demo_dir demo_root = Ok demo_root"
    by (simp add: canonical_local_root_def validate_root_input_def demo_root_def demo_dir_def
        starts_with_def backslash_def slash_def path_is_absolute_def require_file_type_def valid_utf8_def
        byte_def)
  have read: "read_text (\<lambda>_. demo_dir) demo_root MANIFEST_NAME MAX_MANIFEST_BYTES ''read manifest'' = Ok ''M''"
    unfolding MANIFEST_NAME_def by (rule demo_reads)
  have entry: "read_entry (\<lambda>_. demo_dir) demo_root ''dist/host.cjs'' ''read host entry'' = Ok ''run()''"
    using demo_reads(2) [of "''read host entry''"]
    by (simp add: read_entry_def validate_entry_def slash_def ends_with_def strip_suffix_def
        device_name_def ascii_upcase_def starts_with_def blank_def chars_ascii is_ascii_def byte_def
        is_whitespace_def ascii_lower_def Let_def)
  have path: "path_join demo_root ''dist/host.cjs'' = ''/plugins/dev/dist/host.cjs''"
    by (simp add: path_join_def demo_root_def path_is_absolute_def slash_def)
  have m: "pm_renderer demo_host_tool = None"
    "pm_host demo_host_tool = Some \<lparr>hm_entry = ''dist/host.cjs'', hm_provides = [], hm_requires = []\<rparr>"
    by (simp_all add: demo_host_tool_def demo_manifest_def)
  have ok: "validate_local_manifest demo_host_tool q = Ok ()" for q
    by (simp add: validate_local_manifest_def demo_host_tool_def demo_manifest_def host_provides_def
        host_requires_def require_supported_permission_def supported_permission_def)
  have parse: "manifest_parse (ld_manifest_from demo_loader) (ld_tables demo_loader) ''M'' = Ok demo_host_tool"
    using demo_host_tool_valid by (simp add: manifest_parse_def demo_loader_def)
  have there: "lf_exists demo_dir q = Ok True" for q by (simp add: demo_dir_def)
  show ?thesis
    by (simp add: inspect_local_plugin_def root there read parse ok m entry path Let_def)
qed

definition demo_loaded :: loaded_plugin where
  "demo_loaded =
     \<lparr>lp_authorization = Some demo_registration, lp_manifest = demo_host_tool, lp_source = None,
      lp_host = Some \<lparr>lh_root = demo_root, lh_entry = ''/plugins/dev/dist/host.cjs'',
        lh_source = ''run()'', lh_authorization = Some demo_registration\<rparr>,
      lp_generation = 1\<rparr>"

lemma demo_load:
  "load_local_plugin demo_loader (\<lambda>_. demo_dir) ''dev.tool'' demo_registration 1 = Ok demo_loaded"
proof -
  have i: "inspect_local_plugin demo_loader (\<lambda>_. demo_dir) (lr_path demo_registration)
      = inspect_local_plugin demo_loader (\<lambda>_. demo_dir) demo_root"
    by (simp add: demo_registration_def demo_root_def)
  have g: "validate_grants_at demo_host_tool (lr_grants demo_registration) q = Ok ()" for q
    by (simp add: validate_grants_at_def validate_local_manifest_def demo_host_tool_def demo_manifest_def
        host_provides_def host_requires_def require_supported_permission_def supported_permission_def
        demo_registration_def)
  have v: "policy_validate_grants (ld_url demo_loader) (lr_policy demo_registration)
      (lr_grants demo_registration) = Ok ()"
    by code_simp
  have k: "pm_id demo_host_tool = ''dev.tool''" by (simp add: demo_host_tool_def demo_manifest_def)
  have l: "ld_metadata demo_loader r = Ok None" "ld_compatible demo_loader t = Ok ()" for r t
    by (simp_all add: demo_loader_def)
  show ?thesis
    by (simp add: load_local_plugin_def i demo_inspect g v k l Let_def demo_loaded_def
        MAX_JAVASCRIPT_SAFE_INTEGER_def)
qed

theorem loaded_plugin_covered_witness:
  "load_local_plugin demo_loader (\<lambda>_. demo_dir) ''dev.tool'' demo_registration 1 = Ok demo_loaded
   \<and> set (pm_permissions (lp_manifest demo_loaded)) \<subseteq> set (lr_grants demo_registration)
   \<and> lp_authorization demo_loaded = Some demo_registration"
  using loaded_plugin_covered [OF demo_load] demo_load by blast

end
