(* ===== verification/Lifecycle_Plans.thy ===== *)
theory Lifecycle_Plans
  imports Lifecycle_Order Local_Loading
begin

text \<open>
  The properties of affected plugins, generations and activation plans.
\<close>

section \<open>Affected plugins\<close>

lemma members_loop:
  "members (dependents_loop ps s) = {b. \<exists>a \<in> members s. (serves ps)\<^sup>*\<^sup>* a b}"
proof (induction ps s rule: dependents_loop.induct)
  case (1 ps s)
  let ?n = "add_dependents ps s"
  have n: "members ?n = members s \<union> {b. \<exists>a \<in> members s. serves ps a b}" by (rule members_add_dependents)
  show ?case
  proof (cases "bt_len ?n = bt_len s")
    case True
    then have "members ?n = members s"
      using n by (metis Un_upper1 card_subset_eq finite_members len_members)
    with n have closed: "serves ps a b \<Longrightarrow> a \<in> members s \<Longrightarrow> b \<in> members s" for a b by blast
    have "b \<in> members s" if "(serves ps)\<^sup>*\<^sup>* a b" "a \<in> members s" for a b
      using that by (induction rule: rtranclp_induct) (auto intro: closed)
    with True \<open>members ?n = members s\<close> show ?thesis
      by (subst dependents_loop.simps) (auto simp: Let_def)
  next
    case False
    then have "members (dependents_loop ps s) = members (dependents_loop ps ?n)"
      by (subst dependents_loop.simps) (simp add: Let_def)
    also have "\<dots> = {b. \<exists>a \<in> members ?n. (serves ps)\<^sup>*\<^sup>* a b}" using 1 False by simp
    also have "\<dots> = {b. \<exists>a \<in> members s. (serves ps)\<^sup>*\<^sup>* a b}"
      unfolding n by (auto intro: converse_rtranclp_into_rtranclp)
    finally show ?thesis .
  qed
qed

lemma members_closure: "members (dependent_closure ps root) = {b. (serves ps)\<^sup>*\<^sup>* root b}"
  by (simp add: dependent_closure_def members_loop)

text \<open>
  The affected plugins are the root and everything that reaches it through requirements,
  no more and no less; a plugin may be disabled exactly when it is known and no other plugin
  that runs or is enabled depends on it, however indirectly.
\<close>

theorem dependent_closure_exact:
  "members (dependent_closure ps root) = {b. (serves ps)\<^sup>*\<^sup>* root b}
   \<and> (validate_disable ps c r i = Ok () \<longleftrightarrow>
        (bt_has (rg_local r) i \<or> (\<exists>e \<in> set (ct_entries c). ce_id e = i))
        \<and> {j. (serves (bt_values (disable_candidates ps c r i)))\<^sup>*\<^sup>* i j} = {i})"
proof -
  let ?s = "dependent_closure (bt_values (disable_candidates ps c r i)) i"
  have none: "filter (\<lambda>j. j \<noteq> i) (bt_keys ?s) = [] \<longleftrightarrow> (\<forall>j \<in> members ?s. j = i)"
    by (auto simp: filter_empty_conv)
  have "validate_disable ps c r i = Ok () \<longleftrightarrow>
      ((\<exists>e \<in> set (ct_entries c). ce_id e = i) \<or> bt_get (rg_local r) i \<noteq> None)
      \<and> (\<forall>j \<in> members ?s. j = i)"
    unfolding validate_disable_def disable_closure_def Let_def none [symmetric]
    by (auto simp: list_ex_iff)
  then show ?thesis by (auto simp: members_closure)
qed

section \<open>Generations\<close>

lemma next_generation_ok:
  assumes "next_generation m i = (Ok g, m')"
  shows "m' = bt_insert i g m" "g \<le> MAX_GENERATION" "1 \<le> g"
    "unat g = Suc (case bt_get m i of Some old \<Rightarrow> unat old | None \<Rightarrow> 0)"
proof -
  let ?old = "case bt_get m i of Some g \<Rightarrow> g | None \<Rightarrow> 0"
  from assms have "checked_succ ?old = Some g" "g \<le> MAX_GENERATION" "m' = bt_insert i g m"
    by (auto simp: next_generation_def split: option.splits if_splits)
  moreover from this(1) have "unat g = Suc (unat ?old)" by (rule checked_succ_SomeD)
  moreover from this have "1 \<le> g" by (simp add: word_le_nat_alt)
  ultimately show "m' = bt_insert i g m" "g \<le> MAX_GENERATION" "1 \<le> g"
    "unat g = Suc (case bt_get m i of Some old \<Rightarrow> unat old | None \<Rightarrow> 0)"
    by (simp_all split: option.splits)
qed

lemma next_generation_err:
  "next_generation m i = (Err e, m') \<Longrightarrow> m' = m \<and> e = GenerationExhausted i"
  "next_generation m i \<noteq> (Panic, m')"
  by (auto simp: next_generation_def split: option.splits if_splits)

section \<open>Reloaded plugins\<close>

definition catalog_ok :: "plugin_catalog \<Rightarrow> bool" where
  "catalog_ok c \<longleftrightarrow>
     (\<forall>e \<in> set (ct_entries c). \<forall>p. ce_plugin e = Inr p \<longrightarrow> plugin_id p = ce_id e \<and> plugin_ok p)"

definition no_reserved :: "plugin_registry \<Rightarrow> bool" where
  "no_reserved r \<longleftrightarrow> (\<forall>i. bt_get (rg_local r) i \<noteq> None \<longrightarrow> \<not> reserved_plugin_id i)"

lemma load_registered_ok:
  assumes "load_registered v i l g = Ok p"
  shows "plugin_id p = i" "lp_generation p = g" "lp_authorization p = Some l"
    and "manifest_validate (ld_tables (lv_loader v)) (lp_manifest p) = Ok ()"
    and "set (pm_permissions (lp_manifest p)) \<subseteq> set (lr_grants l)"
proof -
  from assms have load: "load_local_plugin (lv_loader v) (lv_fs v i) i l g = Ok p"
    by (auto simp: load_registered_def validate_renderer_requirements_def and_then_ok
        split: if_splits option.splits)
  from load_local_plugin_ok [OF this] show "plugin_id p = i" "lp_generation p = g"
    "lp_authorization p = Some l" "manifest_validate (ld_tables (lv_loader v)) (lp_manifest p) = Ok ()"
    "set (pm_permissions (lp_manifest p)) \<subseteq> set (lr_grants l)"
    by simp_all
qed

lemma registered_plugin_ok:
  assumes "load_registered v i l g = Ok p" "\<not> reserved_plugin_id i"
  shows "plugin_ok p"
proof -
  note l = load_registered_ok [OF assms(1)]
  from manifest_validate_okD(1,3) [OF l(4)] l(1) assms(2) show ?thesis
    by (auto simp: plugin_ok_def reserved_plugin_id_def BUILTIN_HOST_PROVIDER_ID_def)
qed

text \<open>
  What a reload takes: the bundled package as the catalog holds it or, when none is bundled, what
  loading the registered directory gives now; with the new generation in either case.
\<close>

definition loaded_now :: "load_env \<Rightarrow> plugin_catalog \<Rightarrow> plugin_registry \<Rightarrow> loaded_plugin \<Rightarrow> bool" where
  "loaded_now v c r p \<longleftrightarrow>
     (\<exists>e q. e \<in> set (ct_entries c) \<and> ce_id e = plugin_id p \<and> ce_source e = Bundled \<and> ce_plugin e = Inr q
        \<and> p = q\<lparr>lp_generation := lp_generation p\<rparr>)
     \<or> (\<forall>e \<in> set (ct_entries c). ce_id e = plugin_id p \<longrightarrow> ce_source e \<noteq> Bundled)
       \<and> lv_managed v r (plugin_id p) = Ok ()
       \<and> (\<exists>l. bt_get (rg_local r) (plugin_id p) = Some l
            \<and> load_registered v (plugin_id p) l (lp_generation p) = Ok p)"

lemma reload_entry_ok:
  assumes "reload_entry v c i r g = Ok e" "catalog_ok c" "no_reserved r"
  obtains p where "ce_id e = i" "ce_plugin e = Inr p" "plugin_id p = i" "plugin_ok p" "lp_generation p = g"
    "loaded_now v c r p"
proof (cases "find (\<lambda>e. ce_id e = i \<and> ce_source e = Bundled) (ct_entries c)")
  case (Some b)
  then have b: "b \<in> set (ct_entries c)" "ce_id b = i" "ce_source b = Bundled" by (auto simp: find_Some_iff)
  from assms(1) Some obtain q where q: "ce_plugin b = Inr q"
    "e = \<lparr>ce_id = i, ce_source = Bundled, ce_plugin = Inr (q\<lparr>lp_generation := g\<rparr>)\<rparr>"
    by (cases "ce_plugin b") (auto simp: reload_entry_def)
  with assms(2) b have ok: "plugin_id q = i" "plugin_ok q" by (auto simp: catalog_ok_def)
  have "loaded_now v c r (q\<lparr>lp_generation := g\<rparr>)"
    unfolding loaded_now_def using b q(1) ok(1) by (intro disjI1 exI [of _ b] exI [of _ q]) simp
  with ok q show thesis by (intro that [of "q\<lparr>lp_generation := g\<rparr>"]) (simp_all add: plugin_ok_def)
next
  case None
  then obtain l where l: "bt_get (rg_local r) i = Some l"
    using assms(1) by (cases "bt_get (rg_local r) i") (simp_all add: reload_entry_def)
  have managed: "lv_managed v r i = Ok ()"
    using assms(1) None l by (cases "lv_managed v r i") (simp_all add: reload_entry_def)
  with assms(1) None l obtain p where p: "load_registered v i l g = Ok p" "ce_id e = i" "ce_plugin e = Inr p"
    by (cases "load_registered v i l g") (auto simp: reload_entry_def)
  have "\<not> reserved_plugin_id i" using assms(3) l unfolding no_reserved_def by simp
  moreover have "loaded_now v c r p"
    using None l managed p(1) load_registered_ok(1,2) [OF p(1)] by (auto simp: loaded_now_def find_None_iff)
  ultimately show thesis using p load_registered_ok(1,2) registered_plugin_ok that by blast
qed

definition fresh_in :: "(string, u64) btree \<Rightarrow> (string, u64) btree \<Rightarrow> loaded_plugin \<Rightarrow> bool" where
  "fresh_in old m p \<longleftrightarrow>
     bt_get m (plugin_id p) = Some (lp_generation p) \<and> lp_generation p \<le> MAX_GENERATION
     \<and> unat (lp_generation p)
         = Suc (case bt_get old (plugin_id p) of Some g \<Rightarrow> unat g | None \<Rightarrow> 0)"

lemma prepare_entries_ok:
  assumes "prepare_entries v c r is m = Ok (es, m')" "distinct is" "catalog_ok c" "no_reserved r"
  shows "\<exists>ps. reloaded_plugins es = Some ps \<and> map plugin_id ps = is \<and> map ce_id es = is
    \<and> (\<forall>p \<in> set ps. plugin_ok p \<and> fresh_in m m' p \<and> loaded_now v c r p)
    \<and> (\<forall>j. j \<notin> set is \<longrightarrow> bt_get m' j = bt_get m j)"
  using assms(1,2)
proof (induction "is" arbitrary: m es)
  case (Cons i "is")
  obtain res m1 where n: "next_generation m i = (res, m1)" by (cases "next_generation m i")
  from Cons.prems(1) n obtain g e es' where g: "next_generation m i = (Ok g, m1)"
    and e: "reload_entry v c i r g = Ok e" and rest: "prepare_entries v c r is m1 = Ok (es', m')"
    and es: "es = e # es'"
    by (auto simp: and_then_ok map_err_ok)
  note ng = next_generation_ok [OF g]
  from e assms(3,4) obtain p where p: "ce_id e = i" "ce_plugin e = Inr p" "plugin_id p = i"
    "plugin_ok p" "lp_generation p = g" "loaded_now v c r p"
    by (rule reload_entry_ok)
  from Cons.IH [OF rest] Cons.prems(2) obtain ps where
    ps: "reloaded_plugins es' = Some ps" "map plugin_id ps = is" "map ce_id es' = is"
      "\<forall>p \<in> set ps. plugin_ok p \<and> fresh_in m1 m' p \<and> loaded_now v c r p" "\<forall>j. j \<notin> set is \<longrightarrow> bt_get m' j = bt_get m1 j"
    by auto
  have i: "i \<notin> set is" using Cons.prems(2) by simp
  have "fresh_in m m' q" if "q \<in> set ps" for q
  proof -
    have "plugin_id q \<noteq> i" using i ps(2) that by (metis imageI set_map)
    with ps(4) that ng(1) show ?thesis by (simp add: fresh_in_def)
  qed
  moreover have "fresh_in m m' p" using ps(5) i p ng by (simp add: fresh_in_def)
  ultimately show ?case using ps p es ng(1) by auto
qed simp

section \<open>Plans\<close>

lemma order_plugins_ordered:
  assumes "plugins_ok ps" "order_plugins i ps = Ok qs"
  shows "mset qs = mset ps" "plugins_ok qs" "logically_ordered qs"
proof -
  note o = order_plugins_sound [OF assms]
  then show m: "mset qs = mset ps" and "logically_ordered qs" by blast+
  then have s: "set qs = set ps" by (metis set_mset_mset)
  have "mset (map plugin_id qs) = mset (map plugin_id ps)" using m by simp
  then have "distinct (map plugin_id qs)"
    using assms(1) unfolding plugins_ok_def by (metis mset_eq_imp_distinct_iff)
  with s assms(1) show "plugins_ok qs" by (simp add: plugins_ok_def)
qed

lemma prepare_okE:
  assumes "prepare rid v i reload current c r m = (Ok plan, m')"
  obtains entries reloaded where
    "reload \<longrightarrow> (\<exists>p \<in> set current. plugin_id p = i)"
    "members (ap_affected plan) = (if reload then {b. (serves current)\<^sup>*\<^sup>* i b} else {i})"
    "prepare_entries v c r (bt_keys (ap_affected plan)) m = Ok (entries, m')"
    "reloaded_plugins entries = Some reloaded"
    "order_plugins rid (filter (\<lambda>p. plugin_id p \<notin> members (ap_affected plan)) current @ reloaded)
       = Ok (ap_next plan)"
    "ap_previous plan = filter (\<lambda>p. plugin_id p \<in> members (ap_affected plan)) current"
    "ap_entries plan = entries"
proof -
  let ?a = "if reload then dependent_closure current i else bset_of [i]"
  have running: "\<not> (reload \<and> \<not> list_ex (\<lambda>p. plugin_id p = i) current)"
    using assms unfolding prepare_def by (cases "reload \<and> \<not> list_ex (\<lambda>p. plugin_id p = i) current") simp_all
  with assms obtain entries where e: "prepare_entries v c r (bt_keys ?a) m = Ok (entries, m')"
    by (cases "prepare_entries v c r (bt_keys ?a) m")
      (auto simp: prepare_def Let_def split: option.splits outcome.splits if_splits)
  obtain reloaded where l: "reloaded_plugins entries = Some reloaded"
    using assms running e
    by (cases "reloaded_plugins entries") (simp_all add: prepare_def Let_def split: if_splits)
  obtain after where n: "order_plugins rid
      (filter (\<lambda>p. \<not> bt_has ?a (plugin_id p)) current @ reloaded) = Ok after"
    using assms running e l
    by (cases "order_plugins rid (filter (\<lambda>p. \<not> bt_has ?a (plugin_id p)) current @ reloaded)")
      (simp_all add: prepare_def Let_def split: if_splits)
  have plan: "plan = \<lparr>ap_affected = ?a, ap_previous = filter (\<lambda>p. bt_has ?a (plugin_id p)) current,
      ap_next = after, ap_entries = entries\<rparr>"
    using assms running e l n by (simp add: prepare_def Let_def split: if_splits)
  show thesis
  proof (rule that)
    show "reload \<longrightarrow> (\<exists>p \<in> set current. plugin_id p = i)" using running by (auto simp: list_ex_iff)
    show "members (ap_affected plan) = (if reload then {b. (serves current)\<^sup>*\<^sup>* i b} else {i})"
      by (simp add: plan members_closure)
    show "order_plugins rid (filter (\<lambda>p. plugin_id p \<notin> members (ap_affected plan)) current @ reloaded)
       = Ok (ap_next plan)"
      using n by (simp add: plan has_members del: bt_has_iff)
    show "ap_previous plan = filter (\<lambda>p. plugin_id p \<in> members (ap_affected plan)) current"
      by (simp add: plan has_members del: bt_has_iff)
  qed (use e l in \<open>simp_all add: plan\<close>)
qed

lemma prepare_fails: "prepare rid v i reload current c r m = (res, m') \<Longrightarrow> \<not> is_ok res \<Longrightarrow> m' = m"
  by (auto simp: prepare_def Let_def split: if_splits outcome.splits option.splits)

text \<open>
  C16: an activation plan. Its next plugins are the running ones it does not affect, as they
  are, and one reloaded plugin for each affected id: the bundled package, or what loading the
  registered directory gives now. They stand in the logical order of their entries, that is, each
  package at its renderer entry or, without one, at its Host entry, in an order of all entries
  that has every provider before what requires it. Each reloaded plugin has the next
  generation of its id, which the map records and JavaScript can represent, and no other
  generation moves. A reload affects exactly the plugin and its dependents. A plan that fails
  consumes no generation.
\<close>

theorem activation_plan_sound:
  assumes "plugins_ok current" "catalog_ok c" "no_reserved r"
    and "prepare rid v i reload current c r m = (res, m')"
  shows "case res of
      Ok plan \<Rightarrow>
        members (ap_affected plan) = (if reload then {b. (serves current)\<^sup>*\<^sup>* i b} else {i})
        \<and> mset (ap_next plan) = mset (filter (\<lambda>p. plugin_id p \<notin> members (ap_affected plan)) current)
            + mset (replacements plan)
        \<and> set (map plugin_id (replacements plan)) = members (ap_affected plan)
        \<and> ap_previous plan = filter (\<lambda>p. plugin_id p \<in> members (ap_affected plan)) current
        \<and> plugins_ok (ap_next plan) \<and> logically_ordered (ap_next plan)
        \<and> (\<forall>p \<in> set (replacements plan). loaded_now v c r p \<and> fresh_in m m' p)
        \<and> (\<forall>j. j \<notin> members (ap_affected plan) \<longrightarrow> bt_get m' j = bt_get m j)
    | _ \<Rightarrow> m' = m"
proof (cases "is_ok res")
  case False
  with prepare_fails [OF assms(4)] show ?thesis by (cases res) simp_all
next
  case True
  then obtain plan where res: "res = Ok plan" by (cases res) simp_all
  from assms(4) [unfolded res] obtain entries reloaded where
    affected: "members (ap_affected plan) = (if reload then {b. (serves current)\<^sup>*\<^sup>* i b} else {i})"
    and e: "prepare_entries v c r (bt_keys (ap_affected plan)) m = Ok (entries, m')"
    and l: "reloaded_plugins entries = Some reloaded"
    and o: "order_plugins rid (filter (\<lambda>p. plugin_id p \<notin> members (ap_affected plan)) current @ reloaded)
       = Ok (ap_next plan)"
    and previous: "ap_previous plan = filter (\<lambda>p. plugin_id p \<in> members (ap_affected plan)) current"
    by (rule prepare_okE)
  let ?kept = "filter (\<lambda>p. plugin_id p \<notin> members (ap_affected plan)) current"
  from prepare_entries_ok [OF e _ assms(2,3)] keys_distinct l have
    ids: "map plugin_id reloaded = bt_keys (ap_affected plan)"
    and each: "\<forall>p \<in> set reloaded. plugin_ok p \<and> fresh_in m m' p \<and> loaded_now v c r p"
    and others: "\<forall>j. j \<notin> members (ap_affected plan) \<longrightarrow> bt_get m' j = bt_get m j"
    by auto
  have idset: "plugin_id ` set reloaded = members (ap_affected plan)"
    using arg_cong [OF ids, of set] by simp
  have "plugins_ok (?kept @ reloaded)"
    using assms(1) ids each idset keys_distinct
    by (auto simp: plugins_ok_def distinct_map_filter)
  note ordered = order_plugins_ordered [OF this o]
  have "mset (replacements plan) = filter_mset (\<lambda>p. plugin_id p \<in> members (ap_affected plan)) (mset (ap_next plan))"
    by (simp add: replacements_def has_members del: bt_has_iff)
  also have "\<dots> = mset (filter (\<lambda>p. plugin_id p \<in> members (ap_affected plan)) (?kept @ reloaded))"
    unfolding ordered(1) by simp
  also have "filter (\<lambda>p. plugin_id p \<in> members (ap_affected plan)) (?kept @ reloaded) = reloaded"
    using idset by (auto simp: filter_empty_conv filter_id_conv)
  finally have r: "mset (replacements plan) = mset reloaded" .
  then have "set (replacements plan) = set reloaded" by (metis set_mset_mset)
  then show ?thesis using res affected r ordered each others idset previous by simp
qed

end
