(* ===== verification/Catalog_Selection.thy ===== *)
theory Catalog_Selection
  imports Lifecycle_Plans
begin

text \<open>
  What the catalog selects for a start: the plugins of the enabled entries, each authorised by
  its own registration.
\<close>

lemma collect_plugins_ok: "collect_plugins es = Ok ps \<longleftrightarrow> map ce_plugin es = map Inr ps"
  by (induction es arbitrary: ps) (auto simp: and_then_ok split: sum.splits)

lemma local_entries_ok:
  "local_entries v r bundled ls = Some es \<Longrightarrow>
     map ce_id es = map fst ls
     \<and> (\<forall>e \<in> set es. \<exists>l. (ce_id e, l) \<in> set ls \<and> ce_source e = Local (lr_path l) (lr_grants l)
          \<and> (\<forall>p. ce_plugin e = Inr p \<longrightarrow>
               ce_id e \<notin> bundled \<and> ce_id e \<noteq> BUILTIN_HOST_PROVIDER_ID \<and> load_registered v (ce_id e) l 1 = Ok p))"
proof (induction ls arbitrary: es)
  case (Cons x ls)
  obtain i l where x: "x = (i, l)" by (cases x)
  from Cons.prems x obtain e es' where e: "local_entry v r bundled i l = Some e"
    and rest: "local_entries v r bundled ls = Some es'" and es: "es = e # es'"
    by (auto split: option.splits)
  from e have "ce_id e = i \<and> ce_source e = Local (lr_path l) (lr_grants l)
      \<and> (\<forall>p. ce_plugin e = Inr p \<longrightarrow>
           i \<notin> bundled \<and> i \<noteq> BUILTIN_HOST_PROVIDER_ID \<and> load_registered v i l 1 = Ok p)"
    by (auto simp: local_entry_def Let_def split: if_splits outcome.splits)
  with Cons.IH [OF rest] x es show ?case by fastforce
qed simp

lemma distinct_map_sort_key: "distinct (map f (sort_key f xs)) = distinct (map f xs)"
  by (rule mset_eq_imp_distinct_iff) simp

text \<open>
  The entries before they are sorted: those of the bundled plugins and those of the
  registrations.
\<close>

definition bundled_entry :: "loaded_plugin \<Rightarrow> catalog_entry" where
  "bundled_entry p = \<lparr>ce_id = plugin_id p, ce_source = Bundled, ce_plugin = Inr p\<rparr>"

lemma catalog_load_okE:
  assumes "catalog_load v (Ok bs) r = Ok c"
  obtains es where "ct_entries c = sort_key ce_id (map bundled_entry bs @ es)"
    "local_entries v r (plugin_id ` set bs) (bt_entries (rg_local r)) = Some es"
    "ct_suspensions c = bt_empty"
proof -
  have b: "ct_entries (from_bundled bs) = sort_key ce_id (map bundled_entry bs)"
    "ct_suspensions (from_bundled bs) = bt_empty"
    by (simp_all add: from_bundled_def bundled_entry_def [abs_def])
  have ids: "ce_id ` set (ct_entries (from_bundled bs)) = plugin_id ` set bs"
    by (simp add: b image_image bundled_entry_def)
  from assms obtain es where
    es: "local_entries v r (plugin_id ` set bs) (bt_entries (rg_local r)) = Some es"
      "c = (from_bundled bs)\<lparr>ct_entries := sort_key ce_id (ct_entries (from_bundled bs) @ es)\<rparr>"
    by (cases "local_entries v r (plugin_id ` set bs) (bt_entries (rg_local r))")
      (auto simp: catalog_load_def Let_def ids)
  have "sort_key ce_id (sort_key ce_id xs @ ys) = sort_key ce_id (xs @ ys)" for xs ys :: "catalog_entry list"
  proof (rule properties_for_sort_key)
    show "filter (\<lambda>x. ce_id k = ce_id x) (sort_key ce_id (xs @ ys))
        = filter (\<lambda>x. ce_id k = ce_id x) (sort_key ce_id xs @ ys)" for k
      using sort_key_stable [of ce_id "ce_id k" "xs @ ys"] sort_key_stable [of ce_id "ce_id k" xs]
      by (simp add: eq_commute [of "ce_id k"])
  qed simp_all
  then show thesis using es b by (intro that [OF _ es(1)]) simp_all
qed

text \<open>
  C33: the plugins of a start. A loaded catalog has an entry for every bundled plugin and every
  registration. When the enabled plugins are selected, they are the plugins of all enabled
  entries without a startup suspension, sorted by id, each once and each fit for the
  capability graph; each is either bundled or was loaded in its first generation under the
  registration it carries, which grants every permission it requests.
\<close>

theorem catalog_selection_sound:
  assumes bundled: "plugins_ok bs" and reserved: "no_reserved r"
    and load: "catalog_load v (Ok bs) r = Ok c" and select: "enabled_plugins c s = Ok ps"
  shows "catalog_ok c
    \<and> ce_id ` set (ct_entries c) = plugin_id ` set bs \<union> {i. bt_get (rg_local r) i \<noteq> None}
    \<and> map plugin_id ps = map ce_id (filter (\<lambda>e. is_enabled s (ce_id e)
         \<and> startup_suspension c (ce_id e) = None) (ct_entries c))
    \<and> sorted (map plugin_id ps) \<and> plugins_ok ps
    \<and> (\<forall>p \<in> set ps. p \<in> set bs
         \<or> (\<exists>l. bt_get (rg_local r) (plugin_id p) = Some l \<and> lp_authorization p = Some l
              \<and> lp_generation p = 1 \<and> set (pm_permissions (lp_manifest p)) \<subseteq> set (lr_grants l)))"
proof -
  from load obtain es where c: "ct_entries c = sort_key ce_id (map bundled_entry bs @ es)"
    and es: "local_entries v r (plugin_id ` set bs) (bt_entries (rg_local r)) = Some es"
    by (rule catalog_load_okE)
  from local_entries_ok [OF es] have ids: "map ce_id es = bt_keys (rg_local r)"
    and each: "\<forall>e \<in> set es. \<forall>p. ce_plugin e = Inr p \<longrightarrow> ce_id e \<notin> plugin_id ` set bs
        \<and> (\<exists>l. bt_get (rg_local r) (ce_id e) = Some l \<and> load_registered v (ce_id e) l 1 = Ok p)"
    by (fastforce simp: bt_keys_def in_entries)+
  have members: "set (ct_entries c) = bundled_entry ` set bs \<union> set es" by (simp add: c)
  have loaded: "plugin_id p = ce_id e \<and> plugin_ok p" if e: "e \<in> set (ct_entries c)" "ce_plugin e = Inr p" for e p
  proof (cases "e \<in> set es")
    case True
    with each e(2) obtain l where l: "bt_get (rg_local r) (ce_id e) = Some l"
      "load_registered v (ce_id e) l 1 = Ok p" by blast
    then have "\<not> reserved_plugin_id (ce_id e)" using reserved unfolding no_reserved_def by simp
    with l show ?thesis using load_registered_ok(1) registered_plugin_ok by blast
  next
    case False
    with e members bundled show ?thesis by (auto simp: bundled_entry_def plugins_ok_def)
  qed
  let ?sel = "\<lambda>e. is_enabled s (ce_id e) \<and> startup_suspension c (ce_id e) = None"
  have picked: "map ce_plugin (filter ?sel (ct_entries c)) = map Inr ps"
    using select by (simp add: enabled_plugins_def collect_plugins_ok startup_suspension_def bt_has_def)
  have all_loaded: "\<exists>p \<in> set ps. ce_plugin e = Inr p" if "e \<in> set (ct_entries c)" "?sel e" for e
  proof -
    have "ce_plugin e \<in> set (map Inr ps)" unfolding picked [symmetric] using that by simp
    then show ?thesis by auto
  qed
  have from_entry: "\<exists>e \<in> set (ct_entries c). ce_plugin e = Inr p" if "p \<in> set ps" for p
  proof -
    have "Inr p \<in> set (map ce_plugin (filter ?sel (ct_entries c)))" unfolding picked using that by simp
    then show ?thesis by auto
  qed
  let ?F = "filter ?sel (ct_entries c)"
  have "ps = map (\<lambda>e. projr (ce_plugin e)) ?F"
    using arg_cong [OF picked, of "map projr"] by (simp add: comp_def)
  moreover have "plugin_id (projr (ce_plugin e)) = ce_id e" if "e \<in> set ?F" for e
    using that all_loaded [of e] loaded [of e] by auto
  ultimately have names: "map plugin_id ps = map ce_id ?F" by simp
  have F: "?F = sort_key ce_id (filter ?sel (map bundled_entry bs @ es))" by (simp add: c filter_sort)
  have "plugin_id p \<noteq> ce_id e" if p: "p \<in> set bs" and e: "e \<in> set es" "?sel e" for p e
  proof -
    obtain q where "ce_plugin e = Inr q" using all_loaded [of e] e members by blast
    with each e(1) have "ce_id e \<notin> plugin_id ` set bs" by blast
    with p show ?thesis by (metis imageI)
  qed
  moreover have "distinct (map ce_id (map bundled_entry bs))" "distinct (map ce_id es)"
    using bundled by (simp_all add: ids plugins_ok_def bundled_entry_def [abs_def] comp_def)
  ultimately have "distinct (map ce_id (filter ?sel (map bundled_entry bs @ es)))"
    by (auto simp: distinct_map_filter bundled_entry_def)
  then have distinct: "distinct (map plugin_id ps)"
    unfolding names F distinct_map_sort_key .
  have "sorted (map plugin_id ps)" unfolding names F by simp
  moreover have "ce_id ` set (ct_entries c) = plugin_id ` set bs \<union> {i. bt_get (rg_local r) i \<noteq> None}"
    using arg_cong [OF ids, of set] by (auto simp: members bundled_entry_def image_Un image_image)
  moreover have "plugin_ok p" if "p \<in> set ps" for p
    using from_entry [OF that] loaded by blast
  moreover have "p \<in> set bs \<or> (\<exists>l. bt_get (rg_local r) (plugin_id p) = Some l \<and> lp_authorization p = Some l
      \<and> lp_generation p = 1 \<and> set (pm_permissions (lp_manifest p)) \<subseteq> set (lr_grants l))" if "p \<in> set ps" for p
  proof -
    from from_entry [OF that] obtain e where e: "e \<in> set (ct_entries c)" "ce_plugin e = Inr p" by blast
    show ?thesis
    proof (cases "e \<in> set es")
      case True
      with each e(2) obtain l where l: "bt_get (rg_local r) (ce_id e) = Some l"
        "load_registered v (ce_id e) l 1 = Ok p" by blast
      from load_registered_ok [OF l(2)] l(1) show ?thesis by auto
    next
      case False
      with e members show ?thesis by (auto simp: bundled_entry_def)
    qed
  qed
  moreover have "catalog_ok c" using loaded by (simp add: catalog_ok_def)
  ultimately show ?thesis using names distinct by (simp add: plugins_ok_def)
qed

end
