(* ===== verification/Lifecycle_Writes.thy ===== *)
theory Lifecycle_Writes
  imports Lifecycle Registry_Saving
begin

text \<open>
  The registry writes of the lifecycle: a candidate made from the expected snapshot, guarded by
  the trust records it was planned with, and saved before anything runs or stops.
\<close>

section \<open>Candidates\<close>

text \<open>
  The candidate shows the records of the expected snapshot, and has staged those of the ids in
  \<open>done\<close>.
\<close>

definition guarded :: "codec \<Rightarrow> string \<Rightarrow> plugin_registry \<Rightarrow> string set \<Rightarrow> plugin_registry \<Rightarrow> bool" where
  "guarded c path expected ids r \<longleftrightarrow>
     handle_inv c path r \<and> rg_document r = rg_document expected
     \<and> (\<forall>i. bt_get (rg_local r) i = bt_get (rg_local expected) i)
     \<and> (\<forall>i. bt_get (rg_managed r) i = bt_get (rg_managed expected) i)
     \<and> (\<forall>i \<in> ids. bt_get (rg_local expected) i \<noteq> None \<longrightarrow>
          bt_get (rg_pending_local r) i \<noteq> None \<and> bt_get (rg_pending_managed r) i \<noteq> None)"

lemma edit_step_ok: "edit_step x = Ok r \<longleftrightarrow> x = (Ok (), r)"
  by (cases x) (auto simp: edit_step_def and_then_ok map_err_ok)

lemma guard_keeps:
  assumes "guarded c path expected ids r" "guard c expected i r = Ok r'"
  shows "guarded c path expected (insert i ids) r'" "rg_pending r' = rg_pending r"
proof -
  have "guarded c path expected (insert i ids) r' \<and> rg_pending r' = rg_pending r"
  proof (cases "bt_get (rg_local expected) i")
    case None
    with assms show ?thesis by (simp add: guard_def guarded_def)
  next
    case (Some l)
    with assms(2) have reg: "register_local c i l r = (Ok (), r')"
      by (simp add: guard_def edit_step_ok)
    then have r': "r' = stage_managed i (bt_get (rg_managed r) i) (stage_local i (Some l) r)"
      by (cases rule: register_local_cases) simp_all
    have pending: "bt_get (rg_pending_local r') j \<noteq> None \<longleftrightarrow> j = i \<or> bt_get (rg_pending_local r) j \<noteq> None"
      "bt_get (rg_pending_managed r') j \<noteq> None \<longleftrightarrow> j = i \<or> bt_get (rg_pending_managed r) j \<noteq> None" for j
      unfolding r' by (simp_all add: stage_local_def stage_managed_def Let_def)
    have l: "bt_get (rg_local r) i = Some l" using assms(1) Some unfolding guarded_def by simp
    have view: "bt_get (rg_local r') j = bt_get (rg_local r) j"
      "bt_get (rg_managed r') j = bt_get (rg_managed r) j" for j
      unfolding r' using l by (simp_all add: local_map.view_stage managed_map.view_stage bt_get_set_opt)
    have "handle_inv c path r'" "rg_document r' = rg_document expected" "rg_pending r' = rg_pending r"
      using assms(1) unfolding r' guarded_def by (auto intro: inv_intros)
    then show ?thesis using assms(1) unfolding guarded_def view pending by blast
  qed
  then show "guarded c path expected (insert i ids) r'" "rg_pending r' = rg_pending r" by blast+
qed

lemma set_enabled_keeps:
  assumes "guarded c path expected ids r" "set_enabled i b r = (Ok (), r')"
  shows "guarded c path expected ids r'"
    and "rg_pending r' = bt_insert (canonical_plugin_id i) \<lparr>pf_enabled = b\<rparr> (rg_pending r)"
proof -
  have r': "r' = r\<lparr>rg_pending := bt_insert (canonical_plugin_id i) \<lparr>pf_enabled = b\<rparr> (rg_pending r)\<rparr>"
    using assms(2) by (simp add: set_enabled_def split: if_splits)
  then show "rg_pending r' = bt_insert (canonical_plugin_id i) \<lparr>pf_enabled = b\<rparr> (rg_pending r)" by simp
  show "guarded c path expected ids r'"
    using assms(1) set_enabled_inv [OF assms(2)] unfolding guarded_def r' by simp
qed

lemma guarded_start: "handle_inv c path expected \<Longrightarrow> guarded c path expected {} expected"
  by (simp add: guarded_def)

text \<open>The candidates of the two writes.\<close>

lemma stage_disabled_ok:
  assumes "stage_disabled c expected is r = Ok r'" "guarded c path expected ids r"
  shows "guarded c path expected (ids \<union> set is) r'"
    and "\<forall>i. bt_get (rg_pending r') i = (if i \<in> canonical_plugin_id ` set is
           then Some \<lparr>pf_enabled = False\<rparr> else bt_get (rg_pending r) i)"
proof -
  have "guarded c path expected (ids \<union> set is) r'
      \<and> (\<forall>i. bt_get (rg_pending r') i = (if i \<in> canonical_plugin_id ` set is
           then Some \<lparr>pf_enabled = False\<rparr> else bt_get (rg_pending r) i))"
    using assms
  proof (induction "is" arbitrary: r ids)
    case (Cons i "is")
    then obtain r1 r2 where r1: "guard c expected i r = Ok r1"
      and r2: "set_enabled i False r1 = (Ok (), r2)" and rest: "stage_disabled c expected is r2 = Ok r'"
      by (auto simp: and_then_ok edit_step_ok)
    note g = guard_keeps [OF Cons.prems(2) r1]
    note e = set_enabled_keeps [OF g(1) r2]
    from Cons.IH [OF rest e(1)] g(2) e(2) show ?case by (auto simp: image_iff)
  qed simp
  then show "guarded c path expected (ids \<union> set is) r'"
    "\<forall>i. bt_get (rg_pending r') i = (if i \<in> canonical_plugin_id ` set is
           then Some \<lparr>pf_enabled = False\<rparr> else bt_get (rg_pending r) i)" by blast+
qed

lemma stage_guards_ok:
  "stage_guards c expected is r = Ok r' \<Longrightarrow> guarded c path expected ids r \<Longrightarrow>
     guarded c path expected (ids \<union> set is) r' \<and> rg_pending r' = rg_pending r"
proof (induction "is" arbitrary: r ids)
  case (Cons i "is")
  then obtain r1 where r1: "guard c expected i r = Ok r1" and rest: "stage_guards c expected is r1 = Ok r'"
    by (auto simp: and_then_ok)
  note g = guard_keeps [OF Cons.prems(2) r1]
  from Cons.IH [OF rest g(1)] g(2) show ?case by auto
qed simp

section \<open>Saving a guarded candidate\<close>

text \<open>
  What the file says of an id agrees with what the operation was planned with, and the snapshot
  afterwards has the very records.
\<close>

definition trust_kept ::
    "plugin_registry \<Rightarrow> registry_document \<Rightarrow> plugin_registry \<Rightarrow> string \<Rightarrow> bool" where
  "trust_kept expected before r i \<longleftrightarrow>
     (bt_get (rg_local expected) i \<noteq> None \<longrightarrow>
        opt_eq registration_eq (bt_get (rd_local before) i) (bt_get (rd_local (rg_document expected)) i)
        \<and> opt_eq managed_eq (bt_get (rd_managed before) i) (bt_get (rd_managed (rg_document expected)) i)
        \<and> bt_get (rg_local r) i = bt_get (rg_local expected) i
        \<and> bt_get (rg_managed r) i = bt_get (rg_managed expected) i)"

lemma save_guarded:
  assumes "codec_ok c" "honest ev" "guarded c path expected ids r" "something_staged r"
    and "save c ev r w = (Ok (), r', w')"
  shows "registry_load c path (view_of quiet path w') = Ok r'
    \<and> (\<exists>before. document_read c path (view_of ev path w) = Ok before
         \<and> (\<forall>i \<in> ids. trust_kept expected before r' i)
         \<and> (\<forall>j. is_enabled r' j = (if bt_get (rg_pending r) (canonical_plugin_id j) \<noteq> None
              then is_enabled r j else is_enabled (snapshot path before) j)))"
proof -
  have inv: "handle_inv c path r" and path: "rg_path r = path"
    using assms(3) by (auto simp: guarded_def handle_inv_def)
  have load: "registry_load c path (view_of quiet path w') = Ok r'"
    using load_after_save [OF assms(1,2,5)] path by simp
  obtain before where b: "document_read c path (view_of ev path w) = Ok before"
    "managed_conflict r before = None" "local_conflict r before = None"
    "r' = snapshot path (merge_staged r before)"
    by (rule save_okE [OF assms(5)]) (use assms(4) path in auto)
  from save_enablement [OF inv assms(4,5)] b(1) have enabled: "\<forall>j. is_enabled r' j =
      (if bt_get (rg_pending r) (canonical_plugin_id j) \<noteq> None then is_enabled r j
       else is_enabled (snapshot path before) j)"
    by auto
  have "trust_kept expected before r' i" if "i \<in> ids" for i
    unfolding trust_kept_def
  proof
    assume known: "bt_get (rg_local expected) i \<noteq> None"
    with assms(3) that obtain e f where
      e: "bt_get (rg_pending_local r) i = Some e" and f: "bt_get (rg_pending_managed r) i = Some f"
      unfolding guarded_def by (metis not_None_eq)
    from inv e f have "ed_desired e = bt_get (rg_local r) i" "ed_desired f = bt_get (rg_managed r) i"
      "ed_expected e = bt_get (rd_local (rg_document r)) i"
      "ed_expected f = bt_get (rd_managed (rg_document r)) i"
      by (auto simp: handle_inv_def overlaid_def)
    with assms(3) have x: "ed_desired e = bt_get (rg_local expected) i"
      "ed_desired f = bt_get (rg_managed expected) i"
      "ed_expected e = bt_get (rd_local (rg_document expected)) i"
      "ed_expected f = bt_get (rd_managed (rg_document expected)) i"
      by (simp_all add: guarded_def)
    have "bt_get (rg_local r') i = ed_desired e" "bt_get (rg_managed r') i = ed_desired f"
      using e f by (simp_all add: b(4) snapshot_def merge_staged_def Let_def)
    moreover have "opt_eq registration_eq (bt_get (rd_local before) i) (ed_expected e)"
      "opt_eq managed_eq (bt_get (rd_managed before) i) (ed_expected f)"
      using b(2,3) e f by (simp_all add: managed_conflict_None local_conflict_None)
    ultimately show "opt_eq registration_eq (bt_get (rd_local before) i) (bt_get (rd_local (rg_document expected)) i)
        \<and> opt_eq managed_eq (bt_get (rd_managed before) i) (bt_get (rd_managed (rg_document expected)) i)
        \<and> bt_get (rg_local r') i = bt_get (rg_local expected) i
        \<and> bt_get (rg_managed r') i = bt_get (rg_managed expected) i"
      using x by simp
  qed
  with load b(1) enabled show ?thesis by blast
qed

lemma save_candidate_fails:
  assumes "save_candidate c ev staged w = (res, w')" "\<not> is_ok res"
    and "\<And>r. staged = Ok r \<Longrightarrow> rg_path r = path"
  shows "bt_get (dk_files w') path = bt_get (dk_files w) path"
proof (cases staged)
  case (Ok r)
  obtain x r' where s: "save c ev r w = (x, r', w')"
    using assms(1) Ok by (auto simp: save_candidate_def split: prod.splits)
  with assms(1,2) Ok have "x \<noteq> Ok ()" by (auto simp: save_candidate_def)
  with save_failE [OF s] assms(3) [OF Ok] lock_path_differs [of path] show ?thesis by metis
qed (use assms(1) in \<open>simp_all add: save_candidate_def\<close>)

lemma save_candidate_ok:
  "save_candidate c ev staged w = (Ok r', w') \<longleftrightarrow>
     (\<exists>r. staged = Ok r \<and> save c ev r w = (Ok (), r', w'))"
  by (cases staged) (auto simp: save_candidate_def and_then_ok map_err_ok split: prod.splits)

text \<open>
  C26: a plugin and its dependents are disabled durably before they stop. When the write
  succeeds, whoever loads the registry afterwards finds every affected plugin disabled, and
  each affected local plugin registered with exactly the trust records of the plan, which the
  file still had when it was written; no other plugin's preference changes. When it fails, the
  registry file is what it was.
\<close>

theorem disable_is_durable:
  assumes "codec_ok c" "honest ev" "handle_inv c path expected" "rg_pending expected = bt_empty"
    and "members affected \<noteq> {}" "persist_disabled_closure c ev expected affected w = (res, w')"
  shows "case res of
      Ok r \<Rightarrow> registry_load c path (view_of quiet path w') = Ok r
        \<and> (\<exists>before. document_read c path (view_of ev path w) = Ok before
             \<and> (\<forall>i \<in> members affected. \<not> is_enabled r i \<and> trust_kept expected before r i)
             \<and> (\<forall>j. canonical_plugin_id j \<notin> canonical_plugin_id ` members affected \<longrightarrow>
                  is_enabled r j = is_enabled (snapshot path before) j))
    | _ \<Rightarrow> bt_get (dk_files w') path = bt_get (dk_files w) path"
proof -
  have run: "save_candidate c ev (stage_disabled c expected (bt_keys affected) expected) w = (res, w')"
    using assms(6) by (simp add: persist_disabled_closure_def)
  note start = guarded_start [OF assms(3)]
  show ?thesis
  proof (cases res)
    case (Ok r)
    from run [unfolded Ok save_candidate_ok] obtain candidate where
      staged: "stage_disabled c expected (bt_keys affected) expected = Ok candidate"
      and saved: "save c ev candidate w = (Ok (), r, w')" by blast
    from stage_disabled_ok [OF staged start] assms(4) have
      g: "guarded c path expected (members affected) candidate" and
      pending: "\<forall>i. bt_get (rg_pending candidate) i = (if i \<in> canonical_plugin_id ` members affected
           then Some \<lparr>pf_enabled = False\<rparr> else None)"
      by simp_all
    obtain i where "i \<in> members affected" using assms(5) by blast
    with pending have "bt_get (rg_pending candidate) (canonical_plugin_id i) \<noteq> None" by simp
    then have staged': "something_staged candidate" by (auto simp: something_staged_def bt_len_zero)
    have "\<not> is_enabled candidate j" if "j \<in> members affected" for j
      using pending that by (simp add: is_enabled_def Let_def)
    then show ?thesis
      using save_guarded [OF assms(1,2) g staged' saved] pending Ok by fastforce
  next
    case (Err e)
    then show ?thesis
      using save_candidate_fails [OF run] stage_disabled_ok(1) [OF _ start]
      by (simp add: guarded_def handle_inv_def)
  next
    case Panic
    then show ?thesis
      using save_candidate_fails [OF run] stage_disabled_ok(1) [OF _ start]
      by (simp add: guarded_def handle_inv_def)
  qed
qed

end
