(* ===== verification/Lifecycle_Demo.thy ===== *)
theory Lifecycle_Demo
  imports Catalog_Selection Lifecycle_Writes Registry_Trust
begin

text \<open>
  A run of the lifecycle: two bundled packages, one of which requires what the other provides,
  and one local package.
\<close>

definition demo_feed :: capability_descriptor where
  "demo_feed = \<lparr>cd_name = CapabilityName ''dev.feed'', cd_api = ApiVersion 1, cd_scope = Target\<rparr>"

definition demo_base :: loaded_plugin where
  "demo_base =
     \<lparr>lp_authorization = None,
      lp_manifest = demo_manifest\<lparr>pm_id := ''dev.base'', pm_renderer := None, pm_provides := [demo_feed],
        pm_permissions := [HostProcess]\<rparr>,
      lp_source = None, lp_host = None, lp_generation = 1\<rparr>"

definition demo_view :: loaded_plugin where
  "demo_view =
     \<lparr>lp_authorization = None,
      lp_manifest = demo_manifest\<lparr>pm_id := ''dev.view'', pm_host := None, pm_requires := [demo_feed],
        pm_permissions := [UiDom]\<rparr>,
      lp_source = Some ''draw()'', lp_host = None, lp_generation = 1\<rparr>"

definition demo_env :: load_env where
  "demo_env = \<lparr>lv_loader = demo_loader, lv_fs = (\<lambda>_ _. demo_dir), lv_managed = (\<lambda>_ _. Ok ())\<rparr>"

definition demo_bundle :: plugin_catalog where
  "demo_bundle = from_bundled [demo_view, demo_base]"

lemma demo_plugins_ok: "plugins_ok [demo_view, demo_base]" "plugins_ok [demo_base, demo_view]"
  by (simp_all add: plugins_ok_def plugin_ok_def demo_view_def demo_base_def demo_manifest_def
      valid_plugin_id_def MAX_PLUGIN_ID_BYTES_def is_ascii_def byte_def ascii_lower_def ascii_digit_def
      BUILTIN_HOST_PROVIDER_ID_def)

lemma demo_logical_order: "order_plugins 1 [demo_view, demo_base] = Ok [demo_base, demo_view]"
  by code_simp

theorem lifecycle_order_sound_witness:
  "plugins_ok [demo_view, demo_base]
   \<and> order_plugins 1 [demo_view, demo_base] = Ok [demo_base, demo_view]
   \<and> logically_ordered [demo_base, demo_view]"
  using lifecycle_order_sound [OF demo_plugins_ok(1) demo_logical_order] demo_plugins_ok demo_logical_order
  by blast

text \<open>
  A package that needs a Host capability of a package with a renderer may stand before it: only the
  Host entry of the provider has to come first.
\<close>

definition demo_both :: loaded_plugin where
  "demo_both =
     \<lparr>lp_authorization = None,
      lp_manifest = demo_manifest\<lparr>pm_id := ''dev.zz'',
        pm_host := Some \<lparr>hm_entry = ''host.cjs'', hm_provides = [demo_feed], hm_requires = []\<rparr>,
        pm_permissions := [UiDom, HostProcess]\<rparr>,
      lp_source = None, lp_host = None, lp_generation = 1\<rparr>"

lemma combined_package_may_follow: "order_plugins 1 [demo_both, demo_view] = Ok [demo_view, demo_both]"
  by code_simp

theorem lifecycle_order_total_witness:
  "length [demo_base, demo_base] < 2 ^ 62 \<and> order_plugins 1 [demo_base, demo_base] \<noteq> Panic"
  using lifecycle_order_total [of "[demo_base, demo_base]" 1] by simp

definition demo_reload :: "activation_plan lifecycle_result \<times> (string, u64) btree" where
  "demo_reload = prepare 1 demo_env ''dev.base'' True [demo_base, demo_view] demo_bundle demo_start
     (bt_insert ''dev.view'' 4 bt_empty)"

lemma demo_reload_facts:
  "\<exists>plan m. demo_reload = (Ok plan, m) \<and> bt_get m ''dev.base'' = Some 1 \<and> bt_get m ''dev.view'' = Some 5"
proof -
  have "is_ok (fst demo_reload)" "bt_get (snd demo_reload) ''dev.base'' = Some 1"
    "bt_get (snd demo_reload) ''dev.view'' = Some 5"
    by code_simp+
  then show ?thesis by (metis is_ok_iff prod.collapse)
qed

lemma demo_bundle_ok: "catalog_ok demo_bundle"
  using demo_plugins_ok by (auto simp: demo_bundle_def from_bundled_def catalog_ok_def plugins_ok_def)

theorem activation_plan_sound_witness:
  "\<exists>plan m. demo_reload = (Ok plan, m) \<and> plugins_ok (ap_next plan)
     \<and> ''dev.view'' \<in> members (ap_affected plan)"
proof -
  obtain plan m where r: "demo_reload = (Ok plan, m)" "bt_get m ''dev.view'' = Some 5"
    using demo_reload_facts by blast
  have "no_reserved demo_start" by (simp add: no_reserved_def)
  note plan = activation_plan_sound [OF demo_plugins_ok(2) demo_bundle_ok this
      r(1) [unfolded demo_reload_def], unfolded outcome.case]
  have p: "plugins_ok (ap_next plan)" using plan by blast
  have "bt_get m ''dev.view'' \<noteq> bt_get (bt_insert ''dev.view'' 4 bt_empty) ''dev.view''" by (simp add: r(2))
  with plan have "''dev.view'' \<in> members (ap_affected plan)" by blast
  with r(1) p show ?thesis by blast
qed

definition demo_catalog :: plugin_catalog where
  "demo_catalog =
     \<lparr>ct_entries = [\<lparr>ce_id = ''dev.tool'', ce_source = Local ''/plugins/dev'' [HostFs, HostProcess],
          ce_plugin = Inr demo_loaded\<rparr>, bundled_entry demo_view],
      ct_suspensions = bt_empty\<rparr>"

lemma demo_catalog_load: "catalog_load demo_env (Ok [demo_view]) demo_saved = Ok demo_catalog"
proof -
  have id: "plugin_id demo_view = ''dev.view''" by (simp add: demo_view_def)
  have entries: "bt_entries (rg_local demo_saved) = [(''dev.tool'', demo_registration)]"
    by (simp add: demo_saved_def snapshot_def demo_doc1_def document_default_def bt_insert.rep_eq bt_empty.rep_eq)
  have "load_registered demo_env ''dev.tool'' demo_registration 1 = Ok demo_loaded"
    using demo_load
    by (simp add: load_registered_def demo_env_def validate_renderer_requirements_def demo_loaded_def
        demo_host_tool_def)
  then have "local_entry demo_env demo_saved {''dev.view''} ''dev.tool'' demo_registration
      = Some \<lparr>ce_id = ''dev.tool'', ce_source = Local ''/plugins/dev'' [HostFs, HostProcess],
          ce_plugin = Inr demo_loaded\<rparr>"
    by (simp add: local_entry_def demo_env_def BUILTIN_HOST_PROVIDER_ID_def demo_registration_def)
  moreover have "(''dev.tool'' :: string) \<le> ''dev.view''" "\<not> (''dev.view'' :: string) \<le> ''dev.tool''"
    by code_simp+
  ultimately show ?thesis
    by (simp add: catalog_load_def from_bundled_def entries id demo_catalog_def bundled_entry_def Let_def)
qed

theorem catalog_selection_sound_witness:
  "enabled_plugins demo_catalog demo_saved = Ok [demo_loaded, demo_view]
   \<and> plugins_ok [demo_loaded, demo_view]"
proof -
  have "is_enabled demo_saved i" for i
    by (simp add: is_enabled_def demo_saved_def snapshot_def demo_doc1_def document_default_def Let_def)
  then have e: "enabled_plugins demo_catalog demo_saved = Ok [demo_loaded, demo_view]"
    by (simp add: enabled_plugins_def demo_catalog_def bundled_entry_def)
  have b: "plugins_ok [demo_view]" using demo_plugins_ok(1) by (simp add: plugins_ok_def)
  have n: "no_reserved demo_saved"
    by (auto simp: no_reserved_def demo_saved_def snapshot_def demo_doc1_def document_default_def demo_tool_id)
  from catalog_selection_sound [OF b n demo_catalog_load e] e show ?thesis by blast
qed

theorem disable_is_durable_witness:
  "\<exists>w. persist_disabled_closure demo_codec quiet demo_start (bset_of [''dev.tool'']) demo_disk
       = (Ok (snapshot demo_path demo_doc3), w)
     \<and> registry_load demo_codec demo_path (view_of quiet demo_path w) = Ok (snapshot demo_path demo_doc3)
     \<and> \<not> is_enabled (snapshot demo_path demo_doc3) ''dev.tool''"
proof -
  obtain w where w: "save demo_codec quiet demo_disabled demo_disk = (Ok (), snapshot demo_path demo_doc3, w)"
    using demo_save_disabled by blast
  have keys: "bt_keys (bset_of [''dev.tool'']) = [''dev.tool'']" by code_simp
  have run: "persist_disabled_closure demo_codec quiet demo_start (bset_of [''dev.tool'']) demo_disk
      = (Ok (snapshot demo_path demo_doc3), w)"
    by (simp add: persist_disabled_closure_def keys guard_def edit_step_def demo_disable
        save_candidate_def w)
  have inv: "handle_inv demo_codec demo_path demo_start"
    unfolding demo_start_def by (rule handle_inv_snapshot [OF default_valid])
  have p: "rg_pending demo_start = bt_empty" by (simp add: demo_start_def snapshot_def)
  have "honest quiet" by (simp add: honest_def)
  from disable_is_durable [OF demo_codec_ok this inv p _ run] run show ?thesis by auto
qed

end
