(* ===== verification/Resource_Events.thy ===== *)
theory Resource_Events
  imports Json_Value Capabilities
begin

text \<open>
  The event logs Core keeps for plugins (\<open>src/src/core_resources.rs\<close> and
  \<open>core_resources/events.rs\<close>): owners, the helpers all resources share, topics with a bounded
  buffer of the latest events, and subscriptions with a cursor.

  Arguments of the model: the decoders of \<open>serde_json\<close> for the parameters of each method, the
  length of the serialized form of a value, the serialized form of a capability descriptor, and
  the tokens the operating system's random source gives in the order they are drawn. Numbers in
  replies are their decimal text.
\<close>

section \<open>Owners, errors and helpers\<close>

record resource_owner =
  ro_client_permissions :: bool
  ro_plugin_id :: string
  ro_source_identity :: string
  ro_generation :: u64
  ro_default_cwd :: string
  ro_executables :: "string list"
  ro_cwd_roots :: "string list"
  ro_env_keys :: "string list"

text \<open>\<open>OwnerKey\<close> with its derived lexicographic order.\<close>

type_synonym owner_key = "string \<times> string \<times> u64"

definition owner_key :: "resource_owner \<Rightarrow> owner_key" where
  "owner_key o' = (ro_plugin_id o', ro_source_identity o', ro_generation o')"

datatype service_error = ServiceError (se_code: string) (se_message: string)

type_synonym 'a service_result = "(service_error, 'a) outcome"

definition invalid :: "string \<Rightarrow> service_error" where
  "invalid m = ServiceError ''invalid_params'' m"

definition missing :: service_error where
  "missing = ServiceError ''resource_not_found'' ''resource is unavailable to this owner''"

definition limit_error :: "string \<Rightarrow> service_error" where
  "limit_error m = ServiceError ''resource_limit'' m"

definition unknown_method :: "string \<Rightarrow> service_error" where
  "unknown_method m = ServiceError ''method_not_found'' m"

definition bounded :: "nat option \<Rightarrow> nat \<Rightarrow> nat \<Rightarrow> nat service_result" where
  "bounded value standard most =
     (let v = (case value of Some v \<Rightarrow> v | None \<Rightarrow> standard)
      in if v = 0 \<or> most < v then Err (invalid (''limit must be in 1..='' @ show_nat most)) else Ok v)"

definition check_name :: "string \<Rightarrow> unit service_result" where
  "check_name s =
     (if s = [] \<or> 128 < length s \<or> has_control s
      then Err (invalid ''name/key must have 1..128 non-control bytes'') else Ok ())"

type_synonym 'a decoder = "json \<Rightarrow> (string, 'a) outcome"

record create_input =
  ci_name :: string
  ci_max_events :: "nat option"
  ci_max_bytes :: "nat option"
  ci_capability :: "capability_descriptor option"

record publish_input =
  pi_topic :: string
  pi_event :: json

record subscribe_input =
  si_topic :: string
  si_after :: "string option"
  si_capability :: "capability_descriptor option"

record event_read_input =
  ri_subscription :: string
  ri_after :: "string option"
  ri_limit :: "nat option"
  ri_wait_ms :: u64

record ack_input =
  ai_subscription :: string
  ai_cursor :: string

record event_env =
  ee_size :: "json \<Rightarrow> nat option"
  ee_capability :: "capability_descriptor \<Rightarrow> json"
  ee_token :: "nat \<Rightarrow> string option"
  ee_create :: "create_input decoder"
  ee_publish :: "publish_input decoder"
  ee_subscribe :: "subscribe_input decoder"
  ee_read :: "event_read_input decoder"
  ee_ack :: "ack_input decoder"
  ee_close :: "string decoder"

definition decode :: "'a decoder \<Rightarrow> json \<Rightarrow> 'a service_result" where
  "decode d v = map_err invalid (d v)"

definition check_bytes :: "(json \<Rightarrow> nat option) \<Rightarrow> json \<Rightarrow> nat \<Rightarrow> unit service_result" where
  "check_bytes len v most =
     (case len v of
        None \<Rightarrow> Err (invalid ''invalid JSON'')
      | Some n \<Rightarrow> if most < n then Err (limit_error ''JSON value exceeds its byte limit'') else Ok ())"

definition draw_token :: "(nat \<Rightarrow> string option) \<Rightarrow> nat \<Rightarrow> string service_result" where
  "draw_token tokens n =
     (case tokens n of
        None \<Rightarrow> Err (ServiceError ''random_failed'' ''cannot issue resource token'')
      | Some t \<Rightarrow> Ok t)"

definition json_nat :: "nat \<Rightarrow> json" where
  "json_nat n = JNumber (show_nat n)"

section \<open>Topics and subscriptions\<close>

record topic =
  tp_owner :: owner_key
  tp_name :: string
  tp_capability :: "capability_descriptor option"
  tp_sequence :: u64
  tp_events :: "(u64 \<times> json \<times> nat) list"
  tp_bytes :: nat
  tp_max_events :: nat
  tp_max_bytes :: nat
  tp_closed :: bool
  tp_provider_retired :: bool

record subscription =
  sb_owner :: owner_key
  sb_topic :: string
  sb_acknowledged :: u64
  sb_delivered :: u64

record event_store =
  es_topics :: "(string, topic) btree"
  es_subscriptions :: "(string, subscription) btree"

definition events_default :: event_store where
  "events_default = \<lparr>es_topics = bt_empty, es_subscriptions = bt_empty\<rparr>"

type_synonym events_result = "json service_result \<times> event_store"

definition cursor :: "string \<Rightarrow> u64 \<Rightarrow> string" where
  "cursor t n = t @ CHR '':'' # show_u64 n"

definition parse_cursor :: "string \<Rightarrow> string \<Rightarrow> u64 \<Rightarrow> u64 service_result" where
  "parse_cursor value t most =
     (case rsplit_once (CHR '':'') value of
        None \<Rightarrow> Err (invalid ''invalid event cursor'')
      | Some (epoch, digits) \<Rightarrow>
          (case parse_u64 digits of
             None \<Rightarrow> Err (invalid ''invalid cursor sequence'')
           | Some n \<Rightarrow>
               if epoch \<noteq> t \<or> most < n
               then Err (ServiceError ''cursor_invalid'' ''cursor belongs to another topic or future event'')
               else Ok n))"

definition parse_after :: "string option \<Rightarrow> string \<Rightarrow> u64 \<Rightarrow> u64 \<Rightarrow> u64 service_result" where
  "parse_after after t most standard =
     (case after of None \<Rightarrow> Ok standard | Some c \<Rightarrow> parse_cursor c t most)"

section \<open>Operations\<close>

definition opt_json :: "('a \<Rightarrow> json) \<Rightarrow> 'a option \<Rightarrow> json" where
  "opt_json f v = (case v of None \<Rightarrow> JNull | Some x \<Rightarrow> f x)"

definition create_topic :: "event_env \<Rightarrow> owner_key \<Rightarrow> create_input \<Rightarrow> event_store \<Rightarrow> events_result" where
  "create_topic v owner input s =
     (case check_name (ci_name input) of Err e \<Rightarrow> (Err e, s) | Panic \<Rightarrow> (Panic, s) | Ok _ \<Rightarrow>
      if (case ci_capability input of Some c \<Rightarrow> cd_scope c \<noteq> Runtime | None \<Rightarrow> False)
      then (Err (invalid ''shared event topic capabilities must use Runtime scope''), s)
      else if 128 \<le> bt_len (es_topics s) \<or> 16 \<le> bt_count (\<lambda>_ t. tp_owner t = owner) (es_topics s)
      then (Err (limit_error ''event topic limit reached''), s)
      else if bt_any (\<lambda>_ t. tp_owner t = owner \<and> tp_name t = ci_name input \<and> \<not> tp_closed t) (es_topics s)
      then (Err (ServiceError ''resource_conflict'' ''topic name already exists''), s)
      else case bounded (ci_max_events input) 256 1024 of Err e \<Rightarrow> (Err e, s) | Panic \<Rightarrow> (Panic, s) | Ok max_events \<Rightarrow>
      (case bounded (ci_max_bytes input) (1024 * 1024) (1024 * 1024) of Err e \<Rightarrow> (Err e, s) | Panic \<Rightarrow> (Panic, s) | Ok max_bytes \<Rightarrow>
      (case draw_token (ee_token v) 0 of Err e \<Rightarrow> (Err e, s) | Panic \<Rightarrow> (Panic, s) | Ok i \<Rightarrow>
       (Ok (JObject [(''topic'', JString i), (''cursor'', JString (cursor i 0)),
          (''scope'', JString (if ci_capability input = None then ''owner'' else ''capability'')),
          (''capability'', opt_json (ee_capability v) (ci_capability input)),
          (''maxEvents'', json_nat max_events), (''maxBytes'', json_nat max_bytes)]),
        s\<lparr>es_topics := bt_insert i
            \<lparr>tp_owner = owner, tp_name = ci_name input, tp_capability = ci_capability input,
             tp_sequence = 0, tp_events = [], tp_bytes = 0, tp_max_events = max_events,
             tp_max_bytes = max_bytes, tp_closed = False, tp_provider_retired = False\<rparr>
            (es_topics s)\<rparr>))))"

text \<open>
  The loop that makes room for an event of the given size: the events that stay and their total.
\<close>

fun evict ::
    "nat \<Rightarrow> nat \<Rightarrow> nat \<Rightarrow> (u64 \<times> json \<times> nat) list \<Rightarrow> nat \<Rightarrow> (u64 \<times> json \<times> nat) list \<times> nat" where
  "evict max_events max_bytes extra [] used = ([], used)"
| "evict max_events max_bytes extra ((n, x, k) # es) used =
     (if max_events \<le> length ((n, x, k) # es) \<or> max_bytes < used + extra
      then evict max_events max_bytes extra es (used - k)
      else ((n, x, k) # es, used))"

text \<open>An owned entry of a table.\<close>

definition owned_topic :: "event_store \<Rightarrow> owner_key \<Rightarrow> string \<Rightarrow> topic option" where
  "owned_topic s owner i =
     (case bt_get (es_topics s) i of
        None \<Rightarrow> None
      | Some t \<Rightarrow> if tp_owner t = owner then Some t else None)"

definition owned_subscription :: "event_store \<Rightarrow> owner_key \<Rightarrow> string \<Rightarrow> subscription option" where
  "owned_subscription s owner i =
     (case bt_get (es_subscriptions s) i of
        None \<Rightarrow> None
      | Some t \<Rightarrow> if sb_owner t = owner then Some t else None)"

definition publish :: "event_env \<Rightarrow> owner_key \<Rightarrow> publish_input \<Rightarrow> event_store \<Rightarrow> events_result" where
  "publish v owner input s =
     (case check_bytes (ee_size v) (pi_event input) (32 * 1024) of Err e \<Rightarrow> (Err e, s) | Panic \<Rightarrow> (Panic, s) | Ok _ \<Rightarrow>
      (case owned_topic s owner (pi_topic input) of
         None \<Rightarrow> (Err missing, s)
       | Some t \<Rightarrow>
           if tp_closed t then (Err (ServiceError ''resource_closed'' ''topic is closed''), s)
           else case ee_size v (pi_event input) of
             None \<Rightarrow> (Err (invalid ''invalid event''), s)
           | Some extra \<Rightarrow>
               if tp_max_bytes t < extra then (Err (limit_error ''event exceeds topic byte limit''), s)
               else case checked_succ (tp_sequence t) of
                 None \<Rightarrow> (Err (limit_error ''topic sequence exhausted''), s)
               | Some n \<Rightarrow>
                   (case evict (tp_max_events t) (tp_max_bytes t) extra (tp_events t) (tp_bytes t) of
                      (es, used) \<Rightarrow>
                        (Ok (JObject [(''cursor'', JString (cursor (pi_topic input) n))]),
                         s\<lparr>es_topics := bt_insert (pi_topic input)
                             (t\<lparr>tp_sequence := n, tp_events := es @ [(n, pi_event input, extra)],
                                tp_bytes := used + extra\<rparr>)
                             (es_topics s)\<rparr>))))"

definition subscribe ::
    "event_env \<Rightarrow> owner_key \<Rightarrow> owner_key \<Rightarrow> subscribe_input \<Rightarrow> event_store \<Rightarrow> events_result" where
  "subscribe v owner provider input s =
     (case owned_topic s provider (si_topic input) of
        None \<Rightarrow> (Err missing, s)
      | Some t \<Rightarrow>
          if tp_provider_retired t then (Err missing, s)
          else
            let matches = (si_capability input = tp_capability t)
            in if owner \<noteq> provider \<and> (\<not> matches \<or> tp_capability t = None)
                  \<or> owner = provider \<and> si_capability input \<noteq> None \<and> \<not> matches
               then (Err missing, s)
               else if 256 \<le> bt_len (es_subscriptions s)
                  \<or> 32 \<le> bt_count (\<lambda>_ b. sb_owner b = owner) (es_subscriptions s)
               then (Err (limit_error ''subscription limit reached''), s)
               else case parse_after (si_after input) (si_topic input) (tp_sequence t) (tp_sequence t) of
                 Err e \<Rightarrow> (Err e, s) | Panic \<Rightarrow> (Panic, s)
               | Ok after \<Rightarrow>
                   (case draw_token (ee_token v) 0 of Err e \<Rightarrow> (Err e, s) | Panic \<Rightarrow> (Panic, s) | Ok i \<Rightarrow>
                     (Ok (JObject [(''subscription'', JString i),
                        (''cursor'', JString (cursor (si_topic input) after)),
                        (''scope'', JString (if owner = provider then ''owner'' else ''capability''))]),
                      s\<lparr>es_subscriptions := bt_insert i
                          \<lparr>sb_owner = owner, sb_topic = si_topic input, sb_acknowledged = after,
                           sb_delivered = after\<rparr> (es_subscriptions s)\<rparr>)))"

text \<open>The loop of a read: the events delivered and the last sequence number.\<close>

fun deliver :: "(u64 \<times> json \<times> nat) list \<Rightarrow> nat \<Rightarrow> u64 \<Rightarrow> (u64 \<times> json) list \<times> u64" where
  "deliver [] used latest = ([], latest)"
| "deliver ((n, x, k) # es) used latest =
     (if 192 * 1024 < used + k + 128 then ([], latest)
      else case deliver es (used + k + 128) n of (out, latest) \<Rightarrow> ((n, x) # out, latest))"

definition event_json :: "string \<Rightarrow> u64 \<times> json \<Rightarrow> json" where
  "event_json t e = JObject [(''cursor'', JString (cursor t (fst e))), (''value'', snd e)]"

definition first_sequence :: "topic \<Rightarrow> u64" where
  "first_sequence t =
     (case tp_events t of [] \<Rightarrow> saturating_succ (tp_sequence t) | (n, _, _) # _ \<Rightarrow> n)"

definition read_events :: "owner_key \<Rightarrow> event_read_input \<Rightarrow> event_store \<Rightarrow> events_result" where
  "read_events owner input s =
     (if 1000 < ri_wait_ms input then (Err (invalid ''waitMs exceeds 1000''), s)
      else case bounded (ri_limit input) 32 64 of Err e \<Rightarrow> (Err e, s) | Panic \<Rightarrow> (Panic, s) | Ok limit \<Rightarrow>
      (case owned_subscription s owner (ri_subscription input) of
         None \<Rightarrow> (Err missing, s)
       | Some b \<Rightarrow>
           (case bt_get (es_topics s) (sb_topic b) of
              None \<Rightarrow> (Err missing, s)
            | Some t \<Rightarrow>
                (case parse_after (ri_after input) (sb_topic b) (tp_sequence t) (sb_acknowledged b) of
                   Err e \<Rightarrow> (Err e, s) | Panic \<Rightarrow> (Panic, s)
                 | Ok after \<Rightarrow>
                     let gap = saturating_succ after < first_sequence t in
                     (case deliver (take limit (filter (\<lambda>e. after < fst e) (tp_events t))) 0 after of
                        (out, latest) \<Rightarrow>
                          let latest = (if tp_provider_retired t then tp_sequence t else latest) in
                          (Ok (JObject [(''events'', JArray (map (event_json (sb_topic b)) out)),
                             (''cursor'', JString (cursor (sb_topic b) latest)), (''gap'', JBool gap),
                             (''terminal'',
                              if tp_provider_retired t then JString ''provider_retired''
                              else if tp_closed t \<and> tp_sequence t \<le> latest then JString ''topic_closed''
                              else JNull)]),
                           s\<lparr>es_subscriptions := bt_insert (ri_subscription input)
                               (b\<lparr>sb_delivered := max (sb_delivered b) latest\<rparr>)
                               (es_subscriptions s)\<rparr>))))))"

definition ack_events :: "owner_key \<Rightarrow> ack_input \<Rightarrow> event_store \<Rightarrow> events_result" where
  "ack_events owner input s =
     (case owned_subscription s owner (ai_subscription input) of
        None \<Rightarrow> (Err missing, s)
      | Some b \<Rightarrow>
          (case parse_cursor (ai_cursor input) (sb_topic b) (sb_delivered b) of
             Err e \<Rightarrow> (Err e, s) | Panic \<Rightarrow> (Panic, s)
           | Ok n \<Rightarrow>
               if n < sb_acknowledged b
               then (Err (invalid ''acknowledgement cannot move backwards''), s)
               else (Ok (JObject [(''acknowledged'', JBool True), (''cursor'', JString (ai_cursor input))]),
                     s\<lparr>es_subscriptions := bt_insert (ai_subscription input)
                         (b\<lparr>sb_acknowledged := n\<rparr>) (es_subscriptions s)\<rparr>)))"

text \<open>A closed topic stays as long as it has subscriptions.\<close>

definition subscribed :: "event_store \<Rightarrow> string \<Rightarrow> bool" where
  "subscribed s i = bt_any (\<lambda>_ b. sb_topic b = i) (es_subscriptions s)"

definition drop_closed :: "event_store \<Rightarrow> event_store" where
  "drop_closed s =
     s\<lparr>es_topics := bt_retain (\<lambda>i t. \<not> tp_closed t \<or> subscribed s i) (es_topics s)\<rparr>"

definition close_events :: "owner_key \<Rightarrow> string \<Rightarrow> event_store \<Rightarrow> events_result" where
  "close_events owner i s =
     (let closed = (\<lambda>s. (Ok (JObject [(''closed'', JBool True)]), drop_closed s)) in
      if owned_subscription s owner i \<noteq> None
      then closed (s\<lparr>es_subscriptions := bt_remove i (es_subscriptions s)\<rparr>)
      else case owned_topic s owner i of
        None \<Rightarrow> (Err missing, s)
      | Some t \<Rightarrow>
          let s = s\<lparr>es_topics := bt_insert i (t\<lparr>tp_closed := True\<rparr>) (es_topics s)\<rparr>
          in closed (if subscribed s i then s else s\<lparr>es_topics := bt_remove i (es_topics s)\<rparr>))"

definition with_input ::
    "'a decoder \<Rightarrow> json \<Rightarrow> 's \<Rightarrow> ('a \<Rightarrow> json service_result \<times> 's) \<Rightarrow> json service_result \<times> 's" where
  "with_input d params s f =
     (case decode d params of Ok x \<Rightarrow> f x | Err e \<Rightarrow> (Err e, s) | Panic \<Rightarrow> (Panic, s))"

lemma with_input_cases:
  assumes "with_input d params s f = (r, s')"
  obtains "\<not> is_ok r" "s' = s" | x where "d params = Ok x" "f x = (r, s')"
  using assms by (cases "d params") (auto simp: with_input_def decode_def)

definition events_invoke_for ::
    "event_env \<Rightarrow> owner_key \<Rightarrow> owner_key \<Rightarrow> string \<Rightarrow> json \<Rightarrow> event_store \<Rightarrow> events_result" where
  "events_invoke_for v owner provider method params s =
     (if method = ''events.createTopic''
      then with_input (ee_create v) params s (\<lambda>x. create_topic v owner x s)
      else if method = ''events.publish''
      then with_input (ee_publish v) params s (\<lambda>x. publish v owner x s)
      else if method = ''events.subscribe''
      then with_input (ee_subscribe v) params s (\<lambda>x. subscribe v owner provider x s)
      else if method = ''events.read''
      then with_input (ee_read v) params s (\<lambda>x. read_events owner x s)
      else if method = ''events.ack''
      then with_input (ee_ack v) params s (\<lambda>x. ack_events owner x s)
      else if method = ''events.close''
      then with_input (ee_close v) params s (\<lambda>x. close_events owner x s)
      else (Err (unknown_method ''unknown events method''), s))"

definition events_invoke ::
    "event_env \<Rightarrow> owner_key \<Rightarrow> string \<Rightarrow> json \<Rightarrow> event_store \<Rightarrow> events_result" where
  "events_invoke v owner method params s = events_invoke_for v owner owner method params s"

definition events_retire :: "owner_key \<Rightarrow> event_store \<Rightarrow> event_store" where
  "events_retire owner s =
     drop_closed
       (s\<lparr>es_subscriptions := bt_retain (\<lambda>_ b. sb_owner b \<noteq> owner) (es_subscriptions s),
          es_topics := bt_map (\<lambda>_ t. if tp_owner t = owner
              then t\<lparr>tp_closed := True, tp_provider_retired := True, tp_events := [], tp_bytes := 0\<rparr>
              else t) (es_topics s)\<rparr>)"

definition events_list :: "event_env \<Rightarrow> owner_key \<Rightarrow> event_store \<Rightarrow> json list" where
  "events_list v owner s =
     map (\<lambda>(i, t). JObject [(''id'', JString i), (''kind'', JString ''eventTopic''),
            (''name'', JString (tp_name t)), (''capability'', opt_json (ee_capability v) (tp_capability t)),
            (''closed'', JBool (tp_closed t)), (''bufferedEvents'', json_nat (length (tp_events t))),
            (''bufferedBytes'', json_nat (tp_bytes t))])
       (filter (\<lambda>(_, t). tp_owner t = owner) (bt_entries (es_topics s)))
     @ map (\<lambda>(i, _). JObject [(''id'', JString i), (''kind'', JString ''eventSubscription'')])
         (filter (\<lambda>(_, b). sb_owner b = owner) (bt_entries (es_subscriptions s)))"

end
