(* ===== verification/Event_Log.thy ===== *)
theory Event_Log
  imports Resource_Events
begin

text \<open>
  The event logs against their specification: a topic is the list of everything published on
  it, of which the buffer holds the latest part; a read continues from a position in this list.
\<close>

section \<open>The buffer of a topic\<close>

definition sizes :: "(u64 \<times> json \<times> nat) list \<Rightarrow> nat list" where
  "sizes es = map (\<lambda>(_, _, k). k) es"

definition numbered :: "(u64 \<times> json \<times> nat) list \<Rightarrow> (nat \<times> json) list" where
  "numbered es = map (\<lambda>(n, x, _). (unat n, x)) es"

definition topic_ok :: "topic \<Rightarrow> json list \<Rightarrow> bool" where
  "topic_ok t log \<longleftrightarrow>
     unat (tp_sequence t) = length log
     \<and> length (tp_events t) \<le> length log
     \<and> numbered (tp_events t) = drop (length log - length (tp_events t)) (enumerate 1 log)
     \<and> length (tp_events t) \<le> tp_max_events t \<and> 1 \<le> tp_max_events t \<and> tp_max_events t \<le> 1024
     \<and> tp_bytes t = sum_list (sizes (tp_events t)) \<and> tp_bytes t \<le> tp_max_bytes t
     \<and> tp_max_bytes t \<le> 1048576 \<and> (\<forall>k \<in> set (sizes (tp_events t)). k \<le> 32768)
     \<and> (tp_provider_retired t \<longrightarrow> tp_closed t \<and> tp_events t = [])
     \<and> (\<not> tp_provider_retired t \<and> log \<noteq> [] \<longrightarrow> tp_events t \<noteq> [])"

lemma evict_spec:
  assumes "evict m b x es used = (es', used')" "used = sum_list (sizes es)"
  shows "\<exists>k. es' = drop k es \<and> k \<le> length es \<and> used' = sum_list (sizes es')
    \<and> (es' = [] \<or> length es' < m \<and> used' + x \<le> b)"
  using assms
proof (induction m b x es used rule: evict.induct)
  case (1 m b x used)
  then show ?case by (simp add: sizes_def)
next
  case (2 m b x n v k es used)
  show ?case
  proof (cases "m \<le> length ((n, v, k) # es) \<or> b < used + x")
    case True
    then have "evict m b x es (used - k) = (es', used')" "used - k = sum_list (sizes es)"
      using 2(2,3) by (simp_all add: sizes_def)
    from 2(1) [OF True this] obtain j where j: "es' = drop j es" "j \<le> length es"
      "used' = sum_list (sizes es')" "es' = [] \<or> length es' < m \<and> used' + x \<le> b" by blast
    then show ?thesis by (intro exI [of _ "Suc j"]) simp
  next
    case False
    with 2(2,3) show ?thesis by (intro exI [of _ 0]) auto
  qed
qed

lemma enumerate_snoc: "enumerate n (xs @ [x]) = enumerate n xs @ [(n + length xs, x)]"
  by (simp add: enumerate_append_eq)

lemma topic_published:
  assumes "topic_ok t log" "evict (tp_max_events t) (tp_max_bytes t) k (tp_events t) (tp_bytes t) = (es, used)"
    and "k \<le> tp_max_bytes t" "k \<le> 32768" "checked_succ (tp_sequence t) = Some n" "\<not> tp_closed t"
  shows "topic_ok (t\<lparr>tp_sequence := n, tp_events := es @ [(n, x, k)], tp_bytes := used + k\<rparr>) (log @ [x])"
proof -
  from assms(1) have t: "unat (tp_sequence t) = length log" "length (tp_events t) \<le> length log"
    "numbered (tp_events t) = drop (length log - length (tp_events t)) (enumerate 1 log)"
    "1 \<le> tp_max_events t" "tp_max_events t \<le> 1024" "tp_bytes t = sum_list (sizes (tp_events t))"
    "tp_max_bytes t \<le> 1048576" "\<forall>k \<in> set (sizes (tp_events t)). k \<le> 32768" "\<not> tp_provider_retired t"
    using assms(6) by (auto simp: topic_ok_def)
  from evict_spec [OF assms(2) t(6)] obtain j where
    j: "es = drop j (tp_events t)" "j \<le> length (tp_events t)" "used = sum_list (sizes es)"
      "es = [] \<or> length es < tp_max_events t \<and> used + k \<le> tp_max_bytes t" by blast
  have room: "length es < tp_max_events t" "used + k \<le> tp_max_bytes t"
    using j(3,4) t(4) assms(3) by (auto simp: sizes_def)
  have n: "unat n = Suc (length log)" using checked_succ_SomeD(3) [OF assms(5)] t(1) by simp
  have "numbered es = drop j (numbered (tp_events t))" by (simp add: j(1) numbered_def drop_map)
  also have "\<dots> = drop (length log - length es) (enumerate 1 log)"
    using j(1,2) t(2) by (simp add: t(3) add.commute)
  finally have "numbered (es @ [(n, x, k)]) = drop (length log - length es) (enumerate 1 (log @ [x]))"
    using n by (simp add: numbered_def enumerate_snoc)
  moreover have "length es \<le> length log" using j(1) t(2) by simp
  moreover have "\<forall>i \<in> set (sizes es). i \<le> 32768"
    using t(8) by (auto simp: j(1) sizes_def dest: in_set_dropD)
  ultimately show ?thesis
    using room n t(4,5,7,9) assms(4) j(3) by (auto simp: topic_ok_def sizes_def)
qed

section \<open>Reading\<close>

lemma deliver_spec:
  "deliver es used latest = (out, latest') \<Longrightarrow>
     \<exists>m \<le> length es. out = map (\<lambda>(n, x, _). (n, x)) (take m es)
       \<and> latest' = (if m = 0 then latest else fst (es ! (m - 1)))
       \<and> (es \<noteq> [] \<and> used + snd (snd (hd es)) + 128 \<le> 192 * 1024 \<longrightarrow> m \<noteq> 0)"
proof (induction es used latest arbitrary: out rule: deliver.induct)
  case (2 n x k es used latest)
  show ?case
  proof (cases "192 * 1024 < used + k + 128")
    case True
    with 2(2) show ?thesis by (intro exI [of _ 0]) simp
  next
    case False
    obtain rest where r: "deliver es (used + k + 128) n = (rest, latest')" "out = (n, x) # rest"
      using 2(2) False by (auto split: prod.splits)
    from 2(1) [OF False r(1)] obtain m where m: "m \<le> length es"
      "rest = map (\<lambda>(n, x, _). (n, x)) (take m es)" "latest' = (if m = 0 then n else fst (es ! (m - 1)))"
      by blast
    then show ?thesis using r(2) by (intro exI [of _ "Suc m"]) (auto simp: nth_Cons')
  qed
qed simp

text \<open>What a read takes from the buffer, in terms of the list of all published events.\<close>

lemma numbered_filter:
  assumes "numbered es = drop d (enumerate 1 log)" "d + length es = length log"
  shows "filter (\<lambda>e. a < fst e) es = drop (unat a - d) es"
proof -
  have n: "unat (fst (es ! i)) = Suc (d + i)" if "i < length es" for i
  proof -
    have "numbered es ! i = enumerate 1 log ! (d + i)" using assms that by simp
    then have "fst (numbered es ! i) = Suc (d + i)" using assms(2) that by (simp add: nth_enumerate_eq)
    with that show ?thesis by (simp add: numbered_def split: prod.splits)
  qed
  have "unat (fst e) \<le> unat a" if "e \<in> set (take (unat a - d) es)" for e
  proof -
    from that obtain i where "i < length es" "i < unat a - d" "e = es ! i"
      by (auto simp: in_set_conv_nth)
    with n [of i] show ?thesis by simp
  qed
  then have below: "filter (\<lambda>e. a < fst e) (take (unat a - d) es) = []"
    by (force simp: filter_empty_conv word_less_nat_alt)
  have "unat a < unat (fst e)" if "e \<in> set (drop (unat a - d) es)" for e
  proof -
    from that obtain i where "i < length es - (unat a - d)" "e = es ! (unat a - d + i)"
      by (auto simp: in_set_conv_nth)
    with n [of "unat a - d + i"] show ?thesis by simp
  qed
  then have above: "filter (\<lambda>e. a < fst e) (drop (unat a - d) es) = drop (unat a - d) es"
    by (simp add: filter_id_conv word_less_nat_alt)
  have "filter (\<lambda>e. a < fst e) es
      = filter (\<lambda>e. a < fst e) (take (unat a - d) es @ drop (unat a - d) es)" by simp
  then show ?thesis unfolding filter_append below above by simp
qed

end
