(* ===== verification/Event_Runs.thy ===== *)
theory Event_Runs
  imports Event_Log Transitions
begin

text \<open>
  The event store over time: the invariant that ties every topic to the list of everything
  published on it, its preservation by every operation, and the runs it holds in.
\<close>

section \<open>The invariant\<close>

type_synonym event_logs = "string \<Rightarrow> json list"

definition topics_ok :: "event_store \<Rightarrow> event_logs \<Rightarrow> bool" where
  "topics_ok s logs \<longleftrightarrow>
     (\<forall>i t. bt_get (es_topics s) i = Some t \<longrightarrow>
        topic_ok t (logs i) \<and> (tp_closed t \<longrightarrow> subscribed s i))"

definition subscriptions_ok :: "event_store \<Rightarrow> bool" where
  "subscriptions_ok s \<longleftrightarrow>
     (\<forall>i b. bt_get (es_subscriptions s) i = Some b \<longrightarrow>
        (\<exists>t. bt_get (es_topics s) (sb_topic b) = Some t
          \<and> sb_acknowledged b \<le> sb_delivered b \<and> sb_delivered b \<le> tp_sequence t))"

definition event_limits :: "event_store \<Rightarrow> bool" where
  "event_limits s \<longleftrightarrow>
     bt_len (es_topics s) \<le> 128 \<and> bt_len (es_subscriptions s) \<le> 256
     \<and> (\<forall>owner. bt_count (\<lambda>_ t. tp_owner t = owner) (es_topics s) \<le> 16
          \<and> bt_count (\<lambda>_ b. sb_owner b = owner) (es_subscriptions s) \<le> 32)"

definition event_inv :: "event_store \<times> event_logs \<Rightarrow> bool" where
  "event_inv w \<longleftrightarrow> topics_ok (fst w) (snd w) \<and> subscriptions_ok (fst w) \<and> event_limits (fst w)"

lemma event_inv_counts:
  assumes "event_inv (s, logs)"
  shows "bt_count (\<lambda>_ t. tp_owner t = o') (es_topics s) \<le> 16"
    and "bt_count (\<lambda>_ b. sb_owner b = o') (es_subscriptions s) \<le> 32"
  using assms unfolding event_inv_def event_limits_def fst_conv by blast+

lemma event_limits_shrink:
  assumes "event_limits s" "bt_len (es_topics s') \<le> bt_len (es_topics s)"
    "bt_len (es_subscriptions s') \<le> bt_len (es_subscriptions s)"
    "\<And>o'. bt_count (\<lambda>_ t. tp_owner t = o') (es_topics s') \<le> bt_count (\<lambda>_ t. tp_owner t = o') (es_topics s)"
    "\<And>o'. bt_count (\<lambda>_ b. sb_owner b = o') (es_subscriptions s')
      \<le> bt_count (\<lambda>_ b. sb_owner b = o') (es_subscriptions s)"
  shows "event_limits s'"
  unfolding event_limits_def using assms unfolding event_limits_def by (meson order_trans)

lemma topics_okD:
  "topics_ok s logs \<Longrightarrow> bt_get (es_topics s) i = Some t \<Longrightarrow> topic_ok t (logs i)"
  "topics_ok s logs \<Longrightarrow> bt_get (es_topics s) i = Some t \<Longrightarrow> tp_closed t \<Longrightarrow> subscribed s i"
  by (auto simp: topics_ok_def)

lemma subscribed_iff:
  "subscribed s i \<longleftrightarrow> (\<exists>j b. bt_get (es_subscriptions s) j = Some b \<and> sb_topic b = i)"
  by (simp add: subscribed_def)

lemma subscriptions_okD:
  assumes "subscriptions_ok s" "bt_get (es_subscriptions s) i = Some b"
  obtains t where "bt_get (es_topics s) (sb_topic b) = Some t"
    "sb_acknowledged b \<le> sb_delivered b" "sb_delivered b \<le> tp_sequence t"
  using assms unfolding subscriptions_ok_def by blast

section \<open>What each operation does\<close>

lemma bounded_ok: "bounded x d m = Ok n \<Longrightarrow> 1 \<le> n \<and> n \<le> m"
  by (auto simp: bounded_def Let_def split: if_splits)

lemma bounded_cases:
  obtains n where "bounded x d m = Ok n" "1 \<le> n" "n \<le> m"
  | "bounded x d m = Err (invalid (''limit must be in 1..='' @ show_nat m))"
proof (cases "bounded x d m")
  case (Ok n)
  with that(1) bounded_ok show ?thesis by blast
qed (use that(2) in \<open>auto simp: bounded_def Let_def split: if_splits\<close>)

lemma owned_topic_Some: "owned_topic s o' i = Some t \<longleftrightarrow> bt_get (es_topics s) i = Some t \<and> tp_owner t = o'"
  by (auto simp: owned_topic_def split: option.splits)

lemma owned_subscription_Some:
  "owned_subscription s o' i = Some b \<longleftrightarrow> bt_get (es_subscriptions s) i = Some b \<and> sb_owner b = o'"
  by (auto simp: owned_subscription_def split: option.splits)

lemma create_topic_cases:
  assumes "create_topic v owner x s = (r, s')"
  obtains "\<not> is_ok r" "s' = s"
  | i m b where "is_ok r" "ee_token v 0 = Some i" "bt_len (es_topics s) < 128"
      "bt_count (\<lambda>_ t. tp_owner t = owner) (es_topics s) < 16"
      "1 \<le> m" "m \<le> 1024" "1 \<le> b" "b \<le> 1048576"
      "s' = s\<lparr>es_topics := bt_insert i
            \<lparr>tp_owner = owner, tp_name = ci_name x, tp_capability = ci_capability x,
             tp_sequence = 0, tp_events = [], tp_bytes = 0, tp_max_events = m,
             tp_max_bytes = b, tp_closed = False, tp_provider_retired = False\<rparr>
            (es_topics s)\<rparr>"
proof (cases "s' = s \<and> \<not> is_ok r")
  case True
  with that(1) show ?thesis by blast
next
  case False
  have lims: "bt_len (es_topics s) < 128 \<and> bt_count (\<lambda>_ t. tp_owner t = owner) (es_topics s) < 16"
    and name: "check_name (ci_name x) = Ok ()"
    using assms False
    by (auto simp: create_topic_def not_le split: outcome.splits if_splits)
  show ?thesis
  proof (cases "bounded (ci_max_events x) 256 1024")
    case m: (Ok m)
    show ?thesis
    proof (cases "bounded (ci_max_bytes x) (1024 * 1024) (1024 * 1024)")
      case b: (Ok b)
      show ?thesis
      proof (cases "ee_token v 0")
        case None
        then show ?thesis using assms False m b
          by (auto simp: create_topic_def name draw_token_def split: if_splits)
      next
        case (Some i)
        then show ?thesis using assms False m b lims bounded_ok [OF m] bounded_ok [OF b]
          by (intro that(2) [of i m b])
            (auto simp: create_topic_def name draw_token_def split: if_splits)
      qed
    qed (use assms False m in \<open>auto simp: create_topic_def name split: if_splits\<close>)
  qed (use assms False in \<open>auto simp: create_topic_def name split: if_splits\<close>)
qed

lemma check_bytes_ok: "check_bytes len x m = Ok u \<longleftrightarrow> (\<exists>n. len x = Some n \<and> n \<le> m)"
  by (auto simp: check_bytes_def not_less split: option.splits)

lemma publish_cases:
  assumes "publish v owner x s = (r, s')"
  obtains "\<not> is_ok r" "s' = s"
  | t k n es used where "is_ok r" "bt_get (es_topics s) (pi_topic x) = Some t" "tp_owner t = owner"
      "\<not> tp_closed t" "ee_size v (pi_event x) = Some k" "k \<le> 32768" "k \<le> tp_max_bytes t"
      "checked_succ (tp_sequence t) = Some n"
      "evict (tp_max_events t) (tp_max_bytes t) k (tp_events t) (tp_bytes t) = (es, used)"
      "s' = s\<lparr>es_topics := bt_insert (pi_topic x)
           (t\<lparr>tp_sequence := n, tp_events := es @ [(n, pi_event x, k)], tp_bytes := used + k\<rparr>)
           (es_topics s)\<rparr>"
      "r = Ok (JObject [(''cursor'', JString (cursor (pi_topic x) n))])"
proof (cases "s' = s \<and> \<not> is_ok r")
  case True
  with that(1) show ?thesis by blast
next
  case False
  have size: "check_bytes (ee_size v) (pi_event x) (32 * 1024) = Ok ()"
    using assms False by (auto simp: publish_def split: outcome.splits)
  then obtain k where k: "ee_size v (pi_event x) = Some k" "k \<le> 32768" by (auto simp: check_bytes_ok)
  obtain t where t: "owned_topic s owner (pi_topic x) = Some t"
    using assms False size by (cases "owned_topic s owner (pi_topic x)") (auto simp: publish_def)
  obtain es used where e: "evict (tp_max_events t) (tp_max_bytes t) k (tp_events t) (tp_bytes t) = (es, used)"
    by fastforce
  have c: "\<not> tp_closed t" "k \<le> tp_max_bytes t"
    using assms False size k t by (auto simp: publish_def not_less split: if_splits)
  obtain n where n: "checked_succ (tp_sequence t) = Some n"
    using assms False size k t c by (cases "checked_succ (tp_sequence t)") (auto simp: publish_def)
  have r: "r = Ok (JObject [(''cursor'', JString (cursor (pi_topic x) n))])"
    and s': "s' = s\<lparr>es_topics := bt_insert (pi_topic x)
         (t\<lparr>tp_sequence := n, tp_events := es @ [(n, pi_event x, k)], tp_bytes := used + k\<rparr>)
         (es_topics s)\<rparr>"
    using assms size k t c n e by (auto simp: publish_def)
  from t have "bt_get (es_topics s) (pi_topic x) = Some t" "tp_owner t = owner"
    by (simp_all add: owned_topic_Some)
  then show ?thesis using r s' k c n e by (intro that(2)) simp_all
qed

lemma parse_cursor_ok:
  "parse_cursor c t m = Ok n \<longleftrightarrow>
     (\<exists>d. rsplit_once (CHR '':'') c = Some (t, d) \<and> parse_u64 d = Some n \<and> n \<le> m)"
  by (auto simp: parse_cursor_def not_less split: option.splits prod.splits if_splits)

lemma parse_after_ok: "parse_after a t m d = Ok n \<Longrightarrow> d \<le> m \<Longrightarrow> n \<le> m"
  by (auto simp: parse_after_def parse_cursor_ok split: option.splits)

lemma subscribe_cases:
  assumes "subscribe v owner provider x s = (r, s')"
  obtains "\<not> is_ok r" "s' = s"
  | t i a where "is_ok r" "bt_get (es_topics s) (si_topic x) = Some t" "tp_owner t = provider"
      "\<not> tp_provider_retired t"
      "owner \<noteq> provider \<Longrightarrow> tp_capability t \<noteq> None \<and> si_capability x = tp_capability t"
      "bt_len (es_subscriptions s) < 256"
      "bt_count (\<lambda>_ b. sb_owner b = owner) (es_subscriptions s) < 32"
      "parse_after (si_after x) (si_topic x) (tp_sequence t) (tp_sequence t) = Ok a"
      "ee_token v 0 = Some i"
      "s' = s\<lparr>es_subscriptions := bt_insert i
          \<lparr>sb_owner = owner, sb_topic = si_topic x, sb_acknowledged = a, sb_delivered = a\<rparr>
          (es_subscriptions s)\<rparr>"
proof (cases "s' = s \<and> \<not> is_ok r")
  case True
  with that(1) show ?thesis by blast
next
  case False
  obtain t where t: "owned_topic s provider (si_topic x) = Some t"
    using assms False by (cases "owned_topic s provider (si_topic x)") (auto simp: subscribe_def)
  obtain a where a: "parse_after (si_after x) (si_topic x) (tp_sequence t) (tp_sequence t) = Ok a"
    using assms False t
    by (cases "parse_after (si_after x) (si_topic x) (tp_sequence t) (tp_sequence t)")
      (auto simp: subscribe_def Let_def split: if_splits)
  obtain i where i: "ee_token v 0 = Some i"
    using assms False t a
    by (cases "ee_token v 0") (auto simp: subscribe_def Let_def draw_token_def split: if_splits)
  have c: "\<not> tp_provider_retired t" "bt_len (es_subscriptions s) < 256"
    "bt_count (\<lambda>_ b. sb_owner b = owner) (es_subscriptions s) < 32"
    "owner \<noteq> provider \<Longrightarrow> tp_capability t \<noteq> None \<and> si_capability x = tp_capability t"
    using assms False t by (auto simp: subscribe_def Let_def not_le split: if_splits)
  have r: "is_ok r"
    and s': "s' = s\<lparr>es_subscriptions := bt_insert i
          \<lparr>sb_owner = owner, sb_topic = si_topic x, sb_acknowledged = a, sb_delivered = a\<rparr>
          (es_subscriptions s)\<rparr>"
    using assms False t a i c by (auto simp: subscribe_def Let_def draw_token_def split: if_splits)
  from t have "bt_get (es_topics s) (si_topic x) = Some t" "tp_owner t = provider"
    by (simp_all add: owned_topic_Some)
  then show ?thesis using r s' a i c by (intro that(2)) simp_all
qed

text \<open>The reply of a read, by what it reports.\<close>

definition read_reply :: "string \<Rightarrow> topic \<Rightarrow> (u64 \<times> json) list \<Rightarrow> u64 \<Rightarrow> bool \<Rightarrow> json" where
  "read_reply i t out latest gap =
     JObject [(''events'', JArray (map (event_json i) out)), (''cursor'', JString (cursor i latest)),
       (''gap'', JBool gap),
       (''terminal'', if tp_provider_retired t then JString ''provider_retired''
          else if tp_closed t \<and> tp_sequence t \<le> latest then JString ''topic_closed'' else JNull)]"

lemma read_cases:
  assumes "read_events owner x s = (r, s')"
  obtains "\<not> is_ok r" "s' = s"
  | b t limit after out reached latest where
      "bt_get (es_subscriptions s) (ri_subscription x) = Some b" "sb_owner b = owner"
      "bt_get (es_topics s) (sb_topic b) = Some t"
      "bounded (ri_limit x) 32 64 = Ok limit"
      "parse_after (ri_after x) (sb_topic b) (tp_sequence t) (sb_acknowledged b) = Ok after"
      "deliver (take limit (filter (\<lambda>e. after < fst e) (tp_events t))) 0 after = (out, reached)"
      "latest = (if tp_provider_retired t then tp_sequence t else reached)"
      "r = Ok (read_reply (sb_topic b) t out latest (saturating_succ after < first_sequence t))"
      "s' = s\<lparr>es_subscriptions := bt_insert (ri_subscription x)
          (b\<lparr>sb_delivered := max (sb_delivered b) latest\<rparr>) (es_subscriptions s)\<rparr>"
proof (cases "s' = s \<and> \<not> is_ok r")
  case True
  with that(1) show ?thesis by blast
next
  case False
  have w: "\<not> 1000 < ri_wait_ms x" using assms False by (auto simp: read_events_def)
  obtain limit where l: "bounded (ri_limit x) 32 64 = Ok limit"
    using assms False w by (cases "bounded (ri_limit x) 32 64") (auto simp: read_events_def)
  obtain b where b: "owned_subscription s owner (ri_subscription x) = Some b"
    using assms False w l
    by (cases "owned_subscription s owner (ri_subscription x)") (auto simp: read_events_def)
  obtain t where t: "bt_get (es_topics s) (sb_topic b) = Some t"
    using assms False w l b by (cases "bt_get (es_topics s) (sb_topic b)") (auto simp: read_events_def)
  obtain after where
    a: "parse_after (ri_after x) (sb_topic b) (tp_sequence t) (sb_acknowledged b) = Ok after"
    using assms False w l b t
    by (cases "parse_after (ri_after x) (sb_topic b) (tp_sequence t) (sb_acknowledged b)")
      (auto simp: read_events_def)
  obtain out reached where
    d: "deliver (take limit (filter (\<lambda>e. after < fst e) (tp_events t))) 0 after = (out, reached)" by fastforce
  define latest where "latest = (if tp_provider_retired t then tp_sequence t else reached)"
  from assms have "r = Ok (read_reply (sb_topic b) t out latest (saturating_succ after < first_sequence t))
      \<and> s' = s\<lparr>es_subscriptions := bt_insert (ri_subscription x)
          (b\<lparr>sb_delivered := max (sb_delivered b) latest\<rparr>) (es_subscriptions s)\<rparr>"
    using w by (simp add: read_events_def l b t a d latest_def read_reply_def Let_def)
  moreover from b have "bt_get (es_subscriptions s) (ri_subscription x) = Some b" "sb_owner b = owner"
    by (simp_all add: owned_subscription_Some)
  ultimately show ?thesis using t l a d latest_def by (intro that(2)) simp_all
qed

lemma ack_cases:
  assumes "ack_events owner x s = (r, s')"
  obtains "\<not> is_ok r" "s' = s"
  | b n where "is_ok r" "bt_get (es_subscriptions s) (ai_subscription x) = Some b" "sb_owner b = owner"
      "parse_cursor (ai_cursor x) (sb_topic b) (sb_delivered b) = Ok n" "sb_acknowledged b \<le> n"
      "s' = s\<lparr>es_subscriptions := bt_insert (ai_subscription x)
          (b\<lparr>sb_acknowledged := n\<rparr>) (es_subscriptions s)\<rparr>"
proof (cases "s' = s \<and> \<not> is_ok r")
  case True
  with that(1) show ?thesis by blast
next
  case False
  obtain b where b: "owned_subscription s owner (ai_subscription x) = Some b"
    using assms False by (cases "owned_subscription s owner (ai_subscription x)") (auto simp: ack_events_def)
  obtain n where n: "parse_cursor (ai_cursor x) (sb_topic b) (sb_delivered b) = Ok n"
    using assms False b
    by (cases "parse_cursor (ai_cursor x) (sb_topic b) (sb_delivered b)") (auto simp: ack_events_def)
  have c: "sb_acknowledged b \<le> n" using assms False b n by (auto simp: ack_events_def split: if_splits)
  from b have "bt_get (es_subscriptions s) (ai_subscription x) = Some b" "sb_owner b = owner"
    by (simp_all add: owned_subscription_Some)
  moreover have "is_ok r" "s' = s\<lparr>es_subscriptions := bt_insert (ai_subscription x)
          (b\<lparr>sb_acknowledged := n\<rparr>) (es_subscriptions s)\<rparr>"
    using assms b n c by (auto simp: ack_events_def not_less [symmetric])
  ultimately show ?thesis using n c by (intro that(2)) simp_all
qed

lemma close_cases:
  assumes "close_events owner i s = (r, s')"
  obtains "\<not> is_ok r" "s' = s"
  | b where "is_ok r" "bt_get (es_subscriptions s) i = Some b" "sb_owner b = owner"
      "s' = drop_closed (s\<lparr>es_subscriptions := bt_remove i (es_subscriptions s)\<rparr>)"
  | t where "is_ok r" "bt_get (es_topics s) i = Some t" "tp_owner t = owner"
      "s' = drop_closed (s\<lparr>es_topics := bt_insert i (t\<lparr>tp_closed := True\<rparr>) (es_topics s)\<rparr>)"
proof (cases "owned_subscription s owner i")
  case (Some b)
  then show ?thesis using assms
    by (intro that(2)) (auto simp: close_events_def Let_def owned_subscription_Some)
next
  case None
  note sub = None
  show ?thesis
  proof (cases "owned_topic s owner i")
    case None
    then show ?thesis using assms sub by (intro that(1)) (auto simp: close_events_def Let_def)
  next
    case (Some t)
    let ?s = "s\<lparr>es_topics := bt_insert i (t\<lparr>tp_closed := True\<rparr>) (es_topics s)\<rparr>"
    have "drop_closed (?s\<lparr>es_topics := bt_remove i (es_topics ?s)\<rparr>) = drop_closed ?s"
      if "\<not> subscribed ?s i"
    proof -
      have "bt_retain (\<lambda>k t. \<not> tp_closed t \<or> subscribed ?s k) (bt_remove i (es_topics ?s))
          = bt_retain (\<lambda>k t. \<not> tp_closed t \<or> subscribed ?s k) (es_topics ?s)"
        by (rule bt_eqI) (use that in \<open>auto split: option.splits\<close>)
      then show ?thesis by (simp add: drop_closed_def subscribed_def)
    qed
    then have "is_ok r \<and> s' = drop_closed ?s"
      using assms sub Some by (auto simp: close_events_def Let_def)
    then show ?thesis using Some by (intro that(3)) (auto simp: owned_topic_Some)
  qed
qed

section \<open>Every operation keeps the invariant\<close>

definition fresh_tokens :: "event_env \<Rightarrow> event_store \<Rightarrow> bool" where
  "fresh_tokens v s \<longleftrightarrow>
     (\<forall>i. ee_token v 0 = Some i \<longrightarrow>
        bt_get (es_topics s) i = None \<and> bt_get (es_subscriptions s) i = None)"

lemma topic_ok_new:
  assumes "1 \<le> m" "m \<le> 1024" "1 \<le> b" "b \<le> 1048576"
  shows "topic_ok \<lparr>tp_owner = owner, tp_name = n, tp_capability = c, tp_sequence = 0, tp_events = [],
     tp_bytes = 0, tp_max_events = m, tp_max_bytes = b, tp_closed = False,
     tp_provider_retired = False\<rparr> []"
  using assms by (simp add: topic_ok_def numbered_def sizes_def)

lemma create_topic_inv:
  assumes "event_inv (s, logs)" "create_topic v owner x s = (r, s')" "fresh_tokens v s"
  shows "event_inv (s', if is_ok r then (case ee_token v 0 of Some i \<Rightarrow> logs(i := []) | None \<Rightarrow> logs) else logs)"
  using assms(2)
proof (cases rule: create_topic_cases)
  case 1
  with assms(1) show ?thesis by simp
next
  case (2 i m b)
  from assms(3) 2(2) have new: "bt_get (es_topics s) i = None" by (simp add: fresh_tokens_def)
  have "topics_ok s' (logs(i := []))"
    using assms(1) 2 topic_ok_new [OF 2(5-8)]
    by (auto simp: event_inv_def topics_ok_def subscribed_iff)
  moreover have "subscriptions_ok s'"
    using assms(1) 2 new by (fastforce simp: event_inv_def subscriptions_ok_def)
  moreover have "bt_count (\<lambda>_ t. tp_owner t = o') (es_topics s') \<le> 16" for o'
  proof (cases "o' = owner")
    case True
    have "bt_count (\<lambda>_ t. tp_owner t = o') (es_topics s')
        \<le> Suc (bt_count (\<lambda>_ t. tp_owner t = o') (es_topics s))"
      unfolding 2 by (simp add: bt_count_insert_le)
    with 2(4) True show ?thesis by simp
  next
    case False
    then have "bt_count (\<lambda>_ t. tp_owner t = o') (es_topics s')
        \<le> bt_count (\<lambda>_ t. tp_owner t = o') (es_topics s)"
      unfolding 2 by (simp add: bt_count_insert_skip)
    then show ?thesis using event_inv_counts [OF assms(1), of o'] by simp
  qed
  then have "event_limits s'"
    using assms(1) 2(3) new unfolding event_inv_def event_limits_def by (simp add: 2(9))
  ultimately show ?thesis using 2(1,2) by (simp add: event_inv_def)
qed

text \<open>A topic replaced by one of the same owner.\<close>

lemma topic_update_inv:
  assumes "event_inv (s, logs)" "bt_get (es_topics s) i = Some t" "tp_owner t' = tp_owner t"
    and "topic_ok t' (logs' i)" "\<And>j. j \<noteq> i \<Longrightarrow> logs' j = logs j"
    and "tp_sequence t \<le> tp_sequence t'" "tp_closed t' \<Longrightarrow> subscribed s i"
  shows "event_inv (s\<lparr>es_topics := bt_insert i t' (es_topics s)\<rparr>, logs')"
proof -
  let ?s = "s\<lparr>es_topics := bt_insert i t' (es_topics s)\<rparr>"
  have "topics_ok ?s logs'"
    using assms by (auto simp: event_inv_def topics_ok_def subscribed_iff)
  moreover have "subscriptions_ok ?s"
    unfolding subscriptions_ok_def
  proof (intro allI impI)
    fix j b
    assume "bt_get (es_subscriptions ?s) j = Some b"
    then have b: "bt_get (es_subscriptions s) j = Some b" by simp
    from assms(1) have "subscriptions_ok s" by (simp add: event_inv_def)
    then obtain u where "bt_get (es_topics s) (sb_topic b) = Some u"
      "sb_acknowledged b \<le> sb_delivered b" "sb_delivered b \<le> tp_sequence u"
      using b by (rule subscriptions_okD)
    with assms(2,6) show "\<exists>t. bt_get (es_topics ?s) (sb_topic b) = Some t
        \<and> sb_acknowledged b \<le> sb_delivered b \<and> sb_delivered b \<le> tp_sequence t"
      by auto
  qed
  moreover have "bt_count (\<lambda>_ t. tp_owner t = o') (bt_insert i t' (es_topics s)) \<le> 16" for o'
  proof -
    have "bt_count (\<lambda>_ t. tp_owner t = o') (bt_insert i t' (es_topics s))
        \<le> bt_count (\<lambda>_ t. tp_owner t = o') (es_topics s)"
      using assms(2,3) by (intro bt_count_replace) auto
    then show ?thesis using event_inv_counts [OF assms(1), of o'] by simp
  qed
  then have "event_limits ?s" using assms(1,2) by (simp add: event_inv_def event_limits_def)
  ultimately show ?thesis by (simp add: event_inv_def)
qed

text \<open>A subscription replaced by one of the same owner and topic.\<close>

lemma subscription_update_inv:
  assumes "event_inv (s, logs)" "bt_get (es_subscriptions s) i = Some b"
    and "sb_owner b' = sb_owner b" "sb_topic b' = sb_topic b" "bt_get (es_topics s) (sb_topic b) = Some t"
    and "sb_acknowledged b' \<le> sb_delivered b'" "sb_delivered b' \<le> tp_sequence t"
  shows "event_inv (s\<lparr>es_subscriptions := bt_insert i b' (es_subscriptions s)\<rparr>, logs)"
proof -
  let ?s = "s\<lparr>es_subscriptions := bt_insert i b' (es_subscriptions s)\<rparr>"
  have "subscribed ?s k \<longleftrightarrow> subscribed s k" for k
  proof
    assume "subscribed ?s k"
    then show "subscribed s k" using assms(2,4) by (auto simp: subscribed_iff split: if_splits)
  next
    assume "subscribed s k"
    then obtain j u where "bt_get (es_subscriptions s) j = Some u" "sb_topic u = k"
      unfolding subscribed_iff by blast
    with assms(2,4) show "subscribed ?s k" unfolding subscribed_iff by (cases "j = i") auto
  qed
  then have "topics_ok ?s logs" using assms(1) by (simp add: event_inv_def topics_ok_def)
  moreover have "subscriptions_ok ?s"
    using assms by (auto simp: event_inv_def subscriptions_ok_def)
  moreover have "bt_count (\<lambda>_ b. sb_owner b = o') (bt_insert i b' (es_subscriptions s)) \<le> 32" for o'
  proof -
    have "bt_count (\<lambda>_ b. sb_owner b = o') (bt_insert i b' (es_subscriptions s))
        \<le> bt_count (\<lambda>_ b. sb_owner b = o') (es_subscriptions s)"
      using assms(2,3) by (intro bt_count_replace) auto
    then show ?thesis using event_inv_counts [OF assms(1), of o'] by simp
  qed
  then have "event_limits ?s" using assms(1,2) by (simp add: event_inv_def event_limits_def)
  ultimately show ?thesis by (simp add: event_inv_def)
qed

lemma publish_inv:
  assumes "event_inv (s, logs)" "publish v owner x s = (r, s')"
  shows "event_inv (s', if is_ok r then logs(pi_topic x := logs (pi_topic x) @ [pi_event x]) else logs)"
  using assms(2)
proof (cases rule: publish_cases)
  case 1
  with assms(1) show ?thesis by simp
next
  case (2 t k n es used)
  have "topic_ok t (logs (pi_topic x))" using assms(1) 2(2) by (simp add: event_inv_def topics_ok_def)
  from topic_published [OF this 2(9,7,6,8,4)] show ?thesis
    unfolding 2(10) using assms(1) 2 checked_succ_SomeD(1) [OF 2(8)]
    by (intro topic_update_inv) auto
qed

lemma subscribe_inv:
  assumes "event_inv (s, logs)" "subscribe v owner provider x s = (r, s')" "fresh_tokens v s"
  shows "event_inv (s', logs)"
  using assms(2)
proof (cases rule: subscribe_cases)
  case 1
  with assms(1) show ?thesis by simp
next
  case (2 t i a)
  have new: "bt_get (es_subscriptions s) i = None" using assms(3) 2(9) by (simp add: fresh_tokens_def)
  have "subscribed s' k" if sub: "subscribed s k" for k
  proof -
    from sub obtain j u where "bt_get (es_subscriptions s) j = Some u" "sb_topic u = k"
      unfolding subscribed_iff by blast
    then show ?thesis using new unfolding subscribed_iff 2(10) by (intro exI [of _ j]) auto
  qed
  moreover have "es_topics s' = es_topics s" by (simp add: 2(10))
  ultimately have "topics_ok s' logs" using assms(1) by (simp add: event_inv_def topics_ok_def)
  moreover have "a \<le> tp_sequence t" using 2(8) by (rule parse_after_ok) simp
  then have "subscriptions_ok s'"
    using assms(1) 2(2) unfolding event_inv_def subscriptions_ok_def by (auto simp: 2(10))
  moreover have "bt_count (\<lambda>_ b. sb_owner b = o') (es_subscriptions s') \<le> 32" for o'
  proof (cases "o' = owner")
    case True
    have "bt_count (\<lambda>_ b. sb_owner b = o') (es_subscriptions s')
        \<le> Suc (bt_count (\<lambda>_ b. sb_owner b = o') (es_subscriptions s))"
      unfolding 2 by (simp add: bt_count_insert_le)
    with 2(7) True show ?thesis by simp
  next
    case False
    then have "bt_count (\<lambda>_ b. sb_owner b = o') (es_subscriptions s')
        \<le> bt_count (\<lambda>_ b. sb_owner b = o') (es_subscriptions s)"
      unfolding 2 by (simp add: bt_count_insert_skip)
    then show ?thesis using event_inv_counts [OF assms(1), of o'] by simp
  qed
  then have "event_limits s'"
    using assms(1) 2(6) new unfolding event_inv_def event_limits_def by (simp add: 2(10))
  ultimately show ?thesis by (simp add: event_inv_def)
qed

text \<open>What a read delivers ends within what the topic has.\<close>

lemma delivered_within:
  assumes "deliver (take limit (filter p (tp_events t))) 0 after = (out, reached)" "topic_ok t log"
    and "after \<le> tp_sequence t"
  shows "reached \<le> tp_sequence t"
proof -
  have n: "unat (fst e) \<le> length log" if "e \<in> set (tp_events t)" for e
  proof -
    obtain k x c where e: "e = (k, x, c)" by (cases e)
    have "(unat k, x) \<in> set (numbered (tp_events t))"
      using that unfolding e numbered_def by (force simp: image_iff)
    then have "unat (fst e) \<in> fst ` set (numbered (tp_events t))" by (force simp: e)
    also have "\<dots> \<subseteq> fst ` set (enumerate 1 log)"
      using assms(2) set_drop_subset [of "length log - length (tp_events t)" "enumerate 1 log"]
      by (auto simp: topic_ok_def)
    finally show ?thesis by (auto simp: in_set_enumerate_eq)
  qed
  from deliver_spec [OF assms(1)] obtain m where m: "m \<le> length (take limit (filter p (tp_events t)))"
    "reached = (if m = 0 then after else fst (take limit (filter p (tp_events t)) ! (m - 1)))" by blast
  show ?thesis
  proof (cases "m = 0")
    case False
    then have "m - 1 < length (take limit (filter p (tp_events t)))" using m(1) by linarith
    then have "take limit (filter p (tp_events t)) ! (m - 1) \<in> set (tp_events t)"
      by (blast dest: nth_mem in_set_takeD filter_is_subset [THEN subsetD])
    with n False m(2) assms(2) show ?thesis by (simp add: topic_ok_def word_le_nat_alt)
  qed (use m assms(3) in simp)
qed

lemma read_inv:
  assumes "event_inv (s, logs)" "read_events owner x s = (r, s')"
  shows "event_inv (s', logs)"
  using assms(2)
proof (cases rule: read_cases)
  case 1
  with assms(1) show ?thesis by simp
next
  case (2 b t limit after out reached latest)
  from assms(1) have ok: "subscriptions_ok s" "topics_ok s logs" by (simp_all add: event_inv_def)
  have b: "sb_acknowledged b \<le> sb_delivered b" "sb_delivered b \<le> tp_sequence t"
    using ok(1) 2(1,3) by (auto elim: subscriptions_okD)
  have "after \<le> tp_sequence t" using b by (intro parse_after_ok [OF 2(5)]) simp
  with 2(6) topics_okD(1) [OF ok(2) 2(3)] have "reached \<le> tp_sequence t" by (rule delivered_within)
  then have "latest \<le> tp_sequence t" by (simp add: 2(7))
  then show ?thesis unfolding 2(9) using assms(1) 2(1,3) b
    by (intro subscription_update_inv) (auto simp: max_def)
qed

lemma ack_inv:
  assumes "event_inv (s, logs)" "ack_events owner x s = (r, s')"
  shows "event_inv (s', logs)"
  using assms(2)
proof (cases rule: ack_cases)
  case 1
  with assms(1) show ?thesis by simp
next
  case (2 b n)
  from assms(1) have "subscriptions_ok s" by (simp add: event_inv_def)
  then obtain t where t: "bt_get (es_topics s) (sb_topic b) = Some t" "sb_delivered b \<le> tp_sequence t"
    using 2(2) by (auto elim: subscriptions_okD)
  have "n \<le> sb_delivered b" using 2(4) by (auto simp: parse_cursor_ok)
  then show ?thesis unfolding 2(6) using assms(1) 2(2) t
    by (intro subscription_update_inv) auto
qed

text \<open>Dropping the closed topics nobody reads restores the part of the invariant about them.\<close>

lemma drop_closed_inv:
  assumes "\<forall>i t. bt_get (es_topics s) i = Some t \<longrightarrow> topic_ok t (logs i)"
    and "subscriptions_ok s" "event_limits s"
  shows "event_inv (drop_closed s, logs)"
proof -
  have sub: "subscribed (drop_closed s) i \<longleftrightarrow> subscribed s i" for i
    by (simp add: subscribed_iff drop_closed_def)
  have get: "bt_get (es_topics (drop_closed s)) i = Some t \<longleftrightarrow>
      bt_get (es_topics s) i = Some t \<and> (tp_closed t \<longrightarrow> subscribed s i)" for i t
    by (auto simp: drop_closed_def split: option.splits)
  have subs: "es_subscriptions (drop_closed s) = es_subscriptions s" by (simp add: drop_closed_def)
  have "topics_ok (drop_closed s) logs" using assms(1) by (simp add: topics_ok_def get sub)
  moreover have "subscriptions_ok (drop_closed s)"
    using assms(2) unfolding subscriptions_ok_def subs get subscribed_iff by blast
  moreover have "bt_count (\<lambda>_ t. tp_owner t = o') (es_topics (drop_closed s))
      \<le> bt_count (\<lambda>_ t. tp_owner t = o') (es_topics s)" for o'
    by (rule bt_count_mono) (simp add: get)
  then have "event_limits (drop_closed s)"
    by (intro event_limits_shrink [OF assms(3)]) (simp_all add: drop_closed_def)
  ultimately show ?thesis by (simp add: event_inv_def)
qed

lemma close_inv:
  assumes "event_inv (s, logs)" "close_events owner i s = (r, s')"
  shows "event_inv (s', logs)"
proof -
  have ok: "topics_ok s logs" "subscriptions_ok s" "event_limits s"
    using assms(1) by (simp_all add: event_inv_def)
  from assms(2) show ?thesis
  proof (cases rule: close_cases)
    case 1
    with assms(1) show ?thesis by simp
  next
    case (2 b)
    let ?s = "s\<lparr>es_subscriptions := bt_remove i (es_subscriptions s)\<rparr>"
    have "bt_count (\<lambda>_ b. sb_owner b = o') (es_subscriptions ?s)
        \<le> bt_count (\<lambda>_ b. sb_owner b = o') (es_subscriptions s)" for o'
      by (rule bt_count_mono) (auto split: if_splits)
    then have "event_limits ?s" by (intro event_limits_shrink [OF ok(3)]) simp_all
    then show ?thesis unfolding 2(4) using ok(1,2)
      by (intro drop_closed_inv) (auto simp: topics_ok_def subscriptions_ok_def split: if_splits)
  next
    case (3 t)
    let ?s = "s\<lparr>es_topics := bt_insert i (t\<lparr>tp_closed := True\<rparr>) (es_topics s)\<rparr>"
    have t: "topic_ok (t\<lparr>tp_closed := True\<rparr>) (logs i)"
      using topics_okD(1) [OF ok(1) 3(2)] by (auto simp: topic_ok_def)
    have "bt_count (\<lambda>_ t. tp_owner t = o') (es_topics ?s)
        \<le> bt_count (\<lambda>_ t. tp_owner t = o') (es_topics s)" for o'
      using 3(2) by (auto intro: bt_count_replace)
    then have "event_limits ?s" using 3(2) by (intro event_limits_shrink [OF ok(3)]) simp_all
    moreover have "subscriptions_ok ?s"
      unfolding subscriptions_ok_def
    proof (intro allI impI)
      fix j b
      assume "bt_get (es_subscriptions ?s) j = Some b"
      then have b: "bt_get (es_subscriptions s) j = Some b" by simp
      from ok(2) b obtain u where "bt_get (es_topics s) (sb_topic b) = Some u"
        "sb_acknowledged b \<le> sb_delivered b" "sb_delivered b \<le> tp_sequence u"
        by (rule subscriptions_okD)
      with 3(2) show "\<exists>t. bt_get (es_topics ?s) (sb_topic b) = Some t
          \<and> sb_acknowledged b \<le> sb_delivered b \<and> sb_delivered b \<le> tp_sequence t"
        by (cases "sb_topic b = i") auto
    qed
    ultimately show ?thesis unfolding 3(4) using ok(1) t
      by (intro drop_closed_inv) (auto simp: topics_ok_def)
  qed
qed

lemma retire_inv:
  assumes "event_inv (s, logs)"
  shows "event_inv (events_retire owner s, logs)"
proof -
  let ?fin = "\<lambda>t. if tp_owner t = owner
      then t\<lparr>tp_closed := True, tp_provider_retired := True, tp_events := [], tp_bytes := 0\<rparr> else t"
  let ?s = "s\<lparr>es_subscriptions := bt_retain (\<lambda>_ b. sb_owner b \<noteq> owner) (es_subscriptions s),
      es_topics := bt_map (\<lambda>_. ?fin) (es_topics s)\<rparr>"
  have ok: "topics_ok s logs" "subscriptions_ok s" "event_limits s"
    using assms(1) by (simp_all add: event_inv_def)
  have "topic_ok (?fin t) log" if "topic_ok t log" for t log
    using that by (auto simp: topic_ok_def numbered_def sizes_def)
  note ended = this
  have "\<forall>i t. bt_get (es_topics ?s) i = Some t \<longrightarrow> topic_ok t (logs i)"
  proof (intro allI impI)
    fix i t
    assume "bt_get (es_topics ?s) i = Some t"
    then obtain u where "bt_get (es_topics s) i = Some u" "t = ?fin u" by auto
    with ended topics_okD(1) [OF ok(1)] show "topic_ok t (logs i)" by blast
  qed
  moreover have "subscriptions_ok ?s"
    unfolding subscriptions_ok_def
  proof (intro allI impI)
    fix j b
    assume "bt_get (es_subscriptions ?s) j = Some b"
    then have b: "bt_get (es_subscriptions s) j = Some b"
      by (auto split: option.splits if_splits)
    from ok(2) b obtain u where "bt_get (es_topics s) (sb_topic b) = Some u"
      "sb_acknowledged b \<le> sb_delivered b" "sb_delivered b \<le> tp_sequence u"
      by (rule subscriptions_okD)
    then show "\<exists>t. bt_get (es_topics ?s) (sb_topic b) = Some t
        \<and> sb_acknowledged b \<le> sb_delivered b \<and> sb_delivered b \<le> tp_sequence t"
      by (intro exI [of _ "?fin u"]) simp
  qed
  moreover have "bt_count (\<lambda>_ t. tp_owner t = o') (es_topics ?s)
      \<le> bt_count (\<lambda>_ t. tp_owner t = o') (es_topics s)" for o'
    by (rule bt_count_mono) (auto split: if_splits)
  moreover have "bt_count (\<lambda>_ b. sb_owner b = o') (es_subscriptions ?s)
      \<le> bt_count (\<lambda>_ b. sb_owner b = o') (es_subscriptions s)" for o'
    by (rule bt_count_mono) (auto split: if_splits option.splits)
  ultimately show ?thesis unfolding events_retire_def
    by (intro drop_closed_inv event_limits_shrink [OF ok(3)]) simp_all
qed

section \<open>Runs\<close>

text \<open>What a call does to the lists of published events.\<close>

definition logs_after ::
    "event_env \<Rightarrow> string \<Rightarrow> json \<Rightarrow> json service_result \<Rightarrow> event_logs \<Rightarrow> event_logs" where
  "logs_after v method params r logs =
     (if \<not> is_ok r then logs
      else if method = ''events.createTopic''
      then (case ee_token v 0 of Some i \<Rightarrow> logs(i := []) | None \<Rightarrow> logs)
      else if method = ''events.publish''
      then (case ee_publish v params of
              Ok x \<Rightarrow> logs(pi_topic x := logs (pi_topic x) @ [pi_event x]) | _ \<Rightarrow> logs)
      else logs)"

inductive event_step :: "event_store \<times> event_logs \<Rightarrow> event_store \<times> event_logs \<Rightarrow> bool" where
  call: "fresh_tokens v s \<Longrightarrow> events_invoke_for v owner provider method params s = (r, s') \<Longrightarrow>
    event_step (s, logs) (s', logs_after v method params r logs)"
| retired: "event_step (s, logs) (events_retire owner s, logs)"
| closing: "event_step (s, logs) (events_default, logs)"

definition event_init :: "event_store \<times> event_logs \<Rightarrow> bool" where
  "event_init w \<longleftrightarrow> fst w = events_default"

lemma event_init_inv: "event_init w \<Longrightarrow> event_inv w"
  by (simp add: event_init_def event_inv_def events_default_def topics_ok_def subscriptions_ok_def
      event_limits_def)

lemma events_invoke_inv:
  assumes "event_inv (s, logs)" "fresh_tokens v s"
    "events_invoke_for v owner provider method params s = (r, s')"
  shows "event_inv (s', logs_after v method params r logs)"
proof -
  have same: "event_inv (s', logs_after v method params r logs)"
    if "\<not> is_ok r" "s' = s" using that assms(1) by (simp add: logs_after_def)
  consider
    "method = ''events.createTopic''" "with_input (ee_create v) params s (\<lambda>x. create_topic v owner x s) = (r, s')"
    | "method = ''events.publish''" "with_input (ee_publish v) params s (\<lambda>x. publish v owner x s) = (r, s')"
    | "method = ''events.subscribe''" "with_input (ee_subscribe v) params s (\<lambda>x. subscribe v owner provider x s) = (r, s')"
    | "method = ''events.read''" "with_input (ee_read v) params s (\<lambda>x. read_events owner x s) = (r, s')"
    | "method = ''events.ack''" "with_input (ee_ack v) params s (\<lambda>x. ack_events owner x s) = (r, s')"
    | "method = ''events.close''" "with_input (ee_close v) params s (\<lambda>x. close_events owner x s) = (r, s')"
    | "\<not> is_ok r" "s' = s"
    using assms(3) unfolding events_invoke_for_def by (auto split: if_splits)
  then show ?thesis
  proof cases
    case 1
    from 1(2) show ?thesis
    proof (cases rule: with_input_cases)
      case (2 x)
      from create_topic_inv [OF assms(1) 2(2) assms(2)] show ?thesis
        by (cases "is_ok r") (simp_all add: logs_after_def 1(1))
    qed (rule same)
  next
    case 2
    from 2(2) show ?thesis
    proof (cases rule: with_input_cases)
      case (2 x)
      from publish_inv [OF assms(1) 2(2)] show ?thesis
        by (cases "is_ok r") (simp_all add: logs_after_def \<open>method = _\<close> 2(1))
    qed (rule same)
  next
    case 3
    from 3(2) show ?thesis
    proof (cases rule: with_input_cases)
      case (2 x)
      from subscribe_inv [OF assms(1) 2(2) assms(2)] show ?thesis by (simp add: logs_after_def 3)
    qed (rule same)
  next
    case 4
    from 4(2) show ?thesis
    proof (cases rule: with_input_cases)
      case (2 x)
      from read_inv [OF assms(1) 2(2)] show ?thesis by (simp add: logs_after_def 4)
    qed (rule same)
  next
    case 5
    from 5(2) show ?thesis
    proof (cases rule: with_input_cases)
      case (2 x)
      from ack_inv [OF assms(1) 2(2)] show ?thesis by (simp add: logs_after_def 5)
    qed (rule same)
  next
    case 6
    from 6(2) show ?thesis
    proof (cases rule: with_input_cases)
      case (2 x)
      from close_inv [OF assms(1) 2(2)] show ?thesis by (simp add: logs_after_def 6)
    qed (rule same)
  qed (rule same)
qed

lemma event_step_inv: "event_inv w \<Longrightarrow> event_step w w' \<Longrightarrow> event_inv w'"
  by (erule event_step.cases)
    (auto intro: events_invoke_inv retire_inv event_init_inv simp: event_init_def)

interpretation events: transition_system event_init event_step event_inv
  by unfold_locales (auto intro: event_init_inv event_step_inv)

end
