(* ===== verification/Event_Properties.thy ===== *)
theory Event_Properties
  imports Event_Runs
begin

text \<open>
  The properties of the event store: what it never exceeds, that a read is a read of the list
  of published events, and that a subscriber which reads and acknowledges receives every
  retained event once, in order.
\<close>

section \<open>A read in terms of the list of published events\<close>

definition lost :: "topic \<Rightarrow> json list \<Rightarrow> nat" where
  "lost t log = length log - length (tp_events t)"

definition plain :: "(u64 \<times> json) list \<Rightarrow> (nat \<times> json) list" where
  "plain es = map (\<lambda>(n, x). (unat n, x)) es"

text \<open>
  The events a read may answer with after a position: an initial part, within the limit, of what
  the topic still has after it, and empty only when there is nothing.
\<close>

definition answers :: "nat \<Rightarrow> nat \<Rightarrow> topic \<Rightarrow> json list \<Rightarrow> (u64 \<times> json) list \<Rightarrow> bool" where
  "answers limit after t log out \<longleftrightarrow>
     plain out = take (length out) (drop (max after (lost t log)) (enumerate 1 log))
     \<and> length out \<le> limit
     \<and> (out = [] \<longrightarrow> tp_provider_retired t \<or> length log \<le> after)"

definition position_after :: "nat \<Rightarrow> topic \<Rightarrow> json list \<Rightarrow> (u64 \<times> json) list \<Rightarrow> nat" where
  "position_after after t log out =
     (if tp_provider_retired t then length log
      else if out = [] then after else max after (lost t log) + length out)"

lemma in_sizes: "e \<in> set es \<Longrightarrow> snd (snd e) \<in> set (sizes es)"
  unfolding sizes_def set_map by (rule image_eqI [rotated]) (auto simp: split_def)

lemma deliver_answers:
  assumes "topic_ok t log" "1 \<le> limit"
    and "deliver (take limit (filter (\<lambda>e. after < fst e) (tp_events t))) 0 after = (out, reached)"
  shows "answers limit (unat after) t log out"
    and "\<not> tp_provider_retired t \<Longrightarrow> unat reached = position_after (unat after) t log out"
proof -
  let ?d = "lost t log" and ?es = "tp_events t"
  have t: "length ?es \<le> length log" "numbered ?es = drop ?d (enumerate 1 log)"
    "\<forall>k \<in> set (sizes ?es). k \<le> 32768" "\<not> tp_provider_retired t \<and> log \<noteq> [] \<longrightarrow> ?es \<noteq> []"
    using assms(1) by (simp_all add: topic_ok_def lost_def)
  have len: "?d + length ?es = length log" using t(1) by (simp add: lost_def)
  let ?rest = "drop (unat after - ?d) ?es"
  have rest: "filter (\<lambda>e. after < fst e) ?es = ?rest" by (rule numbered_filter [OF t(2) len])
  have "numbered ?rest = drop (unat after - ?d) (drop ?d (enumerate 1 log))"
    unfolding t(2) [symmetric] by (simp add: numbered_def drop_map)
  moreover have "unat after - ?d + ?d = max (unat after) ?d" by linarith
  ultimately have numbered_rest: "numbered ?rest = drop (max (unat after) ?d) (enumerate 1 log)"
    by simp
  from deliver_spec [OF assms(3) [unfolded rest]] obtain m where
    m: "m \<le> length (take limit ?rest)" "out = map (\<lambda>(n, x, _). (n, x)) (take m (take limit ?rest))"
      "reached = (if m = 0 then after else fst (take limit ?rest ! (m - 1)))"
      "take limit ?rest \<noteq> [] \<and> snd (snd (hd (take limit ?rest))) + 128 \<le> 192 * 1024 \<longrightarrow> m \<noteq> 0"
    unfolding add_0_left by blast
  have m_rest: "m \<le> limit" "m \<le> length ?rest" using m(1) by auto
  have out: "out = map (\<lambda>(n, x, _). (n, x)) (take m ?rest)" using m(2) m_rest(1) by (simp add: min_absorb2)
  have len_out: "length out = m" using out m_rest(2) by simp
  have "plain out = take m (numbered ?rest)"
    by (simp add: out plain_def numbered_def take_map split_def comp_def)
  then have "plain out = take (length out) (drop (max (unat after) ?d) (enumerate 1 log))"
    by (simp only: numbered_rest len_out)
  moreover have "length log \<le> unat after" if "out = []" "\<not> tp_provider_retired t"
  proof (rule ccontr)
    assume *: "\<not> length log \<le> unat after"
    then have "log \<noteq> []" by auto
    then have "?es \<noteq> []" using t(4) that(2) by blast
    then have "?d < length log" using len by (cases ?es) auto
    with * have ne: "?rest \<noteq> []" using len by simp
    from hd_in_set [OF this] have "hd ?rest \<in> set ?es" by (rule in_set_dropD)
    then have "snd (snd (hd ?rest)) \<le> 32768"
      using t(3) in_sizes by blast
    moreover have "take limit ?rest \<noteq> []" "hd (take limit ?rest) = hd ?rest"
      using ne assms(2) by auto
    ultimately have "m \<noteq> 0" using m(4) by simp
    with len_out that(1) show False by simp
  qed
  ultimately show "answers limit (unat after) t log out"
    using m_rest(1) by (auto simp: answers_def len_out)
  show "unat reached = position_after (unat after) t log out" if "\<not> tp_provider_retired t"
  proof (cases "m = 0")
    case True
    with len_out m(3) that show ?thesis by (simp add: position_after_def)
  next
    case False
    then have i: "m - 1 < length ?rest" "m - 1 < limit" using m_rest by auto
    have "unat (fst (?rest ! (m - 1))) = fst (numbered ?rest ! (m - 1))"
      using i(1) by (simp add: numbered_def split: prod.splits)
    also have "\<dots> = Suc (max (unat after) ?d + (m - 1))"
      unfolding numbered_rest using i(1) len by (simp add: nth_enumerate_eq max_def)
    finally have "unat (fst (?rest ! (m - 1))) = max (unat after) ?d + m" using False by simp
    moreover have "out \<noteq> []" using len_out False by auto
    ultimately show ?thesis using m(3) False i(2) that by (simp add: position_after_def len_out)
  qed
qed

text \<open>The gap flag: events after the position have left the buffer.\<close>

lemma gap_lost:
  assumes "topic_ok t log" "tp_provider_retired t \<Longrightarrow> length log < 2 ^ 64 - 1"
  shows "saturating_succ after < first_sequence t \<longleftrightarrow> unat after < lost t log"
proof (cases "tp_events t")
  case Nil
  have seq: "unat (tp_sequence t) = length log" and l: "lost t log = length log"
    using assms(1) Nil by (simp_all add: topic_ok_def lost_def)
  have "length log < 2 ^ 64 - 1"
  proof (cases "tp_provider_retired t")
    case False
    then have "log = []" using assms(1) Nil by (simp add: topic_ok_def)
    then show ?thesis by simp
  qed (rule assms(2))
  then have "tp_sequence t \<noteq> - 1" using seq by (auto simp: unsigned_minus_1_eq_mask mask_eq_exp_minus_1)
  then have first: "unat (first_sequence t) = Suc (length log)"
    using Nil seq by (simp add: first_sequence_def saturating_succ_def unat_succ)
  show ?thesis
  proof (cases "after = - 1")
    case True
    then have "unat after = 2 ^ 64 - 1" by (simp add: unsigned_minus_1_eq_mask mask_eq_exp_minus_1)
    with True first \<open>length log < 2 ^ 64 - 1\<close> show ?thesis
      by (simp add: saturating_succ_def word_less_nat_alt l)
  qed (simp add: saturating_succ_def word_less_nat_alt first l unat_succ)
next
  case (Cons e es)
  then obtain n x k where e: "tp_events t = (n, x, k) # es" by (cases e) auto
  have "numbered (tp_events t) = drop (lost t log) (enumerate 1 log)"
    and "lost t log < length log"
    using assms(1) e by (auto simp: topic_ok_def lost_def)
  then have "hd (numbered (tp_events t)) = enumerate 1 log ! lost t log"
    by (simp add: hd_drop_conv_nth)
  then have n: "unat n = Suc (lost t log)"
    using \<open>lost t log < length log\<close> by (simp add: e numbered_def nth_enumerate_eq)
  have first: "first_sequence t = n" by (simp add: first_sequence_def e)
  show ?thesis
  proof (cases "after = - 1")
    case True
    have "unat n \<le> unat after" using True by (simp flip: word_le_nat_alt)
    with True n show ?thesis by (simp add: saturating_succ_def word_less_nat_alt first)
  qed (simp add: saturating_succ_def word_less_nat_alt first n unat_succ)
qed

lemma read_spec:
  assumes "event_inv (s, logs)" "read_events owner x s = (Ok r, s')"
  obtains b t after out latest where
    "bt_get (es_subscriptions s) (ri_subscription x) = Some b" "sb_owner b = owner"
    "bt_get (es_topics s) (sb_topic b) = Some t" "topic_ok t (logs (sb_topic b))"
    "parse_after (ri_after x) (sb_topic b) (tp_sequence t) (sb_acknowledged b) = Ok after"
    "answers 64 (unat after) t (logs (sb_topic b)) out"
    "unat latest = position_after (unat after) t (logs (sb_topic b)) out"
    "r = read_reply (sb_topic b) t out latest (saturating_succ after < first_sequence t)"
    "s' = s\<lparr>es_subscriptions := bt_insert (ri_subscription x)
        (b\<lparr>sb_delivered := max (sb_delivered b) latest\<rparr>) (es_subscriptions s)\<rparr>"
  using assms(2)
proof (cases rule: read_cases)
  case (2 b t limit after out reached latest)
  have ok: "topic_ok t (logs (sb_topic b))" using assms(1) 2(3) by (simp add: event_inv_def topics_ok_def)
  note d = deliver_answers [OF ok _ 2(6)]
  have "answers limit (unat after) t (logs (sb_topic b)) out" "limit \<le> 64"
    using d(1) bounded_ok [OF 2(4)] by auto
  then have "answers 64 (unat after) t (logs (sb_topic b)) out" by (auto simp: answers_def)
  moreover have "unat latest = position_after (unat after) t (logs (sb_topic b)) out"
  proof (cases "tp_provider_retired t")
    case True
    then show ?thesis using 2(7) ok by (simp add: position_after_def topic_ok_def)
  next
    case False
    with d(2) bounded_ok [OF 2(4)] 2(7) show ?thesis by simp
  qed
  ultimately show ?thesis using 2 ok by (intro that) simp_all
qed simp

section \<open>A subscriber that reads and acknowledges\<close>

definition reply_values :: "json \<Rightarrow> json list" where
  "reply_values r =
     (case json_get ''events'' r of Some (JArray es) \<Rightarrow> List.map_filter (json_get ''value'') es | _ \<Rightarrow> [])"

definition reply_cursor :: "json \<Rightarrow> string" where
  "reply_cursor r = (case json_get ''cursor'' r of Some (JString c) \<Rightarrow> c | _ \<Rightarrow> [])"

text \<open>
  The subscriber: read from the acknowledged position, acknowledge the cursor of the reply, the
  given number of times. None when a call fails.
\<close>

fun poll :: "nat \<Rightarrow> owner_key \<Rightarrow> string \<Rightarrow> event_store \<Rightarrow> (json list \<times> event_store) option" where
  "poll 0 owner j s = Some ([], s)"
| "poll (Suc n) owner j s =
     (case read_events owner \<lparr>ri_subscription = j, ri_after = None, ri_limit = None, ri_wait_ms = 0\<rparr> s of
        (Ok r, s1) \<Rightarrow>
          (case ack_events owner \<lparr>ai_subscription = j, ai_cursor = reply_cursor r\<rparr> s1 of
             (Ok _, s2) \<Rightarrow> map_option (\<lambda>(xs, s3). (reply_values r @ xs, s3)) (poll n owner j s2)
           | _ \<Rightarrow> None)
      | _ \<Rightarrow> None)"

lemma reply_values_read: "reply_values (read_reply i t out latest gap) = map snd out"
proof -
  have "List.map_filter (json_get ''value'') (map (event_json i) out) = map snd out"
    by (induction out) (simp_all add: event_json_def map_filter_simps)
  then show ?thesis by (simp add: reply_values_def read_reply_def)
qed

lemma reply_cursor_read: "reply_cursor (read_reply i t out latest gap) = cursor i latest"
  by (simp add: reply_cursor_def read_reply_def)

lemma parse_cursor_cursor: "n \<le> m \<Longrightarrow> parse_cursor (cursor i n) i m = Ok n"
proof -
  have "CHR '':'' \<notin> set (show_u64 n)" by (rule show_u64_no_sep) (simp add: ascii_digit_def byte_def)
  then show "n \<le> m \<Longrightarrow> parse_cursor (cursor i n) i m = Ok n"
    by (simp add: parse_cursor_ok cursor_def rsplit_once_append parse_show_u64)
qed

lemma plain_values: "map snd out = map snd (plain out)"
  by (simp add: plain_def comp_def split_def)

lemma values_after: "map snd (drop n (enumerate k log)) = drop n log"
  by (simp add: drop_map [symmetric])

text \<open>One round of the subscriber.\<close>

lemma poll_round:
  assumes "event_inv (s, logs)" "bt_get (es_subscriptions s) j = Some b" "sb_owner b = owner"
    and "bt_get (es_topics s) (sb_topic b) = Some t" "\<not> tp_provider_retired t"
  obtains r s1 a s2 out b' where
    "read_events owner \<lparr>ri_subscription = j, ri_after = None, ri_limit = None, ri_wait_ms = 0\<rparr> s = (Ok r, s1)"
    "ack_events owner \<lparr>ai_subscription = j, ai_cursor = reply_cursor r\<rparr> s1 = (Ok a, s2)"
    "reply_values r = map snd out" "answers 64 (unat (sb_acknowledged b)) t (logs (sb_topic b)) out"
    "event_inv (s2, logs)" "es_topics s2 = es_topics s" "bt_get (es_subscriptions s2) j = Some b'"
    "sb_owner b' = owner" "sb_topic b' = sb_topic b"
    "unat (sb_acknowledged b') = position_after (unat (sb_acknowledged b)) t (logs (sb_topic b)) out"
proof -
  let ?x = "\<lparr>ri_subscription = j, ri_after = None, ri_limit = None, ri_wait_ms = 0\<rparr>"
  from assms(2,3) have "owned_subscription s owner j = Some b" by (simp add: owned_subscription_Some)
  then have "is_ok (fst (read_events owner ?x s))"
    using assms(4) by (simp add: read_events_def bounded_def parse_after_def Let_def split: prod.splits)
  then obtain r s1 where r: "read_events owner ?x s = (Ok r, s1)"
    by (metis is_ok_iff prod.collapse)
  from assms(1) r obtain out latest where o:
    "answers 64 (unat (sb_acknowledged b)) t (logs (sb_topic b)) out"
    "unat latest = position_after (unat (sb_acknowledged b)) t (logs (sb_topic b)) out"
    "r = read_reply (sb_topic b) t out latest (saturating_succ (sb_acknowledged b) < first_sequence t)"
    "s1 = s\<lparr>es_subscriptions := bt_insert j (b\<lparr>sb_delivered := max (sb_delivered b) latest\<rparr>) (es_subscriptions s)\<rparr>"
    by (rule read_spec) (use assms(2,4) in \<open>auto simp: parse_after_def\<close>)
  let ?c = "\<lparr>ai_subscription = j, ai_cursor = reply_cursor r\<rparr>"
  let ?b = "b\<lparr>sb_delivered := max (sb_delivered b) latest\<rparr>"
  have sub: "owned_subscription s1 owner j = Some ?b"
    using assms(3) by (simp add: owned_subscription_Some o(4))
  have "unat (sb_acknowledged b) \<le> unat latest"
    using o(2) assms(5) by (auto simp: position_after_def intro: trans_le_add1)
  moreover have "parse_cursor (reply_cursor r) (sb_topic b) (max (sb_delivered b) latest) = Ok latest"
    unfolding o(3) reply_cursor_read by (rule parse_cursor_cursor) simp
  ultimately obtain a where a: "ack_events owner ?c s1
      = (Ok a, s1\<lparr>es_subscriptions := bt_insert j (?b\<lparr>sb_acknowledged := latest\<rparr>) (es_subscriptions s1)\<rparr>)"
    using sub by (simp add: ack_events_def word_less_nat_alt)
  show ?thesis
  proof (rule that [OF r a, where b' = "?b\<lparr>sb_acknowledged := latest\<rparr>"])
    show "event_inv (s1\<lparr>es_subscriptions := bt_insert j (?b\<lparr>sb_acknowledged := latest\<rparr>) (es_subscriptions s1)\<rparr>, logs)"
      using read_inv [OF assms(1) r] a by (rule ack_inv)
    show "answers 64 (unat (sb_acknowledged b)) t (logs (sb_topic b)) out" by (rule o(1))
    show "reply_values r = map snd out" by (simp add: o(3) reply_values_read)
  qed (use o(2,4) assms(3) in simp_all)
qed

lemma poll_all:
  assumes "event_inv (s, logs)" "bt_get (es_subscriptions s) j = Some b" "sb_owner b = owner"
    and "bt_get (es_topics s) (sb_topic b) = Some t" "\<not> tp_provider_retired t"
    and "length (logs (sb_topic b)) \<le> n + unat (sb_acknowledged b)"
  shows "\<exists>s' b'. poll n owner j s
      = Some (drop (max (unat (sb_acknowledged b)) (lost t (logs (sb_topic b)))) (logs (sb_topic b)), s')
    \<and> owned_subscription s' owner j = Some b'
    \<and> sb_acknowledged b' = tp_sequence t \<and> es_topics s' = es_topics s"
  using assms
proof (induction n arbitrary: s b)
  case 0
  from 0(1) have ok: "subscriptions_ok s" "topics_ok s logs" by (simp_all add: event_inv_def)
  have "sb_acknowledged b \<le> tp_sequence t"
    using 0(2,4) by (auto elim!: subscriptions_okD [OF ok(1)])
  moreover have "unat (tp_sequence t) = length (logs (sb_topic b))"
    using topics_okD(1) [OF ok(2) 0(4)] by (simp add: topic_ok_def)
  ultimately have "sb_acknowledged b = tp_sequence t" "length (logs (sb_topic b)) \<le> unat (sb_acknowledged b)"
    using 0(6) by (simp_all add: word_le_nat_alt word_unat_eq_iff)
  with 0 show ?case by (simp add: owned_subscription_Some)
next
  case (Suc n)
  let ?log = "logs (sb_topic b)" and ?a = "unat (sb_acknowledged b)"
  obtain r s1 a s2 out b' where round:
    "read_events owner \<lparr>ri_subscription = j, ri_after = None, ri_limit = None, ri_wait_ms = 0\<rparr> s = (Ok r, s1)"
    "ack_events owner \<lparr>ai_subscription = j, ai_cursor = reply_cursor r\<rparr> s1 = (Ok a, s2)"
    "reply_values r = map snd out" "answers 64 ?a t ?log out"
    "event_inv (s2, logs)" "es_topics s2 = es_topics s" "bt_get (es_subscriptions s2) j = Some b'"
    "sb_owner b' = owner" "sb_topic b' = sb_topic b"
    "unat (sb_acknowledged b') = position_after ?a t ?log out"
    using Suc.prems(1-5) by (rule poll_round)
  have pos: "unat (sb_acknowledged b') = (if out = [] then ?a else max ?a (lost t ?log) + length out)"
    using round(10) Suc.prems(5) by (simp add: position_after_def)
  have "length ?log \<le> n + unat (sb_acknowledged b')"
  proof (cases "out = []")
    case True
    then show ?thesis using round(4) Suc.prems(5) pos by (simp add: answers_def)
  next
    case False
    then have "1 \<le> length out" by (cases out) auto
    with False pos Suc.prems(6) show ?thesis by simp
  qed
  then obtain s' b'' where rest: "poll n owner j s2
      = Some (drop (max (unat (sb_acknowledged b')) (lost t ?log)) ?log, s')"
    "owned_subscription s' owner j = Some b''"
    "sb_acknowledged b'' = tp_sequence t" "es_topics s' = es_topics s"
    using Suc.IH [of s2 b'] round(5-9) Suc.prems(4,5) by auto
  have vals: "map snd out = take (length out) (drop (max ?a (lost t ?log)) ?log)"
    using round(4) by (simp add: plain_values [of out] answers_def values_after flip: take_map)
  have "map snd out @ drop (max (unat (sb_acknowledged b')) (lost t ?log)) ?log
      = drop (max ?a (lost t ?log)) ?log"
  proof (cases "out = []")
    case False
    then have p: "max (unat (sb_acknowledged b')) (lost t ?log) = length out + max ?a (lost t ?log)"
      using pos by simp
    show ?thesis unfolding vals p drop_drop [symmetric] by (simp only: append_take_drop_id)
  qed (use pos in simp)
  with rest round(1-3) show ?case by simp
qed

section \<open>Properties\<close>

lemma reachable_events: "event_init w \<Longrightarrow> event_step\<^sup>*\<^sup>* w w' \<Longrightarrow> event_inv w'"
  by (rule events.reachable_inv)

text \<open>
  C35: whatever the plugins do, the store holds at most 128 topics and 256 subscriptions, 16 and
  32 of one owner; a topic keeps at most its own number of events and bytes, which are exactly
  the latest events published on it with their sequence numbers; a closed topic is kept only
  while somebody subscribes to it, and a subscription only while its topic is there, with its
  acknowledged position at most the delivered one and that at most the last event.
\<close>

theorem event_store_bounded:
  assumes "event_init w" "event_step\<^sup>*\<^sup>* w (s, logs)"
  shows "bt_len (es_topics s) \<le> 128 \<and> bt_len (es_subscriptions s) \<le> 256
    \<and> bt_count (\<lambda>_ t. tp_owner t = owner) (es_topics s) \<le> 16
    \<and> bt_count (\<lambda>_ b. sb_owner b = owner) (es_subscriptions s) \<le> 32
    \<and> (\<forall>i t. bt_get (es_topics s) i = Some t \<longrightarrow>
         length (tp_events t) \<le> tp_max_events t \<and> tp_max_events t \<le> 1024
         \<and> sum_list (sizes (tp_events t)) \<le> tp_max_bytes t \<and> tp_max_bytes t \<le> 1048576
         \<and> numbered (tp_events t) = drop (lost t (logs i)) (enumerate 1 (logs i))
         \<and> (tp_closed t \<longrightarrow> subscribed s i))
    \<and> (\<forall>j b. bt_get (es_subscriptions s) j = Some b \<longrightarrow>
         (\<exists>t. bt_get (es_topics s) (sb_topic b) = Some t
            \<and> sb_acknowledged b \<le> sb_delivered b \<and> sb_delivered b \<le> tp_sequence t))"
proof -
  have inv: "event_inv (s, logs)" using assms by (rule reachable_events)
  then have ok: "topics_ok s logs" "subscriptions_ok s" "event_limits s" by (simp_all add: event_inv_def)
  have "length (tp_events t) \<le> tp_max_events t \<and> tp_max_events t \<le> 1024
       \<and> sum_list (sizes (tp_events t)) \<le> tp_max_bytes t \<and> tp_max_bytes t \<le> 1048576
       \<and> numbered (tp_events t) = drop (lost t (logs i)) (enumerate 1 (logs i))
       \<and> (tp_closed t \<longrightarrow> subscribed s i)" if "bt_get (es_topics s) i = Some t" for i t
    using topics_okD [OF ok(1) that] by (auto simp: topic_ok_def lost_def)
  moreover have "bt_len (es_topics s) \<le> 128 \<and> bt_len (es_subscriptions s) \<le> 256"
    using ok(3) by (simp add: event_limits_def)
  ultimately show ?thesis
    using event_inv_counts [OF inv, of owner] ok(2) unfolding subscriptions_ok_def by blast
qed

text \<open>
  C20: a successful read, in any reachable store, is a read of the list of everything published
  on the topic: the events returned are the next ones after the position the caller named (or
  acknowledged), skipping exactly those that were dropped from the buffer; at most 64 are
  returned, and none only if there is nothing left or the provider has retired; the gap flag is
  set exactly when events were skipped, the reply's cursor is the position reached, and nothing
  else changes than the delivered position of this subscription.
\<close>

theorem event_read_refines_log:
  assumes "event_init w" "event_step\<^sup>*\<^sup>* w (s, logs)" "read_events owner x s = (Ok r, s')"
  shows "\<exists>b t after out latest gap.
    owned_subscription s owner (ri_subscription x) = Some b
    \<and> bt_get (es_topics s) (sb_topic b) = Some t
    \<and> parse_after (ri_after x) (sb_topic b) (tp_sequence t) (sb_acknowledged b) = Ok after
    \<and> r = read_reply (sb_topic b) t out latest gap
    \<and> answers 64 (unat after) t (logs (sb_topic b)) out
    \<and> unat latest = position_after (unat after) t (logs (sb_topic b)) out
    \<and> (length (logs (sb_topic b)) < 2 ^ 64 - 1 \<longrightarrow>
        gap = (unat after < lost t (logs (sb_topic b))))
    \<and> s' = s\<lparr>es_subscriptions := bt_insert (ri_subscription x)
        (b\<lparr>sb_delivered := max (sb_delivered b) latest\<rparr>) (es_subscriptions s)\<rparr>"
proof -
  have "event_inv (s, logs)" using assms(1,2) by (rule reachable_events)
  then obtain b t after out latest where
    b: "bt_get (es_subscriptions s) (ri_subscription x) = Some b" "sb_owner b = owner"
    and t: "bt_get (es_topics s) (sb_topic b) = Some t" "topic_ok t (logs (sb_topic b))"
    and rest: "parse_after (ri_after x) (sb_topic b) (tp_sequence t) (sb_acknowledged b) = Ok after"
      "answers 64 (unat after) t (logs (sb_topic b)) out"
      "unat latest = position_after (unat after) t (logs (sb_topic b)) out"
      "r = read_reply (sb_topic b) t out latest (saturating_succ after < first_sequence t)"
      "s' = s\<lparr>es_subscriptions := bt_insert (ri_subscription x)
        (b\<lparr>sb_delivered := max (sb_delivered b) latest\<rparr>) (es_subscriptions s)\<rparr>"
    using assms(3) by (rule read_spec)
  have "owned_subscription s owner (ri_subscription x) = Some b" using b by (simp add: owned_subscription_Some)
  moreover have "length (logs (sb_topic b)) < 2 ^ 64 - 1 \<longrightarrow>
      (saturating_succ after < first_sequence t) = (unat after < lost t (logs (sb_topic b)))"
    using gap_lost [OF t(2)] by blast
  ultimately show ?thesis using t(1) rest by blast
qed

text \<open>
  C27: a subscriber that keeps reading and acknowledging catches up: from any reachable store,
  after at most as many rounds as events it has not acknowledged, no call having failed, it has
  received every event it had not acknowledged and that was still retained, each once and in the
  order of publication, and its acknowledged position is the topic's last sequence number.
\<close>

theorem polling_catches_up:
  assumes "event_init w" "event_step\<^sup>*\<^sup>* w (s, logs)"
    and "owned_subscription s owner j = Some b" "bt_get (es_topics s) (sb_topic b) = Some t"
    and "\<not> tp_provider_retired t"
  shows "\<exists>s' b'. poll (length (logs (sb_topic b)) - unat (sb_acknowledged b)) owner j s
      = Some (drop (max (unat (sb_acknowledged b)) (lost t (logs (sb_topic b)))) (logs (sb_topic b)), s')
    \<and> owned_subscription s' owner j = Some b'
    \<and> sb_acknowledged b' = tp_sequence t \<and> es_topics s' = es_topics s"
proof -
  have "event_inv (s, logs)" using assms(1,2) by (rule reachable_events)
  moreover have "bt_get (es_subscriptions s) j = Some b" "sb_owner b = owner"
    using assms(3) by (simp_all add: owned_subscription_Some)
  ultimately show ?thesis using assms(4,5) by (intro poll_all) simp_all
qed

end
