(* ===== verification/Resource_Tasks.thy ===== *)
theory Resource_Tasks
  imports Resource_Events
begin

text \<open>
  The task control plane (\<open>src/src/core_resources/tasks.rs\<close>): runners, tasks with a claim and a
  deadline, and the idempotency records of started operations.

  Arguments of the model: the decoders of the parameters, the serialized length of a value, the
  tokens drawn, and the clocks. The monotonic clock is in nanoseconds; every reading a call
  makes is a field of its own.
\<close>

section \<open>State\<close>

datatype task_state = Queued | Running | Succeeded | Failed | Cancelled | Interrupted

fun state_str :: "task_state \<Rightarrow> string" where
  "state_str Queued = ''queued''"
| "state_str Running = ''running''"
| "state_str Succeeded = ''succeeded''"
| "state_str Failed = ''failed''"
| "state_str Cancelled = ''cancelled''"
| "state_str Interrupted = ''interrupted''"

record runner =
  rn_owner :: owner_key
  rn_name :: string

record task =
  tk_owner :: owner_key
  tk_runner :: string
  tk_input :: json
  tk_state :: task_state
  tk_claim :: "string option"
  tk_cancel_requested :: bool
  tk_progress :: json
  tk_result :: "json option"
  tk_error :: "json option"
  tk_revision :: u64
  tk_created_at :: u64
  tk_deadline :: nat
  tk_deadline_at :: u64

record task_store =
  ts_runners :: "(string, runner) btree"
  ts_tasks :: "(string, task) btree"
  ts_operations :: "(owner_key \<times> string, json \<times> string) btree"

definition tasks_default :: task_store where
  "tasks_default = \<lparr>ts_runners = bt_empty, ts_tasks = bt_empty, ts_operations = bt_empty\<rparr>"

type_synonym tasks_result = "json service_result \<times> task_store"

definition terminal :: "task \<Rightarrow> bool" where
  "terminal t = (tk_state t \<noteq> Queued \<and> tk_state t \<noteq> Running)"

definition json_u64 :: "u64 \<Rightarrow> json" where
  "json_u64 n = JNumber (show_u64 n)"

definition snapshot :: "task \<Rightarrow> string \<Rightarrow> json" where
  "snapshot t i =
     JObject [(''task'', JString i), (''operationId'', JString i), (''runner'', JString (tk_runner t)),
       (''state'', JString (state_str (tk_state t))), (''cancelRequested'', JBool (tk_cancel_requested t)),
       (''progress'', tk_progress t), (''result'', opt_json (\<lambda>x. x) (tk_result t)),
       (''error'', opt_json (\<lambda>x. x) (tk_error t)), (''revision'', JString (show_u64 (tk_revision t))),
       (''createdAt'', json_u64 (tk_created_at t)), (''deadlineAt'', json_u64 (tk_deadline_at t)),
       (''outcomeKnown'', JBool (tk_state t \<noteq> Interrupted)), (''terminal'', JBool (terminal t))]"

section \<open>Inputs\<close>

record start_input =
  st_runner :: string
  st_input :: json
  st_operation_key :: string
  st_timeout_ms :: "u64 option"

record claim_input =
  cl_runner :: string
  cl_limit :: "nat option"
  cl_wait_ms :: u64

record progress_input =
  pg_task :: string
  pg_claim :: string
  pg_progress :: json

record finish_input =
  fi_task :: string
  fi_claim :: string
  fi_state :: string
  fi_result :: "json option"
  fi_error :: "json option"

record list_input =
  li_limit :: "nat option"
  li_after :: "string option"

record task_env =
  te_size :: "json \<Rightarrow> nat option"
  te_token :: "nat \<Rightarrow> string option"
  te_expire_now :: nat
  te_start_now :: nat
  te_claim_now :: "nat \<Rightarrow> nat"
  te_wall_ms :: u64
  te_register :: "string decoder"
  te_start :: "start_input decoder"
  te_claim :: "claim_input decoder"
  te_progress :: "progress_input decoder"
  te_finish :: "finish_input decoder"
  te_selected :: "string decoder"
  te_list :: "list_input decoder"
  te_unregister :: "string decoder"

section \<open>Operations\<close>

text \<open>A task that has to end now, for the given reason.\<close>

definition stopped :: "string \<Rightarrow> task \<Rightarrow> task" where
  "stopped code t =
     t\<lparr>tk_cancel_requested := True,
       tk_state := (if tk_claim t \<noteq> None then Interrupted else Cancelled),
       tk_error := Some (JObject [(''code'', JString code)]), tk_revision := tk_revision t + 1\<rparr>"

definition expire :: "nat \<Rightarrow> task_store \<Rightarrow> task_store" where
  "expire now s =
     s\<lparr>ts_tasks := bt_map (\<lambda>_ t. if \<not> terminal t \<and> tk_deadline t \<le> now
         then stopped ''task_timeout'' t else t) (ts_tasks s)\<rparr>"

definition owns_runner :: "task_store \<Rightarrow> owner_key \<Rightarrow> string \<Rightarrow> bool" where
  "owns_runner s owner i =
     (case bt_get (ts_runners s) i of None \<Rightarrow> False | Some r \<Rightarrow> rn_owner r = owner)"

definition owned_task :: "task_store \<Rightarrow> owner_key \<Rightarrow> string \<Rightarrow> task option" where
  "owned_task s owner i =
     (case bt_get (ts_tasks s) i of
        None \<Rightarrow> None
      | Some t \<Rightarrow> if tk_owner t = owner then Some t else None)"

definition put_task :: "string \<Rightarrow> task \<Rightarrow> task_store \<Rightarrow> task_store" where
  "put_task i t s = s\<lparr>ts_tasks := bt_insert i t (ts_tasks s)\<rparr>"

definition register_runner :: "task_env \<Rightarrow> owner_key \<Rightarrow> string \<Rightarrow> task_store \<Rightarrow> tasks_result" where
  "register_runner v owner name s =
     (case check_name name of Err e \<Rightarrow> (Err e, s) | Panic \<Rightarrow> (Panic, s) | Ok _ \<Rightarrow>
      if 128 \<le> bt_len (ts_runners s) \<or> 16 \<le> bt_count (\<lambda>_ r. rn_owner r = owner) (ts_runners s)
      then (Err (limit_error ''runner limit reached''), s)
      else if bt_any (\<lambda>_ r. rn_owner r = owner \<and> rn_name r = name) (ts_runners s)
      then (Err (ServiceError ''resource_conflict'' ''runner name already registered''), s)
      else case draw_token (te_token v) 0 of Err e \<Rightarrow> (Err e, s) | Panic \<Rightarrow> (Panic, s) | Ok i \<Rightarrow>
        (Ok (JObject [(''runner'', JString i)]),
         s\<lparr>ts_runners := bt_insert i \<lparr>rn_owner = owner, rn_name = name\<rparr> (ts_runners s)\<rparr>))"

text \<open>A new task; the timeout is in milliseconds, the monotonic clock in nanoseconds.\<close>

definition new_task :: "task_env \<Rightarrow> owner_key \<Rightarrow> start_input \<Rightarrow> u64 \<Rightarrow> task" where
  "new_task v owner input timeout =
     \<lparr>tk_owner = owner, tk_runner = st_runner input, tk_input = st_input input, tk_state = Queued,
      tk_claim = None, tk_cancel_requested = False, tk_progress = JNull, tk_result = None,
      tk_error = None, tk_revision = 1, tk_created_at = te_wall_ms v,
      tk_deadline = te_start_now v + 1000000 * unat timeout, tk_deadline_at = te_wall_ms v + timeout\<rparr>"

definition start_task ::
    "task_env \<Rightarrow> owner_key \<Rightarrow> json \<Rightarrow> start_input \<Rightarrow> task_store \<Rightarrow> tasks_result" where
  "start_task v owner params input s =
     (case check_name (st_operation_key input) of Err e \<Rightarrow> (Err e, s) | Panic \<Rightarrow> (Panic, s) | Ok _ \<Rightarrow>
      case check_bytes (te_size v) (st_input input) (64 * 1024) of Err e \<Rightarrow> (Err e, s) | Panic \<Rightarrow> (Panic, s) | Ok _ \<Rightarrow>
      (case bt_get (ts_operations s) (owner, st_operation_key input) of
         Some (original, i) \<Rightarrow>
           if original \<noteq> params
           then (Err (ServiceError ''operation_conflict'' ''operationKey has different task input''), s)
           else (case bt_get (ts_tasks s) i of None \<Rightarrow> (Err missing, s) | Some t \<Rightarrow> (Ok (snapshot t i), s))
       | None \<Rightarrow>
           if \<not> owns_runner s owner (st_runner input) then (Err missing, s)
           else if 256 \<le> bt_len (ts_tasks s) \<or> 64 \<le> bt_count (\<lambda>_ t. tk_owner t = owner) (ts_tasks s)
           then (Err (limit_error ''retained task limit reached''), s)
           else
             let timeout = (case st_timeout_ms input of Some n \<Rightarrow> n | None \<Rightarrow> 60 * 60 * 1000)
             in if timeout < 1 \<or> 24 * 60 * 60 * 1000 < timeout
                then (Err (invalid ''task timeout must be 1..86400000 ms''), s)
                else case draw_token (te_token v) 0 of Err e \<Rightarrow> (Err e, s) | Panic \<Rightarrow> (Panic, s) | Ok i \<Rightarrow>
                  let t = new_task v owner input timeout
                  in (Ok (snapshot t i),
                      (put_task i t s)\<lparr>ts_operations :=
                         bt_insert (owner, st_operation_key input) (params, i) (ts_operations s)\<rparr>)))"

definition claimed_json :: "task_env \<Rightarrow> nat \<Rightarrow> string \<Rightarrow> task \<Rightarrow> string \<Rightarrow> json" where
  "claimed_json v n i t c =
     JObject [(''task'', JString i), (''claim'', JString c), (''input'', tk_input t),
       (''remainingMs'', json_nat ((tk_deadline t - te_claim_now v n) div 1000000)),
       (''deadlineAt'', json_u64 (tk_deadline_at t))]"

text \<open>
  The loop over the tasks in key order: how many are claimed already, the entries still to be
  looked at, and the table as changed so far, which stays changed when a token cannot be drawn.
\<close>

fun claim_tasks ::
    "task_env \<Rightarrow> owner_key \<Rightarrow> string \<Rightarrow> nat \<Rightarrow> nat \<Rightarrow> (string \<times> task) list \<Rightarrow> (string, task) btree
     \<Rightarrow> (service_error, json list) outcome \<times> (string, task) btree" where
  "claim_tasks v owner rn capacity n [] m = (Ok [], m)"
| "claim_tasks v owner rn capacity n ((i, t) # es) m =
     (if capacity \<le> n then (Ok [], m)
      else if tk_owner t \<noteq> owner \<or> tk_runner t \<noteq> rn \<or> tk_state t \<noteq> Queued
      then claim_tasks v owner rn capacity n es m
      else case draw_token (te_token v) n of
        Err e \<Rightarrow> (Err e, m)
      | Panic \<Rightarrow> (Panic, m)
      | Ok c \<Rightarrow>
          let t = t\<lparr>tk_claim := Some c, tk_state := Running, tk_revision := tk_revision t + 1\<rparr>
          in case claim_tasks v owner rn capacity (Suc n) es (bt_insert i t m) of
               (Ok cs, m) \<Rightarrow> (Ok (claimed_json v n i t c # cs), m)
             | failed \<Rightarrow> failed)"

definition running_tasks :: "owner_key \<Rightarrow> (string, task) btree \<Rightarrow> nat" where
  "running_tasks owner m = bt_count (\<lambda>_ t. tk_owner t = owner \<and> tk_state t = Running) m"

definition cancellations :: "owner_key \<Rightarrow> string \<Rightarrow> (string, task) btree \<Rightarrow> json list" where
  "cancellations owner rn m =
     map (\<lambda>(i, t). JObject [(''task'', JString i), (''state'', JString (state_str (tk_state t))),
            (''cancelRequested'', JBool True)])
       (filter (\<lambda>(_, t). tk_owner t = owner \<and> tk_runner t = rn \<and> tk_claim t \<noteq> None \<and> tk_cancel_requested t)
         (bt_entries m))"

definition claim_work :: "task_env \<Rightarrow> owner_key \<Rightarrow> claim_input \<Rightarrow> task_store \<Rightarrow> tasks_result" where
  "claim_work v owner input s =
     (if 1000 < cl_wait_ms input then (Err (invalid ''waitMs exceeds 1000''), s)
      else case bounded (cl_limit input) 1 4 of Err e \<Rightarrow> (Err e, s) | Panic \<Rightarrow> (Panic, s) | Ok limit \<Rightarrow>
      if \<not> owns_runner s owner (cl_runner input) then (Err missing, s)
      else
        let capacity = min (4 - running_tasks owner (ts_tasks s)) limit
        in case claim_tasks v owner (cl_runner input) capacity 0 (bt_entries (ts_tasks s)) (ts_tasks s) of
             (Err e, m) \<Rightarrow> (Err e, s\<lparr>ts_tasks := m\<rparr>)
           | (Panic, m) \<Rightarrow> (Panic, s\<lparr>ts_tasks := m\<rparr>)
           | (Ok claimed, m) \<Rightarrow>
               (Ok (JObject [(''tasks'', JArray claimed),
                  (''cancellations'', JArray (cancellations owner (cl_runner input) m))]),
                s\<lparr>ts_tasks := m\<rparr>))"

text \<open>The task a caller may report on: its own, with the claim it holds, and not ended.\<close>

definition claimed_task :: "task_store \<Rightarrow> owner_key \<Rightarrow> string \<Rightarrow> string \<Rightarrow> task service_result" where
  "claimed_task s owner i claim =
     (case owned_task s owner i of
        None \<Rightarrow> Err missing
      | Some t \<Rightarrow>
          if tk_claim t \<noteq> Some claim
          then Err (ServiceError ''claim_denied'' ''task claim does not belong to this runner'')
          else if terminal t then Err (ServiceError ''task_terminal'' ''task outcome is already final'')
          else Ok t)"

definition report_progress :: "task_env \<Rightarrow> owner_key \<Rightarrow> progress_input \<Rightarrow> task_store \<Rightarrow> tasks_result" where
  "report_progress v owner input s =
     (case check_bytes (te_size v) (pg_progress input) (16 * 1024) of Err e \<Rightarrow> (Err e, s) | Panic \<Rightarrow> (Panic, s) | Ok _ \<Rightarrow>
      (case claimed_task s owner (pg_task input) (pg_claim input) of Err e \<Rightarrow> (Err e, s) | Panic \<Rightarrow> (Panic, s) | Ok t \<Rightarrow>
       let t = t\<lparr>tk_progress := pg_progress input, tk_revision := tk_revision t + 1\<rparr>
       in (Ok (snapshot t (pg_task input)), put_task (pg_task input) t s)))"

definition check_opt_bytes :: "(json \<Rightarrow> nat option) \<Rightarrow> json option \<Rightarrow> nat \<Rightarrow> unit service_result" where
  "check_opt_bytes len x most = (case x of None \<Rightarrow> Ok () | Some j \<Rightarrow> check_bytes len j most)"

text \<open>The end state a runner may report.\<close>

definition finish_state :: "task \<Rightarrow> finish_input \<Rightarrow> task_state service_result" where
  "finish_state t input =
     (if fi_state input = ''succeeded''
      then (if fi_error input \<noteq> None then Err (invalid ''successful task cannot carry an error'')
            else Ok Succeeded)
      else if fi_state input = ''failed''
      then (if fi_result input \<noteq> None then Err (invalid ''failed task cannot carry a result'')
            else Ok Failed)
      else if fi_state input = ''cancelled'' \<and> tk_cancel_requested t
      then (if fi_result input \<noteq> None then Err (invalid ''cancelled task cannot carry a result'')
            else Ok Cancelled)
      else Err (invalid ''finish requires succeeded, failed or acknowledged cancelled''))"

definition finish_task :: "task_env \<Rightarrow> owner_key \<Rightarrow> finish_input \<Rightarrow> task_store \<Rightarrow> tasks_result" where
  "finish_task v owner input s =
     (case and_then (claimed_task s owner (fi_task input) (fi_claim input)) (\<lambda>t.
           and_then (check_opt_bytes (te_size v) (fi_result input) (128 * 1024)) (\<lambda>_.
           and_then (check_opt_bytes (te_size v) (fi_error input) (16 * 1024)) (\<lambda>_.
           and_then (finish_state t input) (\<lambda>st. Ok (t, st))))) of
        Err e \<Rightarrow> (Err e, s)
      | Panic \<Rightarrow> (Panic, s)
      | Ok (t, st) \<Rightarrow>
          let t = t\<lparr>tk_state := st, tk_result := fi_result input, tk_error := fi_error input,
                    tk_revision := tk_revision t + 1\<rparr>
          in (Ok (snapshot t (fi_task input)), put_task (fi_task input) t s))"

definition cancel_task :: "owner_key \<Rightarrow> string \<Rightarrow> task_store \<Rightarrow> tasks_result" where
  "cancel_task owner i s =
     (case owned_task s owner i of
        None \<Rightarrow> (Err missing, s)
      | Some t \<Rightarrow>
          let t = (if terminal t then t
            else t\<lparr>tk_cancel_requested := True,
                   tk_state := (if tk_state t = Queued then Cancelled else tk_state t),
                   tk_revision := tk_revision t + 1\<rparr>)
          in (Ok (snapshot t i), put_task i t s))"

definition get_task :: "owner_key \<Rightarrow> string \<Rightarrow> task_store \<Rightarrow> tasks_result" where
  "get_task owner i s =
     (case owned_task s owner i of None \<Rightarrow> (Err missing, s) | Some t \<Rightarrow> (Ok (snapshot t i), s))"

fun list_snapshots ::
    "(json \<Rightarrow> nat option) \<Rightarrow> nat \<Rightarrow> nat \<Rightarrow> nat \<Rightarrow> (string \<times> task) list \<Rightarrow> (json list \<times> bool) service_result" where
  "list_snapshots len limit count used [] = Ok ([], False)"
| "list_snapshots len limit count used ((i, t) # es) =
     (case len (snapshot t i) of
        None \<Rightarrow> Err (invalid ''invalid task snapshot'')
      | Some k \<Rightarrow>
          if limit \<le> count \<or> 192 * 1024 < used + k then Ok ([], True)
          else and_then (list_snapshots len limit (Suc count) (used + k) es)
                 (\<lambda>(vs, truncated). Ok (snapshot t i # vs, truncated)))"

definition list_tasks :: "task_env \<Rightarrow> owner_key \<Rightarrow> list_input \<Rightarrow> task_store \<Rightarrow> tasks_result" where
  "list_tasks v owner input s =
     (case and_then (bounded (li_limit input) 32 64) (\<lambda>limit.
        list_snapshots (te_size v) limit 0 0
          (filter (\<lambda>(i, t). tk_owner t = owner \<and> (case li_after input of None \<Rightarrow> True | Some a \<Rightarrow> a < i))
            (bt_entries (ts_tasks s)))) of
        Err e \<Rightarrow> (Err e, s)
      | Panic \<Rightarrow> (Panic, s)
      | Ok (vs, truncated) \<Rightarrow>
          (Ok (JObject [(''tasks'', JArray vs),
             (''cursor'',
              if truncated \<and> vs \<noteq> []
              then opt_json JString (Option.bind (json_get ''task'' (last vs)) json_str) else JNull)]), s))"

definition unregister_runner :: "owner_key \<Rightarrow> string \<Rightarrow> task_store \<Rightarrow> tasks_result" where
  "unregister_runner owner i s =
     (if \<not> owns_runner s owner i then (Err missing, s)
      else (Ok (JObject [(''unregistered'', JBool True)]),
            s\<lparr>ts_runners := bt_remove i (ts_runners s),
              ts_tasks := bt_map (\<lambda>_ t. if tk_owner t = owner \<and> tk_runner t = i \<and> \<not> terminal t
                then stopped ''runner_retired'' t else t) (ts_tasks s)\<rparr>))"

definition dispatch_tasks :: "task_env \<Rightarrow> owner_key \<Rightarrow> string \<Rightarrow> json \<Rightarrow> task_store \<Rightarrow> tasks_result" where
  "dispatch_tasks v owner method params s =
     (if method = ''tasks.register'' then with_input (te_register v) params s (\<lambda>x. register_runner v owner x s)
      else if method = ''tasks.start'' then with_input (te_start v) params s (\<lambda>x. start_task v owner params x s)
      else if method = ''tasks.claim'' then with_input (te_claim v) params s (\<lambda>x. claim_work v owner x s)
      else if method = ''tasks.progress'' then with_input (te_progress v) params s (\<lambda>x. report_progress v owner x s)
      else if method = ''tasks.finish'' then with_input (te_finish v) params s (\<lambda>x. finish_task v owner x s)
      else if method = ''tasks.cancel'' then with_input (te_selected v) params s (\<lambda>x. cancel_task owner x s)
      else if method = ''tasks.get'' \<or> method = ''tasks.result''
      then with_input (te_selected v) params s (\<lambda>x. get_task owner x s)
      else if method = ''tasks.list'' then with_input (te_list v) params s (\<lambda>x. list_tasks v owner x s)
      else if method = ''tasks.unregister''
      then with_input (te_unregister v) params s (\<lambda>x. unregister_runner owner x s)
      else (Err (unknown_method ''unknown task method''), s))"

definition tasks_invoke :: "task_env \<Rightarrow> owner_key \<Rightarrow> string \<Rightarrow> json \<Rightarrow> task_store \<Rightarrow> tasks_result" where
  "tasks_invoke v owner method params s =
     dispatch_tasks v owner method params (expire (te_expire_now v) s)"

definition tasks_retire :: "owner_key \<Rightarrow> task_store \<Rightarrow> task_store" where
  "tasks_retire owner s =
     s\<lparr>ts_runners := bt_retain (\<lambda>_ r. rn_owner r \<noteq> owner) (ts_runners s),
       ts_tasks := bt_retain (\<lambda>_ t. tk_owner t \<noteq> owner) (ts_tasks s),
       ts_operations := bt_retain (\<lambda>(key, _) _. key \<noteq> owner) (ts_operations s)\<rparr>"

definition tasks_list_resources :: "owner_key \<Rightarrow> task_store \<Rightarrow> json list" where
  "tasks_list_resources owner s =
     map (\<lambda>(i, t). JObject [(''id'', JString i), (''kind'', JString ''task''),
            (''state'', JString (state_str (tk_state t))), (''cancelRequested'', JBool (tk_cancel_requested t))])
       (filter (\<lambda>(_, t). tk_owner t = owner) (bt_entries (ts_tasks s)))"

end
