(* ===== verification/Resource_Processes.thy ===== *)
theory Resource_Processes
  imports Resource_Tasks
begin

text \<open>
  The processes plugins run (\<open>src/src/core_resources/processes.rs\<close>): the table of processes and of
  started operations, admission and spawning, the buffers and the standard input of one process,
  its monitor thread, and closing.

  A process object is shared by the table, its monitor and the calls in progress. The model keeps
  it in the table under its handle, and, once it has left the table, among those that calls in
  progress may still hold. Arguments of the model: the decoders, tokens, the checks of
  \<open>os_broker/filesystem.rs\<close> on the paths of the program and the directory, the environment, and
  what the operating system answers.
\<close>

definition BUFFER_BYTES :: nat where "BUFFER_BYTES = 256 * 1024"
definition CHUNK_BYTES :: nat where "CHUNK_BYTES = 32 * 1024"

section \<open>State\<close>

record process_io =
  po_stdout :: "u8 list"
  po_stderr :: "u8 list"
  po_stdout_eof :: bool
  po_stderr_eof :: bool
  po_exit_code :: "u32 option"
  po_reaped :: bool
  po_worker_done :: bool
  po_streams_closed :: bool
  po_error :: "string option"
  po_output_discarded :: bool
  po_next_write :: u64
  po_last_write :: "(u64 \<times> string \<times> nat service_result) option"

text \<open>
  \<open>pr_terminated\<close> says that the operating system has been asked to end the process with all it
  started.
\<close>

record process =
  pr_pid :: u32
  pr_terminated :: bool
  pr_stdin :: bool
  pr_stop :: bool
  pr_io :: process_io
  pr_worker :: bool
  pr_closed :: bool

record process_store =
  ps_entries :: "(string, owner_key \<times> process) btree"
  ps_operations :: "(owner_key \<times> string, json \<times> string) btree"
  ps_detached :: "(string, owner_key \<times> process) btree"

definition processes_default :: process_store where
  "processes_default = \<lparr>ps_entries = bt_empty, ps_operations = bt_empty, ps_detached = bt_empty\<rparr>"

definition io_default :: process_io where
  "io_default = \<lparr>po_stdout = [], po_stderr = [], po_stdout_eof = False, po_stderr_eof = False, po_exit_code = None,
     po_reaped = False, po_worker_done = False, po_streams_closed = False, po_error = None,
     po_output_discarded = False, po_next_write = 0, po_last_write = None\<rparr>"

section \<open>The monitor\<close>

text \<open>What one read of a pipe gives; end of file is a read of nothing.\<close>

datatype pipe_answer = Bytes "u8 list" | TimedOut | StreamClosed | PipeError

definition pump :: "pipe_answer \<Rightarrow> bool \<Rightarrow> process_io \<Rightarrow> bool \<times> process_io" where
  "pump x is_stdout s =
     (let (buffer, eof) = (if is_stdout then (po_stdout s, po_stdout_eof s) else (po_stderr s, po_stderr_eof s));
          capacity = min (BUFFER_BYTES - length buffer) 8192;
          ended = (if is_stdout then s\<lparr>po_stdout_eof := True\<rparr> else s\<lparr>po_stderr_eof := True\<rparr>)
      in if eof \<or> capacity = 0 then (True, s)
         else case x of
           Bytes data \<Rightarrow>
             let chunk = take capacity data in
             if chunk = [] then (True, ended)
             else (True, if is_stdout then s\<lparr>po_stdout := buffer @ chunk\<rparr> else s\<lparr>po_stderr := buffer @ chunk\<rparr>)
         | TimedOut \<Rightarrow> (True, s)
         | StreamClosed \<Rightarrow> (True, ended)
         | PipeError \<Rightarrow> (False, s))"

text \<open>
  What the operating system answers to one turn of the monitor, and, should the turn be the last,
  what the last question of the two seconds after it gives.
\<close>

record monitor_env =
  mv_stdout :: pipe_answer
  mv_stderr :: pipe_answer
  mv_wait :: "u32 option option"
  mv_scope_empty :: bool
  mv_last_code :: "u32 option"
  mv_last_reaped :: bool

definition monitor_ends :: "monitor_env \<Rightarrow> bool \<Rightarrow> process \<Rightarrow> process" where
  "monitor_ends m aborted p =
     (let s = pr_io p;
          s = s\<lparr>po_exit_code := (case mv_last_code m of Some c \<Rightarrow> Some c | None \<Rightarrow> po_exit_code s),
                po_reaped := mv_last_reaped m, po_worker_done := True, po_streams_closed := True,
                po_output_discarded := (aborted \<and> (\<not> po_stdout_eof s \<or> \<not> po_stderr_eof s))\<rparr>;
          s = (if mv_last_reaped m then s else s\<lparr>po_error := Some ''cleanup_incomplete''\<rparr>)
      in p\<lparr>pr_stop := (aborted \<or> pr_stop p), pr_terminated := (aborted \<or> pr_terminated p), pr_io := s\<rparr>)"

text \<open>One turn of the loop; the thread is gone once it has ended.\<close>

definition monitor :: "monitor_env \<Rightarrow> process \<Rightarrow> process" where
  "monitor m p =
     (if po_worker_done (pr_io p) then p
      else if pr_stop p then monitor_ends m True p
      else
        let (ok, s) = pump (mv_stdout m) True (pr_io p);
            (ok, s) = (if ok then pump (mv_stderr m) False s else (ok, s))
        in if \<not> ok then monitor_ends m True (p\<lparr>pr_io := s\<lparr>po_error := Some ''process_io_error''\<rparr>\<rparr>)
        else case mv_wait m of
          Some (Some code) \<Rightarrow>
            let s = s\<lparr>po_exit_code := Some code, po_reaped := mv_scope_empty m\<rparr> in
            if mv_scope_empty m \<and> po_stdout_eof s \<and> po_stderr_eof s then monitor_ends m False (p\<lparr>pr_io := s\<rparr>)
            else p\<lparr>pr_io := s, pr_terminated := (\<not> mv_scope_empty m \<or> pr_terminated p)\<rparr>
        | Some None \<Rightarrow> p\<lparr>pr_io := s\<rparr>
        | None \<Rightarrow> monitor_ends m True (p\<lparr>pr_io := s\<lparr>po_error := Some ''process_wait_failed''\<rparr>\<rparr>))"

section \<open>One process\<close>

definition drain :: "bool \<Rightarrow> nat \<Rightarrow> process \<Rightarrow> json \<times> process" where
  "drain is_stdout most p =
     (let s = pr_io p;
          buffer = (if is_stdout then po_stdout s else po_stderr s);
          eof = (if is_stdout then po_stdout_eof s else po_stderr_eof s);
          rest = drop most buffer
      in (JObject [(''bytes'', JArray (map (\<lambda>b. json_nat (unat b)) (take most buffer))),
            (''eof'', JBool (eof \<and> rest = [])), (''closed'', JBool (po_streams_closed s \<and> rest = [])),
            (''error'', opt_json JString (po_error s))],
          p\<lparr>pr_io := (if is_stdout then s\<lparr>po_stdout := rest\<rparr> else s\<lparr>po_stderr := rest\<rparr>)\<rparr>))"

definition write_stdin :: "string \<Rightarrow> bool \<Rightarrow> u8 list \<Rightarrow> u64 \<Rightarrow> process \<Rightarrow> json service_result \<times> process" where
  "write_stdin hash delivered data sequence p =
     (let s = pr_io p;
          receipt = (\<lambda>count. JObject [(''acceptedBytes'', json_nat count), (''nextSequence'', JString (show_u64 (po_next_write s))),
            (''replayedReceipt'', JBool True)])
      in case (case po_last_write s of None \<Rightarrow> None | Some (n, h, r) \<Rightarrow> if sequence = n then Some (h, r) else None) of
        Some (h, r) \<Rightarrow>
          (if h \<noteq> hash then Err (ServiceError ''operation_conflict'' ''stdin sequence has different bytes'')
           else and_then r (\<lambda>count. Ok (receipt count)), p)
      | None \<Rightarrow>
          if sequence \<noteq> po_next_write s
          then (Err (ServiceError ''operation_conflict'' ''stdin sequence is stale or out of order''), p)
          else if pr_closed p then (Err (ServiceError ''resource_closed'' ''process is closed''), p)
          else if \<not> pr_stdin p then (Err (ServiceError ''resource_closed'' ''stdin is closed''), p)
          else
            let result = (if delivered then Ok (length data)
                  else Err (ServiceError ''outcome_unknown'' ''stdin write did not fully confirm; do not resend this chunk''))
            in (case checked_succ (po_next_write s) of
              None \<Rightarrow> (Err (limit_error ''stdin sequence exhausted''), p)
            | Some n \<Rightarrow>
                let s = s\<lparr>po_next_write := n, po_last_write := Some (sequence, hash, result)\<rparr> in
                (and_then result (\<lambda>count. Ok (JObject [(''acceptedBytes'', json_nat count),
                     (''nextSequence'', JString (show_u64 n))])),
                 if delivered then p\<lparr>pr_io := s\<rparr>
                 else p\<lparr>pr_io := s\<lparr>po_error := Some ''stdin_write_unconfirmed''\<rparr>, pr_stdin := False, pr_stop := True,
                        pr_terminated := True\<rparr>)))"

definition end_input :: "process \<Rightarrow> process" where
  "end_input p = p\<lparr>pr_stdin := False\<rparr>"

definition terminate :: "process \<Rightarrow> process" where
  "terminate p = p\<lparr>pr_stop := True, pr_terminated := True\<rparr>"

definition request_close :: "process \<Rightarrow> process" where
  "request_close p = p\<lparr>pr_closed := True, pr_stop := True, pr_terminated := True\<rparr>"

text \<open>What its monitor and the other calls do to a process while a call waits on it.\<close>

datatype process_move =
    Monitored monitor_env | Drained bool nat | Written string bool "u8 list" u64 | InputEnded | Terminated
  | CloseRequested | Joined

fun move_process :: "process_move \<Rightarrow> process \<Rightarrow> process" where
  "move_process (Monitored m) p = monitor m p"
| "move_process (Drained is_stdout most) p = snd (drain is_stdout most p)"
| "move_process (Written hash delivered data n) p = snd (write_stdin hash delivered data n p)"
| "move_process InputEnded p = end_input p"
| "move_process Terminated p = terminate p"
| "move_process CloseRequested p = request_close p"
| "move_process Joined p = p\<lparr>pr_worker := False\<rparr>"

abbreviation moves_process :: "process_move list \<Rightarrow> process \<Rightarrow> process" where
  "moves_process \<equiv> fold move_process"

section \<open>Inputs\<close>

record spawn_input =
  sp_executable :: string
  sp_args :: "string list"
  sp_cwd :: "string option"
  sp_env :: "(string, string) btree"
  sp_stdin :: string
  sp_operation_key :: string

record stream_input =
  rx_stream :: string
  rx_max_bytes :: "nat option"
  rx_wait_ms :: u64

record stdin_input =
  wx_bytes :: "u8 list"
  wx_sequence :: string

record process_env =
  pv_windows :: bool
  pv_token :: "nat \<Rightarrow> string option"
  pv_spawn :: "spawn_input decoder"
  pv_selected :: "string decoder"
  pv_read :: "stream_input decoder"
  pv_write :: "stdin_input decoder"
  pv_wait :: "u64 decoder"
  pv_pin_client :: "string \<Rightarrow> string service_result"
  pv_pin_exact :: "string \<Rightarrow> string list \<Rightarrow> string service_result"
  pv_pin_within :: "string \<Rightarrow> string list \<Rightarrow> string service_result"
  pv_location :: "string \<Rightarrow> unit service_result"
  pv_variables :: "(string \<times> string) list"
  pv_launch :: "string \<Rightarrow> string list \<Rightarrow> string \<Rightarrow> (string \<times> string) list \<Rightarrow> (string, u32) outcome"
  pv_thread :: "string option"
  pv_terminate :: "string option"
  pv_sha256 :: "u8 list \<Rightarrow> string"
  pv_delivered :: bool
  pv_waits :: "process_move list"
  pv_finished :: bool

section \<open>Spawning\<close>

definition check_args :: "spawn_input \<Rightarrow> unit service_result" where
  "check_args input =
     (if 64 < length (sp_args input) \<or> list_ex (\<lambda>s. 8192 < length s \<or> CHR 0x00 \<in> set s) (sp_args input)
         \<or> 64 * 1024 < sum_list (map length (sp_args input))
      then Err (invalid ''process args exceed their bound or contain NUL'')
      else if sp_stdin input \<noteq> ''pipe'' \<and> sp_stdin input \<noteq> ''closed''
      then Err (invalid ''stdin must be pipe or closed'')
      else Ok ())"

definition pin_cwd :: "process_env \<Rightarrow> resource_owner \<Rightarrow> string \<Rightarrow> string service_result" where
  "pin_cwd v owner cwd =
     (if ro_client_permissions owner then pv_pin_client v cwd
      else if cwd = ro_default_cwd owner then pv_pin_exact v cwd [ro_default_cwd owner]
      else pv_pin_within v cwd (ro_cwd_roots owner))"

definition inherited_keys :: "string list" where
  "inherited_keys = [''SystemRoot'', ''WINDIR'', ''TEMP'', ''TMP'', ''TMPDIR'', ''LANG'', ''LC_CTYPE'']"

definition inherited :: "process_env \<Rightarrow> resource_owner \<Rightarrow> (string, string) btree" where
  "inherited v owner =
     fold (\<lambda>(k, x). bt_insert k x)
       (if ro_client_permissions owner then pv_variables v
        else concat (map (\<lambda>k. case map_of (pv_variables v) k of None \<Rightarrow> [] | Some x \<Rightarrow> [(k, x)]) inherited_keys)) bt_empty"

definition same_variable :: "string \<Rightarrow> string \<Rightarrow> bool" where
  "same_variable a b =
     (let lower = map (\<lambda>c. if ascii_upper c then char_of (byte c + 32) else c) in lower a = lower b)"

fun add_variables ::
    "process_env \<Rightarrow> resource_owner \<Rightarrow> (string \<times> string) list \<Rightarrow> (string, string) btree \<Rightarrow> (string, string) btree service_result" where
  "add_variables v owner [] env = Ok env"
| "add_variables v owner ((k, x) # rest) env =
     (if k = [] \<or> 128 < length k \<or> CHR 0x00 \<in> set k \<or> CHR ''='' \<in> set k \<or> CHR 0x00 \<in> set x
         \<or> (\<not> ro_client_permissions owner \<and> k \<notin> set (ro_env_keys owner))
      then Err (ServiceError ''policy_denied'' ''environment key is not explicitly allowed or is invalid'')
      else add_variables v owner rest
        (bt_insert k x (if pv_windows v then bt_retain (\<lambda>e _. \<not> same_variable e k) env else env)))"

definition environment :: "process_env \<Rightarrow> resource_owner \<Rightarrow> spawn_input \<Rightarrow> (string, string) btree service_result" where
  "environment v owner input =
     (if 32 < bt_len (sp_env input)
         \<or> 32 * 1024 < sum_list (map (\<lambda>(k, x). length k + length x) (bt_entries (sp_env input)))
      then Err (invalid ''process environment exceeds its bound'')
      else add_variables v owner (bt_entries (sp_env input)) (inherited v owner))"

definition new_process :: "u32 \<Rightarrow> spawn_input \<Rightarrow> process" where
  "new_process pid input =
     \<lparr>pr_pid = pid, pr_terminated = False, pr_stdin = (sp_stdin input = ''pipe''), pr_stop = False,
      pr_io = io_default, pr_worker = True, pr_closed = False\<rparr>"

definition spawn :: "process_env \<Rightarrow> resource_owner \<Rightarrow> spawn_input \<Rightarrow> process service_result" where
  "spawn v owner input =
     and_then (check_args input) (\<lambda>_.
     and_then (if ro_client_permissions owner then pv_pin_client v (sp_executable input)
               else pv_pin_exact v (sp_executable input) (ro_executables owner)) (\<lambda>executable.
     and_then (pin_cwd v owner (case sp_cwd input of Some d \<Rightarrow> d | None \<Rightarrow> ro_default_cwd owner)) (\<lambda>cwd.
     and_then (environment v owner input) (\<lambda>env.
     and_then (pv_location v executable) (\<lambda>_.
     and_then (pv_location v cwd) (\<lambda>_.
     and_then (map_err (ServiceError ''process_start_failed'') (pv_launch v executable (sp_args input) cwd (bt_entries env))) (\<lambda>pid.
     case pv_thread v of
       Some m \<Rightarrow> Err (ServiceError ''process_start_failed'' m)
     | None \<Rightarrow> Ok (new_process pid input))))))))"

section \<open>Calls on one process\<close>

definition process_status :: "process_env \<Rightarrow> process \<Rightarrow> (string \<times> json) list" where
  "process_status v p =
     (let s = pr_io p in
      [(''pid'', json_nat (unat (pr_pid p))), (''closed'', JBool (pr_closed p)),
       (''exitCode'', opt_json (\<lambda>c. json_nat (unat c)) (po_exit_code s)), (''processesReaped'', JBool (po_reaped s)),
       (''ownershipScope'', JString (if pv_windows v then ''windows-job'' else ''posix-process-group'')),
       (''workerDone'', JBool (po_worker_done s)), (''streamsClosed'', JBool (po_streams_closed s)),
       (''stdoutEof'', JBool (po_stdout_eof s)), (''stderrEof'', JBool (po_stderr_eof s)),
       (''stdoutBuffered'', json_nat (length (po_stdout s))), (''stderrBuffered'', json_nat (length (po_stderr s))),
       (''outputDiscarded'', JBool (po_output_discarded s)), (''error'', opt_json JString (po_error s)),
       (''nextWriteSequence'', JString (show_u64 (po_next_write s)))])"

definition with_id :: "string \<Rightarrow> (string \<times> json) list \<Rightarrow> (string \<times> json) list" where
  "with_id i kvs = kvs @ [(''process'', JString i), (''operationId'', JString i)]"

definition read_process :: "process_env \<Rightarrow> string \<Rightarrow> nat \<Rightarrow> u64 \<Rightarrow> process \<Rightarrow> json service_result \<times> process" where
  "read_process v stream most wait_ms p =
     (if 1000 < wait_ms \<or> stream \<noteq> ''stdout'' \<and> stream \<noteq> ''stderr'' then (Err (invalid ''invalid stream or waitMs''), p)
      else if pr_closed p then (Err (ServiceError ''resource_closed'' ''process stream is closed''), p)
      else
        let is_stdout = (stream = ''stdout''); s = pr_io p;
            empty = (if is_stdout then po_stdout s = [] \<and> \<not> po_stdout_eof s else po_stderr s = [] \<and> \<not> po_stderr_eof s);
            p = (if 0 < wait_ms \<and> empty \<and> \<not> po_worker_done s then moves_process (pv_waits v) p else p)
        in case drain is_stdout most p of (result, p) \<Rightarrow> (Ok result, p))"

definition write_process :: "process_env \<Rightarrow> u8 list \<Rightarrow> u64 \<Rightarrow> process \<Rightarrow> json service_result \<times> process" where
  "write_process v data sequence p =
     (if CHUNK_BYTES < length data then (Err (invalid ''stdin chunk exceeds 32768 bytes''), p)
      else write_stdin (pv_sha256 v data) (pv_delivered v) data sequence p)"

definition close_process :: "process_env \<Rightarrow> process \<Rightarrow> json service_result \<times> process" where
  "close_process v p =
     (let p = end_input (request_close p);
          p = (if po_worker_done (pr_io p) then p else moves_process (pv_waits v) p);
          complete = (po_worker_done (pr_io p) \<and> po_reaped (pr_io p));
          p = (if pr_worker p \<and> pv_finished v then p\<lparr>pr_worker := False\<rparr> else p)
      in (if complete then Ok (JObject [(''closed'', JBool True), (''processesReaped'', JBool True)])
          else Err (ServiceError ''cleanup_incomplete'' ''process scope or I/O worker has not confirmed exit''), p))"

definition call_process :: "process_env \<Rightarrow> string \<Rightarrow> string \<Rightarrow> json \<Rightarrow> process \<Rightarrow> json service_result \<times> process" where
  "call_process v method i params p =
     (if method = ''processes.status''
      then (and_then (decode (pv_selected v) params) (\<lambda>_. Ok (JObject (with_id i (process_status v p)))), p)
      else if method = ''processes.read''
      then (case and_then (decode (pv_read v) params) (\<lambda>x.
              and_then (bounded (rx_max_bytes x) 8192 CHUNK_BYTES) (\<lambda>most. Ok (x, most))) of
              Ok (x, most) \<Rightarrow> read_process v (rx_stream x) most (rx_wait_ms x) p
            | Err e \<Rightarrow> (Err e, p) | Panic \<Rightarrow> (Panic, p))
      else if method = ''processes.write''
      then (case and_then (decode (pv_write v) params) (\<lambda>x. (case parse_u64 (wx_sequence x) of
              None \<Rightarrow> Err (invalid ''sequence must be an unsigned decimal string'') | Some n \<Rightarrow> Ok (wx_bytes x, n))) of
              Ok (data, n) \<Rightarrow> write_process v data n p
            | Err e \<Rightarrow> (Err e, p) | Panic \<Rightarrow> (Panic, p))
      else if method = ''processes.endInput''
      then (case decode (pv_selected v) params of
              Ok _ \<Rightarrow> (Ok (JObject [(''closed'', JBool True)]), end_input p)
            | Err e \<Rightarrow> (Err e, p) | Panic \<Rightarrow> (Panic, p))
      else if method = ''processes.terminate''
      then (case decode (pv_selected v) params of
              Ok _ \<Rightarrow> ((case pv_terminate v of None \<Rightarrow> Ok (JObject [(''requested'', JBool True)])
                       | Some m \<Rightarrow> Err (ServiceError ''process_error'' m)), terminate p)
            | Err e \<Rightarrow> (Err e, p) | Panic \<Rightarrow> (Panic, p))
      else if method = ''processes.wait''
      then (case decode (pv_wait v) params of
              Ok wait_ms \<Rightarrow>
                if 1000 < wait_ms then (Err (invalid ''waitMs exceeds 1000''), p)
                else let p = (if \<not> po_worker_done (pr_io p) \<and> 0 < wait_ms then moves_process (pv_waits v) p else p)
                     in (Ok (JObject (with_id i (process_status v p))), p)
            | Err e \<Rightarrow> (Err e, p) | Panic \<Rightarrow> (Panic, p))
      else if method = ''processes.close''
      then (case decode (pv_selected v) params of
              Ok _ \<Rightarrow> close_process v p
            | Err e \<Rightarrow> (Err e, p) | Panic \<Rightarrow> (Panic, p))
      else (Err (unknown_method ''unknown process method''), p))"

section \<open>The table\<close>

definition process_at :: "process_store \<Rightarrow> string \<Rightarrow> (owner_key \<times> process) option" where
  "process_at s i =
     (case bt_get (ps_entries s) i of Some x \<Rightarrow> Some x | None \<Rightarrow> bt_get (ps_detached s) i)"

definition put_process :: "string \<Rightarrow> process \<Rightarrow> process_store \<Rightarrow> process_store" where
  "put_process i p s =
     (case bt_get (ps_entries s) i of
        Some (owner, _) \<Rightarrow> s\<lparr>ps_entries := bt_insert i (owner, p) (ps_entries s)\<rparr>
      | None \<Rightarrow>
          (case bt_get (ps_detached s) i of
             Some (owner, _) \<Rightarrow> s\<lparr>ps_detached := bt_insert i (owner, p) (ps_detached s)\<rparr>
           | None \<Rightarrow> s))"

definition detach :: "string \<Rightarrow> process_store \<Rightarrow> process_store" where
  "detach i s =
     (case bt_get (ps_entries s) i of
        None \<Rightarrow> s
      | Some x \<Rightarrow> s\<lparr>ps_entries := bt_remove i (ps_entries s), ps_detached := bt_insert i x (ps_detached s)\<rparr>)"

definition owns_process :: "process_store \<Rightarrow> owner_key \<Rightarrow> string \<Rightarrow> bool" where
  "owns_process s owner i = (case bt_get (ps_entries s) i of None \<Rightarrow> False | Some (o', _) \<Rightarrow> o' = owner)"

definition start_process ::
    "process_env \<Rightarrow> resource_owner \<Rightarrow> spawn_input \<Rightarrow> json \<Rightarrow> process_store \<Rightarrow> json service_result \<times> process_store" where
  "start_process v owner input params s =
     (let key = owner_key owner; op = (key, sp_operation_key input) in
      case bt_get (ps_operations s) op of
        Some (original, i) \<Rightarrow>
          (if original \<noteq> params then Err (ServiceError ''operation_conflict'' ''operationKey has different process input'')
           else Ok (case bt_get (ps_entries s) i of
               Some (_, p) \<Rightarrow> JObject (with_id i (process_status v p))
             | None \<Rightarrow> JObject [(''process'', JString i), (''operationId'', JString i), (''closed'', JBool True)]), s)
      | None \<Rightarrow>
          if 16 \<le> bt_len (ps_entries s) \<or> 4 \<le> bt_count (\<lambda>_ x. fst x = key) (ps_entries s)
             \<or> 256 \<le> bt_len (ps_operations s) \<or> 64 \<le> bt_count (\<lambda>k _. fst k = key) (ps_operations s)
          then (Err (limit_error ''process or retained operation limit reached''), s)
          else (case and_then (draw_token (pv_token v) 0) (\<lambda>i. and_then (spawn v owner input) (\<lambda>p. Ok (i, p))) of
            Ok (i, p) \<Rightarrow> (Ok (JObject (with_id i (process_status v p))),
              s\<lparr>ps_entries := bt_insert i (key, p) (ps_entries s), ps_operations := bt_insert op (params, i) (ps_operations s)\<rparr>)
          | Err e \<Rightarrow> (Err e, s)
          | Panic \<Rightarrow> (Panic, s)))"

definition act_on_process ::
    "process_env \<Rightarrow> string \<Rightarrow> string \<Rightarrow> json \<Rightarrow> process_store \<Rightarrow> json service_result \<times> process_store" where
  "act_on_process v method i params s =
     (case process_at s i of
        None \<Rightarrow> (Err missing, s)
      | Some (_, p) \<Rightarrow> (case call_process v method i params p of (r, p) \<Rightarrow> (r, put_process i p s)))"

text \<open>\<open>request_close\<close> on every process that has left the table, then \<open>close\<close> on each.\<close>

fun request_each :: "string list \<Rightarrow> process_store \<Rightarrow> process_store" where
  "request_each [] s = s"
| "request_each (i # is) s =
     request_each is (case process_at s i of None \<Rightarrow> s | Some (_, p) \<Rightarrow> put_process i (request_close p) s)"

fun close_each :: "(string \<Rightarrow> process_env) \<Rightarrow> string list \<Rightarrow> process_store \<Rightarrow> bool \<times> process_store" where
  "close_each v [] s = (True, s)"
| "close_each v (i # is) s =
     (case process_at s i of
        None \<Rightarrow> close_each v is s
      | Some (_, p) \<Rightarrow>
          (case close_process (v i) p of (r, p) \<Rightarrow>
           case close_each v is (put_process i p s) of (complete, s) \<Rightarrow> (is_ok r \<and> complete, s)))"

definition processes_of :: "owner_key \<Rightarrow> process_store \<Rightarrow> string list" where
  "processes_of owner s = bt_keys (bt_retain (\<lambda>_ x. fst x = owner) (ps_entries s))"

text \<open>The handles of the processes that left the table, which the caller closes.\<close>

definition processes_retire :: "owner_key \<Rightarrow> process_store \<Rightarrow> string list \<times> process_store" where
  "processes_retire owner s =
     (let ids = processes_of owner s
      in (ids, (fold detach ids s)\<lparr>ps_operations := bt_retain (\<lambda>k _. fst k \<noteq> owner) (ps_operations s)\<rparr>))"

definition processes_drain :: "process_store \<Rightarrow> string list \<times> process_store" where
  "processes_drain s =
     (let ids = bt_keys (ps_entries s) in (ids, (fold detach ids s)\<lparr>ps_operations := bt_empty\<rparr>))"

definition processes_list :: "process_env \<Rightarrow> owner_key \<Rightarrow> process_store \<Rightarrow> json list" where
  "processes_list v owner s =
     map (\<lambda>(i, _, p). JObject (with_id i (process_status v p) @ [(''id'', JString i), (''kind'', JString ''process'')]))
       (filter (\<lambda>(_, o', _). o' = owner) (bt_entries (ps_entries s)))"

end
