(* ===== verification/Resource_Service.thy ===== *)
theory Resource_Service
  imports Resource_Processes
begin

text \<open>
  The service that owns the event logs and the tasks (\<open>src/src/core_resources.rs\<close>): admission of
  a caller, the loop that waits for something to read, retirement of an owner and shutdown.

  All callers share one mutex, so each holding of the lock is one step of the model; what the
  others do while a call waits or holds no lock is an argument of the call. A retirement and a
  shutdown close the processes they took from the table in the same step;
  \<open>sv_closings\<close> gives what the operating system answers for each.
\<close>

record resource_state =
  rs_closing :: bool
  rs_retired :: "owner_key bset"
  rs_events :: event_store
  rs_tasks :: task_store
  rs_processes :: process_store

record service_env =
  sv_events :: event_env
  sv_tasks :: task_env
  sv_size :: "json \<Rightarrow> nat option"
  sv_processes :: process_env
  sv_closings :: "string \<Rightarrow> process_env"

definition resources_default :: resource_state where
  "resources_default =
     \<lparr>rs_closing = False, rs_retired = bt_empty, rs_events = events_default, rs_tasks = tasks_default,
      rs_processes = processes_default\<rparr>"

definition resource_check :: "resource_state \<Rightarrow> owner_key \<Rightarrow> unit service_result" where
  "resource_check s owner =
     (if rs_closing s then Err (ServiceError ''resource_closed'' ''resource service is closing'')
      else if bt_has (rs_retired s) owner
      then Err (ServiceError ''stale_generation'' ''resource owner has retired'')
      else Ok ())"

section \<open>A call\<close>

text \<open>What a call is refused for before the lock is taken, and how long it may wait.\<close>

definition admit_request ::
    "service_env \<Rightarrow> resource_owner \<Rightarrow> json \<Rightarrow> unit service_result" where
  "admit_request v owner params =
     (if ro_plugin_id owner = [] \<or> 256 < length (ro_plugin_id owner)
         \<or> ro_source_identity owner = [] \<or> 4096 < length (ro_source_identity owner)
      then Err (invalid ''invalid authenticated resource owner'')
      else case sv_size v params of
        None \<Rightarrow> Err (invalid ''invalid params'')
      | Some n \<Rightarrow>
          if 512 * 1024 < n then Err (limit_error ''resource request exceeds 512 KiB'') else Ok ())"

fun json_as_u64 :: "json \<Rightarrow> u64 option" where
  "json_as_u64 (JNumber n) = parse_u64 n"
| "json_as_u64 _ = None"

definition wait_of :: "json \<Rightarrow> u64" where
  "wait_of params = (case Option.bind (json_get ''waitMs'' params) json_as_u64 of Some n \<Rightarrow> n | None \<Rightarrow> 0)"

definition run_method ::
    "service_env \<Rightarrow> owner_key \<Rightarrow> string \<Rightarrow> json \<Rightarrow> resource_state
     \<Rightarrow> json service_result \<times> resource_state" where
  "run_method v owner method params s =
     (if take 7 method = ''events.''
      then (case events_invoke (sv_events v) owner method params (rs_events s) of
              (r, e) \<Rightarrow> (r, s\<lparr>rs_events := e\<rparr>))
      else if take 6 method = ''tasks.''
      then (case tasks_invoke (sv_tasks v) owner method params (rs_tasks s) of
              (r, t) \<Rightarrow> (r, s\<lparr>rs_tasks := t\<rparr>))
      else if method = ''resources.list''
      then (Ok (JObject [(''resources'', JArray (events_list (sv_events v) owner (rs_events s)
              @ tasks_list_resources owner (rs_tasks s) @ processes_list (sv_processes v) owner (rs_processes s))),
              (''bounded'', JBool True)]), s)
      else (Err (unknown_method ''unknown resource method''), s))"

definition empty_read :: "string \<Rightarrow> json \<Rightarrow> bool" where
  "empty_read method result \<longleftrightarrow>
     (method = ''events.read'' \<or> method = ''tasks.claim'')
     \<and> json_get (if method = ''events.read'' then ''events'' else ''tasks'') result = Some (JArray [])
     \<and> (json_get ''terminal'' result = None \<or> json_get ''terminal'' result = Some JNull)"

text \<open>
  One turn of the loop, under the lock: the answer, or None to wait for a change. The flag says
  whether the deadline of the call has passed.
\<close>

definition attempt ::
    "service_env \<Rightarrow> owner_key \<Rightarrow> string \<Rightarrow> json \<Rightarrow> bool \<Rightarrow> resource_state
     \<Rightarrow> json service_result option \<times> resource_state" where
  "attempt v owner method params timed_out s =
     (case resource_check s owner of
        Err e \<Rightarrow> (Some (Err e), s)
      | Panic \<Rightarrow> (Some Panic, s)
      | Ok _ \<Rightarrow>
          (case run_method v owner method params s of
             (Ok result, s) \<Rightarrow>
               if \<not> empty_read method result \<or> wait_of params = 0 \<or> timed_out
               then (Some (Ok result), s) else (None, s)
           | (Err e, s) \<Rightarrow> (Some (Err e), s)
           | (Panic, s) \<Rightarrow> (Some Panic, s)))"

text \<open>
  The loop over its turns: with each turn what the clock, the tokens and the others give, and
  what the others do between this turn and the next. None when all the turns given are used up
  and the call is still waiting.
\<close>

fun invoke_loop ::
    "owner_key \<Rightarrow> string \<Rightarrow> json \<Rightarrow> (service_env \<times> bool \<times> (resource_state \<Rightarrow> resource_state)) list
     \<Rightarrow> resource_state \<Rightarrow> json service_result option \<times> resource_state" where
  "invoke_loop owner method params [] s = (None, s)"
| "invoke_loop owner method params ((v, timed_out, others) # turns) s =
     (case attempt v owner method params timed_out s of
        (Some r, s) \<Rightarrow> (Some r, s)
      | (None, s) \<Rightarrow> invoke_loop owner method params turns (others s))"

text \<open>
  A call of a \<open>processes.\<close> method: the lock is held for a whole spawn. Otherwise it is held to look
  the process up, to remove it once it is closed, and for the check before the answer; what the
  others do before each of these, and before the process is acted on, is \<open>others\<close>.
\<close>

definition processes_invoke ::
    "process_env \<Rightarrow> resource_owner \<Rightarrow> string \<Rightarrow> json \<Rightarrow> (nat \<Rightarrow> resource_state \<Rightarrow> resource_state)
     \<Rightarrow> resource_state \<Rightarrow> json service_result \<times> resource_state" where
  "processes_invoke v owner method params others s =
     (let key = owner_key owner in
      if method = ''processes.spawn''
      then (case and_then (decode (pv_spawn v) params) (\<lambda>input.
              and_then (check_name (sp_operation_key input)) (\<lambda>_.
              and_then (resource_check s key) (\<lambda>_. Ok input))) of
              Ok input \<Rightarrow> (case start_process v owner input params (rs_processes s) of
                (r, p) \<Rightarrow> (r, s\<lparr>rs_processes := p\<rparr>))
            | Err e \<Rightarrow> (Err e, s) | Panic \<Rightarrow> (Panic, s))
      else case Option.bind (json_get ''process'' params) json_str of
        None \<Rightarrow> (Err (invalid ''process handle required''), s)
      | Some i \<Rightarrow>
          (case and_then (resource_check s key) (\<lambda>_. if owns_process (rs_processes s) key i then Ok () else Err missing) of
             Err e \<Rightarrow> (Err e, s) | Panic \<Rightarrow> (Panic, s)
           | Ok _ \<Rightarrow>
               (let s = others 0 s;
                    (r, p) = act_on_process v method i params (rs_processes s);
                    s = s\<lparr>rs_processes := p\<rparr> in
                case r of Err e \<Rightarrow> (Err e, s) | Panic \<Rightarrow> (Panic, s)
                | Ok result \<Rightarrow>
                    (let s = (if method = ''processes.close''
                          then let s = others 1 s in s\<lparr>rs_processes := detach i (rs_processes s)\<rparr> else s);
                         s = others 2 s in
                     (and_then (resource_check s key) (\<lambda>_. Ok result), s)))))"

definition resources_invoke ::
    "service_env \<Rightarrow> resource_owner \<Rightarrow> string \<Rightarrow> json \<Rightarrow> (nat \<Rightarrow> resource_state \<Rightarrow> resource_state)
     \<Rightarrow> (service_env \<times> bool \<times> (resource_state \<Rightarrow> resource_state)) list
     \<Rightarrow> resource_state \<Rightarrow> json service_result option \<times> resource_state" where
  "resources_invoke v owner method params others turns s =
     (case admit_request v owner params of
        Err e \<Rightarrow> (Some (Err e), s)
      | Panic \<Rightarrow> (Some Panic, s)
      | Ok _ \<Rightarrow>
          if take 10 method = ''processes.''
          then (case processes_invoke (sv_processes v) owner method params others s of (r, s) \<Rightarrow> (Some r, s))
          else if 1000 < wait_of params
          then (Some (Err (invalid ''waitMs must be at most 1000; repeat bounded reads'')), s)
          else invoke_loop (owner_key owner) method params turns s)"

section \<open>Subscribing to another owner's topic\<close>

definition invoke_events_for ::
    "service_env \<Rightarrow> resource_owner \<Rightarrow> resource_owner \<Rightarrow> string \<Rightarrow> json \<Rightarrow> resource_state
     \<Rightarrow> json service_result \<times> resource_state" where
  "invoke_events_for v consumer provider method params s =
     (if method \<noteq> ''events.subscribe''
      then (Err (invalid ''cross-owner event admission only supports subscribe''), s)
      else case and_then (resource_check s (owner_key consumer)) (\<lambda>_. resource_check s (owner_key provider)) of
        Err e \<Rightarrow> (Err e, s)
      | Panic \<Rightarrow> (Panic, s)
      | Ok _ \<Rightarrow>
          (case events_invoke_for (sv_events v) (owner_key consumer) (owner_key provider) method params
                  (rs_events s) of
             (r, e) \<Rightarrow> (r, s\<lparr>rs_events := e\<rparr>)))"

section \<open>Retirement and shutdown\<close>

definition retire_owner ::
    "service_env \<Rightarrow> resource_owner \<Rightarrow> resource_state \<Rightarrow> json service_result \<times> resource_state" where
  "retire_owner v owner s =
     (let key = owner_key owner in
      if 8192 \<le> bt_len (rs_retired s) \<and> \<not> bt_has (rs_retired s) key
      then (Err (limit_error ''retired owner identity bound reached''), s)
      else
        let (ids, p) = processes_retire key (rs_processes s);
            (complete, p) = close_each (sv_closings v) ids (request_each ids p)
        in (if \<not> complete
            then Err (ServiceError ''cleanup_incomplete'' ''a managed process did not confirm cleanup'')
            else Ok (JObject [(''retired'', JBool True), (''cleanupComplete'', JBool True)]),
            s\<lparr>rs_retired := bt_insert key () (rs_retired s), rs_events := events_retire key (rs_events s),
              rs_tasks := tasks_retire key (rs_tasks s), rs_processes := p\<rparr>))"

definition shutdown_resources ::
    "service_env \<Rightarrow> resource_state \<Rightarrow> json service_result \<times> resource_state" where
  "shutdown_resources v s =
     (let (ids, p) = processes_drain (rs_processes s);
          (complete, p) = close_each (sv_closings v) ids (request_each ids p)
      in (if \<not> complete
          then Err (ServiceError ''cleanup_incomplete'' ''resource shutdown could not confirm process cleanup'')
          else Ok (JObject [(''closed'', JBool True), (''cleanupComplete'', JBool True)]),
          s\<lparr>rs_closing := True, rs_events := events_default, rs_tasks := tasks_default, rs_processes := p\<rparr>))"

end
