(* ===== verification/Process_Properties.thy ===== *)
theory Process_Properties
  imports Resource_Processes
begin

text \<open>
  What holds of the processes of plugins: whatever is called and whatever the monitor does, a
  process that has been closed stays closed, one whose end has been confirmed stays ended, and
  the buffers and the table keep their bounds.
\<close>

section \<open>One process\<close>

text \<open>
  Closed for good: reads and writes are refused, its input is dropped, its monitor has been told
  to stop, and the operating system has been asked to end it.
\<close>

definition shut :: "process \<Rightarrow> bool" where
  "shut p \<longleftrightarrow> pr_closed p \<and> \<not> pr_stdin p \<and> pr_stop p \<and> pr_terminated p"

text \<open>The operating system confirmed that nothing of the process is left, and the monitor is gone.\<close>

definition ended :: "process \<Rightarrow> bool" where
  "ended p \<longleftrightarrow> po_worker_done (pr_io p) \<and> po_reaped (pr_io p)"

definition later :: "process \<Rightarrow> process \<Rightarrow> bool" where
  "later p p' \<longleftrightarrow>
     (pr_closed p \<longrightarrow> pr_closed p') \<and> (pr_stdin p' \<longrightarrow> pr_stdin p) \<and> (pr_stop p \<longrightarrow> pr_stop p')
     \<and> (pr_terminated p \<longrightarrow> pr_terminated p')
     \<and> (po_worker_done (pr_io p) \<longrightarrow> po_worker_done (pr_io p') \<and> po_reaped (pr_io p') = po_reaped (pr_io p))"

lemma later_refl [simp, intro]: "later p p"
  by (simp add: later_def)

lemma later_trans: "later p q \<Longrightarrow> later q r \<Longrightarrow> later p r"
  by (simp add: later_def)

lemma later_stays: "later p p' \<Longrightarrow> shut p \<Longrightarrow> shut p'" "later p p' \<Longrightarrow> ended p \<Longrightarrow> ended p'"
  by (auto simp: later_def shut_def ended_def)

lemma pump_io:
  "pump x b s = (ok, s') \<Longrightarrow> po_worker_done s' = po_worker_done s \<and> po_reaped s' = po_reaped s"
  by (auto simp: pump_def Let_def split: if_splits pipe_answer.splits)

lemma monitor_ends_later: "\<not> po_worker_done (pr_io p) \<Longrightarrow> later p (monitor_ends m b p)"
  by (simp add: monitor_ends_def later_def Let_def)

lemma monitor_ends_io: "later p (monitor_ends m b q)"
  if "later p q" "\<not> po_worker_done (pr_io p)" for p q
  using that by (simp add: monitor_ends_def later_def Let_def)

lemma monitor_later: "later p (monitor m p)"
proof (cases "po_worker_done (pr_io p)")
  case running: False
  obtain ok s where out: "pump (mv_stdout m) True (pr_io p) = (ok, s)" by fastforce
  obtain ok' s' where both: "(if ok then pump (mv_stderr m) False s else (ok, s)) = (ok', s')" by fastforce
  have same: "later p (p\<lparr>pr_io := x\<rparr>)" "(pr_terminated p \<Longrightarrow> b) \<Longrightarrow> later p (p\<lparr>pr_io := x, pr_terminated := b\<rparr>)" for x b
    using running by (auto simp: later_def)
  show ?thesis
    using running out both
    by (auto simp: monitor_def Let_def intro!: monitor_ends_io same split: option.split)
qed (simp add: monitor_def)

lemma write_stdin_later: "later p (snd (write_stdin h d xs n p))"
  by (auto simp: write_stdin_def Let_def later_def split: option.splits)

lemma move_later: "later p (move_process m p)"
proof (cases m)
  case (Drained b n)
  then show ?thesis by (simp add: drain_def Let_def later_def)
qed (simp_all add: monitor_later write_stdin_later, simp_all add: later_def end_input_def terminate_def request_close_def)

lemma moves_later: "later p (moves_process ms p)"
proof (induction ms arbitrary: p)
  case (Cons m ms)
  from later_trans [OF move_later Cons.IH] show ?case by simp
qed simp

text \<open>A call is a sequence of moves.\<close>

definition moved :: "process \<Rightarrow> process \<Rightarrow> bool" where
  "moved p p' \<longleftrightarrow> (\<exists>ms. p' = moves_process ms p)"

lemma movedI [intro]: "moved p p" "moved p (move_process m p)" "moved p (moves_process ms p)"
  unfolding moved_def by (rule exI [of _ "[]"], simp) (rule exI [of _ "[m]"], simp, blast)

lemma moved_trans: "moved p q \<Longrightarrow> moved q r \<Longrightarrow> moved p r"
  unfolding moved_def by (metis fold_append comp_apply)

lemma moved_later: "moved p p' \<Longrightarrow> later p p'"
  by (auto simp: moved_def moves_later)

lemma close_process_facts:
  assumes "close_process v p = (r, p')"
  shows "moved p p'" "shut p'" "is_ok r \<longleftrightarrow> ended p'"
proof -
  let ?q = "end_input (request_close p)"
  define w where "w = (if po_worker_done (pr_io ?q) then ?q else moves_process (pv_waits v) ?q)"
  have p': "p' = (if pr_worker w \<and> pv_finished v then move_process Joined w else w)"
    using assms by (auto simp: close_process_def Let_def w_def split: if_splits)
  have q: "moved p ?q"
    using moved_trans [OF movedI(2) [of p CloseRequested] movedI(2) [of _ InputEnded]] by (simp only: move_process.simps)
  have closed: "shut ?q" by (simp add: shut_def end_input_def request_close_def)
  have w: "moved ?q w" "moved w p'" using p' movedI(2) [of w Joined] by (auto simp: w_def)
  show "moved p p'" using moved_trans [OF moved_trans [OF q w(1)] w(2)] .
  have "later ?q p'" using moved_later [OF moved_trans [OF w]] .
  then show "shut p'" using closed by (rule later_stays(1))
  show "is_ok r \<longleftrightarrow> ended p'"
    using assms by (auto simp: close_process_def Let_def ended_def split: if_splits)
qed

lemma drain_moved: "drain b n p = (x, p') \<Longrightarrow> moved p p'"
  using movedI(2) [of p "Drained b n"] by simp

lemma read_process_moved:
  assumes "read_process v stream n w p = (r, p')"
  shows "moved p p'"
proof (cases "1000 < w \<or> stream \<noteq> ''stdout'' \<and> stream \<noteq> ''stderr'' \<or> pr_closed p")
  case True
  with assms have "p' = p" by (auto simp: read_process_def split: if_splits)
  then show ?thesis by auto
next
  case False
  define q where "q = (if 0 < w \<and> (if stream = ''stdout'' then po_stdout (pr_io p) = [] \<and> \<not> po_stdout_eof (pr_io p)
      else po_stderr (pr_io p) = [] \<and> \<not> po_stderr_eof (pr_io p)) \<and> \<not> po_worker_done (pr_io p)
    then moves_process (pv_waits v) p else p)"
  have "moved p q" by (auto simp: q_def)
  moreover obtain x where "drain (stream = ''stdout'') n q = (x, p')"
    using assms False by (auto simp: read_process_def Let_def q_def split: prod.splits)
  ultimately show ?thesis by (blast intro: moved_trans drain_moved)
qed

lemma write_process_moved: "write_process v data n p = (r, p') \<Longrightarrow> moved p p'"
  using movedI(2) [of p "Written (pv_sha256 v data) (pv_delivered v) data n"]
  by (auto simp: write_process_def split: if_splits)

lemma call_process_moved:
  assumes "call_process v method i params p = (r, p')"
  shows "moved p p'"
proof -
  have "moved p (end_input p)" "moved p (terminate p)"
    using movedI(2) [of p InputEnded] movedI(2) [of p Terminated] by simp_all
  with assms show ?thesis
    by (auto simp: call_process_def Let_def split: if_split_asm outcome.splits prod.splits
        dest: read_process_moved write_process_moved close_process_facts(1))
qed

lemma call_close:
  assumes "call_process v ''processes.close'' i params p = (Ok x, p')"
  shows "shut p'" "ended p'"
  using assms close_process_facts(2,3) [of v p "Ok x" p'] by (auto simp: call_process_def split: outcome.splits)

section \<open>Bounds of the buffers\<close>

definition buffers_ok :: "process \<Rightarrow> bool" where
  "buffers_ok p \<longleftrightarrow> length (po_stdout (pr_io p)) \<le> BUFFER_BYTES \<and> length (po_stderr (pr_io p)) \<le> BUFFER_BYTES"

lemma pump_buffers:
  assumes "pump x b s = (ok, s')" "length (po_stdout s) \<le> BUFFER_BYTES" "length (po_stderr s) \<le> BUFFER_BYTES"
  shows "length (po_stdout s') \<le> BUFFER_BYTES" "length (po_stderr s') \<le> BUFFER_BYTES"
  using assms by (auto simp: pump_def Let_def split: if_splits pipe_answer.splits)

lemma monitor_buffers:
  assumes "buffers_ok p"
  shows "buffers_ok (monitor m p)"
proof -
  obtain ok s where out: "pump (mv_stdout m) True (pr_io p) = (ok, s)" by fastforce
  obtain ok' s' where both: "(if ok then pump (mv_stderr m) False s else (ok, s)) = (ok', s')" by fastforce
  have s: "length (po_stdout s) \<le> BUFFER_BYTES" "length (po_stderr s) \<le> BUFFER_BYTES"
    using pump_buffers [OF out] assms by (simp_all add: buffers_ok_def)
  have "length (po_stdout s') \<le> BUFFER_BYTES" "length (po_stderr s') \<le> BUFFER_BYTES"
    using both s pump_buffers [of "mv_stderr m" False s ok' s'] by (auto split: if_splits)
  then show ?thesis
    using assms out both
    by (auto simp: monitor_def monitor_ends_def Let_def buffers_ok_def split: option.splits)
qed

lemma moves_buffers: "buffers_ok p \<Longrightarrow> buffers_ok (moves_process ms p)"
proof (induction ms arbitrary: p)
  case (Cons m ms)
  have "buffers_ok (move_process m p)"
  proof (cases m)
    case (Monitored e)
    with Cons.prems show ?thesis by (simp add: monitor_buffers)
  qed (use Cons.prems in \<open>auto simp: drain_def write_stdin_def Let_def buffers_ok_def end_input_def terminate_def
        request_close_def split: option.splits\<close>)
  with Cons.IH show ?case by simp
qed simp

section \<open>The table\<close>

lemma put_fields [simp]:
  "bt_get (ps_entries (put_process i p s)) j =
     (if j = i then map_option (\<lambda>(o', _). (o', p)) (bt_get (ps_entries s) i) else bt_get (ps_entries s) j)"
  "ps_operations (put_process i p s) = ps_operations s"
  by (auto simp: put_process_def split: option.splits)

lemma put_detached:
  "bt_get (ps_detached (put_process i p s)) j =
     (if j = i \<and> bt_get (ps_entries s) i = None then map_option (\<lambda>(o', _). (o', p)) (bt_get (ps_detached s) i)
      else bt_get (ps_detached s) j)"
  by (auto simp: put_process_def split: option.splits)

lemma detach_fields [simp]:
  "bt_get (ps_entries (detach i s)) j = (if j = i then None else bt_get (ps_entries s) j)"
  "bt_get (ps_detached (detach i s)) j = (if j = i \<and> bt_get (ps_entries s) i \<noteq> None then bt_get (ps_entries s) i
     else bt_get (ps_detached s) j)"
  "ps_operations (detach i s) = ps_operations s"
  by (auto simp: detach_def split: option.splits)

lemma detach_each:
  "bt_get (ps_entries (fold detach ids s)) j = (if j \<in> set ids then None else bt_get (ps_entries s) j)"
  "bt_get (ps_detached (fold detach ids s)) j = (if j \<in> set ids \<and> bt_get (ps_entries s) j \<noteq> None then bt_get (ps_entries s) j
     else bt_get (ps_detached s) j)"
  "ps_operations (fold detach ids s) = ps_operations s"
  by (induction ids arbitrary: s) auto

text \<open>Processes that left the table are closed; what else is in either part is as it was.\<close>

definition outside :: "string list \<Rightarrow> process_store \<Rightarrow> bool" where
  "outside ids s \<longleftrightarrow> (\<forall>j \<in> set ids. bt_get (ps_entries s) j = None)"

definition moves_detached :: "(process \<Rightarrow> process \<Rightarrow> bool) \<Rightarrow> string list \<Rightarrow> process_store \<Rightarrow> process_store \<Rightarrow> bool" where
  "moves_detached R ids s s' \<longleftrightarrow>
     (\<forall>j. bt_get (ps_entries s') j = bt_get (ps_entries s) j) \<and> ps_operations s' = ps_operations s
     \<and> (\<forall>j. j \<notin> set ids \<longrightarrow> bt_get (ps_detached s') j = bt_get (ps_detached s) j)
     \<and> (\<forall>j o' p. bt_get (ps_detached s) j = Some (o', p) \<longrightarrow> j \<in> set ids \<longrightarrow>
          (\<exists>p'. bt_get (ps_detached s') j = Some (o', p') \<and> R p p'))
     \<and> (\<forall>j. bt_get (ps_detached s) j = None \<longrightarrow> bt_get (ps_detached s') j = None)"

lemma moves_detached_step:
  assumes i: "bt_get (ps_entries s) i = None" "bt_get (ps_detached s) i = Some (o', p)"
    and p1: "moved p p1" "P p1"
    and m: "moves_detached (\<lambda>q q'. moved q q' \<and> P q') ids (put_process i p1 s) s'"
  shows "moves_detached (\<lambda>q q'. moved q q' \<and> P q') (i # ids) s s'"
proof -
  let ?s = "put_process i p1 s"
  have get: "bt_get (ps_detached ?s) j = (if j = i then Some (o', p1) else bt_get (ps_detached s) j)" for j
    using i by (simp add: put_detached)
  have entries: "bt_get (ps_entries ?s) j = bt_get (ps_entries s) j" for j using i(1) by simp
  note m' = m [unfolded moves_detached_def entries put_fields(2)]
  have moves: "\<exists>q'. bt_get (ps_detached s') j = Some (o'', q') \<and> moved q q' \<and> P q'"
    if j: "bt_get (ps_detached s) j = Some (o'', q)" "j \<in> set (i # ids)" for j o'' q
  proof (cases "j \<in> set ids")
    case True
    obtain q1 where q1: "bt_get (ps_detached ?s) j = Some (o'', q1)" "moved q q1"
    proof (cases "j = i")
      case True
      with j(1) i(2) p1(1) that show ?thesis by (simp add: get)
    next
      case False
      with j(1) that [of q] show ?thesis by (auto simp: get)
    qed
    from m' True q1(1) obtain q' where "bt_get (ps_detached s') j = Some (o'', q')" "moved q1 q'" "P q'" by blast
    with q1(2) show ?thesis by (blast intro: moved_trans)
  next
    case False
    with j(2) have "j = i" by simp
    moreover from m' False have "bt_get (ps_detached s') j = bt_get (ps_detached ?s) j" by blast
    ultimately show ?thesis using j(1) i(2) p1 by (simp add: get)
  qed
  have same: "bt_get (ps_detached s') j = bt_get (ps_detached s) j" if "j \<notin> set (i # ids)" for j
    using m' that get by simp
  have none: "bt_get (ps_detached s') j = None" if "bt_get (ps_detached s) j = None" for j
  proof -
    have "j \<noteq> i" using that i(2) by auto
    then have "bt_get (ps_detached ?s) j = None" using that get by simp
    with m' show ?thesis by blast
  qed
  from m' have "\<forall>j. bt_get (ps_entries s') j = bt_get (ps_entries s) j" "ps_operations s' = ps_operations s" by blast+
  with moves same none show ?thesis unfolding moves_detached_def by blast
qed

lemma moves_detached_skip:
  "bt_get (ps_detached s) i = None \<Longrightarrow> moves_detached R ids s s' \<Longrightarrow> moves_detached R (i # ids) s s'"
  unfolding moves_detached_def by auto

lemma request_each_moves:
  "outside ids s \<Longrightarrow> moves_detached (\<lambda>p p'. moved p p' \<and> True) ids s (request_each ids s)"
proof (induction ids arbitrary: s)
  case (Cons i ids)
  have i: "bt_get (ps_entries s) i = None" "outside ids s" using Cons.prems by (simp_all add: outside_def)
  show ?case
  proof (cases "bt_get (ps_detached s) i")
    case None
    with i have "process_at s i = None" by (simp add: process_at_def)
    with moves_detached_skip [OF None Cons.IH [OF i(2)]] show ?thesis by simp
  next
    case (Some x)
    obtain o' p where x: "x = (o', p)" by (cases x)
    have at: "process_at s i = Some (o', p)" using i Some x by (simp add: process_at_def)
    let ?s = "put_process i (request_close p) s"
    have "outside ids ?s" using i(2) Cons.prems by (simp add: outside_def)
    note rest = Cons.IH [OF this]
    have step: "moved p (request_close p)" using movedI(2) [of p CloseRequested] by simp
    have "moves_detached (\<lambda>p p'. moved p p' \<and> True) (i # ids) s (request_each ids ?s)"
      by (rule moves_detached_step [where P = "\<lambda>_. True", OF i(1) _ step TrueI rest]) (simp add: Some x)
    then show ?thesis by (simp add: at)
  qed
qed (simp add: moves_detached_def outside_def)

lemma close_each_moves:
  assumes "outside ids s" "close_each v ids s = (c, s')"
  shows "moves_detached (\<lambda>p p'. moved p p' \<and> shut p' \<and> (c \<longrightarrow> ended p')) ids s s'"
  using assms
proof (induction ids arbitrary: s c)
  case (Cons i ids)
  have i: "bt_get (ps_entries s) i = None" "outside ids s" using Cons.prems by (simp_all add: outside_def)
  show ?case
  proof (cases "bt_get (ps_detached s) i")
    case None
    with i have "process_at s i = None" by (simp add: process_at_def)
    with Cons.prems have "close_each v ids s = (c, s')" by simp
    from moves_detached_skip [OF None Cons.IH [OF i(2) this]] show ?thesis .
  next
    case (Some x)
    obtain o' p where x: "x = (o', p)" by (cases x)
    have at: "process_at s i = Some (o', p)" using i Some x by (simp add: process_at_def)
    obtain r p1 where close: "close_process (v i) p = (r, p1)" by fastforce
    let ?s = "put_process i p1 s"
    obtain c1 where rest: "close_each v ids ?s = (c1, s')" and c: "c = (is_ok r \<and> c1)"
      using Cons.prems(2) by (auto simp: at close split: prod.splits)
    have "outside ids ?s" using i(2) Cons.prems by (simp add: outside_def)
    from Cons.IH [OF this rest] have "moves_detached (\<lambda>p p'. moved p p' \<and> shut p' \<and> (c \<longrightarrow> ended p')) ids ?s s'"
      using c unfolding moves_detached_def by blast
    then show ?thesis
      using moves_detached_step [where P = "\<lambda>p'. shut p' \<and> (c \<longrightarrow> ended p')", OF i(1) _ close_process_facts(1) [OF close]]
        close_process_facts(2,3) [OF close] Some x c by simp
  qed
qed (simp add: moves_detached_def outside_def)

lemma moves_detached_trans:
  assumes "moves_detached (\<lambda>p p'. moved p p' \<and> True) ids s t" "moves_detached (\<lambda>p p'. moved p p' \<and> P p') ids t s'"
  shows "moves_detached (\<lambda>p p'. moved p p' \<and> P p') ids s s'"
  unfolding moves_detached_def
proof (intro conjI allI impI)
  note a = assms(1) [unfolded moves_detached_def] and b = assms(2) [unfolded moves_detached_def]
  fix j o' p assume j: "bt_get (ps_detached s) j = Some (o', p)" "j \<in> set ids"
  with a obtain q where "bt_get (ps_detached t) j = Some (o', q)" "moved p q" by blast
  with b j(2) obtain r where "bt_get (ps_detached s') j = Some (o', r)" "moved q r" "P r" by blast
  with \<open>moved p q\<close> show "\<exists>p'. bt_get (ps_detached s') j = Some (o', p') \<and> moved p p' \<and> P p'"
    by (blast intro: moved_trans)
qed (use assms in \<open>simp_all add: moves_detached_def\<close>)

text \<open>Taking processes from the table and closing them.\<close>

definition taken_closed :: "string list \<Rightarrow> bool \<Rightarrow> process_store \<Rightarrow> process_store \<Rightarrow> bool" where
  "taken_closed ids c s s' \<longleftrightarrow>
     (\<forall>j. bt_get (ps_entries s') j = (if j \<in> set ids then None else bt_get (ps_entries s) j))
     \<and> (\<forall>j. j \<notin> set ids \<longrightarrow> bt_get (ps_detached s') j = bt_get (ps_detached s) j)
     \<and> (\<forall>j \<in> set ids. \<exists>o' p p'. bt_get (ps_entries s) j = Some (o', p) \<and> bt_get (ps_detached s') j = Some (o', p')
          \<and> moved p p' \<and> shut p' \<and> (c \<longrightarrow> ended p'))"

lemma close_taken:
  assumes ids: "\<forall>j \<in> set ids. bt_get (ps_entries s) j \<noteq> None"
    and t: "t = (fold detach ids s)\<lparr>ps_operations := ops\<rparr>"
    and run: "close_each v ids (request_each ids t) = (c, s')"
  shows "taken_closed ids c s s'" "ps_operations s' = ops"
proof -
  have out: "outside ids t" by (simp add: outside_def t detach_each)
  note r = request_each_moves [OF out]
  have "outside ids (request_each ids t)" using r out by (simp add: moves_detached_def outside_def)
  from moves_detached_trans [OF r close_each_moves [OF this run]]
  have m: "moves_detached (\<lambda>p p'. moved p p' \<and> shut p' \<and> (c \<longrightarrow> ended p')) ids t s'" .
  have get: "bt_get (ps_entries t) j = (if j \<in> set ids then None else bt_get (ps_entries s) j)"
    "bt_get (ps_detached t) j = (if j \<in> set ids then bt_get (ps_entries s) j else bt_get (ps_detached s) j)" for j
    using ids by (auto simp: t detach_each)
  have "\<exists>o' p p'. bt_get (ps_entries s) j = Some (o', p) \<and> bt_get (ps_detached s') j = Some (o', p')
      \<and> moved p p' \<and> shut p' \<and> (c \<longrightarrow> ended p')" if j: "j \<in> set ids" for j
  proof -
    obtain o' p where e: "bt_get (ps_entries s) j = Some (o', p)" using ids j by fastforce
    then have "bt_get (ps_detached t) j = Some (o', p)" using j get(2) by simp
    with m j e show ?thesis unfolding moves_detached_def by blast
  qed
  with m get show "taken_closed ids c s s'" by (simp add: taken_closed_def moves_detached_def)
  show "ps_operations s' = ops" using m by (simp add: moves_detached_def t)
qed

lemma processes_of_iff: "j \<in> set (processes_of owner s) \<longleftrightarrow> (\<exists>p. bt_get (ps_entries s) j = Some (owner, p))"
  by (cases owner) (auto simp: processes_of_def split: option.splits if_splits)

lemma retire_closes:
  assumes "processes_retire owner s = (ids, t)" "close_each v ids (request_each ids t) = (c, s')"
  shows "taken_closed (processes_of owner s) c s s'"
    "ps_operations s' = bt_retain (\<lambda>k _. fst k \<noteq> owner) (ps_operations s)"
proof -
  have ids: "ids = processes_of owner s" and
    t: "t = (fold detach ids s)\<lparr>ps_operations := bt_retain (\<lambda>k _. fst k \<noteq> owner) (ps_operations s)\<rparr>"
    using assms(1) by (auto simp: processes_retire_def Let_def)
  have "\<forall>j \<in> set ids. bt_get (ps_entries s) j \<noteq> None" using processes_of_iff by (metis ids option.distinct(1))
  from close_taken [OF this t assms(2)] show "taken_closed (processes_of owner s) c s s'"
    "ps_operations s' = bt_retain (\<lambda>k _. fst k \<noteq> owner) (ps_operations s)"
    by (simp_all add: ids)
qed

lemma drain_closes:
  assumes "processes_drain s = (ids, t)" "close_each v ids (request_each ids t) = (c, s')"
  shows "taken_closed (bt_keys (ps_entries s)) c s s'" "ps_operations s' = bt_empty"
proof -
  have ids: "ids = bt_keys (ps_entries s)" and t: "t = (fold detach ids s)\<lparr>ps_operations := bt_empty\<rparr>"
    using assms(1) by (auto simp: processes_drain_def Let_def)
  have "\<forall>j \<in> set ids. bt_get (ps_entries s) j \<noteq> None" by (simp add: ids)
  from close_taken [OF this t assms(2)] show "taken_closed (bt_keys (ps_entries s)) c s s'" "ps_operations s' = bt_empty"
    by (simp_all add: ids)
qed

section \<open>The invariant of the table\<close>

definition table_bounds :: "process_store \<Rightarrow> bool" where
  "table_bounds s \<longleftrightarrow>
     bt_len (ps_entries s) \<le> 16 \<and> (\<forall>o'. bt_count (\<lambda>_ x. fst x = o') (ps_entries s) \<le> 4)
     \<and> bt_len (ps_operations s) \<le> 256 \<and> (\<forall>o'. bt_count (\<lambda>k _. fst k = o') (ps_operations s) \<le> 64)"

definition table_ok :: "process_store \<Rightarrow> bool" where
  "table_ok s \<longleftrightarrow>
     table_bounds s
     \<and> (\<forall>i. bt_get (ps_entries s) i \<noteq> None \<longrightarrow> bt_get (ps_detached s) i = None)
     \<and> (\<forall>i o' p. bt_get (ps_detached s) i = Some (o', p) \<longrightarrow> shut p)
     \<and> (\<forall>i o' p. process_at s i = Some (o', p) \<longrightarrow> buffers_ok p)"

lemma table_okD:
  assumes "table_ok s"
  shows "table_bounds s" "bt_get (ps_entries s) i = Some x \<Longrightarrow> bt_get (ps_detached s) i = None"
    "bt_get (ps_detached s) i = Some (o', p) \<Longrightarrow> shut p" "process_at s i = Some (o', p) \<Longrightarrow> buffers_ok p"
    "bt_get (ps_entries s) i = Some (o', p) \<Longrightarrow> buffers_ok p" "bt_get (ps_detached s) i = Some (o', p) \<Longrightarrow> buffers_ok p"
proof -
  note t = assms [unfolded table_ok_def]
  show "table_bounds s" "bt_get (ps_entries s) i = Some x \<Longrightarrow> bt_get (ps_detached s) i = None"
    "bt_get (ps_detached s) i = Some (o', p) \<Longrightarrow> shut p" "process_at s i = Some (o', p) \<Longrightarrow> buffers_ok p"
    using t by (metis option.distinct(1))+
  show e: "buffers_ok p" if "bt_get (ps_entries s) i = Some (o', p)"
  proof -
    from that have "process_at s i = Some (o', p)" by (simp add: process_at_def)
    with t show ?thesis by metis
  qed
  show "buffers_ok p" if d: "bt_get (ps_detached s) i = Some (o', p)"
  proof -
    from d t have "bt_get (ps_entries s) i = None" by (metis option.distinct(1))
    with d have "process_at s i = Some (o', p)" by (simp add: process_at_def)
    with t show ?thesis by metis
  qed
qed

lemma table_okI:
  assumes "table_bounds s" "\<And>i x. bt_get (ps_entries s) i = Some x \<Longrightarrow> bt_get (ps_detached s) i = None"
    "\<And>i o' p. bt_get (ps_detached s) i = Some (o', p) \<Longrightarrow> shut p"
    "\<And>i o' p. bt_get (ps_entries s) i = Some (o', p) \<Longrightarrow> buffers_ok p"
    "\<And>i o' p. bt_get (ps_detached s) i = Some (o', p) \<Longrightarrow> buffers_ok p"
  shows "table_ok s"
  unfolding table_ok_def
proof (intro conjI allI impI)
  fix i o' p assume "process_at s i = Some (o', p)"
  then have "bt_get (ps_entries s) i = Some (o', p) \<or> bt_get (ps_detached s) i = Some (o', p)"
    by (simp add: process_at_def split: option.splits)
  with assms(4,5) show "buffers_ok p" by blast
qed (use assms in blast)+

lemma table_ok_default: "table_ok processes_default"
  by (simp add: table_ok_def table_bounds_def processes_default_def process_at_def)

lemma table_bounds_shrink:
  assumes "table_bounds s"
    and entries: "\<And>j o' p'. bt_get (ps_entries s') j = Some (o', p') \<Longrightarrow> \<exists>p. bt_get (ps_entries s) j = Some (o', p)"
    and ops: "\<And>k v. bt_get (ps_operations s') k = Some v \<Longrightarrow> bt_get (ps_operations s) k = Some v"
  shows "table_bounds s'"
proof -
  have "bt_len (ps_entries s') \<le> bt_len (ps_entries s)" by (rule bt_len_mono) (use entries in fastforce)
  moreover have "bt_count (\<lambda>_ x. fst x = o') (ps_entries s') \<le> bt_count (\<lambda>_ x. fst x = o') (ps_entries s)" for o'
    by (rule bt_count_mono) (use entries in fastforce)
  moreover have "bt_len (ps_operations s') \<le> bt_len (ps_operations s)" by (rule bt_len_mono) (use ops in fastforce)
  moreover have "bt_count (\<lambda>k _. fst k = o') (ps_operations s') \<le> bt_count (\<lambda>k _. fst k = o') (ps_operations s)" for o'
    by (rule bt_count_mono) (use ops in blast)
  ultimately show ?thesis using assms(1) unfolding table_bounds_def by (meson order_trans)
qed

lemma moved_buffers: "moved p p' \<Longrightarrow> buffers_ok p \<Longrightarrow> buffers_ok p'"
  by (auto simp: moved_def moves_buffers)

lemma process_at_put:
  "process_at (put_process i p s) j =
     (if j = i then map_option (\<lambda>(o', _). (o', p)) (process_at s i) else process_at s j)"
  by (auto simp: process_at_def put_detached split: option.splits)

lemma table_ok_put:
  assumes ok: "table_ok s" and at: "process_at s i = Some (o', p)" and m: "moved p p'"
  shows "table_ok (put_process i p' s)"
proof (rule table_okI)
  note buffers = moved_buffers [OF m table_okD(4) [OF ok at]]
  show "table_bounds (put_process i p' s)"
    by (rule table_bounds_shrink [OF table_okD(1) [OF ok]]) (auto split: if_splits)
  show "bt_get (ps_detached (put_process i p' s)) j = None" if "bt_get (ps_entries (put_process i p' s)) j = Some x" for j x
    using that table_okD(2) [OF ok] by (auto simp: put_detached split: if_splits)
  show "shut q" if j: "bt_get (ps_detached (put_process i p' s)) j = Some (o'', q)" for j o'' q
  proof (cases "j = i \<and> bt_get (ps_entries s) i = None")
    case True
    then have d: "bt_get (ps_detached s) i = Some (o', p)" using at by (simp add: process_at_def)
    with True j have "q = p'" by (simp add: put_detached)
    with later_stays(1) [OF moved_later [OF m] table_okD(3) [OF ok d]] show ?thesis by simp
  next
    case False
    with j have "bt_get (ps_detached s) j = Some (o'', q)" by (auto simp: put_detached)
    with table_okD(3) [OF ok] show ?thesis by blast
  qed
  show "buffers_ok q" if "bt_get (ps_entries (put_process i p' s)) j = Some (o'', q)" for j o'' q
    using that buffers table_okD(5) [OF ok] by (auto split: if_splits)
  show "buffers_ok q" if "bt_get (ps_detached (put_process i p' s)) j = Some (o'', q)" for j o'' q
    using that buffers table_okD(6) [OF ok] by (auto simp: put_detached split: if_splits)
qed

lemma process_at_detach: "process_at (detach i s) j = process_at s j"
  by (auto simp: process_at_def split: option.splits)

lemma table_ok_detach:
  assumes ok: "table_ok s" and closed: "\<And>o' p. bt_get (ps_entries s) i = Some (o', p) \<Longrightarrow> shut p"
  shows "table_ok (detach i s)"
proof (rule table_okI)
  show "table_bounds (detach i s)"
    by (rule table_bounds_shrink [OF table_okD(1) [OF ok]]) (auto split: if_splits)
  show "bt_get (ps_detached (detach i s)) j = None" if "bt_get (ps_entries (detach i s)) j = Some x" for j x
    using that table_okD(2) [OF ok] by (auto split: if_splits)
  show "shut p" if "bt_get (ps_detached (detach i s)) j = Some (o', p)" for j o' p
    using that closed table_okD(3) [OF ok] by (metis detach_fields(2))
  show "buffers_ok p" if "bt_get (ps_entries (detach i s)) j = Some (o', p)" for j o' p
    using that table_okD(5) [OF ok] by (auto split: if_splits)
  show "buffers_ok p" if "bt_get (ps_detached (detach i s)) j = Some (o', p)" for j o' p
    using that table_okD(5,6) [OF ok] by (metis detach_fields(2))
qed

lemma taken_closed_cases:
  assumes "taken_closed ids c s s'" "bt_get (ps_detached s') j = Some (o', p')"
  obtains "j \<notin> set ids" "bt_get (ps_detached s) j = Some (o', p')"
  | p where "j \<in> set ids" "bt_get (ps_entries s) j = Some (o', p)" "moved p p'" "shut p'" "c \<Longrightarrow> ended p'"
proof (cases "j \<in> set ids")
  case True
  with assms(1) obtain o'' p q where "bt_get (ps_entries s) j = Some (o'', p)" "bt_get (ps_detached s') j = Some (o'', q)"
    "moved p q" "shut q" "c \<longrightarrow> ended q" unfolding taken_closed_def by blast
  with assms(2) that(2) True show ?thesis by simp
next
  case False
  with assms have "bt_get (ps_detached s) j = Some (o', p')" unfolding taken_closed_def by metis
  with False that(1) show ?thesis by blast
qed

lemma taken_entries:
  "taken_closed ids c s s' \<Longrightarrow> bt_get (ps_entries s') j = Some x \<longleftrightarrow> j \<notin> set ids \<and> bt_get (ps_entries s) j = Some x"
  by (simp add: taken_closed_def)

lemma table_ok_closed:
  assumes ok: "table_ok s" and taken: "taken_closed ids c s s'"
    and ops: "\<And>k v. bt_get (ps_operations s') k = Some v \<Longrightarrow> bt_get (ps_operations s) k = Some v"
  shows "table_ok s'"
proof (rule table_okI)
  show "table_bounds s'"
    by (rule table_bounds_shrink [OF table_okD(1) [OF ok]]) (use ops taken_entries [OF taken] in auto)
  show "bt_get (ps_detached s') j = None" if "bt_get (ps_entries s') j = Some x" for j x
  proof -
    from that have "j \<notin> set ids" "bt_get (ps_entries s) j = Some x" by (simp_all add: taken_entries [OF taken])
    with table_okD(2) [OF ok, of j x] taken show ?thesis unfolding taken_closed_def by metis
  qed
  show "shut p" if "bt_get (ps_detached s') j = Some (o', p)" for j o' p
    using taken that by (cases rule: taken_closed_cases) (use table_okD(3) [OF ok] in blast)+
  show "buffers_ok p" if "bt_get (ps_entries s') j = Some (o', p)" for j o' p
    using that table_okD(5) [OF ok] unfolding taken_entries [OF taken] by blast
  show "buffers_ok p" if "bt_get (ps_detached s') j = Some (o', p)" for j o' p
    using taken that by (cases rule: taken_closed_cases) (use table_okD(5,6) [OF ok] moved_buffers in blast)+
qed

lemma start_process_cases:
  assumes "start_process v owner input params s = (r, s')"
  obtains "s' = s"
  | i p where "bt_get (ps_operations s) (owner_key owner, sp_operation_key input) = None"
      "bt_len (ps_entries s) < 16" "bt_count (\<lambda>_ x. fst x = owner_key owner) (ps_entries s) < 4"
      "bt_len (ps_operations s) < 256" "bt_count (\<lambda>k _. fst k = owner_key owner) (ps_operations s) < 64"
      "pv_token v 0 = Some i" "spawn v owner input = Ok p"
      "s' = s\<lparr>ps_entries := bt_insert i (owner_key owner, p) (ps_entries s),
         ps_operations := bt_insert (owner_key owner, sp_operation_key input) (params, i) (ps_operations s)\<rparr>"
proof (cases "s' = s")
  case False
  let ?op = "(owner_key owner, sp_operation_key input)"
  have none: "bt_get (ps_operations s) ?op = None"
    using assms False by (auto simp: start_process_def Let_def split: option.splits)
  have room: "\<not> (16 \<le> bt_len (ps_entries s) \<or> 4 \<le> bt_count (\<lambda>_ x. fst x = owner_key owner) (ps_entries s)
             \<or> 256 \<le> bt_len (ps_operations s) \<or> 64 \<le> bt_count (\<lambda>k _. fst k = owner_key owner) (ps_operations s))"
  proof
    assume "16 \<le> bt_len (ps_entries s) \<or> 4 \<le> bt_count (\<lambda>_ x. fst x = owner_key owner) (ps_entries s)
       \<or> 256 \<le> bt_len (ps_operations s) \<or> 64 \<le> bt_count (\<lambda>k _. fst k = owner_key owner) (ps_operations s)"
    with assms none False show False by (simp add: start_process_def Let_def)
  qed
  note run = assms [unfolded start_process_def Let_def none option.case if_not_P [OF room]]
  from run False obtain i p where "and_then (draw_token (pv_token v) 0) (\<lambda>i. and_then (spawn v owner input) (\<lambda>p. Ok (i, p))) = Ok (i, p)"
    "s' = s\<lparr>ps_entries := bt_insert i (owner_key owner, p) (ps_entries s), ps_operations := bt_insert ?op (params, i) (ps_operations s)\<rparr>"
    by (auto split: outcome.splits)
  then show thesis using that(2) none room by (auto simp: and_then_ok draw_token_def split: option.splits)
qed (use that in blast)

lemma spawned_fresh: "spawn v owner input = Ok p \<Longrightarrow> \<exists>pid. p = new_process pid input"
  by (auto simp: spawn_def and_then_ok split: option.splits)

lemma table_ok_start:
  assumes "table_ok s" "start_process v owner input params s = (r, s')"
    and fresh: "\<And>i. pv_token v 0 = Some i \<Longrightarrow> process_at s i = None"
  shows "table_ok s'"
  using assms(2)
proof (cases rule: start_process_cases)
  case 1
  with assms(1) show ?thesis by simp
next
  case (2 i p)
  have new: "bt_get (ps_entries s) i = None" "bt_get (ps_detached s) i = None"
    using fresh [OF 2(6)] by (auto simp: process_at_def split: option.splits)
  have "buffers_ok p" using spawned_fresh [OF 2(7)] by (auto simp: buffers_ok_def new_process_def io_default_def)
  moreover have "bt_count (\<lambda>_ x. fst x = o') (ps_entries s') \<le> 4" for o'
  proof (cases "o' = owner_key owner")
    case True
    with 2(3,8) bt_count_insert_le [of "\<lambda>_ x. fst x = o'" i "(owner_key owner, p)" "ps_entries s"] show ?thesis by simp
  next
    case False
    then have "bt_count (\<lambda>_ x. fst x = o') (ps_entries s') \<le> bt_count (\<lambda>_ x. fst x = o') (ps_entries s)"
      using bt_count_insert_skip [of "\<lambda>_ x. fst x = o'" i "(owner_key owner, p)" "ps_entries s"] 2(8) by simp
    with table_okD(1) [OF assms(1)] show ?thesis unfolding table_bounds_def by (meson order_trans)
  qed
  moreover have "bt_count (\<lambda>k _. fst k = o') (ps_operations s') \<le> 64" for o'
  proof (cases "o' = owner_key owner")
    case True
    with 2(5,8) bt_count_insert_le [of "\<lambda>k _. fst k = o'" "(owner_key owner, sp_operation_key input)" "(params, i)" "ps_operations s"]
    show ?thesis by simp
  next
    case False
    then have "bt_count (\<lambda>k _. fst k = o') (ps_operations s') \<le> bt_count (\<lambda>k _. fst k = o') (ps_operations s)"
      using bt_count_insert_skip [of "\<lambda>k _. fst k = o'" "(owner_key owner, sp_operation_key input)" "(params, i)" "ps_operations s"] 2(8)
      by simp
    with table_okD(1) [OF assms(1)] show ?thesis unfolding table_bounds_def by (meson order_trans)
  qed
  ultimately show ?thesis
    using table_okD [OF assms(1)] 2(2,4,8) new
    by (intro table_okI) (auto simp: table_bounds_def split: if_splits)
qed

end
