(* ===== verification/Task_Runs.thy ===== *)
theory Task_Runs
  imports Resource_Tasks Transitions
begin

text \<open>
  The task store over time: the protocol every task follows, the invariant of the store, and
  the runs it holds in.
\<close>

section \<open>The protocol of a task\<close>

text \<open>The states a task may go through, one call at a time.\<close>

definition task_moves :: "(task_state \<times> task_state) set" where
  "task_moves = {(Queued, Running), (Queued, Cancelled), (Running, Running), (Running, Succeeded),
     (Running, Failed), (Running, Cancelled), (Running, Interrupted)}"

text \<open>
  What may happen to a task in a call: nothing, or one move of a task that has not ended, which
  keeps what the task is, its claim and a request to cancel it.
\<close>

definition task_move :: "task \<Rightarrow> task \<Rightarrow> bool" where
  "task_move t t' \<longleftrightarrow>
     t' = t
     \<or> (\<not> terminal t \<and> (tk_state t, tk_state t') \<in> task_moves
        \<and> tk_owner t' = tk_owner t \<and> tk_runner t' = tk_runner t \<and> tk_input t' = tk_input t
        \<and> tk_created_at t' = tk_created_at t \<and> tk_deadline t' = tk_deadline t
        \<and> tk_deadline_at t' = tk_deadline_at t \<and> tk_revision t' = tk_revision t + 1
        \<and> (tk_claim t \<noteq> None \<longrightarrow> tk_claim t' = tk_claim t)
        \<and> (tk_cancel_requested t \<longrightarrow> tk_cancel_requested t'))"

definition task_ok :: "task \<Rightarrow> bool" where
  "task_ok t \<longleftrightarrow>
     (case tk_state t of
        Queued \<Rightarrow> tk_claim t = None \<and> \<not> tk_cancel_requested t \<and> tk_result t = None \<and> tk_error t = None
      | Running \<Rightarrow> tk_claim t \<noteq> None \<and> tk_result t = None \<and> tk_error t = None
      | Succeeded \<Rightarrow> tk_claim t \<noteq> None \<and> tk_error t = None
      | Failed \<Rightarrow> tk_claim t \<noteq> None \<and> tk_result t = None
      | Cancelled \<Rightarrow> tk_cancel_requested t \<and> tk_result t = None
      | Interrupted \<Rightarrow> tk_claim t \<noteq> None \<and> tk_cancel_requested t \<and> tk_result t = None \<and> tk_error t \<noteq> None)"

lemma task_move_refl [simp]: "task_move t t"
  by (simp add: task_move_def)

lemma task_move_terminal: "task_move t t' \<Longrightarrow> terminal t \<Longrightarrow> t' = t"
  by (auto simp: task_move_def)

lemma stopped_move:
  assumes "task_ok t" "\<not> terminal t"
  shows "task_move t (stopped code t)" "task_ok (stopped code t)" "terminal (stopped code t)"
    "tk_owner (stopped code t) = tk_owner t"
  using assms by (cases "tk_state t"; simp add: task_move_def task_ok_def stopped_def terminal_def task_moves_def)+

section \<open>The invariant\<close>

definition tasks_ok :: "task_store \<Rightarrow> bool" where
  "tasks_ok s \<longleftrightarrow> (\<forall>i t. bt_get (ts_tasks s) i = Some t \<longrightarrow> task_ok t)"

text \<open>The record of an operation names a task of its owner, and no two records the same.\<close>

definition operations_ok :: "task_store \<Rightarrow> bool" where
  "operations_ok s \<longleftrightarrow>
     (\<forall>owner key p i. bt_get (ts_operations s) (owner, key) = Some (p, i) \<longrightarrow>
        (\<exists>t. bt_get (ts_tasks s) i = Some t \<and> tk_owner t = owner))
     \<and> (\<forall>k k' p p' i. bt_get (ts_operations s) k = Some (p, i) \<and> bt_get (ts_operations s) k' = Some (p', i)
          \<longrightarrow> k = k')"

definition task_limits :: "task_store \<Rightarrow> bool" where
  "task_limits s \<longleftrightarrow>
     bt_len (ts_runners s) \<le> 128 \<and> bt_len (ts_tasks s) \<le> 256
     \<and> (\<forall>owner. bt_count (\<lambda>_ r. rn_owner r = owner) (ts_runners s) \<le> 16
          \<and> bt_count (\<lambda>_ t. tk_owner t = owner) (ts_tasks s) \<le> 64
          \<and> running_tasks owner (ts_tasks s) \<le> 4)"

definition task_inv :: "task_store \<Rightarrow> bool" where
  "task_inv s \<longleftrightarrow> tasks_ok s \<and> operations_ok s \<and> task_limits s"

lemma task_limitsD:
  assumes "task_limits s"
  shows "bt_len (ts_runners s) \<le> 128" "bt_len (ts_tasks s) \<le> 256"
    "bt_count (\<lambda>_ r. rn_owner r = owner) (ts_runners s) \<le> 16"
    "bt_count (\<lambda>_ t. tk_owner t = owner) (ts_tasks s) \<le> 64"
    "running_tasks owner (ts_tasks s) \<le> 4"
  using assms unfolding task_limits_def by blast+

lemma task_limitsI:
  assumes "bt_len (ts_runners s) \<le> 128" "bt_len (ts_tasks s) \<le> 256"
    "\<And>owner. bt_count (\<lambda>_ r. rn_owner r = owner) (ts_runners s) \<le> 16"
    "\<And>owner. bt_count (\<lambda>_ t. tk_owner t = owner) (ts_tasks s) \<le> 64"
    "\<And>owner. running_tasks owner (ts_tasks s) \<le> 4"
  shows "task_limits s"
  using assms unfolding task_limits_def by blast

text \<open>
  Most operations only move the tasks there are: the same keys, each task moved, none newly
  running.
\<close>

definition tasks_moved :: "(string, task) btree \<Rightarrow> (string, task) btree \<Rightarrow> bool" where
  "tasks_moved m m' \<longleftrightarrow>
     (\<forall>i. bt_get m i = None \<longrightarrow> bt_get m' i = None)
     \<and> (\<forall>i t. bt_get m i = Some t \<longrightarrow>
          (\<exists>t'. bt_get m' i = Some t' \<and> task_move t t' \<and> task_ok t'))"

lemma move_owner: "task_move t t' \<Longrightarrow> tk_owner t' = tk_owner t"
  by (auto simp: task_move_def)

lemma tasks_moved_back:
  assumes "tasks_moved m m'" "bt_get m' i = Some t'"
  obtains t where "bt_get m i = Some t" "task_move t t'" "task_ok t'"
proof (cases "bt_get m i")
  case None
  with assms show ?thesis by (auto simp: tasks_moved_def)
next
  case (Some t)
  with assms that show ?thesis unfolding tasks_moved_def by (metis option.inject)
qed

lemma tasks_moved_inv:
  assumes "task_inv s" "tasks_moved (ts_tasks s) (ts_tasks s')"
    and "\<And>owner. running_tasks owner (ts_tasks s') \<le> 4"
    and "ts_operations s' = ts_operations s" "bt_len (ts_runners s') \<le> bt_len (ts_runners s)"
    and "\<And>owner. bt_count (\<lambda>_ r. rn_owner r = owner) (ts_runners s')
      \<le> bt_count (\<lambda>_ r. rn_owner r = owner) (ts_runners s)"
  shows "task_inv s'"
proof -
  have inv: "tasks_ok s" "operations_ok s" "task_limits s" using assms(1) by (simp_all add: task_inv_def)
  have "tasks_ok s'"
    unfolding tasks_ok_def by (auto elim: tasks_moved_back [OF assms(2)])
  moreover have "operations_ok s'"
    unfolding operations_ok_def assms(4)
  proof (intro conjI allI impI)
    fix owner key p i
    assume "bt_get (ts_operations s) (owner, key) = Some (p, i)"
    with inv(2) obtain t where "bt_get (ts_tasks s) i = Some t" "tk_owner t = owner"
      unfolding operations_ok_def by blast
    with assms(2) show "\<exists>t. bt_get (ts_tasks s') i = Some t \<and> tk_owner t = owner"
      unfolding tasks_moved_def using move_owner by blast
  next
    fix k k' p p' i
    assume "bt_get (ts_operations s) k = Some (p, i) \<and> bt_get (ts_operations s) k' = Some (p', i)"
    with inv(2) show "k = k'" unfolding operations_ok_def by blast
  qed
  moreover have "bt_len (ts_tasks s') \<le> bt_len (ts_tasks s)"
    by (rule bt_len_mono) (auto elim: tasks_moved_back [OF assms(2)])
  moreover have "bt_count (\<lambda>_ t. tk_owner t = owner) (ts_tasks s')
      \<le> bt_count (\<lambda>_ t. tk_owner t = owner) (ts_tasks s)" for owner
    by (rule bt_count_mono) (auto elim!: tasks_moved_back [OF assms(2)] dest: move_owner)
  ultimately show ?thesis
    unfolding task_inv_def using task_limitsD [OF inv(3)] assms(3,5,6)
    by (intro conjI task_limitsI) (assumption | rule order_trans)+
qed

text \<open>When no task becomes running, the bound on the running ones is kept.\<close>

lemma no_new_running:
  assumes "\<And>i t'. bt_get m' i = Some t' \<Longrightarrow> tk_state t' = Running \<Longrightarrow>
      \<exists>t. bt_get m i = Some t \<and> tk_state t = Running \<and> tk_owner t = tk_owner t'"
    and "running_tasks owner m \<le> 4"
  shows "running_tasks owner m' \<le> 4"
proof -
  have "running_tasks owner m' \<le> running_tasks owner m"
    unfolding running_tasks_def by (rule bt_count_mono) (use assms(1) in blast)
  with assms(2) show ?thesis by simp
qed

lemma moved_refl: "tasks_ok s \<Longrightarrow> tasks_moved (ts_tasks s) (ts_tasks s)"
  by (auto simp: tasks_ok_def tasks_moved_def)

lemma moved_map:
  assumes "tasks_ok s" "\<And>i t. task_ok t \<Longrightarrow> task_move t (f i t) \<and> task_ok (f i t)"
  shows "tasks_moved (ts_tasks s) (bt_map f (ts_tasks s))"
  using assms by (auto simp: tasks_ok_def tasks_moved_def)

lemma moved_put:
  assumes "tasks_ok s" "bt_get (ts_tasks s) i = Some t" "task_move t t'" "task_ok t'"
  shows "tasks_moved (ts_tasks s) (bt_insert i t' (ts_tasks s))"
  using assms by (auto simp: tasks_ok_def tasks_moved_def)

section \<open>What each operation does\<close>

definition fresh_task_tokens :: "task_env \<Rightarrow> task_store \<Rightarrow> bool" where
  "fresh_task_tokens v s \<longleftrightarrow>
     (\<forall>i. te_token v 0 = Some i \<longrightarrow>
        bt_get (ts_tasks s) i = None \<and> bt_get (ts_runners s) i = None)"

lemma task_invD: "task_inv s \<Longrightarrow> tasks_ok s" "task_inv s \<Longrightarrow> operations_ok s" "task_inv s \<Longrightarrow> task_limits s"
  by (simp_all add: task_inv_def)

lemma stop_some_inv:
  assumes "task_inv s" "ts_operations s' = ts_operations s" "bt_len (ts_runners s') \<le> bt_len (ts_runners s)"
    and "\<And>owner. bt_count (\<lambda>_ r. rn_owner r = owner) (ts_runners s')
      \<le> bt_count (\<lambda>_ r. rn_owner r = owner) (ts_runners s)"
    and tasks: "ts_tasks s' = bt_map (\<lambda>_ t. if p t \<and> \<not> terminal t then stopped code t else t) (ts_tasks s)"
  shows "task_inv s'" "tasks_moved (ts_tasks s) (ts_tasks s')"
proof -
  show moved: "tasks_moved (ts_tasks s) (ts_tasks s')"
    unfolding tasks using task_invD(1) [OF assms(1)] by (rule moved_map) (simp add: stopped_move)
  have "running_tasks owner (ts_tasks s') \<le> 4" for owner
  proof (rule no_new_running)
    fix i t'
    assume "bt_get (ts_tasks s') i = Some t'" "tk_state t' = Running"
    moreover from this obtain t where "bt_get (ts_tasks s) i = Some t"
      "t' = (if p t \<and> \<not> terminal t then stopped code t else t)" by (auto simp: tasks)
    moreover have "tk_state (stopped code t) \<noteq> Running" by (simp add: stopped_def)
    ultimately show "\<exists>t. bt_get (ts_tasks s) i = Some t \<and> tk_state t = Running \<and> tk_owner t = tk_owner t'"
      by (metis (full_types))
  qed (rule task_limitsD(5) [OF task_invD(3) [OF assms(1)]])
  with assms(1) moved show "task_inv s'" by (rule tasks_moved_inv) (rule assms(2-4))+
qed

lemma expire_inv:
  assumes "task_inv s"
  shows "task_inv (expire now s)" "tasks_moved (ts_tasks s) (ts_tasks (expire now s))"
proof -
  have "ts_tasks (expire now s)
      = bt_map (\<lambda>_ t. if tk_deadline t \<le> now \<and> \<not> terminal t then stopped ''task_timeout'' t else t) (ts_tasks s)"
    by (simp add: expire_def conj_commute)
  note * = stop_some_inv [OF assms _ _ _ this]
  show "task_inv (expire now s)" by (rule *(1)) (simp_all add: expire_def)
  show "tasks_moved (ts_tasks s) (ts_tasks (expire now s))" by (rule *(2)) (simp_all add: expire_def)
qed

lemma put_task_inv:
  assumes "task_inv s" "bt_get (ts_tasks s) i = Some t" "task_move t t'" "task_ok t'"
    and "tk_state t' = Running \<Longrightarrow> tk_state t = Running"
  shows "task_inv (put_task i t' s)" "tasks_moved (ts_tasks s) (ts_tasks (put_task i t' s))"
proof -
  show moved: "tasks_moved (ts_tasks s) (ts_tasks (put_task i t' s))"
    using moved_put [OF task_invD(1) [OF assms(1)] assms(2-4)] by (simp add: put_task_def)
  have "running_tasks owner (ts_tasks (put_task i t' s)) \<le> 4" for owner
  proof (rule no_new_running)
    fix j u
    assume "bt_get (ts_tasks (put_task i t' s)) j = Some u" "tk_state u = Running"
    then show "\<exists>t. bt_get (ts_tasks s) j = Some t \<and> tk_state t = Running \<and> tk_owner t = tk_owner u"
      using assms(2,5) move_owner [OF assms(3)] by (auto simp: put_task_def split: if_splits)
  qed (rule task_limitsD(5) [OF task_invD(3) [OF assms(1)]])
  with assms(1) moved show "task_inv (put_task i t' s)" by (rule tasks_moved_inv) (simp_all add: put_task_def)
qed

lemma owned_task_Some:
  "owned_task s owner i = Some t \<longleftrightarrow> bt_get (ts_tasks s) i = Some t \<and> tk_owner t = owner"
  by (auto simp: owned_task_def split: option.splits)

lemma claimed_task_ok:
  "claimed_task s owner i c = Ok t \<longleftrightarrow>
     bt_get (ts_tasks s) i = Some t \<and> tk_owner t = owner \<and> tk_claim t = Some c \<and> \<not> terminal t"
  by (auto simp: claimed_task_def owned_task_def split: option.splits if_splits)

text \<open>A claimed task that has not ended is running.\<close>

lemma claimed_running: "task_ok t \<Longrightarrow> tk_claim t = Some c \<Longrightarrow> \<not> terminal t \<Longrightarrow> tk_state t = Running"
  by (cases "tk_state t") (simp_all add: task_ok_def terminal_def)

text \<open>
  What a call by an owner does to the store: it keeps the invariant, moves the tasks there are
  by the protocol and does not touch those of others, adds only queued tasks, operations and
  runners of the caller, and forgets no operation.
\<close>

definition call_effect :: "owner_key \<Rightarrow> task_store \<Rightarrow> task_store \<Rightarrow> bool" where
  "call_effect owner s s' \<longleftrightarrow>
     task_inv s'
     \<and> (\<forall>i t. bt_get (ts_tasks s) i = Some t \<longrightarrow>
          (\<exists>t'. bt_get (ts_tasks s') i = Some t' \<and> task_move t t' \<and> (tk_owner t \<noteq> owner \<longrightarrow> t' = t)))
     \<and> (\<forall>i t'. bt_get (ts_tasks s) i = None \<and> bt_get (ts_tasks s') i = Some t' \<longrightarrow>
          tk_owner t' = owner \<and> tk_state t' = Queued)
     \<and> (\<forall>k e. bt_get (ts_operations s) k = Some e \<longrightarrow> bt_get (ts_operations s') k = Some e)
     \<and> (\<forall>o' k e. o' \<noteq> owner \<and> bt_get (ts_operations s') (o', k) = Some e \<longrightarrow>
          bt_get (ts_operations s) (o', k) = Some e)
     \<and> (\<forall>i r. bt_get (ts_runners s') i = Some r \<and> rn_owner r \<noteq> owner \<longrightarrow>
          bt_get (ts_runners s) i = Some r)"

lemma call_effect_refl: "task_inv s \<Longrightarrow> call_effect owner s s"
  by (auto simp: call_effect_def)

lemma call_effect_task:
  assumes "call_effect owner s s'" "bt_get (ts_tasks s) i = Some t"
  obtains t' where "bt_get (ts_tasks s') i = Some t'" "task_move t t'" "tk_owner t \<noteq> owner \<Longrightarrow> t' = t"
  using assms unfolding call_effect_def by (elim conjE allE [of _ i]) blast

lemma moved_effect:
  assumes "task_inv s'" "tasks_moved (ts_tasks s) (ts_tasks s')" "ts_operations s' = ts_operations s"
    and "\<And>i t. bt_get (ts_tasks s) i = Some t \<Longrightarrow> tk_owner t \<noteq> owner \<Longrightarrow> bt_get (ts_tasks s') i = Some t"
    and "\<And>i r. bt_get (ts_runners s') i = Some r \<Longrightarrow> rn_owner r \<noteq> owner \<Longrightarrow> bt_get (ts_runners s) i = Some r"
  shows "call_effect owner s s'"
  unfolding call_effect_def
proof (intro conjI allI impI)
  fix i t
  assume t: "bt_get (ts_tasks s) i = Some t"
  with assms(2) obtain t' where "bt_get (ts_tasks s') i = Some t'" "task_move t t'"
    unfolding tasks_moved_def by blast
  with assms(4) [OF t] show "\<exists>t'. bt_get (ts_tasks s') i = Some t' \<and> task_move t t'
      \<and> (tk_owner t \<noteq> owner \<longrightarrow> t' = t)" by auto
next
  fix i t'
  assume "bt_get (ts_tasks s) i = None \<and> bt_get (ts_tasks s') i = Some t'"
  with assms(2) have False by (auto simp: tasks_moved_def)
  then show "tk_owner t' = owner" "tk_state t' = Queued" by blast+
qed (use assms(1,3,5) in simp_all)

lemma put_task_effect:
  assumes "task_inv s" "bt_get (ts_tasks s) i = Some t" "tk_owner t = owner" "task_move t t'" "task_ok t'"
    and "tk_state t' = Running \<Longrightarrow> tk_state t = Running"
  shows "call_effect owner s (put_task i t' s)"
proof (rule moved_effect)
  show "task_inv (put_task i t' s)" using assms(1,2,4-6) by (rule put_task_inv)
  show "tasks_moved (ts_tasks s) (ts_tasks (put_task i t' s))" using assms(1,2,4-6) by (rule put_task_inv)
qed (use assms(2,3) in \<open>auto simp: put_task_def\<close>)

subsection \<open>Claiming\<close>

definition claim_of :: "task \<Rightarrow> string \<Rightarrow> task" where
  "claim_of t c = t\<lparr>tk_claim := Some c, tk_state := Running, tk_revision := tk_revision t + 1\<rparr>"

lemma claim_of_move:
  assumes "tk_state t = Queued"
  shows "task_ok t \<Longrightarrow> task_move t (claim_of t c)" "task_ok t \<Longrightarrow> task_ok (claim_of t c)" "tk_owner (claim_of t c) = tk_owner t"
  using assms by (simp_all add: claim_of_def task_move_def terminal_def task_moves_def task_ok_def)

lemma claim_tasks_spec:
  assumes "claim_tasks v owner rn capacity n es m = (r, m')" "distinct (map fst es)"
    and "\<And>i t. (i, t) \<in> set es \<Longrightarrow> bt_get m i = Some t"
  shows "\<forall>i. bt_get m' i = bt_get m i
      \<or> (\<exists>t c. bt_get m i = Some t \<and> bt_get m' i = Some (claim_of t c)
            \<and> tk_owner t = owner \<and> tk_runner t = rn \<and> tk_state t = Queued)"
    and "running_tasks owner m' \<le> running_tasks owner m + (capacity - n)"
    and "\<forall>i. i \<notin> fst ` set es \<longrightarrow> bt_get m' i = bt_get m i"
proof -
  have "(\<forall>i. bt_get m' i = bt_get m i
      \<or> (\<exists>t c. bt_get m i = Some t \<and> bt_get m' i = Some (claim_of t c)
            \<and> tk_owner t = owner \<and> tk_runner t = rn \<and> tk_state t = Queued))
    \<and> running_tasks owner m' \<le> running_tasks owner m + (capacity - n)
    \<and> (\<forall>i. i \<notin> fst ` set es \<longrightarrow> bt_get m' i = bt_get m i)"
    using assms
  proof (induction v owner rn capacity n es m arbitrary: r m' rule: claim_tasks.induct)
    case (1 v owner rn capacity n m)
    then show ?case by simp
  next
    case (2 v owner rn capacity n i t es m)
    consider "capacity \<le> n" | "\<not> capacity \<le> n" "tk_owner t \<noteq> owner \<or> tk_runner t \<noteq> rn \<or> tk_state t \<noteq> Queued"
      | "\<not> capacity \<le> n" "\<not> (tk_owner t \<noteq> owner \<or> tk_runner t \<noteq> rn \<or> tk_state t \<noteq> Queued)" by blast
    then show ?case
    proof cases
      case 1
      with 2(3) show ?thesis by simp
    next
      case 2: 2
      have "claim_tasks v owner rn capacity n es m = (r, m')" using 2 "2.prems"(1) by simp
      from "2.IH"(1) [OF 2 this] "2.prems"(2,3) show ?thesis by auto
    next
      case 3
      show ?thesis
      proof (cases "draw_token (te_token v) n")
        case (Ok c)
        obtain r1 where rest: "claim_tasks v owner rn capacity (Suc n) es (bt_insert i (claim_of t c) m) = (r1, m')"
          using "2.prems"(1) 3 Ok
          by (cases "claim_tasks v owner rn capacity (Suc n) es (bt_insert i (claim_of t c) m)")
            (auto simp: claim_of_def Let_def split: outcome.splits)
        have get: "bt_get m i = Some t" using "2.prems"(3) by simp
        have new: "i \<notin> fst ` set es" using "2.prems"(2) by auto
        have es: "bt_get (bt_insert i (claim_of t c) m) j = Some u" if "(j, u) \<in> set es" for j u
          using that "2.prems"(3) new by force
        have ih: "(\<forall>j. bt_get m' j = bt_get (bt_insert i (claim_of t c) m) j
          \<or> (\<exists>u d. bt_get (bt_insert i (claim_of t c) m) j = Some u \<and> bt_get m' j = Some (claim_of u d)
                \<and> tk_owner u = owner \<and> tk_runner u = rn \<and> tk_state u = Queued))"
          "running_tasks owner m' \<le> running_tasks owner (bt_insert i (claim_of t c) m) + (capacity - Suc n)"
          "\<forall>j. j \<notin> fst ` set es \<longrightarrow> bt_get m' j = bt_get (bt_insert i (claim_of t c) m) j"
          using "2.IH"(2) [OF 3 Ok _ rest [unfolded claim_of_def]] "2.prems"(2) es
          by (auto simp: claim_of_def)
        have mi: "bt_get m' i = Some (claim_of t c)" using ih(3) new by simp
        have "running_tasks owner (bt_insert i (claim_of t c) m) \<le> Suc (running_tasks owner m)"
          unfolding running_tasks_def by (rule bt_count_insert_le)
        then have "running_tasks owner m' \<le> running_tasks owner m + (capacity - n)"
          using ih(2) 3(1) by simp
        moreover have "bt_get m' j = bt_get m j
          \<or> (\<exists>u d. bt_get m j = Some u \<and> bt_get m' j = Some (claim_of u d)
                \<and> tk_owner u = owner \<and> tk_runner u = rn \<and> tk_state u = Queued)" for j
        proof (cases "j = i")
          case True
          with mi get 3(2) show ?thesis by blast
        next
          case False
          with ih(1) show ?thesis by (metis bt_get_insert)
        qed
        moreover have "\<forall>j. j \<notin> fst ` set ((i, t) # es) \<longrightarrow> bt_get m' j = bt_get m j"
          using ih(3) by simp
        ultimately show ?thesis by blast
      qed (use "2.prems"(1) 3 in simp_all)
    qed
  qed
  then show "\<forall>i. bt_get m' i = bt_get m i
      \<or> (\<exists>t c. bt_get m i = Some t \<and> bt_get m' i = Some (claim_of t c)
            \<and> tk_owner t = owner \<and> tk_runner t = rn \<and> tk_state t = Queued)"
    and "running_tasks owner m' \<le> running_tasks owner m + (capacity - n)"
    and "\<forall>i. i \<notin> fst ` set es \<longrightarrow> bt_get m' i = bt_get m i" by blast+
qed

lemma claim_work_effect:
  assumes "task_inv s" "claim_work v owner x s = (r, s')"
  shows "call_effect owner s s'"
proof -
  note inv = task_invD [OF assms(1)]
  show ?thesis
  proof (cases "s' = s")
    case True
    with assms(1) show ?thesis by (simp add: call_effect_refl)
  next
    case False
    obtain limit where l: "\<not> 1000 < cl_wait_ms x" "bounded (cl_limit x) 1 4 = Ok limit" "owns_runner s owner (cl_runner x)"
      using assms(2) False by (auto simp: claim_work_def split: if_splits outcome.splits)
    let ?cap = "min (4 - running_tasks owner (ts_tasks s)) limit"
    obtain q m where loop: "claim_tasks v owner (cl_runner x) ?cap 0 (bt_entries (ts_tasks s)) (ts_tasks s) = (q, m)"
      by fastforce
    have s': "s' = s\<lparr>ts_tasks := m\<rparr>"
      using assms(2) l loop by (cases q) (simp_all add: claim_work_def Let_def)
    note spec = claim_tasks_spec [OF loop entries_distinct, unfolded in_entries]
    have moved: "tasks_moved (ts_tasks s) m"
      unfolding tasks_moved_def
    proof (intro conjI allI impI)
      fix i
      assume "bt_get (ts_tasks s) i = None"
      with spec(1) show "bt_get m i = None" by (metis option.distinct(1))
    next
      fix i t
      assume t: "bt_get (ts_tasks s) i = Some t"
      then have ok: "task_ok t" using inv(1) by (auto simp: tasks_ok_def)
      from spec(1) consider "bt_get m i = bt_get (ts_tasks s) i"
        | c where "bt_get m i = Some (claim_of t c)" "tk_state t = Queued"
        using t by (metis option.inject)
      then show "\<exists>t'. bt_get m i = Some t' \<and> task_move t t' \<and> task_ok t'"
        by cases (use t ok claim_of_move in auto)
    qed
    have "running_tasks o' m \<le> 4" for o'
    proof (cases "o' = owner")
      case True
      with spec(2) task_limitsD(5) [OF inv(3), of owner] show ?thesis by simp
    next
      case False
      have "running_tasks o' m \<le> running_tasks o' (ts_tasks s)"
        unfolding running_tasks_def
      proof (rule bt_count_mono)
        fix i t'
        assume "bt_get m i = Some t'" "tk_owner t' = o' \<and> tk_state t' = Running"
        with spec(1) False show "\<exists>w. bt_get (ts_tasks s) i = Some w \<and> tk_owner w = o' \<and> tk_state w = Running"
          by (metis claim_of_move(3) option.inject)
      qed
      with task_limitsD(5) [OF inv(3), of o'] show ?thesis by simp
    qed
    with assms(1) moved have "task_inv s'" by (intro tasks_moved_inv [of s s']) (simp_all add: s')
    moreover have "bt_get m i = Some t" if "bt_get (ts_tasks s) i = Some t" "tk_owner t \<noteq> owner" for i t
      using spec(1) that by (metis option.inject)
    ultimately show ?thesis using moved by (intro moved_effect) (simp_all add: s')
  qed
qed

subsection \<open>Starting\<close>

lemma start_task_cases:
  assumes "start_task v owner params x s = (r, s')"
  obtains "s' = s" | i n where "is_ok r" "bt_get (ts_operations s) (owner, st_operation_key x) = None"
      "owns_runner s owner (st_runner x)" "bt_len (ts_tasks s) < 256"
      "bt_count (\<lambda>_ t. tk_owner t = owner) (ts_tasks s) < 64" "te_token v 0 = Some i"
      "s' = (put_task i (new_task v owner x n) s)\<lparr>ts_operations :=
         bt_insert (owner, st_operation_key x) (params, i) (ts_operations s)\<rparr>"
      "r = Ok (snapshot (new_task v owner x n) i)"
proof (cases "s' = s")
  case True
  with that(1) show ?thesis by blast
next
  case False
  have pre: "check_name (st_operation_key x) = Ok ()" "check_bytes (te_size v) (st_input x) (64 * 1024) = Ok ()"
    using assms False by (auto simp: start_task_def split: outcome.splits)
  have new: "bt_get (ts_operations s) (owner, st_operation_key x) = None"
    using assms False pre
    by (cases "bt_get (ts_operations s) (owner, st_operation_key x)")
      (auto simp: start_task_def split: if_splits option.splits)
  define n where "n = (case st_timeout_ms x of Some n \<Rightarrow> n | None \<Rightarrow> 60 * 60 * 1000)"
  have guards: "owns_runner s owner (st_runner x)"
    "bt_len (ts_tasks s) < 256 \<and> bt_count (\<lambda>_ t. tk_owner t = owner) (ts_tasks s) < 64"
    "\<not> (n < 1 \<or> 24 * 60 * 60 * 1000 < n)"
    using assms False pre new by (auto simp: start_task_def Let_def n_def not_le split: if_splits)
  obtain i where i: "te_token v 0 = Some i"
    using assms False pre new guards
    by (cases "te_token v 0") (auto simp: start_task_def Let_def n_def draw_token_def split: if_splits)
  have "r = Ok (snapshot (new_task v owner x n) i)
    \<and> s' = (put_task i (new_task v owner x n) s)\<lparr>ts_operations :=
         bt_insert (owner, st_operation_key x) (params, i) (ts_operations s)\<rparr>"
    using assms pre new guards i
    by (simp add: start_task_def Let_def draw_token_def not_le n_def [symmetric])
  with new guards i show ?thesis by (intro that(2) [of i n]) simp_all
qed

lemma start_task_effect:
  assumes "task_inv s" "start_task v owner params x s = (r, s')" "fresh_task_tokens v s"
  shows "call_effect owner s s'"
  using assms(2)
proof (cases rule: start_task_cases)
  case 1
  with assms(1) show ?thesis by (simp add: call_effect_refl)
next
  case (2 i n)
  note inv = task_invD [OF assms(1)]
  let ?t = "new_task v owner x n" and ?k = "(owner, st_operation_key x)"
  from assms(3) 2(6) have new: "bt_get (ts_tasks s) i = None" by (simp add: fresh_task_tokens_def)
  have t: "tk_state ?t = Queued" "tk_owner ?t = owner" "task_ok ?t" by (simp_all add: new_task_def task_ok_def)
  have tasks: "ts_tasks s' = bt_insert i ?t (ts_tasks s)"
    and ops: "ts_operations s' = bt_insert ?k (params, i) (ts_operations s)"
    and runners: "ts_runners s' = ts_runners s" by (simp_all add: 2(7) put_task_def)
  have unused: "e \<noteq> (p, i)" if "bt_get (ts_operations s) k = Some e" for k e p
    using inv(2) new that by (cases k; cases e) (fastforce simp: operations_ok_def)
  have "operations_ok s'"
    unfolding operations_ok_def
  proof (intro conjI allI impI)
    fix o' key p j
    assume "bt_get (ts_operations s') (o', key) = Some (p, j)"
    then consider "(o', key) = ?k" "j = i" | "bt_get (ts_operations s) (o', key) = Some (p, j)"
      by (auto simp: ops split: if_splits)
    then show "\<exists>t. bt_get (ts_tasks s') j = Some t \<and> tk_owner t = o'"
    proof cases
      case 2
      with inv(2) obtain u where "bt_get (ts_tasks s) j = Some u" "tk_owner u = o'"
        unfolding operations_ok_def by blast
      with new show ?thesis by (auto simp: tasks)
    qed (use t in \<open>simp add: tasks\<close>)
  next
    fix k k' p p' j
    assume *: "bt_get (ts_operations s') k = Some (p, j) \<and> bt_get (ts_operations s') k' = Some (p', j)"
    have fresh: "bt_get (ts_operations s) l \<noteq> Some (q, i)" for l q using unused by blast
    have here: "l = ?k \<and> j = i \<or> l \<noteq> ?k \<and> bt_get (ts_operations s) l = Some (q, j)"
      if "bt_get (ts_operations s') l = Some (q, j)" for l q
      using that by (auto simp: ops split: if_splits)
    have inj: "l = l'" if "bt_get (ts_operations s) l = Some (q, j)"
      "bt_get (ts_operations s) l' = Some (q', j)" for l l' q q'
      using inv(2) that unfolding operations_ok_def by blast
    from here [of k p] here [of k' p'] * fresh [of k p] fresh [of k' p'] inj [of k p k' p'] show "k = k'"
      by auto
  qed
  moreover have "tasks_ok s'" using inv(1) t(3) by (auto simp: tasks_ok_def tasks)
  moreover have "task_limits s'"
  proof (rule task_limitsI)
    show "bt_len (ts_runners s') \<le> 128" "bt_count (\<lambda>_ r. rn_owner r = o') (ts_runners s') \<le> 16" for o'
      using task_limitsD [OF inv(3)] by (simp_all add: runners)
    show "bt_len (ts_tasks s') \<le> 256" using 2(4) new by (simp add: tasks)
    show "bt_count (\<lambda>_ t. tk_owner t = o') (ts_tasks s') \<le> 64" for o'
    proof (cases "o' = owner")
      case True
      have "bt_count (\<lambda>_ t. tk_owner t = o') (ts_tasks s') \<le> Suc (bt_count (\<lambda>_ t. tk_owner t = o') (ts_tasks s))"
        by (simp add: tasks bt_count_insert_le)
      with 2(5) True show ?thesis by simp
    next
      case False
      then have "bt_count (\<lambda>_ t. tk_owner t = o') (ts_tasks s') \<le> bt_count (\<lambda>_ t. tk_owner t = o') (ts_tasks s)"
        by (simp add: tasks bt_count_insert_skip t)
      with task_limitsD(4) [OF inv(3), of o'] show ?thesis by simp
    qed
    show "running_tasks o' (ts_tasks s') \<le> 4" for o'
    proof -
      have "running_tasks o' (ts_tasks s') \<le> running_tasks o' (ts_tasks s)"
        by (simp add: tasks running_tasks_def bt_count_insert_skip t)
      with task_limitsD(5) [OF inv(3), of o'] show ?thesis by simp
    qed
  qed
  ultimately have "task_inv s'" by (simp add: task_inv_def)
  moreover have "bt_get (ts_tasks s') j = Some u" if "bt_get (ts_tasks s) j = Some u" for j u
    using that new by (auto simp: tasks)
  moreover have "tk_owner u = owner \<and> tk_state u = Queued"
    if "bt_get (ts_tasks s) j = None" "bt_get (ts_tasks s') j = Some u" for j u
    using that t by (auto simp: tasks split: if_splits)
  moreover have "bt_get (ts_operations s') k = Some e" if "bt_get (ts_operations s) k = Some e" for k e
    using that 2(2) by (auto simp: ops)
  moreover have "bt_get (ts_operations s) (o', k) = Some e"
    if "o' \<noteq> owner" "bt_get (ts_operations s') (o', k) = Some e" for o' k e
    using that by (simp add: ops)
  ultimately show ?thesis unfolding call_effect_def runners using task_move_refl by blast
qed

subsection \<open>The other calls\<close>

lemma register_runner_effect:
  assumes "task_inv s" "register_runner v owner x s = (r, s')" "fresh_task_tokens v s"
  shows "call_effect owner s s'"
proof (cases "s' = s")
  case True
  with assms(1) show ?thesis by (simp add: call_effect_refl)
next
  case False
  note inv = task_invD [OF assms(1)]
  have pre: "check_name x = Ok ()" using assms(2) False by (auto simp: register_runner_def split: outcome.splits)
  obtain i where i: "te_token v 0 = Some i" "bt_len (ts_runners s) < 128"
    "bt_count (\<lambda>_ r. rn_owner r = owner) (ts_runners s) < 16"
    and s': "s' = s\<lparr>ts_runners := bt_insert i \<lparr>rn_owner = owner, rn_name = x\<rparr> (ts_runners s)\<rparr>"
    using assms(2) False pre
    by (cases "te_token v 0") (auto simp: register_runner_def draw_token_def not_le split: if_splits)
  have new: "bt_get (ts_runners s) i = None" using assms(3) i(1) by (simp add: fresh_task_tokens_def)
  have "bt_count (\<lambda>_ r. rn_owner r = o') (ts_runners s') \<le> 16" for o'
  proof (cases "o' = owner")
    case True
    have "bt_count (\<lambda>_ r. rn_owner r = o') (ts_runners s') \<le> Suc (bt_count (\<lambda>_ r. rn_owner r = o') (ts_runners s))"
      by (simp add: s' bt_count_insert_le)
    with i(3) True show ?thesis by simp
  next
    case False
    then have "bt_count (\<lambda>_ r. rn_owner r = o') (ts_runners s') \<le> bt_count (\<lambda>_ r. rn_owner r = o') (ts_runners s)"
      by (simp add: s' bt_count_insert_skip)
    with task_limitsD(3) [OF inv(3), of o'] show ?thesis by simp
  qed
  then have "task_limits s'"
    using task_limitsD [OF inv(3)] i(2) new by (intro task_limitsI) (simp_all add: s')
  with inv(1,2) have "task_inv s'" by (simp add: task_inv_def tasks_ok_def operations_ok_def s')
  moreover have "tasks_moved (ts_tasks s) (ts_tasks s')" using moved_refl [OF inv(1)] by (simp add: s')
  ultimately show ?thesis by (rule moved_effect) (auto simp: s' split: if_splits)
qed

lemma report_progress_effect:
  assumes "task_inv s" "report_progress v owner x s = (r, s')"
  shows "call_effect owner s s'"
proof (cases "s' = s")
  case False
  obtain t where t: "claimed_task s owner (pg_task x) (pg_claim x) = Ok t"
    and s': "s' = put_task (pg_task x) (t\<lparr>tk_progress := pg_progress x, tk_revision := tk_revision t + 1\<rparr>) s"
    using assms(2) False by (auto simp: report_progress_def Let_def split: outcome.splits)
  from t have f: "bt_get (ts_tasks s) (pg_task x) = Some t" "tk_owner t = owner" "tk_claim t = Some (pg_claim x)"
    "\<not> terminal t" by (simp_all add: claimed_task_ok)
  have ok: "task_ok t" using assms(1) f(1) by (auto simp: task_inv_def tasks_ok_def)
  note run = claimed_running [OF ok f(3,4)]
  show ?thesis unfolding s' using assms(1) f(1,2)
    by (rule put_task_effect)
      (use ok run f in \<open>simp_all add: task_move_def task_ok_def terminal_def task_moves_def\<close>)
qed (use assms(1) in \<open>simp add: call_effect_refl\<close>)

lemma finish_state_ok:
  assumes "finish_state t x = Ok st"
  shows "st = Succeeded \<and> fi_error x = None \<or> st = Failed \<and> fi_result x = None
    \<or> st = Cancelled \<and> tk_cancel_requested t \<and> fi_result x = None"
  using assms by (auto simp: finish_state_def split: if_splits)

lemma finish_task_cases:
  assumes "finish_task v owner x s = (r, s')"
  obtains "\<not> is_ok r" "s' = s" | t st where "is_ok r" "claimed_task s owner (fi_task x) (fi_claim x) = Ok t"
      "finish_state t x = Ok st"
      "s' = put_task (fi_task x) (t\<lparr>tk_state := st, tk_result := fi_result x, tk_error := fi_error x,
         tk_revision := tk_revision t + 1\<rparr>) s"
proof -
  define q where "q = and_then (claimed_task s owner (fi_task x) (fi_claim x)) (\<lambda>t.
           and_then (check_opt_bytes (te_size v) (fi_result x) (128 * 1024)) (\<lambda>_.
           and_then (check_opt_bytes (te_size v) (fi_error x) (16 * 1024)) (\<lambda>_.
           and_then (finish_state t x) (\<lambda>st. Ok (t, st)))))"
  show ?thesis
  proof (cases q)
    case (Ok e)
    then have "q = Ok (fst e, snd e)" by simp
    then show ?thesis using assms unfolding finish_task_def q_def [symmetric]
      by (intro that(2) [of "fst e" "snd e"]) (auto simp: q_def and_then_ok Let_def)
  next
    case (Err e)
    then show ?thesis using assms that(1) unfolding finish_task_def q_def [symmetric] by auto
  next
    case Panic
    then show ?thesis using assms that(1) unfolding finish_task_def q_def [symmetric] by auto
  qed
qed

lemma finish_task_effect:
  assumes "task_inv s" "finish_task v owner x s = (r, s')"
  shows "call_effect owner s s'"
  using assms(2)
proof (cases rule: finish_task_cases)
  case (2 t st)
  from 2(2) have f: "bt_get (ts_tasks s) (fi_task x) = Some t" "tk_owner t = owner" "tk_claim t = Some (fi_claim x)"
    "\<not> terminal t" by (simp_all add: claimed_task_ok)
  have ok: "task_ok t" using assms(1) f(1) by (auto simp: task_inv_def tasks_ok_def)
  note run = claimed_running [OF ok f(3,4)]
  note st = finish_state_ok [OF 2(3)]
  show ?thesis unfolding 2(4) using assms(1) f(1,2)
  proof (rule put_task_effect)
    show "tk_state (t\<lparr>tk_state := st, tk_result := fi_result x, tk_error := fi_error x,
        tk_revision := tk_revision t + 1\<rparr>) = Running \<Longrightarrow> tk_state t = Running" by (rule run)
  qed (use ok run f st in \<open>auto simp: task_move_def task_ok_def terminal_def task_moves_def\<close>)
qed (use assms(1) in \<open>simp add: call_effect_refl\<close>)

lemma cancel_task_effect:
  assumes "task_inv s" "cancel_task owner i s = (r, s')"
  shows "call_effect owner s s'"
proof (cases "owned_task s owner i")
  case None
  with assms show ?thesis by (auto simp: cancel_task_def call_effect_refl)
next
  case (Some t)
  let ?t = "if terminal t then t else t\<lparr>tk_cancel_requested := True,
      tk_state := (if tk_state t = Queued then Cancelled else tk_state t), tk_revision := tk_revision t + 1\<rparr>"
  from Some have f: "bt_get (ts_tasks s) i = Some t" "tk_owner t = owner" by (simp_all add: owned_task_Some)
  have ok: "task_ok t" using assms(1) f(1) by (auto simp: task_inv_def tasks_ok_def)
  have s': "s' = put_task i ?t s" using assms(2) Some by (simp add: cancel_task_def Let_def)
  have m: "task_move t ?t" "task_ok ?t"
    using ok by (cases "tk_state t"; simp add: task_move_def task_ok_def terminal_def task_moves_def)+
  show ?thesis unfolding s' using assms(1) f m
    by (rule put_task_effect) (auto split: if_splits)
qed

lemma unregister_runner_effect:
  assumes "task_inv s" "unregister_runner owner i s = (r, s')"
  shows "call_effect owner s s'"
proof (cases "owns_runner s owner i")
  case False
  with assms show ?thesis by (auto simp: unregister_runner_def call_effect_refl)
next
  case True
  let ?p = "\<lambda>t. tk_owner t = owner \<and> tk_runner t = i"
  have s': "s' = s\<lparr>ts_runners := bt_remove i (ts_runners s),
      ts_tasks := bt_map (\<lambda>_ t. if ?p t \<and> \<not> terminal t then stopped ''runner_retired'' t else t) (ts_tasks s)\<rparr>"
    using assms(2) True by (simp add: unregister_runner_def)
  have counts: "bt_count (\<lambda>_ r. rn_owner r = o') (ts_runners s') \<le> bt_count (\<lambda>_ r. rn_owner r = o') (ts_runners s)" for o'
    by (rule bt_count_mono) (auto simp: s' split: if_splits)
  have "ts_tasks s' = bt_map (\<lambda>_ t. if ?p t \<and> \<not> terminal t then stopped ''runner_retired'' t else t) (ts_tasks s)"
    by (simp add: s')
  note * = stop_some_inv [OF assms(1) _ _ counts this]
  have "task_inv s'" "tasks_moved (ts_tasks s) (ts_tasks s')" by (rule *; simp add: s')+
  then show ?thesis by (rule moved_effect) (auto simp: s' split: if_splits)
qed

lemma with_input_effect:
  assumes "task_inv s" "with_input d params s f = (r, s')" "\<And>x. f x = (r, s') \<Longrightarrow> call_effect owner s s'"
  shows "call_effect owner s s'"
  using assms(2) by (cases rule: with_input_cases) (use assms(1,3) in \<open>auto simp: call_effect_refl\<close>)

lemma dispatch_tasks_effect:
  assumes "task_inv s" "fresh_task_tokens v s" "dispatch_tasks v owner method params s = (r, s')"
  shows "call_effect owner s s'"
proof -
  have quiet: "call_effect owner s s'" if "get_task owner x s = (r, s') \<or> list_tasks v owner y s = (r, s')" for x y
    using that assms(1)
    by (auto simp: get_task_def list_tasks_def call_effect_refl split: option.splits outcome.splits)
  consider "with_input (te_register v) params s (\<lambda>x. register_runner v owner x s) = (r, s')"
    | "with_input (te_start v) params s (\<lambda>x. start_task v owner params x s) = (r, s')"
    | "with_input (te_claim v) params s (\<lambda>x. claim_work v owner x s) = (r, s')"
    | "with_input (te_progress v) params s (\<lambda>x. report_progress v owner x s) = (r, s')"
    | "with_input (te_finish v) params s (\<lambda>x. finish_task v owner x s) = (r, s')"
    | "with_input (te_selected v) params s (\<lambda>x. cancel_task owner x s) = (r, s')"
    | "with_input (te_selected v) params s (\<lambda>x. get_task owner x s) = (r, s')"
    | "with_input (te_list v) params s (\<lambda>x. list_tasks v owner x s) = (r, s')"
    | "with_input (te_unregister v) params s (\<lambda>x. unregister_runner owner x s) = (r, s')"
    | "s' = s"
    using assms(3) unfolding dispatch_tasks_def by (auto split: if_split_asm)
  then show ?thesis
  proof cases
    case 1
    then show ?thesis by (rule with_input_effect [OF assms(1)]) (rule register_runner_effect [OF assms(1) _ assms(2)])
  next
    case 2
    then show ?thesis by (rule with_input_effect [OF assms(1)]) (rule start_task_effect [OF assms(1) _ assms(2)])
  next
    case 3
    then show ?thesis by (rule with_input_effect [OF assms(1)]) (rule claim_work_effect [OF assms(1)])
  next
    case 4
    then show ?thesis by (rule with_input_effect [OF assms(1)]) (rule report_progress_effect [OF assms(1)])
  next
    case 5
    then show ?thesis by (rule with_input_effect [OF assms(1)]) (rule finish_task_effect [OF assms(1)])
  next
    case 6
    then show ?thesis by (rule with_input_effect [OF assms(1)]) (rule cancel_task_effect [OF assms(1)])
  next
    case 7
    then show ?thesis by (rule with_input_effect [OF assms(1)]) (rule quiet, blast)
  next
    case 8
    then show ?thesis by (rule with_input_effect [OF assms(1)]) (rule quiet, blast)
  next
    case 9
    then show ?thesis by (rule with_input_effect [OF assms(1)]) (rule unregister_runner_effect [OF assms(1)])
  qed (simp add: call_effect_refl assms(1))
qed

text \<open>The whole call: tasks past their deadline end first.\<close>

lemma tasks_invoke_effect:
  assumes "task_inv s" "fresh_task_tokens v s" "tasks_invoke v owner method params s = (r, s')"
  shows "call_effect owner (expire (te_expire_now v) s) s'"
proof (rule dispatch_tasks_effect)
  show "task_inv (expire (te_expire_now v) s)" using assms(1) by (rule expire_inv)
  show "fresh_task_tokens v (expire (te_expire_now v) s)"
    using assms(2) by (simp add: fresh_task_tokens_def expire_def)
qed (use assms(3) in \<open>simp add: tasks_invoke_def\<close>)

text \<open>At most one move of a task in one call: an expired task has ended.\<close>

lemma invoke_move:
  assumes "task_inv s" "fresh_task_tokens v s" "tasks_invoke v owner method params s = (r, s')"
    and "bt_get (ts_tasks s) i = Some t"
  obtains t' where "bt_get (ts_tasks s') i = Some t'" "task_move t t'"
    "tk_owner t \<noteq> owner \<Longrightarrow> t' = t \<or> tk_deadline t \<le> te_expire_now v \<and> t' = stopped ''task_timeout'' t"
proof -
  let ?now = "te_expire_now v"
  have ok: "task_ok t" using assms(1,4) by (auto simp: task_inv_def tasks_ok_def)
  define u where "u = (if \<not> terminal t \<and> tk_deadline t \<le> ?now then stopped ''task_timeout'' t else t)"
  have u: "bt_get (ts_tasks (expire ?now s)) i = Some u" using assms(4) by (simp add: expire_def u_def)
  from tasks_invoke_effect [OF assms(1-3)] u obtain t' where
    t': "bt_get (ts_tasks s') i = Some t'" "task_move u t'" "tk_owner u \<noteq> owner \<Longrightarrow> t' = u"
    by (rule call_effect_task) blast
  have o': "tk_owner u = tk_owner t" by (simp add: u_def stopped_def)
  show ?thesis
  proof (cases "u = t")
    case True
    with t' that show ?thesis by blast
  next
    case False
    then have *: "\<not> terminal t" "tk_deadline t \<le> ?now" "u = stopped ''task_timeout'' t"
      by (auto simp: u_def split: if_splits)
    with ok have "task_move t u" "terminal u" by (simp_all add: stopped_move)
    with t'(2) have "t' = u" by (simp add: task_move_terminal)
    with t' \<open>task_move t u\<close> * that show ?thesis by blast
  qed
qed

section \<open>Runs\<close>

text \<open>What happens to a store, with the owner it retires if it does.\<close>

inductive task_step :: "owner_key option \<Rightarrow> task_store \<Rightarrow> task_store \<Rightarrow> bool" where
  call: "fresh_task_tokens v s \<Longrightarrow> tasks_invoke v owner method params s = (r, s') \<Longrightarrow> task_step None s s'"
| retired: "task_step (Some owner) s (tasks_retire owner s)"

inductive_cases task_callE: "task_step None s s'"
inductive_cases task_retireE: "task_step (Some owner) s s'"

lemma tasks_retire_inv:
  assumes "task_inv s"
  shows "task_inv (tasks_retire owner s)"
proof -
  note inv = task_invD [OF assms]
  let ?s = "tasks_retire owner s"
  have get: "bt_get (ts_tasks ?s) i = Some t \<longleftrightarrow> bt_get (ts_tasks s) i = Some t \<and> tk_owner t \<noteq> owner" for i t
    by (auto simp: tasks_retire_def split: option.splits)
  have ops: "bt_get (ts_operations ?s) (o', k) = Some e \<longleftrightarrow>
      bt_get (ts_operations s) (o', k) = Some e \<and> o' \<noteq> owner" for o' k e
    by (auto simp: tasks_retire_def split: option.splits)
  have "operations_ok ?s"
    unfolding operations_ok_def
  proof (intro conjI allI impI)
    fix o' k p i
    assume "bt_get (ts_operations ?s) (o', k) = Some (p, i)"
    with inv(2) show "\<exists>t. bt_get (ts_tasks ?s) i = Some t \<and> tk_owner t = o'"
      unfolding operations_ok_def ops get by blast
  next
    fix k k' p p' i
    assume "bt_get (ts_operations ?s) k = Some (p, i) \<and> bt_get (ts_operations ?s) k' = Some (p', i)"
    moreover obtain o1 k1 o2 k2 where "k = (o1, k1)" "k' = (o2, k2)" by (cases k; cases k')
    ultimately have "bt_get (ts_operations s) k = Some (p, i)" "bt_get (ts_operations s) k' = Some (p', i)"
      using ops by blast+
    with inv(2) show "k = k'" unfolding operations_ok_def by blast
  qed
  moreover have "tasks_ok ?s" using inv(1) by (auto simp: tasks_ok_def get)
  moreover have tasks: "bt_count p (ts_tasks ?s) \<le> bt_count p (ts_tasks s)" for p
    by (rule bt_count_mono) (simp add: get)
  have runners: "bt_count p (ts_runners ?s) \<le> bt_count p (ts_runners s)" for p
    by (rule bt_count_mono) (auto simp: tasks_retire_def split: option.splits if_splits)
  have lens: "bt_len (ts_tasks ?s) \<le> bt_len (ts_tasks s)" "bt_len (ts_runners ?s) \<le> bt_len (ts_runners s)"
    by (simp_all add: tasks_retire_def)
  have running: "running_tasks o' (ts_tasks ?s) \<le> running_tasks o' (ts_tasks s)" for o'
    unfolding running_tasks_def by (rule tasks)
  note limits = task_limitsD [OF inv(3)]
  have "task_limits ?s"
    by (intro task_limitsI) (rule order_trans [OF lens(2) limits(1)] order_trans [OF lens(1) limits(2)]
      order_trans [OF runners limits(3)] order_trans [OF tasks limits(4)]
      order_trans [OF running limits(5)])+
  ultimately show ?thesis by (simp add: task_inv_def)
qed

lemma task_step_inv: "task_inv s \<Longrightarrow> task_step l s s' \<Longrightarrow> task_inv s'"
  by (erule task_step.cases) (auto dest: tasks_invoke_effect intro: tasks_retire_inv simp: call_effect_def)

lemma tasks_default_inv: "task_inv tasks_default"
  by (simp add: task_inv_def tasks_default_def tasks_ok_def operations_ok_def task_limits_def running_tasks_def)

definition any_task_step :: "task_store \<Rightarrow> task_store \<Rightarrow> bool" where
  "any_task_step s s' \<longleftrightarrow> (\<exists>l. task_step l s s')"

interpretation tasks: transition_system "\<lambda>s. s = tasks_default" any_task_step task_inv
  by unfold_locales (auto simp: any_task_step_def intro: tasks_default_inv task_step_inv)

text \<open>Runs in which a given owner is not retired.\<close>

definition step_keeping :: "owner_key \<Rightarrow> task_store \<Rightarrow> task_store \<Rightarrow> bool" where
  "step_keeping owner s s' \<longleftrightarrow> (\<exists>l. l \<noteq> Some owner \<and> task_step l s s')"

end
