(* ===== verification/Task_Properties.thy ===== *)
theory Task_Properties
  imports Task_Runs
begin

text \<open>
  The properties of the task store: the protocol of every task, that an outcome is final and a
  deadline ends a task, and that starting is idempotent.
\<close>

section \<open>Reachable stores and runs\<close>

lemma reachable_tasks: "any_task_step\<^sup>*\<^sup>* tasks_default s \<Longrightarrow> task_inv s"
  by (rule tasks.reachable_inv) simp_all

lemma step_keeping_inv: "task_inv s \<Longrightarrow> step_keeping owner s s' \<Longrightarrow> task_inv s'"
  by (auto simp: step_keeping_def intro: task_step_inv)

lemma run_keeping_inv: "(step_keeping owner)\<^sup>*\<^sup>* s s' \<Longrightarrow> task_inv s \<Longrightarrow> task_inv s'"
  by (induction rule: rtranclp_induct) (auto intro: step_keeping_inv)

text \<open>A step that does not retire the owner of a task moves the task by the protocol.\<close>

lemma step_keeping_move:
  assumes "task_inv s" "step_keeping (tk_owner t) s s'" "bt_get (ts_tasks s) i = Some t"
  obtains t' where "bt_get (ts_tasks s') i = Some t'" "task_move t t'"
proof -
  from assms(2) obtain l where l: "l \<noteq> Some (tk_owner t)" "task_step l s s'" by (auto simp: step_keeping_def)
  from l(2) show ?thesis
  proof cases
    case (call v owner meth params r)
    with assms that show ?thesis by (blast elim: invoke_move)
  next
    case (retired owner)
    with l(1) assms(3) that [of t] show ?thesis by (auto simp: tasks_retire_def)
  qed
qed

lemma step_keeping_operation:
  assumes "task_inv s" "step_keeping owner s s'" "bt_get (ts_operations s) (owner, k) = Some e"
  shows "bt_get (ts_operations s') (owner, k) = Some e"
proof -
  from assms(2) obtain l where l: "l \<noteq> Some owner" "task_step l s s'" by (auto simp: step_keeping_def)
  from l(2) show ?thesis
  proof cases
    case (call v o' meth params r)
    have "bt_get (ts_operations (expire (te_expire_now v) s)) (owner, k) = Some e"
      using assms(3) by (simp add: expire_def)
    with tasks_invoke_effect [OF assms(1) call(2,3)] show ?thesis unfolding call_effect_def by blast
  next
    case (retired o')
    with l(1) assms(3) show ?thesis by (auto simp: tasks_retire_def)
  qed
qed

text \<open>What a run without a retirement of the owner keeps.\<close>

lemma run_keeping_task:
  assumes "(step_keeping owner)\<^sup>*\<^sup>* s s'" "task_inv s" "bt_get (ts_tasks s) i = Some t" "tk_owner t = owner"
  shows "\<exists>t'. bt_get (ts_tasks s') i = Some t' \<and> task_move\<^sup>*\<^sup>* t t' \<and> tk_owner t' = owner
    \<and> tk_deadline t' = tk_deadline t"
  using assms
proof (induction rule: rtranclp_induct)
  case (step s' s'')
  then obtain t' where t': "bt_get (ts_tasks s') i = Some t'" "task_move\<^sup>*\<^sup>* t t'" "tk_owner t' = owner"
    "tk_deadline t' = tk_deadline t" by blast
  have "task_inv s'" using step by (blast intro: run_keeping_inv)
  then obtain t'' where "bt_get (ts_tasks s'') i = Some t''" "task_move t' t''"
    using step(2) t'(1,3) by (blast elim: step_keeping_move)
  moreover from this(2) have "tk_deadline t'' = tk_deadline t'" "tk_owner t'' = tk_owner t'"
    by (auto simp: task_move_def)
  ultimately show ?case using t' by (auto intro: rtranclp.rtrancl_into_rtrancl)
qed auto

lemma moves_terminal: "task_move\<^sup>*\<^sup>* t t' \<Longrightarrow> terminal t \<Longrightarrow> t' = t"
  by (induction rule: rtranclp_induct) (auto dest: task_move_terminal)

lemma run_keeping_operation:
  assumes "(step_keeping owner)\<^sup>*\<^sup>* s s'" "task_inv s" "bt_get (ts_operations s) (owner, k) = Some e"
  shows "bt_get (ts_operations s') (owner, k) = Some e"
  using assms
  by (induction rule: rtranclp_induct) (blast intro: step_keeping_operation run_keeping_inv)+

section \<open>Properties\<close>

text \<open>
  C36: every reachable task store is well formed: a task's claim, result, error and request to
  cancel fit its state, a recorded operation names a task of its owner and no two operations the
  same, and there are at most 128 runners and 256 tasks, of one owner at most 16 and 64, and of
  its tasks at most 4 running.
\<close>

theorem task_store_well_formed:
  assumes "any_task_step\<^sup>*\<^sup>* tasks_default s"
  shows "(\<forall>i t. bt_get (ts_tasks s) i = Some t \<longrightarrow>
      (tk_claim t = None \<longrightarrow> tk_state t \<in> {Queued, Cancelled})
      \<and> (tk_state t = Queued \<longrightarrow> tk_claim t = None \<and> \<not> tk_cancel_requested t)
      \<and> (tk_result t \<noteq> None \<longrightarrow> tk_state t = Succeeded)
      \<and> (tk_error t \<noteq> None \<longrightarrow> tk_state t \<in> {Failed, Cancelled, Interrupted})
      \<and> (tk_state t \<in> {Cancelled, Interrupted} \<longrightarrow> tk_cancel_requested t))
    \<and> (\<forall>owner key p i. bt_get (ts_operations s) (owner, key) = Some (p, i) \<longrightarrow>
        (\<exists>t. bt_get (ts_tasks s) i = Some t \<and> tk_owner t = owner)
        \<and> (\<forall>k p'. bt_get (ts_operations s) k = Some (p', i) \<longrightarrow> k = (owner, key)))
    \<and> bt_len (ts_runners s) \<le> 128 \<and> bt_len (ts_tasks s) \<le> 256
    \<and> (\<forall>owner. bt_count (\<lambda>_ r. rn_owner r = owner) (ts_runners s) \<le> 16
        \<and> bt_count (\<lambda>_ t. tk_owner t = owner) (ts_tasks s) \<le> 64
        \<and> running_tasks owner (ts_tasks s) \<le> 4)"
proof -
  note inv = task_invD [OF reachable_tasks [OF assms]]
  have "(tk_claim t = None \<longrightarrow> tk_state t \<in> {Queued, Cancelled})
      \<and> (tk_state t = Queued \<longrightarrow> tk_claim t = None \<and> \<not> tk_cancel_requested t)
      \<and> (tk_result t \<noteq> None \<longrightarrow> tk_state t = Succeeded)
      \<and> (tk_error t \<noteq> None \<longrightarrow> tk_state t \<in> {Failed, Cancelled, Interrupted})
      \<and> (tk_state t \<in> {Cancelled, Interrupted} \<longrightarrow> tk_cancel_requested t)"
    if "bt_get (ts_tasks s) i = Some t" for i t
  proof -
    have "task_ok t" using inv(1) that unfolding tasks_ok_def by blast
    then show ?thesis by (cases "tk_state t") (simp_all add: task_ok_def)
  qed
  moreover have "(\<exists>t. bt_get (ts_tasks s) i = Some t \<and> tk_owner t = owner)
        \<and> (\<forall>k p'. bt_get (ts_operations s) k = Some (p', i) \<longrightarrow> k = (owner, key))"
    if "bt_get (ts_operations s) (owner, key) = Some (p, i)" for owner key p i
    using inv(2) that unfolding operations_ok_def by blast
  ultimately show ?thesis using inv(3) unfolding task_limits_def by blast
qed

text \<open>
  C28: a call moves a task by the protocol or leaves it: a queued task may be claimed or
  cancelled, a running one may go on, succeed, fail, be cancelled or interrupted, an ended one
  stays as it is; owner, runner, input and deadline never change, nor a claim once given, and
  each move counts the revision by one. A call by another owner does nothing to the task but,
  past its deadline, end it.
\<close>

theorem task_protocol:
  assumes "any_task_step\<^sup>*\<^sup>* tasks_default s" "fresh_task_tokens v s"
    "tasks_invoke v owner meth params s = (r, s')" "bt_get (ts_tasks s) i = Some t"
  shows "\<exists>t'. bt_get (ts_tasks s') i = Some t' \<and> task_move t t'
    \<and> (tk_owner t \<noteq> owner \<longrightarrow>
         t' = t \<or> tk_deadline t \<le> te_expire_now v \<and> t' = stopped ''task_timeout'' t)"
proof -
  from reachable_tasks [OF assms(1)] assms(2-4) obtain t' where
    "bt_get (ts_tasks s') i = Some t'" "task_move t t'"
    "tk_owner t \<noteq> owner \<Longrightarrow> t' = t \<or> tk_deadline t \<le> te_expire_now v \<and> t' = stopped ''task_timeout'' t"
    by (rule invoke_move) blast
  then show ?thesis by blast
qed

text \<open>
  C32: an outcome is final: once a task has ended, then whatever is called, by whomever, as long
  as its owner is not retired the task stays exactly as it is, and its owner reads the same
  snapshot.
\<close>

theorem task_outcome_final:
  assumes "any_task_step\<^sup>*\<^sup>* tasks_default s" "bt_get (ts_tasks s) i = Some t" "terminal t"
    "(step_keeping (tk_owner t))\<^sup>*\<^sup>* s s'"
  shows "bt_get (ts_tasks s') i = Some t \<and> get_task (tk_owner t) i s' = (Ok (snapshot t i), s')"
proof -
  from run_keeping_task [OF assms(4) reachable_tasks [OF assms(1)] assms(2) refl] assms(3)
  have "bt_get (ts_tasks s') i = Some t" by (auto dest: moves_terminal)
  then show ?thesis by (simp add: get_task_def owned_task_def)
qed

text \<open>
  Every task ends: whatever happened since, unless its owner is retired, the first call
  anybody makes at or after the deadline of a task leaves it in a final state.
\<close>

theorem deadline_ends_task:
  assumes "any_task_step\<^sup>*\<^sup>* tasks_default s" "bt_get (ts_tasks s) i = Some t"
    "(step_keeping (tk_owner t))\<^sup>*\<^sup>* s s'" "fresh_task_tokens v s'"
    "tk_deadline t \<le> te_expire_now v" "tasks_invoke v owner meth params s' = (r, s'')"
  shows "\<exists>t'. bt_get (ts_tasks s'') i = Some t' \<and> terminal t'"
proof -
  have inv: "task_inv s'" using assms(1,3) reachable_tasks run_keeping_inv by blast
  from run_keeping_task [OF assms(3) reachable_tasks [OF assms(1)] assms(2) refl] obtain t' where
    t': "bt_get (ts_tasks s') i = Some t'" "tk_deadline t' = tk_deadline t" by blast
  then have ok: "task_ok t'" using inv by (auto simp: task_inv_def tasks_ok_def)
  let ?u = "if terminal t' then t' else stopped ''task_timeout'' t'"
  have u: "bt_get (ts_tasks (expire (te_expire_now v) s')) i = Some ?u"
    using t' assms(5) by (simp add: expire_def)
  have "terminal ?u" using ok by (simp add: stopped_move)
  moreover from tasks_invoke_effect [OF inv assms(4,6)] u obtain t'' where
    "bt_get (ts_tasks s'') i = Some t''" "task_move ?u t''" by (rule call_effect_task)
  ultimately show ?thesis using task_move_terminal by metis
qed

lemma start_recorded:
  assumes "start_task v owner params x s = (Ok r, s')"
  obtains i t where "bt_get (ts_operations s') (owner, st_operation_key x) = Some (params, i)"
    "bt_get (ts_tasks s') i = Some t" "r = snapshot t i" "check_name (st_operation_key x) = Ok ()"
  using assms
proof (cases "bt_get (ts_operations s) (owner, st_operation_key x)")
  case None
  have n: "check_name (st_operation_key x) = Ok ()"
    using assms by (auto simp: start_task_def split: outcome.splits)
  have s': "s' \<noteq> s" using assms None
    by (auto simp: start_task_def Let_def put_task_def split: outcome.splits if_splits dest: arg_cong [of _ _ "\<lambda>s. bt_get (ts_operations s) (owner, st_operation_key x)"])
  from assms show ?thesis
  proof (cases rule: start_task_cases)
    case (2 i n)
    then show ?thesis using n by (intro that [of i "new_task v owner x n"]) (simp_all add: put_task_def)
  qed (use s' in simp)
next
  case (Some e)
  then show ?thesis using assms that
    by (cases e) (auto simp: start_task_def split: outcome.splits if_splits option.splits)
qed

text \<open>
  Starting is idempotent: after a start with an operation key has succeeded, any later start
  by the same owner with the same key, as long as the owner is not retired, starts nothing: with
  the same parameters it answers with the task of the first start as it is now, with other
  parameters it is refused as a conflict.
\<close>

theorem start_is_idempotent:
  assumes "any_task_step\<^sup>*\<^sup>* tasks_default s" "fresh_task_tokens v s"
    "tasks_invoke v owner ''tasks.start'' params s = (Ok r, s1)" "te_start v params = Ok x"
    "(step_keeping owner)\<^sup>*\<^sup>* s1 s2"
    "te_start v' params' = Ok x'" "st_operation_key x' = st_operation_key x"
    "check_bytes (te_size v') (st_input x') (64 * 1024) = Ok ()"
  shows "\<exists>i t. bt_get (ts_tasks (expire (te_expire_now v') s2)) i = Some t
    \<and> json_get ''task'' r = Some (JString i)
    \<and> tasks_invoke v' owner ''tasks.start'' params' s2
      = (if params' = params then Ok (snapshot t i)
         else Err (ServiceError ''operation_conflict'' ''operationKey has different task input''),
         expire (te_expire_now v') s2)"
proof -
  have inv: "task_inv s" using assms(1) by (rule reachable_tasks)
  have inv1: "task_inv s1"
    using tasks_invoke_effect [OF inv assms(2,3)] by (simp add: call_effect_def)
  from assms(3,4) have "start_task v owner params x (expire (te_expire_now v) s) = (Ok r, s1)"
    by (simp add: tasks_invoke_def dispatch_tasks_def with_input_def decode_def)
  then obtain i t where i: "bt_get (ts_operations s1) (owner, st_operation_key x) = Some (params, i)"
    "r = snapshot t i" and name: "check_name (st_operation_key x) = Ok ()" by (rule start_recorded)
  let ?s = "expire (te_expire_now v') s2"
  have op: "bt_get (ts_operations ?s) (owner, st_operation_key x) = Some (params, i)"
    using run_keeping_operation [OF assms(5) inv1 i(1)] by (simp add: expire_def)
  have "task_inv ?s" using run_keeping_inv [OF assms(5) inv1] by (rule expire_inv)
  then obtain t' where t': "bt_get (ts_tasks ?s) i = Some t'"
    using op unfolding task_inv_def operations_ok_def by blast
  have "tasks_invoke v' owner ''tasks.start'' params' s2 = start_task v' owner params' x' ?s"
    using assms(6) by (simp add: tasks_invoke_def dispatch_tasks_def with_input_def decode_def)
  also have "\<dots> = (if params' = params then Ok (snapshot t' i)
         else Err (ServiceError ''operation_conflict'' ''operationKey has different task input''), ?s)"
    using name op t' assms(8) by (auto simp: start_task_def assms(7))
  finally show ?thesis using t' i(2) by (auto simp: snapshot_def)
qed

end
