(* ===== verification/Resource_Properties.thy ===== *)
theory Resource_Properties
  imports Resource_Service Process_Properties Event_Properties Task_Properties
begin

text \<open>
  The resource service as the composition of its stores: every reachable state is made of
  reachable stores, so that the properties of the event logs and of the tasks hold in it, and an
  owner that has been retired never again has, or reaches, anything.
\<close>

section \<open>Steps of the service\<close>

definition fresh_for :: "service_env \<Rightarrow> resource_state \<Rightarrow> bool" where
  "fresh_for v s \<longleftrightarrow>
     fresh_tokens (sv_events v) (rs_events s) \<and> fresh_task_tokens (sv_tasks v) (rs_tasks s)"

text \<open>
  The steps. What a call or its monitor does to a process is a sequence of moves of that process
  (\<open>call_process_moved\<close>), and may come after the process has left the table; a call of
  \<open>processes.close\<close> removes a process from the table once its end is confirmed.
\<close>

inductive service_step :: "resource_state \<Rightarrow> resource_state \<Rightarrow> bool" where
  turn: "fresh_for v s \<Longrightarrow> attempt v owner meth params timed_out s = (r, s') \<Longrightarrow> service_step s s'"
| subscribing: "fresh_for v s \<Longrightarrow> invoke_events_for v consumer provider meth params s = (q, s') \<Longrightarrow>
    service_step s s'"
| retiring: "retire_owner v owner' s = (q, s') \<Longrightarrow> service_step s s'"
| closing: "shutdown_resources v s = (q, s') \<Longrightarrow> service_step s s'"
| spawning: "resource_check s (owner_key owner) = Ok () \<Longrightarrow>
    (\<And>i. pv_token v 0 = Some i \<Longrightarrow> process_at (rs_processes s) i = None) \<Longrightarrow>
    start_process v owner input params (rs_processes s) = (q, p) \<Longrightarrow> service_step s (s\<lparr>rs_processes := p\<rparr>)"
| moving: "process_at (rs_processes s) i = Some (o', p) \<Longrightarrow>
    service_step s (s\<lparr>rs_processes := put_process i (move_process m p) (rs_processes s)\<rparr>)"
| forgetting: "(\<And>o' p. bt_get (ps_entries (rs_processes s)) i = Some (o', p) \<Longrightarrow> shut p \<and> ended p) \<Longrightarrow>
    service_step s (s\<lparr>rs_processes := detach i (rs_processes s)\<rparr>)"

section \<open>What others do does not create anything for an owner\<close>

definition no_events_of :: "owner_key \<Rightarrow> event_store \<Rightarrow> bool" where
  "no_events_of owner s \<longleftrightarrow>
     (\<forall>i b. bt_get (es_subscriptions s) i = Some b \<longrightarrow> sb_owner b \<noteq> owner)
     \<and> (\<forall>i t. bt_get (es_topics s) i = Some t \<longrightarrow> tp_owner t = owner \<longrightarrow>
          tp_closed t \<and> tp_provider_retired t \<and> tp_events t = [])"

definition no_tasks_of :: "owner_key \<Rightarrow> task_store \<Rightarrow> bool" where
  "no_tasks_of owner s \<longleftrightarrow>
     (\<forall>i r. bt_get (ts_runners s) i = Some r \<longrightarrow> rn_owner r \<noteq> owner)
     \<and> (\<forall>i t. bt_get (ts_tasks s) i = Some t \<longrightarrow> tk_owner t \<noteq> owner)
     \<and> (\<forall>k e. bt_get (ts_operations s) (owner, k) \<noteq> Some e)"

lemma drop_closed_simps [simp]:
  "es_subscriptions (drop_closed s) = es_subscriptions s"
  "bt_get (es_topics (drop_closed s)) i = Some t \<longleftrightarrow>
     bt_get (es_topics s) i = Some t \<and> (tp_closed t \<longrightarrow> subscribed s i)"
  by (auto simp: drop_closed_def split: option.splits)

lemma no_events_of_call:
  assumes "no_events_of owner s" "owner \<noteq> caller"
    "events_invoke_for v caller provider meth params s = (r, s')"
  shows "no_events_of owner s'"
proof -
  note none = assms(1) [unfolded no_events_of_def]
  consider x where "create_topic v caller x s = (r, s')" | x where "publish v caller x s = (r, s')"
    | x where "subscribe v caller provider x s = (r, s')" | x where "read_events caller x s = (r, s')"
    | x where "ack_events caller x s = (r, s')" | x where "close_events caller x s = (r, s')" | "s' = s"
    using assms(3) unfolding events_invoke_for_def
    by (auto split: if_split_asm elim!: with_input_cases)
  then show ?thesis
  proof cases
    case (1 x)
    then show ?thesis using none assms(1,2)
      by (cases rule: create_topic_cases) (auto simp: no_events_of_def split: if_splits)
  next
    case (2 x)
    then show ?thesis using none assms(1,2)
      by (cases rule: publish_cases) (auto simp: no_events_of_def split: if_splits)
  next
    case (3 x)
    then show ?thesis using none assms(1,2)
      by (cases rule: subscribe_cases) (auto simp: no_events_of_def split: if_splits)
  next
    case (4 x)
    then show ?thesis using none assms(1,2)
      by (cases rule: read_cases) (auto simp: no_events_of_def split: if_splits)
  next
    case (5 x)
    then show ?thesis using none assms(1,2)
      by (cases rule: ack_cases) (auto simp: no_events_of_def split: if_splits)
  next
    case (6 x)
    then show ?thesis using none assms(1,2)
      by (cases rule: close_cases) (auto simp: no_events_of_def split: if_splits)
  qed (use assms(1) in simp)
qed

text \<open>What retiring an owner leaves.\<close>

lemma retired_subscription:
  "bt_get (es_subscriptions (events_retire owner s)) i = Some b \<Longrightarrow>
     bt_get (es_subscriptions s) i = Some b \<and> sb_owner b \<noteq> owner"
  by (auto simp: events_retire_def split: if_splits option.splits)

lemma retired_topic:
  assumes "bt_get (es_topics (events_retire owner s)) i = Some t'"
  obtains t where "bt_get (es_topics s) i = Some t" "tp_owner t \<noteq> owner" "t' = t"
    | t where "bt_get (es_topics s) i = Some t" "tp_owner t = owner"
      "t' = t\<lparr>tp_closed := True, tp_provider_retired := True, tp_events := [], tp_bytes := 0\<rparr>"
proof -
  from assms obtain t where "bt_get (es_topics s) i = Some t"
    "t' = (if tp_owner t = owner
       then t\<lparr>tp_closed := True, tp_provider_retired := True, tp_events := [], tp_bytes := 0\<rparr> else t)"
    by (auto simp: events_retire_def simp del: if_split)
  with that show ?thesis by (cases "tp_owner t = owner") simp_all
qed

lemma no_events_of_retire:
  assumes "no_events_of owner s"
  shows "no_events_of owner (events_retire owner' s)"
proof -
  have "tp_closed t' \<and> tp_provider_retired t' \<and> tp_events t' = []"
    if "bt_get (es_topics (events_retire owner' s)) i = Some t'" "tp_owner t' = owner" for i t'
    using that(1) by (cases rule: retired_topic) (use assms that(2) in \<open>auto simp: no_events_of_def\<close>)
  then show ?thesis using assms retired_subscription unfolding no_events_of_def by blast
qed

lemma no_events_after_retire: "no_events_of owner (events_retire owner s)"
proof -
  have "tp_closed t' \<and> tp_provider_retired t' \<and> tp_events t' = []"
    if "bt_get (es_topics (events_retire owner s)) i = Some t'" "tp_owner t' = owner" for i t'
    using that(1) by (cases rule: retired_topic) (use that(2) in auto)
  then show ?thesis using retired_subscription unfolding no_events_of_def by blast
qed

lemma no_tasks_of_call:
  assumes "no_tasks_of owner s" "owner \<noteq> caller" "task_inv s" "fresh_task_tokens v s"
    "tasks_invoke v caller meth params s = (r, s')"
  shows "no_tasks_of owner s'"
proof -
  let ?s = "expire (te_expire_now v) s"
  have eff: "call_effect caller ?s s'" using assms(3-5) by (rule tasks_invoke_effect)
  have fields: "ts_runners ?s = ts_runners s" "ts_operations ?s = ts_operations s" by (simp_all add: expire_def)
  have "rn_owner x \<noteq> owner" if "bt_get (ts_runners s') i = Some x" for i x
    using eff that assms(1,2) unfolding call_effect_def no_tasks_of_def fields by metis
  moreover have "bt_get (ts_operations s') (owner, k) \<noteq> Some e" for k e
    using eff assms(1,2) unfolding call_effect_def no_tasks_of_def fields by metis
  moreover have "tk_owner t' \<noteq> owner" if t': "bt_get (ts_tasks s') i = Some t'" for i t'
  proof (cases "bt_get (ts_tasks ?s) i")
    case None
    with eff t' assms(2) show ?thesis unfolding call_effect_def by metis
  next
    case (Some u)
    from eff Some obtain u' where "bt_get (ts_tasks s') i = Some u'" "task_move u u'"
      by (rule call_effect_task) blast
    with t' have "tk_owner t' = tk_owner u" by (auto dest: move_owner)
    moreover from Some obtain z where "bt_get (ts_tasks s) i = Some z" "tk_owner u = tk_owner z"
      by (auto simp: expire_def stopped_def)
    then have "tk_owner u \<noteq> owner" using assms(1) unfolding no_tasks_of_def by auto
    ultimately show ?thesis by simp
  qed
  ultimately show ?thesis unfolding no_tasks_of_def by blast
qed

lemma no_tasks_of_retire:
  "no_tasks_of owner s \<Longrightarrow> no_tasks_of owner (tasks_retire owner' s)"
  "no_tasks_of owner (tasks_retire owner s)"
  by (auto simp: no_tasks_of_def tasks_retire_def split: if_splits option.splits)

section \<open>What a step does to the parts\<close>

text \<open>A step leaves the set of retired owners as it is or adds one, and never opens the service again.\<close>

lemma run_method_frame:
  assumes "run_method v owner meth params s = (r, s')"
  shows "rs_closing s' = rs_closing s \<and> rs_retired s' = rs_retired s
    \<and> (rs_events s' = rs_events s
        \<or> (\<exists>q. events_invoke_for (sv_events v) owner owner meth params (rs_events s) = (q, rs_events s')))
    \<and> (rs_tasks s' = rs_tasks s
        \<or> (\<exists>q. tasks_invoke (sv_tasks v) owner meth params (rs_tasks s) = (q, rs_tasks s')))"
  using assms by (auto simp: run_method_def events_invoke_def split: if_splits prod.splits)

lemma attempt_cases:
  assumes "attempt v owner meth params timed_out s = (r, s')"
  obtains e where "resource_check s owner = Err e" "r = Some (Err e)" "s' = s"
  | q where "resource_check s owner = Ok ()" "run_method v owner meth params s = (q, s')"
proof (cases "resource_check s owner")
  case (Ok u)
  obtain q t where m: "run_method v owner meth params s = (q, t)" by (cases "run_method v owner meth params s")
  have "t = s'"
    using assms unfolding attempt_def Ok m by (cases q) (simp_all split: if_split_asm)
  show ?thesis
  proof (rule that(2))
    show "resource_check s owner = Ok ()" using Ok by simp
    show "run_method v owner meth params s = (q, s')" by (simp only: m \<open>t = s'\<close>)
  qed
next
  case (Err e)
  from assms have "r = Some (Err e)" "s' = s" by (simp_all add: attempt_def Err)
  with Err show ?thesis by (rule that(1))
next
  case Panic
  then show ?thesis by (simp add: resource_check_def split: if_splits)
qed

lemma resource_check_cases:
  obtains "resource_check s owner = Ok ()" | e where "resource_check s owner = Err e"
proof (cases "resource_check s owner")
  case Panic
  then show ?thesis by (simp add: resource_check_def split: if_splits)
qed (use that in simp_all)

lemma resource_check_ok: "resource_check s owner = Ok () \<longleftrightarrow> \<not> rs_closing s \<and> \<not> bt_has (rs_retired s) owner"
  by (simp add: resource_check_def)

lemma invoke_events_for_cases:
  assumes "invoke_events_for v consumer provider meth params s = (r, s')"
  obtains "\<not> is_ok r" "s' = s"
  | e where "resource_check s (owner_key consumer) = Ok ()" "resource_check s (owner_key provider) = Ok ()"
      "events_invoke_for (sv_events v) (owner_key consumer) (owner_key provider) meth params (rs_events s) = (r, e)"
      "s' = s\<lparr>rs_events := e\<rparr>"
proof (cases "s' = s \<and> \<not> is_ok r")
  case False
  then have "and_then (resource_check s (owner_key consumer)) (\<lambda>_. resource_check s (owner_key provider)) = Ok ()"
    using assms by (auto simp: invoke_events_for_def split: outcome.splits if_splits)
  then have ok: "resource_check s (owner_key consumer) = Ok ()" "resource_check s (owner_key provider) = Ok ()"
    by (auto simp: and_then_ok)
  obtain e q where e: "events_invoke_for (sv_events v) (owner_key consumer) (owner_key provider) meth params (rs_events s) = (q, e)"
    by fastforce
  with ok False assms have "r = q \<and> s' = s\<lparr>rs_events := e\<rparr>"
    by (auto simp: invoke_events_for_def split: if_splits)
  with ok e that(2) show ?thesis by blast
qed (use that(1) in blast)

text \<open>The parts of a step, for the properties of the whole.\<close>

lemma service_step_parts:
  assumes "service_step s s'"
  obtains (same) "rs_closing s' = rs_closing s" "rs_retired s' = rs_retired s" "rs_events s' = rs_events s"
      "rs_tasks s' = rs_tasks s"
  | (events) v owner provider meth params q where "resource_check s owner = Ok ()"
      "rs_closing s' = rs_closing s" "rs_retired s' = rs_retired s" "rs_tasks s' = rs_tasks s"
      "fresh_tokens v (rs_events s)"
      "events_invoke_for v owner provider meth params (rs_events s) = (q, rs_events s')"
  | (tasks) v owner meth params q where "resource_check s owner = Ok ()"
      "rs_closing s' = rs_closing s" "rs_retired s' = rs_retired s" "rs_events s' = rs_events s"
      "fresh_task_tokens v (rs_tasks s)"
      "tasks_invoke v owner meth params (rs_tasks s) = (q, rs_tasks s')"
  | (retired) owner where "rs_closing s' = rs_closing s"
      "rs_retired s' = bt_insert owner () (rs_retired s)"
      "rs_events s' = events_retire owner (rs_events s)" "rs_tasks s' = tasks_retire owner (rs_tasks s)"
      "bt_len (rs_retired s) < 8192 \<or> bt_has (rs_retired s) owner"
  | (closed) "rs_closing s'" "rs_retired s' = rs_retired s" "rs_events s' = events_default" "rs_tasks s' = tasks_default"
  using assms
proof cases
  case (turn v owner meth params timed_out r)
  from turn(2) show ?thesis
  proof (cases rule: attempt_cases)
    case 1
    then show ?thesis using same by simp
  next
    case (2 q)
    note frame = run_method_frame [OF 2(2)]
    show ?thesis
    proof (cases "rs_tasks s' = rs_tasks s")
      case True
      with frame consider "rs_events s' = rs_events s"
        | p where "events_invoke_for (sv_events v) owner owner meth params (rs_events s) = (p, rs_events s')" by blast
      then show ?thesis
      proof cases
        case 1
        with frame True same show ?thesis by blast
      next
        case e: (2 p)
        show ?thesis
          by (rule events [OF 2(1) _ _ True _ e]) (use frame turn(1) in \<open>simp_all add: fresh_for_def\<close>)
      qed
    next
      case False
      then have ev: "rs_events s' = rs_events s"
        using 2(2) by (auto simp: run_method_def split: if_splits prod.splits)
      from False frame obtain p where
        "tasks_invoke (sv_tasks v) owner meth params (rs_tasks s) = (p, rs_tasks s')" by blast
      then show ?thesis
        by (rule tasks [OF 2(1) _ _ ev, rotated -1]) (use frame turn(1) in \<open>simp_all add: fresh_for_def\<close>)
    qed
  qed
next
  case (subscribing v consumer provider meth params q)
  from subscribing(2) show ?thesis
  proof (cases rule: invoke_events_for_cases)
    case 1
    then show ?thesis using same by simp
  next
    case (2 e)
    then show ?thesis using events [OF 2(1), of "sv_events v" "owner_key provider" meth params q] subscribing(1)
      by (simp add: fresh_for_def)
  qed
next
  case (retiring v owner q)
  then have *: "bt_len (rs_retired s) < 8192 \<or> bt_has (rs_retired s) (owner_key owner)
      \<or> s' = s" by (auto simp: retire_owner_def Let_def not_le split: if_splits)
  show ?thesis
  proof (cases "8192 \<le> bt_len (rs_retired s) \<and> \<not> bt_has (rs_retired s) (owner_key owner)")
    case True
    then show ?thesis using retiring same by (simp add: retire_owner_def Let_def)
  next
    case False
    then show ?thesis using retiring retired [of "owner_key owner"]
      by (auto simp: retire_owner_def Let_def not_le split: prod.splits)
  qed
next
  case (closing v q)
  then show ?thesis using closed by (auto simp: shutdown_resources_def split: prod.splits)
qed (use same in simp_all)

section \<open>What a step does to the processes\<close>

lemma service_step_processes:
  assumes "service_step s s'"
  obtains (same) "rs_processes s' = rs_processes s" "rs_closing s' = rs_closing s" "rs_retired s' = rs_retired s"
  | (spawned) v owner input params q where "resource_check s (owner_key owner) = Ok ()"
      "\<And>i. pv_token v 0 = Some i \<Longrightarrow> process_at (rs_processes s) i = None"
      "start_process v owner input params (rs_processes s) = (q, rs_processes s')"
      "rs_closing s' = rs_closing s" "rs_retired s' = rs_retired s"
  | (moves) i o' p p' where "process_at (rs_processes s) i = Some (o', p)" "moved p p'"
      "rs_processes s' = put_process i p' (rs_processes s)"
      "rs_closing s' = rs_closing s" "rs_retired s' = rs_retired s"
  | (forgotten) i where "\<And>o' p. bt_get (ps_entries (rs_processes s)) i = Some (o', p) \<Longrightarrow> shut p \<and> ended p"
      "rs_processes s' = detach i (rs_processes s)" "rs_closing s' = rs_closing s" "rs_retired s' = rs_retired s"
  | (retired) owner c where "taken_closed (processes_of owner (rs_processes s)) c (rs_processes s) (rs_processes s')"
      "ps_operations (rs_processes s') = bt_retain (\<lambda>k _. fst k \<noteq> owner) (ps_operations (rs_processes s))"
      "rs_closing s' = rs_closing s" "rs_retired s' = bt_insert owner () (rs_retired s)"
  | (closed) c where "taken_closed (bt_keys (ps_entries (rs_processes s))) c (rs_processes s) (rs_processes s')"
      "ps_operations (rs_processes s') = bt_empty" "rs_closing s'" "rs_retired s' = rs_retired s"
  using assms
proof cases
  case (turn v owner meth params timed_out r)
  from turn(2) show ?thesis
    by (cases rule: attempt_cases) (use same in \<open>auto simp: run_method_def split: if_splits prod.splits\<close>)
next
  case (subscribing v consumer provider meth params q)
  from subscribing(2) show ?thesis by (cases rule: invoke_events_for_cases) (use same in auto)
next
  case (retiring v owner q)
  show ?thesis
  proof (cases "8192 \<le> bt_len (rs_retired s) \<and> \<not> bt_has (rs_retired s) (owner_key owner)")
    case True
    then show ?thesis using retiring same by (simp add: retire_owner_def Let_def)
  next
    case False
    obtain ids t where t: "processes_retire (owner_key owner) (rs_processes s) = (ids, t)" by fastforce
    obtain c p where p: "close_each (sv_closings v) ids (request_each ids t) = (c, p)" by fastforce
    from retiring have "rs_processes s' = p" "rs_closing s' = rs_closing s"
      "rs_retired s' = bt_insert (owner_key owner) () (rs_retired s)"
      unfolding retire_owner_def Let_def if_not_P [OF False] by (auto simp: t p)
    with retire_closes [OF t p] show ?thesis by (intro retired) simp_all
  qed
next
  case (closing v q)
  obtain ids t where t: "processes_drain (rs_processes s) = (ids, t)" by fastforce
  obtain c p where p: "close_each (sv_closings v) ids (request_each ids t) = (c, p)" by fastforce
  from closing have "rs_processes s' = p" "rs_closing s'" "rs_retired s' = rs_retired s"
    by (auto simp: shutdown_resources_def Let_def t p)
  with drain_closes [OF t p] show ?thesis by (intro closed) simp_all
next
  case (spawning owner v input params q p)
  then show ?thesis by (intro spawned [of owner v input params q]) simp_all
next
  case (moving i o' p m)
  then show ?thesis by (intro moves [of i o' p "move_process m p"]) auto
next
  case (forgetting i)
  then show ?thesis by (intro forgotten [of i]) simp_all
qed

text \<open>No process disappears, changes its owner or comes back.\<close>

lemma process_at_taken:
  assumes "taken_closed ids c s s'" "process_at s i = Some (o', p)"
  shows "\<exists>p'. process_at s' i = Some (o', p') \<and> moved p p'"
proof (cases "i \<in> set ids")
  case True
  with assms(1) obtain o'' q q' where q: "bt_get (ps_entries s) i = Some (o'', q)" "bt_get (ps_detached s') i = Some (o'', q')"
    "moved q q'" unfolding taken_closed_def by blast
  have "bt_get (ps_entries s') i = None" using assms(1) True by (simp add: taken_closed_def)
  with q assms(2) show ?thesis by (simp add: process_at_def)
next
  case False
  with assms have "process_at s' i = Some (o', p)" unfolding taken_closed_def process_at_def by presburger
  then show ?thesis by blast
qed

lemma process_at_step:
  assumes "service_step s s'" "process_at (rs_processes s) i = Some (o', p)"
  shows "\<exists>p'. process_at (rs_processes s') i = Some (o', p') \<and> moved p p'"
  using assms(1)
proof (cases rule: service_step_processes)
  case same
  with assms(2) show ?thesis by auto
next
  case (spawned v owner input params q)
  from spawned(3) show ?thesis
  proof (cases rule: start_process_cases)
    case 1
    with assms(2) show ?thesis by auto
  next
    case (2 j r)
    have "process_at (rs_processes s) j = None" using spawned(2) 2(6) .
    with assms(2) have "j \<noteq> i" by auto
    then have "process_at (rs_processes s') i = process_at (rs_processes s) i" by (simp add: 2(8) process_at_def split: option.split)
    with assms(2) show ?thesis by auto
  qed
next
  case (moves j o'' q q')
  show ?thesis
  proof (cases "j = i")
    case True
    with moves assms(2) show ?thesis by (auto simp: process_at_put)
  next
    case False
    with moves assms(2) show ?thesis by (auto simp: process_at_put)
  qed
next
  case (forgotten j)
  with assms(2) show ?thesis by (auto simp: process_at_detach)
next
  case (retired owner c)
  from process_at_taken [OF retired(1) assms(2)] show ?thesis .
next
  case (closed c)
  from process_at_taken [OF closed(1) assms(2)] show ?thesis .
qed

lemma process_at_steps:
  assumes "service_step\<^sup>*\<^sup>* s s'" "process_at (rs_processes s) i = Some (o', p)"
  shows "\<exists>p'. process_at (rs_processes s') i = Some (o', p') \<and> moved p p'"
  using assms
proof (induction rule: rtranclp_induct)
  case (step t u)
  then obtain q where "process_at (rs_processes t) i = Some (o', q)" "moved p q" by blast
  with process_at_step [OF step(2)] show ?case by (blast intro: moved_trans)
qed auto

section \<open>Reachable states\<close>

definition parts_reachable :: "resource_state \<Rightarrow> bool" where
  "parts_reachable s \<longleftrightarrow>
     any_task_step\<^sup>*\<^sup>* tasks_default (rs_tasks s)
     \<and> (\<exists>w logs. event_init w \<and> event_step\<^sup>*\<^sup>* w (rs_events s, logs))
     \<and> (rs_closing s \<longrightarrow> rs_events s = events_default \<and> rs_tasks s = tasks_default)"

definition retired_ok :: "resource_state \<Rightarrow> bool" where
  "retired_ok s \<longleftrightarrow>
     bt_len (rs_retired s) \<le> 8192
     \<and> (\<forall>owner. bt_has (rs_retired s) owner \<longrightarrow>
          no_events_of owner (rs_events s) \<and> no_tasks_of owner (rs_tasks s))"

definition no_processes_of :: "owner_key \<Rightarrow> process_store \<Rightarrow> bool" where
  "no_processes_of owner s \<longleftrightarrow>
     (\<forall>i p. bt_get (ps_entries s) i \<noteq> Some (owner, p)) \<and> (\<forall>k e. bt_get (ps_operations s) (owner, k) \<noteq> Some e)"

text \<open>
  The processes of a reachable state. Those that left the table were closed by their owner, who
  was told so, or by a retirement or the shutdown, which may have had to give up on some.
\<close>

definition processes_ok :: "resource_state \<Rightarrow> bool" where
  "processes_ok s \<longleftrightarrow>
     table_ok (rs_processes s)
     \<and> (\<forall>owner. bt_has (rs_retired s) owner \<longrightarrow> no_processes_of owner (rs_processes s))
     \<and> (\<forall>i owner p. bt_get (ps_detached (rs_processes s)) i = Some (owner, p) \<longrightarrow>
          rs_closing s \<or> bt_has (rs_retired s) owner \<or> ended p)"

definition service_inv :: "resource_state \<Rightarrow> bool" where
  "service_inv s \<longleftrightarrow> parts_reachable s \<and> retired_ok s \<and> processes_ok s"

definition service_init :: "resource_state \<Rightarrow> bool" where
  "service_init s \<longleftrightarrow> s = resources_default"

lemma any_task_call:
  "fresh_task_tokens v s \<Longrightarrow> tasks_invoke v owner meth params s = (q, s') \<Longrightarrow> any_task_step s s'"
  by (auto simp: any_task_step_def intro: task_step.call)

lemma any_task_retire: "any_task_step s (tasks_retire owner s)"
  by (auto simp: any_task_step_def intro: task_step.retired)

lemma parts_reachable_empty:
  "rs_events s = events_default \<Longrightarrow> rs_tasks s = tasks_default \<Longrightarrow> parts_reachable s"
  unfolding parts_reachable_def event_init_def
  by (auto intro!: exI [of _ "\<lambda>_. []"] intro: rtranclp.rtrancl_refl)

lemma parts_reachable_step:
  assumes "parts_reachable s" "service_step s s'"
  shows "parts_reachable s'"
proof -
  from assms(1) obtain w logs where r: "any_task_step\<^sup>*\<^sup>* tasks_default (rs_tasks s)"
    "event_init w" "event_step\<^sup>*\<^sup>* w (rs_events s, logs)"
    "rs_closing s \<longrightarrow> rs_events s = events_default \<and> rs_tasks s = tasks_default"
    unfolding parts_reachable_def by blast
  from assms(2) show ?thesis
  proof (cases rule: service_step_parts)
    case same
    with assms(1) show ?thesis by (simp add: parts_reachable_def)
  next
    case (events v owner provider meth params q)
    have "event_step\<^sup>*\<^sup>* w (rs_events s', logs_after v meth params q logs)"
      using r(3) event_step.call [OF events(5,6)] by (rule rtranclp.rtrancl_into_rtrancl)
    moreover have "\<not> rs_closing s'" using events(1,2) by (simp add: resource_check_ok)
    ultimately show ?thesis using r(1,2) unfolding parts_reachable_def events(4) by blast
  next
    case (tasks v owner meth params q)
    have "any_task_step\<^sup>*\<^sup>* tasks_default (rs_tasks s')"
      using r(1) any_task_call [OF tasks(5,6)] by (rule rtranclp.rtrancl_into_rtrancl)
    moreover have "\<not> rs_closing s'" using tasks(1,2) by (simp add: resource_check_ok)
    ultimately show ?thesis using r(2,3) unfolding parts_reachable_def tasks(4) by blast
  next
    case (retired owner)
    have "any_task_step\<^sup>*\<^sup>* tasks_default (rs_tasks s')"
      unfolding retired using r(1) any_task_retire by (rule rtranclp.rtrancl_into_rtrancl)
    moreover have "event_step\<^sup>*\<^sup>* w (rs_events s', logs)"
      unfolding retired using r(3) event_step.retired by (rule rtranclp.rtrancl_into_rtrancl)
    moreover have "rs_events s' = events_default \<and> rs_tasks s' = tasks_default" if "rs_closing s'"
    proof -
      have "tasks_retire owner tasks_default = tasks_default" "events_retire owner events_default = events_default"
        by (auto simp: tasks_retire_def tasks_default_def events_retire_def events_default_def drop_closed_def
            intro!: bt_eqI)
      with that retired r(4) show ?thesis by simp
    qed
    ultimately show ?thesis using r(2) unfolding parts_reachable_def by blast
  next
    case closed
    then show ?thesis by (intro parts_reachable_empty) simp_all
  qed
qed

lemma parts_task_inv: "parts_reachable s \<Longrightarrow> task_inv (rs_tasks s)"
  by (auto simp: parts_reachable_def intro: reachable_tasks)

lemma retired_ok_step:
  assumes "parts_reachable s" "retired_ok s" "service_step s s'"
  shows "retired_ok s'"
proof -
  note ok = assms(2) [unfolded retired_ok_def]
  from assms(3) show ?thesis
  proof (cases rule: service_step_parts)
    case same
    with assms(2) show ?thesis by (simp add: retired_ok_def)
  next
    case (events v owner provider meth params q)
    have "no_events_of o' (rs_events s')" if "bt_has (rs_retired s) o'" for o'
    proof (rule no_events_of_call [OF _ _ events(6)])
      show "no_events_of o' (rs_events s)" using ok that by blast
      show "o' \<noteq> owner" using events(1) that by (auto simp: resource_check_ok)
    qed
    with ok show ?thesis by (simp add: retired_ok_def events(3,4))
  next
    case (tasks v owner meth params q)
    have "no_tasks_of o' (rs_tasks s')" if "bt_has (rs_retired s) o'" for o'
    proof (rule no_tasks_of_call [OF _ _ parts_task_inv [OF assms(1)] tasks(5,6)])
      show "no_tasks_of o' (rs_tasks s)" using ok that by blast
      show "o' \<noteq> owner" using tasks(1) that by (auto simp: resource_check_ok)
    qed
    with ok show ?thesis by (simp add: retired_ok_def tasks(3,4))
  next
    case (retired owner)
    have "bt_len (rs_retired s') \<le> 8192" using retired(5) ok by (auto simp: retired(2))
    moreover have "no_events_of o' (rs_events s') \<and> no_tasks_of o' (rs_tasks s')" if "bt_has (rs_retired s') o'" for o'
    proof (cases "o' = owner")
      case True
      then show ?thesis by (simp add: retired(3,4) no_events_after_retire no_tasks_of_retire)
    next
      case False
      with that have "bt_has (rs_retired s) o'" by (simp add: retired(2))
      with ok have "no_events_of o' (rs_events s)" "no_tasks_of o' (rs_tasks s)" by blast+
      then show ?thesis by (simp add: retired(3,4) no_events_of_retire no_tasks_of_retire)
    qed
    ultimately show ?thesis unfolding retired_ok_def by blast
  next
    case closed
    with ok show ?thesis
      by (simp add: retired_ok_def no_events_of_def no_tasks_of_def events_default_def tasks_default_def)
  qed
qed

lemma no_processes_start:
  assumes "no_processes_of owner s" "owner \<noteq> owner_key caller" "start_process v caller input params s = (r, s')"
  shows "no_processes_of owner s'"
  using assms(3)
proof (cases rule: start_process_cases)
  case (2 i p)
  with assms(1,2) show ?thesis by (cases owner) (auto simp: no_processes_of_def split: if_splits)
qed (use assms(1) in simp)

lemma no_processes_put: "no_processes_of owner s \<Longrightarrow> no_processes_of owner (put_process i p s)"
  by (cases owner) (auto simp: no_processes_of_def split: if_splits)

lemma no_processes_detach: "no_processes_of owner s \<Longrightarrow> no_processes_of owner (detach i s)"
  by (simp add: no_processes_of_def)

lemma no_processes_taken:
  assumes "no_processes_of owner s" "taken_closed ids c s s'"
    and "\<And>k v. bt_get (ps_operations s') k = Some v \<Longrightarrow> bt_get (ps_operations s) k = Some v"
  shows "no_processes_of owner s'"
  using assms(1,3) taken_entries [OF assms(2)] unfolding no_processes_of_def by metis

lemma no_processes_retired:
  assumes "taken_closed (processes_of owner s) c s s'"
    "ps_operations s' = bt_retain (\<lambda>k _. fst k \<noteq> owner) (ps_operations s)"
  shows "no_processes_of owner s'"
  unfolding no_processes_of_def
proof (intro conjI allI notI)
  fix i p assume "bt_get (ps_entries s') i = Some (owner, p)"
  then have "i \<notin> set (processes_of owner s)" "bt_get (ps_entries s) i = Some (owner, p)"
    by (simp_all add: taken_entries [OF assms(1)])
  then show False using processes_of_iff by blast
next
  fix k e assume "bt_get (ps_operations s') (owner, k) = Some e"
  then show False by (auto simp: assms(2) split: option.splits if_splits)
qed

lemma processes_ok_step:
  assumes ok: "processes_ok s" and step: "service_step s s'"
  shows "processes_ok s'"
proof -
  note table = ok [unfolded processes_ok_def, THEN conjunct1]
  have none: "bt_has (rs_retired s) owner \<Longrightarrow> no_processes_of owner (rs_processes s)" for owner
    using ok unfolding processes_ok_def by blast
  have ended_by: "rs_closing s \<or> bt_has (rs_retired s) owner \<or> ended p"
    if "bt_get (ps_detached (rs_processes s)) i = Some (owner, p)" for i owner p
    using ok that unfolding processes_ok_def by blast
  from step show ?thesis
  proof (cases rule: service_step_processes)
    case same
    with ok show ?thesis by (simp add: processes_ok_def)
  next
    case (spawned v owner input params q)
    have "no_processes_of o' (rs_processes s')" if "bt_has (rs_retired s') o'" for o'
    proof (rule no_processes_start [OF none _ spawned(3)])
      show "bt_has (rs_retired s) o'" using that spawned(5) by simp
      then show "o' \<noteq> owner_key owner" using spawned(1) by (auto simp: resource_check_ok)
    qed
    moreover have "ps_detached (rs_processes s') = ps_detached (rs_processes s)"
      using spawned(3) by (cases rule: start_process_cases) simp_all
    ultimately show ?thesis
      using table_ok_start [OF table spawned(3,2)] ended_by spawned(4,5) unfolding processes_ok_def by auto
  next
    case (moves i o' p p')
    have "rs_closing s \<or> bt_has (rs_retired s) owner \<or> ended q"
      if j: "bt_get (ps_detached (put_process i p' (rs_processes s))) j = Some (owner, q)" for j owner q
    proof (cases "j = i \<and> bt_get (ps_entries (rs_processes s)) i = None")
      case True
      with moves(1) have "bt_get (ps_detached (rs_processes s)) i = Some (o', p)" by (simp add: process_at_def)
      with True j ended_by [OF this] moved_later [OF moves(2)] show ?thesis by (auto simp: put_detached later_stays)
    next
      case False
      with j have "bt_get (ps_detached (rs_processes s)) j = Some (owner, q)" by (auto simp: put_detached)
      then show ?thesis by (rule ended_by)
    qed
    then show ?thesis
      using table_ok_put [OF table moves(1,2)] none no_processes_put moves(3-5) unfolding processes_ok_def by simp
  next
    case (forgotten i)
    have "table_ok (detach i (rs_processes s))"
      by (rule table_ok_detach [OF table]) (use forgotten(1) in blast)
    moreover have "rs_closing s \<or> bt_has (rs_retired s) owner \<or> ended q"
      if j: "bt_get (ps_detached (detach i (rs_processes s))) j = Some (owner, q)" for j owner q
      using j forgotten(1) ended_by by (metis detach_fields(2))
    ultimately show ?thesis
      using none no_processes_detach forgotten(2-4) unfolding processes_ok_def by simp
  next
    case (retired owner c)
    have ops: "bt_get (ps_operations (rs_processes s')) k = Some v \<Longrightarrow> bt_get (ps_operations (rs_processes s)) k = Some v" for k v
      by (auto simp: retired(2) split: option.splits if_splits)
    have "no_processes_of o' (rs_processes s')" if "bt_has (rs_retired s') o'" for o'
    proof (cases "o' = owner")
      case True
      with no_processes_retired [OF retired(1,2)] show ?thesis by simp
    next
      case False
      with that retired(4) have "bt_has (rs_retired s) o'" by simp
      from no_processes_taken [OF none [OF this] retired(1) ops] show ?thesis .
    qed
    moreover have "rs_closing s' \<or> bt_has (rs_retired s') o' \<or> ended q"
      if "bt_get (ps_detached (rs_processes s')) j = Some (o', q)" for j o' q
      using retired(1) that
    proof (cases rule: taken_closed_cases)
      case 1
      from ended_by [OF this(2)] show ?thesis using retired(3,4) by auto
    next
      case (2 p)
      then have "o' = owner" using processes_of_iff by fastforce
      then show ?thesis using retired(4) by simp
    qed
    ultimately show ?thesis
      using table_ok_closed [OF table retired(1) ops] unfolding processes_ok_def by blast
  next
    case (closed c)
    have ops: "bt_get (ps_operations (rs_processes s')) k = Some v \<Longrightarrow> bt_get (ps_operations (rs_processes s)) k = Some v" for k v
      by (simp add: closed(2))
    have "no_processes_of o' (rs_processes s')" if "bt_has (rs_retired s') o'" for o'
      using no_processes_taken [OF none closed(1) ops] that closed(4) by simp
    then show ?thesis
      using table_ok_closed [OF table closed(1) ops] closed(3) unfolding processes_ok_def by blast
  qed
qed

lemma service_init_inv:
  assumes "service_init s"
  shows "service_inv s"
proof -
  from assms have s: "s = resources_default" by (simp add: service_init_def)
  have "parts_reachable s" by (rule parts_reachable_empty) (simp_all add: s resources_default_def)
  moreover have "processes_ok s"
    using table_ok_default by (simp add: processes_ok_def s resources_default_def) (simp add: processes_default_def)
  ultimately show ?thesis by (simp add: service_inv_def retired_ok_def s resources_default_def)
qed

interpretation service: transition_system service_init service_step service_inv
  by unfold_locales
    (simp add: service_init_inv, auto simp: service_inv_def intro: parts_reachable_step retired_ok_step processes_ok_step)

text \<open>Whether an owner may act: once refused for good, never again.\<close>

interpretation owners: revocable service_step "\<lambda>_ _. True" "\<lambda>s owner. resource_check s owner = Ok ()"
proof
  fix s s' :: "resource_state" and owner
  assume "service_step s s'" "resource_check s' owner = Ok ()"
  then show "resource_check s owner = Ok ()"
    by (cases rule: service_step_parts) (auto simp: resource_check_ok split: if_splits)
qed simp

section \<open>Calls are steps\<close>

lemma put_process_twice [simp]: "put_process i q (put_process i p s) = put_process i q s"
proof -
  have "ps_entries (put_process i q (put_process i p s)) = ps_entries (put_process i q s)"
    by (rule bt_eqI) (cases "bt_get (ps_entries s) i", auto)
  moreover have "ps_detached (put_process i q (put_process i p s)) = ps_detached (put_process i q s)"
    by (rule bt_eqI) (cases "bt_get (ps_detached s) i", auto simp: put_detached)
  ultimately show ?thesis by (intro process_store.equality) simp_all
qed

lemma moves_steps:
  assumes "process_at (rs_processes s) i = Some (o', p)"
  shows "service_step\<^sup>*\<^sup>* s (s\<lparr>rs_processes := put_process i (moves_process ms p) (rs_processes s)\<rparr>)"
  using assms
proof (induction ms arbitrary: s p)
  case Nil
  have "put_process i p (rs_processes s) = rs_processes s"
    using Nil by (intro process_store.equality bt_eqI)
      (auto simp: process_at_def put_detached put_process_def split: option.splits)
  then show ?case by simp
next
  case (Cons m ms)
  let ?s = "s\<lparr>rs_processes := put_process i (move_process m p) (rs_processes s)\<rparr>"
  have "service_step s ?s" using Cons.prems by (rule service_step.moving)
  moreover have "process_at (rs_processes ?s) i = Some (o', move_process m p)"
    using Cons.prems by (simp add: process_at_put)
  from Cons.IH [OF this] have "service_step\<^sup>*\<^sup>* ?s
      (s\<lparr>rs_processes := put_process i (moves_process ms (move_process m p)) (rs_processes s)\<rparr>)" by simp
  ultimately show ?case by (simp add: converse_rtranclp_into_rtranclp)
qed

text \<open>
  A call of a \<open>processes.\<close> method, with whatever steps of the others between its parts, is a
  sequence of steps.
\<close>

lemma processes_invoke_steps:
  assumes others: "\<And>n t. service_step\<^sup>*\<^sup>* t (others n t)"
    and fresh: "\<And>i. pv_token v 0 = Some i \<Longrightarrow> process_at (rs_processes s) i = None"
    and run: "processes_invoke v owner meth params others s = (r, s')"
  shows "service_step\<^sup>*\<^sup>* s s'"
proof (cases "meth = ''processes.spawn''")
  case True
  show ?thesis
  proof (cases "s' = s")
    case False
    with run True obtain input where input: "resource_check s (owner_key owner) = Ok ()"
      "start_process v owner input params (rs_processes s) = (r, rs_processes s')"
      "s' = s\<lparr>rs_processes := rs_processes s'\<rparr>"
      by (auto simp: processes_invoke_def and_then_ok Let_def split: outcome.splits prod.splits)
    from service_step.spawning [OF input(1) fresh input(2)] input(3) show ?thesis by auto
  qed simp
next
  case False
  show ?thesis
  proof (cases "s' = s")
    case moved: False
    obtain i where i: "Option.bind (json_get ''process'' params) json_str = Some i"
      and owns: "owns_process (rs_processes s) (owner_key owner) i" and ok: "resource_check s (owner_key owner) = Ok ()"
    proof -
      have "\<exists>i. Option.bind (json_get ''process'' params) json_str = Some i \<and> owns_process (rs_processes s) (owner_key owner) i
          \<and> resource_check s (owner_key owner) = Ok ()"
        using run False moved
        by (auto simp: processes_invoke_def Let_def split: option.splits outcome.splits if_splits)
          (auto simp: and_then_ok split: if_splits)
      with that show ?thesis by blast
    qed
    let ?t = "others 0 s"
    obtain p where "process_at (rs_processes s) i = Some (owner_key owner, p)"
      using owns by (auto simp: owns_process_def process_at_def split: option.splits)
    from process_at_steps [OF others this] obtain p1 where p1: "process_at (rs_processes ?t) i = Some (owner_key owner, p1)"
      by blast
    obtain q p2 where call: "call_process v meth i params p1 = (q, p2)" by fastforce
    from call_process_moved [OF call] obtain ms where ms: "p2 = moves_process ms p1" by (auto simp: moved_def)
    let ?u = "?t\<lparr>rs_processes := put_process i p2 (rs_processes ?t)\<rparr>"
    have act: "act_on_process v meth i params (rs_processes ?t) = (q, put_process i p2 (rs_processes ?t))"
      by (simp add: act_on_process_def p1 call)
    have u: "service_step\<^sup>*\<^sup>* s ?u" using rtranclp_trans [OF others moves_steps [OF p1, of ms]] ms by simp
    have p2: "process_at (rs_processes ?u) i = Some (owner_key owner, p2)" using p1 by (simp add: process_at_put)
    show ?thesis
    proof (cases q)
      case (Ok result)
      let ?x = "if meth = ''processes.close'' then (others 1 ?u)\<lparr>rs_processes := detach i (rs_processes (others 1 ?u))\<rparr> else ?u"
      have s': "s' = others 2 ?x"
        using run False i owns ok act Ok by (simp add: processes_invoke_def Let_def split: if_splits)
      have "service_step\<^sup>*\<^sup>* ?u ?x"
      proof (cases "meth = ''processes.close''")
        case True
        note closed = call_close [OF call [unfolded True Ok]]
        from process_at_steps [OF others p2] obtain p3 where
          p3: "process_at (rs_processes (others 1 ?u)) i = Some (owner_key owner, p3)" "moved p2 p3" by blast
        have "service_step (others 1 ?u) ((others 1 ?u)\<lparr>rs_processes := detach i (rs_processes (others 1 ?u))\<rparr>)"
          by (rule service_step.forgetting)
            (use p3 closed moved_later [OF p3(2)] later_stays in \<open>auto simp: process_at_def\<close>)
        with True rtranclp.rtrancl_into_rtrancl [OF others [of ?u 1] this] show ?thesis by simp
      qed simp
      with u s' others [of ?x 2] show ?thesis by (meson rtranclp_trans)
    next
      case (Err e)
      then have "s' = ?u" using run False i owns ok act by (simp add: processes_invoke_def Let_def)
      with u show ?thesis by simp
    next
      case Panic
      then have "s' = ?u" using run False i owns ok act by (simp add: processes_invoke_def Let_def)
      with u show ?thesis by simp
    qed
  qed simp
qed

section \<open>Properties\<close>

lemma reachable_service: "service_init s0 \<Longrightarrow> service_step\<^sup>*\<^sup>* s0 s \<Longrightarrow> service_inv s"
  by (rule service.reachable_inv)

text \<open>A call that waits ends with the turn in which its deadline has passed, at the latest.\<close>

lemma invoke_loop_returns:
  "(v, True, others) \<in> set turns \<Longrightarrow> \<exists>r s'. invoke_loop owner meth params turns s = (Some r, s')"
proof (induction turns arbitrary: s)
  case (Cons t turns)
  obtain u timed_out f where t: "t = (u, timed_out, f)" by (cases t)
  show ?case
  proof (cases "attempt u owner meth params timed_out s")
    case (Pair r s')
    show ?thesis
    proof (cases r)
      case None
      have "timed_out = False"
        using Pair None by (auto simp: attempt_def split: outcome.splits prod.splits if_splits)
      then have "(v, True, others) \<in> set turns" using Cons.prems t by auto
      from Cons.IH [OF this] show ?thesis by (simp add: t Pair None)
    qed (simp add: t Pair)
  qed
qed simp


lemma retire_owner_retires:
  assumes "retire_owner v owner s = (q, s')"
    "q \<noteq> Err (limit_error ''retired owner identity bound reached'')"
  obtains c where "bt_has (rs_retired s') (owner_key owner)" "is_ok q \<longleftrightarrow> c"
    "taken_closed (processes_of (owner_key owner) (rs_processes s)) c (rs_processes s) (rs_processes s')"
proof -
  have n: "\<not> (8192 \<le> bt_len (rs_retired s) \<and> \<not> bt_has (rs_retired s) (owner_key owner))"
  proof
    assume "8192 \<le> bt_len (rs_retired s) \<and> \<not> bt_has (rs_retired s) (owner_key owner)"
    with assms(1) have "q = Err (limit_error ''retired owner identity bound reached'')"
      by (simp add: retire_owner_def Let_def del: bt_has_iff)
    with assms(2) show False by blast
  qed
  obtain ids t where t: "processes_retire (owner_key owner) (rs_processes s) = (ids, t)" by fastforce
  obtain c p where p: "close_each (sv_closings v) ids (request_each ids t) = (c, p)" by fastforce
  have "rs_retired s' = bt_insert (owner_key owner) () (rs_retired s)" "rs_processes s' = p" "is_ok q \<longleftrightarrow> c"
    using assms(1) unfolding retire_owner_def Let_def if_not_P [OF n] by (auto simp: t p split: if_splits)
  with retire_closes(1) [OF t p] that show ?thesis by simp
qed

text \<open>What a retired owner has of processes stays closed, and stays ended.\<close>

definition all_ended :: "owner_key \<Rightarrow> process_store \<Rightarrow> bool" where
  "all_ended owner s \<longleftrightarrow> (\<forall>i p. process_at s i = Some (owner, p) \<longrightarrow> ended p)"

lemma all_ended_step:
  assumes "service_inv s" "bt_has (rs_retired s) owner" "all_ended owner (rs_processes s)" "service_step s s'"
  shows "all_ended owner (rs_processes s')"
  unfolding all_ended_def
proof (intro allI impI)
  fix i p' assume p': "process_at (rs_processes s') i = Some (owner, p')"
  show "ended p'"
  proof (cases "process_at (rs_processes s) i")
    case (Some x)
    obtain o' p where x: "x = (o', p)" by (cases x)
    with process_at_step [OF assms(4)] Some obtain q where "process_at (rs_processes s') i = Some (o', q)" "moved p q"
      by blast
    with p' have "o' = owner" "moved p p'" by auto
    with Some x assms(3) have "ended p" unfolding all_ended_def by blast
    with moved_later [OF \<open>moved p p'\<close>] show ?thesis by (rule later_stays(2))
  next
    case None
    from assms(4) have False
    proof (cases rule: service_step_processes)
      case (spawned v caller input params q)
      from spawned(3) show False
      proof (cases rule: start_process_cases)
        case (2 j r)
        have "owner \<noteq> owner_key caller" using spawned(1) assms(2) by (auto simp: resource_check_ok)
        with p' None show False by (auto simp: 2(8) process_at_def split: if_splits option.splits)
      qed (use p' None in simp)
    next
      case (retired o' c)
      with p' None show False by (auto simp: process_at_def taken_entries split: option.splits elim: taken_closed_cases)
    next
      case (closed c)
      with p' None show False by (auto simp: process_at_def taken_entries split: option.splits elim: taken_closed_cases)
    qed (use p' None in \<open>auto simp: process_at_put process_at_detach split: if_splits\<close>)
    then show ?thesis by simp
  qed
qed

lemma retired_step:
  assumes "service_step s s'" "bt_has (rs_retired s) owner"
  shows "bt_has (rs_retired s') owner"
  using assms(1) by (cases rule: service_step_parts) (use assms(2) in auto)

lemma retired_ended:
  assumes "service_inv s" "bt_has (rs_retired s) owner" "all_ended owner (rs_processes s)" "service_step\<^sup>*\<^sup>* s s'"
  shows "bt_has (rs_retired s') owner \<and> all_ended owner (rs_processes s')"
proof -
  from assms(4) have "service_inv s' \<and> bt_has (rs_retired s') owner \<and> all_ended owner (rs_processes s')"
  proof (induction rule: rtranclp_induct)
    case (step t u)
    have "service_inv u" using step(2,3) unfolding service_inv_def
      by (blast intro: parts_reachable_step retired_ok_step processes_ok_step)
    with step show ?case by (blast intro: retired_step all_ended_step)
  qed (use assms in blast)
  then show ?thesis by blast
qed

text \<open>A refused owner can do nothing.\<close>

lemma refused_call:
  assumes "resource_check s (owner_key owner) = Err e"
  shows "\<exists>r. resources_invoke v owner meth params others (turn # turns) s = (Some r, s) \<and> \<not> is_ok r"
proof -
  obtain u timed_out f where turn: "turn = (u, timed_out, f)" by (cases turn)
  have a: "attempt u (owner_key owner) meth params timed_out s = (Some (Err e), s)"
    by (simp add: attempt_def assms)
  have "\<exists>r. processes_invoke (sv_processes v) owner meth params others s = (r, s) \<and> \<not> is_ok r"
    by (auto simp: processes_invoke_def Let_def assms and_then_ok split: outcome.split option.split)
  moreover have "(\<exists>e. admit_request v owner params = Err e) \<or> admit_request v owner params = Ok ()"
    by (auto simp: admit_request_def split: option.split)
  ultimately show ?thesis
    by (auto simp: resources_invoke_def a turn)
qed

text \<open>
  C13: retirement is final and complete: once an owner has been retired, then whatever happens
  afterwards every call of this owner is refused and changes nothing, and nobody can subscribe to
  a topic of it; it has no runner, task, operation or subscription, and its topics, kept only for
  those who still read them, are closed and empty; it has no process and no started operation in
  the table, and every process it ever started is closed - its input dropped, its monitor told to
  stop, the operating system asked to end it. If the owner was live and the retirement succeeded,
  the end of every one of them was confirmed; if it answered that the cleanup is incomplete, all
  the rest still holds.
\<close>

theorem retired_owner_stays_out:
  assumes "service_init s0" "service_step\<^sup>*\<^sup>* s0 s"
    "retire_owner v owner s = (q, s1)" "q \<noteq> Err (limit_error ''retired owner identity bound reached'')"
    "service_step\<^sup>*\<^sup>* s1 s2"
  shows "(\<exists>r. resources_invoke v' owner meth params others (turn # turns) s2 = (Some r, s2) \<and> \<not> is_ok r)
    \<and> (\<exists>e. invoke_events_for v' consumer owner meth params s2 = (Err e, s2))
    \<and> no_events_of (owner_key owner) (rs_events s2) \<and> no_tasks_of (owner_key owner) (rs_tasks s2)
    \<and> no_processes_of (owner_key owner) (rs_processes s2)
    \<and> (\<forall>i p. process_at (rs_processes s2) i = Some (owner_key owner, p) \<longrightarrow>
         shut p \<and> (resource_check s (owner_key owner) = Ok () \<and> is_ok q \<longrightarrow> ended p))"
proof -
  let ?k = "owner_key owner"
  have step: "service_step s s1" using assms(3) by (rule service_step.retiring)
  obtain c where r1: "bt_has (rs_retired s1) ?k" and c: "is_ok q \<longleftrightarrow> c" and
    taken: "taken_closed (processes_of ?k (rs_processes s)) c (rs_processes s) (rs_processes s1)"
    using retire_owner_retires [OF assms(3,4)] .
  then have "resource_check s1 ?k \<noteq> Ok ()" by (simp add: resource_check_ok)
  with owners.stale_forever [OF TrueI r_into_rtranclp [of service_step, OF step] _ assms(5)]
  have "resource_check s2 ?k \<noteq> Ok ()" by blast
  then obtain e where e: "resource_check s2 ?k = Err e"
    using resource_check_cases [of s2 ?k] by blast
  obtain e' where "and_then (resource_check s2 (owner_key consumer)) (\<lambda>_. resource_check s2 ?k) = Err e'"
    by (rule resource_check_cases [of s2 "owner_key consumer"]) (simp_all add: e)
  then have x: "\<exists>e. invoke_events_for v' consumer owner meth params s2 = (Err e, s2)"
    by (simp add: invoke_events_for_def)
  have inv: "service_inv s" "service_inv s1" "service_inv s2"
    using reachable_service [OF assms(1)] assms(2,5) step by (meson rtranclp.rtrancl_into_rtrancl rtranclp_trans)+
  have r2: "bt_has (rs_retired s2) ?k"
    using assms(5) r1 by (induction rule: rtranclp_induct) (auto intro: retired_step simp del: bt_has_iff)
  have ok2: "no_events_of ?k (rs_events s2)" "no_tasks_of ?k (rs_tasks s2)" "no_processes_of ?k (rs_processes s2)"
    and table: "table_ok (rs_processes s2)"
    using inv(3) r2 unfolding service_inv_def retired_ok_def processes_ok_def by blast+
  have "all_ended ?k (rs_processes s1)" if live: "resource_check s ?k = Ok ()" "is_ok q"
    unfolding all_ended_def
  proof (intro allI impI)
    fix i p assume p: "process_at (rs_processes s1) i = Some (?k, p)"
    have "no_processes_of ?k (rs_processes s1)" using inv(2) r1 unfolding service_inv_def processes_ok_def by blast
    with p have "bt_get (ps_detached (rs_processes s1)) i = Some (?k, p)"
      by (auto simp: process_at_def no_processes_of_def split: option.splits)
    with taken show "ended p"
    proof (cases rule: taken_closed_cases)
      case 1
      have "rs_closing s \<or> bt_has (rs_retired s) ?k \<or> ended p"
        using inv(1) 1(2) unfolding service_inv_def processes_ok_def by blast
      with live(1) show ?thesis unfolding resource_check_ok by blast
    qed (use c live in blast)
  qed
  then have ended: "all_ended ?k (rs_processes s2)" if "resource_check s ?k = Ok ()" "is_ok q"
    using retired_ended [OF inv(2) r1 _ assms(5)] that by blast
  have "shut p \<and> (resource_check s ?k = Ok () \<and> is_ok q \<longrightarrow> ended p)"
    if p: "process_at (rs_processes s2) i = Some (?k, p)" for i p
  proof -
    from p ok2(3) have "bt_get (ps_detached (rs_processes s2)) i = Some (?k, p)"
      by (auto simp: process_at_def no_processes_of_def split: option.splits)
    with table_okD(3) [OF table] p ended show ?thesis unfolding all_ended_def by blast
  qed
  with refused_call [OF e] x ok2 show ?thesis by blast
qed

end
