(* ===== verification/Resource_Demo.thy ===== *)
theory Resource_Demo
  imports Resource_Properties
begin

text \<open>
  Concrete runs of the event logs, the tasks and the service, at which the properties apply.
\<close>

section \<open>Event logs\<close>

definition demo_owner :: resource_owner where
  "demo_owner = \<lparr>ro_client_permissions = True, ro_plugin_id = ''p'', ro_source_identity = ''src'',
     ro_generation = 1, ro_default_cwd = [], ro_executables = [], ro_cwd_roots = [], ro_env_keys = []\<rparr>"

definition demo_event_env :: "string \<Rightarrow> event_env" where
  "demo_event_env token =
     \<lparr>ee_size = (\<lambda>_. Some 5), ee_capability = (\<lambda>_. JNull), ee_token = (\<lambda>_. Some token),
      ee_create = (\<lambda>_. Ok \<lparr>ci_name = ''feed'', ci_max_events = Some 2, ci_max_bytes = None, ci_capability = None\<rparr>),
      ee_publish = (\<lambda>j. Ok \<lparr>pi_topic = ''t'', pi_event = j\<rparr>),
      ee_subscribe = (\<lambda>_. Ok \<lparr>si_topic = ''t'', si_after = None, si_capability = None\<rparr>),
      ee_read = (\<lambda>_. Err []), ee_ack = (\<lambda>_. Err []), ee_close = (\<lambda>_. Err [])\<rparr>"

definition demo_topic :: "u64 \<Rightarrow> (u64 \<times> json \<times> nat) list \<Rightarrow> topic" where
  "demo_topic n es =
     \<lparr>tp_owner = owner_key demo_owner, tp_name = ''feed'', tp_capability = None, tp_sequence = n,
      tp_events = es, tp_bytes = 5 * length es, tp_max_events = 2, tp_max_bytes = 1048576,
      tp_closed = False, tp_provider_retired = False\<rparr>"

definition demo_sub :: subscription where
  "demo_sub = \<lparr>sb_owner = owner_key demo_owner, sb_topic = ''t'', sb_acknowledged = 0, sb_delivered = 0\<rparr>"

definition demo_events :: "u64 \<Rightarrow> (u64 \<times> json \<times> nat) list \<Rightarrow> event_store" where
  "demo_events n es = \<lparr>es_topics = bt_insert ''t'' (demo_topic n es) bt_empty,
     es_subscriptions = bt_insert ''s'' demo_sub bt_empty\<rparr>"

lemma demo_check_name: "check_name ''feed'' = Ok ()" "check_name ''k'' = Ok ()"
  by code_simp+

lemma demo_create:
  "\<exists>r. events_invoke_for (demo_event_env ''t'') (owner_key demo_owner) (owner_key demo_owner)
     ''events.createTopic'' JNull events_default
   = (Ok r, \<lparr>es_topics = bt_insert ''t'' (demo_topic 0 []) bt_empty, es_subscriptions = bt_empty\<rparr>)"
  by (simp add: events_invoke_for_def with_input_def decode_def demo_event_env_def create_topic_def
      demo_check_name events_default_def bounded_def draw_token_def demo_topic_def)

lemma demo_subscribe:
  "\<exists>r. events_invoke_for (demo_event_env ''s'') (owner_key demo_owner) (owner_key demo_owner)
     ''events.subscribe'' JNull
     \<lparr>es_topics = bt_insert ''t'' (demo_topic 0 []) bt_empty, es_subscriptions = bt_empty\<rparr>
   = (Ok r, demo_events 0 [])"
  by (simp add: events_invoke_for_def with_input_def decode_def demo_event_env_def subscribe_def
      owned_topic_def demo_topic_def draw_token_def parse_after_def demo_events_def demo_sub_def)

lemma insert_twice: "bt_insert k v (bt_insert k w m) = bt_insert k v m"
  by (rule bt_eqI) simp

lemma demo_publish1:
  "\<exists>r. events_invoke_for (demo_event_env ''x'') (owner_key demo_owner) (owner_key demo_owner)
     ''events.publish'' JNull (demo_events 0 []) = (Ok r, demo_events 1 [(1, JNull, 5)])"
  by (simp add: events_invoke_for_def with_input_def decode_def demo_event_env_def publish_def
      check_bytes_def owned_topic_def demo_topic_def checked_succ_def demo_events_def insert_twice)

lemma demo_publish2:
  "\<exists>r. events_invoke_for (demo_event_env ''x'') (owner_key demo_owner) (owner_key demo_owner)
     ''events.publish'' (JBool True) (demo_events 1 [(1, JNull, 5)])
   = (Ok r, demo_events 2 [(1, JNull, 5), (2, JBool True, 5)])"
  by (simp add: events_invoke_for_def with_input_def decode_def demo_event_env_def publish_def
      check_bytes_def owned_topic_def demo_topic_def checked_succ_def demo_events_def insert_twice)

lemma demo_publish3:
  "\<exists>r. events_invoke_for (demo_event_env ''x'') (owner_key demo_owner) (owner_key demo_owner)
     ''events.publish'' (JBool False) (demo_events 2 [(1, JNull, 5), (2, JBool True, 5)])
   = (Ok r, demo_events 3 [(2, JBool True, 5), (3, JBool False, 5)])"
  by (simp add: events_invoke_for_def with_input_def decode_def demo_event_env_def publish_def
      check_bytes_def owned_topic_def demo_topic_def checked_succ_def demo_events_def insert_twice)

definition demo_log :: event_logs where
  "demo_log = (\<lambda>_. [])(''t'' := [JNull, JBool True, JBool False])"

abbreviation demo_full :: event_store where
  "demo_full \<equiv> demo_events 3 [(2, JBool True, 5), (3, JBool False, 5)]"

lemma demo_fresh:
  "fresh_tokens (demo_event_env ''t'') events_default"
  "fresh_tokens (demo_event_env ''s'') \<lparr>es_topics = bt_insert ''t'' (demo_topic 0 []) bt_empty, es_subscriptions = bt_empty\<rparr>"
  "fresh_tokens (demo_event_env ''x'') (demo_events n es)"
  by (simp_all add: fresh_tokens_def demo_event_env_def events_default_def demo_events_def)

lemma demo_events_reached: "event_step\<^sup>*\<^sup>* (events_default, \<lambda>_. []) (demo_full, demo_log)"
proof -
  obtain r0 r1 r2 r3 r4 where
    c: "events_invoke_for (demo_event_env ''t'') (owner_key demo_owner) (owner_key demo_owner)
      ''events.createTopic'' JNull events_default
      = (Ok r0, \<lparr>es_topics = bt_insert ''t'' (demo_topic 0 []) bt_empty, es_subscriptions = bt_empty\<rparr>)"
    "events_invoke_for (demo_event_env ''s'') (owner_key demo_owner) (owner_key demo_owner)
      ''events.subscribe'' JNull
      \<lparr>es_topics = bt_insert ''t'' (demo_topic 0 []) bt_empty, es_subscriptions = bt_empty\<rparr> = (Ok r1, demo_events 0 [])"
    "events_invoke_for (demo_event_env ''x'') (owner_key demo_owner) (owner_key demo_owner)
      ''events.publish'' JNull (demo_events 0 []) = (Ok r2, demo_events 1 [(1, JNull, 5)])"
    "events_invoke_for (demo_event_env ''x'') (owner_key demo_owner) (owner_key demo_owner)
      ''events.publish'' (JBool True) (demo_events 1 [(1, JNull, 5)])
      = (Ok r3, demo_events 2 [(1, JNull, 5), (2, JBool True, 5)])"
    "events_invoke_for (demo_event_env ''x'') (owner_key demo_owner) (owner_key demo_owner)
      ''events.publish'' (JBool False) (demo_events 2 [(1, JNull, 5), (2, JBool True, 5)]) = (Ok r4, demo_full)"
    using demo_create demo_subscribe demo_publish1 demo_publish2 demo_publish3 by blast
  let ?l = "\<lambda>xs. (\<lambda>_. [])(''t'' := xs)"
  have logs: "logs_after (demo_event_env ''x'') ''events.publish'' j (Ok r) (?l xs) = ?l (xs @ [j])" for j r xs
    by (simp add: logs_after_def demo_event_env_def)
  have "logs_after (demo_event_env ''t'') ''events.createTopic'' JNull (Ok r0) (\<lambda>_. []) = ?l []"
    "logs_after (demo_event_env ''s'') ''events.subscribe'' JNull (Ok r1) (?l []) = ?l []"
    by (simp_all add: logs_after_def demo_event_env_def)
  note steps = event_step.call [OF demo_fresh(1) c(1), of "\<lambda>_. []", unfolded this]
    event_step.call [OF demo_fresh(2) c(2), of "?l []", unfolded this]
    event_step.call [OF demo_fresh(3) c(3), of "?l []", unfolded logs]
    event_step.call [OF demo_fresh(3) c(4), of "?l ([] @ [JNull])", unfolded logs]
    event_step.call [OF demo_fresh(3) c(5), of "?l (([] @ [JNull]) @ [JBool True])", unfolded logs]
  show ?thesis
    using steps unfolding demo_log_def append_Nil append_Cons
    by (meson rtranclp.rtrancl_into_rtrancl rtranclp.rtrancl_refl)
qed

lemma demo_start: "event_init (events_default, \<lambda>_. [])"
  by (simp add: event_init_def)

lemma demo_sub_read: "owned_subscription demo_full (owner_key demo_owner) ''s'' = Some demo_sub"
  "bt_get (es_topics demo_full) (sb_topic demo_sub) = Some (demo_topic 3 [(2, JBool True, 5), (3, JBool False, 5)])"
  "\<not> tp_provider_retired (demo_topic n es)"
  by (simp_all add: owned_subscription_Some demo_events_def demo_sub_def demo_topic_def)

theorem event_store_bounded_witness:
  "bt_len (es_topics demo_full) \<le> 128
   \<and> numbered [(2, JBool True, 5), (3, JBool False, 5)] = drop 1 (enumerate 1 [JNull, JBool True, JBool False])"
proof -
  note all = event_store_bounded [OF demo_start demo_events_reached, of "owner_key demo_owner"]
  let ?t = "demo_topic 3 [(2, JBool True, 5), (3, JBool False, 5)]"
  have "numbered (tp_events ?t) = drop (lost ?t (demo_log ''t'')) (enumerate 1 (demo_log ''t''))"
    using all demo_sub_read(2) [unfolded demo_sub_def, simplified] by blast
  with all show ?thesis by (simp add: demo_topic_def lost_def demo_log_def)
qed

theorem polling_catches_up_witness:
  "\<exists>s'. poll 3 (owner_key demo_owner) ''s'' demo_full = Some ([JBool True, JBool False], s')"
  using polling_catches_up [OF demo_start demo_events_reached demo_sub_read]
  by (auto simp: demo_sub_def demo_topic_def lost_def demo_log_def numeral_3_eq_3 simp del: poll.simps)

theorem event_read_refines_log_witness:
  "\<exists>r s'. read_events (owner_key demo_owner)
       \<lparr>ri_subscription = ''s'', ri_after = None, ri_limit = Some 1, ri_wait_ms = 0\<rparr> demo_full = (Ok r, s')
     \<and> (\<exists>out latest. r = read_reply ''t'' (demo_topic 3 [(2, JBool True, 5), (3, JBool False, 5)]) out latest True
        \<and> answers 64 0 (demo_topic 3 [(2, JBool True, 5), (3, JBool False, 5)]) [JNull, JBool True, JBool False] out)"
proof -
  let ?x = "\<lparr>ri_subscription = ''s'', ri_after = None, ri_limit = Some 1, ri_wait_ms = 0\<rparr>"
  have "is_ok (fst (read_events (owner_key demo_owner) ?x demo_full))"
    using demo_sub_read(1,2)
    by (simp add: read_events_def bounded_def parse_after_def Let_def demo_sub_def split: prod.splits)
  then obtain r s' where r: "read_events (owner_key demo_owner) ?x demo_full = (Ok r, s')"
    by (metis is_ok_iff prod.collapse)
  from event_read_refines_log [OF demo_start demo_events_reached r] demo_sub_read(1,2) r show ?thesis
    by (auto simp: demo_sub_def parse_after_def demo_log_def demo_topic_def lost_def)
qed

section \<open>Tasks\<close>

definition demo_task_env :: "string \<Rightarrow> nat \<Rightarrow> task_env" where
  "demo_task_env token now =
     \<lparr>te_size = (\<lambda>_. Some 5), te_token = (\<lambda>_. Some token), te_expire_now = now, te_start_now = 0,
      te_claim_now = (\<lambda>_. now), te_wall_ms = 0, te_register = (\<lambda>_. Ok ''k''),
      te_start = (\<lambda>_. Ok \<lparr>st_runner = ''r'', st_input = JNull, st_operation_key = ''k'', st_timeout_ms = Some 1\<rparr>),
      te_claim = (\<lambda>_. Ok \<lparr>cl_runner = ''r'', cl_limit = None, cl_wait_ms = 0\<rparr>),
      te_progress = (\<lambda>_. Err []),
      te_finish = (\<lambda>_. Ok \<lparr>fi_task = ''t'', fi_claim = ''c'', fi_state = ''succeeded'',
         fi_result = Some JNull, fi_error = None\<rparr>),
      te_selected = (\<lambda>_. Ok ''t''), te_list = (\<lambda>_. Err []), te_unregister = (\<lambda>_. Ok ''r'')\<rparr>"

definition demo_task :: "task_state \<Rightarrow> string option \<Rightarrow> json option \<Rightarrow> u64 \<Rightarrow> task" where
  "demo_task st c res n =
     \<lparr>tk_owner = owner_key demo_owner, tk_runner = ''r'', tk_input = JNull, tk_state = st, tk_claim = c,
      tk_cancel_requested = False, tk_progress = JNull, tk_result = res, tk_error = None,
      tk_revision = n, tk_created_at = 0, tk_deadline = 1000000, tk_deadline_at = 1\<rparr>"

definition demo_tasks :: "task option \<Rightarrow> task_store" where
  "demo_tasks t =
     \<lparr>ts_runners = bt_insert ''r'' \<lparr>rn_owner = owner_key demo_owner, rn_name = ''k''\<rparr> bt_empty,
      ts_tasks = (case t of None \<Rightarrow> bt_empty | Some t \<Rightarrow> bt_insert ''t'' t bt_empty),
      ts_operations = (case t of None \<Rightarrow> bt_empty
        | Some _ \<Rightarrow> bt_insert (owner_key demo_owner, ''k'') (JNull, ''t'') bt_empty)\<rparr>"

abbreviation demo_queued :: task where "demo_queued \<equiv> demo_task Queued None None 1"
abbreviation demo_running :: task where "demo_running \<equiv> demo_task Running (Some ''c'') None 2"
abbreviation demo_done :: task where "demo_done \<equiv> demo_task Succeeded (Some ''c'') (Some JNull) 3"

lemma map_inserted: "bt_map f (bt_insert k v m) = bt_insert k (f k v) (bt_map f m)" "bt_map f bt_empty = bt_empty"
  by (rule bt_eqI; simp)+

lemma demo_expire:
  "expire 0 (demo_tasks None) = demo_tasks None"
  "expire 0 (demo_tasks (Some (demo_task st c res n))) = demo_tasks (Some (demo_task st c res n))"
  "expire now (demo_tasks (Some demo_done)) = demo_tasks (Some demo_done)"
  by (simp_all add: expire_def demo_tasks_def map_inserted demo_task_def terminal_def)

lemmas demo_call_defs = tasks_invoke_def dispatch_tasks_def with_input_def decode_def demo_task_env_def

lemma demo_register_runner:
  "\<exists>r. tasks_invoke (demo_task_env ''r'' 0) (owner_key demo_owner) ''tasks.register'' JNull tasks_default
     = (Ok r, demo_tasks None)"
proof -
  have "expire 0 tasks_default = tasks_default" by (simp add: expire_def tasks_default_def map_inserted)
  then show ?thesis
    by (simp add: demo_call_defs register_runner_def demo_check_name draw_token_def)
      (simp add: tasks_default_def demo_tasks_def)
qed

lemma demo_start_task:
  "tasks_invoke (demo_task_env ''t'' 0) (owner_key demo_owner) ''tasks.start'' JNull (demo_tasks None)
     = (Ok (snapshot demo_queued ''t''), demo_tasks (Some demo_queued))"
  by (simp add: demo_call_defs demo_expire start_task_def demo_check_name check_bytes_def owns_runner_def)
    (simp add: demo_tasks_def put_task_def draw_token_def Let_def new_task_def demo_task_def)

lemma demo_claim:
  "\<exists>r. tasks_invoke (demo_task_env ''c'' 0) (owner_key demo_owner) ''tasks.claim'' JNull (demo_tasks (Some demo_queued))
     = (Ok r, demo_tasks (Some demo_running))"
  by (simp add: demo_call_defs demo_expire claim_work_def bounded_def Let_def)
    (simp add: demo_tasks_def owns_runner_def running_tasks_def bt_count_def bt_len_def draw_token_def
      demo_task_def bt_empty.rep_eq insert_twice Let_def)

lemma demo_finish:
  "\<exists>r. tasks_invoke (demo_task_env ''x'' 0) (owner_key demo_owner) ''tasks.finish'' JNull (demo_tasks (Some demo_running))
     = (Ok r, demo_tasks (Some demo_done))"
  by (simp add: demo_call_defs demo_expire finish_task_def claimed_task_def owned_task_def check_opt_bytes_def
      check_bytes_def finish_state_def Let_def)
    (simp add: demo_tasks_def demo_task_def terminal_def put_task_def insert_twice Let_def)

lemma demo_task_fresh:
  "fresh_task_tokens (demo_task_env ''r'' n) tasks_default"
  "fresh_task_tokens (demo_task_env ''t'' n) (demo_tasks None)"
  "fresh_task_tokens (demo_task_env ''c'' n) (demo_tasks t)"
  "fresh_task_tokens (demo_task_env ''x'' n) (demo_tasks t)"
  by (cases t; simp add: fresh_task_tokens_def demo_task_env_def tasks_default_def demo_tasks_def)+

lemma demo_queued_reached: "any_task_step\<^sup>*\<^sup>* tasks_default (demo_tasks None)"
  "any_task_step (demo_tasks None) (demo_tasks (Some demo_queued))"
  using demo_register_runner demo_start_task demo_task_fresh unfolding any_task_step_def
  by (blast intro: task_step.call r_into_rtranclp [of any_task_step, unfolded any_task_step_def])+

lemma demo_reached:
  "any_task_step\<^sup>*\<^sup>* tasks_default (demo_tasks (Some demo_queued))"
  "any_task_step\<^sup>*\<^sup>* tasks_default (demo_tasks (Some demo_running))"
  "any_task_step\<^sup>*\<^sup>* tasks_default (demo_tasks (Some demo_done))"
proof -
  show q: "any_task_step\<^sup>*\<^sup>* tasks_default (demo_tasks (Some demo_queued))"
    using demo_queued_reached by (rule rtranclp.rtrancl_into_rtrancl)
  have c: "any_task_step (demo_tasks (Some demo_queued)) (demo_tasks (Some demo_running))"
    using demo_claim demo_task_fresh(3) unfolding any_task_step_def by (blast intro: task_step.call)
  have f: "any_task_step (demo_tasks (Some demo_running)) (demo_tasks (Some demo_done))"
    using demo_finish demo_task_fresh(4) unfolding any_task_step_def by (blast intro: task_step.call)
  show r: "any_task_step\<^sup>*\<^sup>* tasks_default (demo_tasks (Some demo_running))"
    using q c by (rule rtranclp.rtrancl_into_rtrancl)
  show "any_task_step\<^sup>*\<^sup>* tasks_default (demo_tasks (Some demo_done))"
    using r f by (rule rtranclp.rtrancl_into_rtrancl)
qed

lemma demo_get: "bt_get (ts_tasks (demo_tasks (Some t))) ''t'' = Some t"
  by (simp add: demo_tasks_def)

theorem task_store_well_formed_witness:
  "tk_claim demo_running \<noteq> None \<and> running_tasks (owner_key demo_owner) (ts_tasks (demo_tasks (Some demo_running))) \<le> 4"
proof -
  note all = task_store_well_formed [OF demo_reached(2)]
  then have "tk_claim demo_running = None \<longrightarrow> tk_state demo_running \<in> {Queued, Cancelled}"
    using demo_get by blast
  then have "tk_claim demo_running \<noteq> None" by (simp add: demo_task_def)
  moreover have "running_tasks (owner_key demo_owner) (ts_tasks (demo_tasks (Some demo_running))) \<le> 4"
    using all by blast
  ultimately show ?thesis by (rule conjI)
qed

theorem task_protocol_witness:
  "\<exists>t'. bt_get (ts_tasks (demo_tasks (Some demo_running))) ''t'' = Some t' \<and> task_move demo_queued t'"
proof -
  obtain r where "tasks_invoke (demo_task_env ''c'' 0) (owner_key demo_owner) ''tasks.claim'' JNull
      (demo_tasks (Some demo_queued)) = (Ok r, demo_tasks (Some demo_running))"
    using demo_claim by blast
  from task_protocol [OF demo_reached(1) demo_task_fresh(3) this demo_get] show ?thesis by blast
qed

lemma demo_idle:
  "\<exists>r. tasks_invoke (demo_task_env ''x'' 5) (owner_key demo_owner) ''tasks.cancel'' JNull (demo_tasks (Some demo_done))
     = (Ok r, demo_tasks (Some demo_done))"
  by (simp add: demo_call_defs demo_expire cancel_task_def)
    (simp add: demo_tasks_def demo_task_def terminal_def put_task_def insert_twice owned_task_def Let_def)

theorem task_outcome_final_witness:
  "\<exists>s'. step_keeping (owner_key demo_owner) (demo_tasks (Some demo_done)) s'
     \<and> bt_get (ts_tasks s') ''t'' = Some demo_done"
proof -
  obtain r where "tasks_invoke (demo_task_env ''x'' 5) (owner_key demo_owner) ''tasks.cancel'' JNull
      (demo_tasks (Some demo_done)) = (Ok r, demo_tasks (Some demo_done))"
    using demo_idle by blast
  then have s: "step_keeping (tk_owner demo_done) (demo_tasks (Some demo_done)) (demo_tasks (Some demo_done))"
    using demo_task_fresh(4) unfolding step_keeping_def by (blast intro: task_step.call)
  have "terminal demo_done" by (simp add: terminal_def demo_task_def)
  from task_outcome_final [OF demo_reached(3) demo_get this r_into_rtranclp [of "step_keeping _", OF s]] s
  show ?thesis by (auto simp: demo_task_def)
qed

theorem deadline_ends_task_witness:
  "\<exists>t'. bt_get (ts_tasks (snd (tasks_invoke (demo_task_env ''x'' 1000000) (''q'', ''q'', 7) ''tasks.get'' JNull
       (demo_tasks (Some demo_running))))) ''t'' = Some t' \<and> terminal t'"
  using deadline_ends_task [where v = "demo_task_env ''x'' 1000000" and owner = "(''q'', ''q'', 7)"
      and meth = "''tasks.get''" and params = JNull,
      OF demo_reached(2) demo_get rtranclp.rtrancl_refl demo_task_fresh(4) _ surjective_pairing]
  by (simp add: demo_task_def demo_task_env_def)

theorem start_is_idempotent_witness:
  "fst (tasks_invoke (demo_task_env ''x'' 0) (owner_key demo_owner) ''tasks.start'' JNull (demo_tasks (Some demo_queued)))
     = Ok (snapshot demo_queued ''t'')"
proof -
  have d: "te_start (demo_task_env k 0) j
      = Ok \<lparr>st_runner = ''r'', st_input = JNull, st_operation_key = ''k'', st_timeout_ms = Some 1\<rparr>" for k j
    by (simp add: demo_task_env_def)
  have b: "check_bytes (te_size (demo_task_env ''x'' 0)) JNull (64 * 1024) = Ok ()"
    by (simp add: demo_task_env_def check_bytes_def)
  have e: "expire (te_expire_now (demo_task_env ''x'' 0)) (demo_tasks (Some demo_queued)) = demo_tasks (Some demo_queued)"
    by (simp add: demo_task_env_def demo_expire)
  from start_is_idempotent [where v' = "demo_task_env ''x'' 0" and params' = JNull,
      OF demo_queued_reached(1) demo_task_fresh(2) demo_start_task d rtranclp.rtrancl_refl d refl] b
  obtain i t where i: "bt_get (ts_tasks (demo_tasks (Some demo_queued))) i = Some t"
    "json_get ''task'' (snapshot demo_queued ''t'') = Some (JString i)"
    "fst (tasks_invoke (demo_task_env ''x'' 0) (owner_key demo_owner) ''tasks.start'' JNull (demo_tasks (Some demo_queued)))
      = Ok (snapshot t i)" unfolding e by auto
  from i(2) have "i = ''t''" by (simp add: snapshot_def)
  with i(1,3) demo_get [of demo_queued] show ?thesis by simp
qed

text \<open>
  A claim of two tasks of which the second token cannot be drawn answers with an error, but the
  first task stays claimed with a claim its runner never receives, until its deadline.
\<close>

definition two_queued :: task_store where
  "two_queued = (demo_tasks (Some demo_queued))\<lparr>ts_tasks :=
     bt_insert ''u'' demo_queued (bt_insert ''t'' demo_queued bt_empty)\<rparr>"

lemma failed_claim_keeps_task:
  "fst (claim_work ((demo_task_env ''c'' 0)\<lparr>te_token := (\<lambda>n. if n = 0 then Some ''c'' else None)\<rparr>)
      (owner_key demo_owner) \<lparr>cl_runner = ''r'', cl_limit = Some 2, cl_wait_ms = 0\<rparr> two_queued)
     = Err (ServiceError ''random_failed'' ''cannot issue resource token'')
   \<and> bt_get (ts_tasks (snd (claim_work ((demo_task_env ''c'' 0)\<lparr>te_token := (\<lambda>n. if n = 0 then Some ''c'' else None)\<rparr>)
      (owner_key demo_owner) \<lparr>cl_runner = ''r'', cl_limit = Some 2, cl_wait_ms = 0\<rparr> two_queued))) ''t''
     = Some demo_running"
  by (simp add: claim_work_def bounded_def Let_def two_queued_def demo_tasks_def owns_runner_def running_tasks_def
      bt_count_def bt_len_def draw_token_def demo_task_def bt_empty.rep_eq demo_task_env_def)

section \<open>The service\<close>

text \<open>A process that ends, with all it started, as soon as it is asked to.\<close>

definition demo_spawn_input :: spawn_input where
  "demo_spawn_input = \<lparr>sp_executable = ''/bin/tool'', sp_args = [''-v''], sp_cwd = None, sp_env = bt_empty,
     sp_stdin = ''pipe'', sp_operation_key = ''k''\<rparr>"

definition demo_monitor :: monitor_env where
  "demo_monitor = \<lparr>mv_stdout = TimedOut, mv_stderr = TimedOut, mv_wait = Some None, mv_scope_empty = False,
     mv_last_code = Some 1, mv_last_reaped = True\<rparr>"

definition demo_process_env :: process_env where
  "demo_process_env = \<lparr>pv_windows = False, pv_token = (\<lambda>_. Some ''p''), pv_spawn = (\<lambda>_. Ok demo_spawn_input),
     pv_selected = (\<lambda>_. Ok ''p''), pv_read = (\<lambda>_. Err []), pv_write = (\<lambda>_. Err []), pv_wait = (\<lambda>_. Ok 0),
     pv_pin_client = Ok, pv_pin_exact = (\<lambda>x xs. Ok x), pv_pin_within = (\<lambda>x xs. Ok x), pv_location = (\<lambda>_. Ok ()),
     pv_variables = [], pv_launch = (\<lambda>_ _ _ _. Ok 7), pv_thread = None, pv_terminate = None,
     pv_sha256 = (\<lambda>_. []), pv_delivered = True, pv_waits = [Monitored demo_monitor], pv_finished = True\<rparr>"

definition demo_service_env :: service_env where
  "demo_service_env =
     \<lparr>sv_events = demo_event_env ''t'', sv_tasks = demo_task_env ''r'' 0, sv_size = (\<lambda>_. Some 5),
      sv_processes = demo_process_env, sv_closings = (\<lambda>_. demo_process_env)\<rparr>"

definition demo_process :: process where
  "demo_process = new_process 7 demo_spawn_input"

definition demo_processes :: process_store where
  "demo_processes = processes_default\<lparr>ps_entries := bt_insert ''p'' (owner_key demo_owner, demo_process) bt_empty,
     ps_operations := bt_insert (owner_key demo_owner, ''k'') (JNull, ''p'') bt_empty\<rparr>"

definition demo_service :: resource_state where
  "demo_service = resources_default\<lparr>rs_tasks := demo_tasks None, rs_processes := demo_processes\<rparr>"

lemma demo_spawned:
  "\<exists>r. start_process demo_process_env demo_owner demo_spawn_input JNull processes_default = (Ok r, demo_processes)"
  by (simp add: start_process_def Let_def processes_default_def demo_process_env_def draw_token_def spawn_def check_args_def
      demo_spawn_input_def pin_cwd_def environment_def bt_empty.rep_eq demo_processes_def demo_process_def)

lemma demo_service_reached: "service_step\<^sup>*\<^sup>* resources_default demo_service"
proof -
  let ?s = "resources_default\<lparr>rs_tasks := demo_tasks None\<rparr>"
  obtain r where "tasks_invoke (demo_task_env ''r'' 0) (owner_key demo_owner) ''tasks.register'' JNull tasks_default
     = (Ok r, demo_tasks None)" using demo_register_runner by blast
  then have "attempt demo_service_env (owner_key demo_owner) ''tasks.register'' JNull True resources_default
     = (Some (Ok r), ?s)"
    by (simp add: attempt_def resource_check_def resources_default_def run_method_def demo_service_env_def)
  moreover have "fresh_for demo_service_env resources_default"
    using demo_fresh(1) demo_task_fresh(1) by (simp add: fresh_for_def resources_default_def demo_service_env_def)
  ultimately have first: "service_step resources_default ?s" by (blast intro: service_step.turn)
  obtain q where q: "start_process demo_process_env demo_owner demo_spawn_input JNull (rs_processes ?s) = (Ok q, demo_processes)"
    using demo_spawned by (auto simp: resources_default_def)
  have "service_step ?s (?s\<lparr>rs_processes := demo_processes\<rparr>)"
    by (rule service_step.spawning [OF _ _ q])
      (simp_all add: resource_check_def resources_default_def process_at_def processes_default_def)
  with first show ?thesis by (simp add: demo_service_def)
qed

lemma demo_service_start: "service_init resources_default"
  by (simp add: service_init_def)


lemma demo_retired:
  "\<exists>q s. retire_owner demo_service_env demo_owner demo_service = (Ok q, s)
     \<and> (\<exists>p. process_at (rs_processes s) ''p'' = Some (owner_key demo_owner, p))"
proof -
  have ids: "processes_of (owner_key demo_owner) demo_processes = [''p'']"
    by (simp add: processes_of_def demo_processes_def processes_default_def bt_keys_def bt_retain.rep_eq bt_insert.rep_eq
        bt_empty.rep_eq)
  show ?thesis
    by (simp add: retire_owner_def Let_def demo_service_def resources_default_def demo_service_env_def
        processes_retire_def ids)
      (simp add: demo_processes_def processes_default_def process_at_def put_process_def detach_def close_process_def
        demo_process_env_def request_close_def end_input_def demo_process_def new_process_def io_default_def
        monitor_def monitor_ends_def demo_monitor_def Let_def)
qed

theorem retired_owner_stays_out_witness:
  "\<exists>q s p. retire_owner demo_service_env demo_owner demo_service = (Ok q, s)
     \<and> no_tasks_of (owner_key demo_owner) (rs_tasks s) \<and> \<not> no_tasks_of (owner_key demo_owner) (rs_tasks demo_service)
     \<and> no_processes_of (owner_key demo_owner) (rs_processes s)
     \<and> \<not> no_processes_of (owner_key demo_owner) (rs_processes demo_service)
     \<and> process_at (rs_processes s) ''p'' = Some (owner_key demo_owner, p) \<and> shut p \<and> ended p
     \<and> (\<exists>r. resources_invoke demo_service_env demo_owner ''tasks.list'' JNull (\<lambda>_ s. s)
          [(demo_service_env, True, \<lambda>s. s)] s = (Some r, s) \<and> \<not> is_ok r)"
proof -
  obtain q s p where r: "retire_owner demo_service_env demo_owner demo_service = (Ok q, s)"
    "process_at (rs_processes s) ''p'' = Some (owner_key demo_owner, p)"
    using demo_retired by blast
  have before: "\<not> no_tasks_of (owner_key demo_owner) (rs_tasks demo_service)"
    "\<not> no_processes_of (owner_key demo_owner) (rs_processes demo_service)"
    by (auto simp: no_tasks_of_def no_processes_of_def demo_service_def demo_tasks_def demo_processes_def)
  have live: "resource_check demo_service (owner_key demo_owner) = Ok ()"
    by (simp add: resource_check_def demo_service_def resources_default_def)
  note out = retired_owner_stays_out [where v' = demo_service_env and meth = "''tasks.list''" and params = JNull
      and others = "\<lambda>_ s. s" and turn = "(demo_service_env, True, \<lambda>s. s)" and turns = "[]",
      OF demo_service_start demo_service_reached r(1) _ rtranclp.rtrancl_refl]
  then have "shut p \<and> ended p" using r(2) live by auto
  with out r before show ?thesis by blast
qed

end
