(* ===== verification/Github_Links.thy ===== *)
theory Github_Links
  imports Local_Plugins
begin

text \<open>
  Links to public GitHub repositories, releases and assets, and the check of the source that the
  receipt of a package names (\<open>src/src/github_distribution.rs\<close>). An error is represented by its
  code; the requests to GitHub and what they answer are not part of the model.
\<close>

section \<open>Links\<close>

type_synonym 'a github_result = "(string, 'a) outcome"

record github_repository =
  gr_owner :: string
  gr_name :: string
  gr_url :: string

record github_link =
  gl_repository :: github_repository
  gl_tag :: "string option"
  gl_asset_name :: "string option"
  gl_latest :: bool

definition MAX_ARCHIVE_BYTES :: u64 where
  "MAX_ARCHIVE_BYTES = 33554432"

definition MAX_API_BYTES :: u64 where
  "MAX_API_BYTES = 4194304"

definition ascii_lowercase :: "string \<Rightarrow> string" where
  "ascii_lowercase = map (\<lambda>c. if ascii_upper c then char_of (byte c + 32) else c)"

definition eq_ignore_case :: "string \<Rightarrow> string \<Rightarrow> bool" where
  "eq_ignore_case a b = (ascii_lowercase a = ascii_lowercase b)"

definition hex_digit :: "char \<Rightarrow> nat option" where
  "hex_digit c =
     (if ascii_digit c then Some (byte c - 48)
      else if 97 \<le> byte c \<and> byte c \<le> 102 then Some (byte c - 87)
      else if 65 \<le> byte c \<and> byte c \<le> 70 then Some (byte c - 55)
      else None)"

fun percent_decode :: "string \<Rightarrow> string option" where
  "percent_decode [] = Some []"
| "percent_decode (c # s) =
     (if c = CHR ''%'' then
        (case s of
           hi # lo # rest \<Rightarrow>
             (case (hex_digit hi, hex_digit lo) of
                (Some a, Some b) \<Rightarrow>
                  map_option (\<lambda>r. char_of (a * 16 + b) # r) (percent_decode rest)
              | _ \<Rightarrow> None)
         | _ \<Rightarrow> None)
      else map_option (\<lambda>r. c # r) (percent_decode s))"

definition decode_segment :: "string \<Rightarrow> string github_result" where
  "decode_segment raw =
     (case percent_decode raw of
        None \<Rightarrow> Err ''invalid_github_url''
      | Some decoded \<Rightarrow>
          if \<not> valid_utf8 decoded \<or> has_control decoded \<or> backslash \<in> set decoded
          then Err ''invalid_github_url'' else Ok decoded)"

definition dot_segment :: "string \<Rightarrow> bool" where
  "dot_segment s = (s = [] \<or> s = ''.'' \<or> s = ''..'')"

definition valid_tag :: "string \<Rightarrow> bool" where
  "valid_tag tag =
     (tag \<noteq> [] \<and> length tag \<le> 256 \<and> \<not> has_control tag
      \<and> backslash \<notin> set tag \<and> CHR ''?'' \<notin> set tag \<and> CHR ''#'' \<notin> set tag
      \<and> list_all (\<lambda>s. \<not> dot_segment s) (split_on slash tag))"

definition valid_asset_name :: "string \<Rightarrow> bool" where
  "valid_asset_name name =
     (name \<noteq> [] \<and> length name \<le> 255 \<and> ends_with ''.zip'' (ascii_lowercase name)
      \<and> \<not> has_control name
      \<and> slash \<notin> set name \<and> backslash \<notin> set name \<and> CHR '':'' \<notin> set name)"

definition valid_owner :: "string \<Rightarrow> bool" where
  "valid_owner owner =
     (length owner \<le> 39 \<and> list_all (\<lambda>b. ascii_alnum b \<or> b = CHR ''-'') owner
      \<and> \<not> starts_with ''-'' owner \<and> \<not> ends_with ''-'' owner)"

definition valid_repository_name :: "string \<Rightarrow> bool" where
  "valid_repository_name name =
     (length name \<le> 100
      \<and> list_all (\<lambda>b. ascii_alnum b \<or> b = CHR ''.'' \<or> b = CHR ''_'' \<or> b = CHR ''-'') name
      \<and> \<not> ends_with ''.'' name \<and> \<not> ends_with ''.git'' name)"

text \<open>The path after the repository: a release, a tag, or an asset of one of them.\<close>

definition release_path :: "string list \<Rightarrow> (string option \<times> string option \<times> bool) option" where
  "release_path rest =
     (if rest = [] \<or> rest = [''releases''] then Some (None, None, False)
      else if rest = [''releases'', ''latest''] then Some (None, None, True)
      else if length rest = 3 \<and> rest ! 0 = ''releases'' \<and> rest ! 1 = ''tag'' \<and> valid_tag (rest ! 2)
      then Some (Some (rest ! 2), None, False)
      else if length rest = 4 \<and> rest ! 0 = ''releases'' \<and> rest ! 1 = ''download''
        \<and> valid_tag (rest ! 2) \<and> valid_asset_name (rest ! 3)
      then Some (Some (rest ! 2), Some (rest ! 3), False)
      else if length rest = 4 \<and> rest ! 0 = ''releases'' \<and> rest ! 1 = ''latest''
        \<and> rest ! 2 = ''download'' \<and> valid_asset_name (rest ! 3)
      then Some (None, Some (rest ! 3), True)
      else None)"

definition link_of_parts :: "string list \<Rightarrow> github_link github_result" where
  "link_of_parts parts =
     (if length parts < 2 \<or> list_ex dot_segment parts then Err ''invalid_github_url''
      else let owner = parts ! 0; name = parts ! 1
      in if \<not> valid_owner owner \<or> \<not> valid_repository_name name then Err ''invalid_github_url''
      else let owner = ascii_lowercase owner; name = ascii_lowercase name
      in case release_path (drop 2 parts) of
           None \<Rightarrow> Err ''invalid_github_url''
         | Some (tag, asset, latest) \<Rightarrow>
             Ok \<lparr>gl_repository = \<lparr>gr_owner = owner, gr_name = name,
                    gr_url = ''https://github.com/'' @ owner @ [slash] @ name\<rparr>,
                 gl_tag = tag, gl_asset_name = asset, gl_latest = latest\<rparr>)"

definition trim_end_slashes :: "string \<Rightarrow> string" where
  "trim_end_slashes s = rev (dropWhile (\<lambda>c. c = slash) (rev s))"

fun split_once :: "char \<Rightarrow> string \<Rightarrow> (string \<times> string) option" where
  "split_once d [] = None"
| "split_once d (c # s) =
     (if c = d then Some ([], s) else map_option (\<lambda>(a, b). (c # a, b)) (split_once d s))"

definition link_parse :: "string \<Rightarrow> github_link github_result" where
  "link_parse input =
     (if 2048 < length input
        \<or> list_ex (\<lambda>b. byte b < 32 \<or> byte b = 127 \<or> b = backslash) input
        \<or> \<not> starts_with ''https://'' input
      then Err ''invalid_github_url''
      else case split_once slash (drop 8 input) of
        None \<Rightarrow> Err ''invalid_github_url''
      | Some (authority, raw_path) \<Rightarrow>
          if \<not> eq_ignore_case authority ''github.com'' \<or> CHR ''?'' \<in> set raw_path
            \<or> CHR ''#'' \<in> set raw_path
          then Err ''invalid_github_url''
          else and_then (collect_ok decode_segment (split_on slash (trim_end_slashes raw_path)))
                 link_of_parts)"

definition repository_parse :: "string \<Rightarrow> github_repository github_result" where
  "repository_parse input =
     and_then (link_parse input) (\<lambda>link.
       if gl_tag link \<noteq> None \<or> gl_asset_name link \<noteq> None \<or> gl_latest link
       then Err ''invalid_github_url'' else Ok (gl_repository link))"

definition repository_validate :: "github_repository \<Rightarrow> unit github_result" where
  "repository_validate r =
     and_then (repository_parse (gr_url r)) (\<lambda>r'.
       if r' \<noteq> r then Err ''invalid_github_repository'' else Ok ())"

section \<open>Receipts\<close>

definition valid_sha256 :: "string \<Rightarrow> bool" where
  "valid_sha256 s =
     (length s = 64 \<and> list_all (\<lambda>b. ascii_digit b \<or> 97 \<le> byte b \<and> byte b \<le> 102) s)"

definition validate_source :: "github_source \<Rightarrow> unit github_result" where
  "validate_source s =
     and_then (repository_parse (gs_repository_url s)) (\<lambda>repo.
     and_then (link_parse (gs_asset_url s)) (\<lambda>asset.
     if gr_owner repo \<noteq> gs_owner s \<or> gr_name repo \<noteq> gs_repository s
       \<or> gl_repository asset \<noteq> repo
       \<or> gl_tag asset \<noteq> Some (gs_tag s)
       \<or> gl_asset_name asset \<noteq> Some (gs_asset_name s)
       \<or> gs_release_id s = 0 \<or> gs_asset_id s = 0 \<or> gs_asset_size s = 0
       \<or> MAX_ARCHIVE_BYTES < gs_asset_size s
       \<or> (gs_repository_id s \<noteq> None) \<noteq> (gs_owner_id s \<noteq> None)
       \<or> gs_repository_id s = Some 0 \<or> gs_owner_id s = Some 0
       \<or> (case gs_release_published_at s of
            None \<Rightarrow> False | Some v \<Rightarrow> 64 < length v \<or> has_control v)
     then Err ''github_package_unowned'' else Ok ()))"

end
