(* ===== verification/Managed_Packages.thy ===== *)
theory Managed_Packages
  imports Github_Links
begin

text \<open>
  Plugin packages on disk below the managed root (\<open>src/src/github_distribution.rs\<close>, from
  \<open>inspect_prepared_package\<close> to \<open>remove_prepared_package\<close>), with the operating system's answers
  threaded through: each operation that touches the disk takes the next one, and the program
  can end at each of them.

  The directories are a map from the components of their absolute paths to what the checks of
  the program see there. The managed root, its staging directory and the transaction directory
  are plain directories that no other program redirects; a failure to create or resolve them is
  one of the answers.
\<close>

section \<open>Locations\<close>

text \<open>The order of \<open>std::path::Component\<close>.\<close>

fun component_rank :: "path_component \<Rightarrow> nat \<times> string" where
  "component_rank RootDir = (0, [])"
| "component_rank CurDir = (1, [])"
| "component_rank ParentDir = (2, [])"
| "component_rank (Normal s) = (3, s)"

lemma component_rank_inject [simp]: "component_rank a = component_rank b \<longleftrightarrow> a = b"
  by (cases a; cases b) auto

instantiation path_component :: linorder
begin
definition less_eq_path_component :: "path_component \<Rightarrow> path_component \<Rightarrow> bool" where
  "less_eq_path_component a b = (component_rank a \<le> component_rank b)"
definition less_path_component :: "path_component \<Rightarrow> path_component \<Rightarrow> bool" where
  "less_path_component a b = (component_rank a < component_rank b)"
instance
  by standard (auto simp: less_eq_path_component_def less_path_component_def dest: antisym)
end

type_synonym location = "path_component list"

section \<open>Packages\<close>

text \<open>
  What the readers give for the files of a package: \<open>tree_digest\<close>, the manifest of
  \<open>inspect_local_plugin\<close>, and \<open>read_metadata\<close>.
\<close>

record package_tree =
  pt_digest :: "(string, string) outcome"
  pt_manifest :: "(string, plugin_manifest) outcome"
  pt_metadata :: "(string, package_metadata option) outcome"
  pt_files :: string

record receipt =
  rc_schema :: u32
  rc_path :: "string option"
  rc_source :: github_source
  rc_tree :: string

record package_dir =
  pg_tree :: package_tree
  pg_receipt :: "receipt option"

text \<open>
  \<open>Fragment\<close> is a directory without the files its receipt names: one being filled, or one
  whose removal was interrupted. \<open>Foreign\<close> is a link, a redirect or a file.
\<close>

datatype dir_entry = Package package_dir | Fragment | Foreign

record prepared_package =
  pp_path :: string
  pp_source :: github_source
  pp_manifest :: plugin_manifest
  pp_metadata :: "package_metadata option"

section \<open>The disk and the answers of the operating system\<close>

text \<open>
  The journal of an installation and the record of a staged registration
  (\<open>src/src/managed_storage.rs\<close>).
\<close>

record journal =
  jn_schema :: u32
  jn_id :: string
  jn_target :: string
  jn_staged :: string
  jn_ready :: string
  jn_backup :: "string option"
  jn_source :: github_source
  jn_previous_registration :: "local_registration option"
  jn_previous_managed :: "managed_record option"
  jn_previous_enabled :: bool
  jn_allowed :: "string list"
  jn_committed :: bool

record checkpoint =
  cp_schema :: u32
  cp_id :: string
  cp_candidate :: string
  cp_previous :: string
  cp_registration :: "local_registration option"
  cp_managed :: "managed_record option"
  cp_enabled :: bool

text \<open>\<open>Garbage\<close> is a file that is too long, not a regular file, or not a record.\<close>

datatype 'a stored = Stored 'a | Garbage

text \<open>
  \<open>Refused\<close> is an error that changed nothing. \<open>Torn\<close> is an error in the middle of the removal or
  the copy of a directory, and an error that changed nothing elsewhere. \<open>Crash\<close> ends the program
  before the operation. No answer left means that everything succeeds.
\<close>

datatype answer = Go | Refused string | Torn string | Crash

record install_world =
  iw_document :: registry_document
  iw_dirs :: "(location, dir_entry) btree"
  iw_journals :: "(string, journal stored) btree"
  iw_pending :: "(string, checkpoint stored) btree"
  iw_sequence :: nat

datatype storage_problem =
    OsError string
  | PackageProblem string
  | RegistryProblem plugin_registry_error
  | ManagedProblem string
  | Interrupted | InterruptedRegistration | TooLong | LaterChange | BadCheckpoint | BadIdentity
  | InvalidId | SelectionMissing | OwnedByOther | ConcurrentChange | PreviousMissing
  | PreviousChanged | ContentChanged | OtherPlugin | BadJournal | BadJournalPaths
  | RecoveryFailed storage_problem storage_problem

text \<open>\<open>Stops\<close>: the program ended there, by a crash or a panic.\<close>

datatype 'a step = Val 'a | Fails storage_problem | Stops

type_synonym 'a io = "answer list \<Rightarrow> install_world \<Rightarrow> 'a step \<times> answer list \<times> install_world"

definition ret :: "'a \<Rightarrow> 'a io" where
  "ret x = (\<lambda>as w. (Val x, as, w))"

definition fails :: "storage_problem \<Rightarrow> 'a io" where
  "fails e = (\<lambda>as w. (Fails e, as, w))"

definition panics :: "'a io" where
  "panics = (\<lambda>as w. (Stops, as, w))"

text \<open>The question mark operator, and a handler.\<close>

definition io_then :: "'a io \<Rightarrow> ('a \<Rightarrow> 'b io) \<Rightarrow> 'b io" where
  "io_then m f = (\<lambda>as w. case m as w of
     (Val x, as', w') \<Rightarrow> f x as' w'
   | (Fails e, as', w') \<Rightarrow> (Fails e, as', w')
   | (Stops, as', w') \<Rightarrow> (Stops, as', w'))"

definition io_try :: "'a io \<Rightarrow> (storage_problem + 'a) io" where
  "io_try m = (\<lambda>as w. case m as w of
     (Val x, as', w') \<Rightarrow> (Val (Inr x), as', w')
   | (Fails e, as', w') \<Rightarrow> (Val (Inl e), as', w')
   | (Stops, as', w') \<Rightarrow> (Stops, as', w'))"

definition io_catch :: "'a io \<Rightarrow> (storage_problem \<Rightarrow> 'a io) \<Rightarrow> 'a io" where
  "io_catch m h = io_then (io_try m) (\<lambda>r. case r of Inl e \<Rightarrow> h e | Inr x \<Rightarrow> ret x)"

definition check_that :: "bool \<Rightarrow> storage_problem \<Rightarrow> unit io" where
  "check_that b e = (if b then ret () else fails e)"

definition gets :: "(install_world \<Rightarrow> 'a) \<Rightarrow> 'a io" where
  "gets f = (\<lambda>as w. (Val (f w), as, w))"

definition lift_outcome :: "('e \<Rightarrow> storage_problem) \<Rightarrow> ('e, 'a) outcome \<Rightarrow> 'a io" where
  "lift_outcome g r = (case r of Ok x \<Rightarrow> ret x | Err e \<Rightarrow> fails (g e) | Panic \<Rightarrow> panics)"

text \<open>One call of the operating system, with what it does when it succeeds and when it is torn.\<close>

definition os_call_torn ::
    "(install_world \<Rightarrow> install_world) \<Rightarrow> (install_world \<Rightarrow> install_world) \<Rightarrow> unit io" where
  "os_call_torn f torn = (\<lambda>as w. case as of
     [] \<Rightarrow> (Val (), [], f w)
   | Go # as \<Rightarrow> (Val (), as, f w)
   | Refused e # as \<Rightarrow> (Fails (OsError e), as, w)
   | Torn e # as \<Rightarrow> (Fails (OsError e), as, torn w)
   | Crash # as \<Rightarrow> (Stops, as, w))"

definition os_call :: "(install_world \<Rightarrow> install_world) \<Rightarrow> unit io" where
  "os_call f = os_call_torn f (\<lambda>w. w)"

definition os_read :: "unit io" where
  "os_read = os_call (\<lambda>w. w)"

text \<open>What the model takes as an argument.\<close>

record install_env =
  ie_codec :: codec
  ie_home :: string
  ie_random :: "nat \<Rightarrow> string"
  ie_readdir :: "string list \<Rightarrow> string list"
  ie_registration_digest ::
    "string \<Rightarrow> local_registration option \<Rightarrow> managed_record option \<Rightarrow> bool \<Rightarrow> string"
  ie_version_key :: "string \<Rightarrow> github_source \<Rightarrow> string \<Rightarrow> string"
  ie_package_digest ::
    "string \<Rightarrow> package_tree \<Rightarrow> github_source \<Rightarrow> package_metadata option \<Rightarrow> string"
  ie_journal_length :: "journal \<Rightarrow> nat"
  ie_checkpoint_length :: "checkpoint \<Rightarrow> nat"
  ie_checked_entry :: "plugin_registry \<Rightarrow> string \<Rightarrow> package_tree \<Rightarrow> (string, unit) outcome"
  ie_verified_installer :: "plugin_registry \<Rightarrow> string \<Rightarrow> bool"

section \<open>Operations on packages\<close>

definition managed_root :: "install_env \<Rightarrow> string" where
  "managed_root e = path_join (path_join (ie_home e) ''packages'') ''github''"

definition staging_root :: "install_env \<Rightarrow> string" where
  "staging_root e = path_join (managed_root e) ''.staging''"

definition installed_path :: "install_env \<Rightarrow> string \<Rightarrow> string" where
  "installed_path e i = path_join (managed_root e) i"

definition entry_at :: "string \<Rightarrow> install_world \<Rightarrow> dir_entry option" where
  "entry_at p w = bt_get (iw_dirs w) (path_components p)"

definition put_entry :: "string \<Rightarrow> dir_entry \<Rightarrow> install_world \<Rightarrow> install_world" where
  "put_entry p x w = w\<lparr>iw_dirs := bt_insert (path_components p) x (iw_dirs w)\<rparr>"

definition drop_entry :: "string \<Rightarrow> install_world \<Rightarrow> install_world" where
  "drop_entry p w = w\<lparr>iw_dirs := bt_remove (path_components p) (iw_dirs w)\<rparr>"

definition exists_at :: "string \<Rightarrow> install_world \<Rightarrow> bool" where
  "exists_at p w = bt_has (iw_dirs w) (path_components p)"

definition path_file_name :: "string \<Rightarrow> string" where
  "path_file_name p =
     (case rev (path_components p) of Normal s # _ \<Rightarrow> s | _ \<Rightarrow> [])"

definition receipt_matches :: "string \<Rightarrow> receipt \<Rightarrow> bool" where
  "receipt_matches path r =
     ((rc_schema r = 1 \<or> rc_schema r = 2)
      \<and> (rc_schema r = 1 \<longrightarrow> (case rc_path r of None \<Rightarrow> False | Some q \<Rightarrow> path_eq q path))
      \<and> (rc_schema r = 2 \<longrightarrow> rc_path r = None)
      \<and> valid_sha256 (gs_sha256 (rc_source r)) \<and> valid_sha256 (rc_tree r))"

definition in_staging :: "install_env \<Rightarrow> string \<Rightarrow> bool" where
  "in_staging e path = (path_parent path = Some (path_components (staging_root e)))"

definition inspect_package ::
    "install_env \<Rightarrow> string \<Rightarrow> package_dir \<Rightarrow> prepared_package github_result" where
  "inspect_package e path p =
     (case pg_receipt p of
        None \<Rightarrow> Err ''github_package_unowned''
      | Some r \<Rightarrow>
          if \<not> receipt_matches path r then Err ''github_package_unowned''
          else and_then (validate_source (rc_source r)) (\<lambda>_.
          and_then (pt_digest (pg_tree p)) (\<lambda>digest.
          if digest \<noteq> rc_tree r then Err ''github_package_changed''
          else and_then (map_err (\<lambda>_. ''github_package_invalid'') (pt_manifest (pg_tree p))) (\<lambda>m.
          if \<not> in_staging e path \<and> path_file_name path \<noteq> pm_id m
            \<and> \<not> starts_with (gs_sha256 (rc_source r) @ ''-'') (path_file_name path)
          then Err ''github_package_unowned''
          else and_then (pt_metadata (pg_tree p)) (\<lambda>metadata.
          Ok \<lparr>pp_path = path, pp_source = rc_source r, pp_manifest = m,
              pp_metadata = metadata\<rparr>)))))"

definition inspect_entry ::
    "install_env \<Rightarrow> string \<Rightarrow> dir_entry option \<Rightarrow> prepared_package github_result" where
  "inspect_entry e path x =
     (if \<not> path_is_absolute path
        \<or> (path_parent path \<noteq> Some (path_components (managed_root e)) \<and> \<not> in_staging e path)
      then Err ''github_package_unowned''
      else case x of
        None \<Rightarrow> Err ''github_package_io''
      | Some (Package p) \<Rightarrow> inspect_package e path p
      | Some _ \<Rightarrow> Err ''github_package_unowned'')"

definition inspect_prepared_package :: "install_env \<Rightarrow> string \<Rightarrow> prepared_package io" where
  "inspect_prepared_package e path =
     io_then os_read (\<lambda>_.
     io_then (gets (entry_at path)) (\<lambda>x.
     lift_outcome PackageProblem (inspect_entry e path x)))"

text \<open>A new directory of the staging directory, under a name nobody uses.\<close>

definition fresh_directory :: "install_env \<Rightarrow> string \<Rightarrow> string io" where
  "fresh_directory e prefix =
     io_then (gets (\<lambda>w. path_join (staging_root e) (prefix @ ie_random e (iw_sequence w)))) (\<lambda>path.
     io_then (\<lambda>as w. (Val (), as, w\<lparr>iw_sequence := Suc (iw_sequence w)\<rparr>)) (\<lambda>_.
     io_then (gets (exists_at path)) (\<lambda>taken.
     io_then (check_that (\<not> taken) (OsError ''exists'')) (\<lambda>_.
     io_then (os_call (put_entry path Fragment)) (\<lambda>_.
     ret path)))))"

text \<open>The \<open>Drop\<close> of a temporary directory, when the operation on it fails: it ignores errors.\<close>

definition guarded :: "string \<Rightarrow> 'a io \<Rightarrow> 'a io" where
  "guarded path m =
     io_catch m (\<lambda>e.
       io_then (io_catch (os_call_torn (drop_entry path) (put_entry path Fragment)) (\<lambda>_. ret ()))
         (\<lambda>_. fails e))"

definition package_at :: "string \<Rightarrow> package_dir io" where
  "package_at path =
     io_then (gets (entry_at path)) (\<lambda>x.
     case x of Some (Package p) \<Rightarrow> ret p | _ \<Rightarrow> fails (OsError ''not found''))"

definition receipt_at :: "string \<Rightarrow> receipt io" where
  "receipt_at path =
     io_then os_read (\<lambda>_.
     io_then (package_at path) (\<lambda>p.
     case pg_receipt p of None \<Rightarrow> fails (PackageProblem ''github_package_unowned'') | Some r \<Rightarrow> ret r))"

text \<open>The files go to the new directory first, the receipt last.\<close>

definition copy_into :: "string \<Rightarrow> string \<Rightarrow> unit io" where
  "copy_into source target =
     io_then (package_at source) (\<lambda>p.
     io_then (os_call_torn (put_entry target (Package \<lparr>pg_tree = pg_tree p, pg_receipt = None\<rparr>))
                (put_entry target Fragment)) (\<lambda>_.
     io_then (receipt_at source) (\<lambda>old.
     io_then (lift_outcome PackageProblem (pt_digest (pg_tree p))) (\<lambda>digest.
     io_then (check_that (digest = rc_tree old) (PackageProblem ''github_package_changed'')) (\<lambda>_.
     os_call (put_entry target (Package \<lparr>pg_tree = pg_tree p,
       pg_receipt = Some (old\<lparr>rc_schema := 2, rc_path := None\<rparr>)\<rparr>)))))))"

definition clone_prepared_package :: "install_env \<Rightarrow> string \<Rightarrow> prepared_package io" where
  "clone_prepared_package e source =
     io_then (inspect_prepared_package e source) (\<lambda>prepared.
     io_then (fresh_directory e ''ready-'') (\<lambda>target.
     io_then (guarded target (copy_into source target)) (\<lambda>_.
     io_then (inspect_prepared_package e target) (\<lambda>copied.
     io_then (check_that (pp_source copied = pp_source prepared)
                (PackageProblem ''github_package_changed'')) (\<lambda>_.
     ret copied)))))"

definition upgrade_receipt :: "string \<Rightarrow> receipt \<Rightarrow> unit io" where
  "upgrade_receipt source r =
     (if rc_schema r = 1 then
        io_then (package_at source) (\<lambda>p.
        os_call (put_entry source
          (Package (p\<lparr>pg_receipt := Some (r\<lparr>rc_schema := 2, rc_path := None\<rparr>)\<rparr>))))
      else ret ())"

text \<open>\<open>rename\<close>: the directory is at the other place in one step.\<close>

definition move_entry :: "string \<Rightarrow> string \<Rightarrow> install_world \<Rightarrow> install_world" where
  "move_entry source target w =
     (case entry_at source w of
        None \<Rightarrow> w | Some x \<Rightarrow> put_entry target x (drop_entry source w))"

definition relocate_prepared_package :: "install_env \<Rightarrow> string \<Rightarrow> string \<Rightarrow> unit io" where
  "relocate_prepared_package e source target =
     io_then (inspect_prepared_package e source) (\<lambda>prepared.
     io_then os_read (\<lambda>_.
     io_then (if path_eq target (installed_path e (pm_id (pp_manifest prepared))) then ret True
              else io_then os_read (\<lambda>_. ret (in_staging e target))) (\<lambda>allowed.
     io_then (check_that allowed (PackageProblem ''github_package_unowned'')) (\<lambda>_.
     io_then (gets (exists_at target)) (\<lambda>taken.
     io_then (check_that (\<not> taken) (PackageProblem ''github_install_conflict'')) (\<lambda>_.
     io_then (receipt_at source) (\<lambda>r.
     io_then (upgrade_receipt source r) (\<lambda>_.
     os_call (move_entry source target)))))))))"

definition remove_prepared_package :: "install_env \<Rightarrow> string \<Rightarrow> unit io" where
  "remove_prepared_package e path =
     io_then (inspect_prepared_package e path) (\<lambda>_.
     os_call_torn (drop_entry path) (put_entry path Fragment))"

end
