(* ===== verification/Managed_Storage.thy ===== *)
theory Managed_Storage
  imports Managed_Packages
begin

text \<open>
  Installations of managed plugins (\<open>src/src/managed_storage.rs\<close>, and the staging functions of
  \<open>src/src/managed_plugins.rs\<close> they use): a journal on disk protects the previous package and
  registration until the new one is committed, and \<open>prepare_installations\<close> recovers from a run
  that ended before.

  The registry file is represented by the document in it. \<open>load_registry\<close> and \<open>save_registry\<close>
  are \<open>PluginRegistry::load\<close> and \<open>PluginRegistry::save\<close> on it, with the answers of the operating
  system in place of the calls of the theory of the registry file.
\<close>

section \<open>The registry\<close>

definition load_registry :: "string \<Rightarrow> plugin_registry io" where
  "load_registry path = io_then os_read (\<lambda>_. gets (\<lambda>w. snapshot path (iw_document w)))"

definition write_registry :: "install_env \<Rightarrow> string \<Rightarrow> registry_document \<Rightarrow> plugin_registry io" where
  "write_registry e path d =
     io_then (lift_outcome RegistryProblem (document_validate (ie_codec e) path d)) (\<lambda>_.
     case cx_to (ie_codec e) d of
       Ok bytes \<Rightarrow>
         if MAX_REGISTRY_BYTES < Suc (length bytes) then fails (RegistryProblem (TooLarge path))
         else io_then (os_call (\<lambda>w. w\<lparr>iw_document := d\<rparr>)) (\<lambda>_. ret (snapshot path d))
     | _ \<Rightarrow> panics)"

definition save_registry :: "install_env \<Rightarrow> plugin_registry \<Rightarrow> plugin_registry io" where
  "save_registry e r =
     io_then os_read (\<lambda>_.
     io_then (gets iw_document) (\<lambda>latest.
     case managed_conflict r latest of
       Some x \<Rightarrow> fails (RegistryProblem x)
     | None \<Rightarrow>
         (case local_conflict r latest of
            Some x \<Rightarrow> fails (RegistryProblem x)
          | None \<Rightarrow>
              if something_staged r \<or> rd_schema latest = 1
              then write_registry e (rg_path r) (merge_staged r latest)
              else ret (snapshot (rg_path r) latest))))"

definition registration_digest :: "install_env \<Rightarrow> plugin_registry \<Rightarrow> string \<Rightarrow> string" where
  "registration_digest e r i =
     ie_registration_digest e i (bt_get (rg_local r) i) (bt_get (rg_managed r) i) (is_enabled r i)"

definition enable_in :: "string \<Rightarrow> bool \<Rightarrow> plugin_registry \<Rightarrow> plugin_registry io" where
  "enable_in i b r =
     (case set_enabled i b r of
        (Ok _, r) \<Rightarrow> ret r | (Err x, _) \<Rightarrow> fails (RegistryProblem x) | (Panic, _) \<Rightarrow> panics)"

section \<open>Managed registrations\<close>

definition selected_version :: "plugin_registry \<Rightarrow> string \<Rightarrow> managed_version option" where
  "selected_version r i = Option.bind (bt_get (rg_managed r) i) managed_current"

definition tree_at :: "string \<Rightarrow> package_tree io" where
  "tree_at path = io_then os_read (\<lambda>_. io_then (package_at path) (\<lambda>p. ret (pg_tree p)))"

definition validate_current :: "install_env \<Rightarrow> plugin_registry \<Rightarrow> string \<Rightarrow> unit io" where
  "validate_current e r i =
     (case selected_version r i of
        None \<Rightarrow> ret ()
      | Some v \<Rightarrow>
          io_then (inspect_prepared_package e (mv_package_path v)) (\<lambda>prepared.
          io_then (tree_at (mv_package_path v)) (\<lambda>t.
          io_then (lift_outcome (\<lambda>_. ManagedProblem ''managed_package_invalid'') (pt_manifest t)) (\<lambda>m.
          check_that (mv_source v = pp_source prepared \<and> mv_manifest v = m
              \<and> mv_metadata v = pp_metadata prepared
              \<and> ie_package_digest e (mv_package_path v) t (pp_source prepared) (pp_metadata prepared)
                = mv_content_digest v)
            (ManagedProblem ''managed_version_changed'')))))"

definition register_in ::
    "install_env \<Rightarrow> string \<Rightarrow> local_registration \<Rightarrow> managed_record \<Rightarrow> plugin_registry
     \<Rightarrow> plugin_registry io" where
  "register_in e i l m r =
     (case register_managed (ie_codec e) i l m r of
        (Ok _, r) \<Rightarrow> ret r | (Err x, _) \<Rightarrow> fails (RegistryProblem x) | (Panic, _) \<Rightarrow> panics)"

definition registration_at_path ::
    "install_env \<Rightarrow> plugin_registry \<Rightarrow> string \<Rightarrow> string \<Rightarrow> plugin_registry io" where
  "registration_at_path e r i target =
     (case selected_version r i of
        None \<Rightarrow> fails (ManagedProblem ''managed_version_missing'')
      | Some old \<Rightarrow>
          io_then (inspect_prepared_package e target) (\<lambda>prepared.
          io_then (check_that (pp_source prepared = mv_source old \<and> pp_manifest prepared = mv_manifest old
              \<and> pp_metadata prepared = mv_metadata old)
            (ManagedProblem ''import_content_changed'')) (\<lambda>_.
          io_then (tree_at target) (\<lambda>t.
          io_then (lift_outcome (\<lambda>_. ManagedProblem ''local_plugin_invalid'') (pt_manifest t)) (\<lambda>_.
          case bt_get (rg_local r) i of
            None \<Rightarrow> panics
          | Some l \<Rightarrow>
              let content = ie_package_digest e target t (pp_source prepared) (pp_metadata prepared);
                  key = ie_version_key e target (pp_source prepared) content
              in register_in e i (l\<lparr>lr_path := target\<rparr>)
                   \<lparr>mr_current_version = Some key,
                    mr_history = [\<lparr>mv_version_key = key, mv_package_path = target,
                      mv_content_digest = content, mv_source = pp_source prepared,
                      mv_manifest = pp_manifest prepared, mv_metadata = pp_metadata prepared\<rparr>]\<rparr> r)))))"

definition at_installation_path ::
    "install_env \<Rightarrow> plugin_registry \<Rightarrow> string \<Rightarrow> string \<Rightarrow> plugin_registry io" where
  "at_installation_path e r i target =
     io_then (registration_at_path e r i target) (\<lambda>r'.
     io_then (tree_at target) (\<lambda>t.
     io_then (lift_outcome ManagedProblem (ie_checked_entry e r' i t)) (\<lambda>_.
     ret r')))"

section \<open>Records of staged registrations\<close>

text \<open>The file of a record or a journal is named by its stem.\<close>

definition transaction_lock :: "string \<Rightarrow> unit io" where
  "transaction_lock i =
     io_then (check_that (valid_plugin_id i) InvalidId) (\<lambda>_. io_then os_read (\<lambda>_. os_read))"

definition checkpoint_registration ::
    "install_env \<Rightarrow> plugin_registry \<Rightarrow> plugin_registry \<Rightarrow> string \<Rightarrow> unit io" where
  "checkpoint_registration e candidate previous i =
     io_then (transaction_lock i) (\<lambda>_.
     io_then (gets (\<lambda>w. bt_has (iw_journals w) i)) (\<lambda>journal.
     io_then (check_that (\<not> journal) Interrupted) (\<lambda>_.
     io_then (gets (\<lambda>w. bt_has (iw_pending w) i)) (\<lambda>record.
     io_then (check_that (\<not> record) InterruptedRegistration) (\<lambda>_.
     let c = \<lparr>cp_schema = 1, cp_id = i, cp_candidate = registration_digest e candidate i,
              cp_previous = registration_digest e previous i,
              cp_registration = bt_get (rg_local previous) i,
              cp_managed = bt_get (rg_managed previous) i, cp_enabled = is_enabled previous i\<rparr>
     in io_then os_read (\<lambda>_.
     io_then (check_that (ie_checkpoint_length e c \<le> MAX_REGISTRY_BYTES) TooLong) (\<lambda>_.
     os_call (\<lambda>w. w\<lparr>iw_pending := bt_insert i (Stored c) (iw_pending w)\<rparr>))))))))"

definition read_checkpoint :: "string \<Rightarrow> checkpoint io" where
  "read_checkpoint stem =
     io_then os_read (\<lambda>_.
     io_then (gets (\<lambda>w. bt_get (iw_pending w) stem)) (\<lambda>x.
     case x of
       None \<Rightarrow> fails (OsError ''not found'')
     | Some Garbage \<Rightarrow> fails BadCheckpoint
     | Some (Stored c) \<Rightarrow>
         if cp_schema c \<noteq> 1 \<or> \<not> valid_plugin_id (cp_id c) \<or> stem \<noteq> cp_id c
         then fails BadIdentity else ret c))"

definition remove_pending :: "string \<Rightarrow> unit io" where
  "remove_pending stem = os_call (\<lambda>w. w\<lparr>iw_pending := bt_remove stem (iw_pending w)\<rparr>)"

definition clear_registration_checkpoint ::
    "install_env \<Rightarrow> plugin_registry \<Rightarrow> string \<Rightarrow> unit io" where
  "clear_registration_checkpoint e r i =
     io_then os_read (\<lambda>_.
     io_then (gets (\<lambda>w. bt_has (iw_pending w) i)) (\<lambda>there.
     if \<not> there then ret ()
     else io_then (read_checkpoint i) (\<lambda>c.
       let current = registration_digest e r i
       in if cp_id c \<noteq> i \<or> (current \<noteq> cp_candidate c \<and> current \<noteq> cp_previous c)
          then fails LaterChange else remove_pending i)))"

end
