(* ===== verification/Managed_Install.thy ===== *)
theory Managed_Install
  imports Managed_Storage
begin

text \<open>
  The transaction that replaces the files of a managed plugin (\<open>Installation\<close> and
  \<open>prepare_installations\<close> of \<open>src/src/managed_storage.rs\<close>).
\<close>

record installation =
  in_registry_path :: string
  in_stem :: string
  in_journal :: journal

section \<open>Helpers of a transaction\<close>

definition journal_save :: "install_env \<Rightarrow> installation \<Rightarrow> unit io" where
  "journal_save e n =
     io_then os_read (\<lambda>_.
     io_then (check_that (ie_journal_length e (in_journal n) \<le> MAX_REGISTRY_BYTES) TooLong) (\<lambda>_.
     os_call (\<lambda>w. w\<lparr>iw_journals := bt_insert (in_stem n) (Stored (in_journal n)) (iw_journals w)\<rparr>)))"

definition journal_remove :: "installation \<Rightarrow> unit io" where
  "journal_remove n =
     io_then (gets (\<lambda>w. bt_has (iw_journals w) (in_stem n))) (\<lambda>there.
     io_then (check_that there (OsError ''not found'')) (\<lambda>_.
     os_call (\<lambda>w. w\<lparr>iw_journals := bt_remove (in_stem n) (iw_journals w)\<rparr>)))"

definition check_registration :: "install_env \<Rightarrow> installation \<Rightarrow> plugin_registry io" where
  "check_registration e n =
     io_then (load_registry (in_registry_path n)) (\<lambda>r.
     io_then (check_that
       (registration_digest e r (jn_id (in_journal n)) \<in> set (jn_allowed (in_journal n)))
       ConcurrentChange) (\<lambda>_.
     ret r))"

definition check_previous :: "install_env \<Rightarrow> installation \<Rightarrow> string \<Rightarrow> unit io" where
  "check_previous e n path =
     (let j = in_journal n in
      case jn_previous_managed j of
        None \<Rightarrow>
          (case jn_previous_registration j of
             None \<Rightarrow> fails PreviousMissing
           | Some prior \<Rightarrow>
               io_then (check_that (path_eq (lr_path prior) path) PreviousChanged) (\<lambda>_.
               io_then (load_registry (in_registry_path n)) (\<lambda>view.
               check_that (ie_verified_installer e
                 (restore_managed (jn_id j) (Some prior) None view) (jn_id j)) PreviousChanged)))
      | Some m \<Rightarrow>
          (case managed_current m of
             None \<Rightarrow> fails PreviousMissing
           | Some old \<Rightarrow>
               io_then (inspect_prepared_package e path) (\<lambda>p.
               check_that (pp_source p = mv_source old \<and> pp_manifest p = mv_manifest old)
                 PreviousChanged)))"

text \<open>The ordered set of the paths.\<close>

definition path_set :: "string list \<Rightarrow> string list" where
  "path_set ps =
     bt_values (fold (\<lambda>p m. if bt_has m (path_components p) then m
                            else bt_insert (path_components p) p m) ps bt_empty)"

definition overlaps_registered :: "plugin_registry \<Rightarrow> string \<Rightarrow> bool" where
  "overlaps_registered r path =
     bt_any (\<lambda>_ l. path_starts_with (lr_path l) path \<or> path_starts_with path (lr_path l)) (rg_local r)"

fun clean_each :: "install_env \<Rightarrow> journal \<Rightarrow> plugin_registry \<Rightarrow> string list \<Rightarrow> unit io" where
  "clean_each e j r [] = ret ()"
| "clean_each e j r (p # ps) =
     io_then (gets (exists_at p)) (\<lambda>there.
     if path_eq p (jn_target j) \<or> \<not> there \<or> overlaps_registered r p then clean_each e j r ps
     else io_then (inspect_prepared_package e p) (\<lambda>package.
       io_then (check_that (pm_id (pp_manifest package) = jn_id j) OtherPlugin) (\<lambda>_.
       io_then (remove_prepared_package e p) (\<lambda>_.
       clean_each e j r ps))))"

definition clean_paths :: "install_env \<Rightarrow> installation \<Rightarrow> string list \<Rightarrow> unit io" where
  "clean_paths e n ps =
     io_then (load_registry (in_registry_path n)) (\<lambda>r. clean_each e (in_journal n) r (path_set ps))"

definition obsolete_paths :: "journal \<Rightarrow> string list" where
  "obsolete_paths j =
     [jn_staged j, jn_ready j]
     @ (case jn_backup j of None \<Rightarrow> [] | Some b \<Rightarrow> [b])
     @ (case jn_previous_managed j of None \<Rightarrow> [] | Some m \<Rightarrow> map mv_package_path (mr_history m))"

text \<open>
  The last step removes the directory of the installer that was taken over, which is outside
  the managed root: here it is a call that may fail.
\<close>

definition clean_obsolete :: "install_env \<Rightarrow> installation \<Rightarrow> unit io" where
  "clean_obsolete e n =
     io_then (clean_paths e n (obsolete_paths (in_journal n))) (\<lambda>_.
     if jn_previous_managed (in_journal n) = None \<and> jn_previous_registration (in_journal n) \<noteq> None
     then io_then (load_registry (in_registry_path n)) (\<lambda>_. os_read)
     else ret ())"

section \<open>Rollback and commit\<close>

text \<open>What is at the target is removed when the previous package is elsewhere.\<close>

definition discard_target :: "install_env \<Rightarrow> installation \<Rightarrow> bool \<Rightarrow> unit io" where
  "discard_target e n have_backup =
     (let j = in_journal n in
      io_then (gets (exists_at (jn_target j))) (\<lambda>there.
      if there \<and> (have_backup \<or> (case jn_previous_registration j of
           None \<Rightarrow> True | Some l \<Rightarrow> \<not> path_eq (lr_path l) (jn_target j)))
      then io_then (inspect_prepared_package e (jn_target j)) (\<lambda>p.
        io_then (check_that (pp_source p = jn_source j \<and> pm_id (pp_manifest p) = jn_id j)
          ContentChanged) (\<lambda>_.
        remove_prepared_package e (jn_target j)))
      else ret ()))"

definition restore_registration :: "install_env \<Rightarrow> journal \<Rightarrow> plugin_registry \<Rightarrow> plugin_registry io" where
  "restore_registration e j r =
     io_then (enable_in (jn_id j) (jn_previous_enabled j)
       (restore_managed (jn_id j) (jn_previous_registration j) (jn_previous_managed j) r))
       (save_registry e)"

definition rollback :: "install_env \<Rightarrow> installation \<Rightarrow> plugin_registry io" where
  "rollback e n =
     (let j = in_journal n in
      io_then (check_registration e n) (\<lambda>registry.
      io_then (gets (\<lambda>w. case jn_backup j of None \<Rightarrow> None
                       | Some b \<Rightarrow> if exists_at b w then Some b else None)) (\<lambda>backup.
      io_then (case backup of
                 Some b \<Rightarrow> check_previous e n b
               | None \<Rightarrow> (case jn_previous_registration j of
                            None \<Rightarrow> ret () | Some l \<Rightarrow> check_previous e n (lr_path l))) (\<lambda>_.
      io_then (discard_target e n (backup \<noteq> None)) (\<lambda>_.
      io_then (case backup of
                 None \<Rightarrow> ret () | Some b \<Rightarrow> relocate_prepared_package e b (jn_target j)) (\<lambda>_.
      io_then (restore_registration e j registry) (\<lambda>restored.
      io_then (clean_paths e n [jn_ready j, jn_staged j]) (\<lambda>_.
      io_then (journal_remove n) (\<lambda>_.
      ret restored)))))))))"

definition commit :: "install_env \<Rightarrow> installation \<Rightarrow> unit io" where
  "commit e n =
     io_then (check_registration e n) (\<lambda>_.
     let n = n\<lparr>in_journal := (in_journal n)\<lparr>jn_committed := True\<rparr>\<rparr>
     in io_then (journal_save e n) (\<lambda>_.
     io_then (clean_obsolete e n) (\<lambda>_.
     journal_remove n)))"

section \<open>Publication\<close>

definition recovering :: "install_env \<Rightarrow> installation \<Rightarrow> 'a io \<Rightarrow> 'a io" where
  "recovering e n m =
     io_catch m (\<lambda>x.
       io_then (io_try (rollback e n)) (\<lambda>r.
       case r of Inl y \<Rightarrow> fails (RecoveryFailed x y) | Inr _ \<Rightarrow> fails x))"

definition backup_path :: "install_env \<Rightarrow> string \<Rightarrow> string option io" where
  "backup_path e target =
     io_then (gets (exists_at target)) (\<lambda>there.
     if there then
       io_then os_read (\<lambda>_.
       io_then (fresh_directory e ''backup-'') (\<lambda>b.
       io_then (os_call (drop_entry b)) (\<lambda>_.
       ret (Some b))))
     else ret None)"

definition owned_by_other :: "plugin_registry \<Rightarrow> string \<Rightarrow> string \<Rightarrow> bool" where
  "owned_by_other previous i target =
     (case bt_get (rg_local previous) i of None \<Rightarrow> True | Some l \<Rightarrow> \<not> path_eq (lr_path l) target)"

text \<open>Up to the first journal on disk, and the registration record cleared.\<close>

definition open_installation ::
    "install_env \<Rightarrow> plugin_registry \<Rightarrow> plugin_registry \<Rightarrow> string \<Rightarrow> installation io" where
  "open_installation e candidate previous i =
     io_then (transaction_lock i) (\<lambda>_.
     io_then (gets (\<lambda>w. bt_has (iw_journals w) i)) (\<lambda>there.
     io_then (check_that (\<not> there) Interrupted) (\<lambda>_.
     case selected_version candidate i of
       None \<Rightarrow> fails SelectionMissing
     | Some staged \<Rightarrow>
         io_then (inspect_prepared_package e (mv_package_path staged)) (\<lambda>checked.
         io_then os_read (\<lambda>_.
         let target = installed_path e i in
         io_then (gets (exists_at target)) (\<lambda>there.
         io_then (check_that (\<not> (there \<and> owned_by_other previous i target)) OwnedByOther) (\<lambda>_.
         io_then (if there then validate_current e previous i else ret ()) (\<lambda>_.
         io_then (clone_prepared_package e (mv_package_path staged)) (\<lambda>ready.
         io_then (backup_path e target) (\<lambda>backup.
         let n = \<lparr>in_registry_path = rg_path candidate, in_stem = i,
           in_journal = \<lparr>jn_schema = 1, jn_id = i, jn_target = target,
             jn_staged = mv_package_path staged, jn_ready = pp_path ready, jn_backup = backup,
             jn_source = pp_source checked,
             jn_previous_registration = bt_get (rg_local previous) i,
             jn_previous_managed = bt_get (rg_managed previous) i,
             jn_previous_enabled = is_enabled previous i,
             jn_allowed = [registration_digest e candidate i, registration_digest e previous i],
             jn_committed = False\<rparr>\<rparr>
         in io_then (journal_save e n) (\<lambda>_.
            io_then (clear_registration_checkpoint e candidate i) (\<lambda>_.
            ret n))))))))))))"

definition swap_packages ::
    "install_env \<Rightarrow> plugin_registry \<Rightarrow> installation \<Rightarrow> bool \<Rightarrow> plugin_registry io" where
  "swap_packages e candidate n load_entry =
     (let j = in_journal n in
      io_then (case jn_backup j of
                 None \<Rightarrow> ret () | Some b \<Rightarrow> relocate_prepared_package e (jn_target j) b) (\<lambda>_.
      io_then (relocate_prepared_package e (jn_ready j) (jn_target j)) (\<lambda>_.
      if load_entry then at_installation_path e candidate (jn_id j) (jn_target j)
      else registration_at_path e candidate (jn_id j) (jn_target j))))"

definition allow :: "installation \<Rightarrow> string list \<Rightarrow> installation" where
  "allow n ds = n\<lparr>in_journal := (in_journal n)\<lparr>jn_allowed := jn_allowed (in_journal n) @ ds\<rparr>\<rparr>"

definition store_selection ::
    "install_env \<Rightarrow> installation \<Rightarrow> plugin_registry \<Rightarrow> plugin_registry io" where
  "store_selection e n next =
     io_then (journal_save e n) (\<lambda>_. save_registry e next)"

definition publish_inner ::
    "install_env \<Rightarrow> plugin_registry \<Rightarrow> plugin_registry \<Rightarrow> string \<Rightarrow> bool \<Rightarrow> bool
     \<Rightarrow> (installation \<times> plugin_registry) io" where
  "publish_inner e candidate previous i enable_after load_entry =
     io_then (open_installation e candidate previous i) (\<lambda>n.
     io_then (recovering e n (swap_packages e candidate n load_entry)) (\<lambda>selected.
     let n = allow n [registration_digest e selected i] in
     io_then (if enable_after
              then recovering e n (io_then (enable_in i True selected) (\<lambda>enabled.
                     ret (allow n [registration_digest e enabled i])))
              else ret n) (\<lambda>n.
     io_then (recovering e n (store_selection e n selected)) (\<lambda>selected.
     ret (n, selected)))))"

definition publish ::
    "install_env \<Rightarrow> plugin_registry \<Rightarrow> plugin_registry \<Rightarrow> string \<Rightarrow> bool
     \<Rightarrow> (installation \<times> plugin_registry) io" where
  "publish e candidate previous i enable_after =
     publish_inner e candidate previous i enable_after True"

section \<open>Recovery at start\<close>

definition journal_valid :: "install_env \<Rightarrow> journal \<Rightarrow> bool" where
  "journal_valid e j =
     (jn_schema j = 1 \<and> valid_plugin_id (jn_id j)
      \<and> path_eq (jn_target j) (installed_path e (jn_id j))
      \<and> in_staging e (jn_ready j)
      \<and> (case jn_backup j of None \<Rightarrow> True | Some b \<Rightarrow> in_staging e b))"

text \<open>One journal file; the second component of the state are the ids that are put off.\<close>

definition recover_journal ::
    "install_env \<Rightarrow> string \<Rightarrow> string \<Rightarrow> plugin_registry \<times> string list
     \<Rightarrow> (plugin_registry \<times> string list) io" where
  "recover_journal e path stem s =
     io_then os_read (\<lambda>_.
     io_then (gets (\<lambda>w. bt_get (iw_journals w) stem)) (\<lambda>x.
     case x of
       None \<Rightarrow> fails (OsError ''not found'')
     | Some Garbage \<Rightarrow> fails BadJournal
     | Some (Stored j) \<Rightarrow>
         io_then (check_that (journal_valid e j) BadJournalPaths) (\<lambda>_.
         io_then (transaction_lock (jn_id j)) (\<lambda>_.
         io_then (check_that (jn_id j = stem) BadIdentity) (\<lambda>_.
         let n = \<lparr>in_registry_path = path, in_stem = stem, in_journal = j\<rparr> in
         if jn_committed j then
           io_then (io_try (clean_obsolete e n)) (\<lambda>r.
           case r of
             Inr _ \<Rightarrow> io_then (journal_remove n) (\<lambda>_. ret s)
           | Inl _ \<Rightarrow> ret (fst s, jn_id j # snd s))
         else
           io_then (io_try (rollback e n)) (\<lambda>r.
           case r of
             Inr restored \<Rightarrow> ret (restored, snd s)
           | Inl _ \<Rightarrow> ret (fst s, jn_id j # snd s)))))))"

fun recover_journals ::
    "install_env \<Rightarrow> string \<Rightarrow> string list \<Rightarrow> plugin_registry \<times> string list
     \<Rightarrow> (plugin_registry \<times> string list) io" where
  "recover_journals e path [] s = ret s"
| "recover_journals e path (stem # stems) s =
     io_then (recover_journal e path stem s) (recover_journals e path stems)"

definition recover_pending ::
    "install_env \<Rightarrow> string \<Rightarrow> plugin_registry \<times> string list
     \<Rightarrow> (plugin_registry \<times> string list) io" where
  "recover_pending e stem s =
     io_then (read_checkpoint stem) (\<lambda>c.
     if cp_id c \<in> set (snd s) then ret s
     else
       (let current = registration_digest e (fst s) (cp_id c) in
        if current = cp_candidate c then
          io_then (enable_in (cp_id c) (cp_enabled c)
            (restore_managed (cp_id c) (cp_registration c) (cp_managed c) (fst s))) (\<lambda>r.
          io_then (save_registry e r) (\<lambda>r.
          io_then (remove_pending stem) (\<lambda>_.
          ret (r, snd s))))
        else if current \<noteq> cp_previous c then ret (fst s, cp_id c # snd s)
        else io_then (remove_pending stem) (\<lambda>_. ret s)))"

fun recover_all_pending ::
    "install_env \<Rightarrow> string list \<Rightarrow> plugin_registry \<times> string list
     \<Rightarrow> (plugin_registry \<times> string list) io" where
  "recover_all_pending e [] s = ret s"
| "recover_all_pending e (stem # stems) s =
     io_then (recover_pending e stem s) (recover_all_pending e stems)"

text \<open>Moves a package of the earlier layout to the directory of its id.\<close>

definition migrate_package :: "install_env \<Rightarrow> plugin_registry \<Rightarrow> string \<Rightarrow> string \<Rightarrow> plugin_registry io" where
  "migrate_package e r i from_path =
     io_then (clone_prepared_package e from_path) (\<lambda>copied.
     io_then (registration_at_path e r i (pp_path copied)) (\<lambda>staged.
     io_then (publish_inner e staged r i (is_enabled r i) False) (\<lambda>(n, selected).
     io_then (io_try (commit e n)) (\<lambda>_.
     ret selected))))"

definition migrate_one ::
    "install_env \<Rightarrow> string list \<Rightarrow> plugin_registry \<Rightarrow> string \<Rightarrow> plugin_registry io" where
  "migrate_one e deferred r i =
     (if i \<in> set deferred then ret r
      else case bt_get (rg_managed r) i of
        None \<Rightarrow> panics
      | Some m \<Rightarrow>
          (case managed_current m of
             None \<Rightarrow> ret r
           | Some v \<Rightarrow>
               if path_eq (mv_package_path v) (installed_path e i) \<and> length (mr_history m) = 1
               then ret r
               else io_then (io_try (validate_current e r i)) (\<lambda>x.
                 case x of
                   Inl _ \<Rightarrow> ret r
                 | Inr _ \<Rightarrow>
                     io_catch (migrate_package e r i (mv_package_path v))
                       (\<lambda>_. load_registry (rg_path r)))))"

fun migrate_all ::
    "install_env \<Rightarrow> string list \<Rightarrow> string list \<Rightarrow> plugin_registry \<Rightarrow> plugin_registry io" where
  "migrate_all e deferred [] r = ret r"
| "migrate_all e deferred (i # is) r =
     io_then (migrate_one e deferred r i) (migrate_all e deferred is)"

definition prepare_installations :: "install_env \<Rightarrow> plugin_registry \<Rightarrow> plugin_registry io" where
  "prepare_installations e r =
     (let path = rg_path r in
      io_then os_read (\<lambda>_.
      io_then os_read (\<lambda>_.
      io_then (gets (\<lambda>w. ie_readdir e (bt_keys (iw_journals w)))) (\<lambda>stems.
      io_then (recover_journals e path stems (r, [])) (\<lambda>s.
      io_then (load_registry path) (\<lambda>r.
      io_then os_read (\<lambda>_.
      io_then (gets (\<lambda>w. ie_readdir e (bt_keys (iw_pending w)))) (\<lambda>stems.
      io_then (recover_all_pending e stems (r, snd s)) (\<lambda>s.
      io_then (migrate_all e (snd s) (bt_keys (rg_managed (fst s))) (fst s)) (\<lambda>_.
      load_registry path))))))))))"

section \<open>The selection of a staged version\<close>

text \<open>The managed branch of \<open>edit_registration\<close> (\<open>src/src/plugin_cli.rs\<close>), after the staging.\<close>

definition install_selection ::
    "install_env \<Rightarrow> plugin_registry \<Rightarrow> plugin_registry \<Rightarrow> string \<Rightarrow> bool \<Rightarrow> plugin_registry io" where
  "install_selection e staged registry i enable =
     io_then (publish e staged registry i enable) (\<lambda>(n, next).
     io_then (io_try (io_then (enable_in i enable next) (save_registry e))) (\<lambda>x.
     case x of
       Inl y \<Rightarrow> io_then (rollback e n) (\<lambda>_. fails y)
     | Inr next \<Rightarrow> io_then (commit e n) (\<lambda>_. ret next)))"

end
