(* ===== verification/Install_Logic.thy ===== *)
theory Install_Logic
  imports Managed_Install
begin

text \<open>
  A logic for the installation programs: \<open>wp A m Q E S w\<close> says that \<open>m\<close>, started on the disk \<open>w\<close>
  with any answers taken from \<open>A\<close>, returns a value only with \<open>Q\<close>, fails only with \<open>E\<close>, and
  leaves \<open>S\<close> wherever it ends by a crash. With no answers in \<open>A\<close> every call succeeds, so the
  same rules show that a run returns.
\<close>

named_theorems wp_intros "rules of the logic, backwards from the result"

definition wp ::
    "answer set \<Rightarrow> 'a io \<Rightarrow> ('a \<Rightarrow> install_world \<Rightarrow> bool) \<Rightarrow> (storage_problem \<Rightarrow> install_world \<Rightarrow> bool)
     \<Rightarrow> (install_world \<Rightarrow> bool) \<Rightarrow> install_world \<Rightarrow> bool" where
  "wp A m Q E S w \<longleftrightarrow>
     (\<forall>as x as' w'. set as \<subseteq> A \<longrightarrow> m as w = (x, as', w') \<longrightarrow>
        set as' \<subseteq> A
        \<and> (case x of Val v \<Rightarrow> Q v w' | Fails e \<Rightarrow> E e w' | Stops \<Rightarrow> S w'))"

lemma wpD:
  assumes "wp A m Q E S w" "set as \<subseteq> A" "m as w = (x, as', w')"
  shows "set as' \<subseteq> A" "x = Val v \<Longrightarrow> Q v w'" "x = Fails e \<Longrightarrow> E e w'" "x = Stops \<Longrightarrow> S w'"
  using assms unfolding wp_def by fastforce+

lemma wp_mono:
  assumes "wp A m Q E S w" "\<And>x w. Q x w \<Longrightarrow> Q' x w" "\<And>e w. E e w \<Longrightarrow> E' e w" "\<And>w. S w \<Longrightarrow> S' w"
  shows "wp A m Q' E' S' w"
  unfolding wp_def
proof (intro allI impI)
  fix as x as' w'
  assume "set as \<subseteq> A" "m as w = (x, as', w')"
  from wpD [OF assms(1) this] show "set as' \<subseteq> A
      \<and> (case x of Val v \<Rightarrow> Q' v w' | Fails e \<Rightarrow> E' e w' | Stops \<Rightarrow> S' w')"
    using assms(2-4) by (cases x) auto
qed

lemma wp_ret [wp_intros]: "Q x w \<Longrightarrow> wp A (ret x) Q E S w"
  by (simp add: wp_def ret_def)

lemma wp_fails [wp_intros]: "E e w \<Longrightarrow> wp A (fails e) Q E S w"
  by (simp add: wp_def fails_def)

lemma wp_panics [wp_intros]: "S w \<Longrightarrow> wp A panics Q E S w"
  by (simp add: wp_def panics_def)

lemma wp_gets [wp_intros]: "Q (f w) w \<Longrightarrow> wp A (gets f) Q E S w"
  by (simp add: wp_def gets_def)

lemma wp_then [wp_intros]:
  assumes "wp A m (\<lambda>x. wp A (f x) Q E S) E S w"
  shows "wp A (io_then m f) Q E S w"
  unfolding wp_def
proof (intro allI impI)
  fix as x as' w'
  assume as: "set as \<subseteq> A" and run: "io_then m f as w = (x, as', w')"
  obtain y as1 w1 where m: "m as w = (y, as1, w1)" by (metis prod_cases3)
  note d = wpD [OF assms as m]
  show "set as' \<subseteq> A \<and> (case x of Val v \<Rightarrow> Q v w' | Fails e \<Rightarrow> E e w' | Stops \<Rightarrow> S w')"
  proof (cases y)
    case (Val v)
    with d(2) have "wp A (f v) Q E S w1" by simp
    moreover have "f v as1 w1 = (x, as', w')" using run m Val by (simp add: io_then_def)
    ultimately show ?thesis using d(1) unfolding wp_def by blast
  qed (use run m d in \<open>auto simp: io_then_def\<close>)
qed

lemma wp_try [wp_intros]:
  assumes "wp A m (\<lambda>x. Q (Inr x)) (\<lambda>e. Q (Inl e)) S w"
  shows "wp A (io_try m) Q E S w"
  unfolding wp_def
proof (intro allI impI)
  fix as x as' w'
  assume as: "set as \<subseteq> A" and run: "io_try m as w = (x, as', w')"
  obtain y as1 w1 where m: "m as w = (y, as1, w1)" by (metis prod_cases3)
  note d = wpD [OF assms as m]
  show "set as' \<subseteq> A \<and> (case x of Val v \<Rightarrow> Q v w' | Fails e \<Rightarrow> E e w' | Stops \<Rightarrow> S w')"
    by (cases y) (use run m d in \<open>auto simp: io_try_def\<close>)
qed

lemma wp_catch [wp_intros]:
  assumes "wp A m Q (\<lambda>e. wp A (h e) Q E S) S w"
  shows "wp A (io_catch m h) Q E S w"
  unfolding io_catch_def
  by (intro wp_then wp_try) (rule wp_mono [OF assms], auto intro: wp_ret)

lemma wp_check [wp_intros]:
  "(b \<Longrightarrow> Q () w) \<Longrightarrow> (\<not> b \<Longrightarrow> E e w) \<Longrightarrow> wp A (check_that b e) Q E S w"
  by (simp add: check_that_def wp_ret wp_fails)

lemma wp_outcome [wp_intros]:
  "(\<And>x. r = Ok x \<Longrightarrow> Q x w) \<Longrightarrow> (\<And>e. r = Err e \<Longrightarrow> E (g e) w) \<Longrightarrow> (r = Panic \<Longrightarrow> S w) \<Longrightarrow>
   wp A (lift_outcome g r) Q E S w"
  by (cases r) (simp_all add: lift_outcome_def wp_ret wp_fails wp_panics)

lemma wp_torn [wp_intros]:
  assumes "Q () (f w)" "\<And>s. Refused s \<in> A \<Longrightarrow> E (OsError s) w"
    and "\<And>s. Torn s \<in> A \<Longrightarrow> E (OsError s) (torn w)" "Crash \<in> A \<Longrightarrow> S w"
  shows "wp A (os_call_torn f torn) Q E S w"
  using assms by (auto simp: wp_def os_call_torn_def split: list.splits answer.splits)

lemma wp_call [wp_intros]:
  assumes "Q () (f w)" "\<And>s. Refused s \<in> A \<or> Torn s \<in> A \<Longrightarrow> E (OsError s) w" "Crash \<in> A \<Longrightarrow> S w"
  shows "wp A (os_call f) Q E S w"
  using assms by (auto simp: os_call_def intro: wp_torn)

lemma wp_read [wp_intros]:
  assumes "Q () w" "\<And>s. Refused s \<in> A \<or> Torn s \<in> A \<Longrightarrow> E (OsError s) w" "Crash \<in> A \<Longrightarrow> S w"
  shows "wp A os_read Q E S w"
  using assms by (auto simp: os_read_def intro: wp_call)

lemma wp_if [wp_intros]:
  "(b \<Longrightarrow> wp A m Q E S w) \<Longrightarrow> (\<not> b \<Longrightarrow> wp A m' Q E S w) \<Longrightarrow> wp A (if b then m else m') Q E S w"
  by simp

text \<open>Both postconditions of two runs of the same program.\<close>

lemma wp_conj:
  assumes "wp A m Q E S w" "wp A m Q' E' S' w"
  shows "wp A m (\<lambda>x w. Q x w \<and> Q' x w) (\<lambda>e w. E e w \<and> E' e w) (\<lambda>w. S w \<and> S' w) w"
  unfolding wp_def
proof (intro allI impI)
  fix as x as' w'
  assume "set as \<subseteq> A" "m as w = (x, as', w')"
  note d = wpD [OF assms(1) this] wpD [OF assms(2) this]
  show "set as' \<subseteq> A \<and> (case x of Val v \<Rightarrow> Q v w' \<and> Q' v w' | Fails e \<Rightarrow> E e w' \<and> E' e w' | Stops \<Rightarrow> S w' \<and> S' w')"
    using d by (cases x) auto
qed

end
