(* ===== verification/Install_Packages.thy ===== *)
theory Install_Packages
  imports Install_Logic
begin

text \<open>
  Where the managed directories are, what a package that passes inspection is, and what the
  operations on packages can leave on the disk, whatever the operating system answers.
\<close>

section \<open>Paths below the managed root\<close>

lemma path_components_join:
  assumes "slash \<notin> set n" "n \<noteq> []" "n \<noteq> ''.''"
  shows "path_components (path_join b n) = path_components b @ [segment_component n]"
proof -
  have single: "split_on slash n = [n]" using assms(1) by (rule split_on_single)
  have rel: "\<not> path_is_absolute n"
    using assms(1,2) by (cases n) (auto simp: path_is_absolute_def)
  have ends: "split_on slash b = split_on slash (butlast b) @ [[]]" if "b \<noteq> []" "last b = slash"
    using split_on_append [of slash "butlast b" "[]"] append_butlast_last_id [OF \<open>b \<noteq> []\<close>] \<open>last b = slash\<close> by simp
  have whole: "split_on slash (butlast b @ slash # n) = split_on slash (butlast b) @ [n]"
    by (simp add: split_on_append single)
  show ?thesis
  proof (cases "b = []")
    case True
    then show ?thesis using assms single rel by (simp add: path_join_def path_components_def Let_def)
  next
    case False
    show ?thesis
    proof (cases "last b = slash")
      case True
      have "b @ n = butlast b @ slash # n"
        using False True append_butlast_last_id [of b] by (metis append.assoc append_Cons append_Nil)
      with whole have "split_on slash (b @ n) = split_on slash (butlast b) @ [n]" by (simp only:)
      moreover have "split_on slash b = split_on slash (butlast b) @ [[]]" by (rule ends [OF False True])
      ultimately show ?thesis
        using assms False True rel split_on_nonempty [of slash "butlast b"]
        by (auto simp: path_join_def path_components_def Let_def hd_append)
    next
      case nosep: False
      have "split_on slash (b @ slash # n) = split_on slash b @ [n]"
        by (simp add: split_on_append single)
      then show ?thesis
        using assms False nosep rel split_on_nonempty [of slash b]
        by (simp add: path_join_def path_components_def Let_def hd_append)
    qed
  qed
qed

lemma path_absolute_join: "path_is_absolute b \<Longrightarrow> path_is_absolute (path_join b n)"
  by (auto simp: path_join_def path_is_absolute_def)

lemma path_parent_snoc: "path_components p = c @ [Normal n] \<Longrightarrow> path_parent p = Some c"
  by (simp add: path_parent_def)

lemma path_parent_length: "path_parent p = Some c \<Longrightarrow> length (path_components p) = Suc (length c)"
  by (auto simp: path_parent_def split: list.splits if_splits dest: arg_cong [of _ _ length])

lemma plugin_id_segment:
  assumes "valid_plugin_id i"
  shows "slash \<notin> set i" "i \<noteq> []" "i \<noteq> ''.''" "i \<noteq> ''..''" "segment_component i = Normal i"
proof -
  have "slash \<notin> set s" if "\<forall>w \<in> set (split_on (CHR ''.'') s). \<forall>b \<in> set w. b \<noteq> slash" for s
    using that
  proof (induction s)
    case (Cons c s)
    then show ?case
      using split_on_nonempty [of "CHR ''.''" s]
      by (cases "split_on (CHR ''.'') s") (auto simp: slash_def split: if_splits)
  qed simp
  moreover have "\<not> ascii_lower slash" "\<not> ascii_digit slash" "slash \<noteq> CHR ''-''"
    by (simp_all add: slash_def ascii_lower_def ascii_digit_def byte_def)
  ultimately show "slash \<notin> set i"
    using assms by (fastforce simp: valid_plugin_id_def list_all_iff)
  show "i \<noteq> []" and "i \<noteq> ''.''" and dots: "i \<noteq> ''..''"
    using assms by (auto simp: valid_plugin_id_def)
  then show "segment_component i = Normal i" by (simp add: segment_component_def)
qed

text \<open>What is assumed of the directory of the registry and of the random names.\<close>

definition env_ok :: "install_env \<Rightarrow> bool" where
  "env_ok e \<longleftrightarrow> path_is_absolute (ie_home e) \<and> (\<forall>n. slash \<notin> set (ie_random e n))
     \<and> (\<forall>xs. set (ie_readdir e xs) = set xs \<and> (distinct xs \<longrightarrow> distinct (ie_readdir e xs)))"

lemma root_components:
  "path_components (managed_root e) = path_components (ie_home e) @ [Normal ''packages'', Normal ''github'']"
  by (simp add: managed_root_def path_components_join slash_def segment_component_def)

lemma staging_components:
  "path_components (staging_root e) = path_components (managed_root e) @ [Normal ''.staging'']"
  by (simp add: staging_root_def path_components_join slash_def segment_component_def)

lemma installed_components:
  "valid_plugin_id i \<Longrightarrow>
     path_components (installed_path e i) = path_components (managed_root e) @ [Normal i]"
  using plugin_id_segment [of i] by (simp add: installed_path_def path_components_join)

lemma root_absolute:
  assumes "env_ok e"
  shows "path_is_absolute (managed_root e)" "path_is_absolute (staging_root e)"
    "path_is_absolute (installed_path e i)"
  using assms by (auto simp: env_ok_def managed_root_def staging_root_def installed_path_def
      intro!: path_absolute_join)

lemma installed_parent:
  "valid_plugin_id i \<Longrightarrow> path_parent (installed_path e i) = Some (path_components (managed_root e))"
  by (simp add: path_parent_def installed_components)

lemma installed_file_name: "valid_plugin_id i \<Longrightarrow> path_file_name (installed_path e i) = i"
  by (simp add: path_file_name_def installed_components)

lemma in_staging_eq: "path_eq p q \<Longrightarrow> in_staging e p \<longleftrightarrow> in_staging e q"
  by (simp add: in_staging_def path_parent_def path_eq_def)

lemma in_staging_not_installed:
  assumes "in_staging e p" "valid_plugin_id i"
  shows "\<not> path_eq p (installed_path e i)"
  using assms path_parent_length [of p]
  by (auto simp: in_staging_def path_eq_def staging_components installed_components)

lemma installed_not_in_staging: "valid_plugin_id i \<Longrightarrow> \<not> in_staging e (installed_path e i)"
  using in_staging_not_installed [of e "installed_path e i" i] by auto

lemma fresh_in_staging:
  assumes "env_ok e" "prefix = ''ready-'' \<or> prefix = ''backup-'' \<or> prefix = ''download-''"
  shows "in_staging e (path_join (staging_root e) (prefix @ ie_random e n))"
proof -
  have "slash \<notin> set (prefix @ ie_random e n)"
    using assms by (auto simp: env_ok_def slash_def)
  then have "path_components (path_join (staging_root e) (prefix @ ie_random e n))
      = path_components (staging_root e) @ [segment_component (prefix @ ie_random e n)]"
    using assms(2) by (intro path_components_join) auto
  moreover have "segment_component (prefix @ ie_random e n) = Normal (prefix @ ie_random e n)"
    using assms(2) by (auto simp: segment_component_def)
  ultimately show ?thesis by (simp add: in_staging_def path_parent_snoc)
qed

lemma fresh_absolute:
  "env_ok e \<Longrightarrow> path_is_absolute (path_join (staging_root e) n)"
  by (rule path_absolute_join) (rule root_absolute)

section \<open>Entries\<close>

lemma entry_at_put [simp]: "entry_at p (put_entry q x w) = (if path_eq p q then Some x else entry_at p w)"
  by (auto simp: entry_at_def put_entry_def path_eq_def)

lemma entry_at_drop [simp]: "entry_at p (drop_entry q w) = (if path_eq p q then None else entry_at p w)"
  by (auto simp: entry_at_def drop_entry_def path_eq_def)

lemma exists_at_iff: "exists_at p w \<longleftrightarrow> entry_at p w \<noteq> None"
  by (auto simp: exists_at_def entry_at_def)

lemma entry_at_eq: "path_eq p q \<Longrightarrow> entry_at p w = entry_at q w"
  by (simp add: entry_at_def path_eq_def)

lemma put_entry_fields [simp]:
  "iw_document (put_entry q x w) = iw_document w" "iw_journals (put_entry q x w) = iw_journals w"
  "iw_pending (put_entry q x w) = iw_pending w" "iw_sequence (put_entry q x w) = iw_sequence w"
  by (simp_all add: put_entry_def)

lemma drop_entry_fields [simp]:
  "iw_document (drop_entry q w) = iw_document w" "iw_journals (drop_entry q w) = iw_journals w"
  "iw_pending (drop_entry q w) = iw_pending w" "iw_sequence (drop_entry q w) = iw_sequence w"
  by (simp_all add: drop_entry_def)

lemma entry_at_other_fields [simp]:
  "entry_at p (w\<lparr>iw_document := d\<rparr>) = entry_at p w" "entry_at p (w\<lparr>iw_journals := j\<rparr>) = entry_at p w"
  "entry_at p (w\<lparr>iw_pending := c\<rparr>) = entry_at p w" "entry_at p (w\<lparr>iw_sequence := n\<rparr>) = entry_at p w"
  by (simp_all add: entry_at_def)

section \<open>Inspection\<close>

text \<open>The receipt as a move leaves it: bound to the content and not to a path.\<close>

definition upgraded :: "package_dir \<Rightarrow> package_dir" where
  "upgraded p =
     p\<lparr>pg_receipt := map_option (\<lambda>r. r\<lparr>rc_schema := 2, rc_path := None\<rparr>) (pg_receipt p)\<rparr>"

lemma upgraded_tree [simp]: "pg_tree (upgraded p) = pg_tree p"
  by (simp add: upgraded_def)

lemma upgraded_twice [simp]: "upgraded (upgraded p) = upgraded p"
  by (cases "pg_receipt p") (simp_all add: upgraded_def)

lemma inspect_entry_okE:
  assumes "inspect_entry e path x = Ok d"
  obtains p where "x = Some (Package p)" "inspect_package e path p = Ok d" "path_is_absolute path"
    "path_parent path = Some (path_components (managed_root e)) \<or> in_staging e path"
  using assms by (auto simp: inspect_entry_def split: if_splits option.splits dir_entry.splits)

lemma inspect_package_ok:
  "inspect_package e path p = Ok d \<longleftrightarrow>
     (\<exists>r m md. pg_receipt p = Some r \<and> receipt_matches path r \<and> validate_source (rc_source r) = Ok ()
        \<and> pt_digest (pg_tree p) = Ok (rc_tree r) \<and> pt_manifest (pg_tree p) = Ok m
        \<and> pt_metadata (pg_tree p) = Ok md
        \<and> (in_staging e path \<or> path_file_name path = pm_id m
           \<or> starts_with (gs_sha256 (rc_source r) @ ''-'') (path_file_name path))
        \<and> d = \<lparr>pp_path = path, pp_source = rc_source r, pp_manifest = m, pp_metadata = md\<rparr>)"
  by (cases "pg_receipt p") (auto simp: inspect_package_def and_then_ok map_err_ok split: if_splits)

text \<open>An inspected package passes inspection in staging, and at the path of its own id.\<close>

lemma inspect_upgraded:
  assumes "inspect_package e path p = Ok d"
    and "in_staging e q \<or> path_file_name q = pm_id (pp_manifest d)"
  shows "inspect_package e q (upgraded p) = Ok (d\<lparr>pp_path := q\<rparr>)"
proof -
  from assms(1) obtain r m md where
    r: "pg_receipt p = Some r" "receipt_matches path r" "validate_source (rc_source r) = Ok ()"
      "pt_digest (pg_tree p) = Ok (rc_tree r)" "pt_manifest (pg_tree p) = Ok m" "pt_metadata (pg_tree p) = Ok md"
    and d: "d = \<lparr>pp_path = path, pp_source = rc_source r, pp_manifest = m, pp_metadata = md\<rparr>"
    unfolding inspect_package_ok by blast
  have "receipt_matches q (r\<lparr>rc_schema := 2, rc_path := None\<rparr>)"
    using r(2) by (simp add: receipt_matches_def)
  with r d assms(2) show ?thesis
    unfolding inspect_package_ok
    by (intro exI [of _ "r\<lparr>rc_schema := 2, rc_path := None\<rparr>"] exI [of _ m] exI [of _ md])
      (auto simp: upgraded_def)
qed

lemma inspect_path: "inspect_package e path p = Ok d \<Longrightarrow> pp_path d = path"
  by (auto simp: inspect_package_ok)

lemma inspect_schema:
  assumes "inspect_package e path p = Ok d"
  shows "\<exists>r. pg_receipt p = Some r \<and> (rc_schema r \<noteq> 1 \<longrightarrow> upgraded p = p)"
proof -
  from assms obtain r where "pg_receipt p = Some r" "receipt_matches path r"
    by (auto simp: inspect_package_ok)
  then show ?thesis by (cases p; cases r) (auto simp: receipt_matches_def upgraded_def)
qed

lemma inspect_manifest:
  "inspect_package e path p = Ok d \<Longrightarrow> pt_manifest (pg_tree p) = Ok (pp_manifest d)"
  by (auto simp: inspect_package_ok)

end
