(* ===== verification/Install_Operations.thy ===== *)
theory Install_Operations
  imports Install_Packages
begin

text \<open>
  What each operation on packages can leave, with any answers of the operating system, as rules
  of the logic. A failure and a crash get the same postcondition: recovery has to cope with both.
\<close>

lemma wp_inspect [wp_intros]:
  assumes "\<And>x p. inspect_entry e path (entry_at path w) = Ok x \<Longrightarrow> entry_at path w = Some (Package p) \<Longrightarrow>
      inspect_package e path p = Ok x \<Longrightarrow> Q x w"
    and "\<And>x. E x w" "S w"
  shows "wp A (inspect_prepared_package e path) Q E S w"
  unfolding inspect_prepared_package_def
proof (intro wp_intros assms(2,3))
  fix x assume x: "inspect_entry e path (entry_at path w) = Ok x"
  then obtain p where "entry_at path w = Some (Package p)" "inspect_package e path p = Ok x"
    by (rule inspect_entry_okE)
  with x show "Q x w" by (rule assms(1))
qed

lemma wp_package_at [wp_intros]:
  assumes "\<And>p. entry_at path w = Some (Package p) \<Longrightarrow> Q p w" "\<And>x. E x w"
  shows "wp A (package_at path) Q E S w"
  unfolding package_at_def
  by (intro wp_then wp_gets)
    (use assms in \<open>auto split: option.split dir_entry.split intro!: wp_ret wp_fails\<close>)

lemma wp_receipt_at [wp_intros]:
  assumes "\<And>p r. entry_at path w = Some (Package p) \<Longrightarrow> pg_receipt p = Some r \<Longrightarrow> Q r w" "\<And>x. E x w" "S w"
  shows "wp A (receipt_at path) Q E S w"
  unfolding receipt_at_def
  by (intro wp_then wp_read wp_package_at assms)
    (auto split: option.split intro: wp_intros assms)

lemma wp_tree_at [wp_intros]:
  assumes "\<And>p. entry_at path w = Some (Package p) \<Longrightarrow> Q (pg_tree p) w" "\<And>x. E x w" "S w"
  shows "wp A (tree_at path) Q E S w"
  unfolding tree_at_def by (intro wp_then wp_read wp_package_at wp_ret assms)

section \<open>Growth of the staging directory\<close>

text \<open>
  From \<open>w\<close> to \<open>w'\<close> only new entries of the staging directory have appeared.
\<close>

definition grown :: "install_env \<Rightarrow> install_world \<Rightarrow> install_world \<Rightarrow> bool" where
  "grown e w w' \<longleftrightarrow>
     iw_document w' = iw_document w \<and> iw_journals w' = iw_journals w \<and> iw_pending w' = iw_pending w
     \<and> (\<forall>p. entry_at p w' \<noteq> entry_at p w \<longrightarrow> in_staging e p \<and> entry_at p w = None)"

lemma grown_refl [simp]: "grown e w w"
  by (simp add: grown_def)

lemma grown_trans: "grown e w w1 \<Longrightarrow> grown e w1 w2 \<Longrightarrow> grown e w w2"
  unfolding grown_def by metis

lemma grown_keeps: "grown e w w' \<Longrightarrow> entry_at p w = Some x \<Longrightarrow> entry_at p w' = Some x"
  unfolding grown_def by (metis option.distinct(1))

lemma grown_outside: "grown e w w' \<Longrightarrow> \<not> in_staging e p \<Longrightarrow> entry_at p w' = entry_at p w"
  by (auto simp: grown_def)

lemma grown_fields:
  "grown e w w' \<Longrightarrow> iw_document w' = iw_document w" "grown e w w' \<Longrightarrow> iw_journals w' = iw_journals w"
  "grown e w w' \<Longrightarrow> iw_pending w' = iw_pending w"
  by (simp_all add: grown_def)

lemma grown_put:
  "grown e w w' \<Longrightarrow> in_staging e p \<Longrightarrow> entry_at p w = None \<Longrightarrow> grown e w (put_entry p x w')"
  unfolding grown_def entry_at_put put_entry_fields using entry_at_eq [of _ p w] in_staging_eq [of _ p e]
  by metis

lemma grown_drop:
  "grown e w w' \<Longrightarrow> in_staging e p \<Longrightarrow> entry_at p w = None \<Longrightarrow> grown e w (drop_entry p w')"
  unfolding grown_def entry_at_drop drop_entry_fields using entry_at_eq [of _ p w] in_staging_eq [of _ p e]
  by metis

lemma grown_sequence: "grown e w w' \<Longrightarrow> grown e w (w'\<lparr>iw_sequence := n\<rparr>)"
  by (simp add: grown_def)

lemma wp_sequence:
  "Q () (w\<lparr>iw_sequence := Suc (iw_sequence w)\<rparr>) \<Longrightarrow>
     wp A (\<lambda>as w. (Val (), as, w\<lparr>iw_sequence := Suc (iw_sequence w)\<rparr>)) Q E S w"
  by (simp add: wp_def)

lemma wp_fresh_directory:
  assumes "env_ok e" "prefix = ''ready-'' \<or> prefix = ''backup-'' \<or> prefix = ''download-''"
    and Q: "\<And>p w'. grown e w w' \<Longrightarrow> in_staging e p \<Longrightarrow> path_is_absolute p \<Longrightarrow>
      entry_at p w = None \<Longrightarrow> entry_at p w' = Some Fragment \<Longrightarrow>
      (\<forall>q. \<not> path_eq q p \<longrightarrow> entry_at q w' = entry_at q w) \<Longrightarrow> Q p w'"
    and E: "\<And>x w'. grown e w w' \<Longrightarrow> E x w'" and S: "\<And>w'. grown e w w' \<Longrightarrow> S w'"
  shows "wp A (fresh_directory e prefix) Q E S w"
proof -
  let ?p = "path_join (staging_root e) (prefix @ ie_random e (iw_sequence w))"
  have p: "in_staging e ?p" "path_is_absolute ?p"
    using fresh_in_staging [OF assms(1,2)] fresh_absolute [OF assms(1)] by simp_all
  let ?w = "w\<lparr>iw_sequence := Suc (iw_sequence w)\<rparr>"
  have g: "grown e w ?w" by (simp add: grown_sequence)
  show ?thesis
    unfolding fresh_directory_def
    by (intro wp_intros wp_sequence Q E S grown_put p g grown_refl) (auto simp: exists_at_iff)
qed

text \<open>A guarded operation leaves its own leftovers, or one entry of the guarded path.\<close>

lemma wp_guarded:
  assumes "wp A m Q (\<lambda>x w. J w) J w"
    and "\<And>w. J w \<Longrightarrow> J (drop_entry p w)" "\<And>w. J w \<Longrightarrow> J (put_entry p Fragment w)"
    and "\<And>x w. J w \<Longrightarrow> E x w" "\<And>w. J w \<Longrightarrow> S w"
  shows "wp A (guarded p m) Q E S w"
proof -
  have "wp A m Q (\<lambda>x. wp A (io_then (io_catch (os_call_torn (drop_entry p) (put_entry p Fragment))
      (\<lambda>_. ret ())) (\<lambda>_. fails x)) Q E S) S w"
  proof (rule wp_mono [OF assms(1)])
    fix x w assume "J w"
    then show "wp A (io_then (io_catch (os_call_torn (drop_entry p) (put_entry p Fragment))
        (\<lambda>_. ret ())) (\<lambda>_. fails x)) Q E S w"
      by (intro wp_intros) (auto intro: assms)
  qed (use assms in auto)
  then show ?thesis unfolding guarded_def by (rule wp_catch)
qed

lemma wp_copy_into:
  assumes "in_staging e t" "entry_at t w0 = None" "grown e w0 w" "entry_at s w = Some (Package p)" "\<not> path_eq s t"
    and "inspect_package e s p = Ok d"
    and Q: "\<And>w'. grown e w0 w' \<Longrightarrow> entry_at t w' = Some (Package (upgraded p)) \<Longrightarrow>
      (\<forall>q. \<not> path_eq q t \<longrightarrow> entry_at q w' = entry_at q w) \<Longrightarrow> Q () w'"
  shows "wp A (copy_into s t) Q (\<lambda>x. grown e w0) (grown e w0) w"
proof -
  from assms(6) obtain r where r: "pg_receipt p = Some r" by (auto simp: inspect_package_ok)
  have up: "\<lparr>pg_tree = pg_tree p, pg_receipt = Some (r\<lparr>rc_schema := 2, rc_path := None\<rparr>)\<rparr> = upgraded p"
    using r by (cases p) (simp add: upgraded_def)
  show ?thesis
    unfolding copy_into_def
    by (intro wp_intros) (use assms(1-5) r up in \<open>auto simp: path_eq_sym intro!: grown_put Q\<close>)
qed

lemma wp_clone:
  assumes "env_ok e"
    and Q: "\<And>x w' p d. grown e w w' \<Longrightarrow> entry_at s w = Some (Package p) \<Longrightarrow> inspect_package e s p = Ok d \<Longrightarrow>
      in_staging e (pp_path x) \<Longrightarrow> path_is_absolute (pp_path x) \<Longrightarrow> entry_at (pp_path x) w = None \<Longrightarrow>
      entry_at (pp_path x) w' = Some (Package (upgraded p)) \<Longrightarrow> x = d\<lparr>pp_path := pp_path x\<rparr> \<Longrightarrow>
      (\<forall>q. \<not> path_eq q (pp_path x) \<longrightarrow> entry_at q w' = entry_at q w) \<Longrightarrow> Q x w'"
    and E: "\<And>x w'. grown e w w' \<Longrightarrow> E x w'" and S: "\<And>w'. grown e w w' \<Longrightarrow> S w'"
  shows "wp A (clone_prepared_package e s) Q E S w"
  unfolding clone_prepared_package_def
proof (intro wp_then wp_inspect)
  fix d p
  assume d: "inspect_entry e s (entry_at s w) = Ok d" "entry_at s w = Some (Package p)" "inspect_package e s p = Ok d"
  show "wp A (fresh_directory e ''ready-'') (\<lambda>t. wp A (io_then (guarded t (copy_into s t)) (\<lambda>_.
      io_then (inspect_prepared_package e t) (\<lambda>copied. io_then (check_that (pp_source copied = pp_source d)
        (PackageProblem ''github_package_changed'')) (\<lambda>_. ret copied)))) Q E S) E S w"
  proof (rule wp_fresh_directory [OF assms(1)])
    fix t w1
    assume t: "grown e w w1" "in_staging e t" "path_is_absolute t" "entry_at t w = None"
      "entry_at t w1 = Some Fragment" "\<forall>q. \<not> path_eq q t \<longrightarrow> entry_at q w1 = entry_at q w"
    have st: "\<not> path_eq s t" using d(2) t(4) entry_at_eq [of s t w] by auto
    then have s1: "entry_at s w1 = Some (Package p)" using d(2) t(6) by simp
    have "wp A (guarded t (copy_into s t)) (\<lambda>_. wp A (io_then (inspect_prepared_package e t) (\<lambda>copied.
        io_then (check_that (pp_source copied = pp_source d) (PackageProblem ''github_package_changed''))
          (\<lambda>_. ret copied))) Q E S) E S w1"
    proof (rule wp_guarded [where J = "grown e w"])
      show "wp A (copy_into s t) (\<lambda>_. wp A (io_then (inspect_prepared_package e t) (\<lambda>copied.
          io_then (check_that (pp_source copied = pp_source d) (PackageProblem ''github_package_changed''))
            (\<lambda>_. ret copied))) Q E S) (\<lambda>x. grown e w) (grown e w) w1"
      proof (rule wp_copy_into [OF t(2,4,1) s1 st d(3)])
        fix w2
        assume w2: "grown e w w2" "entry_at t w2 = Some (Package (upgraded p))"
          "\<forall>q. \<not> path_eq q t \<longrightarrow> entry_at q w2 = entry_at q w1"
        have copied: "x = d\<lparr>pp_path := t\<rparr>" if "inspect_package e t (upgraded p) = Ok x" for x
          using that inspect_upgraded [OF d(3), of t] t(2) by simp
        show "wp A (io_then (inspect_prepared_package e t) (\<lambda>copied.
            io_then (check_that (pp_source copied = pp_source d) (PackageProblem ''github_package_changed''))
              (\<lambda>_. ret copied))) Q E S w2"
          by (intro wp_intros E S w2(1))
            (use w2 t copied d in \<open>auto intro!: Q [OF _ d(2,3)]\<close>)
      qed
    qed (use t E S in \<open>auto intro: grown_drop grown_put\<close>)
    then show "wp A (io_then (guarded t (copy_into s t)) (\<lambda>_.
      io_then (inspect_prepared_package e t) (\<lambda>copied. io_then (check_that (pp_source copied = pp_source d)
        (PackageProblem ''github_package_changed'')) (\<lambda>_. ret copied)))) Q E S w1"
      by (rule wp_then)
  qed (auto intro: E S)
qed (auto intro: E S)

section \<open>Moves and removals\<close>

definition upgrade_at :: "string \<Rightarrow> install_world \<Rightarrow> install_world" where
  "upgrade_at s w =
     (case entry_at s w of Some (Package p) \<Rightarrow> put_entry s (Package (upgraded p)) w | _ \<Rightarrow> w)"

definition moved :: "string \<Rightarrow> string \<Rightarrow> install_world \<Rightarrow> install_world" where
  "moved s t w = move_entry s t (upgrade_at s w)"

lemma put_same:
  assumes "entry_at p w = Some x"
  shows "put_entry p x w = w"
proof -
  have "bt_insert (path_components p) x (iw_dirs w) = iw_dirs w"
    using assms by (intro bt_eqI) (simp add: entry_at_def)
  then show ?thesis by (simp add: put_entry_def)
qed

lemma upgrade_at_fields [simp]:
  "iw_document (upgrade_at s w) = iw_document w" "iw_journals (upgrade_at s w) = iw_journals w"
  "iw_pending (upgrade_at s w) = iw_pending w"
  by (simp_all add: upgrade_at_def split: option.split dir_entry.split)

lemma moved_fields [simp]:
  "iw_document (moved s t w) = iw_document w" "iw_journals (moved s t w) = iw_journals w"
  "iw_pending (moved s t w) = iw_pending w"
  by (simp_all add: moved_def move_entry_def split: option.split)

lemma entry_at_upgrade:
  "entry_at s w = Some (Package p) \<Longrightarrow>
     entry_at q (upgrade_at s w) = (if path_eq q s then Some (Package (upgraded p)) else entry_at q w)"
  by (simp add: upgrade_at_def)

lemma entry_at_moved:
  assumes "entry_at s w = Some (Package p)"
  shows "entry_at q (moved s t w) =
     (if path_eq q t then Some (Package (upgraded p)) else if path_eq q s then None else entry_at q w)"
  using assms entry_at_upgrade [OF assms, of s] entry_at_upgrade [OF assms, of q]
  by (simp add: moved_def move_entry_def)

text \<open>
  A move ends before or after the receipt was brought to the form that is bound to no path, or
  with the package at the other place: there is no state in which it is at neither.
\<close>

lemma wp_relocate [wp_intros]:
  assumes Q: "\<And>p d. entry_at s w = Some (Package p) \<Longrightarrow> inspect_package e s p = Ok d \<Longrightarrow>
      entry_at t w = None \<Longrightarrow> path_eq t (installed_path e (pm_id (pp_manifest d))) \<or> in_staging e t \<Longrightarrow>
      Q () (moved s t w)"
    and E: "\<And>x. E x w" "\<And>x p d. entry_at s w = Some (Package p) \<Longrightarrow> inspect_package e s p = Ok d \<Longrightarrow> E x (upgrade_at s w)"
    and S: "S w" "\<And>p d. entry_at s w = Some (Package p) \<Longrightarrow> inspect_package e s p = Ok d \<Longrightarrow> S (upgrade_at s w)"
  shows "wp A (relocate_prepared_package e s t) Q E S w"
proof -
  have after: "wp A (upgrade_receipt s r) (\<lambda>_. wp A (os_call (move_entry s t)) Q E S) E S w"
    if p: "entry_at s w = Some (Package p)" "inspect_package e s p = Ok d" "entry_at t w = None"
      "path_eq t (installed_path e (pm_id (pp_manifest d))) \<or> in_staging e t" and r: "pg_receipt p = Some r"
    for p d r
  proof (cases "rc_schema r = 1")
    case True
    have "put_entry s (Package (p\<lparr>pg_receipt := Some (r\<lparr>rc_schema := 2, rc_path := None\<rparr>)\<rparr>)) w = upgrade_at s w"
      using p(1) r by (simp add: upgrade_at_def upgraded_def)
    with r p(1) have "wp A (io_then (package_at s) (\<lambda>p. os_call (put_entry s
        (Package (p\<lparr>pg_receipt := Some (r\<lparr>rc_schema := 2, rc_path := None\<rparr>)\<rparr>)))))
        (\<lambda>_. wp A (os_call (move_entry s t)) Q E S) E S w"
      using Q [OF p] E(2) [OF p(1,2)] S(2) [OF p(1,2)]
      by (intro wp_then wp_package_at wp_call E(1) S(1)) (auto simp: moved_def)
    with True show ?thesis by (simp add: upgrade_receipt_def)
  next
    case False
    then have "upgrade_at s w = w"
      using inspect_schema [OF p(2)] r p(1) put_same [OF p(1)] by (auto simp: upgrade_at_def)
    moreover have "wp A (os_call (move_entry s t)) Q E S (upgrade_at s w)"
      using Q [OF p] E(2) [OF p(1,2)] S(2) [OF p(1,2)] by (intro wp_call) (auto simp: moved_def)
    ultimately show ?thesis using False by (simp add: upgrade_receipt_def wp_ret)
  qed
  show ?thesis
    unfolding relocate_prepared_package_def
    by (intro wp_intros E S) (auto simp: exists_at_iff intro!: after)
qed

lemma wp_remove [wp_intros]:
  assumes Q: "\<And>p d. entry_at s w = Some (Package p) \<Longrightarrow> inspect_package e s p = Ok d \<Longrightarrow> Q () (drop_entry s w)"
    and E: "\<And>x. E x w" "\<And>x p d y. Torn y \<in> A \<Longrightarrow> entry_at s w = Some (Package p) \<Longrightarrow>
      inspect_package e s p = Ok d \<Longrightarrow> E x (put_entry s Fragment w)"
    and S: "S w"
  shows "wp A (remove_prepared_package e s) Q E S w"
  unfolding remove_prepared_package_def by (intro wp_intros assms) (auto intro: assms)

end
