(* ===== verification/Install_Registry.thy ===== *)
theory Install_Registry
  imports Install_Operations Registry_Properties
begin

text \<open>
  The registry document during an installation: edits that touch one plugin only, what saving
  them writes, and the document a rollback restores.
\<close>

section \<open>Edits of one plugin\<close>

lemma bt_len_get: "bt_get m k \<noteq> None \<Longrightarrow> bt_len m \<noteq> 0"
  by (auto simp: bt_len_zero)

definition only_touches :: "string \<Rightarrow> plugin_registry \<Rightarrow> bool" where
  "only_touches i r \<longleftrightarrow>
     (\<forall>k. k \<noteq> canonical_plugin_id i \<longrightarrow> bt_get (rg_pending r) k = None)
     \<and> (\<forall>k. k \<noteq> i \<longrightarrow> bt_get (rg_pending_local r) k = None \<and> bt_get (rg_pending_managed r) k = None)"

lemma only_touches_snapshot: "only_touches i (snapshot path d)"
  by (simp add: only_touches_def snapshot_def)

lemma only_touches_stage:
  "only_touches i r \<Longrightarrow> only_touches i (stage_local i l r)"
  "only_touches i r \<Longrightarrow> only_touches i (stage_managed i m r)"
  by (auto simp: only_touches_def stage_local_def stage_managed_def Let_def split: option.split)

lemma snapshot_fields [simp]:
  "rg_path (snapshot path d) = path" "rg_document (snapshot path d) = d"
  "rg_local (snapshot path d) = rd_local d" "rg_managed (snapshot path d) = rd_managed d"
  "rg_pending (snapshot path d) = bt_empty" "rg_pending_local (snapshot path d) = bt_empty"
  "rg_pending_managed (snapshot path d) = bt_empty"
  by (simp_all add: snapshot_def)

text \<open>The entries of a plugin in a document, as its snapshot shows them.\<close>

definition entries_of ::
    "string \<Rightarrow> registry_document \<Rightarrow> local_registration option \<times> managed_record option \<times> bool" where
  "entries_of i d = (bt_get (rd_local d) i, bt_get (rd_managed d) i, is_enabled (snapshot [] d) i)"

definition view_of_entries ::
    "string \<Rightarrow> plugin_registry \<Rightarrow> local_registration option \<times> managed_record option \<times> bool" where
  "view_of_entries i r = (bt_get (rg_local r) i, bt_get (rg_managed r) i, is_enabled r i)"

definition entries_digest ::
    "install_env \<Rightarrow> string \<Rightarrow> local_registration option \<times> managed_record option \<times> bool \<Rightarrow> string" where
  "entries_digest e i = (\<lambda>(l, m, b). ie_registration_digest e i l m b)"

lemma registration_digest_view: "registration_digest e r i = entries_digest e i (view_of_entries i r)"
  by (simp add: registration_digest_def entries_digest_def view_of_entries_def)

lemma is_enabled_path: "is_enabled (snapshot path d) i = is_enabled (snapshot [] d) i"
  by (simp add: is_enabled_def Let_def cong: option.case_cong)

lemma view_snapshot [simp]: "view_of_entries i (snapshot path d) = entries_of i d"
  by (simp add: view_of_entries_def entries_of_def is_enabled_path [of path])

text \<open>A handle on the document \<open>d\<close> with edits of one plugin; saving it writes its view.\<close>

definition staged_on :: "string \<Rightarrow> registry_document \<Rightarrow> plugin_registry \<Rightarrow> bool" where
  "staged_on i d r \<longleftrightarrow> rg_document r = d \<and> only_touches i r
     \<and> overlaid (rd_local d) (rg_pending_local r) (rg_local r)
     \<and> overlaid (rd_managed d) (rg_pending_managed r) (rg_managed r)"

lemma staged_on_snapshot: "staged_on i d (snapshot path d)"
  by (simp add: staged_on_def only_touches_snapshot overlaid_def)

lemma staged_on_stage:
  "staged_on i d r \<Longrightarrow> staged_on i d (stage_local i l r)"
  "staged_on i d r \<Longrightarrow> staged_on i d (stage_managed i m r)"
  using only_touches_stage [of i r] local_map.stage_overlaid [of r i l] managed_map.stage_overlaid [of r i m]
  by (simp_all add: staged_on_def)

lemma staged_on_enable:
  "staged_on i d r \<Longrightarrow> staged_on i d (r\<lparr>rg_pending := bt_insert (canonical_plugin_id i) p (rg_pending r)\<rparr>)"
  by (simp add: staged_on_def only_touches_def)

lemma merge_view:
  assumes "staged_on i d r"
  shows "entries_of i (merge_staged r d) = view_of_entries i r"
proof -
  have doc: "rg_document r = d" using assms by (simp add: staged_on_def)
  have differ: "GUI_PLUGIN_ID \<noteq> LEGACY_GUI_PLUGIN_ID" by (simp add: GUI_PLUGIN_ID_def LEGACY_GUI_PLUGIN_ID_def)
  have canonical: "canonical_plugin_id i \<noteq> LEGACY_GUI_PLUGIN_ID"
    using differ by (simp add: canonical_plugin_id_def)
  have legacy: "bt_get (rg_pending r) LEGACY_GUI_PLUGIN_ID = None"
    using assms canonical by (simp add: staged_on_def only_touches_def)
  have "is_enabled (snapshot [] (merge_staged r d)) i = is_enabled r i"
    using canonical differ legacy doc
    by (cases "bt_get (rg_pending r) (canonical_plugin_id i)"; cases "bt_get (rg_pending r) GUI_PLUGIN_ID")
      (auto simp: is_enabled_def merge_staged_def Let_def split: option.split)
  moreover have "bt_get (rd_local (merge_staged r d)) i = bt_get (rg_local r) i"
    "bt_get (rd_managed (merge_staged r d)) i = bt_get (rg_managed r) i"
    using assms by (auto simp: merge_staged_def Let_def staged_on_def overlaid_def split: option.split)
  ultimately show ?thesis by (simp add: entries_of_def view_of_entries_def)
qed

lemma no_conflict:
  assumes "overlaid (rd_local (rg_document r)) (rg_pending_local r) (rg_local r)"
    "overlaid (rd_managed (rg_document r)) (rg_pending_managed r) (rg_managed r)" "rg_document r = d"
  shows "managed_conflict r d = None" "local_conflict r d = None"
proof -
  have m: "bt_get (rg_pending_managed r) k = Some x \<Longrightarrow> ed_expected x = bt_get (rd_managed d) k"
    and l: "bt_get (rg_pending_local r) k = Some y \<Longrightarrow> ed_expected y = bt_get (rd_local d) k" for k x y
    using assms by (simp_all add: overlaid_def)
  have refl: "registration_eq z z" for z by (simp add: registration_eq_def)
  show "managed_conflict r d = None"
    unfolding managed_conflict_None using m by (metis managed_eq_refl opt_eq_refl)
  show "local_conflict r d = None"
    unfolding local_conflict_None using l refl by (metis opt_eq_refl)
qed

section \<open>Saving\<close>

definition storable :: "codec \<Rightarrow> string \<Rightarrow> registry_document \<Rightarrow> bool" where
  "storable c path d \<longleftrightarrow> document_validate c path d = Ok ()
     \<and> (\<exists>bytes. cx_to c d = Ok bytes \<and> length bytes < MAX_REGISTRY_BYTES)"

lemma wp_load [wp_intros]:
  "Q (snapshot path (iw_document w)) w \<Longrightarrow> (\<And>x. E x w) \<Longrightarrow> S w \<Longrightarrow> wp A (load_registry path) Q E S w"
  unfolding load_registry_def by (intro wp_intros)

text \<open>A save writes the merged document in one step, or leaves the disk as it is.\<close>

lemma wp_save [wp_intros]:
  assumes Q: "something_staged r \<or> rd_schema (iw_document w) = 1 \<Longrightarrow>
      Q (snapshot (rg_path r) (merge_staged r (iw_document w)))
        (w\<lparr>iw_document := merge_staged r (iw_document w)\<rparr>)"
    "\<not> something_staged r \<Longrightarrow> Q (snapshot (rg_path r) (iw_document w)) w"
    and E: "\<And>x. E x w" and S: "S w"
  shows "wp A (save_registry e r) Q E S w"
  unfolding save_registry_def
proof (intro wp_then wp_read wp_gets E S)
  have written: "wp A (write_registry e (rg_path r) (merge_staged r (iw_document w))) Q E S w"
    if "something_staged r \<or> rd_schema (iw_document w) = 1"
    unfolding write_registry_def
    using Q(1) [OF that] by (intro wp_then wp_outcome E S)
      (auto split: outcome.split intro!: wp_then wp_call wp_ret wp_fails wp_panics E S)
  show "wp A (case managed_conflict r (iw_document w) of
      None \<Rightarrow> (case local_conflict r (iw_document w) of
          None \<Rightarrow> if something_staged r \<or> rd_schema (iw_document w) = 1
                  then write_registry e (rg_path r) (merge_staged r (iw_document w))
                  else ret (snapshot (rg_path r) (iw_document w))
        | Some x \<Rightarrow> fails (RegistryProblem x))
    | Some x \<Rightarrow> fails (RegistryProblem x)) Q E S w"
    using written Q(2) by (auto split: option.split intro!: wp_fails wp_ret E)
qed

section \<open>The restored document\<close>

definition restore_doc ::
    "string \<Rightarrow> local_registration option \<times> managed_record option \<times> bool \<Rightarrow> registry_document \<Rightarrow> registry_document" where
  "restore_doc i = (\<lambda>(l, m, b) d.
     \<lparr>rd_schema = REGISTRY_SCHEMA,
      rd_plugins = (let p = bt_insert (canonical_plugin_id i) \<lparr>pf_enabled = b\<rparr> (rd_plugins d)
        in if canonical_plugin_id i = GUI_PLUGIN_ID then bt_remove LEGACY_GUI_PLUGIN_ID p else p),
      rd_local = set_opt i l (rd_local d), rd_managed = set_opt i m (rd_managed d)\<rparr>)"

definition staged_restore ::
    "string \<Rightarrow> local_registration option \<times> managed_record option \<times> bool \<Rightarrow> plugin_registry \<Rightarrow> plugin_registry" where
  "staged_restore i = (\<lambda>(l, m, b) r. (restore_managed i l m r)
     \<lparr>rg_pending := bt_insert (canonical_plugin_id i) \<lparr>pf_enabled = b\<rparr> (rg_pending r)\<rparr>)"

lemma enable_restored:
  "valid_plugin_id i \<Longrightarrow> enable_in i b (restore_managed i l m r) = ret (staged_restore i (l, m, b) r)"
  by (simp add: enable_in_def set_enabled_def staged_restore_def restore_managed_def)

lemma staged_restore_facts:
  fixes i lmb path d
  defines "r \<equiv> staged_restore i lmb (snapshot path d)"
  shows "rg_path r = path" "rg_document r = d" "something_staged r" "merge_staged r d = restore_doc i lmb d"
proof -
  obtain l m b where lmb: "lmb = (l, m, b)" by (cases lmb)
  show "rg_path r = path" "rg_document r = d"
    by (simp_all add: r_def lmb staged_restore_def restore_managed_def)
  show "something_staged r"
    by (simp add: r_def lmb staged_restore_def something_staged_def)
  have differ: "GUI_PLUGIN_ID \<noteq> LEGACY_GUI_PLUGIN_ID" "canonical_plugin_id i \<noteq> LEGACY_GUI_PLUGIN_ID"
    by (simp_all add: canonical_plugin_id_def GUI_PLUGIN_ID_def LEGACY_GUI_PLUGIN_ID_def)
  have pending: "rg_pending r = bt_insert (canonical_plugin_id i) \<lparr>pf_enabled = b\<rparr> bt_empty"
    by (simp add: r_def lmb staged_restore_def)
  have loc: "rg_pending_local r = rg_pending_local (stage_local i l (snapshot path d))"
    and man: "rg_pending_managed r = bt_insert i \<lparr>ed_expected = bt_get (rd_managed d) i, ed_desired = m\<rparr> bt_empty"
    by (simp_all add: r_def lmb staged_restore_def restore_managed_def stage_managed_def)
  have "bt_get (rd_plugins (merge_staged r d)) k = bt_get (rd_plugins (restore_doc i lmb d)) k"
    "bt_get (rd_local (merge_staged r d)) k = bt_get (rd_local (restore_doc i lmb d)) k"
    "bt_get (rd_managed (merge_staged r d)) k = bt_get (rd_managed (restore_doc i lmb d)) k" for k
    by (auto simp: merge_staged_def Let_def restore_doc_def lmb pending loc man stage_local_def differ
        simp del: bt_insert.rep_eq bt_empty.rep_eq split: option.split)
  then have "rd_plugins (merge_staged r d) = rd_plugins (restore_doc i lmb d)"
    "rd_local (merge_staged r d) = rd_local (restore_doc i lmb d)"
    "rd_managed (merge_staged r d) = rd_managed (restore_doc i lmb d)"
    by (simp_all add: bt_eqI)
  moreover have "rd_schema (merge_staged r d) = rd_schema (restore_doc i lmb d)"
    by (simp add: merge_staged_def Let_def restore_doc_def lmb)
  ultimately show "merge_staged r d = restore_doc i lmb d" by simp
qed

lemma entries_restored: "entries_of i (restore_doc i lmb d) = lmb"
proof -
  obtain l m b where lmb: "lmb = (l, m, b)" by (cases lmb)
  have "canonical_plugin_id i \<noteq> LEGACY_GUI_PLUGIN_ID" "GUI_PLUGIN_ID \<noteq> LEGACY_GUI_PLUGIN_ID"
    by (simp_all add: canonical_plugin_id_def GUI_PLUGIN_ID_def LEGACY_GUI_PLUGIN_ID_def)
  then show ?thesis
    by (auto simp: entries_of_def lmb restore_doc_def is_enabled_def Let_def)
qed

text \<open>Edits of the plugin do not show in what a rollback writes.\<close>

lemma restore_merged:
  assumes "only_touches i r"
  shows "restore_doc i lmb (merge_staged r d) = restore_doc i lmb d"
proof -
  obtain l m b where lmb: "lmb = (l, m, b)" by (cases lmb)
  have gui: "canonical_plugin_id i = GUI_PLUGIN_ID" if "bt_has (rg_pending r) GUI_PLUGIN_ID"
    using that assms unfolding only_touches_def by (metis bt_has_def)
  have differ: "canonical_plugin_id i \<noteq> LEGACY_GUI_PLUGIN_ID"
    by (simp add: canonical_plugin_id_def GUI_PLUGIN_ID_def LEGACY_GUI_PLUGIN_ID_def)
  have none: "bt_get (rg_pending r) k = None" if "k \<noteq> canonical_plugin_id i" for k
    using that assms by (simp add: only_touches_def)
  have none': "bt_get (rg_pending_local r) k = None" "bt_get (rg_pending_managed r) k = None" if "k \<noteq> i" for k
    using that assms by (simp_all add: only_touches_def)
  have "bt_get (rd_plugins (restore_doc i lmb (merge_staged r d))) k = bt_get (rd_plugins (restore_doc i lmb d)) k" for k
    using gui differ none [of k] by (auto simp: restore_doc_def lmb Let_def merge_staged_def)
  moreover have "bt_get (rd_local (restore_doc i lmb (merge_staged r d))) k = bt_get (rd_local (restore_doc i lmb d)) k"
    "bt_get (rd_managed (restore_doc i lmb (merge_staged r d))) k = bt_get (rd_managed (restore_doc i lmb d)) k" for k
    using none' [of k] by (auto simp: restore_doc_def lmb Let_def merge_staged_def)
  ultimately have "rd_plugins (restore_doc i lmb (merge_staged r d)) = rd_plugins (restore_doc i lmb d)"
    "rd_local (restore_doc i lmb (merge_staged r d)) = rd_local (restore_doc i lmb d)"
    "rd_managed (restore_doc i lmb (merge_staged r d)) = rd_managed (restore_doc i lmb d)"
    by (simp_all add: bt_eqI)
  moreover have "rd_schema (restore_doc i lmb (merge_staged r d)) = rd_schema (restore_doc i lmb d)"
    by (simp add: restore_doc_def lmb)
  ultimately show ?thesis by simp
qed

lemma restore_twice: "restore_doc i lmb (restore_doc i lmb d) = restore_doc i lmb d"
  using restore_merged [OF only_touches_stage(2) [OF only_touches_stage(1) [OF only_touches_snapshot]]]
proof -
  have "only_touches i (staged_restore i lmb (snapshot [] d))"
    using only_touches_stage [of i] only_touches_snapshot [of i "[]" d]
    by (cases lmb) (simp add: staged_restore_def restore_managed_def only_touches_def)
  from restore_merged [OF this, of lmb d] show ?thesis by (simp add: staged_restore_facts)
qed

text \<open>Restoring what the document has changes no registration.\<close>

lemma restore_own:
  assumes "lmb = entries_of i d"
  shows "rd_local (restore_doc i lmb d) = rd_local d" "rd_managed (restore_doc i lmb d) = rd_managed d"
  using assms by (auto simp: restore_doc_def entries_of_def intro!: bt_eqI)

end
