(* ===== verification/Install_Recovery.thy ===== *)
theory Install_Recovery
  imports Install_Registry
begin

text \<open>
  What holds on the disk while the package of one plugin is being replaced: the previous package
  is at the target or in the backup the journal names, and the document is one the journal
  allows. Every step of a publication and of a rollback keeps this, whatever the operating
  system answers and wherever the program ends.
\<close>

section \<open>An update and the states it goes through\<close>

text \<open>The disk an update started on, and what it found there for the plugin.\<close>

record update =
  up_env :: install_env
  up_id :: string
  up_start :: install_world
  up_before :: "package_dir option"

abbreviation up_target :: "update \<Rightarrow> string" where
  "up_target u \<equiv> installed_path (up_env u) (up_id u)"

abbreviation up_entries :: "update \<Rightarrow> local_registration option \<times> managed_record option \<times> bool" where
  "up_entries u \<equiv> entries_of (up_id u) (iw_document (up_start u))"

definition update_ok :: "update \<Rightarrow> bool" where
  "update_ok u \<longleftrightarrow> env_ok (up_env u) \<and> valid_plugin_id (up_id u)
     \<and> bt_get (iw_journals (up_start u)) (up_id u) = None
     \<and> bt_get (iw_pending (up_start u)) (up_id u) = None
     \<and> entry_at (up_target u) (up_start u) = map_option Package (up_before u)
     \<and> (up_before u = None \<longrightarrow> (case fst (up_entries u) of
          None \<Rightarrow> True | Some l \<Rightarrow> \<not> path_eq (lr_path l) (up_target u)))"

definition tidy :: "answer set \<Rightarrow> bool" where
  "tidy A \<longleftrightarrow> (\<forall>s. Torn s \<notin> A)"

definition old_at :: "update \<Rightarrow> install_world \<Rightarrow> bool" where
  "old_at u w \<longleftrightarrow>
     (case up_before u of
        None \<Rightarrow> entry_at (up_target u) w = None
      | Some p \<Rightarrow> entry_at (up_target u) w = Some (Package p)
                  \<or> entry_at (up_target u) w = Some (Package (upgraded p)))"

definition new_at :: "update \<Rightarrow> journal \<Rightarrow> install_world \<Rightarrow> bool" where
  "new_at u j w \<longleftrightarrow>
     (\<exists>q d. entry_at (up_target u) w = Some (Package q) \<and> inspect_package (up_env u) (up_target u) q = Ok d
        \<and> pp_source d = jn_source j \<and> pm_id (pp_manifest d) = up_id u)"

text \<open>The recorded version of the previous package is the one on disk.\<close>

definition prior_checked :: "update \<Rightarrow> bool" where
  "prior_checked u \<longleftrightarrow>
     (case up_before u of
        None \<Rightarrow> fst (up_entries u) = None
      | Some p \<Rightarrow> \<exists>d m v. inspect_package (up_env u) (up_target u) p = Ok d
          \<and> fst (snd (up_entries u)) = Some m \<and> managed_current m = Some v
          \<and> pp_source d = mv_source v \<and> pp_manifest d = mv_manifest v \<and> pm_id (pp_manifest d) = up_id u)"

definition journal_facts :: "update \<Rightarrow> journal \<Rightarrow> bool" where
  "journal_facts u j \<longleftrightarrow>
     jn_schema j = 1 \<and> jn_id j = up_id u \<and> jn_target j = up_target u
     \<and> in_staging (up_env u) (jn_ready j) \<and> \<not> jn_committed j
     \<and> (jn_previous_registration j, jn_previous_managed j, jn_previous_enabled j) = up_entries u
     \<and> entries_digest (up_env u) (up_id u) (up_entries u) \<in> set (jn_allowed j)
     \<and> (case up_before u of
          None \<Rightarrow> jn_backup j = None
        | Some p \<Rightarrow> \<exists>b l. jn_backup j = Some b \<and> in_staging (up_env u) b \<and> path_is_absolute b
            \<and> jn_previous_registration j = Some l \<and> path_eq (lr_path l) (up_target u))"

definition safe :: "update \<Rightarrow> journal \<Rightarrow> install_world \<Rightarrow> bool" where
  "safe u j w \<longleftrightarrow>
     (case up_before u of
        None \<Rightarrow> True
      | Some p \<Rightarrow> \<exists>b. jn_backup j = Some b
          \<and> ((old_at u w \<and> entry_at b w = None) \<or> entry_at b w = Some (Package (upgraded p))))"

text \<open>A directory that cleaning up skips or removes.\<close>

definition disposable :: "update \<Rightarrow> string \<Rightarrow> install_world \<Rightarrow> bool" where
  "disposable u p w \<longleftrightarrow>
     path_eq p (up_target u) \<or> entry_at p w = None
     \<or> (\<exists>d. inspect_entry (up_env u) p (entry_at p w) = Ok d \<and> pm_id (pp_manifest d) = up_id u)"

definition tidy_state :: "update \<Rightarrow> journal \<Rightarrow> install_world \<Rightarrow> bool" where
  "tidy_state u j w \<longleftrightarrow>
     prior_checked u
     \<and> (case up_before u of
          None \<Rightarrow> entry_at (up_target u) w = None \<or> new_at u j w
        | Some p \<Rightarrow> \<forall>b. jn_backup j = Some b \<and> entry_at b w \<noteq> None \<longrightarrow>
            entry_at (up_target u) w = None \<or> new_at u j w)
     \<and> disposable u (jn_ready j) w \<and> disposable u (jn_staged j) w"

definition mid :: "update \<Rightarrow> answer set \<Rightarrow> journal \<Rightarrow> install_world \<Rightarrow> bool" where
  "mid u A j w \<longleftrightarrow>
     journal_facts u j \<and> safe u j w \<and> (tidy A \<longrightarrow> tidy_state u j w)
     \<and> iw_pending w = iw_pending (up_start u)
     \<and> restore_doc (up_id u) (up_entries u) (iw_document w)
       = restore_doc (up_id u) (up_entries u) (iw_document (up_start u))"

text \<open>The journal on disk, of which the program may hold a copy with more digests.\<close>

definition open_with :: "update \<Rightarrow> answer set \<Rightarrow> journal \<Rightarrow> install_world \<Rightarrow> bool" where
  "open_with u A j w \<longleftrightarrow>
     mid u A j w
     \<and> iw_journals w = bt_insert (up_id u) (Stored j) (iw_journals (up_start u))
     \<and> entries_digest (up_env u) (up_id u) (entries_of (up_id u) (iw_document w)) \<in> set (jn_allowed j)"

definition held :: "update \<Rightarrow> answer set \<Rightarrow> installation \<Rightarrow> install_world \<Rightarrow> bool" where
  "held u A n w \<longleftrightarrow>
     in_stem n = up_id u
     \<and> (\<exists>j. open_with u A j w \<and> in_journal n = j\<lparr>jn_allowed := jn_allowed (in_journal n)\<rparr>
          \<and> set (jn_allowed j) \<subseteq> set (jn_allowed (in_journal n)))"

definition closed_old :: "update \<Rightarrow> install_world \<Rightarrow> bool" where
  "closed_old u w \<longleftrightarrow>
     iw_journals w = iw_journals (up_start u) \<and> iw_pending w = iw_pending (up_start u) \<and> old_at u w
     \<and> rd_local (iw_document w) = rd_local (iw_document (up_start u))
     \<and> rd_managed (iw_document w) = rd_managed (iw_document (up_start u))
     \<and> entries_of (up_id u) (iw_document w) = up_entries u"

definition recoverable :: "update \<Rightarrow> answer set \<Rightarrow> install_world \<Rightarrow> bool" where
  "recoverable u A w \<longleftrightarrow> closed_old u w \<or> (\<exists>j. open_with u A j w)"

lemma held_recoverable: "held u A n w \<Longrightarrow> recoverable u A w"
  by (auto simp: held_def recoverable_def)

lemma backup_differs:
  assumes "update_ok u" "in_staging (up_env u) b"
  shows "\<not> path_eq b (up_target u)" "\<not> path_eq (up_target u) b"
  using in_staging_not_installed [OF assms(2), of "up_id u"] assms(1) path_eq_sym
  by (auto simp: update_ok_def)

section \<open>Steps that keep the invariant\<close>

lemma mid_other:
  assumes "mid u A j w" "\<And>p. entry_at p w' = entry_at p w" "iw_pending w' = iw_pending w"
    and "restore_doc (up_id u) (up_entries u) (iw_document w') = restore_doc (up_id u) (up_entries u) (iw_document w)"
  shows "mid u A j w'"
proof -
  have "old_at u w' = old_at u w" "new_at u j w' = new_at u j w" "disposable u p w' = disposable u p w" for p
    unfolding old_at_def new_at_def disposable_def assms(2) by (rule refl)+
  then have "safe u j w' = safe u j w" "tidy_state u j w' = tidy_state u j w"
    unfolding safe_def tidy_state_def assms(2) by (simp_all only:)
  with assms(1,3,4) show ?thesis by (simp add: mid_def)
qed

lemma disposable_other:
  "disposable u p w \<Longrightarrow> \<not> path_eq p q \<Longrightarrow> disposable u p (drop_entry q w)"
  "disposable u p w \<Longrightarrow> \<not> path_eq p q \<Longrightarrow> disposable u p (put_entry q x w)"
  by (simp_all add: disposable_def)

lemma disposable_drop: "disposable u p w \<Longrightarrow> disposable u p (drop_entry q w)"
  by (simp add: disposable_def)

lemma disposable_target: "path_eq p (up_target u) \<Longrightarrow> disposable u p w"
  by (simp add: disposable_def)

text \<open>What is at the target may go when the backup is there, or when nothing was there before.\<close>

lemma mid_discard:
  assumes "update_ok u" "mid u A j w"
    and "up_before u \<noteq> None \<Longrightarrow> \<exists>b. jn_backup j = Some b \<and> entry_at b w \<noteq> None"
  shows "mid u A j (drop_entry (up_target u) w)"
    and "Torn s \<in> A \<Longrightarrow> mid u A j (put_entry (up_target u) Fragment w)"
proof -
  have facts: "journal_facts u j" "safe u j w" using assms(2) by (simp_all add: mid_def)
  have b: "entry_at b w = Some (Package (upgraded p))" "in_staging (up_env u) b"
    if "up_before u = Some p" "jn_backup j = Some b" for p b
    using facts assms(3) that by (auto simp: safe_def journal_facts_def)
  have safe: "safe u j (drop_entry (up_target u) w)" "safe u j (put_entry (up_target u) Fragment w)"
  proof -
    have "entry_at b (drop_entry (up_target u) w) = Some (Package (upgraded p))"
      "entry_at b (put_entry (up_target u) Fragment w) = Some (Package (upgraded p))"
      if "up_before u = Some p" "jn_backup j = Some b" for p b
      using b [OF that] backup_differs [OF assms(1)] by simp_all
    moreover have "\<exists>b. jn_backup j = Some b" if "up_before u = Some p" for p
      using facts(1) that by (auto simp: journal_facts_def)
    ultimately show "safe u j (drop_entry (up_target u) w)" "safe u j (put_entry (up_target u) Fragment w)"
      unfolding safe_def by (auto simp del: entry_at_drop entry_at_put split: option.split)
  qed
  have "tidy_state u j (drop_entry (up_target u) w)" if "tidy_state u j w"
    using that by (auto simp: tidy_state_def disposable_drop split: option.splits)
  with assms(2) safe show "mid u A j (drop_entry (up_target u) w)" by (simp add: mid_def)
  show "mid u A j (put_entry (up_target u) Fragment w)" if "Torn s \<in> A"
    using assms(2) safe that by (auto simp: mid_def tidy_def)
qed

text \<open>The backup goes back to the free target.\<close>

lemma mid_restore:
  assumes "update_ok u" "mid u A j w" "jn_backup j = Some b" "entry_at b w \<noteq> None"
    and "entry_at (up_target u) w = None"
  shows "mid u A j (moved b (up_target u) w)" "old_at u (moved b (up_target u) w)"
    "entry_at b (moved b (up_target u) w) = None" "upgrade_at b w = w"
proof -
  have facts: "journal_facts u j" "safe u j w" using assms(2) by (simp_all add: mid_def)
  then obtain p where p: "up_before u = Some p" "in_staging (up_env u) b"
    using assms(3) by (cases "up_before u") (auto simp: journal_facts_def)
  have b: "entry_at b w = Some (Package (upgraded p))"
    using facts(2) assms(3,4) p(1) by (auto simp: safe_def)
  note diff = backup_differs [OF assms(1) p(2)]
  note after = entry_at_moved [OF b, of _ "up_target u"]
  show "upgrade_at b w = w" using b put_same [OF b] by (simp add: upgrade_at_def)
  show old: "old_at u (moved b (up_target u) w)" by (simp add: old_at_def p(1) after)
  show gone: "entry_at b (moved b (up_target u) w) = None" using diff after [of b] by simp
  have safe: "safe u j (moved b (up_target u) w)" using old gone p(1) assms(3) by (simp add: safe_def)
  have disposable: "disposable u x (moved b (up_target u) w)" if "disposable u x w" for x
  proof (cases "path_eq x (up_target u)")
    case False
    with after [of x] have "entry_at x (moved b (up_target u) w) = None
        \<or> entry_at x (moved b (up_target u) w) = entry_at x w" by simp
    with that False show ?thesis by (auto simp: disposable_def)
  qed (rule disposable_target)
  have "tidy_state u j (moved b (up_target u) w)" if "tidy_state u j w"
    using that gone assms(3) p(1) disposable [of "jn_ready j"] disposable [of "jn_staged j"]
    unfolding tidy_state_def by auto
  with safe show "mid u A j (moved b (up_target u) w)"
    using assms(2) unfolding mid_def moved_fields by blast
qed

text \<open>Cleaning up touches neither the target nor a backup that is not there.\<close>

definition settled_old :: "update \<Rightarrow> journal \<Rightarrow> install_world \<Rightarrow> bool" where
  "settled_old u j w \<longleftrightarrow> old_at u w \<and> (\<forall>b. jn_backup j = Some b \<longrightarrow> entry_at b w = None)"

lemma settled_old_clean:
  assumes "settled_old u j w" "entry_at p w \<noteq> None" "\<not> path_eq p (up_target u)"
  shows "settled_old u j (drop_entry p w)" "settled_old u j (put_entry p x w)"
proof -
  have "\<not> path_eq (up_target u) p" using assms(3) path_eq_sym by blast
  moreover have "\<not> path_eq b p" if "entry_at b w = None" for b
    using that assms(2) entry_at_eq [of b p w] by auto
  ultimately show "settled_old u j (drop_entry p w)" "settled_old u j (put_entry p x w)"
    using assms(1) by (auto simp: settled_old_def old_at_def split: option.splits)
qed

lemma mid_clean:
  assumes "mid u A j w" "settled_old u j w" "entry_at p w \<noteq> None" "\<not> path_eq p (up_target u)"
  shows "mid u A j (drop_entry p w)" and "Torn s \<in> A \<Longrightarrow> mid u A j (put_entry p Fragment w)"
proof -
  note after = settled_old_clean [OF assms(2-4)]
  have keeps: "safe u j w'" if "settled_old u j w'" for w'
    using that assms(1) by (auto simp: safe_def mid_def journal_facts_def settled_old_def split: option.splits)
  have "tidy_state u j (drop_entry p w)" if "tidy_state u j w"
    using that after(1)
    by (auto simp: tidy_state_def disposable_drop settled_old_def old_at_def split: option.splits)
  with keeps [OF after(1)] assms(1) show "mid u A j (drop_entry p w)" by (simp add: mid_def)
  show "mid u A j (put_entry p Fragment w)" if "Torn s \<in> A"
    using that keeps [OF after(2)] assms(1) by (auto simp: mid_def tidy_def)
qed

end
