(* ===== verification/Install_Rollback.thy ===== *)
theory Install_Rollback
  imports Install_Recovery
begin

text \<open>
  A rollback with any answers: it ends with the previous state restored and the journal gone, or
  it leaves a disk on which it can be started again.
\<close>

section \<open>Checks change nothing\<close>

lemma wp_check_registration:
  assumes "registration_digest e (snapshot (in_registry_path n) (iw_document w)) (jn_id (in_journal n))
      \<in> set (jn_allowed (in_journal n)) \<Longrightarrow> Q (snapshot (in_registry_path n) (iw_document w)) w"
    and "\<And>x. E x w" "S w"
  shows "wp A (check_registration e n) Q E S w"
  unfolding check_registration_def by (intro wp_intros assms)

lemma wp_check_previous:
  assumes "Q () w" "\<And>x. E x w" "S w"
  shows "wp A (check_previous e n path) Q E S w"
  unfolding check_previous_def Let_def
  by (auto split: option.split intro!: wp_then wp_check wp_load wp_inspect wp_fails assms)

section \<open>The steps of a rollback\<close>

lemma held_journal:
  assumes "held u A n w"
  obtains j where "open_with u A j w" "mid u A j w"
    "jn_id (in_journal n) = up_id u" "jn_target (in_journal n) = up_target u"
    "jn_backup (in_journal n) = jn_backup j" "jn_source (in_journal n) = jn_source j"
    "jn_previous_registration (in_journal n) = jn_previous_registration j"
    "jn_previous_managed (in_journal n) = jn_previous_managed j"
    "jn_previous_enabled (in_journal n) = jn_previous_enabled j"
    "jn_ready (in_journal n) = jn_ready j" "jn_staged (in_journal n) = jn_staged j"
    "(jn_previous_registration j, jn_previous_managed j, jn_previous_enabled j) = up_entries u"
proof -
  from assms obtain j where j: "open_with u A j w" "in_journal n = j\<lparr>jn_allowed := jn_allowed (in_journal n)\<rparr>"
    by (auto simp: held_def)
  then have m: "mid u A j w" by (simp add: open_with_def)
  then have f: "journal_facts u j" by (simp add: mid_def)
  show thesis
  proof (rule that [OF j(1) m])
    show "jn_id (in_journal n) = up_id u" "jn_target (in_journal n) = up_target u"
      using f by (subst j(2), simp add: journal_facts_def)+
    show "jn_backup (in_journal n) = jn_backup j" "jn_source (in_journal n) = jn_source j"
      "jn_previous_registration (in_journal n) = jn_previous_registration j"
      "jn_previous_managed (in_journal n) = jn_previous_managed j"
      "jn_previous_enabled (in_journal n) = jn_previous_enabled j"
      "jn_ready (in_journal n) = jn_ready j" "jn_staged (in_journal n) = jn_staged j"
      by (subst j(2), simp)+
    show "(jn_previous_registration j, jn_previous_managed j, jn_previous_enabled j) = up_entries u"
      using f by (simp add: journal_facts_def)
  qed
qed

text \<open>A step that keeps \<open>mid\<close> and touches only directories keeps the program in hand.\<close>

lemma held_step:
  assumes "held u A n w" "iw_journals w' = iw_journals w" "iw_document w' = iw_document w"
    and "\<And>j. mid u A j w \<Longrightarrow> jn_backup (in_journal n) = jn_backup j \<Longrightarrow> mid u A j w'"
  shows "held u A n w'"
proof -
  from assms(1) obtain j where j: "open_with u A j w" "in_journal n = j\<lparr>jn_allowed := jn_allowed (in_journal n)\<rparr>"
    "set (jn_allowed j) \<subseteq> set (jn_allowed (in_journal n))"
    and stem: "in_stem n = up_id u"
    by (auto simp: held_def)
  have "jn_backup (in_journal n) = jn_backup j" by (subst j(2)) simp
  with assms(4) j(1) have "mid u A j w'" by (simp add: open_with_def)
  with j stem assms(2,3) have "open_with u A j w'" by (simp add: open_with_def)
  with j(2,3) stem show ?thesis unfolding held_def by blast
qed

lemma held_move:
  assumes "held u A n w" "iw_journals w' = iw_journals w" "iw_document w' = iw_document w"
    and "\<And>j. mid u A j w \<Longrightarrow> jn_backup (in_journal n) = jn_backup j \<Longrightarrow> jn_ready (in_journal n) = jn_ready j \<Longrightarrow>
      jn_source (in_journal n) = jn_source j \<Longrightarrow> mid u A j w'"
  shows "held u A n w'"
proof -
  from assms(1) obtain j where j: "open_with u A j w" "in_journal n = j\<lparr>jn_allowed := jn_allowed (in_journal n)\<rparr>"
    "set (jn_allowed j) \<subseteq> set (jn_allowed (in_journal n))"
    and stem: "in_stem n = up_id u"
    by (auto simp: held_def)
  have "jn_backup (in_journal n) = jn_backup j" "jn_ready (in_journal n) = jn_ready j"
    "jn_source (in_journal n) = jn_source j" by (subst j(2), simp)+
  with assms(4) j(1) have "mid u A j w'" by (simp add: open_with_def)
  with j stem assms(2,3) have "open_with u A j w'" by (simp add: open_with_def)
  with j(2,3) stem show ?thesis unfolding held_def by blast
qed

lemma held_backup_fresh:
  assumes "held u A n w" "up_before u = None"
  shows "jn_backup (in_journal n) = None"
  using assms(1)
proof (rule held_journal)
  fix j assume "mid u A j w" "jn_backup (in_journal n) = jn_backup j"
  then show ?thesis using assms(2) by (simp add: mid_def journal_facts_def)
qed

lemma held_registration:
  assumes "held u A n w" "up_before u = Some p"
  shows "\<exists>l. jn_previous_registration (in_journal n) = Some l \<and> path_eq (lr_path l) (up_target u)"
  using assms(1)
proof (rule held_journal)
  fix j assume "mid u A j w" "jn_previous_registration (in_journal n) = jn_previous_registration j"
  then show ?thesis using assms(2) by (auto simp: mid_def journal_facts_def)
qed

text \<open>
  After the target was cleared: nothing is there, or the previous package never left it and no
  backup exists.
\<close>

definition cleared :: "update \<Rightarrow> installation \<Rightarrow> install_world \<Rightarrow> bool" where
  "cleared u n w \<longleftrightarrow>
     (case jn_backup (in_journal n) of
        Some b \<Rightarrow> if entry_at b w = None then old_at u w else entry_at (up_target u) w = None
      | None \<Rightarrow> old_at u w)"

lemma wp_discard_target:
  assumes ok: "update_ok u" and held: "held u A n w"
    and have_backup: "hb \<longleftrightarrow> (\<exists>b. jn_backup (in_journal n) = Some b \<and> entry_at b w \<noteq> None)"
    and Q: "\<And>w'. held u A n w' \<Longrightarrow> cleared u n w' \<Longrightarrow>
      (\<forall>q. \<not> path_eq q (up_target u) \<longrightarrow> entry_at q w' = entry_at q w) \<Longrightarrow>
      iw_document w' = iw_document w \<Longrightarrow> Q () w'"
    and E: "\<And>x w'. held u A n w' \<Longrightarrow> E x w'" and S: "S w"
  shows "wp A (discard_target e n hb) Q E S w"
proof -
  from held obtain j where j: "mid u A j w" "jn_target (in_journal n) = up_target u"
    "jn_backup (in_journal n) = jn_backup j" "jn_previous_registration (in_journal n) = jn_previous_registration j"
    by (rule held_journal)
  then have facts: "journal_facts u j" "safe u j w" by (simp_all add: mid_def)
  have backup: "\<exists>b. jn_backup j = Some b \<and> entry_at b w \<noteq> None" if "up_before u \<noteq> None" "hb"
    using that have_backup j(3) by simp
  have hb: hb if "up_before u \<noteq> None" "case jn_previous_registration j of
      None \<Rightarrow> True | Some l \<Rightarrow> \<not> path_eq (lr_path l) (up_target u)"
    using that facts(1) by (auto simp: journal_facts_def split: option.splits)
  have diff: "\<not> path_eq b (up_target u)" if "jn_backup j = Some b" for b
    using that facts(1) backup_differs(1) [OF ok] by (auto simp: journal_facts_def split: option.splits)
  have cl: "cleared u n (drop_entry (up_target u) w)" if "up_before u \<noteq> None \<Longrightarrow> hb"
  proof (cases "jn_backup j")
    case None
    then have "up_before u = None" using facts(1) by (auto simp: journal_facts_def split: option.splits)
    then show ?thesis using None j(3) by (simp add: cleared_def old_at_def)
  next
    case (Some b)
    then have "up_before u \<noteq> None" using facts(1) by (cases "up_before u") (auto simp: journal_facts_def)
    with that have_backup j(3) Some have "entry_at b w \<noteq> None" by simp
    then show ?thesis using Some j(3) diff [OF Some] by (auto simp: cleared_def)
  qed
  have drop: "held u A n (drop_entry (up_target u) w)" if "up_before u \<noteq> None \<Longrightarrow> hb"
    by (rule held_step [OF held]) (use mid_discard(1) [OF ok] have_backup that in auto)
  have torn: "held u A n (put_entry (up_target u) Fragment w)" if "up_before u \<noteq> None \<Longrightarrow> hb" "Torn s \<in> A" for s
    by (rule held_step [OF held]) (use mid_discard(2) [OF ok _ _ that(2)] have_backup that in auto)
  have fresh: "case jn_previous_registration j of None \<Rightarrow> True | Some l \<Rightarrow> \<not> path_eq (lr_path l) (up_target u)"
    if "up_before u = None"
  proof -
    have "fst (up_entries u) = jn_previous_registration j" using facts(1) by (metis fst_conv journal_facts_def)
    then show ?thesis using ok that by (simp add: update_ok_def)
  qed
  let ?stays = "\<not> (exists_at (up_target u) w \<and> (hb \<or> (case jn_previous_registration j of
      None \<Rightarrow> True | Some l \<Rightarrow> \<not> path_eq (lr_path l) (up_target u))))"
  have stays: "cleared u n w" if ?stays
  proof (cases "up_before u")
    case None
    have "jn_backup j = None" using facts(1) None by (simp add: journal_facts_def)
    moreover have "entry_at (up_target u) w = None" using that fresh [OF None] by (auto simp: exists_at_iff)
    ultimately show ?thesis using None j(3) by (simp add: cleared_def old_at_def)
  next
    case (Some p)
    then obtain b where b: "jn_backup j = Some b" "(old_at u w \<and> entry_at b w = None) \<or> entry_at b w = Some (Package (upgraded p))"
      using facts(2) by (auto simp: safe_def)
    from b(2) show ?thesis
    proof (elim disjE conjE)
      assume "old_at u w" "entry_at b w = None"
      then show ?thesis using b(1) j(3) by (simp add: cleared_def)
    next
      assume bk: "entry_at b w = Some (Package (upgraded p))"
      then have hb using have_backup j(3) b(1) by simp
      with that have "entry_at (up_target u) w = None" by (simp add: exists_at_iff)
      then show ?thesis using bk b(1) j(3) by (simp add: cleared_def)
    qed
  qed
  have disc: "up_before u \<noteq> None \<Longrightarrow> hb" if "\<not> ?stays" using that hb by blast
  show ?thesis
    unfolding discard_target_def Let_def j(2,4)
  proof (intro wp_then wp_gets, rule wp_if, intro wp_intros)
    assume yes: "exists_at (up_target u) w \<and> (hb \<or> (case jn_previous_registration j of
      None \<Rightarrow> True | Some l \<Rightarrow> \<not> path_eq (lr_path l) (up_target u)))"
    have d: "up_before u \<noteq> None \<Longrightarrow> hb" using disc yes by blast
    show "Q () (drop_entry (up_target u) w)"
      by (rule Q [OF drop cl]) (use d in auto)
    show "E x (put_entry (up_target u) Fragment w)" if "Torn y \<in> A" for x y
      by (rule E [OF torn]) (use d that in auto)
  qed (use stays E [OF held] S Q [OF held] in \<open>auto intro!: wp_ret\<close>)
qed

text \<open>The backup, when there is one, goes back.\<close>

lemma wp_move_back:
  assumes ok: "update_ok u" and held: "held u A n w" and cleared: "cleared u n w"
    and backup: "backup = (case jn_backup (in_journal n) of
        None \<Rightarrow> None | Some b \<Rightarrow> if entry_at b w \<noteq> None then Some b else None)"
    and Q: "\<And>w' j. held u A n w' \<Longrightarrow> settled_old u (in_journal n) w' \<Longrightarrow> iw_document w' = iw_document w \<Longrightarrow> Q () w'"
    and E: "\<And>x w'. held u A n w' \<Longrightarrow> E x w'" and S: "\<And>w'. held u A n w' \<Longrightarrow> S w'"
  shows "wp A (case backup of None \<Rightarrow> ret () | Some b \<Rightarrow> relocate_prepared_package e b (jn_target (in_journal n)))
    Q E S w"
proof -
  from held obtain j where j: "mid u A j w" "jn_target (in_journal n) = up_target u"
    "jn_backup (in_journal n) = jn_backup j"
    by (rule held_journal)
  show ?thesis
  proof (cases backup)
    case None
    then have "settled_old u (in_journal n) w"
      using cleared backup by (auto simp: cleared_def settled_old_def split: option.splits if_splits)
    with None Q [OF held] show ?thesis by (simp add: wp_ret)
  next
    case (Some b)
    then have b: "jn_backup j = Some b" "entry_at b w \<noteq> None"
      using backup j(3) by (auto split: option.splits if_splits)
    then have free: "entry_at (up_target u) w = None" using cleared j(3) by (auto simp: cleared_def)
    note home = mid_restore [OF ok _ _ b(2) free]
    have same: "upgrade_at b w = w" by (rule home(4) [OF j(1) b(1)])
    have arrived: "held u A n (moved b (up_target u) w)"
      by (rule held_step [OF held]) (use home(1) b j(3) in auto)
    moreover have "settled_old u (in_journal n) (moved b (up_target u) w)"
      using home(2,3) [OF j(1) b(1)] b(1) j(3) by (simp add: settled_old_def)
    ultimately have "Q () (moved b (up_target u) w)" using Q by simp
    with Some same E [OF held] S [OF held] show ?thesis
      by (auto simp: j(2) intro!: wp_relocate)
  qed
qed

text \<open>The registration goes back in one write.\<close>

lemma held_document:
  assumes "held u A n w" "d = restore_doc (up_id u) (up_entries u) (iw_document w)"
  shows "held u A n (w\<lparr>iw_document := d\<rparr>)"
proof -
  from assms(1) obtain j where j: "open_with u A j w" "in_journal n = j\<lparr>jn_allowed := jn_allowed (in_journal n)\<rparr>"
    "set (jn_allowed j) \<subseteq> set (jn_allowed (in_journal n))"
    and stem: "in_stem n = up_id u"
    by (auto simp: held_def)
  have "mid u A j (w\<lparr>iw_document := d\<rparr>)"
    by (rule mid_other [where w = w]) (use j(1) assms(2) in \<open>simp_all add: open_with_def restore_twice\<close>)
  moreover have "entries_digest (up_env u) (up_id u) (up_entries u) \<in> set (jn_allowed j)"
    using j(1) by (simp add: open_with_def mid_def journal_facts_def)
  ultimately have "open_with u A j (w\<lparr>iw_document := d\<rparr>)"
    using j(1) assms(2) by (simp add: open_with_def entries_restored)
  with j(2,3) stem show ?thesis unfolding held_def by blast
qed

lemma wp_restore_registration:
  assumes ok: "update_ok u" and held: "held u A n w"
    and Q: "\<And>w' r. held u A n w' \<Longrightarrow>
      iw_document w' = restore_doc (up_id u) (up_entries u) (iw_document (up_start u)) \<Longrightarrow>
      (\<And>p. entry_at p w' = entry_at p w) \<Longrightarrow> Q (snapshot path (iw_document w')) w'"
    and E: "\<And>x. E x w" and S: "S w"
  shows "wp A (restore_registration e (in_journal n) (snapshot path (iw_document w))) Q E S w"
proof -
  from held obtain j where j: "mid u A j w" "jn_id (in_journal n) = up_id u"
    "jn_previous_registration (in_journal n) = jn_previous_registration j"
    "jn_previous_managed (in_journal n) = jn_previous_managed j"
    "jn_previous_enabled (in_journal n) = jn_previous_enabled j"
    "(jn_previous_registration j, jn_previous_managed j, jn_previous_enabled j) = up_entries u"
    by (rule held_journal)
  let ?r = "staged_restore (up_id u) (up_entries u) (snapshot path (iw_document w))"
  let ?d = "restore_doc (up_id u) (up_entries u) (iw_document w)"
  have id: "valid_plugin_id (up_id u)" using ok by (simp add: update_ok_def)
  have "restore_registration e (in_journal n) (snapshot path (iw_document w))
      = io_then (ret ?r) (save_registry e)"
    unfolding restore_registration_def j(2-5) enable_restored [OF id] j(6) ..
  moreover have "Q (snapshot path ?d) (w\<lparr>iw_document := ?d\<rparr>)"
    using Q [OF held_document [OF held refl]] j(1) by (simp add: mid_def)
  then have "wp A (save_registry e ?r) Q E S w"
    by (intro wp_save E S) (simp_all add: staged_restore_facts)
  ultimately show ?thesis by (auto intro: wp_then wp_ret)
qed

text \<open>Then the copies are cleaned up, and the journal goes last.\<close>

definition restored :: "update \<Rightarrow> answer set \<Rightarrow> installation \<Rightarrow> install_world \<Rightarrow> bool" where
  "restored u A n w \<longleftrightarrow>
     held u A n w \<and> settled_old u (in_journal n) w
     \<and> iw_document w = restore_doc (up_id u) (up_entries u) (iw_document (up_start u))"

lemma restored_held: "restored u A n w \<Longrightarrow> held u A n w"
  by (simp add: restored_def)

lemma restored_clean:
  assumes "restored u A n w" "entry_at p w \<noteq> None" "\<not> path_eq p (up_target u)"
  shows "restored u A n (drop_entry p w)" "Torn s \<in> A \<Longrightarrow> restored u A n (put_entry p Fragment w)"
proof -
  have held: "held u A n w" and settled: "settled_old u (in_journal n) w"
    and d: "iw_document w = restore_doc (up_id u) (up_entries u) (iw_document (up_start u))"
    using assms(1) by (simp_all add: restored_def)
  have settled': "settled_old u j w" if "jn_backup (in_journal n) = jn_backup j" for j
    using settled that by (simp add: settled_old_def)
  have "held u A n (drop_entry p w)"
    by (rule held_step [OF held]) (use mid_clean(1) [OF _ settled' assms(2,3)] in auto)
  then show "restored u A n (drop_entry p w)"
    using d settled_old_clean(1) [OF settled assms(2,3)] by (simp add: restored_def)
  show "restored u A n (put_entry p Fragment w)" if "Torn s \<in> A"
  proof -
    have "held u A n (put_entry p Fragment w)"
      by (rule held_step [OF held]) (use mid_clean(2) [OF _ settled' assms(2,3) that] in auto)
    then show ?thesis
      using d settled_old_clean(2) [OF settled assms(2,3)] by (simp add: restored_def)
  qed
qed

lemma wp_clean_each:
  assumes J: "J w" and target: "jn_target j = t"
    and step: "\<And>w p. J w \<Longrightarrow> entry_at p w \<noteq> None \<Longrightarrow> \<not> path_eq p t \<Longrightarrow> J (drop_entry p w)"
    and torn: "\<And>w p s. J w \<Longrightarrow> entry_at p w \<noteq> None \<Longrightarrow> \<not> path_eq p t \<Longrightarrow> Torn s \<in> A \<Longrightarrow>
      J (put_entry p Fragment w)"
  shows "wp A (clean_each e j r ps) (\<lambda>_. J) (\<lambda>_. J) J w"
  using J
proof (induction ps arbitrary: w)
  case Nil
  then show ?case by (simp add: wp_ret)
next
  case (Cons p ps)
  show ?case
    unfolding clean_each.simps
  proof (intro wp_then wp_gets, rule wp_if)
    assume "path_eq p (jn_target j) \<or> \<not> exists_at p w \<or> overlaps_registered r p"
    show "wp A (clean_each e j r ps) (\<lambda>_. J) (\<lambda>_. J) J w" by (rule Cons.IH [OF Cons.prems])
  next
    assume there: "\<not> (path_eq p (jn_target j) \<or> \<not> exists_at p w \<or> overlaps_registered r p)"
    show "wp A (io_then (inspect_prepared_package e p) (\<lambda>package.
        io_then (check_that (pm_id (pp_manifest package) = jn_id j) OtherPlugin) (\<lambda>_.
        io_then (remove_prepared_package e p) (\<lambda>_. clean_each e j r ps)))) (\<lambda>_. J) (\<lambda>_. J) J w"
      using there Cons.prems target
      by (intro wp_intros Cons.IH step torn) (auto simp: exists_at_iff)
  qed
qed

lemma wp_journal_remove:
  assumes "Q () (w\<lparr>iw_journals := bt_remove (in_stem n) (iw_journals w)\<rparr>)" "\<And>x. E x w" "S w"
  shows "wp A (journal_remove n) Q E S w"
  unfolding journal_remove_def by (intro wp_intros assms)

lemma bt_remove_insert:
  assumes "bt_get m k = None"
  shows "bt_remove k (bt_insert k v m) = m"
  using assms by (intro bt_eqI) auto

lemma restored_closed:
  assumes ok: "update_ok u" and done': "restored u A n w"
  shows "closed_old u (w\<lparr>iw_journals := bt_remove (in_stem n) (iw_journals w)\<rparr>)"
proof -
  from done' obtain j where j: "open_with u A j w" "in_stem n = up_id u"
    by (auto simp: restored_def held_def)
  have d: "iw_document w = restore_doc (up_id u) (up_entries u) (iw_document (up_start u))"
    using done' by (simp add: restored_def)
  have "bt_get (iw_journals (up_start u)) (up_id u) = None" using ok by (simp add: update_ok_def)
  then have "bt_remove (in_stem n) (iw_journals w) = iw_journals (up_start u)"
    using j by (simp add: open_with_def bt_remove_insert)
  moreover have "old_at u w" using done' by (simp add: restored_def settled_old_def)
  ultimately show ?thesis
    using j(1) d restore_own [OF refl] entries_restored
    by (simp add: closed_old_def open_with_def mid_def old_at_def cong: option.case_cong)
qed

lemma wp_rollback:
  assumes ok: "update_ok u" and held: "held u A n w"
  shows "wp A (rollback e n) (\<lambda>_. closed_old u) (\<lambda>_. held u A n) (held u A n) w"
proof -
  let ?E = "\<lambda>_. held u A n" and ?S = "held u A n"
  from held obtain j where target: "jn_target (in_journal n) = up_target u" by (rule held_journal)
  let ?b = "case jn_backup (in_journal n) of None \<Rightarrow> None
    | Some b \<Rightarrow> if exists_at b w then Some b else None"
  have clean: "wp A (io_then (clean_paths e n ps) (\<lambda>_. io_then (journal_remove n) (\<lambda>_. ret r)))
      (\<lambda>_. closed_old u) ?E ?S w'" if "restored u A n w'" for w' r ps
    unfolding clean_paths_def
  proof (intro wp_then wp_load)
    show "wp A (clean_each e (in_journal n) (snapshot (in_registry_path n) (iw_document w')) (path_set ps))
        (\<lambda>_. wp A (io_then (journal_remove n) (\<lambda>_. ret r)) (\<lambda>_. closed_old u) ?E ?S) ?E ?S w'"
    proof (rule wp_mono [OF wp_clean_each [where J = "restored u A n", OF that target]])
      fix w'' assume r: "restored u A n w''"
      then show "wp A (io_then (journal_remove n) (\<lambda>_. ret r)) (\<lambda>_. closed_old u) ?E ?S w''"
        by (intro wp_then wp_journal_remove wp_ret restored_closed [OF ok, where A = A]) (simp_all add: restored_def)
    qed (auto dest: restored_held intro: restored_clean)
  qed (use that in \<open>auto simp: restored_def\<close>)
  have registration: "wp A (io_then (restore_registration e (in_journal n) (snapshot path (iw_document w')))
      (\<lambda>r. io_then (clean_paths e n ps) (\<lambda>_. io_then (journal_remove n) (\<lambda>_. ret r))))
      (\<lambda>_. closed_old u) ?E ?S w'"
    if "held u A n w'" "settled_old u (in_journal n) w'" for w' path ps
  proof (rule wp_then, rule wp_restore_registration [OF ok that(1)])
    fix w'' r
    assume w'': "held u A n w''" "iw_document w'' = restore_doc (up_id u) (up_entries u) (iw_document (up_start u))"
      "\<And>p. entry_at p w'' = entry_at p w'"
    have "settled_old u (in_journal n) w'' = settled_old u (in_journal n) w'"
      unfolding settled_old_def old_at_def w''(3) ..
    with that(2) w'' have "restored u A n w''" by (simp add: restored_def)
    then show "wp A (io_then (clean_paths e n ps) (\<lambda>_. io_then (journal_remove n)
        (\<lambda>_. ret (snapshot path (iw_document w''))))) (\<lambda>_. closed_old u) ?E ?S w''"
      by (rule clean)
  qed (use that in auto)
  have move: "wp A (case ?b of None \<Rightarrow> ret () | Some b \<Rightarrow> relocate_prepared_package e b (jn_target (in_journal n)))
      (\<lambda>_. wp A (io_then (restore_registration e (in_journal n) (snapshot path (iw_document w)))
        (\<lambda>r. io_then (clean_paths e n ps) (\<lambda>_. io_then (journal_remove n) (\<lambda>_. ret r))))
        (\<lambda>_. closed_old u) ?E ?S) ?E ?S w'"
    if w': "held u A n w'" "cleared u n w'" "iw_document w' = iw_document w"
      "\<forall>q. \<not> path_eq q (up_target u) \<longrightarrow> entry_at q w' = entry_at q w" for w' path ps
  proof (rule wp_move_back [OF ok w'(1,2)])
    from held obtain j where j: "mid u A j w" "jn_backup (in_journal n) = jn_backup j" by (rule held_journal)
    have "\<not> path_eq b (up_target u)" if "jn_backup (in_journal n) = Some b" for b
      using j that backup_differs(1) [OF ok]
      by (cases "up_before u") (auto simp: mid_def journal_facts_def)
    then show "?b = (case jn_backup (in_journal n) of
        None \<Rightarrow> None | Some b \<Rightarrow> if entry_at b w' \<noteq> None then Some b else None)"
      using w'(4) by (auto simp: exists_at_iff split: option.split)
    show "wp A (io_then (restore_registration e (in_journal n) (snapshot path (iw_document w)))
        (\<lambda>r. io_then (clean_paths e n ps) (\<lambda>_. io_then (journal_remove n) (\<lambda>_. ret r))))
        (\<lambda>_. closed_old u) ?E ?S w''"
      if "held u A n w''" "settled_old u (in_journal n) w''" "iw_document w'' = iw_document w'" for w''
      using registration [OF that(1,2), of path ps] that(3) w'(3) by simp
  qed auto
  have hb: "?b \<noteq> None \<longleftrightarrow> (\<exists>b. jn_backup (in_journal n) = Some b \<and> entry_at b w \<noteq> None)"
    by (auto simp: exists_at_iff split: option.split)
  show ?thesis
    unfolding rollback_def Let_def
  proof (rule wp_then, rule wp_check_registration)
    show "wp A (io_then (gets (\<lambda>w. case jn_backup (in_journal n) of None \<Rightarrow> None
          | Some b \<Rightarrow> if exists_at b w then Some b else None)) (\<lambda>backup.
        io_then (case backup of Some b \<Rightarrow> check_previous e n b
          | None \<Rightarrow> (case jn_previous_registration (in_journal n) of
              None \<Rightarrow> ret () | Some l \<Rightarrow> check_previous e n (lr_path l))) (\<lambda>_.
        io_then (discard_target e n (backup \<noteq> None)) (\<lambda>_.
        io_then (case backup of None \<Rightarrow> ret () | Some b \<Rightarrow> relocate_prepared_package e b (jn_target (in_journal n))) (\<lambda>_.
        io_then (restore_registration e (in_journal n) (snapshot (in_registry_path n) (iw_document w))) (\<lambda>r.
        io_then (clean_paths e n [jn_ready (in_journal n), jn_staged (in_journal n)]) (\<lambda>_.
        io_then (journal_remove n) (\<lambda>_. ret r))))))))
        (\<lambda>_. closed_old u) ?E ?S w"
    proof (rule wp_then, rule wp_gets, rule wp_then)
      have "wp A (discard_target e n (?b \<noteq> None)) (\<lambda>_. wp A
          (io_then (case ?b of None \<Rightarrow> ret () | Some b \<Rightarrow> relocate_prepared_package e b (jn_target (in_journal n))) (\<lambda>_.
          io_then (restore_registration e (in_journal n) (snapshot (in_registry_path n) (iw_document w))) (\<lambda>r.
          io_then (clean_paths e n [jn_ready (in_journal n), jn_staged (in_journal n)]) (\<lambda>_.
          io_then (journal_remove n) (\<lambda>_. ret r)))))
          (\<lambda>_. closed_old u) ?E ?S) ?E ?S w"
        by (rule wp_discard_target [OF ok held hb]) (auto intro: wp_then move held)
      then show "wp A (case ?b of Some b \<Rightarrow> check_previous e n b
          | None \<Rightarrow> (case jn_previous_registration (in_journal n) of
              None \<Rightarrow> ret () | Some l \<Rightarrow> check_previous e n (lr_path l)))
        (\<lambda>_. wp A (io_then (discard_target e n (?b \<noteq> None)) (\<lambda>_.
          io_then (case ?b of None \<Rightarrow> ret () | Some b \<Rightarrow> relocate_prepared_package e b (jn_target (in_journal n))) (\<lambda>_.
          io_then (restore_registration e (in_journal n) (snapshot (in_registry_path n) (iw_document w))) (\<lambda>r.
          io_then (clean_paths e n [jn_ready (in_journal n), jn_staged (in_journal n)]) (\<lambda>_.
          io_then (journal_remove n) (\<lambda>_. ret r)))))) (\<lambda>_. closed_old u) ?E ?S) ?E ?S w"
        using held by (auto split: option.split intro!: wp_check_previous wp_ret wp_then)
    qed
  qed (use held in auto)
qed

end
