(* ===== verification/Install_Restart.thy ===== *)
theory Install_Restart
  imports Install_Rollback
begin

text \<open>
  Runs in which every call of the operating system succeeds. They are computations, and the
  recovery of an interrupted update is one that returns.
\<close>

section \<open>Evaluation without faults\<close>

lemma quiet_then: "m [] w = (Val x, [], w1) \<Longrightarrow> io_then m f [] w = f x [] w1"
  by (simp add: io_then_def)

lemma quiet_basic [simp]:
  "ret x [] w = (Val x, [], w)" "gets get [] w = (Val (get w), [], w)" "os_read [] w = (Val (), [], w)"
  "os_call f [] w = (Val (), [], f w)" "os_call_torn f f' [] w = (Val (), [], f w)"
  "b \<Longrightarrow> check_that b problem [] w = (Val (), [], w)"
  "r = Ok y \<Longrightarrow> lift_outcome h r [] w = (Val y, [], w)"
  "load_registry path [] w = (Val (snapshot path (iw_document w)), [], w)"
  by (simp_all add: ret_def gets_def os_read_def os_call_def os_call_torn_def check_that_def
      lift_outcome_def load_registry_def io_then_def)

lemma quiet_try: "m [] w = (Val x, [], w1) \<Longrightarrow> io_try m [] w = (Val (Inr x), [], w1)"
  by (simp add: io_try_def)

lemma quiet_inspect:
  "inspect_entry e p (entry_at p w) = Ok d \<Longrightarrow> inspect_prepared_package e p [] w = (Val d, [], w)"
  by (simp add: inspect_prepared_package_def quiet_then)

lemma quiet_package_at: "entry_at p w = Some (Package x) \<Longrightarrow> package_at p [] w = (Val x, [], w)"
  by (simp add: package_at_def quiet_then)

lemma quiet_receipt_at:
  "entry_at p w = Some (Package x) \<Longrightarrow> pg_receipt x = Some r \<Longrightarrow> receipt_at p [] w = (Val r, [], w)"
  by (simp add: receipt_at_def quiet_then quiet_package_at)

lemma quiet_remove:
  "inspect_entry e p (entry_at p w) = Ok d \<Longrightarrow> remove_prepared_package e p [] w = (Val (), [], drop_entry p w)"
  by (simp add: remove_prepared_package_def quiet_then quiet_inspect)

lemma path_eq_absolute: "path_eq p q \<Longrightarrow> path_is_absolute p \<longleftrightarrow> path_is_absolute q"
proof -
  have no_root: "map segment_component xs \<noteq> RootDir # r" for xs r
    by (cases xs) (auto simp: segment_component_def)
  have "path_is_absolute s \<longleftrightarrow> (\<exists>r. path_components s = RootDir # r)" for s
  proof (cases s)
    case (Cons c t)
    show ?thesis
    proof (cases "c = slash")
      case True
      with Cons show ?thesis by (simp add: path_is_absolute_def path_components_def Let_def)
    next
      case False
      obtain v vs where "split_on slash t = v # vs" using split_on_nonempty by (metis neq_Nil_conv)
      with Cons False have "split_on slash s = (c # v) # vs" by simp
      then have "path_components s \<noteq> RootDir # r" for r
        unfolding path_components_def Let_def using no_root [of _ r] by (simp add: segment_component_def)
      with Cons False show ?thesis by (simp add: path_is_absolute_def)
    qed
  qed (simp add: path_is_absolute_def path_components_def)
  then show "path_eq p q \<Longrightarrow> ?thesis" by (simp add: path_eq_def)
qed

lemma inspect_entry_path:
  assumes "inspect_entry e p x = Ok d" "path_eq p q"
  shows "inspect_entry e q x = Ok (d\<lparr>pp_path := q\<rparr>)"
proof -
  have same: "in_staging e q = in_staging e p" "path_file_name q = path_file_name p"
    "path_parent q = path_parent p" "path_is_absolute q = path_is_absolute p"
    using in_staging_eq [OF assms(2)] path_eq_absolute [OF assms(2)] assms(2)
    by (simp_all add: path_eq_def path_file_name_def path_parent_def)
  have receipts: "receipt_matches q r = receipt_matches p r" for r
    using assms(2) by (simp add: receipt_matches_def path_eq_def cong: option.case_cong)
  from assms(1) obtain g where g: "x = Some (Package g)" "inspect_package e p g = Ok d" "path_is_absolute p"
    "path_parent p = Some (path_components (managed_root e)) \<or> in_staging e p"
    by (rule inspect_entry_okE)
  from g(2) obtain r m md where "pg_receipt g = Some r" "receipt_matches p r" "validate_source (rc_source r) = Ok ()"
    "pt_digest (pg_tree g) = Ok (rc_tree r)" "pt_manifest (pg_tree g) = Ok m" "pt_metadata (pg_tree g) = Ok md"
    "in_staging e p \<or> path_file_name p = pm_id m \<or> starts_with (gs_sha256 (rc_source r) @ ''-'') (path_file_name p)"
    "d = \<lparr>pp_path = p, pp_source = rc_source r, pp_manifest = m, pp_metadata = md\<rparr>"
    unfolding inspect_package_ok by blast
  then have "inspect_package e q g = Ok (d\<lparr>pp_path := q\<rparr>)"
    unfolding inspect_package_ok same receipts by (intro exI [of _ r] exI [of _ m] exI [of _ md]) simp
  with g same show ?thesis by (auto simp: inspect_entry_def)
qed

lemma inspect_installed:
  assumes "env_ok e" "valid_plugin_id i" "inspect_package e (installed_path e i) p = Ok d"
  shows "inspect_entry e (installed_path e i) (Some (Package p)) = Ok d"
  using assms root_absolute(3) by (simp add: inspect_entry_def installed_parent)

lemma inspect_staged:
  assumes "in_staging e b" "path_is_absolute b" "inspect_package e b p = Ok d"
  shows "inspect_entry e b (Some (Package p)) = Ok d"
  using assms by (simp add: inspect_entry_def)

lemma quiet_relocate:
  assumes "entry_at s w = Some (Package p)" "inspect_entry e s (Some (Package p)) = Ok d"
    and "entry_at t w = None" "path_eq t (installed_path e (pm_id (pp_manifest d))) \<or> in_staging e t"
  shows "relocate_prepared_package e s t [] w = (Val (), [], moved s t w)"
proof -
  from assms(2) have d: "inspect_package e s p = Ok d" by (rule inspect_entry_okE) simp
  obtain r where r: "pg_receipt p = Some r" "rc_schema r \<noteq> 1 \<Longrightarrow> upgraded p = p"
    using inspect_schema [OF d] by blast
  have up: "upgrade_receipt s r [] w = (Val (), [], upgrade_at s w)"
  proof (cases "rc_schema r = 1")
    case True
    have "put_entry s (Package (p\<lparr>pg_receipt := Some (r\<lparr>rc_schema := 2, rc_path := None\<rparr>)\<rparr>)) w = upgrade_at s w"
      using assms(1) r by (simp add: upgrade_at_def upgraded_def)
    with True assms(1) show ?thesis by (simp add: upgrade_receipt_def quiet_then quiet_package_at)
  next
    case False
    then have "upgrade_at s w = w"
      using r put_same [OF assms(1)] assms(1) by (simp add: upgrade_at_def)
    with False show ?thesis by (simp add: upgrade_receipt_def)
  qed
  have free: "\<not> exists_at t w" using assms(3) by (simp add: exists_at_iff)
  have ok: "(if path_eq t (installed_path e (pm_id (pp_manifest d))) then ret True
      else io_then os_read (\<lambda>_. ret (in_staging e t))) [] w = (Val True, [], w)"
    using assms(4) by (auto simp: quiet_then)
  show ?thesis
    unfolding relocate_prepared_package_def
    using assms(1,2) free r(1)
    by (simp add: quiet_then quiet_inspect quiet_receipt_at ok up moved_def)
qed

lemma overlaid_restore:
  fixes i lmb path d
  defines "r \<equiv> staged_restore i lmb (snapshot path d)"
  shows "overlaid (rd_local (rg_document r)) (rg_pending_local r) (rg_local r)"
    "overlaid (rd_managed (rg_document r)) (rg_pending_managed r) (rg_managed r)"
proof -
  obtain l m b where lmb: "lmb = (l, m, b)" by (cases lmb)
  let ?s = "snapshot path d" let ?l = "stage_local i l ?s"
  have s: "overlaid (rd_local (rg_document ?s)) (rg_pending_local ?s) (rg_local ?s)"
    "overlaid (rd_managed (rg_document ?s)) (rg_pending_managed ?s) (rg_managed ?s)"
    by (simp_all add: overlaid_def)
  from local_map.stage_overlaid [OF s(1), of i l] show "overlaid (rd_local (rg_document r)) (rg_pending_local r) (rg_local r)"
    by (simp add: r_def lmb staged_restore_def restore_managed_def)
  have "overlaid (rd_managed (rg_document ?l)) (rg_pending_managed ?l) (rg_managed ?l)" using s(2) by simp
  from managed_map.stage_overlaid [OF this, of i m]
  show "overlaid (rd_managed (rg_document r)) (rg_pending_managed r) (rg_managed r)"
    by (simp add: r_def lmb staged_restore_def restore_managed_def)
qed

lemma quiet_restore:
  assumes "storable (ie_codec e) path (restore_doc i lmb (iw_document w))"
  shows "save_registry e (staged_restore i lmb (snapshot path (iw_document w))) [] w =
    (Val (snapshot path (restore_doc i lmb (iw_document w))), [],
     w\<lparr>iw_document := restore_doc i lmb (iw_document w)\<rparr>)"
proof -
  let ?r = "staged_restore i lmb (snapshot path (iw_document w))"
  note facts = staged_restore_facts [of i lmb path "iw_document w"]
  note conflicts = no_conflict [OF overlaid_restore facts(2)]
  from assms obtain bytes where "cx_to (ie_codec e) (restore_doc i lmb (iw_document w)) = Ok bytes"
    "length bytes < MAX_REGISTRY_BYTES" "document_validate (ie_codec e) path (restore_doc i lmb (iw_document w)) = Ok ()"
    by (auto simp: storable_def)
  then have "write_registry e path (restore_doc i lmb (iw_document w)) [] w =
    (Val (snapshot path (restore_doc i lmb (iw_document w))), [],
     w\<lparr>iw_document := restore_doc i lmb (iw_document w)\<rparr>)"
    by (simp add: write_registry_def quiet_then)
  then show ?thesis
    unfolding save_registry_def by (simp add: quiet_then conflicts facts)
qed

section \<open>A rollback that returns\<close>

lemma path_set_subset: "set (path_set ps) \<subseteq> set ps"
proof -
  let ?add = "\<lambda>p m. if bt_has m (path_components p) then m else bt_insert (path_components p) p m"
  have "\<forall>k v. bt_get (fold ?add ps m) k = Some v \<longrightarrow> v \<in> S"
    if "set ps \<subseteq> S" "\<forall>k v. bt_get m k = Some v \<longrightarrow> v \<in> S" for m S
    using that
  proof (induction ps arbitrary: m)
    case (Cons p ps)
    then have "\<forall>k v. bt_get (?add p m) k = Some v \<longrightarrow> v \<in> S" by (simp del: bt_has_iff)
    with Cons.IH [of "?add p m"] Cons.prems(1) show ?case unfolding fold.simps comp_apply by auto
  qed simp
  from this [of "set ps" bt_empty] have "v \<in> set ps" if "bt_get (fold ?add ps bt_empty) k = Some v" for k v
    using that by auto
  then show ?thesis
    by (auto simp: path_set_def bt_values_def in_entries)
qed

lemma quiet_clean_each:
  assumes "update_ok u" "\<forall>p \<in> set ps. disposable u p w" "jn_id j = up_id u" "jn_target j = up_target u"
  shows "\<exists>w'. clean_each (up_env u) j r ps [] w = (Val (), [], w') \<and> iw_journals w' = iw_journals w"
  using assms(2)
proof (induction ps arbitrary: w)
  case (Cons p ps)
  show ?case
  proof (cases "path_eq p (jn_target j) \<or> \<not> exists_at p w \<or> overlaps_registered r p")
    case True
    with Cons show ?thesis by (simp add: quiet_then)
  next
    case False
    then obtain d where d: "inspect_entry (up_env u) p (entry_at p w) = Ok d" "pm_id (pp_manifest d) = up_id u"
      using Cons.prems assms(4) by (auto simp: disposable_def exists_at_iff)
    from Cons.IH [of "drop_entry p w"] Cons.prems obtain w' where
      "clean_each (up_env u) j r ps [] (drop_entry p w) = (Val (), [], w')" "iw_journals w' = iw_journals w"
      by (auto simp: disposable_drop)
    with False d assms(3) show ?thesis
      by (simp add: quiet_then quiet_inspect quiet_remove)
  qed
qed simp

lemma quiet_clean_paths:
  assumes "update_ok u" "\<forall>p \<in> set ps. disposable u p w"
    "jn_id (in_journal n) = up_id u" "jn_target (in_journal n) = up_target u"
  shows "\<exists>w'. clean_paths (up_env u) n ps [] w = (Val (), [], w') \<and> iw_journals w' = iw_journals w"
  using quiet_clean_each [OF assms(1) _ assms(3,4), of "path_set ps" w] path_set_subset [of ps] assms(2)
  by (auto simp: clean_paths_def quiet_then)

text \<open>The package the journal relies on passes the checks of the rollback.\<close>

lemma prior_inspect:
  assumes "update_ok u" "prior_checked u" "up_before u = Some p" "x = Package p \<or> x = Package (upgraded p)"
  obtains d m v where "inspect_entry (up_env u) (up_target u) (Some x) = Ok d"
    "fst (snd (up_entries u)) = Some m" "managed_current m = Some v"
    "pp_source d = mv_source v" "pp_manifest d = mv_manifest v" "pm_id (pp_manifest d) = up_id u"
    "\<And>b. in_staging (up_env u) b \<Longrightarrow> path_is_absolute b \<Longrightarrow>
      inspect_entry (up_env u) b (Some (Package (upgraded p))) = Ok (d\<lparr>pp_path := b\<rparr>)"
proof -
  from assms(2,3) obtain d m v where d: "inspect_package (up_env u) (up_target u) p = Ok d"
    "fst (snd (up_entries u)) = Some m" "managed_current m = Some v"
    "pp_source d = mv_source v" "pp_manifest d = mv_manifest v" "pm_id (pp_manifest d) = up_id u"
    by (auto simp: prior_checked_def)
  have id: "valid_plugin_id (up_id u)" "env_ok (up_env u)" using assms(1) by (simp_all add: update_ok_def)
  have same: "d\<lparr>pp_path := up_target u\<rparr> = d" using inspect_path [OF d(1)] by simp
  have "inspect_package (up_env u) (up_target u) (upgraded p) = Ok d"
    using inspect_upgraded [OF d(1), of "up_target u"] d(6) installed_file_name [OF id(1)] same by simp
  with d(1) assms(4) have "inspect_entry (up_env u) (up_target u) (Some x) = Ok d"
    by (auto intro: inspect_installed [OF id(2,1)])
  moreover have "inspect_entry (up_env u) b (Some (Package (upgraded p))) = Ok (d\<lparr>pp_path := b\<rparr>)"
    if "in_staging (up_env u) b" "path_is_absolute b" for b
    by (rule inspect_staged [OF that]) (rule inspect_upgraded [OF d(1)], simp add: that)
  ultimately show thesis using that d by blast
qed

lemma quiet_check_previous:
  assumes "jn_previous_managed (in_journal n) = Some m" "managed_current m = Some v"
    and "inspect_entry e path (entry_at path w) = Ok d" "pp_source d = mv_source v" "pp_manifest d = mv_manifest v"
  shows "check_previous e n path [] w = (Val (), [], w)"
  using assms by (simp add: check_previous_def quiet_then quiet_inspect)

lemma quiet_discard_skip:
  assumes "\<not> (exists_at (jn_target (in_journal n)) w \<and> (hb \<or> (case jn_previous_registration (in_journal n) of
      None \<Rightarrow> True | Some l \<Rightarrow> \<not> path_eq (lr_path l) (jn_target (in_journal n)))))"
  shows "discard_target e n hb [] w = (Val (), [], w)"
  using assms unfolding discard_target_def Let_def by (auto simp: quiet_then)

lemma quiet_discard:
  assumes "exists_at (jn_target (in_journal n)) w \<and> (hb \<or> (case jn_previous_registration (in_journal n) of
      None \<Rightarrow> True | Some l \<Rightarrow> \<not> path_eq (lr_path l) (jn_target (in_journal n))))"
    and "inspect_entry e (jn_target (in_journal n)) (entry_at (jn_target (in_journal n)) w) = Ok d"
    "pp_source d = jn_source (in_journal n)" "pm_id (pp_manifest d) = jn_id (in_journal n)"
  shows "discard_target e n hb [] w = (Val (), [], drop_entry (jn_target (in_journal n)) w)"
  using assms unfolding discard_target_def Let_def by (simp add: quiet_then quiet_inspect quiet_remove)

lemma quiet_journal_remove:
  "bt_has (iw_journals w) (in_stem n) \<Longrightarrow>
     journal_remove n [] w = (Val (), [], w\<lparr>iw_journals := bt_remove (in_stem n) (iw_journals w)\<rparr>)"
  by (simp add: journal_remove_def quiet_then del: bt_has_iff)

text \<open>
  The first three steps of a rollback: they return, and leave what the later steps need.
\<close>

definition ready_to_restore :: "update \<Rightarrow> journal \<Rightarrow> string option \<Rightarrow> install_world \<Rightarrow> bool" where
  "ready_to_restore u j backup w \<longleftrightarrow>
     disposable u (jn_ready j) w \<and> disposable u (jn_staged j) w
     \<and> (case backup of None \<Rightarrow> True
        | Some b \<Rightarrow> entry_at (up_target u) w = None
            \<and> (\<exists>p d. entry_at b w = Some (Package p) \<and> inspect_entry (up_env u) b (Some (Package p)) = Ok d
                 \<and> pm_id (pp_manifest d) = up_id u))"

lemma quiet_checks:
  assumes ok: "update_ok u" and opened: "open_with u {} j w" and n: "in_journal n = j"
    and backup: "backup = (case jn_backup j of None \<Rightarrow> None | Some b \<Rightarrow> if exists_at b w then Some b else None)"
  shows "(case backup of Some b \<Rightarrow> check_previous (up_env u) n b
      | None \<Rightarrow> (case jn_previous_registration j of
          None \<Rightarrow> ret () | Some l \<Rightarrow> check_previous (up_env u) n (lr_path l))) [] w = (Val (), [], w)
    \<and> (\<exists>w'. discard_target (up_env u) n (backup \<noteq> None) [] w = (Val (), [], w')
      \<and> ready_to_restore u j backup w' \<and> iw_document w' = iw_document w \<and> iw_journals w' = iw_journals w)"
proof -
  have facts: "journal_facts u j" "safe u j w" "tidy_state u j w"
    using opened by (simp_all add: open_with_def mid_def tidy_def)
  have j: "jn_id j = up_id u" "jn_target j = up_target u"
    "(jn_previous_registration j, jn_previous_managed j, jn_previous_enabled j) = up_entries u"
    using facts(1) by (simp_all add: journal_facts_def)
  have previous: "fst (up_entries u) = jn_previous_registration j" "fst (snd (up_entries u)) = jn_previous_managed j"
    by (simp_all flip: j(3))
  have id: "valid_plugin_id (up_id u)" "env_ok (up_env u)" using ok by (simp_all add: update_ok_def)
  have prior: "prior_checked u" and disp: "disposable u (jn_ready j) w" "disposable u (jn_staged j) w"
    using facts(3) by (simp_all add: tidy_state_def)
  have new: "inspect_entry (up_env u) (up_target u) (entry_at (up_target u) w) = Ok d" if
    "entry_at (up_target u) w = Some (Package q)" "inspect_package (up_env u) (up_target u) q = Ok d" for q d
    using inspect_installed [OF id(2,1) that(2)] that(1) by simp
  show ?thesis
  proof (cases "up_before u")
    case None
    then have b: "jn_backup j = None" "jn_previous_registration j = None"
      using facts(1) prior previous by (simp_all add: journal_facts_def prior_checked_def)
    have bk: "backup = None" using b(1) backup by simp
    have "entry_at (up_target u) w = None \<or> new_at u j w" using facts(3) None by (simp add: tidy_state_def)
    then have "\<exists>w'. discard_target (up_env u) n False [] w = (Val (), [], w')
        \<and> ready_to_restore u j None w' \<and> iw_document w' = iw_document w \<and> iw_journals w' = iw_journals w"
    proof
      assume "entry_at (up_target u) w = None"
      then have "discard_target (up_env u) n False [] w = (Val (), [], w)"
        by (intro quiet_discard_skip) (simp add: n j exists_at_iff)
      then show ?thesis using disp by (simp add: ready_to_restore_def)
    next
      assume "new_at u j w"
      then obtain q d where q: "entry_at (up_target u) w = Some (Package q)"
        "inspect_package (up_env u) (up_target u) q = Ok d" "pp_source d = jn_source j" "pm_id (pp_manifest d) = up_id u"
        by (auto simp: new_at_def)
      have "discard_target (up_env u) n False [] w = (Val (), [], drop_entry (jn_target (in_journal n)) w)"
        by (rule quiet_discard) (use q new [OF q(1,2)] b(2) n j in \<open>auto simp: exists_at_iff\<close>)
      then show ?thesis using disp by (simp add: ready_to_restore_def disposable_drop)
    qed
    then show ?thesis using bk b(2) by simp
  next
    case (Some p)
    from facts(1) Some obtain b l where b: "jn_backup j = Some b" "in_staging (up_env u) b" "path_is_absolute b"
      and l: "jn_previous_registration j = Some l" "path_eq (lr_path l) (up_target u)"
      by (auto simp: journal_facts_def)
    have prior': "\<exists>d m v. inspect_entry (up_env u) (up_target u) (Some x) = Ok d
        \<and> jn_previous_managed j = Some m \<and> managed_current m = Some v
        \<and> pp_source d = mv_source v \<and> pp_manifest d = mv_manifest v \<and> pm_id (pp_manifest d) = up_id u
        \<and> (in_staging (up_env u) b \<longrightarrow> path_is_absolute b \<longrightarrow>
            inspect_entry (up_env u) b (Some (Package (upgraded p))) = Ok (d\<lparr>pp_path := b\<rparr>))"
      if "x = Package p \<or> x = Package (upgraded p)" for x
      by (rule prior_inspect [OF ok prior Some that]) (metis previous(2))
    show ?thesis
    proof (cases "entry_at b w = None")
      case True
      then have bk: "backup = None" using b(1) backup by (simp add: exists_at_iff)
      have "old_at u w" using facts(2) True Some b(1) by (auto simp: safe_def)
      then obtain x where x: "entry_at (up_target u) w = Some x" "x = Package p \<or> x = Package (upgraded p)"
        using Some by (auto simp: old_at_def)
      from prior' [OF x(2)] obtain d m v where d: "inspect_entry (up_env u) (up_target u) (Some x) = Ok d"
        "jn_previous_managed j = Some m" "managed_current m = Some v"
        "pp_source d = mv_source v" "pp_manifest d = mv_manifest v" by blast
      have eq: "path_eq (up_target u) (lr_path l)" using l(2) path_eq_sym by blast
      have "inspect_entry (up_env u) (lr_path l) (entry_at (lr_path l) w) = Ok (d\<lparr>pp_path := lr_path l\<rparr>)"
        using inspect_entry_path [OF d(1) eq] entry_at_eq [OF l(2), of w] x(1) by simp
      then have "check_previous (up_env u) n (lr_path l) [] w = (Val (), [], w)"
        by (intro quiet_check_previous [where m = m and v = v and d = "d\<lparr>pp_path := lr_path l\<rparr>"])
          (use d n in auto)
      moreover have "discard_target (up_env u) n False [] w = (Val (), [], w)"
        by (rule quiet_discard_skip) (use n j l in auto)
      moreover have "ready_to_restore u j None w" using disp by (simp add: ready_to_restore_def)
      ultimately show ?thesis using bk l(1) by simp
    next
      case False
      then have bk: "backup = Some b" using b(1) backup by (simp add: exists_at_iff)
      have there: "entry_at b w = Some (Package (upgraded p))" using facts(2) False Some b(1) by (auto simp: safe_def)
      from prior' [of "Package p"] b(2,3) obtain d m v where
        d: "jn_previous_managed j = Some m" "managed_current m = Some v"
          "pp_source d = mv_source v" "pp_manifest d = mv_manifest v" "pm_id (pp_manifest d) = up_id u"
          "inspect_entry (up_env u) b (Some (Package (upgraded p))) = Ok (d\<lparr>pp_path := b\<rparr>)" by blast
      have check: "check_previous (up_env u) n b [] w = (Val (), [], w)"
        by (rule quiet_check_previous [where m = m and v = v and d = "d\<lparr>pp_path := b\<rparr>"])
          (use d n there in auto)
      note diff = backup_differs [OF ok b(2)]
      have "entry_at (up_target u) w = None \<or> new_at u j w"
        using facts(3) Some b(1) False by (auto simp: tidy_state_def)
      then have "\<exists>w'. discard_target (up_env u) n True [] w = (Val (), [], w')
          \<and> ready_to_restore u j (Some b) w' \<and> iw_document w' = iw_document w \<and> iw_journals w' = iw_journals w"
      proof
        assume "entry_at (up_target u) w = None"
        moreover from this have "discard_target (up_env u) n True [] w = (Val (), [], w)"
          by (intro quiet_discard_skip) (simp add: n j exists_at_iff)
        ultimately show ?thesis using disp there d by (auto simp: ready_to_restore_def)
      next
        assume "new_at u j w"
        then obtain q d' where q: "entry_at (up_target u) w = Some (Package q)"
          "inspect_package (up_env u) (up_target u) q = Ok d'" "pp_source d' = jn_source j" "pm_id (pp_manifest d') = up_id u"
          by (auto simp: new_at_def)
        have "discard_target (up_env u) n True [] w = (Val (), [], drop_entry (jn_target (in_journal n)) w)"
          by (rule quiet_discard) (use q new [OF q(1,2)] n j in \<open>auto simp: exists_at_iff\<close>)
        then show ?thesis using disp there d diff by (auto simp: ready_to_restore_def disposable_drop n j)
      qed
      with bk check show ?thesis by simp
    qed
  qed
qed

lemma quiet_rollback:
  assumes ok: "update_ok u" and opened: "open_with u {} j w"
    and n: "n = \<lparr>in_registry_path = path, in_stem = up_id u, in_journal = j\<rparr>"
    and stored: "storable (ie_codec (up_env u)) path (restore_doc (up_id u) (up_entries u) (iw_document w))"
  shows "\<exists>r w'. rollback (up_env u) n [] w = (Val r, [], w')"
proof -
  have facts: "journal_facts u j" using opened by (simp add: open_with_def mid_def)
  have j: "jn_id j = up_id u" "jn_target j = up_target u"
    "(jn_previous_registration j, jn_previous_managed j, jn_previous_enabled j) = up_entries u"
    using facts by (simp_all add: journal_facts_def)
  have id: "valid_plugin_id (up_id u)" using ok by (simp add: update_ok_def)
  have nj: "in_journal n = j" "in_registry_path n = path" "in_stem n = up_id u" by (simp_all add: n)
  let ?s = "snapshot path (iw_document w)"
  have digest: "registration_digest (up_env u) ?s (up_id u) \<in> set (jn_allowed j)"
    using opened by (simp add: registration_digest_view open_with_def)
  have check: "check_registration (up_env u) n [] w = (Val ?s, [], w)"
    using digest by (simp add: check_registration_def nj j quiet_then)
  define backup where "backup = (case jn_backup j of None \<Rightarrow> None | Some b \<Rightarrow> if exists_at b w then Some b else None)"
  note checks = quiet_checks [OF ok opened nj(1) backup_def]
  then obtain w1 where w1: "discard_target (up_env u) n (backup \<noteq> None) [] w = (Val (), [], w1)"
    "ready_to_restore u j backup w1" "iw_document w1 = iw_document w" "iw_journals w1 = iw_journals w"
    by blast
  have "\<exists>w2. (case backup of None \<Rightarrow> ret () | Some b \<Rightarrow> relocate_prepared_package (up_env u) b (jn_target j)) [] w1
      = (Val (), [], w2) \<and> iw_document w2 = iw_document w \<and> iw_journals w2 = iw_journals w
      \<and> disposable u (jn_ready j) w2 \<and> disposable u (jn_staged j) w2"
  proof (cases backup)
    case None
    with w1 show ?thesis by (simp add: ready_to_restore_def)
  next
    case (Some b)
    with w1(2) obtain p d where b: "entry_at (up_target u) w1 = None" "entry_at b w1 = Some (Package p)"
      "inspect_entry (up_env u) b (Some (Package p)) = Ok d" "pm_id (pp_manifest d) = up_id u"
      by (auto simp: ready_to_restore_def)
    have "relocate_prepared_package (up_env u) b (jn_target j) [] w1 = (Val (), [], moved b (up_target u) w1)"
      unfolding j(2) by (rule quiet_relocate [OF b(2,3,1)]) (simp add: b(4))
    moreover have "disposable u x (moved b (up_target u) w1)" if "disposable u x w1" for x
      using that entry_at_moved [OF b(2), of x "up_target u"] by (auto simp: disposable_def)
    ultimately show ?thesis using Some w1 by (simp add: ready_to_restore_def)
  qed
  then obtain w2 where w2: "(case backup of None \<Rightarrow> ret () | Some b \<Rightarrow> relocate_prepared_package (up_env u) b (jn_target j)) [] w1
      = (Val (), [], w2)" "iw_document w2 = iw_document w" "iw_journals w2 = iw_journals w"
      "disposable u (jn_ready j) w2" "disposable u (jn_staged j) w2"
    by blast
  let ?d = "restore_doc (up_id u) (up_entries u) (iw_document w)"
  let ?w3 = "w2\<lparr>iw_document := ?d\<rparr>"
  have restore: "restore_registration (up_env u) j ?s [] w2 = (Val (snapshot path ?d), [], ?w3)"
    unfolding restore_registration_def j(1) enable_restored [OF id] j(3)
    using quiet_restore [of "up_env u" path "up_id u" "up_entries u" w2] stored w2(2)
    by (simp add: quiet_then)
  have "\<forall>p \<in> set [jn_ready j, jn_staged j]. disposable u p ?w3"
    using w2(4,5) by (simp add: disposable_def)
  from quiet_clean_paths [OF ok this, of n] nj j obtain w4 where
    w4: "clean_paths (up_env u) n [jn_ready j, jn_staged j] [] ?w3 = (Val (), [], w4)" "iw_journals w4 = iw_journals w"
    using w2(3) by auto
  have "bt_has (iw_journals w4) (in_stem n)" using w4(2) opened nj by (simp add: open_with_def)
  then have remove: "journal_remove n [] w4 = (Val (), [], w4\<lparr>iw_journals := bt_remove (in_stem n) (iw_journals w4)\<rparr>)"
    by (rule quiet_journal_remove)
  show ?thesis
    unfolding rollback_def Let_def nj
    using checks
    by (simp add: quiet_then check backup_def [symmetric] w1(1) w2(1) restore w4(1) remove del: not_None_eq)
qed

end
