(* ===== verification/Install_Publish.thy ===== *)
theory Install_Publish
  imports Install_Restart
begin

text \<open>
  A publication with any answers: it returns with the new package at the target and the journal
  still open, or it leaves a disk from which the previous state can be restored.
\<close>

section \<open>Opening the transaction\<close>

lemma grown_closed:
  assumes "update_ok u" "grown (up_env u) (up_start u) w"
  shows "closed_old u w"
proof -
  have "\<not> in_staging (up_env u) (up_target u)"
    using assms(1) installed_not_in_staging by (simp add: update_ok_def)
  from grown_outside [OF assms(2) this] have "entry_at (up_target u) w = map_option Package (up_before u)"
    using assms(1) by (simp add: update_ok_def)
  then show ?thesis
    using grown_fields [OF assms(2)] by (simp add: closed_old_def old_at_def split: option.split)
qed

lemma wp_validate_current:
  assumes "(\<And>v. selected_version r i = Some v \<Longrightarrow> \<exists>p d. entry_at (mv_package_path v) w = Some (Package p)
      \<and> inspect_package e (mv_package_path v) p = Ok d
      \<and> pp_source d = mv_source v \<and> pp_manifest d = mv_manifest v) \<Longrightarrow> Q () w"
    and "\<And>x. E x w" "S w"
  shows "wp A (validate_current e r i) Q E S w"
proof (cases "selected_version r i")
  case None
  with assms(1) show ?thesis by (simp add: validate_current_def wp_ret)
next
  case (Some v)
  show ?thesis
    unfolding validate_current_def Some option.case
    by (intro wp_then wp_inspect wp_tree_at wp_outcome wp_check assms)
      (use Some in \<open>auto dest: inspect_manifest\<close>)
qed

lemma wp_backup_path:
  assumes "env_ok e"
    and none: "entry_at t w = None \<Longrightarrow> Q None w"
    and some: "\<And>b w'. entry_at t w \<noteq> None \<Longrightarrow> grown e w w' \<Longrightarrow> in_staging e b \<Longrightarrow> path_is_absolute b \<Longrightarrow>
      (\<forall>q. entry_at q w' = entry_at q w) \<Longrightarrow> entry_at b w = None \<Longrightarrow> Q (Some b) w'"
    and E: "\<And>x w'. grown e w w' \<Longrightarrow> E x w'" and S: "\<And>w'. grown e w w' \<Longrightarrow> S w'"
  shows "wp A (backup_path e t) Q E S w"
  unfolding backup_path_def
proof (intro wp_then wp_gets, rule wp_if)
  assume there: "exists_at t w"
  show "wp A (io_then os_read (\<lambda>_. io_then (fresh_directory e ''backup-'') (\<lambda>b.
      io_then (os_call (drop_entry b)) (\<lambda>_. ret (Some b))))) Q E S w"
  proof (intro wp_then wp_read)
    show "wp A (fresh_directory e ''backup-'') (\<lambda>b. wp A (io_then (os_call (drop_entry b))
        (\<lambda>_. ret (Some b))) Q E S) E S w"
    proof (rule wp_fresh_directory [OF assms(1)])
      fix b w'
      assume b: "grown e w w'" "in_staging e b" "path_is_absolute b" "entry_at b w = None"
        "entry_at b w' = Some Fragment" "\<forall>q. \<not> path_eq q b \<longrightarrow> entry_at q w' = entry_at q w"
      have "entry_at q (drop_entry b w') = entry_at q w" for q
        using b(4,6) entry_at_eq [of q b w] by simp
      then show "wp A (io_then (os_call (drop_entry b)) (\<lambda>_. ret (Some b))) Q E S w'"
        using there b by (intro wp_then wp_call wp_ret some E S grown_drop) (auto simp: exists_at_iff)
    qed (auto intro: E S)
  qed (auto intro: E S)
qed (use none in \<open>auto simp: exists_at_iff intro!: wp_ret\<close>)

lemma wp_clear_none:
  assumes "bt_get (iw_pending w) i = None" "Q () w" "\<And>x. E x w" "S w"
  shows "wp A (clear_registration_checkpoint e r i) Q E S w"
  unfolding clear_registration_checkpoint_def
  by (intro wp_then wp_read wp_gets wp_if wp_ret) (use assms in auto)

lemma wp_journal_save:
  assumes "Q () (w\<lparr>iw_journals := bt_insert (in_stem n) (Stored (in_journal n)) (iw_journals w)\<rparr>)" "\<And>x. E x w" "S w"
  shows "wp A (journal_save e n) Q E S w"
  unfolding journal_save_def by (intro wp_intros assms)

text \<open>
  What is assumed for a recovery that returns: the selected package is one of this plugin, and
  a package at the target is the recorded version of a managed plugin.
\<close>

definition plain_update :: "update \<Rightarrow> plugin_registry \<Rightarrow> bool" where
  "plain_update u candidate \<longleftrightarrow>
     (\<forall>v p d. selected_version candidate (up_id u) = Some v
        \<and> entry_at (mv_package_path v) (up_start u) = Some (Package p)
        \<and> inspect_package (up_env u) (mv_package_path v) p = Ok d \<longrightarrow> pm_id (pp_manifest d) = up_id u)
     \<and> (case up_before u of
          None \<Rightarrow> fst (up_entries u) = None
        | Some p \<Rightarrow> \<exists>m v. fst (snd (up_entries u)) = Some m \<and> managed_current m = Some v
            \<and> path_eq (mv_package_path v) (up_target u) \<and> pm_id (mv_manifest v) = up_id u)"

text \<open>The state between the first journal and the swap of the directories.\<close>

definition swap_ready :: "update \<Rightarrow> plugin_registry \<Rightarrow> installation \<Rightarrow> install_world \<Rightarrow> bool" where
  "swap_ready u candidate n w \<longleftrightarrow>
     settled_old u (in_journal n) w \<and> iw_document w = iw_document (up_start u)
     \<and> (\<exists>v p d. selected_version candidate (up_id u) = Some v
          \<and> entry_at (mv_package_path v) (up_start u) = Some (Package p)
          \<and> inspect_package (up_env u) (mv_package_path v) p = Ok d
          \<and> entry_at (jn_ready (in_journal n)) w = Some (Package (upgraded p))
          \<and> pp_source d = jn_source (in_journal n))"

lemma validated_prior:
  assumes ok: "update_ok u" and plain: "plain_update u candidate" and previous: "view_of_entries (up_id u) previous = up_entries u"
    and checked: "entry_at (up_target u) w \<noteq> None \<Longrightarrow>
      (\<And>v. selected_version previous (up_id u) = Some v \<Longrightarrow> \<exists>p d. entry_at (mv_package_path v) w = Some (Package p)
        \<and> inspect_package (up_env u) (mv_package_path v) p = Ok d
        \<and> pp_source d = mv_source v \<and> pp_manifest d = mv_manifest v)"
    and same: "entry_at (up_target u) w = map_option Package (up_before u)"
  shows "prior_checked u"
proof (cases "up_before u")
  case None
  with plain show ?thesis by (simp add: plain_update_def prior_checked_def)
next
  case (Some p)
  with plain obtain m v where v: "fst (snd (up_entries u)) = Some m" "managed_current m = Some v"
    "path_eq (mv_package_path v) (up_target u)" "pm_id (mv_manifest v) = up_id u"
    by (auto simp: plain_update_def)
  have "bt_get (rg_managed previous) (up_id u) = Some m"
    using previous v(1) by (simp add: view_of_entries_def flip: previous)
  then have "selected_version previous (up_id u) = Some v" using v(2) by (simp add: selected_version_def)
  with checked same Some obtain p' d where d: "entry_at (mv_package_path v) w = Some (Package p')"
    "inspect_package (up_env u) (mv_package_path v) p' = Ok d" "pp_source d = mv_source v" "pp_manifest d = mv_manifest v"
    by auto
  have "p' = p" using d(1) entry_at_eq [OF v(3), of w] same Some by simp
  have id: "valid_plugin_id (up_id u)" "env_ok (up_env u)" using ok by (simp_all add: update_ok_def)
  have parent: "path_parent (mv_package_path v) = Some (path_components (managed_root (up_env u)))"
    "path_is_absolute (mv_package_path v)"
    using v(3) installed_parent [OF id(1)] root_absolute(3) [OF id(2)] path_eq_absolute [OF v(3)]
    by (simp_all add: path_eq_def path_parent_def)
  then have "inspect_entry (up_env u) (mv_package_path v) (Some (Package p)) = Ok d"
    using d(2) \<open>p' = p\<close> by (simp add: inspect_entry_def)
  from inspect_entry_path [OF this v(3)] have "inspect_package (up_env u) (up_target u) p = Ok (d\<lparr>pp_path := up_target u\<rparr>)"
    by (auto elim: inspect_entry_okE)
  with Some v d(3,4) show ?thesis by (auto simp: prior_checked_def)
qed

lemma first_journal_held:
  assumes ok: "update_ok u" and g: "grown (up_env u) (up_start u) w"
    and previous: "view_of_entries (up_id u) previous = up_entries u"
    and owner: "entry_at (up_target u) (up_start u) \<noteq> None \<Longrightarrow> \<not> owned_by_other previous (up_id u) (up_target u)"
    and staged: "selected_version candidate (up_id u) = Some v"
      "entry_at (mv_package_path v) (up_start u) = Some (Package p)"
      "inspect_package (up_env u) (mv_package_path v) p = Ok d"
      "inspect_entry (up_env u) (mv_package_path v) (Some (Package p)) = Ok d"
    and ready: "in_staging (up_env u) r" "path_is_absolute r" "entry_at r w = Some (Package (upgraded p))"
    and backup: "case up_before u of None \<Rightarrow> bk = None
      | Some _ \<Rightarrow> \<exists>b. bk = Some b \<and> in_staging (up_env u) b \<and> path_is_absolute b \<and> entry_at b w = None"
    and prior: "tidy A \<Longrightarrow> prior_checked u" and plain: "tidy A \<Longrightarrow> plain_update u candidate"
    and n: "n = \<lparr>in_registry_path = path, in_stem = up_id u,
      in_journal = \<lparr>jn_schema = 1, jn_id = up_id u, jn_target = up_target u,
        jn_staged = mv_package_path v, jn_ready = r, jn_backup = bk, jn_source = pp_source d,
        jn_previous_registration = bt_get (rg_local previous) (up_id u),
        jn_previous_managed = bt_get (rg_managed previous) (up_id u),
        jn_previous_enabled = is_enabled previous (up_id u),
        jn_allowed = [x, registration_digest (up_env u) previous (up_id u)], jn_committed = False\<rparr>\<rparr>"
  shows "held u A n (w\<lparr>iw_journals := bt_insert (up_id u) (Stored (in_journal n)) (iw_journals w)\<rparr>)"
    "swap_ready u candidate n (w\<lparr>iw_journals := bt_insert (up_id u) (Stored (in_journal n)) (iw_journals w)\<rparr>)"
proof -
  let ?j = "in_journal n"
  let ?w = "w\<lparr>iw_journals := bt_insert (up_id u) (Stored ?j) (iw_journals w)\<rparr>"
  have j: "jn_id ?j = up_id u" "jn_target ?j = up_target u" "jn_schema ?j = 1" "jn_staged ?j = mv_package_path v"
    "jn_ready ?j = r" "jn_backup ?j = bk" "jn_source ?j = pp_source d" "\<not> jn_committed ?j"
    "(jn_previous_registration ?j, jn_previous_managed ?j, jn_previous_enabled ?j) = up_entries u"
    "jn_previous_registration ?j = bt_get (rg_local previous) (up_id u)"
    "entries_digest (up_env u) (up_id u) (up_entries u) \<in> set (jn_allowed ?j)" "in_stem n = up_id u"
    using previous by (simp_all add: n view_of_entries_def registration_digest_view)
  have closed: "closed_old u w" by (rule grown_closed [OF ok g])
  then have target: "entry_at (up_target u) (up_start u) = map_option Package (up_before u)" "old_at u w"
    using ok by (simp_all add: update_ok_def closed_old_def)
  have "case up_before u of None \<Rightarrow> jn_backup ?j = None
      | Some p \<Rightarrow> \<exists>b l. jn_backup ?j = Some b \<and> in_staging (up_env u) b \<and> path_is_absolute b
          \<and> jn_previous_registration ?j = Some l \<and> path_eq (lr_path l) (up_target u)"
    using backup owner target(1) by (auto simp: j owned_by_other_def split: option.splits)
  then have facts: "journal_facts u ?j"
    using j ready(1) by (simp add: journal_facts_def)
  have settled: "settled_old u ?j w"
    using target(2) backup by (auto simp: settled_old_def j split: option.splits)
  then have safe: "safe u ?j w"
    using backup by (auto simp: safe_def settled_old_def j split: option.split)
  have inspected: "inspect_entry (up_env u) r (entry_at r w) = Ok (d\<lparr>pp_path := r\<rparr>)"
    using inspect_staged [OF ready(1,2) inspect_upgraded [OF staged(3)]] ready by simp
  have staged': "inspect_entry (up_env u) (mv_package_path v) (entry_at (mv_package_path v) w) = Ok d"
    using grown_keeps [OF g staged(2)] staged(4) by simp
  have "tidy_state u ?j w" if "tidy A"
  proof -
    have "pm_id (pp_manifest d) = up_id u" using plain [OF that] staged by (auto simp: plain_update_def)
    with inspected staged' have "disposable u (jn_ready ?j) w" "disposable u (jn_staged ?j) w"
      by (auto simp: disposable_def j)
    moreover have "case up_before u of None \<Rightarrow> entry_at (up_target u) w = None \<or> new_at u ?j w
        | Some p \<Rightarrow> \<forall>b. jn_backup ?j = Some b \<and> entry_at b w \<noteq> None \<longrightarrow>
            entry_at (up_target u) w = None \<or> new_at u ?j w"
      using target(2) backup by (auto simp: old_at_def j split: option.splits)
    ultimately show ?thesis using prior [OF that] by (simp add: tidy_state_def)
  qed
  with facts safe have "mid u A ?j w"
    using grown_fields [OF g] by (simp add: mid_def)
  then have "mid u A ?j ?w" by (rule mid_other) simp_all
  then have "open_with u A ?j ?w"
    using grown_fields [OF g] j(11) by (simp add: open_with_def)
  then show "held u A n ?w" using j(12) unfolding held_def by (auto intro!: exI [of _ ?j])
  have "settled_old u ?j ?w" using settled unfolding settled_old_def old_at_def entry_at_other_fields .
  then show "swap_ready u candidate n ?w"
    using staged ready(3) grown_fields [OF g] j by (auto simp: swap_ready_def)
qed

lemma wp_open:
  assumes ok: "update_ok u" and e: "e = up_env u" and i: "i = up_id u"
    and previous: "view_of_entries i previous = up_entries u"
    and plain: "tidy A \<Longrightarrow> plain_update u candidate"
    and Q: "\<And>n w. held u A n w \<Longrightarrow> swap_ready u candidate n w \<Longrightarrow> in_registry_path n = rg_path candidate \<Longrightarrow> Q n w"
    and E: "\<And>x w. recoverable u A w \<Longrightarrow> E x w" and S: "\<And>w. recoverable u A w \<Longrightarrow> S w"
  shows "wp A (open_installation e candidate previous i) Q E S (up_start u)"
proof -
  let ?w0 = "up_start u"
  have env: "env_ok e" "valid_plugin_id i" using ok by (simp_all add: update_ok_def e i)
  have early: "recoverable u A w" if "grown e ?w0 w" for w
    using grown_closed [OF ok] that by (simp add: recoverable_def e)
  have now: "recoverable u A ?w0" by (rule early) simp
  show ?thesis
  proof (cases "selected_version candidate i")
    case None
    show ?thesis
      unfolding open_installation_def transaction_lock_def None option.case
      by (intro wp_intros E S now)
  next
    case (Some v)
    have opened: "wp A (io_then (journal_save e n) (\<lambda>_.
        io_then (clear_registration_checkpoint e candidate i) (\<lambda>_. ret n))) Q E S w"
      if g: "grown e ?w0 w" and "in_stem n = i" "in_registry_path n = rg_path candidate"
        and "held u A n (w\<lparr>iw_journals := bt_insert i (Stored (in_journal n)) (iw_journals w)\<rparr>)"
        and "swap_ready u candidate n (w\<lparr>iw_journals := bt_insert i (Stored (in_journal n)) (iw_journals w)\<rparr>)"
      for n w
    proof (rule wp_then, rule wp_journal_save)
      let ?w = "w\<lparr>iw_journals := bt_insert (in_stem n) (Stored (in_journal n)) (iw_journals w)\<rparr>"
      have "held u A n ?w" "swap_ready u candidate n ?w" using that by simp_all
      moreover have "bt_get (iw_pending ?w) i = None"
        using grown_fields [OF g] ok by (simp add: update_ok_def i)
      ultimately show "wp A (io_then (clear_registration_checkpoint e candidate i) (\<lambda>_. ret n)) Q E S ?w"
        using that(3) by (intro wp_then wp_clear_none wp_ret Q E S held_recoverable)
    qed (auto intro: E S early g)
    let ?N = "\<lambda>d ready backup. \<lparr>in_registry_path = rg_path candidate, in_stem = i,
      in_journal = \<lparr>jn_schema = 1, jn_id = i, jn_target = installed_path e i,
        jn_staged = mv_package_path v, jn_ready = pp_path ready, jn_backup = backup,
        jn_source = pp_source d, jn_previous_registration = bt_get (rg_local previous) i,
        jn_previous_managed = bt_get (rg_managed previous) i, jn_previous_enabled = is_enabled previous i,
        jn_allowed = [registration_digest e candidate i, registration_digest e previous i],
        jn_committed = False\<rparr>\<rparr> :: installation"
    have cloned: "wp A (io_then (clone_prepared_package e (mv_package_path v)) (\<lambda>ready.
        io_then (backup_path e (installed_path e i)) (\<lambda>backup.
        io_then (journal_save e (?N d ready backup)) (\<lambda>_.
        io_then (clear_registration_checkpoint e candidate i) (\<lambda>_. ret (?N d ready backup)))))) Q E S ?w0"
      if d: "inspect_entry e (mv_package_path v) (entry_at (mv_package_path v) ?w0) = Ok d"
        and owner: "\<not> (exists_at (installed_path e i) ?w0 \<and> owned_by_other previous i (installed_path e i))"
        and prior: "tidy A \<Longrightarrow> prior_checked u" for d
    proof (rule wp_then, rule wp_clone [OF env(1)])
      fix ready w1 p d'
      assume c: "grown e ?w0 w1" "entry_at (mv_package_path v) ?w0 = Some (Package p)"
        "inspect_package e (mv_package_path v) p = Ok d'"
        "in_staging e (pp_path ready)" "path_is_absolute (pp_path ready)" "entry_at (pp_path ready) ?w0 = None"
        "entry_at (pp_path ready) w1 = Some (Package (upgraded p))"
      have dp: "inspect_package e (mv_package_path v) p = Ok d"
        using d c(2) by (auto elim: inspect_entry_okE)
      have target1: "entry_at (installed_path e i) w1 = map_option Package (up_before u)"
        using grown_outside [OF c(1)] installed_not_in_staging [OF env(2)] ok by (simp add: update_ok_def e i)
      have finish: "wp A (io_then (journal_save e (?N d ready backup)) (\<lambda>_.
          io_then (clear_registration_checkpoint e candidate i) (\<lambda>_. ret (?N d ready backup)))) Q E S w2"
        if w2: "grown e ?w0 w2" "entry_at (pp_path ready) w2 = Some (Package (upgraded p))"
          and bk: "case up_before u of None \<Rightarrow> backup = None
            | Some _ \<Rightarrow> \<exists>b. backup = Some b \<and> in_staging e b \<and> path_is_absolute b \<and> entry_at b w2 = None"
        for w2 backup
      proof -
        have owner': "entry_at (installed_path e i) ?w0 \<noteq> None \<Longrightarrow> \<not> owned_by_other previous i (installed_path e i)"
          using owner by (simp add: exists_at_iff)
        have d': "inspect_entry e (mv_package_path v) (Some (Package p)) = Ok d" using d c(2) by simp
        note first = first_journal_held [OF ok, folded e i, OF w2(1) previous [folded i] owner' Some c(2) dp d' c(4,5) w2(2)
          bk prior plain refl, where x = "registration_digest e candidate i" and path = "rg_path candidate"]
        show ?thesis by (rule opened [OF w2(1)]) (use first in simp_all)
      qed
      show "wp A (io_then (backup_path e (installed_path e i)) (\<lambda>backup. io_then (journal_save e (?N d ready backup)) (\<lambda>_.
          io_then (clear_registration_checkpoint e candidate i) (\<lambda>_. ret (?N d ready backup))))) Q E S w1"
      proof (rule wp_then, rule wp_backup_path [OF env(1)])
        assume "entry_at (installed_path e i) w1 = None"
        then have "up_before u = None" using target1 by simp
        then show "wp A (io_then (journal_save e (?N d ready None)) (\<lambda>_.
            io_then (clear_registration_checkpoint e candidate i) (\<lambda>_. ret (?N d ready None)))) Q E S w1"
          by (intro finish c) simp
      next
        fix b w2
        assume b: "entry_at (installed_path e i) w1 \<noteq> None" "grown e w1 w2" "in_staging e b" "path_is_absolute b"
          "\<forall>q. entry_at q w2 = entry_at q w1" "entry_at b w1 = None"
        then have "up_before u \<noteq> None" using target1 by auto
        then show "wp A (io_then (journal_save e (?N d ready (Some b))) (\<lambda>_.
            io_then (clear_registration_checkpoint e candidate i) (\<lambda>_. ret (?N d ready (Some b))))) Q E S w2"
          using b c grown_trans [OF c(1) b(2)] by (intro finish) auto
      qed (auto intro: E S early grown_trans [OF c(1)])
    qed (auto intro: E S early)
    have validated: "wp A (io_then (if exists_at (installed_path e i) ?w0 then validate_current e previous i else ret ())
        (\<lambda>_. io_then (clone_prepared_package e (mv_package_path v)) (\<lambda>ready.
        io_then (backup_path e (installed_path e i)) (\<lambda>backup.
        io_then (journal_save e (?N d ready backup)) (\<lambda>_.
        io_then (clear_registration_checkpoint e candidate i) (\<lambda>_. ret (?N d ready backup))))))) Q E S ?w0"
      if d: "inspect_entry e (mv_package_path v) (entry_at (mv_package_path v) ?w0) = Ok d"
        and owner: "\<not> (exists_at (installed_path e i) ?w0 \<and> owned_by_other previous i (installed_path e i))" for d
    proof (rule wp_then, rule wp_if)
      assume there: "exists_at (installed_path e i) ?w0"
      show "wp A (validate_current e previous i) (\<lambda>_. wp A (io_then (clone_prepared_package e (mv_package_path v)) (\<lambda>ready.
        io_then (backup_path e (installed_path e i)) (\<lambda>backup.
        io_then (journal_save e (?N d ready backup)) (\<lambda>_.
        io_then (clear_registration_checkpoint e candidate i) (\<lambda>_. ret (?N d ready backup)))))) Q E S) E S ?w0"
      proof (rule wp_validate_current, rule cloned [OF d owner])
        assume valid: "\<And>v. selected_version previous i = Some v \<Longrightarrow> \<exists>p d. entry_at (mv_package_path v) ?w0 = Some (Package p)
            \<and> inspect_package e (mv_package_path v) p = Ok d \<and> pp_source d = mv_source v \<and> pp_manifest d = mv_manifest v"
          and "tidy A"
        show "prior_checked u"
          by (rule validated_prior [OF ok plain [OF \<open>tidy A\<close>] previous [unfolded i], where w = ?w0])
            (use valid ok in \<open>simp_all add: e i update_ok_def\<close>)
      qed (auto intro: E S now)
    next
      assume none: "\<not> exists_at (installed_path e i) ?w0"
      then have before: "up_before u = None" using ok by (auto simp: update_ok_def exists_at_iff e i)
      show "wp A (ret ()) (\<lambda>_. wp A (io_then (clone_prepared_package e (mv_package_path v)) (\<lambda>ready.
        io_then (backup_path e (installed_path e i)) (\<lambda>backup.
        io_then (journal_save e (?N d ready backup)) (\<lambda>_.
        io_then (clear_registration_checkpoint e candidate i) (\<lambda>_. ret (?N d ready backup)))))) Q E S) E S ?w0"
        by (intro wp_ret cloned [OF d owner])
          (use plain before in \<open>auto simp: plain_update_def prior_checked_def\<close>)
    qed
    show ?thesis
      unfolding open_installation_def transaction_lock_def Some option.case Let_def
      by (rule validated wp_then wp_check wp_read wp_gets wp_inspect E S now | assumption)+
  qed
qed

end
