(* ===== verification/Install_Swap.thy ===== *)
theory Install_Swap
  imports Install_Publish
begin

text \<open>
  The swap of the directories and the write of the new registration, with the rollback that a
  failure of them starts.
\<close>

section \<open>Moving the packages\<close>

lemma held_upgrade:
  assumes ok: "update_ok u" and held: "held u A n w" and settled: "settled_old u (in_journal n) w"
    and target: "entry_at (up_target u) w = Some (Package p)"
  shows "held u A n (upgrade_at (up_target u) w)" "settled_old u (in_journal n) (upgrade_at (up_target u) w)"
proof -
  note after = entry_at_upgrade [OF target]
  obtain p0 where p0: "up_before u = Some p0" "p = p0 \<or> p = upgraded p0"
    using settled target by (auto simp: settled_old_def old_at_def split: option.splits)
  then have old: "old_at u (upgrade_at (up_target u) w)"
    using after [of "up_target u"] by (auto simp: old_at_def)
  have same: "entry_at q (upgrade_at (up_target u) w) = None \<longleftrightarrow> entry_at q w = None" for q
    using after [of q] entry_at_eq [of q "up_target u" w] target by simp
  show settled': "settled_old u (in_journal n) (upgrade_at (up_target u) w)"
    using settled old same by (simp add: settled_old_def)
  show "held u A n (upgrade_at (up_target u) w)"
  proof (rule held_step [OF held])
    fix j assume m: "mid u A j w" and b: "jn_backup (in_journal n) = jn_backup j"
    have f: "journal_facts u j" using m by (simp add: mid_def)
    have s: "safe u j (upgrade_at (up_target u) w)"
      using f settled' b by (auto simp: safe_def settled_old_def journal_facts_def split: option.splits)
    have d: "disposable u x (upgrade_at (up_target u) w)" if "disposable u x w" for x
      using that after [of x] by (auto simp: disposable_def)
    have "tidy_state u j (upgrade_at (up_target u) w)" if "tidy_state u j w"
      using that same settled b d p0(1) unfolding tidy_state_def settled_old_def by fastforce
    with m s show "mid u A j (upgrade_at (up_target u) w)" by (simp add: mid_def)
  qed simp_all
qed

text \<open>The previous package is in the backup, and the target is free.\<close>

definition backed_up :: "update \<Rightarrow> installation \<Rightarrow> install_world \<Rightarrow> bool" where
  "backed_up u n w \<longleftrightarrow> entry_at (up_target u) w = None
     \<and> (up_before u = None \<or> (\<exists>b. jn_backup (in_journal n) = Some b \<and> entry_at b w \<noteq> None))"

lemma held_back_up:
  assumes ok: "update_ok u" and held: "held u A n w" and settled: "settled_old u (in_journal n) w"
    and b: "jn_backup (in_journal n) = Some b" and target: "entry_at (up_target u) w = Some (Package p)"
  shows "held u A n (moved (up_target u) b w)" "backed_up u n (moved (up_target u) b w)"
    "\<And>q. entry_at q w \<noteq> None \<Longrightarrow> \<not> path_eq q (up_target u) \<Longrightarrow> entry_at q (moved (up_target u) b w) = entry_at q w"
proof -
  note after = entry_at_moved [OF target, of _ b]
  from held obtain j0 where j0: "mid u A j0 w" "jn_backup (in_journal n) = jn_backup j0" by (rule held_journal)
  have staging: "in_staging (up_env u) b" and before: "up_before u \<noteq> None"
    using j0 b by (auto simp: mid_def journal_facts_def split: option.splits)
  note diff = backup_differs [OF ok staging]
  have none: "entry_at b w = None" using settled b by (simp add: settled_old_def)
  have there: "entry_at b (moved (up_target u) b w) = Some (Package (upgraded p))"
    and gone: "entry_at (up_target u) (moved (up_target u) b w) = None"
    using diff after by simp_all
  show "backed_up u n (moved (up_target u) b w)" using there gone b by (simp add: backed_up_def)
  show keep: "entry_at q (moved (up_target u) b w) = entry_at q w"
    if "entry_at q w \<noteq> None" "\<not> path_eq q (up_target u)" for q
    using that after [of q] none entry_at_eq [of q b w] by auto
  obtain p0 where p0: "up_before u = Some p0" "upgraded p = upgraded p0"
    using settled target before by (auto simp: settled_old_def old_at_def split: option.splits)
  show "held u A n (moved (up_target u) b w)"
  proof (rule held_step [OF held])
    fix j assume m: "mid u A j w" and bj: "jn_backup (in_journal n) = jn_backup j"
    have s: "safe u j (moved (up_target u) b w)"
      using p0 there b bj by (simp add: safe_def)
    have d: "disposable u x (moved (up_target u) b w)" if x: "disposable u x w" "prior_checked u" for x
    proof (cases "path_eq x (up_target u)")
      case False
      show ?thesis
      proof (cases "path_eq x b")
        case True
        have abs: "path_is_absolute b"
          using j0 b p0(1) by (auto simp: mid_def journal_facts_def)
        obtain d where "inspect_entry (up_env u) b (Some (Package (upgraded p0))) = Ok d" "pm_id (pp_manifest d) = up_id u"
          by (rule prior_inspect [OF ok x(2) p0(1), of "Package p0"]) (use staging abs in auto)
        then have "inspect_entry (up_env u) x (Some (Package (upgraded p0))) = Ok (d\<lparr>pp_path := x\<rparr>)"
          "pm_id (pp_manifest (d\<lparr>pp_path := x\<rparr>)) = up_id u"
          using inspect_entry_path True path_eq_sym by auto
        moreover have "entry_at x (moved (up_target u) b w) = Some (Package (upgraded p0))"
          using after [of x] True p0(2) by simp
        ultimately show ?thesis unfolding disposable_def by metis
      next
        case other: False
        then have "entry_at x (moved (up_target u) b w) = entry_at x w" using after [of x] False by simp
        with x(1) show ?thesis by (simp add: disposable_def)
      qed
    qed (rule disposable_target)
    have "tidy_state u j (moved (up_target u) b w)" if "tidy_state u j w"
      using that gone d p0(1) by (simp add: tidy_state_def)
    with m s show "mid u A j (moved (up_target u) b w)" by (simp add: mid_def)
  qed simp_all
qed

text \<open>The new package arrives at the free target.\<close>

lemma held_install:
  assumes ok: "update_ok u" and held: "held u A n w" and free: "entry_at (up_target u) w = None"
    and ready: "entry_at (jn_ready (in_journal n)) w = Some (Package r)" "upgraded r = r"
      "inspect_package (up_env u) (jn_ready (in_journal n)) r = Ok d" "pp_source d = jn_source (in_journal n)"
    and apart: "\<And>b. jn_backup (in_journal n) = Some b \<Longrightarrow> \<not> path_eq b (jn_ready (in_journal n))"
    and id: "tidy A \<Longrightarrow> pm_id (pp_manifest d) = up_id u"
  shows "held u A n (moved (jn_ready (in_journal n)) (up_target u) w)"
proof (rule held_move [OF held])
  let ?r = "jn_ready (in_journal n)"
  let ?w = "moved ?r (up_target u) w"
  note after = entry_at_moved [OF ready(1), of _ "up_target u"]
  fix j assume m: "mid u A j w" and same: "jn_backup (in_journal n) = jn_backup j"
    "jn_ready (in_journal n) = jn_ready j" "jn_source (in_journal n) = jn_source j"
  have facts: "journal_facts u j" "safe u j w" using m by (simp_all add: mid_def)
  have staging: "in_staging (up_env u) ?r" using facts same by (simp add: journal_facts_def)
  have there: "entry_at (up_target u) ?w = Some (Package r)" using after ready(2) by simp
  have new: "new_at u j ?w" if "tidy A"
    using inspect_upgraded [OF ready(3), of "up_target u"] installed_file_name [of "up_id u" "up_env u"] id [OF that] ok ready(2,4) there same
    by (auto simp: new_at_def update_ok_def)
  have s: "safe u j ?w"
  proof (cases "up_before u")
    case (Some p)
    then obtain b where b: "jn_backup j = Some b" "in_staging (up_env u) b" using facts by (auto simp: journal_facts_def)
    then have "entry_at b w = Some (Package (upgraded p))"
      using facts(2) Some free by (auto simp: safe_def old_at_def)
    then have "entry_at b ?w = Some (Package (upgraded p))"
      using after [of b] backup_differs [OF ok b(2)] apart same b(1) by simp
    with Some b show ?thesis by (simp add: safe_def)
  qed (simp add: safe_def)
  have d: "disposable u x ?w" if "disposable u x w" for x
  proof (cases "path_eq x (up_target u)")
    case False
    with after [of x] have "entry_at x ?w = None \<or> entry_at x ?w = entry_at x w" by simp
    with that False show ?thesis by (auto simp: disposable_def)
  qed (rule disposable_target)
  have "tidy_state u j ?w" if "tidy A" "tidy_state u j w"
    using that(2) new [OF that(1)] d unfolding tidy_state_def by (auto split: option.splits)
  with m s show "mid u A j ?w" by (simp add: mid_def)
qed simp_all

section \<open>The selection at the target\<close>

text \<open>A handle that holds the document of the start and edits of this plugin only.\<close>

abbreviation staged_for :: "update \<Rightarrow> plugin_registry \<Rightarrow> bool" where
  "staged_for u \<equiv> staged_on (up_id u) (iw_document (up_start u))"

text \<open>Entries that name the version at the target.\<close>

definition places ::
    "update \<Rightarrow> managed_version \<Rightarrow> local_registration option \<times> managed_record option \<times> bool \<Rightarrow> bool" where
  "places u v = (\<lambda>(l, m, b). (\<exists>l'. l = Some l' \<and> lr_path l' = up_target u)
     \<and> (\<exists>m' v'. m = Some m' \<and> managed_current m' = Some v' \<and> mv_package_path v' = up_target u
          \<and> mv_source v' = mv_source v \<and> mv_manifest v' = mv_manifest v \<and> mv_metadata v' = mv_metadata v))"

lemma staged_for_stage:
  assumes "staged_for u r" "r' = stage_managed (up_id u) m (stage_local (up_id u) l r)"
  shows "staged_for u r'" "view_of_entries (up_id u) r' = (l, m, is_enabled r (up_id u))"
    "something_staged r'" "rg_path r' = rg_path r"
proof -
  have same: "rg_path r' = rg_path r" "rg_document r' = rg_document r" "rg_pending r' = rg_pending r"
    "rg_local r' = set_opt (up_id u) l (rg_local r)" "rg_managed r' = set_opt (up_id u) m (rg_managed r)"
    using assms(2) by (simp_all add: stage_managed_def stage_local_def Let_def)
  show "rg_path r' = rg_path r" by (rule same)
  show "staged_for u r'"
    using assms staged_on_stage by simp
  have "is_enabled r' i = is_enabled r i" for i
    using same by (simp add: is_enabled_def cong: option.case_cong)
  then show "view_of_entries (up_id u) r' = (l, m, is_enabled r (up_id u))"
    using same by (simp add: view_of_entries_def)
  have "bt_get (rg_pending_managed r') (up_id u) \<noteq> None"
    using assms(2) by (simp add: stage_managed_def)
  then have "bt_len (rg_pending_managed r') \<noteq> 0" by (rule bt_len_get)
  then show "something_staged r'" by (simp add: something_staged_def)
qed

lemma wp_register_in:
  assumes "Q (stage_managed i (Some m) (stage_local i (Some l) r)) w" "\<And>x. E x w" "S w"
  shows "wp A (register_in e i l m r) Q E S w"
proof -
  obtain x r' where reg: "register_managed (ie_codec e) i l m r = (x, r')" by (metis prod.exhaust)
  then show ?thesis
    using assms by (cases rule: register_managed_cases)
      (auto simp: register_in_def reg split: outcome.split intro: wp_ret wp_fails wp_panics)
qed

lemma wp_registration_at_path:
  assumes Q: "\<And>v r'. selected_version r (up_id u) = Some v \<Longrightarrow> staged_for u r' \<Longrightarrow> something_staged r' \<Longrightarrow>
      rg_path r' = rg_path r \<Longrightarrow> places u v (view_of_entries (up_id u) r') \<Longrightarrow>
      is_enabled r' (up_id u) = is_enabled r (up_id u) \<Longrightarrow> Q r' w"
    and r: "staged_for u r" and E: "\<And>x. E x w" and S: "S w"
  shows "wp A (registration_at_path e r (up_id u) (up_target u)) Q E S w"
proof (cases "selected_version r (up_id u)")
  case None
  then show ?thesis by (simp add: registration_at_path_def wp_fails E)
next
  case (Some v)
  show ?thesis
    unfolding registration_at_path_def Some option.case
  proof (intro wp_then wp_inspect wp_check wp_tree_at wp_outcome E S)
    fix d p p' m'
    assume d: "pp_source d = mv_source v \<and> pp_manifest d = mv_manifest v \<and> pp_metadata d = mv_metadata v"
    show "wp A (case bt_get (rg_local r) (up_id u) of
        None \<Rightarrow> panics
      | Some l \<Rightarrow>
          let content = ie_package_digest e (up_target u) (pg_tree p') (pp_source d) (pp_metadata d);
              key = ie_version_key e (up_target u) (pp_source d) content
          in register_in e (up_id u) (l\<lparr>lr_path := up_target u\<rparr>)
               \<lparr>mr_current_version = Some key,
                mr_history = [\<lparr>mv_version_key = key, mv_package_path = up_target u,
                  mv_content_digest = content, mv_source = pp_source d,
                  mv_manifest = pp_manifest d, mv_metadata = pp_metadata d\<rparr>]\<rparr> r) Q E S w"
    proof (cases "bt_get (rg_local r) (up_id u)")
      case None
      then show ?thesis by (simp add: wp_panics S)
    next
      case l: (Some l)
      note stage = staged_for_stage [OF r refl]
      show ?thesis
        unfolding l option.case Let_def
        by (rule wp_register_in, rule Q [OF Some stage(1,3,4)])
          (use d stage(2) in \<open>auto simp: places_def managed_current_def view_of_entries_def E S\<close>)
    qed
  qed
qed

lemma wp_at_installation_path:
  assumes "wp A (registration_at_path e r i t) Q E S w" "\<And>x. E x w" "S w"
    and keeps: "wp A (registration_at_path e r i t) (\<lambda>_ w'. w' = w) (\<lambda>_ _. True) (\<lambda>_. True) w"
  shows "wp A (at_installation_path e r i t) Q E S w"
  unfolding at_installation_path_def
  by (rule wp_then, rule wp_mono [OF wp_conj [OF assms(1) keeps]])
    (auto intro!: wp_then wp_tree_at wp_outcome wp_ret assms(2,3))

lemma registration_keeps:
  "wp A (registration_at_path e r i t) (\<lambda>_ w'. w' = w) (\<lambda>_ _. True) (\<lambda>_. True) w"
  unfolding registration_at_path_def Let_def
  by (auto split: option.split intro!: wp_fails wp_then wp_inspect wp_check wp_tree_at wp_outcome wp_panics wp_register_in)

text \<open>The candidate's package is at the target and the handle names it there.\<close>

definition arrived :: "update \<Rightarrow> plugin_registry \<Rightarrow> plugin_registry \<Rightarrow> install_world \<Rightarrow> bool" where
  "arrived u candidate r w \<longleftrightarrow>
     (\<exists>v p. selected_version candidate (up_id u) = Some v
        \<and> entry_at (mv_package_path v) (up_start u) = Some (Package p)
        \<and> entry_at (up_target u) w = Some (Package (upgraded p))
        \<and> places u v (view_of_entries (up_id u) r))"

lemma wp_install_ready:
  assumes ok: "update_ok u" and held: "held u A n w" and free: "entry_at (up_target u) w = None"
    and candidate: "staged_for u candidate" and plain: "tidy A \<Longrightarrow> plain_update u candidate"
    and v: "selected_version candidate (up_id u) = Some v" "entry_at (mv_package_path v) (up_start u) = Some (Package p)"
      "inspect_package (up_env u) (mv_package_path v) p = Ok d"
      "entry_at (jn_ready (in_journal n)) w = Some (Package (upgraded p))" "pp_source d = jn_source (in_journal n)"
    and apart: "\<And>b. jn_backup (in_journal n) = Some b \<Longrightarrow> \<not> path_eq b (jn_ready (in_journal n))"
    and Q: "\<And>r w'. held u A n w' \<Longrightarrow> staged_for u r \<Longrightarrow> something_staged r \<Longrightarrow> rg_path r = rg_path candidate \<Longrightarrow>
      arrived u candidate r w' \<Longrightarrow> is_enabled r (up_id u) = is_enabled candidate (up_id u) \<Longrightarrow>
      iw_document w' = iw_document w \<Longrightarrow> Q r w'"
    and E: "\<And>x w'. held u A n w' \<Longrightarrow> E x w'" and S: "\<And>w'. held u A n w' \<Longrightarrow> S w'"
  shows "wp A (io_then (relocate_prepared_package (up_env u) (jn_ready (in_journal n)) (jn_target (in_journal n)))
    (\<lambda>_. if load_entry then at_installation_path e candidate (jn_id (in_journal n)) (jn_target (in_journal n))
         else registration_at_path e candidate (jn_id (in_journal n)) (jn_target (in_journal n)))) Q E S w"
proof -
  let ?r = "jn_ready (in_journal n)"
  from held obtain j where j: "mid u A j w" "jn_target (in_journal n) = up_target u" "jn_id (in_journal n) = up_id u"
    "?r = jn_ready j" by (rule held_journal)
  have staging: "in_staging (up_env u) ?r" using j(1,4) by (simp add: mid_def journal_facts_def)
  have d: "inspect_package (up_env u) ?r (upgraded p) = Ok (d\<lparr>pp_path := ?r\<rparr>)"
    using inspect_upgraded [OF v(3)] staging by simp
  have id: "pm_id (pp_manifest (d\<lparr>pp_path := ?r\<rparr>)) = up_id u" if "tidy A"
    using plain [OF that] v(1-3) by (auto simp: plain_update_def)
  have same: "upgrade_at ?r w = w" using v(4) put_same [OF v(4)] by (simp add: upgrade_at_def)
  let ?w = "moved ?r (up_target u) w"
  have held': "held u A n ?w"
    by (rule held_install [OF ok held free v(4) _ d]) (use v(5) apart id in simp_all)
  have target: "entry_at (up_target u) ?w = Some (Package (upgraded p))"
    using entry_at_moved [OF v(4)] by simp
  have registered: "wp A (registration_at_path e candidate (up_id u) (up_target u)) Q E S ?w"
  proof (rule wp_registration_at_path [OF _ candidate])
    fix v' r'
    assume r': "selected_version candidate (up_id u) = Some v'" "staged_for u r'" "something_staged r'"
      "rg_path r' = rg_path candidate" "places u v' (view_of_entries (up_id u) r')"
      "is_enabled r' (up_id u) = is_enabled candidate (up_id u)"
    show "Q r' ?w" by (rule Q [OF held' r'(2-4)]) (use r' v target in \<open>auto simp: arrived_def\<close>)
  qed (rule E [OF held'], rule S [OF held'])
  show ?thesis
    unfolding j(2,3)
  proof (rule wp_then, rule wp_relocate)
    show "wp A (if load_entry then at_installation_path e candidate (up_id u) (up_target u)
        else registration_at_path e candidate (up_id u) (up_target u)) Q E S ?w"
      by (intro wp_if wp_at_installation_path registered registration_keeps E S held')
  qed (use held same in \<open>auto intro: E S\<close>)
qed

lemma wp_swap_packages:
  assumes ok: "update_ok u" and held: "held u A n w" and ready: "swap_ready u candidate n w"
    and candidate: "staged_for u candidate" and plain: "tidy A \<Longrightarrow> plain_update u candidate"
    and Q: "\<And>r w'. held u A n w' \<Longrightarrow> staged_for u r \<Longrightarrow> something_staged r \<Longrightarrow> rg_path r = rg_path candidate \<Longrightarrow>
      arrived u candidate r w' \<Longrightarrow> is_enabled r (up_id u) = is_enabled candidate (up_id u) \<Longrightarrow>
      iw_document w' = iw_document (up_start u) \<Longrightarrow> Q r w'"
    and E: "\<And>x w'. held u A n w' \<Longrightarrow> E x w'" and S: "\<And>w'. held u A n w' \<Longrightarrow> S w'"
  shows "wp A (swap_packages (up_env u) candidate n load_entry) Q E S w"
proof -
  from held obtain j where j: "mid u A j w" "jn_target (in_journal n) = up_target u"
    "jn_backup (in_journal n) = jn_backup j" by (rule held_journal)
  from ready obtain v p d where v: "selected_version candidate (up_id u) = Some v"
      "entry_at (mv_package_path v) (up_start u) = Some (Package p)"
      "inspect_package (up_env u) (mv_package_path v) p = Ok d"
      "entry_at (jn_ready (in_journal n)) w = Some (Package (upgraded p))" "pp_source d = jn_source (in_journal n)"
    and settled: "settled_old u (in_journal n) w" and doc: "iw_document w = iw_document (up_start u)"
    by (auto simp: swap_ready_def)
  have apart: "\<not> path_eq b (jn_ready (in_journal n))" if "jn_backup (in_journal n) = Some b" for b
    using settled that v(4) entry_at_eq [of b "jn_ready (in_journal n)" w] by (auto simp: settled_old_def)
  from j(1) have "in_staging (up_env u) (jn_ready j)" by (simp add: mid_def journal_facts_def)
  have staging: "in_staging (up_env u) (jn_ready (in_journal n))"
    using held by (rule held_journal) (simp add: mid_def journal_facts_def)
  note install = wp_install_ready [OF ok _ _ candidate plain v(1-3) _ v(5) apart Q E S, where e = "up_env u"]
  show ?thesis
    unfolding swap_packages_def Let_def
  proof (cases "jn_backup (in_journal n)")
    case None
    then have "up_before u = None" using j by (auto simp: mid_def journal_facts_def split: option.splits)
    then have free: "entry_at (up_target u) w = None" using settled by (simp add: settled_old_def old_at_def)
    show "wp A (io_then (case jn_backup (in_journal n) of
          None \<Rightarrow> ret () | Some b \<Rightarrow> relocate_prepared_package (up_env u) (jn_target (in_journal n)) b) (\<lambda>_.
        io_then (relocate_prepared_package (up_env u) (jn_ready (in_journal n)) (jn_target (in_journal n))) (\<lambda>_.
        if load_entry then at_installation_path (up_env u) candidate (jn_id (in_journal n)) (jn_target (in_journal n))
        else registration_at_path (up_env u) candidate (jn_id (in_journal n)) (jn_target (in_journal n))))) Q E S w"
      unfolding None option.case
      by (rule wp_then, rule wp_ret, rule install) (use held v(4) doc free in auto)
  next
    case (Some b)
    show "wp A (io_then (case jn_backup (in_journal n) of
          None \<Rightarrow> ret () | Some b \<Rightarrow> relocate_prepared_package (up_env u) (jn_target (in_journal n)) b) (\<lambda>_.
        io_then (relocate_prepared_package (up_env u) (jn_ready (in_journal n)) (jn_target (in_journal n))) (\<lambda>_.
        if load_entry then at_installation_path (up_env u) candidate (jn_id (in_journal n)) (jn_target (in_journal n))
        else registration_at_path (up_env u) candidate (jn_id (in_journal n)) (jn_target (in_journal n))))) Q E S w"
      unfolding Some option.case
    proof (rule wp_then, unfold j(2), rule wp_relocate)
      fix q x assume q: "entry_at (up_target u) w = Some (Package q)"
      note kept = held_back_up [OF ok held settled Some q]
      show "wp A (io_then (relocate_prepared_package (up_env u) (jn_ready (in_journal n)) (up_target u)) (\<lambda>_.
          if load_entry then at_installation_path (up_env u) candidate (jn_id (in_journal n)) (up_target u)
          else registration_at_path (up_env u) candidate (jn_id (in_journal n)) (up_target u))) Q E S
          (moved (up_target u) b w)"
        by (rule install [unfolded j(2), OF kept(1)])
          (use kept(2) kept(3) [of "jn_ready (in_journal n)"] v(4) backup_differs(1) [OF ok staging] doc
            in \<open>auto simp: backed_up_def\<close>)
      show "E y (upgrade_at (up_target u) w)" "S (upgrade_at (up_target u) w)" for y
        using held_upgrade [OF ok held settled q] by (auto intro: E S)
    qed (use held in \<open>auto intro: E S\<close>)
  qed
qed

end
