(* ===== verification/Install_Selection.thy ===== *)
theory Install_Selection
  imports Install_Swap
begin

text \<open>
  The write of the new registration, and a whole publication: the selection of a staged version
  as the control surface performs it, up to the commit.
\<close>

section \<open>Recovery from a failed step\<close>

lemma wp_recovering:
  assumes ok: "update_ok u" and e: "e = up_env u"
    and m: "wp A m Q (\<lambda>x. held u A n) (held u A n) w"
    and E: "\<And>x w. recoverable u A w \<Longrightarrow> E x w" and S: "\<And>w. recoverable u A w \<Longrightarrow> S w"
  shows "wp A (recovering e n m) Q E S w"
  unfolding recovering_def
proof (rule wp_catch, rule wp_mono [OF m])
  fix x w' assume held: "held u A n w'"
  have "recoverable u A w''" if "closed_old u w''" for w'' using that by (simp add: recoverable_def)
  then show "wp A (io_then (io_try (rollback e n)) (\<lambda>r. case r of Inl y \<Rightarrow> fails (RecoveryFailed x y) | Inr _ \<Rightarrow> fails x)) Q E S w'"
    unfolding e by (intro wp_then wp_try wp_mono [OF wp_rollback [OF ok held]])
      (auto intro!: wp_fails E S dest: held_recoverable)
qed (auto intro: S held_recoverable)

lemma held_allow: "held u A n w \<Longrightarrow> held u A (allow n ds) w"
proof -
  assume "held u A n w"
  then obtain j where j: "in_stem n = up_id u" "open_with u A j w" "set (jn_allowed j) \<subseteq> set (jn_allowed (in_journal n))"
    "in_journal n = j\<lparr>jn_allowed := jn_allowed (in_journal n)\<rparr>"
    by (auto simp: held_def)
  have "in_journal (allow n ds) = j\<lparr>jn_allowed := jn_allowed (in_journal (allow n ds))\<rparr>"
    unfolding allow_def by (subst (2) j(4), simp, subst j(4), simp)
  moreover have "in_stem (allow n ds) = up_id u" "set (jn_allowed j) \<subseteq> set (jn_allowed (in_journal (allow n ds)))"
    using j by (auto simp: allow_def)
  ultimately show ?thesis using j(2) unfolding held_def by blast
qed

lemma mid_allow:
  assumes "mid u A j w" "set (jn_allowed j) \<subseteq> set ds"
  shows "mid u A (j\<lparr>jn_allowed := ds\<rparr>) w"
proof -
  have "journal_facts u j" using assms(1) by (simp add: mid_def)
  then have "journal_facts u (j\<lparr>jn_allowed := ds\<rparr>)"
    using assms(2) by (cases "up_before u") (auto simp: journal_facts_def)
  moreover have "safe u (j\<lparr>jn_allowed := ds\<rparr>) w = safe u j w"
    by (simp add: safe_def split: option.split)
  moreover have "new_at u (j\<lparr>jn_allowed := ds\<rparr>) w = new_at u j w"
    by (simp add: new_at_def)
  then have "tidy_state u (j\<lparr>jn_allowed := ds\<rparr>) w = tidy_state u j w"
    by (simp add: tidy_state_def split: option.split)
  ultimately show ?thesis using assms(1) by (simp add: mid_def)
qed

lemma bt_insert_again: "bt_insert k y (bt_insert k x m) = bt_insert k y m"
  by (intro bt_eqI) simp

lemma held_same:
  assumes "open_with u A (in_journal n) w" "in_stem n = up_id u"
  shows "held u A n w"
proof -
  have "in_journal n = (in_journal n)\<lparr>jn_allowed := jn_allowed (in_journal n)\<rparr>" by simp
  with assms show ?thesis unfolding held_def by blast
qed

text \<open>The program's copy of the journal reaches the disk.\<close>

lemma held_saved:
  assumes "held u A n w"
  shows "held u A n (w\<lparr>iw_journals := bt_insert (in_stem n) (Stored (in_journal n)) (iw_journals w)\<rparr>)"
    (is "held u A n ?w")
    "mid u A (in_journal n) (w\<lparr>iw_journals := bt_insert (in_stem n) (Stored (in_journal n)) (iw_journals w)\<rparr>)"
    "open_with u A (in_journal n) (w\<lparr>iw_journals := bt_insert (in_stem n) (Stored (in_journal n)) (iw_journals w)\<rparr>)"
proof -
  from assms obtain j where j: "in_stem n = up_id u" "open_with u A j w" "set (jn_allowed j) \<subseteq> set (jn_allowed (in_journal n))"
    "in_journal n = j\<lparr>jn_allowed := jn_allowed (in_journal n)\<rparr>"
    by (auto simp: held_def)
  have "mid u A (in_journal n) w"
    using mid_allow [OF _ j(3), of u A w] j(2) unfolding open_with_def by (simp flip: j(4))
  then show m: "mid u A (in_journal n) ?w" by (rule mid_other) simp_all
  have "iw_journals w = bt_insert (up_id u) (Stored j) (iw_journals (up_start u))"
    "entries_digest (up_env u) (up_id u) (entries_of (up_id u) (iw_document w)) \<in> set (jn_allowed j)"
    using j(2) by (simp_all add: open_with_def)
  then have "iw_journals ?w = bt_insert (up_id u) (Stored (in_journal n)) (iw_journals (up_start u))"
    "entries_digest (up_env u) (up_id u) (entries_of (up_id u) (iw_document ?w)) \<in> set (jn_allowed (in_journal n))"
    using j(1,3) by (simp_all add: bt_insert_again subset_iff)
  with m show o: "open_with u A (in_journal n) ?w" unfolding open_with_def by blast
  then show "held u A n ?w" using j(1) by (rule held_same)
qed

text \<open>A write of the document that touches this plugin only and whose digest is allowed.\<close>

lemma held_write:
  assumes o: "open_with u A (in_journal n) w" and stem: "in_stem n = up_id u"
    and doc: "restore_doc (up_id u) (up_entries u) d = restore_doc (up_id u) (up_entries u) (iw_document w)"
    and digest: "entries_digest (up_env u) (up_id u) (entries_of (up_id u) d) \<in> set (jn_allowed (in_journal n))"
  shows "held u A n (w\<lparr>iw_document := d\<rparr>)" "open_with u A (in_journal n) (w\<lparr>iw_document := d\<rparr>)"
proof -
  have "mid u A (in_journal n) (w\<lparr>iw_document := d\<rparr>)"
    by (rule mid_other [where w = w]) (use o doc in \<open>auto simp: open_with_def\<close>)
  moreover have "iw_journals (w\<lparr>iw_document := d\<rparr>) = bt_insert (up_id u) (Stored (in_journal n)) (iw_journals (up_start u))"
    using o by (simp add: open_with_def)
  ultimately show "open_with u A (in_journal n) (w\<lparr>iw_document := d\<rparr>)" using digest unfolding open_with_def by simp
  then show "held u A n (w\<lparr>iw_document := d\<rparr>)" using stem by (rule held_same)
qed

lemma wp_store_selection:
  assumes held: "held u A n w" and r: "staged_for u r" "something_staged r"
    and doc: "iw_document w = iw_document (up_start u)"
    and digest: "registration_digest (up_env u) r (up_id u) \<in> set (jn_allowed (in_journal n))"
    and Q: "\<And>w'. open_with u A (in_journal n) w' \<Longrightarrow> held u A n w' \<Longrightarrow>
      iw_document w' = merge_staged r (iw_document (up_start u)) \<Longrightarrow>
      (\<And>p. entry_at p w' = entry_at p w) \<Longrightarrow>
      entries_of (up_id u) (iw_document w') = view_of_entries (up_id u) r \<Longrightarrow>
      Q (snapshot (rg_path r) (iw_document w')) w'"
    and E: "\<And>x w'. held u A n w' \<Longrightarrow> E x w'" and S: "\<And>w'. held u A n w' \<Longrightarrow> S w'"
  shows "wp A (store_selection e n r) Q E S w"
  unfolding store_selection_def
proof (rule wp_then, rule wp_journal_save)
  let ?w = "w\<lparr>iw_journals := bt_insert (in_stem n) (Stored (in_journal n)) (iw_journals w)\<rparr>"
  note saved = held_saved [OF held]
  have stem: "in_stem n = up_id u" using held by (simp add: held_def)
  have base: "iw_document ?w = iw_document (up_start u)" using doc by simp
  let ?d = "merge_staged r (iw_document (up_start u))"
  have view: "entries_of (up_id u) ?d = view_of_entries (up_id u) r"
    using r(1) by (rule merge_view)
  have restore: "restore_doc (up_id u) (up_entries u) ?d = restore_doc (up_id u) (up_entries u) (iw_document ?w)"
    unfolding base using r(1) by (simp add: staged_on_def restore_merged)
  have digest': "entries_digest (up_env u) (up_id u) (entries_of (up_id u) ?d) \<in> set (jn_allowed (in_journal n))"
    using digest view by (simp add: registration_digest_view)
  note after = held_write [OF saved(3) stem restore digest']
  show "wp A (save_registry e r) Q E S ?w"
    unfolding base [symmetric]
  proof (rule wp_save)
    have "Q (snapshot (rg_path r) (iw_document (?w\<lparr>iw_document := ?d\<rparr>))) (?w\<lparr>iw_document := ?d\<rparr>)"
      by (rule Q [OF after(2,1)]) (use view in simp_all)
    then show "Q (snapshot (rg_path r) (merge_staged r (iw_document ?w)))
        (?w\<lparr>iw_document := merge_staged r (iw_document ?w)\<rparr>)"
      using base by simp
  qed (use r(2) saved in \<open>auto intro: E S\<close>)
qed (auto intro: E S held)

section \<open>Publication\<close>

lemma enable_view:
  assumes id: "valid_plugin_id i"
  shows "enable_in i b r = ret (r\<lparr>rg_pending := bt_insert (canonical_plugin_id i) \<lparr>pf_enabled = b\<rparr> (rg_pending r)\<rparr>)"
    and "view_of_entries i (r\<lparr>rg_pending := bt_insert (canonical_plugin_id i) \<lparr>pf_enabled = b\<rparr> (rg_pending r)\<rparr>)
      = (bt_get (rg_local r) i, bt_get (rg_managed r) i, b)"
  using id by (simp_all add: enable_in_def set_enabled_def view_of_entries_def is_enabled_def Let_def)

text \<open>The state a publication returns in.\<close>

definition published ::
    "update \<Rightarrow> answer set \<Rightarrow> plugin_registry \<Rightarrow> bool \<Rightarrow> installation \<Rightarrow> plugin_registry \<Rightarrow> install_world \<Rightarrow> bool" where
  "published u A candidate enable_after n r w \<longleftrightarrow>
     in_stem n = up_id u \<and> in_registry_path n = rg_path candidate \<and> open_with u A (in_journal n) w
     \<and> r = snapshot (rg_path candidate) (iw_document w) \<and> arrived u candidate r w
     \<and> (\<exists>selected. staged_for u selected \<and> iw_document w = merge_staged selected (iw_document (up_start u)))
     \<and> is_enabled r (up_id u) = is_enabled candidate (up_id u)
     \<and> (enable_after \<longrightarrow> entries_digest (up_env u) (up_id u)
          (bt_get (rg_local r) (up_id u), bt_get (rg_managed r) (up_id u), True) \<in> set (jn_allowed (in_journal n)))"

lemma allow_fields:
  "in_stem (allow n ds) = in_stem n" "in_registry_path (allow n ds) = in_registry_path n"
  "jn_allowed (in_journal (allow n ds)) = jn_allowed (in_journal n) @ ds"
  by (simp_all add: allow_def)

lemma wp_store_published:
  assumes ok: "update_ok u" and held: "held u A n w" and path: "in_registry_path n = rg_path candidate"
    and r: "staged_for u r" "something_staged r" "rg_path r = rg_path candidate" "arrived u candidate r w"
      "is_enabled r (up_id u) = is_enabled candidate (up_id u)"
    and doc: "iw_document w = iw_document (up_start u)"
    and digest: "registration_digest (up_env u) r (up_id u) \<in> set (jn_allowed (in_journal n))"
      "enable_after \<Longrightarrow> entries_digest (up_env u) (up_id u)
          (bt_get (rg_local r) (up_id u), bt_get (rg_managed r) (up_id u), True) \<in> set (jn_allowed (in_journal n))"
    and Q: "\<And>r w. published u A candidate enable_after n r w \<Longrightarrow> Q (n, r) w"
    and E: "\<And>x w. recoverable u A w \<Longrightarrow> E x w" and S: "\<And>w. recoverable u A w \<Longrightarrow> S w"
  shows "wp A (io_then (recovering (up_env u) n (store_selection (up_env u) n r)) (\<lambda>r. ret (n, r))) Q E S w"
proof (rule wp_then, rule wp_recovering [OF ok refl], rule wp_store_selection [OF held r(1,2) doc digest(1)])
  fix w'
  assume w': "open_with u A (in_journal n) w'" "held u A n w'"
    "iw_document w' = merge_staged r (iw_document (up_start u))" "\<And>p. entry_at p w' = entry_at p w"
    "entries_of (up_id u) (iw_document w') = view_of_entries (up_id u) r"
  have parts: "bt_get (rd_local (iw_document w')) (up_id u) = bt_get (rg_local r) (up_id u)"
    "bt_get (rd_managed (iw_document w')) (up_id u) = bt_get (rg_managed r) (up_id u)"
    "is_enabled (snapshot (rg_path r) (iw_document w')) (up_id u) = is_enabled r (up_id u)"
    using w'(5) is_enabled_path [of "rg_path r"] by (simp_all add: entries_of_def view_of_entries_def)
  have "arrived u candidate (snapshot (rg_path r) (iw_document w')) w'"
    using r(4) w'(4,5) by (simp add: arrived_def)
  with w' r parts digest(2) path have "published u A candidate enable_after n (snapshot (rg_path r) (iw_document w')) w'"
    by (auto simp: published_def held_def)
  from Q [OF this] show "wp A (ret (n, snapshot (rg_path r) (iw_document w'))) Q E S w'" by (rule wp_ret)
qed (auto intro: E S)

lemma wp_publish_inner:
  assumes ok: "update_ok u" and previous: "view_of_entries (up_id u) previous = up_entries u"
    and candidate: "staged_for u candidate" and plain: "tidy A \<Longrightarrow> plain_update u candidate"
    and Q: "\<And>n r w. published u A candidate enable_after n r w \<Longrightarrow> Q (n, r) w"
    and E: "\<And>x w. recoverable u A w \<Longrightarrow> E x w" and S: "\<And>w. recoverable u A w \<Longrightarrow> S w"
  shows "wp A (publish_inner (up_env u) candidate previous (up_id u) enable_after load_entry) Q E S (up_start u)"
proof -
  have id: "valid_plugin_id (up_id u)" using ok by (simp add: update_ok_def)
  show ?thesis
    unfolding publish_inner_def
  proof (rule wp_then, rule wp_open [OF ok refl refl previous plain])
    fix n w
    assume n: "held u A n w" "swap_ready u candidate n w" "in_registry_path n = rg_path candidate"
    show "wp A (io_then (recovering (up_env u) n (swap_packages (up_env u) candidate n load_entry)) (\<lambda>selected.
        let n = allow n [registration_digest (up_env u) selected (up_id u)] in
        io_then (if enable_after
              then recovering (up_env u) n (io_then (enable_in (up_id u) True selected) (\<lambda>enabled.
                     ret (allow n [registration_digest (up_env u) enabled (up_id u)])))
              else ret n) (\<lambda>n.
        io_then (recovering (up_env u) n (store_selection (up_env u) n selected)) (\<lambda>selected.
        ret (n, selected))))) Q E S w"
    proof (rule wp_then, rule wp_recovering [OF ok refl], rule wp_swap_packages [OF ok n(1,2) candidate plain])
      fix r w'
      assume r: "staged_for u r" "something_staged r" "rg_path r = rg_path candidate" "arrived u candidate r w'"
          "is_enabled r (up_id u) = is_enabled candidate (up_id u)" "iw_document w' = iw_document (up_start u)"
        and held: "held u A n w'"
      let ?n = "allow n [registration_digest (up_env u) r (up_id u)]"
      let ?on = "r\<lparr>rg_pending := bt_insert (canonical_plugin_id (up_id u)) \<lparr>pf_enabled = True\<rparr> (rg_pending r)\<rparr>"
      have store: "wp A (io_then (recovering (up_env u) m (store_selection (up_env u) m r)) (\<lambda>r. ret (m, r))) Q E S w'"
        if "held u A m w'" "in_registry_path m = rg_path candidate"
          "registration_digest (up_env u) r (up_id u) \<in> set (jn_allowed (in_journal m))"
          "enable_after \<Longrightarrow> entries_digest (up_env u) (up_id u)
            (bt_get (rg_local r) (up_id u), bt_get (rg_managed r) (up_id u), True) \<in> set (jn_allowed (in_journal m))" for m
        by (rule wp_store_published [OF ok that(1,2) r(1-6) that(3,4)]) (rule Q E S that | assumption)+
      have "wp A (if enable_after
              then recovering (up_env u) ?n (io_then (enable_in (up_id u) True r) (\<lambda>enabled.
                     ret (allow ?n [registration_digest (up_env u) enabled (up_id u)])))
              else ret ?n) (\<lambda>n. wp A (io_then (recovering (up_env u) n (store_selection (up_env u) n r)) (\<lambda>r.
          ret (n, r))) Q E S) E S w'"
      proof (rule wp_if)
        assume enable_after
        show "wp A (recovering (up_env u) ?n (io_then (enable_in (up_id u) True r) (\<lambda>enabled.
                     ret (allow ?n [registration_digest (up_env u) enabled (up_id u)]))))
            (\<lambda>n. wp A (io_then (recovering (up_env u) n (store_selection (up_env u) n r)) (\<lambda>r. ret (n, r))) Q E S) E S w'"
          unfolding enable_view(1) [OF id]
        proof (rule wp_recovering [OF ok refl])
          show "wp A (io_then (ret ?on) (\<lambda>enabled. ret (allow ?n [registration_digest (up_env u) enabled (up_id u)])))
            (\<lambda>n. wp A (io_then (recovering (up_env u) n (store_selection (up_env u) n r)) (\<lambda>r. ret (n, r))) Q E S)
            (\<lambda>x. held u A ?n) (held u A ?n) w'"
            by (rule wp_then, rule wp_ret, rule wp_ret, rule store)
              (use n(3) enable_view(2) [OF id] in \<open>simp_all add: allow_fields registration_digest_view held_allow held\<close>)
        qed (auto intro: E S)
      next
        assume "\<not> enable_after"
        then show "wp A (ret ?n) (\<lambda>n. wp A (io_then (recovering (up_env u) n (store_selection (up_env u) n r)) (\<lambda>r.
          ret (n, r))) Q E S) E S w'"
          by (intro wp_ret store held_allow held) (use n(3) in \<open>auto simp: allow_fields\<close>)
      qed
      then show "wp A (let n = ?n in
        io_then (if enable_after
              then recovering (up_env u) n (io_then (enable_in (up_id u) True r) (\<lambda>enabled.
                     ret (allow n [registration_digest (up_env u) enabled (up_id u)])))
              else ret n) (\<lambda>n.
        io_then (recovering (up_env u) n (store_selection (up_env u) n r)) (\<lambda>selected.
        ret (n, selected)))) Q E S w'"
        unfolding Let_def by (rule wp_then)
    qed (auto intro: E S)
  qed (auto intro: E S)
qed

end
