(* ===== verification/Install_Update.thy ===== *)
theory Install_Update
  imports Install_Selection
begin

text \<open>
  A whole update, as \<open>edit_registration\<close> of \<open>src/src/plugin_cli.rs\<close> performs it, up to the commit
  and the recovery of the next start.
\<close>

section \<open>The states after the commit\<close>

text \<open>The new package is at the target, and the registration on disk names it there.\<close>

definition kept :: "update \<Rightarrow> plugin_registry \<Rightarrow> bool \<Rightarrow> install_world \<Rightarrow> bool" where
  "kept u candidate enabled w \<longleftrightarrow>
     (\<exists>v p. selected_version candidate (up_id u) = Some v
        \<and> entry_at (mv_package_path v) (up_start u) = Some (Package p)
        \<and> entry_at (up_target u) w = Some (Package (upgraded p))
        \<and> places u v (entries_of (up_id u) (iw_document w)))
     \<and> snd (snd (entries_of (up_id u) (iw_document w))) = enabled
     \<and> iw_pending w = iw_pending (up_start u)
     \<and> restore_doc (up_id u) (up_entries u) (iw_document w)
       = restore_doc (up_id u) (up_entries u) (iw_document (up_start u))"

definition closed_new :: "update \<Rightarrow> plugin_registry \<Rightarrow> bool \<Rightarrow> install_world \<Rightarrow> bool" where
  "closed_new u candidate enabled w \<longleftrightarrow>
     kept u candidate enabled w \<and> iw_journals w = iw_journals (up_start u)"

definition committed :: "update \<Rightarrow> plugin_registry \<Rightarrow> bool \<Rightarrow> install_world \<Rightarrow> bool" where
  "committed u candidate enabled w \<longleftrightarrow>
     kept u candidate enabled w
     \<and> (\<exists>j. iw_journals w = bt_insert (up_id u) (Stored j) (iw_journals (up_start u))
          \<and> jn_committed j \<and> journal_facts u (j\<lparr>jn_committed := False\<rparr>))"

lemma kept_clean:
  assumes "kept u candidate b w" "\<not> path_eq p (up_target u)"
  shows "kept u candidate b (drop_entry p w)" "kept u candidate b (put_entry p x w)"
proof -
  have "\<not> path_eq (up_target u) p" using assms(2) path_eq_sym by blast
  then show "kept u candidate b (drop_entry p w)" "kept u candidate b (put_entry p x w)"
    using assms(1) by (auto simp: kept_def)
qed

lemma kept_journals: "kept u candidate b (w\<lparr>iw_journals := js\<rparr>) = kept u candidate b w"
  by (simp add: kept_def)

lemma committed_clean:
  assumes "committed u candidate b w" "\<not> path_eq p (up_target u)"
  shows "committed u candidate b (drop_entry p w)" "committed u candidate b (put_entry p x w)"
  using assms kept_clean [OF _ assms(2)] by (auto simp: committed_def)

lemma wp_clean_committed:
  assumes w: "committed u candidate b w" and target: "jn_target (in_journal n) = up_target u"
  shows "wp A (clean_obsolete e n) (\<lambda>_. committed u candidate b) (\<lambda>_. committed u candidate b)
    (committed u candidate b) w"
proof -
  let ?J = "committed u candidate b"
  have clean: "wp A (clean_paths e n ps) (\<lambda>_. ?J) (\<lambda>_. ?J) ?J w" for ps
    unfolding clean_paths_def
    by (intro wp_then wp_load wp_clean_each [where t = "up_target u"] target)
      (use w in \<open>auto intro: committed_clean\<close>)
  show ?thesis
    unfolding clean_obsolete_def
  proof (rule wp_then, rule wp_mono [OF clean])
    fix w' assume "?J w'"
    then show "wp A (if jn_previous_managed (in_journal n) = None \<and> jn_previous_registration (in_journal n) \<noteq> None
        then io_then (load_registry (in_registry_path n)) (\<lambda>_. os_read) else ret ()) (\<lambda>_. ?J) (\<lambda>_. ?J) ?J w'"
      by (intro wp_if wp_then wp_load wp_read wp_ret)
  qed
qed

lemma committed_remove:
  assumes ok: "update_ok u" and w: "committed u candidate b w"
  shows "closed_new u candidate b (w\<lparr>iw_journals := bt_remove (up_id u) (iw_journals w)\<rparr>)"
proof -
  have "bt_get (iw_journals (up_start u)) (up_id u) = None" using ok by (simp add: update_ok_def)
  with w bt_remove_insert [OF this] show ?thesis
    by (auto simp: committed_def closed_new_def kept_journals)
qed

text \<open>A commit ends before or after the one write that decides it.\<close>

lemma wp_commit:
  assumes ok: "update_ok u" and o: "open_with u A (in_journal n) w" and stem: "in_stem n = up_id u"
    and kept: "kept u candidate b w"
    and Q: "\<And>w'. closed_new u candidate b w' \<Longrightarrow> Q () w'"
    and E: "\<And>x w'. recoverable u A w' \<or> committed u candidate b w' \<Longrightarrow> E x w'"
    and S: "\<And>w'. recoverable u A w' \<or> committed u candidate b w' \<Longrightarrow> S w'"
  shows "wp A (commit e n) Q E S w"
proof -
  let ?m = "n\<lparr>in_journal := (in_journal n)\<lparr>jn_committed := True\<rparr>\<rparr>"
  let ?w = "w\<lparr>iw_journals := bt_insert (in_stem ?m) (Stored (in_journal ?m)) (iw_journals w)\<rparr>"
  have now: "recoverable u A w" using o by (auto simp: recoverable_def)
  have facts: "journal_facts u (in_journal n)" using o by (simp add: open_with_def mid_def)
  then have "\<not> jn_committed (in_journal n)" by (simp add: journal_facts_def)
  then have "(in_journal ?m)\<lparr>jn_committed := False\<rparr> = in_journal n" by simp
  with facts have facts': "journal_facts u ((in_journal ?m)\<lparr>jn_committed := False\<rparr>)" by metis
  have "iw_journals ?w = bt_insert (up_id u) (Stored (in_journal ?m)) (iw_journals (up_start u))"
    using o stem by (simp add: open_with_def bt_insert_again)
  moreover have "kept u candidate b ?w" using kept by (simp add: kept_journals)
  ultimately have c: "committed u candidate b ?w"
    using facts' unfolding committed_def by (intro conjI exI [of _ "in_journal ?m"]) simp_all
  have target: "jn_target (in_journal ?m) = up_target u" using facts by (simp add: journal_facts_def)
  have after: "wp A (io_then (clean_obsolete e ?m) (\<lambda>_. journal_remove ?m)) Q E S ?w"
  proof (rule wp_then, rule wp_mono [OF wp_clean_committed [OF c target]])
    fix w' assume "committed u candidate b w'"
    with committed_remove [OF ok this] show "wp A (journal_remove ?m) Q E S w'"
      by (intro wp_journal_remove) (auto simp: stem intro: Q E S)
  qed (auto intro: E S)
  show ?thesis
    unfolding commit_def Let_def
    by (rule wp_then, rule wp_check_registration, rule wp_then, rule wp_journal_save, rule after)
      (auto intro: E S now)
qed

section \<open>The update\<close>

lemma published_kept:
  assumes "published u A candidate b n r w" "open_with u A (in_journal n) w'" "\<And>p. entry_at p w' = entry_at p w"
    and "entries_of (up_id u) (iw_document w') = (bt_get (rg_local r) (up_id u), bt_get (rg_managed r) (up_id u), enable)"
  shows "kept u candidate enable w'"
proof -
  from assms(1) obtain v p where v: "selected_version candidate (up_id u) = Some v"
      "entry_at (mv_package_path v) (up_start u) = Some (Package p)"
      "entry_at (up_target u) w = Some (Package (upgraded p))" "places u v (view_of_entries (up_id u) r)"
    by (auto simp: published_def arrived_def)
  then have "places u v (entries_of (up_id u) (iw_document w'))"
    unfolding assms(4) by (simp add: places_def view_of_entries_def)
  moreover have "entry_at (up_target u) w' = Some (Package (upgraded p))" using v(3) assms(3) by simp
  moreover have "iw_pending w' = iw_pending (up_start u)"
    "restore_doc (up_id u) (up_entries u) (iw_document w') = restore_doc (up_id u) (up_entries u) (iw_document (up_start u))"
    using assms(2) by (simp_all add: open_with_def mid_def)
  moreover have "snd (snd (entries_of (up_id u) (iw_document w'))) = enable" by (simp add: assms(4))
  ultimately show ?thesis using v(1,2) unfolding kept_def by blast
qed

text \<open>The write of the preference that is selected.\<close>

lemma wp_enable_selection:
  assumes ok: "update_ok u" and p: "published u A candidate enable n r w"
    and preference: "enable \<or> \<not> is_enabled candidate (up_id u)"
    and Q: "\<And>r' w'. open_with u A (in_journal n) w' \<Longrightarrow> kept u candidate enable w' \<Longrightarrow>
      r' = snapshot (rg_path candidate) (iw_document w') \<Longrightarrow> Q r' w'"
    and E: "\<And>x. E x w" and S: "S w"
  shows "wp A (io_then (enable_in (up_id u) enable r) (save_registry e)) Q E S w"
proof -
  have id: "valid_plugin_id (up_id u)" using ok by (simp add: update_ok_def)
  let ?d = "iw_document w"
  let ?on = "r\<lparr>rg_pending := bt_insert (canonical_plugin_id (up_id u)) \<lparr>pf_enabled = enable\<rparr> (rg_pending r)\<rparr>"
  have r: "r = snapshot (rg_path candidate) ?d" and o: "open_with u A (in_journal n) w" and stem: "in_stem n = up_id u"
    using p by (simp_all add: published_def)
  have staged: "staged_on (up_id u) ?d ?on"
    unfolding r by (intro staged_on_enable staged_on_snapshot)
  have "bt_get (rg_pending ?on) (canonical_plugin_id (up_id u)) \<noteq> None" by simp
  then have "bt_len (rg_pending ?on) \<noteq> 0" by (rule bt_len_get)
  then have something: "something_staged ?on" unfolding something_staged_def by blast
  have path: "rg_path ?on = rg_path candidate" using p by (simp add: r)
  let ?m = "merge_staged ?on ?d"
  have view: "entries_of (up_id u) ?m = (bt_get (rg_local r) (up_id u), bt_get (rg_managed r) (up_id u), enable)"
    using merge_view [OF staged] enable_view(2) [OF id, where r = r and b = enable] by simp
  have restore: "restore_doc (up_id u) (up_entries u) ?m = restore_doc (up_id u) (up_entries u) ?d"
    using staged by (simp add: staged_on_def restore_merged)
  have "entries_digest (up_env u) (up_id u) (entries_of (up_id u) ?m) \<in> set (jn_allowed (in_journal n))"
  proof (cases enable)
    case True
    have "enable \<longrightarrow> entries_digest (up_env u) (up_id u)
        (bt_get (rg_local r) (up_id u), bt_get (rg_managed r) (up_id u), True) \<in> set (jn_allowed (in_journal n))"
      using p unfolding published_def by blast
    with True show ?thesis unfolding view by simp
  next
    case False
    have "entries_of (up_id u) ?d = view_of_entries (up_id u) r" using r view_snapshot by metis
    moreover have "is_enabled r (up_id u) = enable" using False preference p unfolding published_def by blast
    ultimately have "entries_of (up_id u) ?d = entries_of (up_id u) ?m"
      unfolding view by (simp add: view_of_entries_def)
    with o show ?thesis by (simp add: open_with_def)
  qed
  from held_write(2) [OF o stem restore this]
  have after: "open_with u A (in_journal n) (w\<lparr>iw_document := ?m\<rparr>)" .
  have "kept u candidate enable (w\<lparr>iw_document := ?m\<rparr>)"
    by (rule published_kept [OF p after]) (use view in simp_all)
  from Q [OF after this refl] show ?thesis
    unfolding enable_view(1) [OF id] using something path
    by (intro wp_then wp_ret wp_save) (auto intro: E S)
qed

lemma wp_install_selection:
  assumes ok: "update_ok u" and previous: "view_of_entries (up_id u) previous = up_entries u"
    and candidate: "staged_for u candidate" and plain: "tidy A \<Longrightarrow> plain_update u candidate"
    and preference: "enable \<or> \<not> is_enabled candidate (up_id u)"
  shows "wp A (install_selection (up_env u) candidate previous (up_id u) enable)
    (\<lambda>r w. closed_new u candidate enable w)
    (\<lambda>_ w. recoverable u A w \<or> committed u candidate enable w)
    (\<lambda>w. recoverable u A w \<or> committed u candidate enable w) (up_start u)"
    (is "wp A _ ?Q ?E ?S _")
proof -
  have id: "valid_plugin_id (up_id u)" using ok by (simp add: update_ok_def)
  have finish: "wp A (io_then (io_try (io_then (enable_in (up_id u) enable r) (save_registry (up_env u)))) (\<lambda>x.
      case x of Inl y \<Rightarrow> io_then (rollback (up_env u) n) (\<lambda>_. fails y)
      | Inr next \<Rightarrow> io_then (commit (up_env u) n) (\<lambda>_. ret next))) ?Q ?E ?S w"
    if p: "published u A candidate enable n r w" for n r w
  proof -
    have stem: "in_stem n = up_id u" and o: "open_with u A (in_journal n) w" using p by (simp_all add: published_def)
    have held: "held u A n w" using o stem by (rule held_same)
    have fail: "wp A (io_then (rollback (up_env u) n) (\<lambda>_. fails y)) ?Q ?E ?S w" for y
      by (rule wp_then, rule wp_mono [OF wp_rollback [OF ok held]])
        (auto intro!: wp_fails simp: recoverable_def dest: held_recoverable)
    have success: "wp A (io_then (commit (up_env u) n) (\<lambda>_. ret r')) ?Q ?E ?S w'"
      if "open_with u A (in_journal n) w'" "kept u candidate enable w'" for r' w'
      by (rule wp_then, rule wp_commit [OF ok that(1) stem that(2)]) (auto intro: wp_ret)
    show ?thesis
      by (rule wp_then, rule wp_try, rule wp_enable_selection [OF ok p preference])
        (use fail success held in \<open>auto dest: held_recoverable\<close>)
  qed
  show ?thesis
    unfolding install_selection_def publish_def
    by (rule wp_then, rule wp_publish_inner [OF ok previous candidate plain]) (auto intro: finish)
qed

section \<open>Recovery at the next start\<close>

lemma open_quiet:
  assumes "open_with u A j w" "tidy A"
  shows "open_with u {} j w"
  using assms by (simp add: open_with_def mid_def tidy_def)

lemma journal_facts_valid:
  assumes ok: "update_ok u" and f: "journal_facts u j"
  shows "journal_valid (up_env u) j" "jn_id j = up_id u"
  using assms by (auto simp: journal_valid_def journal_facts_def update_ok_def split: option.splits)

lemma run_of:
  assumes "wp A m Q E S w" "m as w = (x, bs, w')" "set as \<subseteq> A"
  shows "case x of Val v \<Rightarrow> Q v w' | Fails e \<Rightarrow> E e w' | Stops \<Rightarrow> S w'"
  using assms unfolding wp_def by blast

lemma wp_valid: "wp A m Q E S w \<Longrightarrow> m [] w = (Val x, [], w') \<Longrightarrow> Q x w'"
  using wpD(2) [of A m Q E S w "[]"] by simp

lemma quiet_journal:
  assumes "bt_get (iw_journals w) stem = Some (Stored j)" "journal_valid e j" "jn_id j = stem"
  shows "recover_journal e path stem s [] w =
     (let n = \<lparr>in_registry_path = path, in_stem = stem, in_journal = j\<rparr> in
         if jn_committed j then
           io_then (io_try (clean_obsolete e n)) (\<lambda>r.
           case r of
             Inr _ \<Rightarrow> io_then (journal_remove n) (\<lambda>_. ret s)
           | Inl _ \<Rightarrow> ret (fst s, jn_id j # snd s))
         else
           io_then (io_try (rollback e n)) (\<lambda>r.
           case r of
             Inr r' \<Rightarrow> ret (r', snd s)
           | Inl _ \<Rightarrow> ret (fst s, jn_id j # snd s))) [] w"
  using assms by (simp add: recover_journal_def quiet_then transaction_lock_def journal_valid_def)

lemma recover_open:
  assumes ok: "update_ok u" and o: "open_with u A j w" and tidy: "tidy A"
    and stored: "storable (ie_codec (up_env u)) path (restore_doc (up_id u) (up_entries u) (iw_document (up_start u)))"
  shows "\<exists>r w'. recover_journal (up_env u) path (up_id u) s [] w = (Val (r, snd s), [], w') \<and> closed_old u w'"
proof -
  let ?n = "\<lparr>in_registry_path = path, in_stem = up_id u, in_journal = j\<rparr>"
  have f: "journal_facts u j" using o by (simp add: open_with_def mid_def)
  have restore: "storable (ie_codec (up_env u)) path (restore_doc (up_id u) (up_entries u) (iw_document w))"
    using o stored by (simp add: open_with_def mid_def)
  obtain r w' where run: "rollback (up_env u) ?n [] w = (Val r, [], w')"
    using quiet_rollback [OF ok open_quiet [OF o tidy] refl restore] by blast
  have "held u A ?n w" using o by (intro held_same) simp_all
  from wp_valid [OF wp_rollback [OF ok this] run] have "closed_old u w'" .
  moreover have "bt_get (iw_journals w) (up_id u) = Some (Stored j)" using o by (simp add: open_with_def)
  note quiet_journal [OF this journal_facts_valid [OF ok f], of path s]
  ultimately show ?thesis
    using run f by (simp add: Let_def journal_facts_def quiet_then quiet_try)
qed

lemma recover_committed:
  assumes ok: "update_ok u" and c: "committed u candidate b w"
    and j: "bt_get (iw_journals w) (up_id u) = Some (Stored j)" "jn_committed j" "journal_facts u (j\<lparr>jn_committed := False\<rparr>)"
  shows "wp A (recover_journal (up_env u) path (up_id u) s)
    (\<lambda>_ w. closed_new u candidate b w \<or> committed u candidate b w)
    (\<lambda>_ w. closed_new u candidate b w \<or> committed u candidate b w)
    (\<lambda>w. closed_new u candidate b w \<or> committed u candidate b w) w" (is "wp A _ (\<lambda>_. ?K) (\<lambda>_. ?K) ?K w")
proof -
  let ?n = "\<lparr>in_registry_path = path, in_stem = up_id u, in_journal = j\<rparr>"
  have id: "jn_id j = up_id u" "jn_target j = up_target u"
    using j(3) by (simp_all add: journal_facts_def)
  have clean: "wp A (io_then (io_try (clean_obsolete (up_env u) ?n)) (\<lambda>r. case r of
      Inr _ \<Rightarrow> io_then (journal_remove ?n) (\<lambda>_. ret s) | Inl _ \<Rightarrow> ret (fst s, jn_id j # snd s)))
      (\<lambda>_. ?K) (\<lambda>_. ?K) ?K w"
  proof (rule wp_then, rule wp_try, rule wp_mono [OF wp_clean_committed [OF c]])
    show "jn_target (in_journal ?n) = up_target u" by (simp add: id)
    fix w1 assume w1: "committed u candidate b w1"
    show "wp A (case Inr r of Inr _ \<Rightarrow> io_then (journal_remove ?n) (\<lambda>_. ret s)
        | Inl _ \<Rightarrow> ret (fst s, jn_id j # snd s)) (\<lambda>_. ?K) (\<lambda>_. ?K) ?K w1" for r :: unit
      using w1 committed_remove [OF ok w1] by (auto intro!: wp_then wp_journal_remove wp_ret)
    show "wp A (case Inl r of Inr _ \<Rightarrow> io_then (journal_remove ?n) (\<lambda>_. ret s)
        | Inl _ \<Rightarrow> ret (fst s, jn_id j # snd s)) (\<lambda>_. ?K) (\<lambda>_. ?K) ?K w1" for r :: storage_problem
      using w1 by (auto intro!: wp_ret)
  qed auto
  then show ?thesis
    unfolding recover_journal_def Let_def using j(1,2) c
    by (auto intro!: wp_then wp_read wp_gets wp_check simp: transaction_lock_def)
qed

section \<open>Any number of starts\<close>

text \<open>
  What a start of the program does with the journal of one plugin: \<open>recover_journals\<close> comes to
  each journal of the directory once.
\<close>

definition next_start ::
    "install_env \<Rightarrow> string \<Rightarrow> string \<Rightarrow> plugin_registry \<times> string list \<Rightarrow> (plugin_registry \<times> string list) io" where
  "next_start e path stem s =
     io_then (gets (\<lambda>w. bt_has (iw_journals w) stem)) (\<lambda>there.
     if there then recover_journal e path stem s else ret s)"

text \<open>Starts with any answers of the operating system, of which any may end early.\<close>

fun starts ::
    "install_env \<Rightarrow> string \<Rightarrow> string \<Rightarrow> ((plugin_registry \<times> string list) \<times> answer list) list
     \<Rightarrow> install_world \<Rightarrow> install_world" where
  "starts e path stem [] w = w"
| "starts e path stem ((s, as) # later) w =
     (case next_start e path stem s as w of (_, _, w') \<Rightarrow> starts e path stem later w')"

definition settled :: "update \<Rightarrow> answer set \<Rightarrow> plugin_registry \<Rightarrow> bool \<Rightarrow> install_world \<Rightarrow> bool" where
  "settled u A candidate b w \<longleftrightarrow>
     recoverable u A w \<or> closed_new u candidate b w \<or> committed u candidate b w"

lemma recoverable_subset: "recoverable u A w \<Longrightarrow> A \<subseteq> B \<Longrightarrow> recoverable u B w"
  unfolding recoverable_def open_with_def mid_def tidy_def by blast

lemma wp_next_start:
  assumes ok: "update_ok u" and w: "settled u A candidate b w"
  shows "wp A (next_start (up_env u) path (up_id u) s) (\<lambda>_. settled u A candidate b) (\<lambda>_. settled u A candidate b)
    (settled u A candidate b) w" (is "wp A _ (\<lambda>_. ?K) (\<lambda>_. ?K) ?K w")
proof -
  have none: "bt_get (iw_journals (up_start u)) (up_id u) = None" using ok by (simp add: update_ok_def)
  consider "closed_old u w \<or> closed_new u candidate b w" | j where "open_with u A j w" | "committed u candidate b w"
    using w unfolding settled_def recoverable_def by blast
  then show ?thesis
  proof cases
    case 1
    then have "bt_get (iw_journals w) (up_id u) = None" using none by (auto simp: closed_old_def closed_new_def)
    with w show ?thesis by (auto simp: next_start_def intro!: wp_then wp_gets wp_ret)
  next
    case (2 j)
    let ?n = "\<lparr>in_registry_path = path, in_stem = up_id u, in_journal = j\<rparr>"
    from 2 have here: "bt_get (iw_journals w) (up_id u) = Some (Stored j)" "journal_facts u j"
      by (simp_all add: open_with_def mid_def)
    then have there: "bt_has (iw_journals w) (up_id u)" by (simp add: bt_has_def)
    have "\<not> jn_committed j" using here(2) by (simp add: journal_facts_def)
    moreover have "held u A ?n w" using 2 by (intro held_same) simp_all
    then have "wp A (rollback (up_env u) ?n) (\<lambda>_. ?K) (\<lambda>_. ?K) ?K w"
      by (rule wp_mono [OF wp_rollback [OF ok]])
        (auto simp: settled_def recoverable_def dest: held_recoverable)
    then have "wp A (io_then (io_try (rollback (up_env u) ?n)) (\<lambda>r. case r of
        Inr r1 \<Rightarrow> ret (r1, snd s) | Inl _ \<Rightarrow> ret (fst s, jn_id j # snd s))) (\<lambda>_. ?K) (\<lambda>_. ?K) ?K w"
      by (intro wp_then wp_try) (rule wp_mono, assumption, auto intro: wp_ret)
    ultimately have "wp A (recover_journal (up_env u) path (up_id u) s) (\<lambda>_. ?K) (\<lambda>_. ?K) ?K w"
      unfolding recover_journal_def Let_def using here(1) w
      by (auto intro!: wp_then wp_read wp_gets wp_check simp: transaction_lock_def)
    with there show ?thesis by (auto simp: next_start_def intro!: wp_then wp_gets)
  next
    case 3
    then obtain j where j: "bt_get (iw_journals w) (up_id u) = Some (Stored j)" "jn_committed j"
      "journal_facts u (j\<lparr>jn_committed := False\<rparr>)"
      by (auto simp: committed_def)
    then have "bt_has (iw_journals w) (up_id u)" by (simp add: bt_has_def)
    with wp_mono [OF recover_committed [OF ok 3 j, of A path s]] show ?thesis
      by (auto simp: next_start_def settled_def intro!: wp_then wp_gets)
  qed
qed

lemma starts_settled:
  assumes "update_ok u" "settled u A candidate b w" "\<Union> (set ` snd ` set later) \<subseteq> A"
  shows "settled u A candidate b (starts (up_env u) path (up_id u) later w)"
  using assms(2,3)
proof (induction later arbitrary: w)
  case (Cons x later)
  obtain s as where x: "x = (s, as)" by (cases x)
  obtain y bs w1 where run: "next_start (up_env u) path (up_id u) s as w = (y, bs, w1)" by (metis prod_cases3)
  have "set as \<subseteq> A" using Cons.prems(2) x by auto
  from run_of [OF wp_next_start [OF assms(1) Cons.prems(1)] run this] have "settled u A candidate b w1"
    by (cases y) auto
  from Cons.IH [OF this] Cons.prems(2) show ?case by (simp add: x run)
qed simp

end
