(* ===== verification/Install_Frame.thy ===== *)
theory Install_Frame
  imports Install_Update
begin

text \<open>
  What an update of one plugin leaves alone, whatever the operating system answers: every package
  of another plugin outside the staging directory.
\<close>

section \<open>Programs that keep a property of the disk\<close>

definition keeps :: "(install_world \<Rightarrow> bool) \<Rightarrow> 'a io \<Rightarrow> bool" where
  "keeps J m \<longleftrightarrow> (\<forall>w. J w \<longrightarrow> wp UNIV m (\<lambda>_. J) (\<lambda>_. J) J w)"

named_theorems keeps_intros "programs that keep a property of the disk"

lemma keepsI: "(\<And>w. J w \<Longrightarrow> wp UNIV m (\<lambda>_. J) (\<lambda>_. J) J w) \<Longrightarrow> keeps J m"
  by (simp add: keeps_def)

lemma keepsD: "keeps J m \<Longrightarrow> J w \<Longrightarrow> wp UNIV m (\<lambda>_. J) (\<lambda>_. J) J w"
  by (simp add: keeps_def)

lemma keeps_basic [keeps_intros]:
  "keeps J (ret x)" "keeps J (fails y)" "keeps J panics" "keeps J (gets g)" "keeps J (check_that b y)"
  "keeps J (lift_outcome h r)" "keeps J os_read" "keeps J (load_registry path)"
  by (auto intro!: keepsI wp_intros)

lemma keeps_then [keeps_intros]: "keeps J m \<Longrightarrow> (\<And>x. keeps J (f x)) \<Longrightarrow> keeps J (io_then m f)"
  unfolding keeps_def by (blast intro: wp_then wp_mono)

lemma keeps_gets: "(\<And>w. J w \<Longrightarrow> keeps J (f (g w))) \<Longrightarrow> keeps J (io_then (gets g) f)"
  unfolding keeps_def by (blast intro: wp_then wp_gets)

lemma keeps_try [keeps_intros]: "keeps J m \<Longrightarrow> keeps J (io_try m)"
  unfolding keeps_def by (blast intro: wp_try)

lemma keeps_catch [keeps_intros]: "keeps J m \<Longrightarrow> (\<And>x. keeps J (h x)) \<Longrightarrow> keeps J (io_catch m h)"
  unfolding io_catch_def by (intro keeps_intros) (auto split: sum.split intro: keeps_intros)

lemma keeps_if [keeps_intros]: "keeps J m \<Longrightarrow> keeps J m' \<Longrightarrow> keeps J (if b then m else m')"
  by simp

lemma keeps_option [keeps_intros]:
  "keeps J m \<Longrightarrow> (\<And>x. keeps J (f x)) \<Longrightarrow> keeps J (case y of None \<Rightarrow> m | Some x \<Rightarrow> f x)"
  by (cases y) simp_all

lemma keeps_stored [keeps_intros]:
  "keeps J m \<Longrightarrow> (\<And>x. keeps J (f x)) \<Longrightarrow> keeps J (case y of Garbage \<Rightarrow> m | Stored x \<Rightarrow> f x)"
  by (cases y) simp_all

lemma keeps_call [keeps_intros]: "(\<And>w. J w \<Longrightarrow> J (f w)) \<Longrightarrow> keeps J (os_call f)"
  by (auto intro!: keepsI wp_call)

lemma keeps_inspect [keeps_intros]:
  "keeps J (inspect_prepared_package e p)" "keeps J (tree_at p)" "keeps J (receipt_at p)" "keeps J (package_at p)"
  by (auto intro!: keepsI wp_inspect wp_tree_at wp_receipt_at wp_package_at)

lemma keeps_validate [keeps_intros]: "keeps J (validate_current e r i)"
  unfolding validate_current_def by (intro keeps_intros)

lemma keeps_registration [keeps_intros]:
  "keeps J (registration_at_path e r i t)" "keeps J (register_in e i l m r)" "keeps J (enable_in i b r)"
proof -
  show register: "keeps J (register_in e i l m r)" for i l m r
    by (auto simp: register_in_def split: prod.split outcome.split intro: keeps_intros)
  show "keeps J (registration_at_path e r i t)"
    unfolding registration_at_path_def Let_def by (intro keeps_intros register)
  show "keeps J (enable_in i b r)"
    by (auto simp: enable_in_def split: prod.split outcome.split intro: keeps_intros)
qed

lemma keeps_at_installation [keeps_intros]: "keeps J (at_installation_path e r i t)"
  unfolding at_installation_path_def by (intro keeps_intros)

section \<open>The packages of other plugins\<close>

definition spared :: "install_env \<Rightarrow> string \<Rightarrow> install_world \<Rightarrow> install_world \<Rightarrow> bool" where
  "spared e i w0 w \<longleftrightarrow>
     (\<forall>q x m. \<not> in_staging e q \<and> \<not> path_eq q (installed_path e i) \<and> entry_at q w0 = Some (Package x)
        \<and> pt_manifest (pg_tree x) = Ok m \<and> pm_id m \<noteq> i \<longrightarrow> entry_at q w = Some (Package x))"

text \<open>A path of the update itself.\<close>

definition own_path :: "install_env \<Rightarrow> string \<Rightarrow> string \<Rightarrow> bool" where
  "own_path e i p \<longleftrightarrow> in_staging e p \<or> path_eq p (installed_path e i)"

lemma spared_fields [simp]:
  "spared e i w0 (w\<lparr>iw_document := d\<rparr>) = spared e i w0 w"
  "spared e i w0 (w\<lparr>iw_journals := js\<rparr>) = spared e i w0 w"
  "spared e i w0 (w\<lparr>iw_pending := cs\<rparr>) = spared e i w0 w"
  "spared e i w0 (w\<lparr>iw_sequence := k\<rparr>) = spared e i w0 w"
  by (simp_all add: spared_def)

lemma spared_same: "spared e i w0 w \<Longrightarrow> (\<And>q. \<not> own_path e i q \<Longrightarrow> entry_at q w' = entry_at q w) \<Longrightarrow> spared e i w0 w'"
  by (simp add: spared_def own_path_def)

lemma own_path_eq: "path_eq p q \<Longrightarrow> own_path e i p \<longleftrightarrow> own_path e i q"
  using in_staging_eq [of p q e] by (auto simp: own_path_def path_eq_def)

lemma spared_own:
  assumes "spared e i w0 w" "own_path e i p"
  shows "spared e i w0 (put_entry p x w)" "spared e i w0 (drop_entry p w)"
proof -
  have "\<not> path_eq q p" if "\<not> own_path e i q" for q using that assms(2) own_path_eq by blast
  then show "spared e i w0 (put_entry p x w)" "spared e i w0 (drop_entry p w)"
    by (auto intro!: spared_same [OF assms(1)])
qed

lemma spared_grown: "spared e i w0 w \<Longrightarrow> grown e w w' \<Longrightarrow> spared e i w0 w'"
  by (rule spared_same) (simp_all add: own_path_def grown_outside)

text \<open>Removing a package of the plugin itself.\<close>

lemma spared_remove:
  assumes "spared e i w0 w" "entry_at p w = Some (Package y)" "pt_manifest (pg_tree y) = Ok d" "pm_id d = i"
  shows "spared e i w0 (put_entry p x w)" "spared e i w0 (drop_entry p w)"
proof -
  have "\<not> path_eq q p" if "spared e i w0 w" "\<not> in_staging e q" "\<not> path_eq q (installed_path e i)"
    "entry_at q w0 = Some (Package z)" "pt_manifest (pg_tree z) = Ok m" "pm_id m \<noteq> i" for q z m
  proof
    assume "path_eq q p"
    then have "entry_at q w = Some (Package y)" using entry_at_eq assms(2) by metis
    moreover have "entry_at q w = Some (Package z)" using that by (auto simp: spared_def)
    ultimately show False using that assms(3,4) by simp
  qed
  then show "spared e i w0 (put_entry p x w)" "spared e i w0 (drop_entry p w)"
    using assms(1) by (auto simp: spared_def)
qed

lemma spared_moved:
  assumes "spared e i w0 w" "own_path e i s" "own_path e i t"
  shows "spared e i w0 (moved s t w)" "spared e i w0 (upgrade_at s w)"
proof -
  show up: "spared e i w0 (upgrade_at s w)"
    using spared_own [OF assms(1,2)] assms(1) by (auto simp: upgrade_at_def split: option.split dir_entry.split)
  show "spared e i w0 (moved s t w)"
    using spared_own [OF spared_own(2) [OF up assms(2)] assms(3)] up
    by (auto simp: moved_def move_entry_def split: option.split)
qed

section \<open>The programs of an update\<close>

definition own_journal :: "install_env \<Rightarrow> string \<Rightarrow> journal \<Rightarrow> bool" where
  "own_journal e i j \<longleftrightarrow> jn_id j = i \<and> own_path e i (jn_target j) \<and> own_path e i (jn_ready j)
     \<and> (\<forall>b. jn_backup j = Some b \<longrightarrow> own_path e i b)"

lemma spared_relocate [keeps_intros]:
  "own_path e i s \<Longrightarrow> own_path e i t \<Longrightarrow> keeps (spared e i w0) (relocate_prepared_package e s t)"
  using spared_moved by (auto intro!: keepsI wp_relocate)

lemma spared_journal [keeps_intros]:
  "keeps (spared e i w0) (journal_save e n)" "keeps (spared e i w0) (journal_remove n)"
  "keeps (spared e i w0) (clear_registration_checkpoint e r k)" "keeps (spared e i w0) (transaction_lock k)"
  unfolding journal_save_def journal_remove_def clear_registration_checkpoint_def read_checkpoint_def
    remove_pending_def transaction_lock_def Let_def
  by (auto split: option.split stored.split intro!: keeps_intros)

lemma spared_save [keeps_intros]: "keeps (spared e i w0) (save_registry e r)"
  by (rule keepsI, rule wp_save) simp_all

lemma spared_check [keeps_intros]:
  "keeps (spared e i w0) (check_registration e n)" "keeps (spared e i w0) (check_previous e n path)"
  unfolding check_registration_def check_previous_def Let_def by (intro keeps_intros)+

lemma spared_clean_each:
  assumes "jn_id j = i"
  shows "keeps (spared e i w0) (clean_each e j r ps)"
proof (induction ps)
  case Nil
  then show ?case by (simp add: keeps_intros)
next
  case (Cons p ps)
  show ?case
  proof (rule keepsI)
    fix w assume w: "spared e i w0 w"
    let ?J = "spared e i w0"
    show "wp UNIV (clean_each e j r (p # ps)) (\<lambda>_. ?J) (\<lambda>_. ?J) ?J w"
      unfolding clean_each.simps
    proof (intro wp_then wp_gets, rule wp_if)
      show "wp UNIV (clean_each e j r ps) (\<lambda>_. ?J) (\<lambda>_. ?J) ?J w" using Cons.IH w by (rule keepsD)
      show "wp UNIV (io_then (inspect_prepared_package e p) (\<lambda>package.
          io_then (check_that (pm_id (pp_manifest package) = jn_id j) OtherPlugin) (\<lambda>_.
          io_then (remove_prepared_package e p) (\<lambda>_. clean_each e j r ps)))) (\<lambda>_. ?J) (\<lambda>_. ?J) ?J w"
      proof (rule wp_then, rule wp_inspect, rule wp_then, rule wp_check, rule wp_then)
        fix d y
        assume y: "entry_at p w = Some (Package y)" "inspect_package e p y = Ok d" "pm_id (pp_manifest d) = jn_id j"
        note gone = spared_remove [OF w y(1) inspect_manifest [OF y(2)] y(3) [unfolded assms]]
        show "wp UNIV (remove_prepared_package e p)
            (\<lambda>_. wp UNIV (clean_each e j r ps) (\<lambda>_. ?J) (\<lambda>_. ?J) ?J) (\<lambda>_. ?J) ?J w"
          by (rule wp_remove) (use w gone in \<open>auto intro: keepsD [OF Cons.IH]\<close>)
      qed (use w in auto)
    qed
  qed
qed

lemma spared_clean [keeps_intros]:
  assumes "jn_id (in_journal n) = i"
  shows "keeps (spared e i w0) (clean_paths e n ps)" "keeps (spared e i w0) (clean_obsolete e n)"
proof -
  show clean: "keeps (spared e i w0) (clean_paths e n ps)" for ps
    unfolding clean_paths_def using spared_clean_each [OF assms] by (intro keeps_intros)
  show "keeps (spared e i w0) (clean_obsolete e n)"
    unfolding clean_obsolete_def by (intro keeps_intros clean)
qed

lemma spared_discard [keeps_intros]:
  assumes "own_journal e i (in_journal n)"
  shows "keeps (spared e i w0) (discard_target e n b)"
proof -
  have own: "own_path e i (jn_target (in_journal n))" using assms by (simp add: own_journal_def)
  have "keeps (spared e i w0) (remove_prepared_package e (jn_target (in_journal n)))"
    using spared_own [OF _ own] by (auto intro!: keepsI wp_remove)
  then show ?thesis unfolding discard_target_def Let_def by (intro keeps_intros)
qed

lemma spared_rollback [keeps_intros]:
  assumes "own_journal e i (in_journal n)"
  shows "keeps (spared e i w0) (rollback e n)"
proof -
  have own: "own_path e i (jn_target (in_journal n))" "jn_id (in_journal n) = i"
    using assms by (simp_all add: own_journal_def)
  have backup: "own_path e i b" if "jn_backup (in_journal n) = Some b" for b
    using assms that by (simp add: own_journal_def)
  have restore: "keeps (spared e i w0) (restore_registration e j r)" for j r
    unfolding restore_registration_def by (intro keeps_intros)
  let ?b = "\<lambda>w. case jn_backup (in_journal n) of None \<Rightarrow> None | Some b \<Rightarrow> if exists_at b w then Some b else None"
  have move: "keeps (spared e i w0) (case ?b w of
      None \<Rightarrow> ret () | Some b \<Rightarrow> relocate_prepared_package e b (jn_target (in_journal n)))" for w
    using own backup by (auto split: option.split intro!: keeps_intros)
  have rest: "keeps (spared e i w0) (io_then (discard_target e n (?b w \<noteq> None)) (\<lambda>_.
      io_then (case ?b w of None \<Rightarrow> ret () | Some b \<Rightarrow> relocate_prepared_package e b (jn_target (in_journal n))) (\<lambda>_.
      io_then (restore_registration e (in_journal n) r) (\<lambda>restored.
      io_then (clean_paths e n ps) (\<lambda>_. io_then (journal_remove n) (\<lambda>_. ret restored))))))" for w r ps
    by (rule keeps_then, rule spared_discard [OF assms], rule keeps_then, rule move) (intro keeps_intros restore own)
  show ?thesis
    unfolding rollback_def Let_def
  proof (rule keeps_then, rule spared_check, rule keeps_gets)
    fix r w
    show "keeps (spared e i w0) (io_then (case ?b w of Some b \<Rightarrow> check_previous e n b
          | None \<Rightarrow> (case jn_previous_registration (in_journal n) of
              None \<Rightarrow> ret () | Some l \<Rightarrow> check_previous e n (lr_path l))) (\<lambda>_.
        io_then (discard_target e n (?b w \<noteq> None)) (\<lambda>_.
        io_then (case ?b w of None \<Rightarrow> ret () | Some b \<Rightarrow> relocate_prepared_package e b (jn_target (in_journal n))) (\<lambda>_.
        io_then (restore_registration e (in_journal n) r) (\<lambda>restored.
        io_then (clean_paths e n [jn_ready (in_journal n), jn_staged (in_journal n)]) (\<lambda>_.
        io_then (journal_remove n) (\<lambda>_. ret restored)))))))"
      by (rule keeps_then, rule keeps_option) (intro keeps_intros rest)+
  qed
qed

lemma keeps_bind:
  assumes "keeps J m" "\<And>x w. J w \<Longrightarrow> wp UNIV (f x) Q (\<lambda>_. J) J w" "J w"
  shows "wp UNIV (io_then m f) Q (\<lambda>_. J) J w"
  by (rule wp_then, rule wp_mono [OF keepsD [OF assms(1,3)]]) (auto intro: assms(2))

lemma spared_open:
  assumes env: "env_ok e" and id: "valid_plugin_id i" and w: "spared e i w0 w"
  shows "wp UNIV (open_installation e candidate previous i)
    (\<lambda>n w. spared e i w0 w \<and> own_journal e i (in_journal n)) (\<lambda>_. spared e i w0) (spared e i w0) w"
    (is "wp UNIV _ ?Q ?E ?J w")
proof (cases "selected_version candidate i")
  case None
  have "wp UNIV (io_then (transaction_lock i) (\<lambda>_. io_then (gets (\<lambda>w. bt_has (iw_journals w) i)) (\<lambda>there.
      io_then (check_that (\<not> there) Interrupted) (\<lambda>_. fails SelectionMissing)))) ?Q ?E ?J w"
    by (intro keeps_bind keeps_intros w) (simp add: wp_fails)
  with None show ?thesis by (simp add: open_installation_def)
next
  case (Some v)
  let ?t = "installed_path e i"
  have finish: "wp UNIV (io_then (journal_save e n) (\<lambda>_. io_then (clear_registration_checkpoint e candidate i) (\<lambda>_. ret n))) ?Q ?E ?J w"
    if "?J w" "own_journal e i (in_journal n)" for n w
    by (rule keeps_bind, rule keeps_intros, rule keeps_bind, rule keeps_intros) (use that in \<open>auto intro!: wp_ret\<close>)
  have clone: "wp UNIV (io_then (clone_prepared_package e (mv_package_path v)) (\<lambda>ready.
      io_then (backup_path e ?t) (\<lambda>backup. io_then (journal_save e (n ready backup)) (\<lambda>_.
      io_then (clear_registration_checkpoint e candidate i) (\<lambda>_. ret (n ready backup)))))) ?Q ?E ?J w"
    if w: "?J w" and n: "\<And>ready b. jn_id (in_journal (n ready b)) = i \<and> jn_target (in_journal (n ready b)) = ?t
        \<and> jn_ready (in_journal (n ready b)) = pp_path ready \<and> jn_backup (in_journal (n ready b)) = b" for n w
  proof (rule wp_then, rule wp_clone [OF env])
    fix x :: prepared_package and w1 assume x: "grown e w w1" "in_staging e (pp_path x)"
    have own: "own_journal e i (in_journal (n x b))" if "\<And>p. b = Some p \<Longrightarrow> in_staging e p" for b
      using n [of x b] x(2) that by (auto simp: own_journal_def own_path_def)
    show "wp UNIV (io_then (backup_path e ?t) (\<lambda>backup. io_then (journal_save e (n x backup)) (\<lambda>_.
        io_then (clear_registration_checkpoint e candidate i) (\<lambda>_. ret (n x backup))))) ?Q ?E ?J w1"
    proof (rule wp_then, rule wp_backup_path [OF env])
      have w1: "?J w1" using w x(1) by (rule spared_grown)
      show "wp UNIV (io_then (journal_save e (n x None)) (\<lambda>_.
          io_then (clear_registration_checkpoint e candidate i) (\<lambda>_. ret (n x None)))) ?Q ?E ?J w1"
        using w1 by (rule finish) (auto intro: own)
      fix w2 assume g: "grown e w1 w2"
      show w2: "?J w2" "?J w2" using w1 g by (auto intro: spared_grown)
      fix b assume "in_staging e b"
      then show "wp UNIV (io_then (journal_save e (n x (Some b))) (\<lambda>_.
          io_then (clear_registration_checkpoint e candidate i) (\<lambda>_. ret (n x (Some b))))) ?Q ?E ?J w2"
        using w2(1) by (intro finish own) auto
    qed
  qed (use spared_grown [OF w] in auto)
  show ?thesis
    unfolding open_installation_def Some option.case Let_def
    by (rule clone keeps_bind keeps_intros w | simp)+
qed

lemma own_allow: "own_journal e i (in_journal (allow n ds)) = own_journal e i (in_journal n)"
  by (simp add: own_journal_def allow_def)

lemma spared_recovering [keeps_intros]:
  assumes "own_journal e i (in_journal n)" "keeps (spared e i w0) m"
  shows "keeps (spared e i w0) (recovering e n m)"
  unfolding recovering_def
  by (rule keeps_catch [OF assms(2)], rule keeps_then, rule keeps_try, rule spared_rollback [OF assms(1)])
    (auto split: sum.split intro: keeps_intros)

lemma spared_swap [keeps_intros]:
  assumes "own_journal e i (in_journal n)"
  shows "keeps (spared e i w0) (swap_packages e candidate n load_entry)"
proof -
  have own: "own_path e i (jn_target (in_journal n))" "own_path e i (jn_ready (in_journal n))"
    using assms by (simp_all add: own_journal_def)
  have "keeps (spared e i w0) (case jn_backup (in_journal n) of
      None \<Rightarrow> ret () | Some b \<Rightarrow> relocate_prepared_package e (jn_target (in_journal n)) b)"
    using assms by (auto simp: own_journal_def split: option.split intro!: keeps_intros)
  then show ?thesis unfolding swap_packages_def Let_def by (rule keeps_then) (intro keeps_intros own)
qed

lemma spared_commit [keeps_intros]:
  assumes "jn_id (in_journal n) = i"
  shows "keeps (spared e i w0) (commit e n)"
  unfolding commit_def Let_def by (intro keeps_intros) (simp add: assms)

lemma spared_publish:
  assumes env: "env_ok e" and id: "valid_plugin_id i" and w: "spared e i w0 w"
  shows "wp UNIV (publish_inner e candidate previous i enable_after load_entry)
    (\<lambda>(n, r) w. spared e i w0 w \<and> own_journal e i (in_journal n)) (\<lambda>_. spared e i w0) (spared e i w0) w"
    (is "wp UNIV _ ?Q ?E ?J w")
proof -
  have store: "wp UNIV (io_then (recovering e n (store_selection e n r)) (\<lambda>r. ret (n, r))) ?Q ?E ?J w"
    if "own_journal e i (in_journal n)" "?J w" for n r w
    unfolding store_selection_def
    by (rule keeps_bind) (use that in \<open>auto intro!: keeps_intros wp_ret\<close>)
  have enabled: "wp UNIV (if enable_after
      then recovering e n (io_then (enable_in i True r) (\<lambda>enabled. ret (allow n [registration_digest e enabled i])))
      else ret n) (\<lambda>n w. ?J w \<and> own_journal e i (in_journal n)) ?E ?J w"
    if n: "own_journal e i (in_journal n)" and w: "?J w" for n r w
  proof (rule wp_if)
    have "wp UNIV (enable_in i True r) (\<lambda>_. ?J) (\<lambda>_. ?J) ?J w" by (rule keepsD) (intro keeps_intros w)+
    then have "wp UNIV (io_then (enable_in i True r) (\<lambda>enabled. ret (allow n [registration_digest e enabled i])))
        (\<lambda>n w. ?J w \<and> own_journal e i (in_journal n)) ?E ?J w"
      by (rule wp_then [OF wp_mono]) (auto intro!: wp_ret simp: own_allow n)
    then show "wp UNIV (recovering e n (io_then (enable_in i True r) (\<lambda>enabled. ret (allow n [registration_digest e enabled i]))))
        (\<lambda>n w. ?J w \<and> own_journal e i (in_journal n)) ?E ?J w"
      unfolding recovering_def
    proof (rule wp_catch [OF wp_mono])
      fix x w' assume "?J w'"
      have "wp UNIV (io_then (io_try (rollback e n)) (\<lambda>r. case r of Inl y \<Rightarrow> fails (RecoveryFailed x y) | Inr _ \<Rightarrow> fails x))
          (\<lambda>n w. False) ?E ?J w'"
        by (rule wp_then, rule wp_mono [OF keepsD [OF keeps_try [OF spared_rollback [OF n]] \<open>?J w'\<close>]])
          (auto split: sum.split intro!: wp_fails)
      then show "wp UNIV (io_then (io_try (rollback e n)) (\<lambda>r. case r of Inl y \<Rightarrow> fails (RecoveryFailed x y) | Inr _ \<Rightarrow> fails x))
          (\<lambda>n w. ?J w \<and> own_journal e i (in_journal n)) ?E ?J w'"
        by (rule wp_mono) auto
    qed
    show "wp UNIV (ret n) (\<lambda>n w. ?J w \<and> own_journal e i (in_journal n)) ?E ?J w"
      using n w by (auto intro: wp_ret)
  qed
  show ?thesis
    unfolding publish_inner_def Let_def
  proof (rule wp_then, rule wp_mono [OF spared_open [OF env id w]])
    fix n :: installation and w1 assume n: "?J w1 \<and> own_journal e i (in_journal n)"
    show "wp UNIV (io_then (recovering e n (swap_packages e candidate n load_entry)) (\<lambda>selected.
        io_then (if enable_after
              then recovering e (allow n [registration_digest e selected i]) (io_then (enable_in i True selected) (\<lambda>enabled.
                     ret (allow (allow n [registration_digest e selected i]) [registration_digest e enabled i])))
              else ret (allow n [registration_digest e selected i])) (\<lambda>n.
        io_then (recovering e n (store_selection e n selected)) (\<lambda>selected. ret (n, selected))))) ?Q ?E ?J w1"
    proof (rule keeps_bind)
      show "keeps ?J (recovering e n (swap_packages e candidate n load_entry))"
        using n by (intro keeps_intros) simp_all
      fix r w2 assume "?J w2"
      then show "wp UNIV (io_then (if enable_after
              then recovering e (allow n [registration_digest e r i]) (io_then (enable_in i True r) (\<lambda>enabled.
                     ret (allow (allow n [registration_digest e r i]) [registration_digest e enabled i])))
              else ret (allow n [registration_digest e r i])) (\<lambda>n.
        io_then (recovering e n (store_selection e n r)) (\<lambda>selected. ret (n, selected)))) ?Q ?E ?J w2"
        using n by (intro wp_then [OF wp_mono [OF enabled]]) (auto simp: own_allow intro: store)
    qed (use n in simp)
  qed auto
qed

lemma spared_install:
  assumes env: "env_ok e" and id: "valid_plugin_id i" and w: "spared e i w0 w"
  shows "wp UNIV (install_selection e candidate previous i enable)
    (\<lambda>_. spared e i w0) (\<lambda>_. spared e i w0) (spared e i w0) w"
    (is "wp UNIV _ ?Q ?E ?J w")
proof -
  have rest: "keeps ?J (io_then (io_try (io_then (enable_in i enable r) (save_registry e))) (\<lambda>x.
      case x of Inl y \<Rightarrow> io_then (rollback e n) (\<lambda>_. fails y) | Inr r \<Rightarrow> io_then (commit e n) (\<lambda>_. ret r)))"
    if n: "own_journal e i (in_journal n)" for n r
  proof -
    have own: "jn_id (in_journal n) = i" using n by (simp add: own_journal_def)
    show ?thesis
      by (intro keeps_then keeps_try) (auto split: sum.split intro!: keeps_intros n own)
  qed
  show ?thesis
    unfolding install_selection_def publish_def
    by (rule wp_then, rule wp_mono [OF spared_publish [OF env id w]])
      (auto intro!: keepsD [OF rest])
qed

lemma spared_recover:
  shows "keeps (spared e stem w0) (recover_journal e path stem s)"
proof (rule keepsI)
  fix w assume w: "spared e stem w0 w"
  let ?J = "spared e stem w0"
  have journal: "keeps ?J (io_then (check_that (journal_valid e j) BadJournalPaths) (\<lambda>_.
         io_then (transaction_lock (jn_id j)) (\<lambda>_.
         io_then (check_that (jn_id j = stem) BadIdentity) (\<lambda>_.
         if jn_committed j then
           io_then (io_try (clean_obsolete e (installation.make path stem j))) (\<lambda>r.
           case r of
             Inr _ \<Rightarrow> io_then (journal_remove (installation.make path stem j)) (\<lambda>_. ret s)
           | Inl _ \<Rightarrow> ret (fst s, jn_id j # snd s))
         else
           io_then (io_try (rollback e (installation.make path stem j))) (\<lambda>r.
           case r of
             Inr r' \<Rightarrow> ret (r', snd s)
           | Inl _ \<Rightarrow> ret (fst s, jn_id j # snd s))))))" for j
  proof (cases "journal_valid e j \<and> jn_id j = stem")
    case True
    then have "own_journal e stem j"
      by (auto simp: own_journal_def own_path_def journal_valid_def split: option.splits)
    then have "own_journal e stem (in_journal (installation.make path stem j))"
      "jn_id (in_journal (installation.make path stem j)) = stem"
      using True by (simp_all add: installation.defs)
    then show ?thesis
      by (intro keeps_then keeps_basic keeps_if keeps_try) (auto split: sum.split intro!: keeps_intros)
  next
    case False
    have "keeps ?J (io_then (check_that (journal_valid e j) y) (\<lambda>_. io_then (transaction_lock (jn_id j)) (\<lambda>_.
        io_then (check_that (jn_id j = stem) y') (\<lambda>_. m))))" for m :: "(plugin_registry \<times> string list) io" and y y'
    proof (rule keepsI)
      fix w assume "?J w"
      then show "wp UNIV (io_then (check_that (journal_valid e j) y) (\<lambda>_. io_then (transaction_lock (jn_id j)) (\<lambda>_.
        io_then (check_that (jn_id j = stem) y') (\<lambda>_. m)))) (\<lambda>_. ?J) (\<lambda>_. ?J) ?J w"
        unfolding transaction_lock_def using False by (intro wp_then wp_check wp_read) auto
    qed
    then show ?thesis .
  qed
  have "keeps ?J (recover_journal e path stem s)"
    unfolding recover_journal_def Let_def
    by (rule keeps_then, rule keeps_basic, rule keeps_then, rule keeps_basic, rule keeps_option,
      rule keeps_basic, rule keeps_stored, rule keeps_basic, rule journal [unfolded installation.defs])
  then show "wp UNIV (recover_journal e path stem s) (\<lambda>_. ?J) (\<lambda>_. ?J) ?J w" using w by (rule keepsD)
qed

end
