(* ===== verification/Install_Completes.thy ===== *)
theory Install_Completes
  imports Install_Update
begin

text \<open>
  An update that no call of the operating system disturbs returns: the checks of the program on
  the disk it starts from are all it depends on.
\<close>

section \<open>Steps without faults\<close>

lemma quiet_gets [simp]: "io_then (gets g) f as w = f (g w) as w"
  by (simp add: io_then_def gets_def)

lemma put_twice: "put_entry p x (put_entry p y w) = put_entry p x w"
  by (simp add: put_entry_def bt_insert_again)

lemma drop_put:
  assumes "entry_at p w = None"
  shows "drop_entry p (put_entry p x w) = w"
  using assms bt_remove_insert [of "iw_dirs w" "path_components p" x]
  by (simp add: drop_entry_def put_entry_def entry_at_def)

lemma quiet_fresh:
  assumes "t = path_join (staging_root e) (prefix @ ie_random e (iw_sequence w))" "entry_at t w = None"
  shows "fresh_directory e prefix [] w = (Val t, [], put_entry t Fragment (w\<lparr>iw_sequence := Suc (iw_sequence w)\<rparr>))"
proof -
  have bump: "io_then (\<lambda>as w. (Val (), as, w\<lparr>iw_sequence := Suc (iw_sequence w)\<rparr>)) f [] w
      = f () [] (w\<lparr>iw_sequence := Suc (iw_sequence w)\<rparr>)" for f :: "unit \<Rightarrow> string io"
    by (simp add: io_then_def)
  have "\<not> exists_at t (w\<lparr>iw_sequence := Suc (iw_sequence w)\<rparr>)" using assms(2) by (simp add: exists_at_iff)
  then show ?thesis
    unfolding fresh_directory_def by (simp add: quiet_then bump flip: assms(1))
qed

lemma quiet_clone:
  assumes env: "env_ok e" and p: "entry_at s w = Some (Package p)" "inspect_entry e s (Some (Package p)) = Ok d"
    and t: "t = path_join (staging_root e) (''ready-'' @ ie_random e (iw_sequence w))" "entry_at t w = None"
  shows "clone_prepared_package e s [] w
    = (Val (d\<lparr>pp_path := t\<rparr>), [], put_entry t (Package (upgraded p)) (w\<lparr>iw_sequence := Suc (iw_sequence w)\<rparr>))"
proof -
  have d: "inspect_package e s p = Ok d" using p(2) by (auto elim: inspect_entry_okE)
  then obtain r where r: "pg_receipt p = Some r" "pt_digest (pg_tree p) = Ok (rc_tree r)"
    by (auto simp: inspect_package_ok)
  have staging: "in_staging e t" "path_is_absolute t"
    unfolding t(1) by (rule fresh_in_staging [OF env], simp) (rule fresh_absolute [OF env])
  have st: "\<not> path_eq s t" using p(1) t(2) entry_at_eq [of s t w] by auto
  let ?w = "w\<lparr>iw_sequence := Suc (iw_sequence w)\<rparr>"
  have up: "\<lparr>pg_tree = pg_tree p, pg_receipt = Some (r\<lparr>rc_schema := 2, rc_path := None\<rparr>)\<rparr> = upgraded p"
    using r by (cases p) (simp add: upgraded_def)
  have copy: "copy_into s t [] (put_entry t Fragment ?w) = (Val (), [], put_entry t (Package (upgraded p)) ?w)"
    unfolding copy_into_def
    using p(1) st r by (simp add: quiet_then quiet_package_at quiet_receipt_at put_twice up)
  then have g: "guarded t (copy_into s t) [] (put_entry t Fragment ?w) = (Val (), [], put_entry t (Package (upgraded p)) ?w)"
    by (simp add: guarded_def io_catch_def quiet_then quiet_try)
  have copied: "inspect_entry e t (Some (Package (upgraded p))) = Ok (d\<lparr>pp_path := t\<rparr>)"
    using inspect_upgraded [OF d, of t] staging by (intro inspect_staged) simp_all
  have check: "inspect_prepared_package e t [] (put_entry t (Package (upgraded p)) ?w) = (Val (d\<lparr>pp_path := t\<rparr>), [], put_entry t (Package (upgraded p)) ?w)"
    by (rule quiet_inspect) (simp add: copied)
  have first: "inspect_prepared_package e s [] w = (Val d, [], w)" by (rule quiet_inspect) (simp add: p)
  show ?thesis
    unfolding clone_prepared_package_def
    by (simp add: quiet_then first quiet_fresh [OF t] g check)
qed

lemma quiet_backup_path:
  assumes "b = path_join (staging_root e) (''backup-'' @ ie_random e (iw_sequence w))" "entry_at b w = None"
  shows "\<exists>x w'. backup_path e t [] w = (Val x, [], w')"
proof (cases "exists_at t w")
  case True
  then show ?thesis unfolding backup_path_def by (simp add: quiet_then quiet_fresh [OF assms])
qed (simp add: backup_path_def quiet_then)

lemma quiet_journal_save:
  "ie_journal_length e (in_journal n) \<le> MAX_REGISTRY_BYTES \<Longrightarrow>
     journal_save e n [] w = (Val (), [], w\<lparr>iw_journals := bt_insert (in_stem n) (Stored (in_journal n)) (iw_journals w)\<rparr>)"
  by (simp add: journal_save_def quiet_then)

lemma quiet_save:
  assumes r: "staged_on i (iw_document w) r" "something_staged r"
    and stored: "storable (ie_codec e) (rg_path r) (merge_staged r (iw_document w))"
  shows "save_registry e r [] w = (Val (snapshot (rg_path r) (merge_staged r (iw_document w))), [],
    w\<lparr>iw_document := merge_staged r (iw_document w)\<rparr>)"
proof -
  have doc: "rg_document r = iw_document w" using r(1) by (simp add: staged_on_def)
  have "overlaid (rd_local (rg_document r)) (rg_pending_local r) (rg_local r)"
    "overlaid (rd_managed (rg_document r)) (rg_pending_managed r) (rg_managed r)"
    using r(1) by (simp_all add: staged_on_def)
  note conflicts = no_conflict [OF this doc]
  from stored show ?thesis
    unfolding save_registry_def write_registry_def storable_def
    by (auto simp: quiet_then conflicts r(2))
qed

section \<open>The stages\<close>

lemma fresh_differs:
  assumes "env_ok e"
  shows "\<not> path_eq (path_join (staging_root e) (''backup-'' @ ie_random e n))
    (path_join (staging_root e) (''ready-'' @ ie_random e m))"
proof -
  have components: "path_components (path_join (staging_root e) (prefix @ ie_random e k))
      = path_components (staging_root e) @ [Normal (prefix @ ie_random e k)]"
    if "prefix = ''ready-'' \<or> prefix = ''backup-''" for prefix k
  proof -
    have "slash \<notin> set (prefix @ ie_random e k)" "prefix @ ie_random e k \<noteq> []" "prefix @ ie_random e k \<noteq> ''.''"
      "prefix @ ie_random e k \<noteq> ''..''"
      using that assms by (auto simp: env_ok_def slash_def)
    then show ?thesis by (simp add: path_components_join segment_component_def)
  qed
  show ?thesis
    using components [of "''backup-''" n] components [of "''ready-''" m] by (simp add: path_eq_def)
qed

text \<open>What the program checks on the disk before it changes anything.\<close>

definition update_passes :: "update \<Rightarrow> plugin_registry \<Rightarrow> plugin_registry \<Rightarrow> managed_version \<Rightarrow> package_dir \<Rightarrow> bool" where
  "update_passes u previous candidate v p \<longleftrightarrow>
     selected_version candidate (up_id u) = Some v
     \<and> entry_at (mv_package_path v) (up_start u) = Some (Package p)
     \<and> (\<exists>d. inspect_entry (up_env u) (mv_package_path v) (Some (Package p)) = Ok d
          \<and> pp_source d = mv_source v \<and> pp_manifest d = mv_manifest v \<and> pp_metadata d = mv_metadata v
          \<and> pm_id (pp_manifest d) = up_id u)
     \<and> (up_before u \<noteq> None \<longrightarrow> \<not> owned_by_other previous (up_id u) (up_target u)
          \<and> validate_current (up_env u) previous (up_id u) [] (up_start u) = (Val (), [], up_start u))
     \<and> entry_at (path_join (staging_root (up_env u)) (''ready-'' @ ie_random (up_env u) (iw_sequence (up_start u)))) (up_start u) = None
     \<and> entry_at (path_join (staging_root (up_env u)) (''backup-'' @ ie_random (up_env u) (Suc (iw_sequence (up_start u))))) (up_start u) = None
     \<and> (\<forall>j. ie_journal_length (up_env u) j \<le> MAX_REGISTRY_BYTES)"

lemma quiet_open:
  assumes ok: "update_ok u" and passes: "update_passes u previous candidate v p"
  shows "\<exists>n w. open_installation (up_env u) candidate previous (up_id u) [] (up_start u) = (Val n, [], w)"
proof -
  let ?e = "up_env u" and ?i = "up_id u" and ?w = "up_start u"
  define t where "t = path_join (staging_root ?e) (''ready-'' @ ie_random ?e (iw_sequence ?w))"
  define b where "b = path_join (staging_root ?e) (''backup-'' @ ie_random ?e (Suc (iw_sequence ?w)))"
  have env: "env_ok ?e" "valid_plugin_id ?i" and clear: "\<not> bt_has (iw_journals ?w) ?i" "\<not> bt_has (iw_pending ?w) ?i"
    using ok by (simp_all add: update_ok_def)
  from passes obtain d where v: "selected_version candidate ?i = Some v"
      "entry_at (mv_package_path v) ?w = Some (Package p)"
      "inspect_entry ?e (mv_package_path v) (Some (Package p)) = Ok d"
    and there: "up_before u \<noteq> None \<Longrightarrow> \<not> owned_by_other previous ?i (up_target u)"
      "up_before u \<noteq> None \<Longrightarrow> validate_current ?e previous ?i [] ?w = (Val (), [], ?w)"
    and fresh: "entry_at t ?w = None" "entry_at b ?w = None"
    and len: "\<And>j. ie_journal_length ?e j \<le> MAX_REGISTRY_BYTES"
    unfolding t_def b_def by (auto simp: update_passes_def)
  have target: "exists_at (up_target u) ?w \<longleftrightarrow> up_before u \<noteq> None"
    using ok by (simp add: update_ok_def exists_at_iff)
  let ?w1 = "put_entry t (Package (upgraded p)) (?w\<lparr>iw_sequence := Suc (iw_sequence ?w)\<rparr>)"
  have clone: "clone_prepared_package ?e (mv_package_path v) [] ?w = (Val (d\<lparr>pp_path := t\<rparr>), [], ?w1)"
    by (rule quiet_clone [OF env(1) v(2,3) t_def fresh(1)])
  have "\<not> path_eq b t" unfolding t_def b_def by (rule fresh_differs [OF env(1)])
  then have "entry_at b ?w1 = None" using fresh(2) by simp
  moreover have "b = path_join (staging_root ?e) (''backup-'' @ ie_random ?e (iw_sequence ?w1))" by (simp add: b_def)
  ultimately obtain x w2 where backup: "backup_path ?e (up_target u) [] ?w1 = (Val x, [], w2)"
    using quiet_backup_path by blast
  have "grown ?e ?w1 w2"
    using wp_valid [OF wp_backup_path [OF env(1), where E = "\<lambda>_ _. True" and S = "\<lambda>_. True" and A = "{}" and Q = "\<lambda>_ w. grown ?e ?w1 w"] backup]
    by simp
  then have pending: "\<not> bt_has (iw_pending w2) ?i" using clear(2) grown_fields(3) by fastforce
  have inspect: "inspect_prepared_package ?e (mv_package_path v) [] ?w = (Val d, [], ?w)"
    by (rule quiet_inspect) (simp add: v)
  have current: "(if up_before u \<noteq> None then validate_current ?e previous ?i else ret ()) [] ?w = (Val (), [], ?w)"
    using there(2) by simp
  have lock: "transaction_lock ?i [] ?w = (Val (), [], ?w)"
    using env(2) by (simp add: transaction_lock_def quiet_then)
  have clear': "clear_registration_checkpoint ?e candidate ?i [] (w2\<lparr>iw_journals := js\<rparr>) = (Val (), [], w2\<lparr>iw_journals := js\<rparr>)" for js
    using pending by (simp add: clear_registration_checkpoint_def quiet_then)
  show ?thesis
    unfolding open_installation_def Let_def v(1) option.case
    using there(1)
    by (simp add: quiet_then lock clear inspect target current clone backup quiet_journal_save len clear' del: not_None_eq bt_has_iff)
qed

text \<open>The registry with the candidate's version at the target.\<close>

definition placed :: "update \<Rightarrow> plugin_registry \<Rightarrow> managed_version \<Rightarrow> package_dir \<Rightarrow> local_registration \<Rightarrow> managed_record" where
  "placed u candidate v p l =
     (let content = ie_package_digest (up_env u) (up_target u) (pg_tree p) (mv_source v) (mv_metadata v);
          key = ie_version_key (up_env u) (up_target u) (mv_source v) content
      in \<lparr>mr_current_version = Some key,
          mr_history = [\<lparr>mv_version_key = key, mv_package_path = up_target u, mv_content_digest = content,
            mv_source = mv_source v, mv_manifest = mv_manifest v, mv_metadata = mv_metadata v\<rparr>]\<rparr>)"

definition placed_registry :: "update \<Rightarrow> plugin_registry \<Rightarrow> managed_version \<Rightarrow> package_dir \<Rightarrow> local_registration \<Rightarrow> plugin_registry" where
  "placed_registry u candidate v p l =
     stage_managed (up_id u) (Some (placed u candidate v p l)) (stage_local (up_id u) (Some (l\<lparr>lr_path := up_target u\<rparr>)) candidate)"

definition registers :: "update \<Rightarrow> plugin_registry \<Rightarrow> managed_version \<Rightarrow> package_dir \<Rightarrow> local_registration \<Rightarrow> bool" where
  "registers u candidate v p l \<longleftrightarrow>
     bt_get (rg_local candidate) (up_id u) = Some l
     \<and> fst (register_managed (ie_codec (up_env u)) (up_id u) (l\<lparr>lr_path := up_target u\<rparr>) (placed u candidate v p l) candidate) = Ok ()
     \<and> ie_checked_entry (up_env u) (placed_registry u candidate v p l) (up_id u) (pg_tree p) = Ok ()"

lemma quiet_tree_at: "entry_at path w = Some (Package q) \<Longrightarrow> tree_at path [] w = (Val (pg_tree q), [], w)"
  by (simp add: tree_at_def quiet_then quiet_package_at)

lemma quiet_at_installation_path:
  assumes l: "registers u candidate v p l" and v: "selected_version candidate (up_id u) = Some v"
    and there: "entry_at (up_target u) w = Some (Package (upgraded p))"
    and d: "inspect_entry (up_env u) (up_target u) (Some (Package (upgraded p))) = Ok d"
      "pp_source d = mv_source v" "pp_manifest d = mv_manifest v" "pp_metadata d = mv_metadata v"
  shows "at_installation_path (up_env u) candidate (up_id u) (up_target u) [] w
    = (Val (placed_registry u candidate v p l), [], w)"
proof -
  have m: "pt_manifest (pg_tree p) = Ok (pp_manifest d)"
    using d(1) inspect_manifest [of "up_env u" "up_target u" "upgraded p" d] by (auto elim: inspect_entry_okE)
  have inspect: "inspect_prepared_package (up_env u) (up_target u) [] w = (Val d, [], w)"
    by (rule quiet_inspect) (simp add: there d(1))
  have reg: "register_in (up_env u) (up_id u) (l\<lparr>lr_path := up_target u\<rparr>) (placed u candidate v p l) candidate
      = ret (placed_registry u candidate v p l)"
  proof -
    obtain x r' where run: "register_managed (ie_codec (up_env u)) (up_id u) (l\<lparr>lr_path := up_target u\<rparr>) (placed u candidate v p l) candidate = (x, r')"
      by (metis prod.exhaust)
    moreover have "x = Ok ()" using l run by (simp add: registers_def)
    ultimately show ?thesis
      by (cases rule: register_managed_cases) (auto simp: register_in_def placed_registry_def run)
  qed
  have at: "registration_at_path (up_env u) candidate (up_id u) (up_target u) [] w
      = (Val (placed_registry u candidate v p l), [], w)"
    using l m d(2-4) reg
    by (simp add: registration_at_path_def v quiet_then inspect quiet_tree_at [OF there] registers_def placed_def Let_def)
  show ?thesis
    using l m by (simp add: at_installation_path_def quiet_then at quiet_tree_at [OF there] registers_def)
qed

lemma quiet_swap:
  assumes ok: "update_ok u" and held: "held u {} n w" and ready: "swap_ready u candidate n w"
    and passes: "update_passes u previous candidate v p" and l: "registers u candidate v p l"
  shows "\<exists>w'. swap_packages (up_env u) candidate n True [] w = (Val (placed_registry u candidate v p l), [], w')"
proof -
  let ?r = "jn_ready (in_journal n)"
  from held obtain j where j: "mid u {} j w" "jn_target (in_journal n) = up_target u" "jn_id (in_journal n) = up_id u"
    "jn_backup (in_journal n) = jn_backup j" "?r = jn_ready j" by (rule held_journal)
  have facts: "journal_facts u j" "prior_checked u" using j(1) by (simp_all add: mid_def tidy_state_def tidy_def)
  have staging: "in_staging (up_env u) ?r" using facts(1) j(5) by (simp add: journal_facts_def)
  note diff = backup_differs [OF ok staging]
  from passes obtain d where v: "selected_version candidate (up_id u) = Some v"
      "entry_at (mv_package_path v) (up_start u) = Some (Package p)"
    and d: "inspect_entry (up_env u) (mv_package_path v) (Some (Package p)) = Ok d" "pp_source d = mv_source v"
      "pp_manifest d = mv_manifest v" "pp_metadata d = mv_metadata v" "pm_id (pp_manifest d) = up_id u"
    by (auto simp: update_passes_def)
  have dp: "inspect_package (up_env u) (mv_package_path v) p = Ok d" using d(1) by (auto elim: inspect_entry_okE)
  have settled: "settled_old u (in_journal n) w" and there: "entry_at ?r w = Some (Package (upgraded p))"
    using ready v by (auto simp: swap_ready_def)
  have id: "env_ok (up_env u)" "valid_plugin_id (up_id u)" using ok by (simp_all add: update_ok_def)
  have "disposable u ?r w" using j(1,5) by (simp add: mid_def tidy_state_def tidy_def)
  then have absolute: "path_is_absolute ?r" using there diff(1) by (auto simp: disposable_def elim: inspect_entry_okE)
  have d': "inspect_entry (up_env u) ?r (Some (Package (upgraded p))) = Ok (d\<lparr>pp_path := ?r\<rparr>)"
    using inspect_upgraded [OF dp] staging absolute by (intro inspect_staged) simp_all
  have at_target: "inspect_entry (up_env u) (up_target u) (Some (Package (upgraded p))) = Ok (d\<lparr>pp_path := up_target u\<rparr>)"
    using inspect_upgraded [OF dp, of "up_target u"] installed_file_name [OF id(2)] d(5)
    by (intro inspect_installed id) simp
  have arrive: "\<exists>w'. io_then (relocate_prepared_package (up_env u) ?r (up_target u))
      (\<lambda>_. at_installation_path (up_env u) candidate (up_id u) (up_target u)) [] w1
      = (Val (placed_registry u candidate v p l), [], w')"
    if w1: "entry_at ?r w1 = Some (Package (upgraded p))" "entry_at (up_target u) w1 = None" for w1
  proof -
    have move: "relocate_prepared_package (up_env u) ?r (up_target u) [] w1 = (Val (), [], moved ?r (up_target u) w1)"
      by (rule quiet_relocate [OF w1(1) d' w1(2)]) (simp add: d(5))
    have "entry_at (up_target u) (moved ?r (up_target u) w1) = Some (Package (upgraded p))"
      using entry_at_moved [OF w1(1)] by simp
    from quiet_at_installation_path [OF l v(1) this at_target] show ?thesis using d by (simp add: quiet_then move)
  qed
  show ?thesis
  proof (cases "jn_backup (in_journal n)")
    case None
    then have "up_before u = None" using facts(1) j(4) by (auto simp: journal_facts_def split: option.splits)
    then have "entry_at (up_target u) w = None" using settled by (simp add: settled_old_def old_at_def)
    from arrive [OF there this] show ?thesis by (simp add: swap_packages_def Let_def None j(2,3) quiet_then)
  next
    case (Some b)
    then obtain p0 where p0: "up_before u = Some p0" "in_staging (up_env u) b"
      using facts(1) j(4) by (cases "up_before u") (auto simp: journal_facts_def)
    then obtain x where x: "entry_at (up_target u) w = Some (Package x)" "Package x = Package p0 \<or> Package x = Package (upgraded p0)"
      using settled by (auto simp: settled_old_def old_at_def)
    obtain d0 where d0: "inspect_entry (up_env u) (up_target u) (Some (Package x)) = Ok d0"
      using prior_inspect [OF ok facts(2) p0(1) x(2)] by metis
    have none: "entry_at b w = None" using settled Some by (simp add: settled_old_def)
    have move: "relocate_prepared_package (up_env u) (up_target u) b [] w = (Val (), [], moved (up_target u) b w)"
      by (rule quiet_relocate [OF x(1) d0 none]) (simp add: p0(2))
    note after = entry_at_moved [OF x(1), of _ b]
    have "\<not> path_eq ?r b" using none there entry_at_eq [of ?r b w] by auto
    then have "entry_at ?r (moved (up_target u) b w) = Some (Package (upgraded p))" "entry_at (up_target u) (moved (up_target u) b w) = None"
      using after diff there backup_differs [OF ok p0(2)] by simp_all
    from arrive [OF this] show ?thesis by (simp add: swap_packages_def Let_def Some j(2,3) quiet_then move)
  qed
qed

lemma disposable_journals: "disposable u p (w\<lparr>iw_journals := js\<rparr>) = disposable u p w"
  by (simp add: disposable_def)

text \<open>The history of the previous record names the target only.\<close>

definition one_place :: "update \<Rightarrow> bool" where
  "one_place u \<longleftrightarrow> (\<forall>m. fst (snd (up_entries u)) = Some m \<longrightarrow>
     (\<forall>v \<in> set (mr_history m). path_eq (mv_package_path v) (up_target u)))"

lemma obsolete_disposable:
  assumes ok: "update_ok u" and m: "mid u {} j w" and place: "one_place u" and q: "q \<in> set (obsolete_paths j)"
  shows "disposable u q w"
proof -
  have facts: "journal_facts u j" "safe u j w" "prior_checked u" "disposable u (jn_ready j) w" "disposable u (jn_staged j) w"
    using m by (simp_all add: mid_def tidy_state_def tidy_def)
  have managed: "jn_previous_managed j = fst (snd (up_entries u))"
    using facts(1) by (simp add: journal_facts_def prod_eq_iff)
  from q consider "q = jn_staged j" | "q = jn_ready j" | "jn_backup j = Some q"
    | m v where "jn_previous_managed j = Some m" "v \<in> set (mr_history m)" "q = mv_package_path v"
    by (cases "jn_previous_managed j") (auto simp: obsolete_paths_def split: option.splits)
  then show ?thesis
  proof cases
    case 3
    then obtain p0 where p0: "up_before u = Some p0" "in_staging (up_env u) q" "path_is_absolute q"
      using facts(1) by (cases "up_before u") (auto simp: journal_facts_def)
    then consider "entry_at q w = None" | "entry_at q w = Some (Package (upgraded p0))"
      using facts(2) 3 by (auto simp: safe_def)
    then show ?thesis
    proof cases
      case 2
      obtain d where "inspect_entry (up_env u) q (Some (Package (upgraded p0))) = Ok (d\<lparr>pp_path := q\<rparr>)" "pm_id (pp_manifest d) = up_id u"
        using prior_inspect [OF ok facts(3) p0(1), of "Package p0"] p0(2,3) by metis
      with 2 show ?thesis by (auto simp: disposable_def)
    qed (simp add: disposable_def)
  next
    case 4
    then have "path_eq q (up_target u)" using place managed by (simp add: one_place_def)
    then show ?thesis by (rule disposable_target)
  qed (use facts in simp_all)
qed

lemma quiet_commit:
  assumes ok: "update_ok u" and o: "open_with u {} (in_journal n) w" and stem: "in_stem n = up_id u"
    and place: "one_place u" and len: "\<And>j. ie_journal_length (up_env u) j \<le> MAX_REGISTRY_BYTES"
  shows "\<exists>w'. commit (up_env u) n [] w = (Val (), [], w')"
proof -
  define m where "m = n\<lparr>in_journal := (in_journal n)\<lparr>jn_committed := True\<rparr>\<rparr>"
  define w1 where "w1 = w\<lparr>iw_journals := bt_insert (in_stem m) (Stored (in_journal m)) (iw_journals w)\<rparr>"
  have mid: "mid u {} (in_journal n) w" and digest: "entries_digest (up_env u) (up_id u) (entries_of (up_id u) (iw_document w)) \<in> set (jn_allowed (in_journal n))"
    using o by (simp_all add: open_with_def)
  have id: "jn_id (in_journal n) = up_id u" "jn_target (in_journal n) = up_target u"
    using mid by (simp_all add: mid_def journal_facts_def)
  have check: "check_registration (up_env u) n [] w = (Val (snapshot (in_registry_path n) (iw_document w)), [], w)"
    using digest by (simp add: check_registration_def quiet_then id registration_digest_view)
  have "disposable u q w1" if "q \<in> set (obsolete_paths (in_journal n))" for q
    using obsolete_disposable [OF ok mid place that] by (simp add: w1_def disposable_journals)
  then have "\<forall>q \<in> set (obsolete_paths (in_journal m)). disposable u q w1"
    by (simp add: m_def obsolete_paths_def)
  from quiet_clean_paths [OF ok this, of m] obtain w' where
    clean: "clean_paths (up_env u) m (obsolete_paths (in_journal m)) [] w1 = (Val (), [], w')" "iw_journals w' = iw_journals w1"
    using id by (auto simp: m_def)
  have rest: "clean_obsolete (up_env u) m [] w1 = (Val (), [], w')"
    unfolding clean_obsolete_def by (simp add: quiet_then clean(1))
  have "bt_has (iw_journals w') (in_stem m)" using clean(2) by (simp add: w1_def)
  note remove = quiet_journal_remove [OF this]
  have save: "journal_save (up_env u) m [] w = (Val (), [], w1)" unfolding w1_def by (rule quiet_journal_save) (rule len)
  show ?thesis
    unfolding commit_def Let_def m_def [symmetric] by (simp add: quiet_then check save rest remove)
qed

section \<open>The whole update\<close>

lemma quiet_recovering: "m [] w = (Val x, [], w') \<Longrightarrow> recovering e n m [] w = (Val x, [], w')"
  by (simp add: recovering_def io_catch_def quiet_then quiet_try)

text \<open>The documents the update writes: the new registration, and the preference that is selected.\<close>

definition selected_doc :: "update \<Rightarrow> plugin_registry \<Rightarrow> registry_document" where
  "selected_doc u r = merge_staged r (iw_document (up_start u))"

definition enabled_doc :: "update \<Rightarrow> bool \<Rightarrow> plugin_registry \<Rightarrow> registry_document" where
  "enabled_doc u enable r =
     (let s = snapshot (rg_path r) (selected_doc u r)
      in merge_staged (s\<lparr>rg_pending := bt_insert (canonical_plugin_id (up_id u)) \<lparr>pf_enabled = enable\<rparr> (rg_pending s)\<rparr>)
           (selected_doc u r))"

lemma wp_valid_publish:
  assumes "update_ok u" "view_of_entries (up_id u) previous = up_entries u" "staged_for u candidate" "plain_update u candidate"
    and "publish_inner (up_env u) candidate previous (up_id u) enable load_entry [] (up_start u) = (Val (n, r), [], w)"
  shows "published u {} candidate enable n r w"
  using wp_valid [OF wp_publish_inner [OF assms(1-3), where A = "{}" and enable_after = enable and load_entry = load_entry
      and Q = "\<lambda>(n, r). published u {} candidate enable n r" and E = "\<lambda>_ _. True" and S = "\<lambda>_. True"] assms(5)] assms(4)
  by simp

lemma quiet_publish:
  assumes ok: "update_ok u" and previous: "view_of_entries (up_id u) previous = up_entries u"
    and candidate: "staged_for u candidate" and plain: "plain_update u candidate"
    and passes: "update_passes u previous candidate v p" and l: "registers u candidate v p l"
    and stored: "storable (ie_codec (up_env u)) (rg_path candidate) (selected_doc u (placed_registry u candidate v p l))"
  shows "\<exists>n w. publish_inner (up_env u) candidate previous (up_id u) enable True [] (up_start u)
      = (Val (n, snapshot (rg_path candidate) (selected_doc u (placed_registry u candidate v p l))), [], w)
    \<and> iw_document w = selected_doc u (placed_registry u candidate v p l)"
proof -
  let ?r = "placed_registry u candidate v p l" and ?e = "up_env u" and ?i = "up_id u"
  have id: "valid_plugin_id ?i" using ok by (simp add: update_ok_def)
  have len: "\<And>j. ie_journal_length ?e j \<le> MAX_REGISTRY_BYTES" using passes by (simp add: update_passes_def)
  obtain n w1 where open': "open_installation ?e candidate previous ?i [] (up_start u) = (Val n, [], w1)"
    using quiet_open [OF ok passes] by blast
  have n: "held u {} n w1 \<and> swap_ready u candidate n w1"
    using wp_valid [OF wp_open [OF ok refl refl previous, where A = "{}" and Q = "\<lambda>n w. held u {} n w \<and> swap_ready u candidate n w"
        and E = "\<lambda>_ _. True" and S = "\<lambda>_. True"] open'] plain by simp
  obtain w2 where swap: "swap_packages ?e candidate n True [] w1 = (Val ?r, [], w2)"
    using quiet_swap [OF ok _ _ passes l] n by blast
  have doc: "iw_document w2 = iw_document (up_start u)"
    using wp_valid [OF wp_swap_packages [OF ok _ _ candidate, where A = "{}" and Q = "\<lambda>r w. iw_document w = iw_document (up_start u)"
        and E = "\<lambda>_ _. True" and S = "\<lambda>_. True" and load_entry = True] swap] n plain by simp
  note stage = staged_for_stage [OF candidate, of ?r, unfolded placed_registry_def, OF refl, folded placed_registry_def]
  define n1 where "n1 = allow n [registration_digest ?e ?r ?i]"
  have enabling: "\<exists>n2. (if enable then recovering ?e n1 (io_then (enable_in ?i True ?r) (\<lambda>enabled.
      ret (allow n1 [registration_digest ?e enabled ?i]))) else ret n1) [] w2 = (Val n2, [], w2)"
    by (simp add: enable_view(1) [OF id] quiet_then quiet_recovering)
  then obtain n2 where n2: "(if enable then recovering ?e n1 (io_then (enable_in ?i True ?r) (\<lambda>enabled.
      ret (allow n1 [registration_digest ?e enabled ?i]))) else ret n1) [] w2 = (Val n2, [], w2)" by blast
  define w3 where "w3 = w2\<lparr>iw_journals := bt_insert (in_stem n2) (Stored (in_journal n2)) (iw_journals w2)\<rparr>"
  have doc3: "iw_document w3 = iw_document (up_start u)" using doc by (simp add: w3_def)
  have save: "save_registry ?e ?r [] w3 = (Val (snapshot (rg_path candidate) (selected_doc u ?r)), [], w3\<lparr>iw_document := selected_doc u ?r\<rparr>)"
    using quiet_save [of ?i w3 ?r ?e] stage stored unfolding doc3 selected_doc_def by simp
  have journal: "journal_save ?e n2 [] w2 = (Val (), [], w3)" unfolding w3_def by (rule quiet_journal_save) (rule len)
  have store: "recovering ?e n2 (store_selection ?e n2 ?r) [] w2
      = (Val (snapshot (rg_path candidate) (selected_doc u ?r)), [], w3\<lparr>iw_document := selected_doc u ?r\<rparr>)"
    by (rule quiet_recovering) (simp add: store_selection_def quiet_then journal save)
  have swap': "recovering ?e n (swap_packages ?e candidate n True) [] w1 = (Val ?r, [], w2)"
    by (rule quiet_recovering) (rule swap)
  show ?thesis
    unfolding publish_inner_def Let_def
    by (cases enable) (use n2 in \<open>simp_all add: quiet_then open' swap' n1_def [symmetric] store\<close>)
qed

lemma quiet_install:
  assumes ok: "update_ok u" and previous: "view_of_entries (up_id u) previous = up_entries u"
    and candidate: "staged_for u candidate" and plain: "plain_update u candidate"
    and preference: "enable \<or> \<not> is_enabled candidate (up_id u)"
    and passes: "update_passes u previous candidate v p" and l: "registers u candidate v p l" and place: "one_place u"
    and stored: "storable (ie_codec (up_env u)) (rg_path candidate) (selected_doc u (placed_registry u candidate v p l))"
      "storable (ie_codec (up_env u)) (rg_path candidate) (enabled_doc u enable (placed_registry u candidate v p l))"
  shows "\<exists>r w. install_selection (up_env u) candidate previous (up_id u) enable [] (up_start u) = (Val r, [], w)"
proof -
  let ?e = "up_env u" and ?i = "up_id u"
  define d where "d = selected_doc u (placed_registry u candidate v p l)"
  have path: "rg_path (placed_registry u candidate v p l) = rg_path candidate"
    using staged_for_stage(4) [OF candidate, OF refl] by (simp add: placed_registry_def)
  have id: "valid_plugin_id ?i" using ok by (simp add: update_ok_def)
  have len: "\<And>j. ie_journal_length ?e j \<le> MAX_REGISTRY_BYTES" using passes by (simp add: update_passes_def)
  obtain n w where pub: "publish_inner ?e candidate previous ?i enable True [] (up_start u) = (Val (n, snapshot (rg_path candidate) d), [], w)"
      and doc: "iw_document w = d"
    using quiet_publish [OF ok previous candidate plain passes l stored(1), of enable] unfolding d_def by blast
  note p = wp_valid_publish [OF ok previous candidate plain pub]
  define on where "on = (snapshot (rg_path candidate) d)\<lparr>rg_pending := bt_insert (canonical_plugin_id ?i) \<lparr>pf_enabled = enable\<rparr> bt_empty\<rparr>"
  have staged: "staged_on ?i (iw_document w) on"
    using staged_on_enable [OF staged_on_snapshot [of ?i d "rg_path candidate"], of "\<lparr>pf_enabled = enable\<rparr>"] by (simp add: on_def doc)
  have "bt_get (rg_pending on) (canonical_plugin_id ?i) \<noteq> None" by (simp add: on_def)
  then have "bt_len (rg_pending on) \<noteq> 0" by (rule bt_len_get)
  then have something: "something_staged on" unfolding something_staged_def by blast
  have "storable (ie_codec ?e) (rg_path on) (merge_staged on (iw_document w))"
    using stored(2) unfolding enabled_doc_def Let_def path d_def [symmetric] doc by (simp add: on_def)
  note save = quiet_save [OF staged something this]
  have enable: "io_then (enable_in ?i enable (snapshot (rg_path candidate) d)) (save_registry ?e) [] w
      = (Val (snapshot (rg_path on) (merge_staged on (iw_document w))), [], w\<lparr>iw_document := merge_staged on (iw_document w)\<rparr>)"
    using save by (simp add: enable_view(1) [OF id] quiet_then on_def)
  have "open_with u {} (in_journal n) (w\<lparr>iw_document := merge_staged on (iw_document w)\<rparr>)"
    using wp_valid [OF wp_enable_selection [OF ok p preference, where Q = "\<lambda>_ w. open_with u {} (in_journal n) w"
        and E = "\<lambda>_ _. True" and S = "\<lambda>_. True"] enable] by simp
  moreover have "in_stem n = up_id u" using p by (simp add: published_def)
  ultimately obtain w' where commit: "commit ?e n [] (w\<lparr>iw_document := merge_staged on (iw_document w)\<rparr>) = (Val (), [], w')"
    using quiet_commit [OF ok _ _ place len] by blast
  show ?thesis
    unfolding install_selection_def publish_def
    by (simp add: quiet_then pub quiet_try enable commit)
qed

end
