(* ===== verification/Install_Properties.thy ===== *)
theory Install_Properties
  imports Install_Frame Install_Completes
begin

text \<open>
  The properties of an update of a managed plugin: nothing is lost whatever the operating system
  answers, the next start finds the old plugin or the new one, and a registration that was
  changed in the meantime is left alone.
\<close>

section \<open>What the invariants say of one disk\<close>

lemma restore_doc_others:
  assumes "restore_doc i lmb d = restore_doc i lmb d'" "k \<noteq> i"
  shows "bt_get (rd_local d) k = bt_get (rd_local d') k" "bt_get (rd_managed d) k = bt_get (rd_managed d') k"
proof -
  obtain l m b where lmb: "lmb = (l, m, b)" by (cases lmb)
  have "set_opt i l (rd_local d) = set_opt i l (rd_local d')" "set_opt i m (rd_managed d) = set_opt i m (rd_managed d')"
    using assms(1) by (simp_all add: restore_doc_def lmb)
  then have "bt_get (set_opt i l (rd_local d)) k = bt_get (set_opt i l (rd_local d')) k"
    "bt_get (set_opt i m (rd_managed d)) k = bt_get (set_opt i m (rd_managed d')) k" by simp_all
  then show "bt_get (rd_local d) k = bt_get (rd_local d') k" "bt_get (rd_managed d) k = bt_get (rd_managed d') k"
    using assms(2) by simp_all
qed

lemma kept_others:
  assumes "kept u candidate b w" "k \<noteq> up_id u"
  shows "bt_get (rd_local (iw_document w)) k = bt_get (rd_local (iw_document (up_start u))) k"
    "bt_get (rd_managed (iw_document w)) k = bt_get (rd_managed (iw_document (up_start u))) k"
proof -
  have "restore_doc (up_id u) (up_entries u) (iw_document w) = restore_doc (up_id u) (up_entries u) (iw_document (up_start u))"
    using assms(1) unfolding kept_def by blast
  from restore_doc_others [OF this assms(2)]
  show "bt_get (rd_local (iw_document w)) k = bt_get (rd_local (iw_document (up_start u))) k"
    "bt_get (rd_managed (iw_document w)) k = bt_get (rd_managed (iw_document (up_start u))) k" .
qed

lemma recoverable_others:
  assumes "recoverable u A w" "k \<noteq> up_id u"
  shows "bt_get (rd_local (iw_document w)) k = bt_get (rd_local (iw_document (up_start u))) k
    \<and> bt_get (rd_managed (iw_document w)) k = bt_get (rd_managed (iw_document (up_start u))) k"
  using assms(1) unfolding recoverable_def
proof (elim disjE exE)
  assume "closed_old u w"
  then show ?thesis by (simp add: closed_old_def)
next
  fix j assume "open_with u A j w"
  then have "restore_doc (up_id u) (up_entries u) (iw_document w) = restore_doc (up_id u) (up_entries u) (iw_document (up_start u))"
    unfolding open_with_def mid_def by blast
  from restore_doc_others [OF this assms(2)] show ?thesis by blast
qed

lemma refused_run:
  assumes "wp UNIV m (\<lambda>_ _. False) (\<lambda>_ w'. w' = w) (\<lambda>w'. w' = w) w"
  shows "case m as w of (x, bs, w') \<Rightarrow> w' = w \<and> (\<forall>r. x \<noteq> Val r)"
proof -
  obtain x bs w' where run: "m as w = (x, bs, w')" by (metis prod_cases3)
  from run_of [OF assms run] show ?thesis by (cases x) (simp_all add: run)
qed

lemma update_run:
  assumes "update_ok u" "view_of_entries (up_id u) previous = up_entries u" "staged_for u candidate"
    and "tidy (set as) \<Longrightarrow> plain_update u candidate" "enable \<or> \<not> is_enabled candidate (up_id u)"
    and "install_selection (up_env u) candidate previous (up_id u) enable as (up_start u) = (x, bs, w)"
  shows "case x of
      Val r \<Rightarrow> closed_new u candidate enable w
    | _ \<Rightarrow> recoverable u (set as) w \<or> committed u candidate enable w"
  using run_of [OF wp_install_selection [OF assms(1-5)] assms(6)] by (cases x) auto

lemma recoverable_package:
  assumes "recoverable u A w" "up_before u = Some p"
  shows "entry_at (up_target u) w \<in> {Some (Package p), Some (Package (upgraded p))}
    \<or> (\<exists>j b. bt_get (iw_journals w) (up_id u) = Some (Stored j) \<and> \<not> jn_committed j \<and> jn_backup j = Some b
         \<and> entry_at b w = Some (Package (upgraded p)))"
  using assms by (auto simp: recoverable_def closed_old_def open_with_def mid_def safe_def old_at_def journal_facts_def)

text \<open>
  C1: an update never loses a plugin. Whatever the operating system answers to its calls -
  success, an error, a removal that stops halfway, or the end of the program - the directory of
  the plugin before the update is afterwards complete at its place or complete at the backup
  that the journal on disk names, or the new directory is complete at its place and the registry
  on disk names it.
\<close>

theorem update_never_loses_a_plugin:
  assumes "update_ok u" "view_of_entries (up_id u) previous = up_entries u" "staged_for u candidate"
    and "tidy (set as) \<Longrightarrow> plain_update u candidate" "enable \<or> \<not> is_enabled candidate (up_id u)"
    and "install_selection (up_env u) candidate previous (up_id u) enable as (up_start u) = (x, bs, w)"
    and "up_before u = Some p"
  shows "entry_at (up_target u) w \<in> {Some (Package p), Some (Package (upgraded p))}
    \<or> (\<exists>j b. bt_get (iw_journals w) (up_id u) = Some (Stored j) \<and> \<not> jn_committed j \<and> jn_backup j = Some b
         \<and> entry_at b w = Some (Package (upgraded p)))
    \<or> kept u candidate enable w"
  using update_run [OF assms(1-6)] recoverable_package [OF _ assms(7), of "set as" w]
  by (auto simp: closed_new_def committed_def split: step.splits)

text \<open>What a settled disk has of the plugin, and what an undisturbed start makes of it.\<close>

lemma settled_package:
  assumes "settled u A candidate b w" "up_before u = Some p"
  shows "entry_at (up_target u) w \<in> {Some (Package p), Some (Package (upgraded p))}
    \<or> (\<exists>j c. bt_get (iw_journals w) (up_id u) = Some (Stored j) \<and> \<not> jn_committed j \<and> jn_backup j = Some c
         \<and> entry_at c w = Some (Package (upgraded p)))
    \<or> kept u candidate b w"
  using assms(1) recoverable_package [OF _ assms(2), of A w] by (auto simp: settled_def closed_new_def committed_def)

lemma quiet_start:
  assumes ok: "update_ok u" and w: "settled u A candidate b w" and tidy: "tidy A"
    and stored: "storable (ie_codec (up_env u)) path (restore_doc (up_id u) (up_entries u) (iw_document (up_start u)))"
    and run: "next_start (up_env u) path (up_id u) s [] w = (y, cs, w')"
  shows "(\<exists>v. y = Val v) \<and> closed_old u w' \<or> kept u candidate b w'"
proof -
  have none: "bt_get (iw_journals (up_start u)) (up_id u) = None" using ok by (simp add: update_ok_def)
  consider "closed_old u w" | j where "open_with u A j w" | "closed_new u candidate b w \<or> committed u candidate b w"
    using w unfolding settled_def recoverable_def by blast
  then show ?thesis
  proof cases
    case 1
    then show ?thesis using run none by (auto simp: next_start_def closed_old_def ret_def gets_def io_then_def)
  next
    case (2 j)
    then have "bt_has (iw_journals w) (up_id u)" by (simp add: open_with_def)
    with recover_open [OF ok 2 tidy stored, of s] run show ?thesis
      by (auto simp: next_start_def gets_def io_then_def)
  next
    case 3
    show ?thesis
    proof (cases "committed u candidate b w")
      case True
      then obtain j where j: "bt_get (iw_journals w) (up_id u) = Some (Stored j)" "jn_committed j"
        "journal_facts u (j\<lparr>jn_committed := False\<rparr>)"
        by (auto simp: committed_def)
      then have "bt_has (iw_journals w) (up_id u)" by simp
      with run have "recover_journal (up_env u) path (up_id u) s [] w = (y, cs, w')"
        by (simp add: next_start_def gets_def io_then_def)
      from run_of [OF recover_committed [OF ok True j, of "{}"] this] show ?thesis
        by (cases y) (auto simp: closed_new_def committed_def)
    next
      case False
      with 3 have "closed_new u candidate b w" by blast
      then show ?thesis using run none by (auto simp: next_start_def closed_new_def ret_def gets_def io_then_def)
    qed
  qed
qed

text \<open>
  C2: an update is all or nothing over restarts. An update that ended anywhere, with any calls
  refused or cut off halfway, is followed by any number of starts of the program, each with
  answers of its own and each of which may end anywhere. Then the directory of the plugin before
  the update is complete at its place or at the backup the uncommitted journal on disk names, or
  the new directory is complete at its place and the registry on disk names it. And if among all
  those calls no removal or copy of a directory was cut off halfway, and the staged package and
  the recorded one are the plugin's own (\<open>plain_update\<close>), the next start whose calls
  succeed returns with the previous directory and registrations, or leaves the new directory with
  the registry that names it.
\<close>

theorem interrupted_update_is_all_or_nothing:
  assumes "update_ok u" "view_of_entries (up_id u) previous = up_entries u" "staged_for u candidate"
    and "tidy (set as) \<Longrightarrow> plain_update u candidate" "enable \<or> \<not> is_enabled candidate (up_id u)"
    and "storable (ie_codec (up_env u)) path (restore_doc (up_id u) (up_entries u) (iw_document (up_start u)))"
    and "install_selection (up_env u) candidate previous (up_id u) enable as (up_start u) = (x, bs, w)"
    and "starts (up_env u) path (up_id u) later w = w1"
    and "next_start (up_env u) path (up_id u) s [] w1 = (y, cs, w')"
  shows "(case up_before u of None \<Rightarrow> True | Some p \<Rightarrow>
        entry_at (up_target u) w1 \<in> {Some (Package p), Some (Package (upgraded p))}
        \<or> (\<exists>j b. bt_get (iw_journals w1) (up_id u) = Some (Stored j) \<and> \<not> jn_committed j \<and> jn_backup j = Some b
             \<and> entry_at b w1 = Some (Package (upgraded p)))
        \<or> kept u candidate enable w1)
    \<and> (tidy (set as \<union> \<Union> (set ` snd ` set later)) \<longrightarrow>
        (\<exists>v. y = Val v) \<and> closed_old u w' \<or> kept u candidate enable w')"
proof -
  let ?A = "set as \<union> \<Union> (set ` snd ` set later)"
  have "settled u ?A candidate enable w"
    using update_run [OF assms(1-5,7)] recoverable_subset [of u "set as" w ?A]
    by (auto simp: settled_def split: step.splits)
  from starts_settled [OF assms(1) this, of later path] have w1: "settled u ?A candidate enable w1"
    using assms(8) by auto
  from settled_package [OF w1] quiet_start [OF assms(1) w1 _ assms(6,9)] show ?thesis
    by (auto split: option.split)
qed

text \<open>
  C17: an undisturbed update returns. When no call of the operating system fails and the package
  that was staged, the installed one, the registration and the documents pass the program's
  checks, the update ends with the new directory at its place, the registry on disk naming it
  with the preference that was selected, the journal gone, and every other registration as it
  was.
\<close>

theorem undisturbed_update_completes:
  assumes "update_ok u" "view_of_entries (up_id u) previous = up_entries u" "staged_for u candidate"
    and "plain_update u candidate" "enable \<or> \<not> is_enabled candidate (up_id u)"
    and "update_passes u previous candidate v p" "registers u candidate v p l" "one_place u"
    and "storable (ie_codec (up_env u)) (rg_path candidate) (selected_doc u (placed_registry u candidate v p l))"
    and "storable (ie_codec (up_env u)) (rg_path candidate) (enabled_doc u enable (placed_registry u candidate v p l))"
  shows "\<exists>r w. install_selection (up_env u) candidate previous (up_id u) enable [] (up_start u) = (Val r, [], w)
    \<and> entry_at (up_target u) w = Some (Package (upgraded p))
    \<and> places u v (entries_of (up_id u) (iw_document w)) \<and> snd (snd (entries_of (up_id u) (iw_document w))) = enable
    \<and> iw_journals w = iw_journals (up_start u)
    \<and> (\<forall>k. k \<noteq> up_id u \<longrightarrow> bt_get (rd_local (iw_document w)) k = bt_get (rd_local (iw_document (up_start u))) k
         \<and> bt_get (rd_managed (iw_document w)) k = bt_get (rd_managed (iw_document (up_start u))) k)"
proof -
  obtain r w where run: "install_selection (up_env u) candidate previous (up_id u) enable [] (up_start u) = (Val r, [], w)"
    using quiet_install [OF assms(1-8,9,10)] by blast
  from update_run [OF assms(1-3) _ assms(5) run] assms(4) have new: "closed_new u candidate enable w" by simp
  have v: "selected_version candidate (up_id u) = Some v" "entry_at (mv_package_path v) (up_start u) = Some (Package p)"
    using assms(6) by (simp_all add: update_passes_def)
  have "kept u candidate enable w" using new by (simp add: closed_new_def)
  with new v show ?thesis
    using run kept_others [of u candidate enable w] by (auto simp: closed_new_def kept_def)
qed

text \<open>
  C21: an update touches one plugin. Whatever the operating system answers and wherever the
  program ends, an intact directory of another plugin outside the staging directory is still
  there, byte for byte what it was, and no other registration has changed.
\<close>

theorem update_spares_other_plugins:
  assumes "update_ok u" "view_of_entries (up_id u) previous = up_entries u" "staged_for u candidate"
    and "tidy (set as) \<Longrightarrow> plain_update u candidate" "enable \<or> \<not> is_enabled candidate (up_id u)"
    and "install_selection (up_env u) candidate previous (up_id u) enable as (up_start u) = (x, bs, w)"
    and "entry_at q (up_start u) = Some (Package g)" "pt_manifest (pg_tree g) = Ok m" "pm_id m \<noteq> up_id u"
    and "\<not> in_staging (up_env u) q" "\<not> path_eq q (up_target u)" "k \<noteq> up_id u"
  shows "entry_at q w = Some (Package g)
    \<and> bt_get (rd_local (iw_document w)) k = bt_get (rd_local (iw_document (up_start u))) k
    \<and> bt_get (rd_managed (iw_document w)) k = bt_get (rd_managed (iw_document (up_start u))) k"
proof -
  have env: "env_ok (up_env u)" "valid_plugin_id (up_id u)" using assms(1) by (simp_all add: update_ok_def)
  have "spared (up_env u) (up_id u) (up_start u) (up_start u)" by (simp add: spared_def)
  from run_of [OF spared_install [OF env this] assms(6)] have "spared (up_env u) (up_id u) (up_start u) w"
    by (auto split: step.splits)
  then have "entry_at q w = Some (Package g)" using assms(7-11) by (auto simp: spared_def)
  moreover have "recoverable u (set as) w \<or> kept u candidate enable w"
    using update_run [OF assms(1-6)] by (cases x) (auto simp: closed_new_def committed_def)
  ultimately show ?thesis using recoverable_others [OF _ assms(12)] kept_others [OF _ assms(12)] by blast
qed

text \<open>
  C22: a journal file cannot reach beyond its own plugin. Whatever the file says, recovering from
  it - rolling back or cleaning up, with any answers of the operating system - leaves every
  intact directory of another plugin outside the staging directory as it was.
\<close>

theorem journal_recovery_confined:
  assumes "recover_journal e path stem s as w = (x, bs, w')"
    and "entry_at q w = Some (Package g)" "pt_manifest (pg_tree g) = Ok m" "pm_id m \<noteq> stem"
    and "\<not> in_staging e q" "\<not> path_eq q (installed_path e stem)"
  shows "entry_at q w' = Some (Package g)"
proof -
  have "spared e stem w w" by (simp add: spared_def)
  from run_of [OF keepsD [OF spared_recover this] assms(1)] have "spared e stem w w'"
    by (auto split: step.splits)
  then show ?thesis using assms(2-6) by (auto simp: spared_def)
qed

text \<open>
  A registration that somebody else changed is left alone. When the registration on disk is
  none of those the transaction wrote or started from - a permission was revoked, say, or the
  source was replaced - neither a rollback nor a commit changes anything on the disk, and neither
  reports success.
\<close>

theorem changed_registration_is_left_alone:
  assumes "registration_digest e (snapshot (in_registry_path n) (iw_document w)) (jn_id (in_journal n))
    \<notin> set (jn_allowed (in_journal n))"
  shows "(case rollback e n as w of (x, bs, w') \<Rightarrow> w' = w \<and> (\<forall>r. x \<noteq> Val r))
    \<and> (case commit e n as w of (x, bs, w') \<Rightarrow> w' = w \<and> (\<forall>r. x \<noteq> Val r))"
proof -
  have check: "wp UNIV (check_registration e n) (\<lambda>_ _. False) (\<lambda>_ w'. w' = w) (\<lambda>w'. w' = w) w"
    by (rule wp_check_registration) (use assms in simp_all)
  have "wp UNIV (rollback e n) (\<lambda>_ _. False) (\<lambda>_ w'. w' = w) (\<lambda>w'. w' = w) w"
    "wp UNIV (commit e n) (\<lambda>_ _. False) (\<lambda>_ w'. w' = w) (\<lambda>w'. w' = w) w"
    unfolding rollback_def commit_def Let_def by (rule wp_then, rule wp_mono [OF check], simp_all)+
  from refused_run [OF this(1), of as] refused_run [OF this(2), of as] show ?thesis by (rule conjI)
qed

section \<open>An interrupted removal\<close>

text \<open>
  What is left of a directory whose removal was interrupted holds the recovery up: with remains at
  the place of the plugin and a backup, no rollback returns a registry, and the directories stay
  as they are.
\<close>

lemma remains_block_rollback:
  assumes "entry_at (jn_target (in_journal n)) w = Some Fragment"
    and "jn_backup (in_journal n) = Some b" "entry_at b w \<noteq> None"
  shows "case rollback e n as w of (x, bs, w') \<Rightarrow> w' = w \<and> (\<forall>r. x \<noteq> Val r)"
proof -
  have there: "exists_at (jn_target (in_journal n)) w" "exists_at b w"
    using assms by (auto simp: exists_at_def entry_at_def bt_has_def)
  have discard: "wp UNIV (discard_target e n True) (\<lambda>_ _. False) (\<lambda>_ w'. w' = w) (\<lambda>w'. w' = w) w"
    unfolding discard_target_def Let_def
    by (intro wp_then wp_gets) (simp add: there, intro wp_then wp_inspect, simp_all add: assms(1))
  have "wp UNIV (rollback e n) (\<lambda>_ _. False) (\<lambda>_ w'. w' = w) (\<lambda>w'. w' = w) w"
    unfolding rollback_def Let_def
    by (intro wp_then wp_check_registration wp_gets)
      (simp_all add: assms(2) there, intro wp_check_previous wp_then, simp_all, rule wp_mono [OF discard], simp_all)
  then show ?thesis by (rule refused_run)
qed

end
