(* ===== verification/Install_Demo.thy ===== *)
theory Install_Demo
  imports Install_Properties Local_Loading Registry_Trust
begin

text \<open>
  An update of the installed plugin \<open>dev.tool\<close> from its first version to its second.
\<close>

definition demo_manifest_of :: "string \<Rightarrow> plugin_manifest" where
  "demo_manifest_of v = demo_host_tool\<lparr>pm_version := v\<rparr>"

abbreviation "demo_old_manifest \<equiv> demo_manifest_of ''1.0.0''"
abbreviation "demo_new_manifest \<equiv> demo_manifest_of ''2.0.0''"

definition demo_hash :: "string \<Rightarrow> string" where
  "demo_hash s = s @ replicate (64 - length s) CHR ''0''"

definition demo_source :: "string \<Rightarrow> github_source" where
  "demo_source v = \<lparr>gs_repository_url = ''https://github.com/dev/tool'', gs_owner = ''dev'', gs_repository = ''tool'',
     gs_release_id = 1, gs_tag = v, gs_asset_id = 2, gs_asset_name = ''tool.zip'',
     gs_asset_url = ''https://github.com/dev/tool/releases/download/'' @ v @ ''/tool.zip'', gs_asset_size = 9,
     gs_sha256 = demo_hash ''a'', gs_upstream_digest_verified = True, gs_repository_id = None, gs_owner_id = None,
     gs_release_published_at = None\<rparr>"

definition demo_tree :: "string \<Rightarrow> plugin_manifest \<Rightarrow> package_tree" where
  "demo_tree v m = \<lparr>pt_digest = Ok (demo_hash (tl v)), pt_manifest = Ok m, pt_metadata = Ok None, pt_files = pm_version m\<rparr>"

definition demo_package :: "string \<Rightarrow> plugin_manifest \<Rightarrow> package_dir" where
  "demo_package v m = \<lparr>pg_tree = demo_tree v m,
     pg_receipt = Some \<lparr>rc_schema = 2, rc_path = None, rc_source = demo_source v, rc_tree = demo_hash (tl v)\<rparr>\<rparr>"

definition demo_version :: "string \<Rightarrow> string \<Rightarrow> plugin_manifest \<Rightarrow> managed_version" where
  "demo_version v path m = \<lparr>mv_version_key = demo_hash ''1'', mv_package_path = path, mv_content_digest = demo_hash ''2'',
     mv_source = demo_source v, mv_manifest = m, mv_metadata = None\<rparr>"

definition demo_record :: "managed_version \<Rightarrow> managed_record" where
  "demo_record v = \<lparr>mr_current_version = Some (mv_version_key v), mr_history = [v]\<rparr>"

definition demo_install :: install_env where
  "demo_install = \<lparr>ie_codec = demo_codec\<lparr>cx_manifest_to := (\<lambda>m. Ok (pm_version m)),
       cx_manifest_from := (\<lambda>s. Ok (demo_manifest_of s)), cx_to := (\<lambda>_. Ok ''D'')\<rparr>,
     ie_home = ''/c'', ie_random = (\<lambda>n. replicate n CHR ''x''), ie_readdir = (\<lambda>xs. xs),
     ie_registration_digest = (\<lambda>_ _ _ b. demo_hash (if b then ''5'' else ''4'')),
     ie_version_key = (\<lambda>_ s _. demo_hash ''3''), ie_package_digest = (\<lambda>_ _ _ _. demo_hash ''2''),
     ie_journal_length = (\<lambda>_. 9), ie_checkpoint_length = (\<lambda>_. 9), ie_checked_entry = (\<lambda>_ _ _. Ok ()),
     ie_verified_installer = (\<lambda>_ _. False)\<rparr>"

definition demo_target :: string where
  "demo_target = ''/c/packages/github/dev.tool''"

definition demo_ready :: string where
  "demo_ready = ''/c/packages/github/.staging/ready-1''"

definition demo_placed :: "string \<Rightarrow> local_registration" where
  "demo_placed path = demo_registration\<lparr>lr_path := path\<rparr>"

definition demo_managed_doc :: registry_document where
  "demo_managed_doc = document_default\<lparr>
     rd_plugins := bt_insert ''dev.tool'' \<lparr>pf_enabled = True\<rparr> bt_empty,
     rd_local := bt_insert ''dev.tool'' (demo_placed demo_target) bt_empty,
     rd_managed := bt_insert ''dev.tool'' (demo_record (demo_version ''v1'' demo_target demo_old_manifest)) bt_empty\<rparr>"

definition demo_disk_before :: install_world where
  "demo_disk_before = \<lparr>iw_document = demo_managed_doc,
     iw_dirs = bt_insert (path_components demo_target) (Package (demo_package ''v1'' demo_old_manifest))
       (bt_insert (path_components demo_ready) (Package (demo_package ''v2'' demo_new_manifest)) bt_empty),
     iw_journals = bt_empty, iw_pending = bt_empty, iw_sequence = 0\<rparr>"

definition demo_previous :: plugin_registry where
  "demo_previous = snapshot ''/c/plugins.json'' demo_managed_doc"

definition demo_candidate :: plugin_registry where
  "demo_candidate = (stage_managed ''dev.tool'' (Some (demo_record (demo_version ''v2'' demo_ready demo_new_manifest)))
     (stage_local ''dev.tool'' (Some (demo_placed demo_ready)) demo_previous))
     \<lparr>rg_pending := bt_insert ''dev.tool'' \<lparr>pf_enabled = False\<rparr> bt_empty\<rparr>"

definition demo_update :: update where
  "demo_update = \<lparr>up_env = demo_install, up_id = ''dev.tool'', up_start = demo_disk_before,
     up_before = Some (demo_package ''v1'' demo_old_manifest)\<rparr>"

abbreviation "demo_next \<equiv> demo_version ''v2'' demo_ready demo_new_manifest"
abbreviation "demo_next_package \<equiv> demo_package ''v2'' demo_new_manifest"

section \<open>The disk of the example\<close>

lemma demo_components:
  "path_components demo_target = [RootDir, Normal ''c'', Normal ''packages'', Normal ''github'', Normal ''dev.tool'']"
  "path_components demo_ready = [RootDir, Normal ''c'', Normal ''packages'', Normal ''github'', Normal ''.staging'', Normal ''ready-1'']"
  "path_components (staging_root demo_install) = [RootDir, Normal ''c'', Normal ''packages'', Normal ''github'', Normal ''.staging'']"
  "installed_path demo_install ''dev.tool'' = demo_target"
  by code_simp+

lemma demo_place [simp]: "installed_path demo_install ''dev.tool'' = demo_target"
  by (rule demo_components)

lemma demo_arguments [simp]:
  "ie_package_digest demo_install path t s m = demo_hash ''2''" "ie_version_key demo_install path s c = demo_hash ''3''"
  "ie_checked_entry demo_install r i t = Ok ()" "ie_journal_length demo_install j = 9"
  "cx_url (ie_codec demo_install) = (\<lambda>_. None)" "cx_tables (ie_codec demo_install) = ascii_tables"
  "cx_manifest_to (ie_codec demo_install) m' = Ok (pm_version m')"
  "cx_manifest_from (ie_codec demo_install) v = Ok (demo_manifest_of v)" "cx_to (ie_codec demo_install) d = Ok ''D''"
  by (simp_all add: demo_install_def demo_codec_def)

lemma demo_sources: "validate_source (demo_source ''v1'') = Ok ()" "validate_source (demo_source ''v2'') = Ok ()"
  by code_simp+

lemma demo_digests: "valid_sha256 (demo_hash ''a'')" "valid_sha256 (demo_hash ''1'')" "valid_sha256 (demo_hash ''2'')"
  by code_simp+

lemma demo_registration_placed:
  "validate_local_registration (\<lambda>_. None) (demo_placed demo_target)"
  by code_simp

lemma demo_versions_valid:
  "manifest_validate ascii_tables (demo_manifest_of ''1.0.0'') = Ok ()"
  "manifest_validate ascii_tables (demo_manifest_of ''2.0.0'') = Ok ()"
  by (simp_all add: manifest_validate_def demo_manifest_of_def demo_host_tool_def demo_manifest_def ascii_tables_def MANIFEST_SCHEMA_def
      valid_plugin_id_def MAX_PLUGIN_ID_BYTES_def validate_version_def MAX_VERSION_BYTES_def
      readable_def blank_def chars_ascii is_ascii_def byte_def is_whitespace_def
      validate_description_def validate_tags_def ascii_alnum_def ascii_lower_def
      ascii_upper_def ascii_digit_def validate_renderer_def validate_host_def
      valid_javascript_entry_def valid_relative_entry_def path_is_absolute_def slash_def
      backslash_def ends_with_def strip_suffix_def)

lemma demo_keys: "valid_digest (demo_hash ''a'')" "valid_digest (demo_hash ''1'')" "valid_digest (demo_hash ''2'')"
  "valid_digest (demo_hash ''3'')"
  by code_simp+

text \<open>A document with one managed plugin at one place.\<close>

lemma demo_document_ok:
  assumes "rd_schema d = 2" "rd_plugins d = bt_insert ''dev.tool'' pf bt_empty"
    and "rd_local d = bt_insert ''dev.tool'' (demo_placed demo_target) bt_empty"
    and "rd_managed d = bt_insert ''dev.tool'' \<lparr>mr_current_version = Some key, mr_history = [v]\<rparr> bt_empty"
    and "v = \<lparr>mv_version_key = key, mv_package_path = demo_target, mv_content_digest = demo_hash ''2'',
      mv_source = demo_source tag, mv_manifest = demo_manifest_of w, mv_metadata = None\<rparr>"
    and "key = demo_hash ''1'' \<or> key = demo_hash ''3''" "w = ''1.0.0'' \<or> w = ''2.0.0''"
  shows "document_validate (ie_codec demo_install) path d = Ok ()"
proof -
  have abs: "path_is_absolute demo_target" "path_eq demo_target demo_target"
    by (simp_all add: demo_target_def path_is_absolute_def slash_def)
  have version: "pm_version (demo_manifest_of w) = w" "pm_id (demo_manifest_of w) = ''dev.tool''"
    by (simp_all add: demo_manifest_of_def demo_host_tool_def demo_manifest_def)
  have manifest: "manifest_validate ascii_tables (demo_manifest_of w) = Ok ()"
    using assms(7) demo_versions_valid by auto
  have "managed_validate (ie_codec demo_install) ''dev.tool'' (Some (demo_placed demo_target))
      \<lparr>mr_current_version = Some key, mr_history = [v]\<rparr> = Ok ()"
    using assms(6) manifest abs demo_keys
    by (auto simp: managed_validate_def assms(5) version manifest_parse_def managed_current_def
        MAX_HISTORY_def demo_source_def demo_placed_def)
  then show ?thesis
    using demo_registration_placed
    by (simp add: document_validate_def assms(1-4) REGISTRY_SCHEMA_def bt_keys_def demo_tool_id)
qed

lemma demo_storable:
  assumes "document_validate (ie_codec demo_install) path d = Ok ()"
  shows "storable (ie_codec demo_install) path d"
  using assms by (simp add: storable_def MAX_REGISTRY_BYTES_def)

section \<open>The hypotheses of an update hold\<close>

lemma demo_update_fields [simp]:
  "up_env demo_update = demo_install" "up_id demo_update = ''dev.tool''" "up_start demo_update = demo_disk_before"
  "up_before demo_update = Some (demo_package ''v1'' demo_old_manifest)"
  by (simp_all add: demo_update_def)

lemma demo_env_ok: "env_ok demo_install"
  by (simp add: env_ok_def demo_install_def path_is_absolute_def slash_def)

lemma demo_entries:
  "entry_at q demo_disk_before = (if path_components q = path_components demo_target then Some (Package (demo_package ''v1'' demo_old_manifest))
     else if path_components q = path_components demo_ready then Some (Package (demo_package ''v2'' demo_new_manifest)) else None)"
  by (simp add: entry_at_def demo_disk_before_def)

lemma demo_world_fields [simp]:
  "iw_document demo_disk_before = demo_managed_doc" "iw_journals demo_disk_before = bt_empty"
  "iw_pending demo_disk_before = bt_empty" "iw_sequence demo_disk_before = 0"
  by (simp_all add: demo_disk_before_def)

lemma demo_doc_fields [simp]:
  "rd_schema demo_managed_doc = 2" "rd_plugins demo_managed_doc = bt_insert ''dev.tool'' \<lparr>pf_enabled = True\<rparr> bt_empty"
  "rd_local demo_managed_doc = bt_insert ''dev.tool'' (demo_placed demo_target) bt_empty"
  "rd_managed demo_managed_doc = bt_insert ''dev.tool'' (demo_record (demo_version ''v1'' demo_target demo_old_manifest)) bt_empty"
  by (simp_all add: demo_managed_doc_def document_default_def REGISTRY_SCHEMA_def)

lemma demo_update_ok: "update_ok demo_update"
  by (simp add: update_ok_def demo_env_ok demo_tool_id demo_entries demo_components)

lemma demo_previous_entries: "view_of_entries (up_id demo_update) demo_previous = up_entries demo_update"
  by (simp add: demo_previous_def)

lemma demo_candidate_staged: "staged_for demo_update demo_candidate"
proof -
  let ?l = "stage_local ''dev.tool'' (Some (demo_placed demo_ready)) demo_previous"
  let ?m = "stage_managed ''dev.tool'' (Some (demo_record (demo_version ''v2'' demo_ready demo_new_manifest))) ?l"
  have "staged_on ''dev.tool'' demo_managed_doc ?m"
    by (intro staged_on_stage) (simp add: demo_previous_def staged_on_snapshot)
  moreover have "rg_pending ?m = bt_empty"
    by (simp add: stage_managed_def stage_local_def demo_previous_def Let_def)
  ultimately show ?thesis
    using staged_on_enable [of "''dev.tool''" demo_managed_doc ?m "\<lparr>pf_enabled = False\<rparr>"]
    by (simp add: demo_candidate_def demo_tool_id)
qed

lemma demo_candidate_fields:
  "bt_get (rg_managed demo_candidate) ''dev.tool'' = Some (demo_record (demo_version ''v2'' demo_ready demo_new_manifest))"
  "bt_get (rg_local demo_candidate) ''dev.tool'' = Some (demo_placed demo_ready)"
  "rg_path demo_candidate = ''/c/plugins.json''"
  "rg_local demo_candidate = bt_insert ''dev.tool'' (demo_placed demo_ready) bt_empty"
  by (simp_all add: demo_candidate_def stage_managed_def stage_local_def demo_previous_def Let_def set_opt_def bt_insert_again)

lemma demo_selected: "selected_version demo_candidate ''dev.tool'' = Some (demo_version ''v2'' demo_ready demo_new_manifest)"
  by (simp add: selected_version_def demo_candidate_fields demo_record_def managed_current_def)

lemma demo_manifest_fields [simp]: "pm_id (demo_manifest_of v) = ''dev.tool''" "pm_version (demo_manifest_of v) = v"
  by (simp_all add: demo_manifest_of_def demo_host_tool_def demo_manifest_def)

lemma demo_inspected:
  "inspect_entry demo_install demo_ready (Some (Package (demo_package ''v2'' demo_new_manifest)))
     = Ok \<lparr>pp_path = demo_ready, pp_source = demo_source ''v2'', pp_manifest = demo_new_manifest, pp_metadata = None\<rparr>"
  "inspect_entry demo_install demo_target (Some (Package (demo_package ''v1'' demo_old_manifest)))
     = Ok \<lparr>pp_path = demo_target, pp_source = demo_source ''v1'', pp_manifest = demo_old_manifest, pp_metadata = None\<rparr>"
proof -
  have abs: "path_is_absolute demo_ready" "path_is_absolute demo_target"
    by (simp_all add: demo_ready_def demo_target_def path_is_absolute_def slash_def)
  have staging: "in_staging demo_install demo_ready" "path_parent demo_target = Some (path_components (managed_root demo_install))"
    "path_file_name demo_target = ''dev.tool''"
    by (simp_all add: in_staging_def path_parent_def demo_components path_file_name_def root_components)
      (simp add: demo_install_def path_components_def slash_def segment_component_def)
  have sha: "gs_sha256 (demo_source v) = demo_hash ''a''" for v by (simp add: demo_source_def)
  show "inspect_entry demo_install demo_ready (Some (Package (demo_package ''v2'' demo_new_manifest)))
     = Ok \<lparr>pp_path = demo_ready, pp_source = demo_source ''v2'', pp_manifest = demo_new_manifest, pp_metadata = None\<rparr>"
    "inspect_entry demo_install demo_target (Some (Package (demo_package ''v1'' demo_old_manifest)))
     = Ok \<lparr>pp_path = demo_target, pp_source = demo_source ''v1'', pp_manifest = demo_old_manifest, pp_metadata = None\<rparr>"
    using abs staging demo_sources demo_digests sha
    by (simp_all add: inspect_entry_def inspect_package_def demo_package_def demo_tree_def receipt_matches_def)
qed


lemma demo_version_fields [simp]:
  "mv_package_path (demo_version tag path m) = path" "mv_source (demo_version tag path m) = demo_source tag"
  "mv_manifest (demo_version tag path m) = m" "mv_metadata (demo_version tag path m) = None"
  "mv_content_digest (demo_version tag path m) = demo_hash ''2''"
  by (simp_all add: demo_version_def)

lemma demo_plain: "plain_update demo_update demo_candidate"
  using demo_inspected
  by (auto simp: plain_update_def demo_selected demo_entries demo_components entries_of_def demo_record_def
      managed_current_def inspect_entry_def split: if_splits)

lemma demo_validates:
  "validate_current demo_install demo_previous ''dev.tool'' [] demo_disk_before = (Val (), [], demo_disk_before)"
proof -
  have v: "selected_version demo_previous ''dev.tool'' = Some (demo_version ''v1'' demo_target demo_old_manifest)"
    by (simp add: selected_version_def demo_previous_def demo_record_def managed_current_def)
  have there: "entry_at demo_target demo_disk_before = Some (Package (demo_package ''v1'' demo_old_manifest))"
    by (simp add: demo_entries)
  have inspect: "inspect_prepared_package demo_install demo_target [] demo_disk_before
      = (Val \<lparr>pp_path = demo_target, pp_source = demo_source ''v1'', pp_manifest = demo_old_manifest, pp_metadata = None\<rparr>, [], demo_disk_before)"
    by (rule quiet_inspect) (simp add: there demo_inspected)
  show ?thesis
    by (simp add: validate_current_def v quiet_then inspect quiet_tree_at [OF there] demo_package_def demo_tree_def)
qed

lemma demo_passes: "update_passes demo_update demo_previous demo_candidate demo_next demo_next_package"
proof -
  have fresh: "path_components (path_join (staging_root demo_install) ''ready-'')
      = [RootDir, Normal ''c'', Normal ''packages'', Normal ''github'', Normal ''.staging'', Normal ''ready-'']"
    "path_components (path_join (staging_root demo_install) ''backup-x'')
      = [RootDir, Normal ''c'', Normal ''packages'', Normal ''github'', Normal ''.staging'', Normal ''backup-x'']"
    by code_simp+
  have names: "ie_random demo_install 0 = []" "ie_random demo_install (Suc 0) = ''x''"
    by (simp_all add: demo_install_def)
  have owner: "\<not> owned_by_other demo_previous ''dev.tool'' demo_target"
    by (simp add: owned_by_other_def demo_previous_def demo_placed_def)
  show ?thesis
    using owner
    by (simp add: update_passes_def demo_selected demo_inspected demo_validates demo_entries demo_components
        fresh names MAX_REGISTRY_BYTES_def)
qed

lemma demo_one_place: "one_place demo_update"
  by (simp add: one_place_def entries_of_def demo_record_def)

lemma demo_placed_record:
  "placed demo_update demo_candidate demo_next demo_next_package (demo_placed demo_ready)
     = \<lparr>mr_current_version = Some (demo_hash ''3''), mr_history = [\<lparr>mv_version_key = demo_hash ''3'', mv_package_path = demo_target,
         mv_content_digest = demo_hash ''2'', mv_source = demo_source ''v2'', mv_manifest = demo_new_manifest, mv_metadata = None\<rparr>]\<rparr>"
  by (simp add: placed_def Let_def)

lemma demo_moved: "(demo_placed demo_ready)\<lparr>lr_path := demo_target\<rparr> = demo_placed demo_target"
  by (simp add: demo_placed_def)

abbreviation "demo_registry \<equiv> placed_registry demo_update demo_candidate demo_next demo_next_package (demo_placed demo_ready)"

lemma demo_registry_tables:
  "rg_local demo_registry = bt_insert ''dev.tool'' (demo_placed demo_target) bt_empty"
  "rg_managed demo_registry = bt_insert ''dev.tool'' (placed demo_update demo_candidate demo_next demo_next_package (demo_placed demo_ready)) bt_empty"
  "rg_pending demo_registry = bt_insert ''dev.tool'' \<lparr>pf_enabled = False\<rparr> bt_empty"
  "rg_path demo_registry = ''/c/plugins.json''"
  by (simp_all add: placed_registry_def demo_moved stage_managed_def stage_local_def demo_candidate_def demo_previous_def
      Let_def set_opt_def bt_insert_again)

text \<open>Saving a handle with edits of one plugin writes its tables.\<close>

lemma merge_tables:
  assumes "staged_on i d r"
  shows "rd_local (merge_staged r d) = rg_local r" "rd_managed (merge_staged r d) = rg_managed r"
  using assms by (auto simp: merge_staged_def Let_def staged_on_def overlaid_def split: option.split intro!: bt_eqI)

lemma demo_selected_doc:
  "rd_schema (selected_doc demo_update demo_registry) = 2"
  "rd_plugins (selected_doc demo_update demo_registry) = bt_insert ''dev.tool'' \<lparr>pf_enabled = False\<rparr> bt_empty"
  "rd_local (selected_doc demo_update demo_registry) = bt_insert ''dev.tool'' (demo_placed demo_target) bt_empty"
  "rd_managed (selected_doc demo_update demo_registry)
     = bt_insert ''dev.tool'' (placed demo_update demo_candidate demo_next demo_next_package (demo_placed demo_ready)) bt_empty"
proof -
  have staged: "staged_on ''dev.tool'' demo_managed_doc demo_registry"
    using staged_for_stage(1) [OF demo_candidate_staged refl] by (simp add: placed_registry_def)
  show "rd_local (selected_doc demo_update demo_registry) = bt_insert ''dev.tool'' (demo_placed demo_target) bt_empty"
    "rd_managed (selected_doc demo_update demo_registry)
       = bt_insert ''dev.tool'' (placed demo_update demo_candidate demo_next demo_next_package (demo_placed demo_ready)) bt_empty"
    using merge_tables [OF staged] by (simp_all add: selected_doc_def demo_registry_tables)
  show "rd_schema (selected_doc demo_update demo_registry) = 2"
    by (simp add: selected_doc_def merge_staged_def Let_def REGISTRY_SCHEMA_def)
  show "rd_plugins (selected_doc demo_update demo_registry) = bt_insert ''dev.tool'' \<lparr>pf_enabled = False\<rparr> bt_empty"
    by (rule bt_eqI) (simp add: selected_doc_def merge_staged_def Let_def demo_registry_tables GUI_PLUGIN_ID_def bt_extend_def)
qed

lemma demo_enabled_doc:
  "rd_schema (enabled_doc demo_update True demo_registry) = 2"
  "rd_plugins (enabled_doc demo_update True demo_registry) = bt_insert ''dev.tool'' \<lparr>pf_enabled = True\<rparr> bt_empty"
  "rd_local (enabled_doc demo_update True demo_registry) = bt_insert ''dev.tool'' (demo_placed demo_target) bt_empty"
  "rd_managed (enabled_doc demo_update True demo_registry)
     = bt_insert ''dev.tool'' (placed demo_update demo_candidate demo_next demo_next_package (demo_placed demo_ready)) bt_empty"
proof -
  let ?d = "selected_doc demo_update demo_registry"
  let ?on = "(snapshot ''/c/plugins.json'' ?d)\<lparr>rg_pending := bt_insert ''dev.tool'' \<lparr>pf_enabled = True\<rparr> bt_empty\<rparr>"
  have doc: "enabled_doc demo_update True demo_registry = merge_staged ?on ?d"
    by (simp add: enabled_doc_def Let_def demo_registry_tables demo_tool_id)
  have staged: "staged_on ''dev.tool'' ?d ?on"
    using staged_on_enable [OF staged_on_snapshot [of "''dev.tool''" ?d "''/c/plugins.json''"], of "\<lparr>pf_enabled = True\<rparr>"]
    by (simp add: demo_tool_id)
  show "rd_local (enabled_doc demo_update True demo_registry) = bt_insert ''dev.tool'' (demo_placed demo_target) bt_empty"
    "rd_managed (enabled_doc demo_update True demo_registry)
       = bt_insert ''dev.tool'' (placed demo_update demo_candidate demo_next demo_next_package (demo_placed demo_ready)) bt_empty"
    unfolding doc using merge_tables [OF staged] by (simp_all add: demo_selected_doc)
  show "rd_schema (enabled_doc demo_update True demo_registry) = 2"
    unfolding doc by (simp add: merge_staged_def Let_def REGISTRY_SCHEMA_def)
  show "rd_plugins (enabled_doc demo_update True demo_registry) = bt_insert ''dev.tool'' \<lparr>pf_enabled = True\<rparr> bt_empty"
    unfolding doc by (rule bt_eqI) (simp add: merge_staged_def Let_def demo_selected_doc GUI_PLUGIN_ID_def bt_extend_def)
qed

lemma demo_documents_storable:
  "storable (ie_codec demo_install) path (selected_doc demo_update demo_registry)"
  "storable (ie_codec demo_install) path (enabled_doc demo_update True demo_registry)"
  "storable (ie_codec demo_install) path (restore_doc ''dev.tool'' (up_entries demo_update) demo_managed_doc)"
proof -
  show "storable (ie_codec demo_install) path (selected_doc demo_update demo_registry)"
    by (rule demo_storable, rule demo_document_ok [OF demo_selected_doc [unfolded demo_placed_record] refl]) simp_all
  show "storable (ie_codec demo_install) path (enabled_doc demo_update True demo_registry)"
    by (rule demo_storable, rule demo_document_ok [OF demo_enabled_doc [unfolded demo_placed_record] refl]) simp_all
  let ?d = "restore_doc ''dev.tool'' (up_entries demo_update) demo_managed_doc"
  have tables: "rd_local ?d = rd_local demo_managed_doc" "rd_managed ?d = rd_managed demo_managed_doc"
    using restore_own [of "up_entries demo_update" "''dev.tool''" demo_managed_doc] by simp_all
  have "rd_schema ?d = 2" "\<exists>pf. rd_plugins ?d = bt_insert ''dev.tool'' pf bt_empty"
    by (auto simp: restore_doc_def REGISTRY_SCHEMA_def Let_def demo_tool_id GUI_PLUGIN_ID_def bt_insert_again split: prod.split)
  then show "storable (ie_codec demo_install) path ?d"
    using tables
    by (elim exE) (rule demo_storable, rule demo_document_ok [where key = "demo_hash ''1''" and tag = "''v1''" and w = "''1.0.0''"],
      auto simp: demo_record_def demo_version_def)
qed

lemma demo_registers: "registers demo_update demo_candidate demo_next demo_next_package (demo_placed demo_ready)"
proof -
  have "managed_validate (ie_codec demo_install) ''dev.tool'' (Some (demo_placed demo_target))
      (placed demo_update demo_candidate demo_next demo_next_package (demo_placed demo_ready)) = Ok ()"
    unfolding demo_placed_record using demo_versions_valid demo_keys
    by (simp add: managed_validate_def manifest_parse_def managed_current_def
        MAX_HISTORY_def demo_source_def demo_placed_def demo_target_def path_is_absolute_def slash_def)
  then have "fst (register_managed (ie_codec demo_install) ''dev.tool'' (demo_placed demo_target)
      (placed demo_update demo_candidate demo_next demo_next_package (demo_placed demo_ready)) demo_candidate) = Ok ()"
    using demo_registration_placed
    by (simp add: register_managed_def validate_local_id_def demo_tool_id path_taken_def demo_candidate_fields)
  then show ?thesis
    by (simp add: registers_def demo_candidate_fields demo_moved)
qed

section \<open>Witnesses\<close>

lemma demo_tidy: "tidy (set [Refused ''full'', Crash])"
  by (simp add: tidy_def)

text \<open>A removal that stops halfway, in the middle of the update.\<close>

theorem update_never_loses_a_plugin_witness:
  "\<exists>x bs w. install_selection demo_install demo_candidate demo_previous ''dev.tool'' True
       [Go, Go, Torn ''io'', Crash] demo_disk_before = (x, bs, w)
     \<and> (entry_at demo_target w \<in> {Some (Package (demo_package ''v1'' demo_old_manifest)),
            Some (Package (upgraded (demo_package ''v1'' demo_old_manifest)))}
        \<or> (\<exists>j b. bt_get (iw_journals w) ''dev.tool'' = Some (Stored j) \<and> \<not> jn_committed j \<and> jn_backup j = Some b
             \<and> entry_at b w = Some (Package (upgraded (demo_package ''v1'' demo_old_manifest))))
        \<or> kept demo_update demo_candidate True w)"
proof -
  obtain x bs w where run: "install_selection demo_install demo_candidate demo_previous ''dev.tool'' True
       [Go, Go, Torn ''io'', Crash] demo_disk_before = (x, bs, w)" by (metis prod_cases3)
  with update_never_loses_a_plugin [OF demo_update_ok demo_previous_entries demo_candidate_staged demo_plain, of True
      "[Go, Go, Torn ''io'', Crash]" x bs w "demo_package ''v1'' demo_old_manifest"]
  show ?thesis by auto
qed

text \<open>
  The program dies in the middle of the update, a call of the next start is refused, the start
  after that dies, and the third start is undisturbed.
\<close>

theorem interrupted_update_is_all_or_nothing_witness:
  "\<exists>x bs w w1 y cs w'. install_selection demo_install demo_candidate demo_previous ''dev.tool'' True
       [Go, Go, Go, Go, Go, Go, Go, Go, Crash] demo_disk_before = (x, bs, w)
     \<and> starts demo_install ''/c/plugins.json'' ''dev.tool''
         [((demo_previous, []), [Go, Go, Go, Refused ''io'']), ((demo_previous, []), [Go, Go, Go, Go, Crash])] w = w1
     \<and> next_start demo_install ''/c/plugins.json'' ''dev.tool'' (demo_previous, []) [] w1 = (y, cs, w')
     \<and> ((\<exists>v. y = Val v) \<and> closed_old demo_update w' \<or> kept demo_update demo_candidate True w')"
proof -
  let ?as = "[Go, Go, Go, Go, Go, Go, Go, Go, Crash]"
  let ?later = "[((demo_previous, []), [Go, Go, Go, Refused ''io'']), ((demo_previous, []), [Go, Go, Go, Go, Crash])]"
  obtain x bs w where run: "install_selection demo_install demo_candidate demo_previous ''dev.tool'' True
       ?as demo_disk_before = (x, bs, w)" by (metis prod_cases3)
  obtain w1 where later: "starts demo_install ''/c/plugins.json'' ''dev.tool'' ?later w = w1" by simp
  obtain y cs w' where start: "next_start demo_install ''/c/plugins.json'' ''dev.tool'' (demo_previous, []) [] w1 = (y, cs, w')"
    by (metis prod_cases3)
  have "tidy (set ?as \<union> \<Union> (set ` snd ` set ?later))" by (simp add: tidy_def)
  with interrupted_update_is_all_or_nothing [OF demo_update_ok demo_previous_entries demo_candidate_staged demo_plain, of True
      "''/c/plugins.json''" ?as x bs w ?later w1 "(demo_previous, [])" y cs w'] run later start demo_documents_storable(3)
  have "(\<exists>v. y = Val v) \<and> closed_old demo_update w' \<or> kept demo_update demo_candidate True w'"
    by auto
  with run later start show ?thesis by blast
qed

theorem undisturbed_update_completes_witness:
  "\<exists>r w. install_selection demo_install demo_candidate demo_previous ''dev.tool'' True [] demo_disk_before = (Val r, [], w)
     \<and> entry_at demo_target w = Some (Package (upgraded demo_next_package)) \<and> iw_journals w = bt_empty"
  using undisturbed_update_completes [OF demo_update_ok demo_previous_entries demo_candidate_staged demo_plain _ demo_passes
      demo_registers demo_one_place, of True] demo_documents_storable
  by (auto simp: demo_candidate_fields)

text \<open>A second plugin on the disk.\<close>

definition demo_neighbour :: package_dir where
  "demo_neighbour = demo_package ''v1'' (demo_old_manifest\<lparr>pm_id := ''dev.other''\<rparr>)"

definition demo_two_plugins :: install_world where
  "demo_two_plugins = put_entry ''/c/packages/github/dev.other'' (Package demo_neighbour) demo_disk_before"

definition demo_second_update :: update where
  "demo_second_update = demo_update\<lparr>up_start := demo_two_plugins\<rparr>"

lemma demo_neighbour_place:
  "path_components ''/c/packages/github/dev.other'' = [RootDir, Normal ''c'', Normal ''packages'', Normal ''github'', Normal ''dev.other'']"
  by code_simp

lemma demo_second_fields [simp]:
  "up_env demo_second_update = demo_install" "up_id demo_second_update = ''dev.tool''" "up_start demo_second_update = demo_two_plugins"
  "up_before demo_second_update = Some (demo_package ''v1'' demo_old_manifest)" "iw_document demo_two_plugins = demo_managed_doc"
  by (simp_all add: demo_second_update_def demo_two_plugins_def)

lemma demo_second_entries:
  "entry_at q demo_two_plugins = (if path_components q = path_components ''/c/packages/github/dev.other'' then Some (Package demo_neighbour)
     else entry_at q demo_disk_before)"
  by (simp add: demo_two_plugins_def path_eq_def)

lemma demo_second_ok: "update_ok demo_second_update" "plain_update demo_second_update demo_candidate"
proof -
  have apart: "path_components demo_target \<noteq> path_components ''/c/packages/github/dev.other''"
    "path_components demo_ready \<noteq> path_components ''/c/packages/github/dev.other''"
    by (simp_all add: demo_components demo_neighbour_place)
  show "update_ok demo_second_update"
    using demo_update_ok apart
    by (simp add: update_ok_def demo_second_entries) (simp add: demo_two_plugins_def)
  show "plain_update demo_second_update demo_candidate"
    using demo_plain apart by (simp add: plain_update_def demo_second_entries demo_selected) blast
qed

theorem update_spares_other_plugins_witness:
  "\<exists>x bs w. install_selection demo_install demo_candidate demo_previous ''dev.tool'' True
       [Go, Go, Refused ''full''] demo_two_plugins = (x, bs, w)
     \<and> entry_at ''/c/packages/github/dev.other'' w = Some (Package demo_neighbour)"
proof -
  obtain x bs w where run: "install_selection demo_install demo_candidate demo_previous ''dev.tool'' True
       [Go, Go, Refused ''full''] demo_two_plugins = (x, bs, w)" by (metis prod_cases3)
  have place: "\<not> in_staging demo_install ''/c/packages/github/dev.other''" "\<not> path_eq ''/c/packages/github/dev.other'' demo_target"
    by (simp_all add: in_staging_def path_parent_def path_eq_def demo_neighbour_place demo_components)
  have neighbour: "entry_at ''/c/packages/github/dev.other'' demo_two_plugins = Some (Package demo_neighbour)"
    "pt_manifest (pg_tree demo_neighbour) = Ok (demo_old_manifest\<lparr>pm_id := ''dev.other''\<rparr>)"
    by (simp_all add: demo_second_entries demo_neighbour_def demo_package_def demo_tree_def)
  show ?thesis
    using update_spares_other_plugins [OF demo_second_ok(1) _ _ demo_second_ok(2), of demo_previous True
        "[Go, Go, Refused ''full'']" x bs w "''/c/packages/github/dev.other''" demo_neighbour
        "demo_old_manifest\<lparr>pm_id := ''dev.other''\<rparr>" "''dev.else''"]
      run place neighbour demo_previous_entries demo_candidate_staged
    by auto
qed

text \<open>A journal that names the other plugin's directory as its target.\<close>

definition demo_forged :: journal where
  "demo_forged = \<lparr>jn_schema = 1, jn_id = ''dev.tool'', jn_target = ''/c/packages/github/dev.other'',
     jn_staged = ''/c/packages/github/dev.other'', jn_ready = demo_ready, jn_backup = None, jn_source = demo_source ''v1'',
     jn_previous_registration = None, jn_previous_managed = None, jn_previous_enabled = False, jn_allowed = [],
     jn_committed = True\<rparr>"

theorem journal_recovery_confined_witness:
  "\<exists>x bs w'. recover_journal demo_install ''/c/plugins.json'' ''dev.tool'' (demo_previous, []) []
       (demo_two_plugins\<lparr>iw_journals := bt_insert ''dev.tool'' (Stored demo_forged) bt_empty\<rparr>) = (x, bs, w')
     \<and> entry_at ''/c/packages/github/dev.other'' w' = Some (Package demo_neighbour)"
proof -
  let ?w = "demo_two_plugins\<lparr>iw_journals := bt_insert ''dev.tool'' (Stored demo_forged) bt_empty\<rparr>"
  obtain x bs w' where run: "recover_journal demo_install ''/c/plugins.json'' ''dev.tool'' (demo_previous, []) [] ?w = (x, bs, w')"
    by (metis prod_cases3)
  have place: "\<not> in_staging demo_install ''/c/packages/github/dev.other''" "\<not> path_eq ''/c/packages/github/dev.other'' demo_target"
    by (simp_all add: in_staging_def path_parent_def path_eq_def demo_neighbour_place demo_components)
  have neighbour: "entry_at ''/c/packages/github/dev.other'' ?w = Some (Package demo_neighbour)"
    "pt_manifest (pg_tree demo_neighbour) = Ok (demo_old_manifest\<lparr>pm_id := ''dev.other''\<rparr>)"
    by (simp_all add: demo_second_entries demo_neighbour_def demo_package_def demo_tree_def)
  have "entry_at ''/c/packages/github/dev.other'' w' = Some (Package demo_neighbour)"
    by (rule journal_recovery_confined [OF run neighbour]) (use place in simp_all)
  with run show ?thesis by blast
qed

theorem changed_registration_is_left_alone_witness:
  "registration_digest demo_install (snapshot ''/c/plugins.json'' demo_managed_doc) ''dev.tool'' \<notin> set (jn_allowed demo_forged)
   \<and> (case commit demo_install \<lparr>in_registry_path = ''/c/plugins.json'', in_stem = ''dev.tool'', in_journal = demo_forged\<rparr>
        [] demo_disk_before of (x, bs, w') \<Rightarrow> w' = demo_disk_before \<and> (\<forall>r. x \<noteq> Val r))"
  using changed_registration_is_left_alone [of demo_install
      "\<lparr>in_registry_path = ''/c/plugins.json'', in_stem = ''dev.tool'', in_journal = demo_forged\<rparr>" demo_disk_before "[]"]
  by (simp add: demo_forged_def)

end
