(* ===== verification/Archive.thy ===== *)
theory Archive
  imports Github_Links "HOL-Library.Product_Lexorder"
begin

unbundle bit_operations_syntax

text \<open>
  Package archives (\<open>src/src/github_distribution/archive.rs\<close>): the check of a ZIP file before
  anything is written, and its extraction into a new directory.

  The decoder of the \<open>zip\<close> crate is an argument (\<open>zip_reader\<close>), and so is what the operating
  system answers to each call of the extraction. The directory is a map from the parts of the
  relative names to what is there.
\<close>

section \<open>Names\<close>

definition MAX_EXTRACTED_BYTES :: u64 where
  "MAX_EXTRACTED_BYTES = 67108864"

definition MAX_PACKAGE_FILES :: nat where
  "MAX_PACKAGE_FILES = 2048"

definition RECEIPT :: string where
  "RECEIPT = ''.codlet-source.json''"

definition zip_invalid :: string where
  "zip_invalid = ''github_zip_invalid''"

definition zip_limit :: string where
  "zip_limit = ''github_zip_limit''"

definition ascii_uppercase :: "string \<Rightarrow> string" where
  "ascii_uppercase = map (\<lambda>c. if ascii_lower c then char_of (byte c - 32) else c)"

text \<open>The name Windows resolves a part to, without its extension.\<close>

definition part_base :: "string \<Rightarrow> string" where
  "part_base part =
     ascii_uppercase (rev (dropWhile (\<lambda>c. c = CHR '' '') (rev (hd (split_on CHR ''.'' part)))))"

definition device_part :: "string \<Rightarrow> bool" where
  "device_part part =
     (let base = part_base part in
      base = ''CON'' \<or> base = ''PRN'' \<or> base = ''AUX'' \<or> base = ''NUL'' \<or> base = ''CONIN$'' \<or> base = ''CONOUT$''
      \<or> (starts_with ''COM'' base \<or> starts_with ''LPT'' base) \<and> length base = 4 \<and> ascii_digit (base ! 3))"

definition portable_byte :: "char \<Rightarrow> bool" where
  "portable_byte b = (ascii_alnum b \<or> b \<in> set ''._-@+ '')"

definition valid_part :: "string \<Rightarrow> bool" where
  "valid_part part =
     (\<not> dot_segment part
      \<and> \<not> ends_with ''.'' part \<and> \<not> ends_with '' '' part \<and> \<not> starts_with '' '' part
      \<and> list_all portable_byte part
      \<and> \<not> device_part part \<and> \<not> eq_ignore_case part RECEIPT)"

definition validate_name :: "string \<Rightarrow> unit github_result" where
  "validate_name name =
     (if name = [] \<or> 240 < length name \<or> \<not> is_ascii name \<or> 16 < length (split_on slash name)
        \<or> \<not> list_all valid_part (split_on slash name)
      then Err zip_invalid else Ok ())"

section \<open>Reading numbers\<close>

type_synonym u16 = "16 word"

definition bytes_at :: "string \<Rightarrow> nat \<Rightarrow> nat \<Rightarrow> string github_result" where
  "bytes_at bytes offset len =
     (if offset + len \<le> length bytes then Ok (take len (drop offset bytes)) else Err zip_invalid)"

definition le_value :: "string \<Rightarrow> int" where
  "le_value s = foldr (\<lambda>c n. of_char c + 256 * n) s 0"

definition word_at :: "string \<Rightarrow> nat \<Rightarrow> u16 github_result" where
  "word_at bytes offset = and_then (bytes_at bytes offset 2) (\<lambda>s. Ok (word_of_int (le_value s)))"

definition dword_at :: "string \<Rightarrow> nat \<Rightarrow> u32 github_result" where
  "dword_at bytes offset = and_then (bytes_at bytes offset 4) (\<lambda>s. Ok (word_of_int (le_value s)))"

text \<open>One extra field: its kind and its length.\<close>

definition extra_at :: "string \<Rightarrow> nat \<Rightarrow> (u16 \<times> nat) github_result" where
  "extra_at bytes offset =
     and_then (word_at bytes offset) (\<lambda>kind.
     and_then (word_at bytes (offset + 2)) (\<lambda>len.
     and_then (bytes_at bytes (offset + 4) (unat len)) (\<lambda>_.
     Ok (kind, unat len))))"

function check_extra_from :: "string \<Rightarrow> nat \<Rightarrow> unit github_result" where
  "check_extra_from bytes offset =
     (if length bytes \<le> offset then Ok ()
      else case extra_at bytes offset of
        Err e \<Rightarrow> Err e
      | Panic \<Rightarrow> Panic
      | Ok (kind, len) \<Rightarrow>
          if kind = 1 then Err zip_invalid else check_extra_from bytes (offset + 4 + len))"
  by auto
termination
  by (relation "measure (\<lambda>(bytes, offset). length bytes - offset)") auto

declare check_extra_from.simps [simp del]

definition check_extra :: "string \<Rightarrow> unit github_result" where
  "check_extra bytes = check_extra_from bytes 0"

section \<open>The central directory\<close>

text \<open>The entries of the result: \<open>ze_local_offset\<close> and \<open>ze_data_end\<close> delimit its bytes.\<close>

record zip_entry =
  ze_name :: string
  ze_size :: u64
  ze_compressed :: u64
  ze_local_offset :: nat
  ze_data_end :: nat
  ze_directory :: bool

record zip_header =
  zh_flags :: u16
  zh_method :: u16
  zh_crc :: u32
  zh_compressed :: nat
  zh_size :: u64
  zh_name_len :: nat
  zh_extra_len :: nat
  zh_comment_len :: nat
  zh_attributes :: u32
  zh_local_offset :: nat

definition is_end_record :: "string \<Rightarrow> nat \<Rightarrow> bool" where
  "is_end_record bytes i =
     (bytes_at bytes i 4 = Ok (''PK'' @ [CHR 0x05, CHR 0x06])
      \<and> (case word_at bytes (i + 20) of Ok n \<Rightarrow> i + 22 + unat n = length bytes | _ \<Rightarrow> False))"

definition find_end :: "string \<Rightarrow> nat option" where
  "find_end bytes =
     find (is_end_record bytes) (rev [nat (int (length bytes) - 65557) ..< length bytes - 21])"

text \<open>The number of entries and where the central directory starts.\<close>

definition read_end :: "string \<Rightarrow> nat \<Rightarrow> (nat \<times> nat) github_result" where
  "read_end bytes end_record =
     and_then (word_at bytes (end_record + 10)) (\<lambda>count.
     and_then (dword_at bytes (end_record + 12)) (\<lambda>central_size.
     and_then (dword_at bytes (end_record + 16)) (\<lambda>central_start.
     and_then (word_at bytes (end_record + 4)) (\<lambda>disk.
     if disk \<noteq> 0 then Err zip_invalid
     else and_then (word_at bytes (end_record + 6)) (\<lambda>central_disk.
     if central_disk \<noteq> 0 then Err zip_invalid
     else and_then (word_at bytes (end_record + 8)) (\<lambda>here.
     if unat here \<noteq> unat count \<or> count = 0 \<or> MAX_PACKAGE_FILES < unat count
       \<or> unat central_start + unat central_size \<noteq> end_record
     then Err zip_invalid
     else Ok (unat count, unat central_start)))))))"

definition read_header :: "string \<Rightarrow> nat \<Rightarrow> zip_header github_result" where
  "read_header bytes cursor =
     and_then (dword_at bytes cursor) (\<lambda>signature.
     if signature \<noteq> 0x02014b50 then Err zip_invalid
     else and_then (word_at bytes (cursor + 8)) (\<lambda>flags.
     and_then (word_at bytes (cursor + 10)) (\<lambda>method.
     and_then (dword_at bytes (cursor + 16)) (\<lambda>crc.
     and_then (dword_at bytes (cursor + 20)) (\<lambda>compressed.
     and_then (dword_at bytes (cursor + 24)) (\<lambda>size.
     and_then (word_at bytes (cursor + 28)) (\<lambda>name_len.
     and_then (word_at bytes (cursor + 30)) (\<lambda>extra_len.
     and_then (word_at bytes (cursor + 32)) (\<lambda>comment_len.
     and_then (dword_at bytes (cursor + 38)) (\<lambda>attributes.
     and_then (dword_at bytes (cursor + 42)) (\<lambda>local_offset.
     if flags AND NOT 0x080e \<noteq> 0 \<or> (method \<noteq> 0 \<and> method \<noteq> 8) \<or> (method = 0 \<and> flags AND 6 \<noteq> 0)
     then Err zip_invalid
     else and_then (word_at bytes (cursor + 34)) (\<lambda>disk.
     if disk \<noteq> 0 \<or> attributes AND 0x400 \<noteq> 0 then Err zip_invalid
     else Ok \<lparr>zh_flags = flags, zh_method = method, zh_crc = crc, zh_compressed = unat compressed,
       zh_size = ucast size, zh_name_len = unat name_len, zh_extra_len = unat extra_len,
       zh_comment_len = unat comment_len, zh_attributes = attributes,
       zh_local_offset = unat local_offset\<rparr>))))))))))))"

text \<open>The name in the header, and whether it is the name of a directory.\<close>

definition read_name :: "string \<Rightarrow> nat \<Rightarrow> zip_header \<Rightarrow> string github_result" where
  "read_name bytes cursor h =
     and_then (bytes_at bytes (cursor + 46) (zh_name_len h)) (\<lambda>raw.
     if \<not> valid_utf8 raw then Err zip_invalid else Ok raw)"

definition names_directory :: "string \<Rightarrow> bool" where
  "names_directory full = ends_with [slash] full"

definition entry_name :: "string \<Rightarrow> string" where
  "entry_name full = (case strip_suffix [slash] full of None \<Rightarrow> full | Some name \<Rightarrow> name)"

definition valid_kind :: "zip_header \<Rightarrow> bool \<Rightarrow> bool" where
  "valid_kind h directory =
     (let kind = drop_bit 16 (zh_attributes h) AND 0xf000 in
      (kind = 0 \<or> kind = 0x4000 \<or> kind = 0x8000)
      \<and> \<not> (kind = 0x4000 \<and> \<not> directory) \<and> \<not> (kind = 0x8000 \<and> directory)
      \<and> \<not> (directory \<and> (zh_size h \<noteq> 0 \<or> zh_compressed h \<noteq> 0)))"

section \<open>The tree of names\<close>

type_synonym zip_nodes = "(string, string \<times> bool) btree"

fun join_parts :: "string list \<Rightarrow> string" where
  "join_parts [] = []"
| "join_parts [p] = p"
| "join_parts (p # ps) = p @ slash # join_parts ps"

definition add_node :: "string \<Rightarrow> bool \<Rightarrow> zip_nodes \<Rightarrow> zip_nodes github_result" where
  "add_node path is_directory nodes =
     (case bt_get nodes (ascii_lowercase path) of
        Some (spelling, was_directory) \<Rightarrow>
          if spelling \<noteq> path \<or> was_directory \<noteq> is_directory then Err zip_invalid else Ok nodes
      | None \<Rightarrow> Ok (bt_insert (ascii_lowercase path) (path, is_directory) nodes))"

fun add_nodes :: "(string \<times> bool) list \<Rightarrow> zip_nodes \<Rightarrow> zip_nodes github_result" where
  "add_nodes [] nodes = Ok nodes"
| "add_nodes ((path, d) # ps) nodes = and_then (add_node path d nodes) (add_nodes ps)"

definition prefixes_of :: "string \<Rightarrow> bool \<Rightarrow> (string \<times> bool) list" where
  "prefixes_of name directory =
     (let parts = split_on slash name in
      map (\<lambda>i. (join_parts (take i parts), i < length parts \<or> directory)) [1..<Suc (length parts)])"

section \<open>The local header\<close>

definition same_header :: "string \<Rightarrow> zip_header \<Rightarrow> unit github_result" where
  "same_header bytes h =
     (let at = zh_local_offset h in
      and_then (dword_at bytes at) (\<lambda>signature.
      if signature \<noteq> 0x04034b50 then Err zip_invalid
      else and_then (word_at bytes (at + 6)) (\<lambda>flags.
      if flags \<noteq> zh_flags h then Err zip_invalid
      else and_then (word_at bytes (at + 8)) (\<lambda>method.
      if method \<noteq> zh_method h then Err zip_invalid
      else and_then (word_at bytes (at + 26)) (\<lambda>name_len.
      if unat name_len \<noteq> zh_name_len h then Err zip_invalid else Ok ())))))"

text \<open>The sizes and the checksum at an offset: all of them, or those that are not zero.\<close>

definition same_sizes :: "string \<Rightarrow> nat \<Rightarrow> bool \<Rightarrow> zip_header \<Rightarrow> unit github_result" where
  "same_sizes bytes at zero_allowed h =
     (let matches = (\<lambda>actual expected. actual = expected \<or> (zero_allowed \<and> actual = 0)) in
      and_then (dword_at bytes at) (\<lambda>crc.
      if \<not> matches crc (zh_crc h) then Err zip_invalid
      else and_then (dword_at bytes (at + 4)) (\<lambda>compressed.
      if \<not> matches compressed (of_nat (zh_compressed h)) then Err zip_invalid
      else and_then (dword_at bytes (at + 8)) (\<lambda>plain.
      if \<not> matches plain (ucast (zh_size h)) then Err zip_invalid else Ok ()))))"

text \<open>Where the data of the entry, or the descriptor after it, ends.\<close>

definition data_end_of :: "string \<Rightarrow> zip_header \<Rightarrow> nat \<Rightarrow> nat github_result" where
  "data_end_of bytes h extra_len =
     (let data_end = zh_local_offset h + (30 + zh_name_len h + extra_len) + zh_compressed h in
      if zh_flags h AND 8 = 0
      then and_then (same_sizes bytes (zh_local_offset h + 14) False h) (\<lambda>_. Ok data_end)
      else and_then (same_sizes bytes (zh_local_offset h + 14) True h) (\<lambda>_.
           and_then (dword_at bytes data_end) (\<lambda>signature.
           let data_end = (if signature = 0x08074b50 then data_end + 4 else data_end) in
           and_then (same_sizes bytes data_end False h) (\<lambda>_.
           Ok (data_end + 12)))))"

definition check_local :: "string \<Rightarrow> nat \<Rightarrow> zip_header \<Rightarrow> string \<Rightarrow> nat github_result" where
  "check_local bytes central_start h raw_name =
     (let at = zh_local_offset h in
      and_then (same_header bytes h) (\<lambda>_.
      and_then (word_at bytes (at + 28)) (\<lambda>extra_len.
      and_then (bytes_at bytes (at + 30) (zh_name_len h)) (\<lambda>local_name.
      if local_name \<noteq> raw_name then Err zip_invalid
      else and_then (bytes_at bytes (at + 30 + zh_name_len h) (unat extra_len)) (\<lambda>extra.
      and_then (check_extra extra) (\<lambda>_.
      and_then (data_end_of bytes h (unat extra_len)) (\<lambda>data_end.
      if central_start < data_end then Err zip_invalid else Ok data_end)))))))"

section \<open>The check of a whole archive\<close>

text \<open>What the loop over the central directory carries.\<close>

record zip_scan =
  zs_cursor :: nat
  zs_entries :: "zip_entry list"
  zs_nodes :: zip_nodes
  zs_explicit :: "string bset"
  zs_total :: u64

definition checked_add_word :: "'w::len word \<Rightarrow> 'w word \<Rightarrow> 'w word option" where
  "checked_add_word x y = (if uint x + uint y < 2 ^ LENGTH('w) then Some (x + y) else None)"

text \<open>The name of an entry is added to the names seen so far.\<close>

definition add_name :: "string \<Rightarrow> bool \<Rightarrow> zip_scan \<Rightarrow> zip_scan github_result" where
  "add_name name directory s =
     (if bt_has (zs_explicit s) (ascii_lowercase name) then Err zip_invalid
      else and_then (add_nodes (prefixes_of name directory) (zs_nodes s)) (\<lambda>nodes.
      if MAX_PACKAGE_FILES < bt_len nodes then Err zip_invalid
      else Ok (s\<lparr>zs_explicit := bt_insert (ascii_lowercase name) () (zs_explicit s), zs_nodes := nodes\<rparr>)))"

definition add_size :: "u64 \<Rightarrow> zip_scan \<Rightarrow> zip_scan github_result" where
  "add_size amount s =
     (case checked_add_word (zs_total s) amount of
        None \<Rightarrow> Err zip_invalid
      | Some grown_to \<Rightarrow>
          if MAX_EXTRACTED_BYTES < grown_to then Err zip_limit else Ok (s\<lparr>zs_total := grown_to\<rparr>))"

definition scan_entry :: "string \<Rightarrow> nat \<Rightarrow> nat \<Rightarrow> zip_scan \<Rightarrow> zip_scan github_result" where
  "scan_entry bytes end_record central_start s =
     (let cursor = zs_cursor s in
      and_then (read_header bytes cursor) (\<lambda>h.
      and_then (read_name bytes cursor h) (\<lambda>full.
      let directory = names_directory full; name = entry_name full in
      and_then (validate_name name) (\<lambda>_.
      if \<not> valid_kind h directory then Err zip_invalid
      else and_then (add_name name directory s) (\<lambda>s.
      and_then (add_size (zh_size h) s) (\<lambda>s.
      and_then (bytes_at bytes (cursor + 46 + zh_name_len h) (zh_extra_len h)) (\<lambda>extra.
      and_then (check_extra extra) (\<lambda>_.
      let cursor = cursor + (46 + zh_name_len h + zh_extra_len h + zh_comment_len h) in
      if end_record < cursor then Err zip_invalid
      else and_then (check_local bytes central_start h full) (\<lambda>data_end.
      Ok (s\<lparr>zs_cursor := cursor, zs_entries := zs_entries s @ [\<lparr>ze_name = full, ze_size = zh_size h,
        ze_compressed = of_nat (zh_compressed h), ze_local_offset = zh_local_offset h,
        ze_data_end = data_end, ze_directory = directory\<rparr>]\<rparr>))))))))))"

fun scan_entries :: "string \<Rightarrow> nat \<Rightarrow> nat \<Rightarrow> nat \<Rightarrow> zip_scan \<Rightarrow> zip_scan github_result" where
  "scan_entries bytes end_record central_start 0 s = Ok s"
| "scan_entries bytes end_record central_start (Suc n) s =
     and_then (scan_entry bytes end_record central_start s) (scan_entries bytes end_record central_start n)"

text \<open>The ranges of the entries, one after the other from the start.\<close>

fun tile_ranges :: "(nat \<times> nat) list \<Rightarrow> nat \<Rightarrow> nat github_result" where
  "tile_ranges [] at = Ok at"
| "tile_ranges ((start, stop) # ranges) at =
     (if start \<noteq> at then Err zip_invalid else tile_ranges ranges stop)"

definition entry_range :: "zip_entry \<Rightarrow> nat \<times> nat" where
  "entry_range e = (ze_local_offset e, ze_data_end e)"

definition preflight :: "string \<Rightarrow> zip_entry list github_result" where
  "preflight bytes =
     (if length bytes < 22 \<or> uint MAX_ARCHIVE_BYTES < int (length bytes) then Err zip_invalid
      else case find_end bytes of
        None \<Rightarrow> Err zip_invalid
      | Some end_record \<Rightarrow>
          and_then (read_end bytes end_record) (\<lambda>(count, central_start).
          and_then (scan_entries bytes end_record central_start count
            \<lparr>zs_cursor = central_start, zs_entries = [], zs_nodes = bt_empty, zs_explicit = bt_empty,
              zs_total = 0\<rparr>) (\<lambda>s.
          if zs_cursor s \<noteq> end_record then Err zip_invalid
          else and_then (tile_ranges (sort (map entry_range (zs_entries s))) 0) (\<lambda>covered.
          if covered \<noteq> central_start then Err zip_invalid
          else if \<not> list_ex (\<lambda>e. ze_name e = ''codlet.json'' \<and> \<not> ze_directory e) (zs_entries s)
          then Err ''github_package_manifest_missing''
          else Ok (zs_entries s)))))"

section \<open>Extraction\<close>

text \<open>
  What the decoder gives for one entry. The reads give the contents chunk by chunk, the empty
  list of reads that are left is the end of the file.
\<close>

record zip_file =
  zf_name_raw :: string
  zf_name :: string
  zf_size :: u64
  zf_compressed :: u64
  zf_symlink :: bool
  zf_encrypted :: bool
  zf_reads :: "(string, string) outcome list"

record zip_archive =
  za_len :: nat
  za_offset :: u64
  za_overlapping :: "(string, bool) outcome"
  za_by_index :: "nat \<Rightarrow> (string, zip_file) outcome"

type_synonym zip_reader = "string \<Rightarrow> (string, zip_archive) outcome"

text \<open>The new directory, by the parts of the relative names.\<close>

datatype tree_node = Folder | Content string

type_synonym file_tree = "(string list, tree_node) btree"

text \<open>
  The calls of the operating system succeed or are refused, in the order of the list; no answer
  left means success. A refused call changed nothing, but a refused write may have written a part
  of its bytes first: the answer says how many.
\<close>

type_synonym 'a writer = "nat option list \<Rightarrow> file_tree \<Rightarrow> 'a github_result \<times> nat option list \<times> file_tree"

definition w_return :: "'a github_result \<Rightarrow> 'a writer" where
  "w_return r = (\<lambda>as t. (r, as, t))"

definition w_then :: "'a writer \<Rightarrow> ('a \<Rightarrow> 'b writer) \<Rightarrow> 'b writer" where
  "w_then m f = (\<lambda>as t. case m as t of
     (Ok x, as, t) \<Rightarrow> f x as t
   | (Err e, as, t) \<Rightarrow> (Err e, as, t)
   | (Panic, as, t) \<Rightarrow> (Panic, as, t))"

definition w_call :: "(file_tree \<Rightarrow> (string, file_tree) outcome) \<Rightarrow> unit writer" where
  "w_call f = (\<lambda>as t. case as of
     Some _ # as \<Rightarrow> (Err ''github_package_io'', as, t)
   | _ \<Rightarrow> (case f t of
       Ok t' \<Rightarrow> (Ok (), drop 1 as, t') | Err e \<Rightarrow> (Err e, drop 1 as, t) | Panic \<Rightarrow> (Panic, drop 1 as, t)))"

text \<open>\<open>create_dir_all\<close>: the directories from the outermost on, those that exist are kept.\<close>

definition make_folder :: "string list \<Rightarrow> file_tree \<Rightarrow> (string, file_tree) outcome" where
  "make_folder parts t =
     (case bt_get t parts of
        None \<Rightarrow> Ok (bt_insert parts Folder t)
      | Some Folder \<Rightarrow> Ok t
      | Some (Content _) \<Rightarrow> Err ''github_package_io'')"

fun make_folders :: "string list \<Rightarrow> string list \<Rightarrow> unit writer" where
  "make_folders done_parts [] = w_return (Ok ())"
| "make_folders done_parts (p # ps) =
     w_then (w_call (make_folder (done_parts @ [p]))) (\<lambda>_. make_folders (done_parts @ [p]) ps)"

text \<open>\<open>create_new\<close> and \<open>write_all\<close>.\<close>

definition make_file :: "string list \<Rightarrow> file_tree \<Rightarrow> (string, file_tree) outcome" where
  "make_file parts t =
     (if bt_has t parts then Err ''github_package_io'' else Ok (bt_insert parts (Content []) t))"

definition append_file :: "string list \<Rightarrow> string \<Rightarrow> file_tree \<Rightarrow> (string, file_tree) outcome" where
  "append_file parts chunk t =
     (case bt_get t parts of
        Some (Content s) \<Rightarrow> Ok (bt_insert parts (Content (s @ chunk)) t)
      | _ \<Rightarrow> Err ''github_package_io'')"

definition w_write :: "string list \<Rightarrow> string \<Rightarrow> unit writer" where
  "w_write parts chunk = (\<lambda>as t. case as of
     Some n # as \<Rightarrow> (Err ''github_package_io'', as,
       case append_file parts (take n chunk) t of Ok t' \<Rightarrow> t' | _ \<Rightarrow> t)
   | _ \<Rightarrow> w_call (append_file parts chunk) as t)"

text \<open>The loop that copies one file; the counters are of this file and of the archive.\<close>

fun copy_reads ::
    "string list \<Rightarrow> u64 \<Rightarrow> (string, string) outcome list \<Rightarrow> nat \<Rightarrow> nat \<Rightarrow> (nat \<times> nat) writer" where
  "copy_reads parts expected [] actual written = w_return (Ok (actual, written))"
| "copy_reads parts expected (r # rs) actual written =
     w_then (w_return (map_err (\<lambda>_. zip_invalid) r)) (\<lambda>chunk.
     if chunk = [] then w_return (Ok (actual, written))
     else let actual = actual + length chunk; written = written + length chunk in
       if uint expected < int actual \<or> uint MAX_EXTRACTED_BYTES < int written then w_return (Err zip_limit)
       else w_then (w_write parts chunk) (\<lambda>_.
            copy_reads parts expected rs actual written))"

definition agrees :: "zip_file \<Rightarrow> zip_entry \<Rightarrow> bool" where
  "agrees f e =
     (zf_name_raw f = ze_name e \<and> zf_name f = ze_name e \<and> zf_size f = ze_size e
      \<and> zf_compressed f = ze_compressed e \<and> \<not> zf_symlink f \<and> \<not> zf_encrypted f)"

definition entry_parts :: "zip_entry \<Rightarrow> string list" where
  "entry_parts e = split_on slash (trim_end_slashes (ze_name e))"

definition extract_entry :: "zip_archive \<Rightarrow> nat \<Rightarrow> zip_entry \<Rightarrow> nat \<Rightarrow> nat writer" where
  "extract_entry a index e written =
     w_then (w_return (map_err (\<lambda>_. zip_invalid) (za_by_index a index))) (\<lambda>f.
     if \<not> agrees f e then w_return (Err zip_invalid)
     else let parts = entry_parts e in
       if ze_directory e then w_then (make_folders [] parts) (\<lambda>_. w_return (Ok written))
       else w_then (make_folders [] (butlast parts)) (\<lambda>_.
            w_then (w_call (make_file parts)) (\<lambda>_.
            w_then (copy_reads parts (ze_size e) (zf_reads f) 0 written) (\<lambda>(actual, written).
            if int actual \<noteq> uint (ze_size e) then w_return (Err zip_invalid)
            else w_then (w_call Ok) (\<lambda>_. w_return (Ok written))))))"

fun extract_entries :: "zip_archive \<Rightarrow> nat \<Rightarrow> zip_entry list \<Rightarrow> nat \<Rightarrow> unit writer" where
  "extract_entries a index [] written = w_return (Ok ())"
| "extract_entries a index (e # es) written =
     w_then (extract_entry a index e written) (extract_entries a (Suc index) es)"

definition extract_archive :: "zip_reader \<Rightarrow> string \<Rightarrow> unit writer" where
  "extract_archive z bytes =
     w_then (w_return (preflight bytes)) (\<lambda>entries.
     w_then (w_return (map_err (\<lambda>_. zip_invalid) (z bytes))) (\<lambda>a.
     if za_len a \<noteq> length entries \<or> za_offset a \<noteq> 0 then w_return (Err zip_invalid)
     else w_then (w_return (map_err (\<lambda>_. zip_invalid) (za_overlapping a))) (\<lambda>overlapping.
       if overlapping then w_return (Err zip_invalid)
       else extract_entries a 0 entries 0)))"

end
