(* ===== verification/Archive_Names.thy ===== *)
theory Archive_Names
  imports Archive
begin

text \<open>
  The names of an accepted archive: what a checked name can be, the directories it needs, and the
  table in which no two names meet that some file system takes for one.
\<close>

section \<open>Splitting and joining\<close>

lemma join_parts_Cons: "ps \<noteq> [] \<Longrightarrow> join_parts (p # ps) = p @ slash # join_parts ps"
  by (cases ps) auto

lemma split_join:
  assumes "ps \<noteq> []" "\<forall>p\<in>set ps. slash \<notin> set p"
  shows "split_on slash (join_parts ps) = ps"
  using assms
proof (induction ps)
  case (Cons p ps)
  then show ?case
    by (cases "ps = []") (simp_all add: split_on_single join_parts_Cons split_on_append)
qed simp

lemma join_split: "join_parts (split_on slash s) = s"
proof (induction s)
  case (Cons c s)
  obtain w ws where w: "split_on slash s = w # ws" using split_on_nonempty by (metis neq_Nil_conv)
  show ?case
  proof (cases "c = slash")
    case True
    then show ?thesis using Cons by (simp add: w join_parts_Cons)
  next
    case False
    then show ?thesis using Cons by (cases ws) (simp_all add: w)
  qed
qed simp

section \<open>Checked names\<close>

lemma validate_name_iff:
  "validate_name name = Ok () \<longleftrightarrow>
     name \<noteq> [] \<and> length name \<le> 240 \<and> is_ascii name \<and> length (split_on slash name) \<le> 16
     \<and> (\<forall>p\<in>set (split_on slash name). valid_part p)"
  by (auto simp: validate_name_def list_all_iff)

lemma valid_part_nonempty: "valid_part p \<Longrightarrow> p \<noteq> [] \<and> p \<noteq> ''.'' \<and> p \<noteq> ''..''"
  by (simp add: valid_part_def dot_segment_def)

lemma valid_name_below: "validate_name name = Ok () \<Longrightarrow> stays_below name"
  by (rule stays_belowI) (auto simp: validate_name_iff dest: valid_part_nonempty)

lemma valid_name_no_end:
  assumes "validate_name name = Ok ()"
  shows "last name \<noteq> slash"
proof
  assume slash: "last name = slash"
  have "name \<noteq> []" using assms by (simp add: validate_name_iff)
  then have "name = butlast name @ slash # []" using slash append_butlast_last_id by force
  then have "split_on slash name = split_on slash (butlast name) @ [[]]"
    using split_on_append [of slash "butlast name" "[]"] by simp
  then show False using assms valid_part_nonempty by (auto simp: validate_name_iff)
qed

text \<open>The parts the extraction uses are those of the checked name.\<close>

lemma entry_name_cases:
  obtains "names_directory full" "full = entry_name full @ [slash]" | "\<not> names_directory full" "entry_name full = full"
proof (cases "strip_suffix [slash] full")
  case None
  then show ?thesis using that(2) by (simp add: names_directory_def ends_with_def entry_name_def)
next
  case (Some n)
  then show ?thesis
    using that(1) strip_suffix_SomeD [OF Some] by (simp add: names_directory_def ends_with_def entry_name_def)
qed

lemma trim_end_entry:
  assumes "validate_name (entry_name full) = Ok ()"
  shows "trim_end_slashes full = entry_name full"
proof -
  obtain n where n: "entry_name full = n" by simp
  have "n \<noteq> []" "last n \<noteq> slash" using assms valid_name_no_end by (auto simp: n validate_name_iff)
  then have "dropWhile (\<lambda>c. c = slash) (rev n) = rev n" by (simp add: dropWhile_eq_self_iff hd_rev)
  then have "trim_end_slashes n = n" "trim_end_slashes (n @ [slash]) = n" by (simp_all add: trim_end_slashes_def)
  moreover have "full = n \<or> full = n @ [slash]" by (cases full rule: entry_name_cases) (simp_all add: n)
  ultimately show ?thesis by (auto simp: n)
qed

section \<open>The directories of a name\<close>

definition name_prefix :: "string \<Rightarrow> bool \<Rightarrow> string list \<Rightarrow> bool \<Rightarrow> bool" where
  "name_prefix name directory parts d \<longleftrightarrow>
     (\<exists>i. 0 < i \<and> i \<le> length (split_on slash name) \<and> parts = take i (split_on slash name)
        \<and> d = (i < length (split_on slash name) \<or> directory))"

lemma prefixes_name_prefix:
  "(path, d) \<in> set (prefixes_of name directory) \<longleftrightarrow>
     (\<exists>parts. name_prefix name directory parts d \<and> path = join_parts parts)"
proof -
  let ?ps = "split_on slash name"
  have "(path, d) \<in> set (prefixes_of name directory) \<longleftrightarrow>
      (\<exists>i. 0 < i \<and> i \<le> length ?ps \<and> path = join_parts (take i ?ps) \<and> d = (i < length ?ps \<or> directory))"
    by (auto simp: prefixes_of_def Let_def image_iff Bex_def Suc_le_eq less_Suc_eq_le simp del: upt_Suc)
  then show ?thesis unfolding name_prefix_def by blast
qed

lemma name_prefix_parts:
  assumes "name_prefix name directory parts d"
  shows "parts \<noteq> []" "set parts \<subseteq> set (split_on slash name)" "split_on slash (join_parts parts) = parts"
proof -
  obtain i where i: "0 < i" "parts = take i (split_on slash name)" using assms by (auto simp: name_prefix_def)
  show ne: "parts \<noteq> []" using i split_on_nonempty [of slash name] by auto
  show sub: "set parts \<subseteq> set (split_on slash name)" using i set_take_subset by metis
  show "split_on slash (join_parts parts) = parts"
    using ne sub split_on_no_sep by (intro split_join) blast+
qed

lemma name_prefix_whole: "name_prefix name directory (split_on slash name) directory"
  unfolding name_prefix_def using split_on_nonempty [of slash name]
  by (intro exI [of _ "length (split_on slash name)"]) simp

section \<open>The table of names\<close>

lemma lowercase_append: "ascii_lowercase (a @ b) = ascii_lowercase a @ ascii_lowercase b"
  by (simp add: ascii_lowercase_def)

definition nodes_ok :: "zip_nodes \<Rightarrow> bool" where
  "nodes_ok nodes \<longleftrightarrow> (\<forall>k p d. bt_get nodes k = Some (p, d) \<longrightarrow> k = ascii_lowercase p)"

definition in_nodes :: "zip_nodes \<Rightarrow> string \<times> bool \<Rightarrow> bool" where
  "in_nodes nodes pd \<longleftrightarrow> bt_get nodes (ascii_lowercase (fst pd)) = Some pd"

lemma add_node_ok:
  assumes "add_node path d nodes = Ok nodes'"
  shows "in_nodes nodes' (path, d)" "in_nodes nodes pd \<Longrightarrow> in_nodes nodes' pd" "nodes_ok nodes \<Longrightarrow> nodes_ok nodes'"
  using assms by (auto simp: add_node_def in_nodes_def nodes_ok_def split: option.splits if_splits prod.splits)

lemma add_nodes_ok:
  assumes "add_nodes pds nodes = Ok nodes'"
  shows "(\<forall>pd\<in>set pds. in_nodes nodes' pd) \<and> (\<forall>pd. in_nodes nodes pd \<longrightarrow> in_nodes nodes' pd)
    \<and> (nodes_ok nodes \<longrightarrow> nodes_ok nodes')"
  using assms
proof (induction pds nodes rule: add_nodes.induct)
  case (2 path d ps nodes)
  then obtain mid where mid: "add_node path d nodes = Ok mid" "add_nodes ps mid = Ok nodes'"
    by (auto simp: and_then_ok)
  show ?case using 2(1) [OF mid(2)] add_node_ok [OF mid(1)] by auto
qed simp

lemma in_nodes_unique:
  "in_nodes nodes (p, d) \<Longrightarrow> in_nodes nodes (q, e) \<Longrightarrow> ascii_lowercase p = ascii_lowercase q \<Longrightarrow> p = q \<and> d = e"
  by (simp add: in_nodes_def)

end
