(* ===== verification/Archive_Checks.thy ===== *)
theory Archive_Checks
  imports Archive_Names "HOL-Library.Multiset"
begin

text \<open>
  What the check of an archive guarantees of the entries it returns: their names, their sizes and
  the bytes they occupy.
\<close>

lemma if_err_ok: "(if b then Err e else r) = Ok x \<longleftrightarrow> \<not> b \<and> r = Ok x"
  by simp

lemma if_err_ok': "(if b then r else Err e) = Ok x \<longleftrightarrow> b \<and> r = Ok x"
  by simp

lemmas ok_simps = and_then_ok if_err_ok if_err_ok'

section \<open>The invariant of the scan\<close>

definition entry_key :: "zip_entry \<Rightarrow> string" where
  "entry_key e = ascii_lowercase (entry_name (ze_name e))"

definition entry_prefixes :: "zip_entry \<Rightarrow> (string \<times> bool) set" where
  "entry_prefixes e = set (prefixes_of (entry_name (ze_name e)) (ze_directory e))"

definition entry_ok :: "nat \<Rightarrow> zip_entry \<Rightarrow> bool" where
  "entry_ok central_start e \<longleftrightarrow>
     validate_name (entry_name (ze_name e)) = Ok () \<and> ze_directory e = names_directory (ze_name e)
     \<and> (ze_directory e \<longrightarrow> ze_size e = 0)
     \<and> ze_local_offset e < ze_data_end e \<and> ze_data_end e \<le> central_start"

definition names_ok :: "zip_entry list \<Rightarrow> zip_nodes \<Rightarrow> string bset \<Rightarrow> bool" where
  "names_ok es nodes seen \<longleftrightarrow>
     nodes_ok nodes \<and> bt_len nodes \<le> MAX_PACKAGE_FILES
     \<and> (\<forall>e\<in>set es. \<forall>pd\<in>entry_prefixes e. in_nodes nodes pd)
     \<and> distinct (map entry_key es) \<and> (\<forall>k. bt_has seen k \<longleftrightarrow> k \<in> set (map entry_key es))"

definition sizes_ok :: "zip_entry list \<Rightarrow> u64 \<Rightarrow> bool" where
  "sizes_ok es total_size \<longleftrightarrow>
     uint total_size = (\<Sum>e\<leftarrow>es. uint (ze_size e)) \<and> total_size \<le> MAX_EXTRACTED_BYTES"

definition scan_ok :: "nat \<Rightarrow> zip_scan \<Rightarrow> bool" where
  "scan_ok central_start s \<longleftrightarrow>
     list_all (entry_ok central_start) (zs_entries s)
     \<and> names_ok (zs_entries s) (zs_nodes s) (zs_explicit s) \<and> sizes_ok (zs_entries s) (zs_total s)"

section \<open>One entry\<close>

lemma add_name_ok:
  assumes "add_name (entry_name (ze_name e)) (ze_directory e) s = Ok s'"
    and "names_ok es (zs_nodes s) (zs_explicit s)"
  shows "names_ok (es @ [e]) (zs_nodes s') (zs_explicit s')"
    and "zs_entries s' = zs_entries s" "zs_total s' = zs_total s" "zs_cursor s' = zs_cursor s"
proof -
  obtain nodes where nodes: "\<not> bt_has (zs_explicit s) (entry_key e)"
    "add_nodes (prefixes_of (entry_name (ze_name e)) (ze_directory e)) (zs_nodes s) = Ok nodes"
    "\<not> MAX_PACKAGE_FILES < bt_len nodes"
    "s' = s\<lparr>zs_explicit := bt_insert (entry_key e) () (zs_explicit s), zs_nodes := nodes\<rparr>"
    using assms(1) by (auto simp: add_name_def ok_simps entry_key_def simp del: bt_has_iff)
  note added = add_nodes_ok [OF nodes(2)]
  have "\<forall>pd\<in>entry_prefixes e. in_nodes nodes pd"
    using added by (simp add: entry_prefixes_def)
  moreover have "\<forall>x\<in>set es. \<forall>pd\<in>entry_prefixes x. in_nodes nodes pd"
    using added assms(2) unfolding names_ok_def by blast
  moreover have "nodes_ok nodes" "bt_len nodes \<le> MAX_PACKAGE_FILES"
    using added nodes(3) assms(2) by (simp_all add: names_ok_def)
  moreover have "distinct (map entry_key (es @ [e]))"
    using assms(2) nodes(1) by (auto simp: names_ok_def simp del: bt_has_iff)
  moreover have "bt_has (bt_insert (entry_key e) () (zs_explicit s)) k \<longleftrightarrow> k \<in> set (map entry_key (es @ [e]))" for k
    using assms(2) by (auto simp: names_ok_def)
  ultimately show "names_ok (es @ [e]) (zs_nodes s') (zs_explicit s')"
    by (auto simp: names_ok_def nodes(4) simp del: bt_has_iff)
  show "zs_entries s' = zs_entries s" "zs_total s' = zs_total s" "zs_cursor s' = zs_cursor s"
    by (simp_all add: nodes(4))
qed

lemma add_size_ok:
  assumes "add_size (ze_size e) s = Ok s'" "sizes_ok es (zs_total s)"
  shows "sizes_ok (es @ [e]) (zs_total s')"
    and "zs_entries s' = zs_entries s" "zs_nodes s' = zs_nodes s" "zs_explicit s' = zs_explicit s"
    "zs_cursor s' = zs_cursor s"
proof -
  obtain t where t: "checked_add_word (zs_total s) (ze_size e) = Some t" "\<not> MAX_EXTRACTED_BYTES < t" "s' = s\<lparr>zs_total := t\<rparr>"
    using assms(1) by (auto simp: add_size_def split: option.splits if_splits)
  have "uint t = uint (zs_total s) + uint (ze_size e)"
    using t(1) by (auto simp: checked_add_word_def uint_plus_if_size word_size split: if_splits)
  then show "sizes_ok (es @ [e]) (zs_total s')"
    using assms(2) t(2) by (simp add: sizes_ok_def t(3) not_less)
  show "zs_entries s' = zs_entries s" "zs_nodes s' = zs_nodes s" "zs_explicit s' = zs_explicit s"
    "zs_cursor s' = zs_cursor s"
    by (simp_all add: t(3))
qed

lemma data_end_of_ok:
  assumes "data_end_of bytes h n = Ok data_end"
  shows "zh_local_offset h + 30 \<le> data_end"
  using assms by (auto simp: data_end_of_def Let_def ok_simps split: if_splits)

lemma check_local_ok:
  assumes "check_local bytes central_start h raw = Ok data_end"
  shows "zh_local_offset h < data_end \<and> data_end \<le> central_start"
  using assms data_end_of_ok by (fastforce simp: check_local_def Let_def ok_simps)

lemma scan_entry_ok:
  assumes "scan_entry bytes end_record central_start s = Ok s'" "scan_ok central_start s"
  shows "scan_ok central_start s'" "zs_cursor s < zs_cursor s'" "zs_cursor s' \<le> end_record"
    "length (zs_entries s') = Suc (length (zs_entries s))"
proof -
  obtain h full s1 s2 extra data_end where run:
    "read_header bytes (zs_cursor s) = Ok h" "validate_name (entry_name full) = Ok ()" "valid_kind h (names_directory full)"
    "add_name (entry_name full) (names_directory full) s = Ok s1" "add_size (zh_size h) s1 = Ok s2"
    "check_local bytes central_start h full = Ok data_end"
    "zs_cursor s + (46 + zh_name_len h + zh_extra_len h + zh_comment_len h) \<le> end_record"
    "s' = s2\<lparr>zs_cursor := zs_cursor s + (46 + zh_name_len h + zh_extra_len h + zh_comment_len h),
      zs_entries := zs_entries s2 @ [\<lparr>ze_name = full, ze_size = zh_size h, ze_compressed = of_nat (zh_compressed h),
        ze_local_offset = zh_local_offset h, ze_data_end = data_end, ze_directory = names_directory full\<rparr>]\<rparr>"
    using assms(1) by (auto simp: scan_entry_def Let_def ok_simps not_less)
  define e where "e = \<lparr>ze_name = full, ze_size = zh_size h, ze_compressed = of_nat (zh_compressed h),
        ze_local_offset = zh_local_offset h, ze_data_end = data_end, ze_directory = names_directory full\<rparr>"
  have fields: "ze_name e = full" "ze_size e = zh_size h" "ze_local_offset e = zh_local_offset h"
    "ze_data_end e = data_end" "ze_directory e = names_directory full"
    by (simp_all add: e_def)
  have "names_ok (zs_entries s @ [e]) (zs_nodes s1) (zs_explicit s1)" and s1: "zs_entries s1 = zs_entries s" "zs_total s1 = zs_total s"
    using add_name_ok [of e s s1 "zs_entries s"] run(4) assms(2) by (simp_all add: fields scan_ok_def)
  moreover have "sizes_ok (zs_entries s @ [e]) (zs_total s2)" and s2: "zs_entries s2 = zs_entries s1"
    "zs_nodes s2 = zs_nodes s1" "zs_explicit s2 = zs_explicit s1"
    using add_size_ok [of e s1 s2 "zs_entries s"] run(5) assms(2) s1 by (simp_all add: fields scan_ok_def)
  moreover have "entry_ok central_start e"
    using run(2,3) check_local_ok [OF run(6)] by (auto simp: entry_ok_def fields valid_kind_def Let_def)
  ultimately show "scan_ok central_start s'"
    using assms(2) by (simp add: scan_ok_def run(8) s1 s2 flip: e_def)
  show "zs_cursor s < zs_cursor s'" "zs_cursor s' \<le> end_record" "length (zs_entries s') = Suc (length (zs_entries s))"
    using run(7) by (simp_all add: run(8) s1 s2)
qed

lemma scan_entries_ok:
  assumes "scan_entries bytes end_record central_start n s = Ok s'" "scan_ok central_start s"
  shows "scan_ok central_start s' \<and> length (zs_entries s') = length (zs_entries s) + n"
  using assms
proof (induction n arbitrary: s)
  case (Suc n)
  then obtain mid where mid: "scan_entry bytes end_record central_start s = Ok mid"
    "scan_entries bytes end_record central_start n mid = Ok s'"
    by (auto simp: and_then_ok)
  then show ?case using Suc.IH [OF mid(2)] scan_entry_ok [OF mid(1) Suc.prems(2)] by simp
qed simp

section \<open>The bytes of the entries\<close>

text \<open>The ranges follow one another from the first byte to the last: every byte is in one of them.\<close>

definition covers :: "nat \<Rightarrow> nat \<times> nat \<Rightarrow> bool" where
  "covers k r \<longleftrightarrow> fst r \<le> k \<and> k < snd r"

lemma covers_pair: "covers k (a, b) \<longleftrightarrow> a \<le> k \<and> k < b"
  by (simp add: covers_def)

lemma tile_ranges_cover:
  assumes "tile_ranges rs at = Ok stop" "\<forall>r\<in>set rs. fst r < snd r"
  shows "at \<le> stop \<and> (\<forall>k. length (filter (covers k) rs) = (if at \<le> k \<and> k < stop then 1 else 0))"
  using assms
proof (induction rs at rule: tile_ranges.induct)
  case (2 start end_of ranges at)
  then have IH: "end_of \<le> stop" "\<And>k. length (filter (covers k) ranges) = (if end_of \<le> k \<and> k < stop then 1 else 0)"
    and eq: "start = at" "at < end_of" by (auto split: if_splits)
  have "length (filter (covers k) ((start, end_of) # ranges))
      = (if start \<le> k \<and> k < end_of then 1 else 0) + length (filter (covers k) ranges)" for k
    by (simp add: covers_pair)
  then show ?case unfolding IH(2) using IH(1) eq by auto
qed simp

lemma length_filter_sort: "length (filter P (sort xs)) = length (filter P xs)"
proof -
  have "mset (filter P (sort xs)) = mset (filter P xs)" by simp
  then show ?thesis by (metis size_mset)
qed

section \<open>An accepted archive\<close>

text \<open>The end record is at the end of the file, followed by its comment.\<close>

lemma find_end_ok: "find_end bytes = Some i \<Longrightarrow> is_end_record bytes i"
  by (auto simp: find_end_def find_Some_iff)

lemma preflightE:
  assumes "preflight bytes = Ok es"
  obtains s end_record central_start where "find_end bytes = Some end_record" "central_start \<le> end_record"
    "read_end bytes end_record = Ok (length es, central_start)"
    "zs_entries s = es" "scan_ok central_start s" "zs_cursor s = end_record"
    "tile_ranges (sort (map entry_range es)) 0 = Ok central_start"
    "\<exists>e\<in>set es. ze_name e = ''codlet.json'' \<and> \<not> ze_directory e" "0 < length es"
proof -
  let ?s = "\<lambda>at. \<lparr>zs_cursor = at, zs_entries = [], zs_nodes = bt_empty, zs_explicit = bt_empty, zs_total = 0\<rparr>"
  obtain end_record count central_start s where run: "find_end bytes = Some end_record"
    "read_end bytes end_record = Ok (count, central_start)"
    "scan_entries bytes end_record central_start count (?s central_start) = Ok s" "zs_cursor s = end_record"
    "tile_ranges (sort (map entry_range (zs_entries s))) 0 = Ok central_start"
    "list_ex (\<lambda>e. ze_name e = ''codlet.json'' \<and> \<not> ze_directory e) (zs_entries s)" "es = zs_entries s"
    using assms by (auto simp: preflight_def ok_simps split: option.splits if_splits prod.splits)
  have start: "scan_ok central_start (?s central_start)"
    by (simp add: scan_ok_def names_ok_def nodes_ok_def sizes_ok_def)
  have "length es = count" "scan_ok central_start s"
    using scan_entries_ok [OF run(3) start] run(7) by simp_all
  moreover have "central_start \<le> end_record" "0 < count"
    using run(2) by (auto simp: read_end_def ok_simps unat_gt_0)
  ultimately show thesis using that run by (auto simp: list_ex_iff)
qed

end
