(* ===== verification/Archive_Extract.thy ===== *)
theory Archive_Extract
  imports Archive_Checks
begin

text \<open>
  The extraction of an accepted archive, with any decoder and any answers of the operating system:
  what it may create, and what it has created when it succeeds.
\<close>

section \<open>A logic for the writer\<close>

text \<open>\<open>wr m Q E t\<close>: from \<open>t\<close>, with any answers, \<open>m\<close> returns only with \<open>Q\<close> and fails only with \<open>E\<close>.\<close>

named_theorems wr_intros "rules for the writer, backwards from the result"

definition wr :: "'a writer \<Rightarrow> ('a \<Rightarrow> file_tree \<Rightarrow> bool) \<Rightarrow> (file_tree \<Rightarrow> bool) \<Rightarrow> file_tree \<Rightarrow> bool" where
  "wr m Q E t \<longleftrightarrow>
     (\<forall>as r as' t'. m as t = (r, as', t') \<longrightarrow> (case r of Ok x \<Rightarrow> Q x t' | _ \<Rightarrow> E t'))"

lemma wrD:
  assumes "wr m Q E t" "m as t = (r, as', t')"
  shows "r = Ok x \<Longrightarrow> Q x t'" "(\<And>x. r \<noteq> Ok x) \<Longrightarrow> E t'"
  using assms unfolding wr_def by (cases r; fastforce)+

lemma wr_mono:
  assumes "wr m Q E t" "\<And>x t. Q x t \<Longrightarrow> Q' x t" "\<And>t. E t \<Longrightarrow> E' t"
  shows "wr m Q' E' t"
  unfolding wr_def
proof (intro allI impI)
  fix as r as' t'
  assume run: "m as t = (r, as', t')"
  show "case r of Ok x \<Rightarrow> Q' x t' | _ \<Rightarrow> E' t'"
    using wrD [OF assms(1) run] assms(2,3) by (cases r) auto
qed

lemma wr_return [wr_intros]: "(\<And>x. r = Ok x \<Longrightarrow> Q x t) \<Longrightarrow> E t \<Longrightarrow> wr (w_return r) Q E t"
  by (auto simp: wr_def w_return_def split: outcome.split)

lemma wr_then [wr_intros]:
  assumes "wr m (\<lambda>x t. wr (f x) Q E t) E t"
  shows "wr (w_then m f) Q E t"
  unfolding wr_def
proof (intro allI impI)
  fix as r as' t'
  assume run: "w_then m f as t = (r, as', t')"
  obtain r1 as1 t1 where m: "m as t = (r1, as1, t1)" by (metis prod_cases3)
  note d = wrD [OF assms m]
  show "case r of Ok x \<Rightarrow> Q x t' | _ \<Rightarrow> E t'"
  proof (cases r1)
    case (Ok x)
    then have "wr (f x) Q E t1" "f x as1 t1 = (r, as', t')" using d(1) run m by (simp_all add: w_then_def)
    then show ?thesis unfolding wr_def by blast
  qed (use run m d(2) in \<open>auto simp: w_then_def\<close>)
qed

lemma wr_call [wr_intros]: "(\<And>t'. f t = Ok t' \<Longrightarrow> Q () t') \<Longrightarrow> E t \<Longrightarrow> wr (w_call f) Q E t"
  by (auto simp: wr_def w_call_def split: list.splits option.splits outcome.splits)

lemma wr_write [wr_intros]:
  assumes "\<And>t'. append_file parts chunk t = Ok t' \<Longrightarrow> Q () t'" "E t"
    and "\<And>n t'. append_file parts (take n chunk) t = Ok t' \<Longrightarrow> E t'"
  shows "wr (w_write parts chunk) Q E t"
  using assms by (auto simp: wr_def w_write_def w_call_def split: list.splits option.splits outcome.splits)

section \<open>Trees\<close>

text \<open>The bytes of the files of a tree.\<close>

fun node_len :: "tree_node option \<Rightarrow> nat" where
  "node_len (Some (Content s)) = length s"
| "node_len _ = 0"

definition stored :: "file_tree \<Rightarrow> nat" where
  "stored t = (\<Sum>k\<in>{k. bt_get t k \<noteq> None}. node_len (bt_get t k))"

lemma stored_empty [simp]: "stored bt_empty = 0"
  by (simp add: stored_def)

lemma stored_new: "bt_get t k = None \<Longrightarrow> stored (bt_insert k n t) = stored t + node_len (Some n)"
proof -
  assume none: "bt_get t k = None"
  have "{k'. bt_get (bt_insert k n t) k' \<noteq> None} = insert k {k. bt_get t k \<noteq> None}" by auto
  moreover have "(\<Sum>k'\<in>{k. bt_get t k \<noteq> None}. node_len (bt_get (bt_insert k n t) k')) = stored t"
    unfolding stored_def using none by (intro sum.cong) auto
  ultimately show ?thesis using none finite_keys [of t] by (simp add: stored_def)
qed

text \<open>Nothing that exists is changed.\<close>

definition extends_tree :: "file_tree \<Rightarrow> file_tree \<Rightarrow> bool" where
  "extends_tree t t' \<longleftrightarrow> (\<forall>k n. bt_get t k = Some n \<longrightarrow> bt_get t' k = Some n)"

lemma extends_refl [simp]: "extends_tree t t"
  by (simp add: extends_tree_def)

lemma tree_extends_trans: "extends_tree a b \<Longrightarrow> extends_tree b c \<Longrightarrow> extends_tree a c"
  by (simp add: extends_tree_def)

lemma extends_insert: "bt_get t k = None \<Longrightarrow> extends_tree t (bt_insert k n t)"
  by (simp add: extends_tree_def)

text \<open>A set of names with their kinds, and a tree with such names only.\<close>

definition named :: "(string list \<times> bool) set \<Rightarrow> file_tree \<Rightarrow> bool" where
  "named P t \<longleftrightarrow> (\<forall>k n. bt_get t k = Some n \<longrightarrow> (k, n = Folder) \<in> P)"

lemma named_empty [simp]: "named P bt_empty"
  by (simp add: named_def)

lemma named_insert: "named P t \<Longrightarrow> (k, n = Folder) \<in> P \<Longrightarrow> named P (bt_insert k n t)"
  by (auto simp: named_def)

definition name_set :: "zip_entry \<Rightarrow> (string list \<times> bool) set" where
  "name_set e = {(parts, d). name_prefix (entry_name (ze_name e)) (ze_directory e) parts d}"

section \<open>The steps of the extraction\<close>

text \<open>What a step leaves: a tree that extends the one before, has the given names and as many bytes.\<close>

definition step_ok :: "(string list \<times> bool) set \<Rightarrow> file_tree \<Rightarrow> nat \<Rightarrow> file_tree \<Rightarrow> bool" where
  "step_ok P t n t' \<longleftrightarrow> extends_tree t t' \<and> named P t' \<and> stored t' = n"

lemma wr_make_folder:
  assumes "named P t" "(parts, True) \<in> P" and Q: "\<And>t'. step_ok P t (stored t) t' \<Longrightarrow> bt_get t' parts = Some Folder \<Longrightarrow> Q () t'"
    and E: "E t"
  shows "wr (w_call (make_folder parts)) Q E t"
proof (rule wr_call)
  fix t' assume t': "make_folder parts t = Ok t'"
  show "Q () t'"
  proof (cases "bt_get t parts")
    case None
    then have "t' = bt_insert parts Folder t" using t' by (simp add: make_folder_def)
    then show ?thesis using None assms
      by (intro Q) (simp_all add: step_ok_def extends_insert named_insert stored_new)
  next
    case (Some n)
    then have "t' = t" "n = Folder" using t' by (simp_all add: make_folder_def split: tree_node.splits)
    then show ?thesis using Some assms by (intro Q) (simp_all add: step_ok_def)
  qed
qed (rule E)

lemma step_ok_trans: "step_ok P t n t1 \<Longrightarrow> step_ok P t1 m t2 \<Longrightarrow> step_ok P t m t2"
  by (auto simp: step_ok_def intro: tree_extends_trans)

lemma wr_make_folders:
  assumes "named P t" "\<forall>i. length base < i \<and> i \<le> length (base @ ps) \<longrightarrow> (take i (base @ ps), True) \<in> P"
    and Q: "\<And>t'. step_ok P t (stored t) t' \<Longrightarrow>
      \<forall>i. length base < i \<and> i \<le> length (base @ ps) \<longrightarrow> bt_get t' (take i (base @ ps)) = Some Folder \<Longrightarrow> Q () t'"
    and E: "\<And>t'. step_ok P t (stored t) t' \<Longrightarrow> E t'"
  shows "wr (make_folders base ps) Q E t"
  using assms
proof (induction ps arbitrary: base t Q)
  case Nil
  have self: "step_ok P t (stored t) t" using Nil.prems(1) by (simp add: step_ok_def)
  show ?case
    unfolding make_folders.simps
  proof (rule wr_return)
    have "Q () t" by (rule Nil.prems(3) [OF self]) auto
    then show "Q x t" for x by (cases x) simp
  qed (rule Nil.prems(4) [OF self])
next
  case (Cons p ps)
  have here: "(base @ [p], True) \<in> P"
    using Cons.prems(2) [rule_format, of "Suc (length base)"] by simp
  have self: "step_ok P t (stored t) t" using Cons.prems(1) by (simp add: step_ok_def)
  show ?case
    unfolding make_folders.simps
  proof (intro wr_then wr_make_folder [OF Cons.prems(1) here])
    fix t1 assume t1: "step_ok P t (stored t) t1" "bt_get t1 (base @ [p]) = Some Folder"
    show "wr (make_folders (base @ [p]) ps) Q E t1"
    proof (rule Cons.IH)
      show "named P t1" using t1 by (simp add: step_ok_def)
      show "\<forall>i. length (base @ [p]) < i \<and> i \<le> length ((base @ [p]) @ ps) \<longrightarrow> (take i ((base @ [p]) @ ps), True) \<in> P"
        using Cons.prems(2) by auto
    next
      fix t' assume t': "step_ok P t1 (stored t1) t'"
      then have step: "step_ok P t (stored t) t'" using t1 step_ok_trans by (fastforce simp: step_ok_def)
      then show "E t'" by (rule Cons.prems(4))
      assume rest: "\<forall>i. length (base @ [p]) < i \<and> i \<le> length ((base @ [p]) @ ps) \<longrightarrow> bt_get t' (take i ((base @ [p]) @ ps)) = Some Folder"
      have "bt_get t' (base @ [p]) = Some Folder" using t1(2) t' by (simp add: step_ok_def extends_tree_def)
      then have "\<forall>i. length base < i \<and> i \<le> length (base @ p # ps) \<longrightarrow> bt_get t' (take i (base @ p # ps)) = Some Folder"
      proof (intro allI impI)
        fix i assume i: "length base < i \<and> i \<le> length (base @ p # ps)"
        show "bt_get t' (take i (base @ p # ps)) = Some Folder"
        proof (cases "i = Suc (length base)")
          case False
          then show ?thesis using rest [rule_format, of i] i by simp
        qed (use \<open>bt_get t' (base @ [p]) = Some Folder\<close> in simp)
      qed
      then show "Q () t'" by (rule Cons.prems(3) [OF step])
    qed
  qed (rule Cons.prems(4) [OF self])
qed

text \<open>The text the reads give, up to the first empty one.\<close>

fun reads_text :: "(string, string) outcome list \<Rightarrow> string" where
  "reads_text (Ok chunk # rs) = (if chunk = [] then [] else chunk @ reads_text rs)"
| "reads_text _ = []"

text \<open>Only the file of the entry grows, and only up to its size and the bound of the archive.\<close>

lemma wr_copy_reads:
  assumes none: "bt_get t0 parts = None" and base: "base + length s \<le> unat MAX_EXTRACTED_BYTES"
    and Q: "\<And>s'. s' = s @ reads_text rs \<Longrightarrow> base + length s' \<le> unat MAX_EXTRACTED_BYTES \<Longrightarrow>
      Q (length s', base + length s') (bt_insert parts (Content s') t0)"
    and E: "\<And>s'. base + length s' \<le> unat MAX_EXTRACTED_BYTES \<Longrightarrow> E (bt_insert parts (Content s') t0)"
  shows "wr (copy_reads parts expected rs (length s) (base + length s)) Q E (bt_insert parts (Content s) t0)"
  using base Q
proof (induction rs arbitrary: s)
  case Nil
  then show ?case using E by (auto intro!: wr_return)
next
  case (Cons r rs)
  have E0: "E (bt_insert parts (Content s) t0)" using Cons.prems(1) by (rule E)
  show ?case
    unfolding copy_reads.simps
  proof (intro wr_then wr_return)
    fix chunk assume "map_err (\<lambda>_. zip_invalid) r = Ok chunk"
    then have r: "r = Ok chunk" by (simp add: map_err_ok)
    show "wr (if chunk = [] then w_return (Ok (length s, base + length s))
        else let actual = length s + length chunk; written = base + length s + length chunk in
          if uint expected < int actual \<or> uint MAX_EXTRACTED_BYTES < int written then w_return (Err zip_limit)
          else w_then (w_write parts chunk) (\<lambda>_. copy_reads parts expected rs actual written))
        Q E (bt_insert parts (Content s) t0)"
    proof (cases "chunk = []")
      case True
      then show ?thesis using Cons.prems E0 r by (auto intro!: wr_return)
    next
      case False
      let ?s = "s @ chunk"
      have len: "length s + length chunk = length ?s" "base + length s + length chunk = base + length ?s" by simp_all
      show ?thesis
      proof (cases "uint expected < int (length ?s) \<or> uint MAX_EXTRACTED_BYTES < int (base + length ?s)")
        case True
        then show ?thesis using False E0 by (auto simp: Let_def intro!: wr_return)
      next
        case within: False
        then have bound: "base + length ?s \<le> unat MAX_EXTRACTED_BYTES"
          by (simp add: not_less MAX_EXTRACTED_BYTES_def)
        have again: "bt_insert parts (Content x) (bt_insert parts (Content s) t0) = bt_insert parts (Content x) t0" for x
          by (rule bt_eqI) simp
        have partial: "E (bt_insert parts (Content (s @ take n chunk)) t0)" for n
          by (rule E) (use bound in simp)
        have next_read: "wr (copy_reads parts expected rs (length ?s) (base + length ?s)) Q E (bt_insert parts (Content ?s) t0)"
          by (rule Cons.IH [OF bound]) (use Cons.prems(2) r False in simp)
        have "wr (w_then (w_write parts chunk) (\<lambda>_. copy_reads parts expected rs (length ?s) (base + length ?s)))
            Q E (bt_insert parts (Content s) t0)"
          by (intro wr_then wr_write E0) (use next_read partial in \<open>auto simp: append_file_def again\<close>)
        then show ?thesis using False within unfolding len Let_def by simp
      qed
    qed
  qed (rule E0)
qed

text \<open>What the extraction of an entry has to create.\<close>

definition created :: "zip_file \<Rightarrow> zip_entry \<Rightarrow> file_tree \<Rightarrow> bool" where
  "created f e t \<longleftrightarrow>
     (\<forall>(parts, d)\<in>name_set e. d \<longrightarrow> bt_get t parts = Some Folder)
     \<and> (\<not> ze_directory e \<longrightarrow> bt_get t (entry_parts e) = Some (Content (reads_text (zf_reads f)))
          \<and> int (length (reads_text (zf_reads f))) = uint (ze_size e))"

lemma entry_parts_split:
  "validate_name (entry_name (ze_name e)) = Ok () \<Longrightarrow> entry_parts e = split_on slash (entry_name (ze_name e))"
  by (simp add: entry_parts_def trim_end_entry)

lemma name_set_split:
  assumes "validate_name (entry_name (ze_name e)) = Ok ()"
  shows "(parts, d) \<in> name_set e \<longleftrightarrow>
    (\<exists>i. 0 < i \<and> i \<le> length (entry_parts e) \<and> parts = take i (entry_parts e) \<and> d = (i < length (entry_parts e) \<or> ze_directory e))"
  by (simp add: name_set_def name_prefix_def entry_parts_split [OF assms])

lemma created_extends: "created f e t \<Longrightarrow> extends_tree t t' \<Longrightarrow> created f e t'"
  by (force simp: created_def extends_tree_def)

text \<open>The names of a checked entry, from the outermost folder to the entry itself.\<close>

lemma folder_names:
  assumes "validate_name (entry_name (ze_name e)) = Ok ()" "name_set e \<subseteq> P"
    and "ps = butlast (entry_parts e) \<or> ze_directory e \<and> ps = entry_parts e"
  shows "\<forall>i. length [] < i \<and> i \<le> length ([] @ ps) \<longrightarrow> (take i ([] @ ps), True) \<in> P"
proof (intro allI impI)
  fix i assume i: "length [] < i \<and> i \<le> length ([] @ ps)"
  have "entry_parts e \<noteq> []" by (simp add: entry_parts_split [OF assms(1)])
  then have "i < length (entry_parts e) \<or> ze_directory e \<and> i \<le> length (entry_parts e)" "take i ps = take i (entry_parts e)"
    using assms(3) i by (auto simp: take_butlast)
  then have "(take i ps, True) \<in> name_set e"
    unfolding name_set_split [OF assms(1)] using i by (intro exI [of _ i]) auto
  then show "(take i ([] @ ps), True) \<in> P" using assms(2) by auto
qed

lemma whole_name:
  assumes "validate_name (entry_name (ze_name e)) = Ok ()"
  shows "(entry_parts e, ze_directory e) \<in> name_set e"
  unfolding name_set_split [OF assms] using split_on_nonempty [of slash "entry_name (ze_name e)"]
  by (intro exI [of _ "length (entry_parts e)"]) (simp add: entry_parts_split [OF assms])

text \<open>The new file of an entry, once its folders are there.\<close>

lemma created_file:
  assumes "validate_name (entry_name (ze_name e)) = Ok ()" "\<not> ze_directory e"
    and "\<forall>i. 0 < i \<and> i < length (entry_parts e) \<longrightarrow> bt_get t (take i (entry_parts e)) = Some Folder"
    and "bt_get t (entry_parts e) = None" "int (length (reads_text (zf_reads f))) = uint (ze_size e)"
  shows "created f e (bt_insert (entry_parts e) (Content (reads_text (zf_reads f))) t)"
proof -
  have "take i (entry_parts e) \<noteq> entry_parts e" if "i < length (entry_parts e)" for i
    using that by (metis length_take min.absorb4 less_irrefl)
  then show ?thesis using assms by (auto simp: created_def name_set_split)
qed

definition fill_file :: "zip_entry \<Rightarrow> zip_file \<Rightarrow> nat \<Rightarrow> nat writer" where
  "fill_file e f written =
     w_then (w_call (make_file (entry_parts e))) (\<lambda>_.
     w_then (copy_reads (entry_parts e) (ze_size e) (zf_reads f) 0 written) (\<lambda>(actual, written).
     if int actual \<noteq> uint (ze_size e) then w_return (Err zip_invalid)
     else w_then (w_call Ok) (\<lambda>_. w_return (Ok written))))"

lemma wr_fill_file:
  assumes "written \<le> unat MAX_EXTRACTED_BYTES"
    and Q: "\<And>s. bt_get t (entry_parts e) = None \<Longrightarrow> s = reads_text (zf_reads f) \<Longrightarrow> int (length s) = uint (ze_size e) \<Longrightarrow>
      written + length s \<le> unat MAX_EXTRACTED_BYTES \<Longrightarrow> Q (written + length s) (bt_insert (entry_parts e) (Content s) t)"
    and E: "\<And>s. bt_get t (entry_parts e) = None \<Longrightarrow> written + length s \<le> unat MAX_EXTRACTED_BYTES \<Longrightarrow>
      E (bt_insert (entry_parts e) (Content s) t)"
    and Et: "E t"
  shows "wr (fill_file e f written) Q E t"
  unfolding fill_file_def
proof (intro wr_then wr_call)
  fix t2 assume "make_file (entry_parts e) t = Ok t2"
  then have none: "bt_get t (entry_parts e) = None" and t2: "t2 = bt_insert (entry_parts e) (Content []) t"
    by (auto simp: make_file_def split: if_splits)
  let ?rest = "\<lambda>x. case x of (actual, written) \<Rightarrow> if int actual \<noteq> uint (ze_size e) then w_return (Err zip_invalid)
    else w_then (w_call Ok) (\<lambda>_. w_return (Ok written))"
  have "wr (copy_reads (entry_parts e) (ze_size e) (zf_reads f) (length ([] :: string)) (written + length ([] :: string)))
      (\<lambda>x. wr (?rest x) Q E) E (bt_insert (entry_parts e) (Content []) t)"
  proof (rule wr_copy_reads [OF none])
    fix s' assume s': "s' = [] @ reads_text (zf_reads f)" "written + length s' \<le> unat MAX_EXTRACTED_BYTES"
    show "wr (?rest (length s', written + length s')) Q E (bt_insert (entry_parts e) (Content s') t)"
      using Q [OF none _ _ s'(2)] E [OF none s'(2)] s'(1) by (auto intro!: wr_then wr_call wr_return)
  qed (use assms(1) E [OF none] in auto)
  then show "wr (copy_reads (entry_parts e) (ze_size e) (zf_reads f) 0 written) (\<lambda>x. wr (?rest x) Q E) E t2"
    by (simp add: t2)
qed (rule Et)

lemma wr_extract_entry:
  assumes valid: "validate_name (entry_name (ze_name e)) = Ok ()" and P: "name_set e \<subseteq> P"
    and named: "named P t" and stored: "stored t = written" "written \<le> unat MAX_EXTRACTED_BYTES"
    and Q: "\<And>f t' w. za_by_index a index = Ok f \<Longrightarrow> step_ok P t w t' \<Longrightarrow> w \<le> unat MAX_EXTRACTED_BYTES \<Longrightarrow>
      created f e t' \<Longrightarrow> Q w t'"
    and E: "\<And>t' w. step_ok P t w t' \<Longrightarrow> w \<le> unat MAX_EXTRACTED_BYTES \<Longrightarrow> E t'"
  shows "wr (extract_entry a index e written) Q E t"
proof -
  have Et: "E t'" if "step_ok P t (stored t) t'" for t' using E [OF that] stored by simp
  have self: "E t" using named by (intro Et) (simp add: step_ok_def)
  have dir: "wr (w_then (make_folders [] (entry_parts e)) (\<lambda>_. w_return (Ok written))) Q E t"
    if f: "za_by_index a index = Ok f" and d: "ze_directory e" for f
  proof (intro wr_then wr_make_folders [OF named folder_names [OF valid P]] wr_return)
    fix t' x assume t': "step_ok P t (stored t) t'"
      "\<forall>i. length [] < i \<and> i \<le> length ([] @ entry_parts e) \<longrightarrow> bt_get t' (take i ([] @ entry_parts e)) = Some Folder"
      and x: "(Ok written :: nat github_result) = Ok x"
    have "created f e t'" using t'(2) d by (auto simp: created_def name_set_split [OF valid])
    then show "Q x t'" using Q [OF f] t'(1) stored x by simp
  qed (use d Et in auto)
  have plain: "wr (w_then (make_folders [] (butlast (entry_parts e))) (\<lambda>_. fill_file e f written)) Q E t"
    if f: "za_by_index a index = Ok f" and d: "\<not> ze_directory e" for f
  proof (intro wr_then wr_make_folders [OF named folder_names [OF valid P]])
    fix t1 assume t1: "step_ok P t (stored t) t1"
      "\<forall>i. length [] < i \<and> i \<le> length ([] @ butlast (entry_parts e)) \<longrightarrow>
        bt_get t1 (take i ([] @ butlast (entry_parts e))) = Some Folder"
    then have t1': "stored t1 = written" "named P t1" "extends_tree t t1" using stored by (simp_all add: step_ok_def)
    have grown: "step_ok P t (written + length s) (bt_insert (entry_parts e) (Content s) t1)"
      if "bt_get t1 (entry_parts e) = None" for s
      using that t1' P whole_name [OF valid] d tree_extends_trans [OF t1'(3) extends_insert]
      by (auto simp: step_ok_def stored_new intro!: named_insert)
    have "\<forall>i. 0 < i \<and> i < length (entry_parts e) \<longrightarrow> bt_get t1 (take i (entry_parts e)) = Some Folder"
      using t1(2) by (auto simp: take_butlast)
    then show "wr (fill_file e f written) Q E t1"
      using Q [OF f grown] E [OF grown] Et [OF t1(1)] stored(2) created_file [OF valid d] by (intro wr_fill_file) auto
  qed (use Et in auto)
  show ?thesis
    unfolding extract_entry_def Let_def fill_file_def [symmetric]
    using dir plain self by (auto simp: map_err_ok intro!: wr_then wr_return)
qed

text \<open>All entries.\<close>

lemma wr_extract_entries:
  assumes "\<forall>e\<in>set es. validate_name (entry_name (ze_name e)) = Ok () \<and> name_set e \<subseteq> P"
    and "named P t" "stored t = written" "written \<le> unat MAX_EXTRACTED_BYTES"
    and Q: "\<And>t'. extends_tree t t' \<Longrightarrow> named P t' \<Longrightarrow> stored t' \<le> unat MAX_EXTRACTED_BYTES \<Longrightarrow>
      \<forall>i<length es. \<exists>f. za_by_index a (index + i) = Ok f \<and> created f (es ! i) t' \<Longrightarrow> Q () t'"
    and E: "\<And>t'. named P t' \<Longrightarrow> stored t' \<le> unat MAX_EXTRACTED_BYTES \<Longrightarrow> E t'"
  shows "wr (extract_entries a index es written) Q E t"
  using assms(1-5)
proof (induction es arbitrary: index t written Q)
  case Nil
  then have "Q () t" by (intro Nil.prems(5)) auto
  then show ?case using Nil E by (auto intro!: wr_return)
next
  case (Cons e es)
  show ?case
    unfolding extract_entries.simps
  proof (intro wr_then wr_extract_entry)
    fix f t1 w assume f: "za_by_index a index = Ok f" "step_ok P t w t1" "w \<le> unat MAX_EXTRACTED_BYTES" "created f e t1"
    then have t1: "extends_tree t t1" "named P t1" "stored t1 = w" by (simp_all add: step_ok_def)
    show "wr (extract_entries a (Suc index) es w) Q E t1"
    proof (rule Cons.IH [OF _ t1(2,3) f(3)])
      fix t' assume t': "extends_tree t1 t'" "named P t'" "stored t' \<le> unat MAX_EXTRACTED_BYTES"
        "\<forall>i<length es. \<exists>f. za_by_index a (Suc index + i) = Ok f \<and> created f (es ! i) t'"
      have "\<exists>f. za_by_index a (index + i) = Ok f \<and> created f ((e # es) ! i) t'" if "i < length (e # es)" for i
        using that t'(4) f(1) created_extends [OF f(4) t'(1)] by (cases i) auto
      then show "Q () t'" using Cons.prems(5) [OF tree_extends_trans [OF t1(1) t'(1)] t'(2,3)] by blast
    qed (use Cons.prems(1) in auto)
  next
    fix t' w assume "step_ok P t w t'" "w \<le> unat MAX_EXTRACTED_BYTES"
    then show "E t'" using E by (simp add: step_ok_def)
  qed (use Cons.prems in auto)
qed

end
