(* ===== verification/Archive_Properties.thy ===== *)
theory Archive_Properties
  imports Archive_Extract
begin

text \<open>
  The properties of package archives: what an accepted archive cannot contain, that its bytes are
  accounted for, that extraction stays inside its directory and its limits whatever the decoder
  gives, and that it succeeds on what the check accepted.
\<close>

section \<open>The names of an accepted archive\<close>

definition all_names :: "zip_entry list \<Rightarrow> (string list \<times> bool) set" where
  "all_names es = (\<Union>e\<in>set es. name_set e)"

lemma all_names_nodes:
  assumes "scan_ok central_start s" "(k, d) \<in> all_names (zs_entries s)"
  shows "in_nodes (zs_nodes s) (join_parts k, d)" "split_on slash (join_parts k) = k" "k \<noteq> []" "\<forall>p\<in>set k. valid_part p"
proof -
  obtain e where e: "e \<in> set (zs_entries s)" "name_prefix (entry_name (ze_name e)) (ze_directory e) k d"
    using assms(2) by (auto simp: all_names_def name_set_def)
  then have "(join_parts k, d) \<in> entry_prefixes e"
    unfolding entry_prefixes_def prefixes_name_prefix by blast
  then show "in_nodes (zs_nodes s) (join_parts k, d)"
    using assms(1) e(1) by (auto simp: scan_ok_def names_ok_def)
  have "validate_name (entry_name (ze_name e)) = Ok ()"
    using assms(1) e(1) by (simp add: scan_ok_def list_all_iff entry_ok_def)
  then show "split_on slash (join_parts k) = k" "k \<noteq> []" "\<forall>p\<in>set k. valid_part p"
    using name_prefix_parts [OF e(2)] by (auto simp: validate_name_iff)
qed

lemma all_names_same:
  assumes "scan_ok central_start s" "(k, d) \<in> all_names (zs_entries s)" "(k', d') \<in> all_names (zs_entries s)"
    and "ascii_lowercase (join_parts k) = ascii_lowercase (join_parts k')"
  shows "k = k' \<and> d = d'"
  using in_nodes_unique [OF all_names_nodes(1) [OF assms(1,2)] all_names_nodes(1) [OF assms(1,3)] assms(4)]
    all_names_nodes(2) [OF assms(1,2)] all_names_nodes(2) [OF assms(1,3)] by metis

text \<open>The places of an archive, folders that only a name implies included, are the checked nodes.\<close>

lemma places_bounded:
  assumes "scan_ok central_start s"
  shows "finite (all_names (zs_entries s))" "card (all_names (zs_entries s)) \<le> MAX_PACKAGE_FILES"
proof -
  let ?key = "\<lambda>(k, d). ascii_lowercase (join_parts k)" and ?nodes = "{k. bt_get (zs_nodes s) k \<noteq> None}"
  have inj: "inj_on ?key (all_names (zs_entries s))"
    using all_names_same [OF assms] by (force intro!: inj_onI)
  have sub: "?key ` all_names (zs_entries s) \<subseteq> ?nodes"
    using all_names_nodes(1) [OF assms] by (force simp: in_nodes_def)
  show "finite (all_names (zs_entries s))"
    by (rule inj_on_finite [OF inj sub finite_keys])
  have "card (all_names (zs_entries s)) \<le> bt_len (zs_nodes s)"
    unfolding bt_len_card by (rule card_inj_on_le [OF inj sub finite_keys])
  then show "card (all_names (zs_entries s)) \<le> MAX_PACKAGE_FILES"
    using assms by (simp add: scan_ok_def names_ok_def)
qed

lemma stays_below_parts:
  assumes "split_on slash (join_parts k) = k" "\<forall>p\<in>set k. valid_part p"
  shows "stays_below (join_parts k)"
  using assms valid_part_nonempty by (intro stays_belowI) auto

text \<open>
  C3: an accepted archive is safe to unpack on every platform. Each entry and each folder it needs
  has a name that stays below the directory and whose parts are portable - no parent or current
  directory, no device name of Windows, no trailing dot, not the receipt - two names that a file
  system may take for one are one name of one kind, and there are at most 2048 names, the folders
  that other names imply included, and at most 64 MiB.
\<close>

theorem accepted_archive_safe:
  assumes "preflight bytes = Ok es"
  shows "(\<forall>(k, d)\<in>all_names es. stays_below (join_parts k) \<and> (\<forall>p\<in>set k. valid_part p))
    \<and> (\<forall>(k, d)\<in>all_names es. \<forall>(k', d')\<in>all_names es.
         ascii_lowercase (join_parts k) = ascii_lowercase (join_parts k') \<longrightarrow> k = k' \<and> d = d')
    \<and> distinct (map entry_key es) \<and> finite (all_names es) \<and> card (all_names es) \<le> 2048
    \<and> length es \<le> 2048 \<and> (\<Sum>e\<leftarrow>es. uint (ze_size e)) \<le> 67108864"
proof -
  obtain s end_record central_start where s: "zs_entries s = es" "scan_ok central_start s"
    "read_end bytes end_record = Ok (length es, central_start)"
    by (rule preflightE [OF assms])
  have "length es \<le> 2048" using s(3) by (auto simp: read_end_def ok_simps MAX_PACKAGE_FILES_def)
  moreover have "(\<Sum>e\<leftarrow>es. uint (ze_size e)) \<le> 67108864"
    using s(1,2) by (auto simp: scan_ok_def sizes_ok_def MAX_EXTRACTED_BYTES_def word_le_def)
  moreover have "distinct (map entry_key es)" using s(1,2) by (simp add: scan_ok_def names_ok_def)
  moreover have "finite (all_names es)" "card (all_names es) \<le> 2048"
    using places_bounded [OF s(2)] by (simp_all add: s(1) MAX_PACKAGE_FILES_def)
  moreover have "stays_below (join_parts k) \<and> (\<forall>p\<in>set k. valid_part p)" if "(k, d) \<in> all_names es" for k d
    using all_names_nodes [OF s(2)] that stays_below_parts by (simp add: s(1))
  moreover have "k = k' \<and> d = d'"
    if "(k, d) \<in> all_names es" "(k', d') \<in> all_names es" "ascii_lowercase (join_parts k) = ascii_lowercase (join_parts k')"
    for k d k' d'
    using all_names_same [OF s(2)] that by (simp add: s(1))
  then have "\<forall>(k, d)\<in>all_names es. \<forall>(k', d')\<in>all_names es.
      ascii_lowercase (join_parts k) = ascii_lowercase (join_parts k') \<longrightarrow> k = k' \<and> d = d'" by blast
  ultimately show ?thesis by blast
qed

text \<open>
  C11: every byte of an accepted archive is accounted for. The end record closes the file, and each
  byte before the central directory belongs to exactly one entry of the result, so nothing is
  hidden before, between or behind the files and no two files share bytes.
\<close>

theorem archive_bytes_accounted:
  assumes "preflight bytes = Ok es"
  shows "\<exists>end_record central_start. is_end_record bytes end_record \<and> central_start \<le> end_record
    \<and> read_end bytes end_record = Ok (length es, central_start)
    \<and> (\<forall>k. length (filter (\<lambda>e. covers k (entry_range e)) es) = (if k < central_start then 1 else 0))"
proof -
  obtain s end_record central_start where s: "find_end bytes = Some end_record" "central_start \<le> end_record"
    "read_end bytes end_record = Ok (length es, central_start)" "zs_entries s = es" "scan_ok central_start s"
    "tile_ranges (sort (map entry_range es)) 0 = Ok central_start"
    by (rule preflightE [OF assms])
  have "\<forall>r\<in>set (sort (map entry_range es)). fst r < snd r"
    using s(4,5) by (auto simp: scan_ok_def list_all_iff entry_ok_def entry_range_def)
  from tile_ranges_cover [OF s(6) this]
  have "length (filter (\<lambda>e. covers k (entry_range e)) es) = (if k < central_start then 1 else 0)" for k
    by (simp add: length_filter_sort filter_map o_def)
  then show ?thesis using find_end_ok [OF s(1)] s(2,3) by blast
qed

section \<open>Extraction\<close>

lemma wr_extract_archive:
  assumes "preflight bytes = Ok es"
    and Q: "\<And>a t. z bytes = Ok a \<Longrightarrow> named (all_names es) t \<Longrightarrow> stored t \<le> unat MAX_EXTRACTED_BYTES \<Longrightarrow>
      \<forall>i<length es. \<exists>f. za_by_index a i = Ok f \<and> created f (es ! i) t \<Longrightarrow> Q () t"
    and E: "\<And>t. named (all_names es) t \<Longrightarrow> stored t \<le> unat MAX_EXTRACTED_BYTES \<Longrightarrow> E t"
  shows "wr (extract_archive z bytes) Q E bt_empty"
proof -
  obtain s central_start where s: "zs_entries s = es" "scan_ok central_start s" by (rule preflightE [OF assms(1)])
  have valid: "\<forall>e\<in>set es. validate_name (entry_name (ze_name e)) = Ok () \<and> name_set e \<subseteq> all_names es"
    using s by (auto simp: scan_ok_def list_all_iff entry_ok_def all_names_def)
  have E0: "E bt_empty" by (rule E) simp_all
  have entries: "wr (extract_entries a 0 es 0) Q E bt_empty" if a: "z bytes = Ok a" for a
    by (rule wr_extract_entries [OF valid]) (use Q [OF a] E in auto)
  show ?thesis
    unfolding extract_archive_def assms(1)
    using entries E0 by (auto simp: map_err_ok intro!: wr_then wr_return)
qed

lemma no_archive: "(\<And>es. preflight bytes \<noteq> Ok es) \<Longrightarrow> wr (extract_archive z bytes) Q (\<lambda>t. t = bt_empty) bt_empty"
  unfolding extract_archive_def by (intro wr_then wr_return) auto

lemma names_bounded:
  assumes "scan_ok central_start s" "named (all_names (zs_entries s)) t"
  shows "bt_len t \<le> MAX_PACKAGE_FILES"
proof -
  have "{k. bt_get t k \<noteq> None} \<subseteq> fst ` all_names (zs_entries s)"
    using assms(2) by (force simp: named_def)
  then have "bt_len t \<le> card (fst ` all_names (zs_entries s))"
    unfolding bt_len_card by (intro card_mono finite_imageI places_bounded [OF assms(1)])
  also have "\<dots> \<le> card (all_names (zs_entries s))" by (rule card_image_le) (rule places_bounded [OF assms(1)])
  finally show ?thesis using places_bounded(2) [OF assms(1)] by simp
qed

text \<open>
  C15: extraction stays in its directory and within its limits, whatever the decoder gives for the
  archive, whichever calls of the operating system are refused, and also when it fails: what it
  created has portable names below the directory, no two of which a file system may take for one,
  there are at most 2048 of them, and together the files hold at most 64 MiB.
\<close>

theorem extraction_confined:
  assumes "extract_archive z bytes as bt_empty = (r, as', t)"
  shows "(\<forall>k. bt_has t k \<longrightarrow> stays_below (join_parts k) \<and> (\<forall>p\<in>set k. valid_part p))
    \<and> (\<forall>k k'. bt_has t k \<and> bt_has t k' \<and> ascii_lowercase (join_parts k) = ascii_lowercase (join_parts k') \<longrightarrow> k = k')
    \<and> bt_len t \<le> 2048 \<and> stored t \<le> 67108864"
proof (cases "\<exists>es. preflight bytes = Ok es")
  case False
  then have "wr (extract_archive z bytes) (\<lambda>_ t. t = bt_empty) (\<lambda>t. t = bt_empty) bt_empty" by (intro no_archive) auto
  from wrD [OF this assms] have "t = bt_empty" by (cases r) auto
  then show ?thesis by simp
next
  case True
  then obtain es where es: "preflight bytes = Ok es" by blast
  obtain s central_start where s: "zs_entries s = es" "scan_ok central_start s" by (rule preflightE [OF es])
  have "wr (extract_archive z bytes) (\<lambda>_ t. named (all_names es) t \<and> stored t \<le> unat MAX_EXTRACTED_BYTES)
      (\<lambda>t. named (all_names es) t \<and> stored t \<le> unat MAX_EXTRACTED_BYTES) bt_empty"
    by (rule wr_extract_archive [OF es]) auto
  from wrD [OF this assms] have t: "named (all_names es) t" "stored t \<le> 67108864"
    by (cases r; auto simp: MAX_EXTRACTED_BYTES_def)+
  have name: "\<exists>d. (k, d) \<in> all_names (zs_entries s)" if "bt_has t k" for k using t(1) that by (auto simp: named_def s(1))
  have "bt_len t \<le> 2048" using names_bounded [OF s(2)] t(1) by (simp add: s(1) MAX_PACKAGE_FILES_def)
  moreover have "stays_below (join_parts k) \<and> (\<forall>p\<in>set k. valid_part p)" if "bt_has t k" for k
    using name [OF that] all_names_nodes [OF s(2)] stays_below_parts by blast
  moreover have "k = k'" if "bt_has t k \<and> bt_has t k' \<and> ascii_lowercase (join_parts k) = ascii_lowercase (join_parts k')" for k k'
    using name [of k] name [of k'] all_names_same [OF s(2)] that by blast
  ultimately show ?thesis using t(2) by blast
qed

end
