(* ===== verification/Archive_Completes.thy ===== *)
theory Archive_Completes
  imports Archive_Properties
begin

text \<open>
  An accepted archive can be extracted: when the decoder agrees with the check and no call of the
  operating system is refused, the extraction returns with every entry in place.
\<close>

section \<open>Runs without a refused call\<close>

lemma plain_then:
  assumes "m [] t = (Ok x, [], t1)"
  shows "w_then m f [] t = f x [] t1"
  by (simp add: w_then_def assms)

lemma plain_call: "f t = Ok t' \<Longrightarrow> w_call f [] t = (Ok (), [], t')"
  by (simp add: w_call_def)

lemma plain_folders:
  assumes "\<forall>i. length base < i \<and> i \<le> length (base @ ps) \<longrightarrow>
      (\<forall>n. bt_get t (take i (base @ ps)) = Some n \<longrightarrow> n = Folder)"
  shows "\<exists>t'. make_folders base ps [] t = (Ok (), [], t')"
  using assms
proof (induction ps arbitrary: base t)
  case (Cons p ps)
  have here: "bt_get t (base @ [p]) = Some n \<Longrightarrow> n = Folder" for n
    using Cons.prems [rule_format, of "Suc (length base)"] by simp
  obtain t1 where t1: "make_folder (base @ [p]) t = Ok t1" "t1 = t \<or> t1 = bt_insert (base @ [p]) Folder t"
    using here by (cases "bt_get t (base @ [p])") (auto simp: make_folder_def)
  have "\<exists>t'. make_folders (base @ [p]) ps [] t1 = (Ok (), [], t')"
  proof (rule Cons.IH, intro allI impI)
    fix i n assume i: "length (base @ [p]) < i \<and> i \<le> length ((base @ [p]) @ ps)"
      and n: "bt_get t1 (take i ((base @ [p]) @ ps)) = Some n"
    have "length (take i ((base @ [p]) @ ps)) = i" using i by (auto simp: min_def)
    then have "take i ((base @ [p]) @ ps) \<noteq> base @ [p]" using i by (metis less_irrefl)
    then have "bt_get t (take i (base @ p # ps)) = Some n" using n t1(2) by auto
    then show "n = Folder" using Cons.prems [rule_format, of i n] i by simp
  qed
  moreover have "w_call (make_folder (base @ [p])) [] t = (Ok (), [], t1)" by (rule plain_call) (rule t1(1))
  ultimately show ?case by (simp add: w_then_def)
qed (simp add: w_return_def)

definition decodes :: "zip_file \<Rightarrow> zip_entry \<Rightarrow> bool" where
  "decodes f e \<longleftrightarrow>
     agrees f e \<and> (\<not> ze_directory e \<longrightarrow>
       (\<forall>r\<in>set (zf_reads f). \<exists>c. r = Ok c \<and> c \<noteq> [])
       \<and> int (length (reads_text (zf_reads f))) = uint (ze_size e))"

lemma plain_reads:
  assumes "\<forall>r\<in>set rs. \<exists>c. r = Ok c \<and> c \<noteq> []" "bt_get t parts = Some (Content s)"
    and "int (length s + length (reads_text rs)) \<le> uint expected"
    and "base + length s + length (reads_text rs) \<le> unat MAX_EXTRACTED_BYTES"
  shows "\<exists>t'. copy_reads parts expected rs (length s) (base + length s) [] t
    = (Ok (length s + length (reads_text rs), base + length s + length (reads_text rs)), [], t')"
  using assms
proof (induction rs arbitrary: t s)
  case (Cons r rs)
  then obtain c where c: "r = Ok c" "c \<noteq> []" by auto
  let ?t = "bt_insert parts (Content (s @ c)) t"
  have len: "length (reads_text (r # rs)) = length c + length (reads_text rs)" by (simp add: c)
  have "\<exists>t'. copy_reads parts expected rs (length (s @ c)) (base + length (s @ c)) [] ?t
      = (Ok (length (s @ c) + length (reads_text rs), base + length (s @ c) + length (reads_text rs)), [], t')"
    by (rule Cons.IH) (use Cons.prems in \<open>auto simp: c\<close>)
  moreover have "\<not> (uint expected < int (length (s @ c)) \<or> uint MAX_EXTRACTED_BYTES < int (base + length (s @ c)))"
    using Cons.prems(3,4) len by (simp add: MAX_EXTRACTED_BYTES_def)
  moreover have "w_write parts c [] t = (Ok (), [], ?t)"
    by (simp add: w_write_def plain_call append_file_def Cons.prems(2))
  ultimately show ?case
    by (auto simp: c Let_def plain_then w_return_def add.assoc)
qed (simp add: w_return_def)

lemma plain_file:
  assumes "bt_get t (entry_parts e) = None" "decodes f e" "\<not> ze_directory e"
    and "written + unat (ze_size e) \<le> unat MAX_EXTRACTED_BYTES"
  shows "\<exists>t'. fill_file e f written [] t = (Ok (written + unat (ze_size e)), [], t')"
proof -
  let ?t = "bt_insert (entry_parts e) (Content []) t"
  have reads: "\<forall>r\<in>set (zf_reads f). \<exists>c. r = Ok c \<and> c \<noteq> []" and size: "int (length (reads_text (zf_reads f))) = uint (ze_size e)"
    using assms(2,3) by (simp_all add: decodes_def)
  have bytes: "unat (ze_size e) = length (reads_text (zf_reads f))" using arg_cong [OF size, of nat] by simp
  have "\<exists>t'. copy_reads (entry_parts e) (ze_size e) (zf_reads f) (length ([] :: string)) (written + length ([] :: string)) [] ?t
    = (Ok (length ([] :: string) + length (reads_text (zf_reads f)), written + length ([] :: string) + length (reads_text (zf_reads f))), [], t')"
    by (rule plain_reads [OF reads]) (use size bytes assms(4) in auto)
  moreover have "w_call (make_file (entry_parts e)) [] t = (Ok (), [], ?t)"
    by (rule plain_call) (simp add: make_file_def assms(1))
  ultimately show ?thesis
    by (auto simp: fill_file_def plain_then size bytes w_call_def w_return_def)
qed

section \<open>One entry after the other\<close>

definition one_kind :: "(string list \<times> bool) set \<Rightarrow> bool" where
  "one_kind P \<longleftrightarrow> (\<forall>k d d'. (k, d) \<in> P \<longrightarrow> (k, d') \<in> P \<longrightarrow> d = d')"

lemma named_folder: "named P t \<Longrightarrow> one_kind P \<Longrightarrow> (k, True) \<in> P \<Longrightarrow> bt_get t k = Some n \<Longrightarrow> n = Folder"
  unfolding named_def one_kind_def by blast

lemma named_mono: "named P t \<Longrightarrow> P \<subseteq> P' \<Longrightarrow> named P' t"
  by (auto simp: named_def)

lemma plain_entry:
  assumes valid: "validate_name (entry_name (ze_name e)) = Ok ()" and P: "name_set e \<subseteq> P" "one_kind P"
    and named: "named P t" and new: "\<not> ze_directory e \<Longrightarrow> bt_get t (entry_parts e) = None"
    and f: "za_by_index a index = Ok f" "decodes f e"
    and total: "written + unat (ze_size e) \<le> unat MAX_EXTRACTED_BYTES" "ze_directory e \<Longrightarrow> ze_size e = 0"
  shows "\<exists>t'. extract_entry a index e written [] t = (Ok (written + unat (ze_size e)), [], t')"
proof -
  have folders: "\<exists>t'. make_folders [] ps [] t = (Ok (), [], t')"
    if "ps = butlast (entry_parts e) \<or> ze_directory e \<and> ps = entry_parts e" for ps
    by (rule plain_folders) (use folder_names [OF valid P(1) that] named_folder [OF named P(2)] in auto)
  have agrees: "agrees f e" using f(2) by (simp add: decodes_def)
  show ?thesis
  proof (cases "ze_directory e")
    case True
    then show ?thesis
      using folders [of "entry_parts e"] total(2) by (auto simp: extract_entry_def Let_def f(1) agrees plain_then w_return_def)
  next
    case False
    obtain t1 where t1: "make_folders [] (butlast (entry_parts e)) [] t = (Ok (), [], t1)" using folders by blast
    have shorter: "take i (butlast (entry_parts e)) \<noteq> entry_parts e" for i
    proof -
      have "length (take i (butlast (entry_parts e))) < length (entry_parts e)"
        by (cases "entry_parts e" rule: rev_cases) (auto simp: entry_parts_split [OF valid])
      then show ?thesis by force
    qed
    have "wr (make_folders [] (butlast (entry_parts e))) (\<lambda>_ t'. bt_get t' (entry_parts e) = None) (\<lambda>_. True) t"
      by (rule wr_make_folders [where P = "{(k, d). k \<noteq> entry_parts e}"])
        (use new [OF False] shorter in \<open>auto simp: step_ok_def named_def\<close>)
    from wrD(1) [OF this t1 refl] have "bt_get t1 (entry_parts e) = None" .
    from plain_file [OF this f(2) False total(1)] show ?thesis
      using t1 False by (auto simp: extract_entry_def Let_def f(1) agrees fill_file_def plain_then w_return_def)
  qed
qed

lemma plain_entries:
  assumes "\<forall>e\<in>set es. validate_name (entry_name (ze_name e)) = Ok () \<and> (ze_directory e \<longrightarrow> ze_size e = 0)"
    and "one_kind (all_names (ds @ es))" "distinct (map entry_key (ds @ es))" "\<forall>e\<in>set ds. validate_name (entry_name (ze_name e)) = Ok ()"
    and "named (all_names ds) t" "stored t = written"
    and "\<forall>i<length es. \<exists>f. za_by_index a (index + i) = Ok f \<and> decodes f (es ! i)"
    and "written + (\<Sum>e\<leftarrow>es. unat (ze_size e)) \<le> unat MAX_EXTRACTED_BYTES"
  shows "\<exists>t'. extract_entries a index es written [] t = (Ok (), [], t')"
  using assms
proof (induction es arbitrary: index t written ds)
  case Nil
  then show ?case by (simp add: w_return_def)
next
  case (Cons e es)
  let ?P = "all_names (ds @ [e])"
  have valid: "validate_name (entry_name (ze_name e)) = Ok ()" using Cons.prems(1) by simp
  have P: "name_set e \<subseteq> ?P" "all_names ds \<subseteq> ?P" "?P \<subseteq> all_names (ds @ e # es)" by (auto simp: all_names_def)
  have kind: "one_kind ?P" using Cons.prems(2) P(3) unfolding one_kind_def by blast
  have named: "named ?P t" by (rule named_mono [OF Cons.prems(5) P(2)])
  obtain f where f: "za_by_index a index = Ok f" "decodes f e" using Cons.prems(7) [rule_format, of 0] by auto
  have new: "bt_get t (entry_parts e) = None" if d: "\<not> ze_directory e"
  proof (rule ccontr)
    assume "bt_get t (entry_parts e) \<noteq> None"
    then obtain n d' e' where old: "e' \<in> set ds" "(entry_parts e, d') \<in> name_set e'"
      using Cons.prems(5) by (force simp: named_def all_names_def)
    then have v: "validate_name (entry_name (ze_name e')) = Ok ()" using Cons.prems(4) by simp
    have "(entry_parts e, d') \<in> ?P" "(entry_parts e, False) \<in> ?P"
      using old whole_name [OF valid] d by (auto simp: all_names_def)
    then have "\<not> d'" using kind by (auto simp: one_kind_def)
    then obtain i where "i \<le> length (entry_parts e')" "entry_parts e = take i (entry_parts e')" "\<not> i < length (entry_parts e')"
      using old(2) name_set_split [OF v] by auto
    then have "entry_parts e = entry_parts e'" by simp
    then have "entry_name (ze_name e) = entry_name (ze_name e')"
      using join_split by (metis entry_parts_split [OF v] entry_parts_split [OF valid])
    then have "entry_key e \<in> set (map entry_key ds)" using old(1) by (force simp: entry_key_def)
    then show False using Cons.prems(3) by auto
  qed
  have fits: "written + unat (ze_size e) \<le> unat MAX_EXTRACTED_BYTES" "ze_directory e \<Longrightarrow> ze_size e = 0"
    using Cons.prems(1,8) by auto
  obtain t1 where t1: "extract_entry a index e written [] t = (Ok (written + unat (ze_size e)), [], t1)"
    using plain_entry [OF valid P(1) kind named new f fits] by blast
  have "wr (extract_entry a index e written) (\<lambda>w t'. step_ok ?P t w t') (\<lambda>_. True) t"
    by (rule wr_extract_entry [OF valid P(1) named Cons.prems(6)]) (use fits in auto)
  from wrD(1) [OF this t1 refl] have step: "named ?P t1" "stored t1 = written + unat (ze_size e)" by (simp_all add: step_ok_def)
  have "\<exists>f. za_by_index a (Suc index + i) = Ok f \<and> decodes f (es ! i)" if "i < length es" for i
    using Cons.prems(7) [rule_format, of "Suc i"] that by simp
  then have "\<exists>t'. extract_entries a (Suc index) es (written + unat (ze_size e)) [] t1 = (Ok (), [], t')"
    using Cons.prems step valid by (intro Cons.IH [of "ds @ [e]"]) auto
  then show ?case using t1 by (simp add: w_then_def)
qed

lemma plain_archive:
  assumes "preflight bytes = Ok es" "z bytes = Ok a" "za_len a = length es" "za_offset a = 0" "za_overlapping a = Ok False"
    and "\<forall>i<length es. \<exists>f. za_by_index a i = Ok f \<and> decodes f (es ! i)"
  shows "\<exists>t. extract_archive z bytes [] bt_empty = (Ok (), [], t)"
proof -
  obtain s central_start where s: "zs_entries s = es" "scan_ok central_start s" by (rule preflightE [OF assms(1)])
  have entries: "\<forall>e\<in>set es. validate_name (entry_name (ze_name e)) = Ok () \<and> (ze_directory e \<longrightarrow> ze_size e = 0)"
    "distinct (map entry_key ([] @ es))"
    using s by (auto simp: scan_ok_def list_all_iff entry_ok_def names_ok_def)
  have kind: "one_kind (all_names ([] @ es))"
    using all_names_same [OF s(2)] unfolding one_kind_def by (simp add: s(1))
  have "int (\<Sum>e\<leftarrow>es. unat (ze_size e)) = (\<Sum>e\<leftarrow>es. uint (ze_size e))" by (induction es) simp_all
  then have "0 + (\<Sum>e\<leftarrow>es. unat (ze_size e)) \<le> unat MAX_EXTRACTED_BYTES"
    using s by (simp add: scan_ok_def sizes_ok_def word_le_def MAX_EXTRACTED_BYTES_def)
  then obtain t where t: "extract_entries a 0 es 0 [] bt_empty = (Ok (), [], t)"
    using plain_entries [OF entries(1) kind entries(2), of bt_empty 0 a 0] assms(6) by auto
  then show ?thesis
    by (simp add: extract_archive_def w_then_def w_return_def assms(1-5))
qed

text \<open>
  C10: what the check accepted can be extracted. When the decoder agrees with the checked headers
  and gives each file as many bytes as its header says, and the operating system refuses no call,
  the extraction into an empty directory returns, each entry is there with the decoded contents,
  and nothing else is.
\<close>

theorem accepted_archive_extracts:
  assumes "preflight bytes = Ok es" "z bytes = Ok a" "za_len a = length es" "za_offset a = 0" "za_overlapping a = Ok False"
    and "\<forall>i<length es. \<exists>f. za_by_index a i = Ok f \<and> decodes f (es ! i)"
  shows "\<exists>t. extract_archive z bytes [] bt_empty = (Ok (), [], t)
    \<and> (\<forall>i<length es. \<exists>f. za_by_index a i = Ok f \<and> created f (es ! i) t)
    \<and> (\<forall>k. bt_has t k \<longleftrightarrow> (\<exists>d. (k, d) \<in> all_names es))"
proof -
  obtain t where run: "extract_archive z bytes [] bt_empty = (Ok (), [], t)" using plain_archive [of bytes es z a, OF assms] by blast
  obtain s central_start where s: "zs_entries s = es" "scan_ok central_start s" by (rule preflightE [OF assms(1)])
  have entries: "\<forall>e\<in>set es. validate_name (entry_name (ze_name e)) = Ok ()"
    using s by (auto simp: scan_ok_def list_all_iff entry_ok_def)
  have "wr (extract_archive z bytes) (\<lambda>_ t. named (all_names es) t
      \<and> (\<forall>i<length es. \<exists>f. za_by_index a i = Ok f \<and> created f (es ! i) t)) (\<lambda>_. True) bt_empty"
    by (rule wr_extract_archive [OF assms(1)]) (use assms(2) in auto)
  from wrD(1) [OF this run refl] have facts: "named (all_names es) t"
    "\<forall>i<length es. \<exists>f. za_by_index a i = Ok f \<and> created f (es ! i) t" by auto
  have "bt_has t k" if in_names: "(k, d) \<in> all_names es" for k d
  proof -
    obtain i where i: "i < length es" "(k, d) \<in> name_set (es ! i)"
    proof -
      obtain e where "e \<in> set es" "(k, d) \<in> name_set e" using in_names unfolding all_names_def by blast
      then show thesis using that by (auto simp: in_set_conv_nth)
    qed
    then obtain f where f: "created f (es ! i) t" "validate_name (entry_name (ze_name (es ! i))) = Ok ()"
      using facts(2) entries(1) by force
    have "d \<or> k = entry_parts (es ! i) \<and> \<not> ze_directory (es ! i)"
      using i(2) name_set_split [OF f(2)] by auto
    then show ?thesis using f(1) i(2) by (auto simp: created_def)
  qed
  moreover have "\<exists>d. (k, d) \<in> all_names es" if "bt_has t k" for k
    using facts(1) that by (auto simp: named_def)
  ultimately show ?thesis using run facts(2) by blast
qed

end
