(* ===== verification/Archive_Demo.thy ===== *)
theory Archive_Demo
  imports Archive_Completes
begin

text \<open>
  An archive with a manifest and a script in a folder, as the ZIP writer of another program made it.
\<close>

definition demo_zip :: string where
  "demo_zip =
     ''PK'' @ [CHR 0x03, CHR 0x04, CHR 0x14, CHR 0x00, CHR 0x00, CHR 0x00, CHR 0x00, CHR 0x00, CHR 0x00, CHR 0x00, CHR
     0x21, CHR 0x00] @ ''C'' @ [CHR 0xbf, CHR 0xa6, CHR 0xa3, CHR 0x02, CHR 0x00, CHR 0x00, CHR 0x00, CHR 0x02, CHR
     0x00, CHR 0x00, CHR 0x00, CHR 0x0b, CHR 0x00, CHR 0x00, CHR 0x00] @ ''codlet.json{}PK'' @ [CHR 0x03, CHR 0x04,
     CHR 0x14, CHR 0x00, CHR 0x00, CHR 0x00, CHR 0x00, CHR 0x00, CHR 0x00, CHR 0x00, CHR 0x21, CHR 0x00, CHR 0xb7, CHR
     0xef, CHR 0xdc, CHR 0x83, CHR 0x01, CHR 0x00, CHR 0x00, CHR 0x00, CHR 0x01, CHR 0x00, CHR 0x00, CHR 0x00, CHR
     0x06, CHR 0x00, CHR 0x00, CHR 0x00] @ ''a/b.js1PK'' @ [CHR 0x01, CHR 0x02, CHR 0x14, CHR 0x00, CHR 0x14, CHR
     0x00, CHR 0x00, CHR 0x00, CHR 0x00, CHR 0x00, CHR 0x00, CHR 0x00, CHR 0x21, CHR 0x00] @ ''C'' @ [CHR 0xbf, CHR
     0xa6, CHR 0xa3, CHR 0x02, CHR 0x00, CHR 0x00, CHR 0x00, CHR 0x02, CHR 0x00, CHR 0x00, CHR 0x00, CHR 0x0b, CHR
     0x00, CHR 0x00, CHR 0x00, CHR 0x00, CHR 0x00, CHR 0x00, CHR 0x00, CHR 0x00, CHR 0x00, CHR 0x00, CHR 0x00, CHR
     0x80, CHR 0x01, CHR 0x00, CHR 0x00, CHR 0x00, CHR 0x00] @ ''codlet.jsonPK'' @ [CHR 0x01, CHR 0x02, CHR 0x14, CHR
     0x00, CHR 0x14, CHR 0x00, CHR 0x00, CHR 0x00, CHR 0x00, CHR 0x00, CHR 0x00, CHR 0x00, CHR 0x21, CHR 0x00, CHR
     0xb7, CHR 0xef, CHR 0xdc, CHR 0x83, CHR 0x01, CHR 0x00, CHR 0x00, CHR 0x00, CHR 0x01, CHR 0x00, CHR 0x00, CHR
     0x00, CHR 0x06, CHR 0x00, CHR 0x00, CHR 0x00, CHR 0x00, CHR 0x00, CHR 0x00, CHR 0x00, CHR 0x00, CHR 0x00, CHR
     0x00, CHR 0x00, CHR 0x80, CHR 0x01, CHR 0x2b, CHR 0x00, CHR 0x00, CHR 0x00] @ ''a/b.jsPK'' @ [CHR 0x05, CHR 0x06,
     CHR 0x00, CHR 0x00, CHR 0x00, CHR 0x00, CHR 0x02, CHR 0x00, CHR 0x02, CHR 0x00] @ ''m'' @ [CHR 0x00, CHR 0x00,
     CHR 0x00] @ ''P'' @ [CHR 0x00, CHR 0x00, CHR 0x00, CHR 0x00, CHR 0x00]"

definition demo_zip_entries :: "zip_entry list" where
  "demo_zip_entries =
     [\<lparr>ze_name = ''codlet.json'', ze_size = 2, ze_compressed = 2, ze_local_offset = 0, ze_data_end = 43, ze_directory = False\<rparr>,
      \<lparr>ze_name = ''a/b.js'', ze_size = 1, ze_compressed = 1, ze_local_offset = 43, ze_data_end = 80, ze_directory = False\<rparr>]"

lemma demo_preflight: "preflight demo_zip = Ok demo_zip_entries"
  by code_simp

text \<open>A decoder that agrees with the headers, and the contents it gives.\<close>

definition demo_content :: "zip_entry \<Rightarrow> (string, string) outcome list" where
  "demo_content e = (if ze_size e = 2 then [Ok ''{'', Ok ''}''] else [Ok ''1''])"

definition demo_zip_file :: "zip_entry \<Rightarrow> zip_file" where
  "demo_zip_file e = \<lparr>zf_name_raw = ze_name e, zf_name = ze_name e, zf_size = ze_size e, zf_compressed = ze_compressed e,
     zf_symlink = False, zf_encrypted = False, zf_reads = demo_content e\<rparr>"

definition demo_archive :: zip_archive where
  "demo_archive = \<lparr>za_len = 2, za_offset = 0, za_overlapping = Ok False,
     za_by_index = (\<lambda>i. if i < 2 then Ok (demo_zip_file (demo_zip_entries ! i)) else Err ''index'')\<rparr>"

definition demo_zip_reader :: zip_reader where
  "demo_zip_reader bytes = Ok demo_archive"

lemma demo_zip_length: "length demo_zip_entries = 2"
  by (simp add: demo_zip_entries_def)

lemma demo_decodes:
  assumes "i < 2"
  shows "decodes (demo_zip_file (demo_zip_entries ! i)) (demo_zip_entries ! i)"
proof -
  have "i = 0 \<or> i = 1" using assms by auto
  then show ?thesis
    by (auto simp: decodes_def agrees_def demo_zip_file_def demo_content_def demo_zip_entries_def)
qed

theorem accepted_archive_safe_witness:
  "preflight demo_zip = Ok demo_zip_entries \<and> distinct (map entry_key demo_zip_entries)
    \<and> (\<Sum>e\<leftarrow>demo_zip_entries. uint (ze_size e)) \<le> 67108864"
  using demo_preflight accepted_archive_safe [OF demo_preflight] by blast

theorem archive_bytes_accounted_witness:
  "\<exists>end_record central_start. is_end_record demo_zip end_record \<and> central_start \<le> end_record
    \<and> (\<forall>k. length (filter (\<lambda>e. covers k (entry_range e)) demo_zip_entries) = (if k < central_start then 1 else 0))"
  using archive_bytes_accounted [OF demo_preflight] by blast

text \<open>The first write is refused, after a byte of it.\<close>

theorem extraction_confined_witness:
  "\<exists>r as' t. extract_archive demo_zip_reader demo_zip [None, Some 1] bt_empty = (r, as', t)
    \<and> bt_len t \<le> 2048 \<and> stored t \<le> 67108864"
proof -
  obtain r as' t where run: "extract_archive demo_zip_reader demo_zip [None, Some 1] bt_empty = (r, as', t)"
    by (metis prod_cases3)
  from extraction_confined [OF run] run show ?thesis by blast
qed

theorem accepted_archive_extracts_witness:
  "\<exists>t. extract_archive demo_zip_reader demo_zip [] bt_empty = (Ok (), [], t)
    \<and> (\<forall>k. bt_has t k \<longleftrightarrow> (\<exists>d. (k, d) \<in> all_names demo_zip_entries))"
proof -
  have "\<forall>i<length demo_zip_entries. \<exists>f. za_by_index demo_archive i = Ok f \<and> decodes f (demo_zip_entries ! i)"
    using demo_decodes by (simp add: demo_archive_def demo_zip_length)
  from accepted_archive_extracts [OF demo_preflight _ _ _ _ this, of demo_zip_reader] show ?thesis
    by (simp add: demo_zip_reader_def demo_archive_def demo_zip_length) blast
qed

end
