(* ===== verification/Github_Releases.thy ===== *)
theory Github_Releases
  imports Managed_Packages Archive
begin

text \<open>
  The client of GitHub's public releases (\<open>GitHubClient\<close> of \<open>src/src/github_distribution.rs\<close>): the
  requests it makes and follows, the checks on what the API answers, the list of releases, and the
  download of an asset into a package directory.

  The network is the list of the answers to the requests, in their order; the requests that were
  sent are recorded. The URL library, the decoders of the answers, SHA-256 and the readers of an
  extracted directory are arguments (\<open>github_net\<close>). An error is represented by its code.
\<close>

section \<open>Data\<close>

text \<open>What the client looks at of a URL; \<open>wu_rest\<close> is its path and query.\<close>

record web_url =
  wu_scheme :: string
  wu_username :: string
  wu_password :: "string option"
  wu_port :: "nat option"
  wu_fragment :: "string option"
  wu_host :: "string option"
  wu_rest :: string

record web_reply =
  wr_status :: nat
  wr_location :: "string option"
  wr_encoding :: "string option"
  wr_length :: "u64 option"
  wr_chunks :: "(string, string) outcome list"

record web_state =
  wb_sent :: "(web_url \<times> bool) list"
  wb_replies :: "(string, web_reply) outcome list"

type_synonym 'a web = "web_state \<Rightarrow> 'a github_result \<times> web_state"

record api_asset =
  aa_id :: u64
  aa_name :: string
  aa_size :: u64
  aa_content_type :: string
  aa_url :: string
  aa_state :: string
  aa_digest :: "string option"
  aa_count :: "u64 option"

record api_release =
  ar_id :: u64
  ar_tag :: string
  ar_name :: "string option"
  ar_url :: string
  ar_draft :: bool
  ar_prerelease :: bool
  ar_published_at :: "string option"
  ar_assets :: "api_asset list"

record api_identity =
  ai_id :: u64
  ai_url :: string
  ai_full_name :: string
  ai_owner_id :: u64
  ai_owner_login :: string

record repository_identity =
  ri_repository_id :: u64
  ri_owner_id :: u64

record github_asset =
  ga_id :: u64
  ga_name :: string
  ga_size :: u64
  ga_content_type :: string
  ga_download_url :: string
  ga_digest :: "string option"
  ga_download_count :: "u64 option"

record github_release =
  gh_id :: u64
  gh_tag :: string
  gh_name :: string
  gh_url :: string
  gh_prerelease :: bool
  gh_published_at :: "string option"
  gh_assets :: "github_asset list"

record release_catalog =
  ct_repository :: github_repository
  ct_releases :: "github_release list"
  ct_truncated :: bool
  ct_requested_tag :: "string option"
  ct_requested_asset :: "string option"

record github_net =
  gn_api :: "string list \<Rightarrow> string option \<Rightarrow> web_url"
  gn_join :: "web_url \<Rightarrow> string \<Rightarrow> web_url option"
  gn_release :: "string \<Rightarrow> api_release option"
  gn_releases :: "string \<Rightarrow> api_release list option"
  gn_assets :: "string \<Rightarrow> api_asset list option"
  gn_identity :: "string \<Rightarrow> api_identity option"
  gn_sha256 :: "string \<Rightarrow> string"
  gn_reader :: zip_reader
  gn_tree :: "file_tree \<Rightarrow> package_tree"

section \<open>Requests\<close>

definition web_return :: "'a github_result \<Rightarrow> 'a web" where
  "web_return r = (\<lambda>s. (r, s))"

definition web_then :: "'a web \<Rightarrow> ('a \<Rightarrow> 'b web) \<Rightarrow> 'b web" where
  "web_then m f = (\<lambda>s. case m s of
     (Ok x, s) \<Rightarrow> f x s
   | (Err e, s) \<Rightarrow> (Err e, s)
   | (Panic, s) \<Rightarrow> (Panic, s))"

definition trusted_url :: "web_url \<Rightarrow> bool \<Rightarrow> bool" where
  "trusted_url url asset =
     (wu_scheme url = ''https'' \<and> wu_username url = [] \<and> wu_password url = None
      \<and> wu_port url = None \<and> wu_fragment url = None
      \<and> (case wu_host url of
           None \<Rightarrow> False
         | Some host \<Rightarrow>
             host = ''api.github.com''
             \<or> ((host = ''github.com'' \<or> host = ''release-assets.githubusercontent.com''
                 \<or> host = ''objects.githubusercontent.com'') \<and> asset)))"

definition web_send :: "web_url \<Rightarrow> bool \<Rightarrow> web_reply web" where
  "web_send url asset = (\<lambda>s.
     (case wb_replies s of [] \<Rightarrow> Err ''github_network'' | r # _ \<Rightarrow> r,
      s\<lparr>wb_sent := wb_sent s @ [(url, asset)], wb_replies := drop 1 (wb_replies s)\<rparr>))"

definition status_error :: "nat \<Rightarrow> string" where
  "status_error status =
     (if status = 403 \<or> status = 429 then ''github_rate_limited''
      else if status = 404 then ''github_not_found'' else ''github_http_error'')"

text \<open>The loop that reads the body.\<close>

fun read_body :: "u64 \<Rightarrow> (string, string) outcome list \<Rightarrow> string \<Rightarrow> string github_result" where
  "read_body limit [] bytes = Ok bytes"
| "read_body limit (r # rs) bytes =
     and_then r (\<lambda>chunk.
     if int (length chunk) > max 0 (uint limit - int (length bytes)) then Err ''github_response_limit''
     else read_body limit rs (bytes @ chunk))"

definition read_reply :: "u64 \<Rightarrow> web_reply \<Rightarrow> string github_result" where
  "read_reply limit r =
     (if wr_status r \<noteq> 200 then Err (status_error (wr_status r))
      else if (case wr_encoding r of None \<Rightarrow> False | Some v \<Rightarrow> v \<noteq> ''identity'') then Err ''github_response_invalid''
      else if (case wr_length r of None \<Rightarrow> False | Some n \<Rightarrow> limit < n) then Err ''github_response_limit''
      else read_body limit (wr_chunks r) [])"

text \<open>\<open>for hop in 0..=5\<close>: the list of the hops that are left.\<close>

fun get_hops :: "github_net \<Rightarrow> nat list \<Rightarrow> web_url \<Rightarrow> bool \<Rightarrow> u64 \<Rightarrow> string web" where
  "get_hops v [] url asset limit = web_return Panic"
| "get_hops v (hop # hops) url asset limit =
     (if \<not> trusted_url url asset then web_return (Err ''github_redirect_rejected'')
      else web_then (web_send url asset) (\<lambda>r.
        if 300 \<le> wr_status r \<and> wr_status r < 400 then
          (if hop = 5 then web_return (Err ''github_redirect_limit'')
           else case wr_location r of
             None \<Rightarrow> web_return (Err ''github_redirect_rejected'')
           | Some location \<Rightarrow>
               (case gn_join v url location of
                  None \<Rightarrow> web_return (Err ''github_redirect_rejected'')
                | Some url \<Rightarrow> get_hops v hops url asset limit))
        else web_return (read_reply limit r)))"

definition get_url :: "github_net \<Rightarrow> web_url \<Rightarrow> bool \<Rightarrow> u64 \<Rightarrow> string web" where
  "get_url v = get_hops v [0..<6]"

definition get_json :: "github_net \<Rightarrow> (string \<Rightarrow> 'a option) \<Rightarrow> web_url \<Rightarrow> 'a web" where
  "get_json v decoder url =
     web_then (get_url v url False MAX_API_BYTES) (\<lambda>bytes.
     web_return (case decoder bytes of None \<Rightarrow> Err ''github_response_invalid'' | Some x \<Rightarrow> Ok x))"

definition endpoint :: "github_net \<Rightarrow> github_repository \<Rightarrow> string list \<Rightarrow> string option \<Rightarrow> web_url" where
  "endpoint v r suffix query = gn_api v ([''repos'', gr_owner r, gr_name r] @ suffix) query"

section \<open>Checked releases\<close>

definition offered :: "api_asset \<Rightarrow> bool" where
  "offered a = (aa_state a = ''uploaded'' \<and> ends_with ''.zip'' (ascii_lowercase (aa_name a)))"

definition strip_prefix :: "string \<Rightarrow> string \<Rightarrow> string option" where
  "strip_prefix p s = (if starts_with p s then Some (drop (length p) s) else None)"

definition bad_digest :: "api_asset \<Rightarrow> bool" where
  "bad_digest a =
     (case aa_digest a of
        None \<Rightarrow> False
      | Some d \<Rightarrow> (case strip_prefix ''sha256:'' d of None \<Rightarrow> True | Some h \<Rightarrow> \<not> valid_sha256 h))"

definition asset_of :: "api_asset \<Rightarrow> github_asset" where
  "asset_of a =
     \<lparr>ga_id = aa_id a, ga_name = aa_name a, ga_size = aa_size a, ga_content_type = aa_content_type a,
      ga_download_url = aa_url a, ga_digest = aa_digest a, ga_download_count = aa_count a\<rparr>"

fun check_assets ::
    "github_repository \<Rightarrow> string \<Rightarrow> api_asset list \<Rightarrow> u64 set \<Rightarrow> string set \<Rightarrow> github_asset list github_result" where
  "check_assets repository tag [] ids names = Ok []"
| "check_assets repository tag (a # as) ids names =
     (if \<not> offered a then check_assets repository tag as ids names
      else if \<not> valid_asset_name (aa_name a) \<or> aa_id a = 0 \<or> aa_id a \<in> ids
        \<or> ascii_lowercase (aa_name a) \<in> names
      then Err ''github_response_invalid''
      else and_then (map_err (\<lambda>_. ''github_response_invalid'') (link_parse (aa_url a))) (\<lambda>link.
      if gl_repository link \<noteq> repository \<or> gl_tag link \<noteq> Some tag \<or> gl_asset_name link \<noteq> Some (aa_name a)
      then Err ''github_response_invalid''
      else if bad_digest a then Err ''github_digest_unsupported''
      else and_then (check_assets repository tag as (insert (aa_id a) ids)
             (insert (ascii_lowercase (aa_name a)) names)) (\<lambda>rest.
      Ok (asset_of a # rest))))"

definition checked_release :: "github_repository \<Rightarrow> api_release \<Rightarrow> github_release github_result" where
  "checked_release repository r =
     and_then (map_err (\<lambda>_. ''github_response_invalid'') (link_parse (ar_url r))) (\<lambda>link.
     if ar_id r = 0 \<or> ar_draft r \<or> \<not> valid_tag (ar_tag r) \<or> gl_repository link \<noteq> repository
       \<or> gl_tag link \<noteq> Some (ar_tag r) \<or> gl_asset_name link \<noteq> None \<or> 100 < length (ar_assets r)
       \<or> (case ar_name r of None \<Rightarrow> False | Some n \<Rightarrow> 1024 < length n)
     then Err ''github_response_invalid''
     else and_then (check_assets repository (ar_tag r) (ar_assets r) {} {}) (\<lambda>assets.
     Ok \<lparr>gh_id = ar_id r, gh_tag = ar_tag r,
         gh_name = (case ar_name r of None \<Rightarrow> ar_tag r | Some n \<Rightarrow> n), gh_url = ar_url r,
         gh_prerelease = ar_prerelease r, gh_published_at = ar_published_at r, gh_assets = assets\<rparr>))"

definition hydrate_release_assets :: "github_net \<Rightarrow> github_repository \<Rightarrow> api_release \<Rightarrow> api_release web" where
  "hydrate_release_assets v repository r =
     (if ar_id r = 0 then web_return (Err ''github_response_invalid'')
      else web_then (get_json v (gn_assets v)
             (endpoint v repository [''releases'', show_u64 (ar_id r), ''assets''] (Some ''per_page=100&page=1''))) (\<lambda>assets.
      web_return
        (if 100 \<le> length assets then Err ''github_response_limit''
         else if list_ex (\<lambda>a. aa_id a = 0) assets \<or> \<not> distinct (map aa_id assets) then Err ''github_response_invalid''
         else Ok (r\<lparr>ar_assets := assets\<rparr>))))"

definition fetch_repository_identity :: "github_net \<Rightarrow> github_repository \<Rightarrow> repository_identity web" where
  "fetch_repository_identity v repository =
     web_then (get_json v (gn_identity v) (endpoint v repository [] None)) (\<lambda>x.
     web_return
       (and_then (repository_parse (ai_url x)) (\<lambda>canonical.
        if ai_id x = 0 \<or> ai_owner_id x = 0 \<or> canonical \<noteq> repository
          \<or> ascii_lowercase (ai_full_name x) \<noteq> gr_owner repository @ [slash] @ gr_name repository
          \<or> \<not> eq_ignore_case (ai_owner_login x) (gr_owner repository)
        then Err ''github_repository_changed''
        else Ok \<lparr>ri_repository_id = ai_id x, ri_owner_id = ai_owner_id x\<rparr>)))"

definition verify_update_identity ::
    "github_net \<Rightarrow> github_repository \<Rightarrow> u64 option \<Rightarrow> u64 option \<Rightarrow> unit web" where
  "verify_update_identity v repository repository_id owner_id =
     web_then (fetch_repository_identity v repository) (\<lambda>x.
     web_return
       (if (case repository_id of None \<Rightarrow> False | Some i \<Rightarrow> i \<noteq> ri_repository_id x)
          \<or> (case owner_id of None \<Rightarrow> False | Some i \<Rightarrow> i \<noteq> ri_owner_id x)
        then Err ''github_repository_changed'' else Ok ()))"

section \<open>The list of releases\<close>

text \<open>The releases as the API gives them, and whether there are more.\<close>

definition fetch_releases :: "github_net \<Rightarrow> github_link \<Rightarrow> (api_release list \<times> bool) web" where
  "fetch_releases v link =
     (case gl_tag link of
        Some tag \<Rightarrow>
          web_then (get_json v (gn_release v) (endpoint v (gl_repository link) [''releases'', ''tags'', tag] None)) (\<lambda>r.
          web_return (if ar_tag r \<noteq> tag then Err ''github_release_changed'' else Ok ([r], False)))
      | None \<Rightarrow>
          if gl_latest link then
            web_then (get_json v (gn_release v) (endpoint v (gl_repository link) [''releases'', ''latest''] None)) (\<lambda>r.
            web_return (Ok ([r], False)))
          else
            web_then (get_json v (gn_releases v)
              (endpoint v (gl_repository link) [''releases''] (Some ''per_page=100&page=1''))) (\<lambda>rs.
            web_return (if 100 < length rs then Err ''github_response_limit'' else Ok (rs, length rs = 100))))"

fun list_each ::
    "github_net \<Rightarrow> github_repository \<Rightarrow> api_release list \<Rightarrow> u64 set \<Rightarrow> nat \<Rightarrow> bool
     \<Rightarrow> (github_release list \<times> bool) web" where
  "list_each v repository [] seen fallbacks truncated = web_return (Ok ([], truncated))"
| "list_each v repository (r # rs) seen fallbacks truncated =
     (if ar_draft r then list_each v repository rs seen fallbacks truncated
      else web_then
        (if ar_assets r = [] \<and> fallbacks < 4
         then web_then (hydrate_release_assets v repository r) (\<lambda>r. web_return (Ok (r, Suc fallbacks, truncated)))
         else web_return (Ok (r, fallbacks, truncated \<or> ar_assets r = []))) (\<lambda>(r, fallbacks, truncated).
      web_then (web_return (checked_release repository r)) (\<lambda>release.
      if gh_id release \<in> seen then web_return (Err ''github_response_invalid'')
      else web_then (list_each v repository rs (insert (gh_id release) seen) fallbacks truncated) (\<lambda>(rest, truncated).
      web_return (Ok (release # rest, truncated))))))"

definition list_releases :: "github_net \<Rightarrow> github_link \<Rightarrow> release_catalog web" where
  "list_releases v link =
     web_then (web_return (repository_validate (gl_repository link))) (\<lambda>_.
     if (case gl_tag link of None \<Rightarrow> False | Some s \<Rightarrow> \<not> valid_tag s)
       \<or> (case gl_asset_name link of None \<Rightarrow> False | Some s \<Rightarrow> \<not> valid_asset_name s)
     then web_return (Err ''invalid_github_url'')
     else web_then (fetch_releases v link) (\<lambda>(releases, truncated).
     web_then (list_each v (gl_repository link) releases {} 0 truncated) (\<lambda>(output, truncated).
     web_return (Ok \<lparr>ct_repository = gl_repository link, ct_releases = output, ct_truncated = truncated,
       ct_requested_tag = gl_tag link, ct_requested_asset = gl_asset_name link\<rparr>))))"

section \<open>The download of an asset\<close>

definition fetch_asset ::
    "github_net \<Rightarrow> github_repository \<Rightarrow> u64 \<Rightarrow> u64
     \<Rightarrow> (github_release \<times> github_asset \<times> repository_identity \<times> string) web" where
  "fetch_asset v repository release_id asset_id =
     web_then (web_return (repository_validate repository)) (\<lambda>_.
     if release_id = 0 \<or> asset_id = 0 then web_return (Err ''invalid_github_selection'')
     else web_then (get_json v (gn_release v) (endpoint v repository [''releases'', show_u64 release_id] None)) (\<lambda>r.
     if ar_id r \<noteq> release_id then web_return (Err ''github_release_changed'')
     else web_then (if ar_assets r = [] then hydrate_release_assets v repository r else web_return (Ok r)) (\<lambda>r.
     web_then (web_return (checked_release repository r)) (\<lambda>release.
     if gh_id release \<noteq> release_id then web_return (Err ''github_release_changed'')
     else case find (\<lambda>a. ga_id a = asset_id) (gh_assets release) of
       None \<Rightarrow> web_return (Err ''github_asset_missing'')
     | Some asset \<Rightarrow>
         if ga_size asset = 0 \<or> MAX_ARCHIVE_BYTES < ga_size asset then web_return (Err ''github_archive_limit'')
         else web_then (fetch_repository_identity v repository) (\<lambda>identity.
         web_then (get_url v (endpoint v repository [''releases'', ''assets'', show_u64 asset_id] None) True (ga_size asset)) (\<lambda>bytes.
         web_return (Ok (release, asset, identity, bytes))))))))"

definition source_of ::
    "github_repository \<Rightarrow> github_release \<Rightarrow> github_asset \<Rightarrow> string \<Rightarrow> repository_identity option \<Rightarrow> github_source" where
  "source_of repository release asset sha256 identity =
     \<lparr>gs_repository_url = gr_url repository, gs_owner = gr_owner repository, gs_repository = gr_name repository,
      gs_release_id = gh_id release, gs_tag = gh_tag release, gs_asset_id = ga_id asset,
      gs_asset_name = ga_name asset, gs_asset_url = ga_download_url asset, gs_asset_size = ga_size asset,
      gs_sha256 = sha256, gs_upstream_digest_verified = (ga_digest asset \<noteq> None),
      gs_repository_id = map_option ri_repository_id identity, gs_owner_id = map_option ri_owner_id identity,
      gs_release_published_at = gh_published_at release\<rparr>"

text \<open>
  The files are written one by one; what an extraction that fails leaves is a fragment, which the
  guard of the temporary directory removes.
\<close>

definition extract_into :: "github_net \<Rightarrow> nat option list \<Rightarrow> string \<Rightarrow> string \<Rightarrow> package_tree io" where
  "extract_into v answers bytes path =
     (case extract_archive (gn_reader v) bytes answers bt_empty of
        (Ok _, _, t) \<Rightarrow>
          io_then (os_call (put_entry path (Package \<lparr>pg_tree = gn_tree v t, pg_receipt = None\<rparr>))) (\<lambda>_.
          ret (gn_tree v t))
      | (Err e, _, _) \<Rightarrow> fails (PackageProblem e)
      | (Panic, _, _) \<Rightarrow> panics)"

definition write_receipt ::
    "github_repository \<Rightarrow> github_release \<Rightarrow> github_asset \<Rightarrow> string \<Rightarrow> repository_identity option
     \<Rightarrow> package_tree \<Rightarrow> string \<Rightarrow> prepared_package io" where
  "write_receipt repository release asset sha256 identity t path =
     io_then os_read (\<lambda>_.
     io_then (lift_outcome (\<lambda>_. PackageProblem ''github_package_invalid'') (pt_manifest t)) (\<lambda>manifest.
     io_then (lift_outcome PackageProblem (pt_metadata t)) (\<lambda>metadata.
     let source = source_of repository release asset sha256 identity in
     io_then (lift_outcome PackageProblem (pt_digest t)) (\<lambda>digest.
     io_then (os_call (put_entry path (Package \<lparr>pg_tree = t,
       pg_receipt = Some \<lparr>rc_schema = 2, rc_path = None, rc_source = source, rc_tree = digest\<rparr>\<rparr>))) (\<lambda>_.
     ret \<lparr>pp_path = path, pp_source = source, pp_manifest = manifest, pp_metadata = metadata\<rparr>)))))"

definition prepare_bytes ::
    "install_env \<Rightarrow> github_net \<Rightarrow> nat option list \<Rightarrow> github_repository \<Rightarrow> github_release \<Rightarrow> github_asset
     \<Rightarrow> string \<Rightarrow> repository_identity option \<Rightarrow> prepared_package io" where
  "prepare_bytes e v answers repository release asset bytes identity =
     io_then (check_that (int (length bytes) = uint (ga_size asset)) (PackageProblem ''github_size_mismatch'')) (\<lambda>_.
     let sha256 = gn_sha256 v bytes in
     io_then (check_that (ga_digest asset = None \<or> ga_digest asset = Some (''sha256:'' @ sha256))
       (PackageProblem ''github_digest_mismatch'')) (\<lambda>_.
     io_then os_read (\<lambda>_.
     io_then (fresh_directory e ''download-'') (\<lambda>path.
     guarded path
       (io_then (extract_into v answers bytes path) (\<lambda>t.
        write_receipt repository release asset sha256 identity t path))))))"

definition prepare_asset ::
    "install_env \<Rightarrow> github_net \<Rightarrow> nat option list \<Rightarrow> github_repository \<Rightarrow> u64 \<Rightarrow> u64 \<Rightarrow> web_state
     \<Rightarrow> prepared_package io" where
  "prepare_asset e v answers repository release_id asset_id net =
     (case fst (fetch_asset v repository release_id asset_id net) of
        Err x \<Rightarrow> fails (PackageProblem x)
      | Panic \<Rightarrow> panics
      | Ok (release, asset, identity, bytes) \<Rightarrow>
          prepare_bytes e v answers repository release asset bytes (Some identity))"

end
