(* ===== verification/Github_Properties.thy ===== *)
theory Github_Properties
  imports Github_Releases Install_Operations
begin

text \<open>
  The properties of the release client: which hosts it asks and how often, what a listed release
  can offer, and that a downloaded package passes the inspection of installed packages.
\<close>

section \<open>Requests\<close>

text \<open>
  At most \<open>n\<close> requests, all to URLs that are trusted for their purpose, with downloads of assets
  among them only when \<open>d\<close> is set.
\<close>

definition asked :: "bool \<Rightarrow> nat \<Rightarrow> (web_url \<times> bool) list \<Rightarrow> bool" where
  "asked d n new \<longleftrightarrow>
     list_all (\<lambda>(url, asset). trusted_url url asset \<and> (asset \<longrightarrow> d)) new \<and> length new \<le> n"

definition asks :: "bool \<Rightarrow> nat \<Rightarrow> 'a web \<Rightarrow> bool" where
  "asks d n m \<longleftrightarrow>
     (\<forall>s. \<exists>new. wb_sent (snd (m s)) = wb_sent s @ new \<and> asked d n new)"

lemma asksD:
  assumes "asks d n m" "m s = (r, s')"
  shows "\<exists>new. wb_sent s' = wb_sent s @ new \<and> asked d n new"
proof -
  have "s' = snd (m s)" using assms(2) by simp
  then show ?thesis using assms(1) unfolding asks_def by blast
qed

lemma asks_return: "asks d n (web_return r)"
  by (simp add: asks_def asked_def web_return_def)

lemma asks_then:
  assumes "asks d n m" "\<And>x. asks d k (f x)" "n + k \<le> j"
  shows "asks d j (web_then m f)"
  unfolding asks_def
proof
  fix s
  obtain r s1 where m: "m s = (r, s1)" by (cases "m s")
  obtain new where new: "wb_sent s1 = wb_sent s @ new" "asked d n new"
    using asksD [OF assms(1) m] by blast
  show "\<exists>new. wb_sent (snd (web_then m f s)) = wb_sent s @ new \<and> asked d j new"
  proof (cases r)
    case (Ok x)
    obtain r2 s2 where f: "f x s1 = (r2, s2)" by (cases "f x s1")
    obtain later where "wb_sent s2 = wb_sent s1 @ later" "asked d k later"
      using asksD [OF assms(2) f] by blast
    then show ?thesis
      using new assms(3) by (intro exI [of _ "new @ later"]) (simp add: web_then_def m Ok f asked_def)
  qed (use new assms(3) in \<open>auto simp: web_then_def m asked_def\<close>)
qed

lemma asks_then_return:
  assumes "asks d n m"
  shows "asks d n (web_then m (\<lambda>x. web_return (g x)))"
  by (rule asks_then [OF assms, where k = 0]) (simp_all add: asks_return)

lemma asks_then_pair:
  assumes "asks d n m"
  shows "asks d n (web_then m (\<lambda>(a, b). web_return (g a b)))"
  by (rule asks_then [OF assms, where k = 0]) (auto intro: asks_return)

lemma web_then_return: "web_then (web_return (Ok x)) f = f x"
  by (rule ext) (simp add: web_then_def web_return_def)

lemma web_then_Ok: "web_then (web_then m (\<lambda>x. web_return (Ok (g x)))) f = web_then m (\<lambda>x. f (g x))"
  by (rule ext) (auto simp: web_then_def web_return_def split: prod.split outcome.split)

lemma asks_more: "asks d n m \<Longrightarrow> n \<le> k \<Longrightarrow> asks d k m"
  unfolding asks_def asked_def by (meson order_trans)

lemma asks_more_downloads: "asks d n m \<Longrightarrow> (d \<longrightarrow> d') \<Longrightarrow> asks d' n m"
  by (cases d) (auto simp: asks_def asked_def list_all_iff split: prod.splits, fastforce)

lemma asks_send: "trusted_url url asset \<Longrightarrow> asks asset 1 (web_send url asset)"
  by (simp add: asks_def asked_def web_send_def)

lemma asks_hops: "asks asset (length hops) (get_hops v hops url asset limit)"
proof (induction hops arbitrary: url)
  case (Cons hop hops)
  show ?case
  proof (cases "trusted_url url asset")
    case True
    have "asks asset (length (hop # hops)) (web_then (web_send url asset) (\<lambda>r.
        if 300 \<le> wr_status r \<and> wr_status r < 400 then
          (if hop = 5 then web_return (Err ''github_redirect_limit'')
           else case wr_location r of
             None \<Rightarrow> web_return (Err ''github_redirect_rejected'')
           | Some location \<Rightarrow>
               (case gn_join v url location of
                  None \<Rightarrow> web_return (Err ''github_redirect_rejected'')
                | Some url \<Rightarrow> get_hops v hops url asset limit))
        else web_return (read_reply limit r)))"
      by (rule asks_then [OF asks_send [OF True], where k = "length hops"])
        (use Cons in \<open>auto split: option.split intro: asks_return\<close>)
    then show ?thesis using True by simp
  qed (simp add: asks_return)
qed (simp add: asks_return)

lemma asks_url: "asks asset 6 (get_url v url asset limit)"
  unfolding get_url_def using asks_hops [where hops = "[0..<6]"] by simp

lemma asks_json: "asks d 6 (get_json v decoder url)"
  unfolding get_json_def by (intro asks_then_return asks_more_downloads [OF asks_url]) simp

lemma asks_hydrate: "asks d 6 (hydrate_release_assets v repository r)"
  unfolding hydrate_release_assets_def
  by (auto intro!: asks_return asks_then_return asks_json)

lemma asks_identity: "asks d 6 (fetch_repository_identity v repository)"
  unfolding fetch_repository_identity_def by (intro asks_then_return asks_json)

lemma asks_fetch_releases: "asks d 6 (fetch_releases v link)"
  unfolding fetch_releases_def
  by (auto split: option.split intro!: asks_return asks_then_return asks_json)

lemma asks_list_each: "asks d (6 * (4 - fallbacks)) (list_each v repository rs seen fallbacks truncated)"
proof (induction rs arbitrary: seen fallbacks truncated)
  case (Cons r rs)
  let ?rest = "\<lambda>r n truncated. web_then (web_return (checked_release repository r)) (\<lambda>release.
      if gh_id release \<in> seen then web_return (Err ''github_response_invalid'')
      else web_then (list_each v repository rs (insert (gh_id release) seen) n truncated) (\<lambda>(rest, truncated).
      web_return (Ok (release # rest, truncated))))"
  have rest: "asks d (6 * (4 - n)) (?rest r n truncated)" for r n truncated
    by (rule asks_then [OF asks_return, where k = "6 * (4 - n)" and n = 0])
      (auto intro!: asks_return asks_then_pair Cons)
  show ?case
  proof (cases "ar_draft r")
    case False
    show ?thesis
    proof (cases "ar_assets r = [] \<and> fallbacks < 4")
      case True
      have "asks d (6 * (4 - fallbacks)) (web_then
          (web_then (hydrate_release_assets v repository r) (\<lambda>r. web_return (Ok (r, Suc fallbacks, truncated))))
          (\<lambda>(r, fallbacks, truncated). ?rest r fallbacks truncated))"
        unfolding web_then_Ok prod.case
        by (rule asks_then [OF asks_hydrate rest]) (use True in auto)
      then show ?thesis using False True by simp
    next
      case no: False
      have "asks d (6 * (4 - fallbacks)) (?rest r fallbacks (truncated \<or> ar_assets r = []))" by (rule rest)
      then show ?thesis
        by (simp only: list_each.simps if_not_P [OF False] if_not_P [OF no] web_then_return prod.case)
    qed
  qed (use Cons in simp)
qed (simp add: asks_return)

lemma asks_list_releases: "asks d 30 (list_releases v link)"
proof -
  have each: "asks d 24 (list_each v repository rs seen 0 truncated)" for repository rs seen truncated
    using asks_list_each [where fallbacks = 0] by simp
  have tail: "asks d 30 (web_then (fetch_releases v link) (\<lambda>(releases, truncated).
     web_then (list_each v (gl_repository link) releases {} 0 truncated) (\<lambda>(output, truncated).
     web_return (Ok \<lparr>ct_repository = gl_repository link, ct_releases = output, ct_truncated = truncated,
       ct_requested_tag = gl_tag link, ct_requested_asset = gl_asset_name link\<rparr>))))"
    by (rule asks_then [OF asks_fetch_releases, where k = 24])
      (auto intro!: asks_then_pair each)
  show ?thesis
    unfolding list_releases_def
    by (rule asks_then [OF asks_return, where n = 0 and k = 30]) (auto intro!: asks_return tail)
qed

lemma asks_fetch_asset: "asks True 24 (fetch_asset v repository release_id asset_id)"
proof -
  have download: "asks True 12 (web_then (fetch_repository_identity v repository) (\<lambda>identity.
      web_then (get_url v url True limit) (\<lambda>bytes. web_return (Ok (release, asset, identity, bytes)))))"
    for url limit and release :: github_release and asset :: github_asset
    by (rule asks_then [OF asks_identity, where k = 6]) (auto intro!: asks_then_return asks_url)
  have found: "asks True 12 (case x of
       None \<Rightarrow> web_return (Err ''github_asset_missing'')
     | Some asset \<Rightarrow>
         if ga_size asset = 0 \<or> MAX_ARCHIVE_BYTES < ga_size asset then web_return (Err ''github_archive_limit'')
         else web_then (fetch_repository_identity v repository) (\<lambda>identity.
         web_then (get_url v (url asset) True (ga_size asset)) (\<lambda>bytes.
         web_return (Ok (release, asset, identity, bytes)))))"
    for x :: "github_asset option" and url and release :: github_release
  proof (cases x)
    case (Some asset)
    then show ?thesis using download [of "url asset" "ga_size asset" release asset] by (simp add: asks_return)
  qed (simp add: asks_return)
  have checked: "asks True 12 (web_then (web_return (checked_release repository r)) (\<lambda>release.
      if gh_id release \<noteq> release_id then web_return (Err ''github_release_changed'')
      else case find (\<lambda>a. ga_id a = asset_id) (gh_assets release) of
       None \<Rightarrow> web_return (Err ''github_asset_missing'')
     | Some asset \<Rightarrow>
         if ga_size asset = 0 \<or> MAX_ARCHIVE_BYTES < ga_size asset then web_return (Err ''github_archive_limit'')
         else web_then (fetch_repository_identity v repository) (\<lambda>identity.
         web_then (get_url v (endpoint v repository [''releases'', ''assets'', show_u64 asset_id] None) True (ga_size asset)) (\<lambda>bytes.
         web_return (Ok (release, asset, identity, bytes))))))" for r
    by (rule asks_then [OF asks_return, where n = 0 and k = 12]) (simp_all add: found asks_return)
  have hydrated: "asks True 18 (web_then (if ar_assets r = [] then hydrate_release_assets v repository r else web_return (Ok r)) f)"
    if "\<And>r. asks True 12 (f r)" for r and f :: "api_release \<Rightarrow> (github_release \<times> github_asset \<times> repository_identity \<times> string) web"
    by (rule asks_then [where n = 6 and k = 12]) (simp_all add: that asks_return asks_hydrate)
  have fetched: "asks True 24 (web_then (get_json v (gn_release v) u) f)" if "\<And>r. asks True 18 (f r)"
    for u and f :: "api_release \<Rightarrow> (github_release \<times> github_asset \<times> repository_identity \<times> string) web"
    by (rule asks_then [OF asks_json, where k = 18]) (simp_all add: that)
  have guarded: "asks d n (if b then web_return (Err x) else m)" if "asks d n m"
    for d n b x and m :: "(github_release \<times> github_asset \<times> repository_identity \<times> string) web"
    using that by (simp add: asks_return)
  show ?thesis
    unfolding fetch_asset_def
    by (rule asks_then [OF asks_return, where n = 0 and k = 24], intro guarded fetched hydrated checked) simp
qed

text \<open>The body of a reply never exceeds the limit of the request.\<close>

lemma read_body_bounded:
  "read_body limit rs bytes = Ok body \<Longrightarrow> int (length bytes) \<le> uint limit \<Longrightarrow> int (length body) \<le> uint limit"
  by (induction limit rs bytes rule: read_body.induct) (auto simp: and_then_ok split: if_splits)

lemma get_hops_bounded: "get_hops v hops url asset limit s = (Ok body, s') \<Longrightarrow> int (length body) \<le> uint limit"
proof (induction hops arbitrary: url s)
  case (Cons hop hops)
  obtain r s1 where send: "web_send url asset s = (r, s1)" by (cases "web_send url asset s")
  show ?case
    using Cons read_body_bounded [of limit _ "[]" body]
    by (cases r) (auto simp: web_then_def send web_return_def read_reply_def split: if_splits option.splits)
qed (simp add: web_return_def)

section \<open>What is offered\<close>

text \<open>A published asset of the repository, under the tag of its release.\<close>

definition asset_of_release :: "github_repository \<Rightarrow> string \<Rightarrow> github_asset \<Rightarrow> bool" where
  "asset_of_release repository tag a \<longleftrightarrow>
     ga_id a \<noteq> 0 \<and> valid_asset_name (ga_name a)
     \<and> (\<exists>link. link_parse (ga_download_url a) = Ok link \<and> gl_repository link = repository
          \<and> gl_tag link = Some tag \<and> gl_asset_name link = Some (ga_name a))
     \<and> (\<forall>d. ga_digest a = Some d \<longrightarrow> (\<exists>h. d = ''sha256:'' @ h \<and> valid_sha256 h))"

lemma strip_prefix_Some: "strip_prefix p s = Some h \<longleftrightarrow> s = p @ h"
  by (auto simp: strip_prefix_def starts_with_def) (metis append_take_drop_id)

lemma good_digest: "\<not> bad_digest a \<Longrightarrow> aa_digest a = Some d \<Longrightarrow> \<exists>h. d = ''sha256:'' @ h \<and> valid_sha256 h"
  by (auto simp: bad_digest_def strip_prefix_Some split: option.splits)

lemma check_assets_ok:
  "check_assets repository tag as ids names = Ok out \<Longrightarrow>
     (\<forall>a \<in> set out. asset_of_release repository tag a \<and> ga_id a \<notin> ids) \<and> distinct (map ga_id out)"
proof (induction repository tag as ids names arbitrary: out rule: check_assets.induct)
  case (2 repository tag a as ids names)
  show ?case
  proof (cases "offered a")
    case True
    from 2(3) True obtain link rest where
      a: "valid_asset_name (aa_name a)" "aa_id a \<noteq> 0" "aa_id a \<notin> ids" "link_parse (aa_url a) = Ok link"
        "gl_repository link = repository" "gl_tag link = Some tag" "gl_asset_name link = Some (aa_name a)" "\<not> bad_digest a"
      and rest: "check_assets repository tag as (insert (aa_id a) ids) (insert (ascii_lowercase (aa_name a)) names) = Ok rest"
      and out: "out = asset_of a # rest"
      and names: "ascii_lowercase (aa_name a) \<notin> names"
      by (auto simp: and_then_ok map_err_ok split: if_splits)
    have "asset_of_release repository tag (asset_of a)"
      using a good_digest [OF a(8)] by (auto simp: asset_of_release_def asset_of_def)
    moreover have "(\<forall>a' \<in> set rest. asset_of_release repository tag a' \<and> ga_id a' \<notin> insert (aa_id a) ids)
        \<and> distinct (map ga_id rest)"
      by (rule "2.IH"(2) [of link rest]) (use True a names rest in auto)
    ultimately show ?thesis using out a(3) by (auto simp: asset_of_def)
  qed (use 2 in simp)
qed simp

text \<open>A release as the program shows it.\<close>

definition release_of :: "github_repository \<Rightarrow> github_release \<Rightarrow> bool" where
  "release_of repository r \<longleftrightarrow>
     gh_id r \<noteq> 0 \<and> valid_tag (gh_tag r)
     \<and> (\<exists>link. link_parse (gh_url r) = Ok link \<and> gl_repository link = repository \<and> gl_tag link = Some (gh_tag r))
     \<and> (\<forall>a \<in> set (gh_assets r). asset_of_release repository (gh_tag r) a) \<and> distinct (map ga_id (gh_assets r))"

lemma checked_release_of:
  assumes "checked_release repository r = Ok release"
  shows "release_of repository release \<and> gh_id release = ar_id r \<and> gh_tag release = ar_tag r
    \<and> gh_prerelease release = ar_prerelease r"
  using assms check_assets_ok
  by (fastforce simp: checked_release_def and_then_ok map_err_ok release_of_def split: if_splits)

lemma web_then_Ok_iff:
  "web_then m f s = (Ok y, s') \<longleftrightarrow> (\<exists>x s1. m s = (Ok x, s1) \<and> f x s1 = (Ok y, s'))"
  by (auto simp: web_then_def split: prod.splits outcome.splits)

lemma web_return_Ok_iff: "web_return r s = (Ok y, s') \<longleftrightarrow> r = Ok y \<and> s' = s"
  by (auto simp: web_return_def)

lemma hydrate_keeps:
  "hydrate_release_assets v repository r s = (Ok r', s') \<Longrightarrow>
     ar_id r' = ar_id r \<and> ar_tag r' = ar_tag r \<and> ar_draft r' = ar_draft r \<and> ar_prerelease r' = ar_prerelease r"
  by (auto simp: hydrate_release_assets_def web_then_Ok_iff web_return_Ok_iff split: if_splits)

text \<open>What identifies a release, as the client shows it and as the API gives it.\<close>

definition shown_release :: "github_release \<Rightarrow> u64 \<times> string \<times> bool" where
  "shown_release r = (gh_id r, gh_tag r, gh_prerelease r)"

definition given_release :: "api_release \<Rightarrow> u64 \<times> string \<times> bool" where
  "given_release r = (ar_id r, ar_tag r, ar_prerelease r)"

lemma list_each_ok:
  "list_each v repository rs seen fallbacks truncated s = (Ok (out, cut_off), s') \<Longrightarrow>
     (\<forall>x \<in> set out. release_of repository x \<and> gh_id x \<notin> seen \<and> gh_tag x \<in> ar_tag ` set rs)
     \<and> distinct (map gh_id out) \<and> length out \<le> length rs \<and> (truncated \<longrightarrow> cut_off)
     \<and> map shown_release out = map given_release (filter (\<lambda>r. \<not> ar_draft r) rs)"
proof (induction rs arbitrary: seen fallbacks truncated s out cut_off s')
  case (Cons r rs)
  show ?case
  proof (cases "ar_draft r")
    case False
    let ?first = "if ar_assets r = [] \<and> fallbacks < 4
         then web_then (hydrate_release_assets v repository r) (\<lambda>r. web_return (Ok (r, Suc fallbacks, truncated)))
         else web_return (Ok (r, fallbacks, truncated \<or> ar_assets r = []))"
    obtain r1 n t s1 where first: "?first s = (Ok (r1, n, t), s1)"
      and then1: "web_then (web_return (checked_release repository r1)) (\<lambda>release.
        if gh_id release \<in> seen then web_return (Err ''github_response_invalid'')
        else web_then (list_each v repository rs (insert (gh_id release) seen) n t) (\<lambda>(rest, truncated).
        web_return (Ok (release # rest, truncated)))) s1 = (Ok (out, cut_off), s')"
      using Cons.prems False by (auto simp only: list_each.simps if_False web_then_Ok_iff [of ?first] prod.case)
    have kept: "ar_tag r1 = ar_tag r" "given_release r1 = given_release r" "truncated \<longrightarrow> t"
      using first hydrate_keeps by (auto simp: web_then_Ok_iff web_return_Ok_iff given_release_def split: if_splits)
    obtain release rest where
      r: "checked_release repository r1 = Ok release" "gh_id release \<notin> seen"
        "list_each v repository rs (insert (gh_id release) seen) n t s1 = (Ok (rest, cut_off), s')" "out = release # rest"
      using then1 by (auto simp: web_then_Ok_iff web_return_Ok_iff split: if_splits)
    have "shown_release release = given_release r"
      using checked_release_of [OF r(1)] kept(2) by (simp add: shown_release_def given_release_def)
    then show ?thesis using Cons.IH [OF r(3)] checked_release_of [OF r(1)] r kept False by auto
  next
    case True
    have "list_each v repository rs seen fallbacks truncated s = (Ok (out, cut_off), s')" using Cons.prems True by simp
    from Cons.IH [OF this] True show ?thesis by auto
  qed
qed (simp add: web_return_Ok_iff)

lemma fetch_releases_ok:
  "fetch_releases v link s = (Ok (rs, cut_off), s') \<Longrightarrow>
     length rs \<le> 100 \<and> (\<forall>tag r. gl_tag link = Some tag \<longrightarrow> r \<in> set rs \<longrightarrow> ar_tag r = tag)"
  by (auto simp: fetch_releases_def web_then_Ok_iff web_return_Ok_iff split: option.splits if_splits)

text \<open>What a list of releases shows.\<close>

lemma list_releases_ok:
  assumes "list_releases v link s = (Ok c, s')"
  shows "repository_validate (gl_repository link) = Ok () \<and> ct_repository c = gl_repository link
    \<and> length (ct_releases c) \<le> 100 \<and> distinct (map gh_id (ct_releases c))
    \<and> (\<forall>r \<in> set (ct_releases c). release_of (gl_repository link) r \<and> (\<forall>tag. gl_tag link = Some tag \<longrightarrow> gh_tag r = tag))
    \<and> (\<exists>given cut_off s1. fetch_releases v link s = (Ok (given, cut_off), s1) \<and> (cut_off \<longrightarrow> ct_truncated c)
         \<and> map shown_release (ct_releases c) = map given_release (filter (\<lambda>r. \<not> ar_draft r) given))"
proof -
  obtain rs cut_off out cut_off' s2 where
    "repository_validate (gl_repository link) = Ok ()" "fetch_releases v link s = (Ok (rs, cut_off), s2)"
    "list_each v (gl_repository link) rs {} 0 cut_off s2 = (Ok (out, cut_off'), s')"
    "ct_repository c = gl_repository link" "ct_releases c = out" "ct_truncated c = cut_off'"
    using assms by (auto simp: list_releases_def web_then_Ok_iff web_return_Ok_iff split: if_splits)
  then show ?thesis
    using list_each_ok [of v "gl_repository link" rs "{}" 0 cut_off s2 out cut_off' s'] fetch_releases_ok [of v link s rs cut_off s2]
    by fastforce
qed

text \<open>What a download gives.\<close>

lemma fetch_identity_ok:
  "fetch_repository_identity v repository s = (Ok i, s') \<Longrightarrow> ri_repository_id i \<noteq> 0 \<and> ri_owner_id i \<noteq> 0"
  by (auto simp: fetch_repository_identity_def web_then_Ok_iff web_return_Ok_iff and_then_ok split: if_splits)

lemma fetch_asset_ok:
  assumes "fetch_asset v repository release_id asset_id s = (Ok (release, asset, identity, bytes), s')"
  shows "repository_validate repository = Ok () \<and> release_of repository release \<and> gh_id release = release_id
    \<and> asset \<in> set (gh_assets release) \<and> ga_id asset = asset_id \<and> ga_size asset \<noteq> 0 \<and> ga_size asset \<le> MAX_ARCHIVE_BYTES
    \<and> int (length bytes) \<le> uint (ga_size asset) \<and> ri_repository_id identity \<noteq> 0 \<and> ri_owner_id identity \<noteq> 0"
proof -
  obtain r s1 s2 where
    fetched: "repository_validate repository = Ok ()" "checked_release repository r = Ok release" "gh_id release = release_id"
      "find (\<lambda>a. ga_id a = asset_id) (gh_assets release) = Some asset" "ga_size asset \<noteq> 0" "ga_size asset \<le> MAX_ARCHIVE_BYTES"
      "fetch_repository_identity v repository s1 = (Ok identity, s2)"
      "get_url v (endpoint v repository [''releases'', ''assets'', show_u64 asset_id] None) True (ga_size asset) s2 = (Ok bytes, s')"
    using assms
    by (auto simp: fetch_asset_def web_then_Ok_iff web_return_Ok_iff not_less split: if_splits option.splits)
  have "asset \<in> set (gh_assets release) \<and> ga_id asset = asset_id"
    using fetched(4) by (auto simp: find_Some_iff)
  then show ?thesis
    using fetched checked_release_of [OF fetched(2)] fetch_identity_ok [OF fetched(7)]
      get_hops_bounded [OF fetched(8) [unfolded get_url_def]]
    by simp
qed

end
