(* ===== verification/Github_Downloads.thy ===== *)
theory Github_Downloads
  imports Github_Properties
begin

text \<open>
  The theorems on the release client: the requests it can make, what a list of releases shows, and
  that a package it downloads is what the inspection of packages accepts.
\<close>

section \<open>The receipt of a download\<close>

text \<open>The date of a release as a receipt may hold it.\<close>

definition storable_date :: "string option \<Rightarrow> bool" where
  "storable_date d \<longleftrightarrow> (case d of None \<Rightarrow> True | Some t \<Rightarrow> length t \<le> 64 \<and> \<not> has_control t)"

lemma download_source:
  assumes "repository_validate repository = Ok ()" "release_of repository release" "asset \<in> set (gh_assets release)"
    and "ga_size asset \<noteq> 0" "ga_size asset \<le> MAX_ARCHIVE_BYTES" "ri_repository_id i \<noteq> 0" "ri_owner_id i \<noteq> 0"
  shows "validate_source (source_of repository release asset sha (Some i)) =
    (if storable_date (gh_published_at release) then Ok () else Err ''github_package_unowned'')"
proof -
  have "repository_parse (gr_url repository) = Ok repository"
    using assms(1) by (auto simp: repository_validate_def and_then_ok split: if_splits)
  moreover obtain link where "link_parse (ga_download_url asset) = Ok link" "gl_repository link = repository"
      "gl_tag link = Some (gh_tag release)" "gl_asset_name link = Some (ga_name asset)" "gh_id release \<noteq> 0" "ga_id asset \<noteq> 0"
    using assms(2,3) by (auto simp: release_of_def asset_of_release_def)
  ultimately show ?thesis
    using assms(4-7) by (auto simp: validate_source_def source_of_def storable_date_def split: option.splits)
qed

text \<open>The readers give digests in the form of SHA-256.\<close>

definition net_ok :: "github_net \<Rightarrow> bool" where
  "net_ok v \<longleftrightarrow>
     (\<forall>s. valid_sha256 (gn_sha256 v s)) \<and> (\<forall>t d. pt_digest (gn_tree v t) = Ok d \<longrightarrow> valid_sha256 d)"

lemma wp_extract_into:
  assumes "grown e w0 w" "in_staging e path" "entry_at path w0 = None"
    and "\<And>t w'. grown e w0 w' \<Longrightarrow> Q (gn_tree v t) w'"
  shows "wp A (extract_into v as bytes path) Q (\<lambda>_. grown e w0) (grown e w0) w"
  unfolding extract_into_def
  by (auto split: prod.split outcome.split intro!: wp_intros assms grown_put)

lemma wp_write_receipt:
  assumes "net_ok v" "env_ok e" "grown e w0 w" "in_staging e path" "path_is_absolute path" "entry_at path w0 = None"
    and valid: "validate_source source = (if b then Ok () else Err ''github_package_unowned'')"
    and source: "source = source_of repository release asset sha identity" "valid_sha256 sha"
    and Q: "\<And>x w'. grown e w0 w' \<Longrightarrow> pp_path x = path \<Longrightarrow> pp_source x = source \<Longrightarrow>
      inspect_entry e path (entry_at path w') = (if b then Ok x else Err ''github_package_unowned'') \<Longrightarrow> Q x w'"
  shows "wp A (write_receipt repository release asset sha identity (gn_tree v t) path) Q (\<lambda>_. grown e w0) (grown e w0) w"
  unfolding write_receipt_def Let_def source(1) [symmetric]
proof (intro wp_intros assms(3) grown_put assms(4,6))
  fix manifest metadata digest
  assume read: "pt_manifest (gn_tree v t) = Ok manifest" "pt_metadata (gn_tree v t) = Ok metadata" "pt_digest (gn_tree v t) = Ok digest"
  have "gs_sha256 source = sha" using source(1) by (simp add: source_of_def)
  then show "Q \<lparr>pp_path = path, pp_source = source, pp_manifest = manifest, pp_metadata = metadata\<rparr>
      (put_entry path (Package \<lparr>pg_tree = gn_tree v t,
        pg_receipt = Some \<lparr>rc_schema = 2, rc_path = None, rc_source = source, rc_tree = digest\<rparr>\<rparr>) w)"
    using assms(1,4,5) source(2) valid read
    by (intro Q grown_put assms(3,4,6))
      (auto simp: inspect_entry_def inspect_package_def receipt_matches_def net_ok_def)
qed

lemma wp_prepare_bytes:
  assumes "net_ok v" "env_ok e"
    and valid: "\<And>sha. validate_source (source_of repository release asset sha identity) = (if b then Ok () else Err ''github_package_unowned'')"
  shows "wp A (prepare_bytes e v as repository release asset bytes identity)
    (\<lambda>x w'. grown e w w' \<and> in_staging e (pp_path x) \<and> entry_at (pp_path x) w = None
       \<and> int (length bytes) = uint (ga_size asset) \<and> (\<forall>d. ga_digest asset = Some d \<longrightarrow> d = ''sha256:'' @ gn_sha256 v bytes)
       \<and> pp_source x = source_of repository release asset (gn_sha256 v bytes) identity
       \<and> inspect_entry e (pp_path x) (entry_at (pp_path x) w') = (if b then Ok x else Err ''github_package_unowned''))
    (\<lambda>_. grown e w) (grown e w) w"
  unfolding prepare_bytes_def Let_def
proof (intro wp_intros wp_fresh_directory [OF assms(2)] wp_guarded [where J = "grown e w"])
  fix path w1
  assume path: "grown e w w1" "in_staging e path" "path_is_absolute path" "entry_at path w = None"
    and size: "int (length bytes) = uint (ga_size asset)"
    and digest: "ga_digest asset = None \<or> ga_digest asset = Some (''sha256:'' @ gn_sha256 v bytes)"
  have sha: "valid_sha256 (gn_sha256 v bytes)" using assms(1) by (simp add: net_ok_def)
  show "wp A (extract_into v as bytes path) (\<lambda>t. wp A
       (write_receipt repository release asset (gn_sha256 v bytes) identity t path)
       (\<lambda>x w'. grown e w w' \<and> in_staging e (pp_path x) \<and> entry_at (pp_path x) w = None
       \<and> int (length bytes) = uint (ga_size asset) \<and> (\<forall>d. ga_digest asset = Some d \<longrightarrow> d = ''sha256:'' @ gn_sha256 v bytes)
       \<and> pp_source x = source_of repository release asset (gn_sha256 v bytes) identity
       \<and> inspect_entry e (pp_path x) (entry_at (pp_path x) w') = (if b then Ok x else Err ''github_package_unowned''))
       (\<lambda>_. grown e w) (grown e w)) (\<lambda>_. grown e w) (grown e w) w1"
    by (rule wp_extract_into [OF path(1,2,4)],
        rule wp_write_receipt [OF assms(1,2) _ path(2-4) valid refl sha])
      (use path size digest in auto)
qed (auto intro: grown_drop grown_put)

section \<open>Theorems\<close>

text \<open>
  C7: the list of the releases of a repository takes at most 30 requests, all of them HTTPS requests
  to api.github.com on the default port, without credentials in the URL; the download of an asset
  takes at most 24, each to one of GitHub's hosts that is trusted for its purpose. No answer of a
  server, redirects included, can make the client ask anything else.
\<close>

theorem only_github_is_asked:
  "(\<exists>new. wb_sent (snd (list_releases v link s)) = wb_sent s @ new \<and> length new \<le> 30
      \<and> list_all (\<lambda>(url, asset). wu_scheme url = ''https'' \<and> wu_host url = Some ''api.github.com'' \<and> wu_port url = None
           \<and> wu_username url = [] \<and> wu_password url = None) new)
   \<and> (\<exists>new. wb_sent (snd (fetch_asset v repository release_id asset_id s)) = wb_sent s @ new \<and> length new \<le> 24
      \<and> list_all (\<lambda>(url, asset). trusted_url url asset) new)"
proof -
  obtain new where new: "wb_sent (snd (list_releases v link s)) = wb_sent s @ new" "asked False 30 new"
    using asks_list_releases [where d = False and v = v and link = link] unfolding asks_def by blast
  then have "list_all (\<lambda>(url, asset). wu_scheme url = ''https'' \<and> wu_host url = Some ''api.github.com'' \<and> wu_port url = None
      \<and> wu_username url = [] \<and> wu_password url = None) new"
    by (auto simp: asked_def trusted_url_def list_all_iff split: option.splits)
  moreover obtain new' where "wb_sent (snd (fetch_asset v repository release_id asset_id s)) = wb_sent s @ new'" "asked True 24 new'"
    using asks_fetch_asset [of v repository release_id asset_id] unfolding asks_def by blast
  ultimately show ?thesis using new by (auto simp: asked_def)
qed

text \<open>
  C24: a list of releases shows, in the order of the API's answer, exactly the releases of that answer
  that are not drafts, with their ids, tags and prerelease marks; when the answer was cut off, the
  list says so. There are at most 100, each once, and they belong to the repository of the link: the
  page of the release and the download of each of its assets are links to that repository under the
  tag of the release, each asset is offered once under a name a package may have, and a digest is a
  SHA-256. When the link names a tag, only releases of that tag are shown.
\<close>

theorem listed_releases_are_of_repository:
  assumes "list_releases v link s = (Ok c, s')"
  shows "ct_repository c = gl_repository link \<and> repository_validate (ct_repository c) = Ok ()
    \<and> length (ct_releases c) \<le> 100 \<and> distinct (map gh_id (ct_releases c))
    \<and> (\<forall>r \<in> set (ct_releases c). valid_tag (gh_tag r) \<and> (\<forall>tag. gl_tag link = Some tag \<longrightarrow> gh_tag r = tag)
        \<and> (\<exists>l. link_parse (gh_url r) = Ok l \<and> gl_repository l = gl_repository link \<and> gl_tag l = Some (gh_tag r))
        \<and> distinct (map ga_id (gh_assets r))
        \<and> (\<forall>a \<in> set (gh_assets r). asset_of_release (gl_repository link) (gh_tag r) a))
    \<and> (\<exists>given cut_off s1. fetch_releases v link s = (Ok (given, cut_off), s1) \<and> (cut_off \<longrightarrow> ct_truncated c)
         \<and> map (\<lambda>r. (gh_id r, gh_tag r, gh_prerelease r)) (ct_releases c)
           = map (\<lambda>r. (ar_id r, ar_tag r, ar_prerelease r)) (filter (\<lambda>r. \<not> ar_draft r) given))"
  using list_releases_ok [OF assms] by (auto simp: release_of_def shown_release_def [abs_def] given_release_def [abs_def])

text \<open>
  C5: preparing a download either fails, and then at most leftovers in the staging directory have
  appeared, or gives a new package in the staging directory. Its bytes are those that were received
  for the selected asset of the selected release, their size is the one GitHub states for the asset
  and, if GitHub states a digest, their SHA-256 is that digest; the record names that release, asset,
  repository and hash. The inspection of packages accepts the package with exactly the record the
  download returned, unless the date of the release is one a receipt may not hold: the client does
  not check that date, and then the inspection refuses its own package.
\<close>

theorem downloaded_package_passes_inspection:
  assumes "env_ok e" "net_ok v"
    and "prepare_asset e v answers repository release_id asset_id net as w = (x, as', w')"
  shows "grown e w w' \<and> (\<forall>p. x = Val p \<longrightarrow>
    in_staging e (pp_path p) \<and> entry_at (pp_path p) w = None
    \<and> (\<exists>release asset identity bytes.
        fst (fetch_asset v repository release_id asset_id net) = Ok (release, asset, identity, bytes)
        \<and> gh_id release = release_id \<and> asset \<in> set (gh_assets release) \<and> ga_id asset = asset_id
        \<and> int (length bytes) = uint (ga_size asset) \<and> ga_size asset \<le> MAX_ARCHIVE_BYTES
        \<and> (\<forall>d. ga_digest asset = Some d \<longrightarrow> d = ''sha256:'' @ gn_sha256 v bytes)
        \<and> pp_source p = source_of repository release asset (gn_sha256 v bytes) (Some identity))
    \<and> inspect_entry e (pp_path p) (entry_at (pp_path p) w') =
        (if storable_date (gs_release_published_at (pp_source p)) then Ok p else Err ''github_package_unowned''))"
proof -
  obtain r s where r: "fetch_asset v repository release_id asset_id net = (r, s)" by (cases "fetch_asset v repository release_id asset_id net")
  show ?thesis
  proof (cases r)
    case (Ok y)
    obtain release asset identity bytes where y: "y = (release, asset, identity, bytes)" by (cases y)
    have f: "repository_validate repository = Ok () \<and> release_of repository release \<and> gh_id release = release_id
      \<and> asset \<in> set (gh_assets release) \<and> ga_id asset = asset_id \<and> ga_size asset \<noteq> 0 \<and> ga_size asset \<le> MAX_ARCHIVE_BYTES
      \<and> int (length bytes) \<le> uint (ga_size asset) \<and> ri_repository_id identity \<noteq> 0 \<and> ri_owner_id identity \<noteq> 0"
      by (rule fetch_asset_ok) (use r Ok y in simp)
    have run: "prepare_bytes e v answers repository release asset bytes (Some identity) as w = (x, as', w')"
      using assms(3) by (simp add: prepare_asset_def r Ok y)
    note wp = wp_prepare_bytes [OF assms(2,1), where A = UNIV and b = "storable_date (gh_published_at release)"]
    have source: "validate_source (source_of repository release asset sha (Some identity)) =
        (if storable_date (gh_published_at release) then Ok () else Err ''github_package_unowned'')" for sha
      using f by (intro download_source) simp_all
    have fetched: "fst (fetch_asset v repository release_id asset_id net) = Ok (release, asset, identity, bytes)"
      by (simp add: r Ok y)
    show ?thesis
    proof (cases x)
      case (Val p)
      have date: "gs_release_published_at (source_of repository release asset sha (Some identity)) = gh_published_at release" for sha
        by (simp add: source_of_def)
      note p = wpD [OF wp [OF source] _ run, unfolded Val, simplified]
      then show ?thesis using f fetched by (simp add: Val date)
    next
      case (Fails e)
      show ?thesis using wpD [OF wp [OF source] _ run] unfolding Fails by simp
    next
      case Stops
      show ?thesis using wpD [OF wp [OF source] _ run] unfolding Stops by simp
    qed
  qed (use assms(3) in \<open>auto simp: prepare_asset_def r fails_def panics_def\<close>)
qed

end
