(* ===== verification/Github_Demo.thy ===== *)
theory Github_Demo
  imports Github_Downloads Archive_Demo Install_Demo
begin

text \<open>
  A repository with one release, whose asset is the archive of the example; the download of the asset
  is redirected once.
\<close>

definition demo_repository :: github_repository where
  "demo_repository = \<lparr>gr_owner = ''dev'', gr_name = ''tool'', gr_url = ''https://github.com/dev/tool''\<rparr>"

definition demo_api_asset :: api_asset where
  "demo_api_asset = \<lparr>aa_id = 2, aa_name = ''tool.zip'', aa_size = 211, aa_content_type = ''application/zip'',
     aa_url = ''https://github.com/dev/tool/releases/download/v2/tool.zip'', aa_state = ''uploaded'',
     aa_digest = Some (''sha256:'' @ demo_hash ''a''), aa_count = None\<rparr>"

definition demo_api_release :: api_release where
  "demo_api_release = \<lparr>ar_id = 1, ar_tag = ''v2'', ar_name = None, ar_url = ''https://github.com/dev/tool/releases/tag/v2'',
     ar_draft = False, ar_prerelease = False, ar_published_at = Some ''2026-01-01T00:00:00Z'', ar_assets = [demo_api_asset]\<rparr>"

definition demo_url :: "string \<Rightarrow> string \<Rightarrow> web_url" where
  "demo_url host rest = \<lparr>wu_scheme = ''https'', wu_username = [], wu_password = None, wu_port = None, wu_fragment = None,
     wu_host = Some host, wu_rest = rest\<rparr>"

definition demo_net :: github_net where
  "demo_net = \<lparr>gn_api = (\<lambda>path _. demo_url ''api.github.com'' (concat (map ((#) slash) path))),
     gn_join = (\<lambda>_ l. Some (demo_url ''objects.githubusercontent.com'' l)),
     gn_release = (\<lambda>_. Some demo_api_release), gn_releases = (\<lambda>_. Some [demo_api_release]), gn_assets = (\<lambda>_. Some []),
     gn_identity = (\<lambda>_. Some \<lparr>ai_id = 5, ai_url = ''https://github.com/dev/tool'', ai_full_name = ''dev/tool'',
        ai_owner_id = 6, ai_owner_login = ''Dev''\<rparr>),
     gn_sha256 = (\<lambda>_. demo_hash ''a''), gn_reader = demo_zip_reader, gn_tree = (\<lambda>_. demo_tree ''v2'' demo_new_manifest)\<rparr>"

definition demo_reply :: "string \<Rightarrow> web_reply" where
  "demo_reply body = \<lparr>wr_status = 200, wr_location = None, wr_encoding = None, wr_length = None, wr_chunks = [Ok body]\<rparr>"

definition demo_web :: web_state where
  "demo_web = \<lparr>wb_sent = [], wb_replies = [Ok (demo_reply ''{}''), Ok (demo_reply ''{}''),
     Ok ((demo_reply [])\<lparr>wr_status := 302, wr_location := Some ''/tool''\<rparr>), Ok (demo_reply demo_zip)]\<rparr>"

definition demo_link :: github_link where
  "demo_link = \<lparr>gl_repository = demo_repository, gl_tag = None, gl_asset_name = None, gl_latest = False\<rparr>"

definition demo_release :: github_release where
  "demo_release = \<lparr>gh_id = 1, gh_tag = ''v2'', gh_name = ''v2'', gh_url = ''https://github.com/dev/tool/releases/tag/v2'',
     gh_prerelease = False, gh_published_at = Some ''2026-01-01T00:00:00Z'', gh_assets = [asset_of demo_api_asset]\<rparr>"

lemma demo_listed:
  "fst (list_releases demo_net demo_link demo_web) =
     Ok \<lparr>ct_repository = demo_repository, ct_releases = [demo_release], ct_truncated = False,
         ct_requested_tag = None, ct_requested_asset = None\<rparr>"
  by code_simp

theorem listed_releases_are_of_repository_witness:
  "valid_tag (gh_tag demo_release) \<and> asset_of_release demo_repository (gh_tag demo_release) (asset_of demo_api_asset)"
proof -
  obtain s' where "list_releases demo_net demo_link demo_web =
     (Ok \<lparr>ct_repository = demo_repository, ct_releases = [demo_release], ct_truncated = False,
         ct_requested_tag = None, ct_requested_asset = None\<rparr>, s')"
    using demo_listed by (cases "list_releases demo_net demo_link demo_web") simp
  from listed_releases_are_of_repository [OF this] show ?thesis by (simp add: demo_link_def demo_release_def)
qed

lemma demo_fetched:
  "fst (fetch_asset demo_net demo_repository 1 2 demo_web) =
     Ok (demo_release, asset_of demo_api_asset, \<lparr>ri_repository_id = 5, ri_owner_id = 6\<rparr>, demo_zip)"
  by code_simp

lemma demo_net_ok: "net_ok demo_net"
  using demo_digests by (simp add: net_ok_def demo_net_def demo_tree_def)

lemma demo_zip_extracted: "\<exists>t. extract_archive demo_zip_reader demo_zip [] bt_empty = (Ok (), [], t)"
  by (rule plain_archive [OF demo_preflight, of _ demo_archive])
    (use demo_decodes in \<open>auto simp: demo_zip_reader_def demo_archive_def demo_zip_length\<close>)

definition demo_download :: prepared_package where
  "demo_download = \<lparr>pp_path = ''/c/packages/github/.staging/download-'',
     pp_source = source_of demo_repository demo_release (asset_of demo_api_asset) (demo_hash ''a'')
       (Some \<lparr>ri_repository_id = 5, ri_owner_id = 6\<rparr>),
     pp_manifest = demo_new_manifest, pp_metadata = None\<rparr>"

lemma demo_prepared:
  "\<exists>w'. prepare_asset demo_install demo_net [] demo_repository 1 2 demo_web [] demo_disk_before = (Val demo_download, [], w')"
proof -
  obtain t where t: "extract_archive demo_zip_reader demo_zip [] bt_empty = (Ok (), [], t)"
    using demo_zip_extracted by blast
  have size: "length demo_zip = 211" by code_simp
  have path: "path_join (staging_root demo_install) (''download-'' @ ie_random demo_install 0) = pp_path demo_download"
    by code_simp
  have free: "entry_at (pp_path demo_download) demo_disk_before = None" by code_simp
  have start: "iw_sequence demo_disk_before = 0" by (simp add: demo_disk_before_def)
  have net: "gn_sha256 demo_net s = demo_hash ''a''" "gn_reader demo_net = demo_zip_reader"
    "gn_tree demo_net t = demo_tree ''v2'' demo_new_manifest" for s t by (simp_all add: demo_net_def)
  have asset: "ga_size (asset_of demo_api_asset) = 211" "ga_digest (asset_of demo_api_asset) = Some (''sha256:'' @ demo_hash ''a'')"
    by (simp_all add: asset_of_def demo_api_asset_def)
  show ?thesis
    by (simp add: prepare_asset_def demo_fetched prepare_bytes_def fresh_directory_def extract_into_def net asset t write_receipt_def
        guarded_def io_catch_def io_try_def Let_def
        io_then_def check_that_def os_read_def os_call_def os_call_torn_def gets_def lift_outcome_def ret_def
        start path [simplified] size exists_at_iff free)
      (simp add: demo_tree_def demo_download_def)
qed

theorem downloaded_package_passes_inspection_witness:
  "\<exists>w'. prepare_asset demo_install demo_net [] demo_repository 1 2 demo_web [] demo_disk_before = (Val demo_download, [], w')
     \<and> inspect_entry demo_install (pp_path demo_download) (entry_at (pp_path demo_download) w') = Ok demo_download"
proof -
  obtain w' where run: "prepare_asset demo_install demo_net [] demo_repository 1 2 demo_web [] demo_disk_before = (Val demo_download, [], w')"
    using demo_prepared by blast
  have "storable_date (gs_release_published_at (pp_source demo_download))" by code_simp
  with run downloaded_package_passes_inspection [OF demo_env_ok demo_net_ok run] show ?thesis by auto
qed

end
