(* ===== verification/Spec2Isabelle.thy ===== *)
theory Spec2Isabelle
  imports Activation_Sort Permission_Policy Manifest Rpc_Properties Registry_Trust Framing_Properties Lifecycle_Demo Event_Properties Resource_Demo Install_Demo Archive_Demo Github_Demo
begin

text \<open>
  Codlet: a verification library for the Rust core under \<open>src/src/\<close>.

  Codlet attaches plugins to a desktop client. A plugin is a package with a manifest and a
  renderer half, which runs in a page of the client, a host half, which runs in a JavaScript
  process, or both. The core process decides which packages are trusted (the plugin registry),
  downloads and replaces them (managed installations), loads them (the catalog and the local
  loader), plans what a change starts and stops (the lifecycle), connects what one plugin
  requires to what another provides (the capability registry), routes the calls between
  documents, hosts and plugins (the managed RPC state), bounds what a granted permission may
  touch (the broker policy), keeps event logs, tasks and processes for plugins (the resource service), and
  speaks to the client and to the plugin hosts over two framed byte streams.

  Conventions. A Rust \<open>String\<close> or path is the list of its UTF-8 bytes; integers of a fixed width
  are words, \<open>usize\<close> is \<open>nat\<close>. A function that returns \<open>Result\<close> returns \<open>Ok\<close>, \<open>Err\<close> or \<open>Panic\<close>, the
  last for a failed \<open>expect\<close>, an overflow or \<open>unreachable!\<close>. An operation on \<open>&mut self\<close>, or on \<open>&self\<close>
  under a mutex, returns its outcome and the state after it. A \<open>BTreeMap\<close> is the type \<open>btree\<close> of
  \<open>Prelude\<close>. Of the branches of \<open>cfg\<close> those of Unix
  are modelled, and of Windows the tests that refuse something, under a flag. What is not under \<open>src/\<close> is an argument:
  \<open>serde_json\<close>, \<open>url::Url\<close>, hashes, the file system and the answers of the operating system,
  clocks, random names and tokens; what the code relies on is a named hypothesis
  (\<open>codec_ok\<close>, \<open>env_ok\<close>, \<open>storable\<close>), satisfied at the concrete runs of the witnesses.

  Shared theories. \<open>Prelude\<close>: outcomes, words with checked operations, ordered maps with the
  interface \<open>bounded_map\<close>, decimal text. \<open>Text_Path\<close>: UTF-8, white space, \<open>std::path\<close>. \<open>Json_Value\<close>:
  \<open>serde_json::Value\<close>. \<open>Transitions\<close>: the interfaces \<open>transition_system\<close> (an invariant of a step
  relation holds in what is reachable) and \<open>revocable\<close> (what was rejected once is rejected for
  good), interpreted by the registry, the RPC state, the registry file, the event logs, the tasks
  and the resource service.

  Capabilities (\<open>capabilities.rs\<close>). \<open>Capabilities\<close> holds names, versions, scopes and their
  validation, \<open>Cap_Registry\<close> registrations, active scopes, principals and leases
  (\<open>CapabilityRegistry\<close>), \<open>Activation_Order\<close> the topological sort and the cycle search.
  \<open>Cap_Authority\<close> proves that the tables stay consistent, what an accepted token proves, and that
  a revoked one is never accepted again. \<open>Activation_Correct\<close> and \<open>Activation_Sort\<close> prove that the
  order is a permutation with providers first, and that it exists exactly when requirements are
  met and acyclic. Fuel: one unit per registration and one for the last test, which the theorems
  show to be enough (a provider is activated, and entered by the search, at most once).

  Permissions and manifests (\<open>plugins.rs\<close>, \<open>plugin_permissions.rs\<close>). \<open>Permission_Policy\<close> holds the
  permissions and the broker policy, \<open>Manifest\<close> the manifest and its validation.

  Managed RPC (\<open>host_runtime/rpc_state.rs\<close>). \<open>Rpc_State\<close> holds the tables of \<open>RpcState\<close> and every
  operation on them; the mutex makes each one step. \<open>Rpc_Invariants\<close> and \<open>Rpc_Steps\<close> prove the
  invariant, aspect by aspect, for the state together with what the executors hold;
  \<open>Rpc_Authority\<close> and \<open>Rpc_Properties\<close> prove that ended documents, retired generations and vanished
  handles stay refused, that routes only narrow the bounds of their parents, and that every table
  is bounded.

  Plugin registry on disk (\<open>plugins.rs\<close>, records of \<open>managed_plugins.rs\<close>). \<open>Registry_Store\<close> holds the
  document, the snapshot with staged edits (\<open>PluginRegistry\<close>) and \<open>save\<close> with its lock, temporary
  file and replacement. The lock loop terminates because every poll brings its deadline nearer. \<open>Registry_Lemmas\<close>, \<open>Registry_Properties\<close>, \<open>Registry_Saving\<close> and
  \<open>Registry_Trust\<close> prove that a save changes exactly what was staged or nothing, that it can be
  loaded back, and that the file stays loadable whatever processes interleave.

  Catalog and lifecycle (\<open>catalog.rs\<close>, \<open>plugin_lifecycle.rs\<close>, \<open>local_plugins.rs\<close>). \<open>Local_Plugins\<close> and
  \<open>Local_Loading\<close> model and verify the checked path and the load of a plugin under its
  registration; \<open>Catalog\<close> and \<open>Catalog_Selection\<close> the entries and the selection of the enabled ones;
  \<open>Lifecycle\<close>, \<open>Lifecycle_Plans\<close>, \<open>Lifecycle_Order\<close>, \<open>Lifecycle_Writes\<close> and \<open>Lifecycle_Demo\<close> affected
  plugins, activation plans, the logical order and the guarded writes. The loop of the affected
  plugins terminates because each turn that continues adds a plugin to the set. The logical order
  sorts entries, not packages: a package with both halves stands at its renderer entry, so a package
  that requires a capability of its Host entry may stand before it (\<open>combined_package_may_follow\<close>).

  Framing (\<open>cdp/framing.rs\<close>, \<open>plugin_host/protocol.rs\<close>). \<open>Framing\<close> holds both decoders, as instances
  of the interface \<open>frame_decoder\<close>, and both encoders; \<open>Framing_Properties\<close> proves that chunking does
  not matter and that what one end encodes the other decodes.

  Resources (\<open>core_resources.rs\<close>, \<open>core_resources/\<close>). \<open>Resource_Events\<close>, \<open>Resource_Tasks\<close>,
  \<open>Resource_Processes\<close> and \<open>Resource_Service\<close> hold topics and subscriptions, runners and tasks, the
  processes plugins start with their monitors, and the service that owns all three; a waiting call
  takes the turns it gets under the lock as a list, and what the others do between the parts of a
  call is an argument. \<open>Event_Log\<close>, \<open>Event_Runs\<close> and \<open>Event_Properties\<close> show that a topic behaves as
  the list of everything published on it; \<open>Task_Runs\<close> and \<open>Task_Properties\<close> that tasks follow one
  protocol and outcomes are final; \<open>Process_Properties\<close> that a closed process stays closed, and the
  bounds of buffers and tables; \<open>Resource_Properties\<close> and \<open>Resource_Demo\<close> that calls are steps of the
  service, that it is made of such stores, and that a retired owner stays out. Whether a process is
  gone is what the operating system answers: a retirement may end with the answer that it could not
  be confirmed.

  Managed installations (\<open>github_distribution.rs\<close>, \<open>managed_storage.rs\<close>, \<open>managed_plugins.rs\<close>,
  \<open>plugin_cli.rs\<close>). \<open>Github_Links\<close> holds the links and sources a receipt may name,
  \<open>Managed_Packages\<close> the operations on package directories, \<open>Managed_Storage\<close> registrations and
  their checkpoints, \<open>Managed_Install\<close> the transaction (\<open>Installation\<close>), the recovery of the next start
  (\<open>prepare_installations\<close>) and the managed branch of \<open>edit_registration\<close>. The disk is a map from
  places to directories with the journals, the checkpoints and the registry document; a program
  takes a list of answers of the operating system, so that each call can succeed, be refused, stop
  half way or be the last one before the process ends. A removal or a copy that is cut off, by an
  error or by the end of the process, is the answer \<open>Torn\<close>, followed by \<open>Crash\<close> in the second case;
  what such a removal leaves at the place of a plugin blocks the rollback (\<open>remains_block_rollback\<close>).
  \<open>Install_Logic\<close> is a logic of such programs
  with a postcondition for each way to end; \<open>Install_Packages\<close>, \<open>Install_Operations\<close> and
  \<open>Install_Registry\<close> are its rules for the operations; \<open>Install_Recovery\<close>, \<open>Install_Rollback\<close>,
  \<open>Install_Publish\<close>, \<open>Install_Swap\<close>, \<open>Install_Selection\<close>, \<open>Install_Update\<close> carry one invariant through
  a whole update: the previous package is at its place or in the backup the journal names, until the
  new one is committed, however many starts are disturbed as well. \<open>Install_Restart\<close> and \<open>Install_Completes\<close> compute the runs in which every call
  succeeds, \<open>Install_Frame\<close> shows what other plugins keep, \<open>Install_Properties\<close> states the theorems and
  \<open>Install_Demo\<close> applies them.

  Archives and releases (\<open>github_distribution/archive.rs\<close>, \<open>GitHubClient\<close> of
  \<open>github_distribution.rs\<close>). \<open>Archive\<close> holds the check of a ZIP file (\<open>preflight\<close>) and its extraction
  into a new directory, which is a map from relative names to contents; the decoder of the \<open>zip\<close>
  crate is an argument that may answer anything. The reader of extra fields terminates because the
  offset grows. \<open>Archive_Names\<close>, \<open>Archive_Checks\<close>, \<open>Archive_Extract\<close>, \<open>Archive_Properties\<close> and
  \<open>Archive_Completes\<close> show that accepted names stay below the root and never collide, that each byte
  is accounted for, that an extraction stays within names and limits whatever the decoder does, and
  that it is complete when the decoder agrees with the headers; \<open>Archive_Demo\<close> runs a real file.
  \<open>Github_Releases\<close> holds the requests, the checks of the API's answers and the preparation of a
  package; the network is the list of its answers, and at most 6 requests follow one address.
  \<open>Github_Properties\<close> and \<open>Github_Downloads\<close> show what is asked, what is listed, and that a
  downloaded package passes the inspection of installed packages; \<open>Github_Demo\<close> applies them.

  Not modelled. The platform layers, the CDP client, renderer attachment, the event loop of the
  host runtime, the host control coordinator, process supervision, the JavaScript runtimes, the
  built-in services and self-update are asynchronous input and output over state of the operating
  system or of a remote browser. The built-in host provider and local watch fingerprints are
  modelled only where another component asks them. Texts of error messages are
  left out.
\<close>

end
